(* ===== verification/Cam_Prelude.thy ===== *)
theory Cam_Prelude
  imports Main "HOL-Library.Word"
begin

text \<open>
  Shared vocabulary of the development: the C integer types as words, the errno values the
  drivers return, the kernel's bitmap primitives, arrays as functions on indices, and the
  generic lemmas and interfaces (slot allocator, invariant system) the components use.
\<close>

unbundle bit_operations_syntax

named_theorems wfdefs \<open>the conjuncts of a component invariant\<close>

section \<open>C integers, pointers and return codes\<close>

type_synonym u8 = "8 word"
type_synonym u16 = "16 word"
type_synonym u32 = "32 word"
type_synonym u64 = "64 word"

text \<open>A pointer is a 64-bit word, \<open>0\<close> is \<open>NULL\<close>. A C \<open>int\<close> return code is an \<open>int\<close>.\<close>

type_synonym ptr = u64
type_synonym rc = int

abbreviation EPERM :: rc where "EPERM \<equiv> 1"
abbreviation ENOENT :: rc where "ENOENT \<equiv> 2"
abbreviation EIO :: rc where "EIO \<equiv> 5"
abbreviation EAGAIN :: rc where "EAGAIN \<equiv> 11"
abbreviation ENOMEM :: rc where "ENOMEM \<equiv> 12"
abbreviation EFAULT :: rc where "EFAULT \<equiv> 14"
abbreviation EEXIST :: rc where "EEXIST \<equiv> 17"
abbreviation ENODEV :: rc where "ENODEV \<equiv> 19"
abbreviation EINVAL :: rc where "EINVAL \<equiv> 22"
abbreviation ENOSPC :: rc where "ENOSPC \<equiv> 28"
abbreviation ENOSR :: rc where "ENOSR \<equiv> 63"
abbreviation EPROTO :: rc where "EPROTO \<equiv> 71"
abbreviation ETIMEDOUT :: rc where "ETIMEDOUT \<equiv> 110"
abbreviation EALREADY :: rc where "EALREADY \<equiv> 114"
abbreviation ENOIOCTLCMD :: rc where "ENOIOCTLCMD \<equiv> 515"

text \<open>
  The kernel's \<open>strlcpy\<close> into a buffer of \<open>sz\<close> bytes, on strings without their terminator:
  at most \<open>sz - 1\<close> characters are kept.
\<close>

definition strlcpy :: "string \<Rightarrow> nat \<Rightarrow> string" where
  "strlcpy src sz = take (sz - 1) src"

section \<open>Bitmaps\<close>

text \<open>
  A bitmap is a predicate on bit numbers. \<open>find_first_zero_bit\<close> is the kernel's: the least
  zero bit below \<open>sz\<close>, or \<open>sz\<close> when there is none.
\<close>

type_synonym bitmap = "nat \<Rightarrow> bool"

function find_next_zero_bit :: "bitmap \<Rightarrow> nat \<Rightarrow> nat \<Rightarrow> nat" where
  "find_next_zero_bit bm sz i =
     (if i < sz \<and> bm i then find_next_zero_bit bm sz (Suc i) else min i sz)"
  by pat_completeness auto
termination
  by (relation "measure (\<lambda>(bm, sz, i). sz - i)") auto

declare find_next_zero_bit.simps [simp del]

definition find_first_zero_bit :: "bitmap \<Rightarrow> nat \<Rightarrow> nat" where
  "find_first_zero_bit bm sz = find_next_zero_bit bm sz 0"

lemma find_next_zero_bit_le: "find_next_zero_bit bm sz i \<le> sz"
  by (induction bm sz i rule: find_next_zero_bit.induct)
    (subst find_next_zero_bit.simps, simp)

lemma find_next_zero_bit_free:
  "find_next_zero_bit bm sz i < sz \<Longrightarrow> \<not> bm (find_next_zero_bit bm sz i)"
proof (induction bm sz i rule: find_next_zero_bit.induct)
  case (1 bm sz i)
  then show ?case
    by (cases "i < sz \<and> bm i") (auto simp: find_next_zero_bit.simps [of bm sz i] min_def)
qed

lemma find_next_zero_bit_least:
  "i \<le> j \<Longrightarrow> j < find_next_zero_bit bm sz i \<Longrightarrow> bm j"
proof (induction bm sz i rule: find_next_zero_bit.induct)
  case (1 bm sz i)
  show ?case
  proof (cases "i < sz \<and> bm i")
    case True
    then have eq: "find_next_zero_bit bm sz i = find_next_zero_bit bm sz (Suc i)"
      by (simp add: find_next_zero_bit.simps [of bm sz i])
    show ?thesis
    proof (cases "j = i")
      case False
      with 1 True eq show ?thesis by auto
    qed (use True in simp)
  next
    case False
    with 1 show ?thesis by (auto simp: find_next_zero_bit.simps [of bm sz i])
  qed
qed

lemma ffz_le: "find_first_zero_bit bm sz \<le> sz"
  by (simp add: find_first_zero_bit_def find_next_zero_bit_le)

lemma ffz_free: "find_first_zero_bit bm sz < sz \<Longrightarrow> \<not> bm (find_first_zero_bit bm sz)"
  by (simp add: find_first_zero_bit_def find_next_zero_bit_free)

lemma ffz_least: "j < find_first_zero_bit bm sz \<Longrightarrow> bm j"
  by (auto simp: find_first_zero_bit_def intro: find_next_zero_bit_least)

lemma ffz_full_iff: "sz \<le> find_first_zero_bit bm sz \<longleftrightarrow> (\<forall>i < sz. bm i)"
proof
  assume "sz \<le> find_first_zero_bit bm sz"
  then show "\<forall>i < sz. bm i" using ffz_least [of _ bm sz] by (meson less_le_trans)
next
  assume "\<forall>i < sz. bm i"
  then show "sz \<le> find_first_zero_bit bm sz" using ffz_free [of bm sz] by (meson not_le)
qed

lemma ffz_pos: "bm 0 \<Longrightarrow> 0 < sz \<Longrightarrow> 0 < find_first_zero_bit bm sz"
  by (metis ffz_free gr0I)

text \<open>Bits at and above the sz do not matter.\<close>

lemma ffz_zero_at:
  assumes "\<not> bm i" and "i < sz" and "\<And>j. j < i \<Longrightarrow> bm j"
  shows "find_first_zero_bit bm sz = i"
proof (rule ccontr)
  assume ne: "find_first_zero_bit bm sz \<noteq> i"
  then consider "find_first_zero_bit bm sz < i" | "i < find_first_zero_bit bm sz"
    by linarith
  then show False
  proof cases
    case 1
    with assms show False using ffz_free [of bm sz] by auto
  next
    case 2
    with assms show False using ffz_least [of i bm sz] by auto
  qed
qed

section \<open>Interface: an allocator of numbered slots\<close>

text \<open>
  Three tables of the camera core (sync objects, handles, memory buffers) hand out the index
  of the first clear bit of a bitmap and take it back later. What their clients rely on is
  this contract: \<open>alloc\<close> gives a slot that was free and marks exactly it as used, fails only
  when every slot is used, and \<open>release\<close> frees exactly its slot.
\<close>

locale slot_allocator =
  fixes used :: "'s \<Rightarrow> nat \<Rightarrow> bool"
    and alloc :: "'s \<Rightarrow> nat option \<times> 's"
    and release :: "nat \<Rightarrow> 's \<Rightarrow> 's"
    and lo :: nat
    and hi :: nat
    and ok :: "'s \<Rightarrow> bool"
  assumes alloc_free: "ok s \<Longrightarrow> alloc s = (Some i, s') \<Longrightarrow> lo \<le> i \<and> i < hi \<and> \<not> used s i"
    and alloc_used: "ok s \<Longrightarrow> alloc s = (Some i, s') \<Longrightarrow> used s' = (used s)(i := True)"
    and alloc_full: "ok s \<Longrightarrow> alloc s = (None, s') \<Longrightarrow>
      (\<forall>i. lo \<le> i \<and> i < hi \<longrightarrow> used s i) \<and> used s' = used s"
    and alloc_ok: "ok s \<Longrightarrow> ok (snd (alloc s))"
    and release_used: "ok s \<Longrightarrow> lo \<le> i \<Longrightarrow> i < hi \<Longrightarrow> used (release i s) = (used s)(i := False)"
    and release_ok: "ok s \<Longrightarrow> lo \<le> i \<Longrightarrow> i < hi \<Longrightarrow> ok (release i s)"
begin

text \<open>The number of used slots, and the slots handed out by a run of allocations.\<close>

definition n_used :: "'s \<Rightarrow> nat" where
  "n_used s = card {i. lo \<le> i \<and> i < hi \<and> used s i}"

fun alloc_many :: "nat \<Rightarrow> 's \<Rightarrow> nat list \<times> 's" where
  "alloc_many 0 s = ([], s)"
| "alloc_many (Suc n) s =
     (case alloc s of
        (None, s') \<Rightarrow> ([], s')
      | (Some i, s') \<Rightarrow> (let (is, s'') = alloc_many n s' in (i # is, s'')))"

lemma finite_slots: "finite {i. lo \<le> i \<and> i < hi \<and> P i}"
  by simp

lemma alloc_two_distinct:
  assumes "ok s" and "alloc s = (Some i, s1)" and "alloc s1 = (Some j, s2)"
  shows "i \<noteq> j"
proof -
  have "ok s1" using alloc_ok [of s] assms by simp
  then show ?thesis
    using alloc_used [OF assms(1,2)] alloc_free [of s1 j s2] assms(3) by auto
qed

lemma alloc_succeeds_iff:
  assumes "ok s"
  shows "(\<exists>i s'. alloc s = (Some i, s')) \<longleftrightarrow> (\<exists>i. lo \<le> i \<and> i < hi \<and> \<not> used s i)"
proof -
  obtain r s' where r: "alloc s = (r, s')" by (cases "alloc s")
  show ?thesis
    using alloc_free [OF assms, of _ s'] alloc_full [OF assms, of s'] r
    by (cases r) auto
qed

lemma alloc_n_used:
  assumes "ok s" and "alloc s = (Some i, s')"
  shows "n_used s' = Suc (n_used s)"
proof -
  have i: "lo \<le> i" "i < hi" "\<not> used s i" and u: "used s' = (used s)(i := True)"
    using alloc_free [OF assms] alloc_used [OF assms] by auto
  have "{j. lo \<le> j \<and> j < hi \<and> used s' j} = insert i {j. lo \<le> j \<and> j < hi \<and> used s j}"
    using i by (auto simp: u)
  then show ?thesis using i by (simp add: n_used_def)
qed

lemma release_n_used:
  assumes "ok s" "lo \<le> i" "i < hi" "used s i"
  shows "Suc (n_used (release i s)) = n_used s"
proof -
  have u: "used (release i s) = (used s)(i := False)" using release_used assms by blast
  have "{j. lo \<le> j \<and> j < hi \<and> used s j} = insert i {j. lo \<le> j \<and> j < hi \<and> used (release i s) j}"
    using assms by (auto simp: u)
  then show ?thesis using assms by (simp add: n_used_def u)
qed

lemma n_used_le: "n_used s \<le> hi - lo"
proof -
  have "{i. lo \<le> i \<and> i < hi \<and> used s i} \<subseteq> {lo..<hi}" by auto
  then have "card {i. lo \<le> i \<and> i < hi \<and> used s i} \<le> card {lo..<hi}" by (intro card_mono) auto
  then show ?thesis by (simp add: n_used_def)
qed

text \<open>Allocations in a row give pairwise different slots that were all free.\<close>

lemma alloc_many_distinct:
  "ok s \<Longrightarrow> alloc_many n s = (is, s') \<Longrightarrow>
     distinct is \<and> (\<forall>i\<in>set is. lo \<le> i \<and> i < hi \<and> \<not> used s i)"
proof (induction n arbitrary: s "is" s')
  case (Suc n)
  obtain r s1 where r: "alloc s = (r, s1)" by (cases "alloc s")
  have ok1: "ok s1" using alloc_ok [of s] Suc.prems r by simp
  show ?case
  proof (cases r)
    case (Some i)
    obtain js s2 where js: "alloc_many n s1 = (js, s2)" by (cases "alloc_many n s1")
    have "is = i # js" using Suc.prems r Some js by simp
    with Suc.IH [OF ok1 js] alloc_free [of s i s1] alloc_used [of s i s1] Suc.prems(1) r Some
    show ?thesis by (auto split: if_splits)
  qed (use Suc.prems r in auto)
qed simp

end

section \<open>Interface: a system with an invariant\<close>

inductive reach :: "('s \<Rightarrow> bool) \<Rightarrow> ('s \<Rightarrow> 's \<Rightarrow> bool) \<Rightarrow> 's \<Rightarrow> bool"
  for init :: "'s \<Rightarrow> bool" and step :: "'s \<Rightarrow> 's \<Rightarrow> bool" where
  reach_init: "init s \<Longrightarrow> reach init step s"
| reach_step: "reach init step s \<Longrightarrow> step s t \<Longrightarrow> reach init step t"

lemma reach_run: "reach init step s \<Longrightarrow> step\<^sup>*\<^sup>* s t \<Longrightarrow> reach init step t"
  by (rotate_tac, induction rule: rtranclp_induct) (blast intro: reach_step)+

locale invariant_system =
  fixes init :: "'s \<Rightarrow> bool"
    and step :: "'s \<Rightarrow> 's \<Rightarrow> bool"
    and inv :: "'s \<Rightarrow> bool"
  assumes init_inv: "init s \<Longrightarrow> inv s"
    and step_inv: "inv s \<Longrightarrow> step s t \<Longrightarrow> inv t"
begin

lemma reach_inv: "reach init step s \<Longrightarrow> inv s"
  by (induction rule: reach.induct) (auto intro: init_inv step_inv)

end

end
