(* ===== verification/Cam_Common.thy ===== *)
theory Cam_Common
  imports Cam_Prelude
begin

text \<open>
  \<open>cam_utils/cam_common_util.c\<close>: the string lookup and the in-place duplicate removal that
  \<open>cam_sync_merge\<close> uses to reject a fence listed twice. The correctness lemmas relate the
  index loops to first-occurrence deduplication.
\<close>

section \<open>Definitions\<close>

definition strnstr :: "string \<Rightarrow> string \<Rightarrow> nat \<Rightarrow> bool" where
  "strnstr hay needle len =
     list_ex (\<lambda>k. k + length needle \<le> len \<and> take (length needle) (drop k hay) = needle)
       [0..<Suc len]"

text \<open>
  \<open>cam_common_util_get_string_index\<close>: the loop over the first \<open>num_strings\<close> entries, from
  position \<open>i\<close>; \<open>index\<close> is the out parameter.
\<close>

fun get_string_index_loop :: "string list \<Rightarrow> string \<Rightarrow> nat \<Rightarrow> rc \<times> nat option" where
  "get_string_index_loop [] matching_string i = (- EINVAL, None)"
| "get_string_index_loop (s # strings) matching_string i =
     (if strnstr s matching_string (length s) then (0, Some i)
      else get_string_index_loop strings matching_string (Suc i))"

definition cam_common_util_get_string_index ::
    "string list \<Rightarrow> nat \<Rightarrow> string \<Rightarrow> rc \<times> nat option" where
  "cam_common_util_get_string_index strings num_strings matching_string =
     get_string_index_loop (take num_strings strings) matching_string 0"

text \<open>The inner loop of \<open>cam_common_util_remove_duplicate_arr\<close>: \<open>j\<close> at its exit.\<close>

function dup_find :: "int list \<Rightarrow> nat \<Rightarrow> nat \<Rightarrow> nat \<Rightarrow> nat" where
  "dup_find arr i wr_idx j =
     (if j < wr_idx then (if arr ! i = arr ! j then j else dup_find arr i wr_idx (Suc j)) else j)"
  by pat_completeness auto
termination
  by (relation "measure (\<lambda>(arr, i, wr_idx, j). wr_idx - j)") auto

text \<open>The outer loop: \<open>arr[wr_idx++] = arr[i]\<close> when the value is new.\<close>

function dup_loop :: "int list \<Rightarrow> nat \<Rightarrow> nat \<Rightarrow> nat \<Rightarrow> nat \<times> int list" where
  "dup_loop arr num wr_idx i =
     (if i < num then
        (if dup_find arr i wr_idx 0 = wr_idx
         then dup_loop (arr[wr_idx := arr ! i]) num (Suc wr_idx) (Suc i)
         else dup_loop arr num wr_idx (Suc i))
      else (wr_idx, arr))"
  by pat_completeness auto
termination
  by (relation "measure (\<lambda>(arr, num, wr_idx, i). num - i)") auto

declare dup_find.simps [simp del] dup_loop.simps [simp del]

definition cam_common_util_remove_duplicate_arr ::
    "int list option \<Rightarrow> nat \<Rightarrow> nat \<times> int list option" where
  "cam_common_util_remove_duplicate_arr arr num =
     (case arr of
        None \<Rightarrow> (0, None)
      | Some a \<Rightarrow> (let (n, a') = dup_loop a num 1 1 in (n, Some a')))"

section \<open>Correctness\<close>

text \<open>Reference: keep the first occurrence of every value, in order.\<close>

definition dedup :: "'a list \<Rightarrow> 'a list" where
  "dedup xs = rev (remdups (rev xs))"

lemma dedup_snoc: "dedup (xs @ [x]) = (if x \<in> set xs then dedup xs else dedup xs @ [x])"
  by (simp add: dedup_def)

lemma set_dedup [simp]: "set (dedup xs) = set xs"
  by (simp add: dedup_def)

lemma distinct_dedup [simp]: "distinct (dedup xs)"
  by (simp add: dedup_def)

lemma length_dedup_le: "length (dedup xs) \<le> length xs"
  by (simp add: dedup_def) (metis length_remdups_leq length_rev)

lemma length_dedup_eq_iff: "length (dedup xs) = length xs \<longleftrightarrow> distinct xs"
  by (simp add: dedup_def) (metis distinct_rev length_remdups_eq length_rev remdups_id_iff_distinct)

lemma dedup_distinct: "distinct xs \<Longrightarrow> dedup xs = xs"
  by (simp add: dedup_def distinct_remdups_id)

lemma dup_find_iff: "j \<le> wr_idx \<Longrightarrow>
   dup_find arr i wr_idx j = wr_idx \<longleftrightarrow> (\<forall>k. j \<le> k \<and> k < wr_idx \<longrightarrow> arr ! k \<noteq> arr ! i)"
proof (induction arr i wr_idx j rule: dup_find.induct)
  case (1 arr i wr_idx j)
  show ?case
  proof (cases "j < wr_idx \<and> arr ! i \<noteq> arr ! j")
    case True
    with 1 have "dup_find arr i wr_idx j = wr_idx \<longleftrightarrow>
        (\<forall>k. Suc j \<le> k \<and> k < wr_idx \<longrightarrow> arr ! k \<noteq> arr ! i)"
      by (simp add: dup_find.simps [of arr i wr_idx j])
    moreover have "(\<forall>k. j \<le> k \<and> k < wr_idx \<longrightarrow> arr ! k \<noteq> arr ! i) \<longleftrightarrow>
        arr ! j \<noteq> arr ! i \<and> (\<forall>k. Suc j \<le> k \<and> k < wr_idx \<longrightarrow> arr ! k \<noteq> arr ! i)"
      using True by (auto simp: Suc_le_eq dest: le_imp_less_or_eq)
    ultimately show ?thesis using True by simp
  next
    case False
    with "1.prems" show ?thesis by (auto simp: dup_find.simps [of arr i wr_idx j])
  qed
qed

lemma dup_find_new_iff:
  assumes "wr_idx \<le> length arr"
  shows "dup_find arr i wr_idx 0 = wr_idx \<longleftrightarrow> arr ! i \<notin> set (take wr_idx arr)"
  using assms by (auto simp: dup_find_iff in_set_conv_nth)

text \<open>
  The loop invariant: the written prefix is the deduplication of what has been read, and what
  has not been read is untouched.
\<close>

lemma dup_loop_dedup:
  assumes "wr_idx \<le> i" "i \<le> num" "num \<le> length arr"
    and "take wr_idx arr = dedup (take i xs)" "drop i arr = drop i xs"
    and "length xs = length arr" "wr_idx = length (dedup (take i xs))"
  shows "\<exists>arr'. dup_loop arr num wr_idx i = (length (dedup (take num xs)), arr')
     \<and> length arr' = length arr
     \<and> take (length (dedup (take num xs))) arr' = dedup (take num xs)
     \<and> drop num arr' = drop num xs"
  using assms
proof (induction arr num wr_idx i rule: dup_loop.induct)
  case (1 arr num wr_idx i)
  show ?case
  proof (cases "i < num")
    case False
    then have "dup_loop arr num wr_idx i = (wr_idx, arr)"
      by (simp add: dup_loop.simps [of arr num wr_idx i])
    moreover have "i = num" using False "1.prems" by simp
    ultimately show ?thesis using "1.prems" by auto
  next
    case True
    then have i: "i < length arr" "i < length xs" using "1.prems" by auto
    have ai: "arr ! i = xs ! i"
      using "1.prems"(5) i by (metis Cons_nth_drop_Suc list.inject)
    have tk: "take (Suc i) xs = take i xs @ [xs ! i]" using i by (simp add: take_Suc_conv_app_nth)
    have dr: "drop (Suc i) arr = drop (Suc i) xs"
      using "1.prems"(5) by (metis drop_Suc drop_tl)
    show ?thesis
    proof (cases "dup_find arr i wr_idx 0 = wr_idx")
      case new: True
      then have ni: "xs ! i \<notin> set (take i xs)"
        using "1.prems" dup_find_new_iff [of wr_idx arr i] ai by simp
      have eq: "dup_loop arr num wr_idx i = dup_loop (arr[wr_idx := arr ! i]) num (Suc wr_idx) (Suc i)"
        using True new by (simp add: dup_loop.simps [of arr num wr_idx i])
      have wl: "wr_idx < length arr" using "1.prems" i by simp
      have "take (Suc wr_idx) (arr[wr_idx := arr ! i]) = dedup (take (Suc i) xs)"
        using "1.prems" wl ni by (simp add: take_Suc_conv_app_nth tk dedup_snoc ai)
      then show ?thesis
        unfolding eq using "1.IH"(1) [OF True new] "1.prems" True tk ni dr by (simp add: dedup_snoc)
    next
      case old: False
      then have ni: "xs ! i \<in> set (take i xs)"
        using "1.prems" dup_find_new_iff [of wr_idx arr i] ai by simp
      have eq: "dup_loop arr num wr_idx i = dup_loop arr num wr_idx (Suc i)"
        using True old by (simp add: dup_loop.simps [of arr num wr_idx i])
      show ?thesis
        unfolding eq using "1.IH"(2) [OF True old] "1.prems" True tk ni dr by (simp add: dedup_snoc)
    qed
  qed
qed

lemma remove_duplicate_arr_dedup:
  assumes "0 < num" "num \<le> length a"
  shows "\<exists>a'. cam_common_util_remove_duplicate_arr (Some a) num = (length (dedup (take num a)), Some a')
     \<and> length a' = length a \<and> take (length (dedup (take num a))) a' = dedup (take num a)
     \<and> drop num a' = drop num a"
proof -
  obtain x xs where a: "a = x # xs" using assms by (cases a) auto
  have "\<exists>a'. dup_loop a num 1 1 = (length (dedup (take num a)), a')
     \<and> length a' = length a \<and> take (length (dedup (take num a))) a' = dedup (take num a)
     \<and> drop num a' = drop num a"
    using assms by (intro dup_loop_dedup) (simp_all add: a dedup_def)
  then show ?thesis by (auto simp: cam_common_util_remove_duplicate_arr_def)
qed

lemma remove_duplicate_arr_count_iff:
  assumes "0 < length a"
  shows "fst (cam_common_util_remove_duplicate_arr (Some a) (length a)) = length a \<longleftrightarrow> distinct a"
  using remove_duplicate_arr_dedup [of "length a" a] assms length_dedup_eq_iff [of a] by auto

lemma remove_duplicate_arr_id:
  assumes "0 < length a" "distinct a"
  shows "cam_common_util_remove_duplicate_arr (Some a) (length a) = (length a, Some a)"
  using remove_duplicate_arr_dedup [of "length a" a] assms by (auto simp: dedup_distinct)

lemma get_string_index_loop_Some:
  "get_string_index_loop ss m i = (r, Some k) \<Longrightarrow>
     r = 0 \<and> i \<le> k \<and> k - i < length ss \<and> strnstr (ss ! (k - i)) m (length (ss ! (k - i)))
     \<and> (\<forall>j < k - i. \<not> strnstr (ss ! j) m (length (ss ! j)))"
proof (induction ss m i rule: get_string_index_loop.induct)
  case (2 s ss m i)
  show ?case
  proof (cases "strnstr s m (length s)")
    case False
    with 2 have IH: "r = 0 \<and> Suc i \<le> k \<and> k - Suc i < length ss
        \<and> strnstr (ss ! (k - Suc i)) m (length (ss ! (k - Suc i)))
        \<and> (\<forall>j < k - Suc i. \<not> strnstr (ss ! j) m (length (ss ! j)))"
      by simp
    from IH have "Suc i \<le> k" by simp
    then have k: "k - i = Suc (k - Suc i)" by linarith
    with IH False show ?thesis by (auto simp: less_Suc_eq_0_disj)
  qed (use 2 in auto)
qed simp

lemma get_string_index_loop_None:
  "get_string_index_loop ss m i = (r, None) \<Longrightarrow>
     r = - EINVAL \<and> (\<forall>s\<in>set ss. \<not> strnstr s m (length s))"
  by (induction ss m i rule: get_string_index_loop.induct) (auto split: if_splits)

section \<open>Properties\<close>

text \<open>\<open>cam_common_util_remove_duplicate_arr\<close> on the first \<open>num\<close> entries of an array returns the
  number of different values among them, leaves these values at the front, each once and in
  the order of their first occurrence, and does not touch entries from \<open>num\<close> on; the count is
  \<open>num\<close> exactly when there was no duplicate, which is the test \<open>cam_sync_merge\<close> makes.\<close>

theorem common_remove_duplicates:
  assumes "0 < num" "num \<le> length a"
  shows "\<exists>n a'. cam_common_util_remove_duplicate_arr (Some a) num = (n, Some a')
     \<and> n = card (set (take num a)) \<and> take n a' = dedup (take num a)
     \<and> set (take n a') = set (take num a) \<and> distinct (take n a')
     \<and> drop num a' = drop num a \<and> (n = num \<longleftrightarrow> distinct (take num a))"
proof -
  have "length (dedup (take num a)) = card (set (take num a))"
    by (metis distinct_card distinct_dedup set_dedup)
  then show ?thesis
    using remove_duplicate_arr_dedup [OF assms] length_dedup_eq_iff [of "take num a"] assms by auto
qed

theorem common_remove_duplicates_witness:
  "fst (cam_common_util_remove_duplicate_arr (Some [4, 7, 4, 9, 7]) 4) = 3"
proof -
  have "card (set (take 4 [4, 7, 4, 9, 7 :: int])) = 3" by code_simp
  then show ?thesis using common_remove_duplicates [of 4 "[4, 7, 4, 9, 7]"] by auto
qed

text \<open>\<open>cam_common_util_get_string_index\<close> returns 0 with the least index whose string contains
  the pattern, or EINVAL, leaving the index unset, when none of the given strings does.\<close>

theorem common_string_index:
  "case cam_common_util_get_string_index strings num m of
     (rc, Some k) \<Rightarrow> rc = 0 \<and> k < num \<and> k < length strings \<and> strnstr (strings ! k) m (length (strings ! k))
        \<and> (\<forall>j < k. \<not> strnstr (strings ! j) m (length (strings ! j)))
   | (rc, None) \<Rightarrow> rc = - EINVAL \<and> (\<forall>s\<in>set (take num strings). \<not> strnstr s m (length s))"
proof (cases "cam_common_util_get_string_index strings num m")
  case (Pair rc k)
  show ?thesis
  proof (cases k)
    case None
    then show ?thesis
      using Pair get_string_index_loop_None by (auto simp: cam_common_util_get_string_index_def)
  next
    case (Some i)
    note g = get_string_index_loop_Some [OF Pair [unfolded Some cam_common_util_get_string_index_def]]
    then have "(\<forall>j < i. take num strings ! j = strings ! j)" "take num strings ! i = strings ! i" by auto
    then show ?thesis using g Pair Some by auto
  qed
qed

theorem common_string_index_witness:
  "cam_common_util_get_string_index [''vfe0'', ''ife1'', ''ife''] 3 ''ife'' = (0, Some 1)"
proof -
  let ?g = "cam_common_util_get_string_index [''vfe0'', ''ife1'', ''ife''] 3 ''ife''"
  have "?g = (0, Some 1)" by code_simp
  then show ?thesis
    using common_string_index [where strings = "[''vfe0'', ''ife1'', ''ife'']" and num = 3 and m = "''ife''"] by simp
qed

end
