(* ===== verification/Cam_Sync.thy ===== *)
theory Cam_Sync
  imports Cam_Common
begin

text \<open>
  The fence framework, \<open>cam_sync/cam_sync_util.c\<close> and the kernel API half of
  \<open>cam_sync/cam_sync.c\<close>. A fence (sync object) is a row of \<open>sync_table\<close>; bit \<open>i\<close> of the bitmap
  is set while row \<open>i\<close> is in use and bit 0 is reserved. A group fence counts its unsignalled
  members in \<open>remaining\<close>; members point to their groups in \<open>parents_list\<close>.

  Each operation is a function on the whole device and stands for one uninterrupted execution:
  the row spinlocks and the table mutex are not represented. \<open>kzalloc\<close> is an argument (the
  \<open>k\<close>-th allocation of a call succeeds or not). Work handed to the work queue, events handed to
  V4L2 and direct calls of client callbacks are recorded in the state in the order they happen.
\<close>

section \<open>Data\<close>

abbreviation CAM_SYNC_MAX_OBJS :: nat where "CAM_SYNC_MAX_OBJS \<equiv> 1024"
abbreviation SYNC_DEBUG_NAME_LEN :: nat where "SYNC_DEBUG_NAME_LEN \<equiv> 63"

abbreviation CAM_SYNC_STATE_INVALID :: u32 where "CAM_SYNC_STATE_INVALID \<equiv> 0"
abbreviation CAM_SYNC_STATE_ACTIVE :: u32 where "CAM_SYNC_STATE_ACTIVE \<equiv> 1"
abbreviation CAM_SYNC_STATE_SIGNALED_SUCCESS :: u32 where "CAM_SYNC_STATE_SIGNALED_SUCCESS \<equiv> 2"
abbreviation CAM_SYNC_STATE_SIGNALED_ERROR :: u32 where "CAM_SYNC_STATE_SIGNALED_ERROR \<equiv> 3"

abbreviation CAM_SYNC_V4L_EVENT :: u32 where "CAM_SYNC_V4L_EVENT \<equiv> 0x08000000"
abbreviation CAM_SYNC_V4L_EVENT_ID_CB_TRIG :: u32 where "CAM_SYNC_V4L_EVENT_ID_CB_TRIG \<equiv> 0"

datatype sync_type = SYNC_TYPE_INDV | SYNC_TYPE_GROUP

datatype sync_list_clean_type = SYNC_LIST_CLEAN_ONE | SYNC_LIST_CLEAN_ALL

text \<open>\<open>callback_func\<close> and \<open>cb_data\<close> are addresses; the dispatch timestamp is not kept.\<close>

record sync_callback_info =
  callback_func :: ptr
  cb_data :: ptr
  cb_status :: u32
  cb_sync_obj :: nat

type_synonym sync_user_payload = "u64 \<times> u64"

record sync_table_row =
  row_name :: string
  row_type :: sync_type
  row_sync_id :: nat
  parents_list :: "nat list"
  children_list :: "nat list"
  row_state :: u32
  remaining :: u32
  signaled :: bool
  callback_list :: "sync_callback_info list"
  user_payload_list :: "sync_user_payload list"
  ref_cnt :: u32

record v4l2_event =
  ev_id :: u32
  ev_type :: u32
  ev_sync_obj :: nat
  ev_status :: u32
  ev_payload :: sync_user_payload

text \<open>
  \<open>work_queue\<close> holds the callbacks queued and not yet run, \<open>v4l2_queue\<close> the events passed to
  \<open>v4l2_event_queue\<close>, \<open>cb_calls\<close> the calls made to client callbacks (function, object, status,
  data).
\<close>

record sync_device =
  sync_table :: "nat \<Rightarrow> sync_table_row"
  sync_bitmap :: bitmap
  open_cnt :: int
  cam_sync_eventq :: ptr
  work_queue :: "sync_callback_info list"
  v4l2_queue :: "v4l2_event list"
  cb_calls :: "(ptr \<times> nat \<times> u32 \<times> ptr) list"
  trigger_cb_without_switch :: bool

definition zero_row :: sync_table_row where
  "zero_row =
     \<lparr>row_name = '''', row_type = SYNC_TYPE_INDV, row_sync_id = 0, parents_list = [],
      children_list = [], row_state = CAM_SYNC_STATE_INVALID, remaining = 0, signaled = False,
      callback_list = [], user_payload_list = [], ref_cnt = 0\<rparr>"

definition upd_row :: "nat \<Rightarrow> (sync_table_row \<Rightarrow> sync_table_row) \<Rightarrow> sync_device \<Rightarrow> sync_device" where
  "upd_row i f d = d\<lparr>sync_table := (sync_table d)(i := f (sync_table d i))\<rparr>"

text \<open>The state the probe routine leaves: all rows zero, only bit 0 set.\<close>

definition cam_sync_probe_state :: sync_device where
  "cam_sync_probe_state =
     \<lparr>sync_table = (\<lambda>_. zero_row), sync_bitmap = (\<lambda>i. i = 0), open_cnt = 0,
      cam_sync_eventq = 0, work_queue = [], v4l2_queue = [], cb_calls = [],
      trigger_cb_without_switch = False\<rparr>"

section \<open>cam_sync_util.c\<close>

definition cam_sync_util_find_and_set_empty_row :: "sync_device \<Rightarrow> rc \<times> nat \<times> sync_device" where
  "cam_sync_util_find_and_set_empty_row d =
     (let idx = find_first_zero_bit (sync_bitmap d) CAM_SYNC_MAX_OBJS in
      if idx < CAM_SYNC_MAX_OBJS
      then (0, idx, d\<lparr>sync_bitmap := (sync_bitmap d)(idx := True)\<rparr>)
      else (-1, idx, d))"

definition cam_sync_init_row ::
    "nat \<Rightarrow> string option \<Rightarrow> sync_type \<Rightarrow> sync_device \<Rightarrow> rc \<times> sync_device" where
  "cam_sync_init_row idx name type d =
     (if idx = 0 \<or> CAM_SYNC_MAX_OBJS \<le> idx then (- EINVAL, d)
      else (0, upd_row idx (\<lambda>_. zero_row
        \<lparr>row_name := (case name of Some n \<Rightarrow> strlcpy n SYNC_DEBUG_NAME_LEN | None \<Rightarrow> ''''),
         row_type := type, row_sync_id := idx, row_state := CAM_SYNC_STATE_ACTIVE,
         remaining := 0, ref_cnt := 0\<rparr>) d))"

text \<open>
  The list clean-up loops remove every node, or stop after the first node that holds
  \<open>sync_obj\<close>.
\<close>

definition cam_sync_util_cleanup_children_list ::
    "sync_list_clean_type \<Rightarrow> nat \<Rightarrow> sync_table_row \<Rightarrow> sync_table_row" where
  "cam_sync_util_cleanup_children_list list_clean_type sync_obj row =
     row\<lparr>children_list :=
       (case list_clean_type of
          SYNC_LIST_CLEAN_ONE \<Rightarrow> remove1 sync_obj (children_list row)
        | SYNC_LIST_CLEAN_ALL \<Rightarrow> [])\<rparr>"

definition cam_sync_util_cleanup_parents_list ::
    "sync_list_clean_type \<Rightarrow> nat \<Rightarrow> sync_table_row \<Rightarrow> sync_table_row" where
  "cam_sync_util_cleanup_parents_list list_clean_type sync_obj row =
     row\<lparr>parents_list :=
       (case list_clean_type of
          SYNC_LIST_CLEAN_ONE \<Rightarrow> remove1 sync_obj (parents_list row)
        | SYNC_LIST_CLEAN_ALL \<Rightarrow> [])\<rparr>"

text \<open>
  The loop of \<open>cam_sync_init_group_object\<close>. \<open>k\<close> counts the allocations made so far, \<open>visited\<close> is
  the list of members already visited, last first: the order in which the error path cleans
  them. On an error the returned list is what the error path has to visit.
\<close>

fun init_group_loop ::
    "(nat \<Rightarrow> bool) \<Rightarrow> nat \<Rightarrow> nat \<Rightarrow> nat list \<Rightarrow> nat list \<Rightarrow> sync_device
       \<Rightarrow> rc \<times> nat list \<times> sync_device" where
  "init_group_loop kzalloc idx k [] visited d = (0, visited, d)"
| "init_group_loop kzalloc idx k (c # objs) visited d =
     (let child_row = sync_table d c in
      if row_type child_row = SYNC_TYPE_GROUP \<or> row_state child_row = CAM_SYNC_STATE_INVALID
      then (- EINVAL, visited, d)
      else if row_state child_row = CAM_SYNC_STATE_SIGNALED_ERROR
      then init_group_loop kzalloc idx k objs (c # visited)
             (upd_row idx (\<lambda>r. r\<lparr>row_state := CAM_SYNC_STATE_SIGNALED_ERROR\<rparr>) d)
      else if row_state child_row \<noteq> CAM_SYNC_STATE_ACTIVE
      then init_group_loop kzalloc idx k objs (c # visited) d
      else
        let d1 = upd_row idx (\<lambda>r. r\<lparr>remaining := remaining r + 1\<rparr>) d in
        if \<not> kzalloc k then (- ENOMEM, visited, d1)
        else
          let d2 = upd_row idx (\<lambda>r. r\<lparr>children_list := children_list r @ [c]\<rparr>) d1 in
          if \<not> kzalloc (k + 1) then (- ENOMEM, visited, d2)
          else init_group_loop kzalloc idx (k + 2) objs (c # visited)
                 (upd_row c (\<lambda>r. r\<lparr>parents_list := parents_list r @ [idx]\<rparr>) d2))"

definition clean_children_info :: "nat \<Rightarrow> nat list \<Rightarrow> sync_device \<Rightarrow> sync_device" where
  "clean_children_info idx visited d =
     upd_row idx (cam_sync_util_cleanup_children_list SYNC_LIST_CLEAN_ALL 0)
       (fold (\<lambda>c. upd_row c (cam_sync_util_cleanup_parents_list SYNC_LIST_CLEAN_ONE idx)) visited
         (upd_row idx (\<lambda>r. r\<lparr>row_state := CAM_SYNC_STATE_INVALID\<rparr>) d))"

definition cam_sync_init_group_object ::
    "(nat \<Rightarrow> bool) \<Rightarrow> nat \<Rightarrow> nat list \<Rightarrow> sync_device \<Rightarrow> rc \<times> sync_device" where
  "cam_sync_init_group_object kzalloc idx sync_objs d =
     (let d0 = snd (cam_sync_init_row idx (Some ''merged_fence'') SYNC_TYPE_GROUP d);
          (rc, visited, d1) = init_group_loop kzalloc idx 0 sync_objs [] d0
      in if rc \<noteq> 0 then (rc, clean_children_info idx visited d1)
         else (0, if remaining (sync_table d1 idx) = 0
                  then upd_row idx (\<lambda>r. r
                         \<lparr>row_state := (if row_state r \<noteq> CAM_SYNC_STATE_SIGNALED_ERROR
                                       then CAM_SYNC_STATE_SIGNALED_SUCCESS else row_state r),
                          signaled := True\<rparr>) d1
                  else d1))"

text \<open>
  \<open>cam_sync_deinit_object\<close>: the two while loops over the detached lists, then the row is
  freed. Nodes with a non-positive id stay on the row's own lists.
\<close>

definition deinit_child :: "nat \<Rightarrow> nat \<Rightarrow> sync_device \<Rightarrow> sync_device" where
  "deinit_child idx c d =
     (if row_state (sync_table d c) = CAM_SYNC_STATE_INVALID then d
      else upd_row c (cam_sync_util_cleanup_parents_list SYNC_LIST_CLEAN_ONE idx) d)"

definition deinit_parent :: "nat \<Rightarrow> nat \<Rightarrow> sync_device \<Rightarrow> sync_device" where
  "deinit_parent idx p d =
     (if row_state (sync_table d p) = CAM_SYNC_STATE_INVALID then d
      else upd_row p (cam_sync_util_cleanup_children_list SYNC_LIST_CLEAN_ONE idx) d)"

definition cam_sync_deinit_object :: "nat \<Rightarrow> sync_device \<Rightarrow> rc \<times> sync_device" where
  "cam_sync_deinit_object idx d =
     (if idx = 0 \<or> CAM_SYNC_MAX_OBJS \<le> idx then (- EINVAL, d)
      else if row_state (sync_table d idx) = CAM_SYNC_STATE_INVALID then (- EINVAL, d)
      else
        let temp_child_list = filter (\<lambda>c. 0 < c) (children_list (sync_table d idx));
            temp_parent_list = filter (\<lambda>p. 0 < p) (parents_list (sync_table d idx));
            d1 = upd_row idx (\<lambda>r. r
                   \<lparr>row_state := CAM_SYNC_STATE_INVALID,
                    children_list := filter (\<lambda>c. \<not> 0 < c) (children_list r),
                    parents_list := filter (\<lambda>p. \<not> 0 < p) (parents_list r)\<rparr>) d;
            d2 = fold (deinit_child idx) temp_child_list d1;
            d3 = fold (deinit_parent idx) temp_parent_list d2;
            d4 = upd_row idx (\<lambda>_. zero_row) d3
        in (0, d4\<lparr>sync_bitmap := (sync_bitmap d4)(idx := False)\<rparr>))"

text \<open>One run of \<open>cam_sync_util_cb_dispatch\<close> on a dequeued callback.\<close>

definition cam_sync_util_cb_dispatch :: "sync_callback_info \<Rightarrow> sync_device \<Rightarrow> sync_device" where
  "cam_sync_util_cb_dispatch cb d =
     d\<lparr>cb_calls := cb_calls d @ [(callback_func cb, cb_sync_obj cb, cb_status cb, cb_data cb)]\<rparr>"

definition cam_sync_util_send_v4l2_event ::
    "u32 \<Rightarrow> nat \<Rightarrow> u32 \<Rightarrow> sync_user_payload \<Rightarrow> sync_device \<Rightarrow> sync_device" where
  "cam_sync_util_send_v4l2_event evid sync_obj status payload d =
     d\<lparr>v4l2_queue := v4l2_queue d @
        [\<lparr>ev_id = evid, ev_type = CAM_SYNC_V4L_EVENT, ev_sync_obj = sync_obj,
          ev_status = status, ev_payload = payload\<rparr>]\<rparr>"

definition cam_sync_util_dispatch_signaled_cb :: "nat \<Rightarrow> u32 \<Rightarrow> sync_device \<Rightarrow> sync_device" where
  "cam_sync_util_dispatch_signaled_cb sync_obj status d =
     (let row = sync_table d sync_obj in
      if row_state row = CAM_SYNC_STATE_INVALID then d
      else
        let d1 = d\<lparr>work_queue := work_queue d @
                    map (\<lambda>cb. cb\<lparr>cb_status := status\<rparr>) (callback_list row)\<rparr>;
            d2 = upd_row sync_obj (\<lambda>r. r\<lparr>callback_list := []\<rparr>) d1;
            d3 = (if cam_sync_eventq d2 = 0 then d2
                  else upd_row sync_obj (\<lambda>r. r\<lparr>user_payload_list := []\<rparr>)
                         (fold (cam_sync_util_send_v4l2_event CAM_SYNC_V4L_EVENT_ID_CB_TRIG
                                  sync_obj status)
                            (user_payload_list row) d2))
        in upd_row sync_obj (\<lambda>r. r\<lparr>signaled := True\<rparr>) d3)"

definition cam_sync_util_update_parent_state ::
    "u32 \<Rightarrow> sync_table_row \<Rightarrow> rc \<times> sync_table_row" where
  "cam_sync_util_update_parent_state new_state parent_row =
     (if row_state parent_row = CAM_SYNC_STATE_ACTIVE
         \<or> row_state parent_row = CAM_SYNC_STATE_SIGNALED_SUCCESS
      then (0, parent_row\<lparr>row_state := new_state\<rparr>)
      else if row_state parent_row = CAM_SYNC_STATE_SIGNALED_ERROR then (0, parent_row)
      else (- EINVAL, parent_row))"

section \<open>cam_sync.c: the kernel API\<close>

text \<open>
  The allocation loop that \<open>cam_sync_create\<close> and \<open>cam_sync_merge\<close> share: find a zero bit, then
  \<open>test_and_set_bit\<close>, and retry when another CPU took the bit in between. \<open>env n\<close> is what the
  other CPUs do to the bitmap between the two accesses; \<open>None\<close> means the fuel ran out. The
  operations below run uninterrupted, so one round is enough for them.
\<close>

fun cam_sync_claim ::
    "(nat \<Rightarrow> bitmap \<Rightarrow> bitmap) \<Rightarrow> nat \<Rightarrow> bitmap \<Rightarrow> (nat option \<times> bitmap) option" where
  "cam_sync_claim env 0 bm = None"
| "cam_sync_claim env (Suc n) bm =
     (let idx = find_first_zero_bit bm CAM_SYNC_MAX_OBJS in
      if CAM_SYNC_MAX_OBJS \<le> idx then Some (None, bm)
      else let bm1 = env n bm; bit = bm1 idx; bm2 = bm1(idx := True)
           in if bit then cam_sync_claim env n bm2 else Some (Some idx, bm2))"

definition cam_sync_get_idx :: "sync_device \<Rightarrow> nat option \<times> sync_device" where
  "cam_sync_get_idx d =
     (case cam_sync_claim (\<lambda>_ bm. bm) 1 (sync_bitmap d) of
        Some (r, bm) \<Rightarrow> (r, d\<lparr>sync_bitmap := bm\<rparr>)
      | None \<Rightarrow> (None, d))"

definition clear_idx :: "nat \<Rightarrow> sync_device \<Rightarrow> sync_device" where
  "clear_idx idx d = d\<lparr>sync_bitmap := (sync_bitmap d)(idx := False)\<rparr>"

definition cam_sync_create ::
    "string option \<Rightarrow> sync_device \<Rightarrow> rc \<times> nat option \<times> sync_device" where
  "cam_sync_create name d =
     (case cam_sync_get_idx d of
        (None, d1) \<Rightarrow> (- ENOMEM, None, d1)
      | (Some idx, d1) \<Rightarrow>
          (let (rc, d2) = cam_sync_init_row idx name SYNC_TYPE_INDV d1
           in if rc \<noteq> 0 then (- EINVAL, None, clear_idx idx d2)
              else (rc, Some idx, d2)))"

definition sync_obj_bad :: "int \<Rightarrow> bool" where
  "sync_obj_bad sync_obj \<longleftrightarrow> int CAM_SYNC_MAX_OBJS \<le> sync_obj \<or> sync_obj \<le> 0"

definition cam_sync_register_callback ::
    "bool \<Rightarrow> ptr \<Rightarrow> ptr \<Rightarrow> int \<Rightarrow> sync_device \<Rightarrow> rc \<times> sync_device" where
  "cam_sync_register_callback kzalloc cb_func userdata sync_obj d =
     (if sync_obj_bad sync_obj \<or> cb_func = 0 then (- EINVAL, d)
      else
        let idx = nat sync_obj; row = sync_table d idx in
        if row_state row = CAM_SYNC_STATE_INVALID then (- EINVAL, d)
        else if \<not> kzalloc then (- ENOMEM, d)
        else if (row_state row = CAM_SYNC_STATE_SIGNALED_SUCCESS
                 \<or> row_state row = CAM_SYNC_STATE_SIGNALED_ERROR) \<and> remaining row = 0
        then (if trigger_cb_without_switch d
              then (0, d\<lparr>cb_calls := cb_calls d @ [(cb_func, idx, row_state row, userdata)]\<rparr>)
              else (0, d\<lparr>work_queue := work_queue d @
                      [\<lparr>callback_func = cb_func, cb_data = userdata,
                        cb_status = row_state row, cb_sync_obj = idx\<rparr>]\<rparr>))
        else (0, upd_row idx (\<lambda>r. r\<lparr>callback_list := callback_list r @
                      [\<lparr>callback_func = cb_func, cb_data = userdata,
                        cb_status = 0, cb_sync_obj = idx\<rparr>]\<rparr>) d))"

definition cam_sync_deregister_callback ::
    "ptr \<Rightarrow> ptr \<Rightarrow> int \<Rightarrow> sync_device \<Rightarrow> rc \<times> sync_device" where
  "cam_sync_deregister_callback cb_func userdata sync_obj d =
     (if sync_obj_bad sync_obj then (- EINVAL, d)
      else
        let idx = nat sync_obj; row = sync_table d idx;
            hit = (\<lambda>cb. callback_func cb = cb_func \<and> cb_data cb = userdata) in
        if row_state row = CAM_SYNC_STATE_INVALID then (- EINVAL, d)
        else (if list_ex hit (callback_list row) then 0 else - ENOENT,
              upd_row idx (\<lambda>r. r\<lparr>callback_list := filter (\<lambda>cb. \<not> hit cb) (callback_list r)\<rparr>) d))"

text \<open>
  The loop of \<open>cam_sync_signal\<close> over the detached parents: \<open>remaining--\<close> wraps as \<open>uint32_t\<close>
  does.
\<close>

definition signal_parent :: "u32 \<Rightarrow> nat \<Rightarrow> sync_device \<Rightarrow> sync_device" where
  "signal_parent status p d =
     (let d1 = upd_row p (\<lambda>r. r\<lparr>remaining := remaining r - 1\<rparr>) d;
          (rc, parent_row) = cam_sync_util_update_parent_state status (sync_table d1 p);
          d2 = upd_row p (\<lambda>_. parent_row) d1
      in if rc \<noteq> 0 then d2
         else if remaining parent_row = 0
         then cam_sync_util_dispatch_signaled_cb p (row_state parent_row) d2
         else d2)"

definition cam_sync_signal :: "int \<Rightarrow> u32 \<Rightarrow> sync_device \<Rightarrow> rc \<times> sync_device" where
  "cam_sync_signal sync_obj status d =
     (if sync_obj_bad sync_obj then (- EINVAL, d)
      else
        let idx = nat sync_obj; row = sync_table d idx in
        if row_state row = CAM_SYNC_STATE_INVALID then (- EINVAL, d)
        else if row_type row = SYNC_TYPE_GROUP then (- EINVAL, d)
        else if row_state row \<noteq> CAM_SYNC_STATE_ACTIVE then (- EALREADY, d)
        else if status \<noteq> CAM_SYNC_STATE_SIGNALED_SUCCESS
                \<and> status \<noteq> CAM_SYNC_STATE_SIGNALED_ERROR then (- EINVAL, d)
        else
          let d1 = upd_row idx (\<lambda>r. r\<lparr>ref_cnt := ref_cnt r - 1\<rparr>) d in
          if ref_cnt (sync_table d1 idx) \<noteq> 0 then (0, d1)
          else
            let d2 = upd_row idx (\<lambda>r. r\<lparr>row_state := status\<rparr>) d1;
                d3 = cam_sync_util_dispatch_signaled_cb idx status d2;
                parents = parents_list (sync_table d3 idx);
                d4 = upd_row idx (\<lambda>r. r\<lparr>parents_list := []\<rparr>) d3
            in (0, fold (signal_parent status) parents d4))"

definition cam_sync_check_valid :: "int \<Rightarrow> sync_device \<Rightarrow> rc" where
  "cam_sync_check_valid sync_obj d =
     (if sync_obj_bad sync_obj then - EINVAL
      else if \<not> sync_bitmap d (nat sync_obj) then - EINVAL
      else if row_state (sync_table d (nat sync_obj)) = CAM_SYNC_STATE_INVALID then - EINVAL
      else 0)"

text \<open>The validation loop of \<open>cam_sync_merge\<close>: the first failing code, or 0.\<close>

fun check_valid_all :: "int list \<Rightarrow> sync_device \<Rightarrow> rc" where
  "check_valid_all [] d = 0"
| "check_valid_all (s # ss) d =
     (if cam_sync_check_valid s d \<noteq> 0 then cam_sync_check_valid s d else check_valid_all ss d)"

text \<open>
  \<open>cam_sync_merge\<close>: \<open>sync_obj\<close> is the array of \<open>num_objs\<close> ids (\<open>None\<close> for a null pointer),
  \<open>merged_obj\<close> says whether the out pointer is not null. The result carries the new id.
\<close>

definition cam_sync_merge ::
    "(nat \<Rightarrow> bool) \<Rightarrow> int list option \<Rightarrow> bool \<Rightarrow> sync_device \<Rightarrow> rc \<times> nat option \<times> sync_device" where
  "cam_sync_merge kzalloc sync_obj merged_obj d =
     (case sync_obj of
        None \<Rightarrow> (- EINVAL, None, d)
      | Some objs \<Rightarrow>
          if \<not> merged_obj then (- EINVAL, None, d)
          else
            let num_objs = length objs in
            if num_objs \<le> 1 then (- EINVAL, None, d)
            else
              let (n, arr) = cam_common_util_remove_duplicate_arr (Some objs) num_objs;
                  objs' = the arr in
              if n \<noteq> num_objs then (- EINVAL, None, d)
              else if check_valid_all objs' d \<noteq> 0 then (check_valid_all objs' d, None, d)
              else
                (case cam_sync_get_idx d of
                   (None, d1) \<Rightarrow> (- ENOMEM, None, d1)
                 | (Some idx, d1) \<Rightarrow>
                     (let (rc, d2) = cam_sync_init_group_object kzalloc idx (map nat objs') d1
                      in if rc < 0 then (- EINVAL, None, clear_idx idx d2)
                         else (0, Some idx, d2))))"

definition cam_sync_get_obj_ref :: "int \<Rightarrow> sync_device \<Rightarrow> rc \<times> sync_device" where
  "cam_sync_get_obj_ref sync_obj d =
     (if sync_obj_bad sync_obj then (- EINVAL, d)
      else if row_state (sync_table d (nat sync_obj)) \<noteq> CAM_SYNC_STATE_ACTIVE then (- EINVAL, d)
      else (0, upd_row (nat sync_obj) (\<lambda>r. r\<lparr>ref_cnt := ref_cnt r + 1\<rparr>) d))"

definition cam_sync_put_obj_ref :: "int \<Rightarrow> sync_device \<Rightarrow> rc \<times> sync_device" where
  "cam_sync_put_obj_ref sync_obj d =
     (if sync_obj_bad sync_obj then (- EINVAL, d)
      else (0, upd_row (nat sync_obj) (\<lambda>r. r\<lparr>ref_cnt := ref_cnt r - 1\<rparr>) d))"

text \<open>The \<open>int32_t\<close> argument becomes the \<open>uint32_t\<close> index of \<open>cam_sync_deinit_object\<close>.\<close>

definition cam_sync_destroy :: "int \<Rightarrow> sync_device \<Rightarrow> rc \<times> sync_device" where
  "cam_sync_destroy sync_obj d = cam_sync_deinit_object (nat (sync_obj mod 2 ^ 32)) d"

text \<open>
  \<open>cam_sync_wait\<close>: \<open>d\<close> is the device when the call starts and \<open>d'\<close> when the wait ends;
  \<open>timeleft\<close> is the value of \<open>wait_for_completion_timeout\<close>.
\<close>

definition cam_sync_wait :: "int \<Rightarrow> nat \<Rightarrow> sync_device \<Rightarrow> sync_device \<Rightarrow> rc" where
  "cam_sync_wait sync_obj timeleft d d' =
     (if sync_obj_bad sync_obj then - EINVAL
      else if row_state (sync_table d (nat sync_obj)) = CAM_SYNC_STATE_INVALID then - EINVAL
      else if timeleft = 0 then - ETIMEDOUT
      else if row_state (sync_table d' (nat sync_obj)) = CAM_SYNC_STATE_SIGNALED_SUCCESS then 0
      else - EINVAL)"

section \<open>cam_sync.c: opening and closing the device node\<close>

text \<open>\<open>fh_rc\<close> is the result of \<open>v4l2_fh_open\<close> and \<open>eventq\<close> the file handle it made.\<close>

definition cam_sync_open :: "rc \<Rightarrow> ptr \<Rightarrow> sync_device option \<Rightarrow> rc \<times> sync_device option" where
  "cam_sync_open fh_rc eventq dev =
     (case dev of
        None \<Rightarrow> (- ENODEV, None)
      | Some d \<Rightarrow>
          if 1 \<le> open_cnt d then (- EALREADY, Some d)
          else if fh_rc = 0
          then (fh_rc, Some (d\<lparr>open_cnt := open_cnt d + 1, cam_sync_eventq := eventq\<rparr>))
          else (fh_rc, Some d))"

text \<open>The two loops of \<open>cam_sync_close\<close> over the ids still to visit; \<open>rc\<close> is the last code.\<close>

fun close_signal_loop :: "nat list \<Rightarrow> rc \<Rightarrow> sync_device \<Rightarrow> rc \<times> sync_device" where
  "close_signal_loop [] rc d = (rc, d)"
| "close_signal_loop (i # is) rc d =
     (if row_state (sync_table d i) = CAM_SYNC_STATE_ACTIVE
      then (let (rc', d') = cam_sync_signal (int i) CAM_SYNC_STATE_SIGNALED_ERROR d
            in close_signal_loop is rc' d')
      else close_signal_loop is rc d)"

fun close_destroy_loop :: "nat list \<Rightarrow> rc \<Rightarrow> sync_device \<Rightarrow> rc \<times> sync_device" where
  "close_destroy_loop [] rc d = (rc, d)"
| "close_destroy_loop (i # is) rc d =
     (if row_state (sync_table d i) \<noteq> CAM_SYNC_STATE_INVALID
      then (let (rc', d') = cam_sync_destroy (int i) d in close_destroy_loop is rc' d')
      else close_destroy_loop is rc d)"

text \<open>\<open>flush_workqueue\<close> waits until every queued dispatch has run.\<close>

definition flush_workqueue :: "sync_device \<Rightarrow> sync_device" where
  "flush_workqueue d = (fold cam_sync_util_cb_dispatch (work_queue d) d)\<lparr>work_queue := []\<rparr>"

definition cam_sync_close :: "sync_device option \<Rightarrow> rc \<times> sync_device option" where
  "cam_sync_close dev =
     (case dev of
        None \<Rightarrow> (- ENODEV, None)
      | Some d \<Rightarrow>
          (let d0 = d\<lparr>open_cnt := open_cnt d - 1\<rparr>;
               (rc, d1) =
                 (if open_cnt d0 = 0
                  then (let (rc1, d1) = close_signal_loop [1..<CAM_SYNC_MAX_OBJS] 0 d0
                        in close_destroy_loop [1..<CAM_SYNC_MAX_OBJS] rc1 (flush_workqueue d1))
                  else (0, d0))
           in (rc, Some (d1\<lparr>cam_sync_eventq := 0\<rparr>))))"

end
