(* ===== verification/Cam_Sync_Inv.thy ===== *)
theory Cam_Sync_Inv
  imports Cam_Sync
begin

text \<open>
  The well-formedness invariant of the fence table and its preservation by every operation.
  \<open>row_ok\<close> constrains a single row, \<open>links_ok\<close> the member/group lists, \<open>count_ok\<close> the relation
  between \<open>remaining\<close> and the members still to be signalled, \<open>bits_ok\<close> the bitmap. \<open>count_ok\<close>
  carries a list of groups that are owed one more decrement, which is how the invariant is
  stated in the middle of \<open>cam_sync_signal\<close>.
\<close>

section \<open>Frame lemmas\<close>

lemma upd_row_simps [simp]:
  "sync_table (upd_row i f d) = (sync_table d)(i := f (sync_table d i))"
  "sync_bitmap (upd_row i f d) = sync_bitmap d"
  "open_cnt (upd_row i f d) = open_cnt d"
  "cam_sync_eventq (upd_row i f d) = cam_sync_eventq d"
  "work_queue (upd_row i f d) = work_queue d"
  "v4l2_queue (upd_row i f d) = v4l2_queue d"
  "cb_calls (upd_row i f d) = cb_calls d"
  "trigger_cb_without_switch (upd_row i f d) = trigger_cb_without_switch d"
  by (simp_all add: upd_row_def)

lemma zero_row_simps [simp]:
  "row_type zero_row = SYNC_TYPE_INDV" "parents_list zero_row = []" "children_list zero_row = []"
  "row_state zero_row = CAM_SYNC_STATE_INVALID" "remaining zero_row = 0"
  "signaled zero_row = False" "callback_list zero_row = []" "user_payload_list zero_row = []"
  "ref_cnt zero_row = 0"
  by (simp_all add: zero_row_def)

text \<open>The row after its callbacks and payloads have been dispatched.\<close>

definition dispatched :: "bool \<Rightarrow> sync_table_row \<Rightarrow> sync_table_row" where
  "dispatched ev r = r\<lparr>callback_list := [],
     user_payload_list := (if ev then [] else user_payload_list r), signaled := True\<rparr>"

lemma dispatched_simps [simp]:
  "row_type (dispatched ev r) = row_type r" "parents_list (dispatched ev r) = parents_list r"
  "children_list (dispatched ev r) = children_list r" "row_state (dispatched ev r) = row_state r"
  "remaining (dispatched ev r) = remaining r" "signaled (dispatched ev r)"
  "callback_list (dispatched ev r) = []" "ref_cnt (dispatched ev r) = ref_cnt r"
  by (simp_all add: dispatched_def)

definition mk_event :: "nat \<Rightarrow> u32 \<Rightarrow> sync_user_payload \<Rightarrow> v4l2_event" where
  "mk_event obj st pl = \<lparr>ev_id = CAM_SYNC_V4L_EVENT_ID_CB_TRIG, ev_type = CAM_SYNC_V4L_EVENT,
     ev_sync_obj = obj, ev_status = st, ev_payload = pl\<rparr>"

lemma send_v4l2_events:
  "fold (cam_sync_util_send_v4l2_event CAM_SYNC_V4L_EVENT_ID_CB_TRIG obj st) pls d
     = d\<lparr>v4l2_queue := v4l2_queue d @ map (mk_event obj st) pls\<rparr>"
  by (induction pls arbitrary: d) (simp_all add: cam_sync_util_send_v4l2_event_def mk_event_def)

lemma dispatch_table:
  assumes "row_state (sync_table d i) \<noteq> CAM_SYNC_STATE_INVALID"
  shows "sync_table (cam_sync_util_dispatch_signaled_cb i st d)
     = (sync_table d)(i := dispatched (cam_sync_eventq d \<noteq> 0) (sync_table d i))"
  using assms
  by (auto simp: cam_sync_util_dispatch_signaled_cb_def Let_def send_v4l2_events dispatched_def fun_eq_iff)

lemma dispatch_frame [simp]:
  "sync_bitmap (cam_sync_util_dispatch_signaled_cb i st d) = sync_bitmap d"
  "cam_sync_eventq (cam_sync_util_dispatch_signaled_cb i st d) = cam_sync_eventq d"
  "open_cnt (cam_sync_util_dispatch_signaled_cb i st d) = open_cnt d"
  "cb_calls (cam_sync_util_dispatch_signaled_cb i st d) = cb_calls d"
  "trigger_cb_without_switch (cam_sync_util_dispatch_signaled_cb i st d) = trigger_cb_without_switch d"
  by (simp_all add: cam_sync_util_dispatch_signaled_cb_def Let_def send_v4l2_events)

lemma dispatch_work_queue:
  assumes "row_state (sync_table d i) \<noteq> CAM_SYNC_STATE_INVALID"
  shows "work_queue (cam_sync_util_dispatch_signaled_cb i st d)
     = work_queue d @ map (\<lambda>cb. cb\<lparr>cb_status := st\<rparr>) (callback_list (sync_table d i))"
  using assms by (simp add: cam_sync_util_dispatch_signaled_cb_def Let_def send_v4l2_events)

lemma dispatch_v4l2_queue:
  assumes "row_state (sync_table d i) \<noteq> CAM_SYNC_STATE_INVALID"
  shows "v4l2_queue (cam_sync_util_dispatch_signaled_cb i st d)
     = v4l2_queue d @ (if cam_sync_eventq d = 0 then []
                       else map (mk_event i st) (user_payload_list (sync_table d i)))"
  using assms by (simp add: cam_sync_util_dispatch_signaled_cb_def Let_def send_v4l2_events)

lemmas dispatch_effects = dispatch_table dispatch_work_queue dispatch_v4l2_queue

section \<open>The invariant\<close>

type_synonym table = "nat \<Rightarrow> sync_table_row"

definition live :: "sync_table_row \<Rightarrow> bool" where
  "live r \<longleftrightarrow> row_state r \<noteq> CAM_SYNC_STATE_INVALID"

definition finished :: "sync_table_row \<Rightarrow> bool" where
  "finished r \<longleftrightarrow> (row_state r = CAM_SYNC_STATE_SIGNALED_SUCCESS
      \<or> row_state r = CAM_SYNC_STATE_SIGNALED_ERROR) \<and> remaining r = 0"

definition row_ok :: "sync_table_row \<Rightarrow> bool" where
  "row_ok r \<longleftrightarrow>
     row_state r \<in> {CAM_SYNC_STATE_INVALID, CAM_SYNC_STATE_ACTIVE,
                     CAM_SYNC_STATE_SIGNALED_SUCCESS, CAM_SYNC_STATE_SIGNALED_ERROR}
     \<and> distinct (parents_list r)
     \<and> (\<forall>c\<in>set (children_list r). 0 < c \<and> c < CAM_SYNC_MAX_OBJS)
     \<and> (live r \<longrightarrow> (signaled r \<longleftrightarrow> finished r)
          \<and> (signaled r \<longrightarrow> callback_list r = [])
          \<and> (row_type r = SYNC_TYPE_INDV \<longrightarrow> remaining r = 0 \<and> children_list r = [])
          \<and> (row_type r = SYNC_TYPE_GROUP \<longrightarrow> remaining r = 0 \<longrightarrow> finished r))"

definition links_ok :: "table \<Rightarrow> bool" where
  "links_ok T \<longleftrightarrow> (\<forall>i p. p \<in> set (parents_list (T i)) \<longrightarrow>
     row_state (T i) = CAM_SYNC_STATE_ACTIVE \<and> row_type (T i) = SYNC_TYPE_INDV
     \<and> live (T p) \<and> row_type (T p) = SYNC_TYPE_GROUP \<and> i \<in> set (children_list (T p)))"

definition members :: "table \<Rightarrow> nat \<Rightarrow> nat set" where
  "members T p = {i. i < CAM_SYNC_MAX_OBJS \<and> p \<in> set (parents_list (T i))}"

definition count_ok :: "nat list \<Rightarrow> table \<Rightarrow> bool" where
  "count_ok owed T \<longleftrightarrow> (\<forall>p. live (T p) \<longrightarrow> row_type (T p) = SYNC_TYPE_GROUP \<longrightarrow>
     card (members T p) + (if p \<in> set owed then 1 else 0) \<le> unat (remaining (T p)))"

definition bits_ok :: "table \<Rightarrow> bitmap \<Rightarrow> bool" where
  "bits_ok T bm \<longleftrightarrow> bm 0 \<and> (\<forall>i. live (T i) \<longrightarrow> 0 < i \<and> i < CAM_SYNC_MAX_OBJS)
     \<and> (\<forall>i. 0 < i \<longrightarrow> i < CAM_SYNC_MAX_OBJS \<longrightarrow> bm i = live (T i))"

definition table_inv :: "nat list \<Rightarrow> table \<Rightarrow> bitmap \<Rightarrow> bool" where
  "table_inv owed T bm \<longleftrightarrow>
     (\<forall>i. row_ok (T i)) \<and> links_ok T \<and> count_ok owed T \<and> bits_ok T bm
     \<and> distinct owed \<and> (\<forall>p\<in>set owed. live (T p) \<and> row_type (T p) = SYNC_TYPE_GROUP)"

definition sync_wf :: "sync_device \<Rightarrow> bool" where
  "sync_wf d \<longleftrightarrow> table_inv [] (sync_table d) (sync_bitmap d)"

lemmas inv_defs [wfdefs] = sync_wf_def table_inv_def row_ok_def links_ok_def count_ok_def bits_ok_def

lemma members_finite [simp]: "finite (members T p)"
  by (simp add: members_def)

lemma table_invD:
  assumes "table_inv owed T bm"
  shows "row_ok (T i)" "links_ok T" "count_ok owed T" "bits_ok T bm"
  using assms by (auto simp: table_inv_def)

lemma parents_live:
  assumes "table_inv owed T bm" "p \<in> set (parents_list (T i))"
  shows "row_state (T i) = CAM_SYNC_STATE_ACTIVE" "row_type (T i) = SYNC_TYPE_INDV" "live (T p)"
    "row_type (T p) = SYNC_TYPE_GROUP" "i \<in> set (children_list (T p))" "live (T i)"
    "0 < i" "i < CAM_SYNC_MAX_OBJS" "0 < p" "p < CAM_SYNC_MAX_OBJS" "p \<noteq> i"
proof -
  have l: "row_state (T i) = CAM_SYNC_STATE_ACTIVE \<and> row_type (T i) = SYNC_TYPE_INDV
     \<and> live (T p) \<and> row_type (T p) = SYNC_TYPE_GROUP \<and> i \<in> set (children_list (T p))"
    using assms unfolding table_inv_def links_ok_def by blast
  then have li: "live (T i)" by (simp add: live_def)
  have b: "\<And>j. live (T j) \<Longrightarrow> 0 < j \<and> j < CAM_SYNC_MAX_OBJS"
    using assms(1) unfolding table_inv_def bits_ok_def by blast
  show "row_state (T i) = CAM_SYNC_STATE_ACTIVE" "row_type (T i) = SYNC_TYPE_INDV" "live (T p)"
    "row_type (T p) = SYNC_TYPE_GROUP" "i \<in> set (children_list (T p))" "live (T i)"
    using l li by blast+
  show "0 < i" "i < CAM_SYNC_MAX_OBJS" "0 < p" "p < CAM_SYNC_MAX_OBJS"
    using b [of i] b [of p] l li by blast+
  show "p \<noteq> i" using l by auto
qed

lemma dead_no_parents:
  assumes "table_inv owed T bm" "row_state (T i) \<noteq> CAM_SYNC_STATE_ACTIVE"
  shows "parents_list (T i) = []"
  using parents_live(1) [OF assms(1), of _ i] assms(2) by (cases "parents_list (T i)") auto

lemma dead_not_parent:
  assumes "table_inv owed T bm" "\<not> live (T p)"
  shows "p \<notin> set (parents_list (T i))"
  using parents_live(3) [OF assms(1)] assms(2) by blast

lemma group_no_parents:
  assumes "table_inv owed T bm" "row_type (T i) = SYNC_TYPE_GROUP"
  shows "parents_list (T i) = []"
  using parents_live(2) [OF assms(1), of _ i] assms(2) by (cases "parents_list (T i)") auto

lemma remaining_pos:
  assumes "table_inv owed T bm" "p \<in> set (parents_list (T i))"
  shows "remaining (T p) \<noteq> 0"
proof -
  note p = parents_live [OF assms]
  have "i \<in> members T p" using p assms(2) by (simp add: members_def)
  then have "0 < card (members T p)" by (auto simp: card_gt_0_iff)
  then have "0 < unat (remaining (T p))"
    using table_invD(3) [OF assms(1)] p(3,4) by (auto simp: count_ok_def)
  then show ?thesis by auto
qed

text \<open>An update of one row that leaves its list links, type and liveness alone.\<close>

lemma members_upd_same:
  "parents_list r = parents_list (T i) \<Longrightarrow> members (T(i := r)) p = members T p"
  by (auto simp: members_def)

lemma table_inv_upd_local:
  assumes inv: "table_inv owed T bm" and ok: "row_ok r"
    and same: "parents_list r = parents_list (T i)" "children_list r = children_list (T i)"
      "row_type r = row_type (T i)" "live r = live (T i)" "remaining r = remaining (T i)"
    and act: "parents_list r \<noteq> [] \<Longrightarrow> row_state r = CAM_SYNC_STATE_ACTIVE"
  shows "table_inv owed (T(i := r)) bm"
proof -
  have "links_ok (T(i := r))"
    using inv same act unfolding table_inv_def links_ok_def
    by (metis emptyE empty_set fun_upd_apply)
  moreover have "count_ok owed (T(i := r))"
    using inv same by (auto simp: table_inv_def count_ok_def members_upd_same)
  moreover have "bits_ok (T(i := r)) bm"
    using inv same by (auto simp: table_inv_def bits_ok_def)
  ultimately show ?thesis
    using inv ok same by (auto simp: table_inv_def)
qed

lemma sync_wf_upd_local:
  assumes "sync_wf d" "row_ok (f (sync_table d i))"
    and "parents_list (f (sync_table d i)) = parents_list (sync_table d i)"
      "children_list (f (sync_table d i)) = children_list (sync_table d i)"
      "row_type (f (sync_table d i)) = row_type (sync_table d i)"
      "row_state (f (sync_table d i)) = row_state (sync_table d i)"
      "remaining (f (sync_table d i)) = remaining (sync_table d i)"
  shows "sync_wf (upd_row i f d)"
proof -
  have "parents_list (sync_table d i) \<noteq> [] \<Longrightarrow> row_state (sync_table d i) = CAM_SYNC_STATE_ACTIVE"
    using dead_no_parents [OF assms(1) [unfolded sync_wf_def]] by blast
  then show ?thesis
    unfolding sync_wf_def upd_row_simps
    by (intro table_inv_upd_local) (use assms in \<open>auto simp: sync_wf_def live_def\<close>)
qed

lemma sync_wf_row_ok: "sync_wf d \<Longrightarrow> row_ok (sync_table d i)"
  by (simp add: sync_wf_def table_inv_def)

lemma sync_wf_irrelevant [simp]:
  "sync_wf (d\<lparr>work_queue := w\<rparr>) = sync_wf d"
  "sync_wf (d\<lparr>v4l2_queue := v\<rparr>) = sync_wf d"
  "sync_wf (d\<lparr>cb_calls := c\<rparr>) = sync_wf d"
  "sync_wf (d\<lparr>open_cnt := n\<rparr>) = sync_wf d"
  "sync_wf (d\<lparr>cam_sync_eventq := q\<rparr>) = sync_wf d"
  by (simp_all add: sync_wf_def)

lemma sync_wf_probe: "sync_wf cam_sync_probe_state"
  by (auto simp: wfdefs cam_sync_probe_state_def live_def)

end
