(* ===== verification/Cam_Sync_Pres.thy ===== *)
theory Cam_Sync_Pres
  imports Cam_Sync_Inv
begin

text \<open>
  Preservation of \<open>sync_wf\<close> by each operation of the kernel API, with the closed forms of the
  table that the functional properties use.
\<close>

section \<open>Allocating a row\<close>

lemma get_idx_eq:
  "cam_sync_get_idx d =
     (let idx = find_first_zero_bit (sync_bitmap d) CAM_SYNC_MAX_OBJS in
      if CAM_SYNC_MAX_OBJS \<le> idx then (None, d)
      else (Some idx, d\<lparr>sync_bitmap := (sync_bitmap d)(idx := True)\<rparr>))"
  using ffz_free [of "sync_bitmap d" CAM_SYNC_MAX_OBJS]
  by (simp add: cam_sync_get_idx_def Let_def)

lemma get_idx_Some:
  assumes "cam_sync_get_idx d = (Some idx, d1)" "sync_bitmap d 0"
  shows "0 < idx" "idx < CAM_SYNC_MAX_OBJS" "\<not> sync_bitmap d idx"
    "d1 = d\<lparr>sync_bitmap := (sync_bitmap d)(idx := True)\<rparr>"
  using assms ffz_pos [of "sync_bitmap d" CAM_SYNC_MAX_OBJS] ffz_free [of "sync_bitmap d" CAM_SYNC_MAX_OBJS]
  by (auto simp: get_idx_eq Let_def split: if_splits)

lemma get_idx_None:
  assumes "cam_sync_get_idx d = (None, d1)"
  shows "d1 = d" "\<forall>i < CAM_SYNC_MAX_OBJS. sync_bitmap d i"
  using assms ffz_full_iff [of CAM_SYNC_MAX_OBJS "sync_bitmap d"]
  by (auto simp: get_idx_eq Let_def split: if_splits)

interpretation sync_slots: slot_allocator
  "\<lambda>d i. sync_bitmap d i" cam_sync_get_idx clear_idx 1 CAM_SYNC_MAX_OBJS "\<lambda>d. sync_bitmap d 0"
proof unfold_locales
  fix s s' :: sync_device and i :: nat
  assume 0: "sync_bitmap s 0"
  { assume a: "cam_sync_get_idx s = (Some i, s')"
    show "1 \<le> i \<and> i < CAM_SYNC_MAX_OBJS \<and> \<not> sync_bitmap s i"
      using get_idx_Some [OF a 0] by simp
    show "sync_bitmap s' = (sync_bitmap s)(i := True)"
      using get_idx_Some [OF a 0] by simp }
  { assume a: "cam_sync_get_idx s = (None, s')"
    show "(\<forall>i. 1 \<le> i \<and> i < CAM_SYNC_MAX_OBJS \<longrightarrow> sync_bitmap s i) \<and> sync_bitmap s' = sync_bitmap s"
      using get_idx_None [OF a] by simp }
  show "sync_bitmap (snd (cam_sync_get_idx s)) 0" using 0 by (simp add: get_idx_eq Let_def)
  assume "1 \<le> i" "i < CAM_SYNC_MAX_OBJS"
  then show "sync_bitmap (clear_idx i s) = (sync_bitmap s)(i := False)"
    and "sync_bitmap (clear_idx i s) 0" using 0 by (simp_all add: clear_idx_def)
qed

lemma wf_bit0: "sync_wf d \<Longrightarrow> sync_bitmap d 0"
  by (simp add: sync_wf_def table_inv_def bits_ok_def)

lemma wf_bit_live:
  "sync_wf d \<Longrightarrow> 0 < i \<Longrightarrow> i < CAM_SYNC_MAX_OBJS \<Longrightarrow> sync_bitmap d i = live (sync_table d i)"
  by (simp add: sync_wf_def table_inv_def bits_ok_def)

lemma table_inv_new_row:
  assumes inv: "table_inv owed T bm" and dead: "\<not> live (T idx)"
    and idx: "0 < idx" "idx < CAM_SYNC_MAX_OBJS"
    and r: "row_ok r" "live r" "parents_list r = []" "row_type r = SYNC_TYPE_INDV"
  shows "table_inv owed (T(idx := r)) (bm(idx := True))"
proof -
  have np: "parents_list (T idx) = []"
    using dead_no_parents [OF inv, of idx] dead by (simp add: live_def)
  have m: "members (T(idx := r)) p = members T p" for p
    by (rule members_upd_same) (simp add: r np)
  have "links_ok (T(idx := r))"
    using inv r dead unfolding table_inv_def links_ok_def by (auto split: if_splits)
  moreover have "count_ok owed (T(idx := r))"
    using inv r by (auto simp: table_inv_def count_ok_def m)
  moreover have "bits_ok (T(idx := r)) (bm(idx := True))"
    using inv r idx by (auto simp: table_inv_def bits_ok_def)
  ultimately show ?thesis using inv r dead by (auto simp: table_inv_def)
qed

lemma table_inv_dead_row:
  assumes inv: "table_inv owed T bm" and dead: "\<not> live (T idx)"
    and r: "row_ok r" "\<not> live r" "parents_list r = []"
  shows "table_inv owed (T(idx := r)) bm"
proof -
  have np: "parents_list (T idx) = []"
    using dead_no_parents [OF inv, of idx] dead by (simp add: live_def)
  have m: "members (T(idx := r)) p = members T p" for p
    by (rule members_upd_same) (simp add: r np)
  have "links_ok (T(idx := r))"
    using inv r dead unfolding table_inv_def links_ok_def by (auto split: if_splits)
  moreover have "count_ok owed (T(idx := r))"
    using inv r by (auto simp: table_inv_def count_ok_def m)
  moreover have "bits_ok (T(idx := r)) bm"
    using inv r dead by (auto simp: table_inv_def bits_ok_def)
  ultimately show ?thesis using inv r dead by (auto simp: table_inv_def)
qed

text \<open>The row \<open>cam_sync_init_row\<close> writes.\<close>

definition fresh_row :: "nat \<Rightarrow> string option \<Rightarrow> sync_type \<Rightarrow> sync_table_row" where
  "fresh_row idx name type = zero_row
     \<lparr>row_name := (case name of Some n \<Rightarrow> strlcpy n SYNC_DEBUG_NAME_LEN | None \<Rightarrow> ''''),
      row_type := type, row_sync_id := idx, row_state := CAM_SYNC_STATE_ACTIVE\<rparr>"

lemma fresh_row_simps [simp]:
  "row_type (fresh_row i n t) = t" "parents_list (fresh_row i n t) = []"
  "children_list (fresh_row i n t) = []" "row_state (fresh_row i n t) = CAM_SYNC_STATE_ACTIVE"
  "remaining (fresh_row i n t) = 0" "\<not> signaled (fresh_row i n t)"
  "callback_list (fresh_row i n t) = []" "user_payload_list (fresh_row i n t) = []"
  "ref_cnt (fresh_row i n t) = 0" "row_sync_id (fresh_row i n t) = i"
  by (simp_all add: fresh_row_def)

lemma init_row_eq:
  "0 < idx \<Longrightarrow> idx < CAM_SYNC_MAX_OBJS \<Longrightarrow>
     cam_sync_init_row idx name type d = (0, upd_row idx (\<lambda>_. fresh_row idx name type) d)"
  by (simp add: cam_sync_init_row_def fresh_row_def zero_row_def)

lemma row_ok_fresh_indv: "row_ok (fresh_row i n SYNC_TYPE_INDV)"
  by (simp add: row_ok_def live_def finished_def)

text \<open>What \<open>cam_sync_create\<close> does, in closed form.\<close>

lemma create_cases:
  assumes "sync_wf d"
  obtains (full) "cam_sync_create name d = (- ENOMEM, None, d)"
      "\<forall>i. 0 < i \<longrightarrow> i < CAM_SYNC_MAX_OBJS \<longrightarrow> live (sync_table d i)"
  | (new) idx where "0 < idx" "idx < CAM_SYNC_MAX_OBJS" "\<not> live (sync_table d idx)"
      "cam_sync_create name d = (0, Some idx,
         (upd_row idx (\<lambda>_. fresh_row idx name SYNC_TYPE_INDV) d)
           \<lparr>sync_bitmap := (sync_bitmap d)(idx := True)\<rparr>)"
proof (cases "cam_sync_get_idx d")
  case (Pair r d1)
  show thesis
  proof (cases r)
    case None
    then show thesis
      using full get_idx_None [of d d1] Pair wf_bit_live [OF assms]
      by (simp add: cam_sync_create_def)
  next
    case (Some idx)
    note g = get_idx_Some [OF Pair [unfolded Some] wf_bit0 [OF assms]]
    show thesis
      using new [of idx] g Pair Some wf_bit_live [OF assms, of idx]
      by (simp add: cam_sync_create_def init_row_eq upd_row_def)
  qed
qed

lemma sync_wf_create:
  assumes "sync_wf d"
  shows "sync_wf (snd (snd (cam_sync_create name d)))"
proof (cases rule: create_cases [OF assms, of name])
  case (2 idx)
  then show ?thesis
    using assms table_inv_new_row [of "[]" "sync_table d" "sync_bitmap d" idx]
    by (simp add: sync_wf_def row_ok_fresh_indv live_def)
qed (use assms in simp)

section \<open>Callbacks, references, payloads\<close>

lemma sync_obj_bad_iff: "\<not> sync_obj_bad s \<longleftrightarrow> 0 < nat s \<and> nat s < CAM_SYNC_MAX_OBJS \<and> int (nat s) = s"
  by (auto simp: sync_obj_bad_def)

lemma row_ok_callback:
  assumes "row_ok r" "\<not> finished r"
  shows "row_ok (r\<lparr>callback_list := cbs\<rparr>)"
  using assms by (auto simp: row_ok_def live_def finished_def)

lemma sync_wf_register_callback:
  assumes "sync_wf d"
  shows "sync_wf (snd (cam_sync_register_callback kz f u s d))"
proof -
  have "\<not> finished (sync_table d (nat s)) \<Longrightarrow>
      sync_wf (upd_row (nat s) (\<lambda>r. r\<lparr>callback_list := callback_list r @ xs\<rparr>) d)" for xs
    by (rule sync_wf_upd_local) (use assms in \<open>auto intro: row_ok_callback sync_wf_row_ok\<close>)
  then show ?thesis
    using assms by (auto simp: cam_sync_register_callback_def Let_def finished_def)
qed

lemma row_ok_callback_filter:
  "row_ok r \<Longrightarrow> row_ok (r\<lparr>callback_list := filter P (callback_list r)\<rparr>)"
  by (auto simp: row_ok_def live_def finished_def)

lemma sync_wf_deregister_callback:
  "sync_wf d \<Longrightarrow> sync_wf (snd (cam_sync_deregister_callback f u s d))"
  by (auto simp: cam_sync_deregister_callback_def Let_def
      intro!: sync_wf_upd_local row_ok_callback_filter sync_wf_row_ok)

lemma row_ok_ref: "row_ok r \<Longrightarrow> row_ok (r\<lparr>ref_cnt := n\<rparr>)"
  by (auto simp: row_ok_def live_def finished_def)

lemma row_ok_payload: "row_ok r \<Longrightarrow> row_ok (r\<lparr>user_payload_list := pl\<rparr>)"
  by (auto simp: row_ok_def live_def finished_def)

lemma sync_wf_ref: "sync_wf d \<Longrightarrow> sync_wf (upd_row i (\<lambda>r. r\<lparr>ref_cnt := f r\<rparr>) d)"
  by (auto intro!: sync_wf_upd_local row_ok_ref sync_wf_row_ok)

lemma sync_wf_payload: "sync_wf d \<Longrightarrow> sync_wf (upd_row i (\<lambda>r. r\<lparr>user_payload_list := f r\<rparr>) d)"
  by (auto intro!: sync_wf_upd_local row_ok_payload sync_wf_row_ok)

lemma sync_wf_get_obj_ref: "sync_wf d \<Longrightarrow> sync_wf (snd (cam_sync_get_obj_ref s d))"
  by (simp add: cam_sync_get_obj_ref_def sync_wf_ref)

lemma sync_wf_put_obj_ref: "sync_wf d \<Longrightarrow> sync_wf (snd (cam_sync_put_obj_ref s d))"
  by (simp add: cam_sync_put_obj_ref_def sync_wf_ref)

section \<open>Signalling\<close>

text \<open>The status a group takes over from a member: an error sticks.\<close>

definition join_state :: "u32 \<Rightarrow> u32 \<Rightarrow> u32" where
  "join_state status old =
     (if old = CAM_SYNC_STATE_SIGNALED_ERROR then CAM_SYNC_STATE_SIGNALED_ERROR else status)"

definition is_signal :: "u32 \<Rightarrow> bool" where
  "is_signal st \<longleftrightarrow> st = CAM_SYNC_STATE_SIGNALED_SUCCESS \<or> st = CAM_SYNC_STATE_SIGNALED_ERROR"

lemma join_state_signal: "is_signal st \<Longrightarrow> is_signal (join_state st old)"
  by (auto simp: join_state_def is_signal_def)

text \<open>The row of a group after one member signalled, before and after a possible dispatch.\<close>

definition counted :: "u32 \<Rightarrow> sync_table_row \<Rightarrow> sync_table_row" where
  "counted st r = r\<lparr>remaining := remaining r - 1, row_state := join_state st (row_state r)\<rparr>"

definition parent_after :: "bool \<Rightarrow> u32 \<Rightarrow> sync_table_row \<Rightarrow> sync_table_row" where
  "parent_after ev st r = (if remaining r = 1 then dispatched ev (counted st r) else counted st r)"

lemma counted_simps [simp]:
  "parents_list (counted st r) = parents_list r" "children_list (counted st r) = children_list r"
  "row_type (counted st r) = row_type r" "callback_list (counted st r) = callback_list r"
  "user_payload_list (counted st r) = user_payload_list r" "signaled (counted st r) = signaled r"
  "remaining (counted st r) = remaining r - 1" "row_state (counted st r) = join_state st (row_state r)"
  "ref_cnt (counted st r) = ref_cnt r"
  by (simp_all add: counted_def)

lemma parent_after_simps [simp]:
  "parents_list (parent_after ev st r) = parents_list r"
  "children_list (parent_after ev st r) = children_list r"
  "row_type (parent_after ev st r) = row_type r"
  "remaining (parent_after ev st r) = remaining r - 1"
  "row_state (parent_after ev st r) = join_state st (row_state r)"
  by (simp_all add: parent_after_def)

lemma signal_parent_eq:
  assumes "live (sync_table d p)" "row_ok (sync_table d p)" "is_signal st"
  shows "signal_parent st p d =
     (let d1 = upd_row p (counted st) d in
      if remaining (sync_table d p) = 1
      then cam_sync_util_dispatch_signaled_cb p (join_state st (row_state (sync_table d p))) d1
      else d1)"
proof -
  let ?r = "sync_table d p"
  have st: "row_state ?r = 1 \<or> row_state ?r = 2 \<or> row_state ?r = 3"
    using assms(1,2) by (auto simp: row_ok_def live_def)
  have u: "cam_sync_util_update_parent_state st (?r\<lparr>remaining := remaining ?r - 1\<rparr>) = (0, counted st ?r)"
    using st by (auto simp: cam_sync_util_update_parent_state_def counted_def join_state_def)
  have e: "upd_row p (\<lambda>_. counted st ?r) (upd_row p (\<lambda>r. r\<lparr>remaining := remaining r - 1\<rparr>) d)
      = upd_row p (counted st) d"
    by (simp add: upd_row_def)
  have z: "remaining ?r - 1 = 0 \<longleftrightarrow> remaining ?r = 1" by (simp add: eq_iff_diff_eq_0 [symmetric])
  show ?thesis by (simp add: signal_parent_def Let_def u e z)
qed

lemma live_join [simp]: "is_signal st \<Longrightarrow> join_state st old \<noteq> CAM_SYNC_STATE_INVALID"
  by (auto simp: join_state_def is_signal_def)

lemma signal_parent_frame:
  assumes "live (sync_table d p)" "row_ok (sync_table d p)" "is_signal st"
  shows "sync_table (signal_parent st p d)
       = (sync_table d)(p := parent_after (cam_sync_eventq d \<noteq> 0) st (sync_table d p))"
    "sync_bitmap (signal_parent st p d) = sync_bitmap d"
    "cam_sync_eventq (signal_parent st p d) = cam_sync_eventq d"
    "open_cnt (signal_parent st p d) = open_cnt d"
    "cb_calls (signal_parent st p d) = cb_calls d"
  using assms
  by (auto simp: signal_parent_eq Let_def parent_after_def dispatch_table)

lemma row_ok_parent_after:
  assumes "row_ok r" "live r" "row_type r = SYNC_TYPE_GROUP" "remaining r \<noteq> 0" "is_signal st"
  shows "row_ok (parent_after ev st r)"
proof -
  have nz: "remaining r \<noteq> 1 \<Longrightarrow> remaining r - 1 \<noteq> 0" by (simp add: eq_iff_diff_eq_0 [symmetric])
  have s: "\<not> signaled r" using assms(1,2,4) by (auto simp: row_ok_def finished_def)
  have j: "is_signal (join_state st (row_state r))" using assms(5) by (rule join_state_signal)
  show ?thesis
    using assms nz s j
    by (auto simp: row_ok_def parent_after_def finished_def is_signal_def live_def)
qed

lemma signal_parent_inv:
  assumes inv: "table_inv (p # ps) (sync_table d) (sync_bitmap d)" and st: "is_signal st"
  shows "table_inv ps (sync_table (signal_parent st p d)) (sync_bitmap (signal_parent st p d))"
proof -
  let ?T = "sync_table d"
  let ?r = "parent_after (cam_sync_eventq d \<noteq> 0) st (?T p)"
  have lp: "live (?T p)" "row_type (?T p) = SYNC_TYPE_GROUP" "p \<notin> set ps" "distinct ps"
    and ok: "row_ok (?T p)"
    using inv by (auto simp: table_inv_def)
  have cnt: "card (members ?T p) + 1 \<le> unat (remaining (?T p))"
    using inv lp by (force simp: table_inv_def count_ok_def)
  then have nz: "remaining (?T p) \<noteq> 0" by auto
  have un: "unat (remaining (?T p) - 1) = unat (remaining (?T p)) - 1" using nz by (rule unat_minus_one)
  have m: "members (?T(p := ?r)) q = members ?T q" for q by (rule members_upd_same) simp
  have lr: "live ?r" using st by (simp add: live_def)
  have "links_ok (?T(p := ?r))"
    using inv lp lr group_no_parents [OF inv lp(2)] unfolding table_inv_def links_ok_def
    by (auto split: if_splits)
  moreover have "count_ok ps (?T(p := ?r))"
    using inv lp cnt un by (auto simp: table_inv_def count_ok_def m split: if_splits)
  moreover have "bits_ok (?T(p := ?r)) (sync_bitmap d)"
    using inv lp lr by (auto simp: table_inv_def bits_ok_def)
  moreover have "row_ok ?r" using row_ok_parent_after ok lp nz st by blast
  ultimately have "table_inv ps (?T(p := ?r)) (sync_bitmap d)"
    using inv lp lr by (auto simp: table_inv_def)
  then show ?thesis by (simp add: signal_parent_frame lp ok st)
qed

lemma signal_parents_inv:
  "table_inv ps (sync_table d) (sync_bitmap d) \<Longrightarrow> is_signal st \<Longrightarrow>
     table_inv [] (sync_table (fold (signal_parent st) ps d)) (sync_bitmap (fold (signal_parent st) ps d))"
  by (induction ps arbitrary: d) (auto dest: signal_parent_inv)

text \<open>The signalled member's own row.\<close>

definition signal_row :: "bool \<Rightarrow> u32 \<Rightarrow> sync_table_row \<Rightarrow> sync_table_row" where
  "signal_row ev st r = (dispatched ev (r\<lparr>ref_cnt := ref_cnt r - 1, row_state := st\<rparr>))\<lparr>parents_list := []\<rparr>"

lemma signal_row_simps [simp]:
  "parents_list (signal_row ev st r) = []" "children_list (signal_row ev st r) = children_list r"
  "row_type (signal_row ev st r) = row_type r" "remaining (signal_row ev st r) = remaining r"
  "row_state (signal_row ev st r) = st" "signaled (signal_row ev st r)"
  "callback_list (signal_row ev st r) = []"
  by (simp_all add: signal_row_def)

text \<open>The device between the two halves of \<open>cam_sync_signal\<close>.\<close>

definition signal_self :: "nat \<Rightarrow> u32 \<Rightarrow> sync_device \<Rightarrow> sync_device" where
  "signal_self idx st d =
     upd_row idx (\<lambda>r. r\<lparr>parents_list := []\<rparr>)
       (cam_sync_util_dispatch_signaled_cb idx st
         (upd_row idx (\<lambda>r. r\<lparr>row_state := st\<rparr>) (upd_row idx (\<lambda>r. r\<lparr>ref_cnt := ref_cnt r - 1\<rparr>) d)))"

lemma signal_self_frame:
  assumes "is_signal st"
  shows "sync_table (signal_self i st d)
       = (sync_table d)(i := signal_row (cam_sync_eventq d \<noteq> 0) st (sync_table d i))"
    "sync_bitmap (signal_self i st d) = sync_bitmap d"
    "cam_sync_eventq (signal_self i st d) = cam_sync_eventq d"
    "work_queue (signal_self i st d)
       = work_queue d @ map (\<lambda>cb. cb\<lparr>cb_status := st\<rparr>) (callback_list (sync_table d i))"
    "cb_calls (signal_self i st d) = cb_calls d"
  using assms
  by (auto simp: signal_self_def dispatch_table dispatch_work_queue is_signal_def signal_row_def fun_eq_iff)

lemma signal_cases:
  assumes "sync_obj_bad s \<or> row_state (sync_table d (nat s)) \<noteq> CAM_SYNC_STATE_ACTIVE
     \<or> row_type (sync_table d (nat s)) = SYNC_TYPE_GROUP \<or> \<not> is_signal st"
  shows "snd (cam_sync_signal s st d) = d"
  using assms by (auto simp: cam_sync_signal_def Let_def is_signal_def)

lemma signal_effective:
  assumes "\<not> sync_obj_bad s" "row_state (sync_table d (nat s)) = CAM_SYNC_STATE_ACTIVE"
    and "row_type (sync_table d (nat s)) = SYNC_TYPE_INDV" "is_signal st"
    and "ref_cnt (sync_table d (nat s)) = 1"
  shows "cam_sync_signal s st d =
     (0, fold (signal_parent st) (parents_list (sync_table d (nat s))) (signal_self (nat s) st d))"
proof -
  have "st \<noteq> CAM_SYNC_STATE_INVALID" using assms(4) by (auto simp: is_signal_def)
  then show ?thesis
    using assms
    by (auto simp: cam_sync_signal_def Let_def is_signal_def signal_self_def dispatch_table)
qed

lemma signal_ref:
  assumes "\<not> sync_obj_bad s" "row_state (sync_table d (nat s)) = CAM_SYNC_STATE_ACTIVE"
    and "row_type (sync_table d (nat s)) = SYNC_TYPE_INDV" "is_signal st"
    and "ref_cnt (sync_table d (nat s)) \<noteq> 1"
  shows "cam_sync_signal s st d = (0, upd_row (nat s) (\<lambda>r. r\<lparr>ref_cnt := ref_cnt r - 1\<rparr>) d)"
  using assms by (auto simp: cam_sync_signal_def Let_def is_signal_def)

lemma signal_self_inv:
  assumes inv: "table_inv [] T bm" and act: "row_state (T i) = CAM_SYNC_STATE_ACTIVE"
    and ty: "row_type (T i) = SYNC_TYPE_INDV" and st: "is_signal st"
  shows "table_inv (parents_list (T i)) (T(i := signal_row ev st (T i))) bm"
proof -
  let ?r = "signal_row ev st (T i)"
  have ok: "row_ok (T i)" using inv by (rule table_invD)
  have li: "live (T i)" "live ?r" using act st by (auto simp: live_def is_signal_def)
  have rok: "row_ok ?r"
    using ok li ty st by (auto simp: row_ok_def finished_def is_signal_def live_def)
  have m: "members (T(i := ?r)) p = members T p - {i}" for p by (auto simp: members_def)
  have im: "i \<in> members T p" if "p \<in> set (parents_list (T i))" for p
    using that parents_live(8) [OF inv that] by (simp add: members_def)
  have pi: "p \<noteq> i" if "p \<in> set (parents_list (T i))" for p using parents_live(11) [OF inv that] .
  have "card (members T p - {i}) + (if p \<in> set (parents_list (T i)) then 1 else 0) \<le> card (members T p)" for p
  proof (cases "p \<in> set (parents_list (T i))")
    case True
    then show ?thesis using im [OF True] card_Suc_Diff1 [of "members T p" i] by simp
  qed (simp add: card_mono)
  note le = this
  have "count_ok (parents_list (T i)) (T(i := ?r))"
    unfolding count_ok_def m
  proof (intro allI impI)
    fix p assume "live ((T(i := ?r)) p)" "row_type ((T(i := ?r)) p) = SYNC_TYPE_GROUP"
    then have p: "p \<noteq> i" "live (T p)" "row_type (T p) = SYNC_TYPE_GROUP"
      using ty by (auto split: if_splits)
    then have "card (members T p) \<le> unat (remaining (T p))"
      using inv by (auto simp: table_inv_def count_ok_def)
    then show "card (members T p - {i}) + (if p \<in> set (parents_list (T i)) then 1 else 0)
        \<le> unat (remaining ((T(i := ?r)) p))"
      using le [of p] p(1) by simp
  qed
  moreover have "links_ok (T(i := ?r))"
    using inv ty pi unfolding table_inv_def links_ok_def by (auto split: if_splits)
  moreover have "bits_ok (T(i := ?r)) bm" using inv li by (auto simp: table_inv_def bits_ok_def)
  ultimately show ?thesis
    using inv rok ok pi parents_live(3,4) [OF inv, of _ i] by (auto simp: table_inv_def row_ok_def)
qed

lemma sync_wf_signal:
  assumes "sync_wf d"
  shows "sync_wf (snd (cam_sync_signal s st d))"
proof -
  let ?r = "sync_table d (nat s)"
  let ?no = "sync_obj_bad s \<or> row_state ?r \<noteq> CAM_SYNC_STATE_ACTIVE
     \<or> row_type ?r = SYNC_TYPE_GROUP \<or> \<not> is_signal st"
  consider (same) ?no | (ref) "\<not> ?no" "ref_cnt ?r \<noteq> 1" | (eff) "\<not> ?no" "ref_cnt ?r = 1" by blast
  then show ?thesis
  proof cases
    case same
    then show ?thesis using signal_cases [of s d st] assms by simp
  next
    case ref
    then have "row_type ?r = SYNC_TYPE_INDV" by (cases "row_type ?r") auto
    then show ?thesis using signal_ref [of s d st] ref assms by (simp add: sync_wf_ref)
  next
    case eff
    then have "row_type ?r = SYNC_TYPE_INDV" by (cases "row_type ?r") auto
    with eff have e: "row_state ?r = CAM_SYNC_STATE_ACTIVE" "row_type ?r = SYNC_TYPE_INDV" "is_signal st"
      by auto
    have "table_inv (parents_list ?r) (sync_table (signal_self (nat s) st d))
        (sync_bitmap (signal_self (nat s) st d))"
      using signal_self_inv [OF assms [unfolded sync_wf_def] e] e(3)
      by (simp add: signal_self_frame)
    then show ?thesis
      using signal_parents_inv e signal_effective [of s d st] eff by (simp add: sync_wf_def)
  qed
qed

end
