(* ===== verification/Cam_Sync_Group.thy ===== *)
theory Cam_Sync_Group
  imports Cam_Sync_Pres
begin

text \<open>
  Destroying and merging fences: closed forms of \<open>cam_sync_deinit_object\<close> and
  \<open>cam_sync_init_group_object\<close>, and the preservation of \<open>sync_wf\<close>.
\<close>

section \<open>Destroying a fence\<close>

definition drop_parent :: "nat \<Rightarrow> nat list \<Rightarrow> table \<Rightarrow> table" where
  "drop_parent idx cs T = (\<lambda>i. if i \<in> set cs \<and> live (T i)
     then (T i)\<lparr>parents_list := removeAll idx (parents_list (T i))\<rparr> else T i)"

definition drop_child :: "nat \<Rightarrow> nat list \<Rightarrow> table \<Rightarrow> table" where
  "drop_child idx ps T = (\<lambda>i. if i \<in> set ps \<and> live (T i)
     then (T i)\<lparr>children_list := remove1 idx (children_list (T i))\<rparr> else T i)"

lemma live_drop [simp]:
  "live (drop_parent idx cs T i) = live (T i)" "live (drop_child idx cs T i) = live (T i)"
  by (simp_all add: drop_parent_def drop_child_def live_def)

lemma fold_deinit_child:
  assumes "\<forall>i. distinct (parents_list (sync_table d i))"
  shows "fold (deinit_child idx) cs d = d\<lparr>sync_table := drop_parent idx cs (sync_table d)\<rparr>"
  using assms
proof (induction cs arbitrary: d)
  case Nil
  then show ?case by (simp add: drop_parent_def)
next
  case (Cons c cs)
  let ?d = "deinit_child idx c d"
  have eq: "?d = d\<lparr>sync_table := drop_parent idx [c] (sync_table d)\<rparr>"
    using Cons.prems
    by (auto simp: deinit_child_def drop_parent_def cam_sync_util_cleanup_parents_list_def
        upd_row_def live_def distinct_remove1_removeAll fun_eq_iff)
  have "\<forall>i. distinct (parents_list (sync_table ?d i))"
    using Cons.prems by (simp add: eq drop_parent_def distinct_removeAll)
  then have "fold (deinit_child idx) cs ?d
      = ?d\<lparr>sync_table := drop_parent idx cs (sync_table ?d)\<rparr>" by (rule Cons.IH)
  moreover have "drop_parent idx cs (drop_parent idx [c] (sync_table d)) = drop_parent idx (c # cs) (sync_table d)"
    by (auto simp: drop_parent_def fun_eq_iff live_def)
  ultimately show ?case by (simp add: eq)
qed

lemma fold_deinit_parent:
  "distinct ps \<Longrightarrow>
     fold (deinit_parent idx) ps d = d\<lparr>sync_table := drop_child idx ps (sync_table d)\<rparr>"
proof (induction ps arbitrary: d)
  case Nil
  then show ?case by (simp add: drop_child_def)
next
  case (Cons p ps)
  have eq: "deinit_parent idx p d = d\<lparr>sync_table := drop_child idx [p] (sync_table d)\<rparr>"
    by (auto simp: deinit_parent_def drop_child_def cam_sync_util_cleanup_children_list_def
        upd_row_def live_def fun_eq_iff)
  have "drop_child idx ps (drop_child idx [p] (sync_table d)) = drop_child idx (p # ps) (sync_table d)"
    using Cons.prems by (auto simp: drop_child_def fun_eq_iff live_def)
  then show ?case using Cons by (simp add: eq)
qed

text \<open>The table once \<open>idx\<close> is destroyed: no row points to it as a group any more.\<close>

definition removed :: "nat \<Rightarrow> table \<Rightarrow> table" where
  "removed idx T = (\<lambda>i. if i = idx then zero_row
     else (T i)\<lparr>parents_list := removeAll idx (parents_list (T i)),
                children_list := (if i \<in> set (parents_list (T idx))
                  then remove1 idx (children_list (T i)) else children_list (T i))\<rparr>)"

lemma deinit_eq:
  assumes wf: "sync_wf d" and idx: "0 < idx" "idx < CAM_SYNC_MAX_OBJS"
    and live: "live (sync_table d idx)"
  shows "cam_sync_deinit_object idx d =
     (0, d\<lparr>sync_table := removed idx (sync_table d), sync_bitmap := (sync_bitmap d)(idx := False)\<rparr>)"
proof -
  let ?T = "sync_table d"
  note inv = wf [unfolded sync_wf_def]
  define cs where "cs = filter (\<lambda>c. 0 < c) (children_list (?T idx))"
  define ps where "ps = filter (\<lambda>p. 0 < p) (parents_list (?T idx))"
  have dist: "distinct (parents_list (?T i))" for i
    using table_invD(1) [OF inv, of i] by (simp add: row_ok_def)
  have psset: "set ps = set (parents_list (?T idx))" using parents_live(9) [OF inv] by (auto simp: ps_def)
  have psl: "live (?T p)" "p \<noteq> idx" if "p \<in> set ps" for p
    using that parents_live(3,11) [OF inv, of p idx] by (auto simp: psset)
  have cov: "i \<in> set cs \<and> live (?T i)" if "idx \<in> set (parents_list (?T i))" for i
    using that parents_live(5,6,7) [OF inv, of idx i] by (auto simp: cs_def)
  define d1 where "d1 = upd_row idx (\<lambda>r. r
                   \<lparr>row_state := CAM_SYNC_STATE_INVALID,
                    children_list := filter (\<lambda>c. \<not> 0 < c) (children_list r),
                    parents_list := filter (\<lambda>p. \<not> 0 < p) (parents_list r)\<rparr>) d"
  have dist1: "\<forall>i. distinct (parents_list (sync_table d1 i))" by (simp add: d1_def dist)
  have T1: "i \<noteq> idx \<Longrightarrow> sync_table d1 i = ?T i" for i by (simp add: d1_def)
  have "distinct ps" by (simp add: ps_def dist)
  then have f: "fold (deinit_parent idx) ps (fold (deinit_child idx) cs d1)
      = d1\<lparr>sync_table := drop_child idx ps (drop_parent idx cs (sync_table d1))\<rparr>"
    by (simp add: fold_deinit_child [OF dist1] fold_deinit_parent)
  have "(drop_child idx ps (drop_parent idx cs (sync_table d1)))(idx := zero_row) = removed idx ?T"
  proof
    fix i
    show "((drop_child idx ps (drop_parent idx cs (sync_table d1)))(idx := zero_row)) i = removed idx ?T i"
    proof (cases "i = idx")
      case False
      have "idx \<notin> set (parents_list (?T i))" if "\<not> (i \<in> set cs \<and> live (?T i))"
        using cov [of i] that by blast
      then have "drop_parent idx cs (sync_table d1) i
          = (?T i)\<lparr>parents_list := removeAll idx (parents_list (?T i))\<rparr>"
        using False T1 [of i] by (auto simp: drop_parent_def removeAll_id)
      then show ?thesis
        using False psset psl [of i] by (auto simp: drop_child_def removed_def live_def)
    qed (simp add: removed_def)
  qed
  then show ?thesis
    using live idx f
    by (simp add: cam_sync_deinit_object_def Let_def live_def d1_def [symmetric] cs_def [symmetric]
        ps_def [symmetric]) (simp add: upd_row_def d1_def)
qed

lemma removed_inv:
  assumes inv: "table_inv [] T bm" and idx: "0 < idx"
  shows "table_inv [] (removed idx T) (bm(idx := False))"
proof -
  have lv: "live (removed idx T i) \<longleftrightarrow> i \<noteq> idx \<and> live (T i)" for i
    by (simp add: removed_def live_def)
  have "row_ok (removed idx T i)" for i
  proof (cases "i = idx")
    case False
    have "row_ok (T i)" using inv by (rule table_invD)
    moreover have "i \<in> set (parents_list (T idx)) \<Longrightarrow> row_type (T i) = SYNC_TYPE_GROUP"
      using parents_live(4) [OF inv, of i idx] .
    ultimately show ?thesis
      using False set_remove1_subset [of idx "children_list (T i)"]
      by (auto simp: row_ok_def removed_def live_def finished_def distinct_removeAll)
  qed (simp add: row_ok_def removed_def live_def)
  moreover have "links_ok (removed idx T)"
    unfolding links_ok_def
  proof (intro allI impI)
    fix i p assume "p \<in> set (parents_list (removed idx T i))"
    then have p: "p \<in> set (parents_list (T i))" "p \<noteq> idx" "i \<noteq> idx"
      by (auto simp: removed_def split: if_splits)
    note parents_live [OF inv p(1)]
    then show "row_state (removed idx T i) = CAM_SYNC_STATE_ACTIVE
        \<and> row_type (removed idx T i) = SYNC_TYPE_INDV \<and> live (removed idx T p)
        \<and> row_type (removed idx T p) = SYNC_TYPE_GROUP
        \<and> i \<in> set (children_list (removed idx T p))"
      using p by (auto simp: lv) (auto simp: removed_def in_set_remove1)
  qed
  moreover have "count_ok [] (removed idx T)"
    unfolding count_ok_def
  proof (intro allI impI)
    fix p assume a: "live (removed idx T p)" "row_type (removed idx T p) = SYNC_TYPE_GROUP"
    then have "p \<noteq> idx" "live (T p)" by (auto simp: lv)
    with a(2) have p: "p \<noteq> idx" "live (T p)" "row_type (T p) = SYNC_TYPE_GROUP"
      by (auto simp: removed_def)
    have "members (removed idx T) p \<subseteq> members T p"
      by (auto simp: members_def removed_def split: if_splits)
    then have "card (members (removed idx T) p) \<le> card (members T p)" by (simp add: card_mono)
    moreover have "card (members T p) \<le> unat (remaining (T p))"
      using inv p by (auto simp: table_inv_def count_ok_def)
    ultimately show "card (members (removed idx T) p) + (if p \<in> set [] then 1 else 0)
        \<le> unat (remaining (removed idx T p))" using p by (simp add: removed_def)
  qed
  moreover have "bits_ok (removed idx T) (bm(idx := False))"
    using inv idx by (auto simp: table_inv_def bits_ok_def lv)
  ultimately show ?thesis by (simp add: table_inv_def)
qed

lemma sync_wf_deinit:
  assumes "sync_wf d"
  shows "sync_wf (snd (cam_sync_deinit_object idx d))"
proof (cases "0 < idx \<and> idx < CAM_SYNC_MAX_OBJS \<and> live (sync_table d idx)")
  case True
  then show ?thesis
    using deinit_eq [OF assms, of idx] removed_inv [of "sync_table d" "sync_bitmap d" idx] assms
    by (simp add: sync_wf_def)
next
  case False
  then have "snd (cam_sync_deinit_object idx d) = d"
    by (auto simp: cam_sync_deinit_object_def live_def)
  then show ?thesis using assms by simp
qed

lemma sync_wf_destroy: "sync_wf d \<Longrightarrow> sync_wf (snd (cam_sync_destroy s d))"
  by (simp add: cam_sync_destroy_def sync_wf_deinit)

section \<open>Merging fences\<close>

text \<open>
  The table while \<open>cam_sync_init_group_object\<close> runs: \<open>added\<close> are the members linked so far and
  \<open>r\<close> is the group's row.
\<close>

definition linked :: "nat \<Rightarrow> sync_table_row \<Rightarrow> nat list \<Rightarrow> table \<Rightarrow> table" where
  "linked idx r added T = (\<lambda>i. if i = idx then r
     else if i \<in> set added then (T i)\<lparr>parents_list := parents_list (T i) @ [idx]\<rparr> else T i)"

definition active_of :: "table \<Rightarrow> nat list \<Rightarrow> nat list" where
  "active_of T objs = filter (\<lambda>c. row_state (T c) = CAM_SYNC_STATE_ACTIVE) objs"

text \<open>The group's row after the members \<open>objs\<close> were visited, starting from \<open>r\<close>.\<close>

definition group_row :: "table \<Rightarrow> nat list \<Rightarrow> sync_table_row \<Rightarrow> sync_table_row" where
  "group_row T objs r = r
     \<lparr>remaining := remaining r + of_nat (length (active_of T objs)),
      children_list := children_list r @ active_of T objs,
      row_state := (if \<exists>c\<in>set objs. row_state (T c) = CAM_SYNC_STATE_SIGNALED_ERROR
                    then CAM_SYNC_STATE_SIGNALED_ERROR else row_state r)\<rparr>"

lemma group_row_simps [simp]:
  "parents_list (group_row T objs r) = parents_list r" "row_type (group_row T objs r) = row_type r"
  "signaled (group_row T objs r) = signaled r" "callback_list (group_row T objs r) = callback_list r"
  "group_row T [] r = r" "active_of T [] = []"
  by (simp_all add: group_row_def active_of_def)

lemma group_row_step:
  "row_state (T c) = CAM_SYNC_STATE_SIGNALED_ERROR \<Longrightarrow>
     group_row T objs (r\<lparr>row_state := CAM_SYNC_STATE_SIGNALED_ERROR\<rparr>) = group_row T (c # objs) r"
  "row_state (T c) \<noteq> CAM_SYNC_STATE_SIGNALED_ERROR \<Longrightarrow> row_state (T c) \<noteq> CAM_SYNC_STATE_ACTIVE \<Longrightarrow>
     group_row T objs r = group_row T (c # objs) r"
  "row_state (T c) = CAM_SYNC_STATE_ACTIVE \<Longrightarrow>
     group_row T objs (r\<lparr>remaining := remaining r + 1, children_list := children_list r @ [c]\<rparr>)
       = group_row T (c # objs) r"
  by (auto simp: group_row_def active_of_def)

lemma linked_upd_self:
  "sync_table d = linked idx r added T \<Longrightarrow>
     sync_table (upd_row idx f d) = linked idx (f r) added T"
  by (auto simp: linked_def fun_eq_iff)

lemma linked_add:
  assumes "sync_table d = linked idx r added T" "c \<noteq> idx" "c \<notin> set added"
  shows "sync_table (upd_row c (\<lambda>r. r\<lparr>parents_list := parents_list r @ [idx]\<rparr>) d)
     = linked idx r (added @ [c]) T"
  using assms by (auto simp: linked_def fun_eq_iff)

lemma linked_other: "c \<noteq> idx \<Longrightarrow> row_state (linked idx r added T c) = row_state (T c)
    \<and> row_type (linked idx r added T c) = row_type (T c)"
  by (simp add: linked_def)

lemma upd_row_twice: "upd_row i f (upd_row i g d) = upd_row i (\<lambda>r. f (g r)) d"
  by (simp add: upd_row_def)

definition bad_member :: "table \<Rightarrow> nat \<Rightarrow> bool" where
  "bad_member T c \<longleftrightarrow> row_type (T c) = SYNC_TYPE_GROUP \<or> \<not> live (T c)"

text \<open>Only the table changes while members are linked.\<close>

lemma init_group_loop_frame:
  "init_group_loop kz idx k objs visited d = (rc, visited', d') \<Longrightarrow> d' = d\<lparr>sync_table := sync_table d'\<rparr>"
proof (induction kz idx k objs visited d arbitrary: rc visited' d' rule: init_group_loop.induct)
  case (2 kz idx k c objs visited d)
  have u: "upd_row i f e = e\<lparr>sync_table := sync_table (upd_row i f e)\<rparr>" for i f e
    by (simp add: upd_row_def)
  show ?case
    using 2 by (auto simp: Let_def upd_row_def split: if_splits)
qed simp

text \<open>
  What the loop leaves: it succeeds exactly with the table where every active member is
  linked; when it fails, the members visited before the failing one are linked and listed for
  the clean-up.
\<close>

definition loop_result :: "nat \<Rightarrow> table \<Rightarrow> nat list \<Rightarrow> sync_table_row \<Rightarrow> nat list \<Rightarrow> nat list
    \<Rightarrow> rc \<Rightarrow> nat list \<Rightarrow> table \<Rightarrow> bool" where
  "loop_result idx T objs r added visited rc visited' T' \<longleftrightarrow>
     (rc = 0 \<and> T' = linked idx (group_row T objs r) (added @ active_of T objs) T
        \<and> (\<forall>c\<in>set objs. \<not> bad_member T c))
     \<or> (rc < 0 \<and> (\<exists>pre suf r'. objs = pre @ suf \<and> visited' = rev pre @ visited
            \<and> T' = linked idx r' (added @ active_of T pre) T
            \<and> parents_list r' = parents_list r \<and> row_type r' = row_type r))"

lemma loop_result_fail:
  assumes "rc < 0" "visited' = visited" "T' = linked idx r' added T"
    and "parents_list r' = parents_list r" "row_type r' = row_type r"
  shows "loop_result idx T objs r added visited rc visited' T'"
  unfolding loop_result_def using assms
  by (intro disjI2 conjI exI [of _ "[]"] exI [of _ objs] exI [of _ r']) simp_all

lemma loop_result_cons:
  assumes R: "loop_result idx T objs r1 added1 (c # visited) rc visited' T'"
    and g: "group_row T objs r1 = group_row T (c # objs) r"
    and a: "\<And>xs. added1 @ active_of T xs = added @ active_of T (c # xs)"
    and r: "parents_list r1 = parents_list r" "row_type r1 = row_type r" and c: "\<not> bad_member T c"
  shows "loop_result idx T (c # objs) r added visited rc visited' T'"
proof -
  from R consider (ok) "rc = 0" "T' = linked idx (group_row T objs r1) (added1 @ active_of T objs) T"
        "\<forall>c\<in>set objs. \<not> bad_member T c"
    | (bad) pre suf r' where "rc < 0" "objs = pre @ suf" "visited' = rev pre @ c # visited"
        "T' = linked idx r' (added1 @ active_of T pre) T" "parents_list r' = parents_list r1"
        "row_type r' = row_type r1"
    unfolding loop_result_def by blast
  then show ?thesis
  proof cases
    case ok
    then show ?thesis unfolding loop_result_def g a using c by simp
  next
    case (bad pre suf r')
    then show ?thesis unfolding loop_result_def a using r
      by (intro disjI2 conjI exI [of _ "c # pre"] exI [of _ suf] exI [of _ r']) simp_all
  qed
qed

lemma init_group_loop_form:
  assumes "init_group_loop kz idx k objs visited d = (rc, visited', d')"
    and "sync_table d = linked idx r added T" "distinct objs" "idx \<notin> set objs"
    and "set objs \<inter> set added = {}"
  shows "loop_result idx T objs r added visited rc visited' (sync_table d')"
  using assms
proof (induction kz idx k objs visited d arbitrary: r added rule: init_group_loop.induct)
  case (1 kz idx k visited d)
  then show ?case by (simp add: loop_result_def)
next
  case (2 kz idx k c objs visited d)
  have c: "c \<noteq> idx" "c \<notin> set added" "c \<notin> set objs" "distinct objs" "idx \<notin> set objs"
    "set objs \<inter> set added = {}" "set objs \<inter> set (added @ [c]) = {}"
    using "2.prems" by auto
  have cr: "row_state (sync_table d c) = row_state (T c)" "row_type (sync_table d c) = row_type (T c)"
    using "2.prems"(2) c(1) by (simp_all add: linked_def)
  consider (bad) "bad_member T c"
    | (err) "\<not> bad_member T c" "row_state (T c) = CAM_SYNC_STATE_SIGNALED_ERROR"
    | (other) "\<not> bad_member T c" "row_state (T c) \<noteq> CAM_SYNC_STATE_SIGNALED_ERROR"
        "row_state (T c) \<noteq> CAM_SYNC_STATE_ACTIVE"
    | (act) "\<not> bad_member T c" "row_state (T c) = CAM_SYNC_STATE_ACTIVE"
    by blast
  then show ?case
  proof cases
    case bad
    then have "(rc, visited', d') = (- EINVAL, visited, d)"
      using "2.prems"(1) cr by (auto simp: Let_def bad_member_def live_def)
    then show ?thesis
      using "2.prems"(2) by (intro loop_result_fail [of _ _ _ _ _ r]) simp_all
  next
    case err
    have step: "init_group_loop kz idx k objs (c # visited)
        (upd_row idx (\<lambda>r. r\<lparr>row_state := CAM_SYNC_STATE_SIGNALED_ERROR\<rparr>) d) = (rc, visited', d')"
      using "2.prems"(1) cr err by (auto simp: Let_def bad_member_def live_def)
    have g: "\<not> (row_type (sync_table d c) = SYNC_TYPE_GROUP
        \<or> row_state (sync_table d c) = CAM_SYNC_STATE_INVALID)"
      "row_state (sync_table d c) = CAM_SYNC_STATE_SIGNALED_ERROR"
      using err cr by (auto simp: bad_member_def live_def)
    show ?thesis
      by (rule loop_result_cons
          [OF "2.IH"(1) [OF refl g step linked_upd_self [OF "2.prems"(2)] c(4,5,6)]])
        (use err in \<open>simp_all add: active_of_def group_row_step(1)\<close>)
  next
    case other
    have step: "init_group_loop kz idx k objs (c # visited) d = (rc, visited', d')"
      using "2.prems"(1) cr other by (auto simp: Let_def bad_member_def live_def)
    have g: "\<not> (row_type (sync_table d c) = SYNC_TYPE_GROUP
        \<or> row_state (sync_table d c) = CAM_SYNC_STATE_INVALID)"
      "row_state (sync_table d c) \<noteq> CAM_SYNC_STATE_SIGNALED_ERROR"
      "row_state (sync_table d c) \<noteq> CAM_SYNC_STATE_ACTIVE"
      using other cr by (auto simp: bad_member_def live_def)
    show ?thesis
      by (rule loop_result_cons [OF "2.IH"(2) [OF refl g step "2.prems"(2) c(4,5,6)]])
        (use other in \<open>simp_all add: active_of_def group_row_step(2) [symmetric]\<close>)
  next
    case act
    let ?r1 = "r\<lparr>remaining := remaining r + 1\<rparr>"
    let ?r2 = "?r1\<lparr>children_list := children_list ?r1 @ [c]\<rparr>"
    let ?d1 = "upd_row idx (\<lambda>r. r\<lparr>remaining := remaining r + 1\<rparr>) d"
    let ?d2 = "upd_row idx (\<lambda>r. r\<lparr>children_list := children_list r @ [c]\<rparr>) ?d1"
    have T1: "sync_table ?d1 = linked idx ?r1 added T" by (rule linked_upd_self [OF "2.prems"(2)])
    have T2: "sync_table ?d2 = linked idx ?r2 added T" by (rule linked_upd_self [OF T1])
    have T3: "sync_table (upd_row c (\<lambda>r. r\<lparr>parents_list := parents_list r @ [idx]\<rparr>) ?d2)
        = linked idx ?r2 (added @ [c]) T" by (rule linked_add [OF T2 c(1,2)])
    have g: "\<not> (row_type (sync_table d c) = SYNC_TYPE_GROUP
        \<or> row_state (sync_table d c) = CAM_SYNC_STATE_INVALID)"
      "row_state (sync_table d c) \<noteq> CAM_SYNC_STATE_SIGNALED_ERROR"
      "\<not> row_state (sync_table d c) \<noteq> CAM_SYNC_STATE_ACTIVE"
      using act cr by (auto simp: bad_member_def live_def)
    show ?thesis
    proof (cases "kz k \<and> kz (k + 1)")
      case True
      then have step: "init_group_loop kz idx (k + 2) objs (c # visited)
          (upd_row c (\<lambda>r. r\<lparr>parents_list := parents_list r @ [idx]\<rparr>) ?d2) = (rc, visited', d')"
        using "2.prems"(1) cr act by (auto simp: Let_def bad_member_def live_def)
      have kz: "\<not> \<not> kz k" "\<not> \<not> kz (k + 1)" using True by auto
      show ?thesis
        by (rule loop_result_cons
            [OF "2.IH"(3) [OF refl g refl kz(1) refl kz(2) step T3 c(4,5,7)]])
          (use act group_row_step(3) [of T c objs r] in \<open>simp_all add: active_of_def\<close>)
    next
      case False
      then have "rc = - ENOMEM" "visited' = visited" "d' = ?d1 \<or> d' = ?d2"
        using "2.prems"(1) cr act by (auto simp: Let_def bad_member_def live_def split: if_splits)
      then show ?thesis
        using T1 T2 by (auto intro: loop_result_fail)
    qed
  qed
qed

end
