(* ===== verification/Cam_Sync_Merge.thy ===== *)
theory Cam_Sync_Merge
  imports Cam_Sync_Group
begin

text \<open>
  The two outcomes of \<open>cam_sync_merge\<close> in closed form: a failed merge leaves every other row
  and the bitmap as they were, a successful one adds a group row that counts its active
  members. Both keep \<open>sync_wf\<close>.
\<close>

section \<open>Roll-back of a failed merge\<close>

lemma fold_cleanup_parents:
  "distinct cs \<Longrightarrow>
     fold (\<lambda>c. upd_row c (cam_sync_util_cleanup_parents_list SYNC_LIST_CLEAN_ONE idx)) cs d
       = d\<lparr>sync_table := (\<lambda>i. if i \<in> set cs
            then (sync_table d i)\<lparr>parents_list := remove1 idx (parents_list (sync_table d i))\<rparr>
            else sync_table d i)\<rparr>"
  by (induction cs arbitrary: d)
    (auto simp: cam_sync_util_cleanup_parents_list_def upd_row_def fun_eq_iff)

definition rolled_back :: "sync_table_row \<Rightarrow> sync_table_row" where
  "rolled_back r = r\<lparr>row_state := CAM_SYNC_STATE_INVALID, children_list := []\<rparr>"

lemma clean_children_eq:
  assumes T': "sync_table d = linked idx r (active_of T pre) T" and pre: "distinct pre" "idx \<notin> set pre"
    and fresh: "\<And>i. idx \<notin> set (parents_list (T i))"
  shows "clean_children_info idx (rev pre) d = d\<lparr>sync_table := T(idx := rolled_back r)\<rparr>"
proof -
  have ne: "i \<noteq> idx" if "i \<in> set pre" for i using pre(2) that by auto
  show ?thesis
    using pre T' ne fresh
    by (auto simp: clean_children_info_def fold_cleanup_parents upd_row_def linked_def fun_eq_iff
        rolled_back_def cam_sync_util_cleanup_children_list_def active_of_def remove1_append remove1_idem)
qed

section \<open>A new group\<close>

definition group_final :: "sync_table_row \<Rightarrow> sync_table_row" where
  "group_final r = (if remaining r = 0
     then r\<lparr>row_state := (if row_state r \<noteq> CAM_SYNC_STATE_SIGNALED_ERROR
                 then CAM_SYNC_STATE_SIGNALED_SUCCESS else row_state r), signaled := True\<rparr>
     else r)"

lemma group_final_upd:
  "(if remaining (sync_table d idx) = 0
    then upd_row idx (\<lambda>r. r
           \<lparr>row_state := (if row_state r \<noteq> CAM_SYNC_STATE_SIGNALED_ERROR
                         then CAM_SYNC_STATE_SIGNALED_SUCCESS else row_state r),
            signaled := True\<rparr>) d
    else d) = upd_row idx group_final d"
  by (cases "remaining (sync_table d idx) = 0") (simp_all add: upd_row_def group_final_def)

text \<open>The row of a group merged from \<open>objs\<close> in table \<open>T\<close>.\<close>

definition merged_row :: "nat \<Rightarrow> table \<Rightarrow> nat list \<Rightarrow> sync_table_row" where
  "merged_row idx T objs =
     group_final (group_row T objs (fresh_row idx (Some ''merged_fence'') SYNC_TYPE_GROUP))"

definition merged_table :: "nat \<Rightarrow> table \<Rightarrow> nat list \<Rightarrow> table" where
  "merged_table idx T objs = linked idx (merged_row idx T objs) (active_of T objs) T"

lemma init_group_object_cases:
  assumes res: "cam_sync_init_group_object kz idx objs d = (rc, d')"
    and idx: "0 < idx" "idx < CAM_SYNC_MAX_OBJS" "idx \<notin> set objs" and dist: "distinct objs"
    and fresh: "\<And>i. idx \<notin> set (parents_list (sync_table d i))"
  obtains (ok) "rc = 0" "d' = d\<lparr>sync_table := merged_table idx (sync_table d) objs\<rparr>"
      "\<forall>c\<in>set objs. \<not> bad_member (sync_table d) c"
  | (bad) r where "rc < 0" "d' = d\<lparr>sync_table := (sync_table d)(idx := rolled_back r)\<rparr>"
      "parents_list r = []" "row_type r = SYNC_TYPE_GROUP"
proof -
  let ?f = "fresh_row idx (Some ''merged_fence'') SYNC_TYPE_GROUP"
  let ?T = "sync_table d"
  define d0 where "d0 = upd_row idx (\<lambda>_. ?f) d"
  obtain rc1 visited d1 where loop: "init_group_loop kz idx 0 objs [] d0 = (rc1, visited, d1)"
    by (metis prod_cases3)
  have T0: "sync_table d0 = linked idx ?f [] ?T" by (auto simp: d0_def linked_def fun_eq_iff)
  have R: "loop_result idx ?T objs ?f [] [] rc1 visited (sync_table d1)"
    using init_group_loop_form [OF loop T0 dist idx(3)] by simp
  have fr: "d1\<lparr>sync_table := X\<rparr> = d\<lparr>sync_table := X\<rparr>" for X
    by (subst init_group_loop_frame [OF loop]) (simp add: d0_def upd_row_def)
  have unf: "cam_sync_init_group_object kz idx objs d =
     (if rc1 \<noteq> 0 then (rc1, clean_children_info idx visited d1)
      else (0, upd_row idx group_final d1))"
    using idx loop
    by (simp add: cam_sync_init_group_object_def init_row_eq d0_def [symmetric] group_final_upd)
  from R consider (1) "rc1 = 0" "sync_table d1 = linked idx (group_row ?T objs ?f) (active_of ?T objs) ?T"
        "\<forall>c\<in>set objs. \<not> bad_member ?T c"
    | (2) pre suf r' where "rc1 < 0" "objs = pre @ suf" "visited = rev pre"
        "sync_table d1 = linked idx r' (active_of ?T pre) ?T" "parents_list r' = []"
        "row_type r' = SYNC_TYPE_GROUP"
    unfolding loop_result_def by auto
  then show thesis
  proof cases
    case 1
    have "sync_table (upd_row idx group_final d1) = merged_table idx ?T objs"
      unfolding merged_table_def merged_row_def by (rule linked_upd_self [OF 1(2)])
    moreover have "upd_row idx group_final d1 = d1\<lparr>sync_table := sync_table (upd_row idx group_final d1)\<rparr>"
      by (simp add: upd_row_def)
    ultimately have "upd_row idx group_final d1 = d\<lparr>sync_table := merged_table idx ?T objs\<rparr>"
      using fr by metis
    then show thesis using ok 1 res unf by simp
  next
    case 2
    have "clean_children_info idx (rev pre) d1 = d1\<lparr>sync_table := ?T(idx := rolled_back r')\<rparr>"
      by (rule clean_children_eq) (use 2 dist idx fresh in auto)
    then show thesis using bad 2 res unf fr by simp
  qed
qed

lemma merged_row_simps:
  "row_type (merged_row idx T objs) = SYNC_TYPE_GROUP"
  "parents_list (merged_row idx T objs) = []"
  "children_list (merged_row idx T objs) = active_of T objs"
  "callback_list (merged_row idx T objs) = []"
  "remaining (merged_row idx T objs) = of_nat (length (active_of T objs))"
  by (simp_all add: merged_row_def group_final_def group_row_def)

lemma signaled_merged: "signaled (merged_row idx T objs) \<longleftrightarrow> remaining (merged_row idx T objs) = 0"
  by (simp add: merged_row_def group_final_def group_row_def)

lemma live_merged_row: "live (merged_row idx T objs)"
  by (simp add: merged_row_def group_final_def group_row_def live_def)

lemma active_length:
  assumes "distinct objs" "\<forall>c\<in>set objs. 0 < c \<and> c < CAM_SYNC_MAX_OBJS"
  shows "length (active_of T objs) < CAM_SYNC_MAX_OBJS"
proof -
  have "length objs = card (set objs)" using assms(1) by (simp add: distinct_card)
  also have "\<dots> \<le> card {1..<CAM_SYNC_MAX_OBJS}" using assms(2) by (intro card_mono) auto
  finally have "length objs < CAM_SYNC_MAX_OBJS" by simp
  then show ?thesis using length_filter_le [of _ objs] unfolding active_of_def by (meson le_less_trans)
qed

lemma remaining_merged:
  assumes "distinct objs" "\<forall>c\<in>set objs. 0 < c \<and> c < CAM_SYNC_MAX_OBJS"
  shows "unat (remaining (merged_row idx T objs)) = length (active_of T objs)"
  using active_length [OF assms, of T] by (simp add: merged_row_simps unat_of_nat)

lemma row_ok_merged:
  assumes "distinct objs" "\<forall>c\<in>set objs. 0 < c \<and> c < CAM_SYNC_MAX_OBJS"
  shows "row_ok (merged_row idx T objs)"
proof -
  have "of_nat (length (active_of T objs)) = (0::u32) \<Longrightarrow> finished (merged_row idx T objs)
      \<and> signaled (merged_row idx T objs)"
    by (auto simp: merged_row_def group_final_def group_row_def finished_def)
  moreover have "of_nat (length (active_of T objs)) \<noteq> (0::u32) \<Longrightarrow> \<not> finished (merged_row idx T objs)
      \<and> \<not> signaled (merged_row idx T objs)"
    by (auto simp: merged_row_def group_final_def group_row_def finished_def)
  moreover have "row_state (merged_row idx T objs) \<in> {1, 2, 3}"
    by (simp add: merged_row_def group_final_def group_row_def)
  moreover have "\<forall>c\<in>set (active_of T objs). 0 < c \<and> c < CAM_SYNC_MAX_OBJS"
    using assms(2) by (auto simp: active_of_def)
  ultimately show ?thesis
    unfolding row_ok_def merged_row_simps by auto
qed

lemma merged_inv:
  assumes inv: "table_inv [] T bm" and dead: "\<not> live (T idx)"
    and idx: "0 < idx" "idx < CAM_SYNC_MAX_OBJS" "idx \<notin> set objs"
    and objs: "distinct objs" "\<forall>c\<in>set objs. 0 < c \<and> c < CAM_SYNC_MAX_OBJS"
      "\<forall>c\<in>set objs. \<not> bad_member T c"
  shows "table_inv [] (merged_table idx T objs) (bm(idx := True))"
proof -
  let ?T = "merged_table idx T objs"
  have fresh: "idx \<notin> set (parents_list (T i))" for i by (rule dead_not_parent [OF inv dead])
  have self: "?T idx = merged_row idx T objs" by (simp add: merged_table_def linked_def)
  have ac: "row_state (T c) = CAM_SYNC_STATE_ACTIVE" "row_type (T c) = SYNC_TYPE_INDV" "c \<noteq> idx"
    "0 < c" "c < CAM_SYNC_MAX_OBJS" if "c \<in> set (active_of T objs)" for c
    using that objs(2,3) idx(3) by (cases "row_type (T c)"; auto simp: active_of_def bad_member_def)+
  have oth: "row_state (?T i) = row_state (T i)" "row_type (?T i) = row_type (T i)"
    "children_list (?T i) = children_list (T i)" "remaining (?T i) = remaining (T i)"
    "live (?T i) = live (T i)" "parents_list (?T i) = parents_list (T i) @
        (if i \<in> set (active_of T objs) then [idx] else [])" if "i \<noteq> idx" for i
    using that by (simp_all add: merged_table_def linked_def live_def)
  have "row_ok (?T i)" for i
  proof (cases "i = idx")
    case False
    have "row_ok (T i)" using inv by (rule table_invD)
    then show ?thesis
      using False fresh [of i] by (auto simp: merged_table_def linked_def row_ok_def live_def finished_def)
  qed (use self row_ok_merged objs in simp)
  moreover have "links_ok ?T"
    unfolding links_ok_def
  proof (intro allI impI)
    fix i p assume p: "p \<in> set (parents_list (?T i))"
    then have i: "i \<noteq> idx" by (cases "i = idx") (simp_all add: self merged_row_simps)
    show "row_state (?T i) = CAM_SYNC_STATE_ACTIVE \<and> row_type (?T i) = SYNC_TYPE_INDV
     \<and> live (?T p) \<and> row_type (?T p) = SYNC_TYPE_GROUP \<and> i \<in> set (children_list (?T p))"
    proof (cases "p = idx")
      case True
      then have "i \<in> set (active_of T objs)" using p fresh [of i] oth(6) [OF i] by (auto split: if_splits)
      then show ?thesis using ac [of i] oth(1,2) [OF i] True self live_merged_row
        by (simp add: merged_row_simps)
    next
      case False
      then have "p \<in> set (parents_list (T i))" using p oth(6) [OF i] by (auto split: if_splits)
      then show ?thesis using parents_live [OF inv] oth(1,2) [OF i] oth(2,3,5) [OF False] by simp
    qed
  qed
  moreover have "count_ok [] ?T"
    unfolding count_ok_def
  proof (intro allI impI)
    fix p assume a: "live (?T p)" "row_type (?T p) = SYNC_TYPE_GROUP"
    show "card (members ?T p) + (if p \<in> set [] then 1 else 0) \<le> unat (remaining (?T p))"
    proof (cases "p = idx")
      case True
      have sub: "members ?T p \<subseteq> set (active_of T objs)"
      proof
        fix i assume m: "i \<in> members ?T p"
        then have "i \<noteq> idx" by (auto simp: members_def self merged_row_simps)
        then show "i \<in> set (active_of T objs)"
          using m True fresh [of i] oth(6) [of i] by (auto simp: members_def split: if_splits)
      qed
      have "card (members ?T p) \<le> card (set (active_of T objs))" by (rule card_mono [OF _ sub]) simp
      also have "\<dots> \<le> length (active_of T objs)" by (rule card_length)
      finally show ?thesis using True self remaining_merged [OF objs(1,2)] by simp
    next
      case False
      have "members ?T p \<subseteq> members T p"
      proof
        fix i assume m: "i \<in> members ?T p"
        then have "i \<noteq> idx" by (auto simp: members_def self merged_row_simps)
        then show "i \<in> members T p"
          using m False oth(6) [of i] by (auto simp: members_def split: if_splits)
      qed
      then have "card (members ?T p) \<le> card (members T p)" by (simp add: card_mono)
      also have "\<dots> \<le> unat (remaining (T p))"
        using inv a oth [OF False] by (auto simp: table_inv_def count_ok_def)
      finally show ?thesis using oth(4) [OF False] by simp
    qed
  qed
  moreover have "bits_ok ?T (bm(idx := True))"
  proof -
    have b: "bits_ok T bm" by (rule table_invD(4) [OF inv])
    have lv: "live (?T i) \<longleftrightarrow> i = idx \<or> live (T i)" for i
      using self oth(5) [of i] live_merged_row by (cases "i = idx") simp_all
    show ?thesis using b idx by (auto simp: bits_ok_def lv)
  qed
  ultimately show ?thesis by (simp add: table_inv_def)
qed

section \<open>The merge operation\<close>

lemma check_valid_iff:
  "cam_sync_check_valid s d = 0 \<longleftrightarrow> \<not> sync_obj_bad s \<and> sync_bitmap d (nat s) \<and> live (sync_table d (nat s))"
  "cam_sync_check_valid s d = 0 \<or> cam_sync_check_valid s d = - EINVAL"
  by (auto simp: cam_sync_check_valid_def live_def)

lemma check_valid_all_iff:
  "check_valid_all ss d = 0 \<longleftrightarrow> (\<forall>s\<in>set ss. cam_sync_check_valid s d = 0)"
  "check_valid_all ss d = 0 \<or> check_valid_all ss d = - EINVAL"
  using check_valid_iff(2) [of _ d] by (induction ss) auto

text \<open>The lists of fences a merge accepts: at least two, pairwise different, all live.\<close>

definition mergeable :: "sync_device \<Rightarrow> int list \<Rightarrow> bool" where
  "mergeable d objs \<longleftrightarrow> 2 \<le> length objs \<and> distinct objs
     \<and> (\<forall>s\<in>set objs. \<not> sync_obj_bad s \<and> live (sync_table d (nat s)))"

lemma mergeable_nat:
  assumes "mergeable d objs"
  shows "distinct (map nat objs)" "\<forall>c\<in>set (map nat objs). 0 < c \<and> c < CAM_SYNC_MAX_OBJS"
    "\<forall>c\<in>set (map nat objs). live (sync_table d c)"
proof -
  have "inj_on nat (set objs)"
    using assms by (intro inj_onI) (auto simp: mergeable_def sync_obj_bad_def)
  then show "distinct (map nat objs)" using assms by (simp add: mergeable_def distinct_map)
  show "\<forall>c\<in>set (map nat objs). 0 < c \<and> c < CAM_SYNC_MAX_OBJS"
    "\<forall>c\<in>set (map nat objs). live (sync_table d c)"
    using assms by (auto simp: mergeable_def sync_obj_bad_def)
qed

lemma merge_reject:
  assumes "sync_wf d" "\<not> mergeable d objs"
  shows "cam_sync_merge kz (Some objs) mo d = (- EINVAL, None, d)"
proof (cases "mo \<and> 2 \<le> length objs")
  case True
  then have l: "0 < length objs" by auto
  show ?thesis
  proof (cases "distinct objs")
    case dist: True
    have "\<not> (\<forall>s\<in>set objs. cam_sync_check_valid s d = 0)"
      using assms(2) dist True by (auto simp: mergeable_def check_valid_iff(1))
    then have "check_valid_all objs d = - EINVAL" using check_valid_all_iff [of objs d] by auto
    then show ?thesis
      using True remove_duplicate_arr_id [OF l dist] by (simp add: cam_sync_merge_def)
  next
    case False
    then have "fst (cam_common_util_remove_duplicate_arr (Some objs) (length objs)) \<noteq> length objs"
      using remove_duplicate_arr_count_iff [OF l] by simp
    then show ?thesis using True
      by (cases "cam_common_util_remove_duplicate_arr (Some objs) (length objs)")
        (simp add: cam_sync_merge_def)
  qed
qed (auto simp: cam_sync_merge_def)

lemma merge_accept:
  assumes "sync_wf d" "mergeable d objs"
  shows "cam_sync_merge kz (Some objs) True d =
     (case cam_sync_get_idx d of
        (None, d1) \<Rightarrow> (- ENOMEM, None, d1)
      | (Some idx, d1) \<Rightarrow>
          (let (rc, d2) = cam_sync_init_group_object kz idx (map nat objs) d1
           in if rc < 0 then (- EINVAL, None, clear_idx idx d2) else (0, Some idx, d2)))"
proof -
  have l: "0 < length objs" "1 < length objs" "distinct objs" using assms(2) by (auto simp: mergeable_def)
  have "check_valid_all objs d = 0"
    using assms wf_bit_live [OF assms(1)]
    by (auto simp: mergeable_def check_valid_all_iff(1) check_valid_iff(1) sync_obj_bad_iff)
  then show ?thesis
    using l remove_duplicate_arr_id [OF l(1,3)] by (simp add: cam_sync_merge_def)
qed

lemma merge_cases:
  assumes wf: "sync_wf d"
  obtains (reject) "cam_sync_merge kz so mo d = (- EINVAL, None, d)"
      "mo \<Longrightarrow> so = Some objs \<Longrightarrow> \<not> mergeable d objs"
  | (full) "cam_sync_merge kz so mo d = (- ENOMEM, None, d)"
      "\<forall>i. 0 < i \<longrightarrow> i < CAM_SYNC_MAX_OBJS \<longrightarrow> live (sync_table d i)"
  | (fail) idx r where "\<not> live (sync_table d idx)" "parents_list r = []"
      "cam_sync_merge kz so mo d =
         (- EINVAL, None, d\<lparr>sync_table := (sync_table d)(idx := rolled_back r)\<rparr>)"
  | (new) idx objs where "so = Some objs" "mergeable d objs" "\<not> live (sync_table d idx)"
      "0 < idx" "idx < CAM_SYNC_MAX_OBJS" "\<forall>s\<in>set objs. \<not> bad_member (sync_table d) (nat s)"
      "cam_sync_merge kz so mo d =
         (0, Some idx, d\<lparr>sync_table := merged_table idx (sync_table d) (map nat objs),
                          sync_bitmap := (sync_bitmap d)(idx := True)\<rparr>)"
proof (cases "\<exists>os. so = Some os \<and> mo \<and> mergeable d os")
  case False
  then have "cam_sync_merge kz so mo d = (- EINVAL, None, d)"
  proof (cases "so = None \<or> \<not> mo")
    case True
    then show ?thesis by (auto simp: cam_sync_merge_def split: option.split)
  qed (use False merge_reject [OF wf] in auto)
  then show thesis using reject False by blast
next
  case True
  then obtain os where so: "so = Some os" "mo" "mergeable d os" by blast
  note acc = merge_accept [OF wf so(3), of kz, unfolded Let_def]
  obtain r d1 where g: "cam_sync_get_idx d = (r, d1)" by (cases "cam_sync_get_idx d")
  show thesis
  proof (cases r)
    case None
    then show thesis
      using full get_idx_None [of d d1] g acc so wf_bit_live [OF wf] by simp
  next
    case (Some idx)
    note gi = get_idx_Some [OF g [unfolded Some] wf_bit0 [OF wf]]
    have dead: "\<not> live (sync_table d idx)" using wf_bit_live [OF wf gi(1,2)] gi(3) by simp
    have nin: "idx \<notin> set (map nat os)" using mergeable_nat(3) [OF so(3)] dead by blast
    have T1: "sync_table d1 = sync_table d" using gi(4) by simp
    have fresh: "idx \<notin> set (parents_list (sync_table d1 i))" for i
      using dead_not_parent [OF wf [unfolded sync_wf_def] dead] T1 by simp
    obtain rc d2 where i: "cam_sync_init_group_object kz idx (map nat os) d1 = (rc, d2)"
      by (cases "cam_sync_init_group_object kz idx (map nat os) d1")
    show thesis
    proof (cases rule: init_group_object_cases [OF i gi(1,2) nin mergeable_nat(1) [OF so(3)] fresh])
      case 1
      then show thesis
        using new [of os idx] so dead gi acc g Some i T1 by simp
    next
      case (2 r')
      have "clear_idx idx d2 = d\<lparr>sync_table := (sync_table d)(idx := rolled_back r')\<rparr>"
        using 2(2) gi(3,4) by (simp add: clear_idx_def fun_upd_idem)
      then show thesis
        using fail [of idx r'] so dead acc g Some i 2 by simp
    qed
  qed
qed

lemma row_ok_rolled_back: "parents_list r = [] \<Longrightarrow> row_ok (rolled_back r)"
  by (simp add: rolled_back_def row_ok_def live_def)

lemma sync_wf_merge:
  assumes wf: "sync_wf d"
  shows "sync_wf (snd (snd (cam_sync_merge kz so mo d)))"
proof (cases rule: merge_cases [OF wf, of kz so mo])
  case (3 idx r)
  have "\<not> live (rolled_back r)" "parents_list (rolled_back r) = []"
    using 3 by (simp_all add: rolled_back_def live_def)
  then show ?thesis
    using table_inv_dead_row [OF wf [unfolded sync_wf_def] 3(1) row_ok_rolled_back [OF 3(2)]] 3(3)
    by (simp add: sync_wf_def)
next
  case (4 idx objs)
  have "idx \<notin> set (map nat objs)" using mergeable_nat(3) [OF 4(2)] 4(3) by blast
  then show ?thesis
    using merged_inv [OF wf [unfolded sync_wf_def] 4(3-5)] mergeable_nat [OF 4(2)] 4(6,7)
    by (simp add: sync_wf_def)
qed (use wf in simp_all)

section \<open>Opening and closing\<close>

lemma sync_wf_close_signal: "sync_wf d \<Longrightarrow> sync_wf (snd (close_signal_loop is rc d))"
proof (induction "is" rc d rule: close_signal_loop.induct)
  case (2 i "is" rc d)
  then show ?case using sync_wf_signal [OF "2.prems", of "int i" CAM_SYNC_STATE_SIGNALED_ERROR]
    by (auto split: prod.split)
qed simp

lemma sync_wf_close_destroy: "sync_wf d \<Longrightarrow> sync_wf (snd (close_destroy_loop is rc d))"
proof (induction "is" rc d rule: close_destroy_loop.induct)
  case (2 i "is" rc d)
  then show ?case using sync_wf_destroy [OF "2.prems", of "int i"] by (auto split: prod.split)
qed simp

lemma flush_eq:
  "flush_workqueue d = d\<lparr>work_queue := [], cb_calls := cb_calls d @
     map (\<lambda>cb. (callback_func cb, cb_sync_obj cb, cb_status cb, cb_data cb)) (work_queue d)\<rparr>"
proof -
  have "fold cam_sync_util_cb_dispatch q e = e\<lparr>cb_calls := cb_calls e @
     map (\<lambda>cb. (callback_func cb, cb_sync_obj cb, cb_status cb, cb_data cb)) q\<rparr>" for q e
    by (induction q arbitrary: e) (simp_all add: cam_sync_util_cb_dispatch_def)
  then show ?thesis by (simp add: flush_workqueue_def)
qed

lemma sync_wf_flush: "sync_wf d \<Longrightarrow> sync_wf (flush_workqueue d)"
  by (simp add: flush_eq)

lemma sync_wf_open:
  "sync_wf d \<Longrightarrow> cam_sync_open fh_rc q (Some d) = (rc, Some d') \<Longrightarrow> sync_wf d'"
  by (auto simp: cam_sync_open_def split: if_splits)

lemma sync_wf_close:
  assumes "sync_wf d" "cam_sync_close (Some d) = (rc, Some d')"
  shows "sync_wf d'"
proof -
  let ?d0 = "d\<lparr>open_cnt := open_cnt d - 1\<rparr>"
  have "sync_wf e2" if "close_signal_loop js rc1 ?d0 = (rc', e1)"
    "close_destroy_loop is rc2 (flush_workqueue e1) = (rc'', e2)" for "is" js rc1 rc2 e1 e2 rc' rc''
    using assms(1) that sync_wf_close_signal [of ?d0 js rc1] sync_wf_flush [of e1]
      sync_wf_close_destroy [of "flush_workqueue e1" "is" rc2] by simp
  then show ?thesis
    using assms by (auto simp: cam_sync_close_def Let_def split: prod.splits if_splits)
qed

end
