(* ===== verification/Cam_User.thy ===== *)
theory Cam_User
  imports Cam_Prelude
begin

text \<open>
  User memory as the drivers see it through \<open>copy_from_user\<close> and \<open>copy_to_user\<close>: a byte per
  address, or a fault. Structures are read field by field at their offsets, in little-endian
  order.
\<close>

section \<open>Memory and copies\<close>

record user_mem =
  um_byte :: "ptr \<Rightarrow> u8 option"
  um_writable :: "ptr \<Rightarrow> bool"

definition addr_range :: "ptr \<Rightarrow> nat \<Rightarrow> ptr list" where
  "addr_range p n = map (\<lambda>k. p + of_nat k) [0..<n]"

text \<open>\<open>None\<close> when some byte of the range faults.\<close>

definition copy_from_user :: "user_mem \<Rightarrow> ptr \<Rightarrow> nat \<Rightarrow> u8 list option" where
  "copy_from_user um p n = those (map (um_byte um) (addr_range p n))"

fun write_bytes :: "(ptr \<Rightarrow> u8 option) \<Rightarrow> ptr \<Rightarrow> u8 list \<Rightarrow> (ptr \<Rightarrow> u8 option)" where
  "write_bytes m p [] = m"
| "write_bytes m p (b # bs) = write_bytes (m(p := Some b)) (p + 1) bs"

text \<open>
  \<open>None\<close> when the copy faults; what a faulting copy leaves in the destination is not
  represented.
\<close>

definition copy_to_user :: "user_mem \<Rightarrow> ptr \<Rightarrow> u8 list \<Rightarrow> user_mem option" where
  "copy_to_user um p bs =
     (if list_all (um_writable um) (addr_range p (length bs))
      then Some (um\<lparr>um_byte := write_bytes (um_byte um) p bs\<rparr>) else None)"

section \<open>Little-endian fields\<close>

fun le_nat :: "u8 list \<Rightarrow> nat" where
  "le_nat [] = 0"
| "le_nat (b # bs) = unat b + 256 * le_nat bs"

fun le_bytes :: "nat \<Rightarrow> nat \<Rightarrow> u8 list" where
  "le_bytes 0 x = []"
| "le_bytes (Suc n) x = of_nat x # le_bytes n (x div 256)"

definition get_u32 :: "u8 list \<Rightarrow> nat \<Rightarrow> u32" where
  "get_u32 bs off = of_nat (le_nat (take 4 (drop off bs)))"

definition get_u64 :: "u8 list \<Rightarrow> nat \<Rightarrow> u64" where
  "get_u64 bs off = of_nat (le_nat (take 8 (drop off bs)))"

definition get_s32 :: "u8 list \<Rightarrow> nat \<Rightarrow> int" where
  "get_s32 bs off = sint (get_u32 bs off)"

definition put_u32 :: "u8 list \<Rightarrow> nat \<Rightarrow> u32 \<Rightarrow> u8 list" where
  "put_u32 bs off w = take off bs @ le_bytes 4 (unat w) @ drop (off + 4) bs"

text \<open>The C string that starts at offset \<open>off\<close>.\<close>

definition get_cstring :: "u8 list \<Rightarrow> nat \<Rightarrow> string" where
  "get_cstring bs off = map (\<lambda>b. char_of (unat b)) (takeWhile (\<lambda>b. b \<noteq> 0) (drop off bs))"

section \<open>Lemmas\<close>

lemma length_le_bytes [simp]: "length (le_bytes n x) = n"
  by (induction n arbitrary: x) simp_all

lemma le_nat_le_bytes: "le_nat (le_bytes n x) = x mod 256 ^ n"
proof (induction n arbitrary: x)
  case (Suc n)
  have "le_nat (le_bytes (Suc n) x) = x mod 256 + 256 * (x div 256 mod 256 ^ n)"
    using Suc by (simp add: unat_of_nat)
  also have "\<dots> = x mod (256 * 256 ^ n)" by (simp add: mod_mult2_eq)
  finally show ?case by simp
qed simp

lemma length_put_u32 [simp]: "off + 4 \<le> length bs \<Longrightarrow> length (put_u32 bs off w) = length bs"
  by (simp add: put_u32_def)

lemma get_put_u32: "off + 4 \<le> length bs \<Longrightarrow> get_u32 (put_u32 bs off w) off = w"
proof -
  assume "off + 4 \<le> length bs"
  moreover have "unat w < 2 ^ LENGTH(32)" by (rule unsigned_less)
  ultimately show ?thesis by (simp add: get_u32_def put_u32_def le_nat_le_bytes)
qed

lemma get_put_u32_other:
  "off + 4 \<le> length bs \<Longrightarrow> k + 4 \<le> off \<Longrightarrow> get_u32 (put_u32 bs off w) k = get_u32 bs k"
  by (subgoal_tac "4 \<le> off - k") (simp_all add: get_u32_def put_u32_def drop_take min_def)

lemma those_map_Some: "those (map Some xs) = Some xs"
  by (induction xs) simp_all

lemma those_length: "those xs = Some ys \<Longrightarrow> length ys = length xs"
  by (induction xs arbitrary: ys) (auto split: option.splits)

lemma length_copy_from_user: "copy_from_user um p n = Some bs \<Longrightarrow> length bs = n"
  by (auto simp: copy_from_user_def addr_range_def dest: those_length)

text \<open>A copy out followed by a copy in gives the bytes back, for any object below 4 GB.\<close>

lemma write_bytes_other:
  "(\<forall>k < length bs. q \<noteq> p + of_nat k) \<Longrightarrow> write_bytes m p bs q = m q"
proof (induction bs arbitrary: m p)
  case (Cons b bs)
  have "q \<noteq> p" using Cons.prems [rule_format, of 0] by simp
  moreover have "\<forall>k < length bs. q \<noteq> p + 1 + of_nat k"
  proof (intro allI impI)
    fix k assume "k < length bs"
    then have "q \<noteq> p + of_nat (Suc k)" using Cons.prems by (metis Suc_less_eq length_Cons)
    then show "q \<noteq> p + 1 + of_nat k" by (simp add: add.assoc)
  qed
  ultimately show ?case using Cons.IH by simp
qed simp

lemma write_bytes_at:
  assumes "length bs \<le> 2 ^ 32" "k < length bs"
  shows "write_bytes m p bs (p + of_nat k) = Some (bs ! k)"
  using assms
proof (induction bs arbitrary: m p k)
  case (Cons b bs)
  show ?case
  proof (cases k)
    case 0
    have "\<forall>j < length bs. p \<noteq> p + 1 + of_nat j"
    proof (intro allI impI notI)
      fix j assume j: "j < length bs" "p = p + 1 + of_nat j"
      then have "(of_nat (Suc j) :: u64) = 0" by (simp add: add.assoc)
      then have "2 ^ 64 dvd Suc j" unfolding word_of_nat_eq_0_iff by simp
      then have "2 ^ 64 \<le> Suc j" by (rule dvd_imp_le) simp
      then show False using j(1) Cons.prems(1) by simp
    qed
    then show ?thesis using 0 by (simp add: write_bytes_other)
  next
    case (Suc j)
    have "write_bytes (m(p := Some b)) (p + 1) bs (p + 1 + of_nat j) = Some (bs ! j)"
      using Cons Suc by simp
    then show ?thesis using Suc by (simp add: add.assoc)
  qed
qed simp

lemma copy_to_from_user:
  assumes "copy_to_user um p bs = Some um'" "length bs \<le> 2 ^ 32"
  shows "copy_from_user um' p (length bs) = Some bs"
proof -
  have b: "um_byte um' = write_bytes (um_byte um) p bs"
    using assms(1) by (auto simp: copy_to_user_def split: if_splits)
  have "map (um_byte um') (addr_range p (length bs)) = map Some bs"
    by (rule nth_equalityI) (simp_all add: addr_range_def b write_bytes_at [OF assms(2)])
  then show ?thesis by (simp add: copy_from_user_def those_map_Some)
qed

end
