(* ===== verification/Cam_Sync_Ioctl.thy ===== *)
theory Cam_Sync_Ioctl
  imports Cam_Sync_Merge Cam_User
begin

text \<open>
  The user-space half of \<open>cam_sync/cam_sync.c\<close>: the ioctl handlers, the dispatcher
  \<open>cam_sync_dev_ioctl\<close>, and \<open>cam_sync_poll\<close>. Handlers read their argument structure from user
  memory, call the kernel API and copy a result back. At the end, the transition system of the
  whole device.
\<close>

section \<open>Arguments\<close>

record cam_private_ioctl_arg =
  ioctl_id :: u32
  ioctl_size :: u32
  ioctl_result :: u32
  ioctl_reserved :: u32
  ioctl_ptr :: ptr

abbreviation CAM_PRIVATE_IOCTL_CMD :: u32 where "CAM_PRIVATE_IOCTL_CMD \<equiv> 0xC01856C0"
abbreviation CAM_SYNC_CREATE :: u32 where "CAM_SYNC_CREATE \<equiv> 0"
abbreviation CAM_SYNC_DESTROY :: u32 where "CAM_SYNC_DESTROY \<equiv> 1"
abbreviation CAM_SYNC_SIGNAL :: u32 where "CAM_SYNC_SIGNAL \<equiv> 2"
abbreviation CAM_SYNC_MERGE :: u32 where "CAM_SYNC_MERGE \<equiv> 3"
abbreviation CAM_SYNC_REGISTER_PAYLOAD :: u32 where "CAM_SYNC_REGISTER_PAYLOAD \<equiv> 4"
abbreviation CAM_SYNC_DEREGISTER_PAYLOAD :: u32 where "CAM_SYNC_DEREGISTER_PAYLOAD \<equiv> 5"
abbreviation CAM_SYNC_WAIT :: u32 where "CAM_SYNC_WAIT \<equiv> 6"

text \<open>
  Sizes of the argument structures: \<open>cam_sync_info\<close> (name 64, sync_obj at 64),
  \<open>cam_sync_signal\<close> (sync_obj 0, sync_state 4), \<open>cam_sync_merge\<close> (sync_objs 0, num_objs 8,
  merged 12), \<open>cam_sync_wait\<close> (sync_obj 0, timeout_ms 8), \<open>cam_sync_userpayload_info\<close>
  (sync_obj 0, payload 8 and 16).
\<close>

abbreviation sizeof_sync_info :: nat where "sizeof_sync_info \<equiv> 68"
abbreviation sizeof_sync_signal :: nat where "sizeof_sync_signal \<equiv> 8"
abbreviation sizeof_sync_merge :: nat where "sizeof_sync_merge \<equiv> 16"
abbreviation sizeof_sync_wait :: nat where "sizeof_sync_wait \<equiv> 16"
abbreviation sizeof_userpayload_info :: nat where "sizeof_userpayload_info \<equiv> 24"

text \<open>The check and copy every handler starts with.\<close>

definition fetch_arg :: "nat \<Rightarrow> cam_private_ioctl_arg \<Rightarrow> user_mem \<Rightarrow> rc + u8 list" where
  "fetch_arg sz k_ioctl um =
     (if unat (ioctl_size k_ioctl) \<noteq> sz then Inl (- EINVAL)
      else if ioctl_ptr k_ioctl = 0 then Inl (- EINVAL)
      else (case copy_from_user um (ioctl_ptr k_ioctl) sz of
              None \<Rightarrow> Inl (- EFAULT) | Some bs \<Rightarrow> Inr bs))"

section \<open>Handlers\<close>

definition cam_sync_handle_create ::
    "cam_private_ioctl_arg \<Rightarrow> user_mem \<Rightarrow> sync_device \<Rightarrow> rc \<times> user_mem \<times> sync_device" where
  "cam_sync_handle_create k_ioctl um d =
     (case fetch_arg sizeof_sync_info k_ioctl um of
        Inl e \<Rightarrow> (e, um, d)
      | Inr bs \<Rightarrow>
          (case cam_sync_create (Some (get_cstring bs 0)) d of
             (result, obj, d') \<Rightarrow>
               if result = 0
               then (case copy_to_user um (ioctl_ptr k_ioctl) (put_u32 bs 64 (of_nat (the obj))) of
                       None \<Rightarrow> (- EFAULT, um, d')
                     | Some um' \<Rightarrow> (result, um', d'))
               else (result, um, d')))"

definition cam_sync_handle_signal ::
    "cam_private_ioctl_arg \<Rightarrow> user_mem \<Rightarrow> sync_device \<Rightarrow> rc \<times> sync_device" where
  "cam_sync_handle_signal k_ioctl um d =
     (case fetch_arg sizeof_sync_signal k_ioctl um of
        Inl e \<Rightarrow> (e, d)
      | Inr bs \<Rightarrow>
          (let (rc, d1) = cam_sync_get_obj_ref (get_s32 bs 0) d
           in if rc \<noteq> 0 then (rc, d1) else cam_sync_signal (get_s32 bs 0) (get_u32 bs 4) d1))"

text \<open>The array of \<open>num\<close> ids at user address \<open>p\<close>.\<close>

definition fetch_objs :: "user_mem \<Rightarrow> ptr \<Rightarrow> nat \<Rightarrow> int list option" where
  "fetch_objs um p num =
     map_option (\<lambda>bs. map (\<lambda>i. get_s32 bs (4 * i)) [0..<num]) (copy_from_user um p (4 * num))"

text \<open>\<open>kzalloc 0\<close> is the array, the later ones belong to \<open>cam_sync_merge\<close>.\<close>

definition cam_sync_handle_merge ::
    "(nat \<Rightarrow> bool) \<Rightarrow> cam_private_ioctl_arg \<Rightarrow> user_mem \<Rightarrow> sync_device
       \<Rightarrow> rc \<times> user_mem \<times> sync_device" where
  "cam_sync_handle_merge kzalloc k_ioctl um d =
     (case fetch_arg sizeof_sync_merge k_ioctl um of
        Inl e \<Rightarrow> (e, um, d)
      | Inr bs \<Rightarrow>
          (let num_objs = unat (get_u32 bs 8) in
           if CAM_SYNC_MAX_OBJS \<le> num_objs then (- EINVAL, um, d)
           else if \<not> kzalloc 0 then (- ENOMEM, um, d)
           else
             (case fetch_objs um (get_u64 bs 0) num_objs of
                None \<Rightarrow> (- EFAULT, um, d)
              | Some sync_objs \<Rightarrow>
                  (case cam_sync_merge (\<lambda>k. kzalloc (Suc k)) (Some sync_objs) True d of
                     (result, merged, d') \<Rightarrow>
                       if result = 0
                       then (case copy_to_user um (ioctl_ptr k_ioctl)
                                    (put_u32 bs 12 (of_nat (the merged))) of
                               None \<Rightarrow> (- EFAULT, um, d')
                             | Some um' \<Rightarrow> (result, um', d'))
                       else (result, um, d')))))"

text \<open>\<open>timeleft\<close> and \<open>d'\<close> as in \<open>cam_sync_wait\<close>; the code of the wait goes into \<open>result\<close>.\<close>

definition cam_sync_handle_wait ::
    "nat \<Rightarrow> sync_device \<Rightarrow> cam_private_ioctl_arg \<Rightarrow> user_mem \<Rightarrow> sync_device
       \<Rightarrow> rc \<times> cam_private_ioctl_arg" where
  "cam_sync_handle_wait timeleft d' k_ioctl um d =
     (case fetch_arg sizeof_sync_wait k_ioctl um of
        Inl e \<Rightarrow> (e, k_ioctl)
      | Inr bs \<Rightarrow>
          (0, k_ioctl\<lparr>ioctl_result := of_int (cam_sync_wait (get_s32 bs 0) timeleft d d')\<rparr>))"

definition cam_sync_handle_destroy ::
    "cam_private_ioctl_arg \<Rightarrow> user_mem \<Rightarrow> sync_device \<Rightarrow> rc \<times> sync_device" where
  "cam_sync_handle_destroy k_ioctl um d =
     (case fetch_arg sizeof_sync_info k_ioctl um of
        Inl e \<Rightarrow> (e, d)
      | Inr bs \<Rightarrow> cam_sync_destroy (get_s32 bs 64) d)"

definition payload_of :: "u8 list \<Rightarrow> sync_user_payload" where
  "payload_of bs = (get_u64 bs 8, get_u64 bs 16)"

definition cam_sync_handle_register_user_payload ::
    "bool \<Rightarrow> cam_private_ioctl_arg \<Rightarrow> user_mem \<Rightarrow> sync_device \<Rightarrow> rc \<times> sync_device" where
  "cam_sync_handle_register_user_payload kzalloc k_ioctl um d =
     (case fetch_arg sizeof_userpayload_info k_ioctl um of
        Inl e \<Rightarrow> (e, d)
      | Inr bs \<Rightarrow>
          (let sync_obj = unat (get_u32 bs 0); pl = payload_of bs in
           if CAM_SYNC_MAX_OBJS \<le> sync_obj \<or> sync_obj \<le> 0 then (- EINVAL, d)
           else if \<not> kzalloc then (- ENOMEM, d)
           else
             let row = sync_table d sync_obj in
             if row_state row = CAM_SYNC_STATE_INVALID then (- EINVAL, d)
             else if row_state row = CAM_SYNC_STATE_SIGNALED_SUCCESS
                     \<or> row_state row = CAM_SYNC_STATE_SIGNALED_ERROR
             then (0, cam_sync_util_send_v4l2_event CAM_SYNC_V4L_EVENT_ID_CB_TRIG sync_obj
                        (row_state row) pl d)
             else if pl \<in> set (user_payload_list row) then (- EALREADY, d)
             else (0, upd_row sync_obj
                        (\<lambda>r. r\<lparr>user_payload_list := user_payload_list r @ [pl]\<rparr>) d)))"

definition cam_sync_handle_deregister_user_payload ::
    "cam_private_ioctl_arg \<Rightarrow> user_mem \<Rightarrow> sync_device \<Rightarrow> rc \<times> sync_device" where
  "cam_sync_handle_deregister_user_payload k_ioctl um d =
     (case fetch_arg sizeof_userpayload_info k_ioctl um of
        Inl e \<Rightarrow> (e, d)
      | Inr bs \<Rightarrow>
          (let sync_obj = unat (get_u32 bs 0); pl = payload_of bs in
           if CAM_SYNC_MAX_OBJS \<le> sync_obj \<or> sync_obj \<le> 0 then (- EINVAL, d)
           else if row_state (sync_table d sync_obj) = CAM_SYNC_STATE_INVALID then (- EINVAL, d)
           else (0, upd_row sync_obj
                      (\<lambda>r. r\<lparr>user_payload_list :=
                            filter (\<lambda>p. p \<noteq> pl) (user_payload_list r)\<rparr>) d)))"

text \<open>
  The dispatcher. \<open>dev\<close> is \<open>None\<close> for a missing device, \<open>arg\<close> is \<open>None\<close> for a null argument;
  the result is the code, the argument as left for the caller, user memory and the device.
\<close>

definition cam_sync_dev_ioctl ::
    "(nat \<Rightarrow> bool) \<Rightarrow> nat \<Rightarrow> (sync_device \<Rightarrow> sync_device) \<Rightarrow> u32 \<Rightarrow> cam_private_ioctl_arg option
       \<Rightarrow> user_mem \<Rightarrow> sync_device option
       \<Rightarrow> rc \<times> cam_private_ioctl_arg option \<times> user_mem \<times> sync_device option" where
  "cam_sync_dev_ioctl kzalloc timeleft meanwhile cmd arg um dev =
     (case (dev, arg) of
        (None, _) \<Rightarrow> (- EINVAL, arg, um, dev)
      | (Some d, None) \<Rightarrow> (- EINVAL, arg, um, dev)
      | (Some d, Some k_ioctl) \<Rightarrow>
          if cmd \<noteq> CAM_PRIVATE_IOCTL_CMD then (- ENOIOCTLCMD, arg, um, dev)
          else if ioctl_id k_ioctl = CAM_SYNC_CREATE
          then (case cam_sync_handle_create k_ioctl um d of (rc, um', d') \<Rightarrow> (rc, arg, um', Some d'))
          else if ioctl_id k_ioctl = CAM_SYNC_DESTROY
          then (case cam_sync_handle_destroy k_ioctl um d of (rc, d') \<Rightarrow> (rc, arg, um, Some d'))
          else if ioctl_id k_ioctl = CAM_SYNC_REGISTER_PAYLOAD
          then (case cam_sync_handle_register_user_payload (kzalloc 0) k_ioctl um d of
                  (rc, d') \<Rightarrow> (rc, arg, um, Some d'))
          else if ioctl_id k_ioctl = CAM_SYNC_DEREGISTER_PAYLOAD
          then (case cam_sync_handle_deregister_user_payload k_ioctl um d of
                  (rc, d') \<Rightarrow> (rc, arg, um, Some d'))
          else if ioctl_id k_ioctl = CAM_SYNC_SIGNAL
          then (case cam_sync_handle_signal k_ioctl um d of (rc, d') \<Rightarrow> (rc, arg, um, Some d'))
          else if ioctl_id k_ioctl = CAM_SYNC_MERGE
          then (case cam_sync_handle_merge kzalloc k_ioctl um d of
                  (rc, um', d') \<Rightarrow> (rc, arg, um', Some d'))
          else if ioctl_id k_ioctl = CAM_SYNC_WAIT
          then (case cam_sync_handle_wait timeleft (meanwhile d) k_ioctl um d of
                  (rc, k') \<Rightarrow> (rc, Some (k_ioctl\<lparr>ioctl_result := ioctl_result k'\<rparr>), um,
                               Some (meanwhile d)))
          else (- ENOIOCTLCMD, arg, um, dev))"

text \<open>\<open>cam_sync_poll\<close>: \<open>pending\<close> is \<open>v4l2_event_pending\<close>, \<open>POLLPRI\<close> is 2.\<close>

definition cam_sync_poll :: "ptr \<Rightarrow> bool \<Rightarrow> rc" where
  "cam_sync_poll eventq pending = (if eventq = 0 then - EINVAL else if pending then 2 else 0)"

section \<open>Preservation\<close>

lemma sync_wf_send_event [simp]:
  "sync_wf (cam_sync_util_send_v4l2_event e i st pl d) = sync_wf d"
  by (simp add: cam_sync_util_send_v4l2_event_def)

lemma sync_wf_handle_create: "sync_wf d \<Longrightarrow> sync_wf (snd (snd (cam_sync_handle_create k um d)))"
  using sync_wf_create [of d]
  by (auto simp: cam_sync_handle_create_def split: sum.split option.split prod.split)
    (metis snd_conv)+

lemma sync_wf_handle_merge: "sync_wf d \<Longrightarrow> sync_wf (snd (snd (cam_sync_handle_merge kz k um d)))"
  using sync_wf_merge [of d]
  by (auto simp: cam_sync_handle_merge_def Let_def split: sum.split option.split prod.split)
    (metis snd_conv)+

lemma sync_wf_handle_signal: "sync_wf d \<Longrightarrow> sync_wf (snd (cam_sync_handle_signal k um d))"
  using sync_wf_get_obj_ref [of d]
  by (auto simp: cam_sync_handle_signal_def Let_def sync_wf_signal split: sum.split prod.split)
    (metis snd_conv sync_wf_signal)+

lemma sync_wf_handle_destroy: "sync_wf d \<Longrightarrow> sync_wf (snd (cam_sync_handle_destroy k um d))"
  by (auto simp: cam_sync_handle_destroy_def sync_wf_destroy split: sum.split)

lemma sync_wf_handle_register_payload:
  "sync_wf d \<Longrightarrow> sync_wf (snd (cam_sync_handle_register_user_payload kz k um d))"
  by (auto simp: cam_sync_handle_register_user_payload_def Let_def sync_wf_payload split: sum.split)

lemma sync_wf_handle_deregister_payload:
  "sync_wf d \<Longrightarrow> sync_wf (snd (cam_sync_handle_deregister_user_payload k um d))"
  by (auto simp: cam_sync_handle_deregister_user_payload_def Let_def sync_wf_payload split: sum.split)

end
