(* ===== verification/Cam_Sync_Spec.thy ===== *)
theory Cam_Sync_Spec
  imports Cam_Sync_Ioctl
begin

text \<open>
  The fence device as a transition system, the closed form of a signal, and what a sequence of
  signals does to a group. The abstract picture of a group is the pair of its outstanding
  members and the status joined so far; \<open>group_progress\<close> is the refinement step for it.
\<close>

section \<open>The transition system\<close>

inductive sync_step :: "sync_device \<Rightarrow> sync_device \<Rightarrow> bool" where
  step_create: "sync_step d (snd (snd (cam_sync_create name d)))"
| step_register: "sync_step d (snd (cam_sync_register_callback kz f u s d))"
| step_deregister: "sync_step d (snd (cam_sync_deregister_callback f u s d))"
| step_signal: "sync_step d (snd (cam_sync_signal s st d))"
| step_merge: "sync_step d (snd (snd (cam_sync_merge kzs so mo d)))"
| step_get_ref: "sync_step d (snd (cam_sync_get_obj_ref s d))"
| step_put_ref: "sync_step d (snd (cam_sync_put_obj_ref s d))"
| step_destroy: "sync_step d (snd (cam_sync_destroy s d))"
| step_work: "work_queue d = cb # q \<Longrightarrow> sync_step d ((cam_sync_util_cb_dispatch cb d)\<lparr>work_queue := q\<rparr>)"
| step_open: "cam_sync_open fh_rc q (Some d) = (rc, Some d') \<Longrightarrow> sync_step d d'"
| step_close: "cam_sync_close (Some d) = (rc, Some d') \<Longrightarrow> sync_step d d'"
| step_ioctl: "cam_sync_dev_ioctl kzs timeleft (\<lambda>e. e) cmd arg um (Some d) = (rc, arg', um', Some d') \<Longrightarrow>
    sync_step d d'"

lemma sync_wf_ioctl:
  assumes wf: "sync_wf d"
    and "cam_sync_dev_ioctl kzs timeleft (\<lambda>e. e) cmd arg um (Some d) = (rc, arg', um', Some d')"
  shows "sync_wf d'"
proof (cases arg)
  case None
  then show ?thesis using assms by (simp add: cam_sync_dev_ioctl_def)
next
  case (Some k)
  obtain r1 m1 d1 where h1: "cam_sync_handle_create k um d = (r1, m1, d1)" by (metis prod_cases3)
  obtain r2 m2 d2 where h2: "cam_sync_handle_merge kzs k um d = (r2, m2, d2)" by (metis prod_cases3)
  obtain r3 d3 where h3: "cam_sync_handle_signal k um d = (r3, d3)" by fastforce
  obtain r4 d4 where h4: "cam_sync_handle_destroy k um d = (r4, d4)" by fastforce
  obtain r5 d5 where h5: "cam_sync_handle_register_user_payload (kzs 0) k um d = (r5, d5)" by fastforce
  obtain r6 d6 where h6: "cam_sync_handle_deregister_user_payload k um d = (r6, d6)" by fastforce
  have w: "sync_wf d1" "sync_wf d2" "sync_wf d3" "sync_wf d4" "sync_wf d5" "sync_wf d6"
    using sync_wf_handle_create [OF wf, of k um] sync_wf_handle_merge [OF wf, of kzs k um]
      sync_wf_handle_signal [OF wf, of k um] sync_wf_handle_destroy [OF wf, of k um]
      sync_wf_handle_register_payload [OF wf, of "kzs 0" k um]
      sync_wf_handle_deregister_payload [OF wf, of k um]
    by (simp_all add: h1 h2 h3 h4 h5 h6)
  have "d' \<in> {d, d1, d2, d3, d4, d5, d6}"
    using assms(2) Some
    by (simp add: cam_sync_dev_ioctl_def h1 h2 h3 h4 h5 h6 split: if_splits prod.splits)
  then show ?thesis using w wf by auto
qed

lemma sync_wf_step: "sync_wf d \<Longrightarrow> sync_step d d' \<Longrightarrow> sync_wf d'"
proof (erule sync_step.cases)
  fix e fh_rc q rc e' assume "sync_wf d" "d = e" "d' = e'" "cam_sync_open fh_rc q (Some e) = (rc, Some e')"
  then show "sync_wf d'" using sync_wf_open by blast
next
  fix e rc e' assume "sync_wf d" "d = e" "d' = e'" "cam_sync_close (Some e) = (rc, Some e')"
  then show "sync_wf d'" using sync_wf_close by blast
next
  fix kzs timeleft cmd arg um e rc arg' um' e'
  assume "sync_wf d" "d = e" "d' = e'"
    "cam_sync_dev_ioctl kzs timeleft (\<lambda>e. e) cmd arg um (Some e) = (rc, arg', um', Some e')"
  then show "sync_wf d'" using sync_wf_ioctl by blast
qed (simp_all add: sync_wf_create sync_wf_register_callback sync_wf_deregister_callback
      sync_wf_signal sync_wf_merge sync_wf_get_obj_ref sync_wf_put_obj_ref sync_wf_destroy
      cam_sync_util_cb_dispatch_def)

definition sync_init :: "sync_device \<Rightarrow> bool" where
  "sync_init d \<longleftrightarrow> d = cam_sync_probe_state"

interpretation sync_sys: invariant_system sync_init sync_step sync_wf
  by unfold_locales (auto simp: sync_init_def sync_wf_probe intro: sync_wf_step)

section \<open>A signal in closed form\<close>

text \<open>The work items a group adds when a member signals \<open>st\<close>.\<close>

definition completed :: "u32 \<Rightarrow> table \<Rightarrow> nat \<Rightarrow> sync_callback_info list" where
  "completed st T p =
     (if remaining (T p) = 1
      then map (\<lambda>cb. cb\<lparr>cb_status := join_state st (row_state (T p))\<rparr>) (callback_list (T p))
      else [])"

lemma signal_parent_queue:
  assumes "live (sync_table d p)" "row_ok (sync_table d p)" "is_signal st"
  shows "work_queue (signal_parent st p d) = work_queue d @ completed st (sync_table d) p"
  using assms by (simp add: signal_parent_eq Let_def completed_def dispatch_work_queue)

lemma fold_signal_parents:
  assumes "distinct ps" "\<forall>p\<in>set ps. live (sync_table d p) \<and> row_ok (sync_table d p)" "is_signal st"
  shows "sync_table (fold (signal_parent st) ps d)
       = (\<lambda>i. if i \<in> set ps then parent_after (cam_sync_eventq d \<noteq> 0) st (sync_table d i)
              else sync_table d i)
     \<and> work_queue (fold (signal_parent st) ps d)
       = work_queue d @ concat (map (completed st (sync_table d)) ps)
     \<and> cb_calls (fold (signal_parent st) ps d) = cb_calls d
     \<and> cam_sync_eventq (fold (signal_parent st) ps d) = cam_sync_eventq d
     \<and> sync_bitmap (fold (signal_parent st) ps d) = sync_bitmap d"
  using assms(1,2)
proof (induction ps arbitrary: d)
  case (Cons p ps)
  let ?d = "signal_parent st p d"
  have p: "live (sync_table d p)" "row_ok (sync_table d p)" using Cons.prems by auto
  note f = signal_parent_frame [OF p assms(3)] signal_parent_queue [OF p assms(3)]
  have "\<forall>q\<in>set ps. live (sync_table ?d q) \<and> row_ok (sync_table ?d q)"
    using Cons.prems f(1) by auto
  then have IH: "sync_table (fold (signal_parent st) ps ?d)
       = (\<lambda>i. if i \<in> set ps then parent_after (cam_sync_eventq ?d \<noteq> 0) st (sync_table ?d i)
              else sync_table ?d i)
     \<and> work_queue (fold (signal_parent st) ps ?d)
       = work_queue ?d @ concat (map (completed st (sync_table ?d)) ps)
     \<and> cb_calls (fold (signal_parent st) ps ?d) = cb_calls ?d
     \<and> cam_sync_eventq (fold (signal_parent st) ps ?d) = cam_sync_eventq ?d
     \<and> sync_bitmap (fold (signal_parent st) ps ?d) = sync_bitmap ?d"
    using Cons by simp
  have "completed st ((sync_table d)(p := r)) q = completed st (sync_table d) q" if "q \<in> set ps" for q r
    using that Cons.prems(1) by (auto simp: completed_def)
  then have c: "concat (map (completed st ((sync_table d)(p := r))) ps)
      = concat (map (completed st (sync_table d)) ps)" for r
    by (intro arg_cong [of _ _ concat] map_cong) simp_all
  show ?case using IH f Cons.prems(1) by (simp add: c) auto
qed simp

text \<open>A fence that the next call of \<open>cam_sync_signal\<close> really signals.\<close>

definition ready :: "sync_device \<Rightarrow> int \<Rightarrow> bool" where
  "ready d s \<longleftrightarrow> \<not> sync_obj_bad s \<and> row_state (sync_table d (nat s)) = CAM_SYNC_STATE_ACTIVE
     \<and> row_type (sync_table d (nat s)) = SYNC_TYPE_INDV \<and> ref_cnt (sync_table d (nat s)) = 1"

lemma signal_closed:
  assumes wf: "sync_wf d" and r: "ready d s" and st: "is_signal st"
  obtains d' where "cam_sync_signal s st d = (0, d')" "sync_wf d'"
    "sync_table d' = (\<lambda>i.
       if i = nat s then signal_row (cam_sync_eventq d \<noteq> 0) st (sync_table d i)
       else if i \<in> set (parents_list (sync_table d (nat s)))
       then parent_after (cam_sync_eventq d \<noteq> 0) st (sync_table d i) else sync_table d i)"
    "work_queue d' = work_queue d
       @ map (\<lambda>cb. cb\<lparr>cb_status := st\<rparr>) (callback_list (sync_table d (nat s)))
       @ concat (map (completed st (sync_table d)) (parents_list (sync_table d (nat s))))"
    "cb_calls d' = cb_calls d" "sync_bitmap d' = sync_bitmap d"
    "cam_sync_eventq d' = cam_sync_eventq d"
proof -
  let ?T = "sync_table d" let ?i = "nat s" let ?e = "signal_self (nat s) st d"
  let ?ps = "parents_list (?T ?i)"
  let ?d' = "fold (signal_parent st) ?ps ?e"
  note inv = wf [unfolded sync_wf_def]
  have eq: "cam_sync_signal s st d = (0, ?d')"
    using signal_effective [of s d st] r st by (simp add: ready_def)
  note fr = signal_self_frame [OF st, of "nat s" d]
  have ne: "p \<noteq> ?i" "live (?T p)" "row_ok (?T p)" if "p \<in> set ?ps" for p
    using parents_live(3,11) [OF inv that] table_invD(1) [OF inv] by auto
  have dist: "distinct ?ps" using table_invD(1) [OF inv, of ?i] by (simp add: row_ok_def)
  have "\<forall>p\<in>set ?ps. live (sync_table ?e p) \<and> row_ok (sync_table ?e p)" using ne fr(1) by simp
  note F = fold_signal_parents [OF dist this st]
  have c: "concat (map (completed st (?T(?i := r))) ?ps) = concat (map (completed st ?T) ?ps)" for r
    using ne by (intro arg_cong [of _ _ concat] map_cong) (simp_all add: completed_def)
  have "sync_wf ?d'" using sync_wf_signal [OF wf, of s st] eq by simp
  moreover have "?i \<notin> set ?ps" using ne by blast
  ultimately show thesis
    by (intro that [OF eq]) (use F fr in \<open>simp_all add: c fun_eq_iff\<close>)
qed

section \<open>Groups under a sequence of signals\<close>

definition signal_all :: "(int \<times> u32) list \<Rightarrow> sync_device \<Rightarrow> sync_device" where
  "signal_all sts d = fold (\<lambda>(s, st) d. snd (cam_sync_signal s st d)) sts d"

text \<open>
  Group \<open>g\<close> waits for exactly the fences \<open>ids\<close>: they are its members, every one is about to be
  signalled, and the counter agrees.
\<close>

definition awaits :: "sync_device \<Rightarrow> nat \<Rightarrow> int list \<Rightarrow> bool" where
  "awaits d g ids \<longleftrightarrow> live (sync_table d g) \<and> row_type (sync_table d g) = SYNC_TYPE_GROUP
     \<and> distinct ids \<and> (\<forall>s\<in>set ids. ready d s \<and> g \<in> set (parents_list (sync_table d (nat s))))
     \<and> remaining (sync_table d g) = of_nat (length ids)"

text \<open>The status of a group whose row had \<open>old\<close> once its members reported \<open>sts\<close>.\<close>

definition joined :: "u32 \<Rightarrow> u32 list \<Rightarrow> u32" where
  "joined old sts = fold join_state sts old"

lemma join_joined: "joined (join_state st old) sts = joined old (st # sts)"
  by (simp add: joined_def)

lemma joined_error_iff:
  assumes "\<forall>st\<in>set sts. is_signal st"
  shows "joined old sts = CAM_SYNC_STATE_SIGNALED_ERROR \<longleftrightarrow>
     old = CAM_SYNC_STATE_SIGNALED_ERROR \<or> CAM_SYNC_STATE_SIGNALED_ERROR \<in> set sts"
  using assms
  by (induction sts arbitrary: old) (auto simp: joined_def join_state_def)

lemma joined_signal:
  "sts \<noteq> [] \<Longrightarrow> \<forall>st\<in>set sts. is_signal st \<Longrightarrow> is_signal (joined old sts)"
proof (induction sts arbitrary: old)
  case (Cons st sts)
  then show ?case
    by (cases sts) (simp_all add: joined_def join_state_signal)
qed simp

lemma group_progress:
  assumes wf: "sync_wf d" and a: "awaits d g (s # ids)" and st: "is_signal st"
    and len: "length ids < CAM_SYNC_MAX_OBJS"
  obtains d' where "cam_sync_signal s st d = (0, d')" "sync_wf d'" "awaits d' g ids"
    "row_state (sync_table d' g) = join_state st (row_state (sync_table d g))"
    "signaled (sync_table d' g) \<longleftrightarrow> ids = []" "\<not> signaled (sync_table d g)"
    "callback_list (sync_table d' g) = (if ids = [] then [] else callback_list (sync_table d g))"
    "ids = [] \<Longrightarrow> \<exists>pre suf. work_queue d' = pre @
        map (\<lambda>cb. cb\<lparr>cb_status := join_state st (row_state (sync_table d g))\<rparr>)
          (callback_list (sync_table d g)) @ suf"
proof -
  let ?T = "sync_table d"
  note inv = wf [unfolded sync_wf_def]
  have r: "ready d s" and gp: "g \<in> set (parents_list (?T (nat s)))" and ds: "s \<notin> set ids" "distinct ids"
    and rem: "remaining (?T g) = of_nat (Suc (length ids))" and lg: "live (?T g)"
      "row_type (?T g) = SYNC_TYPE_GROUP"
    and rest: "\<And>t. t \<in> set ids \<Longrightarrow> ready d t \<and> g \<in> set (parents_list (?T (nat t)))"
    using a by (auto simp: awaits_def)
  obtain d' where d':
    "cam_sync_signal s st d = (0, d')" "sync_wf d'"
    "sync_table d' = (\<lambda>i.
       if i = nat s then signal_row (cam_sync_eventq d \<noteq> 0) st (?T i)
       else if i \<in> set (parents_list (?T (nat s)))
       then parent_after (cam_sync_eventq d \<noteq> 0) st (?T i) else ?T i)"
    "work_queue d' = work_queue d
       @ map (\<lambda>cb. cb\<lparr>cb_status := st\<rparr>) (callback_list (?T (nat s)))
       @ concat (map (completed st ?T) (parents_list (?T (nat s))))"
    by (rule signal_closed [OF wf r st]) blast
  have gs: "g \<noteq> nat s" using parents_live(11) [OF inv gp] .
  have g': "sync_table d' g = parent_after (cam_sync_eventq d \<noteq> 0) st (?T g)"
    using d'(3) gs gp by simp
  have one: "remaining (?T g) = 1 \<longleftrightarrow> ids = []"
  proof -
    have "unat (of_nat (Suc (length ids)) :: u32) = Suc (length ids)"
      using len by (simp add: unat_of_nat del: of_nat_Suc)
    then have "unat (remaining (?T g)) = Suc (length ids)" using rem by simp
    then show ?thesis using rem by auto
  qed
  have sig: "\<not> signaled (?T g)"
    using sync_wf_row_ok [OF wf, of g] lg remaining_pos [OF inv gp] by (auto simp: row_ok_def finished_def)
  have keep: "sync_table d' (nat t) = ?T (nat t)" if t: "t \<in> set ids" for t
  proof -
    have "t \<noteq> s" "0 \<le> t" "0 \<le> s"
      using rest [OF t] r ds(1) t by (auto simp: ready_def sync_obj_bad_def)
    then have "nat t \<noteq> nat s" by (simp add: eq_nat_nat_iff)
    moreover have "nat t \<notin> set (parents_list (?T (nat s)))"
      using rest [OF t] parents_live(4) [OF inv, of "nat t" "nat s"] by (auto simp: ready_def)
    ultimately show ?thesis using d'(3) by simp
  qed
  have aw: "awaits d' g ids"
    unfolding awaits_def
    using g' lg ds(2) rest keep rem st by (simp add: live_def ready_def)
  have "\<exists>pre suf. work_queue d' = pre @
        map (\<lambda>cb. cb\<lparr>cb_status := join_state st (row_state (?T g))\<rparr>) (callback_list (?T g)) @ suf"
    if "ids = []"
  proof -
    obtain ps qs where "parents_list (?T (nat s)) = ps @ g # qs" using gp by (meson split_list)
    then show ?thesis
      using d'(4) one that
      by (intro exI [of _ "work_queue d @ map (\<lambda>cb. cb\<lparr>cb_status := st\<rparr>) (callback_list (?T (nat s)))
           @ concat (map (completed st ?T) ps)"] exI [of _ "concat (map (completed st ?T) qs)"])
        (simp add: completed_def)
  qed
  then show thesis
    using that [OF d'(1,2) aw] g' one sig by (simp add: parent_after_def)
qed

lemma awaits_length:
  assumes "awaits d g ids"
  shows "length ids < CAM_SYNC_MAX_OBJS"
proof -
  have "length ids = card (set ids)" using assms by (simp add: awaits_def distinct_card)
  also have "\<dots> \<le> card {1..<int CAM_SYNC_MAX_OBJS}"
    using assms by (intro card_mono) (auto simp: awaits_def ready_def sync_obj_bad_def)
  finally show ?thesis by simp
qed

lemma signal_all_Cons: "signal_all ((s, st) # sts) d = signal_all sts (snd (cam_sync_signal s st d))"
  by (simp add: signal_all_def)

text \<open>What holds after the first \<open>k\<close> of the signals.\<close>

definition group_at :: "(int \<times> u32) list \<Rightarrow> sync_device \<Rightarrow> nat \<Rightarrow> nat \<Rightarrow> bool" where
  "group_at sts d g k \<longleftrightarrow>
     (let row = sync_table (signal_all (take k sts) d) g in
      remaining row = of_nat (length sts - k) \<and> (signaled row \<longleftrightarrow> k = length sts)
      \<and> (k < length sts \<longrightarrow> callback_list row = callback_list (sync_table d g)))"

lemma group_run:
  assumes "sync_wf d" "awaits d g (map fst sts)" "sts \<noteq> []" "\<forall>st\<in>set (map snd sts). is_signal st"
  shows "row_state (sync_table (signal_all sts d) g) = joined (row_state (sync_table d g)) (map snd sts)
    \<and> (\<exists>pre suf. work_queue (signal_all sts d) = pre @
         map (\<lambda>cb. cb\<lparr>cb_status := joined (row_state (sync_table d g)) (map snd sts)\<rparr>)
           (callback_list (sync_table d g)) @ suf)
    \<and> (\<forall>k \<le> length sts. group_at sts d g k)"
  using assms
proof (induction sts arbitrary: d)
  case (Cons x sts)
  obtain s st where x: "x = (s, st)" by (cases x)
  have a: "awaits d g (s # map fst sts)" and st: "is_signal st"
    using Cons.prems(2,4) by (simp_all add: x)
  have len: "length (map fst sts) < CAM_SYNC_MAX_OBJS" using awaits_length [OF a] by simp
  obtain d' where d': "cam_sync_signal s st d = (0, d')" "sync_wf d'" "awaits d' g (map fst sts)"
    "row_state (sync_table d' g) = join_state st (row_state (sync_table d g))"
    "signaled (sync_table d' g) \<longleftrightarrow> map fst sts = []" "\<not> signaled (sync_table d g)"
    "callback_list (sync_table d' g) = (if map fst sts = [] then [] else callback_list (sync_table d g))"
    "map fst sts = [] \<Longrightarrow> \<exists>pre suf. work_queue d' = pre @
        map (\<lambda>cb. cb\<lparr>cb_status := join_state st (row_state (sync_table d g))\<rparr>)
          (callback_list (sync_table d g)) @ suf"
    by (rule group_progress [OF Cons.prems(1) a st len]) blast
  have step: "signal_all (x # ys) d = signal_all ys d'" for ys
    using d'(1) by (simp add: x signal_all_Cons)
  have at0: "group_at (x # sts) d g 0"
    using a d'(6) by (simp add: group_at_def signal_all_def awaits_def del: of_nat_Suc)
  show ?case
  proof (cases "sts = []")
    case True
    have e: "signal_all [x] d = d'" by (simp add: step) (simp add: signal_all_def)
    have "group_at (x # sts) d g 1" using True d' by (simp add: group_at_def e awaits_def)
    then show ?thesis using True d' at0 e by (auto simp: x joined_def le_Suc_eq)
  next
    case False
    have sts: "\<forall>st\<in>set (map snd sts). is_signal st" using Cons.prems(4) by simp
    note IH = Cons.IH [OF d'(2,3) False sts]
    have c: "callback_list (sync_table d' g) = callback_list (sync_table d g)"
      using d'(7) False by simp
    have k: "group_at (x # sts) d g k" if "k \<le> length (x # sts)" for k
    proof (cases k)
      case (Suc m)
      then have "group_at sts d' g m" using IH that by auto
      then show ?thesis using Suc c by (simp add: group_at_def step)
    qed (simp add: at0)
    have j: "joined (row_state (sync_table d' g)) (map snd sts)
        = joined (row_state (sync_table d g)) (map snd (x # sts))"
      by (simp add: d'(4) x join_joined)
    show ?thesis using IH k unfolding step c j by blast
  qed
qed simp

end
