(* ===== verification/Cam_Sync_Props.thy ===== *)
theory Cam_Sync_Props
  imports Cam_Sync_Spec
begin

text \<open>
  The properties of the fence framework, with the concrete devices on which the ones that have
  hypotheses are applied.
\<close>

section \<open>Shared facts\<close>

lemma reach_wf: "reach sync_init sync_step d \<Longrightarrow> sync_wf d"
  by (rule sync_sys.reach_inv)

lemma reach_probe: "reach sync_init sync_step cam_sync_probe_state"
  by (rule reach_init) (simp add: sync_init_def)

text \<open>Two fences that each hold a reference, and a group merged from them.\<close>

definition dev_two :: sync_device where
  "dev_two = snd (cam_sync_get_obj_ref 2 (snd (cam_sync_get_obj_ref 1
     (snd (snd (cam_sync_create None (snd (snd (cam_sync_create (Some ''a'') cam_sync_probe_state)))))))))"

definition dev_group :: sync_device where
  "dev_group = snd (cam_sync_register_callback True 7 8 3
     (snd (snd (cam_sync_merge (\<lambda>_. True) (Some [1, 2]) True dev_two))))"

lemma dev_two_wf: "sync_wf dev_two"
  by (simp add: dev_two_def sync_wf_create sync_wf_get_obj_ref sync_wf_probe)

lemma dev_group_wf: "sync_wf dev_group"
  by (simp add: dev_group_def sync_wf_merge sync_wf_register_callback dev_two_wf)

lemmas sync_more = reach_step [where init = sync_init and step = sync_step]

lemma dev_group_reach: "reach sync_init sync_step dev_group"
  unfolding dev_group_def dev_two_def
  by (intro sync_more [OF _ step_register] sync_more [OF _ step_merge]
      sync_more [OF _ step_get_ref] sync_more [OF _ step_create] reach_probe)

lemma dev_group_awaits: "awaits dev_group 3 [1, 2]"
  by code_simp

lemma dev_group_ready: "ready dev_group 1"
  by code_simp

section \<open>Properties\<close>

text \<open>C2: in every state the device can reach from its probe state by any sequence of kernel API
  calls, ioctls, opens, closes and work-queue runs, the fence table is well formed: row states
  are legal, an object is completed exactly when it is final and nothing remains, the bitmap
  marks exactly the live rows, member and group lists agree, and a group never has more unsignalled
  members than its counter says.\<close>

theorem sync_reachable_wf:
  assumes "reach sync_init sync_step d"
  shows "sync_wf d"
  using assms by (rule reach_wf)

theorem sync_reachable_wf_witness: "sync_wf dev_group"
  by (rule sync_reachable_wf [OF dev_group_reach])

text \<open>C1: a group completes exactly when its last member is signalled. Let the group \<open>g\<close> wait for the
  fences of \<open>sts\<close>: they are different individual fences, active and with one reference, each has \<open>g\<close> as
  a parent, and the counter of \<open>g\<close> is their number. Then, when they are signalled in the order given, the
  counter is the number of those still to come after every signal, the group is signalled after the last
  and after none before, and until then its callbacks stay on its list. In the end its state is ERROR if it
  was ERROR already or some member failed, SUCCESS otherwise, and its callbacks are in the work queue, in
  their order and with that status.\<close>

theorem sync_group_completes:
  assumes "sync_wf d" "awaits d g (map fst sts)" "sts \<noteq> []" "\<forall>st\<in>set (map snd sts). is_signal st"
  shows "(\<forall>k \<le> length sts.
       remaining (sync_table (signal_all (take k sts) d) g) = of_nat (length sts - k)
       \<and> (signaled (sync_table (signal_all (take k sts) d) g) \<longleftrightarrow> k = length sts)
       \<and> (k < length sts \<longrightarrow> callback_list (sync_table (signal_all (take k sts) d) g) = callback_list (sync_table d g)))
    \<and> row_state (sync_table (signal_all sts d) g) =
        (if row_state (sync_table d g) = CAM_SYNC_STATE_SIGNALED_ERROR
            \<or> CAM_SYNC_STATE_SIGNALED_ERROR \<in> set (map snd sts)
         then CAM_SYNC_STATE_SIGNALED_ERROR else CAM_SYNC_STATE_SIGNALED_SUCCESS)
    \<and> (\<exists>pre suf. work_queue (signal_all sts d) = pre @
         map (\<lambda>cb. cb\<lparr>cb_status := row_state (sync_table (signal_all sts d) g)\<rparr>)
           (callback_list (sync_table d g)) @ suf)"
proof -
  note r = group_run [OF assms]
  have "is_signal (joined (row_state (sync_table d g)) (map snd sts))"
    using assms(3,4) by (intro joined_signal) auto
  then have "joined (row_state (sync_table d g)) (map snd sts) =
        (if row_state (sync_table d g) = CAM_SYNC_STATE_SIGNALED_ERROR
            \<or> CAM_SYNC_STATE_SIGNALED_ERROR \<in> set (map snd sts)
         then CAM_SYNC_STATE_SIGNALED_ERROR else CAM_SYNC_STATE_SIGNALED_SUCCESS)"
    using joined_error_iff [OF assms(4), of "row_state (sync_table d g)"]
    by (auto simp: is_signal_def simp del: set_map)
  then show ?thesis using r unfolding group_at_def Let_def by metis
qed

theorem sync_group_completes_witness:
  "row_state (sync_table (signal_all [(1, CAM_SYNC_STATE_SIGNALED_ERROR),
     (2, CAM_SYNC_STATE_SIGNALED_SUCCESS)] dev_group) 3) = CAM_SYNC_STATE_SIGNALED_ERROR"
proof -
  have a: "awaits dev_group 3 (map fst [(1, CAM_SYNC_STATE_SIGNALED_ERROR),
     (2, CAM_SYNC_STATE_SIGNALED_SUCCESS)])" using dev_group_awaits by simp
  show ?thesis
    using sync_group_completes [OF dev_group_wf a] by (simp add: is_signal_def)
qed

text \<open>C3: signalling a fence whose last reference is given up returns 0, sets its state, and queues
  exactly the fence's own callbacks with that status followed, group by group, by the
  callbacks of the groups whose last member it was; no callback is invoked directly.\<close>

theorem sync_signal_delivers:
  assumes "sync_wf d" "ready d s" "is_signal st"
  shows "case cam_sync_signal s st d of (rc, d') \<Rightarrow>
     rc = 0 \<and> row_state (sync_table d' (nat s)) = st
     \<and> callback_list (sync_table d' (nat s)) = []
     \<and> work_queue d' = work_queue d
         @ map (\<lambda>cb. cb\<lparr>cb_status := st\<rparr>) (callback_list (sync_table d (nat s)))
         @ concat (map (completed st (sync_table d)) (parents_list (sync_table d (nat s))))
     \<and> cb_calls d' = cb_calls d"
  by (rule signal_closed [OF assms]) simp

theorem sync_signal_delivers_witness:
  "row_state (sync_table (snd (cam_sync_signal 1 CAM_SYNC_STATE_SIGNALED_SUCCESS dev_group)) 1)
     = CAM_SYNC_STATE_SIGNALED_SUCCESS"
  using sync_signal_delivers [OF dev_group_wf dev_group_ready, of CAM_SYNC_STATE_SIGNALED_SUCCESS]
  by (simp add: is_signal_def split: prod.splits)

text \<open>C27: a fence is signalled at most once: after an effective signal, every further signal with
  any status is refused with EALREADY and changes nothing.\<close>

theorem sync_signal_once:
  assumes "sync_wf d" "ready d s" "is_signal st"
  shows "cam_sync_signal s st' (snd (cam_sync_signal s st d))
     = (- EALREADY, snd (cam_sync_signal s st d))"
proof -
  obtain d' where d': "cam_sync_signal s st d = (0, d')"
    "sync_table d' (nat s) = signal_row (cam_sync_eventq d \<noteq> 0) st (sync_table d (nat s))"
    by (rule signal_closed [OF assms]) auto
  then show ?thesis
    using assms by (auto simp: cam_sync_signal_def Let_def ready_def is_signal_def)
qed

theorem sync_signal_once_witness:
  "fst (cam_sync_signal 1 CAM_SYNC_STATE_SIGNALED_ERROR
     (snd (cam_sync_signal 1 CAM_SYNC_STATE_SIGNALED_SUCCESS dev_group))) = - EALREADY"
  using sync_signal_once [OF dev_group_wf dev_group_ready, of CAM_SYNC_STATE_SIGNALED_SUCCESS]
  by (simp add: is_signal_def)

text \<open>C28: \<open>remaining\<close> never underflows: in every reachable state, a group that some fence still
  lists as its parent is live, is a group, and has a positive counter, so the decrement in
  \<open>cam_sync_signal\<close> does not wrap around.\<close>

theorem sync_remaining_no_underflow:
  assumes "reach sync_init sync_step d" "p \<in> set (parents_list (sync_table d i))"
  shows "0 < unat (remaining (sync_table d p)) \<and> live (sync_table d p)
     \<and> row_type (sync_table d p) = SYNC_TYPE_GROUP \<and> i \<in> set (children_list (sync_table d p))
     \<and> unat (remaining (sync_table d p) - 1) = unat (remaining (sync_table d p)) - 1"
proof -
  have inv: "table_inv [] (sync_table d) (sync_bitmap d)"
    using reach_wf [OF assms(1)] by (simp add: sync_wf_def)
  have "remaining (sync_table d p) \<noteq> 0" by (rule remaining_pos [OF inv assms(2)])
  then show ?thesis
    using parents_live(3,4,5) [OF inv assms(2)] unat_minus_one by (auto simp: unat_gt_0)
qed

theorem sync_remaining_no_underflow_witness: "0 < unat (remaining (sync_table dev_group 3))"
proof -
  have "3 \<in> set (parents_list (sync_table dev_group 1))" by code_simp
  then show ?thesis using sync_remaining_no_underflow [OF dev_group_reach] by blast
qed

text \<open>a successful merge. The members were at least two different live individual fences;
  the new id was free; the group row lists exactly the members that are still active and its
  counter is their number; each of them gets the group as its last parent; the group is
  signalled at once exactly when no member is active; every other row is unchanged.\<close>

theorem sync_merge_links:
  assumes "sync_wf d" "cam_sync_merge kz (Some objs) mo d = (0, g, d')"
  shows "\<exists>idx. g = Some idx \<and> mergeable d objs \<and> \<not> live (sync_table d idx)
     \<and> (\<forall>s\<in>set objs. row_type (sync_table d (nat s)) = SYNC_TYPE_INDV)
     \<and> children_list (sync_table d' idx) = active_of (sync_table d) (map nat objs)
     \<and> unat (remaining (sync_table d' idx)) = length (active_of (sync_table d) (map nat objs))
     \<and> (signaled (sync_table d' idx) \<longleftrightarrow> active_of (sync_table d) (map nat objs) = [])
     \<and> (\<forall>i. i \<noteq> idx \<longrightarrow> sync_table d' i = (sync_table d i)\<lparr>parents_list :=
          parents_list (sync_table d i)
            @ (if i \<in> set (active_of (sync_table d) (map nat objs)) then [idx] else [])\<rparr>)"
  using assms(2)
proof (cases rule: merge_cases [OF assms(1), of kz "Some objs" mo])
  case (4 idx os)
  let ?A = "active_of (sync_table d) (map nat objs)"
  have os: "os = objs" using 4(1) by simp
  have g: "g = Some idx" and T: "sync_table d' = merged_table idx (sync_table d) (map nat objs)"
    using assms(2) 4(7) os by auto
  have self: "sync_table d' idx = merged_row idx (sync_table d) (map nat objs)"
    by (simp add: T merged_table_def linked_def)
  have m: "mergeable d objs" using 4 os by simp
  have rem: "unat (remaining (sync_table d' idx)) = length ?A"
    unfolding self by (rule remaining_merged) (use mergeable_nat [OF m] in auto)
  then have "signaled (sync_table d' idx) \<longleftrightarrow> ?A = []"
    using unat_eq_0 [of "remaining (sync_table d' idx)"] by (simp add: self signaled_merged)
  moreover have "\<forall>s\<in>set objs. row_type (sync_table d (nat s)) = SYNC_TYPE_INDV"
  proof
    fix s assume "s \<in> set objs"
    then have "row_type (sync_table d (nat s)) \<noteq> SYNC_TYPE_GROUP" using 4(6) os by (auto simp: bad_member_def)
    then show "row_type (sync_table d (nat s)) = SYNC_TYPE_INDV"
      by (cases "row_type (sync_table d (nat s))") auto
  qed
  moreover have "sync_table d' i = (sync_table d i)\<lparr>parents_list := parents_list (sync_table d i)
      @ (if i \<in> set ?A then [idx] else [])\<rparr>" if "i \<noteq> idx" for i
    using that by (simp add: T merged_table_def linked_def)
  moreover have "children_list (sync_table d' idx) = ?A" by (simp add: self merged_row_simps)
  ultimately show ?thesis using g 4(3) m rem by blast
qed auto

theorem sync_merge_links_witness:
  "unat (remaining (sync_table (snd (snd (cam_sync_merge (\<lambda>_. True) (Some [1, 2]) True dev_two))) 3)) = 2"
proof -
  have e: "fst (cam_sync_merge (\<lambda>_. True) (Some [1, 2]) True dev_two) = 0"
    "fst (snd (cam_sync_merge (\<lambda>_. True) (Some [1, 2]) True dev_two)) = Some 3"
    "length (active_of (sync_table dev_two) (map nat [1, 2])) = 2" by code_simp+
  then have "cam_sync_merge (\<lambda>_. True) (Some [1, 2]) True dev_two
      = (0, Some 3, snd (snd (cam_sync_merge (\<lambda>_. True) (Some [1, 2]) True dev_two)))"
    by (metis prod.collapse)
  then show ?thesis using sync_merge_links [OF dev_two_wf] e(3) by fastforce
qed

text \<open>C29: a merge that fails, for whatever reason and after however many members were linked,
  returns no id and leaves the bitmap and every live row exactly as before.\<close>

theorem sync_merge_rollback:
  assumes "sync_wf d" "cam_sync_merge kz so mo d = (rc, g, d')" "rc \<noteq> 0"
  shows "g = None \<and> sync_bitmap d' = sync_bitmap d
     \<and> (\<forall>i. live (sync_table d i) \<longrightarrow> sync_table d' i = sync_table d i)
     \<and> (\<forall>i. live (sync_table d' i) \<longleftrightarrow> live (sync_table d i))"
proof (cases rule: merge_cases [OF assms(1), of kz so mo])
  case (3 idx r)
  have d': "d' = d\<lparr>sync_table := (sync_table d)(idx := rolled_back r)\<rparr>" "g = None" using assms(2) 3(3) by auto
  have "\<not> live (rolled_back r)" by (simp add: rolled_back_def live_def)
  then show ?thesis using 3(1) d' by (auto split: if_splits)
qed (use assms in auto)

theorem sync_merge_rollback_witness:
  "sync_table (snd (snd (cam_sync_merge (\<lambda>k. k < 3) (Some [1, 2]) True dev_two))) 1
     = sync_table dev_two 1"
proof -
  let ?m = "cam_sync_merge (\<lambda>k. k < 3) (Some [1, 2]) True dev_two"
  have e: "?m = (fst ?m, fst (snd ?m), snd (snd ?m))" by simp
  have rc: "fst ?m \<noteq> 0" by code_simp
  have "live (sync_table dev_two 1)" by code_simp
  then show ?thesis using sync_merge_rollback [OF dev_two_wf e rc] by blast
qed

end
