(* ===== verification/Cam_Sync_Life.thy ===== *)
theory Cam_Sync_Life
  imports Cam_Sync_Props
begin

text \<open>
  Life cycle of fences: allocation, destruction, the lock-free claim loop, what user space sees
  through the ioctls, closing the device, and the groups that a destroyed member leaves behind.
\<close>

section \<open>Helper lemmas\<close>

lemma sint_small: "n < 2 ^ 31 \<Longrightarrow> sint (of_nat n :: u32) = int n"
  by (simp add: signed_of_nat signed_take_bit_int_eq_self)

lemma destroy_eq:
  assumes "sync_wf d" "\<not> sync_obj_bad s" "live (sync_table d (nat s))"
  shows "cam_sync_destroy s d = (0, d\<lparr>sync_table := removed (nat s) (sync_table d),
           sync_bitmap := (sync_bitmap d)(nat s := False)\<rparr>)"
proof -
  have "s mod 2 ^ 32 = s" using assms(2) by (simp add: sync_obj_bad_def)
  then show ?thesis
    using deinit_eq [OF assms(1), of "nat s"] assms(2,3)
    by (simp add: cam_sync_destroy_def sync_obj_bad_iff)
qed

lemma destroy_dead:
  assumes "\<not> sync_obj_bad s" "\<not> live (sync_table d (nat s))"
  shows "cam_sync_destroy s d = (- EINVAL, d)"
proof -
  have "s mod 2 ^ 32 = s" using assms(1) by (simp add: sync_obj_bad_def)
  then show ?thesis
    using assms(2) by (simp add: cam_sync_destroy_def cam_sync_deinit_object_def live_def)
qed

lemma removed_live: "live (removed i T j) \<longleftrightarrow> j \<noteq> i \<and> live (T j)"
  by (simp add: removed_def live_def)

section \<open>The claim loop\<close>

definition n_clear :: "bitmap \<Rightarrow> nat" where
  "n_clear bm = card {i. i < CAM_SYNC_MAX_OBJS \<and> \<not> bm i}"

lemma n_clear_step:
  assumes "idx < CAM_SYNC_MAX_OBJS" "\<not> bm idx" "\<And>i. bm i \<Longrightarrow> bmx i"
  shows "n_clear (bmx(idx := True)) < n_clear bm"
proof -
  have "{i. i < CAM_SYNC_MAX_OBJS \<and> \<not> (bmx(idx := True)) i} \<subset> {i. i < CAM_SYNC_MAX_OBJS \<and> \<not> bm i}"
    using assms by auto
  then show ?thesis unfolding n_clear_def by (intro psubset_card_mono) auto
qed

lemma claim_returns:
  assumes env: "\<And>n bm i. bm i \<Longrightarrow> env n bm i" and "n_clear bm < fuel"
  shows "\<exists>r. cam_sync_claim env fuel bm = Some r"
  using assms(2)
proof (induction fuel arbitrary: bm)
  case (Suc n)
  let ?idx = "find_first_zero_bit bm CAM_SYNC_MAX_OBJS"
  have "n_clear ((env n bm)(?idx := True)) < n" if "?idx < CAM_SYNC_MAX_OBJS"
    using n_clear_step [where bm = bm and bmx = "env n bm", OF that ffz_free [OF that]] env Suc.prems
    by fastforce
  then show ?case using Suc.IH by (auto simp: Let_def)
qed simp

text \<open>
  The bits the loop leaves when \<open>others n\<close> are set by other CPUs in the round with \<open>n\<close> more rounds of fuel:
  those there were, those the others set in the \<open>k\<close> rounds that were made, and the one returned.
\<close>

lemma claim_exact:
  assumes "cam_sync_claim (\<lambda>n bm i. bm i \<or> others n i) fuel bm = Some (r, bm')"
  shows "\<exists>k \<le> fuel. (\<forall>i. bm' i \<longleftrightarrow> bm i \<or> (\<exists>n. fuel - k \<le> n \<and> n < fuel \<and> others n i) \<or> r = Some i)
     \<and> (case r of
          None \<Rightarrow> \<forall>i < CAM_SYNC_MAX_OBJS. bm' i
        | Some idx \<Rightarrow> idx < CAM_SYNC_MAX_OBJS \<and> \<not> bm idx \<and> (\<forall>n. fuel - k \<le> n \<and> n < fuel \<longrightarrow> \<not> others n idx))"
  using assms
proof (induction fuel arbitrary: bm)
  case (Suc n)
  let ?i = "find_first_zero_bit bm CAM_SYNC_MAX_OBJS"
  let ?o = "\<lambda>i. bm i \<or> others n i"
  consider (full) "CAM_SYNC_MAX_OBJS \<le> ?i" | (taken) "?i < CAM_SYNC_MAX_OBJS" "?o ?i" | (mine) "?i < CAM_SYNC_MAX_OBJS" "\<not> ?o ?i"
    by fastforce
  then show ?case
  proof cases
    case full
    then have "r = None" "bm' = bm" using Suc.prems by (auto simp: Let_def)
    moreover have "bm i" if "i < CAM_SYNC_MAX_OBJS" for i
      using full that ffz_least [of i bm CAM_SYNC_MAX_OBJS] by auto
    ultimately show ?thesis by (intro exI [of _ 0]) auto
  next
    case taken
    have e: "(\<lambda>i. bm i \<or> others n i)(?i := True) = ?o" using taken(2) by (auto simp: fun_eq_iff)
    have "cam_sync_claim (\<lambda>n bm i. bm i \<or> others n i) n ?o = Some (r, bm')"
      using Suc.prems taken e by (simp add: Let_def)
    from Suc.IH [OF this] obtain k where k: "k \<le> n"
      "\<forall>i. bm' i \<longleftrightarrow> ?o i \<or> (\<exists>m. n - k \<le> m \<and> m < n \<and> others m i) \<or> r = Some i"
      "case r of None \<Rightarrow> \<forall>i < CAM_SYNC_MAX_OBJS. bm' i
        | Some idx \<Rightarrow> idx < CAM_SYNC_MAX_OBJS \<and> \<not> ?o idx \<and> (\<forall>m. n - k \<le> m \<and> m < n \<longrightarrow> \<not> others m idx)"
      by blast
    have lt: "Suc n - Suc k \<le> m \<and> m < Suc n \<longleftrightarrow> m = n \<or> n - k \<le> m \<and> m < n" for m
      using k(1) by auto
    have ex: "(\<exists>m. Suc n - Suc k \<le> m \<and> m < Suc n \<and> P m) \<longleftrightarrow> P n \<or> (\<exists>m. n - k \<le> m \<and> m < n \<and> P m)" for P
      unfolding conj_assoc [symmetric] lt by blast
    have "\<forall>i. bm' i \<longleftrightarrow> bm i \<or> (\<exists>m. Suc n - Suc k \<le> m \<and> m < Suc n \<and> others m i) \<or> r = Some i"
      unfolding ex using k(2) by blast
    moreover have "case r of None \<Rightarrow> \<forall>i < CAM_SYNC_MAX_OBJS. bm' i
        | Some idx \<Rightarrow> idx < CAM_SYNC_MAX_OBJS \<and> \<not> bm idx \<and> (\<forall>m. Suc n - Suc k \<le> m \<and> m < Suc n \<longrightarrow> \<not> others m idx)"
      unfolding lt using k(3) by (cases r) auto
    ultimately show ?thesis using k(1) by (meson Suc_le_mono)
  next
    case mine
    then have "r = Some ?i" "bm' = ?o(?i := True)" using Suc.prems by (auto simp: Let_def)
    then show ?thesis using mine
      by (intro exI [of _ 1]) (auto simp: less_Suc_eq)
  qed
qed simp

section \<open>Stranded groups\<close>

text \<open>A group whose counter exceeds the number of members that can still signal it.\<close>

definition stranded :: "sync_device \<Rightarrow> nat \<Rightarrow> bool" where
  "stranded d g \<longleftrightarrow> live (sync_table d g) \<and> row_type (sync_table d g) = SYNC_TYPE_GROUP
     \<and> card (members (sync_table d) g) < unat (remaining (sync_table d g))"

lemma stranded_not_signaled:
  assumes "sync_wf d" "stranded d g"
  shows "\<not> signaled (sync_table d g)"
  using sync_wf_row_ok [OF assms(1), of g] assms(2) by (auto simp: row_ok_def stranded_def finished_def)

lemma stranded_ref:
  "stranded d g \<Longrightarrow> stranded (upd_row i (\<lambda>r. r\<lparr>ref_cnt := f r\<rparr>) d) g"
  by (auto simp: stranded_def live_def members_upd_same)

lemma stranded_signal:
  assumes wf: "sync_wf d" and str: "stranded d g"
  shows "stranded (snd (cam_sync_signal s st d)) g"
proof -
  let ?r = "sync_table d (nat s)" let ?T = "sync_table d"
  note inv = wf [unfolded sync_wf_def]
  consider (same) "snd (cam_sync_signal s st d) = d"
    | (ref) "snd (cam_sync_signal s st d) = upd_row (nat s) (\<lambda>r. r\<lparr>ref_cnt := ref_cnt r - 1\<rparr>) d"
    | (eff) "ready d s" "is_signal st"
    using signal_cases [of s d st] signal_ref [of s d st] unfolding ready_def
    by (cases "row_type ?r") fastforce+
  then show ?thesis
  proof cases
    case eff
    obtain d' where d': "cam_sync_signal s st d = (0, d')"
      "sync_table d' = (\<lambda>i.
         if i = nat s then signal_row (cam_sync_eventq d \<noteq> 0) st (?T i)
         else if i \<in> set (parents_list (?T (nat s)))
         then parent_after (cam_sync_eventq d \<noteq> 0) st (?T i) else ?T i)"
      by (rule signal_closed [OF wf eff]) blast
    have gs: "g \<noteq> nat s" using eff(1) str by (auto simp: ready_def stranded_def)
    have m: "members (sync_table d') g = members ?T g - {nat s}" by (auto simp: members_def d'(2))
    show ?thesis
    proof (cases "g \<in> set (parents_list ?r)")
      case True
      have "nat s \<in> members ?T g" using True parents_live(8) [OF inv True] by (simp add: members_def)
      then have c: "card (members (sync_table d') g) = card (members ?T g) - 1" "0 < card (members ?T g)"
        unfolding m by (auto simp: card_gt_0_iff)
      have "unat (remaining (?T g) - 1) = unat (remaining (?T g)) - 1"
        using remaining_pos [OF inv True] by (rule unat_minus_one)
      then show ?thesis
        using c str gs True eff(2) by (auto simp: d' stranded_def live_def)
    next
      case False
      then have "nat s \<notin> members ?T g" by (simp add: members_def)
      then show ?thesis using str gs False m by (simp add: d' stranded_def)
    qed
  qed (use str stranded_ref in auto)
qed

lemma stranded_signal_all:
  "sync_wf d \<Longrightarrow> stranded d g \<Longrightarrow> stranded (signal_all sts d) g \<and> sync_wf (signal_all sts d)"
proof (induction sts arbitrary: d)
  case (Cons x sts)
  then show ?case
    using stranded_signal sync_wf_signal by (cases x) (simp add: signal_all_Cons)
qed (simp add: signal_all_def)

section \<open>Closing\<close>

lemma close_destroy_all:
  "sync_wf d \<Longrightarrow> set is \<subseteq> {1..<CAM_SYNC_MAX_OBJS} \<Longrightarrow>
     (\<forall>i. live (sync_table (snd (close_destroy_loop is rc d)) i) \<longrightarrow> live (sync_table d i) \<and> i \<notin> set is)
     \<and> work_queue (snd (close_destroy_loop is rc d)) = work_queue d"
proof (induction "is" rc d rule: close_destroy_loop.induct)
  case (2 i "is" rc d)
  show ?case
  proof (cases "live (sync_table d i)")
    case True
    have "\<not> sync_obj_bad (int i)" using "2.prems" by (auto simp: sync_obj_bad_def)
    from destroy_eq [OF "2.prems"(1) this] True
    obtain d' where d': "cam_sync_destroy (int i) d = (0, d')" "sync_table d' = removed i (sync_table d)"
      "work_queue d' = work_queue d" by auto
    have "sync_wf d'" using sync_wf_destroy [OF "2.prems"(1), of "int i"] d'(1) by simp
    then show ?thesis
      using "2.IH"(1) [OF _ d'(1) [symmetric] refl] "2.prems" True d' removed_live [of i "sync_table d"]
      by (auto simp: live_def)
  next
    case False
    then show ?thesis using "2.IH"(2) "2.prems" by (auto simp: live_def)
  qed
qed simp

section \<open>Properties\<close>

text \<open>\<open>cam_sync_create\<close> fails with ENOMEM, changing nothing, exactly when all 1023 ids are in
  use; otherwise it returns an id that was free, whose row is now an active individual fence
  with no members, callbacks or references and whose name is the first 62 characters given,
  and it changes no other row and no other bit.\<close>

theorem sync_create_fresh:
  assumes "sync_wf d"
  shows "case cam_sync_create name d of (rc, obj, d') \<Rightarrow>
     if \<forall>i. 0 < i \<longrightarrow> i < CAM_SYNC_MAX_OBJS \<longrightarrow> live (sync_table d i)
     then rc = - ENOMEM \<and> obj = None \<and> d' = d
     else \<exists>idx. rc = 0 \<and> obj = Some idx \<and> 0 < idx \<and> idx < CAM_SYNC_MAX_OBJS
        \<and> \<not> live (sync_table d idx)
        \<and> sync_table d' = (sync_table d)(idx := zero_row
            \<lparr>row_name := (case name of Some n \<Rightarrow> take 62 n | None \<Rightarrow> []),
             row_sync_id := idx, row_state := CAM_SYNC_STATE_ACTIVE\<rparr>)
        \<and> sync_bitmap d' = (sync_bitmap d)(idx := True) \<and> work_queue d' = work_queue d"
proof (cases rule: create_cases [OF assms, of name])
  case (2 idx)
  have "fresh_row idx name SYNC_TYPE_INDV = zero_row
            \<lparr>row_name := (case name of Some n \<Rightarrow> take 62 n | None \<Rightarrow> []),
             row_sync_id := idx, row_state := CAM_SYNC_STATE_ACTIVE\<rparr>"
    by (simp add: fresh_row_def strlcpy_def zero_row_def cong: option.case_cong)
  then show ?thesis using 2 by auto
qed simp

theorem sync_create_fresh_witness: "fst (cam_sync_create None dev_two) = 0"
proof -
  have "\<not> live (sync_table dev_two 3)" by code_simp
  then have "\<not> (\<forall>i. 0 < i \<longrightarrow> i < CAM_SYNC_MAX_OBJS \<longrightarrow> live (sync_table dev_two i))"
    by (intro notI) (drule spec [of _ 3], simp)
  then show ?thesis
    using sync_create_fresh [OF dev_two_wf, of None] by (simp only: if_False split: prod.splits) auto
qed

text \<open>destroying a live fence returns 0, zeroes its row, frees its id, and leaves no fence that
  names it as a parent, so a later group that reuses the id starts with no members of the old
  one; destroying it again is refused with EINVAL.\<close>

theorem sync_destroy_forgets:
  assumes "sync_wf d" "\<not> sync_obj_bad s" "live (sync_table d (nat s))"
  shows "case cam_sync_destroy s d of (rc, d') \<Rightarrow>
     rc = 0 \<and> sync_table d' (nat s) = zero_row \<and> \<not> sync_bitmap d' (nat s)
     \<and> (\<forall>i. nat s \<notin> set (parents_list (sync_table d' i)))
     \<and> (\<forall>i. i \<noteq> nat s \<longrightarrow> row_state (sync_table d' i) = row_state (sync_table d i)
           \<and> callback_list (sync_table d' i) = callback_list (sync_table d i))
     \<and> cam_sync_destroy s d' = (- EINVAL, d')"
  unfolding destroy_eq [OF assms]
  using destroy_dead [OF assms(2)] by (simp add: removed_def live_def)

theorem sync_destroy_forgets_witness: "3 \<notin> set (parents_list (sync_table (snd (cam_sync_destroy 3 dev_group)) 1))"
proof -
  have "\<not> sync_obj_bad 3" "live (sync_table dev_group (nat 3))" by code_simp+
  from sync_destroy_forgets [OF dev_group_wf this] show ?thesis by (auto split: prod.splits)
qed

text \<open>C30: the lock-free allocation loop ends under interference and gives an id to one CPU only. While
  other CPUs set any bits between its two accesses, as many rounds as there are clear bits plus one are
  enough. After the \<open>k\<close> rounds it made, the bits set are those set before, those the others set in these
  rounds, and the id returned. That id is in range, was clear before, and no other CPU set it in any of the rounds;
  if none is returned, all ids were taken.\<close>

theorem sync_claim_terminates:
  assumes "n_clear bm < fuel"
  shows "\<exists>r bm' k. cam_sync_claim (\<lambda>n bm i. bm i \<or> others n i) fuel bm = Some (r, bm') \<and> k \<le> fuel
     \<and> (\<forall>i. bm' i \<longleftrightarrow> bm i \<or> (\<exists>n. fuel - k \<le> n \<and> n < fuel \<and> others n i) \<or> r = Some i)
     \<and> (case r of
          None \<Rightarrow> \<forall>i < CAM_SYNC_MAX_OBJS. bm' i
        | Some idx \<Rightarrow> idx < CAM_SYNC_MAX_OBJS \<and> \<not> bm idx \<and> (\<forall>n. fuel - k \<le> n \<and> n < fuel \<longrightarrow> \<not> others n idx))"
proof -
  obtain r bm' where r: "cam_sync_claim (\<lambda>n bm i. bm i \<or> others n i) fuel bm = Some (r, bm')"
    using claim_returns [of "\<lambda>n bm i. bm i \<or> others n i", OF _ assms] by fastforce
  then show ?thesis using claim_exact [OF r] by blast
qed

theorem sync_claim_terminates_witness:
  "\<exists>r bm'. cam_sync_claim (\<lambda>n bm i. bm i \<or> n = 1023 \<and> i = 1) 1024 (\<lambda>i. i = 0) = Some (r, bm')"
proof -
  have "{i. i < CAM_SYNC_MAX_OBJS \<and> \<not> i = 0} = {1..<CAM_SYNC_MAX_OBJS}" by auto
  then have "n_clear (\<lambda>i. i = 0) < 1024" by (simp add: n_clear_def)
  then show ?thesis
    using sync_claim_terminates [of "\<lambda>i. i = 0" 1024 "\<lambda>n i. n = 1023 \<and> i = 1"] by blast
qed

text \<open>the CREATE ioctl. When it returns 0, reading the argument structure back from user
  memory gives in \<open>sync_obj\<close> the id of a fence that was free before and is active now, and the
  fence carries the name the caller put there.\<close>

theorem sync_ioctl_create_roundtrip:
  assumes "sync_wf d" "cam_sync_handle_create k um d = (0, um', d')"
    and "copy_from_user um (ioctl_ptr k) sizeof_sync_info = Some bs"
  shows "\<exists>idx bs'. copy_from_user um' (ioctl_ptr k) sizeof_sync_info = Some bs'
     \<and> get_s32 bs' 64 = int idx \<and> \<not> live (sync_table d idx)
     \<and> row_state (sync_table d' idx) = CAM_SYNC_STATE_ACTIVE
     \<and> row_name (sync_table d' idx) = take 62 (get_cstring bs 0)"
proof -
  have f: "fetch_arg sizeof_sync_info k um = Inr bs"
    using assms(2,3) by (auto simp: fetch_arg_def cam_sync_handle_create_def split: if_splits)
  have len: "length bs = 68" using length_copy_from_user [OF assms(3)] .
  show ?thesis
  proof (cases rule: create_cases [OF assms(1), of "Some (get_cstring bs 0)"])
    case 1
    then show ?thesis using assms(2) f by (simp add: cam_sync_handle_create_def)
  next
    case (2 idx)
    let ?bs = "put_u32 bs 64 (of_nat idx)"
    have c: "copy_to_user um (ioctl_ptr k) ?bs = Some um'"
      and d': "d' = (upd_row idx (\<lambda>_. fresh_row idx (Some (get_cstring bs 0)) SYNC_TYPE_INDV) d)
           \<lparr>sync_bitmap := (sync_bitmap d)(idx := True)\<rparr>"
      using assms(2) f 2 by (auto simp: cam_sync_handle_create_def split: option.splits)
    have "copy_from_user um' (ioctl_ptr k) sizeof_sync_info = Some ?bs"
      using copy_to_from_user [OF c] len by simp
    moreover have "get_s32 ?bs 64 = int idx"
      using len 2(2) by (simp add: get_s32_def get_put_u32 sint_small)
    ultimately show ?thesis using 2(3) d' by (auto simp: fresh_row_def strlcpy_def)
  qed
qed

text \<open>A user buffer at address 4096 that holds the words 2 and 3, and an argument that points to it.\<close>

definition um_demo :: user_mem where
  "um_demo = \<lparr>um_byte = (\<lambda>p. Some (if p = 4096 then 2 else if p = 4100 then 3 else 0)),
     um_writable = (\<lambda>_. True)\<rparr>"

definition k_demo :: "u32 \<Rightarrow> cam_private_ioctl_arg" where
  "k_demo sz = \<lparr>ioctl_id = 0, ioctl_size = sz, ioctl_result = 0, ioctl_reserved = 0, ioctl_ptr = 4096\<rparr>"

lemma those_total: "(\<And>x. x \<in> set xs \<Longrightarrow> f x \<noteq> None) \<Longrightarrow> \<exists>ys. those (map f xs) = Some ys"
proof (induction xs)
  case (Cons x xs)
  obtain y where "f x = Some y" using Cons.prems [of x] by auto
  then show ?case using Cons by auto
qed simp

lemma um_demo_copy: "\<exists>bs. copy_from_user um_demo p n = Some bs"
  unfolding copy_from_user_def by (rule those_total) (simp add: um_demo_def)

theorem sync_ioctl_create_roundtrip_witness:
  "\<exists>idx bs'. copy_from_user (fst (snd (cam_sync_handle_create (k_demo 68) um_demo dev_two))) 4096 68 = Some bs'
     \<and> get_s32 bs' 64 = int idx \<and> \<not> live (sync_table dev_two idx)"
proof -
  let ?h = "cam_sync_handle_create (k_demo 68) um_demo dev_two"
  have "fst ?h = 0" by code_simp
  then have h: "?h = (0, fst (snd ?h), snd (snd ?h))" by (metis prod.collapse)
  show ?thesis
    using sync_ioctl_create_roundtrip [OF dev_two_wf h] um_demo_copy [of 4096 68] by (auto simp: k_demo_def)
qed

text \<open>the SIGNAL ioctl. Although \<open>cam_sync_signal\<close> only acts when the last reference goes, the
  ioctl takes the missing reference first: on an active individual fence with no reference it
  returns 0 and the fence has the status the caller asked for.\<close>

theorem sync_ioctl_signal_effective:
  assumes "sync_wf d" "fetch_arg sizeof_sync_signal k um = Inr bs"
    and "\<not> sync_obj_bad (get_s32 bs 0)" "is_signal (get_u32 bs 4)"
    and "row_state (sync_table d (nat (get_s32 bs 0))) = CAM_SYNC_STATE_ACTIVE"
      "row_type (sync_table d (nat (get_s32 bs 0))) = SYNC_TYPE_INDV"
      "ref_cnt (sync_table d (nat (get_s32 bs 0))) = 0"
  shows "case cam_sync_handle_signal k um d of (rc, d') \<Rightarrow>
     rc = 0 \<and> row_state (sync_table d' (nat (get_s32 bs 0))) = get_u32 bs 4
     \<and> signaled (sync_table d' (nat (get_s32 bs 0)))"
proof -
  let ?s = "get_s32 bs 0"
  let ?d = "upd_row (nat ?s) (\<lambda>r. r\<lparr>ref_cnt := ref_cnt r + 1\<rparr>) d"
  have g: "cam_sync_get_obj_ref ?s d = (0, ?d)" using assms by (simp add: cam_sync_get_obj_ref_def)
  have wf: "sync_wf ?d" using assms(1) by (rule sync_wf_ref)
  have r: "ready ?d ?s" using assms by (simp add: ready_def)
  obtain d' where
    "cam_sync_signal ?s (get_u32 bs 4) ?d = (0, d')"
    "sync_table d' (nat ?s) = signal_row (cam_sync_eventq ?d \<noteq> 0) (get_u32 bs 4) (sync_table ?d (nat ?s))"
    by (rule signal_closed [OF wf r assms(4)]) simp
  then show ?thesis using g assms(2) by (simp add: cam_sync_handle_signal_def)
qed

definition dev_fresh :: sync_device where
  "dev_fresh = snd (snd (cam_sync_create None (snd (snd (cam_sync_create None cam_sync_probe_state)))))"

theorem sync_ioctl_signal_effective_witness:
  "fst (cam_sync_handle_signal (k_demo 8) um_demo dev_fresh) = 0"
proof -
  have wf: "sync_wf dev_fresh" by (simp add: dev_fresh_def sync_wf_create sync_wf_probe)
  have f: "fetch_arg 8 (k_demo 8) um_demo = Inr [2, 0, 0, 0, 3, 0, 0, 0]" by code_simp
  have "\<not> sync_obj_bad (get_s32 [2, 0, 0, 0, 3, 0, 0, 0] 0)" "is_signal (get_u32 [2, 0, 0, 0, 3, 0, 0, 0] 4)"
    "row_state (sync_table dev_fresh (nat (get_s32 [2, 0, 0, 0, 3, 0, 0, 0] 0))) = CAM_SYNC_STATE_ACTIVE"
    "row_type (sync_table dev_fresh (nat (get_s32 [2, 0, 0, 0, 3, 0, 0, 0] 0))) = SYNC_TYPE_INDV"
    "ref_cnt (sync_table dev_fresh (nat (get_s32 [2, 0, 0, 0, 3, 0, 0, 0] 0))) = 0"
    by code_simp+
  from sync_ioctl_signal_effective [OF wf f this] show ?thesis by (auto split: prod.splits)
qed

text \<open>closing the last handle of the device leaves no fence alive, every queued callback has
  been run and the event queue is detached.\<close>

theorem sync_close_empties:
  assumes "sync_wf d" "open_cnt d = 1" "cam_sync_close (Some d) = (rc, dev)"
  shows "\<exists>d'. dev = Some d' \<and> (\<forall>i. \<not> live (sync_table d' i)) \<and> work_queue d' = []
     \<and> cam_sync_eventq d' = 0"
proof -
  let ?d0 = "d\<lparr>open_cnt := 0\<rparr>"
  define js where "js = [1..<CAM_SYNC_MAX_OBJS]"
  have js: "set js = {1..<CAM_SYNC_MAX_OBJS}" by (simp add: js_def)
  obtain rc1 d1 where s: "close_signal_loop js 0 ?d0 = (rc1, d1)" by fastforce
  obtain rc2 d2 where t: "close_destroy_loop js rc1 (flush_workqueue d1) = (rc2, d2)" by fastforce
  have wf1: "sync_wf (flush_workqueue d1)"
    using sync_wf_close_signal [of ?d0 js 0] s assms(1) by (simp add: sync_wf_flush)
  have dev: "dev = Some (d2\<lparr>cam_sync_eventq := 0\<rparr>)"
    using assms(2,3) s t unfolding cam_sync_close_def js_def [symmetric] by simp
  have a: "(\<forall>i. live (sync_table d2 i) \<longrightarrow> live (sync_table (flush_workqueue d1) i) \<and> i \<notin> set js)
     \<and> work_queue d2 = work_queue (flush_workqueue d1)"
    using close_destroy_all [OF wf1, of js rc1] t js by simp
  have "live (sync_table (flush_workqueue d1) i) \<Longrightarrow> i \<in> set js" for i
    using wf1 by (auto simp: sync_wf_def table_inv_def bits_ok_def js)
  then have "\<forall>i. \<not> live (sync_table d2 i)" using a by blast
  moreover have "work_queue d2 = []" using a by (simp add: flush_eq)
  ultimately show ?thesis using dev by simp
qed

theorem sync_close_empties_witness:
  "\<exists>d'. snd (cam_sync_close (Some (dev_group\<lparr>open_cnt := 1\<rparr>))) = Some d'
     \<and> (\<forall>i. \<not> live (sync_table d' i))"
proof -
  have "sync_wf (dev_group\<lparr>open_cnt := 1\<rparr>)" using dev_group_wf by simp
  from sync_close_empties [OF this _ prod.collapse [symmetric]] show ?thesis by auto
qed

text \<open>destroying a fence that is still an active member of a group strands the group: its
  counter is not adjusted, so no sequence of signals ever completes it and its callbacks are
  never dispatched.\<close>

theorem sync_destroy_strands_group:
  assumes "sync_wf d" "\<not> sync_obj_bad m" "g \<in> set (parents_list (sync_table d (nat m)))"
  shows "\<not> signaled (sync_table (signal_all sts (snd (cam_sync_destroy m d))) g)"
proof -
  let ?T = "sync_table d" let ?d = "snd (cam_sync_destroy m d)"
  note inv = assms(1) [unfolded sync_wf_def]
  note p = parents_live [OF inv assms(3)]
  have d': "sync_table ?d = removed (nat m) ?T" using destroy_eq [OF assms(1,2)] p(6) by simp
  have wf: "sync_wf ?d" using assms(1) by (rule sync_wf_destroy)
  have "members (removed (nat m) ?T) g \<subseteq> members ?T g - {nat m}"
    by (auto simp: members_def removed_def split: if_splits)
  then have "card (members (removed (nat m) ?T) g) \<le> card (members ?T g - {nat m})"
    by (simp add: card_mono)
  moreover have "nat m \<in> members ?T g" using assms(3) p by (simp add: members_def)
  ultimately have "card (members (removed (nat m) ?T) g) < card (members ?T g)"
    by (metis card_Diff1_less le_less_trans members_finite)
  also have "\<dots> \<le> unat (remaining (?T g))"
    using table_invD(3) [OF inv] p(3,4) by (auto simp: count_ok_def)
  finally have "stranded ?d g"
    using p(3,4,11) by (simp add: stranded_def d' removed_live) (simp add: removed_def)
  then show ?thesis using stranded_signal_all [OF wf] stranded_not_signaled by blast
qed

theorem sync_destroy_strands_group_witness:
  "\<not> signaled (sync_table (signal_all [(2, CAM_SYNC_STATE_SIGNALED_SUCCESS)]
       (snd (cam_sync_destroy 1 dev_group))) 3)"
proof -
  have "\<not> sync_obj_bad 1" "3 \<in> set (parents_list (sync_table dev_group (nat 1)))" by code_simp+
  then show ?thesis by (rule sync_destroy_strands_group [OF dev_group_wf])
qed

end
