(* ===== verification/Cam_Hdl.thy ===== *)
theory Cam_Hdl
  imports Cam_Prelude
begin

text \<open>
  The handle table of the request manager, \<open>cam_req_mgr/cam_req_mgr_util.c\<close>: 128 rows, a
  bitmap of the rows in use, and 32-bit handles that pack a random byte, a type and the row
  index. \<open>hdl_tbl\<close> is the global pointer, \<open>None\<close> before \<open>cam_req_mgr_util_init\<close>; the spinlock is
  not represented. A handle is an \<open>int32_t\<close> in the code and an \<open>int\<close> here; its bits are taken
  with \<open>of_int\<close>. The random byte of \<open>get_random_bytes\<close> is an argument.
\<close>

section \<open>Data\<close>

abbreviation CAM_REQ_MGR_MAX_HANDLES_V2 :: nat where "CAM_REQ_MGR_MAX_HANDLES_V2 \<equiv> 128"

datatype hdl_state = HDL_FREE | HDL_ACTIVE

abbreviation HDL_TYPE_DEV :: u32 where "HDL_TYPE_DEV \<equiv> 1"
abbreviation HDL_TYPE_SESSION :: u32 where "HDL_TYPE_SESSION \<equiv> 2"

abbreviation CAM_CRM :: u64 where "CAM_CRM \<equiv> 16"

record handle =
  session_hdl :: int
  hdl_value :: u32
  hdl_type :: u32
  hdl_state :: hdl_state
  dev_id :: u64
  hdl_ops :: ptr
  hdl_priv :: ptr

record cam_req_mgr_util_hdl_tbl =
  hdl :: "nat \<Rightarrow> handle"
  hdl_bitmap :: bitmap
  hdl_bits :: nat

record cam_create_dev_hdl =
  cd_session_hdl :: int
  cd_dev_id :: u64
  cd_ops :: ptr
  cd_priv :: ptr

type_synonym hdl_global = "cam_req_mgr_util_hdl_tbl option"

definition zero_handle :: handle where
  "zero_handle = \<lparr>session_hdl = 0, hdl_value = 0, hdl_type = 0, hdl_state = HDL_FREE,
     dev_id = 0, hdl_ops = 0, hdl_priv = 0\<rparr>"

definition GET_DEV_HANDLE :: "u32 \<Rightarrow> u32 \<Rightarrow> u32 \<Rightarrow> u32" where
  "GET_DEV_HANDLE rnd1 type idx = push_bit 16 rnd1 OR push_bit 12 0 OR push_bit 8 type OR idx"

definition CAM_REQ_MGR_GET_HDL_IDX :: "u32 \<Rightarrow> nat" where
  "CAM_REQ_MGR_GET_HDL_IDX h = unat (h AND 0xFF)"

definition CAM_REQ_MGR_GET_HDL_TYPE :: "u32 \<Rightarrow> u32" where
  "CAM_REQ_MGR_GET_HDL_TYPE h = drop_bit 8 h AND 0xF"

section \<open>Operations\<close>

text \<open>
  \<open>kz\<close> are the two allocations; \<open>other\<close> is the table another caller installed between the first
  check and the lock, if any.
\<close>

definition cam_req_mgr_util_init :: "(nat \<Rightarrow> bool) \<Rightarrow> hdl_global \<Rightarrow> hdl_global \<Rightarrow> rc \<times> hdl_global" where
  "cam_req_mgr_util_init kz other tbl =
     (if tbl \<noteq> None then (- EINVAL, tbl)
      else if \<not> kz 0 then (- ENOMEM, other)
      else if other \<noteq> None then (- EEXIST, other)
      else if \<not> kz 1 then (- ENOMEM, None)
      else (0, Some \<lparr>hdl = (\<lambda>_. zero_handle), hdl_bitmap = (\<lambda>_. False), hdl_bits = 128\<rparr>))"

definition cam_req_mgr_util_deinit :: "hdl_global \<Rightarrow> rc \<times> hdl_global" where
  "cam_req_mgr_util_deinit tbl = (case tbl of None \<Rightarrow> (- EINVAL, None) | Some t \<Rightarrow> (0, None))"

text \<open>The loop of \<open>cam_req_mgr_util_free_hdls\<close> over the rows \<open>i, i+1, ..\<close>.\<close>

definition free_one :: "nat \<Rightarrow> cam_req_mgr_util_hdl_tbl \<Rightarrow> cam_req_mgr_util_hdl_tbl" where
  "free_one i t =
     (if hdl_state (hdl t i) = HDL_ACTIVE
      then t\<lparr>hdl := (hdl t)(i := (hdl t i)\<lparr>hdl_state := HDL_FREE\<rparr>),
             hdl_bitmap := (hdl_bitmap t)(i := False)\<rparr>
      else t)"

definition cam_req_mgr_util_free_hdls :: "hdl_global \<Rightarrow> rc \<times> hdl_global" where
  "cam_req_mgr_util_free_hdls tbl =
     (case tbl of
        None \<Rightarrow> (- EINVAL, None)
      | Some t \<Rightarrow>
          (let t1 = fold free_one [0..<CAM_REQ_MGR_MAX_HANDLES_V2] t
           in (0, Some (t1\<lparr>hdl_bitmap :=
                 (\<lambda>i. if i < CAM_REQ_MGR_MAX_HANDLES_V2 then False else hdl_bitmap t1 i)\<rparr>))))"

definition cam_get_free_handle_index ::
    "cam_req_mgr_util_hdl_tbl \<Rightarrow> nat option \<times> cam_req_mgr_util_hdl_tbl" where
  "cam_get_free_handle_index t =
     (let idx = find_first_zero_bit (hdl_bitmap t) (hdl_bits t) in
      if CAM_REQ_MGR_MAX_HANDLES_V2 \<le> idx then (None, t)
      else (Some idx, t\<lparr>hdl_bitmap := (hdl_bitmap t)(idx := True)\<rparr>))"

definition cam_create_session_hdl :: "u8 \<Rightarrow> ptr \<Rightarrow> hdl_global \<Rightarrow> int \<times> hdl_global" where
  "cam_create_session_hdl rnd priv tbl =
     (case tbl of
        None \<Rightarrow> (- EINVAL, None)
      | Some t \<Rightarrow>
          (case cam_get_free_handle_index t of
             (None, t1) \<Rightarrow> (- ENOSR, Some t1)
           | (Some idx, t1) \<Rightarrow>
               (let handle = GET_DEV_HANDLE (ucast rnd) HDL_TYPE_SESSION (of_nat idx)
                in (sint handle,
                    Some (t1\<lparr>hdl := (hdl t1)(idx :=
                      \<lparr>session_hdl = sint handle, hdl_value = handle, hdl_type = HDL_TYPE_SESSION,
                       hdl_state = HDL_ACTIVE, dev_id = CAM_CRM, hdl_ops = 0, hdl_priv = priv\<rparr>)\<rparr>)))))"

definition cam_create_device_hdl :: "u8 \<Rightarrow> cam_create_dev_hdl \<Rightarrow> hdl_global \<Rightarrow> int \<times> hdl_global" where
  "cam_create_device_hdl rnd hdl_data tbl =
     (case tbl of
        None \<Rightarrow> (- EINVAL, None)
      | Some t \<Rightarrow>
          (case cam_get_free_handle_index t of
             (None, t1) \<Rightarrow> (- ENOSR, Some t1)
           | (Some idx, t1) \<Rightarrow>
               (let handle = GET_DEV_HANDLE (ucast rnd) HDL_TYPE_DEV (of_nat idx)
                in (sint handle,
                    Some (t1\<lparr>hdl := (hdl t1)(idx :=
                      \<lparr>session_hdl = cd_session_hdl hdl_data, hdl_value = handle,
                       hdl_type = HDL_TYPE_DEV, hdl_state = HDL_ACTIVE, dev_id = cd_dev_id hdl_data,
                       hdl_ops = cd_ops hdl_data, hdl_priv = cd_priv hdl_data\<rparr>)\<rparr>)))))"

definition cam_get_device_priv :: "int \<Rightarrow> hdl_global \<Rightarrow> ptr" where
  "cam_get_device_priv dev_hdl tbl =
     (case tbl of
        None \<Rightarrow> 0
      | Some t \<Rightarrow>
          (let w = of_int dev_hdl; idx = CAM_REQ_MGR_GET_HDL_IDX w; type = CAM_REQ_MGR_GET_HDL_TYPE w in
           if CAM_REQ_MGR_MAX_HANDLES_V2 \<le> idx then 0
           else if hdl_state (hdl t idx) \<noteq> HDL_ACTIVE then 0
           else if HDL_TYPE_DEV \<noteq> type \<and> HDL_TYPE_SESSION \<noteq> type then 0
           else if hdl_value (hdl t idx) \<noteq> w then 0
           else hdl_priv (hdl t idx)))"

definition cam_get_device_ops :: "int \<Rightarrow> hdl_global \<Rightarrow> ptr" where
  "cam_get_device_ops dev_hdl tbl =
     (case tbl of
        None \<Rightarrow> 0
      | Some t \<Rightarrow>
          (let w = of_int dev_hdl; idx = CAM_REQ_MGR_GET_HDL_IDX w; type = CAM_REQ_MGR_GET_HDL_TYPE w in
           if CAM_REQ_MGR_MAX_HANDLES_V2 \<le> idx then 0
           else if hdl_state (hdl t idx) \<noteq> HDL_ACTIVE then 0
           else if HDL_TYPE_DEV \<noteq> type \<and> HDL_TYPE_SESSION \<noteq> type then 0
           else if hdl_value (hdl t idx) \<noteq> w then 0
           else hdl_ops (hdl t idx)))"

definition cam_destroy_hdl :: "int \<Rightarrow> u32 \<Rightarrow> hdl_global \<Rightarrow> rc \<times> hdl_global" where
  "cam_destroy_hdl dev_hdl dev_hdl_type tbl =
     (case tbl of
        None \<Rightarrow> (- EINVAL, None)
      | Some t \<Rightarrow>
          (let w = of_int dev_hdl; idx = CAM_REQ_MGR_GET_HDL_IDX w; type = CAM_REQ_MGR_GET_HDL_TYPE w in
           if CAM_REQ_MGR_MAX_HANDLES_V2 \<le> idx then (- EINVAL, tbl)
           else if hdl_state (hdl t idx) \<noteq> HDL_ACTIVE then (- EINVAL, tbl)
           else if type \<noteq> dev_hdl_type then (- EINVAL, tbl)
           else if hdl_value (hdl t idx) \<noteq> w then (- EINVAL, tbl)
           else (0, Some (t
             \<lparr>hdl := (hdl t)(idx := (hdl t idx)\<lparr>hdl_state := HDL_FREE, hdl_ops := 0, hdl_priv := 0\<rparr>),
              hdl_bitmap := (hdl_bitmap t)(idx := False)\<rparr>))))"

definition cam_destroy_device_hdl :: "int \<Rightarrow> hdl_global \<Rightarrow> rc \<times> hdl_global" where
  "cam_destroy_device_hdl dev_hdl = cam_destroy_hdl dev_hdl HDL_TYPE_DEV"

definition cam_destroy_session_hdl :: "int \<Rightarrow> hdl_global \<Rightarrow> rc \<times> hdl_global" where
  "cam_destroy_session_hdl dev_hdl = cam_destroy_hdl dev_hdl HDL_TYPE_SESSION"

section \<open>The handle format\<close>

lemma and_0xFF: "(w :: u32) AND 0xFF = take_bit 8 w"
  by (simp add: take_bit_eq_mask mask_eq_exp_minus_1)

lemma and_0xF: "(w :: u32) AND 0xF = take_bit 4 w"
  by (simp add: take_bit_eq_mask mask_eq_exp_minus_1)

lemma take_bit_small: "idx < 256 \<Longrightarrow> take_bit 8 (of_nat idx :: u32) = of_nat idx"
  by (simp add: take_bit_nat_eq_self flip: of_nat_take_bit)

lemma handle_idx:
  assumes "idx < 256"
  shows "CAM_REQ_MGR_GET_HDL_IDX (GET_DEV_HANDLE rnd1 type (of_nat idx)) = idx"
  using assms take_bit_small [OF assms]
  by (simp add: CAM_REQ_MGR_GET_HDL_IDX_def GET_DEV_HANDLE_def and_0xFF take_bit_push_bit unat_of_nat)

lemma handle_type:
  assumes "idx < 256" "type = HDL_TYPE_DEV \<or> type = HDL_TYPE_SESSION"
  shows "CAM_REQ_MGR_GET_HDL_TYPE (GET_DEV_HANDLE (ucast (rnd :: u8)) type (of_nat idx)) = type"
proof -
  have "drop_bit 8 (take_bit 8 (of_nat idx :: u32)) = 0" by (simp add: drop_bit_take_bit)
  then have "drop_bit 8 (of_nat idx :: u32) = 0" by (simp only: take_bit_small [OF assms(1)])
  moreover have "take_bit 4 type = type"
    using assms(2) by auto
  moreover have "take_bit 4 (drop_bit 8 (push_bit 16 x)) = 0" for x :: u32
    by (rule bit_word_eqI) (auto simp: bit_simps)
  moreover have "take_bit 4 (drop_bit 8 (push_bit 8 x)) = take_bit 4 x" for x :: u32
    by (rule bit_word_eqI) (auto simp: bit_simps)
  ultimately show ?thesis
    by (simp add: CAM_REQ_MGR_GET_HDL_TYPE_def GET_DEV_HANDLE_def and_0xF)
qed


text \<open>Handles are positive as \<open>int32_t\<close>, so they never look like an error code.\<close>

lemma handle_pos:
  assumes "idx < 256" "type = HDL_TYPE_DEV \<or> type = HDL_TYPE_SESSION"
  shows "0 < sint (GET_DEV_HANDLE (ucast (rnd :: u8)) type (of_nat idx))"
proof -
  let ?h = "GET_DEV_HANDLE (ucast rnd) type (of_nat idx)"
  have "take_bit 24 ?h = ?h"
  proof -
    have "take_bit 24 (of_nat idx :: u32) = of_nat idx"
      using assms(1) by (simp add: take_bit_nat_eq_self flip: of_nat_take_bit)
    moreover have "take_bit 24 (push_bit 16 (ucast rnd :: u32)) = push_bit 16 (ucast rnd)"
      by (simp add: take_bit_push_bit)
        (rule bit_word_eqI, simp add: bit_take_bit_iff bit_simps, auto dest: bit_imp_le_length)
    moreover have "take_bit 24 (push_bit 8 type) = push_bit 8 type" using assms(2) by auto
    ultimately show ?thesis by (simp add: GET_DEV_HANDLE_def)
  qed
  then have lt: "uint ?h < 2 ^ 24" by (metis take_bit_int_less_exp unsigned_take_bit_eq)
  have "- (2 ^ 31) \<le> uint ?h" by (rule order_trans [of _ 0]) simp_all
  then have "sint ?h = uint ?h" using lt by (simp add: sint_uint signed_take_bit_int_eq_self)
  moreover have "?h \<noteq> 0"
  proof
    assume "?h = 0"
    then have "CAM_REQ_MGR_GET_HDL_TYPE 0 = type" using handle_type [OF assms, of rnd] by simp
    then show False using assms(2) by (auto simp: CAM_REQ_MGR_GET_HDL_TYPE_def)
  qed
  ultimately show ?thesis by (metis uint_0_iff uint_ge_0 order_le_imp_less_or_eq)
qed

section \<open>Invariant\<close>

text \<open>
  A bit is set exactly for an active row, and an active row holds a handle of its own index
  and type.
\<close>

definition row_good :: "nat \<Rightarrow> handle \<Rightarrow> bool" where
  "row_good i r \<longleftrightarrow> hdl_state r = HDL_ACTIVE \<longrightarrow>
     i < CAM_REQ_MGR_MAX_HANDLES_V2 \<and> CAM_REQ_MGR_GET_HDL_IDX (hdl_value r) = i
     \<and> CAM_REQ_MGR_GET_HDL_TYPE (hdl_value r) = hdl_type r
     \<and> (hdl_type r = HDL_TYPE_DEV \<or> hdl_type r = HDL_TYPE_SESSION) \<and> 0 < sint (hdl_value r)"

definition hdl_ok :: "cam_req_mgr_util_hdl_tbl \<Rightarrow> bool" where
  "hdl_ok t \<longleftrightarrow> hdl_bits t = 128
     \<and> (\<forall>i < CAM_REQ_MGR_MAX_HANDLES_V2. hdl_bitmap t i \<longleftrightarrow> hdl_state (hdl t i) = HDL_ACTIVE)
     \<and> (\<forall>i. row_good i (hdl t i))"

definition hdl_wf :: "hdl_global \<Rightarrow> bool" where
  "hdl_wf tbl \<longleftrightarrow> (\<forall>t. tbl = Some t \<longrightarrow> hdl_ok t)"

lemma hdl_wf_None [simp]: "hdl_wf None"
  by (simp add: hdl_wf_def)

lemma free_index_cases:
  assumes "hdl_bits t = 128"
  obtains (full) "cam_get_free_handle_index t = (None, t)" "\<forall>i < CAM_REQ_MGR_MAX_HANDLES_V2. hdl_bitmap t i"
  | (free) idx where "idx < CAM_REQ_MGR_MAX_HANDLES_V2" "\<not> hdl_bitmap t idx"
      "cam_get_free_handle_index t = (Some idx, t\<lparr>hdl_bitmap := (hdl_bitmap t)(idx := True)\<rparr>)"
proof (cases "CAM_REQ_MGR_MAX_HANDLES_V2 \<le> find_first_zero_bit (hdl_bitmap t) CAM_REQ_MGR_MAX_HANDLES_V2")
  case True
  have "cam_get_free_handle_index t = (None, t)"
    using True assms by (simp add: cam_get_free_handle_index_def)
  then show thesis using full True by (simp only: ffz_full_iff)
next
  case False
  have "cam_get_free_handle_index t =
      (Some (find_first_zero_bit (hdl_bitmap t) CAM_REQ_MGR_MAX_HANDLES_V2),
       t\<lparr>hdl_bitmap := (hdl_bitmap t)(find_first_zero_bit (hdl_bitmap t) CAM_REQ_MGR_MAX_HANDLES_V2 := True)\<rparr>)"
    using False assms by (simp add: cam_get_free_handle_index_def Let_def)
  then show thesis
    using free False ffz_free [of "hdl_bitmap t" CAM_REQ_MGR_MAX_HANDLES_V2] by simp
qed

definition clear_hdl_bit :: "nat \<Rightarrow> cam_req_mgr_util_hdl_tbl \<Rightarrow> cam_req_mgr_util_hdl_tbl" where
  "clear_hdl_bit i t = t\<lparr>hdl_bitmap := (hdl_bitmap t)(i := False)\<rparr>"

interpretation hdl_slots: slot_allocator
  "\<lambda>t i. hdl_bitmap t i" cam_get_free_handle_index clear_hdl_bit 0 CAM_REQ_MGR_MAX_HANDLES_V2
  "\<lambda>t. hdl_bits t = 128"
proof unfold_locales
  fix s s' :: cam_req_mgr_util_hdl_tbl and i :: nat
  assume b: "hdl_bits s = 128"
  { assume "cam_get_free_handle_index s = (Some i, s')"
    then show "0 \<le> i \<and> i < CAM_REQ_MGR_MAX_HANDLES_V2 \<and> \<not> hdl_bitmap s i"
      and "hdl_bitmap s' = (hdl_bitmap s)(i := True)"
      by (cases rule: free_index_cases [OF b]; auto)+ }
  { assume "cam_get_free_handle_index s = (None, s')"
    then show "(\<forall>i. 0 \<le> i \<and> i < CAM_REQ_MGR_MAX_HANDLES_V2 \<longrightarrow> hdl_bitmap s i) \<and> hdl_bitmap s' = hdl_bitmap s"
      by (cases rule: free_index_cases [OF b]) auto }
  show "hdl_bits (snd (cam_get_free_handle_index s)) = 128"
    using b by (cases rule: free_index_cases [OF b]) auto
  show "hdl_bitmap (clear_hdl_bit i s) = (hdl_bitmap s)(i := False)"
    and "hdl_bits (clear_hdl_bit i s) = 128" using b by (simp_all add: clear_hdl_bit_def)
qed

lemma hdl_ok_new_row:
  assumes "hdl_ok t" "idx < CAM_REQ_MGR_MAX_HANDLES_V2" "hdl_state r = HDL_ACTIVE" "row_good idx r"
  shows "hdl_ok (t\<lparr>hdl_bitmap := (hdl_bitmap t)(idx := True), hdl := (hdl t)(idx := r)\<rparr>)"
  using assms by (auto simp: hdl_ok_def)

lemma row_good_new:
  assumes "idx < CAM_REQ_MGR_MAX_HANDLES_V2" "type = HDL_TYPE_DEV \<or> type = HDL_TYPE_SESSION"
    and "hdl_value r = GET_DEV_HANDLE (ucast (rnd :: u8)) type (of_nat idx)" "hdl_type r = type"
  shows "row_good idx r"
  using assms handle_idx [of idx] handle_type [of idx type rnd] handle_pos [of idx type rnd]
  by (simp add: row_good_def)

text \<open>What the two create functions do on a well-formed table, in one lemma.\<close>

definition new_device_row :: "u8 \<Rightarrow> cam_create_dev_hdl \<Rightarrow> nat \<Rightarrow> handle" where
  "new_device_row rnd hdat idx =
     \<lparr>session_hdl = cd_session_hdl hdat, hdl_value = GET_DEV_HANDLE (ucast rnd) HDL_TYPE_DEV (of_nat idx),
      hdl_type = HDL_TYPE_DEV, hdl_state = HDL_ACTIVE, dev_id = cd_dev_id hdat,
      hdl_ops = cd_ops hdat, hdl_priv = cd_priv hdat\<rparr>"

definition new_session_row :: "u8 \<Rightarrow> ptr \<Rightarrow> nat \<Rightarrow> handle" where
  "new_session_row rnd priv idx = (let h = GET_DEV_HANDLE (ucast rnd) HDL_TYPE_SESSION (of_nat idx) in
     \<lparr>session_hdl = sint h, hdl_value = h, hdl_type = HDL_TYPE_SESSION,
      hdl_state = HDL_ACTIVE, dev_id = CAM_CRM, hdl_ops = 0, hdl_priv = priv\<rparr>)"

definition installed :: "nat \<Rightarrow> handle \<Rightarrow> cam_req_mgr_util_hdl_tbl \<Rightarrow> cam_req_mgr_util_hdl_tbl" where
  "installed idx r t = t\<lparr>hdl_bitmap := (hdl_bitmap t)(idx := True), hdl := (hdl t)(idx := r)\<rparr>"

lemma row_good_new_rows:
  assumes "idx < CAM_REQ_MGR_MAX_HANDLES_V2"
  shows "row_good idx (new_device_row rnd hdat idx)" "row_good idx (new_session_row rnd priv idx)"
proof -
  show "row_good idx (new_device_row rnd hdat idx)"
    by (rule row_good_new [OF assms, of HDL_TYPE_DEV _ rnd]) (simp_all add: new_device_row_def)
  show "row_good idx (new_session_row rnd priv idx)"
    by (rule row_good_new [OF assms, of HDL_TYPE_SESSION _ rnd]) (simp_all add: new_session_row_def Let_def)
qed

lemma create_device_cases:
  assumes "hdl_ok t"
  obtains (full) "cam_create_device_hdl rnd hdat (Some t) = (- ENOSR, Some t)"
      "\<forall>i < CAM_REQ_MGR_MAX_HANDLES_V2. hdl_state (hdl t i) = HDL_ACTIVE"
  | (free) idx where "idx < CAM_REQ_MGR_MAX_HANDLES_V2" "hdl_state (hdl t idx) = HDL_FREE"
      "cam_create_device_hdl rnd hdat (Some t) =
         (sint (hdl_value (new_device_row rnd hdat idx)), Some (installed idx (new_device_row rnd hdat idx) t))"
proof -
  have b: "hdl_bits t = 128" using assms by (simp add: hdl_ok_def)
  show thesis
  proof (cases rule: free_index_cases [OF b])
    case 1
    then show thesis using full assms by (simp add: cam_create_device_hdl_def hdl_ok_def)
  next
    case (2 idx)
    have "hdl_state (hdl t idx) \<noteq> HDL_ACTIVE" using 2 assms by (simp add: hdl_ok_def)
    then have "hdl_state (hdl t idx) = HDL_FREE" by (cases "hdl_state (hdl t idx)") auto
    then show thesis
      using free [OF 2(1)] 2 by (simp add: cam_create_device_hdl_def Let_def new_device_row_def installed_def)
  qed
qed

lemma create_session_cases:
  assumes "hdl_ok t"
  obtains (full) "cam_create_session_hdl rnd priv (Some t) = (- ENOSR, Some t)"
      "\<forall>i < CAM_REQ_MGR_MAX_HANDLES_V2. hdl_state (hdl t i) = HDL_ACTIVE"
  | (free) idx where "idx < CAM_REQ_MGR_MAX_HANDLES_V2" "hdl_state (hdl t idx) = HDL_FREE"
      "cam_create_session_hdl rnd priv (Some t) =
         (sint (hdl_value (new_session_row rnd priv idx)), Some (installed idx (new_session_row rnd priv idx) t))"
proof -
  have b: "hdl_bits t = 128" using assms by (simp add: hdl_ok_def)
  show thesis
  proof (cases rule: free_index_cases [OF b])
    case 1
    then show thesis using full assms by (simp add: cam_create_session_hdl_def hdl_ok_def)
  next
    case (2 idx)
    have "hdl_state (hdl t idx) \<noteq> HDL_ACTIVE" using 2 assms by (simp add: hdl_ok_def)
    then have "hdl_state (hdl t idx) = HDL_FREE" by (cases "hdl_state (hdl t idx)") auto
    then show thesis
      using free [OF 2(1)] 2 by (simp add: cam_create_session_hdl_def Let_def new_session_row_def installed_def)
  qed
qed

lemma hdl_ok_installed:
  assumes "hdl_ok t" "idx < CAM_REQ_MGR_MAX_HANDLES_V2"
  shows "hdl_ok (installed idx (new_device_row rnd hdat idx) t)"
    "hdl_ok (installed idx (new_session_row rnd priv idx) t)"
  using assms row_good_new_rows [OF assms(2)]
  by (auto simp: hdl_ok_def installed_def new_device_row_def new_session_row_def Let_def)

lemma hdl_wf_create_device:
  assumes "hdl_wf tbl" shows "hdl_wf (snd (cam_create_device_hdl rnd hdat tbl))"
proof (cases tbl)
  case (Some t)
  then have ok: "hdl_ok t" using assms by (simp add: hdl_wf_def)
  show ?thesis
    by (cases rule: create_device_cases [OF ok, of rnd hdat])
      (use ok Some hdl_ok_installed(1) [OF ok] in \<open>auto simp: hdl_wf_def\<close>)
qed (simp add: cam_create_device_hdl_def hdl_wf_def)

lemma hdl_wf_create_session:
  assumes "hdl_wf tbl" shows "hdl_wf (snd (cam_create_session_hdl rnd priv tbl))"
proof (cases tbl)
  case (Some t)
  then have ok: "hdl_ok t" using assms by (simp add: hdl_wf_def)
  show ?thesis
    by (cases rule: create_session_cases [OF ok, of rnd priv])
      (use ok Some hdl_ok_installed(2) [OF ok] in \<open>auto simp: hdl_wf_def\<close>)
qed (simp add: cam_create_session_hdl_def hdl_wf_def)

lemma hdl_wf_destroy: "hdl_wf tbl \<Longrightarrow> hdl_wf (snd (cam_destroy_hdl h ty tbl))"
  by (cases tbl) (auto simp: cam_destroy_hdl_def hdl_wf_def hdl_ok_def Let_def row_good_def)

lemma fold_free:
  "fold free_one is t =
     t\<lparr>hdl := (\<lambda>i. if i \<in> set is \<and> hdl_state (hdl t i) = HDL_ACTIVE
                   then (hdl t i)\<lparr>hdl_state := HDL_FREE\<rparr> else hdl t i),
       hdl_bitmap := (\<lambda>i. if i \<in> set is \<and> hdl_state (hdl t i) = HDL_ACTIVE then False
                          else hdl_bitmap t i)\<rparr>"
proof (induction "is" arbitrary: t)
  case (Cons i "is")
  show ?case
    unfolding fold_simps Cons.IH
    by (rule cam_req_mgr_util_hdl_tbl.equality) (auto simp: free_one_def fun_eq_iff)
qed simp

lemma free_hdls_eq:
  "\<exists>t'. cam_req_mgr_util_free_hdls (Some t) = (0, Some t')
     \<and> hdl_bits t' = hdl_bits t \<and> (\<forall>i < CAM_REQ_MGR_MAX_HANDLES_V2. \<not> hdl_bitmap t' i \<and> hdl_state (hdl t' i) = HDL_FREE)
     \<and> (\<forall>i. CAM_REQ_MGR_MAX_HANDLES_V2 \<le> i \<longrightarrow> hdl t' i = hdl t i)"
proof -
  have "hdl_state (hdl t i) \<noteq> HDL_ACTIVE \<Longrightarrow> hdl_state (hdl t i) = HDL_FREE" for i
    by (cases "hdl_state (hdl t i)") auto
  then show ?thesis by (simp add: cam_req_mgr_util_free_hdls_def fold_free del: upt_eq_Cons_conv)
qed

lemma hdl_wf_free_hdls: "hdl_wf tbl \<Longrightarrow> hdl_wf (snd (cam_req_mgr_util_free_hdls tbl))"
proof (cases tbl)
  case (Some t)
  assume "hdl_wf tbl"
  then have ok: "hdl_ok t" using Some by (simp add: hdl_wf_def)
  obtain t' where t': "cam_req_mgr_util_free_hdls (Some t) = (0, Some t')" "hdl_bits t' = hdl_bits t"
    "\<forall>i < CAM_REQ_MGR_MAX_HANDLES_V2. \<not> hdl_bitmap t' i \<and> hdl_state (hdl t' i) = HDL_FREE"
    "\<forall>i. CAM_REQ_MGR_MAX_HANDLES_V2 \<le> i \<longrightarrow> hdl t' i = hdl t i" using free_hdls_eq by blast
  have "row_good i (hdl t' i)" for i
  proof (cases "i < CAM_REQ_MGR_MAX_HANDLES_V2")
    case True
    then show ?thesis using t'(3) by (simp add: row_good_def)
  next
    case False
    then show ?thesis using t'(4) ok by (simp add: hdl_ok_def)
  qed
  then have "hdl_ok t'" using t' ok by (auto simp: hdl_ok_def)
  then show ?thesis using Some t'(1) by (simp add: hdl_wf_def)
qed (simp add: cam_req_mgr_util_free_hdls_def hdl_wf_def)

lemma hdl_wf_init:
  "hdl_wf tbl \<Longrightarrow> hdl_wf other \<Longrightarrow> hdl_wf (snd (cam_req_mgr_util_init kz other tbl))"
  by (auto simp: cam_req_mgr_util_init_def hdl_wf_def hdl_ok_def row_good_def zero_handle_def)

inductive hdl_step :: "hdl_global \<Rightarrow> hdl_global \<Rightarrow> bool" where
  hdl_init: "hdl_step t (snd (cam_req_mgr_util_init kz None t))"
| hdl_deinit: "hdl_step t (snd (cam_req_mgr_util_deinit t))"
| hdl_free: "hdl_step t (snd (cam_req_mgr_util_free_hdls t))"
| hdl_session: "hdl_step t (snd (cam_create_session_hdl rnd priv t))"
| hdl_device: "hdl_step t (snd (cam_create_device_hdl rnd hdat t))"
| hdl_destroy_dev: "hdl_step t (snd (cam_destroy_device_hdl h t))"
| hdl_destroy_ses: "hdl_step t (snd (cam_destroy_session_hdl h t))"

lemma hdl_wf_step: "hdl_wf t \<Longrightarrow> hdl_step t t' \<Longrightarrow> hdl_wf t'"
  by (erule hdl_step.cases)
    (simp_all add: cam_destroy_device_hdl_def cam_destroy_session_hdl_def cam_req_mgr_util_deinit_def
      hdl_wf_create_device hdl_wf_create_session hdl_wf_destroy hdl_wf_free_hdls hdl_wf_init
      split: option.split)

definition hdl_initial :: "hdl_global \<Rightarrow> bool" where
  "hdl_initial t \<longleftrightarrow> t = None"

interpretation hdl_sys: invariant_system hdl_initial hdl_step hdl_wf
  by unfold_locales (auto simp: hdl_initial_def intro: hdl_wf_step)

section \<open>Properties\<close>

lemma of_int_sint_u32 [simp]: "of_int (sint (w :: u32)) = w"
  by simp

lemma active_value_inj:
  assumes "hdl_ok t" "hdl_state (hdl t i) = HDL_ACTIVE" "hdl_state (hdl t j) = HDL_ACTIVE"
    "hdl_value (hdl t i) = hdl_value (hdl t j)"
  shows "i = j"
proof -
  have "row_good i (hdl t i)" "row_good j (hdl t j)" using assms(1) by (auto simp: hdl_ok_def)
  then show ?thesis using assms(2-4) by (simp add: row_good_def)
qed

text \<open>Looking up the handle of an active row.\<close>

lemma lookup_active:
  assumes "hdl_ok t" "hdl_state (hdl t i) = HDL_ACTIVE" "h = sint (hdl_value (hdl t i))"
  shows "cam_get_device_priv h (Some t) = hdl_priv (hdl t i)"
    "cam_get_device_ops h (Some t) = hdl_ops (hdl t i)"
    "hdl_type (hdl t i) = ty \<Longrightarrow> cam_destroy_hdl h ty (Some t) = (0, Some (t
       \<lparr>hdl := (hdl t)(i := (hdl t i)\<lparr>hdl_state := HDL_FREE, hdl_ops := 0, hdl_priv := 0\<rparr>),
        hdl_bitmap := (hdl_bitmap t)(i := False)\<rparr>))"
    "hdl_type (hdl t i) \<noteq> ty \<Longrightarrow> cam_destroy_hdl h ty (Some t) = (- EINVAL, Some t)"
proof -
  have r: "row_good i (hdl t i)" using assms(1) by (auto simp: hdl_ok_def)
  show "cam_get_device_priv h (Some t) = hdl_priv (hdl t i)"
    "cam_get_device_ops h (Some t) = hdl_ops (hdl t i)"
    "hdl_type (hdl t i) = ty \<Longrightarrow> cam_destroy_hdl h ty (Some t) = (0, Some (t
       \<lparr>hdl := (hdl t)(i := (hdl t i)\<lparr>hdl_state := HDL_FREE, hdl_ops := 0, hdl_priv := 0\<rparr>),
        hdl_bitmap := (hdl_bitmap t)(i := False)\<rparr>))"
    "hdl_type (hdl t i) \<noteq> ty \<Longrightarrow> cam_destroy_hdl h ty (Some t) = (- EINVAL, Some t)"
    using r assms(2)
    by (auto simp: row_good_def assms(3) cam_get_device_priv_def cam_get_device_ops_def
        cam_destroy_hdl_def Let_def)
qed

text \<open>A value that no active row holds is refused everywhere.\<close>

lemma lookup_stale:
  assumes "\<And>i. hdl_state (hdl t i) = HDL_ACTIVE \<Longrightarrow> hdl_value (hdl t i) \<noteq> of_int h"
  shows "cam_get_device_priv h (Some t) = 0" "cam_get_device_ops h (Some t) = 0"
    "cam_destroy_hdl h ty (Some t) = (- EINVAL, Some t)"
  using assms by (auto simp: cam_get_device_priv_def cam_get_device_ops_def cam_destroy_hdl_def Let_def)

definition tbl_demo :: hdl_global where
  "tbl_demo = snd (cam_create_session_hdl 7 99 (snd (cam_req_mgr_util_init (\<lambda>_. True) None None)))"

definition tbl_demo_row :: cam_req_mgr_util_hdl_tbl where
  "tbl_demo_row = the tbl_demo"

lemma tbl_demo_wf: "hdl_wf tbl_demo"
  by (simp add: tbl_demo_def hdl_wf_create_session hdl_wf_init)

lemma tbl_demo_Some: "tbl_demo = Some tbl_demo_row"
proof -
  have "tbl_demo \<noteq> None" by code_simp
  then show ?thesis by (simp add: tbl_demo_row_def)
qed

lemma tbl_demo_ok: "hdl_ok tbl_demo_row"
  using tbl_demo_wf tbl_demo_Some by (simp add: hdl_wf_def)

text \<open>C38: in every reachable state of the handle table, the bitmap marks exactly the active rows
  and every active row holds a positive handle whose index and type fields are the row's own.\<close>

theorem hdl_reachable_wf:
  assumes "reach hdl_initial hdl_step tbl"
  shows "hdl_wf tbl"
  using assms by (rule hdl_sys.reach_inv)

theorem hdl_reachable_wf_witness: "hdl_wf tbl_demo"
proof -
  have 0: "reach hdl_initial hdl_step None" by (rule reach_init) (simp add: hdl_initial_def)
  show ?thesis
    unfolding tbl_demo_def
    by (rule hdl_reachable_wf, rule reach_step [OF reach_step [OF 0 hdl_init] hdl_session])
qed

text \<open>creating a device handle either finds all 128 rows active and returns ENOSR without a
  change, or returns a positive handle that differs from every handle active before, through
  which \<open>cam_get_device_priv\<close> and \<open>cam_get_device_ops\<close> give back the caller's pointers, and
  lookups of all other active handles are unaffected.\<close>

theorem hdl_create_device_lookup:
  assumes "hdl_ok t"
  shows "case cam_create_device_hdl rnd hdat (Some t) of (h, tbl') \<Rightarrow>
     if \<forall>i < CAM_REQ_MGR_MAX_HANDLES_V2. hdl_state (hdl t i) = HDL_ACTIVE
     then h = - ENOSR \<and> tbl' = Some t
     else 0 < h \<and> cam_get_device_priv h tbl' = cd_priv hdat \<and> cam_get_device_ops h tbl' = cd_ops hdat
        \<and> (\<forall>i. hdl_state (hdl t i) = HDL_ACTIVE \<longrightarrow>
             sint (hdl_value (hdl t i)) \<noteq> h
             \<and> cam_get_device_priv (sint (hdl_value (hdl t i))) tbl' = hdl_priv (hdl t i))"
proof (cases rule: create_device_cases [OF assms, of rnd hdat])
  case (2 idx)
  let ?r = "new_device_row rnd hdat idx" let ?t = "installed idx ?r t"
  have ok: "hdl_ok ?t" by (rule hdl_ok_installed [OF assms 2(1)])
  have self: "hdl ?t idx = ?r" and act: "hdl_state ?r = HDL_ACTIVE"
    by (simp_all add: installed_def new_device_row_def)
  have pos: "0 < sint (hdl_value ?r)" using row_good_new_rows(1) [OF 2(1), of rnd hdat] act by (simp add: row_good_def)
  have look: "cam_get_device_priv (sint (hdl_value ?r)) (Some ?t) = cd_priv hdat"
    "cam_get_device_ops (sint (hdl_value ?r)) (Some ?t) = cd_ops hdat"
    using lookup_active [OF ok, of idx] self act by (simp_all add: new_device_row_def)
  have other: "sint (hdl_value (hdl t i)) \<noteq> sint (hdl_value ?r)
      \<and> cam_get_device_priv (sint (hdl_value (hdl t i))) (Some ?t) = hdl_priv (hdl t i)"
    if a: "hdl_state (hdl t i) = HDL_ACTIVE" for i
  proof -
    have ne: "i \<noteq> idx" using a 2(2) by auto
    then have same: "hdl ?t i = hdl t i" by (simp add: installed_def)
    have "hdl_value (hdl t i) \<noteq> hdl_value ?r"
      using active_value_inj [OF ok, of i idx] a same self act ne by auto
    then show ?thesis using lookup_active(1) [OF ok, of i] a same by (metis of_int_sint_u32)
  qed
  have "\<not> (\<forall>i < CAM_REQ_MGR_MAX_HANDLES_V2. hdl_state (hdl t i) = HDL_ACTIVE)"
    using 2(1,2) by (intro notI) (drule spec [of _ idx], simp)
  then show ?thesis using 2(3) pos look other by (simp only: prod.case if_False) blast
qed simp

theorem hdl_create_device_lookup_witness:
  "0 < fst (cam_create_device_hdl 3 \<lparr>cd_session_hdl = 1, cd_dev_id = 2, cd_ops = 5, cd_priv = 6\<rparr> tbl_demo)"
proof -
  have "hdl_state (hdl tbl_demo_row 1) = HDL_FREE" by code_simp
  then have "\<not> (\<forall>i < CAM_REQ_MGR_MAX_HANDLES_V2. hdl_state (hdl tbl_demo_row i) = HDL_ACTIVE)"
    by (intro notI) (drule spec [of _ 1], simp)
  then show ?thesis
    using hdl_create_device_lookup [OF tbl_demo_ok, where rnd = 3 and hdat =
        "\<lparr>cd_session_hdl = 1, cd_dev_id = 2, cd_ops = 5, cd_priv = 6\<rparr>"]
    unfolding tbl_demo_Some by (auto split: prod.splits if_splits)
qed

text \<open>a destroyed handle is dead. Destroying an active device handle returns 0; afterwards
  looking it up gives null, destroying it again gives EINVAL and changes nothing, and this still
  holds after the row is reused for a device with another random byte. A session handle cannot
  be destroyed as a device handle.\<close>

theorem hdl_destroyed_is_stale:
  assumes "hdl_ok t" "hdl_state (hdl t i) = HDL_ACTIVE" "h = sint (hdl_value (hdl t i))"
  shows "case cam_destroy_device_hdl h (Some t) of (rc, tbl') \<Rightarrow>
     if hdl_type (hdl t i) = HDL_TYPE_SESSION then rc = - EINVAL \<and> tbl' = Some t
     else rc = 0 \<and> cam_get_device_priv h tbl' = 0 \<and> cam_get_device_ops h tbl' = 0
        \<and> cam_destroy_device_hdl h tbl' = (- EINVAL, tbl')
        \<and> (\<forall>rnd hdat h2 tbl2. cam_create_device_hdl rnd hdat tbl' = (h2, tbl2) \<longrightarrow> h2 \<noteq> h \<longrightarrow>
              cam_get_device_priv h tbl2 = 0)"
proof (cases "hdl_type (hdl t i) = HDL_TYPE_SESSION")
  case True
  then show ?thesis
    using lookup_active(4) [OF assms, of HDL_TYPE_DEV] by (simp add: cam_destroy_device_hdl_def)
next
  case False
  have g: "row_good i (hdl t i)" using assms(1) by (auto simp: hdl_ok_def)
  then have ty: "hdl_type (hdl t i) = HDL_TYPE_DEV" using False assms(2) by (simp add: row_good_def)
  define t1 where "t1 = t\<lparr>hdl := (hdl t)(i := (hdl t i)\<lparr>hdl_state := HDL_FREE, hdl_ops := 0, hdl_priv := 0\<rparr>),
        hdl_bitmap := (hdl_bitmap t)(i := False)\<rparr>"
  have d: "cam_destroy_device_hdl h (Some t) = (0, Some t1)"
    using lookup_active(3) [OF assms ty] by (simp add: cam_destroy_device_hdl_def t1_def)
  have ok1: "hdl_ok t1" using hdl_wf_destroy [of "Some t" h HDL_TYPE_DEV] assms(1) d
    by (simp add: hdl_wf_def cam_destroy_device_hdl_def)
  have st: "hdl_value (hdl t1 j) \<noteq> of_int h" if "hdl_state (hdl t1 j) = HDL_ACTIVE" for j
    using that active_value_inj [OF assms(1,2), of j] assms(3) by (auto simp: t1_def split: if_splits)
  have re: "cam_get_device_priv h tbl2 = 0"
    if c: "cam_create_device_hdl rnd hdat (Some t1) = (h2, tbl2)" and ne: "h2 \<noteq> h" for rnd hdat h2 tbl2
  proof (cases rule: create_device_cases [OF ok1, of rnd hdat])
    case 1
    then show ?thesis using c lookup_stale(1) [of t1 h] st by auto
  next
    case (2 idx)
    let ?t = "installed idx (new_device_row rnd hdat idx) t1"
    have v: "hdl_value (new_device_row rnd hdat idx) \<noteq> of_int h" using ne c 2(3) assms(3) by auto
    have "hdl_value (hdl ?t j) \<noteq> of_int h" if "hdl_state (hdl ?t j) = HDL_ACTIVE" for j
      using that v st [of j] by (auto simp: installed_def split: if_splits)
    then show ?thesis using lookup_stale(1) [of ?t h] c 2(3) by auto
  qed
  show ?thesis
    using False d lookup_stale [of t1 h] st re by (simp add: cam_destroy_device_hdl_def)
qed

theorem hdl_destroyed_is_stale_witness:
  "fst (cam_destroy_device_hdl (sint (hdl_value (hdl tbl_demo_row 0))) (Some tbl_demo_row)) = - EINVAL"
proof -
  have "hdl_state (hdl tbl_demo_row 0) = HDL_ACTIVE" "hdl_type (hdl tbl_demo_row 0) = HDL_TYPE_SESSION"
    by code_simp+
  then show ?thesis
    using hdl_destroyed_is_stale [OF tbl_demo_ok _ refl, of 0] by (auto split: prod.splits)
qed

text \<open>the handle format. For every row index below 256, the two handle types and every random
  byte, the packed handle gives back its index and its type, and is positive as a signed
  32-bit value, so it cannot be mistaken for an error code.\<close>

theorem hdl_format_roundtrip:
  assumes "idx < 256" "type = HDL_TYPE_DEV \<or> type = HDL_TYPE_SESSION"
  shows "CAM_REQ_MGR_GET_HDL_IDX (GET_DEV_HANDLE (ucast (rnd :: u8)) type (of_nat idx)) = idx
     \<and> CAM_REQ_MGR_GET_HDL_TYPE (GET_DEV_HANDLE (ucast rnd) type (of_nat idx)) = type
     \<and> 0 < sint (GET_DEV_HANDLE (ucast rnd) type (of_nat idx))"
  using handle_idx [OF assms(1)] handle_type [OF assms] handle_pos [OF assms] by blast

theorem hdl_format_roundtrip_witness:
  "CAM_REQ_MGR_GET_HDL_IDX (GET_DEV_HANDLE (ucast (255 :: u8)) HDL_TYPE_SESSION (of_nat 127)) = 127"
  using hdl_format_roundtrip [of 127 HDL_TYPE_SESSION 255] by simp

end
