(* ===== verification/Cam_Workq.thy ===== *)
theory Cam_Workq
  imports Cam_Prelude
begin

text \<open>
  The task work queue of the request manager, \<open>cam_req_mgr/cam_req_mgr_workq.c\<close>. Tasks are
  entries of a fixed pool, named by their index; a task is on the free list, on one of the two
  priority lists, or held by a caller of \<open>cam_req_mgr_workq_get_task\<close>. The spinlock, the delay
  detector and the workqueue's name are not represented. The effect of a task's callback on the
  queue is an argument, \<open>client\<close>; calls of callbacks are logged in \<open>wq_calls\<close>.
\<close>

section \<open>Data\<close>

abbreviation CRM_TASK_PRIORITY_0 :: int where "CRM_TASK_PRIORITY_0 \<equiv> 0"
abbreviation CRM_TASK_PRIORITY_1 :: int where "CRM_TASK_PRIORITY_1 \<equiv> 1"
abbreviation CRM_TASK_PRIORITY_MAX :: int where "CRM_TASK_PRIORITY_MAX \<equiv> 2"

record crm_workq_task =
  task_priority :: int
  task_payload :: ptr
  process_cb :: ptr
  task_cancel :: u8
  task_priv :: ptr

text \<open>\<open>job\<close> is the kernel workqueue with its flags and its limit of active items.\<close>

record cam_req_mgr_core_workq =
  job :: "(u32 \<times> nat) option"
  in_irq :: u32
  pending_cnt :: int
  free_cnt :: int
  process_head :: "int \<Rightarrow> nat list"
  empty_head :: "nat list"
  pool :: "nat \<Rightarrow> crm_workq_task"
  num_task :: nat
  work_queued :: bool
  wq_calls :: "(ptr \<times> ptr \<times> ptr) list"

type_synonym client = "nat \<Rightarrow> cam_req_mgr_core_workq \<Rightarrow> cam_req_mgr_core_workq"

definition zero_task :: crm_workq_task where
  "zero_task = \<lparr>task_priority = 0, task_payload = 0, process_cb = 0, task_cancel = 0, task_priv = 0\<rparr>"

definition upd_task ::
    "nat \<Rightarrow> (crm_workq_task \<Rightarrow> crm_workq_task) \<Rightarrow> cam_req_mgr_core_workq \<Rightarrow> cam_req_mgr_core_workq" where
  "upd_task i f w = w\<lparr>pool := (pool w)(i := f (pool w i))\<rparr>"

section \<open>Operations\<close>

definition cam_req_mgr_workq_get_task ::
    "cam_req_mgr_core_workq option \<Rightarrow> nat option \<times> cam_req_mgr_core_workq option" where
  "cam_req_mgr_workq_get_task workq =
     (case workq of
        None \<Rightarrow> (None, None)
      | Some w \<Rightarrow>
          (case empty_head w of
             [] \<Rightarrow> (None, Some w)
           | t # ts \<Rightarrow> (Some t, Some (w\<lparr>free_cnt := free_cnt w - 1, empty_head := ts\<rparr>))))"

text \<open>\<open>list_del_init\<close> takes the task off whatever list it is on.\<close>

definition list_del_task :: "nat \<Rightarrow> cam_req_mgr_core_workq \<Rightarrow> cam_req_mgr_core_workq" where
  "list_del_task t w =
     w\<lparr>empty_head := removeAll t (empty_head w), process_head := (\<lambda>i. removeAll t (process_head w i))\<rparr>"

definition cam_req_mgr_workq_put_task :: "nat \<Rightarrow> cam_req_mgr_core_workq \<Rightarrow> cam_req_mgr_core_workq" where
  "cam_req_mgr_workq_put_task t w =
     (let w1 = upd_task t (\<lambda>r. r\<lparr>task_cancel := 0, process_cb := 0, task_priv := 0\<rparr>) (list_del_task t w)
      in w1\<lparr>empty_head := empty_head w1 @ [t], free_cnt := free_cnt w1 + 1\<rparr>)"

definition cam_req_mgr_process_task :: "client \<Rightarrow> nat \<Rightarrow> cam_req_mgr_core_workq \<Rightarrow> cam_req_mgr_core_workq" where
  "cam_req_mgr_process_task client t w =
     (let r = pool w t;
          w1 = (if process_cb r \<noteq> 0
                then client t (w\<lparr>wq_calls := wq_calls w @ [(process_cb r, task_priv r, task_payload r)]\<rparr>)
                else w)
      in cam_req_mgr_workq_put_task t w1)"

text \<open>The inner loop of \<open>cam_req_mgr_process_workq\<close>; \<open>None\<close> when the fuel does not suffice.\<close>

fun process_list :: "client \<Rightarrow> nat \<Rightarrow> int \<Rightarrow> cam_req_mgr_core_workq \<Rightarrow> cam_req_mgr_core_workq option" where
  "process_list client 0 i w = None"
| "process_list client (Suc n) i w =
     (case process_head w i of
        [] \<Rightarrow> Some w
      | t # ts \<Rightarrow>
          process_list client n i
            (cam_req_mgr_process_task client t
              (w\<lparr>pending_cnt := pending_cnt w - 1, process_head := (process_head w)(i := ts)\<rparr>)))"

definition cam_req_mgr_process_workq ::
    "client \<Rightarrow> nat \<Rightarrow> cam_req_mgr_core_workq \<Rightarrow> cam_req_mgr_core_workq option" where
  "cam_req_mgr_process_workq client fuel w =
     Option.bind (process_list client fuel CRM_TASK_PRIORITY_0 (w\<lparr>work_queued := False\<rparr>))
       (process_list client fuel CRM_TASK_PRIORITY_1)"

definition cam_req_mgr_workq_enqueue_task ::
    "nat option \<Rightarrow> ptr \<Rightarrow> int \<Rightarrow> cam_req_mgr_core_workq option \<Rightarrow> rc \<times> cam_req_mgr_core_workq option" where
  "cam_req_mgr_workq_enqueue_task task priv prio workq =
     (case (task, workq) of
        (None, _) \<Rightarrow> (- EINVAL, workq)
      | (Some t, None) \<Rightarrow> (- EINVAL, workq)
      | (Some t, Some w) \<Rightarrow>
          if task_cancel (pool w t) = 1 then (0, Some (cam_req_mgr_workq_put_task t w))
          else
            let p = (if prio < CRM_TASK_PRIORITY_MAX \<and> CRM_TASK_PRIORITY_0 \<le> prio then prio
                     else CRM_TASK_PRIORITY_0);
                w1 = upd_task t (\<lambda>r. r\<lparr>task_priv := priv, task_priority := p\<rparr>) w in
            if job w1 = None then (- EINVAL, Some w1)
            else (0, Some (w1\<lparr>process_head := (process_head w1)(p := process_head w1 p @ [t]),
                              pending_cnt := pending_cnt w1 + 1, work_queued := True\<rparr>)))"

text \<open>
  \<open>cam_req_mgr_workq_create\<close>. \<open>kz\<close> are the allocations of the queue and of the pool, \<open>wq_ok\<close> says
  whether \<open>alloc_workqueue\<close> succeeds; \<open>jobs\<close> counts the kernel workqueues that exist.
\<close>

definition cam_req_mgr_workq_create ::
    "(nat \<Rightarrow> bool) \<Rightarrow> bool \<Rightarrow> nat \<Rightarrow> u32 \<Rightarrow> u32 \<Rightarrow> cam_req_mgr_core_workq option \<Rightarrow> int
       \<Rightarrow> rc \<times> cam_req_mgr_core_workq option \<times> int" where
  "cam_req_mgr_workq_create kz wq_ok num_tasks irq flags workq jobs =
     (case workq of
        Some w \<Rightarrow> (0, workq, jobs)
      | None \<Rightarrow>
          if \<not> kz 0 then (- ENOMEM, None, jobs)
          else
            let wq_flags = 2 OR (if flags AND 1 \<noteq> 0 then 16 else 0);
                max_active_tasks = (if flags AND 2 \<noteq> 0 then 1 else 0) in
            if \<not> wq_ok then (- ENOMEM, None, jobs)
            else
              let w = \<lparr>job = Some (wq_flags, max_active_tasks), in_irq = irq, pending_cnt = 0,
                       free_cnt = 0, process_head = (\<lambda>_. []), empty_head = [],
                       pool = (\<lambda>_. zero_task), num_task = num_tasks, work_queued = False,
                       wq_calls = []\<rparr> in
              if \<not> kz 1 then (- ENOMEM, None, jobs + 1)
              else (0, Some (fold cam_req_mgr_workq_put_task [0..<num_tasks] w), jobs + 1))"

text \<open>
  \<open>cam_req_mgr_workq_destroy\<close>: \<open>destroy_workqueue\<close> lets queued work finish first. The result is
  the null queue, the number of workqueues left and the log of calls.
\<close>

definition cam_req_mgr_workq_destroy ::
    "client \<Rightarrow> nat \<Rightarrow> cam_req_mgr_core_workq option \<Rightarrow> int
       \<Rightarrow> (cam_req_mgr_core_workq option \<times> int \<times> (ptr \<times> ptr \<times> ptr) list) option" where
  "cam_req_mgr_workq_destroy client fuel workq jobs =
     (case workq of
        None \<Rightarrow> Some (None, jobs, [])
      | Some w \<Rightarrow>
          if job w \<noteq> None
          then map_option (\<lambda>w'. (None, jobs - 1, wq_calls w'))
                 (if work_queued w then cam_req_mgr_process_workq client fuel (w\<lparr>job := None\<rparr>)
                  else Some (w\<lparr>job := None\<rparr>))
          else Some (None, jobs, wq_calls w))"

section \<open>Invariant\<close>

text \<open>
  Every task is in exactly one place: the free list, a priority list, or held by a caller, and
  the counters are the lengths of the lists.
\<close>

definition places :: "cam_req_mgr_core_workq \<Rightarrow> nat list" where
  "places w = empty_head w @ process_head w CRM_TASK_PRIORITY_0 @ process_head w CRM_TASK_PRIORITY_1"

definition workq_ok :: "nat set \<Rightarrow> cam_req_mgr_core_workq \<Rightarrow> bool" where
  "workq_ok held w \<longleftrightarrow> distinct (places w) \<and> set (places w) \<inter> held = {}
     \<and> set (places w) \<union> held = {..<num_task w}
     \<and> free_cnt w = int (length (empty_head w))
     \<and> pending_cnt w = int (length (process_head w 0)) + int (length (process_head w 1))
     \<and> (\<forall>i. i \<noteq> 0 \<and> i \<noteq> 1 \<longrightarrow> process_head w i = [])"

lemma upd_task_simps [simp]:
  "job (upd_task t f w) = job w" "empty_head (upd_task t f w) = empty_head w"
  "process_head (upd_task t f w) = process_head w" "free_cnt (upd_task t f w) = free_cnt w"
  "pending_cnt (upd_task t f w) = pending_cnt w" "num_task (upd_task t f w) = num_task w"
  "wq_calls (upd_task t f w) = wq_calls w" "work_queued (upd_task t f w) = work_queued w"
  "pool (upd_task t f w) = (pool w)(t := f (pool w t))"
  by (simp_all add: upd_task_def)

lemma workq_ok_get:
  assumes "workq_ok held w" "cam_req_mgr_workq_get_task (Some w) = (r, Some w')"
  shows "case r of Some t \<Rightarrow> t < num_task w \<and> t \<notin> held \<and> workq_ok (insert t held) w'
     | None \<Rightarrow> w' = w \<and> free_cnt w = 0"
  using assms
  by (cases "empty_head w") (auto simp: cam_req_mgr_workq_get_task_def workq_ok_def places_def)

lemma put_task_eq:
  assumes "t \<notin> set (places w)" "\<forall>i. i \<noteq> 0 \<and> i \<noteq> 1 \<longrightarrow> process_head w i = []"
  shows "cam_req_mgr_workq_put_task t w =
     (upd_task t (\<lambda>r. r\<lparr>task_cancel := 0, process_cb := 0, task_priv := 0\<rparr>) w)
       \<lparr>empty_head := empty_head w @ [t], free_cnt := free_cnt w + 1\<rparr>"
proof -
  have "removeAll t (process_head w i) = process_head w i" for i
    using assms by (cases "i = 0 \<or> i = 1") (auto simp: places_def removeAll_id)
  then have "list_del_task t w = w"
    using assms(1) by (simp add: list_del_task_def places_def removeAll_id)
  then show ?thesis by (simp add: cam_req_mgr_workq_put_task_def)
qed

lemma workq_ok_put:
  assumes "workq_ok (insert t held) w" "t \<notin> held"
  shows "workq_ok held (cam_req_mgr_workq_put_task t w)"
proof -
  have "t \<notin> set (places w)" "\<forall>i. i \<noteq> 0 \<and> i \<noteq> 1 \<longrightarrow> process_head w i = []"
    using assms(1) by (auto simp: workq_ok_def)
  from put_task_eq [OF this] show ?thesis
    using assms by (auto simp: workq_ok_def places_def)
qed

lemma workq_ok_enqueue:
  assumes "workq_ok (insert t held) w" "t \<notin> held"
    and "cam_req_mgr_workq_enqueue_task (Some t) priv prio (Some w) = (rc, Some w')"
  shows "if rc = 0 then workq_ok held w' else workq_ok (insert t held) w' \<and> job w = None"
proof (cases "task_cancel (pool w t) = 1")
  case True
  then show ?thesis
    using assms workq_ok_put [OF assms(1,2)] by (auto simp: cam_req_mgr_workq_enqueue_task_def)
next
  case False
  let ?p = "if prio < CRM_TASK_PRIORITY_MAX \<and> CRM_TASK_PRIORITY_0 \<le> prio then prio else CRM_TASK_PRIORITY_0"
  have p: "?p = 0 \<or> ?p = 1" by auto
  show ?thesis
  proof (cases "job w")
    case None
    then show ?thesis using assms False
      by (auto simp: cam_req_mgr_workq_enqueue_task_def Let_def workq_ok_def places_def)
  next
    case (Some j)
    have w': "rc = 0" "w' = (upd_task t (\<lambda>r. r\<lparr>task_priv := priv, task_priority := ?p\<rparr>) w)
        \<lparr>process_head := (process_head w)(?p := process_head w ?p @ [t]),
         pending_cnt := pending_cnt w + 1, work_queued := True\<rparr>"
      using assms(3) False Some by (simp_all add: cam_req_mgr_workq_enqueue_task_def Let_def)
    show ?thesis
      using p assms(1,2) unfolding w' workq_ok_def places_def by (elim disjE) auto
  qed
qed

lemma workq_ok_process_task:
  assumes client: "\<And>t held w. workq_ok held w \<Longrightarrow> workq_ok held (client t w)"
    and ok: "workq_ok (insert t held) w" and t: "t \<notin> held"
  shows "workq_ok held (cam_req_mgr_process_task client t w)"
proof -
  have "workq_ok (insert t held) (w\<lparr>wq_calls := c\<rparr>)" for c
    using ok by (simp add: workq_ok_def places_def)
  then show ?thesis
    using workq_ok_put [OF _ t] client ok by (simp add: cam_req_mgr_process_task_def Let_def)
qed

lemma workq_ok_take:
  assumes "workq_ok held w" "i = 0 \<or> i = 1" "process_head w i = t # ts"
  shows "t \<notin> held \<and> workq_ok (insert t held)
     (w\<lparr>pending_cnt := pending_cnt w - 1, process_head := (process_head w)(i := ts)\<rparr>)"
  using assms by (auto simp: workq_ok_def places_def)

lemma workq_ok_process_list:
  assumes client: "\<And>t held w. workq_ok held w \<Longrightarrow> workq_ok held (client t w)" and i: "i = 0 \<or> i = 1"
  shows "workq_ok held w \<Longrightarrow> process_list client n i w = Some w' \<Longrightarrow> workq_ok held w'"
proof (induction n arbitrary: w)
  case (Suc n)
  show ?case
  proof (cases "process_head w i")
    case (Cons t ts)
    then show ?thesis
      using Suc workq_ok_take [OF Suc.prems(1) i Cons] workq_ok_process_task [of client t held] client
      by auto
  qed (use Suc.prems in auto)
qed simp

lemma workq_ok_process:
  assumes client: "\<And>t held w. workq_ok held w \<Longrightarrow> workq_ok held (client t w)"
    and ok: "workq_ok held w" and run: "cam_req_mgr_process_workq client n w = Some w'"
  shows "workq_ok held w'"
proof -
  obtain w1 where w1: "process_list client n 0 (w\<lparr>work_queued := False\<rparr>) = Some w1"
    "process_list client n 1 w1 = Some w'"
    using run by (auto simp: cam_req_mgr_process_workq_def bind_eq_Some_conv)
  have "workq_ok held (w\<lparr>work_queued := False\<rparr>)" using ok by (simp add: workq_ok_def places_def)
  then have "workq_ok held w1" by (rule workq_ok_process_list [OF client _ _ w1(1), rotated 2]) auto
  then show ?thesis by (rule workq_ok_process_list [OF client _ _ w1(2), rotated 2]) auto
qed

lemma fold_put:
  assumes "\<forall>i. process_head w i = []" "empty_head w = [0..<k]" "free_cnt w = int k" "pending_cnt w = 0"
  shows "let w' = fold cam_req_mgr_workq_put_task [k..<k + n] w in
     (\<forall>i. process_head w' i = []) \<and> empty_head w' = [0..<k + n] \<and> free_cnt w' = int (k + n)
     \<and> pending_cnt w' = 0 \<and> num_task w' = num_task w \<and> job w' = job w"
  using assms
proof (induction n arbitrary: w k)
  case (Suc n)
  let ?w = "cam_req_mgr_workq_put_task k w"
  have k: "k \<notin> set (places w)" using Suc.prems(1,2) by (simp add: places_def)
  have e: "?w = (upd_task k (\<lambda>r. r\<lparr>task_cancel := 0, process_cb := 0, task_priv := 0\<rparr>) w)
       \<lparr>empty_head := empty_head w @ [k], free_cnt := free_cnt w + 1\<rparr>"
    by (rule put_task_eq) (use Suc.prems(1) k in auto)
  have "[k..<k + Suc n] = k # [Suc k..<Suc k + n]" by (simp add: upt_rec)
  moreover have "\<forall>i. process_head ?w i = []" "empty_head ?w = [0..<Suc k]"
    "free_cnt ?w = int (Suc k)" "pending_cnt ?w = 0" "num_task ?w = num_task w" "job ?w = job w"
    using Suc.prems by (simp_all add: e)
  ultimately show ?case using Suc.IH [of ?w "Suc k"] by (simp add: Let_def)
qed (simp add: Let_def)

lemma workq_ok_create:
  assumes "cam_req_mgr_workq_create kz wq num irq flags None jobs = (rc, Some w, jobs')"
  shows "rc = 0 \<and> workq_ok {} w \<and> num_task w = num \<and> job w \<noteq> None \<and> jobs' = jobs + 1"
proof -
  let ?w0 = "\<lparr>job = Some (2 OR (if flags AND 1 \<noteq> 0 then 16 else 0), if flags AND 2 \<noteq> 0 then 1 else 0),
      in_irq = irq, pending_cnt = 0, free_cnt = 0, process_head = (\<lambda>_. []), empty_head = [],
      pool = (\<lambda>_. zero_task), num_task = num, work_queued = False, wq_calls = []\<rparr>"
  have w: "w = fold cam_req_mgr_workq_put_task [0..<num] ?w0" "rc = 0" "jobs' = jobs + 1"
    using assms by (auto simp: cam_req_mgr_workq_create_def Let_def split: if_splits)
  show ?thesis
    using fold_put [of ?w0 0 num] w by (auto simp: Let_def workq_ok_def places_def)
qed

section \<open>Draining a quiet queue\<close>

text \<open>The log entry of a task.\<close>

definition call_of :: "cam_req_mgr_core_workq \<Rightarrow> nat \<Rightarrow> (ptr \<times> ptr \<times> ptr) list" where
  "call_of w t = (if process_cb (pool w t) \<noteq> 0
     then [(process_cb (pool w t), task_priv (pool w t), task_payload (pool w t))] else [])"

abbreviation quiet :: client where "quiet \<equiv> (\<lambda>_ w. w)"

lemma process_list_quiet:
  assumes "workq_ok held w" "i = 0 \<or> i = 1" "length (process_head w i) < n"
  shows "\<exists>w'. process_list quiet n i w = Some w'
     \<and> wq_calls w' = wq_calls w @ concat (map (call_of w) (process_head w i))
     \<and> process_head w' = (process_head w)(i := [])
     \<and> empty_head w' = empty_head w @ process_head w i
     \<and> (\<forall>t. t \<notin> set (process_head w i) \<longrightarrow> pool w' t = pool w t)"
  using assms(1,3)
proof (induction n arbitrary: w)
  case (Suc n)
  show ?case
  proof (cases "process_head w i")
    case Nil
    then show ?thesis by (auto simp: fun_eq_iff)
  next
    case (Cons t ts)
    let ?w = "w\<lparr>pending_cnt := pending_cnt w - 1, process_head := (process_head w)(i := ts)\<rparr>"
    let ?v = "cam_req_mgr_process_task quiet t ?w"
    have t: "t \<notin> held" "workq_ok (insert t held) ?w" using workq_ok_take [OF Suc.prems(1) assms(2) Cons] by auto
    have ts: "t \<notin> set ts" using Suc.prems(1) assms(2) Cons by (auto simp: workq_ok_def places_def)
    have ok: "workq_ok held ?v" by (rule workq_ok_process_task) (use t in auto)
    have v: "wq_calls ?v = wq_calls w @ call_of w t" "process_head ?v = (process_head w)(i := ts)"
      "empty_head ?v = empty_head w @ [t]" "\<forall>s. s \<noteq> t \<longrightarrow> pool ?v s = pool w s"
    proof -
      have np: "t \<notin> set (places (?w\<lparr>wq_calls := c\<rparr>))"
        "\<forall>i. i \<noteq> 0 \<and> i \<noteq> 1 \<longrightarrow> process_head (?w\<lparr>wq_calls := c\<rparr>) i = []" for c
        using t(2) by (auto simp: workq_ok_def places_def)
      have np': "t \<notin> set (places ?w)" "\<forall>i. i \<noteq> 0 \<and> i \<noteq> 1 \<longrightarrow> process_head ?w i = []"
        using t(2) by (auto simp: workq_ok_def)
      show "wq_calls ?v = wq_calls w @ call_of w t" "process_head ?v = (process_head w)(i := ts)"
        "empty_head ?v = empty_head w @ [t]" "\<forall>s. s \<noteq> t \<longrightarrow> pool ?v s = pool w s"
        by (auto simp: cam_req_mgr_process_task_def Let_def put_task_eq [OF np] put_task_eq [OF np']
            call_of_def)
    qed
    have "length (process_head ?v i) < n" using Suc.prems(2) Cons v(2) by simp
    from Suc.IH [OF ok this] obtain w' where w': "process_list quiet n i ?v = Some w'"
      "wq_calls w' = wq_calls ?v @ concat (map (call_of ?v) (process_head ?v i))"
      "process_head w' = (process_head ?v)(i := [])"
      "empty_head w' = empty_head ?v @ process_head ?v i"
      "\<forall>t. t \<notin> set (process_head ?v i) \<longrightarrow> pool w' t = pool ?v t" by blast
    have "concat (map (call_of ?v) ts) = concat (map (call_of w) ts)"
      using ts v(4) by (intro arg_cong [of _ _ concat] map_cong) (auto simp: call_of_def)
    then show ?thesis using w' v Cons by auto
  qed
qed simp

lemma process_quiet:
  assumes ok: "workq_ok held w" and n: "length (places w) < n"
  shows "\<exists>w'. cam_req_mgr_process_workq quiet n w = Some w'
     \<and> wq_calls w' = wq_calls w @ concat (map (call_of w) (process_head w 0 @ process_head w 1))
     \<and> process_head w' = (\<lambda>_. []) \<and> empty_head w' = empty_head w @ process_head w 0 @ process_head w 1"
proof -
  let ?w = "w\<lparr>work_queued := False\<rparr>"
  have l: "length (process_head w 0) < n" "length (process_head w 1) < n" using n by (auto simp: places_def)
  have ok0: "workq_ok held ?w" using ok by (simp add: workq_ok_def places_def)
  from process_list_quiet [OF ok0, of 0 n] l obtain v where v: "process_list quiet n 0 ?w = Some v"
    "wq_calls v = wq_calls w @ concat (map (call_of ?w) (process_head w 0))"
    "process_head v = (process_head w)(0 := [])" "empty_head v = empty_head w @ process_head w 0"
    "\<forall>t. t \<notin> set (process_head w 0) \<longrightarrow> pool v t = pool w t" by auto
  have okv: "workq_ok held v"
    by (rule workq_ok_process_list [OF _ _ ok0 v(1)]) auto
  have l1: "length (process_head v 1) < n" using l v(3) by simp
  from process_list_quiet [OF okv _ l1] obtain u where u: "process_list quiet n 1 v = Some u"
    "wq_calls u = wq_calls v @ concat (map (call_of v) (process_head v 1))"
    "process_head u = (process_head v)(1 := [])" "empty_head u = empty_head v @ process_head v 1" by auto
  have "set (process_head w 1) \<inter> set (process_head w 0) = {}" using ok by (auto simp: workq_ok_def places_def)
  then have "concat (map (call_of v) (process_head w 1)) = concat (map (call_of w) (process_head w 1))"
    using v(5) by (intro arg_cong [of _ _ concat] map_cong) (auto simp: call_of_def)
  moreover have "call_of ?w = call_of w" by (simp add: call_of_def fun_eq_iff)
  moreover have "process_head u = (\<lambda>_. [])"
    using ok by (auto simp: u(3) v(3) workq_ok_def fun_eq_iff)
  moreover have "cam_req_mgr_process_workq quiet n w = Some u"
    using v(1) u(1) by (simp add: cam_req_mgr_process_workq_def)
  moreover have "process_head v 1 = process_head w 1" by (simp add: v(3))
  ultimately show ?thesis using v(2,4) u(2,4) by simp
qed

section \<open>The transition system\<close>

text \<open>
  The state is the queue with the set \<open>H\<close> of tasks that callers got and have not yet enqueued, and
  the set \<open>R\<close> of tasks the worker has taken and not yet put back. The steps are the lock sections of the
  code and the accesses to a task outside them, so that callers, callbacks and workers interleave at will.
  A caller has no way to give a task back: after the enqueue it forgets the task, even if the call failed.
\<close>

type_synonym wq_state = "cam_req_mgr_core_workq \<times> nat set \<times> nat set"

inductive wq_step :: "wq_state \<Rightarrow> wq_state \<Rightarrow> bool" where
  wq_get: "cam_req_mgr_workq_get_task (Some w) = (Some t, Some w') \<Longrightarrow> wq_step (w, H, R) (w', insert t H, R)"
| wq_fill: "t \<in> H \<union> R \<Longrightarrow> wq_step (w, H, R) (upd_task t f w, H, R)"
| wq_enqueue: "t \<in> H \<Longrightarrow> cam_req_mgr_workq_enqueue_task (Some t) priv prio (Some w) = (rc, Some w') \<Longrightarrow>
    wq_step (w, H, R) (w', H - {t}, R)"
| wq_start: "wq_step (w, H, R) (w\<lparr>work_queued := False\<rparr>, H, R)"
| wq_take: "i = CRM_TASK_PRIORITY_0 \<or> i = CRM_TASK_PRIORITY_1 \<Longrightarrow> process_head w i = t # ts \<Longrightarrow>
    wq_step (w, H, R) (w\<lparr>pending_cnt := pending_cnt w - 1, process_head := (process_head w)(i := ts)\<rparr>, H, insert t R)"
| wq_call: "t \<in> R \<Longrightarrow> r = pool w t \<Longrightarrow> process_cb r \<noteq> 0 \<Longrightarrow>
    wq_step (w, H, R) (w\<lparr>wq_calls := wq_calls w @ [(process_cb r, task_priv r, task_payload r)]\<rparr>, H, R)"
| wq_put: "t \<in> R \<Longrightarrow> wq_step (w, H, R) (cam_req_mgr_workq_put_task t w, H, R - {t})"
| wq_job_gone: "wq_step (w, H, R) (w\<lparr>job := None\<rparr>, H, R)"

inductive_cases wq_stepE: "wq_step (w, H, R) s"




lemma workq_ok_upd_task: "workq_ok H w \<Longrightarrow> workq_ok H (upd_task t f w)"
  by (simp add: workq_ok_def places_def)

lemma workq_job [simp]:
  "job (cam_req_mgr_workq_put_task t w) = job w"
  by (simp add: cam_req_mgr_workq_put_task_def list_del_task_def Let_def)





section \<open>A run of the worker in the transition system\<close>










section \<open>Properties\<close>

definition wq_new :: cam_req_mgr_core_workq where
  "wq_new = the (fst (snd (cam_req_mgr_workq_create (\<lambda>_. True) True 3 0 0 None 0)))"

definition wq_taken :: cam_req_mgr_core_workq where
  "wq_taken = the (snd (cam_req_mgr_workq_get_task (Some wq_new)))"

definition wq_busy :: cam_req_mgr_core_workq where
  "wq_busy = the (snd (cam_req_mgr_workq_enqueue_task (Some 0) 5 7
     (Some (upd_task 0 (\<lambda>r. r\<lparr>process_cb := 9\<rparr>) wq_taken))))"

lemma wq_new_create: "cam_req_mgr_workq_create (\<lambda>_. True) True 3 0 0 None 0 = (0, Some wq_new, 1)"
proof -
  obtain w where "cam_req_mgr_workq_create (\<lambda>_. True) True 3 0 0 None 0 = (0, Some w, 1)"
    by (simp add: cam_req_mgr_workq_create_def Let_def)
  then show ?thesis by (simp add: wq_new_def)
qed

lemma wq_new_ok: "workq_ok {} wq_new"
  using workq_ok_create [OF wq_new_create] by simp

lemma wq_taken_eq: "cam_req_mgr_workq_get_task (Some wq_new) = (Some 0, Some wq_taken)"
proof -
  have "fst (cam_req_mgr_workq_get_task (Some wq_new)) = Some 0" by code_simp
  then show ?thesis by (auto simp: wq_taken_def cam_req_mgr_workq_get_task_def split: list.splits)
qed


lemma wq_busy_ok: "workq_ok {} wq_busy"
proof -
  let ?w = "upd_task 0 (\<lambda>r. r\<lparr>process_cb := 9\<rparr>) wq_taken"
  have ok: "workq_ok (insert 0 {}) ?w"
    using workq_ok_get [OF wq_new_ok wq_taken_eq] by (simp add: workq_ok_upd_task)
  have rc: "fst (cam_req_mgr_workq_enqueue_task (Some 0) 5 7 (Some ?w)) = 0" by code_simp
  obtain v where "cam_req_mgr_workq_enqueue_task (Some 0) 5 7 (Some ?w) = (0, Some v)"
    using rc by (auto simp: cam_req_mgr_workq_enqueue_task_def Let_def split: if_splits)
  then show ?thesis using workq_ok_enqueue [OF ok] by (fastforce simp: wq_busy_def)
qed





text \<open>one run of \<open>cam_req_mgr_process_workq\<close>, when the callbacks do not queue more work, ends,
  calls every queued task's callback exactly once, all of priority 0 before all of priority 1
  and each in the order queued, and returns all of them to the free list.\<close>

theorem workq_drains_in_order:
  assumes "workq_ok H w" "num_task w < n"
  shows "\<exists>w'. cam_req_mgr_process_workq quiet n w = Some w'
     \<and> wq_calls w' = wq_calls w @ concat (map (call_of w) (process_head w CRM_TASK_PRIORITY_0
          @ process_head w CRM_TASK_PRIORITY_1))
     \<and> process_head w' = (\<lambda>_. [])
     \<and> empty_head w' = empty_head w @ process_head w CRM_TASK_PRIORITY_0 @ process_head w CRM_TASK_PRIORITY_1
     \<and> workq_ok H w' \<and> pending_cnt w' = 0"
proof -
  have "length (places w) = card (set (places w))"
    using assms(1) by (simp add: workq_ok_def distinct_card)
  also have "\<dots> \<le> card {..<num_task w}"
    using assms(1) by (intro card_mono) (auto simp: workq_ok_def)
  finally have "length (places w) < n" using assms(2) by simp
  from process_quiet [OF assms(1) this] obtain w' where w': "cam_req_mgr_process_workq quiet n w = Some w'"
    "wq_calls w' = wq_calls w @ concat (map (call_of w) (process_head w 0 @ process_head w 1))"
    "process_head w' = (\<lambda>_. [])" "empty_head w' = empty_head w @ process_head w 0 @ process_head w 1" by blast
  have "workq_ok H w'" by (rule workq_ok_process [OF _ assms(1) w'(1)]) simp
  moreover from this have "pending_cnt w' = 0" using w'(3) by (simp add: workq_ok_def)
  ultimately show ?thesis using w' by blast
qed

theorem workq_drains_in_order_witness:
  "\<exists>w'. cam_req_mgr_process_workq quiet 4 wq_busy = Some w' \<and> pending_cnt w' = 0"
proof -
  have "num_task wq_busy < 4" by code_simp
  then show ?thesis using workq_drains_in_order [OF wq_busy_ok] by blast
qed

text \<open>a task enqueued after the kernel workqueue is gone is lost: the call returns EINVAL, the
  task is on no list afterwards, and the count of free tasks is not restored.\<close>

theorem workq_enqueue_without_job_loses_task:
  assumes "workq_ok (insert t H) w" "t \<notin> H" "job w = None" "task_cancel (pool w t) \<noteq> 1"
  shows "case cam_req_mgr_workq_enqueue_task (Some t) priv prio (Some w) of (rc, w') \<Rightarrow>
     rc = - EINVAL \<and> t \<notin> set (places (the w')) \<and> free_cnt (the w') = free_cnt w
     \<and> pending_cnt (the w') = pending_cnt w"
  using assms by (auto simp: cam_req_mgr_workq_enqueue_task_def Let_def workq_ok_def places_def)

theorem workq_enqueue_without_job_loses_task_witness:
  "fst (cam_req_mgr_workq_enqueue_task (Some 0) 5 0 (Some (wq_taken\<lparr>job := None\<rparr>))) = - EINVAL"
proof -
  have ok: "workq_ok (insert 0 {}) (wq_taken\<lparr>job := None\<rparr>)"
    using workq_ok_get [OF wq_new_ok wq_taken_eq] by (simp add: workq_ok_def places_def)
  have "task_cancel (pool (wq_taken\<lparr>job := None\<rparr>) 0) \<noteq> 1" by code_simp
  then show ?thesis
    using workq_enqueue_without_job_loses_task [OF ok, of 5 0] by (auto split: prod.splits)
qed

text \<open>creating a work queue. Success gives a queue all of whose tasks are free; when the pool
  cannot be allocated the call fails with ENOMEM, the queue is freed, but the kernel workqueue
  allocated for it stays behind, unlike on every other failure.\<close>

theorem workq_create_outcome:
  "case cam_req_mgr_workq_create kz ok num irq flags None jobs of (rc, w, jobs') \<Rightarrow>
     if kz 0 \<and> ok \<and> kz 1
     then rc = 0 \<and> (\<exists>v. w = Some v \<and> workq_ok {} v \<and> free_cnt v = int num \<and> num_task v = num) \<and> jobs' = jobs + 1
     else rc = - ENOMEM \<and> w = None \<and> jobs' = (if kz 0 \<and> ok then jobs + 1 else jobs)"
proof (cases "kz 0 \<and> ok \<and> kz 1")
  case True
  then obtain v where v: "cam_req_mgr_workq_create kz ok num irq flags None jobs = (0, Some v, jobs + 1)"
    by (simp add: cam_req_mgr_workq_create_def Let_def)
  note c = workq_ok_create [OF v]
  then have "{..<num} = set (places v)" "process_head v 0 @ process_head v 1 = []" "distinct (places v)"
    using v True fold_put [of "\<lparr>job = Some (2 OR (if flags AND 1 \<noteq> 0 then 16 else 0), if flags AND 2 \<noteq> 0 then 1 else 0),
      in_irq = irq, pending_cnt = 0, free_cnt = 0, process_head = (\<lambda>_. []), empty_head = [],
      pool = (\<lambda>_. zero_task), num_task = num, work_queued = False, wq_calls = []\<rparr>" 0 num]
    by (auto simp: workq_ok_def cam_req_mgr_workq_create_def Let_def)
  then have "length (empty_head v) = num"
    by (metis card_lessThan distinct_card append_Nil2 places_def)
  then have "free_cnt v = int num" using c by (simp add: workq_ok_def)
  then show ?thesis using True v c by auto
next
  case False
  then show ?thesis by (auto simp: cam_req_mgr_workq_create_def Let_def)
qed

end
