(* ===== verification/Cam_Mem.thy ===== *)
theory Cam_Mem
  imports Cam_Prelude
begin

text \<open>
  The buffer table of the memory manager, \<open>cam_req_mgr/cam_mem_mgr.c\<close>. A buffer is a slot of
  \<open>bufq\<close>, named by a 32-bit handle that packs the slot index, a secure bit and the low 16 bits
  of the file descriptor. Calls into ION, dma-buf and the SMMU driver are external: each is
  recorded in \<open>ext_trace\<close> in the order it is made, and the \<open>n\<close>-th such call returns what the
  environment's \<open>orc n\<close> says. The mutexes, debugfs and allocation profiling are not represented.
\<close>

section \<open>Data\<close>

abbreviation CAM_MEM_BUFQ_MAX :: nat where "CAM_MEM_BUFQ_MAX \<equiv> 1024"
abbreviation CAM_MEM_MMU_MAX_HANDLE :: nat where "CAM_MEM_MMU_MAX_HANDLE \<equiv> 16"

definition CAM_MEM_FLAG_HW_READ_WRITE :: u32 where "CAM_MEM_FLAG_HW_READ_WRITE = 1"
definition CAM_MEM_FLAG_HW_READ_ONLY :: u32 where "CAM_MEM_FLAG_HW_READ_ONLY = 2"
definition CAM_MEM_FLAG_HW_WRITE_ONLY :: u32 where "CAM_MEM_FLAG_HW_WRITE_ONLY = 4"
definition CAM_MEM_FLAG_KMD_ACCESS :: u32 where "CAM_MEM_FLAG_KMD_ACCESS = 8"
definition CAM_MEM_FLAG_PROTECTED_MODE :: u32 where "CAM_MEM_FLAG_PROTECTED_MODE = 32"
definition CAM_MEM_FLAG_CACHE :: u32 where "CAM_MEM_FLAG_CACHE = 1024"
definition CAM_MEM_FLAG_HW_SHARED_ACCESS :: u32 where "CAM_MEM_FLAG_HW_SHARED_ACCESS = 2048"
definition CAM_MEM_FLAG_CDSP_OUTPUT :: u32 where "CAM_MEM_FLAG_CDSP_OUTPUT = 4096"
definition CAM_MEM_FLAG_DISABLE_DELAYED_UNMAP :: u32 where "CAM_MEM_FLAG_DISABLE_DELAYED_UNMAP = 8192"
definition CAM_MEM_FLAG_KMD_DEBUG_FLAG :: u32 where "CAM_MEM_FLAG_KMD_DEBUG_FLAG = 16384"

definition flag_set :: "u32 \<Rightarrow> u32 \<Rightarrow> bool" where
  "flag_set flags f \<longleftrightarrow> flags AND f \<noteq> 0"

datatype dma_dir = DMA_BIDIRECTIONAL | DMA_TO_DEVICE | DMA_FROM_DEVICE

datatype cam_smmu_region_id = CAM_SMMU_REGION_FIRMWARE | CAM_SMMU_REGION_SHARED
  | CAM_SMMU_REGION_SCRATCH | CAM_SMMU_REGION_IO | CAM_SMMU_REGION_SECHEAP | CAM_SMMU_REGION_QDSS

datatype cam_smmu_mapping_client = CAM_SMMU_MAPPING_USER | CAM_SMMU_MAPPING_KERNEL

text \<open>External calls, with their arguments.\<close>

datatype ext_call =
    Ion_alloc u64 u32 u32
  | Dma_buf_fd ptr
  | Dma_buf_get int
  | Dma_buf_put ptr
  | Dma_buf_get_flags ptr
  | Begin_cpu_access ptr dma_dir
  | End_cpu_access ptr dma_dir
  | Kmap ptr nat
  | Kunmap ptr nat u64
  | Smmu_map_stage2 int int dma_dir
  | Smmu_map_user int int bool dma_dir cam_smmu_region_id
  | Smmu_unmap_stage2 int int
  | Smmu_unmap_user int int cam_smmu_region_id
  | Smmu_map_kernel int ptr cam_smmu_region_id
  | Smmu_unmap_kernel int ptr cam_smmu_region_id
  | Smmu_get_iova int int
  | Smmu_get_stage2_iova int int
  | Smmu_reserve_sec_heap int ptr
  | Smmu_release_sec_heap int

text \<open>What a call returns: a code (or descriptor), an address or pointer, a length.\<close>

record ext_res =
  er_rc :: int
  er_val :: u64
  er_len :: u64

text \<open>The environment: results of calls, the size of a dma-buf, and the ION header's constants.\<close>

record mem_env =
  orc :: "nat \<Rightarrow> ext_res"
  dmabuf_size :: "ptr \<Rightarrow> u64"
  ion_secure_heap :: u32
  ion_default_heaps :: u32
  ION_FLAG_CACHED :: u32
  ion_secure_camera :: u32
  ION_FLAG_CP_CDSP :: u32

record cam_mem_buf_queue =
  dma_buf :: ptr
  hdls :: "int list"
  num_hdl :: nat
  buf_fd :: int
  buf_handle :: u32
  buf_len :: u64
  buf_flags :: u32
  vaddr :: u64
  kmdvaddr :: u64
  active :: bool
  is_imported :: bool

record cam_mem_table =
  mem_initialized :: bool
  mem_bitmap :: bitmap
  bufq :: "nat \<Rightarrow> cam_mem_buf_queue"
  dbg_buf_idx :: u64
  ext_trace :: "ext_call list"

record cam_mem_mgr_alloc_cmd =
  al_len :: u64
  al_mmu_hdls :: "int list"
  al_num_hdl :: u32
  al_flags :: u32

record cam_mem_mgr_map_cmd =
  mp_mmu_hdls :: "int list"
  mp_num_hdl :: u32
  mp_flags :: u32
  mp_fd :: int

record cam_mem_mgr_request_desc =
  rq_size :: u64
  rq_smmu_hdl :: int
  rq_flags :: u32

record cam_mem_mgr_memory_desc =
  md_kva :: u64
  md_iova :: u32
  md_smmu_hdl :: int
  md_mem_handle :: u32
  md_len :: u64
  md_region :: cam_smmu_region_id

definition zero_bufq :: cam_mem_buf_queue where
  "zero_bufq = \<lparr>dma_buf = 0, hdls = replicate 16 0, num_hdl = 0, buf_fd = 0, buf_handle = 0,
     buf_len = 0, buf_flags = 0, vaddr = 0, kmdvaddr = 0, active = False, is_imported = False\<rparr>"

definition upd_buf :: "nat \<Rightarrow> (cam_mem_buf_queue \<Rightarrow> cam_mem_buf_queue) \<Rightarrow> cam_mem_table \<Rightarrow> cam_mem_table" where
  "upd_buf i f s = s\<lparr>bufq := (bufq s)(i := f (bufq s i))\<rparr>"

definition ext :: "mem_env \<Rightarrow> ext_call \<Rightarrow> cam_mem_table \<Rightarrow> ext_res \<times> cam_mem_table" where
  "ext env c s = (orc env (length (ext_trace s)), s\<lparr>ext_trace := ext_trace s @ [c]\<rparr>)"

definition is_err_or_null :: "ptr \<Rightarrow> bool" where
  "is_err_or_null p \<longleftrightarrow> p = 0 \<or> - 4095 \<le> p"

section \<open>Handles\<close>

definition GET_MEM_HANDLE :: "nat \<Rightarrow> int \<Rightarrow> u32" where
  "GET_MEM_HANDLE idx fd = (of_nat idx AND 0x7FFF) OR push_bit 16 (of_int fd)"

definition CAM_MEM_MGR_GET_HDL_IDX :: "u32 \<Rightarrow> nat" where
  "CAM_MEM_MGR_GET_HDL_IDX h = unat (h AND 0x7FFF)"

definition CAM_MEM_MGR_SET_SECURE_HDL :: "u32 \<Rightarrow> bool \<Rightarrow> u32" where
  "CAM_MEM_MGR_SET_SECURE_HDL h flag = (if flag then h OR 0x8000 else h AND NOT 0x8000)"

definition CAM_MEM_MGR_IS_SECURE_HDL :: "u32 \<Rightarrow> bool" where
  "CAM_MEM_MGR_IS_SECURE_HDL h \<longleftrightarrow> drop_bit 15 (h AND 0x8000) \<noteq> 0"

section \<open>Utilities\<close>

definition cam_mem_util_get_dma_dir :: "u32 \<Rightarrow> rc + dma_dir" where
  "cam_mem_util_get_dma_dir flags =
     (if flag_set flags CAM_MEM_FLAG_HW_READ_ONLY then Inr DMA_TO_DEVICE
      else if flag_set flags CAM_MEM_FLAG_HW_WRITE_ONLY then Inr DMA_FROM_DEVICE
      else if flag_set flags CAM_MEM_FLAG_HW_READ_WRITE then Inr DMA_BIDIRECTIONAL
      else if flag_set flags CAM_MEM_FLAG_PROTECTED_MODE then Inr DMA_BIDIRECTIONAL
      else Inl (- EINVAL))"

definition page_count :: "mem_env \<Rightarrow> ptr \<Rightarrow> nat" where
  "page_count env buf = unat (drop_bit 12 (dmabuf_size env buf + 4095))"

definition kunmap_pages :: "mem_env \<Rightarrow> ptr \<Rightarrow> u64 \<Rightarrow> nat \<Rightarrow> cam_mem_table \<Rightarrow> cam_mem_table" where
  "kunmap_pages env buf va n s =
     fold (\<lambda>j s. snd (ext env (Kunmap buf j (va + of_nat j * 4096)) s)) [0..<n] s"

text \<open>The mapping loop: \<open>n\<close> pages from page \<open>i\<close> on; \<open>None\<close> when a page fails.\<close>

fun kmap_loop :: "mem_env \<Rightarrow> ptr \<Rightarrow> nat \<Rightarrow> nat \<Rightarrow> u64 \<Rightarrow> cam_mem_table \<Rightarrow> u64 option \<times> cam_mem_table" where
  "kmap_loop env buf 0 i va s = (Some va, s)"
| "kmap_loop env buf (Suc n) i va s =
     (let (r, s1) = ext env (Kmap buf i) s in
      if is_err_or_null (er_val r) then (None, kunmap_pages env buf va i s1)
      else kmap_loop env buf n (Suc i) (if i = 0 then er_val r else va) s1)"

definition cam_mem_util_map_cpu_va ::
    "mem_env \<Rightarrow> ptr \<Rightarrow> cam_mem_table \<Rightarrow> (rc \<times> u64 \<times> u64) \<times> cam_mem_table" where
  "cam_mem_util_map_cpu_va env buf s =
     (let (r, s1) = ext env (Begin_cpu_access buf DMA_BIDIRECTIONAL) s in
      if er_rc r \<noteq> 0 then ((er_rc r, 0, 0), s1)
      else
        (case kmap_loop env buf (page_count env buf) 0 0 s1 of
           (None, s2) \<Rightarrow> ((- ENOSPC, 0, 0), snd (ext env (End_cpu_access buf DMA_BIDIRECTIONAL) s2))
         | (Some va, s2) \<Rightarrow> ((0, va, dmabuf_size env buf), s2)))"

definition cam_mem_util_unmap_cpu_va ::
    "mem_env \<Rightarrow> ptr \<Rightarrow> u64 \<Rightarrow> cam_mem_table \<Rightarrow> rc \<times> cam_mem_table" where
  "cam_mem_util_unmap_cpu_va env buf va s =
     (if buf = 0 \<or> va = 0 then (- EINVAL, s)
      else
        let s1 = kunmap_pages env buf va (page_count env buf) s;
            (r, s2) = ext env (End_cpu_access buf DMA_BIDIRECTIONAL) s1
        in (er_rc r, s2))"

section \<open>The table\<close>

definition cam_mem_mgr_init :: "bool \<Rightarrow> cam_mem_table \<Rightarrow> rc \<times> cam_mem_table" where
  "cam_mem_mgr_init kz s =
     (let s1 = s\<lparr>bufq := (\<lambda>_. zero_bufq)\<rparr> in
      if \<not> kz then (- ENOMEM, s1)
      else (0, s1\<lparr>mem_bitmap := (\<lambda>i. i = 0),
                  bufq := (\<lambda>i. if 1 \<le> i \<and> i < CAM_MEM_BUFQ_MAX
                               then zero_bufq\<lparr>buf_fd := - 1, buf_handle := - 1\<rparr> else zero_bufq),
                  mem_initialized := True\<rparr>))"

definition cam_mem_get_slot :: "cam_mem_table \<Rightarrow> nat option \<times> cam_mem_table" where
  "cam_mem_get_slot s =
     (let idx = find_first_zero_bit (mem_bitmap s) CAM_MEM_BUFQ_MAX in
      if CAM_MEM_BUFQ_MAX \<le> idx \<or> idx \<le> 0 then (None, s)
      else (Some idx, upd_buf idx (\<lambda>b. b\<lparr>active := True\<rparr>)
                        (s\<lparr>mem_bitmap := (mem_bitmap s)(idx := True)\<rparr>)))"

definition cam_mem_put_slot :: "nat \<Rightarrow> cam_mem_table \<Rightarrow> cam_mem_table" where
  "cam_mem_put_slot idx s =
     (upd_buf idx (\<lambda>b. b\<lparr>active := False\<rparr>) s)\<lparr>mem_bitmap := (mem_bitmap s)(idx := False)\<rparr>"

text \<open>\<open>cam_mem_get_io_buf\<close>: code, iova and length.\<close>

definition cam_mem_get_io_buf ::
    "mem_env \<Rightarrow> u32 \<Rightarrow> int \<Rightarrow> cam_mem_table \<Rightarrow> (rc \<times> u64 \<times> u64) \<times> cam_mem_table" where
  "cam_mem_get_io_buf env bh mmu_handle s =
     (let idx = CAM_MEM_MGR_GET_HDL_IDX bh in
      if \<not> mem_initialized s then ((- EINVAL, 0, 0), s)
      else if CAM_MEM_BUFQ_MAX \<le> idx \<or> idx \<le> 0 then ((- ENOENT, 0, 0), s)
      else if \<not> active (bufq s idx) then ((- EAGAIN, 0, 0), s)
      else if bh \<noteq> buf_handle (bufq s idx) then ((- EINVAL, 0, 0), s)
      else
        let fd = buf_fd (bufq s idx);
            (r, s1) = ext env (if CAM_MEM_MGR_IS_SECURE_HDL bh then Smmu_get_stage2_iova mmu_handle fd
                               else Smmu_get_iova mmu_handle fd) s
        in ((er_rc r, er_val r, er_len r), s1))"

definition cam_mem_get_cpu_buf :: "u32 \<Rightarrow> cam_mem_table \<Rightarrow> rc \<times> (u64 \<times> u64) option" where
  "cam_mem_get_cpu_buf bh s =
     (let idx = CAM_MEM_MGR_GET_HDL_IDX bh; b = bufq s idx in
      if \<not> mem_initialized s then (- EINVAL, None)
      else if bh = 0 then (- EINVAL, None)
      else if CAM_MEM_BUFQ_MAX \<le> idx \<or> idx \<le> 0 then (- EINVAL, None)
      else if \<not> active b then (- EPERM, None)
      else if bh \<noteq> buf_handle b then (- EINVAL, None)
      else if \<not> flag_set (buf_flags b) CAM_MEM_FLAG_KMD_ACCESS then (- EINVAL, None)
      else if kmdvaddr b \<noteq> 0 then (0, Some (kmdvaddr b, buf_len b))
      else (- EINVAL, None))"

definition cam_mem_mgr_cache_ops ::
    "mem_env \<Rightarrow> (u32 \<times> u32) option \<Rightarrow> cam_mem_table \<Rightarrow> rc \<times> cam_mem_table" where
  "cam_mem_mgr_cache_ops env cmd s =
     (if \<not> mem_initialized s then (- EINVAL, s)
      else
        (case cmd of
           None \<Rightarrow> (- EINVAL, s)
         | Some (bh, ops) \<Rightarrow>
             (let idx = CAM_MEM_MGR_GET_HDL_IDX bh; b = bufq s idx in
              if CAM_MEM_BUFQ_MAX \<le> idx \<or> idx \<le> 0 then (- EINVAL, s)
              else if \<not> active b then (- EINVAL, s)
              else if bh \<noteq> buf_handle b then (- EINVAL, s)
              else
                let (r, s1) = ext env (Dma_buf_get_flags (dma_buf b)) s in
                if er_rc r \<noteq> 0 then (er_rc r, s1)
                else if er_val r AND ucast (ION_FLAG_CACHED env) \<noteq> 0
                then (if ops \<noteq> 1 \<and> ops \<noteq> 2 \<and> ops \<noteq> 3 then (- EINVAL, s1)
                      else
                        let cache_dir = (if ops = 1 then DMA_TO_DEVICE
                                         else if ops = 2 then DMA_FROM_DEVICE else DMA_BIDIRECTIONAL);
                            (r2, s2) = ext env (Begin_cpu_access (dma_buf b)
                                         (if ops = 3 then DMA_BIDIRECTIONAL else DMA_TO_DEVICE)) s1 in
                        if er_rc r2 \<noteq> 0 then (er_rc r2, s2)
                        else let (r3, s3) = ext env (End_cpu_access (dma_buf b) cache_dir) s2
                             in (er_rc r3, s3))
                else (er_rc r, s1))))"

definition cam_mem_util_get_dma_buf ::
    "mem_env \<Rightarrow> u64 \<Rightarrow> u32 \<Rightarrow> u32 \<Rightarrow> cam_mem_table \<Rightarrow> (rc \<times> ptr) \<times> cam_mem_table" where
  "cam_mem_util_get_dma_buf env len heap flags s =
     (let (r, s1) = ext env (Ion_alloc len heap flags) s
      in ((if is_err_or_null (er_val r) then - ENOMEM else 0, er_val r), s1))"

definition cam_mem_util_get_dma_buf_fd ::
    "mem_env \<Rightarrow> u64 \<Rightarrow> u32 \<Rightarrow> u32 \<Rightarrow> cam_mem_table \<Rightarrow> (rc \<times> ptr \<times> int) \<times> cam_mem_table" where
  "cam_mem_util_get_dma_buf_fd env len heap flags s =
     (let (r, s1) = ext env (Ion_alloc len heap flags) s; buf = er_val r in
      if is_err_or_null buf then ((- ENOMEM, buf, - 1), s1)
      else
        let (r2, s2) = ext env (Dma_buf_fd buf) s1; fd = er_rc r2 in
        if fd < 0 then ((- EINVAL, buf, fd), snd (ext env (Dma_buf_put buf) s2))
        else
          let (r3, s3) = ext env (Dma_buf_get fd) s2
          in ((if is_err_or_null (er_val r3) then - EINVAL else 0, buf, fd), s3))"

definition cam_mem_util_ion_alloc ::
    "mem_env \<Rightarrow> cam_mem_mgr_alloc_cmd \<Rightarrow> cam_mem_table \<Rightarrow> (rc \<times> ptr \<times> int) \<times> cam_mem_table" where
  "cam_mem_util_ion_alloc env cmd s =
     (let flags = al_flags cmd;
          (heap_id, ion_flag) =
            (if flag_set flags CAM_MEM_FLAG_PROTECTED_MODE \<and> flag_set flags CAM_MEM_FLAG_CDSP_OUTPUT
             then (ion_secure_heap env, ion_secure_camera env OR ION_FLAG_CP_CDSP env)
             else if flag_set flags CAM_MEM_FLAG_PROTECTED_MODE
             then (ion_secure_heap env, ion_secure_camera env)
             else (ion_default_heaps env, 0));
          ion_flag' = (if flag_set flags CAM_MEM_FLAG_CACHE then ion_flag OR ION_FLAG_CACHED env
                       else ion_flag AND NOT (ION_FLAG_CACHED env))
      in cam_mem_util_get_dma_buf_fd env (al_len cmd) heap_id ion_flag' s)"

definition cam_mem_util_check_alloc_flags :: "cam_mem_mgr_alloc_cmd \<Rightarrow> rc" where
  "cam_mem_util_check_alloc_flags cmd =
     (if CAM_MEM_MMU_MAX_HANDLE < unat (al_num_hdl cmd) then - EINVAL
      else if flag_set (al_flags cmd) CAM_MEM_FLAG_PROTECTED_MODE
              \<and> flag_set (al_flags cmd) CAM_MEM_FLAG_KMD_ACCESS then - EINVAL
      else 0)"

definition cam_mem_util_check_map_flags :: "cam_mem_mgr_map_cmd \<Rightarrow> rc" where
  "cam_mem_util_check_map_flags cmd =
     (if mp_flags cmd = 0 then - EINVAL
      else if CAM_MEM_MMU_MAX_HANDLE < unat (mp_num_hdl cmd) then - EINVAL
      else if flag_set (mp_flags cmd) CAM_MEM_FLAG_PROTECTED_MODE
              \<and> flag_set (mp_flags cmd) CAM_MEM_FLAG_KMD_ACCESS then - EINVAL
      else if flag_set (mp_flags cmd) CAM_MEM_FLAG_HW_SHARED_ACCESS then - EINVAL
      else 0)"

text \<open>
  The mapping loop of \<open>cam_mem_util_map_hw_va\<close> over the handles still to map. The result is the
  last code, whether the loop broke off, the loop index, the address and the length.
\<close>

fun map_hw_loop ::
    "mem_env \<Rightarrow> (int \<Rightarrow> ext_call) \<Rightarrow> int list \<Rightarrow> nat \<Rightarrow> rc \<Rightarrow> u64 \<Rightarrow> u64 \<Rightarrow> cam_mem_table
       \<Rightarrow> (rc \<times> bool \<times> nat \<times> u64 \<times> u64) \<times> cam_mem_table" where
  "map_hw_loop env call [] i rc va len s = ((rc, False, i, va, len), s)"
| "map_hw_loop env call (h # hs) i rc va len s =
     (let (r, s1) = ext env (call h) s in
      if er_rc r < 0 then ((er_rc r, True, i, er_val r, er_len r), s1)
      else map_hw_loop env call hs (Suc i) (er_rc r) (er_val r) (er_len r) s1)"

definition cam_mem_util_map_hw_va ::
    "mem_env \<Rightarrow> u32 \<Rightarrow> int list \<Rightarrow> nat \<Rightarrow> int \<Rightarrow> u64 \<Rightarrow> u64 \<Rightarrow> cam_smmu_region_id \<Rightarrow> cam_mem_table
       \<Rightarrow> (rc \<times> u64 \<times> u64) \<times> cam_mem_table" where
  "cam_mem_util_map_hw_va env flags mmu_hdls num fd va len region s =
     (case cam_mem_util_get_dma_dir flags of
        Inl e \<Rightarrow> ((e, va, len), s)
      | Inr dir \<Rightarrow>
          (let dis = flag_set flags CAM_MEM_FLAG_DISABLE_DELAYED_UNMAP;
               prot = flag_set flags CAM_MEM_FLAG_PROTECTED_MODE;
               ((rc, failed, i, va', len'), s1) =
                 map_hw_loop env
                   (\<lambda>h. if prot then Smmu_map_stage2 h fd dir else Smmu_map_user h fd dis dir region)
                   (take num mmu_hdls) 0 (- 1) va len s
           in if \<not> failed then ((rc, va', len'), s1)
              else ((rc, va', len'),
                    fold (\<lambda>j s. snd (ext env (if prot then Smmu_unmap_stage2 (mmu_hdls ! j) fd
                                      else Smmu_unmap_user (mmu_hdls ! j) fd CAM_SMMU_REGION_IO) s))
                      (rev [1..<i]) s1)))"

section \<open>Allocating and mapping\<close>

definition copy_hdls :: "int list \<Rightarrow> nat \<Rightarrow> int list \<Rightarrow> int list" where
  "copy_hdls src n dst = take n src @ drop n dst"

definition mem_handle_of :: "u32 \<Rightarrow> nat \<Rightarrow> int \<Rightarrow> u32" where
  "mem_handle_of flags idx fd =
     (if flag_set flags CAM_MEM_FLAG_PROTECTED_MODE
      then CAM_MEM_MGR_SET_SECURE_HDL (GET_MEM_HANDLE idx fd) True else GET_MEM_HANDLE idx fd)"

text \<open>
  The part of \<open>cam_mem_mgr_alloc_and_map\<close> after the hardware mapping: slot \<open>idx\<close> is filled, the
  CPU mapping made if asked for. On success the result carries handle and descriptor.
\<close>

definition alloc_fill ::
    "mem_env \<Rightarrow> cam_mem_mgr_alloc_cmd \<Rightarrow> nat \<Rightarrow> ptr \<Rightarrow> int \<Rightarrow> rc \<Rightarrow> u64 \<Rightarrow> cam_mem_table
       \<Rightarrow> (rc \<times> (u32 \<times> int) option) \<times> cam_mem_table" where
  "alloc_fill env cmd idx dmabuf fd rc0 hw_vaddr s =
     (let flags = al_flags cmd; num = unat (al_num_hdl cmd);
          s1 = upd_buf idx (\<lambda>b. b\<lparr>buf_fd := fd, dma_buf := 0, buf_flags := flags,
                                  buf_handle := mem_handle_of flags idx fd\<rparr>) s;
          ((rc, kvaddr, klen), s2) =
            (if flag_set flags CAM_MEM_FLAG_KMD_ACCESS then cam_mem_util_map_cpu_va env dmabuf s1
             else ((rc0, 0, 0), s1)) in
      if flag_set flags CAM_MEM_FLAG_KMD_ACCESS \<and> rc \<noteq> 0
      then ((rc, None), snd (ext env (Dma_buf_put dmabuf) (cam_mem_put_slot idx s2)))
      else
        let s3 = (if flag_set flags CAM_MEM_FLAG_KMD_DEBUG_FLAG then s2\<lparr>dbg_buf_idx := of_nat idx\<rparr> else s2);
            s4 = upd_buf idx (\<lambda>b. b\<lparr>kmdvaddr := kvaddr, vaddr := hw_vaddr, dma_buf := dmabuf,
                   buf_len := al_len cmd, num_hdl := num,
                   hdls := copy_hdls (al_mmu_hdls cmd) num (hdls b), is_imported := False\<rparr>) s3
        in ((rc, Some (buf_handle (bufq s4 idx), fd)), s4))"

definition cam_mem_mgr_alloc_and_map ::
    "mem_env \<Rightarrow> cam_mem_mgr_alloc_cmd option \<Rightarrow> cam_mem_table \<Rightarrow> (rc \<times> (u32 \<times> int) option) \<times> cam_mem_table" where
  "cam_mem_mgr_alloc_and_map env cmd s =
     (if \<not> mem_initialized s then ((- EINVAL, None), s)
      else
        (case cmd of
           None \<Rightarrow> ((- EINVAL, None), s)
         | Some cmd \<Rightarrow>
             (let flags = al_flags cmd; rc = cam_mem_util_check_alloc_flags cmd in
              if rc \<noteq> 0 then ((rc, None), s)
              else
                (case cam_mem_util_ion_alloc env cmd s of
                   ((rc, dmabuf, fd), s1) \<Rightarrow>
                     if rc \<noteq> 0 then ((rc, None), s1)
                     else
                       (case cam_mem_get_slot s1 of
                          (None, s2) \<Rightarrow> ((- ENOMEM, None), snd (ext env (Dma_buf_put dmabuf) s2))
                        | (Some idx, s2) \<Rightarrow>
                            (let hw = (flag_set flags CAM_MEM_FLAG_HW_READ_WRITE
                                       \<or> flag_set flags CAM_MEM_FLAG_HW_SHARED_ACCESS
                                       \<or> flag_set flags CAM_MEM_FLAG_PROTECTED_MODE);
                                 region = (if flag_set flags CAM_MEM_FLAG_PROTECTED_MODE
                                           then CAM_SMMU_REGION_SECHEAP
                                           else if flag_set flags CAM_MEM_FLAG_HW_SHARED_ACCESS
                                           then CAM_SMMU_REGION_SHARED else CAM_SMMU_REGION_IO);
                                 ((rc, va, len), s3) =
                                   (if hw then cam_mem_util_map_hw_va env flags (al_mmu_hdls cmd)
                                                 (unat (al_num_hdl cmd)) fd 0 (al_len cmd) region s2
                                    else ((0, 0, al_len cmd), s2))
                             in if rc \<noteq> 0
                                then ((rc, None), snd (ext env (Dma_buf_put dmabuf) (cam_mem_put_slot idx s3)))
                                else alloc_fill env cmd idx dmabuf fd rc va s3))))))"

definition cam_mem_mgr_map ::
    "mem_env \<Rightarrow> cam_mem_mgr_map_cmd option \<Rightarrow> cam_mem_table \<Rightarrow> (rc \<times> u32 option) \<times> cam_mem_table" where
  "cam_mem_mgr_map env cmd s =
     (if \<not> mem_initialized s then ((- EINVAL, None), s)
      else
        (case cmd of
           None \<Rightarrow> ((- EINVAL, None), s)
         | Some cmd \<Rightarrow>
             if mp_fd cmd < 0 then ((- EINVAL, None), s)
             else if CAM_MEM_MMU_MAX_HANDLE < unat (mp_num_hdl cmd) then ((- EINVAL, None), s)
             else if cam_mem_util_check_map_flags cmd \<noteq> 0
             then ((cam_mem_util_check_map_flags cmd, None), s)
             else
               (let flags = mp_flags cmd; num = unat (mp_num_hdl cmd); fd = mp_fd cmd;
                    (r, s1) = ext env (Dma_buf_get fd) s; dmabuf = er_val r in
                if is_err_or_null dmabuf then ((- EINVAL, None), s1)
                else
                  let ((rc, va, len), s2) =
                    (if flag_set flags CAM_MEM_FLAG_HW_READ_WRITE
                        \<or> flag_set flags CAM_MEM_FLAG_PROTECTED_MODE
                     then cam_mem_util_map_hw_va env flags (mp_mmu_hdls cmd) num fd 0 0
                            CAM_SMMU_REGION_IO s1
                     else ((0, 0, 0), s1)) in
                  if rc \<noteq> 0 then ((rc, None), snd (ext env (Dma_buf_put dmabuf) s2))
                  else
                    (case cam_mem_get_slot s2 of
                       (None, s3) \<Rightarrow> ((- ENOMEM, None), snd (ext env (Dma_buf_put dmabuf) s3))
                     | (Some idx, s3) \<Rightarrow>
                         (let s4 = upd_buf idx (\<lambda>b. b\<lparr>buf_fd := fd, buf_flags := flags,
                                buf_handle := mem_handle_of flags idx fd, kmdvaddr := 0,
                                vaddr := (if 0 < num then va else 0), dma_buf := dmabuf,
                                buf_len := len, num_hdl := num,
                                hdls := copy_hdls (mp_mmu_hdls cmd) num (hdls b), is_imported := True\<rparr>) s3
                          in ((rc, Some (buf_handle (bufq s4 idx))), s4))))))"

section \<open>Unmapping\<close>

text \<open>The unmapping loop stops at the first negative code.\<close>

fun unmap_hw_loop :: "mem_env \<Rightarrow> (int \<Rightarrow> ext_call) \<Rightarrow> int list \<Rightarrow> rc \<Rightarrow> cam_mem_table \<Rightarrow> rc \<times> cam_mem_table" where
  "unmap_hw_loop env call [] rc s = (rc, s)"
| "unmap_hw_loop env call (h # hs) rc s =
     (let (r, s1) = ext env (call h) s in
      if er_rc r < 0 then (er_rc r, s1) else unmap_hw_loop env call hs (er_rc r) s1)"

definition cam_mem_util_unmap_hw_va ::
    "mem_env \<Rightarrow> nat \<Rightarrow> cam_smmu_region_id \<Rightarrow> cam_smmu_mapping_client \<Rightarrow> cam_mem_table \<Rightarrow> rc \<times> cam_mem_table" where
  "cam_mem_util_unmap_hw_va env idx region client s =
     (if CAM_MEM_BUFQ_MAX \<le> idx \<or> idx \<le> 0 then (- EINVAL, s)
      else
        let b = bufq s idx in
        unmap_hw_loop env
          (\<lambda>h. if flag_set (buf_flags b) CAM_MEM_FLAG_PROTECTED_MODE then Smmu_unmap_stage2 h (buf_fd b)
               else (case client of
                       CAM_SMMU_MAPPING_USER \<Rightarrow> Smmu_unmap_user h (buf_fd b) region
                     | CAM_SMMU_MAPPING_KERNEL \<Rightarrow> Smmu_unmap_kernel h (dma_buf b) region))
          (take (num_hdl b) (hdls b)) 0 s)"

definition unmap_region :: "u32 \<Rightarrow> cam_smmu_region_id" where
  "unmap_region flags =
     (if flag_set flags CAM_MEM_FLAG_HW_SHARED_ACCESS then CAM_SMMU_REGION_SHARED
      else if flag_set flags CAM_MEM_FLAG_HW_READ_WRITE then CAM_SMMU_REGION_IO
      else CAM_SMMU_REGION_SHARED)"

definition cam_mem_mgr_unmap_active_buf :: "mem_env \<Rightarrow> nat \<Rightarrow> cam_mem_table \<Rightarrow> cam_mem_table" where
  "cam_mem_mgr_unmap_active_buf env idx s =
     snd (cam_mem_util_unmap_hw_va env idx (unmap_region (buf_flags (bufq s idx))) CAM_SMMU_MAPPING_USER s)"

definition put_dma_buf :: "mem_env \<Rightarrow> nat \<Rightarrow> cam_mem_table \<Rightarrow> cam_mem_table" where
  "put_dma_buf env i s =
     (if dma_buf (bufq s i) \<noteq> 0 then snd (ext env (Dma_buf_put (dma_buf (bufq s i))) s) else s)"

definition cleanup_slot :: "mem_env \<Rightarrow> nat \<Rightarrow> cam_mem_table \<Rightarrow> cam_mem_table" where
  "cleanup_slot env i s =
     (if \<not> active (bufq s i) then s
      else
        upd_buf i (\<lambda>b. b\<lparr>dma_buf := 0, buf_fd := - 1, buf_flags := 0, buf_handle := - 1, vaddr := 0,
            buf_len := 0, hdls := replicate (num_hdl b) 0 @ drop (num_hdl b) (hdls b),
            num_hdl := 0, active := False\<rparr>)
          (put_dma_buf env i (cam_mem_mgr_unmap_active_buf env i s)))"

definition cam_mem_mgr_cleanup_table :: "mem_env \<Rightarrow> cam_mem_table \<Rightarrow> cam_mem_table" where
  "cam_mem_mgr_cleanup_table env s =
     (fold (cleanup_slot env) [1..<CAM_MEM_BUFQ_MAX] s)\<lparr>mem_bitmap := (\<lambda>i. i = 0)\<rparr>"

definition cam_mem_mgr_deinit :: "mem_env \<Rightarrow> cam_mem_table \<Rightarrow> cam_mem_table" where
  "cam_mem_mgr_deinit env s =
     (cam_mem_mgr_cleanup_table env (s\<lparr>mem_initialized := False\<rparr>))
       \<lparr>mem_bitmap := (\<lambda>_. False), dbg_buf_idx := - 1\<rparr>"

definition cam_mem_util_unmap ::
    "mem_env \<Rightarrow> nat \<Rightarrow> cam_smmu_mapping_client \<Rightarrow> cam_mem_table \<Rightarrow> rc \<times> cam_mem_table" where
  "cam_mem_util_unmap env idx client s =
     (if CAM_MEM_BUFQ_MAX \<le> idx \<or> idx \<le> 0 then (- EINVAL, s)
      else
        let b = bufq s idx; flags = buf_flags b in
        if \<not> active b \<and> vaddr b = 0 then (0, s)
        else
          let (rc, s1) =
                (if flag_set flags CAM_MEM_FLAG_KMD_ACCESS \<and> dma_buf b \<noteq> 0 \<and> kmdvaddr b \<noteq> 0
                 then cam_mem_util_unmap_cpu_va env (dma_buf b) (kmdvaddr b) s else (0, s));
              s2 = (if flag_set flags CAM_MEM_FLAG_HW_READ_WRITE
                       \<or> flag_set flags CAM_MEM_FLAG_HW_SHARED_ACCESS
                       \<or> flag_set flags CAM_MEM_FLAG_PROTECTED_MODE
                    then (let s' = snd (cam_mem_util_unmap_hw_va env idx (unmap_region flags) client s1)
                          in if client = CAM_SMMU_MAPPING_KERNEL
                             then upd_buf idx (\<lambda>b. b\<lparr>dma_buf := 0\<rparr>) s' else s')
                    else s1);
              s3 = upd_buf idx (\<lambda>b. b\<lparr>buf_flags := 0, buf_handle := - 1, vaddr := 0,
                     hdls := replicate CAM_MEM_MMU_MAX_HANDLE 0\<rparr>) s2;
              s4 = put_dma_buf env idx s3;
              s5 = upd_buf idx (\<lambda>b. b\<lparr>buf_fd := - 1, dma_buf := 0, is_imported := False,
                     buf_len := 0, num_hdl := 0, active := False\<rparr>) s4
          in (rc, s5\<lparr>mem_bitmap := (mem_bitmap s5)(idx := False)\<rparr>))"

definition cam_mem_mgr_release ::
    "mem_env \<Rightarrow> u32 option \<Rightarrow> cam_mem_table \<Rightarrow> rc \<times> cam_mem_table" where
  "cam_mem_mgr_release env cmd s =
     (if \<not> mem_initialized s then (- EINVAL, s)
      else
        (case cmd of
           None \<Rightarrow> (- EINVAL, s)
         | Some bh \<Rightarrow>
             (let idx = CAM_MEM_MGR_GET_HDL_IDX bh in
              if CAM_MEM_BUFQ_MAX \<le> idx \<or> idx \<le> 0 then (- EINVAL, s)
              else if \<not> active (bufq s idx) then (- EINVAL, s)
              else if buf_handle (bufq s idx) \<noteq> bh then (- EINVAL, s)
              else cam_mem_util_unmap env idx CAM_SMMU_MAPPING_USER s)))"

section \<open>Kernel memory\<close>

definition cam_mem_mgr_request_mem ::
    "mem_env \<Rightarrow> cam_mem_mgr_request_desc option \<Rightarrow> bool \<Rightarrow> cam_mem_table
       \<Rightarrow> (rc \<times> cam_mem_mgr_memory_desc option) \<times> cam_mem_table" where
  "cam_mem_mgr_request_mem env inp out s =
     (if \<not> mem_initialized s then ((- EINVAL, None), s)
      else
        (case inp of
           None \<Rightarrow> ((- EINVAL, None), s)
         | Some q \<Rightarrow>
             if \<not> out then ((- EINVAL, None), s)
             else if \<not> (flag_set (rq_flags q) CAM_MEM_FLAG_HW_READ_WRITE
                        \<or> flag_set (rq_flags q) CAM_MEM_FLAG_HW_SHARED_ACCESS
                        \<or> flag_set (rq_flags q) CAM_MEM_FLAG_CACHE) then ((- EINVAL, None), s)
             else
               (let ion_flag = (if flag_set (rq_flags q) CAM_MEM_FLAG_CACHE then ION_FLAG_CACHED env else 0);
                    ((rc, buf), s1) = cam_mem_util_get_dma_buf env (rq_size q) (ion_default_heaps env) ion_flag s in
                if rc \<noteq> 0 then ((rc, None), s1)
                else
                  let flags = rq_flags q OR CAM_MEM_FLAG_KMD_ACCESS;
                      ((rc, kvaddr, klen), s2) = cam_mem_util_map_cpu_va env buf s1 in
                  if rc \<noteq> 0 then ((rc, None), snd (ext env (Dma_buf_put buf) s2))
                  else if rq_smmu_hdl q = 0
                  then ((- EINVAL, None), snd (ext env (Dma_buf_put buf)
                          (snd (cam_mem_util_unmap_cpu_va env buf kvaddr s2))))
                  else
                    let region = unmap_region flags;
                        (r, s3) = ext env (Smmu_map_kernel (rq_smmu_hdl q) buf region) s2 in
                    if er_rc r < 0
                    then ((er_rc r, None), snd (ext env (Dma_buf_put buf)
                            (snd (cam_mem_util_unmap_cpu_va env buf kvaddr s3))))
                    else
                      (case cam_mem_get_slot s3 of
                         (None, s4) \<Rightarrow>
                           ((- ENOMEM, None), snd (ext env (Dma_buf_put buf)
                             (snd (cam_mem_util_unmap_cpu_va env buf kvaddr
                               (snd (ext env (Smmu_unmap_kernel (rq_smmu_hdl q) buf region) s4))))))
                       | (Some idx, s4) \<Rightarrow>
                           (let mem_handle = GET_MEM_HANDLE idx (- 1);
                                s5 = upd_buf idx (\<lambda>b. b\<lparr>dma_buf := buf, buf_fd := - 1, buf_flags := flags,
                                       buf_handle := mem_handle, kmdvaddr := kvaddr, vaddr := er_val r,
                                       buf_len := rq_size q, num_hdl := 1,
                                       hdls := copy_hdls [rq_smmu_hdl q] 1 (hdls b), is_imported := False\<rparr>) s4
                            in ((er_rc r, Some \<lparr>md_kva = kvaddr, md_iova = ucast (er_val r),
                                   md_smmu_hdl = rq_smmu_hdl q, md_mem_handle = mem_handle,
                                   md_len = rq_size q, md_region = region\<rparr>), s5))))))"

definition cam_mem_mgr_release_mem ::
    "mem_env \<Rightarrow> cam_mem_mgr_memory_desc option \<Rightarrow> cam_mem_table \<Rightarrow> rc \<times> cam_mem_table" where
  "cam_mem_mgr_release_mem env inp s =
     (if \<not> mem_initialized s then (- EINVAL, s)
      else
        (case inp of
           None \<Rightarrow> (- EINVAL, s)
         | Some m \<Rightarrow>
             (let idx = CAM_MEM_MGR_GET_HDL_IDX (md_mem_handle m) in
              if CAM_MEM_BUFQ_MAX \<le> idx \<or> idx \<le> 0 then (- EINVAL, s)
              else if \<not> active (bufq s idx)
              then (if vaddr (bufq s idx) = 0 then (0, s) else (- EINVAL, s))
              else if buf_handle (bufq s idx) \<noteq> md_mem_handle m then (- EINVAL, s)
              else cam_mem_util_unmap env idx CAM_SMMU_MAPPING_KERNEL s)))"

definition cam_mem_mgr_reserve_memory_region ::
    "mem_env \<Rightarrow> cam_mem_mgr_request_desc option \<Rightarrow> cam_smmu_region_id \<Rightarrow> bool \<Rightarrow> cam_mem_table
       \<Rightarrow> (rc \<times> cam_mem_mgr_memory_desc option) \<times> cam_mem_table" where
  "cam_mem_mgr_reserve_memory_region env inp region out s =
     (if \<not> mem_initialized s then ((- EINVAL, None), s)
      else
        (case inp of
           None \<Rightarrow> ((- EINVAL, None), s)
         | Some q \<Rightarrow>
             if \<not> out then ((- EINVAL, None), s)
             else if rq_smmu_hdl q = 0 then ((- EINVAL, None), s)
             else if region \<noteq> CAM_SMMU_REGION_SECHEAP then ((- EINVAL, None), s)
             else
               (let ((rc, buf), s1) = cam_mem_util_get_dma_buf env (rq_size q) (ion_default_heaps env) 0 s in
                if rc \<noteq> 0 then ((rc, None), s1)
                else
                  let (r, s2) = ext env (Smmu_reserve_sec_heap (rq_smmu_hdl q) buf) s1 in
                  if er_rc r \<noteq> 0 then ((er_rc r, None), snd (ext env (Dma_buf_put buf) s2))
                  else
                    (case cam_mem_get_slot s2 of
                       (None, s3) \<Rightarrow>
                         ((- ENOMEM, None), snd (ext env (Dma_buf_put buf)
                            (snd (ext env (Smmu_release_sec_heap (rq_smmu_hdl q)) s3))))
                     | (Some idx, s3) \<Rightarrow>
                         (let mem_handle = GET_MEM_HANDLE idx (- 1);
                              s4 = upd_buf idx (\<lambda>b. b\<lparr>buf_fd := - 1, dma_buf := buf, buf_flags := rq_flags q,
                                     buf_handle := mem_handle, kmdvaddr := 0, vaddr := er_val r,
                                     buf_len := er_len r, num_hdl := 1,
                                     hdls := copy_hdls [rq_smmu_hdl q] 1 (hdls b), is_imported := False\<rparr>) s3
                          in ((er_rc r, Some \<lparr>md_kva = 0, md_iova = ucast (er_val r),
                                 md_smmu_hdl = rq_smmu_hdl q, md_mem_handle = mem_handle,
                                 md_len = er_len r, md_region = region\<rparr>), s4))))))"

definition cam_mem_mgr_free_memory_region ::
    "mem_env \<Rightarrow> cam_mem_mgr_memory_desc option \<Rightarrow> cam_mem_table \<Rightarrow> rc \<times> cam_mem_table" where
  "cam_mem_mgr_free_memory_region env inp s =
     (if \<not> mem_initialized s then (- EINVAL, s)
      else
        (case inp of
           None \<Rightarrow> (- EINVAL, s)
         | Some m \<Rightarrow>
             if md_region m \<noteq> CAM_SMMU_REGION_SECHEAP then (- EINVAL, s)
             else
               (let idx = CAM_MEM_MGR_GET_HDL_IDX (md_mem_handle m); b = bufq s idx in
                if CAM_MEM_BUFQ_MAX \<le> idx \<or> idx \<le> 0 then (- EINVAL, s)
                else if \<not> active b then (if vaddr b = 0 then (0, s) else (- EINVAL, s))
                else if buf_handle b \<noteq> md_mem_handle m then (- EINVAL, s)
                else if num_hdl b \<noteq> 1 then (- ENODEV, s)
                else if md_smmu_hdl m \<noteq> hdls b ! 0 then (- ENODEV, s)
                else
                  let (r, s1) = ext env (Smmu_release_sec_heap (md_smmu_hdl m)) s in
                  if er_rc r \<noteq> 0 then (- ENODEV, s1)
                  else cam_mem_util_unmap env idx CAM_SMMU_MAPPING_KERNEL s1)))"

end
