(* ===== verification/Cam_Mem_Inv.thy ===== *)
theory Cam_Mem_Inv
  imports Cam_Mem
begin

text \<open>
  Invariant, accounting and properties of the buffer table. External calls change nothing but
  the trace, which reduces every preservation proof to the few places where slots are written.
\<close>

section \<open>Handles\<close>

lemma and_0x7FFF: "(w :: u32) AND 0x7FFF = take_bit 15 w"
  by (simp add: take_bit_eq_mask mask_eq_exp_minus_1)

lemma mem_handle_idx:
  assumes "idx < 32768"
  shows "CAM_MEM_MGR_GET_HDL_IDX (GET_MEM_HANDLE idx fd) = idx"
    "CAM_MEM_MGR_GET_HDL_IDX (CAM_MEM_MGR_SET_SECURE_HDL (GET_MEM_HANDLE idx fd) True) = idx"
proof -
  have t: "take_bit 15 (of_nat idx :: u32) = of_nat idx"
    using assms by (simp add: take_bit_nat_eq_self flip: of_nat_take_bit)
  have z: "take_bit 15 (push_bit 16 (of_int fd :: u32)) = 0" "take_bit 15 (0x8000 :: u32) = 0"
    by (simp_all add: take_bit_push_bit)
  show "CAM_MEM_MGR_GET_HDL_IDX (GET_MEM_HANDLE idx fd) = idx"
    "CAM_MEM_MGR_GET_HDL_IDX (CAM_MEM_MGR_SET_SECURE_HDL (GET_MEM_HANDLE idx fd) True) = idx"
    using assms t z
    by (simp_all add: CAM_MEM_MGR_GET_HDL_IDX_def GET_MEM_HANDLE_def CAM_MEM_MGR_SET_SECURE_HDL_def
        and_0x7FFF unat_of_nat)
qed

lemma mem_handle_of_idx: "idx < CAM_MEM_BUFQ_MAX \<Longrightarrow> CAM_MEM_MGR_GET_HDL_IDX (mem_handle_of flags idx fd) = idx"
  using mem_handle_idx [of idx fd] by (simp add: mem_handle_of_def)

lemma secure_bit: "CAM_MEM_MGR_IS_SECURE_HDL h \<longleftrightarrow> bit h 15"
proof -
  have "drop_bit 15 (h AND 0x8000) = drop_bit 15 h AND 1" by (simp add: drop_bit_and)
  then show ?thesis
    by (simp add: CAM_MEM_MGR_IS_SECURE_HDL_def and_one_eq bit_iff_odd_drop_bit odd_iff_mod_2_eq_one)
qed

lemma mem_handle_secure:
  "CAM_MEM_MGR_IS_SECURE_HDL (mem_handle_of flags idx fd) \<longleftrightarrow> flag_set flags CAM_MEM_FLAG_PROTECTED_MODE"
proof -
  have a: "\<not> bit (GET_MEM_HANDLE idx fd) 15"
    by (simp add: GET_MEM_HANDLE_def and_0x7FFF bit_simps)
  have b: "bit (0x8000 :: u32) 15" by (simp add: bit_numeral_rec)
  show ?thesis using a b by (simp add: secure_bit mem_handle_of_def CAM_MEM_MGR_SET_SECURE_HDL_def bit_simps)
qed

section \<open>Calls that only extend the trace\<close>

definition only_trace :: "cam_mem_table \<Rightarrow> cam_mem_table \<Rightarrow> bool" where
  "only_trace s s' \<longleftrightarrow> s' = s\<lparr>ext_trace := ext_trace s'\<rparr>"

lemma only_trace_refl [simp]: "only_trace s s"
  by (simp add: only_trace_def)

lemma only_trace_trans: "only_trace s t \<Longrightarrow> only_trace t u \<Longrightarrow> only_trace s u"
  unfolding only_trace_def by (metis cam_mem_table.surjective cam_mem_table.update_convs(5))

lemma only_traceD:
  assumes "only_trace s s'"
  shows "mem_initialized s' = mem_initialized s" "mem_bitmap s' = mem_bitmap s" "bufq s' = bufq s"
    "dbg_buf_idx s' = dbg_buf_idx s"
proof -
  have "s' = s\<lparr>ext_trace := ext_trace s'\<rparr>" using assms by (simp add: only_trace_def)
  then show "mem_initialized s' = mem_initialized s" "mem_bitmap s' = mem_bitmap s" "bufq s' = bufq s"
    "dbg_buf_idx s' = dbg_buf_idx s"
    by (metis cam_mem_table.ext_inject cam_mem_table.surjective cam_mem_table.update_convs(5))+
qed

lemma only_trace_ext [simp]: "only_trace s (snd (ext env c s))"
  by (simp add: only_trace_def ext_def)

lemma ext_pair: "ext env c s = (r, s') \<Longrightarrow> only_trace s s'"
  using only_trace_ext [of s env c] by simp

lemma only_trace_fold:
  "(\<And>x t. only_trace t (f x t)) \<Longrightarrow> only_trace s (fold f xs s)"
  by (induction xs arbitrary: s) (auto intro: only_trace_trans)

lemma only_trace_kunmap: "only_trace s (kunmap_pages env buf va n s)"
  unfolding kunmap_pages_def by (rule only_trace_fold) simp

lemma only_trace_kmap: "only_trace s (snd (kmap_loop env buf n i va s))"
proof (induction env buf n i va s rule: kmap_loop.induct)
  case (2 env buf n i va s)
  obtain r s1 where e: "ext env (Kmap buf i) s = (r, s1)" by fastforce
  note t = ext_pair [OF e]
  show ?case
    using 2 e t only_trace_kunmap only_trace_trans by (auto simp: Let_def split: if_splits)
qed simp

lemma only_trace_map_cpu: "only_trace s (snd (cam_mem_util_map_cpu_va env buf s))"
proof -
  obtain r s1 where e: "ext env (Begin_cpu_access buf DMA_BIDIRECTIONAL) s = (r, s1)" by fastforce
  obtain v s2 where k: "kmap_loop env buf (page_count env buf) 0 0 s1 = (v, s2)" by fastforce
  have a: "only_trace s s1" by (rule ext_pair [OF e])
  have b: "only_trace s1 s2" using only_trace_kmap [of s1 env buf "page_count env buf" 0 0] k by simp
  have c: "only_trace s2 (snd (ext env (End_cpu_access buf DMA_BIDIRECTIONAL) s2))" by simp
  show ?thesis
    using a only_trace_trans [OF a b] only_trace_trans [OF only_trace_trans [OF a b] c]
    by (cases v) (simp_all add: cam_mem_util_map_cpu_va_def e k)
qed

lemma only_trace_unmap_cpu: "only_trace s (snd (cam_mem_util_unmap_cpu_va env buf va s))"
  using only_trace_trans [OF only_trace_kunmap only_trace_ext]
  by (simp add: cam_mem_util_unmap_cpu_va_def Let_def split_beta)

lemma only_trace_map_hw_loop: "only_trace s (snd (map_hw_loop env call hs i rc va len s))"
proof (induction env call hs i rc va len s rule: map_hw_loop.induct)
  case (2 env call h hs i rc va len s)
  obtain r s1 where e: "ext env (call h) s = (r, s1)" by fastforce
  show ?case using 2 e ext_pair [OF e] only_trace_trans by (auto simp: Let_def)
qed simp

lemma only_trace_map_hw: "only_trace s (snd (cam_mem_util_map_hw_va env flags hs n fd va len region s))"
proof (cases "cam_mem_util_get_dma_dir flags")
  case (Inr dir)
  let ?prot = "flag_set flags CAM_MEM_FLAG_PROTECTED_MODE"
  let ?call = "\<lambda>h. if ?prot then Smmu_map_stage2 h fd dir
      else Smmu_map_user h fd (flag_set flags CAM_MEM_FLAG_DISABLE_DELAYED_UNMAP) dir region"
  obtain x s1 where l: "map_hw_loop env ?call (take n hs) 0 (- 1) va len s = (x, s1)" by fastforce
  obtain rc failed i va' len' where x: "x = (rc, failed, i, va', len')" by (cases x)
  have a: "only_trace s s1" using only_trace_map_hw_loop [of s env ?call "take n hs" 0 "- 1" va len] l by simp
  have "only_trace s1 (fold (\<lambda>j s. snd (ext env (if ?prot then Smmu_unmap_stage2 (hs ! j) fd
      else Smmu_unmap_user (hs ! j) fd CAM_SMMU_REGION_IO) s)) (rev [1..<i]) s1)"
    by (rule only_trace_fold) simp
  then show ?thesis
    using a only_trace_trans [OF a] by (simp add: cam_mem_util_map_hw_va_def Inr l x Let_def)
qed (simp add: cam_mem_util_map_hw_va_def)

lemma only_trace_unmap_hw_loop: "only_trace s (snd (unmap_hw_loop env call hs rc s))"
proof (induction env call hs rc s rule: unmap_hw_loop.induct)
  case (2 env call h hs rc s)
  obtain r s1 where e: "ext env (call h) s = (r, s1)" by fastforce
  show ?case using 2 e ext_pair [OF e] only_trace_trans by (auto simp: Let_def)
qed simp

lemma only_trace_unmap_hw: "only_trace s (snd (cam_mem_util_unmap_hw_va env idx region client s))"
  by (simp add: cam_mem_util_unmap_hw_va_def Let_def only_trace_unmap_hw_loop)

lemma only_trace_get_dma_buf: "only_trace s (snd (cam_mem_util_get_dma_buf env len heap flags s))"
  by (simp add: cam_mem_util_get_dma_buf_def Let_def split_beta)

lemma only_trace_get_dma_buf_fd: "only_trace s (snd (cam_mem_util_get_dma_buf_fd env len heap flags s))"
proof -
  obtain r1 s1 where 1: "ext env (Ion_alloc len heap flags) s = (r1, s1)" by fastforce
  obtain r2 s2 where 2: "ext env (Dma_buf_fd (er_val r1)) s1 = (r2, s2)" by fastforce
  obtain r3 s3 where 3: "ext env (Dma_buf_get (er_rc r2)) s2 = (r3, s3)" by fastforce
  note a = ext_pair [OF 1] only_trace_trans [OF ext_pair [OF 1] ext_pair [OF 2]]
  note b = only_trace_trans [OF a(2) ext_pair [OF 3]] only_trace_trans [OF a(2) only_trace_ext]
  show ?thesis using a b by (simp add: cam_mem_util_get_dma_buf_fd_def 1 2 3 Let_def)
qed

lemma only_trace_ion_alloc: "only_trace s (snd (cam_mem_util_ion_alloc env cmd s))"
  by (simp add: cam_mem_util_ion_alloc_def Let_def split_beta only_trace_get_dma_buf_fd)

lemma only_trace_put: "only_trace s (put_dma_buf env i s)"
  by (simp add: put_dma_buf_def)

section \<open>The invariant\<close>

definition buf_ok :: "nat \<Rightarrow> cam_mem_buf_queue \<Rightarrow> bool" where
  "buf_ok i b \<longleftrightarrow> active b \<longrightarrow> 0 < i \<and> i < CAM_MEM_BUFQ_MAX
     \<and> CAM_MEM_MGR_GET_HDL_IDX (buf_handle b) = i \<and> num_hdl b \<le> CAM_MEM_MMU_MAX_HANDLE"

definition mem_ok :: "cam_mem_table \<Rightarrow> bool" where
  "mem_ok s \<longleftrightarrow> mem_bitmap s 0
     \<and> (\<forall>i. 0 < i \<longrightarrow> i < CAM_MEM_BUFQ_MAX \<longrightarrow> mem_bitmap s i = active (bufq s i))
     \<and> (\<forall>i. buf_ok i (bufq s i))"

definition mem_wf :: "cam_mem_table \<Rightarrow> bool" where
  "mem_wf s \<longleftrightarrow> mem_initialized s \<longrightarrow> mem_ok s"

text \<open>Nothing a client can observe of the active buffers changes.\<close>

definition same_active :: "cam_mem_table \<Rightarrow> cam_mem_table \<Rightarrow> bool" where
  "same_active s s' \<longleftrightarrow> mem_initialized s' = mem_initialized s \<and> mem_bitmap s' = mem_bitmap s
     \<and> (\<forall>i. active (bufq s' i) = active (bufq s i))
     \<and> (\<forall>i. active (bufq s i) \<longrightarrow> bufq s' i = bufq s i)"

lemma same_active_trace: "only_trace s s' \<Longrightarrow> same_active s s'"
  by (simp add: same_active_def only_traceD)

lemma same_active_trace_left: "only_trace s t \<Longrightarrow> same_active t u \<Longrightarrow> same_active s u"
  by (simp add: same_active_def only_traceD)

lemma same_active_trace_right: "same_active s t \<Longrightarrow> only_trace t u \<Longrightarrow> same_active s u"
  by (simp add: same_active_def only_traceD)

lemma same_active_ok: "mem_ok s \<Longrightarrow> same_active s s' \<Longrightarrow> mem_ok s'"
  by (auto simp: mem_ok_def same_active_def buf_ok_def)

text \<open>A slot has been filled, or emptied.\<close>

definition filled :: "nat \<Rightarrow> cam_mem_buf_queue \<Rightarrow> cam_mem_table \<Rightarrow> cam_mem_table \<Rightarrow> bool" where
  "filled idx b s s' \<longleftrightarrow> bufq s' = (bufq s)(idx := b) \<and> mem_bitmap s' = (mem_bitmap s)(idx := True)
     \<and> mem_initialized s' = mem_initialized s"

definition emptied :: "nat \<Rightarrow> cam_mem_table \<Rightarrow> cam_mem_table \<Rightarrow> bool" where
  "emptied idx s s' \<longleftrightarrow> (\<exists>b. \<not> active b \<and> vaddr b = 0 \<and> buf_handle b = - 1 \<and> dma_buf b = 0
       \<and> bufq s' = (bufq s)(idx := b))
     \<and> mem_bitmap s' = (mem_bitmap s)(idx := False) \<and> mem_initialized s' = mem_initialized s"

lemma filled_ok: "mem_ok s \<Longrightarrow> filled idx b s s' \<Longrightarrow> active b \<Longrightarrow> buf_ok idx b \<Longrightarrow> mem_ok s'"
  by (auto simp: mem_ok_def filled_def buf_ok_def)

lemma emptied_ok: "mem_ok s \<Longrightarrow> emptied idx s s' \<Longrightarrow> 0 < idx \<Longrightarrow> mem_ok s'"
  by (auto simp: mem_ok_def emptied_def buf_ok_def split: if_splits)

lemma filled_trace_left: "only_trace s t \<Longrightarrow> filled idx b t u \<Longrightarrow> filled idx b s u"
  by (simp add: filled_def only_traceD)

section \<open>Slots\<close>

lemma upd_buf_simps [simp]:
  "bufq (upd_buf i f s) = (bufq s)(i := f (bufq s i))" "mem_bitmap (upd_buf i f s) = mem_bitmap s"
  "mem_initialized (upd_buf i f s) = mem_initialized s" "ext_trace (upd_buf i f s) = ext_trace s"
  by (simp_all add: upd_buf_def)

definition slot_taken :: "nat \<Rightarrow> cam_mem_table \<Rightarrow> cam_mem_table" where
  "slot_taken idx s = upd_buf idx (\<lambda>b. b\<lparr>active := True\<rparr>) (s\<lparr>mem_bitmap := (mem_bitmap s)(idx := True)\<rparr>)"

lemma get_slot_cases:
  assumes "mem_bitmap s 0"
  obtains (full) "cam_mem_get_slot s = (None, s)" "\<forall>i < CAM_MEM_BUFQ_MAX. mem_bitmap s i"
  | (free) idx where "0 < idx" "idx < CAM_MEM_BUFQ_MAX" "\<not> mem_bitmap s idx"
      "cam_mem_get_slot s = (Some idx, slot_taken idx s)"
proof (cases "CAM_MEM_BUFQ_MAX \<le> find_first_zero_bit (mem_bitmap s) CAM_MEM_BUFQ_MAX")
  case True
  have "cam_mem_get_slot s = (None, s)" using True by (simp add: cam_mem_get_slot_def)
  then show thesis using full True by (simp only: ffz_full_iff)
next
  case False
  let ?i = "find_first_zero_bit (mem_bitmap s) CAM_MEM_BUFQ_MAX"
  have i: "0 < ?i" "?i < CAM_MEM_BUFQ_MAX" "\<not> mem_bitmap s ?i"
    using False ffz_pos [of "mem_bitmap s" CAM_MEM_BUFQ_MAX] assms
      ffz_free [of "mem_bitmap s" CAM_MEM_BUFQ_MAX] by auto
  then show thesis using free [OF i] by (simp add: cam_mem_get_slot_def Let_def slot_taken_def)
qed

interpretation mem_slots: slot_allocator
  "\<lambda>s i. mem_bitmap s i" cam_mem_get_slot cam_mem_put_slot 1 CAM_MEM_BUFQ_MAX "\<lambda>s. mem_bitmap s 0"
proof unfold_locales
  fix s s' :: cam_mem_table and i :: nat
  assume b: "mem_bitmap s 0"
  { assume "cam_mem_get_slot s = (Some i, s')"
    then show "1 \<le> i \<and> i < CAM_MEM_BUFQ_MAX \<and> \<not> mem_bitmap s i"
      and "mem_bitmap s' = (mem_bitmap s)(i := True)"
      by (cases rule: get_slot_cases [OF b]; auto simp: slot_taken_def)+ }
  { assume "cam_mem_get_slot s = (None, s')"
    then show "(\<forall>i. 1 \<le> i \<and> i < CAM_MEM_BUFQ_MAX \<longrightarrow> mem_bitmap s i) \<and> mem_bitmap s' = mem_bitmap s"
      by (cases rule: get_slot_cases [OF b]) auto }
  show "mem_bitmap (snd (cam_mem_get_slot s)) 0"
    using b by (cases rule: get_slot_cases [OF b]) (auto simp: slot_taken_def)
  assume "1 \<le> i" "i < CAM_MEM_BUFQ_MAX"
  then show "mem_bitmap (cam_mem_put_slot i s) = (mem_bitmap s)(i := False)"
    and "mem_bitmap (cam_mem_put_slot i s) 0" using b by (simp_all add: cam_mem_put_slot_def)
qed

lemma put_after_take:
  assumes "\<not> mem_bitmap s idx" "\<not> active (bufq s idx)"
    "bufq t = (bufq s)(idx := b)" "mem_bitmap t = (mem_bitmap s)(idx := True)"
    "mem_initialized t = mem_initialized s"
  shows "same_active s (cam_mem_put_slot idx t)"
  using assms by (auto simp: same_active_def cam_mem_put_slot_def fun_eq_iff)

section \<open>Allocation\<close>

lemma alloc_fill_cases:
  assumes s: "filled idx b0 s t" "active b0" and idx: "\<not> mem_bitmap s idx" "\<not> active (bufq s idx)"
    and num: "unat (al_num_hdl c) \<le> CAM_MEM_MMU_MAX_HANDLE"
  obtains (bad) rc s' where "alloc_fill env c idx dmabuf fd 0 va t = ((rc, None), s')" "rc \<noteq> 0" "same_active s s'"
  | (ok) b s' where "alloc_fill env c idx dmabuf fd 0 va t = ((0, Some (buf_handle b, fd)), s')"
      "filled idx b s s'" "active b" "buf_handle b = mem_handle_of (al_flags c) idx fd"
      "buf_flags b = al_flags c" "buf_len b = al_len c" "num_hdl b \<le> CAM_MEM_MMU_MAX_HANDLE"
      "dma_buf b = dmabuf" "buf_fd b = fd"
proof -
  let ?K = "flag_set (al_flags c) CAM_MEM_FLAG_KMD_ACCESS"
  define t1 where "t1 = upd_buf idx (\<lambda>b. b\<lparr>buf_fd := fd, dma_buf := 0, buf_flags := al_flags c,
      buf_handle := mem_handle_of (al_flags c) idx fd\<rparr>) t"
  obtain x t2 where m: "(if ?K then cam_mem_util_map_cpu_va env dmabuf t1 else ((0, 0, 0), t1)) = (x, t2)"
    by fastforce
  obtain rc kva klen where x: "x = (rc, kva, klen)" by (cases x)
  have ot: "only_trace t1 t2" using m only_trace_map_cpu [of t1 env dmabuf] by (auto split: if_splits)
  note otd = only_traceD [OF ot]
  show thesis
  proof (cases "?K \<and> rc \<noteq> 0")
    case True
    have "same_active s (cam_mem_put_slot idx t2)"
      by (rule put_after_take [OF idx]) (use s otd in \<open>auto simp: filled_def t1_def\<close>)
    then have "same_active s (snd (ext env (Dma_buf_put dmabuf) (cam_mem_put_slot idx t2)))"
      by (rule same_active_trace_right) simp
    then show thesis
      using bad True m x by (simp add: alloc_fill_def Let_def t1_def [symmetric])
  next
    case False
    then have rc: "rc = 0" using m x by (auto split: if_splits)
    let ?t3 = "if flag_set (al_flags c) CAM_MEM_FLAG_KMD_DEBUG_FLAG then t2\<lparr>dbg_buf_idx := of_nat idx\<rparr> else t2"
    let ?f = "\<lambda>b. b\<lparr>kmdvaddr := kva, vaddr := va, dma_buf := dmabuf, buf_len := al_len c,
        num_hdl := unat (al_num_hdl c),
        hdls := copy_hdls (al_mmu_hdls c) (unat (al_num_hdl c)) (hdls b), is_imported := False\<rparr>"
    let ?b = "?f (bufq t2 idx)"
    have e: "alloc_fill env c idx dmabuf fd 0 va t = ((rc, Some (buf_handle ?b, fd)), upd_buf idx ?f ?t3)"
      using False m x by (cases ?K) (simp_all add: alloc_fill_def Let_def t1_def [symmetric])
    have "filled idx ?b s (upd_buf idx ?f ?t3)" "active ?b"
      "buf_handle ?b = mem_handle_of (al_flags c) idx fd" "buf_flags ?b = al_flags c"
      using s otd by (auto simp: filled_def t1_def)
    then show thesis using ok [OF e [unfolded rc]] num otd by (auto simp: t1_def)
  qed
qed

lemma slot_taken_filled: "filled idx ((bufq s idx)\<lparr>active := True\<rparr>) s (slot_taken idx s)"
  by (simp add: filled_def slot_taken_def)

lemma filled_trace_right: "filled idx b s t \<Longrightarrow> only_trace t u \<Longrightarrow> filled idx b s u"
  by (simp add: filled_def only_traceD)

lemma free_slot_inactive:
  "mem_ok s \<Longrightarrow> 0 < idx \<Longrightarrow> idx < CAM_MEM_BUFQ_MAX \<Longrightarrow> \<not> mem_bitmap s idx \<Longrightarrow> \<not> active (bufq s idx)"
  by (simp add: mem_ok_def)

lemma ion_alloc_nonnull: "cam_mem_util_ion_alloc env cmd s = ((0, buf, fd), s') \<Longrightarrow> buf \<noteq> 0"
  by (auto simp: cam_mem_util_ion_alloc_def cam_mem_util_get_dma_buf_fd_def Let_def split_beta
      is_err_or_null_def split: if_splits)

lemma alloc_cases:
  assumes ok: "mem_ok s"
  obtains (bad) rc s' where "cam_mem_mgr_alloc_and_map env cmd s = ((rc, None), s')" "rc \<noteq> 0" "same_active s s'"
  | (good) c idx b fd s' where "cmd = Some c"
      "cam_mem_mgr_alloc_and_map env cmd s = ((0, Some (buf_handle b, fd)), s')"
      "0 < idx" "idx < CAM_MEM_BUFQ_MAX" "\<not> active (bufq s idx)"
      "filled idx b s s'" "active b" "buf_handle b = mem_handle_of (al_flags c) idx fd"
      "buf_flags b = al_flags c" "buf_len b = al_len c" "num_hdl b \<le> CAM_MEM_MMU_MAX_HANDLE" "buf_fd b = fd"
      "dma_buf b \<noteq> 0" "cam_mem_util_check_alloc_flags c = 0"
proof (cases "mem_initialized s \<and> (\<exists>c. cmd = Some c \<and> cam_mem_util_check_alloc_flags c = 0)")
  case False
  then have "\<exists>rc. cam_mem_mgr_alloc_and_map env cmd s = ((rc, None), s) \<and> rc \<noteq> 0"
    by (cases cmd) (auto simp: cam_mem_mgr_alloc_and_map_def)
  then show thesis using bad same_active_trace [OF only_trace_refl] by blast
next
  case True
  then obtain c where c: "cmd = Some c" "cam_mem_util_check_alloc_flags c = 0" and init: "mem_initialized s" by blast
  have num: "unat (al_num_hdl c) \<le> CAM_MEM_MMU_MAX_HANDLE"
    using c(2) by (auto simp: cam_mem_util_check_alloc_flags_def split: if_splits)
  let ?fl = "al_flags c"
  let ?hw = "flag_set ?fl CAM_MEM_FLAG_HW_READ_WRITE \<or> flag_set ?fl CAM_MEM_FLAG_HW_SHARED_ACCESS
      \<or> flag_set ?fl CAM_MEM_FLAG_PROTECTED_MODE"
  let ?region = "if flag_set ?fl CAM_MEM_FLAG_PROTECTED_MODE then CAM_SMMU_REGION_SECHEAP
      else if flag_set ?fl CAM_MEM_FLAG_HW_SHARED_ACCESS then CAM_SMMU_REGION_SHARED else CAM_SMMU_REGION_IO"
  obtain y s1 where "cam_mem_util_ion_alloc env c s = (y, s1)" by fastforce
  then obtain rc dmabuf fd where a: "cam_mem_util_ion_alloc env c s = ((rc, dmabuf, fd), s1)" by (cases y) auto
  have t1: "only_trace s s1" using only_trace_ion_alloc [of s env c] a by simp
  have bm: "mem_bitmap s1 = mem_bitmap s" "bufq s1 = bufq s" using only_traceD [OF t1] by auto
  have b0: "mem_bitmap s1 0" using ok bm by (simp add: mem_ok_def)
  note unf = cam_mem_mgr_alloc_and_map_def Let_def
  show thesis
  proof (cases "rc = 0")
    case False
    then show thesis using bad init c a same_active_trace [OF t1] by (simp add: unf)
  next
    case rc: True
    show thesis
    proof (cases rule: get_slot_cases [OF b0])
      case 1
      have "same_active s (snd (ext env (Dma_buf_put dmabuf) s1))"
        using same_active_trace [OF only_trace_trans [OF t1 only_trace_ext]] .
      then show thesis using bad init c a rc 1 by (simp add: unf)
    next
      case (2 idx)
      have inact: "\<not> mem_bitmap s idx" "\<not> active (bufq s idx)"
        using 2 bm free_slot_inactive [OF ok 2(1,2)] by auto
      let ?s2 = "slot_taken idx s1"
      obtain z s3 where z: "(if ?hw then cam_mem_util_map_hw_va env ?fl (al_mmu_hdls c)
          (unat (al_num_hdl c)) fd 0 (al_len c) ?region ?s2 else ((0, 0, al_len c), ?s2)) = (z, s3)" by fastforce
      obtain rc3 va len where zz: "z = (rc3, va, len)" by (cases z)
      have t3: "only_trace ?s2 s3"
        using z only_trace_map_hw [of ?s2 env ?fl "al_mmu_hdls c" "unat (al_num_hdl c)" fd 0 "al_len c" ?region]
        by (cases ?hw) auto
      have f: "filled idx ((bufq s1 idx)\<lparr>active := True\<rparr>) s s3"
        using filled_trace_left [OF t1 filled_trace_right [OF slot_taken_filled t3]] .
      have e: "cam_mem_mgr_alloc_and_map env cmd s =
         (if rc3 \<noteq> 0 then ((rc3, None), snd (ext env (Dma_buf_put dmabuf) (cam_mem_put_slot idx s3)))
          else alloc_fill env c idx dmabuf fd rc3 va s3)"
        using init c a rc 2(4) z zz by (cases ?hw) (simp_all add: unf)
      show thesis
      proof (cases "rc3 = 0")
        case False
        have "same_active s (cam_mem_put_slot idx s3)"
          by (rule put_after_take [OF inact]) (use f in \<open>auto simp: filled_def\<close>)
        then have "same_active s (snd (ext env (Dma_buf_put dmabuf) (cam_mem_put_slot idx s3)))"
          by (rule same_active_trace_right) simp
        then show thesis using bad e False by simp
      next
        case rc3: True
        have act: "active ((bufq s1 idx)\<lparr>active := True\<rparr>)" by simp
        have nn: "dmabuf \<noteq> 0" using ion_alloc_nonnull a rc by blast
        show thesis
          by (rule alloc_fill_cases [OF f act inact num, of env dmabuf fd va])
            (use bad good [OF c(1) _ 2(1,2) inact(2)] e rc3 c(2) nn in auto)
      qed
    qed
  qed
qed

lemma mem_wf_alloc: "mem_wf s \<Longrightarrow> mem_wf (snd (cam_mem_mgr_alloc_and_map env cmd s))"
proof (cases "mem_initialized s")
  case True
  assume "mem_wf s"
  then have ok: "mem_ok s" using True by (simp add: mem_wf_def)
  show ?thesis
  proof (cases rule: alloc_cases [OF ok, of env cmd])
    case (1 rc s')
    then show ?thesis using same_active_ok [OF ok] by (simp add: mem_wf_def)
  next
    case (2 c idx b fd s')
    have "buf_ok idx b" using 2 mem_handle_of_idx [of idx] by (simp add: buf_ok_def)
    then show ?thesis using filled_ok [OF ok] 2 by (simp add: mem_wf_def)
  qed
qed (simp add: cam_mem_mgr_alloc_and_map_def)

section \<open>Mapping, kernel memory\<close>

text \<open>Every operation that fills a slot either fails and changes no active buffer, or fills a free one.\<close>

definition fills :: "cam_mem_table \<Rightarrow> cam_mem_table \<Rightarrow> bool" where
  "fills s s' \<longleftrightarrow> same_active s s' \<or> (\<exists>idx b. 0 < idx \<and> idx < CAM_MEM_BUFQ_MAX
      \<and> \<not> active (bufq s idx) \<and> filled idx b s s' \<and> active b \<and> buf_ok idx b)"

lemma fills_ok: "mem_ok s \<Longrightarrow> fills s s' \<Longrightarrow> mem_ok s'"
  using same_active_ok filled_ok unfolding fills_def by blast

lemma fills_trace_left: "only_trace s t \<Longrightarrow> fills t u \<Longrightarrow> fills s u"
  using same_active_trace_left filled_trace_left only_traceD(3) unfolding fills_def by fastforce

lemma fills_same: "only_trace s t \<Longrightarrow> fills s t"
  using same_active_trace unfolding fills_def by blast

text \<open>The common end of mapping operations: take a slot and fill it, or clean up.\<close>

lemma fills_slot:
  assumes ok: "mem_ok s"
    and b: "\<And>idx b. active (f idx b) = active b \<and> num_hdl (f idx b) \<le> CAM_MEM_MMU_MAX_HANDLE
       \<and> (idx < CAM_MEM_BUFQ_MAX \<longrightarrow> CAM_MEM_MGR_GET_HDL_IDX (buf_handle (f idx b)) = idx)"
    and g: "\<And>t. only_trace t (g t)"
  shows "fills s (case cam_mem_get_slot s of (None, s1) \<Rightarrow> g s1
     | (Some idx, s1) \<Rightarrow> upd_buf idx (f idx) s1)"
proof -
  have b0: "mem_bitmap s 0" using ok by (simp add: mem_ok_def)
  show ?thesis
  proof (cases rule: get_slot_cases [OF b0])
    case 1
    then show ?thesis using fills_same [OF g] by simp
  next
    case (2 idx)
    have "filled idx (f idx ((bufq s idx)\<lparr>active := True\<rparr>)) s (upd_buf idx (f idx) (slot_taken idx s))"
      by (simp add: filled_def slot_taken_def)
    moreover have "buf_ok idx (f idx ((bufq s idx)\<lparr>active := True\<rparr>))"
      using b [of idx "(bufq s idx)\<lparr>active := True\<rparr>"] 2(1,2) by (simp add: buf_ok_def)
    moreover have "active (f idx ((bufq s idx)\<lparr>active := True\<rparr>))" using b by simp
    ultimately have "fills s (upd_buf idx (f idx) (slot_taken idx s))"
      unfolding fills_def using 2(1,2) free_slot_inactive [OF ok 2(1-3)] by blast
    then show ?thesis by (simp add: 2(4))
  qed
qed

lemma mem_ok_trace: "mem_ok s \<Longrightarrow> only_trace s t \<Longrightarrow> mem_ok t"
  using same_active_ok same_active_trace by blast

lemma fills_map:
  assumes ok: "mem_ok s"
  shows "fills s (snd (cam_mem_mgr_map env cmd s))"
proof (cases "mem_initialized s \<and> (\<exists>c. cmd = Some c \<and> 0 \<le> mp_fd c \<and> unat (mp_num_hdl c) \<le> CAM_MEM_MMU_MAX_HANDLE
      \<and> cam_mem_util_check_map_flags c = 0)")
  case False
  then have "snd (cam_mem_mgr_map env cmd s) = s"
    by (cases cmd) (auto simp: cam_mem_mgr_map_def not_le)
  then show ?thesis using fills_same by simp
next
  case True
  then obtain c where c: "cmd = Some c" "0 \<le> mp_fd c" "unat (mp_num_hdl c) \<le> CAM_MEM_MMU_MAX_HANDLE"
    "cam_mem_util_check_map_flags c = 0" and init: "mem_initialized s" by blast
  let ?hw = "flag_set (mp_flags c) CAM_MEM_FLAG_HW_READ_WRITE \<or> flag_set (mp_flags c) CAM_MEM_FLAG_PROTECTED_MODE"
  obtain r s1 where r: "ext env (Dma_buf_get (mp_fd c)) s = (r, s1)" by fastforce
  obtain z s2 where z: "(if ?hw then cam_mem_util_map_hw_va env (mp_flags c) (mp_mmu_hdls c)
      (unat (mp_num_hdl c)) (mp_fd c) 0 0 CAM_SMMU_REGION_IO s1 else ((0, 0, 0), s1)) = (z, s2)" by fastforce
  obtain rc va len where zz: "z = (rc, va, len)" by (cases z)
  have t1: "only_trace s s1" by (rule ext_pair [OF r])
  have "only_trace s1 s2"
    using z only_trace_map_hw [of s1 env "mp_flags c" "mp_mmu_hdls c" "unat (mp_num_hdl c)" "mp_fd c" 0 0
        CAM_SMMU_REGION_IO] by (cases ?hw) auto
  then have t2: "only_trace s s2" by (rule only_trace_trans [OF t1])
  let ?f = "\<lambda>idx b. b\<lparr>buf_fd := mp_fd c, buf_flags := mp_flags c,
      buf_handle := mem_handle_of (mp_flags c) idx (mp_fd c), kmdvaddr := 0,
      vaddr := (if 0 < unat (mp_num_hdl c) then va else 0), dma_buf := er_val r,
      buf_len := len, num_hdl := unat (mp_num_hdl c),
      hdls := copy_hdls (mp_mmu_hdls c) (unat (mp_num_hdl c)) (hdls b), is_imported := True\<rparr>"
  have e: "snd (cam_mem_mgr_map env cmd s) =
     (if is_err_or_null (er_val r) then s1
      else if rc \<noteq> 0 then snd (ext env (Dma_buf_put (er_val r)) s2)
      else (case cam_mem_get_slot s2 of (None, s3) \<Rightarrow> snd (ext env (Dma_buf_put (er_val r)) s3)
        | (Some idx, s3) \<Rightarrow> upd_buf idx (?f idx) s3))"
  proof -
    have "\<not> CAM_MEM_MMU_MAX_HANDLE < unat (mp_num_hdl c)" "\<not> mp_fd c < 0" using c by auto
    then show ?thesis
      using init c(1,4) r z zz
      by (cases ?hw; cases "cam_mem_get_slot s2"; cases "fst (cam_mem_get_slot s2)")
        (simp_all add: cam_mem_mgr_map_def Let_def)
  qed
  have "fills s2 (case cam_mem_get_slot s2 of (None, s3) \<Rightarrow> snd (ext env (Dma_buf_put (er_val r)) s3)
        | (Some idx, s3) \<Rightarrow> upd_buf idx (?f idx) s3)"
    by (rule fills_slot [OF mem_ok_trace [OF ok t2]]) (use c(3) mem_handle_of_idx in auto)
  then show ?thesis
    unfolding e using fills_trace_left [OF t2] fills_same [OF t1]
      fills_same [OF only_trace_trans [OF t2 only_trace_ext]] by simp
qed

lemma fills_request:
  assumes ok: "mem_ok s"
  shows "fills s (snd (cam_mem_mgr_request_mem env inp out s))"
proof (cases "mem_initialized s \<and> out \<and> (\<exists>q. inp = Some q \<and> (flag_set (rq_flags q) CAM_MEM_FLAG_HW_READ_WRITE
      \<or> flag_set (rq_flags q) CAM_MEM_FLAG_HW_SHARED_ACCESS \<or> flag_set (rq_flags q) CAM_MEM_FLAG_CACHE))")
  case False
  then have "snd (cam_mem_mgr_request_mem env inp out s) = s"
    by (cases inp) (auto simp: cam_mem_mgr_request_mem_def)
  then show ?thesis using fills_same by simp
next
  case True
  then obtain q where q: "inp = Some q" "flag_set (rq_flags q) CAM_MEM_FLAG_HW_READ_WRITE
      \<or> flag_set (rq_flags q) CAM_MEM_FLAG_HW_SHARED_ACCESS \<or> flag_set (rq_flags q) CAM_MEM_FLAG_CACHE"
    and init: "mem_initialized s" "out" by blast
  let ?ion = "if flag_set (rq_flags q) CAM_MEM_FLAG_CACHE then ION_FLAG_CACHED env else 0"
  let ?fl = "rq_flags q OR CAM_MEM_FLAG_KMD_ACCESS"
  obtain y s1 where "cam_mem_util_get_dma_buf env (rq_size q) (ion_default_heaps env) ?ion s = (y, s1)" by fastforce
  then obtain rc buf where 1: "cam_mem_util_get_dma_buf env (rq_size q) (ion_default_heaps env) ?ion s = ((rc, buf), s1)"
    by (cases y) auto
  obtain z s2 where "cam_mem_util_map_cpu_va env buf s1 = (z, s2)" by fastforce
  then obtain rc2 kva klen where 2: "cam_mem_util_map_cpu_va env buf s1 = ((rc2, kva, klen), s2)" by (cases z) auto
  obtain r s3 where 3: "ext env (Smmu_map_kernel (rq_smmu_hdl q) buf (unmap_region ?fl)) s2 = (r, s3)" by fastforce
  have t1: "only_trace s s1"
    using only_trace_get_dma_buf [of s env "rq_size q" "ion_default_heaps env" ?ion] 1 by simp
  have t2: "only_trace s s2" using only_trace_trans [OF t1] only_trace_map_cpu [of s1 env buf] 2 by simp
  have t3: "only_trace s s3" by (rule only_trace_trans [OF t2 ext_pair [OF 3]])
  let ?g = "\<lambda>t. snd (ext env (Dma_buf_put buf) (snd (cam_mem_util_unmap_cpu_va env buf kva t)))"
  have g: "only_trace t (?g t)" for t by (rule only_trace_trans [OF only_trace_unmap_cpu only_trace_ext])
  let ?h = "\<lambda>t. ?g (snd (ext env (Smmu_unmap_kernel (rq_smmu_hdl q) buf (unmap_region ?fl)) t))"
  have h: "only_trace t (?h t)" for t by (rule only_trace_trans [OF only_trace_ext g])
  let ?f = "\<lambda>idx b. b\<lparr>dma_buf := buf, buf_fd := - 1, buf_flags := ?fl,
      buf_handle := GET_MEM_HANDLE idx (- 1), kmdvaddr := kva, vaddr := er_val r,
      buf_len := rq_size q, num_hdl := 1,
      hdls := copy_hdls [rq_smmu_hdl q] 1 (hdls b), is_imported := False\<rparr>"
  have e: "snd (cam_mem_mgr_request_mem env inp out s) =
     (if rc \<noteq> 0 then s1
      else if rc2 \<noteq> 0 then snd (ext env (Dma_buf_put buf) s2)
      else if rq_smmu_hdl q = 0 then ?g s2
      else if er_rc r < 0 then ?g s3
      else (case cam_mem_get_slot s3 of (None, s4) \<Rightarrow> ?h s4 | (Some idx, s4) \<Rightarrow> upd_buf idx (?f idx) s4))"
    using init q 1 2 3
    by (cases "cam_mem_get_slot s3"; cases "fst (cam_mem_get_slot s3)")
      (simp_all add: cam_mem_mgr_request_mem_def Let_def)
  have "fills s3 (case cam_mem_get_slot s3 of (None, s4) \<Rightarrow> ?h s4
        | (Some idx, s4) \<Rightarrow> upd_buf idx (?f idx) s4)"
    by (rule fills_slot [OF mem_ok_trace [OF ok t3]]) (use h mem_handle_idx(1) in auto)
  then show ?thesis
    unfolding e
    using fills_trace_left [OF t3] fills_same [OF t1] fills_same [OF only_trace_trans [OF t2 g]]
      fills_same [OF only_trace_trans [OF t2 only_trace_ext]] fills_same [OF only_trace_trans [OF t3 g]] by simp
qed

lemma fills_reserve:
  assumes ok: "mem_ok s"
  shows "fills s (snd (cam_mem_mgr_reserve_memory_region env inp region out s))"
proof (cases "mem_initialized s \<and> out \<and> region = CAM_SMMU_REGION_SECHEAP \<and> (\<exists>q. inp = Some q \<and> rq_smmu_hdl q \<noteq> 0)")
  case False
  then have "snd (cam_mem_mgr_reserve_memory_region env inp region out s) = s"
    by (cases inp) (auto simp: cam_mem_mgr_reserve_memory_region_def)
  then show ?thesis using fills_same by simp
next
  case True
  then obtain q where q: "inp = Some q" "rq_smmu_hdl q \<noteq> 0"
    and init: "mem_initialized s" "out" "region = CAM_SMMU_REGION_SECHEAP" by blast
  obtain y s1 where "cam_mem_util_get_dma_buf env (rq_size q) (ion_default_heaps env) 0 s = (y, s1)" by fastforce
  then obtain rc buf where 1: "cam_mem_util_get_dma_buf env (rq_size q) (ion_default_heaps env) 0 s = ((rc, buf), s1)"
    by (cases y) auto
  obtain r s2 where 2: "ext env (Smmu_reserve_sec_heap (rq_smmu_hdl q) buf) s1 = (r, s2)" by fastforce
  have t1: "only_trace s s1"
    using only_trace_get_dma_buf [of s env "rq_size q" "ion_default_heaps env" 0] 1 by simp
  have t2: "only_trace s s2" by (rule only_trace_trans [OF t1 ext_pair [OF 2]])
  let ?h = "\<lambda>t. snd (ext env (Dma_buf_put buf) (snd (ext env (Smmu_release_sec_heap (rq_smmu_hdl q)) t)))"
  have h: "only_trace t (?h t)" for t by (rule only_trace_trans [OF only_trace_ext only_trace_ext])
  let ?f = "\<lambda>idx b. b\<lparr>buf_fd := - 1, dma_buf := buf, buf_flags := rq_flags q,
      buf_handle := GET_MEM_HANDLE idx (- 1), kmdvaddr := 0, vaddr := er_val r,
      buf_len := er_len r, num_hdl := 1,
      hdls := copy_hdls [rq_smmu_hdl q] 1 (hdls b), is_imported := False\<rparr>"
  have e: "snd (cam_mem_mgr_reserve_memory_region env inp region out s) =
     (if rc \<noteq> 0 then s1
      else if er_rc r \<noteq> 0 then snd (ext env (Dma_buf_put buf) s2)
      else (case cam_mem_get_slot s2 of (None, s3) \<Rightarrow> ?h s3 | (Some idx, s3) \<Rightarrow> upd_buf idx (?f idx) s3))"
    using init q 1 2
    by (cases "cam_mem_get_slot s2"; cases "fst (cam_mem_get_slot s2)")
      (simp_all add: cam_mem_mgr_reserve_memory_region_def Let_def)
  have "fills s2 (case cam_mem_get_slot s2 of (None, s3) \<Rightarrow> ?h s3
        | (Some idx, s3) \<Rightarrow> upd_buf idx (?f idx) s3)"
    by (rule fills_slot [OF mem_ok_trace [OF ok t2]]) (use h mem_handle_idx(1) in auto)
  then show ?thesis
    unfolding e using fills_trace_left [OF t2] fills_same [OF t1]
      fills_same [OF only_trace_trans [OF t2 only_trace_ext]] by simp
qed

section \<open>Releasing\<close>

lemma unmap_emptied:
  assumes idx: "0 < idx" "idx < CAM_MEM_BUFQ_MAX" and act: "active (bufq s idx)"
  shows "emptied idx s (snd (cam_mem_util_unmap env idx client s))"
proof -
  let ?b = "bufq s idx" let ?fl = "buf_flags (bufq s idx)"
  let ?hw = "flag_set ?fl CAM_MEM_FLAG_HW_READ_WRITE \<or> flag_set ?fl CAM_MEM_FLAG_HW_SHARED_ACCESS
      \<or> flag_set ?fl CAM_MEM_FLAG_PROTECTED_MODE"
  obtain rc s1 where 1: "(if flag_set ?fl CAM_MEM_FLAG_KMD_ACCESS \<and> dma_buf ?b \<noteq> 0 \<and> kmdvaddr ?b \<noteq> 0
      then cam_mem_util_unmap_cpu_va env (dma_buf ?b) (kmdvaddr ?b) s else (0, s)) = (rc, s1)" by fastforce
  have t1: "only_trace s s1"
    using 1 only_trace_unmap_cpu [of s env "dma_buf ?b" "kmdvaddr ?b"] by (auto split: if_splits)
  define u where "u = snd (cam_mem_util_unmap_hw_va env idx (unmap_region ?fl) client s1)"
  define s2 where "s2 = (if ?hw then (if client = CAM_SMMU_MAPPING_KERNEL
      then upd_buf idx (\<lambda>b. b\<lparr>dma_buf := 0\<rparr>) u else u) else s1)"
  have tu: "only_trace s1 u" by (simp add: u_def only_trace_unmap_hw)
  have q2: "\<exists>b. bufq s2 = (bufq s)(idx := b)" "mem_bitmap s2 = mem_bitmap s" "mem_initialized s2 = mem_initialized s"
    using only_traceD [OF t1] only_traceD [OF tu] by (auto simp: s2_def intro: exI [of _ ?b])
  define s3 where "s3 = upd_buf idx (\<lambda>b. b\<lparr>buf_flags := 0, buf_handle := - 1, vaddr := 0,
      hdls := replicate CAM_MEM_MMU_MAX_HANDLE 0\<rparr>) s2"
  have t4: "only_trace s3 (put_dma_buf env idx s3)" by (rule only_trace_put)
  have e: "snd (cam_mem_util_unmap env idx client s) =
      (let s5 = upd_buf idx (\<lambda>b. b\<lparr>buf_fd := - 1, dma_buf := 0, is_imported := False,
         buf_len := 0, num_hdl := 0, active := False\<rparr>) (put_dma_buf env idx s3)
       in s5\<lparr>mem_bitmap := (mem_bitmap s5)(idx := False)\<rparr>)"
    using idx act 1 by (simp add: cam_mem_util_unmap_def Let_def u_def s2_def s3_def cong: if_cong)
  obtain b where b: "bufq s2 = (bufq s)(idx := b)" using q2(1) by blast
  let ?r = "b\<lparr>buf_flags := 0, buf_handle := - 1, vaddr := 0, hdls := replicate CAM_MEM_MMU_MAX_HANDLE 0,
      buf_fd := - 1, dma_buf := 0, is_imported := False, buf_len := 0, num_hdl := 0, active := False\<rparr>"
  show ?thesis
    unfolding e emptied_def Let_def
    by (intro conjI exI [of _ ?r]) (use b q2(2,3) only_traceD [OF t4] in \<open>simp_all add: s3_def\<close>)
qed

lemma mem_wf_init: "mem_wf (snd (cam_mem_mgr_init kz s)) \<or> \<not> kz"
  by (auto simp: cam_mem_mgr_init_def Let_def mem_wf_def mem_ok_def buf_ok_def zero_bufq_def)

lemma mem_wf_deinit: "mem_wf (cam_mem_mgr_deinit env s)"
proof -
  have "mem_initialized (cleanup_slot env i t) = mem_initialized t" for i t
    using only_traceD(1) [OF only_trace_put, of env i] only_traceD(1) [OF only_trace_unmap_hw]
    by (simp add: cleanup_slot_def cam_mem_mgr_unmap_active_buf_def)
  then have "mem_initialized (fold (cleanup_slot env) xs t) = mem_initialized t" for xs t
    by (induction xs arbitrary: t) simp_all
  then show ?thesis
    by (simp add: mem_wf_def cam_mem_mgr_deinit_def cam_mem_mgr_cleanup_table_def)
qed

lemma release_cases:
  assumes ok: "mem_ok s" and init: "mem_initialized s"
  obtains (bad) "cam_mem_mgr_release env (Some bh) s = (- EINVAL, s)"
      "\<forall>i. active (bufq s i) \<longrightarrow> buf_handle (bufq s i) \<noteq> bh"
  | (good) idx where "active (bufq s idx)" "buf_handle (bufq s idx) = bh" "0 < idx" "idx < CAM_MEM_BUFQ_MAX"
      "cam_mem_mgr_release env (Some bh) s = cam_mem_util_unmap env idx CAM_SMMU_MAPPING_USER s"
      "emptied idx s (snd (cam_mem_mgr_release env (Some bh) s))"
proof (cases "\<exists>i. active (bufq s i) \<and> buf_handle (bufq s i) = bh")
  case True
  then obtain i where i: "active (bufq s i)" "buf_handle (bufq s i) = bh" by blast
  have b: "0 < i" "i < CAM_MEM_BUFQ_MAX" "CAM_MEM_MGR_GET_HDL_IDX bh = i"
    using ok i unfolding mem_ok_def buf_ok_def by metis+
  have "cam_mem_mgr_release env (Some bh) s = cam_mem_util_unmap env i CAM_SMMU_MAPPING_USER s"
    using init i b by (simp add: cam_mem_mgr_release_def Let_def)
  then show thesis using good [OF i b(1,2)] unmap_emptied [OF b(1,2) i(1)] by simp
next
  case False
  then have "cam_mem_mgr_release env (Some bh) s = (- EINVAL, s)"
    using init by (auto simp: cam_mem_mgr_release_def Let_def)
  then show thesis using bad False by blast
qed

lemma mem_wf_unmap:
  assumes "mem_ok s" "active (bufq s idx)"
  shows "mem_ok (snd (cam_mem_util_unmap env idx client s))"
proof -
  have i: "0 < idx" "idx < CAM_MEM_BUFQ_MAX" using assms by (auto simp: mem_ok_def buf_ok_def)
  show ?thesis by (rule emptied_ok [OF assms(1) unmap_emptied [OF i assms(2)] i(1)])
qed

lemma mem_wf_release: "mem_wf s \<Longrightarrow> mem_wf (snd (cam_mem_mgr_release env cmd s))"
  using mem_wf_unmap [of s]
  by (auto simp: cam_mem_mgr_release_def mem_wf_def Let_def split: option.split)

lemma mem_wf_release_mem: "mem_wf s \<Longrightarrow> mem_wf (snd (cam_mem_mgr_release_mem env inp s))"
  using mem_wf_unmap [of s]
  by (auto simp: cam_mem_mgr_release_mem_def mem_wf_def Let_def split: option.split)

lemma mem_wf_free_region: "mem_wf s \<Longrightarrow> mem_wf (snd (cam_mem_mgr_free_memory_region env inp s))"
proof (cases "mem_initialized s")
  case True
  assume "mem_wf s"
  then have ok: "mem_ok s" using True by (simp add: mem_wf_def)
  have t: "mem_ok (snd (ext env c s))" "active (bufq (snd (ext env c s)) i) = active (bufq s i)" for c i
    using mem_ok_trace [OF ok only_trace_ext] only_traceD(3) [OF only_trace_ext] by auto
  show ?thesis
    using ok t mem_wf_unmap [OF t(1)]
    by (auto simp: cam_mem_mgr_free_memory_region_def mem_wf_def Let_def split_beta split: option.split)
qed (simp add: cam_mem_mgr_free_memory_region_def)

lemma mem_wf_fills: "mem_wf s \<Longrightarrow> (mem_ok s \<Longrightarrow> fills s s') \<Longrightarrow> (\<not> mem_initialized s \<Longrightarrow> s' = s) \<Longrightarrow> mem_wf s'"
  using fills_ok [of s s'] by (cases "mem_initialized s") (auto simp: mem_wf_def)

lemma mem_wf_get_io: "mem_wf s \<Longrightarrow> mem_wf (snd (cam_mem_get_io_buf env bh m s))"
proof -
  assume wf: "mem_wf s"
  have "mem_wf (snd (ext env c s))" for c
    using wf only_traceD(1) [OF only_trace_ext] mem_ok_trace [OF _ only_trace_ext] by (simp add: mem_wf_def)
  then show ?thesis using wf by (simp add: cam_mem_get_io_buf_def Let_def split_beta)
qed

section \<open>The transition system\<close>

inductive mem_step :: "mem_env \<Rightarrow> cam_mem_table \<Rightarrow> cam_mem_table \<Rightarrow> bool" for env :: mem_env where
  mem_init: "mem_step env s (snd (cam_mem_mgr_init True s))"
| mem_deinit: "mem_step env s (cam_mem_mgr_deinit env s)"
| mem_alloc: "mem_step env s (snd (cam_mem_mgr_alloc_and_map env acmd s))"
| mem_map: "mem_step env s (snd (cam_mem_mgr_map env mcmd s))"
| mem_release: "mem_step env s (snd (cam_mem_mgr_release env bh s))"
| mem_request: "mem_step env s (snd (cam_mem_mgr_request_mem env inp out s))"
| mem_release_mem: "mem_step env s (snd (cam_mem_mgr_release_mem env md s))"
| mem_reserve: "mem_step env s (snd (cam_mem_mgr_reserve_memory_region env inp region out s))"
| mem_free: "mem_step env s (snd (cam_mem_mgr_free_memory_region env md s))"
| mem_io: "mem_step env s (snd (cam_mem_get_io_buf env h m s))"

definition mem_initial :: "cam_mem_table \<Rightarrow> bool" where
  "mem_initial s \<longleftrightarrow> \<not> mem_initialized s"

lemma mem_wf_step: "mem_wf s \<Longrightarrow> mem_step env s s' \<Longrightarrow> mem_wf s'"
proof (erule mem_step.cases)
  fix t mcmd assume "mem_wf s" "s = t" "s' = snd (cam_mem_mgr_map env mcmd t)"
  then show ?thesis using mem_wf_fills [OF _ fills_map] by (simp add: cam_mem_mgr_map_def)
next
  fix t inp out assume "mem_wf s" "s = t" "s' = snd (cam_mem_mgr_request_mem env inp out t)"
  then show ?thesis using mem_wf_fills [OF _ fills_request] by (simp add: cam_mem_mgr_request_mem_def)
next
  fix t inp region out assume "mem_wf s" "s = t"
    "s' = snd (cam_mem_mgr_reserve_memory_region env inp region out t)"
  then show ?thesis using mem_wf_fills [OF _ fills_reserve] by (simp add: cam_mem_mgr_reserve_memory_region_def)
qed (use mem_wf_init [of True] in \<open>simp_all add: mem_wf_deinit mem_wf_alloc mem_wf_release mem_wf_release_mem
      mem_wf_free_region mem_wf_get_io\<close>)

interpretation mem_sys: invariant_system mem_initial "mem_step env" mem_wf for env
proof
  show "mem_initial s \<Longrightarrow> mem_wf s" for s by (simp add: mem_initial_def mem_wf_def)
qed (rule mem_wf_step)

end
