(* ===== verification/Cam_Mem_Props.thy ===== *)
theory Cam_Mem_Props
  imports Cam_Mem_Inv
begin

text \<open>
  Reference accounting of the buffer table and the properties of the memory manager.
\<close>

section \<open>dma-buf references\<close>

text \<open>
  How a call changes the number of dma-buf references the table answers for: an allocation or a
  \<open>dma_buf_get\<close> adds one, \<open>dma_buf_fd\<close> hands one over to the file descriptor, \<open>dma_buf_put\<close>
  gives one back.
\<close>

fun ref_delta :: "ext_call \<Rightarrow> ext_res \<Rightarrow> int" where
  "ref_delta (Ion_alloc _ _ _) r = (if is_err_or_null (er_val r) then 0 else 1)"
| "ref_delta (Dma_buf_fd _) r = (if er_rc r < 0 then 0 else - 1)"
| "ref_delta (Dma_buf_get _) r = (if is_err_or_null (er_val r) then 0 else 1)"
| "ref_delta (Dma_buf_put _) r = - 1"
| "ref_delta _ r = 0"

definition refs :: "mem_env \<Rightarrow> cam_mem_table \<Rightarrow> int" where
  "refs env s = (\<Sum>k<length (ext_trace s). ref_delta (ext_trace s ! k) (orc env k))"

lemma refs_ext: "ext env c s = (r, s') \<Longrightarrow> refs env s' = refs env s + ref_delta c r"
  by (auto simp: refs_def ext_def nth_append)

lemma refs_snd_ext:
  "refs env (snd (ext env c s)) = refs env s + ref_delta c (fst (ext env c s))"
  using refs_ext [of env c s "fst (ext env c s)"] by simp

lemma refs_frame [simp]:
  "refs env (upd_buf i f s) = refs env s" "refs env (s\<lparr>mem_bitmap := bm\<rparr>) = refs env s"
  "refs env (cam_mem_put_slot i s) = refs env s" "refs env (slot_taken i s) = refs env s"
  "refs env (s\<lparr>dbg_buf_idx := d\<rparr>) = refs env s"
  by (simp_all add: refs_def cam_mem_put_slot_def slot_taken_def)

lemma refs_get_slot: "cam_mem_get_slot s = (r, s') \<Longrightarrow> refs env s' = refs env s"
  by (auto simp: cam_mem_get_slot_def Let_def split: if_splits)

lemma refs_fold:
  "(\<And>x t. refs env (f x t) = refs env t) \<Longrightarrow> refs env (fold f xs s) = refs env s"
  by (induction xs arbitrary: s) simp_all

lemma refs_kunmap [simp]: "refs env (kunmap_pages env buf va n s) = refs env s"
  unfolding kunmap_pages_def by (rule refs_fold) (simp add: refs_snd_ext)

lemma refs_kmap: "refs env (snd (kmap_loop env buf n i va s)) = refs env s"
proof (induction env buf n i va s rule: kmap_loop.induct)
  case (2 env buf n i va s)
  obtain r s1 where e: "ext env (Kmap buf i) s = (r, s1)" by fastforce
  show ?case using 2 e refs_ext [OF e] by (simp add: Let_def)
qed simp

lemma refs_map_cpu: "refs env (snd (cam_mem_util_map_cpu_va env buf s)) = refs env s"
proof -
  obtain r s1 where e: "ext env (Begin_cpu_access buf DMA_BIDIRECTIONAL) s = (r, s1)" by fastforce
  obtain v s2 where k: "kmap_loop env buf (page_count env buf) 0 0 s1 = (v, s2)" by fastforce
  have "refs env s2 = refs env s"
    using refs_kmap [of env buf "page_count env buf" 0 0 s1] k refs_ext [OF e] by simp
  then show ?thesis
    using refs_ext [OF e] by (cases v) (simp_all add: cam_mem_util_map_cpu_va_def e k refs_snd_ext)
qed

lemma refs_unmap_cpu [simp]: "refs env (snd (cam_mem_util_unmap_cpu_va env buf va s)) = refs env s"
  by (simp add: cam_mem_util_unmap_cpu_va_def Let_def split_beta refs_snd_ext)

lemma refs_map_hw_loop:
  "(\<And>h r. ref_delta (call h) r = 0) \<Longrightarrow> refs env (snd (map_hw_loop env call hs i rc va len s)) = refs env s"
proof (induction hs arbitrary: i rc va len s)
  case (Cons h hs)
  obtain r s1 where e: "ext env (call h) s = (r, s1)" by fastforce
  show ?case using Cons e refs_ext [OF e] by (simp add: Let_def)
qed simp

lemma refs_map_hw: "refs env (snd (cam_mem_util_map_hw_va env flags hs n fd va len region s)) = refs env s"
proof (cases "cam_mem_util_get_dma_dir flags")
  case (Inr dir)
  let ?prot = "flag_set flags CAM_MEM_FLAG_PROTECTED_MODE"
  let ?call = "\<lambda>h. if ?prot then Smmu_map_stage2 h fd dir
      else Smmu_map_user h fd (flag_set flags CAM_MEM_FLAG_DISABLE_DELAYED_UNMAP) dir region"
  obtain x s1 where l: "map_hw_loop env ?call (take n hs) 0 (- 1) va len s = (x, s1)" by fastforce
  obtain rc failed i va' len' where x: "x = (rc, failed, i, va', len')" by (cases x)
  have "refs env (snd (map_hw_loop env ?call (take n hs) 0 (- 1) va len s)) = refs env s"
    by (rule refs_map_hw_loop) simp
  then have a: "refs env s1 = refs env s" using l by simp
  have "refs env (fold (\<lambda>j s. snd (ext env (if ?prot then Smmu_unmap_stage2 (hs ! j) fd
      else Smmu_unmap_user (hs ! j) fd CAM_SMMU_REGION_IO) s)) (rev [1..<i]) s1) = refs env s1"
    by (rule refs_fold) (simp add: refs_snd_ext)
  then show ?thesis using a by (simp add: cam_mem_util_map_hw_va_def Inr l x Let_def)
qed (simp add: cam_mem_util_map_hw_va_def)

lemma refs_unmap_hw_loop:
  "(\<And>h r. ref_delta (call h) r = 0) \<Longrightarrow> refs env (snd (unmap_hw_loop env call hs rc s)) = refs env s"
proof (induction hs arbitrary: rc s)
  case (Cons h hs)
  obtain r s1 where e: "ext env (call h) s = (r, s1)" by fastforce
  show ?case using Cons e refs_ext [OF e] by (simp add: Let_def)
qed simp

lemma refs_unmap_hw [simp]: "refs env (snd (cam_mem_util_unmap_hw_va env idx region client s)) = refs env s"
  unfolding cam_mem_util_unmap_hw_va_def Let_def
  by (cases client) (auto intro!: refs_unmap_hw_loop)

lemma refs_ion_alloc:
  assumes "cam_mem_util_ion_alloc env cmd s = ((rc, buf, fd), s')"
  shows "refs env s' = refs env s + (if rc = 0 then 1 else 0)"
proof -
  have g: "refs env t' = refs env t + (if rc = 0 then 1 else 0)"
    if "cam_mem_util_get_dma_buf_fd env len heap fl t = ((rc, buf, fd), t')" for len heap fl t t'
  proof -
    obtain r1 s1 where 1: "ext env (Ion_alloc len heap fl) t = (r1, s1)" by fastforce
    obtain r2 s2 where 2: "ext env (Dma_buf_fd (er_val r1)) s1 = (r2, s2)" by fastforce
    obtain r3 s3 where 3: "ext env (Dma_buf_get (er_rc r2)) s2 = (r3, s3)" by fastforce
    show ?thesis
      using that refs_ext [OF 1] refs_ext [OF 2] refs_ext [OF 3]
      by (auto simp: cam_mem_util_get_dma_buf_fd_def 1 2 3 Let_def refs_snd_ext split: if_splits)
  qed
  show ?thesis using assms g by (auto simp: cam_mem_util_ion_alloc_def Let_def split: if_splits)
qed

lemma refs_alloc_fill:
  "refs env (snd (alloc_fill env c idx buf fd 0 va t)) =
     refs env t + (if snd (fst (alloc_fill env c idx buf fd 0 va t)) = None then - 1 else 0)"
proof -
  define t1 where "t1 = upd_buf idx (\<lambda>b. b\<lparr>buf_fd := fd, dma_buf := 0, buf_flags := al_flags c,
      buf_handle := mem_handle_of (al_flags c) idx fd\<rparr>) t"
  obtain x t2 where m: "cam_mem_util_map_cpu_va env buf t1 = (x, t2)" by fastforce
  obtain rc kva klen where x: "x = (rc, kva, klen)" by (cases x)
  have "refs env t1 = refs env t" by (simp add: t1_def)
  moreover have "refs env t2 = refs env t1" using refs_map_cpu [of env buf t1] m by simp
  ultimately show ?thesis
    by (cases "flag_set (al_flags c) CAM_MEM_FLAG_KMD_ACCESS"; cases "rc = 0")
      (simp_all add: alloc_fill_def Let_def t1_def [symmetric] m x refs_snd_ext)
qed

lemma refs_alloc:
  "refs env (snd (cam_mem_mgr_alloc_and_map env cmd s)) =
     refs env s + (if snd (fst (cam_mem_mgr_alloc_and_map env cmd s)) = None then 0 else 1)"
proof (cases "mem_initialized s \<and> (\<exists>c. cmd = Some c \<and> cam_mem_util_check_alloc_flags c = 0)")
  case False
  then show ?thesis by (cases cmd) (auto simp: cam_mem_mgr_alloc_and_map_def)
next
  case True
  then obtain c where c: "cmd = Some c" "cam_mem_util_check_alloc_flags c = 0" and init: "mem_initialized s" by blast
  let ?fl = "al_flags c"
  let ?hw = "flag_set ?fl CAM_MEM_FLAG_HW_READ_WRITE \<or> flag_set ?fl CAM_MEM_FLAG_HW_SHARED_ACCESS
      \<or> flag_set ?fl CAM_MEM_FLAG_PROTECTED_MODE"
  let ?region = "if flag_set ?fl CAM_MEM_FLAG_PROTECTED_MODE then CAM_SMMU_REGION_SECHEAP
      else if flag_set ?fl CAM_MEM_FLAG_HW_SHARED_ACCESS then CAM_SMMU_REGION_SHARED else CAM_SMMU_REGION_IO"
  obtain y s1 where "cam_mem_util_ion_alloc env c s = (y, s1)" by fastforce
  then obtain rc dmabuf fd where a: "cam_mem_util_ion_alloc env c s = ((rc, dmabuf, fd), s1)" by (cases y) auto
  note ra = refs_ion_alloc [OF a]
  obtain i s2 where g: "cam_mem_get_slot s1 = (i, s2)" by fastforce
  have rg: "refs env s2 = refs env s1" by (rule refs_get_slot [OF g])
  note unf = cam_mem_mgr_alloc_and_map_def Let_def
  show ?thesis
  proof (cases "rc = 0 \<and> i \<noteq> None")
    case False
    then show ?thesis using init c a g ra rg by (cases i) (auto simp: unf refs_snd_ext)
  next
    case t: True
    then obtain idx where i: "i = Some idx" by blast
    obtain z s3 where z: "(if ?hw then cam_mem_util_map_hw_va env ?fl (al_mmu_hdls c)
        (unat (al_num_hdl c)) fd 0 (al_len c) ?region s2 else ((0, 0, al_len c), s2)) = (z, s3)" by fastforce
    obtain rc3 va len where zz: "z = (rc3, va, len)" by (cases z)
    have rh: "refs env s3 = refs env s2"
      using z refs_map_hw [of env ?fl "al_mmu_hdls c" "unat (al_num_hdl c)" fd 0 "al_len c" ?region s2]
      by (cases ?hw) auto
    have e: "cam_mem_mgr_alloc_and_map env cmd s =
       (if rc3 \<noteq> 0 then ((rc3, None), snd (ext env (Dma_buf_put dmabuf) (cam_mem_put_slot idx s3)))
        else alloc_fill env c idx dmabuf fd rc3 va s3)"
      using init c a t g i z zz by (cases ?hw) (simp_all add: unf)
    show ?thesis
      using t ra rg rh refs_alloc_fill [of env c idx dmabuf fd va s3]
      by (cases "rc3 = 0") (simp_all add: e refs_snd_ext)
  qed
qed

lemma refs_unmap_user:
  assumes "0 < idx" "idx < CAM_MEM_BUFQ_MAX" "active (bufq s idx)"
  shows "refs env (snd (cam_mem_util_unmap env idx CAM_SMMU_MAPPING_USER s)) =
     refs env s - (if dma_buf (bufq s idx) = 0 then 0 else 1)"
proof -
  let ?b = "bufq s idx" let ?fl = "buf_flags (bufq s idx)"
  let ?hw = "flag_set ?fl CAM_MEM_FLAG_HW_READ_WRITE \<or> flag_set ?fl CAM_MEM_FLAG_HW_SHARED_ACCESS
      \<or> flag_set ?fl CAM_MEM_FLAG_PROTECTED_MODE"
  obtain rc s1 where 1: "(if flag_set ?fl CAM_MEM_FLAG_KMD_ACCESS \<and> dma_buf ?b \<noteq> 0 \<and> kmdvaddr ?b \<noteq> 0
      then cam_mem_util_unmap_cpu_va env (dma_buf ?b) (kmdvaddr ?b) s else (0, s)) = (rc, s1)" by fastforce
  have r1: "refs env s1 = refs env s" "bufq s1 = bufq s"
    using 1 refs_unmap_cpu [of env "dma_buf ?b" "kmdvaddr ?b" s]
      only_traceD(3) [OF only_trace_unmap_cpu [of s env "dma_buf ?b" "kmdvaddr ?b"]]
    by (auto simp del: refs_unmap_cpu split: if_splits)
  define s2 where "s2 = (if ?hw then snd (cam_mem_util_unmap_hw_va env idx (unmap_region ?fl)
      CAM_SMMU_MAPPING_USER s1) else s1)"
  have r2: "refs env s2 = refs env s" "bufq s2 = bufq s"
    using r1 only_traceD(3) [OF only_trace_unmap_hw] by (auto simp: s2_def)
  define s3 where "s3 = upd_buf idx (\<lambda>b. b\<lparr>buf_flags := 0, buf_handle := - 1, vaddr := 0,
      hdls := replicate CAM_MEM_MMU_MAX_HANDLE 0\<rparr>) s2"
  have "refs env (put_dma_buf env idx s3) = refs env s - (if dma_buf ?b = 0 then 0 else 1)"
    using r2 by (simp add: put_dma_buf_def refs_snd_ext s3_def)
  then show ?thesis
    using assms 1 by (simp add: cam_mem_util_unmap_def Let_def s2_def s3_def cong: if_cong)
qed


section \<open>Handles in the table\<close>

lemma mem_ok_handle_slot:
  "mem_ok s \<Longrightarrow> active (bufq s i) \<Longrightarrow> CAM_MEM_MGR_GET_HDL_IDX (buf_handle (bufq s i)) = i \<and> 0 < i \<and> i < CAM_MEM_BUFQ_MAX"
  by (simp add: mem_ok_def buf_ok_def)

lemma get_hdl_idx_zero [simp]: "CAM_MEM_MGR_GET_HDL_IDX 0 = 0"
  by (simp add: CAM_MEM_MGR_GET_HDL_IDX_def)

text \<open>A lookup by the handle of an active buffer goes to that buffer.\<close>

lemma get_cpu_buf_active:
  assumes "mem_ok s" "mem_initialized s" "active (bufq s i)"
  shows "cam_mem_get_cpu_buf (buf_handle (bufq s i)) s =
     (if flag_set (buf_flags (bufq s i)) CAM_MEM_FLAG_KMD_ACCESS \<and> kmdvaddr (bufq s i) \<noteq> 0
      then (0, Some (kmdvaddr (bufq s i), buf_len (bufq s i))) else (- EINVAL, None))"
proof -
  have "buf_handle (bufq s i) \<noteq> 0"
    using mem_ok_handle_slot [OF assms(1,3)] by (metis get_hdl_idx_zero less_not_refl)
  then show ?thesis
    using mem_ok_handle_slot [OF assms(1,3)] assms(2,3) by (simp add: cam_mem_get_cpu_buf_def Let_def)
qed

text \<open>A handle whose slot is free is refused everywhere.\<close>

lemma stale_handle:
  assumes "mem_initialized s" "CAM_MEM_MGR_GET_HDL_IDX h = i" "0 < i" "i < CAM_MEM_BUFQ_MAX" "\<not> active (bufq s i)"
  shows "cam_mem_get_cpu_buf h s = (- EPERM, None)" "cam_mem_get_io_buf env h m s = ((- EAGAIN, 0, 0), s)"
    "cam_mem_mgr_release env (Some h) s = (- EINVAL, s)" "cam_mem_mgr_cache_ops env (Some (h, ops)) s = (- EINVAL, s)"
proof -
  have "h \<noteq> 0" using assms(2,3) by auto
  then show "cam_mem_get_cpu_buf h s = (- EPERM, None)" "cam_mem_get_io_buf env h m s = ((- EAGAIN, 0, 0), s)"
    "cam_mem_mgr_release env (Some h) s = (- EINVAL, s)" "cam_mem_mgr_cache_ops env (Some (h, ops)) s = (- EINVAL, s)"
    using assms by (simp_all add: cam_mem_get_cpu_buf_def cam_mem_get_io_buf_def cam_mem_mgr_release_def
        cam_mem_mgr_cache_ops_def Let_def)
qed

lemma protected_no_kmd:
  "cam_mem_util_check_alloc_flags c = 0 \<Longrightarrow> flag_set (al_flags c) CAM_MEM_FLAG_PROTECTED_MODE
     \<Longrightarrow> \<not> flag_set (al_flags c) CAM_MEM_FLAG_KMD_ACCESS"
  by (auto simp: cam_mem_util_check_alloc_flags_def split: if_splits)

lemma alloc_good:
  assumes "mem_wf s" "cam_mem_mgr_alloc_and_map env (Some c) s = ((rc, Some (h, fd)), s')"
  obtains idx where "rc = 0" "mem_ok s" "mem_ok s'" "mem_initialized s'" "0 < idx" "idx < CAM_MEM_BUFQ_MAX"
    "\<not> active (bufq s idx)" "active (bufq s' idx)" "buf_handle (bufq s' idx) = h" "\<forall>j. j \<noteq> idx \<longrightarrow> bufq s' j = bufq s j"
    "h = mem_handle_of (al_flags c) idx fd" "buf_flags (bufq s' idx) = al_flags c"
    "buf_len (bufq s' idx) = al_len c" "dma_buf (bufq s' idx) \<noteq> 0" "cam_mem_util_check_alloc_flags c = 0"
proof -
  have init: "mem_initialized s" using assms(2) by (auto simp: cam_mem_mgr_alloc_and_map_def split: if_splits)
  then have ok: "mem_ok s" using assms(1) by (simp add: mem_wf_def)
  have ok': "mem_wf s'" using mem_wf_alloc [OF assms(1), of env "Some c"] assms(2) by simp
  show thesis
  proof (cases rule: alloc_cases [OF ok, of env "Some c"])
    case (1 rc s')
    then show thesis using assms(2) by simp
  next
    case (2 c' idx b fd' t)
    have e: "c' = c" "t = s'" "fd' = fd" "buf_handle b = h" "rc = 0" using 2 assms(2) by auto
    have i': "mem_initialized s'" "bufq s' = (bufq s)(idx := b)" using 2 e init by (auto simp: filled_def)
    show thesis
      by (rule that [of idx]) (use 2 e i' ok ok' in \<open>simp_all add: mem_wf_def\<close>)
  qed
qed

section \<open>Properties\<close>

text \<open>
  C31: In every state the memory manager can reach, under any results of ION, dma-buf and SMMU
  calls, the bitmap marks exactly the active buffers, an active buffer lies in slots 1 to 1023,
  its handle carries its slot number, and two active buffers never share a handle.
\<close>
theorem mem_reachable_wf:
  assumes "reach mem_initial (mem_step env) s" "mem_initialized s"
  shows "mem_ok s \<and> (\<forall>i j. active (bufq s i) \<and> active (bufq s j)
     \<and> buf_handle (bufq s i) = buf_handle (bufq s j) \<longrightarrow> i = j)"
proof -
  have ok: "mem_ok s" using mem_sys.reach_inv [OF assms(1)] assms(2) by (simp add: mem_wf_def)
  then show ?thesis using mem_ok_handle_slot by metis
qed

text \<open>
  An allocation that returns a handle took a slot no active buffer used, leaves every other
  slot as it was, and the handle is marked secure exactly when protected mode was asked for; the
  handle resolves to the new buffer: the CPU lookup answers with its length when a CPU mapping was
  asked for and made, and is refused otherwise.
\<close>
theorem mem_alloc_lookup:
  assumes "mem_wf s" "cam_mem_mgr_alloc_and_map env (Some c) s = ((rc, Some (h, fd)), s')"
  shows "rc = 0 \<and> CAM_MEM_MGR_IS_SECURE_HDL h = flag_set (al_flags c) CAM_MEM_FLAG_PROTECTED_MODE
    \<and> (\<exists>idx. \<not> active (bufq s idx) \<and> CAM_MEM_MGR_GET_HDL_IDX h = idx
         \<and> (\<forall>j. j \<noteq> idx \<longrightarrow> bufq s' j = bufq s j) \<and> (\<forall>j. active (bufq s j) \<longrightarrow> buf_handle (bufq s j) \<noteq> h)
         \<and> cam_mem_get_cpu_buf h s' =
             (if flag_set (al_flags c) CAM_MEM_FLAG_KMD_ACCESS \<and> kmdvaddr (bufq s' idx) \<noteq> 0
              then (0, Some (kmdvaddr (bufq s' idx), al_len c)) else (- EINVAL, None)))"
proof (rule alloc_good [OF assms], intro conjI exI)
  fix idx
  assume a: "rc = 0" "mem_ok s" "mem_ok s'" "mem_initialized s'" "0 < idx" "idx < CAM_MEM_BUFQ_MAX"
    "\<not> active (bufq s idx)" "active (bufq s' idx)" "buf_handle (bufq s' idx) = h" "\<forall>j. j \<noteq> idx \<longrightarrow> bufq s' j = bufq s j"
    "h = mem_handle_of (al_flags c) idx fd" "buf_flags (bufq s' idx) = al_flags c" "buf_len (bufq s' idx) = al_len c"
  show "rc = 0" "\<not> active (bufq s idx)" "\<forall>j. j \<noteq> idx \<longrightarrow> bufq s' j = bufq s j" by fact+
  show "CAM_MEM_MGR_IS_SECURE_HDL h = flag_set (al_flags c) CAM_MEM_FLAG_PROTECTED_MODE"
    using a(11) mem_handle_secure by simp
  show i: "CAM_MEM_MGR_GET_HDL_IDX h = idx" using a(6,11) mem_handle_of_idx by simp
  show "\<forall>j. active (bufq s j) \<longrightarrow> buf_handle (bufq s j) \<noteq> h"
    using mem_ok_handle_slot [OF a(2)] i a(7) by metis
  show "cam_mem_get_cpu_buf h s' =
      (if flag_set (al_flags c) CAM_MEM_FLAG_KMD_ACCESS \<and> kmdvaddr (bufq s' idx) \<noteq> 0
       then (0, Some (kmdvaddr (bufq s' idx), al_len c)) else (- EINVAL, None))"
    using get_cpu_buf_active [OF a(3,4,8)] a(9,12,13) by simp
qed


text \<open>
  C32: No path of an allocation makes a protected buffer visible to the CPU: whatever the flags,
  if the handle returned is secure then the CPU lookup of that handle is refused.
\<close>
theorem mem_secure_not_cpu:
  assumes "mem_wf s" "cam_mem_mgr_alloc_and_map env (Some c) s = ((rc, Some (h, fd)), s')"
    "CAM_MEM_MGR_IS_SECURE_HDL h"
  shows "cam_mem_get_cpu_buf h s' = (- EINVAL, None)"
proof (rule alloc_good [OF assms(1,2)])
  fix idx
  assume a: "mem_ok s'" "mem_initialized s'" "active (bufq s' idx)" "buf_handle (bufq s' idx) = h"
    "h = mem_handle_of (al_flags c) idx fd" "buf_flags (bufq s' idx) = al_flags c"
    "cam_mem_util_check_alloc_flags c = 0"
  have "\<not> flag_set (al_flags c) CAM_MEM_FLAG_KMD_ACCESS"
    using protected_no_kmd [OF a(7)] assms(3) a(5) mem_handle_secure by simp
  then show ?thesis using get_cpu_buf_active [OF a(1-3)] a(4,6) by simp
qed

text \<open>
  C33: Releasing a handle that an active buffer carries frees that slot and no other, whatever
  the unmapping calls return, and makes the handle stale: CPU and device lookups, cache
  operations and a second release are refused and change nothing.
\<close>
theorem mem_release_stale:
  assumes "mem_wf s" "mem_initialized s" "active (bufq s i)" "buf_handle (bufq s i) = h"
    "cam_mem_mgr_release env (Some h) s = (rc, s')"
  shows "\<not> active (bufq s' i) \<and> \<not> mem_bitmap s' i \<and> (\<forall>j. j \<noteq> i \<longrightarrow> bufq s' j = bufq s j)
    \<and> cam_mem_get_cpu_buf h s' = (- EPERM, None) \<and> cam_mem_get_io_buf env' h m s' = ((- EAGAIN, 0, 0), s')
    \<and> cam_mem_mgr_release env' (Some h) s' = (- EINVAL, s')
    \<and> cam_mem_mgr_cache_ops env' (Some (h, ops)) s' = (- EINVAL, s')"
proof -
  have ok: "mem_ok s" using assms(1,2) by (simp add: mem_wf_def)
  note slot = mem_ok_handle_slot [OF ok assms(3)]
  have em: "emptied i s s'"
  proof (cases rule: release_cases [OF ok assms(2), of env h])
    case 1
    then show ?thesis using assms(3,4) by blast
  next
    case (2 idx)
    have "idx = i" using mem_ok_handle_slot [OF ok 2(1)] slot 2(2) assms(4) by simp
    then show ?thesis using 2(6) assms(5) by simp
  qed
  have st: "mem_initialized s'" "\<not> active (bufq s' i)" "\<not> mem_bitmap s' i" "\<forall>j. j \<noteq> i \<longrightarrow> bufq s' j = bufq s j"
    using em assms(2) by (auto simp: emptied_def)
  show ?thesis using st slot stale_handle [OF st(1) _ _ _ st(2)] assms(4) by simp
qed

text \<open>
  An allocation keeps exactly one dma-buf reference for the table if it succeeds and none if
  it fails, on every path of the code; releasing the buffer gives that reference back, so that
  the two together leave the count where it was.
\<close>
theorem mem_refs_balanced:
  assumes "mem_wf s" "cam_mem_mgr_alloc_and_map env (Some c) s = ((rc, res), s')"
  shows "refs env s' = refs env s + (if rc = 0 then 1 else 0) \<and> (rc = 0 \<longleftrightarrow> res \<noteq> None)
    \<and> (\<forall>h fd. res = Some (h, fd) \<longrightarrow> refs env (snd (cam_mem_mgr_release env (Some h) s')) = refs env s)"
proof (cases res)
  case None
  have "rc \<noteq> 0"
  proof (cases "mem_initialized s")
    case True
    then have "mem_ok s" using assms(1) by (simp add: mem_wf_def)
    then show ?thesis by (cases rule: alloc_cases [of s env "Some c"]) (use assms(2) None in auto)
  qed (use assms(2) in \<open>auto simp: cam_mem_mgr_alloc_and_map_def\<close>)
  then show ?thesis using None refs_alloc [of env "Some c" s] assms(2) by simp
next
  case (Some p)
  obtain h fd where p: "res = Some (h, fd)" using Some by (cases p) auto
  show ?thesis
  proof (rule alloc_good [OF assms(1) assms(2) [unfolded p]])
    fix idx
    assume a: "rc = 0" "mem_ok s'" "mem_initialized s'" "0 < idx" "idx < CAM_MEM_BUFQ_MAX" "active (bufq s' idx)"
      "buf_handle (bufq s' idx) = h" "dma_buf (bufq s' idx) \<noteq> 0" "h = mem_handle_of (al_flags c) idx fd"
    have r: "cam_mem_mgr_release env (Some h) s' = cam_mem_util_unmap env idx CAM_SMMU_MAPPING_USER s'"
      using a mem_handle_of_idx [OF a(5)] by (simp add: cam_mem_mgr_release_def Let_def)
    have "refs env s' = refs env s + 1" using refs_alloc [of env "Some c" s] assms(2) p by simp
    then show ?thesis using a p r refs_unmap_user [OF a(4,5,6), of env] by simp
  qed
qed

section \<open>Mapping into several devices\<close>

lemma map_hw_loop_fail:
  assumes "i < length hs" "\<forall>k<i. 0 \<le> er_rc (orc env (length (ext_trace s) + k))"
    "er_rc (orc env (length (ext_trace s) + i)) < 0"
  shows "\<exists>va' len' s'. map_hw_loop env call hs j rc va len s =
      ((er_rc (orc env (length (ext_trace s) + i)), True, j + i, va', len'), s')
    \<and> ext_trace s' = ext_trace s @ map call (take (Suc i) hs)"
  using assms
proof (induction hs arbitrary: i j rc va len s)
  case (Cons h hs)
  let ?s1 = "s\<lparr>ext_trace := ext_trace s @ [call h]\<rparr>"
  show ?case
  proof (cases i)
    case 0
    then show ?thesis using Cons.prems by (simp add: ext_def Let_def)
  next
    case (Suc i')
    have "i' < length hs" "\<forall>k<i'. 0 \<le> er_rc (orc env (length (ext_trace ?s1) + k))"
      "er_rc (orc env (length (ext_trace ?s1) + i')) < 0" "\<not> er_rc (orc env (length (ext_trace s))) < 0"
      using Cons.prems Suc spec [OF Cons.prems(2), of "Suc k" for k] spec [OF Cons.prems(2), of 0]
      by (auto simp: not_less)
    then show ?thesis
      using Cons.IH [of i' ?s1 "Suc j"] Suc by (auto simp: ext_def Let_def)
  qed
qed simp

lemma trace_fold_ext:
  "ext_trace (fold (\<lambda>j s. snd (ext env (f j) s)) js s) = ext_trace s @ map f js"
  by (induction js arbitrary: s) (simp_all add: ext_def)

text \<open>
  When mapping a buffer into several SMMU contexts fails at the \<open>i\<close>-th one, the calls made
  are exactly the maps of contexts 0 to \<open>i\<close> followed by the unmaps of contexts \<open>i - 1\<close> down to 1:
  the failure code is returned but the first context keeps its mapping.
\<close>
theorem mem_map_failure_keeps_first:
  assumes "cam_mem_util_get_dma_dir flags = Inr dir" "i < n" "n \<le> length hs"
    "\<forall>k<i. 0 \<le> er_rc (orc env (length (ext_trace s) + k))"
    "er_rc (orc env (length (ext_trace s) + i)) < 0"
  shows "fst (fst (cam_mem_util_map_hw_va env flags hs n fd va len region s)) = er_rc (orc env (length (ext_trace s) + i))
    \<and> ext_trace (snd (cam_mem_util_map_hw_va env flags hs n fd va len region s)) =
      ext_trace s
      @ map (\<lambda>j. if flag_set flags CAM_MEM_FLAG_PROTECTED_MODE then Smmu_map_stage2 (hs ! j) fd dir
               else Smmu_map_user (hs ! j) fd (flag_set flags CAM_MEM_FLAG_DISABLE_DELAYED_UNMAP) dir region) [0..<Suc i]
      @ map (\<lambda>j. if flag_set flags CAM_MEM_FLAG_PROTECTED_MODE then Smmu_unmap_stage2 (hs ! j) fd
               else Smmu_unmap_user (hs ! j) fd CAM_SMMU_REGION_IO) (rev [1..<i])"
proof -
  let ?prot = "flag_set flags CAM_MEM_FLAG_PROTECTED_MODE"
  let ?call = "\<lambda>h. if ?prot then Smmu_map_stage2 h fd dir
      else Smmu_map_user h fd (flag_set flags CAM_MEM_FLAG_DISABLE_DELAYED_UNMAP) dir region"
  have l: "i < length (take n hs)" using assms(2,3) by simp
  obtain va' len' s' where m: "map_hw_loop env ?call (take n hs) 0 (- 1) va len s =
      ((er_rc (orc env (length (ext_trace s) + i)), True, i, va', len'), s')"
    and t: "ext_trace s' = ext_trace s @ map ?call (take (Suc i) (take n hs))"
    using map_hw_loop_fail [OF l assms(4,5), of ?call 0 "- 1" va len] by auto
  have "Suc i \<le> length hs" using assms(2,3) by simp
  then have "take (Suc i) hs = map ((!) hs) [0..<Suc i]"
    by (intro nth_equalityI) (simp_all del: upt_Suc)
  then have "take (Suc i) (take n hs) = map ((!) hs) [0..<Suc i]"
    using assms(2) by (simp add: min_absorb1 Suc_leI del: upt_Suc)
  then have "map ?call (take (Suc i) (take n hs)) = map (\<lambda>j. ?call (hs ! j)) [0..<Suc i]"
    by (simp add: comp_def)
  then show ?thesis using t by (simp add: cam_mem_util_map_hw_va_def assms(1) m trace_fold_ext)
qed


section \<open>Witnesses\<close>

definition env_demo :: mem_env where
  "env_demo = \<lparr>orc = (\<lambda>n. \<lparr>er_rc = (if n = 10 then - 22 else 0), er_val = 0x8000, er_len = 4096\<rparr>),
     dmabuf_size = (\<lambda>_. 8192), ion_secure_heap = 512, ion_default_heaps = 1, ION_FLAG_CACHED = 1,
     ion_secure_camera = 2, ION_FLAG_CP_CDSP = 4\<rparr>"

definition mem_off :: cam_mem_table where
  "mem_off = \<lparr>mem_initialized = False, mem_bitmap = (\<lambda>_. False), bufq = (\<lambda>_. zero_bufq),
     dbg_buf_idx = - 1, ext_trace = []\<rparr>"

definition mem_up :: cam_mem_table where
  "mem_up = snd (cam_mem_mgr_init True mem_off)"

definition alloc_kmd :: cam_mem_mgr_alloc_cmd where
  "alloc_kmd = \<lparr>al_len = 8192, al_mmu_hdls = [7, 9], al_num_hdl = 2, al_flags = 1 OR 8\<rparr>"

definition alloc_prot :: cam_mem_mgr_alloc_cmd where
  "alloc_prot = \<lparr>al_len = 8192, al_mmu_hdls = [7, 9], al_num_hdl = 2, al_flags = 32\<rparr>"

lemma mem_up_wf: "mem_wf mem_up"
  using mem_wf_init [of True mem_off] by (simp add: mem_up_def)

lemma mem_up_reach: "reach mem_initial (mem_step env) mem_up"
  unfolding mem_up_def
proof (rule reach_step)
  show "reach mem_initial (mem_step env) mem_off" by (rule reach_init) (simp add: mem_initial_def mem_off_def)
qed (rule mem_step.mem_init)

lemma mem_up_alloc: "fst (cam_mem_mgr_alloc_and_map env_demo (Some alloc_kmd) mem_up) = (0, Some (1, 0))"
  by code_simp

lemma mem_up_prot: "fst (cam_mem_mgr_alloc_and_map env_demo (Some alloc_prot) mem_up) = (0, Some (0x8001, 0))"
  by code_simp

lemma alloc_result:
  "fst (cam_mem_mgr_alloc_and_map env c s) = (rc, res)
     \<Longrightarrow> cam_mem_mgr_alloc_and_map env c s = ((rc, res), snd (cam_mem_mgr_alloc_and_map env c s))"
  by (metis prod.collapse)

theorem mem_reachable_wf_witness: "mem_ok mem_up \<and> mem_initialized mem_up"
  using mem_reachable_wf [OF mem_up_reach [of env_demo]]
  by (simp add: mem_up_def cam_mem_mgr_init_def Let_def)

theorem mem_alloc_lookup_witness:
  "CAM_MEM_MGR_GET_HDL_IDX 1 = 1 \<and> cam_mem_get_cpu_buf 1
     (snd (cam_mem_mgr_alloc_and_map env_demo (Some alloc_kmd) mem_up)) = (0, Some (0x8000, 8192))"
proof -
  have "kmdvaddr (bufq (snd (cam_mem_mgr_alloc_and_map env_demo (Some alloc_kmd) mem_up)) 1) = 0x8000" by code_simp
  moreover have "flag_set (al_flags alloc_kmd) CAM_MEM_FLAG_KMD_ACCESS" "al_len alloc_kmd = 8192"
    "CAM_MEM_MGR_GET_HDL_IDX 1 = 1" by code_simp+
  ultimately show ?thesis
    using mem_alloc_lookup [OF mem_up_wf alloc_result [OF mem_up_alloc]] by auto
qed

theorem mem_secure_not_cpu_witness:
  "cam_mem_get_cpu_buf 0x8001 (snd (cam_mem_mgr_alloc_and_map env_demo (Some alloc_prot) mem_up)) = (- EINVAL, None)"
proof -
  have "CAM_MEM_MGR_IS_SECURE_HDL 0x8001" by code_simp
  then show ?thesis using mem_secure_not_cpu [OF mem_up_wf alloc_result [OF mem_up_prot]] by simp
qed

theorem mem_refs_balanced_witness:
  "refs env_demo (snd (cam_mem_mgr_alloc_and_map env_demo (Some alloc_kmd) mem_up)) = refs env_demo mem_up + 1"
  using mem_refs_balanced [OF mem_up_wf alloc_result [OF mem_up_alloc]] by simp

theorem mem_release_stale_witness:
  "fst (cam_mem_get_cpu_buf 1 (snd (cam_mem_mgr_release env_demo (Some 1)
     (snd (cam_mem_mgr_alloc_and_map env_demo (Some alloc_kmd) mem_up))))) = - EPERM"
proof -
  let ?s = "snd (cam_mem_mgr_alloc_and_map env_demo (Some alloc_kmd) mem_up)"
  have "mem_initialized ?s" "active (bufq ?s 1)" "buf_handle (bufq ?s 1) = 1" by code_simp+
  note a = this
  show ?thesis
    using mem_release_stale [OF mem_wf_alloc [OF mem_up_wf] a surjective_pairing] by (simp only: fst_conv)
qed

theorem mem_map_failure_keeps_first_witness:
  "ext_trace (snd (cam_mem_util_map_hw_va env_demo 1 [7, 9, 11] 3 4 0 0 CAM_SMMU_REGION_IO
       (mem_up\<lparr>ext_trace := replicate 8 (Dma_buf_put 0)\<rparr>))) =
   replicate 8 (Dma_buf_put 0) @ [Smmu_map_user 7 4 False DMA_BIDIRECTIONAL CAM_SMMU_REGION_IO,
     Smmu_map_user 9 4 False DMA_BIDIRECTIONAL CAM_SMMU_REGION_IO,
     Smmu_map_user 11 4 False DMA_BIDIRECTIONAL CAM_SMMU_REGION_IO,
     Smmu_unmap_user 9 4 CAM_SMMU_REGION_IO]"
proof -
  let ?s = "mem_up\<lparr>ext_trace := replicate 8 (Dma_buf_put 0)\<rparr>"
  have a: "cam_mem_util_get_dma_dir 1 = Inr DMA_BIDIRECTIONAL" by code_simp
  have b: "\<not> flag_set 1 CAM_MEM_FLAG_PROTECTED_MODE" "\<not> flag_set 1 CAM_MEM_FLAG_DISABLE_DELAYED_UNMAP" by code_simp+
  have c: "\<forall>k<2. 0 \<le> er_rc (orc env_demo (length (ext_trace ?s) + k))"
    "er_rc (orc env_demo (length (ext_trace ?s) + 2)) < 0" by (simp_all add: env_demo_def)
  show ?thesis
    using mem_map_failure_keeps_first [OF a _ _ c, of 3 "[7, 9, 11]" 4 0 0 CAM_SMMU_REGION_IO] b
    by (simp add: numeral_2_eq_2 upt_rec)
qed

end
