(* ===== verification/Cam_Kmem.thy ===== *)
theory Cam_Kmem
  imports Cam_Prelude
begin

text \<open>
  Kernel memory as bytes, with the little-endian 32-bit loads and stores that the packet code
  performs through pointers. A range is named by its first address and its length; membership is
  decided by one wrapping subtraction, as in the C idiom, so that no range is special.
\<close>

type_synonym kmem = "ptr \<Rightarrow> u8"

definition ld32 :: "kmem \<Rightarrow> ptr \<Rightarrow> u32" where
  "ld32 m a = ucast (m a) OR push_bit 8 (ucast (m (a + 1))) OR push_bit 16 (ucast (m (a + 2)))
     OR push_bit 24 (ucast (m (a + 3)))"

definition st32 :: "kmem \<Rightarrow> ptr \<Rightarrow> u32 \<Rightarrow> kmem" where
  "st32 m a v = m(a := ucast v, a + 1 := ucast (drop_bit 8 v), a + 2 := ucast (drop_bit 16 v),
     a + 3 := ucast (drop_bit 24 v))"

definition in_range :: "ptr \<Rightarrow> u64 \<Rightarrow> ptr \<Rightarrow> bool" where
  "in_range base len a \<longleftrightarrow> a - base < len"

lemma unat_u32_less: "unat (w :: u32) < 2 ^ 32"
  using unsigned_less [of w, where ?'a = nat] by simp

lemma unat_ucast_u32 [simp]: "unat (ucast (w :: u32) :: u64) = unat w"
proof -
  have "unat w < 2 ^ 64" using unat_u32_less [of w] by simp
  then show ?thesis by (simp add: unsigned_ucast_eq take_bit_nat_eq_self)
qed

lemma in_range_iff: "in_range base len a \<longleftrightarrow> (\<exists>k < unat len. a = base + of_nat k)"
proof
  assume "in_range base len a"
  then have "unat (a - base) < unat len \<and> a = base + of_nat (unat (a - base))"
    by (simp add: in_range_def word_less_nat_alt)
  then show "\<exists>k < unat len. a = base + of_nat k" by blast
next
  assume "\<exists>k < unat len. a = base + of_nat k"
  then obtain k where k: "k < unat len" "a = base + of_nat k" by blast
  then have "unat (of_nat k :: u64) = k"
    by (metis le_unat_uoi less_imp_le)
  then show "in_range base len a" using k by (simp add: in_range_def word_less_nat_alt)
qed

text \<open>A part of a range lies in the range.\<close>

lemma in_range_sub:
  assumes "in_range (base + off) len a" "unat off + unat len \<le> unat n"
  shows "in_range base n a"
proof -
  obtain k where k: "k < unat len" "a = base + off + of_nat k" using assms(1) by (auto simp: in_range_iff)
  have "a = base + of_nat (unat off + k)" using k(2) by (simp add: add.assoc)
  then show ?thesis unfolding in_range_iff using k(1) assms(2) by (intro exI [of _ "unat off + k"]) simp
qed

lemma ld32_st32: "ld32 (st32 m a v) a = v"
proof -
  have "ucast (ucast v :: u8) OR push_bit 8 (ucast (ucast (drop_bit 8 v) :: u8))
      OR push_bit 16 (ucast (ucast (drop_bit 16 v) :: u8)) OR push_bit 24 (ucast (ucast (drop_bit 24 v) :: u8)) = v"
  proof (rule bit_word_eqI)
    fix n assume "n < LENGTH(32)"
    then consider "n < 8" | "8 \<le> n" "n < 16" | "16 \<le> n" "n < 24" | "24 \<le> n" "n < 32" by force
    then show "bit (ucast (ucast v :: u8) OR push_bit 8 (ucast (ucast (drop_bit 8 v) :: u8))
      OR push_bit 16 (ucast (ucast (drop_bit 16 v) :: u8))
      OR push_bit 24 (ucast (ucast (drop_bit 24 v) :: u8)) :: u32) n = bit v n"
      by cases (auto simp: bit_simps)
  qed
  then show ?thesis by (simp add: ld32_def st32_def)
qed

lemma st32_other: "\<not> in_range a 4 b \<Longrightarrow> st32 m a v b = m b"
proof -
  assume h: "\<not> in_range a 4 b"
  have "b \<noteq> a" "b \<noteq> a + 1" "b \<noteq> a + 2" "b \<noteq> a + 3" using h by (auto simp: in_range_def)
  then show ?thesis by (simp add: st32_def)
qed

lemma ld32_cong:
  "(\<And>b. in_range a 4 b \<Longrightarrow> m b = m' b) \<Longrightarrow> ld32 m a = ld32 m' a"
  by (simp add: ld32_def in_range_def)

end
