(* ===== verification/Cam_Packet.thy ===== *)
theory Cam_Packet
  imports Cam_Kmem Cam_Mem_Inv
begin

text \<open>
  Command packets, \<open>cam_utils/cam_packet_util.c\<close>. A packet lies in kernel memory that user space
  can also reach; its fields are read through the pointer each time the code reads them, so a
  patch whose destination is the packet itself is seen by the next iteration. Buffers are looked
  up in the buffer table of the memory manager. Logging is not represented.
\<close>

section \<open>Structures\<close>

record cam_packet =
  pk_size :: u32
  cmd_buf_offset :: u32
  num_cmd_buf :: u32
  io_configs_offset :: u32
  num_io_configs :: u32
  patch_offset :: u32
  num_patches :: u32
  kmd_cmd_buf_index :: u32
  kmd_cmd_buf_offset :: u32

record cam_cmd_buf_desc =
  cd_mem_handle :: u32
  cd_offset :: u32
  cd_size :: u32
  cd_length :: u32

record cam_patch_desc =
  dst_buf_hdl :: u32
  dst_offset :: u32
  src_buf_hdl :: u32
  src_offset :: u32

record cam_kmd_buf_info =
  kb_handle :: u32
  kb_cpu_addr :: ptr
  kb_offset :: u32
  kb_size :: u32
  kb_used_bytes :: u32

text \<open>\<open>offsetof(struct cam_packet, payload)\<close> and the sizes of the three kinds of array elements.\<close>

abbreviation pkt_wo_payload :: u64 where "pkt_wo_payload \<equiv> 56"
abbreviation sizeof_cmd_buf_desc :: u64 where "sizeof_cmd_buf_desc \<equiv> 24"
abbreviation sizeof_buf_io_cfg :: u64 where "sizeof_buf_io_cfg \<equiv> 256"
abbreviation sizeof_patch_desc :: u64 where "sizeof_patch_desc \<equiv> 16"

definition packet_at :: "kmem \<Rightarrow> ptr \<Rightarrow> cam_packet" where
  "packet_at m p = \<lparr>pk_size = ld32 m (p + 4), cmd_buf_offset = ld32 m (p + 24),
     num_cmd_buf = ld32 m (p + 28), io_configs_offset = ld32 m (p + 32),
     num_io_configs = ld32 m (p + 36), patch_offset = ld32 m (p + 40),
     num_patches = ld32 m (p + 44), kmd_cmd_buf_index = ld32 m (p + 48),
     kmd_cmd_buf_offset = ld32 m (p + 52)\<rparr>"

definition cmd_desc_at :: "kmem \<Rightarrow> ptr \<Rightarrow> cam_cmd_buf_desc" where
  "cmd_desc_at m a = \<lparr>cd_mem_handle = ld32 m a, cd_offset = ld32 m (a + 4), cd_size = ld32 m (a + 8),
     cd_length = ld32 m (a + 12)\<rparr>"

definition patch_desc_at :: "kmem \<Rightarrow> ptr \<Rightarrow> cam_patch_desc" where
  "patch_desc_at m a = \<lparr>dst_buf_hdl = ld32 m a, dst_offset = ld32 m (a + 4),
     src_buf_hdl = ld32 m (a + 8), src_offset = ld32 m (a + 12)\<rparr>"

section \<open>Operations\<close>

text \<open>The addresses of the out parameters stand for a result; \<open>None\<close> when nothing is stored.\<close>

definition cam_packet_util_get_cmd_mem_addr :: "u32 \<Rightarrow> cam_mem_table \<Rightarrow> rc \<times> (ptr \<times> u64) option" where
  "cam_packet_util_get_cmd_mem_addr hdl s =
     (case cam_mem_get_cpu_buf hdl s of
        (rc, None) \<Rightarrow> (rc, None)
      | (rc, Some (addr, len)) \<Rightarrow>
          if rc \<noteq> 0 then (rc, None)
          else if addr \<noteq> 0 \<and> len \<noteq> 0 then (rc, Some (addr, len)) else (- ENOMEM, None))"

definition cam_packet_util_validate_cmd_desc :: "cam_cmd_buf_desc \<Rightarrow> rc" where
  "cam_packet_util_validate_cmd_desc d =
     (if cd_size d < cd_length d \<or> sint (cd_mem_handle d) \<le> 0 then - EINVAL else 0)"

definition cam_packet_util_validate_packet :: "kmem \<Rightarrow> ptr \<Rightarrow> u64 \<Rightarrow> rc" where
  "cam_packet_util_validate_packet m p remain_len =
     (if p = 0 then - EINVAL
      else
        let k = packet_at m p; size = ucast (pk_size k) :: u64 in
        if remain_len < size then - EINVAL
        else
          let sum_cmd_desc = ucast (num_cmd_buf k) * sizeof_cmd_buf_desc;
              sum_io_cfgs = ucast (num_io_configs k) * sizeof_buf_io_cfg;
              sum_patch_desc = ucast (num_patches k) * sizeof_patch_desc
          in if size = 0
                \<or> size < pkt_wo_payload + ucast (cmd_buf_offset k) + sum_cmd_desc
                \<or> size < pkt_wo_payload + ucast (io_configs_offset k) + sum_io_cfgs
                \<or> size < pkt_wo_payload + ucast (patch_offset k) + sum_patch_desc
             then - EINVAL else 0)"

definition cam_packet_util_get_kmd_buffer ::
    "kmem \<Rightarrow> ptr \<Rightarrow> bool \<Rightarrow> cam_mem_table \<Rightarrow> rc \<times> cam_kmd_buf_info option" where
  "cam_packet_util_get_kmd_buffer m p kmd_buf s =
     (if p = 0 \<or> \<not> kmd_buf then (- EINVAL, None)
      else
        let k = packet_at m p in
        if num_cmd_buf k \<le> kmd_cmd_buf_index k then (- EINVAL, None)
        else
          let d = cmd_desc_at m (p + pkt_wo_payload + ucast (cmd_buf_offset k)
                    + ucast (kmd_cmd_buf_index k) * sizeof_cmd_buf_desc);
              rc = cam_packet_util_validate_cmd_desc d in
          if rc \<noteq> 0 then (rc, None)
          else
            (case cam_packet_util_get_cmd_mem_addr (cd_mem_handle d) s of
               (rc, None) \<Rightarrow> (rc, None)
             | (rc, Some (cpu_addr, len)) \<Rightarrow>
                 if rc \<noteq> 0 then (rc, None)
                 else if len \<le> ucast (cd_offset d) \<or> len - ucast (cd_offset d) < ucast (cd_size d)
                 then (- EINVAL, None)
                 else if len - ucast (cd_offset d) \<le> ucast (kmd_cmd_buf_offset k) then (- EINVAL, None)
                 else (rc, Some \<lparr>kb_handle = cd_mem_handle d,
                         kb_cpu_addr = cpu_addr + 4 * ucast (cd_offset d div 4 + kmd_cmd_buf_offset k div 4),
                         kb_offset = cd_offset d + kmd_cmd_buf_offset k,
                         kb_size = cd_size d - cd_length d, kb_used_bytes = 0\<rparr>)))"

definition cam_mem_is_secure_buf :: "u32 \<Rightarrow> bool" where
  "cam_mem_is_secure_buf h = CAM_MEM_MGR_IS_SECURE_HDL h"

text \<open>
  One patch: the look-ups, the two offset checks and the store. \<open>Inl\<close> is the code with which
  the function returns, \<open>Inr\<close> the code left in \<open>rc\<close> and the memory after the store.
\<close>

definition patch_one ::
    "mem_env \<Rightarrow> int \<Rightarrow> int \<Rightarrow> cam_patch_desc \<Rightarrow> kmem \<Rightarrow> cam_mem_table \<Rightarrow> (rc + rc \<times> kmem) \<times> cam_mem_table" where
  "patch_one env iommu_hdl sec_mmu_hdl d m s =
     (let hdl = (if cam_mem_is_secure_buf (src_buf_hdl d) then sec_mmu_hdl else iommu_hdl);
          ((rc, iova_addr, src_buf_size), s1) = cam_mem_get_io_buf env (src_buf_hdl d) hdl s in
      if rc < 0 then (Inl rc, s1)
      else
        (case cam_mem_get_cpu_buf (dst_buf_hdl d) s1 of
           (rc, None) \<Rightarrow> (Inl rc, s1)
         | (rc, Some (cpu_addr, dst_buf_len)) \<Rightarrow>
             if rc < 0 \<or> cpu_addr = 0 \<or> dst_buf_len = 0 then (Inl rc, s1)
             else if src_buf_size \<le> ucast (src_offset d) then (Inl (- EINVAL), s1)
             else if dst_buf_len < 8 \<or> dst_buf_len - 8 < ucast (dst_offset d) then (Inl (- EINVAL), s1)
             else (Inr (rc, st32 m (cpu_addr + ucast (dst_offset d)) (ucast iova_addr + src_offset d)), s1)))"

text \<open>The loop. The bound is read from the packet in every round.\<close>

function process_patches_loop ::
    "mem_env \<Rightarrow> ptr \<Rightarrow> ptr \<Rightarrow> int \<Rightarrow> int \<Rightarrow> nat \<Rightarrow> rc \<Rightarrow> kmem \<Rightarrow> cam_mem_table \<Rightarrow> rc \<times> kmem \<times> cam_mem_table" where
  "process_patches_loop env p patch_desc iommu_hdl sec_mmu_hdl i rc m s =
     (if unat (num_patches (packet_at m p)) \<le> i then (rc, m, s)
      else
        (case patch_one env iommu_hdl sec_mmu_hdl
                (patch_desc_at m (patch_desc + of_nat i * sizeof_patch_desc)) m s of
           (Inl rc', s1) \<Rightarrow> (rc', m, s1)
         | (Inr (rc', m'), s1) \<Rightarrow>
             process_patches_loop env p patch_desc iommu_hdl sec_mmu_hdl (Suc i) rc' m' s1))"
  by pat_completeness auto
termination
proof (relation "measure (\<lambda>(env, p, pd, h, h', i, rc, m, s). 2 ^ 32 - i)")
  fix env p pd h h' and i :: nat and rc m s x s1 y rc' m'
  assume "\<not> unat (num_patches (packet_at m p)) \<le> i"
  then have "i < 2 ^ 32" using unsigned_less [of "num_patches (packet_at m p)", where ?'a = nat] by simp
  then show "((env, p, pd, h, h', Suc i, rc', m', s1), (env, p, pd, h, h', i, rc, m, s))
      \<in> measure (\<lambda>(env, p, pd, h, h', i, rc, m, s). 2 ^ 32 - i)" by simp
qed simp

definition cam_packet_util_process_patches ::
    "mem_env \<Rightarrow> ptr \<Rightarrow> int \<Rightarrow> int \<Rightarrow> kmem \<Rightarrow> cam_mem_table \<Rightarrow> rc \<times> kmem \<times> cam_mem_table" where
  "cam_packet_util_process_patches env p iommu_hdl sec_mmu_hdl m s =
     process_patches_loop env p (p + pkt_wo_payload + 4 * ucast (patch_offset (packet_at m p) div 4))
       iommu_hdl sec_mmu_hdl 0 0 m s"

text \<open>
  Generic blobs. The handler is a parameter; it may change the memory and its own data
  \<open>'u\<close>, and what user space writes to the memory between two rounds counts as written by the handler.
  The command descriptor lies in that memory: the loop reads its length again in every round, twice, with
  nothing between the two reads. The loop runs on 32-bit counters and is a partial function: \<open>None\<close> is
  a loop that does not end.
\<close>

type_synonym 'u blob_handler = "u32 \<Rightarrow> u32 \<Rightarrow> ptr \<Rightarrow> kmem \<times> 'u \<Rightarrow> rc \<times> kmem \<times> 'u"

definition blob_block_size :: "u32 \<Rightarrow> u32" where
  "blob_block_size blob_size = ucast (4 + ((ucast blob_size + 4 - 1) div 4) * 4 :: u64)"

definition blob_type :: "u32 \<Rightarrow> u32" where
  "blob_type w = drop_bit 0 (w AND 0xFF)"

definition blob_size :: "u32 \<Rightarrow> u32" where
  "blob_size w = drop_bit 8 (w AND 0xFFFFFF00)"

partial_function (option) blob_loop ::
    "'u blob_handler \<Rightarrow> ptr \<Rightarrow> ptr \<Rightarrow> u32 \<Rightarrow> rc \<Rightarrow> kmem \<times> 'u \<Rightarrow> (rc \<times> kmem \<times> 'u) option" where
  "blob_loop cb cmd_buf blob_ptr len_read rc st =
     (let len = cd_length (cmd_desc_at (fst st) cmd_buf) in
      if \<not> len_read < len then Some (rc, st)
      else
        let w = ld32 (fst st) blob_ptr; block = blob_block_size (blob_size w) in
        if len < len_read + block then Some (- EINVAL, st)
        else
          (case cb (blob_type w) (blob_size w) (blob_ptr + 4) st of
             (rc', st') \<Rightarrow>
               if rc' \<noteq> 0 then Some (rc', st')
               else blob_loop cb cmd_buf (blob_ptr + 4 * ucast (block div 4)) (len_read + block) rc' st'))"

text \<open>\<open>cmd_buf\<close> is the address of the descriptor, \<open>0\<close> the null pointer.\<close>

definition cam_packet_util_process_generic_cmd_buffer ::
    "ptr \<Rightarrow> 'u blob_handler option \<Rightarrow> cam_mem_table \<Rightarrow> kmem \<times> 'u \<Rightarrow> (rc \<times> kmem \<times> 'u) option" where
  "cam_packet_util_process_generic_cmd_buffer cmd_buf cb s st =
     (let d = cmd_desc_at (fst st) cmd_buf in
      case cb of
        None \<Rightarrow> Some (- EINVAL, st)
      | Some cb \<Rightarrow>
          if cmd_buf = 0 then Some (- EINVAL, st)
          else if cd_length d = 0 \<or> cd_size d = 0 then Some (- EINVAL, st)
          else
            (case cam_mem_get_cpu_buf (cd_mem_handle d) s of
               (rc, None) \<Rightarrow> Some (rc, st)
             | (rc, Some (cpu_addr, buf_size)) \<Rightarrow>
                 if rc \<noteq> 0 \<or> cpu_addr = 0 \<or> buf_size = 0 then Some (rc, st)
                 else if buf_size < 4 \<or> buf_size - 4 < ucast (cd_offset d) then Some (- EINVAL, st)
                 else if buf_size - ucast (cd_offset d) < ucast (cd_length d) then Some (- EINVAL, st)
                 else blob_loop cb cmd_buf (cpu_addr + ucast (cd_offset d)) 0 rc st))"

end
