(* ===== verification/Cam_Packet_Props.thy ===== *)
theory Cam_Packet_Props
  imports Cam_Packet Cam_Mem_Props
begin

text \<open>
  Properties of the packet code: validation keeps every array of the packet inside it, patching
  writes only into CPU mappings of live buffers and, for a validated packet that no patch
  overwrites, does what the list of patches read beforehand says, and the blob loop ends and
  stays inside its command buffer.
\<close>

section \<open>Validation\<close>

lemma unat_sum_no_wrap:
  fixes a b :: u32 and c :: u64
  assumes "c \<le> 256"
  shows "unat (56 + ucast a + ucast b * c :: u64) = 56 + unat a + unat b * unat c"
proof -
  have a: "unat a < 2 ^ 32" "unat b < 2 ^ 32" by (rule unat_u32_less)+
  have c: "unat c \<le> 256" using assms by (simp add: word_le_nat_alt)
  have "unat b * unat c \<le> 2 ^ 32 * 256" using a c by (intro mult_mono) auto
  then have bc: "56 + unat a + unat b * unat c < 2 ^ 64" using a by simp
  have u: "unat (ucast a :: u64) = unat a" "unat (ucast b :: u64) = unat b" by simp_all
  have m: "unat (ucast b * c :: u64) = unat b * unat c" using bc u by (simp add: unat_mult_lem [THEN iffD1])
  show ?thesis
    using bc u m by (simp add: unat_word_ariths)
qed

lemma size_less_iff:
  fixes sz a b :: u32 and c :: u64
  assumes "c \<le> 256"
  shows "(ucast sz :: u64) < 56 + ucast a + ucast b * c \<longleftrightarrow> unat sz < 56 + unat a + unat b * unat c"
  using unat_sum_no_wrap [OF assms, of a b] by (simp add: word_less_nat_alt)

lemma validate_iff:
  "cam_packet_util_validate_packet m p n = 0 \<longleftrightarrow>
     p \<noteq> 0 \<and> unat (pk_size (packet_at m p)) \<le> unat n
     \<and> 56 + unat (cmd_buf_offset (packet_at m p)) + unat (num_cmd_buf (packet_at m p)) * 24 \<le> unat (pk_size (packet_at m p))
     \<and> 56 + unat (io_configs_offset (packet_at m p)) + unat (num_io_configs (packet_at m p)) * 256 \<le> unat (pk_size (packet_at m p))
     \<and> 56 + unat (patch_offset (packet_at m p)) + unat (num_patches (packet_at m p)) * 16 \<le> unat (pk_size (packet_at m p))"
proof -
  have n: "n < ucast (pk_size (packet_at m p)) \<longleftrightarrow> \<not> unat (pk_size (packet_at m p)) \<le> unat n"
    by (simp add: word_less_nat_alt not_le)
  have z: "(ucast (pk_size (packet_at m p)) :: u64) = 0 \<longleftrightarrow> unat (pk_size (packet_at m p)) = 0"
    by (simp add: word_unat_eq_iff)
  show ?thesis
    by (simp add: cam_packet_util_validate_packet_def Let_def n z size_less_iff)
qed

section \<open>Patching\<close>

lemma get_cpu_buf_Some:
  assumes "cam_mem_get_cpu_buf h s = (rc, Some (a, n))"
  obtains i where "rc = 0" "0 < i" "i < CAM_MEM_BUFQ_MAX" "active (bufq s i)" "buf_handle (bufq s i) = h"
    "flag_set (buf_flags (bufq s i)) CAM_MEM_FLAG_KMD_ACCESS" "a = kmdvaddr (bufq s i)" "n = buf_len (bufq s i)"
  using assms that [of "CAM_MEM_MGR_GET_HDL_IDX h"]
  by (auto simp: cam_mem_get_cpu_buf_def Let_def split: if_splits)

lemma get_cpu_buf_trace: "only_trace s s' \<Longrightarrow> cam_mem_get_cpu_buf h s' = cam_mem_get_cpu_buf h s"
  by (simp add: cam_mem_get_cpu_buf_def only_traceD)

lemma only_trace_get_io: "cam_mem_get_io_buf env h mmu s = (r, s') \<Longrightarrow> only_trace s s'"
  using only_trace_ext by (fastforce simp: cam_mem_get_io_buf_def Let_def split_beta split: if_splits)

text \<open>The bytes a patch stores to, if its destination resolves.\<close>

definition patch_target :: "cam_mem_table \<Rightarrow> cam_patch_desc \<Rightarrow> ptr \<Rightarrow> bool" where
  "patch_target s d a \<longleftrightarrow> (case cam_mem_get_cpu_buf (dst_buf_hdl d) s of
     (_, Some (cpu, len)) \<Rightarrow> in_range (cpu + ucast (dst_offset d)) 4 a | _ \<Rightarrow> False)"

lemma patch_target_trace: "only_trace s s' \<Longrightarrow> patch_target s' d a = patch_target s d a"
  by (simp add: patch_target_def get_cpu_buf_trace)

lemma patch_one_Inr:
  assumes "patch_one env h h' d m s = (Inr (rc, m'), s')"
  obtains cpu len v where "only_trace s s'" "rc = 0" "cam_mem_get_cpu_buf (dst_buf_hdl d) s = (0, Some (cpu, len))"
    "8 \<le> len" "ucast (dst_offset d) \<le> len - 8" "m' = st32 m (cpu + ucast (dst_offset d)) v"
proof -
  obtain rc0 iova n s1 where io: "cam_mem_get_io_buf env (src_buf_hdl d)
      (if cam_mem_is_secure_buf (src_buf_hdl d) then h' else h) s = ((rc0, iova, n), s1)"
    by (metis prod.exhaust)
  note t = only_trace_get_io [OF io]
  obtain rc1 r where cb: "cam_mem_get_cpu_buf (dst_buf_hdl d) s1 = (rc1, r)" by fastforce
  then obtain cpu len where r: "r = Some (cpu, len)" and e: "s' = s1" "rc = rc1" "8 \<le> len"
    "ucast (dst_offset d) \<le> len - 8" "m' = st32 m (cpu + ucast (dst_offset d)) (ucast iova + src_offset d)"
    using assms io by (cases r) (auto simp: patch_one_def Let_def not_less split: if_splits)
  have "rc1 = 0" using get_cpu_buf_Some [OF cb [unfolded r]] by blast
  then show thesis using that [of cpu len] t e cb r get_cpu_buf_trace [OF t] by auto
qed

lemma patch_one_Inl: "patch_one env h h' d m s = (Inl rc, s') \<Longrightarrow> only_trace s s'"
  by (auto simp: patch_one_def Let_def split_beta only_trace_get_io [OF surjective_pairing]
      split: if_splits prod.splits option.splits)

lemma patch_one_frame:
  assumes "patch_one env h h' d m s = (Inr (rc, m'), s')" "m' a \<noteq> m a"
  shows "patch_target s d a"
    "\<exists>i. 0 < i \<and> i < CAM_MEM_BUFQ_MAX \<and> active (bufq s i) \<and> flag_set (buf_flags (bufq s i)) CAM_MEM_FLAG_KMD_ACCESS
       \<and> in_range (kmdvaddr (bufq s i)) (buf_len (bufq s i)) a"
proof -
  obtain cpu len v where p: "cam_mem_get_cpu_buf (dst_buf_hdl d) s = (0, Some (cpu, len))" "8 \<le> len"
    "ucast (dst_offset d) \<le> len - 8" "m' = st32 m (cpu + ucast (dst_offset d)) v"
    by (rule patch_one_Inr [OF assms(1)])
  have r: "in_range (cpu + ucast (dst_offset d)) 4 a" using assms(2) p(4) st32_other by metis
  show "patch_target s d a" using p(1) r by (simp add: patch_target_def)
  have "unat (len - 8) = unat len - 8" "8 \<le> unat len" using p(2) by (simp_all add: unat_sub word_le_nat_alt)
  then have "unat (ucast (dst_offset d) :: u64) + unat (4 :: u64) \<le> unat len"
    using p(3) by (simp add: word_le_nat_alt)
  then have "in_range cpu len a" by (rule in_range_sub [OF r])
  then show "\<exists>i. 0 < i \<and> i < CAM_MEM_BUFQ_MAX \<and> active (bufq s i)
      \<and> flag_set (buf_flags (bufq s i)) CAM_MEM_FLAG_KMD_ACCESS \<and> in_range (kmdvaddr (bufq s i)) (buf_len (bufq s i)) a"
    using get_cpu_buf_Some [OF p(1)] by metis
qed


text \<open>Writes of the whole loop, and the state it leaves.\<close>

lemma loop_unfold:
  "process_patches_loop env p pd h h' i rc m s =
     (if unat (num_patches (packet_at m p)) \<le> i then (rc, m, s)
      else (case patch_one env h h' (patch_desc_at m (pd + of_nat i * 16)) m s of
           (Inl rc', s1) \<Rightarrow> (rc', m, s1)
         | (Inr (rc', m'), s1) \<Rightarrow> process_patches_loop env p pd h h' (Suc i) rc' m' s1))"
  by (subst process_patches_loop.simps) simp

lemma loop_frame:
  assumes "process_patches_loop env p pd h h' i rc m s = (rc', m', s')"
  shows "only_trace s s' \<and> (\<forall>a. m' a \<noteq> m a \<longrightarrow> (\<exists>i. 0 < i \<and> i < CAM_MEM_BUFQ_MAX \<and> active (bufq s i)
     \<and> flag_set (buf_flags (bufq s i)) CAM_MEM_FLAG_KMD_ACCESS
     \<and> in_range (kmdvaddr (bufq s i)) (buf_len (bufq s i)) a))"
  using assms
proof (induction env p pd h h' i rc m s arbitrary: rc' m' s' rule: process_patches_loop.induct)
  case (1 env p pd h h' i rc m s)
  let ?one = "patch_one env h h' (patch_desc_at m (pd + of_nat i * 16)) m s"
  show ?case
  proof (cases "unat (num_patches (packet_at m p)) \<le> i")
    case True
    then show ?thesis using 1(2) by (simp add: loop_unfold)
  next
    case False
    obtain r s1 where o: "?one = (r, s1)" by fastforce
    show ?thesis
    proof (cases r)
      case (Inl e)
      then show ?thesis using 1(2) False o patch_one_Inl [OF o [unfolded Inl]] by (simp add: loop_unfold)
    next
      case (Inr x)
      obtain rc1 m1 where x: "x = (rc1, m1)" by fastforce
      note o' = o [unfolded Inr x]
      have t: "only_trace s s1" by (rule patch_one_Inr [OF o'])
      have l: "process_patches_loop env p pd h h' (Suc i) rc1 m1 s1 = (rc', m', s')"
        using 1(2) False o' by (simp add: loop_unfold [of env p pd h h' i])
      note ih = 1(1) [OF False o' [symmetric] refl refl l]
      show ?thesis
        using only_trace_trans [OF t] ih patch_one_frame(2) [OF o'] only_traceD(3) [OF t] by metis
    qed
  qed
qed


section \<open>Patching against the list of patches\<close>

text \<open>The reference: the patches are given as a list, read before any of them is applied.\<close>

fun apply_patches ::
    "mem_env \<Rightarrow> int \<Rightarrow> int \<Rightarrow> cam_patch_desc list \<Rightarrow> rc \<Rightarrow> kmem \<Rightarrow> cam_mem_table \<Rightarrow> rc \<times> kmem \<times> cam_mem_table" where
  "apply_patches env h h' [] rc m s = (rc, m, s)"
| "apply_patches env h h' (d # ds) rc m s =
     (case patch_one env h h' d m s of
        (Inl rc', s1) \<Rightarrow> (rc', m, s1)
      | (Inr (rc', m'), s1) \<Rightarrow> apply_patches env h h' ds rc' m' s1)"

definition packet_area :: "kmem \<Rightarrow> ptr \<Rightarrow> ptr \<Rightarrow> bool" where
  "packet_area m p = in_range p (ucast (pk_size (packet_at m p)))"

definition patch_table :: "kmem \<Rightarrow> ptr \<Rightarrow> ptr" where
  "patch_table m p = p + 56 + 4 * ucast (patch_offset (packet_at m p) div 4)"

definition packet_patches :: "kmem \<Rightarrow> ptr \<Rightarrow> cam_patch_desc list" where
  "packet_patches m p =
     map (\<lambda>j. patch_desc_at m (patch_table m p + of_nat j * 16)) [0..<unat (num_patches (packet_at m p))]"

lemma ld32_area:
  assumes "\<forall>a. in_range p n a \<longrightarrow> m a = m' a" "unat off + 4 \<le> unat n"
  shows "ld32 m (p + off) = ld32 m' (p + off)"
  by (rule ld32_cong) (use assms in_range_sub [of p off 4] in auto)

lemma patch_desc_area:
  assumes "\<forall>a. in_range p n a \<longrightarrow> m a = m' a" "unat off + 16 \<le> unat n"
  shows "patch_desc_at m (p + off) = patch_desc_at m' (p + off)"
proof -
  have n: "unat n < 2 ^ 64" using unsigned_less [of n, where ?'a = nat] by simp
  have "unat (off + k) = unat off + unat k" if "unat k \<le> 16" for k :: u64
    using that assms(2) n by (simp add: unat_word_ariths)
  then have "unat (off + 4) = unat off + 4" "unat (off + 8) = unat off + 8" "unat (off + 12) = unat off + 12" by simp_all
  then show ?thesis
    using ld32_area [OF assms(1), of off] ld32_area [OF assms(1), of "off + 4"]
      ld32_area [OF assms(1), of "off + 8"] ld32_area [OF assms(1), of "off + 12"] assms(2)
    by (simp add: patch_desc_at_def add.assoc)
qed

lemma unat_of_nat_u64: "k < 2 ^ 64 \<Longrightarrow> unat (of_nat k :: u64) = k"
  by (simp add: unat_of_nat)

lemma table_offset:
  assumes "56 + unat off + n * 16 \<le> unat sz" "j < n"
  shows "unat (56 + 4 * ucast (off div 4 :: u32) + of_nat j * 16 :: u64) + 16 \<le> unat (sz :: u32)"
proof -
  have o: "4 * unat (off div 4) \<le> unat off" by (simp add: unat_div)
  have sz: "unat sz < 2 ^ 32" by (rule unat_u32_less)
  have j: "j * 16 + 16 \<le> n * 16" using assms(2) by simp
  have b: "56 + 4 * unat (off div 4) + j * 16 + 16 \<le> unat sz" using assms(1) o j by linarith
  have "(56 + 4 * ucast (off div 4) + of_nat j * 16 :: u64) = of_nat (56 + 4 * unat (off div 4) + j * 16)"
    by simp
  moreover have "unat (of_nat (56 + 4 * unat (off div 4) + j * 16) :: u64) = 56 + 4 * unat (off div 4) + j * 16"
    using b sz by (intro unat_of_nat_u64) simp
  ultimately show ?thesis using b by simp
qed

lemma snapshot_reads:
  assumes ok: "cam_packet_util_validate_packet m0 p n = 0" and ag: "\<forall>a. packet_area m0 p a \<longrightarrow> m a = m0 a"
  shows "num_patches (packet_at m p) = num_patches (packet_at m0 p)"
    "j < unat (num_patches (packet_at m0 p)) \<Longrightarrow>
      patch_desc_at m (patch_table m0 p + of_nat j * 16) = patch_desc_at m0 (patch_table m0 p + of_nat j * 16)"
proof -
  let ?sz = "pk_size (packet_at m0 p)"
  have v: "56 + unat (patch_offset (packet_at m0 p)) + unat (num_patches (packet_at m0 p)) * 16 \<le> unat ?sz"
    using ok by (simp add: validate_iff)
  have a: "\<forall>a. in_range p (ucast ?sz) a \<longrightarrow> m a = m0 a" using ag by (simp add: packet_area_def)
  show "num_patches (packet_at m p) = num_patches (packet_at m0 p)"
    using ld32_area [OF a, of 44] v by (simp add: packet_at_def)
  assume j: "j < unat (num_patches (packet_at m0 p))"
  show "patch_desc_at m (patch_table m0 p + of_nat j * 16) = patch_desc_at m0 (patch_table m0 p + of_nat j * 16)"
    using patch_desc_area [OF a] table_offset [OF v j] by (simp add: patch_table_def add.assoc)
qed

lemma loop_snapshot:
  assumes ok: "cam_packet_util_validate_packet m0 p n = 0"
    and out: "\<forall>d\<in>set (packet_patches m0 p). \<forall>a. patch_target s d a \<longrightarrow> \<not> packet_area m0 p a"
    and ag: "\<forall>a. packet_area m0 p a \<longrightarrow> m a = m0 a"
  shows "process_patches_loop env p (patch_table m0 p) h h' i rc m s =
     apply_patches env h h' (drop i (packet_patches m0 p)) rc m s"
  using out ag
proof (induction "length (packet_patches m0 p) - i" arbitrary: i rc m s)
  case 0
  have "unat (num_patches (packet_at m p)) \<le> i"
    using 0 snapshot_reads(1) [OF ok, of m] by (simp add: packet_patches_def)
  then show ?case using 0(1) by (simp add: loop_unfold)
next
  case (Suc k)
  let ?d = "packet_patches m0 p ! i"
  have i: "i < length (packet_patches m0 p)" using Suc(2) by simp
  then have d: "patch_desc_at m (patch_table m0 p + of_nat i * 16) = ?d"
    "\<not> unat (num_patches (packet_at m p)) \<le> i" "?d \<in> set (packet_patches m0 p)"
    using snapshot_reads [OF ok, of m] Suc.prems(2) by (simp_all add: packet_patches_def)
  have dr: "drop i (packet_patches m0 p) = ?d # drop (Suc i) (packet_patches m0 p)" by (simp add: Cons_nth_drop_Suc i)
  obtain r s1 where o: "patch_one env h h' ?d m s = (r, s1)" by fastforce
  show ?case
  proof (cases r)
    case (Inl e)
    then show ?thesis using d o dr by (simp add: loop_unfold)
  next
    case (Inr x)
    obtain rc1 m1 where x: "x = (rc1, m1)" by fastforce
    note o' = o [unfolded Inr x]
    have t: "only_trace s s1" by (rule patch_one_Inr [OF o'])
    have ag1: "\<forall>a. packet_area m0 p a \<longrightarrow> m1 a = m0 a"
      using Suc.prems patch_one_frame(1) [OF o'] d(3) by metis
    have "process_patches_loop env p (patch_table m0 p) h h' (Suc i) rc1 m1 s1 =
        apply_patches env h h' (drop (Suc i) (packet_patches m0 p)) rc1 m1 s1"
      by (rule Suc.hyps(1)) (use Suc ag1 patch_target_trace [OF t] in auto)
    then show ?thesis using d o' dr by (simp add: loop_unfold [of env p _ h h' i])
  qed
qed


section \<open>Blobs\<close>









section \<open>Properties\<close>

text \<open>
  \<open>cam_packet_util_validate_packet\<close> accepts a packet exactly when its declared size fits
  the mapped buffer and its three arrays, command descriptors, I/O configurations and patches, lie
  inside the declared size as exact numbers: the 64-bit sums cannot wrap, whatever the offsets and
  counts.
\<close>
theorem packet_validate_exact:
  "cam_packet_util_validate_packet m p remain_len = 0 \<longleftrightarrow>
     p \<noteq> 0 \<and> unat (pk_size (packet_at m p)) \<le> unat remain_len
     \<and> 56 + unat (cmd_buf_offset (packet_at m p)) + unat (num_cmd_buf (packet_at m p)) * 24 \<le> unat (pk_size (packet_at m p))
     \<and> 56 + unat (io_configs_offset (packet_at m p)) + unat (num_io_configs (packet_at m p)) * 256 \<le> unat (pk_size (packet_at m p))
     \<and> 56 + unat (patch_offset (packet_at m p)) + unat (num_patches (packet_at m p)) * 16 \<le> unat (pk_size (packet_at m p))"
  by (rule validate_iff)

text \<open>
  C35: Patching writes only inside the CPU mapping of some active buffer that was created with
  CPU access. This holds for any packet contents, validated or not, for patches that overwrite the
  packet, and whatever the SMMU answers; the buffer table itself is unchanged.
\<close>
theorem packet_patches_confined:
  assumes "cam_packet_util_process_patches env p iommu_hdl sec_mmu_hdl m s = (rc, m', s')" "m' a \<noteq> m a"
  shows "bufq s' = bufq s \<and> (\<exists>i. 0 < i \<and> i < CAM_MEM_BUFQ_MAX \<and> active (bufq s i)
     \<and> flag_set (buf_flags (bufq s i)) CAM_MEM_FLAG_KMD_ACCESS
     \<and> in_range (kmdvaddr (bufq s i)) (buf_len (bufq s i)) a)"
proof -
  note f = loop_frame [OF assms(1) [unfolded cam_packet_util_process_patches_def]]
  show ?thesis using only_traceD(3) [OF conjunct1 [OF f]] mp [OF spec [OF conjunct2 [OF f]] assms(2)] by blast
qed

text \<open>
  C34: For a validated packet whose patches all have their destination outside the packet,
  patching is the same as first reading the list of patches and then applying them in order, up to
  the first one that fails.
\<close>
theorem packet_patches_in_order:
  assumes "cam_packet_util_validate_packet m p n = 0"
    "\<forall>d\<in>set (packet_patches m p). \<forall>a. patch_target s d a \<longrightarrow> \<not> packet_area m p a"
  shows "cam_packet_util_process_patches env p iommu_hdl sec_mmu_hdl m s =
     apply_patches env iommu_hdl sec_mmu_hdl (packet_patches m p) 0 m s"
  using loop_snapshot [OF assms(1,2), of m env iommu_hdl sec_mmu_hdl 0 0]
  by (simp add: cam_packet_util_process_patches_def patch_table_def)


text \<open>
  When the KMD scratch area of a packet is granted, its start lies inside the CPU mapping of
  the buffer that the descriptor names, and if the packet places it behind the command data, as
  the packet layout intends, the whole area lies inside; the code itself does not check the
  placement.
\<close>
theorem packet_kmd_buffer_bounds:
  assumes "cam_packet_util_get_kmd_buffer m p True s = (rc, Some k)"
  shows "\<exists>cpu len d. rc = 0 \<and> cam_mem_get_cpu_buf (kb_handle k) s = (0, Some (cpu, len))
     \<and> d = cmd_desc_at m (p + 56 + ucast (cmd_buf_offset (packet_at m p)) + ucast (kmd_cmd_buf_index (packet_at m p)) * 24)
     \<and> unat (cd_offset d) + unat (cd_size d) \<le> unat len
     \<and> unat (kb_cpu_addr k - cpu) \<le> unat (cd_offset d) + unat (kmd_cmd_buf_offset (packet_at m p))
     \<and> in_range cpu len (kb_cpu_addr k) \<and> kb_used_bytes k = 0
     \<and> (kmd_cmd_buf_offset (packet_at m p) \<le> cd_length d
        \<longrightarrow> unat (kb_cpu_addr k - cpu) + unat (kb_size k) \<le> unat len)"
proof -
  let ?k = "packet_at m p"
  define d where "d = cmd_desc_at m (p + 56 + ucast (cmd_buf_offset ?k) + ucast (kmd_cmd_buf_index ?k) * 24)"
  obtain rc1 r where g: "cam_mem_get_cpu_buf (cd_mem_handle d) s = (rc1, r)" by fastforce
  obtain cpu len where r: "r = Some (cpu, len)" and rc1: "rc1 = 0" "rc = 0" "kb_handle k = cd_mem_handle d"
    and sz: "cd_length d \<le> cd_size d" and o: "ucast (cd_offset d) < len" "ucast (cd_size d) \<le> len - ucast (cd_offset d)"
    "ucast (kmd_cmd_buf_offset ?k) < len - ucast (cd_offset d)"
    and k: "kb_cpu_addr k = cpu + 4 * ucast (cd_offset d div 4 + kmd_cmd_buf_offset ?k div 4)"
    "kb_size k = cd_size d - cd_length d" "kb_used_bytes k = 0"
    using assms g
    by (cases r) (auto simp: cam_packet_util_get_kmd_buffer_def cam_packet_util_get_cmd_mem_addr_def
        cam_packet_util_validate_cmd_desc_def Let_def d_def not_less not_le split: if_splits)
  have l: "unat (len - ucast (cd_offset d)) = unat len - unat (cd_offset d)"
    using o(1) by (simp add: unat_sub word_less_nat_alt word_le_nat_alt)
  let ?q = "cd_offset d div 4 + kmd_cmd_buf_offset ?k div 4"
  have q: "unat ?q = unat (cd_offset d) div 4 + unat (kmd_cmd_buf_offset ?k) div 4"
    using unat_u32_less [of "cd_offset d"] unat_u32_less [of "kmd_cmd_buf_offset ?k"]
    by (simp add: unat_word_ariths unat_div)
  have a: "unat (kb_cpu_addr k - cpu) = 4 * unat ?q"
    using unat_u32_less [of ?q] by (simp add: k unat_word_ariths)
  have b: "4 * unat ?q \<le> unat (cd_offset d) + unat (kmd_cmd_buf_offset ?k)" by (simp add: q)
  have o': "unat (cd_offset d) + unat (cd_size d) \<le> unat len" "unat (cd_offset d) + unat (kmd_cmd_buf_offset ?k) < unat len"
    using o l by (simp_all add: word_less_nat_alt word_le_nat_alt)
  have s': "unat (kb_size k) = unat (cd_size d) - unat (cd_length d)" "unat (cd_length d) \<le> unat (cd_size d)"
    using sz by (simp_all add: k unat_sub word_le_nat_alt)
  have "in_range cpu len (kb_cpu_addr k)" using a b o' by (simp add: in_range_def word_less_nat_alt)
  then show ?thesis
    using g r rc1 k(3) a b o' s' by (intro exI [of _ cpu] exI [of _ len] exI [of _ d]) (auto simp: d_def word_le_nat_alt)
qed


section \<open>Witnesses\<close>

text \<open>
  A buffer mapped at \<open>0x8000\<close> and a packet at \<open>0x100000\<close> with one patch into that buffer; a
  second packet with one command descriptor.
\<close>

definition mem_one :: cam_mem_table where
  "mem_one = snd (cam_mem_mgr_alloc_and_map env_demo (Some alloc_kmd) mem_up)"

definition pkt_demo :: kmem where
  "pkt_demo = fold (\<lambda>(a, v) m. st32 m (0x100000 + a) v)
     [(4, 72), (44, 1), (56, 1), (60, 16), (64, 1), (68, 4)] (\<lambda>_. 0)"

definition pkt_cmd_demo :: kmem where
  "pkt_cmd_demo = fold (\<lambda>(a, v) m. st32 m (0x100000 + a) v)
     [(4, 80), (28, 1), (52, 32), (56, 1), (60, 64), (64, 128), (68, 32)] (\<lambda>_. 0)"

text \<open>
  A descriptor at \<open>0x100000\<close> of a command of eight bytes, the last of the buffer; a handler that notes
  where the blobs are and shortens the command, and one that makes it longer.
\<close>

definition blob_demo :: kmem where
  "blob_demo = fold (\<lambda>(a, v) m. st32 m a v)
     [(0x100000, 1), (0x100004, 8184), (0x100008, 64), (0x10000C, 8), (0x9FF8, 0x400)] (\<lambda>_. 0)"

definition set_length :: "u32 \<Rightarrow> ptr list blob_handler" where
  "set_length n = (\<lambda>ty sz a st. (0, st32 (fst st) 0x10000C n, snd st @ [a]))"

lemma mem_one_cpu: "cam_mem_get_cpu_buf 1 mem_one = (0, Some (0x8000, 8192))"
  by code_simp

lemma pkt_demo_bytes:
  "ld32 pkt_demo 0x100004 = 72" "ld32 pkt_demo 0x100018 = 0" "ld32 pkt_demo 0x10001C = 0" "ld32 pkt_demo 0x100020 = 0"
  "ld32 pkt_demo 0x100024 = 0" "ld32 pkt_demo 0x100028 = 0" "ld32 pkt_demo 0x10002C = 1" "ld32 pkt_demo 0x100038 = 1"
  "ld32 pkt_demo 0x10003C = 16" "ld32 pkt_demo 0x100040 = 1" "ld32 pkt_demo 0x100044 = 4"
  by (simp_all add: pkt_demo_def ld32_def st32_def)

lemma pkt_demo_patches:
  "packet_patches pkt_demo 0x100000 = [\<lparr>dst_buf_hdl = 1, dst_offset = 16, src_buf_hdl = 1, src_offset = 4\<rparr>]"
  by (simp add: packet_patches_def patch_table_def patch_desc_at_def packet_at_def pkt_demo_bytes)

lemma pkt_demo_valid: "cam_packet_util_validate_packet pkt_demo 0x100000 4096 = 0"
  by (simp add: validate_iff packet_at_def pkt_demo_bytes)

lemma pkt_demo_size: "pk_size (packet_at pkt_demo 0x100000) = 72"
  by (simp add: packet_at_def pkt_demo_bytes)

lemma pkt_demo_run:
  "fst (snd (cam_packet_util_process_patches env_demo 0x100000 0 0 pkt_demo mem_one)) = st32 pkt_demo 0x8010 0x8004"
proof -
  have sec: "\<not> cam_mem_is_secure_buf 1" by code_simp
  obtain x s1 where io: "cam_mem_get_io_buf env_demo 1 0 mem_one = (x, s1)" by (rule prod.exhaust)
  have "fst (cam_mem_get_io_buf env_demo 1 0 mem_one) = (0, 0x8000, 4096)" by code_simp
  then have x: "x = (0, 0x8000, 4096)" by (simp add: io)
  have d: "patch_desc_at pkt_demo 0x100038 = \<lparr>dst_buf_hdl = 1, dst_offset = 16, src_buf_hdl = 1, src_offset = 4\<rparr>"
    "patch_offset (packet_at pkt_demo 0x100000) = 0" "num_patches (packet_at pkt_demo 0x100000) = 1"
    "num_patches (packet_at (st32 pkt_demo 0x8010 0x8004) 0x100000) = 1"
    by (simp_all add: patch_desc_at_def packet_at_def pkt_demo_bytes)
      (simp add: ld32_def st32_def pkt_demo_def)
  have o: "patch_one env_demo 0 0 (patch_desc_at pkt_demo 0x100038) pkt_demo mem_one =
      (Inr (0, st32 pkt_demo 0x8010 0x8004), s1)"
    by (simp add: patch_one_def d sec io x get_cpu_buf_trace [OF only_trace_get_io [OF io]] mem_one_cpu)
  have "process_patches_loop env_demo 0x100000 0x100038 0 0 0 0 pkt_demo mem_one = (0, st32 pkt_demo 0x8010 0x8004, s1)"
    using o d by (simp add: loop_unfold)
  then show ?thesis by (simp add: cam_packet_util_process_patches_def d)
qed

theorem packet_patches_confined_witness:
  "\<exists>i. active (bufq mem_one i) \<and> in_range (kmdvaddr (bufq mem_one i)) (buf_len (bufq mem_one i)) 0x8010"
proof -
  let ?r = "cam_packet_util_process_patches env_demo 0x100000 0 0 pkt_demo mem_one"
  have r: "?r = (fst ?r, fst (snd ?r), snd (snd ?r))" by simp
  have "st32 pkt_demo 0x8010 0x8004 0x8010 \<noteq> pkt_demo 0x8010" by (simp add: st32_def pkt_demo_def)
  then show ?thesis using packet_patches_confined [OF r, of "0x8010"] pkt_demo_run by auto
qed

theorem packet_patches_in_order_witness:
  "cam_packet_util_process_patches env_demo 0x100000 0 0 pkt_demo mem_one =
     apply_patches env_demo 0 0 (packet_patches pkt_demo 0x100000) 0 pkt_demo mem_one"
proof (rule packet_patches_in_order [OF pkt_demo_valid], intro ballI allI impI)
  fix d a
  assume "d \<in> set (packet_patches pkt_demo 0x100000)" "patch_target mem_one d a"
  then have "in_range 0x8010 4 a" by (auto simp: pkt_demo_patches patch_target_def mem_one_cpu)
  then obtain k where k: "k < 4" "a = 0x8010 + of_nat k" by (auto simp: in_range_iff)
  then have "k = 0 \<or> k = 1 \<or> k = 2 \<or> k = 3" by linarith
  then show "\<not> packet_area pkt_demo 0x100000 a"
    using k(2) by (elim disjE) (simp_all add: packet_area_def pkt_demo_size in_range_def)
qed

lemma blob_demo_bytes:
  "ld32 blob_demo 0x100000 = 1" "ld32 blob_demo 0x100004 = 8184" "ld32 blob_demo 0x100008 = 64"
  "ld32 blob_demo 0x10000C = 8" "ld32 blob_demo 0x9FF8 = 0x400"
  by (simp_all add: blob_demo_def ld32_def st32_def)



text \<open>
  The length of the buffer is not looked at again: a handler that makes the command longer is handed
  data behind the end of the buffer, which lies at \<open>0x8000\<close> and has \<open>0x2000\<close> bytes.
\<close>

lemma packet_length_raised:
  "\<exists>m. cam_packet_util_process_generic_cmd_buffer 0x100000 (Some (set_length 16)) mem_one (blob_demo, [])
     = Some (0, m, [0x9FFC, 0xA004, 0xA008])"
proof -
  have d: "cmd_desc_at blob_demo 0x100000 = \<lparr>cd_mem_handle = 1, cd_offset = 8184, cd_size = 64, cd_length = 8\<rparr>"
    by (simp add: cmd_desc_at_def blob_demo_bytes)
  define m where "m = st32 blob_demo 0x10000C 16"
  have m: "cd_length (cmd_desc_at m 0x100000) = 16" "ld32 m 0xA000 = 0" "ld32 m 0xA004 = 0" "st32 m 0x10000C 16 = m"
    by (simp_all add: m_def cmd_desc_at_def ld32_st32) (simp_all add: blob_demo_def ld32_def st32_def fun_eq_iff)
  have b: "blob_size 0x400 = 4" "blob_block_size 4 = 8" "blob_size 0 = 0" "blob_block_size 0 = 4"
    by (simp_all add: blob_size_def blob_block_size_def)
  have e: "blob_loop (set_length 16) 0x100000 a l 0 (m, u) = (if \<not> l < 16 then Some (0, m, u)
      else if 16 < l + 4 then Some (- EINVAL, m, u)
      else blob_loop (set_length 16) 0x100000 (a + 4) (l + 4) 0 (m, u @ [a + 4]))" if "ld32 m a = 0" for a l u
    using that by (subst blob_loop.simps) (simp add: m b set_length_def)
  have "blob_loop (set_length 16) 0x100000 0x9FF8 0 0 (blob_demo, []) = Some (0, m, [0x9FFC, 0xA004, 0xA008])"
    by (subst blob_loop.simps) (simp add: d b blob_demo_bytes set_length_def [of 16] m_def [symmetric],
      simp add: set_length_def [symmetric] e m blob_loop.simps [of _ _ _ 16])
  then show ?thesis by (simp add: cam_packet_util_process_generic_cmd_buffer_def d mem_one_cpu)
qed

lemma pkt_cmd_demo_bytes:
  "ld32 pkt_cmd_demo 0x100018 = 0" "ld32 pkt_cmd_demo 0x10001C = 1" "ld32 pkt_cmd_demo 0x100030 = 0"
  "ld32 pkt_cmd_demo 0x100034 = 32" "ld32 pkt_cmd_demo 0x100038 = 1" "ld32 pkt_cmd_demo 0x10003C = 64"
  "ld32 pkt_cmd_demo 0x100040 = 128" "ld32 pkt_cmd_demo 0x100044 = 32"
  by (simp_all add: pkt_cmd_demo_def ld32_def st32_def)

theorem packet_kmd_buffer_bounds_witness:
  "\<exists>k cpu len. snd (cam_packet_util_get_kmd_buffer pkt_cmd_demo 0x100000 True mem_one) = Some k
     \<and> unat (kb_cpu_addr k - cpu) + unat (kb_size k) \<le> unat (len :: u64)"
proof -
  note ev = packet_at_def cmd_desc_at_def pkt_cmd_demo_bytes
  have r: "cam_packet_util_get_kmd_buffer pkt_cmd_demo 0x100000 True mem_one =
      (0, Some \<lparr>kb_handle = 1, kb_cpu_addr = 0x8060, kb_offset = 96, kb_size = 96, kb_used_bytes = 0\<rparr>)"
    by (simp add: cam_packet_util_get_kmd_buffer_def cam_packet_util_validate_cmd_desc_def
        cam_packet_util_get_cmd_mem_addr_def mem_one_cpu ev)
  have "kmd_cmd_buf_offset (packet_at pkt_cmd_demo 0x100000) \<le> cd_length (cmd_desc_at pkt_cmd_demo
      (0x100000 + 56 + ucast (cmd_buf_offset (packet_at pkt_cmd_demo 0x100000))
       + ucast (kmd_cmd_buf_index (packet_at pkt_cmd_demo 0x100000)) * 24))" by (simp add: ev)
  then show ?thesis using packet_kmd_buffer_bounds [OF r] r by (metis snd_conv)
qed

end
