(* ===== verification/Cam_Cdm.thy ===== *)
theory Cam_Cdm
  imports Cam_Kmem
begin

text \<open>
  The command stream of the camera data mover, \<open>cam_cdm/cam_cdm_util.c\<close>: the writers that build
  a stream in a command buffer, the interpreter of the virtual CDM that executes one as register
  writes. Bit fields are assigned one at a time, as
  the C structures have them, so that a field a writer leaves alone keeps what the buffer held.
  Logging and the dumps of a stream are not represented.
\<close>

section \<open>Bit fields and commands\<close>

definition bf_set :: "nat \<Rightarrow> nat \<Rightarrow> u32 \<Rightarrow> u32 \<Rightarrow> u32" where
  "bf_set pos wd v w = (w AND NOT (push_bit pos (mask wd))) OR push_bit pos (take_bit wd v)"

definition bf_get :: "nat \<Rightarrow> nat \<Rightarrow> u32 \<Rightarrow> u32" where
  "bf_get pos wd w = take_bit wd (drop_bit pos w)"

definition upd32 :: "ptr \<Rightarrow> (u32 \<Rightarrow> u32) \<Rightarrow> kmem \<Rightarrow> kmem" where
  "upd32 a f m = st32 m a (f (ld32 m a))"

abbreviation CAM_CDM_CMD_DMI :: u32 where "CAM_CDM_CMD_DMI \<equiv> 1"
abbreviation CAM_CDM_CMD_REG_CONT :: u32 where "CAM_CDM_CMD_REG_CONT \<equiv> 3"
abbreviation CAM_CDM_CMD_REG_RANDOM :: u32 where "CAM_CDM_CMD_REG_RANDOM \<equiv> 4"
abbreviation CAM_CDM_CMD_BUFF_INDIRECT :: u32 where "CAM_CDM_CMD_BUFF_INDIRECT \<equiv> 5"
abbreviation CAM_CDM_CMD_GEN_IRQ :: u32 where "CAM_CDM_CMD_GEN_IRQ \<equiv> 6"
abbreviation CAM_CDM_CMD_WAIT_EVENT :: u32 where "CAM_CDM_CMD_WAIT_EVENT \<equiv> 7"
abbreviation CAM_CDM_CMD_CHANGE_BASE :: u32 where "CAM_CDM_CMD_CHANGE_BASE \<equiv> 8"
abbreviation CAM_CDM_CMD_PERF_CTRL :: u32 where "CAM_CDM_CMD_PERF_CTRL \<equiv> 9"
abbreviation CAM_CDM_CMD_DMI_32 :: u32 where "CAM_CDM_CMD_DMI_32 \<equiv> 10"
abbreviation CAM_CDM_CMD_DMI_64 :: u32 where "CAM_CDM_CMD_DMI_64 \<equiv> 11"
abbreviation CAM_CDM_COMP_WAIT :: u32 where "CAM_CDM_COMP_WAIT \<equiv> 12"
abbreviation CAM_CDM_CLEAR_COMP_WAIT :: u32 where "CAM_CDM_CLEAR_COMP_WAIT \<equiv> 13"
abbreviation CAM_CDM_WAIT_PREFETCH_DISABLE :: u32 where "CAM_CDM_WAIT_PREFETCH_DISABLE \<equiv> 14"
abbreviation CAM_CDM_CMD_SWD_DMI_32 :: u32 where "CAM_CDM_CMD_SWD_DMI_32 \<equiv> 115"
abbreviation CAM_CDM_CMD_SWD_DMI_64 :: u32 where "CAM_CDM_CMD_SWD_DMI_64 \<equiv> 116"

text \<open>The table has 17 entries; the code only asks for the commands 0 to 14.\<close>

definition CDMCmdHeaderSizes :: "u32 list" where
  "CDMCmdHeaderSizes = [0, 3, 0, 2, 1, 2, 2, 3, 1, 1, 3, 3, 3, 3, 3, 0, 0]"

definition cdm_get_cmd_header_size :: "u32 \<Rightarrow> u32" where
  "cdm_get_cmd_header_size command = CDMCmdHeaderSizes ! unat command"

section \<open>Sizes\<close>

definition cdm_required_size_dmi :: u32 where
  "cdm_required_size_dmi = cdm_get_cmd_header_size CAM_CDM_CMD_DMI"

definition cdm_required_size_reg_continuous :: "u32 \<Rightarrow> u32" where
  "cdm_required_size_reg_continuous numVals = cdm_get_cmd_header_size CAM_CDM_CMD_REG_CONT + numVals"

definition cdm_required_size_reg_random :: "u32 \<Rightarrow> u32" where
  "cdm_required_size_reg_random numRegVals = cdm_get_cmd_header_size CAM_CDM_CMD_REG_RANDOM + 2 * numRegVals"

definition cdm_required_size_indirect :: u32 where
  "cdm_required_size_indirect = cdm_get_cmd_header_size CAM_CDM_CMD_BUFF_INDIRECT"

definition cdm_required_size_genirq :: u32 where
  "cdm_required_size_genirq = cdm_get_cmd_header_size CAM_CDM_CMD_GEN_IRQ"

definition cdm_required_size_wait_event :: u32 where
  "cdm_required_size_wait_event = cdm_get_cmd_header_size CAM_CDM_CMD_WAIT_EVENT"

definition cdm_required_size_changebase :: u32 where
  "cdm_required_size_changebase = cdm_get_cmd_header_size CAM_CDM_CMD_CHANGE_BASE"

definition cdm_required_size_comp_wait :: u32 where
  "cdm_required_size_comp_wait = cdm_get_cmd_header_size CAM_CDM_COMP_WAIT"

definition cdm_required_size_clear_comp_event :: u32 where
  "cdm_required_size_clear_comp_event = cdm_get_cmd_header_size CAM_CDM_CLEAR_COMP_WAIT"

definition cdm_required_size_prefetch_disable :: u32 where
  "cdm_required_size_prefetch_disable = cdm_get_cmd_header_size CAM_CDM_WAIT_PREFETCH_DISABLE"

definition cdm_offsetof_dmi_addr :: u32 where
  "cdm_offsetof_dmi_addr = 4"

definition cdm_offsetof_indirect_addr :: u32 where
  "cdm_offsetof_indirect_addr = 4"

section \<open>Writers\<close>

text \<open>A writer returns the memory and the advanced pointer. The argument \<open>dmiCmd\<close> is not used.\<close>

definition advance :: "ptr \<Rightarrow> u32 \<Rightarrow> ptr" where
  "advance p n = p + 4 * ucast n"

definition cdm_write_dmi ::
    "ptr \<Rightarrow> u8 \<Rightarrow> u32 \<Rightarrow> u8 \<Rightarrow> u32 \<Rightarrow> u32 \<Rightarrow> kmem \<Rightarrow> kmem \<times> ptr" where
  "cdm_write_dmi p dmiCmd DMIAddr DMISel dmiBufferAddr len m =
     (let m1 = upd32 p (bf_set 24 8 CAM_CDM_CMD_DMI) m;
          m2 = st32 m1 (p + 4) dmiBufferAddr;
          m3 = upd32 p (bf_set 0 16 len) m2;
          m4 = upd32 (p + 8) (bf_set 0 24 DMIAddr) m3;
          m5 = upd32 (p + 8) (bf_set 24 8 (ucast DMISel)) m4
      in (m5, advance p (cdm_get_cmd_header_size CAM_CDM_CMD_DMI)))"

definition copy_words :: "ptr \<Rightarrow> ptr \<Rightarrow> nat \<Rightarrow> kmem \<Rightarrow> kmem" where
  "copy_words dst src n m =
     fold (\<lambda>i m. st32 m (dst + 4 * of_nat i) (ld32 m (src + 4 * of_nat i))) [0..<n] m"

definition cdm_write_regcontinuous :: "ptr \<Rightarrow> u32 \<Rightarrow> u32 \<Rightarrow> ptr \<Rightarrow> kmem \<Rightarrow> kmem \<times> ptr" where
  "cdm_write_regcontinuous p reg numVals pVals m =
     (let m1 = upd32 p (bf_set 0 16 numVals) m;
          m2 = upd32 p (bf_set 24 8 CAM_CDM_CMD_REG_CONT) m1;
          m3 = upd32 p (bf_set 16 8 0) m2;
          m4 = upd32 (p + 4) (bf_set 24 8 0) m3;
          m5 = upd32 (p + 4) (bf_set 0 24 reg) m4;
          q = advance p (cdm_get_cmd_header_size CAM_CDM_CMD_REG_CONT)
      in (copy_words q pVals (unat numVals) m5, advance q numVals))"

text \<open>Register and value are copied one after the other, \<open>numRegVals\<close> times.\<close>

fun copy_pairs :: "nat \<Rightarrow> ptr \<Rightarrow> ptr \<Rightarrow> kmem \<Rightarrow> kmem \<times> ptr" where
  "copy_pairs 0 dst src m = (m, dst)"
| "copy_pairs (Suc n) dst src m =
     (let m1 = st32 m dst (ld32 m src);
          m2 = st32 m1 (dst + 4) (ld32 m1 (src + 4))
      in copy_pairs n (dst + 8) (src + 8) m2)"

definition cdm_write_regrandom :: "ptr \<Rightarrow> u32 \<Rightarrow> ptr \<Rightarrow> kmem \<Rightarrow> kmem \<times> ptr" where
  "cdm_write_regrandom p numRegVals pRegVals m =
     (let m1 = upd32 p (bf_set 0 16 numRegVals) m;
          m2 = upd32 p (bf_set 24 8 CAM_CDM_CMD_REG_RANDOM) m1;
          m3 = upd32 p (bf_set 16 8 0) m2
      in copy_pairs (unat numRegVals) (advance p (cdm_get_cmd_header_size CAM_CDM_CMD_REG_RANDOM)) pRegVals m3)"

definition cdm_write_indirect :: "ptr \<Rightarrow> u32 \<Rightarrow> u32 \<Rightarrow> kmem \<Rightarrow> kmem \<times> ptr" where
  "cdm_write_indirect p indirectBufAddr len m =
     (let m1 = upd32 p (bf_set 24 8 CAM_CDM_CMD_BUFF_INDIRECT) m;
          m2 = st32 m1 (p + 4) indirectBufAddr;
          m3 = upd32 p (bf_set 0 16 (len - 1)) m2
      in (m3, advance p (cdm_get_cmd_header_size CAM_CDM_CMD_BUFF_INDIRECT)))"

definition cdm_write_genirq :: "ptr \<Rightarrow> u32 \<Rightarrow> bool \<Rightarrow> u32 \<Rightarrow> kmem \<Rightarrow> kmem" where
  "cdm_write_genirq p userdata bit_wr_enable fifo_idx m =
     (let m1 = (if bit_wr_enable then upd32 p (bf_set 0 24 (push_bit 1 fifo_idx OR 1)) m else m);
          m2 = upd32 p (bf_set 24 8 CAM_CDM_CMD_GEN_IRQ) m1
      in st32 m2 (p + 4) (push_bit (8 * unat fifo_idx) userdata))"

definition cdm_write_wait_event ::
    "ptr \<Rightarrow> u32 \<Rightarrow> u32 \<Rightarrow> u32 \<Rightarrow> u32 \<Rightarrow> u32 \<Rightarrow> kmem \<Rightarrow> kmem \<times> ptr" where
  "cdm_write_wait_event p iw ident msk offset data m =
     (let m1 = upd32 p (bf_set 24 8 CAM_CDM_CMD_WAIT_EVENT) m;
          m2 = upd32 p (bf_set 0 8 msk) m1;
          m3 = st32 m2 (p + 8) data;
          m4 = upd32 p (bf_set 8 8 ident) m3;
          m5 = upd32 p (bf_set 23 1 iw) m4;
          m6 = upd32 (p + 4) (bf_set 0 24 offset) m5;
          m7 = upd32 p (bf_set 16 7 0) m6;
          m8 = upd32 (p + 4) (bf_set 24 8 0) m7
      in (m8, advance p (cdm_get_cmd_header_size CAM_CDM_CMD_WAIT_EVENT)))"

definition cdm_write_changebase :: "ptr \<Rightarrow> u32 \<Rightarrow> kmem \<Rightarrow> kmem \<times> ptr" where
  "cdm_write_changebase p base m =
     (let m1 = upd32 p (bf_set 24 8 CAM_CDM_CMD_CHANGE_BASE) m;
          m2 = upd32 p (bf_set 0 24 base) m1
      in (m2, advance p (cdm_get_cmd_header_size CAM_CDM_CMD_CHANGE_BASE)))"

definition cdm_write_wait_comp_event :: "ptr \<Rightarrow> u32 \<Rightarrow> u32 \<Rightarrow> kmem \<Rightarrow> kmem \<times> ptr" where
  "cdm_write_wait_comp_event p mask1 mask2 m =
     (let m1 = upd32 p (bf_set 24 8 CAM_CDM_COMP_WAIT) m;
          m2 = st32 m1 (p + 4) mask1;
          m3 = st32 m2 (p + 8) mask2
      in (m3, advance p (cdm_get_cmd_header_size CAM_CDM_COMP_WAIT)))"

definition cdm_write_clear_comp_event :: "ptr \<Rightarrow> u32 \<Rightarrow> u32 \<Rightarrow> kmem \<Rightarrow> kmem \<times> ptr" where
  "cdm_write_clear_comp_event p mask1 mask2 m =
     (let m1 = upd32 p (bf_set 24 8 CAM_CDM_CLEAR_COMP_WAIT) m;
          m2 = st32 m1 (p + 4) mask1;
          m3 = st32 m2 (p + 8) mask2
      in (m3, advance p (cdm_get_cmd_header_size CAM_CDM_CLEAR_COMP_WAIT)))"

definition cdm_write_wait_prefetch_disable :: "ptr \<Rightarrow> u32 \<Rightarrow> u32 \<Rightarrow> u32 \<Rightarrow> kmem \<Rightarrow> kmem \<times> ptr" where
  "cdm_write_wait_prefetch_disable p ident mask1 mask2 m =
     (let m1 = upd32 p (bf_set 24 8 CAM_CDM_WAIT_PREFETCH_DISABLE) m;
          m2 = upd32 p (bf_set 8 8 ident) m1;
          m3 = st32 m2 (p + 4) mask1;
          m4 = st32 m3 (p + 8) mask2
      in (m4, advance p (cdm_get_cmd_header_size CAM_CDM_WAIT_PREFETCH_DISABLE)))"

section \<open>The interpreter\<close>

text \<open>
  Register writes are recorded in order as pairs of address and value; a null address is
  refused by \<open>cam_io_w\<close> and \<open>cam_io_memcpy\<close>, whose results the callers ignore.
\<close>

type_synonym io_log = "(ptr \<times> u32) list"

definition cam_io_w :: "u32 \<Rightarrow> ptr \<Rightarrow> io_log \<Rightarrow> io_log" where
  "cam_io_w data addr l = (if addr = 0 then l else l @ [(addr, data)])"

definition cam_io_memcpy :: "kmem \<Rightarrow> ptr \<Rightarrow> ptr \<Rightarrow> u32 \<Rightarrow> io_log \<Rightarrow> io_log" where
  "cam_io_memcpy m dest src len l =
     (if dest = 0 \<or> src = 0 then l
      else l @ map (\<lambda>i. (dest + 4 * of_nat i, ld32 m (src + 4 * of_nat i))) [0..<unat (len div 4)])"

record cam_soc_reg_map =
  mem_base :: ptr
  mem_cam_base :: u32

type_synonym base_table = "cam_soc_reg_map option list"

definition cam_cdm_get_ioremap_from_base :: "u32 \<Rightarrow> nat \<Rightarrow> base_table \<Rightarrow> ptr \<Rightarrow> rc \<times> ptr" where
  "cam_cdm_get_ioremap_from_base hw_base base_array_size base_table device_base =
     (case find (\<lambda>e. case e of None \<Rightarrow> False | Some r \<Rightarrow> mem_cam_base r = hw_base)
             (take base_array_size base_table) of
        Some (Some r) \<Rightarrow> (0, mem_base r)
      | _ \<Rightarrow> (- EINVAL, device_base))"

text \<open>\<open>Inl\<close> is the error, \<open>Inr\<close> the log and the bytes used.\<close>

definition cam_cdm_util_reg_cont_write :: "kmem \<Rightarrow> ptr \<Rightarrow> ptr \<Rightarrow> u32 \<Rightarrow> io_log \<Rightarrow> rc + io_log \<times> u32" where
  "cam_cdm_util_reg_cont_write m base_addr p cmd_buf_size l =
     (let hs = cdm_get_cmd_header_size CAM_CDM_CMD_REG_CONT in
      if cmd_buf_size < hs \<or> base_addr = 0 then Inl (- EINVAL)
      else
        let count = bf_get 0 16 (ld32 m p); offset = bf_get 0 24 (ld32 m (p + 4)) in
        if count = 0 \<or> 0x10000 < count \<or> (ucast cmd_buf_size :: u64) < ucast count * 4 + ucast hs
        then Inl (- EINVAL)
        else Inr (cam_io_memcpy m (base_addr + ucast offset) (advance p hs) (count * 4) l,
                  count * 4 + 4 * hs))"

fun random_loop :: "kmem \<Rightarrow> ptr \<Rightarrow> nat \<Rightarrow> ptr \<Rightarrow> io_log \<Rightarrow> io_log" where
  "random_loop m base_addr 0 data l = l"
| "random_loop m base_addr (Suc n) data l =
     random_loop m base_addr n (data + 8)
       (cam_io_w (ld32 m (data + 4)) (base_addr + ucast (ld32 m data)) l)"

definition cam_cdm_util_reg_random_write :: "kmem \<Rightarrow> ptr \<Rightarrow> ptr \<Rightarrow> u32 \<Rightarrow> io_log \<Rightarrow> rc + io_log \<times> u32" where
  "cam_cdm_util_reg_random_write m base_addr p cmd_buf_size l =
     (let hs = cdm_get_cmd_header_size CAM_CDM_CMD_REG_RANDOM in
      if base_addr = 0 then Inl (- EINVAL)
      else
        let count = bf_get 0 16 (ld32 m p) in
        if count = 0 \<or> 0x10000 < count \<or> (ucast cmd_buf_size :: u64) < ucast count * 8 + ucast hs
        then Inl (- EINVAL)
        else Inr (random_loop m base_addr (unat count) (advance p hs) l, count * 8 + 4 * hs))"

fun dmi64_loop :: "kmem \<Rightarrow> ptr \<Rightarrow> ptr \<Rightarrow> nat \<Rightarrow> ptr \<Rightarrow> io_log \<Rightarrow> io_log" where
  "dmi64_loop m lo hi 0 data l = l"
| "dmi64_loop m lo hi (Suc n) data l =
     dmi64_loop m lo hi n (data + 8) (cam_io_w (ld32 m (data + 4)) hi (cam_io_w (ld32 m data) lo l))"

fun dmi32_loop :: "kmem \<Rightarrow> ptr \<Rightarrow> nat \<Rightarrow> ptr \<Rightarrow> io_log \<Rightarrow> io_log" where
  "dmi32_loop m reg 0 data l = l"
| "dmi32_loop m reg (Suc n) data l = dmi32_loop m reg n (data + 4) (cam_io_w (ld32 m data) reg l)"

definition cam_cdm_util_swd_dmi_write ::
    "u32 \<Rightarrow> kmem \<Rightarrow> ptr \<Rightarrow> ptr \<Rightarrow> u32 \<Rightarrow> io_log \<Rightarrow> rc + io_log \<times> u32" where
  "cam_cdm_util_swd_dmi_write cdm_cmd_type m base_addr p cmd_buf_size l =
     (let len = bf_get 0 16 (ld32 m p); DMIAddr = bf_get 0 24 (ld32 m (p + 8)) in
      if cmd_buf_size < cdm_required_size_dmi + len + 1 then Inl (- EINVAL)
      else
        let data = advance p cdm_required_size_dmi; n = unat len + 1;
            dmi = base_addr + ucast DMIAddr;
            l' = (if cdm_cmd_type = CAM_CDM_CMD_SWD_DMI_64 then dmi64_loop m (dmi + 12) (dmi + 8) (n div 8) data l
                  else if cdm_cmd_type = CAM_CDM_CMD_DMI then dmi32_loop m (dmi + 8) (n div 4) data l
                  else dmi32_loop m (dmi + 12) (n div 4) data l)
        in Inr (l', 4 * cdm_required_size_dmi + len + 1))"

text \<open>
  The loop of \<open>cam_cdm_util_cmd_buf_write\<close>. The remaining size is a 32-bit counter from which the
  bytes used are subtracted; \<open>None\<close> is a loop that does not end. The result is the code, the
  device base left in the caller's variable and the register writes.
\<close>

definition step_on :: "ptr \<Rightarrow> u32 \<Rightarrow> u32 \<Rightarrow> ptr \<times> u32" where
  "step_on p sz used = (if 0 < used then (advance p (used div 4), sz - used) else (p, sz))"

definition cdm_exec_one ::
    "kmem \<Rightarrow> base_table \<Rightarrow> nat \<Rightarrow> ptr \<Rightarrow> ptr \<Rightarrow> u32 \<Rightarrow> io_log \<Rightarrow> rc + (ptr \<times> ptr \<times> u32 \<times> io_log)" where
  "cdm_exec_one m tbl n base p sz l =
     (let cdm_cmd_type = drop_bit 24 (ld32 m p);
          go = (\<lambda>r. case r of Inl e \<Rightarrow> Inl e
                 | Inr (l', used) \<Rightarrow> Inr (base, fst (step_on p sz used), snd (step_on p sz used), l'))
      in if cdm_cmd_type = CAM_CDM_CMD_REG_CONT then go (cam_cdm_util_reg_cont_write m base p sz l)
         else if cdm_cmd_type = CAM_CDM_CMD_REG_RANDOM then go (cam_cdm_util_reg_random_write m base p sz l)
         else if cdm_cmd_type = CAM_CDM_CMD_DMI \<or> cdm_cmd_type = CAM_CDM_CMD_SWD_DMI_32
                 \<or> cdm_cmd_type = CAM_CDM_CMD_SWD_DMI_64
         then (if base = 0 then Inl (- EINVAL)
               else go (cam_cdm_util_swd_dmi_write cdm_cmd_type m base p sz l))
         else if cdm_cmd_type = CAM_CDM_CMD_CHANGE_BASE
         then (case cam_cdm_get_ioremap_from_base (bf_get 0 24 (ld32 m p)) n tbl base of
                 (ret, base') \<Rightarrow>
                   if ret \<noteq> 0 then Inl ret
                   else Inr (base', advance p cdm_required_size_changebase,
                             sz - 4 * cdm_required_size_changebase, l))
         else Inl (- EINVAL))"

partial_function (option) cmd_buf_loop ::
    "kmem \<Rightarrow> base_table \<Rightarrow> nat \<Rightarrow> ptr \<Rightarrow> ptr \<Rightarrow> u32 \<Rightarrow> io_log \<Rightarrow> (rc \<times> ptr \<times> io_log) option" where
  "cmd_buf_loop m tbl n base p sz l =
     (if sz = 0 then Some (0, base, l)
      else
        (case cdm_exec_one m tbl n base p sz l of
           Inl e \<Rightarrow> Some (e, base, l)
         | Inr (base', p', sz', l') \<Rightarrow> cmd_buf_loop m tbl n base' p' sz' l'))"

definition cam_cdm_util_cmd_buf_write ::
    "kmem \<Rightarrow> base_table \<Rightarrow> nat \<Rightarrow> ptr \<Rightarrow> ptr \<Rightarrow> u32 \<Rightarrow> (rc \<times> ptr \<times> io_log) option" where
  "cam_cdm_util_cmd_buf_write m tbl base_array_size current_device_base cmd_buf cmd_buf_size =
     cmd_buf_loop m tbl base_array_size current_device_base cmd_buf cmd_buf_size []"

end
