(* ===== verification/Cam_Cdm_Words.thy ===== *)
theory Cam_Cdm_Words
  imports Cam_Cdm
begin

text \<open>
  Command memory as words. \<open>emits m p ws m'\<close> says that going from \<open>m\<close> to \<open>m'\<close> put the words
  \<open>ws\<close> at \<open>p\<close> and changed nothing else; emissions compose, and each writer is one.
\<close>

section \<open>Ranges and words\<close>

lemma unat_of_nat_lt: "k < 2 ^ 64 \<Longrightarrow> unat (of_nat k :: u64) = k"
  by (simp add: unat_of_nat)

lemma of_nat_u64_inj: "x < 2 ^ 64 \<Longrightarrow> y < 2 ^ 64 \<Longrightarrow> (of_nat x :: u64) = of_nat y \<Longrightarrow> x = y"
  by (metis unat_of_nat_lt)

lemma ranges_apart:
  assumes "x + n \<le> y" "y + l < 2 ^ 64" "in_range (p + of_nat x) (of_nat n) a"
  shows "\<not> in_range (p + of_nat y) (of_nat l) a"
proof
  assume "in_range (p + of_nat y) (of_nat l) a"
  then obtain j where j: "j < l" "a = p + of_nat (y + j)"
    using assms(2) by (auto simp: in_range_iff unat_of_nat_lt add.assoc)
  obtain i where i: "i < n" "a = p + of_nat (x + i)"
    using assms by (auto simp: in_range_iff unat_of_nat_lt add.assoc)
  have "(of_nat (x + i) :: u64) = of_nat (y + j)" using i j by simp
  then have "x + i = y + j" by (rule of_nat_u64_inj [rotated 2]) (use assms i j in auto)
  then show False using assms(1) i by simp
qed

lemma range_within:
  assumes "in_range (p + of_nat x) (of_nat n) a" "x + n \<le> l" "l < 2 ^ 64"
  shows "in_range p (of_nat l) a"
  by (rule in_range_sub [OF assms(1)]) (use assms in \<open>simp add: unat_of_nat_lt\<close>)

definition rd :: "kmem \<Rightarrow> ptr \<Rightarrow> nat \<Rightarrow> u32" where
  "rd m p i = ld32 m (p + of_nat (4 * i))"

definition emits :: "kmem \<Rightarrow> ptr \<Rightarrow> u32 list \<Rightarrow> kmem \<Rightarrow> bool" where
  "emits m p ws m' \<longleftrightarrow> (\<forall>i < length ws. rd m' p i = ws ! i)
     \<and> (\<forall>a. \<not> in_range p (of_nat (4 * length ws)) a \<longrightarrow> m' a = m a)"

lemma rd_frame:
  assumes "\<And>a. in_range (p + of_nat (4 * i)) 4 a \<Longrightarrow> m' a = m a"
  shows "rd m' p i = rd m p i"
  unfolding rd_def by (rule ld32_cong) (rule assms)

lemma emits_Nil [simp]: "emits m p [] m"
  by (simp add: emits_def)

lemma emits_one: "emits m p [v] (st32 m p v)"
  by (simp add: emits_def rd_def ld32_st32 st32_other)

lemma emits_append:
  assumes 1: "emits m p ws m'" and 2: "emits m' (p + of_nat (4 * length ws)) vs m''"
    and len: "4 * (length ws + length vs) < 2 ^ 64"
  shows "emits m p (ws @ vs) m''"
  unfolding emits_def
proof (intro conjI allI impI)
  let ?q = "p + of_nat (4 * length ws)"
  fix i assume i: "i < length (ws @ vs)"
  show "rd m'' p i = (ws @ vs) ! i"
  proof (cases "i < length ws")
    case True
    have "rd m'' p i = rd m' p i"
    proof (rule rd_frame)
      fix a assume "in_range (p + of_nat (4 * i)) 4 a"
      then have "in_range (p + of_nat (4 * i)) (of_nat 4) a" by simp
      then have "\<not> in_range ?q (of_nat (4 * length vs)) a"
        by (rule ranges_apart [rotated 2]) (use True len in auto)
      then show "m'' a = m' a" using 2 by (simp add: emits_def)
    qed
    then show ?thesis using 1 True by (simp add: emits_def nth_append)
  next
    case False
    then obtain k where k: "i = length ws + k" "k < length vs" using i by (metis add_diff_inverse_nat length_append nat_add_left_cancel_less)
    have "rd m'' p i = rd m'' ?q k" by (simp add: rd_def k algebra_simps)
    then show ?thesis using 2 k by (simp add: emits_def nth_append)
  qed
next
  fix a assume a: "\<not> in_range p (of_nat (4 * length (ws @ vs))) a"
  have "\<not> in_range p (of_nat (4 * length ws)) a"
    using a range_within [of p 0 "4 * length ws" a "4 * length (ws @ vs)"] len by auto
  moreover have "\<not> in_range (p + of_nat (4 * length ws)) (of_nat (4 * length vs)) a"
    using a range_within [of p "4 * length ws" "4 * length vs" a "4 * length (ws @ vs)"] len by auto
  ultimately show "m'' a = m a" using 1 2 by (simp add: emits_def)
qed

section \<open>Bit fields\<close>

lemma st32_st32: "st32 (st32 m a u) a v = st32 m a v"
  by (auto simp: st32_def fun_eq_iff)

lemma upd32_upd32: "upd32 p f (upd32 p g m) = upd32 p (f \<circ> g) m"
  by (simp add: upd32_def ld32_st32 st32_st32)

lemma upd32_const: "(\<And>w. f w = v) \<Longrightarrow> upd32 p f m = st32 m p v"
  by (simp add: upd32_def)

definition hdr :: "u32 \<Rightarrow> u32 \<Rightarrow> u32" where
  "hdr cmd n = take_bit 16 n OR push_bit 24 (take_bit 8 cmd)"

lemma hdr_fields: "(bf_set 16 8 0 \<circ> bf_set 24 8 c \<circ> bf_set 0 16 n) w = hdr c n"
proof (rule bit_word_eqI)
  fix k assume "k < LENGTH(32)"
  then consider "k < 16" | "16 \<le> k" "k < 24" | "24 \<le> k" "k < 32" by force
  then show "bit ((bf_set 16 8 0 \<circ> bf_set 24 8 c \<circ> bf_set 0 16 n) w) k = bit (hdr c n) k"
    by cases (auto simp: bf_set_def hdr_def bit_simps)
qed

lemma offset_fields: "(bf_set 0 24 r \<circ> bf_set 24 8 0) w = take_bit 24 r"
proof (rule bit_word_eqI)
  fix k assume "k < LENGTH(32)"
  then consider "k < 24" | "24 \<le> k" "k < 32" by force
  then show "bit ((bf_set 0 24 r \<circ> bf_set 24 8 0) w) k = bit (take_bit 24 r) k"
    by cases (auto simp: bf_set_def bit_simps)
qed

lemma base_fields: "(bf_set 0 24 b \<circ> bf_set 24 8 c) w = take_bit 24 b OR push_bit 24 (take_bit 8 c)"
proof (rule bit_word_eqI)
  fix k assume "k < LENGTH(32)"
  then consider "k < 24" | "24 \<le> k" "k < 32" by force
  then show "bit ((bf_set 0 24 b \<circ> bf_set 24 8 c) w) k = bit (take_bit 24 b OR push_bit 24 (take_bit 8 c)) k"
    by cases (auto simp: bf_set_def bit_simps)
qed

text \<open>What the interpreter reads back.\<close>

lemma hdr_read: "c < 256 \<Longrightarrow> drop_bit 24 (hdr c n) = c" "n < 65536 \<Longrightarrow> bf_get 0 16 (hdr c n) = n"
proof -
  assume "c < 256"
  then have "take_bit 8 c = c" 
    by (simp add: word_unat_eq_iff unsigned_take_bit_eq take_bit_nat_eq_self word_less_nat_alt)
  moreover have "drop_bit 24 (hdr c n) = take_bit 8 c"
    by (rule bit_word_eqI) (auto simp: hdr_def bit_simps)
  ultimately show "drop_bit 24 (hdr c n) = c" by simp
next
  assume "n < 65536"
  then have "take_bit 16 n = n" 
    by (simp add: word_unat_eq_iff unsigned_take_bit_eq take_bit_nat_eq_self word_less_nat_alt)
  moreover have "bf_get 0 16 (hdr c n) = take_bit 16 n"
    by (rule bit_word_eqI) (auto simp: hdr_def bf_get_def bit_simps)
  ultimately show "bf_get 0 16 (hdr c n) = n" by simp
qed

end
