(* ===== verification/Cam_Cdm_Props.thy ===== *)
theory Cam_Cdm_Props
  imports Cam_Cdm_Words
begin

text \<open>
  A stream built by the writers, executed by the interpreter, performs the register writes its
  commands stand for. The commands are those that both sides support: continuous and random
  register writes and base changes.
\<close>

section \<open>Writers as emissions\<close>

lemma header_sizes [simp]:
  "cdm_get_cmd_header_size 1 = 3" "cdm_get_cmd_header_size 3 = 2" "cdm_get_cmd_header_size 4 = 1"
  "cdm_get_cmd_header_size 8 = 1"
  by (simp_all add: cdm_get_cmd_header_size_def CDMCmdHeaderSizes_def)

lemma rd_outside:
  assumes "emits m p ws m'" "\<And>a. in_range src (of_nat (4 * n)) a \<Longrightarrow> \<not> in_range p (of_nat (4 * length ws)) a"
    "i < n" "4 * n < 2 ^ 64"
  shows "rd m' src i = rd m src i"
proof (rule rd_frame)
  fix a assume "in_range (src + of_nat (4 * i)) 4 a"
  then have "in_range (src + of_nat (4 * i)) (of_nat 4) a" by simp
  then have "in_range src (of_nat (4 * n)) a" by (rule range_within) (use assms(3,4) in auto)
  then show "m' a = m a" using assms(1,2) by (simp add: emits_def)
qed

lemma copy_words_emits:
  assumes "\<And>a. in_range src (of_nat (4 * n)) a \<Longrightarrow> \<not> in_range dst (of_nat (4 * n)) a" "4 * n < 2 ^ 64"
  shows "emits m dst (map (rd m src) [0..<n]) (copy_words dst src n m)"
  using assms
proof (induction n)
  case 0
  then show ?case by (simp add: copy_words_def)
next
  case (Suc n)
  let ?m = "copy_words dst src n m"
  have sub: "in_range q (of_nat (4 * n)) a \<Longrightarrow> in_range q (of_nat (4 * Suc n)) a" for q a
    using range_within [of q 0 "4 * n" a "4 * Suc n"] Suc.prems(2) by simp
  have d: "in_range src (of_nat (4 * n)) a \<Longrightarrow> \<not> in_range dst (of_nat (4 * n)) a" for a
    using Suc.prems(1) sub by blast
  have e: "emits m dst (map (rd m src) [0..<n]) ?m" by (rule Suc.IH [OF d]) (use Suc.prems(2) in simp_all)
  have "rd ?m src n = rd m src n"
    by (rule rd_outside [OF e, where n = "Suc n"]) (use Suc.prems sub in auto)
  then have "copy_words dst src (Suc n) m = st32 ?m (dst + of_nat (4 * n)) (rd m src n)"
    by (simp add: copy_words_def rd_def)
  moreover have "emits ?m (dst + of_nat (4 * length (map (rd m src) [0..<n]))) [rd m src n]
      (st32 ?m (dst + of_nat (4 * n)) (rd m src n))" using emits_one by simp
  ultimately show ?case using emits_append [OF e] Suc.prems(2) by simp
qed

lemma copy_pairs_emits:
  assumes "\<And>a. in_range src (of_nat (8 * n)) a \<Longrightarrow> \<not> in_range dst (of_nat (8 * n)) a" "8 * n < 2 ^ 64"
  shows "emits m dst (map (rd m src) [0..<2 * n]) (fst (copy_pairs n dst src m))
     \<and> snd (copy_pairs n dst src m) = dst + of_nat (8 * n)"
  using assms
proof (induction n arbitrary: dst src m)
  case 0
  then show ?case by simp
next
  case (Suc n)
  define m1 where "m1 = st32 m dst (ld32 m src)"
  define m2 where "m2 = st32 m1 (dst + 4) (ld32 m1 (src + 4))"
  have sub: "in_range q (of_nat (4 * k)) a \<Longrightarrow> k \<le> 2 * Suc n \<Longrightarrow> in_range q (of_nat (8 * Suc n)) a" for q a k
    using range_within [of q 0 "4 * k" a "8 * Suc n"] Suc.prems(2) by simp
  have e1: "emits m dst [rd m src 0] m1" using emits_one by (simp add: m1_def rd_def)
  have d1: "in_range src (of_nat (4 * 2)) a \<Longrightarrow> \<not> in_range dst (of_nat (4 * length [rd m src 0])) a" for a
    using Suc.prems(1) [of a] sub [of src 2 a] sub [of dst 1 a] by auto
  have r1: "rd m1 src 1 = rd m src 1" by (rule rd_outside [OF e1, where n = 2, OF d1]) simp_all
  then have "m2 = st32 m1 (dst + of_nat (4 * length [rd m src 0])) (rd m src 1)" by (simp add: m2_def rd_def)
  then have e2: "emits m dst ([rd m src 0] @ [rd m src 1]) m2"
    using emits_append [OF e1 emits_one] by simp
  have disj: "in_range (src + 8) (of_nat (8 * n)) a \<Longrightarrow> \<not> in_range (dst + 8) (of_nat (8 * n)) a" for a
    using Suc.prems(1) [of a] range_within [of src 8 "8 * n" a "8 * Suc n"] range_within [of dst 8 "8 * n" a "8 * Suc n"]
      Suc.prems(2) by auto
  have d2: "in_range src (of_nat (4 * (2 * Suc n))) a \<Longrightarrow> \<not> in_range dst (of_nat (4 * length ([rd m src 0] @ [rd m src 1]))) a" for a
    using Suc.prems(1) [of a] sub [of src "2 * Suc n" a] sub [of dst 2 a] by auto
  have sh: "rd m2 (src + 8) i = rd m src (i + 2)" if "i < 2 * n" for i
  proof -
    have "rd m2 (src + 8) i = rd m2 src (i + 2)" by (simp add: rd_def algebra_simps)
    also have "\<dots> = rd m src (i + 2)"
      by (rule rd_outside [OF e2, where n = "2 * Suc n", OF d2]) (use Suc.prems(2) that in simp_all)
    finally show ?thesis .
  qed
  have ih: "emits m2 (dst + 8) (map (rd m2 (src + 8)) [0..<2 * n]) (fst (copy_pairs n (dst + 8) (src + 8) m2))"
    "snd (copy_pairs n (dst + 8) (src + 8) m2) = dst + 8 + of_nat (8 * n)"
    using Suc.IH [OF disj] Suc.prems(2) by simp_all
  have "map (rd m2 (src + 8)) [0..<2 * n] = map (\<lambda>i. rd m src (i + 2)) [0..<2 * n]" using sh by simp
  then have ws: "[rd m src 0] @ [rd m src 1] @ map (rd m2 (src + 8)) [0..<2 * n] = map (rd m src) [0..<2 * Suc n]"
    by (intro nth_equalityI) (auto simp: nth_Cons simp del: upt_Suc split: nat.split)
  have "emits m dst (([rd m src 0] @ [rd m src 1]) @ map (rd m2 (src + 8)) [0..<2 * n])
      (fst (copy_pairs n (dst + 8) (src + 8) m2))"
    by (rule emits_append [OF e2]) (use ih(1) Suc.prems(2) in auto)
  then show ?case using ws ih(2) by (simp add: m1_def m2_def Let_def algebra_simps)
qed


lemma unat_u16: "n < 65536 \<Longrightarrow> unat (n :: u32) < 65536"
  by (simp add: word_less_nat_alt)

lemma advance_nat: "advance p n = p + of_nat (4 * unat n)"
  by (simp add: advance_def)

lemma regcont_emits:
  assumes n: "numVals < 65536"
    and disj: "\<And>a. in_range pVals (of_nat (4 * unat numVals)) a \<Longrightarrow> \<not> in_range p (of_nat (4 * (unat numVals + 2))) a"
  shows "emits m p (hdr 3 numVals # take_bit 24 reg # map (rd m pVals) [0..<unat numVals])
      (fst (cdm_write_regcontinuous p reg numVals pVals m))"
    "snd (cdm_write_regcontinuous p reg numVals pVals m) = p + of_nat (4 * (unat numVals + 2))"
proof -
  let ?n = "unat numVals"
  note n' = unat_u16 [OF n]
  define m1 where "m1 = st32 m p (hdr 3 numVals)"
  define m2 where "m2 = st32 m1 (p + 4) (take_bit 24 reg)"
  have w: "fst (cdm_write_regcontinuous p reg numVals pVals m) = copy_words (p + 8) pVals ?n m2"
    by (simp add: cdm_write_regcontinuous_def Let_def upd32_upd32 upd32_const [OF hdr_fields]
        upd32_const [OF offset_fields] m1_def m2_def advance_def)
  have e1: "emits m p [hdr 3 numVals] m1" unfolding m1_def by (rule emits_one)
  have "emits m1 (p + of_nat (4 * length [hdr 3 numVals])) [take_bit 24 reg] m2"
    using emits_one [of m1 "p + 4"] by (simp add: m2_def)
  then have e2: "emits m p ([hdr 3 numVals] @ [take_bit 24 reg]) m2" by (rule emits_append [OF e1]) simp
  have d1: "in_range pVals (of_nat (4 * ?n)) a \<Longrightarrow> \<not> in_range (p + 8) (of_nat (4 * ?n)) a" for a
    using disj [of a] range_within [of p 8 "4 * ?n" a "4 * (?n + 2)"] n' by auto
  have d2: "in_range pVals (of_nat (4 * ?n)) a \<Longrightarrow>
      \<not> in_range p (of_nat (4 * length ([hdr 3 numVals] @ [take_bit 24 reg]))) a" for a
    using disj [of a] range_within [of p 0 8 a "4 * (?n + 2)"] n' by auto
  have "rd m2 pVals i = rd m pVals i" if "i < ?n" for i
    by (rule rd_outside [OF e2, where n = ?n, OF d2]) (use that n' in simp_all)
  then have eq: "map (rd m2 pVals) [0..<?n] = map (rd m pVals) [0..<?n]" by simp
  have "emits m2 (p + of_nat (4 * length ([hdr 3 numVals] @ [take_bit 24 reg]))) (map (rd m pVals) [0..<?n])
      (copy_words (p + 8) pVals ?n m2)"
    using copy_words_emits [where m = m2 and src = pVals, OF d1] n' unfolding eq by simp
  from emits_append [OF e2 this]
  show "emits m p (hdr 3 numVals # take_bit 24 reg # map (rd m pVals) [0..<?n])
      (fst (cdm_write_regcontinuous p reg numVals pVals m))" using w n' by simp
  show "snd (cdm_write_regcontinuous p reg numVals pVals m) = p + of_nat (4 * (?n + 2))"
    by (simp add: cdm_write_regcontinuous_def Let_def advance_def algebra_simps)
qed

lemma regrandom_emits:
  assumes n: "num < 65536"
    and disj: "\<And>a. in_range src (of_nat (4 * (2 * unat num))) a \<Longrightarrow> \<not> in_range p (of_nat (4 * (2 * unat num + 1))) a"
  shows "emits m p (hdr 4 num # map (rd m src) [0..<2 * unat num]) (fst (cdm_write_regrandom p num src m))"
    "snd (cdm_write_regrandom p num src m) = p + of_nat (4 * (2 * unat num + 1))"
proof -
  let ?n = "unat num"
  note n' = unat_u16 [OF n]
  define m1 where "m1 = st32 m p (hdr 4 num)"
  have w: "cdm_write_regrandom p num src m = copy_pairs ?n (p + 4) src m1"
    by (simp add: cdm_write_regrandom_def Let_def upd32_upd32 upd32_const [OF hdr_fields] m1_def advance_def)
  have e1: "emits m p [hdr 4 num] m1" unfolding m1_def by (rule emits_one)
  have d1: "in_range src (of_nat (8 * ?n)) a \<Longrightarrow> \<not> in_range (p + 4) (of_nat (8 * ?n)) a" for a
    using disj [of a] range_within [of p 4 "8 * ?n" a "4 * (2 * ?n + 1)"] n' by auto
  have d2: "in_range src (of_nat (4 * (2 * ?n))) a \<Longrightarrow> \<not> in_range p (of_nat (4 * length [hdr 4 num])) a" for a
    using disj [of a] range_within [of p 0 4 a "4 * (2 * ?n + 1)"] n' by auto
  have "rd m1 src i = rd m src i" if "i < 2 * ?n" for i
    by (rule rd_outside [OF e1, where n = "2 * ?n", OF d2]) (use that n' in simp_all)
  then have eq: "map (rd m1 src) [0..<2 * ?n] = map (rd m src) [0..<2 * ?n]" by simp
  have "emits m1 (p + of_nat (4 * length [hdr 4 num])) (map (rd m src) [0..<2 * ?n]) (fst (copy_pairs ?n (p + 4) src m1))"
    using copy_pairs_emits [where m = m1 and src = src, OF d1] n' unfolding eq by simp
  from emits_append [OF e1 this]
  show "emits m p (hdr 4 num # map (rd m src) [0..<2 * ?n]) (fst (cdm_write_regrandom p num src m))" using w n' by simp
  show "snd (cdm_write_regrandom p num src m) = p + of_nat (4 * (2 * ?n + 1))"
    using copy_pairs_emits [where m = m1 and src = src, OF d1] w n' by (simp add: algebra_simps)
qed

lemma changebase_emits:
  "emits m p [take_bit 24 b OR push_bit 24 8] (fst (cdm_write_changebase p b m))"
  "snd (cdm_write_changebase p b m) = p + of_nat 4"
proof -
  have "take_bit 8 (8 :: u32) = 8" by simp
  then have "fst (cdm_write_changebase p b m) = st32 m p (take_bit 24 b OR push_bit 24 8)"
    by (simp add: cdm_write_changebase_def Let_def upd32_upd32 upd32_const [OF base_fields])
  then show "emits m p [take_bit 24 b OR push_bit 24 8] (fst (cdm_write_changebase p b m))"
    by (simp only: emits_one)
qed (simp add: cdm_write_changebase_def Let_def advance_def)


section \<open>Streams\<close>

text \<open>The commands that writers and interpreter share, with the arguments of the writer.\<close>

datatype cdm_cmd = RegCont u32 u32 ptr | RegRandom u32 ptr | ChangeBase u32

fun write_cmd :: "cdm_cmd \<Rightarrow> ptr \<Rightarrow> kmem \<Rightarrow> kmem \<times> ptr" where
  "write_cmd (RegCont reg n vals) p m = cdm_write_regcontinuous p reg n vals m"
| "write_cmd (RegRandom n vals) p m = cdm_write_regrandom p n vals m"
| "write_cmd (ChangeBase b) p m = cdm_write_changebase p b m"

fun write_stream :: "cdm_cmd list \<Rightarrow> ptr \<Rightarrow> kmem \<Rightarrow> kmem \<times> ptr" where
  "write_stream [] p m = (m, p)"
| "write_stream (c # cs) p m = (case write_cmd c p m of (m', p') \<Rightarrow> write_stream cs p' m')"

text \<open>The size in words, by the functions a client asks.\<close>

fun required_size :: "cdm_cmd \<Rightarrow> nat" where
  "required_size (RegCont reg n vals) = unat (cdm_required_size_reg_continuous n)"
| "required_size (RegRandom n vals) = unat (cdm_required_size_reg_random n)"
| "required_size (ChangeBase b) = unat cdm_required_size_changebase"

text \<open>A command is encodable when its count is between 1 and 65535 and fits the 16-bit field.\<close>

fun encodable :: "cdm_cmd \<Rightarrow> bool" where
  "encodable (RegCont reg n vals) \<longleftrightarrow> 0 < n \<and> n < 65536"
| "encodable (RegRandom n vals) \<longleftrightarrow> 0 < n \<and> n < 65536"
| "encodable (ChangeBase b) \<longleftrightarrow> True"

fun source_words :: "cdm_cmd \<Rightarrow> nat" where
  "source_words (RegCont reg n vals) = unat n"
| "source_words (RegRandom n vals) = 2 * unat n"
| "source_words (ChangeBase b) = 0"

fun source_ptr :: "cdm_cmd \<Rightarrow> ptr" where
  "source_ptr (RegCont reg n vals) = vals"
| "source_ptr (RegRandom n vals) = vals"
| "source_ptr (ChangeBase b) = 0"

definition reads_outside :: "ptr \<Rightarrow> nat \<Rightarrow> cdm_cmd \<Rightarrow> bool" where
  "reads_outside p n c \<longleftrightarrow> (\<forall>a. in_range (source_ptr c) (of_nat (4 * source_words c)) a \<longrightarrow> \<not> in_range p (of_nat (4 * n)) a)"

fun cmd_words :: "kmem \<Rightarrow> cdm_cmd \<Rightarrow> u32 list" where
  "cmd_words m (RegCont reg n vals) = hdr 3 n # take_bit 24 reg # map (rd m vals) [0..<unat n]"
| "cmd_words m (RegRandom n vals) = hdr 4 n # map (rd m vals) [0..<2 * unat n]"
| "cmd_words m (ChangeBase b) = [take_bit 24 b OR push_bit 24 8]"

lemma length_cmd_words: "encodable c \<Longrightarrow> length (cmd_words m c) = required_size c"
  by (cases c) (auto simp: cdm_required_size_reg_continuous_def cdm_required_size_reg_random_def
      cdm_required_size_changebase_def unat_word_ariths dest: unat_u16)

lemma write_cmd_emits:
  assumes "encodable c" "reads_outside p (required_size c) c"
  shows "emits m p (cmd_words m c) (fst (write_cmd c p m))"
    "snd (write_cmd c p m) = p + of_nat (4 * required_size c)"
proof -
  have *: "emits m p (cmd_words m c) (fst (write_cmd c p m)) \<and> snd (write_cmd c p m) = p + of_nat (4 * required_size c)"
  proof (cases c)
    case (RegCont reg n vals)
    then have n: "n < 65536" and l: "required_size c = unat n + 2"
      using assms(1) length_cmd_words [OF assms(1), of m] by auto
    have d: "in_range vals (of_nat (4 * unat n)) a \<Longrightarrow> \<not> in_range p (of_nat (4 * (unat n + 2))) a" for a
      using assms(2) unfolding reads_outside_def l by (simp add: RegCont)
    show ?thesis using regcont_emits [OF n d] unfolding l by (simp add: RegCont)
  next
    case (RegRandom n vals)
    then have n: "n < 65536" and l: "required_size c = 2 * unat n + 1"
      using assms(1) length_cmd_words [OF assms(1), of m] by auto
    have d: "in_range vals (of_nat (4 * (2 * unat n))) a \<Longrightarrow> \<not> in_range p (of_nat (4 * (2 * unat n + 1))) a" for a
      using assms(2) unfolding reads_outside_def l by (simp add: RegRandom)
    show ?thesis using regrandom_emits [OF n d] unfolding l by (simp add: RegRandom)
  next
    case (ChangeBase b)
    then have "required_size c = 1" using length_cmd_words [OF assms(1), of m] by simp
    then show ?thesis using changebase_emits [where m = m and p = p and b = b] by (simp add: ChangeBase)
  qed
  then show "emits m p (cmd_words m c) (fst (write_cmd c p m))"
    "snd (write_cmd c p m) = p + of_nat (4 * required_size c)" by auto
qed

definition stream_size :: "cdm_cmd list \<Rightarrow> nat" where
  "stream_size cs = sum_list (map required_size cs)"

definition stream_words :: "kmem \<Rightarrow> cdm_cmd list \<Rightarrow> u32 list" where
  "stream_words m cs = concat (map (cmd_words m) cs)"

lemma length_stream_words: "\<forall>c\<in>set cs. encodable c \<Longrightarrow> length (stream_words m cs) = stream_size cs"
  by (induction cs) (simp_all add: stream_words_def stream_size_def length_cmd_words)

lemma reads_outside_part:
  assumes "reads_outside q T c" "k + n \<le> T" "4 * T < 2 ^ 64"
  shows "reads_outside (q + of_nat (4 * k)) n c"
  unfolding reads_outside_def
proof (intro allI impI)
  fix a assume "in_range (source_ptr c) (of_nat (4 * source_words c)) a"
  then have "\<not> in_range q (of_nat (4 * T)) a" using assms(1) by (simp add: reads_outside_def)
  moreover have "in_range (q + of_nat (4 * k)) (of_nat (4 * n)) a \<Longrightarrow> in_range q (of_nat (4 * T)) a"
    by (erule range_within) (use assms(2,3) in auto)
  ultimately show "\<not> in_range (q + of_nat (4 * k)) (of_nat (4 * n)) a" by blast
qed

text \<open>Source arrays outside the stream are the same before and after part of it is written.\<close>

lemma cmd_words_frame:
  assumes "reads_outside q T c" "\<And>a. \<not> in_range q (of_nat (4 * T)) a \<Longrightarrow> m' a = m a" "encodable c"
  shows "cmd_words m' c = cmd_words m c"
proof -
  have "rd m' (source_ptr c) i = rd m (source_ptr c) i" if "i < source_words c" for i
  proof (rule rd_frame)
    fix a assume "in_range (source_ptr c + of_nat (4 * i)) 4 a"
    then have "in_range (source_ptr c + of_nat (4 * i)) (of_nat 4) a" by simp
    moreover have "source_words c < 2 ^ 17" using assms(3) by (cases c) (auto dest: unat_u16)
    ultimately have "in_range (source_ptr c) (of_nat (4 * source_words c)) a"
      using that by (elim range_within) auto
    then show "m' a = m a" using assms(1,2) by (simp add: reads_outside_def)
  qed
  then show ?thesis by (cases c) auto
qed

lemma write_stream_emits:
  assumes "\<forall>c\<in>set cs. encodable c \<and> reads_outside q T c" "k + stream_size cs \<le> T" "4 * T < 2 ^ 64"
    "\<And>a. \<not> in_range q (of_nat (4 * T)) a \<Longrightarrow> m a = m0 a"
  shows "emits m (q + of_nat (4 * k)) (stream_words m0 cs) (fst (write_stream cs (q + of_nat (4 * k)) m))
     \<and> snd (write_stream cs (q + of_nat (4 * k)) m) = q + of_nat (4 * (k + stream_size cs))"
  using assms
proof (induction cs arbitrary: k m)
  case Nil
  then show ?case by (simp add: stream_words_def stream_size_def)
next
  case (Cons c cs)
  let ?p = "q + of_nat (4 * k)"
  have c: "encodable c" "reads_outside q T c" using Cons.prems(1) by auto
  have sz: "stream_size (c # cs) = required_size c + stream_size cs" by (simp add: stream_size_def)
  have ro: "reads_outside ?p (required_size c) c"
    by (rule reads_outside_part [OF c(2)]) (use Cons.prems(2,3) sz in auto)
  obtain m1 p1 where w: "write_cmd c ?p m = (m1, p1)" by (rule prod.exhaust)
  have e: "emits m ?p (cmd_words m0 c) m1" and p1: "p1 = q + of_nat (4 * (k + required_size c))"
    using write_cmd_emits [OF c(1) ro, of m] w cmd_words_frame [OF c(2) Cons.prems(4) c(1)]
    by (simp_all add: algebra_simps)
  have in1: "in_range ?p (of_nat (4 * length (cmd_words m0 c))) a \<Longrightarrow> in_range q (of_nat (4 * T)) a" for a
    by (erule range_within) (use Cons.prems(2,3) sz length_cmd_words [OF c(1), of m0] in auto)
  have fr: "m1 a = m0 a" if "\<not> in_range q (of_nat (4 * T)) a" for a
  proof -
    have "\<not> in_range ?p (of_nat (4 * length (cmd_words m0 c))) a" using in1 that by blast
    then have "m1 a = m a" using e by (simp add: emits_def)
    then show ?thesis using Cons.prems(4) [OF that] by simp
  qed
  have ih: "emits m1 p1 (stream_words m0 cs) (fst (write_stream cs p1 m1))"
    "snd (write_stream cs p1 m1) = q + of_nat (4 * (k + required_size c + stream_size cs))"
    using Cons.IH [of "k + required_size c" m1] Cons.prems(1-3) fr sz unfolding p1 by auto
  have p1': "p1 = ?p + of_nat (4 * length (cmd_words m0 c))"
    using p1 length_cmd_words [OF c(1), of m0] by (simp add: algebra_simps)
  have "emits m ?p (cmd_words m0 c @ stream_words m0 cs) (fst (write_stream cs p1 m1))"
    by (rule emits_append [OF e]) (use ih(1) p1' Cons.prems sz length_cmd_words [OF c(1), of m0]
        length_stream_words [of cs m0] in auto)
  then show ?case using w ih(2) sz by (simp add: stream_words_def algebra_simps)
qed


section \<open>Execution\<close>

text \<open>What a command stands for, by its arguments and the memory they point to.\<close>

fun exec_cmd :: "kmem \<Rightarrow> base_table \<Rightarrow> nat \<Rightarrow> cdm_cmd \<Rightarrow> ptr \<Rightarrow> io_log \<Rightarrow> rc + ptr \<times> io_log" where
  "exec_cmd m tbl n (RegCont reg num vals) base l =
     (if base = 0 then Inl (- EINVAL)
      else Inr (base, if base + ucast (take_bit 24 reg) = 0 then l
                      else l @ map (\<lambda>i. (base + ucast (take_bit 24 reg) + 4 * of_nat i, rd m vals i)) [0..<unat num]))"
| "exec_cmd m tbl n (RegRandom num vals) base l =
     (if base = 0 then Inl (- EINVAL)
      else Inr (base, fold (\<lambda>i. cam_io_w (rd m vals (2 * i + 1)) (base + ucast (rd m vals (2 * i)))) [0..<unat num] l))"
| "exec_cmd m tbl n (ChangeBase b) base l =
     (case cam_cdm_get_ioremap_from_base (take_bit 24 b) n tbl base of
        (ret, base') \<Rightarrow> if ret \<noteq> 0 then Inl ret else Inr (base', l))"

fun exec_stream :: "kmem \<Rightarrow> base_table \<Rightarrow> nat \<Rightarrow> cdm_cmd list \<Rightarrow> ptr \<Rightarrow> io_log \<Rightarrow> rc \<times> ptr \<times> io_log" where
  "exec_stream m tbl n [] base l = (0, base, l)"
| "exec_stream m tbl n (c # cs) base l =
     (case exec_cmd m tbl n c base l of
        Inl e \<Rightarrow> (e, base, l)
      | Inr (base', l') \<Rightarrow> exec_stream m tbl n cs base' l')"

lemma unat_of_nat_u32: "k < 2 ^ 32 \<Longrightarrow> unat (of_nat k :: u32) = k"
  by (simp add: unat_of_nat)

lemma step_on_words:
  assumes "0 < W" "4 * (W + r) < 2 ^ 32"
  shows "step_on p (of_nat (4 * (W + r))) (of_nat (4 * W)) = (p + of_nat (4 * W), of_nat (4 * r))"
proof -
  have u: "unat (of_nat (4 * W) :: u32) = 4 * W" using assms by (intro unat_of_nat_u32) simp
  have pos: "0 < (of_nat (4 * W) :: u32)" using u assms(1) by (simp add: word_less_nat_alt del: of_nat_mult)
  have "unat ((of_nat (4 * W) :: u32) div 4) = W" using u by (simp add: unat_div del: of_nat_mult)
  then have a: "advance p (of_nat (4 * W) div 4) = p + of_nat (4 * W)" by (simp only: advance_nat)
  have "(of_nat (4 * (W + r)) :: u32) = of_nat (4 * W) + of_nat (4 * r)" by (simp add: distrib_left)
  then have "(of_nat (4 * (W + r)) :: u32) - of_nat (4 * W) = of_nat (4 * r)" by simp
  then show ?thesis using pos a by (simp only: step_on_def if_True)
qed

lemma bf_get_take: "bf_get 0 24 (take_bit 24 r) = take_bit 24 r"
  by (simp add: bf_get_def)

lemma base_read: "drop_bit 24 (take_bit 24 b OR push_bit 24 8 :: u32) = 8" "bf_get 0 24 (take_bit 24 b OR push_bit 24 8) = take_bit 24 b"
proof -
  have "drop_bit 24 (take_bit 24 b OR push_bit 24 8 :: u32) = take_bit 8 8"
    by (rule bit_word_eqI) (auto simp: bit_simps)
  then show "drop_bit 24 (take_bit 24 b OR push_bit 24 8 :: u32) = 8" by simp
  show "bf_get 0 24 (take_bit 24 b OR push_bit 24 8) = take_bit 24 b"
    by (rule bit_word_eqI) (auto simp: bf_get_def bit_simps)
qed

lemma rd_0: "rd m p 0 = ld32 m p" and rd_1: "rd m p (Suc 0) = ld32 m (p + 4)"
  by (simp_all add: rd_def)

lemma random_loop_fold:
  assumes "\<And>i. i < 2 * n \<Longrightarrow> rd m data i = v i"
  shows "random_loop m base n data l = fold (\<lambda>i. cam_io_w (v (2 * i + 1)) (base + ucast (v (2 * i)))) [0..<n] l"
  using assms
proof (induction n arbitrary: data l v)
  case (Suc n)
  have sh: "rd m (data + 8) i = v (i + 2)" if "i < 2 * n" for i
    using Suc.prems [of "i + 2"] that by (simp add: rd_def algebra_simps)
  have v01: "ld32 m data = v 0" "ld32 m (data + 4) = v 1"
    using Suc.prems [of 0] Suc.prems [of 1] by (simp_all add: rd_def)
  have up: "[0..<Suc n] = 0 # map Suc [0..<n]" by (simp add: map_Suc_upt upt_conv_Cons)
  show ?case
    unfolding up using Suc.IH [of "data + 8" "\<lambda>i. v (i + 2)"] sh by (simp add: v01 fold_map comp_def)
qed simp

lemma exec_one_cont:
  assumes n: "0 < num" "num < 65536" and w: "\<And>i. i < unat num + 2 \<Longrightarrow> rd m p i = cmd_words m0 (RegCont reg num vals) ! i"
    and sz: "4 * (unat num + 2 + r) < 2 ^ 32" and nn: "p + 8 \<noteq> 0"
    and S: "S = of_nat (4 * (unat num + 2 + r))"
  shows "cdm_exec_one m tbl n base p S l =
     (case exec_cmd m0 tbl n (RegCont reg num vals) base l of Inl e \<Rightarrow> Inl e
      | Inr (base', l') \<Rightarrow> Inr (base', p + of_nat (4 * (unat num + 2)), of_nat (4 * r), l'))"
proof -
  have n': "unat num < 65536" by (rule unat_u16 [OF n(2)])
  have h: "ld32 m p = hdr 3 num" "ld32 m (p + 4) = take_bit 24 reg"
    using w [of 0] w [of 1] by (simp_all add: rd_def)
  have u: "unat S = 4 * (unat num + 2 + r)" unfolding S by (rule unat_of_nat_u32 [OF sz])
  have c1: "\<not> S < 2" unfolding word_less_nat_alt u by simp
  have c2: "\<not> (ucast S :: u64) < ucast num * 4 + 2"
    unfolding word_less_nat_alt unat_ucast_u32 u using n' by (simp add: unat_word_ariths)
  have c3: "num \<noteq> 0" "\<not> 0x10000 < num" using n by (auto simp: not_less)
  have used: "num * 4 + 8 = (of_nat (4 * (unat num + 2)) :: u32)" by simp
  have "unat (num * 4 div 4) = unat num" using n' by (simp add: unat_div unat_word_ariths)
  then have io: "cam_io_memcpy m d (advance p 2) (num * 4) l =
      (if d = 0 then l else l @ map (\<lambda>i. (d + 4 * of_nat i, rd m0 vals i)) [0..<unat num])" for d
    using nn w [of "i + 2" for i] by (auto simp: cam_io_memcpy_def advance_def rd_def algebra_simps)
  have so: "step_on p S (num * 4 + 8) = (p + of_nat (4 * (unat num + 2)), of_nat (4 * r))"
    unfolding used S by (rule step_on_words) (use sz in auto)
  show ?thesis
    using c1 c2 c3 by (simp add: cdm_exec_one_def Let_def cam_cdm_util_reg_cont_write_def h hdr_read n bf_get_take io so)
qed


lemma exec_one_random:
  assumes n: "0 < num" "num < 65536" and w: "\<And>i. i < 2 * unat num + 1 \<Longrightarrow> rd m p i = cmd_words m0 (RegRandom num vals) ! i"
    and sz: "4 * (2 * unat num + 1 + r) < 2 ^ 32" and S: "S = of_nat (4 * (2 * unat num + 1 + r))"
  shows "cdm_exec_one m tbl n base p S l =
     (case exec_cmd m0 tbl n (RegRandom num vals) base l of Inl e \<Rightarrow> Inl e
      | Inr (base', l') \<Rightarrow> Inr (base', p + of_nat (4 * (2 * unat num + 1)), of_nat (4 * r), l'))"
proof -
  have n': "unat num < 65536" by (rule unat_u16 [OF n(2)])
  have h: "ld32 m p = hdr 4 num" using w [of 0] by (simp add: rd_def)
  have u: "unat S = 4 * (2 * unat num + 1 + r)" unfolding S by (rule unat_of_nat_u32 [OF sz])
  have c2: "\<not> (ucast S :: u64) < ucast num * 8 + 1"
    unfolding word_less_nat_alt unat_ucast_u32 u using n' by (simp add: unat_word_ariths)
  have c3: "num \<noteq> 0" "\<not> 0x10000 < num" using n by (auto simp: not_less)
  have used: "num * 8 + 4 = (of_nat (4 * (2 * unat num + 1)) :: u32)" by simp
  have so: "step_on p S (num * 8 + 4) = (p + of_nat (4 * (2 * unat num + 1)), of_nat (4 * r))"
    unfolding used S by (rule step_on_words) (use sz in auto)
  have d: "rd m (advance p 1) i = rd m0 vals i" if "i < 2 * unat num" for i
    using w [of "i + 1"] that by (simp add: rd_def advance_def algebra_simps)
  show ?thesis
    using c2 c3 by (simp add: cdm_exec_one_def Let_def cam_cdm_util_reg_random_write_def h hdr_read n
        random_loop_fold [OF d] so)
qed

lemma exec_one_base:
  assumes w: "rd m p 0 = take_bit 24 b OR push_bit 24 8" and S: "S = of_nat (4 * (1 + r))"
  shows "cdm_exec_one m tbl n base p S l =
     (case exec_cmd m0 tbl n (ChangeBase b) base l of Inl e \<Rightarrow> Inl e
      | Inr (base', l') \<Rightarrow> Inr (base', p + of_nat (4 * 1), of_nat (4 * r), l'))"
proof -
  have h: "drop_bit 24 (ld32 m p) = 8" "bf_get 0 24 (ld32 m p) = take_bit 24 b"
    using w unfolding rd_0 by (simp_all only: base_read)
  obtain ret base' where c: "cam_cdm_get_ioremap_from_base (take_bit 24 b) n tbl base = (ret, base')" by (rule prod.exhaust)
  show ?thesis by (simp add: cdm_exec_one_def Let_def h c cdm_required_size_changebase_def advance_def S)
qed

lemma exec_one:
  assumes "encodable c" "\<And>i. i < required_size c \<Longrightarrow> rd m p i = cmd_words m0 c ! i"
    "4 * (required_size c + r) < 2 ^ 32" "unat p + 4 * required_size c < 2 ^ 64"
  shows "cdm_exec_one m tbl n base p (of_nat (4 * (required_size c + r))) l =
     (case exec_cmd m0 tbl n c base l of Inl e \<Rightarrow> Inl e
      | Inr (base', l') \<Rightarrow> Inr (base', p + of_nat (4 * required_size c), of_nat (4 * r), l'))"
proof (cases c)
  case (RegCont reg num vals)
  have l: "required_size c = unat num + 2" using length_cmd_words [OF assms(1), of m0] by (simp add: RegCont)
  have n: "0 < num" "num < 65536" using assms(1) by (simp_all add: RegCont)
  have "unat (p + 8) = unat p + 8" using assms(4) unfolding l by (simp add: unat_word_ariths)
  then have "p + 8 \<noteq> 0" by auto
  then show ?thesis using exec_one_cont [OF n, of m p m0 reg vals r _ tbl n base l] assms(2,3) unfolding l by (simp add: RegCont)
next
  case (RegRandom num vals)
  have l: "required_size c = 2 * unat num + 1" using length_cmd_words [OF assms(1), of m0] by (simp add: RegRandom)
  have n: "0 < num" "num < 65536" using assms(1) by (simp_all add: RegRandom)
  show ?thesis using exec_one_random [OF n, of m p m0 vals r _ tbl n base l] assms(2,3) unfolding l by (simp add: RegRandom)
next
  case (ChangeBase b)
  have l: "required_size c = 1" using length_cmd_words [OF assms(1), of m0] by (simp add: ChangeBase)
  show ?thesis using exec_one_base [of m p b _ r tbl n base l m0] assms(2) unfolding l by (simp add: ChangeBase)
qed

lemma required_size_pos: "encodable c \<Longrightarrow> 0 < required_size c"
  using length_cmd_words [of c "\<lambda>_. 0"] by (cases c) auto

lemma loop_exec:
  assumes "\<forall>c\<in>set cs. encodable c" "\<And>i. i < stream_size cs \<Longrightarrow> rd m p i = stream_words m0 cs ! i"
    "4 * stream_size cs < 2 ^ 32" "unat p + 4 * stream_size cs < 2 ^ 64"
  shows "cmd_buf_loop m tbl n base p (of_nat (4 * stream_size cs)) l = Some (exec_stream m0 tbl n cs base l)"
  using assms
proof (induction cs arbitrary: base p l)
  case Nil
  then show ?case by (simp add: cmd_buf_loop.simps stream_size_def)
next
  case (Cons c cs)
  have c: "encodable c" using Cons.prems(1) by simp
  let ?k = "required_size c"
  have sz: "stream_size (c # cs) = ?k + stream_size cs" by (simp add: stream_size_def)
  have len: "length (cmd_words m0 c) = ?k" by (rule length_cmd_words [OF c])
  have k: "0 < ?k" by (rule required_size_pos [OF c])
  have "unat (of_nat (4 * (?k + stream_size cs)) :: u32) = 4 * (?k + stream_size cs)"
    using Cons.prems(3) sz by (intro unat_of_nat_u32) simp
  then have nz: "(of_nat (4 * (?k + stream_size cs)) :: u32) \<noteq> 0" using k by (metis add_is_0 mult_is_0 unat_0 less_not_refl zero_neq_numeral)
  have w1: "rd m p i = cmd_words m0 c ! i" if "i < ?k" for i
    using Cons.prems(2) [of i] that sz len by (simp add: stream_words_def nth_append)
  let ?q = "p + of_nat (4 * ?k)"
  have w2: "rd m ?q i = stream_words m0 cs ! i" if "i < stream_size cs" for i
  proof -
    have "rd m ?q i = rd m p (?k + i)" by (simp add: rd_def algebra_simps)
    then show ?thesis using Cons.prems(2) [of "?k + i"] that sz len by (simp add: stream_words_def nth_append)
  qed
  have uq: "unat ?q = unat p + 4 * ?k"
  proof -
    have "unat (of_nat (4 * ?k) :: u64) = 4 * ?k" using Cons.prems(4) sz by (intro unat_of_nat_lt) simp
    then show ?thesis using Cons.prems(4) sz unfolding unat_word_ariths by simp
  qed
  have e: "cdm_exec_one m tbl n base p (of_nat (4 * (?k + stream_size cs))) l =
      (case exec_cmd m0 tbl n c base l of Inl e \<Rightarrow> Inl e
       | Inr (base', l') \<Rightarrow> Inr (base', ?q, of_nat (4 * stream_size cs), l'))"
    by (rule exec_one [OF c w1]) (use Cons.prems(3,4) sz in auto)
  have ih: "cmd_buf_loop m tbl n b ?q (of_nat (4 * stream_size cs)) l' = Some (exec_stream m0 tbl n cs b l')" for b l'
    by (rule Cons.IH) (use Cons.prems w2 sz uq in auto)
  show ?case
    unfolding sz using nz e ih
    by (subst cmd_buf_loop.simps) (auto simp del: of_nat_mult of_nat_add split: sum.split)
qed


section \<open>Fixed-size writers\<close>

lemma frame_st32: "\<not> in_range p n a \<Longrightarrow> unat off + 4 \<le> unat n \<Longrightarrow> st32 m (p + off) v a = m a"
  using in_range_sub [of p off 4 a n] st32_other by fastforce

lemma frame_upd32: "\<not> in_range p n a \<Longrightarrow> unat off + 4 \<le> unat n \<Longrightarrow> upd32 (p + off) f m a = m a"
  unfolding upd32_def by (rule frame_st32)

lemmas frame_writes = frame_st32 frame_upd32 frame_st32 [where off = 0, simplified] frame_upd32 [where off = 0, simplified]

lemma more_header_sizes [simp]:
  "cdm_get_cmd_header_size 5 = 2" "cdm_get_cmd_header_size 6 = 2" "cdm_get_cmd_header_size 7 = 3"
  "cdm_get_cmd_header_size 12 = 3" "cdm_get_cmd_header_size 13 = 3" "cdm_get_cmd_header_size 14 = 3"
  by (simp_all add: cdm_get_cmd_header_size_def CDMCmdHeaderSizes_def)

text \<open>A writer fits \<open>n\<close> words at \<open>p\<close>: it advances by \<open>n\<close> words and changes nothing else.\<close>

definition fits :: "ptr \<Rightarrow> u32 \<Rightarrow> kmem \<Rightarrow> kmem \<times> ptr \<Rightarrow> bool" where
  "fits p n m r \<longleftrightarrow> snd r = p + 4 * ucast n \<and> (\<forall>a. \<not> in_range p (4 * ucast n) a \<longrightarrow> fst r a = m a)"

section \<open>Properties\<close>

text \<open>
  C37: The stream that the writers build for a list of commands, executed by the virtual CDM,
  performs exactly the register writes the commands stand for, in order, with base changes and
  errors where the commands have them, and the interpreter ends. The commands are continuous and
  random register writes with 1 to 65535 values and base changes; the value arrays lie outside
  the command buffer; the buffer has exactly the size the size functions give.
\<close>
theorem cdm_stream_refines:
  assumes "\<forall>c\<in>set cs. encodable c \<and> reads_outside p (stream_size cs) c"
    "4 * stream_size cs < 2 ^ 32" "unat p + 4 * stream_size cs < 2 ^ 64"
  shows "cam_cdm_util_cmd_buf_write (fst (write_stream cs p m)) tbl n base p (of_nat (4 * stream_size cs)) =
      Some (exec_stream m tbl n cs base [])
    \<and> snd (write_stream cs p m) = p + of_nat (4 * stream_size cs)"
proof -
  have e: "emits m p (stream_words m cs) (fst (write_stream cs p m))"
    "snd (write_stream cs p m) = p + of_nat (4 * stream_size cs)"
    using write_stream_emits [OF assms(1), of 0 m m] assms(2) by auto
  have enc: "\<forall>c\<in>set cs. encodable c" using assms(1) by blast
  have "cmd_buf_loop (fst (write_stream cs p m)) tbl n base p (of_nat (4 * stream_size cs)) [] =
      Some (exec_stream m tbl n cs base [])"
    by (rule loop_exec [OF enc _ assms(2,3)]) (use e(1) length_stream_words [OF enc, of m] in \<open>simp add: emits_def\<close>)
  then show ?thesis using e(2) by (simp add: cam_cdm_util_cmd_buf_write_def)
qed

text \<open>
  Every fixed-size writer stays inside the words that its size function announces and
  advances the pointer by exactly that many.
\<close>
theorem cdm_writers_fit:
  "fits p cdm_required_size_dmi m (cdm_write_dmi p dmiCmd DMIAddr DMISel bufAddr len m)
   \<and> fits p cdm_required_size_indirect m (cdm_write_indirect p bufAddr len m)
   \<and> fits p cdm_required_size_wait_event m (cdm_write_wait_event p iw ident msk offset data m)
   \<and> fits p cdm_required_size_changebase m (cdm_write_changebase p b m)
   \<and> fits p cdm_required_size_comp_wait m (cdm_write_wait_comp_event p mask1 mask2 m)
   \<and> fits p cdm_required_size_clear_comp_event m (cdm_write_clear_comp_event p mask1 mask2 m)
   \<and> fits p cdm_required_size_prefetch_disable m (cdm_write_wait_prefetch_disable p ident mask1 mask2 m)
   \<and> fits p cdm_required_size_genirq m (cdm_write_genirq p userdata wr fifo m, p + 4 * ucast cdm_required_size_genirq)"
proof (intro conjI)
  show "fits p cdm_required_size_dmi m (cdm_write_dmi p dmiCmd DMIAddr DMISel bufAddr len m)"
    by (simp add: fits_def cdm_required_size_dmi_def cdm_write_dmi_def Let_def advance_def frame_writes)
  show "fits p cdm_required_size_indirect m (cdm_write_indirect p bufAddr len m)"
    by (simp add: fits_def cdm_required_size_indirect_def cdm_write_indirect_def Let_def advance_def frame_writes)
  show "fits p cdm_required_size_wait_event m (cdm_write_wait_event p iw ident msk offset data m)"
    by (simp add: fits_def cdm_required_size_wait_event_def cdm_write_wait_event_def Let_def advance_def frame_writes)
  show "fits p cdm_required_size_changebase m (cdm_write_changebase p b m)"
    by (simp add: fits_def cdm_required_size_changebase_def cdm_write_changebase_def Let_def advance_def frame_writes)
  show "fits p cdm_required_size_comp_wait m (cdm_write_wait_comp_event p mask1 mask2 m)"
    by (simp add: fits_def cdm_required_size_comp_wait_def cdm_write_wait_comp_event_def Let_def advance_def frame_writes)
  show "fits p cdm_required_size_clear_comp_event m (cdm_write_clear_comp_event p mask1 mask2 m)"
    by (simp add: fits_def cdm_required_size_clear_comp_event_def cdm_write_clear_comp_event_def Let_def advance_def
        frame_writes)
  show "fits p cdm_required_size_prefetch_disable m (cdm_write_wait_prefetch_disable p ident mask1 mask2 m)"
    by (simp add: fits_def cdm_required_size_prefetch_disable_def cdm_write_wait_prefetch_disable_def Let_def advance_def
        frame_writes)
  show "fits p cdm_required_size_genirq m (cdm_write_genirq p userdata wr fifo m, p + 4 * ucast cdm_required_size_genirq)"
    by (simp add: fits_def cdm_required_size_genirq_def cdm_write_genirq_def Let_def frame_writes)
qed

text \<open>
  The interpreter compares the bytes of a continuous write with its header counted in words.
  A buffer that ends up to six bytes early is accepted: the last value is read from behind the
  buffer and the remaining size wraps around to almost 4 GB, so that execution goes on there.
\<close>
theorem cdm_short_buffer_wraps:
  assumes "ld32 m p = hdr 3 num" "0 < num" "num < 65536" "base \<noteq> 0"
    "4 * unat num + 2 \<le> unat sz" "unat sz < 4 * unat num + 8"
  shows "\<exists>sz' l'. cdm_exec_one m tbl n base p sz l = Inr (base, p + of_nat (4 * (unat num + 2)), sz', l')
    \<and> unat sz' + 6 \<ge> 2 ^ 32"
proof -
  have n': "unat num < 65536" by (rule unat_u16 [OF assms(3)])
  have c1: "\<not> sz < 2" using assms(5) by (simp add: word_less_nat_alt)
  have c2: "\<not> (ucast sz :: u64) < ucast num * 4 + 2"
    unfolding word_less_nat_alt unat_ucast_u32 using n' assms(5) by (simp add: unat_word_ariths)
  have c3: "num \<noteq> 0" "\<not> 0x10000 < num" using assms(2,3) by (auto simp: not_less)
  have u: "unat (num * 4 + 8) = 4 * unat num + 8" using n' by (simp add: unat_word_ariths)
  have pos: "0 < num * 4 + 8" using u by (simp add: word_less_nat_alt)
  have "unat ((num * 4 + 8) div 4) = unat num + 2" using u by (simp add: unat_div)
  then have a: "advance p ((num * 4 + 8) div 4) = p + of_nat (4 * (unat num + 2))" by (simp only: advance_nat)
  have "unat (sz - (num * 4 + 8)) + 6 \<ge> 2 ^ 32"
    using assms(5,6) u n' by (simp add: unat_word_ariths(2) word_less_nat_alt unat_sub_if_size word_size)
  then show ?thesis
    using c1 c2 c3 assms(4) pos a
    by (simp add: cdm_exec_one_def Let_def cam_cdm_util_reg_cont_write_def assms(1) hdr_read assms(3) step_on_def)
qed


section \<open>Witnesses\<close>

definition stream_demo :: "cdm_cmd list" where
  "stream_demo = [ChangeBase 0x1000, RegCont 16 2 0x8000, RegRandom 1 0x8000]"

definition tbl_cdm :: base_table where
  "tbl_cdm = [None, Some \<lparr>mem_base = 0x7000, mem_cam_base = 0x1000\<rparr>]"

lemma stream_demo_size: "stream_size stream_demo = 8"
  by (simp add: stream_size_def stream_demo_def cdm_required_size_reg_continuous_def
      cdm_required_size_reg_random_def cdm_required_size_changebase_def)

lemma stream_demo_outside: "n \<le> 8 \<Longrightarrow> in_range 0x8000 (of_nat n) a \<Longrightarrow> \<not> in_range 0x100000 32 a"
  using ranges_apart [of "0x8000" n "0x100000" 32 0 a] by simp

theorem cdm_stream_refines_witness:
  "cam_cdm_util_cmd_buf_write (fst (write_stream stream_demo 0x100000 (\<lambda>_. 0))) tbl_cdm 2 0 0x100000 32 =
     Some (0, 0x7000, [(0x7010, 0), (0x7014, 0), (0x7000, 0)])"
proof -
  have o: "\<forall>c\<in>set stream_demo. encodable c \<and> reads_outside 0x100000 (stream_size stream_demo) c"
  proof -
    have "reads_outside 0x100000 8 c" if "source_ptr c = 0x8000" "4 * source_words c \<le> 8" for c
      unfolding reads_outside_def that(1) using stream_demo_outside [OF that(2)] by simp
    moreover have "reads_outside 0x100000 8 (ChangeBase 0x1000)" by (simp add: reads_outside_def in_range_def)
    ultimately show ?thesis unfolding stream_demo_size by (simp add: stream_demo_def)
  qed
  have "exec_stream (\<lambda>_. 0) tbl_cdm 2 stream_demo 0 [] = (0, 0x7000, [(0x7010, 0), (0x7014, 0), (0x7000, 0)])"
    by code_simp
  then show ?thesis
    using cdm_stream_refines [OF o, of "\<lambda>_. 0" tbl_cdm 2 0] by (simp add: stream_demo_size)
qed

theorem cdm_short_buffer_wraps_witness:
  "\<exists>sz' l'. cdm_exec_one (st32 (\<lambda>_. 0) 0x100000 (hdr 3 1)) [] 0 0x7000 0x100000 6 [] =
     Inr (0x7000, 0x10000C, sz', l') \<and> unat sz' + 6 \<ge> 2 ^ 32"
  using cdm_short_buffer_wraps [of "st32 (\<lambda>_. 0) 0x100000 (hdr 3 1)" "0x100000" 1 "0x7000" 6 "[]" 0 "[]"]
  by (simp add: ld32_st32)

end
