(* ===== verification/Cam_Crm.thy ===== *)
theory Cam_Crm
  imports Cam_Prelude "HOL-Library.Signed_Division"
begin

text \<open>
  The data of the request manager, \<open>cam_req_mgr/cam_req_mgr_core.c\<close>, and its operations on one
  link: the ring of scheduled requests (\<open>in_q\<close>), the readiness tables of the devices, one per
  pipeline delay, the check that all of them are ready, and the delivery of a request to the
  devices. The link timer \<open>cam_req_mgr_timer.c\<close> is here too.

  Arrays are functions on \<open>int\<close> indices, so a read outside an array is a read of an unknown
  value. Calls into drivers, timers and V4L2 are recorded in order in \<open>calls\<close>; the \<open>n\<close>-th of them
  returns what the environment's \<open>crm_orc n\<close> says. An \<open>int64_t\<close> or \<open>int32_t\<close> is an \<open>int\<close>, an
  unsigned enum is an \<open>int\<close> whose differences are taken modulo \<open>2 ^ 32\<close>. The locks are not
  represented.
\<close>

section \<open>Data\<close>

abbreviation MAX_REQ_SLOTS :: int where "MAX_REQ_SLOTS \<equiv> 48"
abbreviation CAM_REQ_MGR_WATCHDOG_TIMEOUT :: int where "CAM_REQ_MGR_WATCHDOG_TIMEOUT \<equiv> 1000"
abbreviation CAM_REQ_MGR_WATCHDOG_TIMEOUT_DEFAULT :: int where "CAM_REQ_MGR_WATCHDOG_TIMEOUT_DEFAULT \<equiv> 32000"
abbreviation CAM_REQ_MGR_WATCHDOG_TIMEOUT_MAX :: int where "CAM_REQ_MGR_WATCHDOG_TIMEOUT_MAX \<equiv> 50000"
abbreviation DEFAULT_FRAME_DURATION :: u64 where "DEFAULT_FRAME_DURATION \<equiv> 33333333"
abbreviation MAXIMUM_LINKS_PER_SESSION :: nat where "MAXIMUM_LINKS_PER_SESSION \<equiv> 4"
abbreviation MAXIMUM_RETRY_ATTEMPTS :: u32 where "MAXIMUM_RETRY_ATTEMPTS \<equiv> 2"
abbreviation CAM_PIPELINE_DELAY_MAX :: int where "CAM_PIPELINE_DELAY_MAX \<equiv> 3"
abbreviation CAM_TRIGGER_POINT_SOF :: u32 where "CAM_TRIGGER_POINT_SOF \<equiv> 1"
abbreviation CAM_TRIGGER_POINT_EOF :: u32 where "CAM_TRIGGER_POINT_EOF \<equiv> 2"
abbreviation CAM_REQ_MGR_SYNC_MODE_NO_SYNC :: int where "CAM_REQ_MGR_SYNC_MODE_NO_SYNC \<equiv> 0"
abbreviation CAM_REQ_MGR_SYNC_MODE_SYNC :: int where "CAM_REQ_MGR_SYNC_MODE_SYNC \<equiv> 1"
abbreviation SKIP_NEXT_FRAME :: u32 where "SKIP_NEXT_FRAME \<equiv> 0x100"

datatype crm_req_state = CRM_REQ_STATE_EMPTY | CRM_REQ_STATE_PENDING | CRM_REQ_STATE_READY
  | CRM_REQ_STATE_INVALID

datatype crm_slot_status = CRM_SLOT_STATUS_NO_REQ | CRM_SLOT_STATUS_REQ_ADDED
  | CRM_SLOT_STATUS_REQ_PENDING | CRM_SLOT_STATUS_REQ_APPLIED | CRM_SLOT_STATUS_INVALID

datatype cam_req_mgr_link_state = CAM_CRM_LINK_STATE_AVAILABLE | CAM_CRM_LINK_STATE_IDLE
  | CAM_CRM_LINK_STATE_READY | CAM_CRM_LINK_STATE_ERR | CAM_CRM_LINK_STATE_MAX

text \<open>Link states are compared as numbers, in the order of the enum.\<close>

fun link_state_num :: "cam_req_mgr_link_state \<Rightarrow> nat" where
  "link_state_num CAM_CRM_LINK_STATE_AVAILABLE = 0"
| "link_state_num CAM_CRM_LINK_STATE_IDLE = 1"
| "link_state_num CAM_CRM_LINK_STATE_READY = 2"
| "link_state_num CAM_CRM_LINK_STATE_ERR = 3"
| "link_state_num CAM_CRM_LINK_STATE_MAX = 4"

instantiation cam_req_mgr_link_state :: linorder
begin

definition less_eq_cam_req_mgr_link_state :: "cam_req_mgr_link_state \<Rightarrow> cam_req_mgr_link_state \<Rightarrow> bool" where
  "a \<le> b \<longleftrightarrow> link_state_num a \<le> link_state_num b"

definition less_cam_req_mgr_link_state :: "cam_req_mgr_link_state \<Rightarrow> cam_req_mgr_link_state \<Rightarrow> bool" where
  "a < b \<longleftrightarrow> link_state_num a < link_state_num b"

instance
proof
  fix x y :: cam_req_mgr_link_state
  show "x \<le> y \<Longrightarrow> y \<le> x \<Longrightarrow> x = y"
    by (cases x; cases y) (simp_all add: less_eq_cam_req_mgr_link_state_def)
qed (auto simp: less_eq_cam_req_mgr_link_state_def less_cam_req_mgr_link_state_def)

end

datatype cam_req_mgr_device_error = CRM_KMD_ERR_NOT_FOUND | CRM_KMD_ERR_BUBBLE | CRM_KMD_ERR_FATAL
  | CRM_KMD_ERR_PAGE_FAULT | CRM_KMD_ERR_OVERFLOW | CRM_KMD_ERR_TIMEOUT | CRM_KMD_ERR_STOPPED
  | CRM_KMD_ERR_MAX

datatype cam_req_mgr_link_evt_type = CAM_REQ_MGR_LINK_EVT_ERR | CAM_REQ_MGR_LINK_EVT_PAUSE
  | CAM_REQ_MGR_LINK_EVT_RESUME | CAM_REQ_MGR_LINK_EVT_SOF_FREEZE | CAM_REQ_MGR_LINK_EVT_MAX

datatype crm_error_type = CAM_REQ_MGR_ERROR_TYPE_RECOVERY | CAM_REQ_MGR_ERROR_TYPE_SOF_FREEZE

record cam_req_mgr_apply_request =
  ap_link_hdl :: int
  ap_dev_hdl :: int
  ap_request_id :: u64
  ap_report_if_bubble :: int
  ap_trigger_point :: u32

text \<open>\<open>ev_error\<close> is \<open>None\<close> where the code leaves the union member unset.\<close>

record cam_req_mgr_link_evt_data =
  ev_link_hdl :: int
  ev_dev_hdl :: int
  ev_req_id :: u64
  ev_evt_type :: cam_req_mgr_link_evt_type
  ev_error :: "cam_req_mgr_device_error option"

record cam_req_mgr_flush_request =
  fr_link_hdl :: int
  fr_dev_hdl :: int
  fr_type :: u32
  fr_req_id :: u64

record cam_req_mgr_core_dev_link_setup =
  ls_link_enable :: int
  ls_link_hdl :: int
  ls_dev_hdl :: int
  ls_max_delay :: int
  ls_subscribe_event :: u32

text \<open>\<open>Uninit_device\<close> is the use of a device pointer that was never assigned.\<close>

datatype crm_call =
    Get_dev_info int
  | Link_setup cam_req_mgr_core_dev_link_setup
  | Apply_req cam_req_mgr_apply_request
  | Flush_req cam_req_mgr_flush_request
  | Process_evt cam_req_mgr_link_evt_data
  | Dump_req int u64
  | Notify_message int crm_error_type int int
  | Mod_timer int
  | Del_timer
  | Complete_workq
  | Uninit_device

text \<open>What \<open>get_dev_info\<close> fills in: the pipeline delay (an unsigned enum) and the triggers.\<close>

record crm_env =
  crm_orc :: "nat \<Rightarrow> int"
  dev_delay :: "nat \<Rightarrow> u32"
  dev_trigger :: "nat \<Rightarrow> u32"
  timer_alloc :: bool

record cam_req_mgr_timer =
  expires :: int
  pause_timer :: bool

record cam_req_mgr_slot =
  sl_idx :: int
  skip_idx :: int
  sl_status :: crm_slot_status
  recover :: int
  sl_req_id :: int
  sl_sync_mode :: int
  additional_timeout :: int

record cam_req_mgr_req_queue =
  num_slots :: int
  q_slot :: "int \<Rightarrow> cam_req_mgr_slot"
  rd_idx :: int
  wr_idx :: int
  last_applied_idx :: int

record cam_req_mgr_tbl_slot =
  req_ready_map :: u32
  ts_state :: crm_req_state
  ts_inject_delay :: u32
  ts_dev_hdl :: int
  skip_next_frame :: bool
  is_applied :: bool

record cam_req_mgr_req_tbl =
  tbl_id :: int
  tbl_pd :: int
  dev_count :: int
  dev_mask :: u32
  skip_traverse :: int
  pd_delta :: int
  tbl_num_slots :: int
  tbl_slot :: "int \<Rightarrow> cam_req_mgr_tbl_slot"

record cam_req_mgr_apply =
  a_idx :: int
  a_pd :: int
  a_req_id :: int
  a_skip_idx :: int

text \<open>The callbacks a driver registered.\<close>

record cam_req_mgr_kmd_ops =
  has_get_dev_info :: bool
  has_link_setup :: bool
  has_apply_req :: bool
  has_flush_req :: bool
  has_process_evt :: bool
  has_dump_req :: bool

text \<open>
  A link has one table per pipeline delay, so a pointer to a table of the link is the delay of
  that table, \<open>None\<close> for a null pointer.
\<close>

record cam_req_mgr_connected_device =
  dev_hdl :: int
  dev_bit :: int
  pd_tbl :: "int option"
  p_delay :: int
  dev_trigger_mask :: u32
  ops :: "cam_req_mgr_kmd_ops option"

text \<open>
  \<open>l_tbl\<close> is the linked list of tables, first to last; \<open>sync_link\<close> is an index of \<open>g_links\<close> and
  \<open>parent\<close> the address of the session.
\<close>

record cam_req_mgr_core_link =
  link_hdl :: int
  num_devs :: nat
  max_delay :: int
  pd_mask :: u32
  l_dev :: "cam_req_mgr_connected_device list"
  in_q :: "cam_req_mgr_req_queue option"
  l_tbl :: "cam_req_mgr_req_tbl list"
  num_tbl :: int
  apply_data :: "int \<Rightarrow> cam_req_mgr_apply"
  watchdog :: "cam_req_mgr_timer option"
  link_state :: cam_req_mgr_link_state
  parent :: ptr
  subscribe_event :: u32
  trigger_mask :: u32
  sync_link :: "nat option"
  sync_link_sof_skip :: bool
  open_req_cnt :: int
  last_flush_id :: u32
  is_used :: bool
  is_master :: bool
  initial_skip :: bool
  in_msync_mode :: bool
  initial_sync_req :: int
  retry_cnt :: u32
  is_shutdown :: bool
  sof_timestamp :: u64
  prev_sof_timestamp :: u64

type_synonym calls = "crm_call list"

definition do_call :: "crm_env \<Rightarrow> crm_call \<Rightarrow> calls \<Rightarrow> rc \<times> calls" where
  "do_call env c tr = (crm_orc env (length tr), tr @ [c])"

text \<open>Conversions between the C integer types: to \<open>int32_t\<close>, and subtraction of unsigned enums.\<close>

definition s32 :: "int \<Rightarrow> int" where
  "s32 x = (x + 2 ^ 31) mod 2 ^ 32 - 2 ^ 31"

definition usub32 :: "int \<Rightarrow> int \<Rightarrow> int" where
  "usub32 x y = (x - y) mod 2 ^ 32"

text \<open>A \<open>uint64_t\<close> passed where an \<open>int64_t\<close> is expected, and back.\<close>

definition s64 :: "u64 \<Rightarrow> int" where
  "s64 x = sint x"

definition u64_of :: "int \<Rightarrow> u64" where
  "u64_of x = of_int x"

definition shl1 :: "int \<Rightarrow> u32" where
  "shl1 n = push_bit (nat n) 1"

abbreviation qof :: "cam_req_mgr_core_link \<Rightarrow> cam_req_mgr_req_queue" where
  "qof l \<equiv> the (in_q l)"

definition upd_q :: "(cam_req_mgr_req_queue \<Rightarrow> cam_req_mgr_req_queue) \<Rightarrow> cam_req_mgr_core_link \<Rightarrow> cam_req_mgr_core_link" where
  "upd_q f l = l\<lparr>in_q := map_option f (in_q l)\<rparr>"

definition upd_slot :: "int \<Rightarrow> (cam_req_mgr_slot \<Rightarrow> cam_req_mgr_slot) \<Rightarrow> cam_req_mgr_req_queue \<Rightarrow> cam_req_mgr_req_queue" where
  "upd_slot i f q = q\<lparr>q_slot := (q_slot q)(i := f (q_slot q i))\<rparr>"

definition upd_tslot :: "int \<Rightarrow> (cam_req_mgr_tbl_slot \<Rightarrow> cam_req_mgr_tbl_slot) \<Rightarrow> cam_req_mgr_req_tbl \<Rightarrow> cam_req_mgr_req_tbl" where
  "upd_tslot i f t = t\<lparr>tbl_slot := (tbl_slot t)(i := f (tbl_slot t i))\<rparr>"

definition zero_slot :: cam_req_mgr_slot where
  "zero_slot = \<lparr>sl_idx = 0, skip_idx = 0, sl_status = CRM_SLOT_STATUS_NO_REQ, recover = 0,
     sl_req_id = 0, sl_sync_mode = 0, additional_timeout = 0\<rparr>"

definition zero_tslot :: cam_req_mgr_tbl_slot where
  "zero_tslot = \<lparr>req_ready_map = 0, ts_state = CRM_REQ_STATE_EMPTY, ts_inject_delay = 0,
     ts_dev_hdl = 0, skip_next_frame = False, is_applied = False\<rparr>"

definition zero_apply :: cam_req_mgr_apply where
  "zero_apply = \<lparr>a_idx = 0, a_pd = 0, a_req_id = 0, a_skip_idx = 0\<rparr>"

text \<open>The table with a given delay, through a pointer of a device.\<close>

definition tbl_of :: "cam_req_mgr_core_link \<Rightarrow> cam_req_mgr_connected_device \<Rightarrow> cam_req_mgr_req_tbl" where
  "tbl_of l d = the (find (\<lambda>t. tbl_pd t = the (pd_tbl d)) (l_tbl l))"

definition upd_tbl :: "int \<Rightarrow> (cam_req_mgr_req_tbl \<Rightarrow> cam_req_mgr_req_tbl) \<Rightarrow> cam_req_mgr_req_tbl list \<Rightarrow> cam_req_mgr_req_tbl list" where
  "upd_tbl pd f ts = map (\<lambda>t. if tbl_pd t = pd then f t else t) ts"

section \<open>The link timer\<close>

definition crm_timer_reset :: "cam_req_mgr_timer option \<Rightarrow> calls \<Rightarrow> calls" where
  "crm_timer_reset t tr = (case t of None \<Rightarrow> tr | Some w \<Rightarrow> tr @ [Mod_timer (expires w)])"

definition crm_timer_modify :: "cam_req_mgr_timer option \<Rightarrow> int \<Rightarrow> calls \<Rightarrow> cam_req_mgr_timer option \<times> calls" where
  "crm_timer_modify t e tr =
     (case t of None \<Rightarrow> (None, tr)
      | Some w \<Rightarrow> (let w' = w\<lparr>expires := e\<rparr> in (Some w', crm_timer_reset (Some w') tr)))"

definition crm_timer_init ::
    "crm_env \<Rightarrow> int \<Rightarrow> cam_req_mgr_timer option \<Rightarrow> calls \<Rightarrow> rc \<times> cam_req_mgr_timer option \<times> calls" where
  "crm_timer_init env e t tr =
     (if t = None
      then if \<not> timer_alloc env then (- ENOMEM, t, tr)
           else (let w = \<lparr>expires = e, pause_timer = False\<rparr> in (0, Some w, crm_timer_reset (Some w) tr))
      else (- EINVAL, t, tr))"

definition crm_timer_exit :: "cam_req_mgr_timer option \<Rightarrow> calls \<Rightarrow> cam_req_mgr_timer option \<times> calls" where
  "crm_timer_exit t tr = (case t of None \<Rightarrow> (None, tr) | Some w \<Rightarrow> (None, tr @ [Del_timer]))"

section \<open>Indices of the ring\<close>

text \<open>
  \<open>%\<close> truncates towards zero. A zero divisor is undefined in C; \<open>smod\<close> then returns the dividend,
  as the arm64 instruction sequence does.
\<close>

definition inc_idx :: "int \<Rightarrow> int \<Rightarrow> int \<Rightarrow> int" where
  "inc_idx val step max_val = (val + step) smod max_val"

definition dec_idx :: "int \<Rightarrow> int \<Rightarrow> int \<Rightarrow> int" where
  "dec_idx val step max_val = (let v = val - step in if v < 0 then max_val + v else v)"

section \<open>Tables\<close>

fun find_pd_tbl :: "cam_req_mgr_req_tbl list \<Rightarrow> int \<Rightarrow> cam_req_mgr_req_tbl option" where
  "find_pd_tbl [] delay = None"
| "find_pd_tbl (t # ts) delay = (if delay \<noteq> tbl_pd t then find_pd_tbl ts delay else Some t)"

fun inject_delay :: "cam_req_mgr_req_tbl list \<Rightarrow> int \<Rightarrow> rc \<Rightarrow> rc \<times> cam_req_mgr_req_tbl list" where
  "inject_delay [] curr_idx rc = (rc, [])"
| "inject_delay (t # ts) curr_idx rc =
     (let slot = tbl_slot t curr_idx;
          (rc1, t1) = (if 0 < ts_inject_delay slot
                       then (- EAGAIN, upd_tslot curr_idx (\<lambda>s. s\<lparr>ts_inject_delay := ts_inject_delay s - 1\<rparr>) t)
                       else (rc, t));
          (rc2, ts2) = inject_delay ts (dec_idx curr_idx (pd_delta t) (tbl_num_slots t)) rc1
      in (rc2, t1 # ts2))"

record cam_req_mgr_traverse_result =
  r_req_id :: int
  r_pd :: int
  r_masked_value :: u32

record cam_req_mgr_traverse =
  t_result :: u32
  t_result_data :: cam_req_mgr_traverse_result
  t_apply_data :: "int \<Rightarrow> cam_req_mgr_apply"

definition SET_SUCCESS_BIT :: "u32 \<Rightarrow> int \<Rightarrow> u32" where
  "SET_SUCCESS_BIT ret pd = ret OR shl1 pd"

definition SET_FAILURE_BIT :: "u32 \<Rightarrow> int \<Rightarrow> u32" where
  "SET_FAILURE_BIT ret pd = ret AND NOT (shl1 pd)"

text \<open>
  \<open>__cam_req_mgr_traverse\<close> on the tables from the current one on. The queue and \<open>validate_only\<close>
  do not change; tables and traverse data are returned updated.
\<close>

definition tbl_passes :: "cam_req_mgr_req_queue \<Rightarrow> cam_req_mgr_req_tbl \<Rightarrow> int \<Rightarrow> bool" where
  "tbl_passes q t idx \<longleftrightarrow> ts_state (tbl_slot t idx) = CRM_REQ_STATE_READY
     \<or> skip_idx (q_slot q idx) = 1 \<or> 0 < skip_traverse t"

definition record_apply ::
    "cam_req_mgr_req_queue \<Rightarrow> int \<Rightarrow> cam_req_mgr_req_tbl \<Rightarrow> cam_req_mgr_traverse
       \<Rightarrow> cam_req_mgr_req_tbl \<times> cam_req_mgr_traverse" where
  "record_apply q idx t td =
     (let pd = tbl_pd t;
          a = (t_apply_data td pd)\<lparr>a_pd := pd, a_req_id := sl_req_id (q_slot q idx), a_idx := idx\<rparr>
      in if 0 < skip_traverse t
         then (t\<lparr>skip_traverse := skip_traverse t - 1\<rparr>,
               td\<lparr>t_apply_data := (t_apply_data td)(pd := a\<lparr>a_req_id := - 1\<rparr>)\<rparr>)
         else (t, td\<lparr>t_apply_data := (t_apply_data td)(pd := a)\<rparr>))"

fun traverse ::
    "bool \<Rightarrow> cam_req_mgr_req_queue \<Rightarrow> cam_req_mgr_req_tbl list \<Rightarrow> int \<Rightarrow> cam_req_mgr_traverse
       \<Rightarrow> rc \<times> cam_req_mgr_req_tbl list \<times> cam_req_mgr_traverse" where
  "traverse validate_only q [] idx td = (- EINVAL, [], td\<lparr>t_result := 0\<rparr>)"
| "traverse validate_only q (t # ts) idx td =
     (if tbl_passes q t idx
      then
        let (rc, ts1, td1) =
              (if ts \<noteq> [] then traverse validate_only q ts (dec_idx idx (pd_delta t) (tbl_num_slots t)) td
               else (0, [], td)) in
        if 0 \<le> rc
        then
          let td2 = td1\<lparr>t_result := SET_SUCCESS_BIT (t_result td1) (tbl_pd t)\<rparr> in
          if \<not> validate_only
          then (let (t1, td3) = record_apply q idx t td2 in (0, t1 # ts1, td3))
          else (0, t # ts1, td2)
        else (rc, t # ts1, td1)
      else
        (- EAGAIN, t # ts,
         td\<lparr>t_result_data := \<lparr>r_req_id = sl_req_id (q_slot q idx), r_pd = tbl_pd t,
              r_masked_value = dev_mask t AND req_ready_map (tbl_slot t idx)\<rparr>,
            t_result := SET_FAILURE_BIT (t_result td) (tbl_pd t)\<rparr>))"

definition in_q_skip_idx :: "int \<Rightarrow> cam_req_mgr_req_queue \<Rightarrow> cam_req_mgr_req_queue" where
  "in_q_skip_idx idx q =
     upd_slot idx (\<lambda>s. s\<lparr>sl_req_id := - 1, skip_idx := 1, sl_status := CRM_SLOT_STATUS_REQ_ADDED\<rparr>) q"

fun tbl_set_id :: "cam_req_mgr_req_tbl list \<Rightarrow> int \<Rightarrow> cam_req_mgr_req_tbl list \<times> int" where
  "tbl_set_id [] n = ([], n)"
| "tbl_set_id (t # ts) n = (let (ts', n') = tbl_set_id ts (n + 1) in (t\<lparr>tbl_id := n\<rparr> # ts', n'))"

definition tbl_set_all_skip_cnt :: "cam_req_mgr_req_tbl list \<Rightarrow> cam_req_mgr_req_tbl list" where
  "tbl_set_all_skip_cnt ts =
     (case ts of [] \<Rightarrow> [] | t # _ \<Rightarrow> map (\<lambda>u. u\<lparr>skip_traverse := tbl_pd t - tbl_pd u\<rparr>) ts)"

text \<open>
  \<open>__cam_req_mgr_add_tbl_to_link\<close>: the list is kept sorted by falling delay. \<open>add_after\<close> is the
  while loop from a table whose delay is not below the new one, and the insertion behind it.
\<close>

fun add_after :: "cam_req_mgr_req_tbl \<Rightarrow> cam_req_mgr_req_tbl list \<Rightarrow> cam_req_mgr_req_tbl \<Rightarrow> cam_req_mgr_req_tbl list" where
  "add_after t [] new_tbl = [t\<lparr>pd_delta := tbl_pd t - tbl_pd new_tbl\<rparr>, new_tbl\<lparr>pd_delta := 0\<rparr>]"
| "add_after t (u # us) new_tbl =
     (if tbl_pd new_tbl < tbl_pd u then t # add_after u us new_tbl
      else t\<lparr>pd_delta := tbl_pd t - tbl_pd new_tbl\<rparr>
           # new_tbl\<lparr>pd_delta := tbl_pd new_tbl - tbl_pd u\<rparr> # u # us)"

fun add_tbl_to_link :: "cam_req_mgr_req_tbl list \<Rightarrow> cam_req_mgr_req_tbl \<Rightarrow> cam_req_mgr_req_tbl list" where
  "add_tbl_to_link [] new_tbl = [new_tbl]"
| "add_tbl_to_link (t # ts) new_tbl =
     (if tbl_pd t < tbl_pd new_tbl then new_tbl\<lparr>pd_delta := tbl_pd new_tbl - tbl_pd t\<rparr> # t # ts
      else add_after t ts new_tbl)"

text \<open>\<open>kzalloc\<close> gives a zeroed table; the caller sets its delay.\<close>

definition create_pd_tbl :: "int \<Rightarrow> cam_req_mgr_req_tbl" where
  "create_pd_tbl delay = \<lparr>tbl_id = 0, tbl_pd = 0, dev_count = 0, dev_mask = 0, skip_traverse = 0,
     pd_delta = 0, tbl_num_slots = MAX_REQ_SLOTS, tbl_slot = (\<lambda>_. zero_tslot)\<rparr>"

section \<open>The input queue\<close>

text \<open>Loops over the slots \<open>0 .. num_slots - 1\<close> assign the same values everywhere.\<close>

definition for_slots :: "int \<Rightarrow> (int \<Rightarrow> 'a \<Rightarrow> 'a) \<Rightarrow> (int \<Rightarrow> 'a) \<Rightarrow> int \<Rightarrow> 'a" where
  "for_slots n f a = (\<lambda>i. if 0 \<le> i \<and> i < n then f i (a i) else a i)"

definition setup_in_q :: "cam_req_mgr_core_link \<Rightarrow> rc \<times> cam_req_mgr_core_link" where
  "setup_in_q l =
     (if in_q l = None then (- EINVAL, l)
      else (0, upd_q (\<lambda>q. q\<lparr>num_slots := MAX_REQ_SLOTS,
              q_slot := for_slots MAX_REQ_SLOTS (\<lambda>i s. s\<lparr>sl_idx := i, sl_req_id := - 1, skip_idx := 0,
                sl_status := CRM_SLOT_STATUS_NO_REQ\<rparr>) (q_slot q),
              wr_idx := 0, rd_idx := 0\<rparr>) l))"

definition reset_in_q :: "cam_req_mgr_core_link \<Rightarrow> rc \<times> cam_req_mgr_core_link" where
  "reset_in_q l =
     (if in_q l = None then (- EINVAL, l)
      else (0, upd_q (\<lambda>q. q\<lparr>q_slot := for_slots (num_slots q) (\<lambda>i s. zero_slot) (q_slot q),
              num_slots := 0, wr_idx := 0, rd_idx := 0\<rparr>) l))"

definition flush_req_slot :: "cam_req_mgr_core_link \<Rightarrow> cam_req_mgr_core_link" where
  "flush_req_slot l =
     (let n = num_slots (qof l) in
      (upd_q (\<lambda>q. q\<lparr>q_slot := for_slots n (\<lambda>i s. s\<lparr>sl_req_id := - 1, skip_idx := 1, recover := 0,
                additional_timeout := 0, sl_sync_mode := CAM_REQ_MGR_SYNC_MODE_NO_SYNC,
                sl_status := CRM_SLOT_STATUS_NO_REQ\<rparr>) (q_slot q),
              wr_idx := 0, rd_idx := 0\<rparr>) l)
        \<lparr>l_tbl := map (\<lambda>t. t\<lparr>tbl_slot := for_slots n (\<lambda>i s. s\<lparr>req_ready_map := 0,
                ts_state := CRM_REQ_STATE_EMPTY\<rparr>) (tbl_slot t)\<rparr>) (l_tbl l)\<rparr>)"

text \<open>
  The status of slot \<open>idx\<close> is read before \<open>idx < 0\<close> is tested; the function returns in that case
  whatever was read.
\<close>

definition reset_req_slot :: "int \<Rightarrow> cam_req_mgr_core_link \<Rightarrow> cam_req_mgr_core_link" where
  "reset_req_slot idx l =
     (let q = qof l in
      if sl_status (q_slot q idx) = CRM_SLOT_STATUS_REQ_ADDED \<or> last_applied_idx q = idx \<or> idx < 0
      then l
      else (upd_q (upd_slot idx (\<lambda>s. s\<lparr>sl_req_id := - 1, skip_idx := 0, recover := 0,
                additional_timeout := 0, sl_sync_mode := CAM_REQ_MGR_SYNC_MODE_NO_SYNC,
                sl_status := CRM_SLOT_STATUS_NO_REQ\<rparr>)) l)
        \<lparr>l_tbl := map (upd_tslot idx (\<lambda>s. s\<lparr>req_ready_map := 0, ts_state := CRM_REQ_STATE_EMPTY\<rparr>))
                    (l_tbl l)\<rparr>)"

text \<open>The search runs backwards from the read index.\<close>

fun find_slot_loop :: "cam_req_mgr_req_queue \<Rightarrow> int \<Rightarrow> nat \<Rightarrow> int \<Rightarrow> int" where
  "find_slot_loop q req 0 idx = - 1"
| "find_slot_loop q req (Suc n) idx =
     (if sl_req_id (q_slot q idx) = req then idx
      else find_slot_loop q req n (dec_idx idx 1 (num_slots q)))"

definition find_slot_for_req :: "cam_req_mgr_req_queue \<Rightarrow> int \<Rightarrow> int" where
  "find_slot_for_req q req = find_slot_loop q req (nat (num_slots q)) (rd_idx q)"

definition validate_crm_wd_timer :: "cam_req_mgr_core_link \<Rightarrow> calls \<Rightarrow> cam_req_mgr_core_link \<times> calls" where
  "validate_crm_wd_timer l tr =
     (let q = qof l;
          next_frame_timeout = additional_timeout (q_slot q
            (dec_idx (rd_idx q) (s32 (usub32 (max_delay l) 1)) (num_slots q)));
          current_frame_timeout = additional_timeout (q_slot q
            (dec_idx (rd_idx q) (s32 (max_delay l)) (num_slots q))) in
      case watchdog l of
        None \<Rightarrow> (l, tr)
      | Some w \<Rightarrow>
          let modify = (\<lambda>e. let (w', tr') = crm_timer_modify (watchdog l) e tr in (l\<lparr>watchdog := w'\<rparr>, tr')) in
          if expires w < next_frame_timeout + CAM_REQ_MGR_WATCHDOG_TIMEOUT
          then modify (next_frame_timeout + CAM_REQ_MGR_WATCHDOG_TIMEOUT)
          else if current_frame_timeout \<noteq> 0
          then modify (current_frame_timeout + CAM_REQ_MGR_WATCHDOG_TIMEOUT)
          else if CAM_REQ_MGR_WATCHDOG_TIMEOUT < expires w then modify CAM_REQ_MGR_WATCHDOG_TIMEOUT
          else (l, tr))"

definition check_for_lower_pd_devices :: "cam_req_mgr_core_link \<Rightarrow> rc" where
  "check_for_lower_pd_devices l =
     (if \<exists>d \<in> set (take (num_devs l) (l_dev l)). p_delay d < max_delay l then 0 else - EAGAIN)"

definition check_next_req_slot :: "cam_req_mgr_core_link \<Rightarrow> rc \<times> cam_req_mgr_core_link" where
  "check_next_req_slot l =
     (let q = qof l; idx = inc_idx (rd_idx q) 1 (num_slots q) in
      if sl_status (q_slot q idx) = CRM_SLOT_STATUS_NO_REQ
      then
        let rc = check_for_lower_pd_devices l in
        if rc \<noteq> 0 then (rc, l)
        else (rc, upd_q (\<lambda>q. (in_q_skip_idx idx q)\<lparr>wr_idx := inc_idx (wr_idx q) 1 (num_slots q)\<rparr>) l)
      else (0, l))"

section \<open>Delivery of a request to the devices\<close>

definition set_tslot ::
    "cam_req_mgr_connected_device \<Rightarrow> int \<Rightarrow> (cam_req_mgr_tbl_slot \<Rightarrow> cam_req_mgr_tbl_slot)
       \<Rightarrow> cam_req_mgr_core_link \<Rightarrow> cam_req_mgr_core_link" where
  "set_tslot d idx f l = l\<lparr>l_tbl := upd_tbl (the (pd_tbl d)) (upd_tslot idx f) (l_tbl l)\<rparr>"

definition can_apply :: "cam_req_mgr_connected_device \<Rightarrow> bool" where
  "can_apply d \<longleftrightarrow> (case ops d of None \<Rightarrow> False | Some k \<Rightarrow> has_apply_req k)"

definition can_evt :: "cam_req_mgr_connected_device \<Rightarrow> bool" where
  "can_evt d \<longleftrightarrow> (case ops d of None \<Rightarrow> False | Some k \<Rightarrow> has_process_evt k)"

text \<open>
  The first loop of \<open>__cam_req_mgr_send_req\<close>: a device that asked to be served alone. \<open>None\<close> when
  the loop ends without a return; else the code, the link, the calls and the failed device.
\<close>

fun send_alone_loop ::
    "crm_env \<Rightarrow> u32 \<Rightarrow> cam_req_mgr_connected_device list \<Rightarrow> cam_req_mgr_core_link \<Rightarrow> calls
       \<Rightarrow> (rc \<times> cam_req_mgr_core_link \<times> calls \<times> cam_req_mgr_connected_device option) option" where
  "send_alone_loop env trigger [] l tr = None"
| "send_alone_loop env trigger (d # ds) l tr =
     (let pd = s32 (p_delay d) in
      if CAM_PIPELINE_DELAY_MAX \<le> pd then send_alone_loop env trigger ds l tr
      else
        let idx = a_idx (apply_data l pd); slot = tbl_slot (tbl_of l d) idx in
        if \<not> skip_next_frame slot \<or> ts_dev_hdl slot \<noteq> dev_hdl d then send_alone_loop env trigger ds l tr
        else if dev_trigger_mask d AND trigger = 0 then send_alone_loop env trigger ds l tr
        else if can_apply d
        then
          let (rc, tr1) = do_call env (Apply_req \<lparr>ap_link_hdl = link_hdl l, ap_dev_hdl = dev_hdl d,
                ap_request_id = u64_of (a_req_id (apply_data l pd)), ap_report_if_bubble = 0,
                ap_trigger_point = trigger\<rparr>) tr in
          if rc \<noteq> 0 then Some (rc, l, tr1, Some d)
          else Some (- EAGAIN, set_tslot d idx (\<lambda>s. s\<lparr>skip_next_frame := False, is_applied := True\<rparr>) l, tr1, None)
        else send_alone_loop env trigger ds l tr)"

text \<open>
  The second loop, over all devices. \<open>seen\<close> are the devices before the current one, last first;
  the result is the last code, the link, the calls, the failed device, and for a failure the
  devices up to the failed one, last first, with the request id in \<open>apply_req\<close>.
\<close>

fun send_all_loop ::
    "crm_env \<Rightarrow> u32 \<Rightarrow> cam_req_mgr_connected_device list \<Rightarrow> cam_req_mgr_connected_device list \<Rightarrow> rc
       \<Rightarrow> cam_req_mgr_core_link \<Rightarrow> calls
       \<Rightarrow> rc \<times> cam_req_mgr_core_link \<times> calls \<times> cam_req_mgr_connected_device option
          \<times> cam_req_mgr_connected_device list \<times> u64" where
  "send_all_loop env trigger [] seen rc l tr = (rc, l, tr, None, [], 0)"
| "send_all_loop env trigger (d # ds) seen rc l tr =
     (let pd = s32 (p_delay d); a = apply_data l pd in
      if CAM_PIPELINE_DELAY_MAX \<le> pd then send_all_loop env trigger ds (d # seen) rc l tr
      else if a_skip_idx a \<noteq> 0 \<or> a_req_id a < 0 then send_all_loop env trigger ds (d # seen) rc l tr
      else if dev_trigger_mask d AND trigger = 0 then send_all_loop env trigger ds (d # seen) rc l tr
      else
        let idx = a_idx a; slot = tbl_slot (tbl_of l d) idx in
        if ts_dev_hdl slot = dev_hdl d \<and> is_applied slot
        then send_all_loop env trigger ds (d # seen) rc (set_tslot d idx (\<lambda>s. s\<lparr>is_applied := False\<rparr>) l) tr
        else if can_apply d
        then
          let (rc1, tr1) = do_call env (Apply_req \<lparr>ap_link_hdl = link_hdl l, ap_dev_hdl = dev_hdl d,
                ap_request_id = u64_of (a_req_id a),
                ap_report_if_bubble = recover (q_slot (qof l) idx), ap_trigger_point = trigger\<rparr>) tr in
          if rc1 < 0 then (rc1, l, tr1, Some d, d # seen, u64_of (a_req_id a))
          else send_all_loop env trigger ds (d # seen) rc1 l tr1
        else send_all_loop env trigger ds (d # seen) rc l tr)"

text \<open>The devices that already got the request are told about the bubble.\<close>

fun bubble_events :: "crm_env \<Rightarrow> int \<Rightarrow> u64 \<Rightarrow> cam_req_mgr_connected_device list \<Rightarrow> calls \<Rightarrow> calls" where
  "bubble_events env lhdl req [] tr = tr"
| "bubble_events env lhdl req (d # ds) tr =
     bubble_events env lhdl req ds
       (if can_evt d
        then snd (do_call env (Process_evt \<lparr>ev_link_hdl = lhdl, ev_dev_hdl = dev_hdl d, ev_req_id = req,
               ev_evt_type = CAM_REQ_MGR_LINK_EVT_ERR, ev_error = Some CRM_KMD_ERR_BUBBLE\<rparr>) tr)
        else tr)"

definition send_req ::
    "crm_env \<Rightarrow> u32 \<Rightarrow> cam_req_mgr_core_link \<Rightarrow> calls
       \<Rightarrow> rc \<times> cam_req_mgr_core_link \<times> calls \<times> cam_req_mgr_connected_device option" where
  "send_req env trigger l tr =
     (let devs = take (num_devs l) (l_dev l) in
      case send_alone_loop env trigger devs l tr of
        Some r \<Rightarrow> r
      | None \<Rightarrow>
          let (rc, l1, tr1, failed, told, req) = send_all_loop env trigger devs [] 0 l tr in
          if rc < 0 then (rc, l1, bubble_events env (link_hdl l) req told tr1, failed)
          else (rc, l1, tr1, failed))"

definition check_link_is_ready ::
    "int \<Rightarrow> bool \<Rightarrow> cam_req_mgr_core_link \<Rightarrow> rc \<times> cam_req_mgr_core_link" where
  "check_link_is_ready idx validate_only l =
     (let l0 = (if \<not> validate_only
                then l\<lparr>apply_data := for_slots CAM_PIPELINE_DELAY_MAX (\<lambda>i a. zero_apply) (apply_data l)\<rparr>
                else l);
          l1 = (if initial_skip l0 then l0\<lparr>initial_skip := False\<rparr> else l0);
          (rc, ts, td) = traverse validate_only (qof l1) (l_tbl l1) idx
             \<lparr>t_result = 0, t_result_data = \<lparr>r_req_id = 0, r_pd = 0, r_masked_value = 0\<rparr>,
              t_apply_data = apply_data l1\<rparr>;
          l2 = l1\<lparr>l_tbl := ts, apply_data := t_apply_data td\<rparr>
      in if rc = 0 \<and> t_result td = pd_mask l then (rc, l2) else (- EAGAIN, l2))"

definition cam_req_mgr_core_link_reset :: "cam_req_mgr_core_link \<Rightarrow> cam_req_mgr_core_link" where
  "cam_req_mgr_core_link_reset l =
     l\<lparr>link_hdl := 0, num_devs := 0, max_delay := 0, pd_mask := 0, l_dev := [], in_q := None,
       l_tbl := [], num_tbl := 0, watchdog := None, link_state := CAM_CRM_LINK_STATE_AVAILABLE,
       parent := 0, subscribe_event := 0, trigger_mask := 0, sync_link := None,
       sync_link_sof_skip := False, open_req_cnt := 0, last_flush_id := 0, initial_sync_req := - 1,
       in_msync_mode := False, retry_cnt := 0, is_shutdown := False, initial_skip := True,
       sof_timestamp := 0, prev_sof_timestamp := 0\<rparr>"

end
