(* ===== verification/Cam_Crm_Link.thy ===== *)
theory Cam_Crm_Link
  imports Cam_Crm Cam_Hdl
begin

text \<open>
  The request manager as a whole: the array of links \<open>g_links\<close>, the sessions, and the handlers of
  \<open>cam_req_mgr_core.c\<close> that run on the work queue of a link (schedule, add, trigger, error, flush,
  stop), including the synchronisation of two links.
\<close>

section \<open>State\<close>

record cam_req_mgr_core_session =
  ses_session_hdl :: int
  num_links :: nat
  ses_links :: "nat \<Rightarrow> nat option"
  force_err_recovery :: int
  ses_sync_mode :: int

record crm =
  g_links :: "nat \<Rightarrow> cam_req_mgr_core_link"
  sessions :: "ptr \<Rightarrow> cam_req_mgr_core_session option"
  session_head :: "ptr list"
  crm_calls :: calls
  crm_hdl_tbl :: hdl_global

definition upd_link :: "nat \<Rightarrow> (cam_req_mgr_core_link \<Rightarrow> cam_req_mgr_core_link) \<Rightarrow> crm \<Rightarrow> crm" where
  "upd_link i f c = c\<lparr>g_links := (g_links c)(i := f (g_links c i))\<rparr>"

text \<open>Run a function of one link that returns a code.\<close>

definition on_link :: "nat \<Rightarrow> (cam_req_mgr_core_link \<Rightarrow> rc \<times> cam_req_mgr_core_link) \<Rightarrow> crm \<Rightarrow> rc \<times> crm" where
  "on_link i f c = (let (rc, l) = f (g_links c i) in (rc, upd_link i (\<lambda>_. l) c))"

definition emit :: "crm_env \<Rightarrow> crm_call \<Rightarrow> crm \<Rightarrow> rc \<times> crm" where
  "emit env x c = (let (rc, tr) = do_call env x (crm_calls c) in (rc, c\<lparr>crm_calls := tr\<rparr>))"

record cam_req_mgr_trigger_notify =
  tn_link_hdl :: int
  tn_dev_hdl :: int
  tn_frame_id :: int
  tn_trigger :: u32
  tn_sof_timestamp_val :: u64
  tn_req_id :: u64

record cam_req_mgr_error_notify =
  en_link_hdl :: int
  en_dev_hdl :: int
  en_req_id :: u64
  en_frame_id :: int
  en_trigger :: u32
  en_sof_timestamp_val :: u64
  en_error :: cam_req_mgr_device_error

record cam_req_mgr_add_request =
  ar_link_hdl :: int
  ar_dev_hdl :: int
  ar_req_id :: u64
  skip_before_applying :: u32

record cam_req_mgr_flush_info =
  fi_session_hdl :: int
  fi_link_hdl :: int
  fi_flush_type :: u32
  fi_req_id :: int

record cam_req_mgr_sched_request =
  sr_session_hdl :: int
  sr_link_hdl :: int
  sr_bubble_enable :: int
  sr_sync_mode :: int
  sr_additional_timeout :: int
  sr_req_id :: int

abbreviation CAM_REQ_MGR_FLUSH_TYPE_ALL :: u32 where "CAM_REQ_MGR_FLUSH_TYPE_ALL \<equiv> 0"
abbreviation CAM_REQ_MGR_FLUSH_TYPE_CANCEL_REQ :: u32 where "CAM_REQ_MGR_FLUSH_TYPE_CANCEL_REQ \<equiv> 1"
abbreviation CAM_REQ_MGR_FLUSH_TYPE_MAX :: u32 where "CAM_REQ_MGR_FLUSH_TYPE_MAX \<equiv> 2"
abbreviation EBADSLT :: rc where "EBADSLT \<equiv> 57"

section \<open>Synchronised links\<close>

definition link_inject_delay :: "int \<Rightarrow> cam_req_mgr_core_link \<Rightarrow> rc \<times> cam_req_mgr_core_link" where
  "link_inject_delay idx l = (let (rc, ts) = inject_delay (l_tbl l) idx 0 in (rc, l\<lparr>l_tbl := ts\<rparr>))"

definition sof_skip :: "nat \<Rightarrow> crm \<Rightarrow> crm" where
  "sof_skip i = upd_link i (\<lambda>l. l\<lparr>sync_link_sof_skip := True\<rparr>)"

text \<open>A request of the peer that is neither applied nor next to be applied.\<close>

definition not_next :: "cam_req_mgr_req_queue \<Rightarrow> int \<Rightarrow> bool" where
  "not_next q idx \<longleftrightarrow> sl_status (q_slot q idx) \<noteq> CRM_SLOT_STATUS_REQ_APPLIED
     \<and> 1 \<le> (idx - rd_idx q + num_slots q) smod num_slots q
     \<and> sl_status (q_slot q (rd_idx q)) \<noteq> CRM_SLOT_STATUS_REQ_APPLIED"

text \<open>
  The part of the master-slave check that looks at the peer \<open>j\<close> of link \<open>i\<close>, the same in both
  branches of the code: \<open>Inl\<close> when the function returns here.
\<close>

definition mslave_peer :: "nat \<Rightarrow> nat \<Rightarrow> int \<Rightarrow> crm \<Rightarrow> (rc \<times> crm) + crm" where
  "mslave_peer i j sync_req_id c =
     (let p = g_links c j in
      if initial_sync_req p \<noteq> - 1 \<and> initial_sync_req p \<le> sync_req_id
      then
        let sync_slot_idx = find_slot_for_req (qof p) sync_req_id in
        if sync_slot_idx = - 1 then Inl (- EINVAL, sof_skip i c)
        else if not_next (qof p) sync_slot_idx then Inl (- EINVAL, c)
        else
          let (rc, c1) = on_link j (check_link_is_ready sync_slot_idx True) c in
          if rc \<noteq> 0 \<and> sl_status (q_slot (qof (g_links c1 j)) sync_slot_idx) \<noteq> CRM_SLOT_STATUS_REQ_APPLIED
          then Inl (rc, sof_skip i c1)
          else Inr c1
      else Inr c)"

text \<open>\<open>s\<close> is the position of the slot the code has a pointer to.\<close>

definition check_sync_for_mslave :: "nat \<Rightarrow> int \<Rightarrow> crm \<Rightarrow> rc \<times> crm" where
  "check_sync_for_mslave i s c =
     (case sync_link (g_links c i) of
        None \<Rightarrow> (- EINVAL, c)
      | Some j \<Rightarrow>
          let l = g_links c i; p = g_links c j;
              slot = q_slot (qof l) s; sidx = sl_idx slot; req_id = sl_req_id slot in
          if sync_link_sof_skip p
          then (- EAGAIN, snd (on_link i (link_inject_delay sidx)
                  (upd_link j (\<lambda>l. l\<lparr>sync_link_sof_skip := False\<rparr>) c)))
          else if in_msync_mode l \<and> in_msync_mode p
                  \<and> usub32 (max_delay l) (max_delay p) < req_id - sl_req_id (q_slot (qof p) (rd_idx (qof p)))
          then (- EINVAL, c)
          else
            let slave = \<not> is_master l;
                c0 = (if slave \<and> initial_skip l then upd_link i (\<lambda>l. l\<lparr>initial_skip := False\<rparr>) c else c);
                (rc1, c1) = on_link i (link_inject_delay sidx) c0 in
            if rc1 \<noteq> 0 then (rc1, sof_skip i c1)
            else if \<not> slave \<and> initial_skip (g_links c1 j) then (- EAGAIN, c1)
            else
              let (rc2, c2) = on_link i (check_link_is_ready sidx True) c1 in
              if rc2 \<noteq> 0 then (rc2, sof_skip i c2)
              else
                let q = qof (g_links c2 i);
                    at = (if slave
                          then inc_idx (rd_idx q) (s32 (usub32 (max_delay p) (max_delay l))) (num_slots q)
                          else dec_idx sidx (s32 (usub32 (max_delay l) (max_delay p))) (num_slots q)) in
                case mslave_peer i j (sl_req_id (q_slot q at)) c2 of
                  Inl r \<Rightarrow> r
                | Inr c3 \<Rightarrow> (0, snd (on_link i (check_link_is_ready sidx False) c3)))"

text \<open>The frame duration of the peer, and the distance of two time stamps.\<close>

definition frame_duration :: "cam_req_mgr_core_link \<Rightarrow> u64" where
  "frame_duration p =
     (if prev_sof_timestamp p \<noteq> 0 then sof_timestamp p - prev_sof_timestamp p else DEFAULT_FRAME_DURATION)"

definition ts_delta :: "u64 \<Rightarrow> u64 \<Rightarrow> u64" where
  "ts_delta x y = (if y \<le> x then x - y else y - x)"

text \<open>The end of \<open>__cam_req_mgr_check_sync_req_is_ready\<close>, after both links were checked.\<close>

definition sync_self_correct :: "nat \<Rightarrow> nat \<Rightarrow> int \<Rightarrow> int \<Rightarrow> int \<Rightarrow> crm \<Rightarrow> rc \<times> crm" where
  "sync_self_correct i j sidx req_id sync_slot_idx c =
     (let l = g_links c i; p = g_links c j; rd = q_slot (qof p) (rd_idx (qof p));
          apply = (\<lambda>c. (0, snd (on_link i (check_link_is_ready sidx False) c))) in
      if 0 < sof_timestamp p \<and> ts_delta (sof_timestamp l) (sof_timestamp p) < frame_duration p div 5
         \<and> sl_sync_mode rd = CAM_REQ_MGR_SYNC_MODE_SYNC
      then if sl_req_id rd < req_id then (- EAGAIN, c)
           else if req_id < sl_req_id rd then apply (sof_skip i c)
           else if sl_status (q_slot (qof p) sync_slot_idx) \<noteq> CRM_SLOT_STATUS_REQ_APPLIED then (- EAGAIN, c)
           else apply c
      else apply c)"

definition check_sync_req_is_ready :: "nat \<Rightarrow> int \<Rightarrow> crm \<Rightarrow> rc \<times> crm" where
  "check_sync_req_is_ready i s c =
     (case sync_link (g_links c i) of
        None \<Rightarrow> (- EINVAL, c)
      | Some j \<Rightarrow>
          let slot = q_slot (qof (g_links c i)) s; sidx = sl_idx slot; req_id = sl_req_id slot;
              delay = (\<lambda>c. snd (on_link i (link_inject_delay sidx) c));
              no_skip = upd_link i (\<lambda>l. l\<lparr>initial_skip := False\<rparr>) in
          if initial_skip (g_links c j) then (- EAGAIN, delay (no_skip c))
          else
            let l = g_links c i; p = g_links c j; first = initial_skip l;
                c0 = (if first then no_skip c else c) in
            if first \<and> (sof_timestamp p < sof_timestamp l \<and> 0 < sof_timestamp p
                          \<and> sof_timestamp l - sof_timestamp p < frame_duration p div 2
                        \<or> sof_timestamp l \<le> sof_timestamp p)
            then (- EAGAIN, delay c0)
            else if sync_link_sof_skip (g_links c0 j)
            then (- EAGAIN, delay (upd_link j (\<lambda>l. l\<lparr>sync_link_sof_skip := False\<rparr>) c0))
            else
              let (rc1, c1) = on_link i (link_inject_delay sidx) c0;
                  sync_slot_idx = find_slot_for_req (qof (g_links c1 j)) req_id in
              if sync_slot_idx = - 1 then (- EAGAIN, c1)
              else if not_next (qof (g_links c1 j)) sync_slot_idx then (- EAGAIN, c1)
              else
                let (rc2, c2) = on_link i (check_link_is_ready sidx True) c1;
                    (rc3, c3) = on_link j (check_link_is_ready sync_slot_idx True) c2;
                    ready = (rc1 = 0 \<and> rc2 = 0);
                    sync_ready = \<not> (rc3 \<noteq> 0 \<and> sl_status (q_slot (qof (g_links c3 j)) sync_slot_idx)
                                    \<noteq> CRM_SLOT_STATUS_REQ_APPLIED) in
                if sync_ready \<noteq> ready
                then (- EINVAL,
                      if frame_duration p div 2 < sof_timestamp l - sof_timestamp p then sof_skip i c3 else c3)
                else if \<not> ready then (- EINVAL, c3)
                else sync_self_correct i j sidx req_id sync_slot_idx c3)"

section \<open>Processing the request at the read index\<close>

definition set_status :: "nat \<Rightarrow> int \<Rightarrow> crm_slot_status \<Rightarrow> crm \<Rightarrow> crm" where
  "set_status i s st = upd_link i (upd_q (upd_slot s (\<lambda>x. x\<lparr>sl_status := st\<rparr>)))"

text \<open>
  \<open>__cam_req_mgr_notify_error_on_link\<close>. \<open>None\<close> is the pointer that was never assigned.
\<close>

definition notify_error_on_link ::
    "crm_env \<Rightarrow> nat \<Rightarrow> cam_req_mgr_connected_device option \<Rightarrow> crm \<Rightarrow> rc \<times> crm" where
  "notify_error_on_link env i dev c =
     (case dev of
        None \<Rightarrow> emit env Uninit_device c
      | Some d \<Rightarrow>
          let l = g_links c i; pd = s32 (p_delay d) in
          if CAM_PIPELINE_DELAY_MAX \<le> pd then (- EINVAL, c)
          else emit env (Notify_message (ses_session_hdl (the (sessions c (parent l))))
                 CAM_REQ_MGR_ERROR_TYPE_RECOVERY (a_req_id (apply_data l pd)) (link_hdl l)) c)"

text \<open>The SOF part of \<open>__cam_req_mgr_process_req\<close>: \<open>Inl\<close> when it ends the function.\<close>

definition no_sync_check :: "nat \<Rightarrow> int \<Rightarrow> crm \<Rightarrow> rc \<times> crm" where
  "no_sync_check i s c =
     (let l = g_links c i; sidx = sl_idx (q_slot (qof l) s);
          c1 = (if in_msync_mode l
                then
                  let c' = upd_link i (\<lambda>l. l\<lparr>in_msync_mode := False, initial_sync_req := - 1\<rparr>) c in
                  case sync_link l of
                    None \<Rightarrow> c'
                  | Some j \<Rightarrow> upd_link j (\<lambda>l. l\<lparr>initial_sync_req := - 1, in_msync_mode := False\<rparr>) c'
                else c);
          (rc, c2) = on_link i (link_inject_delay sidx) c1
      in if rc = 0 then on_link i (check_link_is_ready sidx False) c2 else (rc, c2))"

definition process_sof :: "nat \<Rightarrow> int \<Rightarrow> cam_req_mgr_trigger_notify \<Rightarrow> crm \<Rightarrow> (rc \<times> crm) + crm" where
  "process_sof i s trig c =
     (let c1 = upd_link i (\<lambda>l. l\<lparr>prev_sof_timestamp := sof_timestamp l,
                 sof_timestamp := tn_sof_timestamp_val trig\<rparr>) c;
          l = g_links c1 i in
      if trigger_mask l \<noteq> 0 then Inl (- EINVAL, c1)
      else
        let (rc, c2) =
              (if sl_sync_mode (q_slot (qof l) s) = CAM_REQ_MGR_SYNC_MODE_SYNC \<and> sync_link l \<noteq> None
               then if is_master l \<or> is_master (g_links c1 (the (sync_link l)))
                    then check_sync_for_mslave i s
                           (if \<not> in_msync_mode l then upd_link i (\<lambda>l. l\<lparr>in_msync_mode := True\<rparr>) c1 else c1)
                    else check_sync_req_is_ready i s c1
               else no_sync_check i s c1) in
        if rc < 0
        then Inl (if link_state (g_links c2 i) = CAM_CRM_LINK_STATE_ERR then - EPERM else rc,
                  set_status i s CRM_SLOT_STATUS_REQ_PENDING c2)
        else Inr c2)"

text \<open>The bookkeeping after a request went out on every trigger the devices asked for.\<close>

definition request_applied :: "nat \<Rightarrow> int \<Rightarrow> crm \<Rightarrow> crm" where
  "request_applied i s c =
     (let c1 = upd_link i (\<lambda>l. l\<lparr>trigger_mask := 0\<rparr>) (set_status i s CRM_SLOT_STATUS_REQ_APPLIED c);
          l = g_links c1 i; q = qof l; idx = rd_idx q;
          reset_step = (case sync_link l of
             None \<Rightarrow> s32 (max_delay l)
           | Some j \<Rightarrow> if in_msync_mode l \<and> is_master (g_links c1 j) then s32 (max_delay (g_links c1 j))
                      else s32 (max_delay l));
          c2 = (if 0 < sl_req_id (q_slot q s)
                then upd_link i (upd_q (\<lambda>q. q\<lparr>last_applied_idx := idx\<rparr>)) c1 else c1);
          c3 = upd_link i (reset_req_slot (dec_idx idx (reset_step + 1) (num_slots q))) c2
      in upd_link i (\<lambda>l. l\<lparr>open_req_cnt := open_req_cnt l - 1\<rparr>) c3)"

text \<open>The rest of \<open>__cam_req_mgr_process_req\<close>, from the call of \<open>__cam_req_mgr_send_req\<close> on.\<close>

definition process_apply :: "crm_env \<Rightarrow> nat \<Rightarrow> int \<Rightarrow> u32 \<Rightarrow> crm \<Rightarrow> rc \<times> crm" where
  "process_apply env i s trigger c =
     (let (rc, l1, tr1, dev) = send_req env trigger (g_links c i) (crm_calls c);
          c2 = (upd_link i (\<lambda>_. l1) c)\<lparr>crm_calls := tr1\<rparr> in
      if rc < 0
      then
        let c3 = upd_link i (\<lambda>l. l\<lparr>retry_cnt := retry_cnt l + 1\<rparr>)
                   (set_status i s CRM_SLOT_STATUS_REQ_PENDING c2) in
        if retry_cnt (g_links c3 i) = MAXIMUM_RETRY_ATTEMPTS
        then (rc, upd_link i (\<lambda>l. l\<lparr>retry_cnt := 0\<rparr>) (snd (notify_error_on_link env i dev c3)))
        else (rc, c3)
      else
        let l2 = l1\<lparr>retry_cnt := 0, trigger_mask := trigger_mask l1 OR trigger\<rparr>;
            (l3, tr3) = validate_crm_wd_timer l2 tr1;
            l4 = l3\<lparr>link_state := (if link_state l3 = CAM_CRM_LINK_STATE_ERR
                                   then CAM_CRM_LINK_STATE_READY else link_state l3),
                    sync_link_sof_skip := False\<rparr>;
            c4 = (upd_link i (\<lambda>_. l4) c2)\<lparr>crm_calls := tr3\<rparr> in
        (rc, if trigger_mask l4 = subscribe_event l4 then request_applied i s c4 else c4))"

definition process_req :: "crm_env \<Rightarrow> nat \<Rightarrow> cam_req_mgr_trigger_notify \<Rightarrow> crm \<Rightarrow> rc \<times> crm" where
  "process_req env i trig c =
     (let l = g_links c i; s = rd_idx (qof l); trigger = tn_trigger trig in
      if sl_status (q_slot (qof l) s) = CRM_SLOT_STATUS_NO_REQ then (0, c)
      else if trigger \<noteq> CAM_TRIGGER_POINT_SOF \<and> trigger \<noteq> CAM_TRIGGER_POINT_EOF then (0, c)
      else if trigger = CAM_TRIGGER_POINT_EOF \<and> trigger_mask l AND CAM_TRIGGER_POINT_SOF = 0 then (- EINVAL, c)
      else
        case (if trigger = CAM_TRIGGER_POINT_SOF then process_sof i s trig c else Inr c) of
          Inl r \<Rightarrow> r
        | Inr c1 \<Rightarrow> process_apply env i s trigger c1)"

section \<open>Handlers on the work queue of a link\<close>

definition process_send_req :: "crm_env \<Rightarrow> nat \<Rightarrow> crm \<Rightarrow> rc \<times> crm" where
  "process_send_req env i c =
     (let (rc, l1, tr1, dev) = send_req env CAM_TRIGGER_POINT_SOF (g_links c i) (crm_calls c)
      in (rc, (upd_link i (\<lambda>_. l1) c)\<lparr>crm_calls := tr1\<rparr>))"

fun flush_devices ::
    "crm_env \<Rightarrow> cam_req_mgr_flush_info \<Rightarrow> cam_req_mgr_connected_device list \<Rightarrow> rc \<Rightarrow> crm \<Rightarrow> rc \<times> crm" where
  "flush_devices env fi [] rc c = (rc, c)"
| "flush_devices env fi (d # ds) rc c =
     (let (rc1, c1) = (if (case ops d of None \<Rightarrow> False | Some k \<Rightarrow> has_flush_req k)
            then emit env (Flush_req \<lparr>fr_link_hdl = fi_link_hdl fi, fr_dev_hdl = dev_hdl d,
                   fr_type = fi_flush_type fi, fr_req_id = u64_of (fi_req_id fi)\<rparr>) c
            else (rc, c))
      in flush_devices env fi ds rc1 c1)"

text \<open>A request that is pending or applied cannot be cancelled: the handler ends early.\<close>

definition cam_req_mgr_process_flush_req :: "crm_env \<Rightarrow> nat \<Rightarrow> cam_req_mgr_flush_info \<Rightarrow> crm \<Rightarrow> rc \<times> crm" where
  "cam_req_mgr_process_flush_req env i fi c =
     (let finish = (\<lambda>c. let (rc, c1) = flush_devices env fi (take (num_devs (g_links c i)) (l_dev (g_links c i))) 0 c
                        in (rc, snd (emit env Complete_workq c1))) in
      if fi_flush_type fi = CAM_REQ_MGR_FLUSH_TYPE_ALL
      then finish (upd_link i (\<lambda>l. flush_req_slot (l\<lparr>last_flush_id := of_int (fi_req_id fi)\<rparr>)) c)
      else if fi_flush_type fi = CAM_REQ_MGR_FLUSH_TYPE_CANCEL_REQ
      then
        let q = qof (g_links c i); idx = find_slot_for_req q (fi_req_id fi) in
        if idx < 0 then finish c
        else if sl_status (q_slot q idx) = CRM_SLOT_STATUS_REQ_PENDING
              \<or> sl_status (q_slot q idx) = CRM_SLOT_STATUS_REQ_APPLIED
        then (- EINVAL, c)
        else finish (upd_link i (upd_q (\<lambda>q. in_q_skip_idx idx
               (upd_slot idx (\<lambda>s. s\<lparr>additional_timeout := 0\<rparr>) q))) c)
      else finish c)"

definition clamp_timeout :: "int \<Rightarrow> int" where
  "clamp_timeout t = (if t < 0 then 0
     else if CAM_REQ_MGR_WATCHDOG_TIMEOUT_MAX < t then CAM_REQ_MGR_WATCHDOG_TIMEOUT_MAX else t)"

definition cam_req_mgr_process_sched_req :: "nat \<Rightarrow> cam_req_mgr_sched_request \<Rightarrow> crm \<Rightarrow> rc \<times> crm" where
  "cam_req_mgr_process_sched_req i sr c =
     (let w = wr_idx (qof (g_links c i));
          c1 = upd_link i (upd_q (upd_slot w (\<lambda>s. s\<lparr>sl_status := CRM_SLOT_STATUS_REQ_ADDED,
                 sl_req_id := sr_req_id sr, sl_sync_mode := sr_sync_mode sr, skip_idx := 0,
                 recover := sr_bubble_enable sr,
                 additional_timeout := clamp_timeout (sr_additional_timeout sr)\<rparr>))) c;
          c2 = upd_link i (\<lambda>l. upd_q (\<lambda>q. q\<lparr>wr_idx := inc_idx (wr_idx q) 1 (num_slots q)\<rparr>)
                 (l\<lparr>open_req_cnt := open_req_cnt l + 1\<rparr>)) c1
      in (0, if sr_sync_mode sr = CAM_REQ_MGR_SYNC_MODE_SYNC
             then upd_link i (\<lambda>l. if initial_sync_req l = - 1 then l\<lparr>initial_sync_req := sr_req_id sr\<rparr> else l) c2
             else
               let c3 = upd_link i (\<lambda>l. l\<lparr>initial_sync_req := - 1\<rparr>) c2 in
               case sync_link (g_links c3 i) of
                 None \<Rightarrow> c3
               | Some j \<Rightarrow> upd_link j (\<lambda>l. l\<lparr>initial_sync_req := - 1\<rparr>) c3))"

text \<open>What an added request does to the table slot of its device.\<close>

definition add_to_slot :: "cam_req_mgr_add_request \<Rightarrow> int \<Rightarrow> u32 \<Rightarrow> cam_req_mgr_tbl_slot \<Rightarrow> cam_req_mgr_tbl_slot" where
  "add_to_slot ar dbit devmask s =
     (let s1 = s\<lparr>is_applied := False\<rparr>;
          d = skip_before_applying ar AND 0xFF;
          s2 = (if ts_inject_delay s1 < d
                then s1\<lparr>ts_inject_delay := d, ts_dev_hdl := ar_dev_hdl ar,
                        skip_next_frame := (skip_before_applying ar AND SKIP_NEXT_FRAME \<noteq> 0 \<or> skip_next_frame s1)\<rparr>
                else s1);
          rmap = req_ready_map s2 OR shl1 dbit
      in s2\<lparr>ts_state := (if rmap = devmask then CRM_REQ_STATE_READY else CRM_REQ_STATE_PENDING),
            req_ready_map := rmap\<rparr>)"

definition cam_req_mgr_process_add_req :: "nat \<Rightarrow> cam_req_mgr_add_request \<Rightarrow> crm \<Rightarrow> rc \<times> crm" where
  "cam_req_mgr_process_add_req i ar c =
     (let l = g_links c i in
      case find (\<lambda>d. dev_hdl d = ar_dev_hdl ar) (take (num_devs l) (l_dev l)) of
        None \<Rightarrow> (- EINVAL, c)
      | Some d \<Rightarrow>
          if pd_tbl d = None then (- EINVAL, c)
          else
            let idx = find_slot_for_req (qof l) (s64 (ar_req_id ar)) in
            if idx < 0 then (- EBADSLT, c)
            else (0, upd_link i (set_tslot d idx (add_to_slot ar (dev_bit d) (dev_mask (tbl_of l d)))) c))"

definition apply_on_bubble :: "crm_env \<Rightarrow> nat \<Rightarrow> cam_req_mgr_error_notify \<Rightarrow> crm \<Rightarrow> crm" where
  "apply_on_bubble env i e c =
     snd (process_req env i \<lparr>tn_link_hdl = en_link_hdl e, tn_dev_hdl = en_dev_hdl e,
       tn_frame_id = en_frame_id e, tn_trigger = en_trigger e,
       tn_sof_timestamp_val = en_sof_timestamp_val e, tn_req_id = 0\<rparr> c)"

fun error_events ::
    "crm_env \<Rightarrow> cam_req_mgr_error_notify \<Rightarrow> int \<Rightarrow> cam_req_mgr_connected_device list \<Rightarrow> rc \<Rightarrow> crm \<Rightarrow> rc \<times> crm" where
  "error_events env e lhdl [] rc c = (rc, c)"
| "error_events env e lhdl (d # ds) rc c =
     (let (rc1, c1) = (if can_evt d
            then emit env (Process_evt \<lparr>ev_link_hdl = lhdl, ev_dev_hdl = dev_hdl d, ev_req_id = en_req_id e,
                   ev_evt_type = CAM_REQ_MGR_LINK_EVT_ERR, ev_error = Some (en_error e)\<rparr>) c
            else (rc, c))
      in error_events env e lhdl ds rc1 c1)"

text \<open>The read index goes back to the request that bubbled.\<close>

definition rewind_to :: "nat \<Rightarrow> int \<Rightarrow> crm \<Rightarrow> crm" where
  "rewind_to i idx c =
     upd_link i (\<lambda>l.
       let l1 = upd_q (\<lambda>q. upd_slot idx (\<lambda>s. s\<lparr>sl_status := CRM_SLOT_STATUS_REQ_ADDED\<rparr>) (q\<lparr>rd_idx := idx\<rparr>))
                  (l\<lparr>l_tbl := tbl_set_all_skip_cnt (l_tbl l)\<rparr>);
           l2 = (if sync_link l1 \<noteq> None
                 then upd_q (\<lambda>q. upd_slot (inc_idx idx 1 (tbl_num_slots (hd (l_tbl l1)))) (\<lambda>s. s\<lparr>sl_sync_mode := 0\<rparr>)
                        (upd_slot idx (\<lambda>s. s\<lparr>sl_sync_mode := 0\<rparr>) q)) l1
                 else l1)
       in l2\<lparr>link_state := CAM_CRM_LINK_STATE_ERR, open_req_cnt := open_req_cnt l2 + 1\<rparr>) c"

definition cam_req_mgr_process_error :: "crm_env \<Rightarrow> nat \<Rightarrow> cam_req_mgr_error_notify \<Rightarrow> crm \<Rightarrow> rc \<times> crm" where
  "cam_req_mgr_process_error env i e c =
     (if en_error e \<noteq> CRM_KMD_ERR_BUBBLE then (0, c)
      else
        let l = g_links c i; q = qof l; idx = find_slot_for_req q (s64 (en_req_id e)) in
        if idx < 0 then (0, c)
        else if recover (q_slot q idx) = 0 then (0, c)
        else if sl_status (q_slot q idx) \<noteq> CRM_SLOT_STATUS_REQ_PENDING
             \<and> sl_status (q_slot q idx) \<noteq> CRM_SLOT_STATUS_REQ_APPLIED then (- EINVAL, c)
        else
          let (rc, c1) = error_events env e (link_hdl l) (take (num_devs l) (l_dev l)) 0 c
          in (rc, apply_on_bubble env i e (rewind_to i idx c1)))"

definition cam_req_mgr_process_stop :: "nat \<Rightarrow> crm \<Rightarrow> rc \<times> crm" where
  "cam_req_mgr_process_stop i c = (0, upd_link i flush_req_slot c)"

text \<open>A SOF for a request frees the slot of that request, also the one kept as last applied.\<close>

definition trigger_free_slot :: "cam_req_mgr_trigger_notify \<Rightarrow> cam_req_mgr_core_link \<Rightarrow> cam_req_mgr_core_link" where
  "trigger_free_slot trig l =
     (if tn_trigger trig = CAM_TRIGGER_POINT_SOF
      then
        let idx = find_slot_for_req (qof l) (s64 (tn_req_id trig)) in
        if 0 \<le> idx
        then reset_req_slot idx
               (if idx = last_applied_idx (qof l) then upd_q (\<lambda>q. q\<lparr>last_applied_idx := - 1\<rparr>) l else l)
        else l
      else l)"

definition step_rd :: "cam_req_mgr_core_link \<Rightarrow> cam_req_mgr_core_link" where
  "step_rd = upd_q (\<lambda>q. q\<lparr>rd_idx := inc_idx (rd_idx q) 1 (num_slots q)\<rparr>)"

definition cam_req_mgr_process_trigger :: "crm_env \<Rightarrow> nat \<Rightarrow> cam_req_mgr_trigger_notify \<Rightarrow> crm \<Rightarrow> rc \<times> crm" where
  "cam_req_mgr_process_trigger env i trig c =
     (let c1 = upd_link i (trigger_free_slot trig) c; l = g_links c1 i; q = qof l in
      if link_state l < CAM_CRM_LINK_STATE_READY then (- EPERM, c1)
      else if sl_status (q_slot q (rd_idx q)) = CRM_SLOT_STATUS_REQ_APPLIED
      then
        let (rc, c2) = on_link i check_next_req_slot c1; c3 = upd_link i step_rd c2 in
        if rc \<noteq> 0 then (0, c3) else process_req env i trig c3
      else process_req env i trig c1)"

end
