(* ===== verification/Cam_Crm_Setup.thy ===== *)
theory Cam_Crm_Setup
  imports Cam_Crm_Link
begin

text \<open>
  Connecting devices to a link: \<open>__cam_req_mgr_setup_link_info\<close> queries the devices, builds the
  tables, one per pipeline delay, and gives every device its bit. The reverse operations and the
  notification of a frozen sensor are here too.
\<close>

abbreviation ENXIO :: rc where "ENXIO \<equiv> 6"
abbreviation VERSION_1 :: u32 where "VERSION_1 \<equiv> 1"
abbreviation VERSION_2 :: u32 where "VERSION_2 \<equiv> 2"
abbreviation CAM_REQ_MGR_MAX_HANDLES :: nat where "CAM_REQ_MGR_MAX_HANDLES \<equiv> 64"

text \<open>
  \<open>link_info\<close>: the version and the variant of the union that goes with it. The memory behind a
  driver's \<open>ops\<close> pointer and the allocation of the tables are parameters.
\<close>

record cam_req_mgr_ver_info =
  vi_version :: u32
  vi_session_hdl :: int
  vi_num_devices :: nat
  vi_dev_hdls :: "int list"
  vi_link_hdl :: int

record setup_env =
  kmd_ops_at :: "ptr \<Rightarrow> cam_req_mgr_kmd_ops"
  tbl_alloc :: "nat \<Rightarrow> bool"

definition zero_dev :: cam_req_mgr_connected_device where
  "zero_dev = \<lparr>dev_hdl = 0, dev_bit = 0, pd_tbl = None, p_delay = 0, dev_trigger_mask = 0, ops = None\<rparr>"

definition destroy_link_info :: "cam_req_mgr_core_link \<Rightarrow> cam_req_mgr_core_link" where
  "destroy_link_info l =
     (snd (reset_in_q (l\<lparr>l_tbl := []\<rparr>)))\<lparr>num_tbl := 0, pd_mask := 0, num_devs := 0, max_delay := 0\<rparr>"

text \<open>
  The first loop: the devices are asked for their delay and triggers. \<open>Inl\<close> is the code with which
  the loop is left for the error exit.
\<close>

fun query_devices ::
    "crm_env \<Rightarrow> setup_env \<Rightarrow> hdl_global \<Rightarrow> int list \<Rightarrow> int \<Rightarrow> u32 \<Rightarrow> calls
       \<Rightarrow> (rc + int \<times> u32) \<times> cam_req_mgr_connected_device list \<times> calls" where
  "query_devices env sen tbl [] max_d ev tr = (Inr (max_d, ev), [], tr)"
| "query_devices env sen tbl (h # hs) max_d ev tr =
     (let p = cam_get_device_ops h tbl;
          k = (if p = 0 then None else Some (kmd_ops_at sen p)) in
      if k = None \<or> \<not> has_get_dev_info (the k) \<or> \<not> has_link_setup (the k)
      then (Inl (- ENXIO), zero_dev\<lparr>ops := k\<rparr> # replicate (length hs) zero_dev, tr)
      else
        let n = length tr; (rc, tr1) = do_call env (Get_dev_info h) tr;
            d = zero_dev\<lparr>ops := k, dev_hdl := h, p_delay := uint (dev_delay env n),
                         dev_trigger_mask := dev_trigger env n\<rparr> in
        if rc < 0 \<or> CAM_PIPELINE_DELAY_MAX \<le> p_delay d
        then (Inl rc, d # replicate (length hs) zero_dev, tr1)
        else
          let (r, ds, tr2) = query_devices env sen tbl hs (max max_d (p_delay d))
                               (ev OR dev_trigger_mask d) tr1
          in (r, d # ds, tr2))"

text \<open>
  The second loop: find or create the table of the device's delay, take the next bit of it, and
  tell the device about the link. \<open>n\<close> numbers the allocations.
\<close>

definition connect_device ::
    "crm_env \<Rightarrow> int \<Rightarrow> u32 \<Rightarrow> cam_req_mgr_connected_device \<Rightarrow> cam_req_mgr_core_link \<Rightarrow> calls
       \<Rightarrow> cam_req_mgr_connected_device \<times> cam_req_mgr_core_link \<times> calls" where
  "connect_device env max_d ev d l tr =
     (let pd = p_delay d; t = the (find_pd_tbl (l_tbl l) pd);
          d1 = d\<lparr>dev_bit := dev_count t, pd_tbl := Some pd\<rparr>;
          l1 = l\<lparr>l_tbl := upd_tbl pd (\<lambda>t. t\<lparr>dev_count := dev_count t + 1,
                   dev_mask := dev_mask t OR shl1 (dev_bit d1)\<rparr>) (l_tbl l)\<rparr>;
          tr1 = snd (do_call env (Link_setup \<lparr>ls_link_enable = 1, ls_link_hdl = link_hdl l,
                  ls_dev_hdl = dev_hdl d, ls_max_delay = max_d, ls_subscribe_event = ev\<rparr>) tr)
      in (d1, (if max_delay l1 < pd then l1\<lparr>max_delay := pd\<rparr> else l1), tr1))"

fun connect_devices ::
    "crm_env \<Rightarrow> setup_env \<Rightarrow> int \<Rightarrow> u32 \<Rightarrow> nat \<Rightarrow> cam_req_mgr_connected_device list \<Rightarrow> cam_req_mgr_core_link \<Rightarrow> calls
       \<Rightarrow> rc \<times> cam_req_mgr_connected_device list \<times> cam_req_mgr_core_link \<times> calls" where
  "connect_devices env sen max_d ev n [] l tr = (0, [], l, tr)"
| "connect_devices env sen max_d ev n (d # ds) l tr =
     (let pd = p_delay d in
      if pd_mask l AND shl1 pd \<noteq> 0
      then
        if find_pd_tbl (l_tbl l) pd = None then (- ENXIO, d # ds, l, tr)
        else
          let (d1, l1, tr1) = connect_device env max_d ev d l tr;
              (rc, ds1, l2, tr2) = connect_devices env sen max_d ev n ds l1 tr1
          in (rc, d1 # ds1, l2, tr2)
      else if \<not> tbl_alloc sen n then (- ENXIO, d # ds, l, tr)
      else
        let l0 = l\<lparr>pd_mask := pd_mask l OR shl1 pd,
                   l_tbl := add_tbl_to_link (l_tbl l) ((create_pd_tbl pd)\<lparr>tbl_pd := pd\<rparr>)\<rparr>;
            (d1, l1, tr1) = connect_device env max_d ev d l0 tr;
            (rc, ds1, l2, tr2) = connect_devices env sen max_d ev (Suc n) ds l1 tr1
        in (rc, d1 # ds1, l2, tr2))"

definition setup_link_info ::
    "crm_env \<Rightarrow> setup_env \<Rightarrow> hdl_global \<Rightarrow> cam_req_mgr_ver_info \<Rightarrow> cam_req_mgr_core_link \<Rightarrow> calls
       \<Rightarrow> rc \<times> cam_req_mgr_core_link \<times> calls" where
  "setup_link_info env sen tbl vi l tr =
     (if vi_version vi = VERSION_1 \<and> CAM_REQ_MGR_MAX_HANDLES < vi_num_devices vi then (- EPERM, l, tr)
      else if vi_version vi = VERSION_2 \<and> CAM_REQ_MGR_MAX_HANDLES_V2 < vi_num_devices vi then (- EPERM, l, tr)
      else
        let (rc, l1) = setup_in_q (l\<lparr>num_tbl := 0\<rparr>) in
        if rc < 0 then (rc, l1, tr)
        else
          let num_devices = (if vi_version vi = VERSION_1 \<or> vi_version vi = VERSION_2
                             then vi_num_devices vi else 0) in
          case query_devices env sen tbl (take num_devices (vi_dev_hdls vi)) 0 0 tr of
            (Inl rc, ds, tr1) \<Rightarrow> (rc, destroy_link_info (l1\<lparr>l_dev := ds\<rparr>), tr1)
          | (Inr (max_d, ev), ds, tr1) \<Rightarrow>
              let (rc, ds2, l2, tr2) = connect_devices env sen max_d ev 0 ds (l1\<lparr>subscribe_event := ev\<rparr>) tr1 in
              if rc \<noteq> 0 then (rc, destroy_link_info (l2\<lparr>l_dev := ds2\<rparr>), tr2)
              else
                let (ts, n) = tbl_set_id (l_tbl l2) (num_tbl l2)
                in (0, l2\<lparr>l_dev := ds2, num_devs := num_devices,
                          l_tbl := tbl_set_all_skip_cnt ts, num_tbl := n\<rparr>, tr2))"

text \<open>
  Unlinking: every device is told, and forgotten. The code leaves \<open>max_delay\<close> of the message unset; it
  is 0 here.
\<close>

fun disconnect_devices ::
    "crm_env \<Rightarrow> int \<Rightarrow> cam_req_mgr_connected_device list \<Rightarrow> rc \<Rightarrow> calls
       \<Rightarrow> rc \<times> cam_req_mgr_connected_device list \<times> calls" where
  "disconnect_devices env lhdl [] rc tr = (rc, [], tr)"
| "disconnect_devices env lhdl (d # ds) rc tr =
     (let (rc1, tr1) = (if (case ops d of None \<Rightarrow> False | Some k \<Rightarrow> has_link_setup k)
            then do_call env (Link_setup \<lparr>ls_link_enable = 0, ls_link_hdl = lhdl, ls_dev_hdl = dev_hdl d,
                   ls_max_delay = 0, ls_subscribe_event = 0\<rparr>) tr
            else (rc, tr));
          (rc2, ds2, tr2) = disconnect_devices env lhdl ds rc1 tr1
      in (rc2, d\<lparr>dev_hdl := 0, ops := None\<rparr> # ds2, tr2))"

definition disconnect_link :: "crm_env \<Rightarrow> cam_req_mgr_core_link \<Rightarrow> calls \<Rightarrow> rc \<times> cam_req_mgr_core_link \<times> calls" where
  "disconnect_link env l tr =
     (let (rc, ds, tr1) = disconnect_devices env (link_hdl l) (take (num_devs l) (l_dev l)) 0 tr
      in (rc, l\<lparr>l_dev := ds @ drop (num_devs l) (l_dev l)\<rparr>, tr1))"

fun freeze_events :: "crm_env \<Rightarrow> int \<Rightarrow> cam_req_mgr_connected_device list \<Rightarrow> calls \<Rightarrow> calls" where
  "freeze_events env lhdl [] tr = tr"
| "freeze_events env lhdl (d # ds) tr =
     freeze_events env lhdl ds
       (if can_evt d
        then snd (do_call env (Process_evt \<lparr>ev_link_hdl = lhdl, ev_dev_hdl = dev_hdl d, ev_req_id = 0,
               ev_evt_type = CAM_REQ_MGR_LINK_EVT_SOF_FREEZE, ev_error = Some CRM_KMD_ERR_FATAL\<rparr>) tr)
        else tr)"

definition process_sof_freeze :: "crm_env \<Rightarrow> nat \<Rightarrow> crm \<Rightarrow> rc \<times> crm" where
  "process_sof_freeze env i c =
     (let l = g_links c i in
      if (case watchdog l of None \<Rightarrow> False | Some w \<Rightarrow> pause_timer w) then (0, c)
      else emit env (Notify_message (ses_session_hdl (the (sessions c (parent l))))
             CAM_REQ_MGR_ERROR_TYPE_SOF_FREEZE 0 (link_hdl l))
             (c\<lparr>crm_calls := freeze_events env (link_hdl l) (take (num_devs l) (l_dev l)) (crm_calls c)\<rparr>))"

section \<open>Pairing two links\<close>

definition set_master_link :: "nat \<Rightarrow> nat \<Rightarrow> crm \<Rightarrow> crm" where
  "set_master_link link1 link2 c =
     (if max_delay (g_links c link2) < max_delay (g_links c link1)
      then upd_link link2 (\<lambda>l. l\<lparr>initial_skip := True\<rparr>) (upd_link link1 (\<lambda>l. l\<lparr>is_master := True\<rparr>) c)
      else if max_delay (g_links c link1) < max_delay (g_links c link2)
      then upd_link link1 (\<lambda>l. l\<lparr>initial_skip := True\<rparr>) (upd_link link2 (\<lambda>l. l\<lparr>is_master := True\<rparr>) c)
      else c)"

text \<open>The part of \<open>cam_req_mgr_sync_config\<close> behind the look-up of the session and the two links.\<close>

definition unpaired :: "cam_req_mgr_core_link \<Rightarrow> cam_req_mgr_core_link" where
  "unpaired l = l\<lparr>sync_link_sof_skip := False, sync_link := None, is_master := False,
     in_msync_mode := False, initial_sync_req := - 1\<rparr>"

definition sync_config_links :: "int \<Rightarrow> nat \<Rightarrow> nat \<Rightarrow> crm \<Rightarrow> crm" where
  "sync_config_links mode link1 link2 c =
     (let c1 = upd_link link2 unpaired (upd_link link1 unpaired c) in
      if mode = CAM_REQ_MGR_SYNC_MODE_SYNC
      then set_master_link link1 link2
             (upd_link link2 (\<lambda>l. l\<lparr>sync_link := Some link1\<rparr>) (upd_link link1 (\<lambda>l. l\<lparr>sync_link := Some link2\<rparr>) c1))
      else
        let f = (\<lambda>l. l\<lparr>initial_skip := True, sof_timestamp := 0\<rparr>)
        in upd_link link2 f (upd_link link1 f c1))"

end
