(* ===== verification/Cam_Crm_Inv.thy ===== *)
theory Cam_Crm_Inv
  imports Cam_Crm_Setup
begin

text \<open>
  Well-formedness of a link of the request manager: the ring indices stay in the ring, the tables
  are sorted by falling delay with the right distances, and a table slot is ready exactly when
  every device of the table added the request.
\<close>

section \<open>Ring arithmetic\<close>

lemma c_rem_nonneg: "0 \<le> a \<Longrightarrow> 0 < b \<Longrightarrow> a smod b = a mod (b :: int)"
  by (simp add: signed_modulo_int_def signed_divide_int_def sgn_if minus_mult_div_eq_mod mult.commute
      split: if_splits)

lemma inc_idx_ring: "0 \<le> i \<Longrightarrow> 0 \<le> k \<Longrightarrow> inc_idx i k 48 = (i + k) mod 48"
  by (simp add: inc_idx_def c_rem_nonneg)

lemma dec_idx_ring:
  assumes "0 \<le> i" "i < 48" "0 \<le> k" "k \<le> 48"
  shows "dec_idx i k 48 = (i - k) mod 48"
proof (cases "i - k < 0")
  case True
  then have "(i - k) mod 48 = (i - k + 48) mod 48" by simp
  also have "\<dots> = i - k + 48" using True assms by (intro mod_pos_pos_trivial) auto
  finally show ?thesis using True by (simp add: dec_idx_def)
qed (use assms in \<open>simp add: dec_idx_def\<close>)

lemma ring_range [simp]: "0 \<le> (x :: int) mod 48" "x mod 48 < 48"
  by simp_all

lemma ring_diff: "((x :: int) mod 48 - y) mod 48 = (x - y) mod 48"
  by (simp add: mod_diff_left_eq)

section \<open>The tables of a link\<close>

definition tbl_ok :: "cam_req_mgr_req_tbl \<Rightarrow> bool" where
  "tbl_ok t \<longleftrightarrow> tbl_num_slots t = MAX_REQ_SLOTS \<and> 0 \<le> tbl_pd t \<and> tbl_pd t < CAM_PIPELINE_DELAY_MAX
     \<and> 0 \<le> skip_traverse t"

fun tbls_ok :: "cam_req_mgr_req_tbl list \<Rightarrow> bool" where
  "tbls_ok [] \<longleftrightarrow> True"
| "tbls_ok [t] \<longleftrightarrow> tbl_ok t \<and> pd_delta t = 0"
| "tbls_ok (t # u # us) \<longleftrightarrow> tbl_ok t \<and> tbl_pd u < tbl_pd t \<and> pd_delta t = tbl_pd t - tbl_pd u \<and> tbls_ok (u # us)"

text \<open>The bits of the delays that have a table.\<close>

fun tbl_bits :: "cam_req_mgr_req_tbl list \<Rightarrow> u32" where
  "tbl_bits [] = 0"
| "tbl_bits (t # ts) = tbl_bits ts OR shl1 (tbl_pd t)"

lemma tbls_ok_tl: "tbls_ok (t # ts) \<Longrightarrow> tbls_ok ts"
  by (cases ts) auto

lemma tbls_ok_hd: "tbls_ok (t # ts) \<Longrightarrow> tbl_ok t"
  by (cases ts) auto

lemma tbls_ok_all: "tbls_ok ts \<Longrightarrow> t \<in> set ts \<Longrightarrow> tbl_ok t"
  by (induction ts rule: tbls_ok.induct) auto

lemma tbls_ok_below: "tbls_ok (t # ts) \<Longrightarrow> u \<in> set ts \<Longrightarrow> tbl_pd u < tbl_pd t"
  by (induction "t # ts" arbitrary: t ts rule: tbls_ok.induct) fastforce+

lemma tbls_ok_distinct: "tbls_ok ts \<Longrightarrow> distinct (map tbl_pd ts)"
proof (induction ts)
  case (Cons t ts)
  have "tbl_pd t \<notin> tbl_pd ` set ts" using tbls_ok_below [OF Cons.prems] by fastforce
  then show ?case using Cons tbls_ok_tl by auto
qed simp

lemma tbls_ok_find:
  assumes "tbls_ok ts" "t \<in> set ts" "tbl_pd t = pd"
  shows "find (\<lambda>t. tbl_pd t = pd) ts = Some t"
  using tbls_ok_distinct [OF assms(1)] assms(2,3)
  by (induction ts) (auto simp: image_iff)

text \<open>
  What of the tables the handlers keep: delays, distances and device masks. Two lists with the
  same shape and no negative skip count are well-formed together.
\<close>

definition tshape :: "cam_req_mgr_req_tbl \<Rightarrow> int \<times> int \<times> int \<times> int \<times> u32" where
  "tshape t = (tbl_pd t, pd_delta t, tbl_num_slots t, dev_count t, dev_mask t)"

lemma tbls_ok_shape:
  assumes "tbls_ok ts" "map tshape ts' = map tshape ts" "\<forall>t\<in>set ts'. 0 \<le> skip_traverse t"
  shows "tbls_ok ts'"
  using assms
proof (induction ts arbitrary: ts' rule: tbls_ok.induct)
  case (2 t)
  then show ?case by (auto simp: tshape_def tbl_ok_def)
next
  case (3 t u us)
  then obtain t' u' us' where ts': "ts' = t' # u' # us'" by auto
  have "tbls_ok (u' # us')" by (rule "3.IH") (use 3 ts' in auto)
  then show ?case using "3.prems" by (auto simp: ts' tshape_def tbl_ok_def)
qed simp

lemma tbl_bits_shape: "map tshape ts' = map tshape ts \<Longrightarrow> tbl_bits ts' = tbl_bits ts"
proof (induction ts arbitrary: ts')
  case (Cons t ts)
  then obtain u us where "ts' = u # us" "tshape u = tshape t" "map tshape us = map tshape ts"
    by (cases ts') auto
  moreover from this have "tbl_bits us = tbl_bits ts" using Cons.IH by blast
  ultimately show ?case by (simp add: tshape_def)
qed simp

lemma bit_shl1: "0 \<le> n \<Longrightarrow> n < 32 \<Longrightarrow> bit (shl1 n) m \<longleftrightarrow> m = nat n"
  by (auto simp: shl1_def bit_push_bit_iff bit_1_iff simp del: push_bit_of_1)

lemma bit_tbl_bits:
  "\<forall>t\<in>set ts. 0 \<le> tbl_pd t \<and> tbl_pd t < 32 \<Longrightarrow> 0 \<le> pd \<Longrightarrow> pd < 32 \<Longrightarrow>
     bit (tbl_bits ts) (nat pd) \<longleftrightarrow> (\<exists>t\<in>set ts. tbl_pd t = pd)"
  by (induction ts) (auto simp: bit_or_iff bit_shl1)

section \<open>Traversal\<close>

text \<open>
  The slot a table looks at when the slot for the largest delay is \<open>idx\<close>: as many slots behind
  as its delay is smaller.
\<close>

definition slot_for :: "int \<Rightarrow> int \<Rightarrow> cam_req_mgr_req_tbl \<Rightarrow> int" where
  "slot_for idx top_pd t = (idx - (top_pd - tbl_pd t)) mod MAX_REQ_SLOTS"

definition all_pass :: "cam_req_mgr_req_queue \<Rightarrow> int \<Rightarrow> int \<Rightarrow> cam_req_mgr_req_tbl list \<Rightarrow> bool" where
  "all_pass q idx top_pd ts \<longleftrightarrow> (\<forall>t\<in>set ts. tbl_passes q t (slot_for idx top_pd t))"

definition skip_down :: "cam_req_mgr_req_tbl \<Rightarrow> cam_req_mgr_req_tbl" where
  "skip_down t = (if 0 < skip_traverse t then t\<lparr>skip_traverse := skip_traverse t - 1\<rparr> else t)"

definition applied_for :: "cam_req_mgr_req_queue \<Rightarrow> int \<Rightarrow> cam_req_mgr_req_tbl \<Rightarrow> cam_req_mgr_apply \<Rightarrow> cam_req_mgr_apply" where
  "applied_for q idx t a = a\<lparr>a_pd := tbl_pd t,
     a_req_id := (if 0 < skip_traverse t then - 1 else sl_req_id (q_slot q idx)), a_idx := idx\<rparr>"

lemma apply_swap: "(a :: cam_req_mgr_apply)\<lparr>a_idx := z, a_req_id := y\<rparr> = a\<lparr>a_req_id := y, a_idx := z\<rparr>"
  by simp

lemma record_apply_eq:
  "record_apply q idx t td =
     (skip_down t, td\<lparr>t_apply_data := (t_apply_data td)(tbl_pd t := applied_for q idx t (t_apply_data td (tbl_pd t)))\<rparr>)"
  by (simp add: record_apply_def skip_down_def applied_for_def Let_def apply_swap)

text \<open>The apply data after a successful traversal, table by table from the last to the first.\<close>

fun applied_all ::
    "cam_req_mgr_req_queue \<Rightarrow> int \<Rightarrow> int \<Rightarrow> cam_req_mgr_req_tbl list \<Rightarrow> (int \<Rightarrow> cam_req_mgr_apply) \<Rightarrow> int \<Rightarrow> cam_req_mgr_apply" where
  "applied_all q idx top_pd [] a = a"
| "applied_all q idx top_pd (t # ts) a =
     (applied_all q idx top_pd ts a)
       (tbl_pd t := applied_for q (slot_for idx top_pd t) t (applied_all q idx top_pd ts a (tbl_pd t)))"

lemma slot_for_step:
  assumes "tbls_ok (t # u # us)" "0 \<le> i" "i < 48" "i = slot_for idx top_pd t"
  shows "dec_idx i (pd_delta t) (tbl_num_slots t) = slot_for idx top_pd u"
proof -
  have d: "pd_delta t = tbl_pd t - tbl_pd u" "tbl_num_slots t = 48" "0 \<le> pd_delta t" "pd_delta t \<le> 48"
    using assms(1) tbls_ok_hd [of u us] by (auto simp: tbl_ok_def)
  have "dec_idx i (pd_delta t) 48 = (i - pd_delta t) mod 48" by (rule dec_idx_ring) (use assms d in auto)
  also have "\<dots> = (idx - (top_pd - tbl_pd t) - pd_delta t) mod 48"
    by (simp add: assms(4) slot_for_def ring_diff)
  also have "\<dots> = slot_for idx top_pd u" by (simp add: slot_for_def d(1) algebra_simps)
  finally show ?thesis by (simp add: d(2))
qed

lemma traverse_success:
  assumes "tbls_ok ts" "ts \<noteq> []" "i = slot_for idx top_pd (hd ts)" "all_pass q idx top_pd ts"
  shows "\<exists>td'. traverse vo q ts i td = (0, (if vo then ts else map skip_down ts), td')
     \<and> t_result td' = t_result td OR tbl_bits ts
     \<and> t_apply_data td' = (if vo then t_apply_data td else applied_all q idx top_pd ts (t_apply_data td))"
  using assms
proof (induction ts arbitrary: i)
  case (Cons t ts)
  have pass: "tbl_passes q t i" using Cons.prems by (simp add: all_pass_def)
  have sf: "slot_for idx top_pd t = i" using Cons.prems(3) by simp
  show ?case
  proof (cases ts)
    case Nil
    then show ?thesis
      using pass by (cases vo) (simp_all add: sf SET_SUCCESS_BIT_def record_apply_eq Let_def fun_eq_iff)
  next
    case (Cons u us)
    have i: "0 \<le> i" "i < 48" using Cons.prems(3) by (simp_all add: slot_for_def)
    have "dec_idx i (pd_delta t) (tbl_num_slots t) = slot_for idx top_pd u"
      by (rule slot_for_step) (use Cons.prems Cons i in auto)
    moreover have "tbls_ok ts" "ts \<noteq> []" "all_pass q idx top_pd ts"
      using Cons.prems tbls_ok_tl Cons by (auto simp: all_pass_def)
    ultimately obtain td1 where ih:
      "traverse vo q ts (dec_idx i (pd_delta t) (tbl_num_slots t)) td = (0, (if vo then ts else map skip_down ts), td1)"
      "t_result td1 = t_result td OR tbl_bits ts"
      "t_apply_data td1 = (if vo then t_apply_data td else applied_all q idx top_pd ts (t_apply_data td))"
      using Cons.IH [of "dec_idx i (pd_delta t) (tbl_num_slots t)"] Cons by auto
    show ?thesis
      using pass \<open>ts \<noteq> []\<close> ih
      by (cases vo) (simp_all add: sf SET_SUCCESS_BIT_def record_apply_eq or.assoc Let_def fun_eq_iff)
  qed
qed simp

lemma traverse_failure:
  assumes "tbls_ok ts" "i = slot_for idx top_pd (hd ts)" "\<not> all_pass q idx top_pd ts"
  shows "\<exists>td'. traverse vo q ts i td = (- EAGAIN, ts, td') \<and> t_apply_data td' = t_apply_data td"
  using assms
proof (induction ts arbitrary: i)
  case (Cons t ts)
  show ?case
  proof (cases "tbl_passes q t i")
    case True
    then have np: "\<not> all_pass q idx top_pd ts" using Cons.prems by (simp add: all_pass_def)
    then obtain u us where ts: "ts = u # us" by (cases ts) (auto simp: all_pass_def)
    have i: "0 \<le> i" "i < 48" using Cons.prems(2) by (simp_all add: slot_for_def)
    have "dec_idx i (pd_delta t) (tbl_num_slots t) = slot_for idx top_pd u"
      by (rule slot_for_step) (use Cons.prems ts i in auto)
    then obtain td' where "traverse vo q ts (dec_idx i (pd_delta t) (tbl_num_slots t)) td = (- EAGAIN, ts, td')"
      "t_apply_data td' = t_apply_data td"
      using Cons.IH [OF tbls_ok_tl [OF Cons.prems(1)] _ np] ts by force
    then show ?thesis using True ts by simp
  qed simp
qed (simp add: all_pass_def)

lemma applied_all_other: "p \<notin> tbl_pd ` set ts \<Longrightarrow> applied_all q idx top_pd ts a p = a p"
  by (induction ts) (auto simp: Let_def)

lemma applied_all_at:
  assumes "tbls_ok ts" "t \<in> set ts"
  shows "applied_all q idx top_pd ts a (tbl_pd t) = applied_for q (slot_for idx top_pd t) t (a (tbl_pd t))"
  using assms
proof (induction ts)
  case (Cons u ts)
  have below: "tbl_pd v < tbl_pd u" if "v \<in> set ts" for v using tbls_ok_below [OF Cons.prems(1) that] .
  show ?case
  proof (cases "t = u")
    case True
    have "applied_all q idx top_pd ts a (tbl_pd u) = a (tbl_pd u)"
      by (rule applied_all_other) (use below in force)
    then show ?thesis using True by (simp add: Let_def)
  next
    case False
    then have "t \<in> set ts" using Cons.prems by simp
    then have "tbl_pd t \<noteq> tbl_pd u" using below by fastforce
    then show ?thesis using Cons \<open>t \<in> set ts\<close> tbls_ok_tl by (simp add: Let_def)
  qed
qed simp

section \<open>Well-formed links\<close>

definition q_ok :: "cam_req_mgr_req_queue \<Rightarrow> bool" where
  "q_ok q \<longleftrightarrow> num_slots q = MAX_REQ_SLOTS \<and> 0 \<le> rd_idx q \<and> rd_idx q < MAX_REQ_SLOTS
     \<and> 0 \<le> wr_idx q \<and> wr_idx q < MAX_REQ_SLOTS
     \<and> (\<forall>i. 0 \<le> i \<and> i < MAX_REQ_SLOTS \<longrightarrow> sl_idx (q_slot q i) = i)"

text \<open>
  A table slot is ready exactly when its map is the mask of all devices of the table, which has
  the bits \<open>0 .. dev_count - 1\<close>.
\<close>

definition tslot_ok :: "u32 \<Rightarrow> cam_req_mgr_tbl_slot \<Rightarrow> bool" where
  "tslot_ok m s \<longleftrightarrow> (ts_state s = CRM_REQ_STATE_READY \<longleftrightarrow> req_ready_map s = m) \<and> req_ready_map s AND NOT m = 0"

definition tbl_good :: "cam_req_mgr_req_tbl \<Rightarrow> bool" where
  "tbl_good t \<longleftrightarrow> 0 < dev_count t \<and> dev_mask t = mask (nat (dev_count t)) \<and> (\<forall>i. tslot_ok (dev_mask t) (tbl_slot t i))"

text \<open>The devices of a table have the bits \<open>0, 1, ..\<close> in the order of the link.\<close>

definition devs_ok :: "cam_req_mgr_req_tbl list \<Rightarrow> cam_req_mgr_connected_device list \<Rightarrow> bool" where
  "devs_ok ts ds \<longleftrightarrow>
     (\<forall>d\<in>set ds. pd_tbl d = Some (p_delay d) \<and> (\<exists>t\<in>set ts. tbl_pd t = p_delay d))
     \<and> (\<forall>t\<in>set ts. map dev_bit (filter (\<lambda>d. p_delay d = tbl_pd t) ds) = [0..dev_count t - 1])"

definition link_wf :: "cam_req_mgr_core_link \<Rightarrow> bool" where
  "link_wf l \<longleftrightarrow> (\<exists>q. in_q l = Some q \<and> q_ok q)
     \<and> l_tbl l \<noteq> [] \<and> tbls_ok (l_tbl l) \<and> pd_mask l = tbl_bits (l_tbl l)
     \<and> (\<forall>t\<in>set (l_tbl l). tbl_good t)
     \<and> devs_ok (l_tbl l) (take (num_devs l) (l_dev l))
     \<and> max_delay l = tbl_pd (hd (l_tbl l)) \<and> retry_cnt l < 2"

lemma link_wf_q: "link_wf l \<Longrightarrow> in_q l = Some (qof l) \<and> q_ok (qof l)"
  by (auto simp: link_wf_def)

lemma hd_pd_shape: "map tshape ts = map tshape ts' \<Longrightarrow> ts \<noteq> [] \<Longrightarrow> tbl_pd (hd ts) = tbl_pd (hd ts')"
  by (cases ts; cases ts') (auto simp: tshape_def)

lemma shape_member:
  "map tshape ts = map tshape ts' \<Longrightarrow> t \<in> set ts \<Longrightarrow> \<exists>t'\<in>set ts'. tshape t' = tshape t"
  by (metis (mono_tags, lifting) image_iff list.set_map)

lemma devs_ok_shape:
  assumes "devs_ok ts' ds" "map tshape ts = map tshape ts'"
  shows "devs_ok ts ds"
proof -
  have "\<exists>t\<in>set ts. tbl_pd t = p_delay d" if "d \<in> set ds" for d
    using assms(1) that shape_member [OF assms(2) [symmetric]] by (fastforce simp: devs_ok_def tshape_def)
  moreover have "map dev_bit (filter (\<lambda>d. p_delay d = tbl_pd t) ds) = [0..dev_count t - 1]" if "t \<in> set ts" for t
    using assms(1) shape_member [OF assms(2) that] by (fastforce simp: devs_ok_def tshape_def)
  ultimately show ?thesis using assms(1) by (auto simp: devs_ok_def)
qed

text \<open>The two ways in which the handlers change a link.\<close>

lemma link_wf_upd_q: "link_wf l \<Longrightarrow> (\<And>q. q_ok q \<Longrightarrow> q_ok (f q)) \<Longrightarrow> link_wf (upd_q f l)"
  by (auto simp: link_wf_def upd_q_def)

lemma link_wf_tbls:
  assumes "link_wf l" "map tshape ts = map tshape (l_tbl l)"
    and "\<forall>t\<in>set ts. 0 \<le> skip_traverse t \<and> (\<forall>i. tslot_ok (dev_mask t) (tbl_slot t i))"
  shows "link_wf (l\<lparr>l_tbl := ts\<rparr>)"
proof -
  have ne: "ts \<noteq> []" using assms(1,2) by (auto simp: link_wf_def)
  have "tbl_good t" if mem: "t \<in> set ts" for t
  proof -
    obtain t' where "t' \<in> set (l_tbl l)" "tshape t' = tshape t" using shape_member [OF assms(2) mem] by auto
    then show ?thesis using assms(1,3) mem by (auto simp: link_wf_def tbl_good_def tshape_def)
  qed
  moreover have "tbls_ok ts"
    using tbls_ok_shape [of "l_tbl l" ts] assms by (simp add: link_wf_def)
  moreover have "tbl_bits ts = pd_mask l" "tbl_pd (hd ts) = max_delay l"
    using tbl_bits_shape [OF assms(2)] hd_pd_shape [OF assms(2) ne] assms(1) by (auto simp: link_wf_def)
  moreover have "devs_ok ts (take (num_devs l) (l_dev l))"
    by (rule devs_ok_shape [OF _ assms(2)]) (use assms(1) in \<open>simp add: link_wf_def\<close>)
  ultimately show ?thesis using assms(1) ne by (simp add: link_wf_def)
qed

lemma tbls_of_wf: "link_wf l \<Longrightarrow> t \<in> set (l_tbl l) \<Longrightarrow> 0 \<le> skip_traverse t \<and> (\<forall>i. tslot_ok (dev_mask t) (tbl_slot t i))"
  using tbls_ok_all [of "l_tbl l" t] by (auto simp: link_wf_def tbl_good_def tbl_ok_def)

text \<open>Fields the invariant does not speak about.\<close>

lemma link_wf_other [simp]:
  "link_wf (l\<lparr>apply_data := a\<rparr>) = link_wf l"
  "link_wf (l\<lparr>watchdog := w\<rparr>) = link_wf l"
  "link_wf (l\<lparr>link_state := st\<rparr>) = link_wf l"
  "link_wf (l\<lparr>trigger_mask := m\<rparr>) = link_wf l"
  "link_wf (l\<lparr>sync_link := sl\<rparr>) = link_wf l"
  "link_wf (l\<lparr>sync_link_sof_skip := b\<rparr>) = link_wf l"
  "link_wf (l\<lparr>open_req_cnt := n\<rparr>) = link_wf l"
  "link_wf (l\<lparr>last_flush_id := f\<rparr>) = link_wf l"
  "link_wf (l\<lparr>is_master := b\<rparr>) = link_wf l"
  "link_wf (l\<lparr>initial_skip := b\<rparr>) = link_wf l"
  "link_wf (l\<lparr>in_msync_mode := b\<rparr>) = link_wf l"
  "link_wf (l\<lparr>initial_sync_req := n\<rparr>) = link_wf l"
  "link_wf (l\<lparr>sof_timestamp := x\<rparr>) = link_wf l"
  "link_wf (l\<lparr>prev_sof_timestamp := x\<rparr>) = link_wf l"
  "link_wf (l\<lparr>num_tbl := n\<rparr>) = link_wf l"
  by (simp_all add: link_wf_def)

lemma link_wf_retry: "link_wf l \<Longrightarrow> r < 2 \<Longrightarrow> link_wf (l\<lparr>retry_cnt := r\<rparr>)"
  by (simp add: link_wf_def)

end
