(* ===== verification/Cam_Crm_Pres.thy ===== *)
theory Cam_Crm_Pres
  imports Cam_Crm_Inv
begin

text \<open>
  Every handler of the request manager keeps the links well-formed. The operations on one link
  share the contract of the locale \<open>link_op\<close>; what follows for the whole state is proved once there.
\<close>

section \<open>Interface: operations on one link\<close>

text \<open>A set of links is well-formed when all its links are, and it is closed under synchronisation.\<close>

definition crm_wf :: "nat set \<Rightarrow> crm \<Rightarrow> bool" where
  "crm_wf I c \<longleftrightarrow> (\<forall>i\<in>I. link_wf (g_links c i) \<and> (\<forall>j. sync_link (g_links c i) = Some j \<longrightarrow> j \<in> I))"

lemma crm_wf_link: "crm_wf I c \<Longrightarrow> i \<in> I \<Longrightarrow> link_wf (g_links c i)"
  by (simp add: crm_wf_def)

lemma crm_wf_calls [simp]: "crm_wf I (c\<lparr>crm_calls := tr\<rparr>) = crm_wf I c"
  by (simp add: crm_wf_def)

lemma crm_wf_emit [simp]: "crm_wf I (snd (emit env x c)) = crm_wf I c"
  by (simp add: emit_def do_call_def)

lemma g_links_upd [simp]: "g_links (upd_link i f c) k = (if k = i then f (g_links c i) else g_links c k)"
  by (simp add: upd_link_def)

lemma crm_calls_upd [simp]: "crm_calls (upd_link i f c) = crm_calls c"
  by (simp add: upd_link_def)

locale link_op =
  fixes f :: "cam_req_mgr_core_link \<Rightarrow> cam_req_mgr_core_link"
  assumes keeps_wf: "link_wf l \<Longrightarrow> link_wf (f l)"
    and keeps_sync: "sync_link (f l) = sync_link l"
begin

lemma upd: "crm_wf I c \<Longrightarrow> crm_wf I (upd_link i f c)"
  by (auto simp: crm_wf_def keeps_wf keeps_sync)

end

locale link_call =
  fixes f :: "cam_req_mgr_core_link \<Rightarrow> rc \<times> cam_req_mgr_core_link"
  assumes call_wf: "link_wf l \<Longrightarrow> link_wf (snd (f l))"
    and call_sync: "sync_link (snd (f l)) = sync_link l"
begin

lemma on: "crm_wf I c \<Longrightarrow> crm_wf I (snd (on_link i f c))"
  by (auto simp: on_link_def crm_wf_def call_wf call_sync split_beta Let_def)

end

sublocale link_call \<subseteq> op: link_op "\<lambda>l. snd (f l)"
  by unfold_locales (rule call_wf, assumption, rule call_sync)

section \<open>Operations on the queue\<close>

lemma q_ok_upd_slot:
  "q_ok q \<Longrightarrow> (\<And>s. sl_idx (f s) = sl_idx s) \<Longrightarrow> q_ok (upd_slot i f q)"
  by (simp add: q_ok_def upd_slot_def)

lemma q_ok_wr: "q_ok q \<Longrightarrow> q_ok (q\<lparr>wr_idx := inc_idx (wr_idx q) 1 (num_slots q)\<rparr>)"
  by (auto simp: q_ok_def inc_idx_ring)

lemma q_ok_rd: "q_ok q \<Longrightarrow> q_ok (q\<lparr>rd_idx := inc_idx (rd_idx q) 1 (num_slots q)\<rparr>)"
  by (auto simp: q_ok_def inc_idx_ring)

lemma q_ok_last [simp]: "q_ok (q\<lparr>last_applied_idx := k\<rparr>) = q_ok q"
  by (simp add: q_ok_def)

lemma q_ok_skip: "q_ok q \<Longrightarrow> q_ok (in_q_skip_idx i q)"
  by (simp add: in_q_skip_idx_def q_ok_upd_slot)

lemma in_q_skip_idx_sel [simp]:
  "wr_idx (in_q_skip_idx i q) = wr_idx q" "num_slots (in_q_skip_idx i q) = num_slots q"
  by (simp_all add: in_q_skip_idx_def upd_slot_def)

lemma upd_q_sel [simp]:
  "sync_link (upd_q f l) = sync_link l" "l_tbl (upd_q f l) = l_tbl l" "in_q (upd_q f l) = map_option f (in_q l)"
  "l_dev (upd_q f l) = l_dev l" "num_devs (upd_q f l) = num_devs l"
  by (simp_all add: upd_q_def)

text \<open>The search finds a slot in the ring that holds the request, or \<open>-1\<close> when there is none.\<close>

lemma find_slot_loop_found:
  assumes "num_slots q = 48" "0 \<le> idx" "idx < 48" "find_slot_loop q req n idx = r"
  shows "r = - 1 \<or> 0 \<le> r \<and> r < 48 \<and> sl_req_id (q_slot q r) = req"
  using assms
proof (induction n arbitrary: idx)
  case (Suc n)
  have "dec_idx idx 1 48 = (idx - 1) mod 48" by (rule dec_idx_ring) (use Suc.prems in auto)
  then show ?case using Suc.IH [of "dec_idx idx 1 48"] Suc.prems by (auto split: if_splits)
qed simp

lemma find_slot_cases:
  assumes "q_ok q"
  obtains (none) "find_slot_for_req q req = - 1"
  | (found) "0 \<le> find_slot_for_req q req" "find_slot_for_req q req < 48"
      "sl_req_id (q_slot q (find_slot_for_req q req)) = req"
  using find_slot_loop_found [of q "rd_idx q" req "nat (num_slots q)" "find_slot_for_req q req"] assms
  by (auto simp: q_ok_def find_slot_for_req_def)

section \<open>Operations on the tables\<close>

lemma tshape_upd_tslot [simp]: "tshape (upd_tslot i f t) = tshape t"
  by (simp add: tshape_def upd_tslot_def)

lemma upd_tslot_sel [simp]:
  "tbl_pd (upd_tslot i f t) = tbl_pd t" "dev_mask (upd_tslot i f t) = dev_mask t"
  "skip_traverse (upd_tslot i f t) = skip_traverse t"
  "tbl_slot (upd_tslot i f t) = (tbl_slot t)(i := f (tbl_slot t i))"
  by (simp_all add: upd_tslot_def)

lemma upd_tbl_shape: "(\<And>t. tshape (f t) = tshape t) \<Longrightarrow> map tshape (upd_tbl pd f ts) = map tshape ts"
  by (simp add: upd_tbl_def)

lemma inject_delay_shape:
  "map tshape (snd (inject_delay ts idx rc)) = map tshape ts
   \<and> (\<forall>t\<in>set (snd (inject_delay ts idx rc)). \<exists>u\<in>set ts. skip_traverse t = skip_traverse u
        \<and> dev_mask t = dev_mask u
        \<and> (\<forall>i. ts_state (tbl_slot t i) = ts_state (tbl_slot u i)
               \<and> req_ready_map (tbl_slot t i) = req_ready_map (tbl_slot u i)))"
proof (induction ts arbitrary: idx rc)
  case (Cons t ts)
  show ?case
    using Cons.IH [of "dec_idx idx (pd_delta t) (tbl_num_slots t)" "- EAGAIN"]
      Cons.IH [of "dec_idx idx (pd_delta t) (tbl_num_slots t)" rc]
    by (auto simp: Let_def split_beta)
qed simp

lemma skip_down_sel:
  "tshape (skip_down t) = tshape t" "0 \<le> skip_traverse t \<Longrightarrow> 0 \<le> skip_traverse (skip_down t)"
  "tbl_slot (skip_down t) = tbl_slot t" "dev_mask (skip_down t) = dev_mask t"
  by (auto simp: skip_down_def tshape_def)

lemma traverse_tables:
  "(\<forall>t\<in>set (fst (snd (traverse vo q ts idx td))). \<exists>u\<in>set ts. t = u \<or> t = skip_down u)
   \<and> map tshape (fst (snd (traverse vo q ts idx td))) = map tshape ts"
proof (induction vo q ts idx td rule: traverse.induct)
  case (2 vo q t ts idx td)
  show ?case
    using "2.IH" by (cases "ts = []") (auto simp: record_apply_eq Let_def split_beta skip_down_sel)
qed simp

lemma upd_tbl_good:
  assumes "\<forall>t\<in>set ts. 0 \<le> skip_traverse t \<and> (\<forall>i. tslot_ok (dev_mask t) (tbl_slot t i))"
    and "\<And>t s. t \<in> set ts \<Longrightarrow> tbl_pd t = pd \<Longrightarrow> tslot_ok (dev_mask t) s \<Longrightarrow> tslot_ok (dev_mask t) (f s)"
  shows "\<forall>t\<in>set (upd_tbl pd (upd_tslot idx f) ts). 0 \<le> skip_traverse t \<and> (\<forall>i. tslot_ok (dev_mask t) (tbl_slot t i))"
  using assms by (auto simp: upd_tbl_def)

lemma link_wf_set_tslot:
  assumes "link_wf l"
    and "\<And>t s. t \<in> set (l_tbl l) \<Longrightarrow> tbl_pd t = the (pd_tbl d) \<Longrightarrow> tslot_ok (dev_mask t) s
           \<Longrightarrow> tslot_ok (dev_mask t) (f s)"
  shows "link_wf (set_tslot d idx f l)"
  unfolding set_tslot_def
  by (rule link_wf_tbls [OF assms(1)], rule upd_tbl_shape, simp, rule upd_tbl_good)
    (use assms(2) tbls_of_wf [OF assms(1)] in auto)

section \<open>The operations satisfy the interface\<close>

interpretation inject_call: link_call "link_inject_delay idx" for idx
proof
  fix l
  assume wf: "link_wf l"
  note s = inject_delay_shape [of "l_tbl l" idx 0]
  have "link_wf (l\<lparr>l_tbl := snd (inject_delay (l_tbl l) idx 0)\<rparr>)"
  proof (rule link_wf_tbls [OF wf])
    show "\<forall>t\<in>set (snd (inject_delay (l_tbl l) idx 0)). 0 \<le> skip_traverse t \<and> (\<forall>i. tslot_ok (dev_mask t) (tbl_slot t i))"
    proof
      fix t
      assume "t \<in> set (snd (inject_delay (l_tbl l) idx 0))"
      then obtain u where u: "u \<in> set (l_tbl l)" "skip_traverse t = skip_traverse u" "dev_mask t = dev_mask u"
        "\<forall>i. ts_state (tbl_slot t i) = ts_state (tbl_slot u i) \<and> req_ready_map (tbl_slot t i) = req_ready_map (tbl_slot u i)"
        using s by blast
      show "0 \<le> skip_traverse t \<and> (\<forall>i. tslot_ok (dev_mask t) (tbl_slot t i))"
        using tbls_of_wf [OF wf u(1)] u(2-4) by (simp add: tslot_ok_def)
    qed
  qed (use s in blast)
  then show "link_wf (snd (link_inject_delay idx l))" by (simp add: link_inject_delay_def split_beta Let_def)
qed (simp add: link_inject_delay_def split_beta Let_def)

interpretation ready_call: link_call "check_link_is_ready idx vo" for idx vo
proof
  fix l
  assume wf: "link_wf l"
  have "link_wf (l'\<lparr>l_tbl := fst (snd (traverse vo (qof l') (l_tbl l') idx td))\<rparr>)" if wf': "link_wf l'" for l' td
  proof (rule link_wf_tbls [OF wf'])
    show "\<forall>t\<in>set (fst (snd (traverse vo (qof l') (l_tbl l') idx td))).
        0 \<le> skip_traverse t \<and> (\<forall>i. tslot_ok (dev_mask t) (tbl_slot t i))"
    proof
      fix t
      assume "t \<in> set (fst (snd (traverse vo (qof l') (l_tbl l') idx td)))"
      then obtain u where "u \<in> set (l_tbl l')" "t = u \<or> t = skip_down u" using traverse_tables by blast
      then show "0 \<le> skip_traverse t \<and> (\<forall>i. tslot_ok (dev_mask t) (tbl_slot t i))"
        using tbls_of_wf [OF wf'] by (auto simp: skip_down_sel)
    qed
  qed (use traverse_tables in blast)
  then show "link_wf (snd (check_link_is_ready idx vo l))"
    using wf by (simp add: check_link_is_ready_def split_beta Let_def)
qed (simp add: check_link_is_ready_def split_beta Let_def)

interpretation next_call: link_call check_next_req_slot
proof
  fix l
  assume wf: "link_wf l"
  have "q_ok ((in_q_skip_idx i q)\<lparr>wr_idx := inc_idx (wr_idx q) 1 (num_slots q)\<rparr>)" if "q_ok q" for q i
    using q_ok_wr [OF q_ok_skip [OF that, of i]] by simp
  then show "link_wf (snd (check_next_req_slot l))"
    using link_wf_upd_q [OF wf] wf by (simp add: check_next_req_slot_def Let_def)
qed (simp add: check_next_req_slot_def Let_def)

interpretation flush_op: link_op flush_req_slot
proof
  fix l
  assume wf: "link_wf l"
  let ?f = "\<lambda>q. q\<lparr>q_slot := for_slots (num_slots (qof l)) (\<lambda>i s. s\<lparr>sl_req_id := - 1, skip_idx := 1, recover := 0,
                additional_timeout := 0, sl_sync_mode := 0, sl_status := CRM_SLOT_STATUS_NO_REQ\<rparr>) (q_slot q),
              wr_idx := 0, rd_idx := 0\<rparr>"
  have "q_ok (?f q)" if "q_ok q" for q using that by (simp add: q_ok_def for_slots_def)
  from link_wf_upd_q [OF wf this]
  have "link_wf (upd_q ?f l)" .
  then show "link_wf (flush_req_slot l)"
    unfolding flush_req_slot_def Let_def
    by (rule link_wf_tbls)
      (use tbls_of_wf [OF wf] wf in \<open>auto simp: tshape_def for_slots_def tslot_ok_def link_wf_def tbl_good_def\<close>)
qed (simp add: flush_req_slot_def Let_def)

interpretation reset_op: link_op "reset_req_slot idx" for idx
proof
  fix l
  assume wf: "link_wf l"
  let ?f = "upd_slot idx (\<lambda>s. s\<lparr>sl_req_id := - 1, skip_idx := 0, recover := 0,
                additional_timeout := 0, sl_sync_mode := CAM_REQ_MGR_SYNC_MODE_NO_SYNC,
                sl_status := CRM_SLOT_STATUS_NO_REQ\<rparr>)"
  have "q_ok (?f q)" if "q_ok q" for q using that by (simp add: q_ok_upd_slot)
  from link_wf_upd_q [OF wf this]
  have "link_wf (upd_q ?f l)" .
  then have "link_wf ((upd_q ?f l)\<lparr>l_tbl := map (upd_tslot idx (\<lambda>s. s\<lparr>req_ready_map := 0, ts_state := CRM_REQ_STATE_EMPTY\<rparr>))
                    (l_tbl l)\<rparr>)"
    by (rule link_wf_tbls)
      (use tbls_of_wf [OF wf] wf in \<open>auto simp: tslot_ok_def link_wf_def tbl_good_def\<close>)
  then show "link_wf (reset_req_slot idx l)"
    using wf by (simp add: reset_req_slot_def Let_def)
qed (simp add: reset_req_slot_def Let_def)

section \<open>Delivery\<close>

lemma set_tslot_sel [simp]: "sync_link (set_tslot d idx f l) = sync_link l"
  by (simp add: set_tslot_def)

lemma send_alone_wf:
  "link_wf l \<Longrightarrow> send_alone_loop env trigger ds l tr = Some (rc, l', tr', dev) \<Longrightarrow>
     link_wf l' \<and> sync_link l' = sync_link l"
proof (induction ds arbitrary: tr)
  case (Cons d ds)
  have "link_wf (set_tslot d idx (\<lambda>s. s\<lparr>skip_next_frame := False, is_applied := True\<rparr>) l)" for idx
    by (rule link_wf_set_tslot [OF Cons.prems(1)]) (simp add: tslot_ok_def)
  then show ?case
    using Cons by (auto simp: Let_def split_beta split: if_splits)
qed simp

lemma send_all_wf:
  "link_wf l \<Longrightarrow> send_all_loop env trigger ds seen rc l tr = (rc', l', r) \<Longrightarrow>
     link_wf l' \<and> sync_link l' = sync_link l"
proof (induction ds arbitrary: seen rc l tr)
  case (Cons d ds)
  have "link_wf (set_tslot d idx (\<lambda>s. s\<lparr>is_applied := False\<rparr>) l)" for idx
    by (rule link_wf_set_tslot [OF Cons.prems(1)]) (simp add: tslot_ok_def)
  then show ?case
    using Cons.IH [of "set_tslot d (a_idx (apply_data l (s32 (p_delay d)))) (\<lambda>s. s\<lparr>is_applied := False\<rparr>) l"]
      Cons.IH [of l] Cons.prems
    by (auto simp: Let_def split_beta split: if_splits)
qed simp

lemma send_req_wf:
  assumes "link_wf l" "send_req env trigger l tr = (rc, l', tr', dev)"
  shows "link_wf l' \<and> sync_link l' = sync_link l"
proof (cases "send_alone_loop env trigger (take (num_devs l) (l_dev l)) l tr")
  case None
  obtain r1 l1 rest where e: "send_all_loop env trigger (take (num_devs l) (l_dev l)) [] 0 l tr = (r1, l1, rest)"
    by (metis prod.exhaust)
  then have "l' = l1"
    using None assms(2) by (cases rest) (auto simp: send_req_def Let_def split: if_splits)
  then show ?thesis using send_all_wf [OF assms(1) e] by simp
next
  case (Some r)
  then show ?thesis
    using assms send_alone_wf [OF assms(1)] by (cases r) (auto simp: send_req_def Let_def)
qed

lemma validate_wd_wf [simp]:
  "link_wf (fst (validate_crm_wd_timer l tr)) = link_wf l"
  "sync_link (fst (validate_crm_wd_timer l tr)) = sync_link l"
  "retry_cnt (fst (validate_crm_wd_timer l tr)) = retry_cnt l"
  by (auto simp: validate_crm_wd_timer_def Let_def split_beta split: option.splits)

section \<open>Handlers\<close>

lemma crm_wf_upd_simple:
  assumes "crm_wf I c" "\<And>l. link_wf l \<Longrightarrow> link_wf (f l)" "\<And>l. sync_link (f l) = sync_link l"
  shows "crm_wf I (upd_link i f c)"
  using assms by (auto simp: crm_wf_def)

lemma crm_wf_put:
  assumes "crm_wf I c" "i \<in> I \<Longrightarrow> link_wf l" "sync_link l = sync_link (g_links c i)"
  shows "crm_wf I (upd_link i (\<lambda>_. l) c)"
  using assms by (auto simp: crm_wf_def)

lemma crm_wf_upd_q:
  assumes "crm_wf I c" "\<And>q. q_ok q \<Longrightarrow> q_ok (f q)"
  shows "crm_wf I (upd_link i (upd_q f) c)"
  by (rule crm_wf_upd_simple [OF assms(1)]) (simp_all add: link_wf_upd_q assms(2))

lemma crm_wf_sof_skip: "crm_wf I c \<Longrightarrow> crm_wf I (sof_skip i c)"
  unfolding sof_skip_def by (rule crm_wf_upd_simple) simp_all

lemma crm_wf_set_status: "crm_wf I c \<Longrightarrow> crm_wf I (set_status i s st c)"
  unfolding set_status_def by (rule crm_wf_upd_q) (simp_all add: q_ok_upd_slot)

lemmas crm_wf_intros = crm_wf_sof_skip crm_wf_set_status inject_call.on ready_call.on next_call.on
  flush_op.upd reset_op.upd

lemma mslave_peer_wf:
  assumes "crm_wf I c"
  shows "case mslave_peer i j r c of Inl x \<Rightarrow> crm_wf I (snd x) | Inr c' \<Rightarrow> crm_wf I c'"
  using assms
  by (auto simp: mslave_peer_def Let_def split_beta crm_wf_sof_skip ready_call.on)

lemma check_sync_for_mslave_wf:
  assumes "crm_wf I c"
  shows "crm_wf I (snd (check_sync_for_mslave i s c))"
proof (cases "sync_link (g_links c i)")
  case (Some j)
  have u: "crm_wf I (upd_link k (\<lambda>l. l\<lparr>initial_skip := False\<rparr>) c)"
    "crm_wf I (upd_link k (\<lambda>l. l\<lparr>sync_link_sof_skip := False\<rparr>) c)" for k
    by (rule crm_wf_upd_simple [OF assms]; simp)+
  note ready_call.on [intro] inject_call.on [intro] crm_wf_sof_skip [intro]
  have peer: "crm_wf I (snd (case mslave_peer i j r c' of Inl x \<Rightarrow> x
       | Inr c3 \<Rightarrow> (0, snd (on_link i (check_link_is_ready k False) c3))))" if "crm_wf I c'" for r c' k
    using mslave_peer_wf [OF that, of i j r] by (auto split: sum.splits)
  show ?thesis
    unfolding check_sync_for_mslave_def Some option.case Let_def split_beta
    using assms u by (simp add: peer inject_call.on ready_call.on crm_wf_sof_skip)
qed (simp add: check_sync_for_mslave_def assms)

lemma sync_self_correct_wf: "crm_wf I c \<Longrightarrow> crm_wf I (snd (sync_self_correct i j k r s c))"
  by (simp add: sync_self_correct_def Let_def ready_call.on crm_wf_sof_skip)

lemma check_sync_req_is_ready_wf:
  assumes "crm_wf I c"
  shows "crm_wf I (snd (check_sync_req_is_ready i s c))"
proof (cases "sync_link (g_links c i)")
  case (Some j)
  have u: "crm_wf I (upd_link k (\<lambda>l. l\<lparr>initial_skip := False\<rparr>) c')"
    "crm_wf I (upd_link k (\<lambda>l. l\<lparr>sync_link_sof_skip := False\<rparr>) c')" if "crm_wf I c'" for k c'
    by (rule crm_wf_upd_simple [OF that]; simp)+
  show ?thesis
    unfolding check_sync_req_is_ready_def Some option.case Let_def split_beta
    using assms u by (simp add: inject_call.on ready_call.on crm_wf_sof_skip sync_self_correct_wf)
qed (simp add: check_sync_req_is_ready_def assms)

lemma no_sync_check_wf:
  assumes "crm_wf I c"
  shows "crm_wf I (snd (no_sync_check i s c))"
proof -
  have u: "crm_wf I (upd_link k (\<lambda>l. l\<lparr>in_msync_mode := False, initial_sync_req := - 1\<rparr>) c')"
    "crm_wf I (upd_link k (\<lambda>l. l\<lparr>initial_sync_req := - 1, in_msync_mode := False\<rparr>) c')" if "crm_wf I c'" for k c'
    by (rule crm_wf_upd_simple [OF that]; simp)+
  show ?thesis
    unfolding no_sync_check_def Let_def split_beta
    using assms u by (auto simp: inject_call.on ready_call.on split: option.splits)
qed

lemma process_sof_wf:
  assumes "crm_wf I c"
  shows "case process_sof i s trig c of Inl x \<Rightarrow> crm_wf I (snd x) | Inr c' \<Rightarrow> crm_wf I c'"
proof -
  let ?c = "upd_link i (\<lambda>l. l\<lparr>prev_sof_timestamp := sof_timestamp l, sof_timestamp := tn_sof_timestamp_val trig\<rparr>) c"
  have c: "crm_wf I ?c" by (rule crm_wf_upd_simple [OF assms]) simp_all
  have m: "crm_wf I (upd_link i (\<lambda>l. l\<lparr>in_msync_mode := True\<rparr>) ?c)" by (rule crm_wf_upd_simple [OF c]) simp_all
  show ?thesis
    unfolding process_sof_def Let_def split_beta
    using c m by (simp add: check_sync_for_mslave_wf check_sync_req_is_ready_wf no_sync_check_wf crm_wf_set_status)
qed

lemma request_applied_wf:
  assumes "crm_wf I c"
  shows "crm_wf I (request_applied i s c)"
proof -
  have t: "crm_wf I (upd_link k (\<lambda>l. l\<lparr>trigger_mask := 0\<rparr>) c')"
    "crm_wf I (upd_link k (\<lambda>l. l\<lparr>open_req_cnt := open_req_cnt l - 1\<rparr>) c')"
    "crm_wf I (upd_link k (upd_q (\<lambda>q. q\<lparr>last_applied_idx := x\<rparr>)) c')" if "crm_wf I c'" for k c' x
    by (rule crm_wf_upd_simple [OF that]; simp add: link_wf_upd_q)+
  show ?thesis
    unfolding request_applied_def Let_def
    using assms by (simp add: t reset_op.upd crm_wf_set_status)
qed

lemma retry_no_overflow: "r < 2 \<Longrightarrow> r + 1 \<noteq> 2 \<Longrightarrow> r + 1 < (2 :: u32)"
  by (metis add.commute inc_le not_le one_add_one order.order_iff_strict add_right_cancel)

lemma notify_error_links [simp]: "g_links (snd (notify_error_on_link env i dev c)) = g_links c"
  by (simp add: notify_error_on_link_def emit_def do_call_def Let_def split: option.splits)

lemma crm_wf_cong: "g_links c' = g_links c \<Longrightarrow> crm_wf I c' = crm_wf I c"
  by (simp add: crm_wf_def)

lemma process_apply_wf:
  assumes c: "crm_wf I c" and i: "i \<in> I"
  shows "crm_wf I (snd (process_apply env i s trigger c))"
proof -
  obtain rc l1 tr1 dev where e: "send_req env trigger (g_links c i) (crm_calls c) = (rc, l1, tr1, dev)"
    by (metis prod.exhaust)
  have l1: "link_wf l1" "sync_link l1 = sync_link (g_links c i)"
    using send_req_wf [OF crm_wf_link [OF c i] e] by auto
  let ?c2 = "(upd_link i (\<lambda>_. l1) c)\<lparr>crm_calls := tr1\<rparr>"
  have c2: "crm_wf I ?c2" using crm_wf_put [OF c] l1 by simp
  let ?p = "set_status i s CRM_SLOT_STATUS_REQ_PENDING ?c2"
  let ?c3 = "upd_link i (\<lambda>l. l\<lparr>retry_cnt := retry_cnt l + 1\<rparr>) ?p"
  have p: "crm_wf I ?p" by (rule crm_wf_set_status [OF c2])
  have r2: "retry_cnt (g_links ?p i) < 2" using crm_wf_link [OF p i] by (simp add: link_wf_def)
  have fail: "crm_wf I ?c3" if "retry_cnt (g_links ?c3 i) \<noteq> 2"
    using p retry_no_overflow [OF r2] that i by (auto simp: crm_wf_def link_wf_retry)
  have max: "crm_wf I (upd_link i (\<lambda>l. l\<lparr>retry_cnt := 0\<rparr>) (snd (notify_error_on_link env i dev ?c3)))"
    using p by (auto simp: crm_wf_def link_wf_retry)
  let ?l2 = "l1\<lparr>retry_cnt := 0, trigger_mask := trigger_mask l1 OR trigger\<rparr>"
  have l2: "link_wf ?l2" "sync_link ?l2 = sync_link l1" using l1 by (simp_all add: link_wf_retry)
  have c4: "crm_wf I ((upd_link i (\<lambda>_. (fst (validate_crm_wd_timer ?l2 tr1))\<lparr>link_state := st, sync_link_sof_skip := False\<rparr>) ?c2)
      \<lparr>crm_calls := tr'\<rparr>)" for st tr'
    using crm_wf_put [OF c2, of i] l2 l1 by simp
  show ?thesis
  proof (cases "rc < 0")
    case True
    then show ?thesis
      unfolding process_apply_def e Let_def prod.case using fail max by simp
  next
    case False
    then show ?thesis
      unfolding process_apply_def e Let_def prod.case split_beta using c4 request_applied_wf by simp
  qed
qed

lemma process_req_wf:
  assumes "crm_wf I c" "i \<in> I"
  shows "crm_wf I (snd (process_req env i trig c))"
  unfolding process_req_def Let_def
  using assms process_apply_wf process_sof_wf [OF assms(1), of i "rd_idx (qof (g_links c i))" trig]
  by (auto split: sum.splits)

lemma flush_devices_links [simp]: "g_links (snd (flush_devices env fi ds rc c)) = g_links c"
  by (induction ds arbitrary: rc c) (auto simp: Let_def split_beta emit_def do_call_def)

lemma error_events_links [simp]: "g_links (snd (error_events env e h ds rc c)) = g_links c"
  by (induction ds arbitrary: rc c) (auto simp: Let_def split_beta emit_def do_call_def)

lemma flush_devices_wf [simp]: "crm_wf I (snd (flush_devices env fi ds rc c)) = crm_wf I c"
  by (rule crm_wf_cong) simp

lemma error_events_wf [simp]: "crm_wf I (snd (error_events env e h ds rc c)) = crm_wf I c"
  by (rule crm_wf_cong) simp

lemma process_flush_req_wf:
  assumes "crm_wf I c"
  shows "crm_wf I (snd (cam_req_mgr_process_flush_req env i fi c))"
proof -
  have a: "crm_wf I (upd_link i (\<lambda>l. flush_req_slot (l\<lparr>last_flush_id := k\<rparr>)) c)" for k
    by (rule crm_wf_upd_simple [OF assms]) (simp_all add: flush_op.keeps_wf flush_op.keeps_sync)
  have b: "crm_wf I (upd_link i (upd_q (\<lambda>q. in_q_skip_idx idx (upd_slot idx (\<lambda>s. s\<lparr>additional_timeout := 0\<rparr>) q))) c)" for idx
    by (rule crm_wf_upd_q [OF assms]) (simp add: q_ok_skip q_ok_upd_slot)
  show ?thesis
    unfolding cam_req_mgr_process_flush_req_def Let_def split_beta using assms a b by simp
qed

lemma process_sched_req_wf:
  assumes "crm_wf I c"
  shows "crm_wf I (snd (cam_req_mgr_process_sched_req i sr c))"
proof -
  let ?c1 = "upd_link i (upd_q (upd_slot (wr_idx (qof (g_links c i))) (\<lambda>s. s\<lparr>sl_status := CRM_SLOT_STATUS_REQ_ADDED,
                 sl_req_id := sr_req_id sr, sl_sync_mode := sr_sync_mode sr, skip_idx := 0,
                 recover := sr_bubble_enable sr,
                 additional_timeout := clamp_timeout (sr_additional_timeout sr)\<rparr>))) c"
  let ?c2 = "upd_link i (\<lambda>l. upd_q (\<lambda>q. q\<lparr>wr_idx := inc_idx (wr_idx q) 1 (num_slots q)\<rparr>)
                 (l\<lparr>open_req_cnt := open_req_cnt l + 1\<rparr>)) ?c1"
  have "crm_wf I ?c1" by (rule crm_wf_upd_q [OF assms]) (simp add: q_ok_upd_slot)
  then have c2: "crm_wf I ?c2"
    by (rule crm_wf_upd_simple) (simp_all add: link_wf_upd_q q_ok_wr)
  have u: "crm_wf I (upd_link k (\<lambda>l. l\<lparr>initial_sync_req := - 1\<rparr>) c')"
    "crm_wf I (upd_link k (\<lambda>l. if initial_sync_req l = - 1 then l\<lparr>initial_sync_req := r\<rparr> else l) c')"
    if "crm_wf I c'" for k c' r
    by (rule crm_wf_upd_simple [OF that]; simp)+
  show ?thesis
    unfolding cam_req_mgr_process_sched_req_def Let_def snd_conv
    using c2 u [OF c2] u(1) [OF u(1) [OF c2]] by (auto split: option.split)
qed

lemma add_to_slot_ok:
  assumes "tslot_ok m s" "shl1 b AND NOT m = 0"
  shows "tslot_ok m (add_to_slot ar b m s)"
  using assms by (auto simp: tslot_ok_def add_to_slot_def Let_def bit.conj_disj_distrib2)

lemma shl1_in_mask: "0 \<le> b \<Longrightarrow> b < n \<Longrightarrow> shl1 b AND NOT (mask (nat n)) = 0"
  by (rule bit_word_eqI) (auto simp: shl1_def bit_simps simp del: push_bit_of_1)

text \<open>The table of a device is in the list, and the device has a bit of its mask.\<close>

lemma dev_table:
  assumes wf: "link_wf l" and d: "d \<in> set (take (num_devs l) (l_dev l))"
  shows "pd_tbl d = Some (p_delay d) \<and> tbl_of l d \<in> set (l_tbl l) \<and> tbl_pd (tbl_of l d) = p_delay d
     \<and> 0 \<le> dev_bit d \<and> dev_bit d < dev_count (tbl_of l d)"
proof -
  have dev: "pd_tbl d = Some (p_delay d)" "\<exists>t\<in>set (l_tbl l). tbl_pd t = p_delay d"
    using wf d by (auto simp: link_wf_def devs_ok_def)
  then obtain t where t: "t \<in> set (l_tbl l)" "tbl_pd t = p_delay d" by blast
  then have tof: "tbl_of l d = t"
    using tbls_ok_find [of "l_tbl l" t] wf dev(1) by (simp add: tbl_of_def link_wf_def)
  have "dev_bit d \<in> set (map dev_bit (filter (\<lambda>d. p_delay d = tbl_pd t) (take (num_devs l) (l_dev l))))"
    using d t(2) by simp
  also have "\<dots> = set [0..dev_count t - 1]" using wf t(1) by (auto simp: link_wf_def devs_ok_def)
  finally show ?thesis using dev(1) t tof by auto
qed

lemma same_table: "link_wf l \<Longrightarrow> t \<in> set (l_tbl l) \<Longrightarrow> u \<in> set (l_tbl l) \<Longrightarrow> tbl_pd t = tbl_pd u \<Longrightarrow> t = u"
  using tbls_ok_distinct [of "l_tbl l"] by (auto simp: link_wf_def distinct_map inj_on_def)

lemma add_req_link_wf:
  assumes wf: "link_wf l" and d: "d \<in> set (take (num_devs l) (l_dev l))"
  shows "link_wf (set_tslot d idx (add_to_slot ar (dev_bit d) (dev_mask (tbl_of l d))) l)"
proof (rule link_wf_set_tslot [OF wf])
  fix t s
  assume t: "t \<in> set (l_tbl l)" "tbl_pd t = the (pd_tbl d)" and ok: "tslot_ok (dev_mask t) s"
  note dt = dev_table [OF wf d]
  have eq: "tbl_of l d = t" by (rule same_table [OF wf]) (use dt t in auto)
  have "dev_mask t = mask (nat (dev_count t))" using wf t(1) by (auto simp: link_wf_def tbl_good_def)
  then have "shl1 (dev_bit d) AND NOT (dev_mask t) = 0" using shl1_in_mask dt eq by simp
  then show "tslot_ok (dev_mask t) (add_to_slot ar (dev_bit d) (dev_mask (tbl_of l d)) s)"
    using add_to_slot_ok [OF ok] eq by simp
qed

lemma find_Some_mem: "find P xs = Some x \<Longrightarrow> x \<in> set xs \<and> P x"
  by (metis find_Some_iff nth_mem)

lemma process_add_req_wf:
  assumes "crm_wf I c"
  shows "crm_wf I (snd (cam_req_mgr_process_add_req i ar c))"
proof (cases "find (\<lambda>d. dev_hdl d = ar_dev_hdl ar) (take (num_devs (g_links c i)) (l_dev (g_links c i)))")
  case (Some d)
  have d: "d \<in> set (take (num_devs (g_links c i)) (l_dev (g_links c i)))" using find_Some_mem [OF Some] by blast
  have "crm_wf I (upd_link i (set_tslot d idx (add_to_slot ar (dev_bit d) (dev_mask (tbl_of (g_links c i) d)))) c)" for idx
    using assms add_req_link_wf [OF _ d] by (auto simp: crm_wf_def)
  then show ?thesis using assms by (simp add: cam_req_mgr_process_add_req_def Some Let_def)
qed (simp add: cam_req_mgr_process_add_req_def assms)

lemma rewind_to_wf:
  assumes "crm_wf I c" "0 \<le> idx" "idx < 48"
  shows "crm_wf I (rewind_to i idx c)"
proof -
  have tb: "link_wf (l\<lparr>l_tbl := tbl_set_all_skip_cnt (l_tbl l)\<rparr>)" if wf: "link_wf l" for l
  proof -
    obtain t ts where l: "l_tbl l = t # ts" using wf by (cases "l_tbl l") (auto simp: link_wf_def)
    then have ok: "tbls_ok (t # ts)" using wf by (simp add: link_wf_def)
    show ?thesis
      by (rule link_wf_tbls [OF wf])
        (use tbls_of_wf [OF wf] l tbls_ok_below [OF ok] in \<open>auto simp: tbl_set_all_skip_cnt_def tshape_def intro: less_imp_le\<close>)
  qed
  have q1: "q_ok (upd_slot idx (\<lambda>s. s\<lparr>sl_status := st\<rparr>) (q\<lparr>rd_idx := idx\<rparr>))" if "q_ok q" for q st
    by (rule q_ok_upd_slot) (use that assms in \<open>simp_all add: q_ok_def\<close>)
  have q2: "q_ok (upd_slot k (\<lambda>s. s\<lparr>sl_sync_mode := 0\<rparr>) (upd_slot idx (\<lambda>s. s\<lparr>sl_sync_mode := 0\<rparr>) q))"
    if "q_ok q" for q k by (rule q_ok_upd_slot, rule q_ok_upd_slot [OF that]) simp_all
  show ?thesis
    unfolding rewind_to_def Let_def
    by (rule crm_wf_upd_simple [OF assms(1)])
      (simp_all add: link_wf_upd_q tb q1 q2)
qed

lemma process_error_wf:
  assumes "crm_wf I c" "i \<in> I"
  shows "crm_wf I (snd (cam_req_mgr_process_error env i e c))"
proof -
  let ?idx = "find_slot_for_req (qof (g_links c i)) (s64 (en_req_id e))"
  have q: "q_ok (qof (g_links c i))" using link_wf_q crm_wf_link [OF assms] by blast
  have r: "crm_wf I (rewind_to i ?idx c')" if "crm_wf I c'" "\<not> ?idx < 0" for c'
    using q by (cases rule: find_slot_cases [of _ "s64 (en_req_id e)"]) (use that rewind_to_wf in auto)
  show ?thesis
    unfolding cam_req_mgr_process_error_def apply_on_bubble_def Let_def split_beta
    using assms r process_req_wf by simp
qed

lemma process_trigger_wf:
  assumes "crm_wf I c" "i \<in> I"
  shows "crm_wf I (snd (cam_req_mgr_process_trigger env i trig c))"
proof -
  have f: "crm_wf I (upd_link i (trigger_free_slot trig) c)"
    by (rule crm_wf_upd_simple [OF assms(1)])
      (simp_all add: trigger_free_slot_def Let_def reset_op.keeps_wf reset_op.keeps_sync link_wf_upd_q)
  have s: "crm_wf I (upd_link i step_rd c')" if "crm_wf I c'" for c'
    unfolding step_rd_def by (rule crm_wf_upd_q [OF that]) (rule q_ok_rd)
  show ?thesis
    unfolding cam_req_mgr_process_trigger_def Let_def split_beta
    using f s next_call.on [OF f] process_req_wf [OF _ assms(2)] by simp
qed

lemma process_send_req_wf:
  assumes "crm_wf I c" "i \<in> I"
  shows "crm_wf I (snd (process_send_req env i c))"
proof -
  obtain rc l1 tr1 dev where e: "send_req env CAM_TRIGGER_POINT_SOF (g_links c i) (crm_calls c) = (rc, l1, tr1, dev)"
    by (metis prod.exhaust)
  show ?thesis
    using crm_wf_put [OF assms(1)] send_req_wf [OF crm_wf_link [OF assms] e] by (simp add: process_send_req_def e)
qed

lemma process_stop_wf: "crm_wf I c \<Longrightarrow> crm_wf I (snd (cam_req_mgr_process_stop i c))"
  by (simp add: cam_req_mgr_process_stop_def flush_op.upd)

lemma process_sof_freeze_wf: "crm_wf I c \<Longrightarrow> crm_wf I (snd (process_sof_freeze env i c))"
  by (auto simp: process_sof_freeze_def Let_def emit_def do_call_def split: option.splits)

end
