(* ===== verification/Cam_Crm_Conn.thy ===== *)
theory Cam_Crm_Conn
  imports Cam_Crm_Pres
begin

text \<open>Setting up a link gives a well-formed link: the lemmas on the two loops over the devices.\<close>

section \<open>Inserting a table\<close>

text \<open>The content of a table apart from the distance to the next one.\<close>

definition tcore :: "cam_req_mgr_req_tbl \<Rightarrow> int \<times> int \<times> u32 \<times> (int \<Rightarrow> cam_req_mgr_tbl_slot)" where
  "tcore t = (tbl_pd t, dev_count t, dev_mask t, tbl_slot t)"

lemma add_after_ok:
  assumes "tbls_ok (t # ts)" "tbl_ok new" "tbl_pd new < tbl_pd t" "tbl_pd new \<notin> tbl_pd ` set ts"
  shows "tbls_ok (add_after t ts new) \<and> tcore ` set (add_after t ts new) = insert (tcore new) (tcore ` set (t # ts))
     \<and> tbl_pd (hd (add_after t ts new)) = tbl_pd t \<and> add_after t ts new \<noteq> []"
  using assms
proof (induction ts arbitrary: t)
  case (Cons u us)
  show ?case
  proof (cases "tbl_pd new < tbl_pd u")
    case True
    have "tbls_ok (add_after u us new) \<and> tcore ` set (add_after u us new) = insert (tcore new) (tcore ` set (u # us))
       \<and> tbl_pd (hd (add_after u us new)) = tbl_pd u \<and> add_after u us new \<noteq> []"
      by (rule Cons.IH) (use Cons.prems True in auto)
    note ih = this
    then obtain v vs where v: "add_after u us new = v # vs" by (cases "add_after u us new") auto
    have "tbls_ok (t # v # vs)" using ih Cons.prems(1) by (simp add: v)
    then show ?thesis using ih True by (simp add: v insert_commute)
  next
    case False
    then have "tbl_pd u < tbl_pd new" using Cons.prems(4) by auto
    then show ?thesis using False Cons.prems by (auto simp: tcore_def tbl_ok_def)
  qed
qed (auto simp: tcore_def tbl_ok_def)

lemma add_tbl_to_link_ok:
  assumes "tbls_ok ts" "tbl_ok new" "pd_delta new = 0" "tbl_pd new \<notin> tbl_pd ` set ts"
  shows "tbls_ok (add_tbl_to_link ts new)
     \<and> tcore ` set (add_tbl_to_link ts new) = insert (tcore new) (tcore ` set ts)
     \<and> add_tbl_to_link ts new \<noteq> []
     \<and> tbl_pd (hd (add_tbl_to_link ts new)) = (if ts = [] then tbl_pd new else max (tbl_pd new) (tbl_pd (hd ts)))"
proof (cases ts)
  case (Cons t us)
  show ?thesis
  proof (cases "tbl_pd t < tbl_pd new")
    case True
    then show ?thesis using assms Cons by (auto simp: tcore_def tbl_ok_def)
  next
    case False
    then have "tbl_pd new < tbl_pd t" using assms(4) Cons by auto
    then show ?thesis using add_after_ok [of t us new] assms Cons by auto
  qed
qed (use assms in \<open>auto simp: tcore_def\<close>)

section \<open>The loop that connects the devices\<close>

text \<open>
  After the devices \<open>ds\<close> are connected. With \<open>fresh = Some pd\<close> the table for \<open>pd\<close> may still have
  no device.
\<close>

definition conn_inv :: "int option \<Rightarrow> cam_req_mgr_connected_device list \<Rightarrow> cam_req_mgr_core_link \<Rightarrow> bool" where
  "conn_inv fresh ds l \<longleftrightarrow> tbls_ok (l_tbl l) \<and> pd_mask l = tbl_bits (l_tbl l)
     \<and> (\<forall>t\<in>set (l_tbl l). 0 \<le> dev_count t \<and> (fresh \<noteq> Some (tbl_pd t) \<longrightarrow> 0 < dev_count t)
          \<and> dev_mask t = mask (nat (dev_count t)) \<and> tbl_slot t = (\<lambda>_. zero_tslot))
     \<and> devs_ok (l_tbl l) ds"

definition top_ok :: "cam_req_mgr_core_link \<Rightarrow> bool" where
  "top_ok l \<longleftrightarrow> max_delay l = (if l_tbl l = [] then 0 else tbl_pd (hd (l_tbl l)))"

lemma find_pd_tbl_Some:
  assumes "tbls_ok ts" "t \<in> set ts"
  shows "find_pd_tbl ts (tbl_pd t) = Some t"
  using tbls_ok_distinct [OF assms(1)] assms(2) by (induction ts) (auto simp: image_iff)

lemma mask_next: "0 \<le> k \<Longrightarrow> mask (nat (k + 1)) = mask (nat k) OR shl1 k"
  by (simp add: shl1_def nat_add_distrib mask_Suc_exp or.commute)

lemma tbls_ok_upd:
  assumes "tbls_ok ts" "\<And>t. tbl_pd (f t) = tbl_pd t \<and> pd_delta (f t) = pd_delta t
      \<and> tbl_num_slots (f t) = tbl_num_slots t \<and> skip_traverse (f t) = skip_traverse t"
  shows "tbls_ok (map f ts)"
  using assms by (induction ts rule: tbls_ok.induct) (auto simp: tbl_ok_def)

lemma tbl_bits_upd: "(\<And>t. tbl_pd (f t) = tbl_pd t) \<Longrightarrow> tbl_bits (map f ts) = tbl_bits ts"
  by (induction ts) auto

lemma connect_device_inv:
  assumes inv: "conn_inv (Some (p_delay d)) ds l" and t: "t \<in> set (l_tbl l)" "tbl_pd t = p_delay d"
    and e: "connect_device env max_d ev d l tr = (d1, l1, tr1)"
  shows "conn_inv None (ds @ [d1]) l1
     \<and> dev_hdl d1 = dev_hdl d \<and> p_delay d1 = p_delay d
     \<and> tbl_pd (hd (l_tbl l1)) = tbl_pd (hd (l_tbl l)) \<and> l_tbl l1 \<noteq> []
     \<and> max_delay l1 = max (max_delay l) (p_delay d) \<and> in_q l1 = in_q l \<and> retry_cnt l1 = retry_cnt l
     \<and> num_tbl l1 = num_tbl l"
proof -
  let ?f = "\<lambda>t. t\<lparr>dev_count := dev_count t + 1, dev_mask := dev_mask t OR shl1 (dev_bit d1)\<rparr>"
  let ?g = "\<lambda>t. if tbl_pd t = p_delay d then ?f t else t"
  have ok: "tbls_ok (l_tbl l)" using inv by (simp add: conn_inv_def)
  have f: "find_pd_tbl (l_tbl l) (p_delay d) = Some t" using find_pd_tbl_Some [OF ok t(1)] t(2) by simp
  have l1: "l_tbl l1 = map ?g (l_tbl l)" "pd_mask l1 = pd_mask l" "in_q l1 = in_q l" "retry_cnt l1 = retry_cnt l"
    "num_tbl l1 = num_tbl l" "max_delay l1 = max (max_delay l) (p_delay d)"
    and d1: "d1 = d\<lparr>dev_bit := dev_count t, pd_tbl := Some (p_delay d)\<rparr>"
    using e f by (auto simp: connect_device_def Let_def upd_tbl_def do_call_def max_def)
  have uniq: "u = t" if "u \<in> set (l_tbl l)" "tbl_pd u = p_delay d" for u
    using tbls_ok_distinct [OF ok] that t by (auto simp: distinct_map inj_on_def)
  have tabs: "0 \<le> dev_count u \<and> 0 < dev_count u \<and> dev_mask u = mask (nat (dev_count u)) \<and> tbl_slot u = (\<lambda>_. zero_tslot)"
    if mem: "u \<in> set (l_tbl l1)" for u
  proof -
    obtain v where v: "v \<in> set (l_tbl l)" "u = ?g v" using mem l1(1) by auto
    have iv: "0 \<le> dev_count v" "tbl_pd v \<noteq> p_delay d \<longrightarrow> 0 < dev_count v" "dev_mask v = mask (nat (dev_count v))"
      "tbl_slot v = (\<lambda>_. zero_tslot)" using inv v(1) by (auto simp: conn_inv_def)
    show ?thesis
      using iv uniq [OF v(1)] mask_next [of "dev_count v"] by (auto simp: v(2) d1)
  qed
  have bits: "map dev_bit (filter (\<lambda>x. p_delay x = tbl_pd u) (ds @ [d1])) = [0..dev_count u - 1]"
    if mem: "u \<in> set (l_tbl l1)" for u
  proof -
    obtain v where v: "v \<in> set (l_tbl l)" "u = ?g v" using mem l1(1) by auto
    have old: "map dev_bit (filter (\<lambda>x. p_delay x = tbl_pd v) ds) = [0..dev_count v - 1]" "0 \<le> dev_count v"
      using inv v(1) by (auto simp: conn_inv_def devs_ok_def)
    have "[0..dev_count v] = [0..dev_count v - 1] @ [dev_count v]"
      using upto_rec2 [of 0 "dev_count v"] old(2) by simp
    then show ?thesis using old uniq [OF v(1)] by (auto simp: v(2) d1)
  qed
  have tb: "\<exists>u\<in>set (l_tbl l1). tbl_pd u = tbl_pd v" if "v \<in> set (l_tbl l)" for v
    by (rule bexI [of _ "?g v"]) (use that in \<open>simp_all add: l1(1) del: set_map\<close>, simp)
  have dv: "pd_tbl x = Some (p_delay x) \<and> (\<exists>u\<in>set (l_tbl l1). tbl_pd u = p_delay x)" if "x \<in> set (ds @ [d1])" for x
  proof (cases "x \<in> set ds")
    case True
    then have "pd_tbl x = Some (p_delay x)" "\<exists>v\<in>set (l_tbl l). tbl_pd v = p_delay x"
      using inv by (auto simp: conn_inv_def devs_ok_def)
    then show ?thesis using tb by metis
  next
    case False
    then have "x = d1" using that by simp
    then show ?thesis using tb [OF t(1)] t(2) d1 by simp
  qed
  have devs: "devs_ok (l_tbl l1) (ds @ [d1])" using bits dv by (simp add: devs_ok_def)
  have shape: "tbls_ok (l_tbl l1)" "tbl_bits (l_tbl l1) = tbl_bits (l_tbl l)"
    unfolding l1(1) by (rule tbls_ok_upd [OF ok]; simp) (rule tbl_bits_upd; simp)
  have ne: "l_tbl l \<noteq> []" using t(1) by auto
  have "conn_inv None (ds @ [d1]) l1"
    using shape tabs devs inv l1(2) by (simp add: conn_inv_def)
  moreover have "tbl_pd (hd (l_tbl l1)) = tbl_pd (hd (l_tbl l))" "l_tbl l1 \<noteq> []"
    using ne l1(1) by (simp_all add: hd_map)
  ultimately show ?thesis using l1 d1 by simp
qed

lemma bit_tbl_bits_any: "bit (tbl_bits ts) n \<longleftrightarrow> (\<exists>p\<in>tbl_pd ` set ts. bit (shl1 p) n)"
  by (induction ts) (auto simp: bit_or_iff)

lemma new_table_inv:
  assumes inv: "conn_inv None ds l" and pd: "0 \<le> pd" "pd < 3" and clear: "pd_mask l AND shl1 pd = 0"
  defines "new \<equiv> (create_pd_tbl pd)\<lparr>tbl_pd := pd\<rparr>"
  defines "l0 \<equiv> l\<lparr>pd_mask := pd_mask l OR shl1 pd, l_tbl := add_tbl_to_link (l_tbl l) new\<rparr>"
  shows "conn_inv (Some pd) ds l0 \<and> (\<exists>t\<in>set (l_tbl l0). tbl_pd t = pd)
     \<and> l_tbl l0 \<noteq> [] \<and> tbl_pd (hd (l_tbl l0)) = (if l_tbl l = [] then pd else max pd (tbl_pd (hd (l_tbl l))))"
proof -
  have ok: "tbls_ok (l_tbl l)" and bits: "pd_mask l = tbl_bits (l_tbl l)" using inv by (auto simp: conn_inv_def)
  have small: "\<forall>t\<in>set (l_tbl l). 0 \<le> tbl_pd t \<and> tbl_pd t < 32"
    using tbls_ok_all [OF ok] by (force simp: tbl_ok_def)
  have new: "tbl_ok new" "pd_delta new = 0" "tbl_pd new = pd" "dev_count new = 0" "dev_mask new = 0"
    "tbl_slot new = (\<lambda>_. zero_tslot)"
    using pd by (auto simp: new_def create_pd_tbl_def tbl_ok_def)
  have "\<not> bit (pd_mask l) (nat pd)"
  proof
    assume "bit (pd_mask l) (nat pd)"
    then have "bit (pd_mask l AND shl1 pd) (nat pd)" using pd by (simp add: bit_and_iff bit_shl1)
    then show False using clear by simp
  qed
  then have nin: "tbl_pd new \<notin> tbl_pd ` set (l_tbl l)"
    using bit_tbl_bits [OF small] pd bits new(3) by fastforce
  note add = add_tbl_to_link_ok [OF ok new(1,2) nin]
  have ts: "l_tbl l0 = add_tbl_to_link (l_tbl l) new" by (simp add: l0_def)
  have mem: "tcore u = tcore new \<or> (\<exists>v\<in>set (l_tbl l). tcore u = tcore v)" if "u \<in> set (l_tbl l0)" for u
    using add that ts by (metis (no_types, lifting) image_iff insert_iff)
  have bk: "\<exists>u\<in>set (l_tbl l0). tcore u = tcore v" if "v \<in> insert new (set (l_tbl l))" for v
    using add that ts by (metis (no_types, lifting) image_iff insert_iff)
  have "fst ` tcore ` set (l_tbl l0) = fst ` insert (tcore new) (tcore ` set (l_tbl l))" using add ts by simp
  then have pds: "tbl_pd ` set (l_tbl l0) = insert pd (tbl_pd ` set (l_tbl l))"
    using new(3) by (simp add: image_image tcore_def)
  have mask: "tbl_bits (l_tbl l0) = tbl_bits (l_tbl l) OR shl1 pd"
    by (rule bit_eqI) (auto simp: bit_or_iff bit_tbl_bits_any pds)
  have tabs: "0 \<le> dev_count u \<and> (Some pd \<noteq> Some (tbl_pd u) \<longrightarrow> 0 < dev_count u)
      \<and> dev_mask u = mask (nat (dev_count u)) \<and> tbl_slot u = (\<lambda>_. zero_tslot)" if "u \<in> set (l_tbl l0)" for u
    using mem [OF that] inv new by (auto simp: tcore_def conn_inv_def)
  have dpd: "\<exists>v\<in>set (l_tbl l). tbl_pd v = p_delay d" "pd_tbl d = Some (p_delay d)" if "d \<in> set ds" for d
    using inv that by (auto simp: conn_inv_def devs_ok_def)
  have none: "filter (\<lambda>d. p_delay d = pd) ds = []"
  proof -
    have "p_delay d \<noteq> pd" if "d \<in> set ds" for d using dpd(1) [OF that] nin new(3) by (metis image_eqI)
    then show ?thesis by (simp add: filter_empty_conv)
  qed
  have "map dev_bit (filter (\<lambda>d. p_delay d = tbl_pd u) ds) = [0..dev_count u - 1]" if "u \<in> set (l_tbl l0)" for u
    using mem [OF that] inv none new by (auto simp: tcore_def conn_inv_def devs_ok_def)
  moreover have "\<exists>u\<in>set (l_tbl l0). tbl_pd u = p_delay d" if "d \<in> set ds" for d
    using dpd(1) [OF that] bk by (fastforce simp: tcore_def)
  ultimately have "devs_ok (l_tbl l0) ds" using dpd(2) by (simp add: devs_ok_def)
  moreover have "pd_mask l0 = tbl_bits (l_tbl l0)" using mask bits by (simp add: l0_def)
  moreover have "\<exists>t\<in>set (l_tbl l0). tbl_pd t = pd" using bk [of new] new(3) by (auto simp: tcore_def)
  ultimately show ?thesis using add tabs ts new(3) by (auto simp: conn_inv_def)
qed

lemma conn_inv_fresh: "conn_inv None ds l \<Longrightarrow> conn_inv (Some pd) ds l"
  by (auto simp: conn_inv_def)

lemma connect_devices_inv:
  assumes "conn_inv None ds l" "top_ok l" "\<forall>d\<in>set es. 0 \<le> p_delay d \<and> p_delay d < 3"
    and "connect_devices env sen max_d ev n es l tr = (0, es1, l1, tr1)"
  shows "conn_inv None (ds @ es1) l1 \<and> top_ok l1 \<and> length es1 = length es \<and> in_q l1 = in_q l
     \<and> retry_cnt l1 = retry_cnt l \<and> num_tbl l1 = num_tbl l \<and> (es \<noteq> [] \<longrightarrow> l_tbl l1 \<noteq> [])
     \<and> (l_tbl l \<noteq> [] \<longrightarrow> l_tbl l1 \<noteq> [])"
  using assms
proof (induction es arbitrary: ds l tr n es1 l1 tr1)
  case (Cons d es)
  let ?pd = "p_delay d"
  have pd: "0 \<le> ?pd" "?pd < 3" using Cons.prems(3) by auto
  define l0 where "l0 = (if pd_mask l AND shl1 ?pd \<noteq> 0 then l
     else l\<lparr>pd_mask := pd_mask l OR shl1 ?pd,
            l_tbl := add_tbl_to_link (l_tbl l) ((create_pd_tbl ?pd)\<lparr>tbl_pd := ?pd\<rparr>)\<rparr>)"
  define m where "m = (if pd_mask l AND shl1 ?pd \<noteq> 0 then n else Suc n)"
  obtain d1 l2 tr2 where c: "connect_device env max_d ev d l0 tr = (d1, l2, tr2)" by (metis prod.exhaust)
  obtain r fs l3 tr3 where rest: "connect_devices env sen max_d ev m es l2 tr2 = (r, fs, l3, tr3)" by (metis prod.exhaust)
  have eq: "r = 0" "es1 = d1 # fs" "l1 = l3" "tr1 = tr3"
    and found: "pd_mask l AND shl1 ?pd \<noteq> 0 \<Longrightarrow> find_pd_tbl (l_tbl l) ?pd \<noteq> None"
    using Cons.prems(4) c rest by (auto simp: l0_def m_def Let_def split: if_splits)
  have l0: "conn_inv (Some ?pd) ds l0 \<and> (\<exists>t\<in>set (l_tbl l0). tbl_pd t = ?pd) \<and> l_tbl l0 \<noteq> []
     \<and> max (max_delay l0) ?pd = tbl_pd (hd (l_tbl l0))
     \<and> in_q l0 = in_q l \<and> retry_cnt l0 = retry_cnt l \<and> num_tbl l0 = num_tbl l"
  proof (cases "pd_mask l AND shl1 ?pd \<noteq> 0")
    case True
    have "find_pd_tbl ts p = Some t \<Longrightarrow> t \<in> set ts \<and> tbl_pd t = p" for ts p t
      by (induction ts) (auto split: if_splits)
    then obtain t where t: "t \<in> set (l_tbl l)" "tbl_pd t = ?pd" using found [OF True] by blast
    then obtain u us where us: "l_tbl l = u # us" by (cases "l_tbl l") auto
    have "tbl_pd t \<le> tbl_pd u"
      using t us tbls_ok_below [of u us t] Cons.prems(1) by (auto simp: conn_inv_def)
    then have "max (max_delay l) ?pd = tbl_pd (hd (l_tbl l))" using Cons.prems(2) us t by (simp add: top_ok_def)
    then show ?thesis using True t conn_inv_fresh [OF Cons.prems(1)] us by (auto simp: l0_def)
  next
    case False
    then have "pd_mask l AND shl1 ?pd = 0" by simp
    note n = new_table_inv [OF Cons.prems(1) pd this]
    show ?thesis using n False Cons.prems(2) pd by (auto simp: l0_def top_ok_def max_def split: if_splits)
  qed
  then obtain t where t: "t \<in> set (l_tbl l0)" "tbl_pd t = ?pd" by blast
  note cd = connect_device_inv [OF _ t c, of ds]
  have "conn_inv None ((ds @ [d1]) @ fs) l3 \<and> top_ok l3 \<and> length fs = length es \<and> in_q l3 = in_q l2
     \<and> retry_cnt l3 = retry_cnt l2 \<and> num_tbl l3 = num_tbl l2 \<and> (es \<noteq> [] \<longrightarrow> l_tbl l3 \<noteq> [])
     \<and> (l_tbl l2 \<noteq> [] \<longrightarrow> l_tbl l3 \<noteq> [])"
    by (rule Cons.IH [where n = m]) (use cd l0 Cons.prems(3) rest eq(1) in \<open>auto simp: top_ok_def\<close>)
  then show ?case using cd l0 eq by simp
qed simp

section \<open>Setting up a link\<close>

lemma query_devices_ok:
  "query_devices env sen tbl hs m ev tr = (Inr r, ds, tr') \<Longrightarrow>
     map dev_hdl ds = hs \<and> (\<forall>d\<in>set ds. 0 \<le> p_delay d \<and> p_delay d < 3)"
proof (induction hs arbitrary: m ev tr ds)
  case (Cons h hs)
  obtain x es tr2 where q: "query_devices env sen tbl hs (max m (uint (dev_delay env (length tr))))
      (ev OR dev_trigger env (length tr)) (tr @ [Get_dev_info h]) = (x, es, tr2)" by (metis prod.exhaust)
  then show ?case
    using Cons.prems Cons.IH by (auto simp: Let_def do_call_def split: if_splits)
qed simp

lemma tbl_set_id_shape:
  "map tshape (fst (tbl_set_id ts n)) = map tshape ts
   \<and> (\<forall>t\<in>set (fst (tbl_set_id ts n)). \<exists>u\<in>set ts. \<exists>k. t = u\<lparr>tbl_id := k\<rparr>)"
  by (induction ts arbitrary: n) (auto simp: Let_def split_beta tshape_def)

text \<open>A link as \<open>__cam_req_mgr_reserve_link\<close> hands it out.\<close>

definition fresh_link :: "cam_req_mgr_core_link \<Rightarrow> bool" where
  "fresh_link l \<longleftrightarrow> l_tbl l = [] \<and> pd_mask l = 0 \<and> max_delay l = 0 \<and> retry_cnt l = 0 \<and> num_devs l = 0
     \<and> in_q l \<noteq> None"

lemma setup_in_q_ok:
  assumes "in_q l \<noteq> None"
  shows "\<exists>q. setup_in_q l = (0, l\<lparr>in_q := Some q\<rparr>) \<and> q_ok q"
proof -
  obtain q where q: "in_q l = Some q" using assms by blast
  show ?thesis
    by (auto simp: setup_in_q_def q upd_q_def q_ok_def for_slots_def)
qed

lemma connected_wf:
  assumes inv: "conn_inv None ds l" and top: "top_ok l" and ne: "l_tbl l \<noteq> []" and q: "in_q l = Some q" "q_ok q"
    and retry: "retry_cnt l = 0" and n: "length ds = n"
  shows "link_wf (l\<lparr>l_dev := ds, num_devs := n,
     l_tbl := tbl_set_all_skip_cnt (fst (tbl_set_id (l_tbl l) k)), num_tbl := m\<rparr>)"
proof -
  let ?l = "l\<lparr>l_dev := ds, num_devs := n\<rparr>"
  have good: "tbl_good t" if "t \<in> set (l_tbl l)" for t
    using inv that by (auto simp: conn_inv_def tbl_good_def tslot_ok_def zero_tslot_def)
  have wf: "link_wf ?l" using inv top ne q retry n good by (auto simp: link_wf_def conn_inv_def top_ok_def)
  obtain t ts where l: "l_tbl l = t # ts" using ne by (cases "l_tbl l") auto
  let ?ids = "fst (tbl_set_id (l_tbl l) k)"
  note sh = tbl_set_id_shape [of "l_tbl l" k]
  obtain u us where ids: "?ids = u # us" using l by (simp add: Let_def split_beta)
  have old: "0 \<le> skip_traverse t \<and> (\<forall>i. tslot_ok (dev_mask t) (tbl_slot t i))" if mem: "t \<in> set ?ids" for t
  proof -
    obtain v k' where "v \<in> set (l_tbl l)" "t = v\<lparr>tbl_id := k'\<rparr>" using sh mem by blast
    then show ?thesis using tbls_of_wf [OF wf, of v] by simp
  qed
  have ok: "tbls_ok (u # us)"
    by (rule tbls_ok_shape [of "l_tbl l"]) (use inv sh ids old in \<open>auto simp: conn_inv_def\<close>)
  have sm: "map tshape (tbl_set_all_skip_cnt ?ids) = map tshape ?ids"
    by (auto simp: ids tbl_set_all_skip_cnt_def tshape_def)
  have "link_wf (?l\<lparr>l_tbl := tbl_set_all_skip_cnt ?ids\<rparr>)"
  proof (rule link_wf_tbls [OF wf])
    show "map tshape (tbl_set_all_skip_cnt ?ids) = map tshape (l_tbl ?l)" using sm sh by simp
    show "\<forall>t\<in>set (tbl_set_all_skip_cnt ?ids). 0 \<le> skip_traverse t \<and> (\<forall>i. tslot_ok (dev_mask t) (tbl_slot t i))"
      using old tbls_ok_below [OF ok] by (auto simp: ids tbl_set_all_skip_cnt_def intro: less_imp_le)
  qed
  then show ?thesis by simp
qed

lemma setup_link_wf:
  assumes fresh: "fresh_link l" and len: "vi_num_devices vi \<le> length (vi_dev_hdls vi)"
    and e: "setup_link_info env sen tbl vi l tr = (rc, l', tr')" and n: "num_devs l' \<noteq> 0"
  shows "rc = 0 \<and> link_wf l'"
proof -
  obtain q where q: "setup_in_q (l\<lparr>num_tbl := 0\<rparr>) = (0, l\<lparr>num_tbl := 0, in_q := Some q\<rparr>)" "q_ok q"
    using setup_in_q_ok [of "l\<lparr>num_tbl := 0\<rparr>"] fresh by (auto simp: fresh_link_def)
  let ?n = "if vi_version vi = VERSION_1 \<or> vi_version vi = VERSION_2 then vi_num_devices vi else 0"
  obtain x ds tr1 where qd: "query_devices env sen tbl (take ?n (vi_dev_hdls vi)) 0 0 tr = (x, ds, tr1)"
    by (metis prod.exhaust)
  have lim: "\<not> (vi_version vi = VERSION_1 \<and> CAM_REQ_MGR_MAX_HANDLES < vi_num_devices vi)"
    "\<not> (vi_version vi = VERSION_2 \<and> CAM_REQ_MGR_MAX_HANDLES_V2 < vi_num_devices vi)"
    using e n fresh by (auto simp: setup_link_info_def fresh_link_def)
  show ?thesis
  proof (cases x)
    case (Inl r)
    then show ?thesis
      using e lim n by (auto simp: setup_link_info_def q qd destroy_link_info_def Let_def)
  next
    case (Inr mv)
    obtain max_d ev where mv: "mv = (max_d, ev)" by (cases mv)
    let ?l1 = "l\<lparr>num_tbl := 0, in_q := Some q, subscribe_event := ev\<rparr>"
    obtain r ds2 l2 tr2 where cd: "connect_devices env sen max_d ev 0 ds ?l1 tr1 = (r, ds2, l2, tr2)"
      by (metis prod.exhaust)
    have r: "r = 0" "rc = 0" "l' = l2\<lparr>l_dev := ds2, num_devs := ?n,
        l_tbl := tbl_set_all_skip_cnt (fst (tbl_set_id (l_tbl l2) (num_tbl l2))), num_tbl := snd (tbl_set_id (l_tbl l2) (num_tbl l2))\<rparr>"
      using e lim n Inr mv cd
      by (auto simp: setup_link_info_def q qd destroy_link_info_def Let_def split_beta split: if_splits)
    have devs: "map dev_hdl ds = take ?n (vi_dev_hdls vi)" "\<forall>d\<in>set ds. 0 \<le> p_delay d \<and> p_delay d < 3"
      using query_devices_ok qd Inr by auto
    have "conn_inv None ([] @ ds2) l2 \<and> top_ok l2 \<and> length ds2 = length ds \<and> in_q l2 = in_q ?l1
       \<and> retry_cnt l2 = retry_cnt ?l1 \<and> num_tbl l2 = num_tbl ?l1 \<and> (ds \<noteq> [] \<longrightarrow> l_tbl l2 \<noteq> [])
       \<and> (l_tbl ?l1 \<noteq> [] \<longrightarrow> l_tbl l2 \<noteq> [])"
      by (rule connect_devices_inv [OF _ _ devs(2)])
        (use fresh cd r(1) in \<open>auto simp: conn_inv_def top_ok_def fresh_link_def devs_ok_def\<close>)
    moreover have "length ds = ?n" using arg_cong [OF devs(1), of length] len by simp
    moreover have "?n \<noteq> 0" using n r(3) by simp
    ultimately have "link_wf l'"
      unfolding r(3) by (intro connected_wf) (use q(2) fresh in \<open>auto simp: fresh_link_def\<close>)
    then show ?thesis using r(2) by simp
  qed
qed

end
