(* ===== verification/Cam_Crm_Demo.thy ===== *)
theory Cam_Crm_Demo
  imports Cam_Crm_Conn
begin

text \<open>
  A concrete link, set up by the model from a sensor with delay 2 and an image processor with
  delay 1, on which the properties of the request manager are instantiated.
\<close>

definition demo_ops :: cam_req_mgr_kmd_ops where
  "demo_ops = \<lparr>has_get_dev_info = True, has_link_setup = True, has_apply_req = True, has_flush_req = True,
     has_process_evt = True, has_dump_req = True\<rparr>"

text \<open>All calls succeed; the first two calls ask the devices for their delays.\<close>

definition demo_env :: crm_env where
  "demo_env = \<lparr>crm_orc = (\<lambda>n. 0), dev_delay = (\<lambda>n. if n = 0 then 2 else 1), dev_trigger = (\<lambda>n. 1), timer_alloc = True\<rparr>"

definition demo_sen :: setup_env where
  "demo_sen = \<lparr>kmd_ops_at = (\<lambda>p. demo_ops), tbl_alloc = (\<lambda>n. True)\<rparr>"

text \<open>Handles \<open>0x100\<close> and \<open>0x101\<close>, of type device, at the indices 0 and 1.\<close>

definition demo_row :: "u32 \<Rightarrow> handle" where
  "demo_row h = \<lparr>session_hdl = 0, hdl_value = h, hdl_type = HDL_TYPE_DEV, hdl_state = HDL_ACTIVE,
     dev_id = 0, hdl_ops = 64, hdl_priv = 0\<rparr>"

definition demo_tbl :: hdl_global where
  "demo_tbl = Some \<lparr>hdl = (\<lambda>i. if i = 0 then demo_row 0x100 else if i = 1 then demo_row 0x101 else zero_handle),
     hdl_bitmap = (\<lambda>i. i < 2), hdl_bits = 128\<rparr>"

definition demo_vi :: cam_req_mgr_ver_info where
  "demo_vi = \<lparr>vi_version = VERSION_1, vi_session_hdl = 7, vi_num_devices = 2, vi_dev_hdls = [0x100, 0x101], vi_link_hdl = 0\<rparr>"

definition demo_queue :: cam_req_mgr_req_queue where
  "demo_queue = \<lparr>num_slots = 0, q_slot = (\<lambda>_. zero_slot), rd_idx = 0, wr_idx = 0, last_applied_idx = 0\<rparr>"

definition demo_fresh :: cam_req_mgr_core_link where
  "demo_fresh = \<lparr>link_hdl = 0x105, num_devs = 0, max_delay = 0, pd_mask = 0, l_dev = [], in_q = Some demo_queue,
     l_tbl = [], num_tbl = 0, apply_data = (\<lambda>_. zero_apply), watchdog = None,
     link_state = CAM_CRM_LINK_STATE_READY, parent = 4096, subscribe_event = 0, trigger_mask = 0,
     sync_link = None, sync_link_sof_skip = False, open_req_cnt = 0, last_flush_id = 0, is_used = True,
     is_master = False, initial_skip = True, in_msync_mode = False, initial_sync_req = - 1, retry_cnt = 0,
     is_shutdown = False, sof_timestamp = 0, prev_sof_timestamp = 0\<rparr>"

definition demo_sensor :: cam_req_mgr_connected_device where
  "demo_sensor = \<lparr>dev_hdl = 0x100, dev_bit = 0, pd_tbl = Some 2, p_delay = 2, dev_trigger_mask = 1, ops = Some demo_ops\<rparr>"

definition demo_ife :: cam_req_mgr_connected_device where
  "demo_ife = \<lparr>dev_hdl = 0x101, dev_bit = 0, pd_tbl = Some 1, p_delay = 1, dev_trigger_mask = 1, ops = Some demo_ops\<rparr>"

definition demo_t2 :: cam_req_mgr_req_tbl where
  "demo_t2 = \<lparr>tbl_id = 0, tbl_pd = 2, dev_count = 1, dev_mask = 1, skip_traverse = 0, pd_delta = 1,
     tbl_num_slots = 48, tbl_slot = (\<lambda>_. zero_tslot)\<rparr>"

definition demo_t1 :: cam_req_mgr_req_tbl where
  "demo_t1 = \<lparr>tbl_id = 1, tbl_pd = 1, dev_count = 1, dev_mask = 1, skip_traverse = 1, pd_delta = 0,
     tbl_num_slots = 48, tbl_slot = (\<lambda>_. zero_tslot)\<rparr>"

definition demo_q :: cam_req_mgr_req_queue where
  "demo_q = demo_queue\<lparr>num_slots := 48, q_slot := for_slots 48 (\<lambda>i s. s\<lparr>sl_idx := i, sl_req_id := - 1, skip_idx := 0,
     sl_status := CRM_SLOT_STATUS_NO_REQ\<rparr>) (\<lambda>_. zero_slot)\<rparr>"

definition demo_link :: cam_req_mgr_core_link where
  "demo_link = demo_fresh\<lparr>num_devs := 2, max_delay := 2, pd_mask := 6, l_dev := [demo_sensor, demo_ife],
     in_q := Some demo_q, l_tbl := [demo_t2, demo_t1], num_tbl := 2, subscribe_event := 1\<rparr>"

lemma demo_hdl_ops:
  "cam_get_device_ops 0x100 demo_tbl = 64" "cam_get_device_ops 0x101 demo_tbl = 64"
  by (code_simp, code_simp)

lemma demo_setup: "\<exists>tr. setup_link_info demo_env demo_sen demo_tbl demo_vi demo_fresh [] = (0, demo_link, tr)"
  by (simp add: setup_link_info_def demo_vi_def demo_fresh_def setup_in_q_def upd_q_def demo_hdl_ops demo_sen_def
      demo_env_def do_call_def zero_dev_def demo_ops_def connect_device_def create_pd_tbl_def upd_tbl_def
      shl1_def tbl_set_all_skip_cnt_def demo_link_def demo_sensor_def demo_ife_def demo_t2_def demo_t1_def
      demo_q_def demo_queue_def Let_def)

lemma demo_fresh_ok: "fresh_link demo_fresh" "vi_num_devices demo_vi \<le> length (vi_dev_hdls demo_vi)"
  "num_devs demo_link = 2" "sync_link demo_link = None"
  by (simp_all add: fresh_link_def demo_fresh_def demo_vi_def demo_link_def)

lemma demo_wf: "link_wf demo_link"
  using demo_setup setup_link_wf [OF demo_fresh_ok(1,2)] demo_fresh_ok(3) by (metis zero_neq_numeral)

definition demo_crm :: crm where
  "demo_crm = \<lparr>g_links = (\<lambda>_. demo_link), sessions = Map.empty, session_head = [], crm_calls = [], crm_hdl_tbl = demo_tbl\<rparr>"

text \<open>Request 5 scheduled in slot 0.\<close>

definition demo_sched :: cam_req_mgr_sched_request where
  "demo_sched = \<lparr>sr_session_hdl = 7, sr_link_hdl = 0x105, sr_bubble_enable = 1, sr_sync_mode = 0,
     sr_additional_timeout = 0, sr_req_id = 5\<rparr>"

definition demo_q1 :: cam_req_mgr_req_queue where
  "demo_q1 = (upd_slot 0 (\<lambda>s. s\<lparr>sl_status := CRM_SLOT_STATUS_REQ_ADDED, sl_req_id := 5, sl_sync_mode := 0,
     skip_idx := 0, recover := 1, additional_timeout := 0\<rparr>) demo_q)\<lparr>wr_idx := 1\<rparr>"

definition demo_l1 :: cam_req_mgr_core_link where
  "demo_l1 = demo_link\<lparr>in_q := Some demo_q1, open_req_cnt := 1, initial_sync_req := - 1\<rparr>"

definition demo_c1 :: crm where
  "demo_c1 = snd (cam_req_mgr_process_sched_req 0 demo_sched demo_crm)"

lemma demo_c1_link: "g_links demo_c1 0 = demo_l1"
  by (simp add: demo_c1_def cam_req_mgr_process_sched_req_def demo_sched_def demo_crm_def demo_l1_def demo_q1_def
      demo_link_def demo_fresh_def demo_q_def demo_queue_def upd_q_def upd_slot_def clamp_timeout_def inc_idx_ring Let_def)

lemma demo_c1_wf: "link_wf (g_links demo_c1 0)"
proof -
  have "crm_wf {0} demo_crm" using demo_wf demo_fresh_ok(4) by (simp add: crm_wf_def demo_crm_def)
  from process_sched_req_wf [OF this, of 0 demo_sched] show ?thesis by (simp add: demo_c1_def crm_wf_def)
qed

text \<open>The sensor adds request 5.\<close>

definition demo_add :: cam_req_mgr_add_request where
  "demo_add = \<lparr>ar_link_hdl = 0x105, ar_dev_hdl = 0x100, ar_req_id = 5, skip_before_applying = 0\<rparr>"

lemma demo_find: "find_slot_for_req (qof (g_links demo_c1 0)) (s64 (ar_req_id demo_add)) = 0"
  by (simp add: demo_c1_link demo_l1_def demo_q1_def demo_q_def demo_queue_def demo_add_def find_slot_for_req_def
      upd_slot_def s64_def numeral_eq_Suc)

definition demo_c2 :: crm where
  "demo_c2 = snd (cam_req_mgr_process_add_req 0 demo_add demo_c1)"

definition demo_l2 :: cam_req_mgr_core_link where
  "demo_l2 = demo_l1\<lparr>l_tbl := [upd_tslot 0 (\<lambda>s. s\<lparr>is_applied := False, ts_state := CRM_REQ_STATE_READY, req_ready_map := 1\<rparr>) demo_t2,
     demo_t1]\<rparr>"

lemma demo_c2_link: "g_links demo_c2 0 = demo_l2"
proof -
  have f: "find_slot_for_req (qof demo_l1) (s64 5) = 0" using demo_find by (simp add: demo_c1_link demo_add_def)
  have "take (num_devs demo_l1) (l_dev demo_l1) = [demo_sensor, demo_ife]" "l_tbl demo_l1 = [demo_t2, demo_t1]"
    by (simp_all add: demo_l1_def demo_link_def)
  then show ?thesis
    by (simp add: demo_c2_def cam_req_mgr_process_add_req_def demo_c1_link f demo_add_def demo_sensor_def
        set_tslot_def upd_tbl_def tbl_of_def demo_t2_def demo_t1_def add_to_slot_def zero_tslot_def shl1_def
        upd_tslot_def demo_l2_def Let_def)
qed

lemma demo_c2_wf: "crm_wf {0} demo_c2"
proof -
  have "crm_wf {0} demo_crm" using demo_wf demo_fresh_ok(4) by (simp add: crm_wf_def demo_crm_def)
  then show ?thesis
    unfolding demo_c2_def demo_c1_def by (intro process_add_req_wf process_sched_req_wf)
qed

lemma demo_c2_calls: "crm_calls demo_c2 = []"
  by (simp add: demo_c2_def cam_req_mgr_process_add_req_def demo_c1_def cam_req_mgr_process_sched_req_def
      demo_crm_def Let_def split: option.splits)

lemmas demo_link2_defs = demo_l2_def demo_l1_def demo_link_def demo_fresh_def demo_q1_def demo_q_def
  demo_queue_def demo_t2_def demo_t1_def demo_sensor_def demo_ife_def demo_ops_def zero_tslot_def zero_slot_def
  upd_slot_def upd_tslot_def for_slots_def

text \<open>A frame starts.\<close>

definition demo_sof :: cam_req_mgr_trigger_notify where
  "demo_sof = \<lparr>tn_link_hdl = 0x105, tn_dev_hdl = 0x101, tn_frame_id = 1, tn_trigger = CAM_TRIGGER_POINT_SOF,
     tn_sof_timestamp_val = 100, tn_req_id = 0\<rparr>"

end
