(* ===== verification/Cam_Crm_Props.thy ===== *)
theory Cam_Crm_Props
  imports Cam_Crm_Demo
begin

text \<open>The properties of the request manager.\<close>

section \<open>Links stay well-formed\<close>

text \<open>Links as they are set up, not paired yet.\<close>

definition crm_init :: "nat set \<Rightarrow> crm \<Rightarrow> bool" where
  "crm_init I c \<longleftrightarrow> (\<forall>i\<in>I. sync_link (g_links c i) = None \<and> num_devs (g_links c i) \<noteq> 0
     \<and> (\<exists>env sen tbl vi l tr tr'. fresh_link l \<and> vi_num_devices vi \<le> length (vi_dev_hdls vi)
          \<and> setup_link_info env sen tbl vi l tr = (0, g_links c i, tr')))"

text \<open>One step: a handler runs for one of the links \<open>I\<close>, or two of them are paired.\<close>

inductive crm_step :: "nat set \<Rightarrow> crm \<Rightarrow> crm \<Rightarrow> bool" for I :: "nat set" where
  step_sched: "i \<in> I \<Longrightarrow> crm_step I c (snd (cam_req_mgr_process_sched_req i sr c))"
| step_add: "i \<in> I \<Longrightarrow> crm_step I c (snd (cam_req_mgr_process_add_req i ar c))"
| step_trigger: "i \<in> I \<Longrightarrow> crm_step I c (snd (cam_req_mgr_process_trigger env i trig c))"
| step_error: "i \<in> I \<Longrightarrow> crm_step I c (snd (cam_req_mgr_process_error env i e c))"
| step_flush: "i \<in> I \<Longrightarrow> crm_step I c (snd (cam_req_mgr_process_flush_req env i fi c))"
| step_stop: "i \<in> I \<Longrightarrow> crm_step I c (snd (cam_req_mgr_process_stop i c))"
| step_send: "i \<in> I \<Longrightarrow> crm_step I c (snd (process_send_req env i c))"
| step_freeze: "i \<in> I \<Longrightarrow> crm_step I c (snd (process_sof_freeze env i c))"
| step_pair: "i \<in> I \<Longrightarrow> j \<in> I \<Longrightarrow> crm_step I c (sync_config_links mode i j c)"

inductive_cases crm_stepE: "crm_step I c c'"

lemma sync_config_wf:
  assumes "crm_wf I c" "i \<in> I" "j \<in> I"
  shows "crm_wf I (sync_config_links mode i j c)"
  using assms
  by (auto simp: crm_wf_def sync_config_links_def set_master_link_def unpaired_def Let_def)

interpretation crm_sys: invariant_system "crm_init I" "crm_step I" "crm_wf I" for I
proof
  fix c
  assume init: "crm_init I c"
  show "crm_wf I c"
    unfolding crm_wf_def
  proof (intro ballI conjI allI impI)
    fix i
    assume "i \<in> I"
    then obtain env sen tbl vi l tr tr' where "fresh_link l" "vi_num_devices vi \<le> length (vi_dev_hdls vi)"
      "setup_link_info env sen tbl vi l tr = (0, g_links c i, tr')" "num_devs (g_links c i) \<noteq> 0"
      using init unfolding crm_init_def by blast
    then show "link_wf (g_links c i)" using setup_link_wf by blast
    fix j
    assume "sync_link (g_links c i) = Some j"
    then show "j \<in> I" using init \<open>i \<in> I\<close> by (auto simp: crm_init_def)
  qed
next
  fix c c'
  assume wf: "crm_wf I c" and "crm_step I c c'"
  from this(2) show "crm_wf I c'"
    by (elim crm_stepE; hypsubst)
      (simp_all add: wf process_sched_req_wf process_add_req_wf process_trigger_wf process_error_wf
        process_flush_req_wf process_stop_wf process_send_req_wf process_sof_freeze_wf sync_config_wf)
qed

text \<open>
  C4: However the handlers of the request manager run on a set of links that were set up from
  devices, and however links of the set are paired, every link stays well-formed: the read and
  write index stay in the ring, the tables stay sorted by falling delay with the right distances
  and hold one bit per device, a table slot is marked ready exactly when the bits of all devices of
  the table are set in its map (bits that an earlier request left there count as well: scheduling a
  request does not clear them), and fewer than two retries are counted.
\<close>

theorem crm_reachable_wf:
  assumes "reach (crm_init I) (crm_step I) c" "i \<in> I"
  shows "link_wf (g_links c i) \<and> (\<forall>j. sync_link (g_links c i) = Some j \<longrightarrow> j \<in> I)"
  using crm_sys.reach_inv [OF assms(1)] assms(2) by (simp add: crm_wf_def)

theorem crm_reachable_wf_witness:
  "link_wf (g_links (snd (cam_req_mgr_process_sched_req 0 demo_sched demo_crm)) 0)"
proof -
  have "g_links demo_crm 0 = demo_link" by (simp add: demo_crm_def)
  moreover have "num_devs demo_link \<noteq> 0" using demo_fresh_ok(3) by simp
  ultimately have "crm_init {0} demo_crm"
    using demo_setup demo_fresh_ok(1,2,4) unfolding crm_init_def by (simp, blast)
  then have "reach (crm_init {0}) (crm_step {0}) (snd (cam_req_mgr_process_sched_req 0 demo_sched demo_crm))"
    by (intro reach.reach_step [OF reach.reach_init]) (auto intro: crm_step.step_sched)
  then show ?thesis using crm_reachable_wf by blast
qed

section \<open>When a request goes out\<close>

lemma check_ready_parts:
  assumes wf: "link_wf l" and idx: "0 \<le> idx" "idx < 48"
  shows "all_pass (qof l) idx (max_delay l) (l_tbl l) \<Longrightarrow>
      \<exists>l'. check_link_is_ready idx vo l = (0, l') \<and> l_tbl l' = (if vo then l_tbl l else map skip_down (l_tbl l))
        \<and> apply_data l' = (if vo then apply_data l
             else applied_all (qof l) idx (max_delay l) (l_tbl l) (for_slots CAM_PIPELINE_DELAY_MAX (\<lambda>i a. zero_apply) (apply_data l)))
        \<and> l' = l\<lparr>l_tbl := l_tbl l', apply_data := apply_data l', initial_skip := False\<rparr>"
    and "\<not> all_pass (qof l) idx (max_delay l) (l_tbl l) \<Longrightarrow>
      \<exists>l'. check_link_is_ready idx vo l = (- EAGAIN, l') \<and> l_tbl l' = l_tbl l"
proof -
  let ?a = "if \<not> vo then for_slots CAM_PIPELINE_DELAY_MAX (\<lambda>i a. zero_apply) (apply_data l) else apply_data l"
  let ?td = "\<lparr>t_result = 0, t_result_data = \<lparr>r_req_id = 0, r_pd = 0, r_masked_value = 0\<rparr>, t_apply_data = ?a\<rparr>"
  obtain t ts where ts: "l_tbl l = t # ts" using wf by (cases "l_tbl l") (auto simp: link_wf_def)
  have ok: "tbls_ok (l_tbl l)" "l_tbl l \<noteq> []" "pd_mask l = tbl_bits (l_tbl l)" "max_delay l = tbl_pd t"
    using wf ts by (auto simp: link_wf_def)
  have i: "idx = slot_for idx (max_delay l) (hd (l_tbl l))" using idx ts ok(4) by (simp add: slot_for_def)
  have e: "check_link_is_ready idx vo l =
     (let (rc, ts, td) = traverse vo (qof l) (l_tbl l) idx ?td;
          l2 = l\<lparr>l_tbl := ts, apply_data := t_apply_data td, initial_skip := False\<rparr>
      in if rc = 0 \<and> t_result td = pd_mask l then (rc, l2) else (- EAGAIN, l2))"
    by (cases "initial_skip l") (simp_all add: check_link_is_ready_def Let_def split_beta)
  show "all_pass (qof l) idx (max_delay l) (l_tbl l) \<Longrightarrow>
      \<exists>l'. check_link_is_ready idx vo l = (0, l') \<and> l_tbl l' = (if vo then l_tbl l else map skip_down (l_tbl l))
        \<and> apply_data l' = (if vo then apply_data l
             else applied_all (qof l) idx (max_delay l) (l_tbl l) (for_slots CAM_PIPELINE_DELAY_MAX (\<lambda>i a. zero_apply) (apply_data l)))
        \<and> l' = l\<lparr>l_tbl := l_tbl l', apply_data := apply_data l', initial_skip := False\<rparr>"
    using traverse_success [OF ok(1,2) i, of "qof l" vo ?td] ok(3) unfolding e by auto
  show "\<not> all_pass (qof l) idx (max_delay l) (l_tbl l) \<Longrightarrow>
      \<exists>l'. check_link_is_ready idx vo l = (- EAGAIN, l') \<and> l_tbl l' = l_tbl l"
    using traverse_failure [OF ok(1) i, of "qof l" vo ?td] unfolding e by auto
qed

text \<open>
  C6: The readiness check of a link does what its tables mean: it succeeds exactly when every
  table, at the slot that lies as far behind the asked one as its delay is smaller than the
  largest delay, is ready or skipped. If it fails, no table changes. If it succeeds and the
  request is to be applied, the apply data of each delay name that slot and the request in it,
  or no request while the table still skips frames.
\<close>

theorem crm_ready_iff_all_tables:
  assumes "link_wf l" "0 \<le> idx" "idx < 48" "check_link_is_ready idx validate_only l = (rc, l')"
  shows "(rc = 0 \<longleftrightarrow> (\<forall>t\<in>set (l_tbl l). tbl_passes (qof l) t ((idx - (max_delay l - tbl_pd t)) mod 48)))
     \<and> (rc \<noteq> 0 \<longrightarrow> rc = - EAGAIN \<and> l_tbl l' = l_tbl l)
     \<and> (rc = 0 \<and> \<not> validate_only \<longrightarrow> (\<forall>t\<in>set (l_tbl l). let s = (idx - (max_delay l - tbl_pd t)) mod 48 in
          apply_data l' (tbl_pd t) = \<lparr>a_idx = s, a_pd = tbl_pd t,
            a_req_id = (if 0 < skip_traverse t then - 1 else sl_req_id (q_slot (qof l) s)), a_skip_idx = 0\<rparr>))"
proof (cases "all_pass (qof l) idx (max_delay l) (l_tbl l)")
  case True
  have ok: "tbls_ok (l_tbl l)" using assms(1) by (simp add: link_wf_def)
  have "apply_data l' (tbl_pd t) = applied_for (qof l) (slot_for idx (max_delay l) t) t zero_apply"
    if "\<not> validate_only" and t: "t \<in> set (l_tbl l)" for t
  proof -
    have "0 \<le> tbl_pd t" "tbl_pd t < 3" using tbls_ok_all [OF ok t] by (auto simp: tbl_ok_def)
    moreover have "apply_data l' = applied_all (qof l) idx (max_delay l) (l_tbl l)
        (for_slots CAM_PIPELINE_DELAY_MAX (\<lambda>i a. zero_apply) (apply_data l))"
      using check_ready_parts(1) [OF assms(1-3) True, of validate_only] assms(4) that(1) by auto
    ultimately show ?thesis using applied_all_at [OF ok t] by (simp add: for_slots_def)
  qed
  moreover have "rc = 0"
    using check_ready_parts(1) [OF assms(1-3) True, of validate_only] assms(4) by auto
  ultimately show ?thesis
    using True by (simp add: all_pass_def slot_for_def applied_for_def zero_apply_def Let_def)
next
  case False
  then have "rc = - EAGAIN" "l_tbl l' = l_tbl l"
    using check_ready_parts(2) [OF assms(1-3) False, of validate_only] assms(4) by auto
  then show ?thesis using False by (simp add: all_pass_def slot_for_def)
qed

theorem crm_ready_iff_all_tables_witness:
  "\<exists>l'. check_link_is_ready 0 False demo_link = (- EAGAIN, l') \<and> l_tbl l' = l_tbl demo_link"
proof -
  obtain rc l' where e: "check_link_is_ready 0 False demo_link = (rc, l')" by (rule prod.exhaust)
  have "\<not> tbl_passes (qof demo_link) demo_t2 0"
    by (simp add: tbl_passes_def demo_t2_def zero_tslot_def demo_link_def demo_q_def for_slots_def zero_slot_def)
  then have "rc \<noteq> 0"
    using crm_ready_iff_all_tables [OF demo_wf _ _ e] by (auto simp: demo_link_def demo_t2_def)
  then show ?thesis using crm_ready_iff_all_tables [OF demo_wf _ _ e] e by simp
qed

lemma dev_bits:
  assumes wf: "link_wf l" and t: "t \<in> set (l_tbl l)"
  defines "ds \<equiv> filter (\<lambda>e. p_delay e = tbl_pd t) (take (num_devs l) (l_dev l))"
  shows "dev_bit ` set ds = {0..<dev_count t}" "inj_on dev_bit (set ds)" "dev_count t = int (length ds)"
proof -
  have m: "map dev_bit ds = [0..dev_count t - 1]" using wf t by (auto simp: link_wf_def devs_ok_def ds_def)
  show "dev_bit ` set ds = {0..<dev_count t}" using arg_cong [OF m, of set] by auto
  show "inj_on dev_bit (set ds)" using m by (metis distinct_map distinct_upto)
  show "dev_count t = int (length ds)"
    using arg_cong [OF m, of length] wf t by (auto simp: link_wf_def tbl_good_def)
qed

lemma full_map_iff:
  assumes "m AND NOT (mask (nat k)) = (0 :: u32)" "0 \<le> b" "b < k" "k \<le> 32"
  shows "m OR shl1 b = mask (nat k) \<longleftrightarrow> (\<forall>n. 0 \<le> n \<and> n < k \<longrightarrow> n = b \<or> bit m (nat n))"
proof
  assume eq: "m OR shl1 b = mask (nat k)"
  show "\<forall>n. 0 \<le> n \<and> n < k \<longrightarrow> n = b \<or> bit m (nat n)"
  proof (intro allI impI)
    fix n
    assume n: "0 \<le> n \<and> n < k"
    then have "bit (m OR shl1 b) (nat n)" unfolding eq using assms(4) by (simp add: bit_mask_iff nat_less_iff)
    then show "n = b \<or> bit m (nat n)" using n assms by (auto simp: bit_or_iff bit_shl1)
  qed
next
  assume all: "\<forall>n. 0 \<le> n \<and> n < k \<longrightarrow> n = b \<or> bit m (nat n)"
  show "m OR shl1 b = mask (nat k)"
  proof (rule bit_word_eqI)
    fix n :: nat
    assume n: "n < LENGTH(32)"
    have "\<not> bit m n" if "nat k \<le> n"
    proof
      assume "bit m n"
      then have "bit (m AND NOT (mask (nat k))) n" using that n by (simp add: bit_simps)
      then show False using assms(1) by simp
    qed
    moreover have "int n = b \<or> bit m n" if "n < nat k" using all that by (metis int_nat_eq nat_int of_nat_0_le_iff zless_nat_eq_int_zless)
    ultimately show "bit (m OR shl1 b) n \<longleftrightarrow> bit (mask (nat k) :: u32) n"
      using n assms(2-4) by (cases "n < nat k") (auto simp: bit_or_iff bit_shl1 bit_mask_iff not_less)
  qed
qed

lemma find_upd_tbl:
  assumes "\<And>t. tbl_pd (f t) = tbl_pd t" "find (\<lambda>t. tbl_pd t = pd) ts = Some t"
  shows "find (\<lambda>t. tbl_pd t = pd) (upd_tbl pd f ts) = Some (f t)"
  using assms(2) by (induction ts) (auto simp: upd_tbl_def assms(1) split: if_splits)

text \<open>
  C7: A device of a link with at most 32 devices that adds a request the queue holds sets its bit in the
  map of the request's slot, in the table of its delay. The slot is ready then exactly when the bits of
  all other devices with this delay were set already, and pending otherwise. No other slot of that table, no
  other table and nothing of the queue changes. The bits are those of the slot and not of one request: scheduling
  a request changes no table, so that bits set for a request that is overwritten in a full ring count for the new one.
\<close>

theorem crm_add_req_ready:
  fixes c :: crm and i :: nat
  defines "l \<equiv> g_links c i"
  defines "devs \<equiv> take (num_devs l) (l_dev l)"
  assumes wf: "link_wf l" and few: "length devs \<le> 32"
    and d: "find (\<lambda>d. dev_hdl d = ar_dev_hdl ar) devs = Some d"
    and idx: "find_slot_for_req (qof l) (s64 (ar_req_id ar)) = idx" "0 \<le> idx"
    and run: "cam_req_mgr_process_add_req i ar c = (rc, c')"
  shows "rc = 0 \<and>
    (let s = tbl_slot (tbl_of l d) idx; l' = g_links c' i; t' = tbl_of l' d in
     (ts_state (tbl_slot t' idx) = CRM_REQ_STATE_READY \<longleftrightarrow>
        (\<forall>e\<in>set devs. p_delay e = p_delay d \<longrightarrow> e = d \<or> bit (req_ready_map s) (nat (dev_bit e))))
     \<and> (ts_state (tbl_slot t' idx) = CRM_REQ_STATE_READY \<or> ts_state (tbl_slot t' idx) = CRM_REQ_STATE_PENDING)
     \<and> (\<forall>k. k \<noteq> idx \<longrightarrow> tbl_slot t' k = tbl_slot (tbl_of l d) k)
     \<and> req_ready_map (tbl_slot t' idx) = req_ready_map s OR shl1 (dev_bit d)
     \<and> in_q l' = in_q l \<and> (\<forall>t. tbl_pd t \<noteq> p_delay d \<longrightarrow> (t \<in> set (l_tbl l') \<longleftrightarrow> t \<in> set (l_tbl l))))
     \<and> (\<forall>sr. l_tbl (g_links (snd (cam_req_mgr_process_sched_req i sr c)) i) = l_tbl l)"
proof -
  have sched: "l_tbl (g_links (snd (cam_req_mgr_process_sched_req i sr c)) i) = l_tbl l" for sr
    by (simp add: cam_req_mgr_process_sched_req_def upd_q_def l_def Let_def split: option.split)
  have mem: "d \<in> set devs" using find_Some_mem [OF d] by blast
  note dt = dev_table [OF wf mem [unfolded devs_def]]
  let ?t = "tbl_of l d" and ?f = "add_to_slot ar (dev_bit d) (dev_mask (tbl_of l d))"
  have e: "rc = 0" "g_links c' i = set_tslot d idx ?f l"
    using run d idx dt by (auto simp: cam_req_mgr_process_add_req_def l_def devs_def Let_def)
  have "find (\<lambda>t. tbl_pd t = p_delay d) (l_tbl l) = Some ?t"
    using tbls_ok_find [of "l_tbl l" ?t] wf dt by (simp add: link_wf_def)
  then have t': "tbl_of (g_links c' i) d = upd_tslot idx ?f ?t"
    using find_upd_tbl [of "upd_tslot idx ?f" "p_delay d"] dt by (simp add: e(2) tbl_of_def set_tslot_def)
  let ?s = "tbl_slot ?t idx" and ?k = "dev_count ?t"
  let ?ds = "filter (\<lambda>e. p_delay e = tbl_pd ?t) (take (num_devs l) (l_dev l))"
  note b = dev_bits [OF wf conjunct1 [OF conjunct2 [OF dt]]]
  have "length ?ds \<le> 32" using order_trans [OF length_filter_le few [unfolded devs_def]] .
  then have k: "?k \<le> 32" using b(3) by linarith
  have m: "dev_mask ?t = mask (nat ?k)" "req_ready_map ?s AND NOT (mask (nat ?k)) = 0"
    using wf dt by (auto simp: link_wf_def tbl_good_def tslot_ok_def)
  have "req_ready_map ?s OR shl1 (dev_bit d) = dev_mask ?t
      \<longleftrightarrow> (\<forall>n. 0 \<le> n \<and> n < ?k \<longrightarrow> n = dev_bit d \<or> bit (req_ready_map ?s) (nat n))"
    unfolding m(1) by (rule full_map_iff [OF m(2) _ _ k]) (use dt in auto)
  also have "\<dots> \<longleftrightarrow> (\<forall>n\<in>dev_bit ` set ?ds. n = dev_bit d \<or> bit (req_ready_map ?s) (nat n))" unfolding b(1) by auto
  also have "\<dots> \<longleftrightarrow> (\<forall>e\<in>set devs. p_delay e = p_delay d \<longrightarrow> e = d \<or> bit (req_ready_map ?s) (nat (dev_bit e)))"
    using b(2) mem dt by (auto simp: devs_def inj_on_def)
  finally have "ts_state (?f ?s) = CRM_REQ_STATE_READY \<longleftrightarrow>
      (\<forall>e\<in>set devs. p_delay e = p_delay d \<longrightarrow> e = d \<or> bit (req_ready_map ?s) (nat (dev_bit e)))"
    by (auto simp: add_to_slot_def Let_def)
  moreover have "ts_state (?f ?s) = CRM_REQ_STATE_READY \<or> ts_state (?f ?s) = CRM_REQ_STATE_PENDING"
    by (simp add: add_to_slot_def Let_def)
  moreover have "t \<in> set (upd_tbl (p_delay d) (upd_tslot idx ?f) (l_tbl l)) \<longleftrightarrow> t \<in> set (l_tbl l)"
    if "tbl_pd t \<noteq> p_delay d" for t using that by (auto simp: upd_tbl_def)
  moreover have "req_ready_map (?f ?s) = req_ready_map ?s OR shl1 (dev_bit d)" by (simp add: add_to_slot_def Let_def)
  ultimately show ?thesis using t' dt e sched by (simp add: Let_def set_tslot_def)
qed

theorem crm_add_req_ready_witness:
  "\<exists>c'. cam_req_mgr_process_add_req 0 demo_add demo_c1 = (0, c')
     \<and> ts_state (tbl_slot (tbl_of (g_links c' 0) demo_sensor) 0) = CRM_REQ_STATE_READY"
proof -
  obtain rc c' where e: "cam_req_mgr_process_add_req 0 demo_add demo_c1 = (rc, c')" by (rule prod.exhaust)
  have devs: "take (num_devs (g_links demo_c1 0)) (l_dev (g_links demo_c1 0)) = [demo_sensor, demo_ife]"
    by (simp add: demo_c1_link demo_l1_def demo_link_def)
  have "length (take (num_devs (g_links demo_c1 0)) (l_dev (g_links demo_c1 0))) \<le> 32" unfolding devs by simp
  moreover have "find (\<lambda>d. dev_hdl d = ar_dev_hdl demo_add) (take (num_devs (g_links demo_c1 0)) (l_dev (g_links demo_c1 0)))
      = Some demo_sensor"
    unfolding devs by (simp add: demo_add_def demo_sensor_def)
  ultimately have "rc = 0 \<and> ts_state (tbl_slot (tbl_of (g_links c' 0) demo_sensor) 0) = CRM_REQ_STATE_READY"
    using crm_add_req_ready [OF _ _ _ demo_find _ e] demo_c1_wf
    unfolding devs Let_def by (simp add: demo_sensor_def demo_ife_def)
  then show ?thesis using e by simp
qed

section \<open>A frame on which everything is ready\<close>

lemma inject_delay_none:
  assumes "tbls_ok ts" "i = slot_for idx top_pd (hd ts)"
    and "\<forall>t\<in>set ts. ts_inject_delay (tbl_slot t (slot_for idx top_pd t)) = 0"
  shows "inject_delay ts i 0 = (0, ts)"
  using assms
proof (induction ts arbitrary: i)
  case (Cons t ts)
  show ?case
  proof (cases ts)
    case (Cons u us)
    have i: "0 \<le> i" "i < 48" using Cons.prems(2) by (simp_all add: slot_for_def)
    have "dec_idx i (pd_delta t) (tbl_num_slots t) = slot_for idx top_pd u"
      by (rule slot_for_step) (use Cons.prems Cons i in auto)
    then have "inject_delay ts (dec_idx i (pd_delta t) (tbl_num_slots t)) 0 = (0, ts)"
      using Cons.IH [OF tbls_ok_tl [OF Cons.prems(1)]] Cons.prems(3) Cons by simp
    then show ?thesis using Cons.prems(2,3) by simp
  qed (use Cons.prems in simp)
qed simp

text \<open>The call a device gets, from the apply data of the link.\<close>

definition apply_call :: "cam_req_mgr_core_link \<Rightarrow> u32 \<Rightarrow> cam_req_mgr_connected_device \<Rightarrow> crm_call list" where
  "apply_call l trigger d = (let a = apply_data l (p_delay d) in
     if a_req_id a < 0 then []
     else [Apply_req \<lparr>ap_link_hdl = link_hdl l, ap_dev_hdl = dev_hdl d, ap_request_id = u64_of (a_req_id a),
            ap_report_if_bubble = recover (q_slot (qof l) (a_idx a)), ap_trigger_point = trigger\<rparr>])"

lemma s32_small: "0 \<le> x \<Longrightarrow> x < 3 \<Longrightarrow> s32 x = x"
  by (simp add: s32_def)

definition plain_dev :: "cam_req_mgr_core_link \<Rightarrow> u32 \<Rightarrow> cam_req_mgr_connected_device \<Rightarrow> bool" where
  "plain_dev l trigger d \<longleftrightarrow> 0 \<le> p_delay d \<and> p_delay d < 3 \<and> a_skip_idx (apply_data l (p_delay d)) = 0
     \<and> dev_trigger_mask d AND trigger \<noteq> 0 \<and> can_apply d
     \<and> \<not> skip_next_frame (tbl_slot (tbl_of l d) (a_idx (apply_data l (p_delay d))))
     \<and> \<not> is_applied (tbl_slot (tbl_of l d) (a_idx (apply_data l (p_delay d))))"

lemma send_all_plain:
  assumes "\<And>n. crm_orc env n = 0" "\<forall>d\<in>set ds. plain_dev l trigger d"
  shows "send_all_loop env trigger ds seen 0 l tr = (0, l, tr @ concat (map (apply_call l trigger) ds), None, [], 0)"
  using assms(2)
proof (induction ds arbitrary: seen tr)
  case (Cons d ds)
  show ?case
    using Cons by (auto simp: plain_dev_def s32_small Let_def do_call_def assms(1) apply_call_def)
qed simp

lemma send_alone_plain:
  "\<forall>d\<in>set ds. plain_dev l trigger d \<Longrightarrow> send_alone_loop env trigger ds l tr = None"
  by (induction ds) (auto simp: plain_dev_def s32_small Let_def)

lemma send_req_plain:
  assumes "\<And>n. crm_orc env n = 0" "\<forall>d\<in>set (take (num_devs l) (l_dev l)). plain_dev l trigger d"
  shows "send_req env trigger l tr =
     (0, l, tr @ concat (map (apply_call l trigger) (take (num_devs l) (l_dev l))), None)"
  by (simp add: send_req_def send_alone_plain [OF assms(2)] send_all_plain [OF assms] Let_def)

text \<open>
  No device of the link holds the request at slot \<open>s\<close> back: no delay is injected, no device
  wants to be served alone, and all devices are driven by the start of a frame.
\<close>

definition undisturbed :: "cam_req_mgr_core_link \<Rightarrow> int \<Rightarrow> bool" where
  "undisturbed l s \<longleftrightarrow> subscribe_event l = CAM_TRIGGER_POINT_SOF \<and> trigger_mask l = 0
     \<and> sync_link l = None \<and> \<not> in_msync_mode l
     \<and> (\<forall>d\<in>set (take (num_devs l) (l_dev l)). dev_trigger_mask d = CAM_TRIGGER_POINT_SOF \<and> can_apply d)
     \<and> (\<forall>t\<in>set (l_tbl l). let x = tbl_slot t ((s - (max_delay l - tbl_pd t)) mod 48)
           in ts_inject_delay x = 0 \<and> \<not> skip_next_frame x \<and> \<not> is_applied x)"

text \<open>The call device \<open>d\<close> should get when the request at slot \<open>s\<close> is applied.\<close>

definition aligned_call :: "cam_req_mgr_core_link \<Rightarrow> int \<Rightarrow> cam_req_mgr_connected_device \<Rightarrow> crm_call list" where
  "aligned_call l s d =
     (let k = (s - (max_delay l - p_delay d)) mod 48; x = q_slot (qof l) k in
      if 0 < skip_traverse (tbl_of l d) \<or> sl_req_id x < 0 then []
      else [Apply_req \<lparr>ap_link_hdl = link_hdl l, ap_dev_hdl = dev_hdl d, ap_request_id = u64_of (sl_req_id x),
             ap_report_if_bubble = recover x, ap_trigger_point = CAM_TRIGGER_POINT_SOF\<rparr>])"

lemma tbl_of_map:
  assumes "find (\<lambda>t. tbl_pd t = the (pd_tbl d)) (l_tbl l) = Some t" "\<And>t. tbl_pd (f t) = tbl_pd t"
    "l_tbl l' = map f (l_tbl l)"
  shows "tbl_of l' d = f t"
proof -
  have "find (\<lambda>t. tbl_pd t = pd) (map f ts) = map_option f (find (\<lambda>t. tbl_pd t = pd) ts)" for pd ts
    by (induction ts) (auto simp: assms(2))
  then show ?thesis using assms(1,3) by (simp add: tbl_of_def)
qed

lemma skip_down_pd [simp]: "tbl_pd (skip_down t) = tbl_pd t" "tbl_slot (skip_down t) = tbl_slot t"
  by (simp_all add: skip_down_def)

text \<open>The link after a successful check, on an undisturbed link.\<close>

lemma ready_link_plain:
  assumes wf: "link_wf l" and s: "0 \<le> s" "s < 48" and und: "undisturbed l s"
    and pass: "all_pass (qof l) s (max_delay l) (l_tbl l)"
  obtains l' where "check_link_is_ready s False l = (0, l')"
    and "l' = l\<lparr>l_tbl := map skip_down (l_tbl l), apply_data := apply_data l', initial_skip := False\<rparr>"
    and "\<forall>d\<in>set (take (num_devs l) (l_dev l)). plain_dev l' CAM_TRIGGER_POINT_SOF d
           \<and> apply_call l' CAM_TRIGGER_POINT_SOF d = aligned_call l s d"
proof -
  obtain l' where l': "check_link_is_ready s False l = (0, l')" "l_tbl l' = map skip_down (l_tbl l)"
    "apply_data l' = applied_all (qof l) s (max_delay l) (l_tbl l) (for_slots 3 (\<lambda>i a. zero_apply) (apply_data l))"
    "l' = l\<lparr>l_tbl := l_tbl l', apply_data := apply_data l', initial_skip := False\<rparr>"
    using check_ready_parts(1) [OF wf s pass, of False] by auto
  have sel: "qof l' = qof l" "link_hdl l' = link_hdl l" by (subst l'(4), simp)+
  have ok: "tbls_ok (l_tbl l)" using wf by (simp add: link_wf_def)
  have "plain_dev l' CAM_TRIGGER_POINT_SOF d \<and> apply_call l' CAM_TRIGGER_POINT_SOF d = aligned_call l s d"
    if d: "d \<in> set (take (num_devs l) (l_dev l))" for d
  proof -
    note dt = dev_table [OF wf d]
    let ?t = "tbl_of l d"
    have t: "?t \<in> set (l_tbl l)" "tbl_pd ?t = p_delay d" using dt by auto
    have pd: "0 \<le> p_delay d" "p_delay d < 3" using tbls_ok_all [OF ok t(1)] t(2) by (auto simp: tbl_ok_def)
    have "find (\<lambda>t. tbl_pd t = the (pd_tbl d)) (l_tbl l) = Some ?t"
      using tbls_ok_find [OF ok t(1,2)] dt by simp
    then have t': "tbl_of l' d = skip_down ?t" by (rule tbl_of_map [OF _ _ l'(2)]) simp
    have a: "apply_data l' (p_delay d) = applied_for (qof l) (slot_for s (max_delay l) ?t) ?t zero_apply"
      using applied_all_at [OF ok t(1)] t(2) pd by (simp add: l'(3) for_slots_def)
    show ?thesis
      using und d t pd
      by (auto simp: plain_dev_def apply_call_def aligned_call_def a t' sel undisturbed_def applied_for_def
          zero_apply_def slot_for_def Let_def)
  qed
  then show thesis using that [OF l'(1)] l'(2,4) by metis
qed

lemma process_sof_plain:
  fixes trig :: cam_req_mgr_trigger_notify and c :: crm
  assumes wf: "link_wf (g_links c i)" and und: "undisturbed (g_links c i) s" and s: "0 \<le> s" "s < 48"
    and pass: "all_pass (qof (g_links c i)) s (max_delay (g_links c i)) (l_tbl (g_links c i))"
  defines "l0 \<equiv> (g_links c i)\<lparr>prev_sof_timestamp := sof_timestamp (g_links c i), sof_timestamp := tn_sof_timestamp_val trig\<rparr>"
  shows "\<exists>c2 l'. process_sof i s trig c = Inr c2 \<and> g_links c2 i = l' \<and> crm_calls c2 = crm_calls c
     \<and> l' = l0\<lparr>l_tbl := map skip_down (l_tbl l0), apply_data := apply_data l', initial_skip := False\<rparr>
     \<and> (\<forall>d\<in>set (take (num_devs l0) (l_dev l0)). plain_dev l' CAM_TRIGGER_POINT_SOF d
           \<and> apply_call l' CAM_TRIGGER_POINT_SOF d = aligned_call (g_links c i) s d)"
proof -
  have wf0: "link_wf l0" "undisturbed l0 s" "all_pass (qof l0) s (max_delay l0) (l_tbl l0)"
    using wf und pass by (simp_all add: l0_def undisturbed_def)
  obtain l' where l': "check_link_is_ready s False l0 = (0, l')"
    "l' = l0\<lparr>l_tbl := map skip_down (l_tbl l0), apply_data := apply_data l', initial_skip := False\<rparr>"
    "\<forall>d\<in>set (take (num_devs l0) (l_dev l0)). plain_dev l' CAM_TRIGGER_POINT_SOF d
           \<and> apply_call l' CAM_TRIGGER_POINT_SOF d = aligned_call l0 s d"
    by (rule ready_link_plain [OF wf0(1) s wf0(2,3)])
  have al: "aligned_call l0 s d = aligned_call (g_links c i) s d" for d
    by (simp add: l0_def aligned_call_def tbl_of_def Let_def)
  have idx: "sl_idx (q_slot (qof l0) s) = s" using link_wf_q [OF wf0(1)] s by (simp add: q_ok_def)
  obtain t ts where ts: "l_tbl l0 = t # ts" "max_delay l0 = tbl_pd t" "tbls_ok (l_tbl l0)"
    using wf0(1) by (cases "l_tbl l0") (auto simp: link_wf_def)
  have inj: "inject_delay (l_tbl l0) s 0 = (0, l_tbl l0)"
    by (rule inject_delay_none [where idx = s and top_pd = "max_delay l0"])
      (use wf0(2) ts s in \<open>auto simp: undisturbed_def slot_for_def Let_def\<close>)
  let ?c1 = "upd_link i (\<lambda>l. l\<lparr>prev_sof_timestamp := sof_timestamp l, sof_timestamp := tn_sof_timestamp_val trig\<rparr>) c"
  have c1: "g_links ?c1 i = l0" "crm_calls ?c1 = crm_calls c" by (simp_all add: l0_def)
  have no: "no_sync_check i s ?c1 = (0, upd_link i (\<lambda>_. l') ?c1)"
  proof -
    have "on_link i (link_inject_delay s) ?c1 = (0, upd_link i (\<lambda>_. l0) ?c1)"
      by (simp only: on_link_def c1 link_inject_delay_def inj Let_def prod.case) simp
    moreover have "on_link i (check_link_is_ready s False) (upd_link i (\<lambda>_. l0) ?c1) = (0, upd_link i (\<lambda>_. l') ?c1)"
      using l'(1) by (simp add: on_link_def upd_link_def)
    moreover have "\<not> in_msync_mode l0" using wf0(2) by (simp add: undisturbed_def)
    ultimately show ?thesis by (simp only: no_sync_check_def c1 idx Let_def prod.case if_False if_True simp_thms)
  qed
  have "process_sof i s trig c = Inr (upd_link i (\<lambda>_. l') ?c1)"
    using wf0(2) unfolding process_sof_def Let_def c1 undisturbed_def by (simp add: no)
  then show ?thesis using l'(2,3) al by simp
qed

lemma request_applied_status:
  assumes q: "in_q (g_links c i) = Some q" "q_ok q" and s: "s = rd_idx q" and pd: "0 \<le> max_delay (g_links c i)" "max_delay (g_links c i) < 3"
    and ns: "sync_link (g_links c i) = None"
  shows "sl_status (q_slot (qof (g_links (request_applied i s c) i)) s) = CRM_SLOT_STATUS_REQ_APPLIED
     \<and> sl_req_id (q_slot (qof (g_links (request_applied i s c) i)) s) = sl_req_id (q_slot q s)
     \<and> trigger_mask (g_links (request_applied i s c) i) = 0
     \<and> open_req_cnt (g_links (request_applied i s c) i) = open_req_cnt (g_links c i) - 1
     \<and> retry_cnt (g_links (request_applied i s c) i) = retry_cnt (g_links c i)
     \<and> rd_idx (qof (g_links (request_applied i s c) i)) = rd_idx q
     \<and> crm_calls (request_applied i s c) = crm_calls c"
proof -
  have "dec_idx s (max_delay (g_links c i) + 1) 48 \<noteq> s"
    using pd q(2) s by (auto simp: dec_idx_def Let_def q_ok_def)
  then show ?thesis
    using q ns by (auto simp: request_applied_def set_status_def upd_q_def upd_slot_def reset_req_slot_def s s32_small [OF pd] q_ok_def Let_def)
qed

lemma validate_wd_effect:
  "\<exists>w tm. validate_crm_wd_timer l tr = (l\<lparr>watchdog := w\<rparr>, tr @ tm) \<and> set tm \<subseteq> range Mod_timer"
proof (cases "watchdog l")
  case None
  then have "validate_crm_wd_timer l tr = (l\<lparr>watchdog := None\<rparr>, tr @ [])"
    by (simp add: validate_crm_wd_timer_def Let_def)
  then show ?thesis by (metis empty_set empty_subsetI)
next
  case (Some w)
  let ?P = "\<lambda>r. \<exists>w tm. r = (l\<lparr>watchdog := w\<rparr>, tr @ tm) \<and> set tm \<subseteq> range Mod_timer"
  have m: "?P (l\<lparr>watchdog := Some (w\<lparr>expires := e\<rparr>)\<rparr>, tr @ [Mod_timer e])" for e by fastforce
  have "(l, tr) = (l\<lparr>watchdog := Some w\<rparr>, tr @ [])" using Some by simp
  then have z: "?P (l, tr)" by (metis empty_set empty_subsetI)
  show ?thesis
    using m z by (simp add: validate_crm_wd_timer_def Some crm_timer_modify_def crm_timer_reset_def Let_def)
qed

lemma process_apply_plain:
  assumes send: "send_req env CAM_TRIGGER_POINT_SOF (g_links c i) (crm_calls c) = (0, g_links c i, tr, None)"
    and q: "in_q (g_links c i) = Some q" "q_ok q" "s = rd_idx q" and pd: "0 \<le> max_delay (g_links c i)" "max_delay (g_links c i) < 3"
    and und: "sync_link (g_links c i) = None" "trigger_mask (g_links c i) = 0" "subscribe_event (g_links c i) = CAM_TRIGGER_POINT_SOF"
  shows "\<exists>c' tm. process_apply env i s CAM_TRIGGER_POINT_SOF c = (0, c') \<and> crm_calls c' = tr @ tm \<and> set tm \<subseteq> range Mod_timer
     \<and> sl_status (q_slot (qof (g_links c' i)) s) = CRM_SLOT_STATUS_REQ_APPLIED
     \<and> retry_cnt (g_links c' i) = 0 \<and> open_req_cnt (g_links c' i) = open_req_cnt (g_links c i) - 1"
proof -
  let ?l2 = "(g_links c i)\<lparr>retry_cnt := 0, trigger_mask := trigger_mask (g_links c i) OR CAM_TRIGGER_POINT_SOF\<rparr>"
  obtain w tm where v: "validate_crm_wd_timer ?l2 tr = (?l2\<lparr>watchdog := w\<rparr>, tr @ tm)" "set tm \<subseteq> range Mod_timer"
    using validate_wd_effect by blast
  let ?l4 = "?l2\<lparr>watchdog := w, link_state := (if link_state (g_links c i) = CAM_CRM_LINK_STATE_ERR
      then CAM_CRM_LINK_STATE_READY else link_state (g_links c i)), sync_link_sof_skip := False\<rparr>"
  let ?c4 = "(upd_link i (\<lambda>_. ?l4) ((upd_link i (\<lambda>_. g_links c i) c)\<lparr>crm_calls := tr\<rparr>))\<lparr>crm_calls := tr @ tm\<rparr>"
  have p: "process_apply env i s CAM_TRIGGER_POINT_SOF c = (0, request_applied i s ?c4)"
    unfolding process_apply_def send Let_def prod.case v(1) using und by simp
  have c4: "g_links ?c4 i = ?l4" "crm_calls ?c4 = tr @ tm" by simp_all
  note r = request_applied_status [where c = ?c4 and i = i and q = q and s = s, unfolded c4]
  show ?thesis unfolding p using r q pd und v(2) by simp
qed

text \<open>
  C5: When a frame starts on an undisturbed link, the slot at the read index holds a request and every table
  is ready, each device gets exactly the request that lies as many slots behind the read index as its
  delay is smaller than the largest delay of the link, once and in the order of the devices; devices
  whose table still skips frames, or whose slot has no request, get nothing. The request at the
  read index is then applied, the retry counter is cleared and one request fewer is open. Undisturbed means: the
  link is not paired with another, it and all its devices are driven by the start of a frame only and no
  trigger is outstanding, all devices take requests, and at the slots concerned no delay is injected, no device is
  served alone and none got its request already. Every device accepts its request (the calls return 0).
\<close>

theorem crm_sof_applies_aligned:
  fixes c :: crm and i :: nat
  defines "l \<equiv> g_links c i"
  defines "s \<equiv> rd_idx (qof l)"
  assumes wf: "link_wf l" and und: "undisturbed l s" and env: "\<And>n. crm_orc env n = 0"
    and st: "sl_status (q_slot (qof l) s) \<noteq> CRM_SLOT_STATUS_NO_REQ"
    and trig: "tn_trigger trig = CAM_TRIGGER_POINT_SOF"
    and pass: "\<forall>t\<in>set (l_tbl l). tbl_passes (qof l) t ((s - (max_delay l - tbl_pd t)) mod 48)"
    and run: "process_req env i trig c = (rc, c')"
  shows "rc = 0
     \<and> (\<exists>tm. crm_calls c' = crm_calls c @ concat (map (aligned_call l s) (take (num_devs l) (l_dev l))) @ tm
          \<and> set tm \<subseteq> range Mod_timer)
     \<and> sl_status (q_slot (qof (g_links c' i)) s) = CRM_SLOT_STATUS_REQ_APPLIED
     \<and> retry_cnt (g_links c' i) = 0 \<and> open_req_cnt (g_links c' i) = open_req_cnt l - 1"
proof -
  have q: "in_q l = Some (qof l)" "q_ok (qof l)" using link_wf_q [OF wf] by auto
  have s: "0 \<le> s" "s < 48" using q(2) by (auto simp: q_ok_def s_def)
  have "max_delay l = tbl_pd (hd (l_tbl l))" "hd (l_tbl l) \<in> set (l_tbl l)" using wf by (auto simp: link_wf_def)
  then have pd: "0 \<le> max_delay l" "max_delay l < 3"
    using tbls_ok_all [of "l_tbl l" "hd (l_tbl l)"] wf by (auto simp: tbl_ok_def link_wf_def)
  have ap: "all_pass (qof l) s (max_delay l) (l_tbl l)" using pass by (simp add: all_pass_def slot_for_def)
  let ?l0 = "l\<lparr>prev_sof_timestamp := sof_timestamp l, sof_timestamp := tn_sof_timestamp_val trig\<rparr>"
  obtain c2 l' where c2: "process_sof i s trig c = Inr c2" "g_links c2 i = l'" "crm_calls c2 = crm_calls c"
    "l' = ?l0\<lparr>l_tbl := map skip_down (l_tbl ?l0), apply_data := apply_data l', initial_skip := False\<rparr>"
    "\<forall>d\<in>set (take (num_devs ?l0) (l_dev ?l0)). plain_dev l' CAM_TRIGGER_POINT_SOF d
           \<and> apply_call l' CAM_TRIGGER_POINT_SOF d = aligned_call l s d"
    using process_sof_plain [of c i s trig, folded l_def] wf und s ap by blast
  have sel: "num_devs l' = num_devs l" "l_dev l' = l_dev l" "in_q l' = in_q l" "max_delay l' = max_delay l"
    "sync_link l' = sync_link l" "trigger_mask l' = trigger_mask l" "subscribe_event l' = subscribe_event l"
    "open_req_cnt l' = open_req_cnt l"
    by (subst c2(4), simp)+
  let ?devs = "take (num_devs l) (l_dev l)"
  have "send_req env CAM_TRIGGER_POINT_SOF l' (crm_calls c) =
     (0, l', crm_calls c @ concat (map (apply_call l' CAM_TRIGGER_POINT_SOF) ?devs), None)"
    using send_req_plain [OF env, of l'] c2(5) sel(1,2) by simp
  also have "map (apply_call l' CAM_TRIGGER_POINT_SOF) ?devs = map (aligned_call l s) ?devs" using c2(5) by simp
  finally have send: "send_req env CAM_TRIGGER_POINT_SOF (g_links c2 i) (crm_calls c2) =
     (0, g_links c2 i, crm_calls c @ concat (map (aligned_call l s) ?devs), None)" by (simp add: c2(2,3))
  have "process_req env i trig c = process_apply env i s CAM_TRIGGER_POINT_SOF c2"
    using st trig c2(1) by (simp add: process_req_def l_def s_def)
  moreover obtain c3 tm where "process_apply env i s CAM_TRIGGER_POINT_SOF c2 = (0, c3)"
    "crm_calls c3 = (crm_calls c @ concat (map (aligned_call l s) ?devs)) @ tm" "set tm \<subseteq> range Mod_timer"
    "sl_status (q_slot (qof (g_links c3 i)) s) = CRM_SLOT_STATUS_REQ_APPLIED"
    "retry_cnt (g_links c3 i) = 0" "open_req_cnt (g_links c3 i) = open_req_cnt (g_links c2 i) - 1"
    using process_apply_plain [OF send, of "qof l" s] q pd und sel c2(2) by (auto simp: s_def undisturbed_def)
  ultimately show ?thesis using run c2(2) sel(8) by auto
qed

theorem crm_sof_applies_aligned_witness:
  "\<exists>c' tm. process_req demo_env 0 demo_sof demo_c2 = (0, c')
     \<and> crm_calls c' = [Apply_req \<lparr>ap_link_hdl = 0x105, ap_dev_hdl = 0x100, ap_request_id = 5,
          ap_report_if_bubble = 1, ap_trigger_point = CAM_TRIGGER_POINT_SOF\<rparr>] @ tm
     \<and> set tm \<subseteq> range Mod_timer"
proof -
  obtain rc c' where e: "process_req demo_env 0 demo_sof demo_c2 = (rc, c')" by (rule prod.exhaust)
  let ?l = "g_links demo_c2 0"
  have rd: "rd_idx (qof ?l) = 0" by (simp add: demo_c2_link demo_link2_defs)
  have "undisturbed ?l 0"
    by (simp add: demo_c2_link undisturbed_def demo_link2_defs can_apply_def)
  moreover have "\<forall>t\<in>set (l_tbl ?l). tbl_passes (qof ?l) t ((0 - (max_delay ?l - tbl_pd t)) mod 48)"
    by (simp add: demo_c2_link tbl_passes_def demo_link2_defs)
  moreover have "sl_status (q_slot (qof ?l) 0) \<noteq> CRM_SLOT_STATUS_NO_REQ" by (simp add: demo_c2_link demo_link2_defs)
  ultimately have r: "rc = 0" "\<exists>tm. crm_calls c' = crm_calls demo_c2 @ concat (map (aligned_call ?l 0) (take (num_devs ?l) (l_dev ?l))) @ tm
          \<and> set tm \<subseteq> range Mod_timer"
    using crm_sof_applies_aligned [of demo_c2 0 demo_env demo_sof rc c', unfolded rd] crm_wf_link [OF demo_c2_wf] e
    by (simp_all add: demo_env_def demo_sof_def)
  have "concat (map (aligned_call ?l 0) (take (num_devs ?l) (l_dev ?l))) =
      [Apply_req \<lparr>ap_link_hdl = 0x105, ap_dev_hdl = 0x100, ap_request_id = 5, ap_report_if_bubble = 1,
         ap_trigger_point = CAM_TRIGGER_POINT_SOF\<rparr>]"
    by (simp add: demo_c2_link aligned_call_def tbl_of_def demo_link2_defs u64_of_def)
  then have "\<exists>tm. crm_calls c' = [Apply_req \<lparr>ap_link_hdl = 0x105, ap_dev_hdl = 0x100, ap_request_id = 5, ap_report_if_bubble = 1,
         ap_trigger_point = CAM_TRIGGER_POINT_SOF\<rparr>] @ tm \<and> set tm \<subseteq> range Mod_timer"
    using r(2) demo_c2_calls by simp
  then show ?thesis using e r(1) by simp
qed

section \<open>A device refuses a request\<close>

definition bubble_call :: "int \<Rightarrow> u64 \<Rightarrow> cam_req_mgr_connected_device \<Rightarrow> crm_call" where
  "bubble_call lhdl req d = Process_evt \<lparr>ev_link_hdl = lhdl, ev_dev_hdl = dev_hdl d, ev_req_id = req,
     ev_evt_type = CAM_REQ_MGR_LINK_EVT_ERR, ev_error = Some CRM_KMD_ERR_BUBBLE\<rparr>"

lemma bubble_events_eq: "bubble_events env lhdl req ds tr = tr @ map (bubble_call lhdl req) (filter can_evt ds)"
  by (induction ds arbitrary: tr) (auto simp: do_call_def bubble_call_def)

text \<open>One round of the second loop: it ends here with a refusal, or goes on.\<close>

lemma send_all_cases:
  fixes l :: cam_req_mgr_core_link and e :: cam_req_mgr_connected_device
  defines "a \<equiv> apply_data l (s32 (p_delay e))"
  defines "rq trigger \<equiv> \<lparr>ap_link_hdl = link_hdl l, ap_dev_hdl = dev_hdl e, ap_request_id = u64_of (a_req_id a),
     ap_report_if_bubble = recover (q_slot (qof l) (a_idx a)), ap_trigger_point = trigger\<rparr>"
  assumes run: "send_all_loop env trigger (e # ds) seen rc l tr = res" and rc: "0 \<le> rc"
  obtains (stop) "crm_orc env (length tr) < 0" "res
        = (crm_orc env (length tr), l, tr @ [Apply_req (rq trigger)], Some e, e # seen, u64_of (a_req_id a))"
    | (go) r k bs where "send_all_loop env trigger ds (e # seen) r k (tr @ map Apply_req bs) = res"
        "0 \<le> r" "ap_dev_hdl ` set bs \<subseteq> {dev_hdl e}"
proof -
  let ?a = a and ?req = "rq trigger" and ?pd = "s32 (p_delay e)"
  let ?slot = "tbl_slot (tbl_of l e) (a_idx ?a)"
  consider (pass) "CAM_PIPELINE_DELAY_MAX \<le> ?pd \<or> a_skip_idx ?a \<noteq> 0 \<or> a_req_id ?a < 0 \<or> dev_trigger_mask e AND trigger = 0"
    | (served) "ts_dev_hdl ?slot = dev_hdl e \<and> is_applied ?slot"
        "\<not> (CAM_PIPELINE_DELAY_MAX \<le> ?pd \<or> a_skip_idx ?a \<noteq> 0 \<or> a_req_id ?a < 0 \<or> dev_trigger_mask e AND trigger = 0)"
    | (call) "can_apply e" "\<not> (ts_dev_hdl ?slot = dev_hdl e \<and> is_applied ?slot)"
        "\<not> (CAM_PIPELINE_DELAY_MAX \<le> ?pd \<or> a_skip_idx ?a \<noteq> 0 \<or> a_req_id ?a < 0 \<or> dev_trigger_mask e AND trigger = 0)"
    | (mute) "\<not> can_apply e" "\<not> (ts_dev_hdl ?slot = dev_hdl e \<and> is_applied ?slot)"
        "\<not> (CAM_PIPELINE_DELAY_MAX \<le> ?pd \<or> a_skip_idx ?a \<noteq> 0 \<or> a_req_id ?a < 0 \<or> dev_trigger_mask e AND trigger = 0)"
    by blast
  then show thesis
  proof cases
    case pass
    then have "send_all_loop env trigger ds (e # seen) rc l tr = res"
      using run by (elim disjE) (simp_all add: Let_def a_def split: if_splits)
    then show thesis using go [of rc l "[]"] rc by simp
  next
    case served
    then have "send_all_loop env trigger ds (e # seen) rc (set_tslot e (a_idx ?a) (\<lambda>s. s\<lparr>is_applied := False\<rparr>) l) tr
        = res" using run by (simp add: Let_def a_def)
    then show thesis using go [of rc _ "[]"] rc by simp
  next
    case call
    have f: "(ts_dev_hdl ?slot = dev_hdl e \<and> is_applied ?slot) = False" using call(2) by blast
    show thesis
    proof (cases "crm_orc env (length tr) < 0")
      case True
      then show thesis
        using run call(1,3) by (intro stop) (simp_all add: Let_def do_call_def f [unfolded a_def] rq_def a_def)
    next
      case False
      then have "send_all_loop env trigger ds (e # seen) (crm_orc env (length tr)) l (tr @ map Apply_req [?req]) = res"
        using run call(1,3) by (simp add: Let_def do_call_def f [unfolded a_def] rq_def a_def)
      then show thesis by (rule go) (use False in \<open>simp_all add: rq_def\<close>)
    qed
  next
    case mute
    have f: "(ts_dev_hdl ?slot = dev_hdl e \<and> is_applied ?slot) = False" using mute(2) by blast
    from mute(1,3) have "send_all_loop env trigger ds (e # seen) rc l tr = res"
      using run by (simp add: Let_def f [unfolded a_def] a_def)
    then show thesis using go [of rc l "[]"] rc by simp
  qed
qed

lemma send_all_failed:
  "send_all_loop env trigger ds seen rc l tr = (rc', l', tr', dev, told, req) \<Longrightarrow> 0 \<le> rc \<Longrightarrow> rc' < 0 \<Longrightarrow>
     \<exists>pre d post as. ds = pre @ d # post \<and> dev = Some d \<and> told = d # rev pre @ seen
       \<and> tr' = tr @ map Apply_req as \<and> as \<noteq> [] \<and> ap_dev_hdl (last as) = dev_hdl d \<and> ap_request_id (last as) = req
       \<and> ap_dev_hdl ` set as \<subseteq> dev_hdl ` set (pre @ [d])"
proof (induction ds arbitrary: seen rc l tr)
  case (Cons e ds)
  have skip: "\<exists>pre d post as. e # ds = pre @ d # post \<and> dev = Some d \<and> told = d # rev pre @ seen
       \<and> tr' = tr @ map Apply_req as \<and> as \<noteq> [] \<and> ap_dev_hdl (last as) = dev_hdl d \<and> ap_request_id (last as) = req
       \<and> ap_dev_hdl ` set as \<subseteq> dev_hdl ` set (pre @ [d])"
    if rest: "send_all_loop env trigger ds (e # seen) r k (tr @ map Apply_req bs) = (rc', l', tr', dev, told, req)"
      and r: "0 \<le> r" and bs: "ap_dev_hdl ` set bs \<subseteq> {dev_hdl e}" for r k bs
  proof -
    obtain pre d post as where "ds = pre @ d # post" "dev = Some d" "told = d # rev pre @ e # seen"
      "tr' = (tr @ map Apply_req bs) @ map Apply_req as" "as \<noteq> []" "ap_dev_hdl (last as) = dev_hdl d"
      "ap_request_id (last as) = req" "ap_dev_hdl ` set as \<subseteq> dev_hdl ` set (pre @ [d])"
      using Cons.IH [OF rest r Cons.prems(3)] by blast
    then show ?thesis using bs by (intro exI [of _ "e # pre"] exI [of _ d] exI [of _ post] exI [of _ "bs @ as"]) auto
  qed
  from Cons.prems(1,2) show ?case
  proof (cases rule: send_all_cases)
    case stop
    then show ?thesis
      by (intro exI [of _ "[]"] exI [of _ e] exI [of _ ds] exI [of _ "[r]" for r]) auto
  next
    case go
    then show ?thesis by (rule skip)
  qed
qed simp

text \<open>The devices that are served alone: their request asks for the next frame to be left out.\<close>

definition wants_alone :: "u32 \<Rightarrow> cam_req_mgr_core_link \<Rightarrow> cam_req_mgr_connected_device \<Rightarrow> bool" where
  "wants_alone trigger l d \<longleftrightarrow>
     (let slot = tbl_slot (tbl_of l d) (a_idx (apply_data l (s32 (p_delay d)))) in
      s32 (p_delay d) < CAM_PIPELINE_DELAY_MAX \<and> skip_next_frame slot \<and> ts_dev_hdl slot = dev_hdl d
      \<and> dev_trigger_mask d AND trigger \<noteq> 0 \<and> can_apply d)"

lemma send_alone_eq:
  "send_alone_loop env trigger ds l tr =
     (case find (wants_alone trigger l) ds of
        None \<Rightarrow> None
      | Some d \<Rightarrow>
          let pd = s32 (p_delay d); idx = a_idx (apply_data l pd);
              tr1 = tr @ [Apply_req \<lparr>ap_link_hdl = link_hdl l, ap_dev_hdl = dev_hdl d,
                ap_request_id = u64_of (a_req_id (apply_data l pd)), ap_report_if_bubble = 0, ap_trigger_point = trigger\<rparr>] in
          if crm_orc env (length tr) \<noteq> 0 then Some (crm_orc env (length tr), l, tr1, Some d)
          else Some (- EAGAIN, set_tslot d idx (\<lambda>s. s\<lparr>skip_next_frame := False, is_applied := True\<rparr>) l, tr1, None))"
  by (induction ds) (auto simp: wants_alone_def Let_def do_call_def)

text \<open>
  C22: When the requests of a trigger could not all be given out (the code is negative), there are two cases. If
  a device is to be served alone, only the first such device is asked and nobody is told anything; the function
  reports the device when it refused, and none when it accepted. Otherwise a device refused: the
  devices after it are not asked, the refusing device and all devices before it that take events are told
  about the bubble, in reverse order, nobody else is told anything, and the function reports the device that refused.
\<close>

theorem crm_apply_failure_rolls_back:
  assumes "send_req env trigger l tr = (rc, l', tr', dev)" "rc < 0"
  shows "case find (wants_alone trigger l) (take (num_devs l) (l_dev l)) of
     Some d \<Rightarrow> \<exists>a. tr' = tr @ [Apply_req a] \<and> ap_dev_hdl a = dev_hdl d
        \<and> (if crm_orc env (length tr) = 0 then rc = - EAGAIN \<and> dev = None else rc = crm_orc env (length tr) \<and> dev = Some d)
   | None \<Rightarrow> \<exists>pre d post as. take (num_devs l) (l_dev l) = pre @ d # post \<and> dev = Some d
     \<and> tr' = tr @ map Apply_req as @ map (bubble_call (link_hdl l) (ap_request_id (last as))) (filter can_evt (d # rev pre))
     \<and> as \<noteq> [] \<and> ap_dev_hdl (last as) = dev_hdl d \<and> ap_dev_hdl ` set as \<subseteq> dev_hdl ` set (pre @ [d])"
proof (cases "find (wants_alone trigger l) (take (num_devs l) (l_dev l))")
  case None
  let ?devs = "take (num_devs l) (l_dev l)"
  obtain r1 l1 tr1 dev1 told req where e: "send_all_loop env trigger ?devs [] 0 l tr = (r1, l1, tr1, dev1, told, req)"
    by (metis prod.exhaust)
  then have r: "r1 < 0" "dev = dev1" "tr' = bubble_events env (link_hdl l) req told tr1"
    using assms None by (auto simp: send_req_def send_alone_eq Let_def split: if_splits)
  obtain pre d post as where "?devs = pre @ d # post" "dev1 = Some d" "told = d # rev pre @ []"
    "tr1 = tr @ map Apply_req as" "as \<noteq> []" "ap_dev_hdl (last as) = dev_hdl d" "ap_request_id (last as) = req"
    "ap_dev_hdl ` set as \<subseteq> dev_hdl ` set (pre @ [d])"
    using send_all_failed [OF e _ r(1)] by auto
  then show ?thesis
    unfolding None option.case using r
    by (intro exI [of _ pre] exI [of _ d] exI [of _ post] exI [of _ as]) (simp add: bubble_events_eq)
next
  case (Some d)
  then show ?thesis
    using assms by (auto simp: send_req_def send_alone_eq Let_def split: if_splits)
qed

definition demo_send :: cam_req_mgr_core_link where
  "demo_send = demo_l2\<lparr>apply_data := (\<lambda>p. \<lparr>a_idx = 0, a_pd = p, a_req_id = 5, a_skip_idx = 0\<rparr>)\<rparr>"

lemma demo_send_failed:
  "\<exists>l' tr'. send_req (demo_env\<lparr>crm_orc := (\<lambda>n. - 5)\<rparr>) CAM_TRIGGER_POINT_SOF demo_send [] = (- 5, l', tr', Some demo_sensor)"
  "find (wants_alone CAM_TRIGGER_POINT_SOF demo_send) (take (num_devs demo_send) (l_dev demo_send)) = None"
  by (simp_all add: wants_alone_def send_req_def demo_send_def demo_link2_defs do_call_def tbl_of_def can_apply_def s32_def Let_def)

theorem crm_apply_failure_rolls_back_witness:
  "\<exists>l' as. send_req (demo_env\<lparr>crm_orc := (\<lambda>n. - 5)\<rparr>) CAM_TRIGGER_POINT_SOF demo_send []
     = (- 5, l', map Apply_req as @ [bubble_call 0x105 (ap_request_id (last as)) demo_sensor], Some demo_sensor)"
proof -
  obtain l' tr' where e: "send_req (demo_env\<lparr>crm_orc := (\<lambda>n. - 5)\<rparr>) CAM_TRIGGER_POINT_SOF demo_send [] = (- 5, l', tr', Some demo_sensor)"
    using demo_send_failed(1) by blast
  obtain pre d post as where r: "take (num_devs demo_send) (l_dev demo_send) = pre @ d # post" "Some demo_sensor = Some d"
     "tr' = [] @ map Apply_req as @ map (bubble_call (link_hdl demo_send) (ap_request_id (last as))) (filter can_evt (d # rev pre))"
    using crm_apply_failure_rolls_back [OF e] demo_send_failed(2) by auto
  have "pre @ demo_sensor # post = [demo_sensor, demo_ife]"
    using r(1,2) by (simp add: demo_send_def demo_l2_def demo_l1_def demo_link_def)
  moreover have "demo_sensor \<noteq> demo_ife" by (simp add: demo_sensor_def demo_ife_def)
  ultimately have "pre = []" by (cases pre) (auto simp: append_eq_Cons_conv)
  moreover have "can_evt demo_sensor" "link_hdl demo_send = 0x105" by (simp_all add: can_evt_def demo_send_def demo_link2_defs)
  ultimately show ?thesis using e r(2,3) by auto
qed

section \<open>Finding a request\<close>

lemma find_slot_loop_none:
  assumes "num_slots q = 48" "0 \<le> idx" "idx < 48"
  shows "find_slot_loop q req n idx = - 1 \<longleftrightarrow> (\<forall>j<n. sl_req_id (q_slot q ((idx - int j) mod 48)) \<noteq> req)"
  using assms
proof (induction n arbitrary: idx)
  case (Suc n)
  have d: "dec_idx idx 1 48 = (idx - 1) mod 48" by (rule dec_idx_ring) (use Suc.prems in auto)
  have "find_slot_loop q req n ((idx - 1) mod 48) = - 1
      \<longleftrightarrow> (\<forall>j<n. sl_req_id (q_slot q (((idx - 1) mod 48 - int j) mod 48)) \<noteq> req)"
    by (rule Suc.IH) (use Suc.prems in auto)
  moreover have "((idx - 1) mod 48 - int j) mod 48 = (idx - int (Suc j)) mod 48" for j
    by (simp add: ring_diff algebra_simps)
  ultimately show ?case using Suc.prems d by (auto simp: All_less_Suc2)
qed simp

lemma find_slot_none_iff:
  assumes "q_ok q"
  shows "find_slot_for_req q req = - 1 \<longleftrightarrow> (\<forall>k. 0 \<le> k \<and> k < 48 \<longrightarrow> sl_req_id (q_slot q k) \<noteq> req)"
proof -
  let ?r = "rd_idx q"
  have q: "num_slots q = 48" "0 \<le> ?r" "?r < 48" using assms by (auto simp: q_ok_def)
  have "(\<exists>j<48. k = (?r - int j) mod 48) \<longleftrightarrow> 0 \<le> k \<and> k < 48" for k
  proof
    assume k: "0 \<le> k \<and> k < 48"
    have "(?r - (?r - k) mod 48) mod 48 = k" using k by (simp add: mod_diff_right_eq)
    then show "\<exists>j<48. k = (?r - int j) mod 48" by (intro exI [of _ "nat ((?r - k) mod 48)"]) (simp add: nat_less_iff)
  qed auto
  then have "(\<forall>j<48. sl_req_id (q_slot q ((?r - int j) mod 48)) \<noteq> req) \<longleftrightarrow> (\<forall>k. 0 \<le> k \<and> k < 48 \<longrightarrow> sl_req_id (q_slot q k) \<noteq> req)"
    by metis
  then show ?thesis using find_slot_loop_none [OF q, of req 48] q(1) by (simp add: find_slot_for_req_def)
qed

lemma find_slot_unique:
  assumes "q_ok q" "0 \<le> k" "k < 48" "sl_req_id (q_slot q k) = req"
    and "\<And>k'. 0 \<le> k' \<Longrightarrow> k' < 48 \<Longrightarrow> k' \<noteq> k \<Longrightarrow> sl_req_id (q_slot q k') \<noteq> req"
  shows "find_slot_for_req q req = k"
proof (cases rule: find_slot_cases [OF assms(1), of req])
  case 1
  then show ?thesis using find_slot_none_iff [OF assms(1)] assms(2-4) by blast
next
  case 2
  then show ?thesis using assms(5) by blast
qed

text \<open>
  A request that is scheduled is found again: the search for its id returns the slot at the old
  write index, with the request's settings and a time-out between 0 and 50 seconds, and the write
  index has moved one slot around the ring.
\<close>

theorem crm_sched_find:
  fixes c :: crm and i :: nat
  defines "q \<equiv> qof (g_links c i)"
  assumes wf: "link_wf (g_links c i)" and run: "cam_req_mgr_process_sched_req i sr c = (rc, c')"
    and new: "\<And>k. 0 \<le> k \<Longrightarrow> k < 48 \<Longrightarrow> k \<noteq> wr_idx q \<Longrightarrow> sl_req_id (q_slot q k) \<noteq> sr_req_id sr"
  shows "rc = 0 \<and> (let q' = qof (g_links c' i); s = q_slot q' (wr_idx q) in
     find_slot_for_req q' (sr_req_id sr) = wr_idx q \<and> wr_idx q' = (wr_idx q + 1) mod 48 \<and> rd_idx q' = rd_idx q
     \<and> sl_status s = CRM_SLOT_STATUS_REQ_ADDED \<and> sl_sync_mode s = sr_sync_mode sr \<and> recover s = sr_bubble_enable sr
     \<and> skip_idx s = 0 \<and> 0 \<le> additional_timeout s \<and> additional_timeout s \<le> 50000)"
proof -
  have q: "in_q (g_links c i) = Some q" "q_ok q" using link_wf_q [OF wf] by (auto simp: q_def)
  let ?w = "wr_idx q"
  define q1 where "q1 = (upd_slot ?w (\<lambda>s. s\<lparr>sl_status := CRM_SLOT_STATUS_REQ_ADDED,
      sl_req_id := sr_req_id sr, sl_sync_mode := sr_sync_mode sr, skip_idx := 0, recover := sr_bubble_enable sr,
      additional_timeout := clamp_timeout (sr_additional_timeout sr)\<rparr>) q)\<lparr>wr_idx := (?w + 1) mod 48\<rparr>"
  have w: "0 \<le> ?w" "?w < 48" "num_slots q = 48" using q(2) by (auto simp: q_ok_def)
  have in_q': "in_q (g_links c' i) = Some q1" "rc = 0"
    using run q(1) w by (auto simp: cam_req_mgr_process_sched_req_def upd_q_def upd_slot_def q1_def inc_idx_ring Let_def
        split: if_splits option.splits)
  have "q_ok q1" using q(2) by (auto simp: q1_def q_ok_def upd_slot_def)
  then have "find_slot_for_req q1 (sr_req_id sr) = ?w"
    by (rule find_slot_unique) (use w new in \<open>auto simp: q1_def upd_slot_def\<close>)
  then show ?thesis using in_q' by (simp add: q1_def upd_slot_def clamp_timeout_def Let_def)
qed

theorem crm_sched_find_witness:
  "find_slot_for_req (qof (g_links (snd (cam_req_mgr_process_sched_req 0 demo_sched demo_crm)) 0)) 5 = 0"
proof -
  obtain rc c' where e: "cam_req_mgr_process_sched_req 0 demo_sched demo_crm = (rc, c')" by (rule prod.exhaust)
  have "sl_req_id (q_slot (qof (g_links demo_crm 0)) k) \<noteq> sr_req_id demo_sched" if "0 \<le> k" "k < 48" for k
    using that by (simp add: demo_crm_def demo_link_def demo_q_def demo_sched_def for_slots_def)
  then show ?thesis
    using crm_sched_find [OF _ e] demo_wf e by (auto simp: demo_crm_def demo_link_def demo_q_def demo_queue_def demo_sched_def Let_def)
qed

section \<open>Flushing a link\<close>

definition flush_call :: "cam_req_mgr_flush_info \<Rightarrow> cam_req_mgr_connected_device \<Rightarrow> crm_call" where
  "flush_call fi d = Flush_req \<lparr>fr_link_hdl = fi_link_hdl fi, fr_dev_hdl = dev_hdl d, fr_type = fi_flush_type fi,
     fr_req_id = u64_of (fi_req_id fi)\<rparr>"

definition can_flush :: "cam_req_mgr_connected_device \<Rightarrow> bool" where
  "can_flush d \<longleftrightarrow> (case ops d of None \<Rightarrow> False | Some k \<Rightarrow> has_flush_req k)"

lemma flush_devices_calls:
  "crm_calls (snd (flush_devices env fi ds rc c)) = crm_calls c @ map (flush_call fi) (filter can_flush ds)"
  by (induction ds arbitrary: rc c) (auto simp: Let_def split_beta emit_def do_call_def flush_call_def can_flush_def)

lemma flush_slot_facts:
  assumes "link_wf l"
  shows "\<exists>q. in_q (flush_req_slot l) = Some q \<and> q_ok q \<and> rd_idx q = 0
     \<and> (\<forall>k. 0 \<le> k \<and> k < 48 \<longrightarrow> sl_req_id (q_slot q k) = - 1 \<and> sl_status (q_slot q k) = CRM_SLOT_STATUS_NO_REQ)
     \<and> (\<forall>t\<in>set (l_tbl (flush_req_slot l)). \<forall>k. 0 \<le> k \<and> k < 48 \<longrightarrow>
          ts_state (tbl_slot t k) = CRM_REQ_STATE_EMPTY \<and> req_ready_map (tbl_slot t k) = 0)"
proof -
  obtain q where q: "in_q l = Some q" "q_ok q" using assms by (auto simp: link_wf_def)
  then show ?thesis
    using link_wf_q [OF flush_op.keeps_wf [OF assms]]
    by (auto simp: flush_req_slot_def upd_q_def for_slots_def q_ok_def Let_def)
qed

text \<open>
  C23: Flushing all requests of a link leaves no request behind: every slot of the queue is empty and
  every slot of every table is cleared, no request id is found, a device that adds a request
  afterwards is refused and a frame applies nothing. Every device with a flush callback is told
  once, in order, and the waiting caller is released at the end.
\<close>

theorem crm_flush_all_forgets:
  fixes c :: crm and i :: nat
  defines "l \<equiv> g_links c i"
  assumes wf: "link_wf l" and all: "fi_flush_type fi = CAM_REQ_MGR_FLUSH_TYPE_ALL"
    and run: "cam_req_mgr_process_flush_req env i fi c = (rc, c')"
  shows "(let l' = g_links c' i; q' = qof l' in
       (\<forall>k. 0 \<le> k \<and> k < 48 \<longrightarrow> sl_req_id (q_slot q' k) = - 1 \<and> sl_status (q_slot q' k) = CRM_SLOT_STATUS_NO_REQ)
     \<and> (\<forall>t\<in>set (l_tbl l'). \<forall>k. 0 \<le> k \<and> k < 48 \<longrightarrow>
          ts_state (tbl_slot t k) = CRM_REQ_STATE_EMPTY \<and> req_ready_map (tbl_slot t k) = 0)
     \<and> (\<forall>r. r \<noteq> - 1 \<longrightarrow> find_slot_for_req q' r = - 1))
     \<and> crm_calls c' = crm_calls c @ map (flush_call fi) (filter can_flush (take (num_devs l) (l_dev l))) @ [Complete_workq]
     \<and> (\<forall>ar. s64 (ar_req_id ar) \<noteq> - 1 \<longrightarrow> fst (cam_req_mgr_process_add_req i ar c') < 0
              \<and> snd (cam_req_mgr_process_add_req i ar c') = c')
     \<and> (\<forall>env' trig. process_req env' i trig c' = (0, c'))"
proof -
  let ?l0 = "l\<lparr>last_flush_id := of_int (fi_req_id fi)\<rparr>"
  let ?c1 = "upd_link i (\<lambda>l. flush_req_slot (l\<lparr>last_flush_id := of_int (fi_req_id fi)\<rparr>)) c"
  have c': "c' = snd (emit env Complete_workq (snd (flush_devices env fi (take (num_devs (g_links ?c1 i)) (l_dev (g_links ?c1 i))) 0 ?c1)))"
    using run all by (simp add: cam_req_mgr_process_flush_req_def Let_def split_beta)
  have gl: "g_links c' i = flush_req_slot ?l0" by (simp add: c' emit_def do_call_def l_def)
  have dv: "num_devs (g_links ?c1 i) = num_devs l" "l_dev (g_links ?c1 i) = l_dev l"
    by (simp_all add: flush_req_slot_def upd_q_def l_def Let_def)
  have calls: "crm_calls c' = crm_calls c @ map (flush_call fi) (filter can_flush (take (num_devs l) (l_dev l))) @ [Complete_workq]"
    unfolding c' dv by (simp add: emit_def do_call_def flush_devices_calls)
  obtain q where q: "in_q (g_links c' i) = Some q" "q_ok q" "rd_idx q = 0"
     "\<forall>k. 0 \<le> k \<and> k < 48 \<longrightarrow> sl_req_id (q_slot q k) = - 1 \<and> sl_status (q_slot q k) = CRM_SLOT_STATUS_NO_REQ"
     "\<forall>t\<in>set (l_tbl (g_links c' i)). \<forall>k. 0 \<le> k \<and> k < 48 \<longrightarrow>
          ts_state (tbl_slot t k) = CRM_REQ_STATE_EMPTY \<and> req_ready_map (tbl_slot t k) = 0"
    using flush_slot_facts [of ?l0] wf unfolding gl by auto
  have none: "find_slot_for_req q r = - 1" if "r \<noteq> - 1" for r using find_slot_none_iff [OF q(2)] q(4) that by auto
  have add: "fst (cam_req_mgr_process_add_req i ar c') < 0 \<and> snd (cam_req_mgr_process_add_req i ar c') = c'"
    if "s64 (ar_req_id ar) \<noteq> - 1" for ar
    using none [OF that] q(1) by (simp add: cam_req_mgr_process_add_req_def Let_def split: option.split)
  have "process_req env' i trig c' = (0, c')" for env' trig
    using q(1,3,4) by (simp add: process_req_def)
  then show ?thesis using q none calls add by (simp add: Let_def)
qed

definition demo_flush :: cam_req_mgr_flush_info where
  "demo_flush = \<lparr>fi_session_hdl = 7, fi_link_hdl = 0x105, fi_flush_type = CAM_REQ_MGR_FLUSH_TYPE_ALL, fi_req_id = 9\<rparr>"

theorem crm_flush_all_forgets_witness:
  "find_slot_for_req (qof (g_links (snd (cam_req_mgr_process_flush_req demo_env 0 demo_flush demo_c2)) 0)) 5 = - 1"
proof -
  obtain rc c' where e: "cam_req_mgr_process_flush_req demo_env 0 demo_flush demo_c2 = (rc, c')" by (rule prod.exhaust)
  then show ?thesis
    using crm_flush_all_forgets [OF _ _ e] crm_wf_link [OF demo_c2_wf] by (simp add: demo_flush_def Let_def)
qed

section \<open>Synchronised links\<close>

definition pview :: "cam_req_mgr_req_tbl \<Rightarrow> int \<times> int \<times> (int \<Rightarrow> crm_req_state)" where
  "pview t = (tbl_pd t, skip_traverse t, \<lambda>i. ts_state (tbl_slot t i))"



text \<open>The links of the state a check starts from, seen from a later state of the check.\<close>

definition same_ready :: "cam_req_mgr_core_link \<Rightarrow> cam_req_mgr_core_link \<Rightarrow> bool" where
  "same_ready l l' \<longleftrightarrow> in_q l' = in_q l \<and> max_delay l' = max_delay l \<and> map pview (l_tbl l') = map pview (l_tbl l)"











lemma same_ready_sof:
  "same_ready (g_links c k) (g_links (upd_link i (\<lambda>l. l\<lparr>prev_sof_timestamp := a l, sof_timestamp := b\<rparr>) c) k)"
  by (simp add: same_ready_def)











end
