(* ===== verification/Cam_Crm_Faults.thy ===== *)
theory Cam_Crm_Faults
  imports Cam_Crm_Props
begin

text \<open>
  Two places where the request manager does not do what it means to: a device with a delay that is
  not supported is reported as connected, and a device that asked to be served alone leads to an
  error report about a device that was never chosen.
\<close>

section \<open>A delay out of range\<close>

text \<open>The loop over the devices stops at such a device with the code of the device, which is 0.\<close>

lemma query_first_bad:
  assumes "cam_get_device_ops h tbl = p" "p \<noteq> 0" "has_get_dev_info (kmd_ops_at sen p)" "has_link_setup (kmd_ops_at sen p)"
    and "crm_orc env (length tr) = 0" "CAM_PIPELINE_DELAY_MAX \<le> uint (dev_delay env (length tr))"
  shows "fst (query_devices env sen tbl (h # hs) m ev tr) = Inl 0"
  using assms by (simp add: do_call_def Let_def)

lemma destroyed_link:
  assumes "in_q l = Some q"
  shows "num_devs (destroy_link_info l) = 0" "l_tbl (destroy_link_info l) = []" "pd_mask (destroy_link_info l) = 0"
    "num_slots (qof (destroy_link_info l)) = 0" "wr_idx (qof (destroy_link_info l)) = 0"
  using assms by (simp_all add: destroy_link_info_def reset_in_q_def upd_q_def)

text \<open>
  A device that answers the query with success but with a pipeline delay that is not supported
  makes the set-up return success, although it has undone everything: the link has no device, no
  table and a request queue of length 0. A request that is then scheduled writes at the write
  index, and the index is never reduced again, so that 48 requests move it past the 48 slots of
  the array.
\<close>

theorem crm_bad_delay_reported_as_success:
  assumes vi: "vi_version vi = VERSION_1" "0 < vi_num_devices vi" "vi_num_devices vi \<le> CAM_REQ_MGR_MAX_HANDLES"
      "vi_dev_hdls vi = h # hs"
    and ops: "cam_get_device_ops h tbl = p" "p \<noteq> 0" "has_get_dev_info (kmd_ops_at sen p)" "has_link_setup (kmd_ops_at sen p)"
    and bad: "crm_orc env (length tr) = 0" "CAM_PIPELINE_DELAY_MAX \<le> uint (dev_delay env (length tr))"
    and l: "in_q l = Some q"
    and run: "setup_link_info env sen tbl vi l tr = (rc, l', tr')"
  shows "rc = 0 \<and> num_devs l' = 0 \<and> l_tbl l' = [] \<and> num_slots (qof l') = 0
     \<and> (\<forall>c i sr. g_links c i = l' \<longrightarrow>
          wr_idx (qof (g_links (((\<lambda>c. snd (cam_req_mgr_process_sched_req i sr c)) ^^ n) c) i)) = int n)"
proof -
  let ?step = "\<lambda>i sr c. snd (cam_req_mgr_process_sched_req i sr c)"
  obtain m where m: "vi_num_devices vi = Suc m" using vi(2) by (cases "vi_num_devices vi") auto
  obtain ds tr2 where qd: "query_devices env sen tbl (take (vi_num_devices vi) (vi_dev_hdls vi)) 0 0 tr = (Inl 0, ds, tr2)"
    using query_first_bad [OF ops bad, of "take m hs" 0 0] unfolding vi(4) m by (metis take_Suc_Cons prod.collapse)
  obtain l1 q1 where l1: "setup_in_q (l\<lparr>num_tbl := 0\<rparr>) = (0, l1)" "in_q l1 = Some q1"
    using l by (simp add: setup_in_q_def upd_q_def)
  have e: "rc = 0" "l' = destroy_link_info (l1\<lparr>l_dev := ds\<rparr>)"
    using run qd l1 vi by (simp_all add: setup_link_info_def)
  have d: "num_devs l' = 0" "l_tbl l' = []" "num_slots (qof l') = 0" "wr_idx (qof l') = 0"
    unfolding e(2) using destroyed_link [of "l1\<lparr>l_dev := ds\<rparr>" q1] l1(2) by simp_all
  have q': "in_q l' \<noteq> None" using l1(2) by (simp add: e(2) destroy_link_info_def reset_in_q_def upd_q_def)
  have grow: "in_q (g_links ((?step i sr ^^ n) c) i) \<noteq> None \<and> num_slots (qof (g_links ((?step i sr ^^ n) c) i)) = 0
      \<and> wr_idx (qof (g_links ((?step i sr ^^ n) c) i)) = int n" if "g_links c i = l'" for c i sr n
  proof (induction n)
    case 0
    then show ?case using that d q' by simp
  next
    case (Suc n)
    then show ?case
      by (auto simp: cam_req_mgr_process_sched_req_def upd_link_def upd_q_def upd_slot_def inc_idx_def Let_def
          split: option.splits)
  qed
  show ?thesis using e(1) d grow by blast
qed

text \<open>The demonstration, with a device that reports delay 3.\<close>

theorem crm_bad_delay_reported_as_success_witness:
  "\<exists>l' tr'. setup_link_info (demo_env\<lparr>dev_delay := \<lambda>n. 3\<rparr>) demo_sen demo_tbl demo_vi demo_fresh [] = (0, l', tr')
     \<and> num_devs l' = 0
     \<and> wr_idx (qof (g_links (((\<lambda>c. snd (cam_req_mgr_process_sched_req 0 demo_sched c)) ^^ 48) (demo_crm\<lparr>g_links := \<lambda>_. l'\<rparr>)) 0)) = 48"
proof -
  let ?env = "demo_env\<lparr>dev_delay := \<lambda>n. 3\<rparr>"
  obtain rc l' tr' where e: "setup_link_info ?env demo_sen demo_tbl demo_vi demo_fresh [] = (rc, l', tr')"
    by (metis prod.exhaust)
  have "rc = 0 \<and> num_devs l' = 0 \<and> l_tbl l' = [] \<and> num_slots (qof l') = 0
     \<and> (\<forall>c i sr. g_links c i = l' \<longrightarrow>
          wr_idx (qof (g_links (((\<lambda>c. snd (cam_req_mgr_process_sched_req i sr c)) ^^ 48) c) i)) = int 48)"
    by (rule crm_bad_delay_reported_as_success [OF _ _ _ _ demo_hdl_ops(1) _ _ _ _ _ _ e, where hs = "[0x101]" and q = demo_queue])
      (simp_all add: demo_vi_def demo_sen_def demo_ops_def demo_env_def demo_fresh_def)
  then show ?thesis using e by auto
qed

section \<open>A device served alone\<close>

text \<open>
  A device that asks to skip the next frame is served alone, and the request is tried again.
  If that is the second try in a row, an error is reported to the user, and the device it is
  reported about is taken from a variable that was never assigned.
\<close>

theorem crm_served_alone_reports_unset_device:
  fixes c :: crm and i :: nat
  defines "l \<equiv> g_links c i"
  assumes dev: "take (num_devs l) (l_dev l) = d # ds" "s32 (p_delay d) < CAM_PIPELINE_DELAY_MAX" "can_apply d"
      "dev_trigger_mask d AND trigger \<noteq> 0"
    and slot: "sl = tbl_slot (tbl_of l d) (a_idx (apply_data l (s32 (p_delay d))))" "skip_next_frame sl" "ts_dev_hdl sl = dev_hdl d"
    and ok: "crm_orc env (length (crm_calls c)) = 0"
    and retry: "retry_cnt l = 1"
  shows "\<exists>a c'. process_apply env i s trigger c = (- EAGAIN, c') \<and> crm_calls c' = crm_calls c @ [Apply_req a, Uninit_device]
     \<and> ap_dev_hdl a = dev_hdl d"
proof -
  have "\<exists>l1 a. send_req env trigger l (crm_calls c) = (- EAGAIN, l1, crm_calls c @ [Apply_req a], None)
      \<and> ap_dev_hdl a = dev_hdl d \<and> retry_cnt l1 = 1"
    using dev slot ok retry by (simp add: send_req_def do_call_def set_tslot_def Let_def split_beta split: option.splits)
  then show ?thesis
    unfolding l_def process_apply_def
    by (auto simp: set_status_def upd_link_def upd_q_def notify_error_on_link_def emit_def do_call_def Let_def split: option.splits)
qed

text \<open>The demonstration: the sensor asked for a frame without other devices.\<close>

definition demo_alone :: cam_req_mgr_core_link where
  "demo_alone = demo_l2\<lparr>l_tbl := [upd_tslot 0 (\<lambda>s. s\<lparr>skip_next_frame := True, ts_dev_hdl := 0x100\<rparr>) demo_t2, demo_t1],
     retry_cnt := 1\<rparr>"

theorem crm_served_alone_reports_unset_device_witness:
  "\<exists>a c'. process_apply demo_env 0 0 CAM_TRIGGER_POINT_SOF (demo_crm\<lparr>g_links := \<lambda>_. demo_alone\<rparr>) = (- EAGAIN, c')
     \<and> crm_calls c' = [Apply_req a, Uninit_device]"
proof -
  have "\<exists>a c'. process_apply demo_env 0 0 CAM_TRIGGER_POINT_SOF (demo_crm\<lparr>g_links := \<lambda>_. demo_alone\<rparr>) = (- EAGAIN, c')
     \<and> crm_calls c' = crm_calls (demo_crm\<lparr>g_links := \<lambda>_. demo_alone\<rparr>) @ [Apply_req a, Uninit_device] \<and> ap_dev_hdl a = dev_hdl demo_sensor"
    by (rule crm_served_alone_reports_unset_device [OF _ _ _ _ refl, where ds = "[demo_ife]"])
      (simp_all add: demo_alone_def demo_crm_def demo_env_def demo_link2_defs can_apply_def tbl_of_def zero_apply_def s32_def)
  then show ?thesis by (auto simp: demo_crm_def)
qed

end
