(* ===== verification/Cam_Crm_Session.thy ===== *)
theory Cam_Crm_Session
  imports Cam_Crm_Setup Cam_Workq
begin

text \<open>
  The session layer of \<open>cam_req_mgr_core.c\<close>: sessions, the pool of links, linking and unlinking,
  the calls of user space, and the callbacks of the devices, which put a task with the
  notification on the work queue of the link; the worker runs the handlers of
  \<open>Cam_Crm_Link\<close>. The mutexes and spinlocks are not represented: every operation here is
  one critical section of the code, and one task is one step of the worker.
\<close>

section \<open>State\<close>

abbreviation EBUSY :: rc where "EBUSY \<equiv> 16"
abbreviation EBADR :: rc where "EBADR \<equiv> 53"
abbreviation CRM_WORKQ_NUM_TASKS :: nat where "CRM_WORKQ_NUM_TASKS \<equiv> 60"
abbreviation MAX_LINKS_PER_SESSION :: int where "MAX_LINKS_PER_SESSION \<equiv> 2"
abbreviation CAM_REQ_MGR_LINK_ACTIVATE :: int where "CAM_REQ_MGR_LINK_ACTIVATE \<equiv> 0"
abbreviation CAM_REQ_MGR_LINK_DEACTIVATE :: int where "CAM_REQ_MGR_LINK_DEACTIVATE \<equiv> 1"
abbreviation AUTO_RECOVERY :: int where "AUTO_RECOVERY \<equiv> 0"
abbreviation FORCE_ENABLE_RECOVERY :: int where "FORCE_ENABLE_RECOVERY \<equiv> 1"

text \<open>
  The payload of a task: the union together with the callback that reads it. A notification of a
  frozen sensor carries nothing, a stop only the link handle.
\<close>

datatype crm_task_payload =
    Task_none
  | Task_add cam_req_mgr_add_request
  | Task_trigger cam_req_mgr_trigger_notify
  | Task_error cam_req_mgr_error_notify
  | Task_stop int
  | Task_freeze
  | Task_flush cam_req_mgr_flush_info

text \<open>Code addresses of the callbacks, as they are stored in \<open>process_cb\<close>.\<close>

fun handler_addr :: "crm_task_payload \<Rightarrow> ptr" where
  "handler_addr Task_none = 0"
| "handler_addr (Task_add ar) = 1"
| "handler_addr (Task_trigger tn) = 2"
| "handler_addr (Task_error en) = 3"
| "handler_addr (Task_stop h) = 4"
| "handler_addr Task_freeze = 5"
| "handler_addr (Task_flush fi) = 6"

text \<open>
  The manager with the work queues of the links (\<open>link->workq\<close>), the payloads of their tasks, the
  number of kernel workqueues and whether \<open>g_crm_core_dev\<close> is allocated.
\<close>

record crm_dev =
  core :: crm
  link_workq :: "nat \<Rightarrow> cam_req_mgr_core_workq option"
  payloads :: "nat \<Rightarrow> nat \<Rightarrow> crm_task_payload"
  jobs :: int
  core_dev :: bool

definition upd_core :: "(crm \<Rightarrow> crm) \<Rightarrow> crm_dev \<Rightarrow> crm_dev" where
  "upd_core f d = d\<lparr>core := f (core d)\<rparr>"

definition set_workq :: "nat \<Rightarrow> cam_req_mgr_core_workq option \<Rightarrow> crm_dev \<Rightarrow> crm_dev" where
  "set_workq i w d = d\<lparr>link_workq := (link_workq d)(i := w)\<rparr>"

section \<open>Private data of handles\<close>

text \<open>
  \<open>cam_get_device_priv\<close> returns the private pointer of any live handle, and the manager casts it to
  a link or a session. \<open>la i\<close> is the address of \<open>g_links[i]\<close>. \<open>Wrong_type\<close> is a pointer to something
  else: what the code does from there on is undefined, and the operations return \<open>None\<close>.
\<close>

datatype 'a priv = Null | Wrong_type | Obj 'a

type_synonym link_addr = "nat \<Rightarrow> ptr"

definition link_priv :: "link_addr \<Rightarrow> int \<Rightarrow> crm_dev \<Rightarrow> nat priv" where
  "link_priv la h d =
     (let p = cam_get_device_priv h (crm_hdl_tbl (core d)) in
      if p = 0 then Null
      else case find (\<lambda>i. la i = p) [0..<MAXIMUM_LINKS_PER_SESSION] of None \<Rightarrow> Wrong_type | Some i \<Rightarrow> Obj i)"

definition session_priv :: "int \<Rightarrow> crm_dev \<Rightarrow> ptr priv" where
  "session_priv h d =
     (let p = cam_get_device_priv h (crm_hdl_tbl (core d)) in
      if p = 0 then Null else if sessions (core d) p = None then Wrong_type else Obj p)"

text \<open>The result of an operation that starts with a look-up; \<open>e\<close> is the code for a dead handle.\<close>

definition with_link :: "link_addr \<Rightarrow> int \<Rightarrow> rc \<Rightarrow> (nat \<Rightarrow> crm_dev \<Rightarrow> (rc \<times> crm_dev) option) \<Rightarrow> crm_dev \<Rightarrow> (rc \<times> crm_dev) option" where
  "with_link la h e f d = (case link_priv la h d of Null \<Rightarrow> Some (e, d) | Wrong_type \<Rightarrow> None | Obj i \<Rightarrow> f i d)"

definition with_session :: "int \<Rightarrow> rc \<Rightarrow> (ptr \<Rightarrow> crm_dev \<Rightarrow> (rc \<times> crm_dev) option) \<Rightarrow> crm_dev \<Rightarrow> (rc \<times> crm_dev) option" where
  "with_session h e f d = (case session_priv h d of Null \<Rightarrow> Some (e, d) | Wrong_type \<Rightarrow> None | Obj p \<Rightarrow> f p d)"

definition session_at :: "crm_dev \<Rightarrow> ptr \<Rightarrow> cam_req_mgr_core_session" where
  "session_at d sp = the (sessions (core d) sp)"

definition upd_session :: "ptr \<Rightarrow> (cam_req_mgr_core_session \<Rightarrow> cam_req_mgr_core_session) \<Rightarrow> crm_dev \<Rightarrow> crm_dev" where
  "upd_session sp f d = upd_core (\<lambda>c. c\<lparr>sessions := (sessions c)(sp := map_option f (sessions c sp))\<rparr>) d"

section \<open>The worker of a link\<close>

text \<open>One task: the callback with its payload, then the task goes back to the free list.\<close>

definition run_payload :: "crm_env \<Rightarrow> nat \<Rightarrow> crm_task_payload \<Rightarrow> crm \<Rightarrow> crm" where
  "run_payload env i p c =
     (case p of
        Task_none \<Rightarrow> c
      | Task_add ar \<Rightarrow> snd (cam_req_mgr_process_add_req i ar c)
      | Task_trigger tn \<Rightarrow> snd (cam_req_mgr_process_trigger env i tn c)
      | Task_error en \<Rightarrow> snd (cam_req_mgr_process_error env i en c)
      | Task_stop h \<Rightarrow> snd (cam_req_mgr_process_stop i c)
      | Task_freeze \<Rightarrow> snd (process_sof_freeze env i c)
      | Task_flush fi \<Rightarrow> snd (cam_req_mgr_process_flush_req env i fi c))"

definition run_task :: "crm_env \<Rightarrow> nat \<Rightarrow> nat \<Rightarrow> cam_req_mgr_core_workq \<Rightarrow> crm_dev \<Rightarrow> crm_dev" where
  "run_task env i t w d =
     set_workq i (Some (cam_req_mgr_process_task (\<lambda>_ w. w) t w))
       (if process_cb (pool w t) = 0 then d else upd_core (run_payload env i (payloads d i t)) d)"

text \<open>One round of the loops of \<open>cam_req_mgr_process_workq\<close>.\<close>

definition take_task :: "int \<Rightarrow> cam_req_mgr_core_workq \<Rightarrow> cam_req_mgr_core_workq" where
  "take_task p w = w\<lparr>pending_cnt := pending_cnt w - 1, process_head := (process_head w)(p := tl (process_head w p))\<rparr>"

definition work_step :: "crm_env \<Rightarrow> nat \<Rightarrow> crm_dev \<Rightarrow> crm_dev" where
  "work_step env i d =
     (case link_workq d i of
        None \<Rightarrow> d
      | Some w \<Rightarrow>
          (case process_head w CRM_TASK_PRIORITY_0 of
             t # ts \<Rightarrow> run_task env i t (take_task CRM_TASK_PRIORITY_0 w) d
           | [] \<Rightarrow>
               (case process_head w CRM_TASK_PRIORITY_1 of
                  t # ts \<Rightarrow> run_task env i t (take_task CRM_TASK_PRIORITY_1 w) d
                | [] \<Rightarrow> d)))"

fun drain :: "crm_env \<Rightarrow> nat \<Rightarrow> nat \<Rightarrow> crm_dev \<Rightarrow> crm_dev" where
  "drain env i 0 d = d"
| "drain env i (Suc n) d = drain env i n (work_step env i d)"

text \<open>
  \<open>cam_req_mgr_workq_destroy\<close> on the queue of a link: the tasks that are queued run first, then
  the queue is gone.
\<close>

definition destroy_workq :: "crm_env \<Rightarrow> nat \<Rightarrow> crm_dev \<Rightarrow> crm_dev" where
  "destroy_workq env i d =
     (case link_workq d i of
        None \<Rightarrow> d
      | Some w \<Rightarrow>
          if job w \<noteq> None
          then let d1 = drain env i (length (process_head w 0) + length (process_head w 1))
                          (set_workq i (Some (w\<lparr>job := None\<rparr>)) d)
               in (set_workq i None d1)\<lparr>jobs := jobs d1 - 1\<rparr>
          else set_workq i None d)"

text \<open>
  The common end of the callbacks: take a task, fill in the payload and the callback, enqueue.
  \<open>e\<close> is the code when no task is free.
\<close>

definition queue_task :: "link_addr \<Rightarrow> rc \<Rightarrow> nat \<Rightarrow> crm_task_payload \<Rightarrow> crm_dev \<Rightarrow> rc \<times> crm_dev" where
  "queue_task la e i p d =
     (case cam_req_mgr_workq_get_task (link_workq d i) of
        (None, w) \<Rightarrow> (- e, set_workq i w d)
      | (Some t, w) \<Rightarrow>
          let w1 = map_option (upd_task t (\<lambda>r. r\<lparr>process_cb := handler_addr p\<rparr>)) w;
              (rc, w2) = cam_req_mgr_workq_enqueue_task (Some t) (la i) CRM_TASK_PRIORITY_0 w1
          in (rc, (set_workq i w2 d)\<lparr>payloads := (payloads d)(i := (payloads d i)(t := p))\<rparr>))"

section \<open>The pool of links\<close>

definition zero_queue :: cam_req_mgr_req_queue where
  "zero_queue = \<lparr>num_slots = 0, q_slot = (\<lambda>_. zero_slot), rd_idx = 0, wr_idx = 0, last_applied_idx = 0\<rparr>"

text \<open>\<open>cam_req_mgr_core_link_reset\<close> also drops the pointer to the work queue.\<close>

definition reset_link :: "nat \<Rightarrow> crm_dev \<Rightarrow> crm_dev" where
  "reset_link i d = set_workq i None (upd_core (upd_link i cam_req_mgr_core_link_reset) d)"

text \<open>
  \<open>alloc\<close> tells whether the queue can be allocated. If it cannot, the link stays marked as used;
  if the session has no free entry, the queue is freed and the link keeps the dangling pointer.
\<close>

definition reserve_link :: "ptr \<Rightarrow> bool \<Rightarrow> crm_dev \<Rightarrow> nat option \<times> crm_dev" where
  "reserve_link sp alloc d =
     (if MAXIMUM_LINKS_PER_SESSION \<le> num_links (session_at d sp) then (None, d)
      else
        case find (\<lambda>i. \<not> is_used (g_links (core d) i)) [0..<MAXIMUM_LINKS_PER_SESSION] of
          None \<Rightarrow> (None, d)
        | Some i \<Rightarrow>
            let d1 = reset_link i (upd_core (upd_link i (\<lambda>l. l\<lparr>is_used := True\<rparr>)) d) in
            if \<not> alloc then (None, d1)
            else
              let d2 = upd_core (upd_link i (\<lambda>l. l\<lparr>num_devs := 0, max_delay := 0, in_q := Some zero_queue,
                         link_state := CAM_CRM_LINK_STATE_IDLE, parent := sp, sync_link := None\<rparr>)) d1 in
              case find (\<lambda>k. ses_links (session_at d sp) k = None) [0..<MAXIMUM_LINKS_PER_SESSION] of
                None \<Rightarrow> (None, d2)
              | Some k \<Rightarrow>
                  (Some i, upd_session sp (\<lambda>s. s\<lparr>ses_links := (ses_links s)(k := Some i),
                             num_links := num_links s + 1\<rparr>) d2))"

definition free_link :: "nat \<Rightarrow> crm_dev \<Rightarrow> crm_dev" where
  "free_link i d =
     upd_core (upd_link i (\<lambda>l. l\<lparr>is_used := False\<rparr>))
       (reset_link i (upd_core (upd_link i (\<lambda>l. l\<lparr>in_q := None\<rparr>)) d))"

text \<open>The loop over the entries of the session: the entry of the link is cleared and its peer unpaired.\<close>

definition unreserve_entry :: "nat \<Rightarrow> nat \<Rightarrow> (nat \<Rightarrow> nat option) \<times> crm \<Rightarrow> (nat \<Rightarrow> nat option) \<times> crm" where
  "unreserve_entry i k lc =
     (let (ls, c) = lc; ls1 = (if ls k = Some i then ls(k := None) else ls) in
      (ls1, if sync_link (g_links c i) \<noteq> None \<and> sync_link (g_links c i) = ls1 k
            then upd_link (the (ls1 k)) (\<lambda>l. l\<lparr>sync_link := None\<rparr>) c else c))"

definition unreserve_link :: "ptr \<Rightarrow> nat \<Rightarrow> crm_dev \<Rightarrow> crm_dev" where
  "unreserve_link sp i d =
     (let s = session_at d sp in
      if num_links s = 0 then d
      else
        let (ls, c) = fold (unreserve_entry i) [0..<MAXIMUM_LINKS_PER_SESSION] (ses_links s, core d);
            d1 = upd_core (\<lambda>_. upd_link i (\<lambda>l. l\<lparr>sync_link := None\<rparr>) c) d
        in free_link i (upd_session sp (\<lambda>s. s\<lparr>ses_links := ls, num_links := num_links s - 1\<rparr>) d1))"

section \<open>Sessions\<close>

text \<open>
  The address of the new session, 0 if it cannot be allocated, and the random byte of the handle
  are arguments; the result is the code and the handle.
\<close>

definition cam_req_mgr_create_session :: "ptr \<Rightarrow> u8 \<Rightarrow> crm_dev \<Rightarrow> (rc \<times> int) \<times> crm_dev" where
  "cam_req_mgr_create_session addr rnd d =
     (if addr = 0 then ((- ENOMEM, 0), d)
      else
        let (h, tbl) = cam_create_session_hdl rnd addr (crm_hdl_tbl (core d));
            d1 = upd_core (\<lambda>c. c\<lparr>crm_hdl_tbl := tbl\<rparr>) d in
        if h < 0 then ((h, 0), d1)
        else ((0, h), upd_core (\<lambda>c. c\<lparr>session_head := addr # session_head c,
               sessions := (sessions c)(addr \<mapsto> \<lparr>ses_session_hdl = h, num_links = 0, ses_links = (\<lambda>_. None),
                 force_err_recovery = 0, ses_sync_mode = CAM_REQ_MGR_SYNC_MODE_NO_SYNC\<rparr>)\<rparr>) d1))"

text \<open>
  The first part of \<open>__cam_req_mgr_unlink\<close>: the devices are disconnected, the work queue and the
  watchdog are destroyed, and the tables are freed.
\<close>

definition shut_link :: "crm_env \<Rightarrow> nat \<Rightarrow> crm_dev \<Rightarrow> crm_dev" where
  "shut_link env i d =
     (let d1 = upd_core (upd_link i (\<lambda>l. l\<lparr>link_state := CAM_CRM_LINK_STATE_IDLE\<rparr>)) d;
          d2 = (if is_shutdown (g_links (core d1) i) then d1
                else upd_core (\<lambda>c. let (rc, l, tr) = disconnect_link env (g_links c i) (crm_calls c)
                                   in (upd_link i (\<lambda>_. l) c)\<lparr>crm_calls := tr\<rparr>) d1);
          d3 = destroy_workq env i d2
      in upd_core (\<lambda>c. let (t, tr) = crm_timer_exit (watchdog (g_links c i)) (crm_calls c)
                       in (upd_link i (\<lambda>l. destroy_link_info (l\<lparr>watchdog := t\<rparr>)) c)\<lparr>crm_calls := tr\<rparr>) d3)"

text \<open>\<open>__cam_req_mgr_unlink\<close>.\<close>

definition unlink_link :: "crm_env \<Rightarrow> nat \<Rightarrow> crm_dev \<Rightarrow> rc \<times> crm_dev" where
  "unlink_link env i d =
     (let d1 = shut_link env i d;
          (rc, tbl) = cam_destroy_device_hdl (link_hdl (g_links (core d1) i)) (crm_hdl_tbl (core d1));
          d2 = upd_core (\<lambda>c. c\<lparr>crm_hdl_tbl := tbl\<rparr>) d1
      in (rc, if rc < 0 then d2 else upd_core (upd_link i (\<lambda>l. l\<lparr>link_hdl := - 1\<rparr>)) d2))"

text \<open>The loop of \<open>cam_req_mgr_destroy_session\<close> over the entries of the session.\<close>

definition destroy_entry :: "crm_env \<Rightarrow> bool \<Rightarrow> ptr \<Rightarrow> nat \<Rightarrow> crm_dev \<Rightarrow> crm_dev" where
  "destroy_entry env shutdown sp k d =
     (case ses_links (session_at d sp) k of
        None \<Rightarrow> d
      | Some i \<Rightarrow> free_link i (snd (unlink_link env i (upd_core (upd_link i (\<lambda>l. l\<lparr>is_shutdown := shutdown\<rparr>)) d))))"

definition cam_req_mgr_destroy_session :: "crm_env \<Rightarrow> int \<Rightarrow> bool \<Rightarrow> crm_dev \<Rightarrow> (rc \<times> crm_dev) option" where
  "cam_req_mgr_destroy_session env h shutdown =
     with_session h (- ENOENT) (\<lambda>sp d.
       let d1 = (if num_links (session_at d sp) \<noteq> 0
                 then fold (destroy_entry env shutdown sp) [0..<MAXIMUM_LINKS_PER_SESSION] d else d);
           d2 = upd_core (\<lambda>c. c\<lparr>session_head := removeAll sp (session_head c), sessions := (sessions c)(sp := None)\<rparr>) d1;
           (rc, tbl) = cam_destroy_session_hdl h (crm_hdl_tbl (core d2))
       in Some (rc, upd_core (\<lambda>c. c\<lparr>crm_hdl_tbl := tbl\<rparr>) d2))"

text \<open>The sessions are walked with the list as it was at the start; codes are ignored.\<close>

definition cam_req_mgr_handle_core_shutdown :: "crm_env \<Rightarrow> crm_dev \<Rightarrow> crm_dev option" where
  "cam_req_mgr_handle_core_shutdown env d =
     fold (\<lambda>sp od. Option.bind od (\<lambda>d. map_option snd
             (cam_req_mgr_destroy_session env (ses_session_hdl (session_at d sp)) True d)))
       (session_head (core d)) (Some d)"

end
