(* ===== verification/Cam_Crm_Ioctl.thy ===== *)
theory Cam_Crm_Ioctl
  imports Cam_Crm_Session
begin

text \<open>
  The entry points of \<open>cam_req_mgr_core.c\<close> above the session layer: linking and unlinking, the
  requests of user space, and the callbacks \<open>cam_req_mgr_ops\<close> that the devices call. Checks of
  pointer arguments against \<open>NULL\<close> are not represented.
\<close>

section \<open>Linking\<close>

text \<open>What the allocations of a link give; \<open>payload_at 0\<close> is 0 when the payloads cannot be allocated.\<close>

record link_env =
  in_q_alloc :: bool
  hdl_rnd :: u8
  subdev_alloc :: bool
  wq_kz :: "nat \<Rightarrow> bool"
  wq_job :: bool
  payload_at :: "nat \<Rightarrow> ptr"

definition setup_payload :: "(nat \<Rightarrow> ptr) \<Rightarrow> cam_req_mgr_core_workq \<Rightarrow> rc \<times> cam_req_mgr_core_workq" where
  "setup_payload at w =
     (if at 0 = 0 then (- ENOMEM, w)
      else (0, fold (\<lambda>t. upd_task t (\<lambda>r. r\<lparr>task_payload := at t\<rparr>)) [0..<num_task w] w))"

text \<open>The labels \<open>setup_failed\<close> and \<open>create_subdev_failed\<close>.\<close>

definition undo_link :: "ptr \<Rightarrow> nat \<Rightarrow> crm_dev \<Rightarrow> crm_dev" where
  "undo_link sp i d =
     unreserve_link sp i
       (upd_core (\<lambda>c. c\<lparr>crm_hdl_tbl := snd (cam_destroy_device_hdl (link_hdl (g_links c i)) (crm_hdl_tbl c))\<rparr>) d)"

text \<open>From the query of the devices on; the link has a handle and memory for its devices.\<close>

definition link_devices ::
    "crm_env \<Rightarrow> setup_env \<Rightarrow> link_env \<Rightarrow> cam_req_mgr_ver_info \<Rightarrow> nat \<Rightarrow> crm_dev \<Rightarrow> rc \<times> crm_dev" where
  "link_devices env sen le vi i d =
     (let c = core d;
          (rc, l, tr) = setup_link_info env sen (crm_hdl_tbl c) vi (g_links c i) (crm_calls c);
          d1 = upd_core (\<lambda>c. (upd_link i (\<lambda>_. l) c)\<lparr>crm_calls := tr\<rparr>) d in
      if rc < 0 then (rc, d1)
      else
        let d2 = upd_core (upd_link i (\<lambda>l. l\<lparr>link_state := CAM_CRM_LINK_STATE_READY\<rparr>)) d1;
            (rc, w, n) = cam_req_mgr_workq_create (wq_kz le) (wq_job le) CRM_WORKQ_NUM_TASKS 0 3
                           (link_workq d2 i) (jobs d2);
            d3 = (set_workq i w d2)\<lparr>jobs := n\<rparr>;
            gone = upd_core (upd_link i destroy_link_info) in
        if rc < 0 then (rc, gone d3)
        else
          let (rc, w) = setup_payload (payload_at le) (the (link_workq d3 i)) in
          if rc < 0 then (rc, destroy_workq env i (gone d3))
          else (rc, set_workq i (Some w) d3))"

text \<open>
  The body of \<open>cam_req_mgr_link\<close> and \<open>cam_req_mgr_link_v2\<close> behind the look-up of the session. The
  result is the code, the handle written into \<open>link_info\<close>, and the state.
\<close>

definition link_session ::
    "crm_env \<Rightarrow> setup_env \<Rightarrow> link_env \<Rightarrow> link_addr \<Rightarrow> cam_req_mgr_ver_info \<Rightarrow> ptr \<Rightarrow> crm_dev
       \<Rightarrow> (rc \<times> int) \<times> crm_dev" where
  "link_session env sen le la vi sp d =
     (case reserve_link sp (in_q_alloc le) d of
        (None, d1) \<Rightarrow> ((- EINVAL, vi_link_hdl vi), d1)
      | (Some i, d1) \<Rightarrow>
          let (h, tbl) = cam_create_device_hdl (hdl_rnd le)
                \<lparr>cd_session_hdl = vi_session_hdl vi, cd_dev_id = CAM_CRM, cd_ops = 0, cd_priv = la i\<rparr>
                (crm_hdl_tbl (core d1));
              d2 = upd_core (\<lambda>c. upd_link i (\<lambda>l. l\<lparr>link_hdl := h\<rparr>) (c\<lparr>crm_hdl_tbl := tbl\<rparr>)) d1 in
          if h < 0 then ((h, vi_link_hdl vi), unreserve_link sp i d2)
          else
            let d3 = upd_core (upd_link i (\<lambda>l. l\<lparr>last_flush_id := 0,
                       l_dev := (if subdev_alloc le then replicate (vi_num_devices vi) zero_dev else [])\<rparr>)) d2 in
            if \<not> subdev_alloc le then ((- ENOMEM, - 1), undo_link sp i d3)
            else
              let (rc, d4) = link_devices env sen le vi i d3 in
              if rc < 0 then ((rc, - 1), undo_link sp i d4) else ((rc, h), d4))"

definition cam_req_mgr_link ::
    "crm_env \<Rightarrow> setup_env \<Rightarrow> link_env \<Rightarrow> link_addr \<Rightarrow> cam_req_mgr_ver_info \<Rightarrow> crm_dev \<Rightarrow> ((rc \<times> int) \<times> crm_dev) option" where
  "cam_req_mgr_link env sen le la vi d =
     (if CAM_REQ_MGR_MAX_HANDLES < vi_num_devices vi then Some ((- EINVAL, vi_link_hdl vi), d)
      else
        case session_priv (vi_session_hdl vi) d of
          Null \<Rightarrow> Some ((- EINVAL, vi_link_hdl vi), d)
        | Wrong_type \<Rightarrow> None
        | Obj sp \<Rightarrow> Some (link_session env sen le la vi sp d))"

definition cam_req_mgr_link_v2 ::
    "crm_env \<Rightarrow> setup_env \<Rightarrow> link_env \<Rightarrow> link_addr \<Rightarrow> cam_req_mgr_ver_info \<Rightarrow> crm_dev \<Rightarrow> ((rc \<times> int) \<times> crm_dev) option" where
  "cam_req_mgr_link_v2 env sen le la vi d =
     (if CAM_REQ_MGR_MAX_HANDLES_V2 < vi_num_devices vi then Some ((- EINVAL, vi_link_hdl vi), d)
      else
        case session_priv (vi_session_hdl vi) d of
          Null \<Rightarrow> Some ((- EINVAL, vi_link_hdl vi), d)
        | Wrong_type \<Rightarrow> None
        | Obj sp \<Rightarrow> Some (link_session env sen le la vi sp d))"

text \<open>Nothing relates the session of the call to the session of the link.\<close>

definition cam_req_mgr_unlink :: "crm_env \<Rightarrow> link_addr \<Rightarrow> int \<Rightarrow> int \<Rightarrow> crm_dev \<Rightarrow> (rc \<times> crm_dev) option" where
  "cam_req_mgr_unlink env la ses_hdl lnk_hdl =
     with_session ses_hdl (- EINVAL) (\<lambda>sp.
       with_link la lnk_hdl (- EINVAL) (\<lambda>i d.
         let (rc, d1) = unlink_link env i d in Some (rc, unreserve_link sp i d1)))"

section \<open>Requests of user space\<close>

definition cam_req_mgr_schedule_request :: "link_addr \<Rightarrow> cam_req_mgr_sched_request \<Rightarrow> crm_dev \<Rightarrow> (rc \<times> crm_dev) option" where
  "cam_req_mgr_schedule_request la sr =
     with_link la (sr_link_hdl sr) (- EINVAL) (\<lambda>i d.
       let l = g_links (core d) i in
       if parent l = 0 then Some (- EINVAL, d)
       else if sr_req_id sr \<le> uint (last_flush_id l) then Some (- EBADR, d)
       else
         case sessions (core d) (parent l) of
           None \<Rightarrow> None
         | Some s \<Rightarrow>
             let d1 = upd_core (upd_link i (\<lambda>l. l\<lparr>last_flush_id := 0\<rparr>)) d;
                 be = (if force_err_recovery s = AUTO_RECOVERY then sr_bubble_enable sr
                       else if force_err_recovery s = FORCE_ENABLE_RECOVERY then 1 else 0);
                 (rc, c) = cam_req_mgr_process_sched_req i (sr\<lparr>sr_bubble_enable := be\<rparr>) (core d1)
             in Some (rc, upd_core (\<lambda>_. c) d1))"

record cam_req_mgr_sync_mode =
  sm_session_hdl :: int
  sm_sync_mode :: int
  sm_num_links :: int
  sm_link_hdl0 :: int
  sm_link_hdl1 :: int

definition cam_req_mgr_sync_config :: "link_addr \<Rightarrow> cam_req_mgr_sync_mode \<Rightarrow> crm_dev \<Rightarrow> (rc \<times> crm_dev) option" where
  "cam_req_mgr_sync_config la sm d =
     (if sm_num_links sm < 0 \<or> MAX_LINKS_PER_SESSION < sm_num_links sm then Some (- EINVAL, d)
      else if sm_sync_mode sm \<noteq> CAM_REQ_MGR_SYNC_MODE_SYNC \<and> sm_sync_mode sm \<noteq> CAM_REQ_MGR_SYNC_MODE_NO_SYNC
      then Some (- EINVAL, d)
      else if sm_link_hdl0 sm = 0 \<or> sm_link_hdl1 sm = 0 then Some (- EINVAL, d)
      else
        with_session (sm_session_hdl sm) (- EINVAL) (\<lambda>sp.
          with_link la (sm_link_hdl0 sm) (- EINVAL) (\<lambda>link1.
            with_link la (sm_link_hdl1 sm) (- EINVAL) (\<lambda>link2 d.
              Some (0, upd_session sp (\<lambda>s. s\<lparr>ses_sync_mode := sm_sync_mode sm\<rparr>)
                         (upd_core (sync_config_links (sm_sync_mode sm) link1 link2) d))))) d)"

text \<open>
  The call waits for the worker; \<open>waited\<close> is what \<open>wait_for_completion_timeout\<close> returns. The
  worker runs the flush as a step of its own.
\<close>

definition cam_req_mgr_flush_requests ::
    "link_addr \<Rightarrow> rc \<Rightarrow> cam_req_mgr_flush_info \<Rightarrow> crm_dev \<Rightarrow> (rc \<times> crm_dev) option" where
  "cam_req_mgr_flush_requests la waited fi d =
     (if CAM_REQ_MGR_FLUSH_TYPE_MAX \<le> fi_flush_type fi then Some (- EINVAL, d)
      else
        with_session (fi_session_hdl fi) (- EINVAL) (\<lambda>sp d.
          if num_links (session_at d sp) = 0 then Some (0, d)
          else
            with_link la (fi_link_hdl fi) (- EINVAL) (\<lambda>i d.
              if fst (cam_req_mgr_workq_get_task (link_workq d i)) = None then Some (- ENOMEM, d)
              else Some (waited, snd (queue_task la ENOMEM i (Task_flush fi) d))) d) d)"

fun control_events :: "crm_env \<Rightarrow> cam_req_mgr_link_evt_type \<Rightarrow> int \<Rightarrow> cam_req_mgr_connected_device list \<Rightarrow> calls \<Rightarrow> calls" where
  "control_events env ty lhdl [] tr = tr"
| "control_events env ty lhdl (d # ds) tr =
     control_events env ty lhdl ds
       (if can_evt d
        then snd (do_call env (Process_evt \<lparr>ev_link_hdl = lhdl, ev_dev_hdl = dev_hdl d, ev_req_id = 0,
               ev_evt_type = ty, ev_error = None\<rparr>) tr)
        else tr)"

definition control_link :: "crm_env \<Rightarrow> int \<Rightarrow> nat \<Rightarrow> rc \<Rightarrow> crm \<Rightarrow> rc \<times> crm" where
  "control_link env op i rc c =
     (let l = g_links c i; devs = take (num_devs l) (l_dev l) in
      if op = CAM_REQ_MGR_LINK_ACTIVATE
      then
        let (r, t, tr) = crm_timer_init env CAM_REQ_MGR_WATCHDOG_TIMEOUT_DEFAULT (watchdog l) (crm_calls c)
        in (if r < 0 then - EFAULT else r,
            (upd_link i (\<lambda>l. l\<lparr>link_state := CAM_CRM_LINK_STATE_READY, watchdog := t\<rparr>) c)
              \<lparr>crm_calls := control_events env CAM_REQ_MGR_LINK_EVT_RESUME (link_hdl l) devs tr\<rparr>)
      else if op = CAM_REQ_MGR_LINK_DEACTIVATE
      then
        let (t, tr) = crm_timer_exit (watchdog l)
                        (control_events env CAM_REQ_MGR_LINK_EVT_PAUSE (link_hdl l) devs (crm_calls c))
        in (rc, (upd_link i (\<lambda>l. l\<lparr>link_state := CAM_CRM_LINK_STATE_IDLE, watchdog := t\<rparr>) c)\<lparr>crm_calls := tr\<rparr>)
      else (- EINVAL, c))"

fun control_loop :: "crm_env \<Rightarrow> link_addr \<Rightarrow> int \<Rightarrow> int list \<Rightarrow> rc \<Rightarrow> crm_dev \<Rightarrow> (rc \<times> crm_dev) option" where
  "control_loop env la op [] rc d = Some (rc, d)"
| "control_loop env la op (h # hs) rc d =
     with_link la h (- EINVAL) (\<lambda>i d.
       let (rc1, c1) = control_link env op i rc (core d)
       in control_loop env la op hs rc1 (upd_core (\<lambda>_. c1) d)) d"

definition cam_req_mgr_link_control ::
    "crm_env \<Rightarrow> link_addr \<Rightarrow> int \<Rightarrow> int \<Rightarrow> int list \<Rightarrow> crm_dev \<Rightarrow> (rc \<times> crm_dev) option" where
  "cam_req_mgr_link_control env la op n hdls d =
     (if n \<le> 0 \<or> MAX_LINKS_PER_SESSION < n then Some (- EINVAL, d)
      else control_loop env la op (take (nat n) hdls) 0 d)"

fun dump_devices :: "crm_env \<Rightarrow> u64 \<Rightarrow> cam_req_mgr_connected_device list \<Rightarrow> calls \<Rightarrow> calls" where
  "dump_devices env req [] tr = tr"
| "dump_devices env req (d # ds) tr =
     dump_devices env req ds
       (if (case ops d of None \<Rightarrow> False | Some k \<Rightarrow> has_dump_req k)
        then snd (do_call env (Dump_req (dev_hdl d) req) tr) else tr)"

text \<open>
  The code of the dump is lost: the function always returns 0. The offset into the dump buffer,
  which the devices move on, is not represented.
\<close>

definition cam_req_mgr_dump_request :: "crm_env \<Rightarrow> link_addr \<Rightarrow> int \<Rightarrow> int \<Rightarrow> u64 \<Rightarrow> crm_dev \<Rightarrow> (rc \<times> crm_dev) option" where
  "cam_req_mgr_dump_request env la ses_hdl lnk_hdl req =
     with_session ses_hdl 0 (\<lambda>sp d.
       if num_links (session_at d sp) = 0 then Some (0, d)
       else with_link la lnk_hdl 0 (\<lambda>i d.
         let l = g_links (core d) i
         in Some (0, upd_core (\<lambda>c. c\<lparr>crm_calls := dump_devices env req (take (num_devs l) (l_dev l)) (crm_calls c)\<rparr>) d)) d)"

section \<open>Callbacks of the devices\<close>

definition reset_watchdog :: "nat \<Rightarrow> crm_dev \<Rightarrow> crm_dev" where
  "reset_watchdog i = upd_core (\<lambda>c. c\<lparr>crm_calls := crm_timer_reset (watchdog (g_links c i)) (crm_calls c)\<rparr>)"

definition cam_req_mgr_cb_add_req :: "link_addr \<Rightarrow> cam_req_mgr_add_request \<Rightarrow> crm_dev \<Rightarrow> (rc \<times> crm_dev) option" where
  "cam_req_mgr_cb_add_req la ar =
     with_link la (ar_link_hdl ar) (- EINVAL) (\<lambda>i d.
       let l = g_links (core d) i in
       if link_state l < CAM_CRM_LINK_STATE_READY then Some (- EPERM, d)
       else if find_slot_for_req (qof l) (s64 (ar_req_id ar)) < 0 then Some (- ENOENT, d)
       else Some (queue_task la EBUSY i (Task_add ar) d))"

text \<open>
  The frame, trigger and time stamp of an error are not copied: they are what an earlier use of
  the payload left there, \<open>stale\<close>.
\<close>

definition cam_req_mgr_cb_notify_err ::
    "link_addr \<Rightarrow> cam_req_mgr_error_notify \<Rightarrow> cam_req_mgr_error_notify \<Rightarrow> crm_dev \<Rightarrow> (rc \<times> crm_dev) option" where
  "cam_req_mgr_cb_notify_err la stale en =
     with_link la (en_link_hdl en) (- EINVAL) (\<lambda>i d.
       if link_state (g_links (core d) i) \<noteq> CAM_CRM_LINK_STATE_READY then Some (- EPERM, d)
       else Some (queue_task la EBUSY i
              (Task_error (en\<lparr>en_frame_id := en_frame_id stale, en_trigger := en_trigger stale,
                 en_sof_timestamp_val := en_sof_timestamp_val stale\<rparr>)) (reset_watchdog i d)))"

definition cam_req_mgr_cb_notify_timer :: "link_addr \<Rightarrow> int \<Rightarrow> bool \<Rightarrow> crm_dev \<Rightarrow> (rc \<times> crm_dev) option" where
  "cam_req_mgr_cb_notify_timer la h state =
     with_link la h (- EINVAL) (\<lambda>i d.
       if link_state (g_links (core d) i) < CAM_CRM_LINK_STATE_READY then Some (- EPERM, d)
       else Some (0, if state then d
              else upd_core (upd_link i (\<lambda>l. l\<lparr>watchdog := map_option (\<lambda>w. w\<lparr>pause_timer := True\<rparr>) (watchdog l)\<rparr>)) d))"

definition cam_req_mgr_cb_notify_stop :: "link_addr \<Rightarrow> int \<Rightarrow> crm_dev \<Rightarrow> (rc \<times> crm_dev) option" where
  "cam_req_mgr_cb_notify_stop la h =
     with_link la h (- EINVAL) (\<lambda>i d.
       if link_state (g_links (core d) i) \<noteq> CAM_CRM_LINK_STATE_READY then Some (- EPERM, d)
       else Some (queue_task la EBUSY i (Task_stop h) (reset_watchdog i d)))"

definition cam_req_mgr_cb_notify_trigger :: "link_addr \<Rightarrow> cam_req_mgr_trigger_notify \<Rightarrow> crm_dev \<Rightarrow> (rc \<times> crm_dev) option" where
  "cam_req_mgr_cb_notify_trigger la tn =
     with_link la (tn_link_hdl tn) (- EINVAL) (\<lambda>i d.
       if link_state (g_links (core d) i) < CAM_CRM_LINK_STATE_READY then Some (- EPERM, d)
       else
         let d1 = upd_core (upd_link i (\<lambda>l. l\<lparr>watchdog := map_option (\<lambda>w. w\<lparr>pause_timer := False\<rparr>) (watchdog l)\<rparr>)) d
         in Some (queue_task la EBUSY i (Task_trigger tn) (reset_watchdog i d1)))"

text \<open>The watchdog of a link expires: \<open>__cam_req_mgr_sof_freeze\<close>.\<close>

definition sof_freeze :: "link_addr \<Rightarrow> nat \<Rightarrow> crm_dev \<Rightarrow> crm_dev" where
  "sof_freeze la i d = snd (queue_task la EBUSY i Task_freeze d)"

section \<open>Start and end\<close>

definition init_link :: "nat \<Rightarrow> crm_dev \<Rightarrow> crm_dev" where
  "init_link i d = reset_link i (upd_core (upd_link i (\<lambda>l. l\<lparr>is_used := False\<rparr>)) d)"

definition cam_req_mgr_core_device_init :: "bool \<Rightarrow> crm_dev \<Rightarrow> rc \<times> crm_dev" where
  "cam_req_mgr_core_device_init alloc d =
     (if core_dev d then (0, d)
      else if \<not> alloc then (- ENOMEM, d)
      else (0, fold init_link [0..<MAXIMUM_LINKS_PER_SESSION]
                 (upd_core (\<lambda>c. c\<lparr>session_head := []\<rparr>) (d\<lparr>core_dev := True\<rparr>))))"

definition cam_req_mgr_core_device_deinit :: "crm_dev \<Rightarrow> rc \<times> crm_dev" where
  "cam_req_mgr_core_device_deinit d = (if \<not> core_dev d then (- EINVAL, d) else (0, d\<lparr>core_dev := False\<rparr>))"

end
