(* ===== verification/Cam_Crm_Frame.thy ===== *)
theory Cam_Crm_Frame
  imports Cam_Crm_Ioctl Cam_Crm_Pres
begin

text \<open>
  What the handlers of the worker leave alone: the ownership of the links, the sessions and the
  handle table.
\<close>

definition lid :: "cam_req_mgr_core_link \<Rightarrow> bool \<times> ptr \<times> int" where
  "lid l = (is_used l, parent l, link_hdl l)"

definition ids :: "crm \<Rightarrow> (nat \<Rightarrow> bool \<times> ptr \<times> int) \<times> (ptr \<Rightarrow> cam_req_mgr_core_session option) \<times> ptr list \<times> hdl_global" where
  "ids c = (\<lambda>k. lid (g_links c k), sessions c, session_head c, crm_hdl_tbl c)"

lemma ids_upd_link [simp]: "lid (f (g_links c i)) = lid (g_links c i) \<Longrightarrow> ids (upd_link i f c) = ids c"
  by (auto simp: ids_def upd_link_def fun_eq_iff)

lemma ids_calls [simp]: "ids (c\<lparr>crm_calls := tr\<rparr>) = ids c"
  by (simp add: ids_def)

lemma ids_emit [simp]: "ids (snd (emit env x c)) = ids c"
  by (simp add: emit_def split_beta Let_def)

lemma lid_fields [simp]:
  "lid (l\<lparr>num_devs := v0\<rparr>) = lid l" "lid (l\<lparr>max_delay := v1\<rparr>) = lid l"
  "lid (l\<lparr>pd_mask := v2\<rparr>) = lid l" "lid (l\<lparr>l_dev := v3\<rparr>) = lid l"
  "lid (l\<lparr>in_q := v4\<rparr>) = lid l" "lid (l\<lparr>l_tbl := v5\<rparr>) = lid l"
  "lid (l\<lparr>num_tbl := v6\<rparr>) = lid l" "lid (l\<lparr>apply_data := v7\<rparr>) = lid l"
  "lid (l\<lparr>watchdog := v8\<rparr>) = lid l" "lid (l\<lparr>link_state := v9\<rparr>) = lid l"
  "lid (l\<lparr>subscribe_event := v10\<rparr>) = lid l" "lid (l\<lparr>trigger_mask := v11\<rparr>) = lid l"
  "lid (l\<lparr>sync_link := v12\<rparr>) = lid l" "lid (l\<lparr>sync_link_sof_skip := v13\<rparr>) = lid l"
  "lid (l\<lparr>open_req_cnt := v14\<rparr>) = lid l" "lid (l\<lparr>last_flush_id := v15\<rparr>) = lid l"
  "lid (l\<lparr>is_master := v16\<rparr>) = lid l" "lid (l\<lparr>initial_skip := v17\<rparr>) = lid l"
  "lid (l\<lparr>in_msync_mode := v18\<rparr>) = lid l" "lid (l\<lparr>initial_sync_req := v19\<rparr>) = lid l"
  "lid (l\<lparr>retry_cnt := v20\<rparr>) = lid l" "lid (l\<lparr>is_shutdown := v21\<rparr>) = lid l"
  "lid (l\<lparr>sof_timestamp := v22\<rparr>) = lid l" "lid (l\<lparr>prev_sof_timestamp := v23\<rparr>) = lid l"
  by (simp_all add: lid_def)

lemma lid_upd_q [simp]: "lid (upd_q f l) = lid l"
  by (simp add: lid_def upd_q_def)

lemma lid_set_tslot [simp]: "lid (set_tslot d i f l) = lid l"
  by (simp add: lid_def set_tslot_def)

text \<open>Functions of one link that return a code.\<close>

locale frame_call =
  fixes f :: "cam_req_mgr_core_link \<Rightarrow> rc \<times> cam_req_mgr_core_link"
  assumes call_lid: "lid (snd (f l)) = lid l"
begin

lemma on_ids: "ids (snd (on_link i f c)) = ids c"
  by (simp add: on_link_def split_beta Let_def call_lid)

end

interpretation inject_frame: frame_call "link_inject_delay idx" for idx
  by unfold_locales (simp add: link_inject_delay_def split_beta Let_def lid_def)

interpretation ready_frame: frame_call "check_link_is_ready idx vo" for idx vo
  by unfold_locales (simp add: check_link_is_ready_def split_beta Let_def lid_def)

interpretation next_frame: frame_call check_next_req_slot
  by unfold_locales (simp add: check_next_req_slot_def Let_def)

lemmas frame_simps [simp] = inject_frame.on_ids ready_frame.on_ids next_frame.on_ids

lemma lid_flush [simp]: "lid (flush_req_slot l) = lid l"
  by (simp add: flush_req_slot_def Let_def lid_def upd_q_def)

lemma lid_reset_slot [simp]: "lid (reset_req_slot idx l) = lid l"
  by (simp add: reset_req_slot_def Let_def lid_def upd_q_def)

lemma lid_wd [simp]: "lid (fst (validate_crm_wd_timer l tr)) = lid l"
  by (simp add: validate_crm_wd_timer_def Let_def lid_def split_beta split: option.splits)

lemma lid_send_alone: "send_alone_loop env trigger ds l tr = Some (rc, l', tr', dev) \<Longrightarrow> lid l' = lid l"
  by (induction ds) (auto simp: Let_def split_beta split: if_splits)

lemma lid_send_all: "send_all_loop env trigger ds seen rc l tr = (rc', l', r) \<Longrightarrow> lid l' = lid l"
  by (induction ds arbitrary: seen rc l tr) (auto simp: Let_def split_beta split: if_splits)

lemma lid_send [simp]: "lid (fst (snd (send_req env trigger l tr))) = lid l"
proof (cases "send_alone_loop env trigger (take (num_devs l) (l_dev l)) l tr")
  case None
  obtain rc' l' r where e: "send_all_loop env trigger (take (num_devs l) (l_dev l)) [] 0 l tr = (rc', l', r)"
    by (metis prod.exhaust)
  show ?thesis using lid_send_all [OF e] by (simp add: send_req_def None e split_beta Let_def)
next
  case (Some x)
  then show ?thesis using lid_send_alone by (cases x) (auto simp: send_req_def)
qed

section \<open>The handlers\<close>

lemma ids_sof_skip [simp]: "ids (sof_skip i c) = ids c"
  by (simp add: sof_skip_def)

lemma ids_set_status [simp]: "ids (set_status i s st c) = ids c"
  by (simp add: set_status_def)

lemma ids_notify_error [simp]: "ids (snd (notify_error_on_link env i dev c)) = ids c"
  by (simp add: notify_error_on_link_def Let_def split: option.splits)

lemma ids_mslave_peer: "case mslave_peer i j r c of Inl x \<Rightarrow> ids (snd x) = ids c | Inr c' \<Rightarrow> ids c' = ids c"
  by (simp add: mslave_peer_def Let_def split_beta)

lemma ids_mslave [simp]: "ids (snd (check_sync_for_mslave i s c)) = ids c"
proof -
  have p: "ids (snd (case mslave_peer i j r c' of Inl x \<Rightarrow> x
       | Inr c3 \<Rightarrow> (0, snd (on_link i (check_link_is_ready k False) c3)))) = ids c'" for j r c' k
    using ids_mslave_peer [where c = c' and i = i and j = j and r = r] by (auto split: sum.splits)
  show ?thesis
    by (cases "sync_link (g_links c i)") (simp_all add: check_sync_for_mslave_def Let_def split_beta p)
qed

lemma ids_sync [simp]: "ids (snd (check_sync_req_is_ready i s c)) = ids c"
proof -
  have c: "ids (snd (sync_self_correct i j k r s' c')) = ids c'" for j k r s' c'
    by (simp add: sync_self_correct_def Let_def)
  show ?thesis
    by (cases "sync_link (g_links c i)") (simp_all add: check_sync_req_is_ready_def Let_def split_beta c)
qed

lemma ids_no_sync [simp]: "ids (snd (no_sync_check i s c)) = ids c"
  by (simp add: no_sync_check_def Let_def split_beta split: option.splits)

lemma ids_sof: "case process_sof i s trig c of Inl x \<Rightarrow> ids (snd x) = ids c | Inr c' \<Rightarrow> ids c' = ids c"
  by (simp add: process_sof_def Let_def split_beta)

lemma ids_request_applied [simp]: "ids (request_applied i s c) = ids c"
  by (simp add: request_applied_def Let_def)

lemma ids_process_apply [simp]: "ids (snd (process_apply env i s trigger c)) = ids c"
proof -
  obtain rc l1 tr1 dev where e: "send_req env trigger (g_links c i) (crm_calls c) = (rc, l1, tr1, dev)"
    by (metis prod.exhaust)
  have l1: "lid l1 = lid (g_links c i)" using lid_send [of env trigger "g_links c i" "crm_calls c"] by (simp add: e)
  show ?thesis
    using l1 lid_wd
    by (simp add: process_apply_def e Let_def split_beta)
qed

lemma ids_process_req [simp]: "ids (snd (process_req env i trig c)) = ids c"
proof -
  have "ids (snd (case process_sof i s trig c of Inl r \<Rightarrow> r | Inr c1 \<Rightarrow> process_apply env i s t c1)) = ids c" for s t
    using ids_sof [where c = c and i = i and s = s and trig = trig] by (auto split: sum.splits)
  then show ?thesis by (simp add: process_req_def Let_def)
qed

lemma ids_flush_devices [simp]: "ids (snd (flush_devices env fi ds rc c)) = ids c"
  by (induction ds arbitrary: rc c) (simp_all add: Let_def split_beta)

lemma ids_error_events [simp]: "ids (snd (error_events env e h ds rc c)) = ids c"
  by (induction ds arbitrary: rc c) (simp_all add: Let_def split_beta)

lemma ids_process_flush [simp]: "ids (snd (cam_req_mgr_process_flush_req env i fi c)) = ids c"
  by (simp add: cam_req_mgr_process_flush_req_def Let_def split_beta)

lemma ids_process_sched [simp]: "ids (snd (cam_req_mgr_process_sched_req i sr c)) = ids c"
  by (simp add: cam_req_mgr_process_sched_req_def Let_def split: option.splits)

lemma ids_process_add [simp]: "ids (snd (cam_req_mgr_process_add_req i ar c)) = ids c"
  by (simp add: cam_req_mgr_process_add_req_def Let_def split: option.splits)

lemma ids_rewind [simp]: "ids (rewind_to i idx c) = ids c"
  by (simp add: rewind_to_def Let_def)

lemma ids_process_error [simp]: "ids (snd (cam_req_mgr_process_error env i e c)) = ids c"
  by (simp add: cam_req_mgr_process_error_def apply_on_bubble_def Let_def split_beta)

lemma ids_process_stop [simp]: "ids (snd (cam_req_mgr_process_stop i c)) = ids c"
  by (simp add: cam_req_mgr_process_stop_def)

lemma ids_process_trigger [simp]: "ids (snd (cam_req_mgr_process_trigger env i trig c)) = ids c"
  by (simp add: cam_req_mgr_process_trigger_def trigger_free_slot_def step_rd_def Let_def split_beta)

lemma ids_freeze [simp]: "ids (snd (process_sof_freeze env i c)) = ids c"
  by (simp add: process_sof_freeze_def Let_def)

lemma ids_run_payload [simp]: "ids (run_payload env i p c) = ids c"
  by (simp add: run_payload_def split: crm_task_payload.splits)

lemma ids_sync_config [simp]: "ids (sync_config_links mode i j c) = ids c"
  by (simp add: sync_config_links_def set_master_link_def unpaired_def Let_def)

end
