(* ===== verification/Cam_Crm_Sys.thy ===== *)
theory Cam_Crm_Sys
  imports Cam_Crm_Frame
begin

text \<open>
  The invariant of the session layer: links belong to at most one session, a session counts its
  links, and the work queue of every link conserves its tasks. All entry points preserve it,
  except unlinking under a foreign session.
\<close>

section \<open>Ownership of links\<close>

type_synonym owners = "(nat \<Rightarrow> bool \<times> ptr) \<times> (ptr \<Rightarrow> cam_req_mgr_core_session option) \<times> ptr list"

definition own :: "crm \<Rightarrow> owners" where
  "own c = (\<lambda>k. (is_used (g_links c k), parent (g_links c k)), sessions c, session_head c)"

text \<open>The entries of a session are different links in use that name it as their parent, and are counted.\<close>

definition entries_ok :: "(nat \<Rightarrow> bool \<times> ptr) \<Rightarrow> ptr \<Rightarrow> cam_req_mgr_core_session \<Rightarrow> bool" where
  "entries_ok L sp s \<longleftrightarrow>
     (\<forall>k i. ses_links s k = Some i \<longrightarrow> k < MAXIMUM_LINKS_PER_SESSION \<and> i < MAXIMUM_LINKS_PER_SESSION \<and> L i = (True, sp))
     \<and> inj_on (ses_links s) {k. ses_links s k \<noteq> None}
     \<and> num_links s = card {k. ses_links s k \<noteq> None}"

definition owner_ok :: "owners \<Rightarrow> bool" where
  "owner_ok x \<longleftrightarrow> (case x of (L, S, H) \<Rightarrow>
     distinct H \<and> set H = dom S \<and> 0 \<notin> dom S
     \<and> (\<forall>sp s. S sp = Some s \<longrightarrow> entries_ok L sp s)
     \<and> (\<forall>i. snd (L i) \<noteq> 0 \<longrightarrow> fst (L i) \<and> (\<exists>s k. S (snd (L i)) = Some s \<and> ses_links s k = Some i)))"

definition queues_ok :: "crm_dev \<Rightarrow> bool" where
  "queues_ok d \<longleftrightarrow> (\<forall>i w. link_workq d i = Some w \<longrightarrow>
     workq_ok {} w \<and> job w \<noteq> None \<and> num_task w = CRM_WORKQ_NUM_TASKS)"

definition sys_wf :: "crm_dev \<Rightarrow> bool" where
  "sys_wf d \<longleftrightarrow> owner_ok (own (core d)) \<and> hdl_wf (crm_hdl_tbl (core d)) \<and> queues_ok d"

declare sys_wf_def [wfdefs] queues_ok_def [wfdefs]

lemma own_ids: "ids c' = ids c \<Longrightarrow> own c' = own c \<and> crm_hdl_tbl c' = crm_hdl_tbl c"
  by (auto simp: own_def ids_def lid_def fun_eq_iff)

lemma own_upd_link:
  "own (upd_link i f c) =
     ((fst (own c))(i := (is_used (f (g_links c i)), parent (f (g_links c i)))), snd (own c))"
  by (auto simp: own_def upd_link_def fun_eq_iff)

lemma own_upd_same [simp]:
  "is_used (f (g_links c i)) = is_used (g_links c i) \<Longrightarrow> parent (f (g_links c i)) = parent (g_links c i) \<Longrightarrow>
     own (upd_link i f c) = own c"
  by (auto simp: own_def upd_link_def fun_eq_iff)

lemma own_fields [simp]:
  "own (c\<lparr>crm_hdl_tbl := t\<rparr>) = own c" "own (c\<lparr>crm_calls := tr\<rparr>) = own c"
  by (simp_all add: own_def)

lemma hdl_upd_link [simp]: "crm_hdl_tbl (upd_link i f c) = crm_hdl_tbl c"
  "sessions (upd_link i f c) = sessions c" "session_head (upd_link i f c) = session_head c"
  by (simp_all add: upd_link_def)

lemma core_upd [simp]:
  "core (upd_core f d) = f (core d)" "link_workq (upd_core f d) = link_workq d"
  "payloads (upd_core f d) = payloads d" "jobs (upd_core f d) = jobs d"
  "core (set_workq i w d) = core d" "link_workq (set_workq i w d) = (link_workq d)(i := w)"
  "payloads (set_workq i w d) = payloads d" "jobs (set_workq i w d) = jobs d"
  by (simp_all add: upd_core_def set_workq_def)

lemma queues_ok_cong: "link_workq d' = link_workq d \<Longrightarrow> queues_ok d' = queues_ok d"
  by (simp add: queues_ok_def)

lemma queues_ok_upd_core [simp]: "queues_ok (upd_core f d) = queues_ok d"
  by (simp add: queues_ok_def)

lemma queues_ok_none [simp]: "queues_ok d \<Longrightarrow> queues_ok (set_workq i None d)"
  by (auto simp: queues_ok_def)

lemma queues_ok_jobs [simp]: "queues_ok (d\<lparr>jobs := n\<rparr>) = queues_ok d" "queues_ok (d\<lparr>payloads := p\<rparr>) = queues_ok d"
  by (simp_all add: queues_ok_def)

text \<open>An update of the core that leaves the ownership and the handle table alone.\<close>

lemma sys_wf_core:
  "sys_wf d \<Longrightarrow> ids (f (core d)) = ids (core d) \<Longrightarrow> sys_wf (upd_core f d)"
  using own_ids [of "f (core d)" "core d"] by (simp add: sys_wf_def)

section \<open>The queue of a link\<close>

lemma get_task_num:
  "cam_req_mgr_workq_get_task (Some w) = (r, Some w') \<Longrightarrow> num_task w' = num_task w \<and> job w' = job w"
  by (auto simp: cam_req_mgr_workq_get_task_def split: list.splits)

lemma enqueue_num:
  "cam_req_mgr_workq_enqueue_task (Some t) p x (Some w) = (rc, w') \<Longrightarrow>
     \<exists>w2. w' = Some w2 \<and> num_task w2 = num_task w \<and> job w2 = job w"
  by (auto simp: cam_req_mgr_workq_enqueue_task_def cam_req_mgr_workq_put_task_def list_del_task_def Let_def
      split: if_splits)

lemma queue_task_ok:
  assumes q: "queues_ok d"
  shows "queues_ok (snd (queue_task la e i p d)) \<and> core (snd (queue_task la e i p d)) = core d"
proof (cases "link_workq d i")
  case None
  then show ?thesis
    using q by (auto simp: queue_task_def cam_req_mgr_workq_get_task_def queues_ok_def)
next
  case (Some w)
  then have w: "workq_ok {} w" "job w \<noteq> None" "num_task w = CRM_WORKQ_NUM_TASKS"
    using q by (auto simp: queues_ok_def)
  obtain r w1 where g: "cam_req_mgr_workq_get_task (Some w) = (r, Some w1)"
    by (cases "empty_head w") (auto simp: cam_req_mgr_workq_get_task_def)
  have n1: "num_task w1 = CRM_WORKQ_NUM_TASKS" "job w1 \<noteq> None" using get_task_num [OF g] w by auto
  show ?thesis
  proof (cases r)
    case None
    then show ?thesis
      using q g workq_ok_get [OF w(1) g] w by (simp add: queue_task_def Some queues_ok_def)
  next
    case (Some t)
    let ?w2 = "upd_task t (\<lambda>r. r\<lparr>process_cb := handler_addr p\<rparr>) w1"
    have ok: "workq_ok {t} ?w2"
      using workq_ok_get [OF w(1) g] Some by (intro workq_ok_upd_task) simp
    obtain rc w3 where e: "cam_req_mgr_workq_enqueue_task (Some t) (la i) CRM_TASK_PRIORITY_0 (Some ?w2) = (rc, Some w3)"
      using enqueue_num by (metis prod.exhaust)
    have "workq_ok {} w3" using workq_ok_enqueue [OF ok _ e] n1(2) by (auto split: if_splits)
    moreover have "num_task w3 = CRM_WORKQ_NUM_TASKS" "job w3 \<noteq> None" using enqueue_num [OF e] n1 by auto
    ultimately show ?thesis
      using q e by (simp add: queue_task_def \<open>link_workq d i = Some w\<close> g Some queues_ok_def)
  qed
qed

lemma sys_wf_queue_task: "sys_wf d \<Longrightarrow> sys_wf (snd (queue_task la e i p d))"
  using queue_task_ok [of d la e i p] by (simp add: sys_wf_def)

lemma process_task_num:
  "num_task (cam_req_mgr_process_task (\<lambda>_ w. w) t w) = num_task w" "job (cam_req_mgr_process_task (\<lambda>_ w. w) t w) = job w"
  by (simp_all add: cam_req_mgr_process_task_def cam_req_mgr_workq_put_task_def list_del_task_def Let_def)

lemma take_task_ok:
  assumes "workq_ok {} w" "p = 0 \<or> p = 1" "process_head w p = t # ts"
  shows "workq_ok {} (cam_req_mgr_process_task (\<lambda>_ w. w) t (take_task p w))"
  using workq_ok_process_task [of "\<lambda>_ w. w" t "{}" "take_task p w"] workq_ok_take [OF assms] assms(3)
  by (simp add: take_task_def)

lemma work_step_cases:
  obtains (idle) "work_step env i d = d"
  | (run) w p t ts where "link_workq d i = Some w" "p = 0 \<or> p = 1" "process_head w p = t # ts"
      "work_step env i d = run_task env i t (take_task p w) d"
proof (cases "link_workq d i")
  case (Some w)
  show thesis
  proof (cases "process_head w 0")
    case (Cons t ts)
    then show thesis using run [of w 0 t ts] Some by (simp add: work_step_def)
  next
    case Nil
    show thesis
    proof (cases "process_head w 1")
      case (Cons t ts)
      then show thesis using run [of w 1 t ts] Some Nil by (simp add: work_step_def)
    qed (use idle Some Nil in \<open>simp add: work_step_def\<close>)
  qed
qed (use idle in \<open>simp add: work_step_def\<close>)

lemma ids_run_task [simp]: "ids (core (run_task env i t w d)) = ids (core d)"
  by (simp add: run_task_def)

lemma ids_work_step [simp]: "ids (core (work_step env i d)) = ids (core d)"
  by (rule work_step_cases [of env i d]) simp_all

lemma work_step_others: "k \<noteq> i \<Longrightarrow> link_workq (work_step env i d) k = link_workq d k"
  by (rule work_step_cases [of env i d]) (simp_all add: run_task_def)

lemma queues_ok_work_step:
  assumes "queues_ok d"
  shows "queues_ok (work_step env i d)"
proof (rule work_step_cases [of env i d])
  fix w p t ts
  assume r: "link_workq d i = Some w" "p = 0 \<or> p = 1" "process_head w p = t # ts"
    "work_step env i d = run_task env i t (take_task p w) d"
  have "workq_ok {} w" "job w \<noteq> None" "num_task w = CRM_WORKQ_NUM_TASKS" using assms r(1) by (auto simp: queues_ok_def)
  then have "workq_ok {} (cam_req_mgr_process_task (\<lambda>_ w. w) t (take_task p w))"
    "job (take_task p w) \<noteq> None" "num_task (take_task p w) = CRM_WORKQ_NUM_TASKS"
    using take_task_ok [OF _ r(2,3)] by (simp_all add: take_task_def)
  then show ?thesis
    using assms by (simp add: r(4) run_task_def queues_ok_def process_task_num)
qed (use assms in simp)

lemma sys_wf_work_step: "sys_wf d \<Longrightarrow> sys_wf (work_step env i d)"
  using own_ids [OF ids_work_step] queues_ok_work_step by (simp add: sys_wf_def)

lemma drain_frame:
  "ids (core (drain env i n d)) = ids (core d) \<and> (\<forall>k. k \<noteq> i \<longrightarrow> link_workq (drain env i n d) k = link_workq d k)"
  by (induction n arbitrary: d) (simp_all add: work_step_others)

lemma destroy_workq_frame:
  "ids (core (destroy_workq env i d)) = ids (core d)" "link_workq (destroy_workq env i d) = (link_workq d)(i := None)"
  using drain_frame
  by (auto simp: destroy_workq_def Let_def set_workq_def fun_eq_iff split: option.splits)

section \<open>Reserving and freeing a link\<close>

lemma reset_fields [simp]: "parent (cam_req_mgr_core_link_reset l) = 0" "is_used (cam_req_mgr_core_link_reset l) = is_used l"
  by (simp_all add: cam_req_mgr_core_link_reset_def)

lemma own_reset: "own (upd_link i cam_req_mgr_core_link_reset c) =
     ((fst (own c))(i := (is_used (g_links c i), 0)), snd (own c))"
  by (simp add: own_upd_link)

lemma reset_link_parts [simp]:
  "core (reset_link i d) = upd_link i cam_req_mgr_core_link_reset (core d)"
  "link_workq (reset_link i d) = (link_workq d)(i := None)"
  by (simp_all add: reset_link_def)

lemma upd_session_parts [simp]:
  "g_links (core (upd_session sp f d)) = g_links (core d)" "session_head (core (upd_session sp f d)) = session_head (core d)"
  "crm_hdl_tbl (core (upd_session sp f d)) = crm_hdl_tbl (core d)" "link_workq (upd_session sp f d) = link_workq d"
  "sessions (core (upd_session sp f d)) = (sessions (core d))(sp := map_option f (sessions (core d) sp))"
  by (simp_all add: upd_session_def)

lemma own_upd_session:
  "own (core (upd_session sp f d)) =
     (fst (own (core d)), (fst (snd (own (core d))))(sp := map_option f (sessions (core d) sp)), snd (snd (own (core d))))"
  by (simp add: own_def)

lemma find_upt_Some: "find P [0..<n] = Some i \<Longrightarrow> i < n \<and> P i"
  by (auto simp: find_Some_iff)

text \<open>A link that is not in use has no parent, and is in no session.\<close>

lemma owner_unused:
  assumes "owner_ok (L, S, H)" "\<not> fst (L i)"
  shows "snd (L i) = 0" "S sp = Some s \<Longrightarrow> ses_links s k \<noteq> Some i"
  using assms by (fastforce simp: owner_ok_def entries_ok_def)+

lemma owner_entry:
  assumes "owner_ok (L, S, H)" "snd (L j) \<noteq> 0"
  obtains s k where "S (snd (L j)) = Some s" "ses_links s k = Some j"
  using assms unfolding owner_ok_def by blast

text \<open>Taking an unused link, or a link without a session, keeps the ownership.\<close>

lemma owner_mark_used:
  assumes ok: "owner_ok (L, S, H)" and i: "\<not> fst (L i)"
  shows "owner_ok (L(i := (True, 0)), S, H)"
  using ok owner_unused [OF ok i] i by (fastforce simp: owner_ok_def entries_ok_def)

lemma owner_add:
  assumes ok: "owner_ok (L, S, H)" and i: "snd (L i) = 0" "i < MAXIMUM_LINKS_PER_SESSION"
    and s: "S sp = Some s" and k: "ses_links s k = None" "k < MAXIMUM_LINKS_PER_SESSION"
  shows "owner_ok (L(i := (True, sp)),
    S(sp \<mapsto> s\<lparr>ses_links := (ses_links s)(k := Some i), num_links := num_links s + 1\<rparr>), H)"
proof -
  let ?s = "s\<lparr>ses_links := (ses_links s)(k := Some i), num_links := num_links s + 1\<rparr>"
  have no: "S sp' = Some s' \<Longrightarrow> ses_links s' k' \<noteq> Some i" for sp' s' k'
    using ok i(1) by (fastforce simp: owner_ok_def entries_ok_def)
  have e: "entries_ok L sp s" using ok s by (simp add: owner_ok_def)
  have "{k'. ses_links ?s k' \<noteq> None} = insert k {k'. ses_links s k' \<noteq> None}" by auto
  moreover have "finite {k'. ses_links s k' \<noteq> None}"
    using e by (rule_tac finite_subset [of _ "{..<MAXIMUM_LINKS_PER_SESSION}"]) (auto simp: entries_ok_def)
  ultimately have "num_links ?s = card {k'. ses_links ?s k' \<noteq> None}" using e k(1) by (simp add: entries_ok_def)
  moreover have "inj_on (ses_links ?s) {k'. ses_links ?s k' \<noteq> None}"
    using e no [OF s] by (fastforce simp: entries_ok_def inj_on_def)
  moreover have "L j = (True, sp)" if "ses_links s k' = Some j" for k' j
    using e that by (simp add: entries_ok_def)
  ultimately have new: "entries_ok (L(i := (True, sp))) sp ?s"
    using e i(2) k(2) no [OF s] by (auto simp: entries_ok_def)
  have old: "entries_ok (L(i := (True, sp))) sp' s'" if "S sp' = Some s'" for sp' s'
    using ok that no [OF that] by (fastforce simp: owner_ok_def entries_ok_def)
  have d: "dom (S(sp \<mapsto> ?s)) = dom S" using s by auto
  have own: "\<exists>s' k'. (S(sp \<mapsto> ?s)) (snd (L j)) = Some s' \<and> ses_links s' k' = Some j"
    if j: "snd (L j) \<noteq> 0" "j \<noteq> i" for j
  proof -
    obtain s' k' where sk: "S (snd (L j)) = Some s'" "ses_links s' k' = Some j"
      using owner_entry [OF ok j(1)] by blast
    show ?thesis
    proof (cases "snd (L j) = sp")
      case True
      then have "ses_links ?s k' = Some j" using sk s k(1) by auto
      then show ?thesis using True by (intro exI [of _ ?s] exI [of _ k']) simp
    qed (use sk in auto)
  qed
  show ?thesis
    using ok new old own d by (auto simp: owner_ok_def)
qed

text \<open>Taking a link out of its session again.\<close>

definition clear_entry :: "nat \<Rightarrow> (nat \<Rightarrow> nat option) \<Rightarrow> nat \<Rightarrow> nat option" where
  "clear_entry i ls k = (if ls k = Some i then None else ls k)"

lemma owner_remove:
  assumes ok: "owner_ok (L, S, H)" and i: "snd (L i) = sp" and s: "S sp = Some s"
  shows "owner_ok (L(i := (False, 0)),
    S(sp \<mapsto> s\<lparr>ses_links := clear_entry i (ses_links s), num_links := num_links s - 1\<rparr>), H)"
proof -
  let ?s = "s\<lparr>ses_links := clear_entry i (ses_links s), num_links := num_links s - 1\<rparr>"
  have sp: "sp \<noteq> 0" using ok s by (auto simp: owner_ok_def)
  obtain s0 k0 where "S (snd (L i)) = Some s0" "ses_links s0 k0 = Some i"
    using owner_entry [OF ok] i sp by blast
  then have k0: "ses_links s k0 = Some i" using i s by simp
  have e: "entries_ok L sp s" using ok s by (simp add: owner_ok_def)
  have only: "k = k0" if "ses_links s k = Some i" for k
    using e k0 that by (auto simp: entries_ok_def inj_on_def)
  have "ses_links ?s k \<noteq> None \<longleftrightarrow> ses_links s k \<noteq> None \<and> k \<noteq> k0" for k
    using only [of k] k0 by (cases "ses_links s k = Some i") (auto simp: clear_entry_def)
  then have "{k. ses_links ?s k \<noteq> None} = {k. ses_links s k \<noteq> None} - {k0}" by blast
  moreover have "finite {k. ses_links s k \<noteq> None}"
    using e by (rule_tac finite_subset [of _ "{..<MAXIMUM_LINKS_PER_SESSION}"]) (auto simp: entries_ok_def)
  ultimately have "num_links ?s = card {k. ses_links ?s k \<noteq> None}" using e k0 by (simp add: entries_ok_def)
  moreover have "inj_on (ses_links ?s) {k. ses_links ?s k \<noteq> None}"
    using e by (auto simp: entries_ok_def inj_on_def clear_entry_def split: if_splits)
  ultimately have new: "entries_ok (L(i := (False, 0))) sp ?s"
    using e by (auto simp: entries_ok_def clear_entry_def split: if_splits)
  have no: "ses_links s' k \<noteq> Some i" if "S sp' = Some s'" "sp' \<noteq> sp" for sp' s' k
    using ok that i by (fastforce simp: owner_ok_def entries_ok_def)
  have old: "entries_ok (L(i := (False, 0))) sp' s'" if "S sp' = Some s'" "sp' \<noteq> sp" for sp' s'
    using ok that no [OF that] by (auto simp: owner_ok_def entries_ok_def)
  have d: "dom (S(sp \<mapsto> ?s)) = dom S" using s by auto
  have own: "\<exists>s' k'. (S(sp \<mapsto> ?s)) (snd (L j)) = Some s' \<and> ses_links s' k' = Some j"
    if j: "snd (L j) \<noteq> 0" "j \<noteq> i" for j
  proof -
    obtain s' k' where sk: "S (snd (L j)) = Some s'" "ses_links s' k' = Some j"
      using owner_entry [OF ok j(1)] by blast
    show ?thesis
    proof (cases "snd (L j) = sp")
      case True
      then have "ses_links ?s k' = Some j" using sk s j(2) by (simp add: clear_entry_def)
      then show ?thesis using True by (intro exI [of _ ?s] exI [of _ k']) simp
    qed (use sk in auto)
  qed
  show ?thesis using ok new old own d by (auto simp: owner_ok_def)
qed

lemma owner_pos:
  assumes ok: "owner_ok (L, S, H)" and i: "snd (L i) = sp" and s: "S sp = Some s"
  shows "num_links s \<noteq> 0"
proof -
  have "sp \<noteq> 0" using ok s by (auto simp: owner_ok_def)
  then obtain s0 k0 where "S (snd (L i)) = Some s0" "ses_links s0 k0 = Some i"
    using owner_entry [OF ok] i by blast
  then have k0: "ses_links s k0 = Some i" using i s by simp
  have e: "entries_ok L sp s" using ok s by (simp add: owner_ok_def)
  then have "finite {k. ses_links s k \<noteq> None}"
    by (rule_tac finite_subset [of _ "{..<MAXIMUM_LINKS_PER_SESSION}"]) (auto simp: entries_ok_def)
  then show ?thesis using e k0 by (auto simp: entries_ok_def card_eq_0_iff)
qed

lemma upt4: "[0..<MAXIMUM_LINKS_PER_SESSION] = [0, 1, 2, 3]"
  by (simp add: upt_rec)

lemma unreserve_entry_frame:
  "ids (snd (unreserve_entry i k lc)) = ids (snd lc)" "fst (unreserve_entry i k lc) = (fst lc)(k := clear_entry i (fst lc) k)"
  by (auto simp: unreserve_entry_def split_beta Let_def clear_entry_def fun_eq_iff)

lemma unreserve_fold_frame:
  "ids (snd (fold (unreserve_entry i) ks lc)) = ids (snd lc)
     \<and> fst (fold (unreserve_entry i) ks lc) = (\<lambda>k. if k \<in> set ks then clear_entry i (fst lc) k else fst lc k)"
  by (induction ks arbitrary: lc) (auto simp: unreserve_entry_frame clear_entry_def fun_eq_iff)

lemma free_link_parts:
  "own (core (free_link i d)) = ((fst (own (core d)))(i := (False, 0)), snd (own (core d)))"
  "crm_hdl_tbl (core (free_link i d)) = crm_hdl_tbl (core d)"
  "link_workq (free_link i d) = (link_workq d)(i := None)"
  by (simp_all add: free_link_def own_upd_link)

lemma unreserve_link_wf:
  assumes wf: "sys_wf d" and s: "sessions (core d) sp = Some s" and i: "parent (g_links (core d) i) = sp"
  shows "sys_wf (unreserve_link sp i d)"
proof -
  obtain L S H where o: "own (core d) = (L, S, H)" by (metis prod.exhaust)
  have ok: "owner_ok (L, S, H)" "hdl_wf (crm_hdl_tbl (core d))" "queues_ok d" using wf o by (simp_all add: sys_wf_def)
  have LS: "snd (L i) = sp" "S sp = Some s" using o s i by (auto simp: own_def)
  have e: "entries_ok L sp s" using ok(1) LS by (simp add: owner_ok_def)
  define lc where "lc = fold (unreserve_entry i) [0..<MAXIMUM_LINKS_PER_SESSION] (ses_links s, core d)"
  have f: "ids (snd lc) = ids (core d)" "fst lc = clear_entry i (ses_links s)"
    using unreserve_fold_frame [of i "[0..<MAXIMUM_LINKS_PER_SESSION]" "(ses_links s, core d)"] e
    by (auto simp: lc_def fun_eq_iff clear_entry_def entries_ok_def simp del: upt_eq_Cons_conv)
  let ?c = "upd_link i (\<lambda>l. l\<lparr>sync_link := None\<rparr>) (snd lc)"
  have c: "own ?c = (L, S, H)" "crm_hdl_tbl ?c = crm_hdl_tbl (core d)"
    using own_ids [OF f(1)] o by simp_all
  have "unreserve_link sp i d = free_link i (upd_session sp
      (\<lambda>s. s\<lparr>ses_links := clear_entry i (ses_links s), num_links := num_links s - 1\<rparr>) (upd_core (\<lambda>_. ?c) d))"
    using owner_pos [OF ok(1) LS] s f(2) c(1) o
    by (simp add: unreserve_link_def session_at_def lc_def [symmetric] split_beta Let_def upd_session_def upd_core_def own_def)
  then show ?thesis
    using owner_remove [OF ok(1) LS] c ok(2,3) LS(2) o
    by (simp add: sys_wf_def free_link_parts own_upd_session queues_ok_def) (simp add: own_def)
qed

text \<open>The two outcomes of a reservation when there is memory.\<close>

definition taken_link :: "ptr \<Rightarrow> nat \<Rightarrow> nat \<Rightarrow> crm_dev \<Rightarrow> crm_dev" where
  "taken_link sp j k d =
     upd_session sp (\<lambda>s. s\<lparr>ses_links := (ses_links s)(k := Some j), num_links := num_links s + 1\<rparr>)
       (upd_core (upd_link j (\<lambda>l. l\<lparr>num_devs := 0, max_delay := 0, in_q := Some zero_queue,
           link_state := CAM_CRM_LINK_STATE_IDLE, parent := sp, sync_link := None\<rparr>))
         (reset_link j (upd_core (upd_link j (\<lambda>l. l\<lparr>is_used := True\<rparr>)) d)))"

lemma session_room:
  assumes "entries_ok L sp s" "num_links s < MAXIMUM_LINKS_PER_SESSION"
  obtains k where "find (\<lambda>k. ses_links s k = None) [0..<MAXIMUM_LINKS_PER_SESSION] = Some k"
proof (cases "find (\<lambda>k. ses_links s k = None) [0..<MAXIMUM_LINKS_PER_SESSION]")
  case None
  then have "{k. ses_links s k \<noteq> None} = {..<MAXIMUM_LINKS_PER_SESSION}"
    using assms(1) by (auto simp: entries_ok_def find_None_iff)
  then have "num_links s = MAXIMUM_LINKS_PER_SESSION" using assms(1) by (simp add: entries_ok_def)
  then show ?thesis using assms(2) by simp
qed

lemma reserve_link_cases:
  assumes s: "sessions (core d) sp = Some s" "entries_ok L sp s"
  obtains (same) "reserve_link sp True d = (None, d)"
    | (got) j k where "reserve_link sp True d = (Some j, taken_link sp j k d)" "j < MAXIMUM_LINKS_PER_SESSION"
      "\<not> is_used (g_links (core d) j)" "k < MAXIMUM_LINKS_PER_SESSION" "ses_links s k = None"
proof (cases "num_links s < MAXIMUM_LINKS_PER_SESSION")
  case True
  show thesis
  proof (cases "find (\<lambda>i. \<not> is_used (g_links (core d) i)) [0..<MAXIMUM_LINKS_PER_SESSION]")
    case None
    then show thesis using same True s(1) by (simp add: reserve_link_def session_at_def)
  next
    case (Some j)
    obtain k where k: "find (\<lambda>k. ses_links s k = None) [0..<MAXIMUM_LINKS_PER_SESSION] = Some k"
      by (rule session_room [OF s(2) True])
    have "reserve_link sp True d = (Some j, taken_link sp j k d)"
      using True s(1) Some k by (simp add: reserve_link_def session_at_def Let_def taken_link_def)
    then show thesis using got find_upt_Some [OF Some] find_upt_Some [OF k] by blast
  qed
qed (use same s in \<open>simp add: reserve_link_def session_at_def\<close>)

lemma taken_link_parts:
  assumes "sessions (core d) sp = Some s"
  shows "parent (g_links (core (taken_link sp j k d)) j) = sp"
    "sessions (core (taken_link sp j k d)) sp =
       Some (s\<lparr>ses_links := (ses_links s)(k := Some j), num_links := num_links s + 1\<rparr>)"
    "link_workq (taken_link sp j k d) = (link_workq d)(j := None)"
    "crm_hdl_tbl (core (taken_link sp j k d)) = crm_hdl_tbl (core d)"
    "l_tbl (g_links (core (taken_link sp j k d)) j) = []" "in_q (g_links (core (taken_link sp j k d)) j) = Some zero_queue"
    "own (core (taken_link sp j k d)) = ((fst (own (core d)))(j := (True, sp)),
       (sessions (core d))(sp \<mapsto> s\<lparr>ses_links := (ses_links s)(k := Some j), num_links := num_links s + 1\<rparr>),
       session_head (core d))"
  using assms by (auto simp: taken_link_def own_def fun_eq_iff cam_req_mgr_core_link_reset_def)

lemma sys_wf_parts:
  assumes "sys_wf d"
  obtains L where "own (core d) = (L, sessions (core d), session_head (core d))"
    "owner_ok (L, sessions (core d), session_head (core d))"
    "L = (\<lambda>k. (is_used (g_links (core d) k), parent (g_links (core d) k)))"
    "hdl_wf (crm_hdl_tbl (core d))" "queues_ok d"
    "\<And>sp s. sessions (core d) sp = Some s \<Longrightarrow> entries_ok L sp s"
  using assms by (auto simp: sys_wf_def own_def owner_ok_def)

lemma taken_link_wf:
  assumes wf: "sys_wf d" and s: "sessions (core d) sp = Some s"
    and j: "j < MAXIMUM_LINKS_PER_SESSION" "\<not> is_used (g_links (core d) j)"
    and k: "k < MAXIMUM_LINKS_PER_SESSION" "ses_links s k = None"
  shows "sys_wf (taken_link sp j k d)"
proof -
  obtain L where L: "own (core d) = (L, sessions (core d), session_head (core d))"
    "owner_ok (L, sessions (core d), session_head (core d))"
    "L = (\<lambda>k. (is_used (g_links (core d) k), parent (g_links (core d) k)))"
    "hdl_wf (crm_hdl_tbl (core d))" "queues_ok d"
    by (rule sys_wf_parts [OF wf])
  have "owner_ok (own (core (taken_link sp j k d)))"
    unfolding taken_link_parts(7) [OF s] L(1) fst_conv
    by (rule owner_add [OF L(2) _ j(1) s k(2,1)]) (use owner_unused(1) [OF L(2)] j(2) L(3) in auto)
  then show ?thesis
    using L(4,5) by (auto simp: wfdefs taken_link_parts [OF s])
qed

end
