(* ===== verification/Cam_Crm_Sys_Ops.thy ===== *)
theory Cam_Crm_Sys_Ops
  imports Cam_Crm_Sys
begin

text \<open>Every entry point of the request manager keeps the invariant of the session layer.\<close>

section \<open>Linking\<close>

lemma reserve_nomem_wf:
  assumes "sys_wf d"
  shows "sys_wf (snd (reserve_link sp False d))" "fst (reserve_link sp False d) = None"
proof -
  obtain L where L: "own (core d) = (L, sessions (core d), session_head (core d))"
    "owner_ok (L, sessions (core d), session_head (core d))"
    "L = (\<lambda>k. (is_used (g_links (core d) k), parent (g_links (core d) k)))"
    "hdl_wf (crm_hdl_tbl (core d))" "queues_ok d"
    by (rule sys_wf_parts [OF assms])
  have "sys_wf (reset_link j (upd_core (upd_link j (\<lambda>l. l\<lparr>is_used := True\<rparr>)) d))"
    if "\<not> is_used (g_links (core d) j)" for j
    using owner_mark_used [OF L(2), of j] that L by (auto simp: wfdefs own_upd_link)
  then show "sys_wf (snd (reserve_link sp False d))"
    using assms find_upt_Some by (auto simp: reserve_link_def Let_def split: option.splits)
  show "fst (reserve_link sp False d) = None" by (simp add: reserve_link_def Let_def split: option.splits)
qed

lemma lid_destroy_link_info [simp]: "lid (destroy_link_info l) = lid l"
  by (simp add: destroy_link_info_def reset_in_q_def)

lemma lid_setup_in_q [simp]: "lid (snd (setup_in_q l)) = lid l"
  by (simp add: setup_in_q_def)

lemma lid_connect_device [simp]: "lid (fst (snd (connect_device env m ev d l tr))) = lid l"
  by (simp add: connect_device_def Let_def)

lemma lid_connect_devices [simp]: "lid (fst (snd (snd (connect_devices env sen m ev n ds l tr)))) = lid l"
  by (induction ds arbitrary: n l tr) (simp_all add: Let_def split_beta)

lemma lid_setup_link_info [simp]: "lid (fst (snd (setup_link_info env sen tbl vi l tr))) = lid l"
  using lid_setup_in_q [of "l\<lparr>num_tbl := 0\<rparr>"]
  by (simp add: setup_link_info_def Let_def split_beta split: prod.splits sum.splits)

text \<open>The work queue of a link that was linked is new.\<close>

lemma create_workq_cases:
  assumes "cam_req_mgr_workq_create kz wq CRM_WORKQ_NUM_TASKS irq flags None n = (rc, w, n')"
  shows "(rc < 0 \<and> w = None) \<or> (\<exists>v. rc = 0 \<and> w = Some v \<and> workq_ok {} v \<and> job v \<noteq> None \<and> num_task v = CRM_WORKQ_NUM_TASKS)"
proof (cases w)
  case None
  then show ?thesis using assms by (auto simp: cam_req_mgr_workq_create_def Let_def split: if_splits)
next
  case (Some v)
  then show ?thesis using workq_ok_create [of kz wq CRM_WORKQ_NUM_TASKS irq flags n rc v n'] assms by auto
qed

lemma setup_payload_ok:
  "setup_payload at w = (rc, w') \<Longrightarrow> workq_ok {} w \<Longrightarrow>
     rc \<le> 0 \<and> workq_ok {} w' \<and> job w' = job w \<and> num_task w' = num_task w"
proof -
  have f: "workq_ok {} (fold (\<lambda>t. upd_task t (f t)) ts w) \<and> job (fold (\<lambda>t. upd_task t (f t)) ts w) = job w
     \<and> num_task (fold (\<lambda>t. upd_task t (f t)) ts w) = num_task w" if "workq_ok {} w" for f ts w
    using that by (induction ts arbitrary: w) (simp_all add: workq_ok_upd_task)
  assume "setup_payload at w = (rc, w')" "workq_ok {} w"
  then show ?thesis using f by (auto simp: setup_payload_def split: if_splits)
qed

text \<open>
  The devices are linked, or not; either way the ownership stays, and the link has a work queue
  exactly if it worked.
\<close>

lemma link_devices_frame:
  assumes q: "queues_ok d" "link_workq d i = None" and e: "link_devices env sen le vi i d = (rc, d')"
  shows "ids (core d') = ids (core d)" "queues_ok d'"
    "rc < 0 \<Longrightarrow> link_workq d' = link_workq d"
    "\<not> rc < 0 \<Longrightarrow> (\<exists>w. link_workq d' = (link_workq d)(i \<mapsto> w)) \<and> link_state (g_links (core d') i) = CAM_CRM_LINK_STATE_READY"
proof -
  obtain r l tr where s: "setup_link_info env sen (crm_hdl_tbl (core d)) vi (g_links (core d) i) (crm_calls (core d)) = (r, l, tr)"
    by (metis prod.exhaust)
  have l: "lid l = lid (g_links (core d) i)"
    using lid_setup_link_info [of env sen "crm_hdl_tbl (core d)" vi "g_links (core d) i" "crm_calls (core d)"] by (simp add: s)
  obtain r2 w n where c: "cam_req_mgr_workq_create (wq_kz le) (wq_job le) CRM_WORKQ_NUM_TASKS 0 3 None (jobs d) = (r2, w, n)"
    by (metis prod.exhaust)
  have "ids (core d') = ids (core d) \<and> queues_ok d' \<and> (rc < 0 \<longrightarrow> link_workq d' = link_workq d)
     \<and> (\<not> rc < 0 \<longrightarrow> (\<exists>w. link_workq d' = (link_workq d)(i \<mapsto> w)) \<and> link_state (g_links (core d') i) = CAM_CRM_LINK_STATE_READY)"
  proof (cases "r < 0")
    case True
    then show ?thesis using e s l q by (auto simp: link_devices_def)
  next
    case r: False
    show ?thesis
      using create_workq_cases [OF c]
    proof (elim disjE exE conjE)
      assume "r2 < 0" "w = None"
      then show ?thesis using e s r l q c by (auto simp: link_devices_def Let_def fun_upd_idem)
    next
      fix v
      assume v: "r2 = 0" "w = Some v" "workq_ok {} v" "job v \<noteq> None" "num_task v = CRM_WORKQ_NUM_TASKS"
      obtain r3 v' where p: "setup_payload (payload_at le) v = (r3, v')" by (metis prod.exhaust)
      show ?thesis
        using e s r l q c v p setup_payload_ok [OF p v(3)]
        by (cases "r3 < 0")
          (auto simp: link_devices_def Let_def destroy_workq_frame fun_upd_idem queues_ok_def split: if_splits)
    qed
  qed
  then show "ids (core d') = ids (core d)" "queues_ok d'"
    "rc < 0 \<Longrightarrow> link_workq d' = link_workq d"
    "\<not> rc < 0 \<Longrightarrow> (\<exists>w. link_workq d' = (link_workq d)(i \<mapsto> w)) \<and> link_state (g_links (core d') i) = CAM_CRM_LINK_STATE_READY"
    by blast+
qed

lemma hdl_wf_destroy_device: "hdl_wf tbl \<Longrightarrow> hdl_wf (snd (cam_destroy_device_hdl h tbl))"
  by (simp add: cam_destroy_device_hdl_def hdl_wf_destroy)

lemma sys_wf_hdl: "sys_wf d \<Longrightarrow> hdl_wf t \<Longrightarrow> sys_wf (upd_core (\<lambda>c. c\<lparr>crm_hdl_tbl := t\<rparr>) d)"
  by (simp add: sys_wf_def)

text \<open>Fields of a link that do not concern its ownership.\<close>

lemma sys_wf_upd_link:
  assumes "sys_wf d" "\<And>l. is_used (f l) = is_used l" "\<And>l. parent (f l) = parent l"
  shows "sys_wf (upd_core (upd_link i f) d)"
  using assms by (simp add: sys_wf_def)

lemma undo_link_wf:
  assumes "sys_wf d" "sessions (core d) sp = Some s" "parent (g_links (core d) i) = sp"
  shows "sys_wf (undo_link sp i d)"
proof -
  let ?d = "upd_core (\<lambda>c. c\<lparr>crm_hdl_tbl := snd (cam_destroy_device_hdl (link_hdl (g_links c i)) (crm_hdl_tbl c))\<rparr>) d"
  have "sys_wf ?d" using assms(1) by (simp add: sys_wf_def hdl_wf_destroy_device)
  then show ?thesis unfolding undo_link_def by (rule unreserve_link_wf) (use assms(2,3) in simp_all)
qed

lemma link_session_wf:
  assumes wf: "sys_wf d" and s: "sessions (core d) sp = Some s"
  shows "sys_wf (snd (link_session env sen le la vi sp d))"
proof (cases "in_q_alloc le")
  case False
  then show ?thesis
    using reserve_nomem_wf [OF wf, of sp] by (cases "reserve_link sp False d") (simp add: link_session_def)
next
  case True
  obtain L where es: "entries_ok L sp s" by (rule sys_wf_parts [OF wf]) (use s in blast)
  show ?thesis
  proof (rule reserve_link_cases [OF s es])
    assume "reserve_link sp True d = (None, d)"
    then show ?thesis using True wf by (simp add: link_session_def)
  next
    fix j k
    assume g: "reserve_link sp True d = (Some j, taken_link sp j k d)" "j < MAXIMUM_LINKS_PER_SESSION"
      "\<not> is_used (g_links (core d) j)" "k < MAXIMUM_LINKS_PER_SESSION" "ses_links s k = None"
    define d1 where "d1 = taken_link sp j k d"
    note p = taken_link_parts [OF s, of j k, folded d1_def]
    have w1: "sys_wf d1" unfolding d1_def by (rule taken_link_wf [OF wf s g(2-5)])
    obtain h tbl where h: "cam_create_device_hdl (hdl_rnd le) \<lparr>cd_session_hdl = vi_session_hdl vi, cd_dev_id = CAM_CRM,
        cd_ops = 0, cd_priv = la j\<rparr> (crm_hdl_tbl (core d1)) = (h, tbl)" by (metis prod.exhaust)
    have ht: "hdl_wf tbl" using hdl_wf_create_device [of "crm_hdl_tbl (core d1)"] w1 h by (metis snd_conv sys_wf_def)
    define d2 where "d2 = upd_core (\<lambda>c. upd_link j (\<lambda>l. l\<lparr>link_hdl := h\<rparr>) (c\<lparr>crm_hdl_tbl := tbl\<rparr>)) d1"
    have w2: "sys_wf d2" "parent (g_links (core d2) j) = sp" "\<exists>s'. sessions (core d2) sp = Some s'" "link_workq d2 j = None"
      using w1 ht p by (simp_all add: d2_def sys_wf_def)
    define d3 where "d3 = upd_core (upd_link j (\<lambda>l. l\<lparr>last_flush_id := 0,
        l_dev := (if subdev_alloc le then replicate (vi_num_devices vi) zero_dev else [])\<rparr>)) d2"
    have w3: "sys_wf d3" "parent (g_links (core d3) j) = sp" "\<exists>s'. sessions (core d3) sp = Some s'" "link_workq d3 j = None"
      using w2 by (simp_all add: d3_def sys_wf_def)
    obtain rc d4 where l: "link_devices env sen le vi j d3 = (rc, d4)" by (metis prod.exhaust)
    have w4: "sys_wf d4"
      using link_devices_frame(1,2) [OF _ w3(4) l] w3(1) own_ids [of "core d4" "core d3"] by (auto simp: sys_wf_def)
    have s4: "parent (g_links (core d4) j) = sp" "\<exists>s'. sessions (core d4) sp = Some s'"
      using link_devices_frame(1) [OF _ w3(4) l] w3 by (auto simp: ids_def lid_def fun_eq_iff sys_wf_def)
    have "snd (link_session env sen le la vi sp d) =
        (if h < 0 then unreserve_link sp j d2
         else if \<not> subdev_alloc le then undo_link sp j d3 else if rc < 0 then undo_link sp j d4 else d4)"
      using True g(1) h l by (simp add: link_session_def d1_def [symmetric] d2_def [symmetric] d3_def [symmetric] Let_def)
    then show ?thesis
      using w2 w3 w4 s4 unreserve_link_wf undo_link_wf by auto
  qed
qed

section \<open>Unlinking\<close>

text \<open>Unlinking drops the work queue and the handle, and keeps the ownership.\<close>

lemma lid_disconnect [simp]: "lid (fst (snd (disconnect_link env l tr))) = lid l"
  by (simp add: disconnect_link_def Let_def split_beta)

lemma shut_link_frame:
  "ids (core (shut_link env i d)) = ids (core d)" "link_workq (shut_link env i d) = (link_workq d)(i := None)"
  using destroy_workq_frame by (simp_all add: shut_link_def Let_def split_beta)

lemma unlink_link_frame:
  assumes e: "unlink_link env i d = (rc, d')"
  shows "own (core d') = own (core d)" "link_workq d' = (link_workq d)(i := None)"
    "hdl_wf (crm_hdl_tbl (core d)) \<Longrightarrow> hdl_wf (crm_hdl_tbl (core d'))"
    "crm_hdl_tbl (core d') = snd (cam_destroy_device_hdl (link_hdl (g_links (core d) i)) (crm_hdl_tbl (core d)))"
proof -
  let ?d = "shut_link env i d"
  have o: "own (core ?d) = own (core d)" "crm_hdl_tbl (core ?d) = crm_hdl_tbl (core d)"
    "link_hdl (g_links (core ?d) i) = link_hdl (g_links (core d) i)"
    using own_ids [OF shut_link_frame(1)] shut_link_frame(1) [of env i d] by (auto simp: ids_def lid_def fun_eq_iff)
  obtain r tbl where h: "cam_destroy_device_hdl (link_hdl (g_links (core d) i)) (crm_hdl_tbl (core d)) = (r, tbl)"
    by (metis prod.exhaust)
  have d': "d' = (if r < 0 then upd_core (\<lambda>c. c\<lparr>crm_hdl_tbl := tbl\<rparr>) ?d
      else upd_core (upd_link i (\<lambda>l. l\<lparr>link_hdl := - 1\<rparr>)) (upd_core (\<lambda>c. c\<lparr>crm_hdl_tbl := tbl\<rparr>) ?d))"
    using e h o by (auto simp: unlink_link_def Let_def)
  show "own (core d') = own (core d)" "link_workq d' = (link_workq d)(i := None)"
    "crm_hdl_tbl (core d') = snd (cam_destroy_device_hdl (link_hdl (g_links (core d) i)) (crm_hdl_tbl (core d)))"
    using o shut_link_frame(2) h by (simp_all add: d')
  then show "hdl_wf (crm_hdl_tbl (core d)) \<Longrightarrow> hdl_wf (crm_hdl_tbl (core d'))" using hdl_wf_destroy_device by simp
qed

lemma unlink_link_wf:
  assumes "sys_wf d"
  shows "sys_wf (snd (unlink_link env i d))"
  using unlink_link_frame [of env i d] assms by (cases "unlink_link env i d") (auto simp: wfdefs)

lemma own_eqD:
  assumes "own c' = own c"
  shows "sessions c' = sessions c" "parent (g_links c' k) = parent (g_links c k)" "is_used (g_links c' k) = is_used (g_links c k)"
    "session_head c' = session_head c"
  using assms by (auto simp: own_def fun_eq_iff)

lemma unlink_wf:
  assumes wf: "sys_wf d" and p: "session_priv sh d = Obj sp" "link_priv la lh d = Obj i" "parent (g_links (core d) i) = sp"
    and e: "cam_req_mgr_unlink env la sh lh d = Some (rc, d')"
  shows "sys_wf d'"
proof -
  obtain r d1 where u: "unlink_link env i d = (r, d1)" by (metis prod.exhaust)
  have o: "own (core d1) = own (core d)" using unlink_link_frame(1) [OF u] .
  have "d' = unreserve_link sp i d1" using e p u by (simp add: cam_req_mgr_unlink_def with_session_def with_link_def)
  moreover obtain s where "sessions (core d) sp = Some s" using p(1) by (auto simp: session_priv_def Let_def split: if_splits)
  moreover have "sys_wf d1" using unlink_link_wf [OF wf, of env i] u by simp
  ultimately show ?thesis using unreserve_link_wf [of d1 sp s i] own_eqD [OF o] p(3) by simp
qed

section \<open>Sessions\<close>

lemma create_session_wf:
  assumes wf: "sys_wf d" and addr: "sessions (core d) addr = None"
  shows "sys_wf (snd (cam_req_mgr_create_session addr rnd d))"
proof -
  obtain L where L: "own (core d) = (L, sessions (core d), session_head (core d))"
    "owner_ok (L, sessions (core d), session_head (core d))"
    "L = (\<lambda>k. (is_used (g_links (core d) k), parent (g_links (core d) k)))"
    "hdl_wf (crm_hdl_tbl (core d))" "queues_ok d"
    by (rule sys_wf_parts [OF wf])
  obtain h tbl where h: "cam_create_session_hdl rnd addr (crm_hdl_tbl (core d)) = (h, tbl)" by (metis prod.exhaust)
  have ht: "hdl_wf tbl" using hdl_wf_create_session [OF L(4), of rnd addr] h by simp
  let ?s = "\<lparr>ses_session_hdl = h, num_links = 0, ses_links = (\<lambda>_. None), force_err_recovery = 0, ses_sync_mode = CAM_REQ_MGR_SYNC_MODE_NO_SYNC\<rparr>"
  have new: "entries_ok L addr ?s" by (simp add: entries_ok_def)
  have "owner_ok (L, (sessions (core d))(addr \<mapsto> ?s), addr # session_head (core d))" if "addr \<noteq> 0"
  proof -
    have own: "\<exists>s k. ((sessions (core d))(addr \<mapsto> ?s)) (snd (L j)) = Some s \<and> ses_links s k = Some j" if j: "snd (L j) \<noteq> 0" for j
    proof -
      obtain s k where "sessions (core d) (snd (L j)) = Some s" "ses_links s k = Some j" by (rule owner_entry [OF L(2) j])
      moreover from this(1) have "snd (L j) \<noteq> addr" using addr by auto
      ultimately show ?thesis by auto
    qed
    show ?thesis using L(2) new own addr that by (auto simp: owner_ok_def)
  qed
  then show ?thesis
    using wf h ht L by (auto simp: cam_req_mgr_create_session_def sys_wf_def own_def Let_def)
qed

text \<open>The loop of the destruction frees the links of the session one after the other.\<close>

lemma destroy_entry_frame:
  "sessions (core (destroy_entry env sh sp k d)) = sessions (core d)"
  "session_head (core (destroy_entry env sh sp k d)) = session_head (core d)"
  "fst (own (core (destroy_entry env sh sp k d))) =
     (\<lambda>i. if ses_links (session_at d sp) k = Some i then (False, 0) else fst (own (core d)) i)"
  "hdl_wf (crm_hdl_tbl (core d)) \<Longrightarrow> hdl_wf (crm_hdl_tbl (core (destroy_entry env sh sp k d)))"
  "queues_ok d \<Longrightarrow> queues_ok (destroy_entry env sh sp k d)"
proof -
  have "sessions (core (destroy_entry env sh sp k d)) = sessions (core d)
    \<and> session_head (core (destroy_entry env sh sp k d)) = session_head (core d)
    \<and> fst (own (core (destroy_entry env sh sp k d))) =
       (\<lambda>i. if ses_links (session_at d sp) k = Some i then (False, 0) else fst (own (core d)) i)
    \<and> (hdl_wf (crm_hdl_tbl (core d)) \<longrightarrow> hdl_wf (crm_hdl_tbl (core (destroy_entry env sh sp k d))))
    \<and> (queues_ok d \<longrightarrow> queues_ok (destroy_entry env sh sp k d))"
  proof (cases "ses_links (session_at d sp) k")
    case (Some i)
    let ?d = "upd_core (upd_link i (\<lambda>l. l\<lparr>is_shutdown := sh\<rparr>)) d"
    obtain rc d1 where u: "unlink_link env i ?d = (rc, d1)" by (metis prod.exhaust)
    note f = unlink_link_frame [OF u]
    have o: "own (core d1) = own (core d)" using f(1) by simp
    have "sessions (core (free_link i d1)) = sessions (core d)" "session_head (core (free_link i d1)) = session_head (core d)"
      using free_link_parts(1) [of i d1] o by (auto simp: own_def)
    then show ?thesis
      using f(2,3) o Some u
      by (auto simp: destroy_entry_def free_link_parts queues_ok_def fun_eq_iff split: if_splits)
  qed (simp add: destroy_entry_def)
  then show "sessions (core (destroy_entry env sh sp k d)) = sessions (core d)"
    "session_head (core (destroy_entry env sh sp k d)) = session_head (core d)"
    "fst (own (core (destroy_entry env sh sp k d))) =
       (\<lambda>i. if ses_links (session_at d sp) k = Some i then (False, 0) else fst (own (core d)) i)"
    "hdl_wf (crm_hdl_tbl (core d)) \<Longrightarrow> hdl_wf (crm_hdl_tbl (core (destroy_entry env sh sp k d)))"
    "queues_ok d \<Longrightarrow> queues_ok (destroy_entry env sh sp k d)"
    by blast+
qed

lemma destroy_fold_frame:
  fixes d :: crm_dev and sp :: ptr
  defines "ls \<equiv> ses_links (session_at d sp)"
  shows "sessions (core (fold (destroy_entry env sh sp) ks d)) = sessions (core d)
    \<and> session_head (core (fold (destroy_entry env sh sp) ks d)) = session_head (core d)
    \<and> fst (own (core (fold (destroy_entry env sh sp) ks d))) =
       (\<lambda>i. if \<exists>k\<in>set ks. ls k = Some i then (False, 0) else fst (own (core d)) i)
    \<and> (hdl_wf (crm_hdl_tbl (core d)) \<longrightarrow> hdl_wf (crm_hdl_tbl (core (fold (destroy_entry env sh sp) ks d))))
    \<and> (queues_ok d \<longrightarrow> queues_ok (fold (destroy_entry env sh sp) ks d))"
  unfolding ls_def
proof (induction ks arbitrary: d)
  case (Cons k ks)
  have "session_at (destroy_entry env sh sp k d) sp = session_at d sp"
    by (simp add: session_at_def destroy_entry_frame)
  then show ?case
    using Cons [of "destroy_entry env sh sp k d"] destroy_entry_frame [where env = env and sh = sh and sp = sp and k = k and d = d]
    by (auto simp: fun_eq_iff)
qed simp

text \<open>When the links of a session are free and the session is gone, the ownership is right again.\<close>

lemma owner_drop:
  assumes ok: "owner_ok (L, S, H)" and s: "S sp = Some s"
  shows "owner_ok (\<lambda>i. if \<exists>k. ses_links s k = Some i then (False, 0) else L i, S(sp := None), removeAll sp H)"
proof -
  let ?L = "\<lambda>i. if \<exists>k. ses_links s k = Some i then (False, 0) else L i"
  have parent: "snd (L i) = sp'" if "S sp' = Some s'" "ses_links s' k = Some i" for sp' s' k i
    using ok that by (auto simp: owner_ok_def entries_ok_def)
  have "entries_ok ?L sp' s'" if "S sp' = Some s'" "sp' \<noteq> sp" for sp' s'
  proof -
    have e: "entries_ok L sp' s'" using ok that(1) by (simp add: owner_ok_def)
    have "?L i = L i" if "ses_links s' k = Some i" for k i
      using parent [OF \<open>S sp' = Some s'\<close> that] parent [OF s] \<open>sp' \<noteq> sp\<close> by auto
    then show ?thesis using e by (auto simp: entries_ok_def)
  qed
  moreover have "\<exists>s' k. (S(sp := None)) (snd (L j)) = Some s' \<and> ses_links s' k = Some j"
    if j: "snd (L j) \<noteq> 0" "\<nexists>k. ses_links s k = Some j" for j
  proof -
    obtain s' k where "S (snd (L j)) = Some s'" "ses_links s' k = Some j" by (rule owner_entry [OF ok j(1)])
    moreover from this have "snd (L j) \<noteq> sp" using j(2) s by auto
    ultimately show ?thesis by auto
  qed
  ultimately show ?thesis using ok by (auto simp: owner_ok_def distinct_removeAll)
qed

lemma no_links:
  assumes "entries_ok L sp s" "num_links s = 0"
  shows "ses_links s k = None"
proof -
  have "finite {k. ses_links s k \<noteq> None}"
    using assms(1) by (rule_tac finite_subset [of _ "{..<MAXIMUM_LINKS_PER_SESSION}"]) (auto simp: entries_ok_def)
  then show ?thesis using assms by (auto simp: entries_ok_def)
qed

lemma destroy_session_eq:
  assumes wf: "sys_wf d" and p: "session_priv h d = Obj sp" and s: "sessions (core d) sp = Some s"
    and e: "cam_req_mgr_destroy_session env h sh d = Some (rc, d')"
  shows "sys_wf d'" "sessions (core d') = (sessions (core d))(sp := None)"
    "ses_links s k = Some i \<Longrightarrow> \<not> is_used (g_links (core d') i)"
proof -
  obtain L where L: "own (core d) = (L, sessions (core d), session_head (core d))"
    "owner_ok (L, sessions (core d), session_head (core d))" "hdl_wf (crm_hdl_tbl (core d))" "queues_ok d" "entries_ok L sp s"
    by (rule sys_wf_parts [OF wf]) (use s in blast)
  have lim: "ses_links s k = Some i \<Longrightarrow> k < MAXIMUM_LINKS_PER_SESSION" for k i using L(5) by (auto simp: entries_ok_def)
  define d1 where "d1 = (if num_links s \<noteq> 0 then fold (destroy_entry env sh sp) [0..<MAXIMUM_LINKS_PER_SESSION] d else d)"
  have sa: "session_at d sp = s" using s by (simp add: session_at_def)
  have f: "sessions (core d1) = sessions (core d)" "session_head (core d1) = session_head (core d)"
    "fst (own (core d1)) = (\<lambda>i. if \<exists>k. ses_links s k = Some i then (False, 0) else L i)"
    "hdl_wf (crm_hdl_tbl (core d1))" "queues_ok d1"
    using destroy_fold_frame [where env = env and sh = sh and sp = sp and ks = "[0..<MAXIMUM_LINKS_PER_SESSION]" and d = d]
      L lim no_links [OF L(5)]
    by (auto simp: sa d1_def fun_eq_iff simp del: upt_eq_Cons_conv)
  obtain r tbl where t: "cam_destroy_session_hdl h (crm_hdl_tbl (core d1)) = (r, tbl)" by (metis prod.exhaust)
  have d': "d' = upd_core (\<lambda>c. c\<lparr>crm_hdl_tbl := tbl\<rparr>)
      (upd_core (\<lambda>c. c\<lparr>session_head := removeAll sp (session_head c), sessions := (sessions c)(sp := None)\<rparr>) d1)"
    using e p t by (simp add: cam_req_mgr_destroy_session_def with_session_def sa d1_def Let_def)
  have tw: "hdl_wf tbl" using hdl_wf_destroy [OF f(4), of h HDL_TYPE_SESSION] t by (simp add: cam_destroy_session_hdl_def)
  have o: "own (core d') = (\<lambda>i. if \<exists>k. ses_links s k = Some i then (False, 0) else L i,
      (sessions (core d))(sp := None), removeAll sp (session_head (core d)))"
    using f(1-3) by (simp add: d' own_def)
  then show "sys_wf d'" using owner_drop [OF L(2) s] tw f(5) by (simp add: sys_wf_def) (simp add: d')
  show "sessions (core d') = (sessions (core d))(sp := None)"
    "ses_links s k = Some i \<Longrightarrow> \<not> is_used (g_links (core d') i)"
    using o by (auto simp: own_def fun_eq_iff split: if_splits)
qed

end
