(* ===== verification/Cam_Crm_Sys_Props.thy ===== *)
theory Cam_Crm_Sys_Props
  imports Cam_Crm_Sys_Ops Cam_Crm_Faults
begin

text \<open>The properties of the session layer of the request manager.\<close>

section \<open>Entry points as operations that keep the invariant\<close>

locale sys_op =
  fixes f :: "crm_dev \<Rightarrow> (rc \<times> crm_dev) option"
  assumes keeps: "sys_wf d \<Longrightarrow> f d = Some (rc, d') \<Longrightarrow> sys_wf d'"
begin

lemma keeps_case: "sys_wf d \<Longrightarrow> (case f d of None \<Rightarrow> True | Some r \<Rightarrow> sys_wf (snd r))"
  using keeps by (cases "f d") auto

end

lemma sys_op_link: "(\<And>i. sys_op (f i)) \<Longrightarrow> sys_op (with_link la h e f)"
  by (auto simp: sys_op_def with_link_def split: priv.splits)

lemma sys_op_session: "(\<And>p. sys_op (f p)) \<Longrightarrow> sys_op (with_session h e f)"
  by (auto simp: sys_op_def with_session_def split: priv.splits)

lemma sys_op_if: "sys_op f \<Longrightarrow> sys_op g \<Longrightarrow> sys_op (\<lambda>d. if P d then f d else g d)"
proof
  fix d rc d'
  assume "sys_op f" "sys_op g" "sys_wf d" "(if P d then f d else g d) = Some (rc, d')"
  then show "sys_wf d'" using sys_op.keeps [of f d rc d'] sys_op.keeps [of g d rc d'] by (cases "P d") simp_all
qed

lemma sys_op_ret: "(\<And>d. sys_wf d \<Longrightarrow> sys_wf (g d)) \<Longrightarrow> sys_op (\<lambda>d. Some (e d, g d))"
  by (auto simp: sys_op_def)

lemma sys_op_queue: "(\<And>d. sys_wf d \<Longrightarrow> sys_wf (g d)) \<Longrightarrow> sys_op (\<lambda>d. Some (queue_task la e i p (g d)))"
proof
  fix d rc d'
  assume g: "\<And>d. sys_wf d \<Longrightarrow> sys_wf (g d)" and wf: "sys_wf d" and "Some (queue_task la e i p (g d)) = Some (rc, d')"
  then have "queue_task la e i p (g d) = (rc, d')" by simp
  with sys_wf_queue_task [OF g [OF wf], of la e i p] show "sys_wf d'" by simp
qed

lemma sys_wf_reset_watchdog: "sys_wf d \<Longrightarrow> sys_wf (reset_watchdog i d)"
  unfolding reset_watchdog_def by (rule sys_wf_core) simp_all

lemma sys_wf_watchdog:
  "sys_wf d \<Longrightarrow> sys_wf (upd_core (upd_link i (\<lambda>l. l\<lparr>watchdog := g (watchdog l)\<rparr>)) d)"
  by (rule sys_wf_core) simp_all

lemmas sys_op_intros = sys_op_link sys_op_session sys_op_if sys_op_ret sys_op_queue

interpretation add_req: sys_op "cam_req_mgr_cb_add_req la ar" for la ar
  unfolding cam_req_mgr_cb_add_req_def Let_def by (intro sys_op_intros)

interpretation notify_err: sys_op "cam_req_mgr_cb_notify_err la stale en" for la stale en
  unfolding cam_req_mgr_cb_notify_err_def by (intro sys_op_intros sys_wf_reset_watchdog)

interpretation notify_stop: sys_op "cam_req_mgr_cb_notify_stop la h" for la h
  unfolding cam_req_mgr_cb_notify_stop_def by (intro sys_op_intros sys_wf_reset_watchdog)

interpretation notify_trigger: sys_op "cam_req_mgr_cb_notify_trigger la tn" for la tn
  unfolding cam_req_mgr_cb_notify_trigger_def Let_def by (intro sys_op_intros sys_wf_reset_watchdog sys_wf_watchdog)

interpretation notify_timer: sys_op "cam_req_mgr_cb_notify_timer la h st" for la h st
  unfolding cam_req_mgr_cb_notify_timer_def
  by (intro sys_op_link sys_op_if sys_op_ret) (simp_all add: sys_wf_watchdog)

interpretation schedule: sys_op "cam_req_mgr_schedule_request la sr" for la sr
  unfolding cam_req_mgr_schedule_request_def
proof (rule sys_op_link, unfold_locales)
  fix i d rc d'
  assume wf: "sys_wf d"
  have w: "sys_wf (upd_core (\<lambda>_. snd (cam_req_mgr_process_sched_req i r (core (upd_core (upd_link i (\<lambda>l. l\<lparr>last_flush_id := 0\<rparr>)) d))))
      (upd_core (upd_link i (\<lambda>l. l\<lparr>last_flush_id := 0\<rparr>)) d))" for r
    by (rule sys_wf_core, rule sys_wf_core [OF wf]) simp_all
  assume "(let l = g_links (core d) i in
       if parent l = 0 then Some (- EINVAL, d)
       else if sr_req_id sr \<le> uint (last_flush_id l) then Some (- EBADR, d)
       else
         case sessions (core d) (parent l) of
           None \<Rightarrow> None
         | Some s \<Rightarrow>
             let d1 = upd_core (upd_link i (\<lambda>l. l\<lparr>last_flush_id := 0\<rparr>)) d;
                 be = (if force_err_recovery s = AUTO_RECOVERY then sr_bubble_enable sr
                       else if force_err_recovery s = FORCE_ENABLE_RECOVERY then 1 else 0);
                 (rc, c) = cam_req_mgr_process_sched_req i (sr\<lparr>sr_bubble_enable := be\<rparr>) (core d1)
             in Some (rc, upd_core (\<lambda>_. c) d1)) = Some (rc, d')"
  then show "sys_wf d'" using wf w by (auto simp: Let_def split_beta split: if_splits option.splits)
qed

interpretation flush: sys_op "cam_req_mgr_flush_requests la waited fi" for la waited fi
proof -
  have "sys_op (with_link la (fi_link_hdl fi) (- EINVAL) (\<lambda>i d.
      if fst (cam_req_mgr_workq_get_task (link_workq d i)) = None then Some (- ENOMEM, d)
      else Some (waited, snd (queue_task la ENOMEM i (Task_flush fi) d))))"
    by (rule sys_op_link) (auto simp: sys_op_def sys_wf_queue_task split: if_splits)
  then have "sys_op (with_session (fi_session_hdl fi) (- EINVAL) (\<lambda>sp d.
      if num_links (session_at d sp) = 0 then Some (0, d)
      else with_link la (fi_link_hdl fi) (- EINVAL) (\<lambda>i d.
        if fst (cam_req_mgr_workq_get_task (link_workq d i)) = None then Some (- ENOMEM, d)
        else Some (waited, snd (queue_task la ENOMEM i (Task_flush fi) d))) d))"
    by (intro sys_op_session) (auto simp: sys_op_def split: if_splits)
  then show "sys_op (cam_req_mgr_flush_requests la waited fi)"
    by (auto simp: sys_op_def cam_req_mgr_flush_requests_def split: if_splits)
qed

text \<open>A session field that does not concern the links.\<close>

lemma sys_wf_session_field:
  assumes wf: "sys_wf d" and f: "\<And>s. ses_links (f s) = ses_links s" "\<And>s. num_links (f s) = num_links s"
  shows "sys_wf (upd_session sp f d)"
proof -
  have e: "entries_ok L p (f s) = entries_ok L p s" for L p s by (simp add: entries_ok_def f)
  have "owner_ok (L, S(sp := map_option f (S sp)), H)" if ok: "owner_ok (L, S, H)" for L S H
  proof -
    have "\<exists>s k. (S(sp := map_option f (S sp))) (snd (L j)) = Some s \<and> ses_links s k = Some j" if j: "snd (L j) \<noteq> 0" for j
      by (rule owner_entry [OF ok j]) (auto simp: f)
    moreover have "dom (S(sp := map_option f (S sp))) = dom S" by (auto split: if_splits)
    ultimately show ?thesis using ok by (auto simp: owner_ok_def e split: if_splits)
  qed
  then show ?thesis using wf by (auto simp: sys_wf_def own_def queues_ok_def)
qed

interpretation sync_config: sys_op "cam_req_mgr_sync_config la sm" for la sm
proof -
  have "sys_op (\<lambda>d. Some (0, upd_session sp (\<lambda>s. s\<lparr>ses_sync_mode := m\<rparr>) (upd_core (sync_config_links m i j) d)))" for sp m i j
    by unfold_locales (auto intro!: sys_wf_session_field sys_wf_core)
  then have "sys_op (with_session (sm_session_hdl sm) (- EINVAL) (\<lambda>sp.
       with_link la (sm_link_hdl0 sm) (- EINVAL) (\<lambda>link1.
         with_link la (sm_link_hdl1 sm) (- EINVAL) (\<lambda>link2 d.
           Some (0, upd_session sp (\<lambda>s. s\<lparr>ses_sync_mode := sm_sync_mode sm\<rparr>)
                      (upd_core (sync_config_links (sm_sync_mode sm) link1 link2) d))))))"
    by (intro sys_op_session sys_op_link)
  then show "sys_op (cam_req_mgr_sync_config la sm)"
    by (auto simp: sys_op_def cam_req_mgr_sync_config_def split: if_splits)
qed

lemma ids_control_link [simp]: "ids (snd (control_link env op i rc c)) = ids c"
  by (simp add: control_link_def Let_def split_beta)

lemma control_loop_op: "sys_op (control_loop env la op hs rc)"
proof (induction hs arbitrary: rc)
  case (Cons h hs)
  have "sys_op (\<lambda>d. let (rc1, c1) = control_link env op i rc (core d)
       in control_loop env la op hs rc1 (upd_core (\<lambda>_. c1) d))" for i
  proof
    fix d rc2 d'
    assume wf: "sys_wf d" and e: "(let (rc1, c1) = control_link env op i rc (core d)
       in control_loop env la op hs rc1 (upd_core (\<lambda>_. c1) d)) = Some (rc2, d')"
    have "sys_wf (upd_core (\<lambda>_. snd (control_link env op i rc (core d))) d)" by (rule sys_wf_core [OF wf]) simp
    from sys_op.keeps [OF Cons.IH this] e show "sys_wf d'" by (simp add: split_beta)
  qed
  then have "sys_op (with_link la h (- EINVAL) (\<lambda>i d. let (rc1, c1) = control_link env op i rc (core d)
       in control_loop env la op hs rc1 (upd_core (\<lambda>_. c1) d)))" by (rule sys_op_link)
  moreover have "control_loop env la op (h # hs) rc = with_link la h (- EINVAL) (\<lambda>i d.
       let (rc1, c1) = control_link env op i rc (core d) in control_loop env la op hs rc1 (upd_core (\<lambda>_. c1) d))"
    by (rule ext) simp
  ultimately show ?case by simp
qed (simp add: sys_op_def)

interpretation control: sys_op "cam_req_mgr_link_control env la op n hdls" for env la op n hdls
  using control_loop_op by (auto simp: sys_op_def cam_req_mgr_link_control_def split: if_splits)

interpretation dump: sys_op "cam_req_mgr_dump_request env la sh lh req" for env la sh lh req
proof -
  have "sys_op (with_link la lh 0 (\<lambda>i d. let l = g_links (core d) i
      in Some (0, upd_core (\<lambda>c. c\<lparr>crm_calls := dump_devices env req (take (num_devs l) (l_dev l)) (crm_calls c)\<rparr>) d)))"
    by (rule sys_op_link) (auto simp: sys_op_def Let_def intro!: sys_wf_core)
  then show "sys_op (cam_req_mgr_dump_request env la sh lh req)"
    unfolding cam_req_mgr_dump_request_def by (intro sys_op_session) (auto simp: sys_op_def split: if_splits)
qed

interpretation destroy: sys_op "cam_req_mgr_destroy_session env h sh" for env h sh
proof
  fix d rc d'
  assume wf: "sys_wf d" and e: "cam_req_mgr_destroy_session env h sh d = Some (rc, d')"
  show "sys_wf d'"
  proof (cases "session_priv h d")
    case (Obj sp)
    then obtain s where "sessions (core d) sp = Some s" by (auto simp: session_priv_def Let_def split: if_splits)
    then show ?thesis using destroy_session_eq(1) [OF wf Obj _ e] by blast
  qed (use wf e in \<open>auto simp: cam_req_mgr_destroy_session_def with_session_def\<close>)
qed

section \<open>Reachable states\<close>

text \<open>
  The state after the core device was initialised over zeroed static memory: no session, no
  work queue.
\<close>

definition sys_init :: "crm_dev \<Rightarrow> bool" where
  "sys_init d \<longleftrightarrow> (\<exists>d0. \<not> core_dev d0 \<and> sessions (core d0) = Map.empty \<and> (\<forall>i. parent (g_links (core d0) i) = 0)
     \<and> link_workq d0 = Map.empty \<and> hdl_wf (crm_hdl_tbl (core d0)) \<and> cam_req_mgr_core_device_init True d0 = (0, d))"

text \<open>
  One call of user space, one callback of a device, an expired watchdog, or one task of a worker.
  A new session lies at an address where no session is. A link is unlinked under its own session.
\<close>

inductive sys_step :: "link_addr \<Rightarrow> crm_dev \<Rightarrow> crm_dev \<Rightarrow> bool" for la :: link_addr where
  sys_create: "sessions (core d) addr = None \<Longrightarrow> sys_step la d (snd (cam_req_mgr_create_session addr rnd d))"
| sys_destroy: "cam_req_mgr_destroy_session env h sh d = Some (rc, d') \<Longrightarrow> sys_step la d d'"
| sys_link: "cam_req_mgr_link env sen le la vi d = Some (r, d') \<Longrightarrow> sys_step la d d'"
| sys_link_v2: "cam_req_mgr_link_v2 env sen le la vi d = Some (r, d') \<Longrightarrow> sys_step la d d'"
| sys_unlink: "session_priv sh d = Obj sp \<Longrightarrow> link_priv la lh d = Obj i \<Longrightarrow> parent (g_links (core d) i) = sp \<Longrightarrow>
    cam_req_mgr_unlink env la sh lh d = Some (rc, d') \<Longrightarrow> sys_step la d d'"
| sys_sched: "cam_req_mgr_schedule_request la sr d = Some (rc, d') \<Longrightarrow> sys_step la d d'"
| sys_sync: "cam_req_mgr_sync_config la sm d = Some (rc, d') \<Longrightarrow> sys_step la d d'"
| sys_flush: "cam_req_mgr_flush_requests la waited fi d = Some (rc, d') \<Longrightarrow> sys_step la d d'"
| sys_control: "cam_req_mgr_link_control env la op n hs d = Some (rc, d') \<Longrightarrow> sys_step la d d'"
| sys_dump: "cam_req_mgr_dump_request env la sh lh req d = Some (rc, d') \<Longrightarrow> sys_step la d d'"
| sys_add: "cam_req_mgr_cb_add_req la ar d = Some (rc, d') \<Longrightarrow> sys_step la d d'"
| sys_err: "cam_req_mgr_cb_notify_err la stale en d = Some (rc, d') \<Longrightarrow> sys_step la d d'"
| sys_stop: "cam_req_mgr_cb_notify_stop la h d = Some (rc, d') \<Longrightarrow> sys_step la d d'"
| sys_trigger: "cam_req_mgr_cb_notify_trigger la tn d = Some (rc, d') \<Longrightarrow> sys_step la d d'"
| sys_timer: "cam_req_mgr_cb_notify_timer la h st d = Some (rc, d') \<Longrightarrow> sys_step la d d'"
| sys_freeze: "sys_step la d (sof_freeze la i d)"
| sys_work: "sys_step la d (work_step env i d)"

inductive_cases sys_stepE: "sys_step la d d'"

lemma session_priv_obj: "session_priv h d = Obj sp \<Longrightarrow> \<exists>s. sessions (core d) sp = Some s"
  by (auto simp: session_priv_def Let_def split: if_splits)

lemma link_call_wf:
  assumes wf: "sys_wf d" and e: "cam_req_mgr_link env sen le la vi d = Some (r, d') \<or> cam_req_mgr_link_v2 env sen le la vi d = Some (r, d')"
  shows "sys_wf d'"
proof -
  have "d' = d \<or> (\<exists>sp. session_priv (vi_session_hdl vi) d = Obj sp \<and> d' = snd (link_session env sen le la vi sp d))"
    using e unfolding cam_req_mgr_link_def cam_req_mgr_link_v2_def
    by (cases "session_priv (vi_session_hdl vi) d") (simp_all split: if_splits, force)
  then show ?thesis using wf link_session_wf [OF wf] session_priv_obj by blast
qed

lemma init_links:
  "own (core (fold init_link is d)) = (\<lambda>i. if i \<in> set is then (False, 0) else fst (own (core d)) i, snd (own (core d)))
    \<and> crm_hdl_tbl (core (fold init_link is d)) = crm_hdl_tbl (core d)
    \<and> link_workq (fold init_link is d) = (\<lambda>i. if i \<in> set is then None else link_workq d i)"
proof (induction "is" arbitrary: d)
  case (Cons i "is")
  have "own (core (init_link i d)) = ((fst (own (core d)))(i := (False, 0)), snd (own (core d)))"
    "crm_hdl_tbl (core (init_link i d)) = crm_hdl_tbl (core d)" "link_workq (init_link i d) = (link_workq d)(i := None)"
    by (simp_all add: init_link_def own_upd_link)
  then show ?case using Cons [of "init_link i d"] by (auto simp: fun_eq_iff)
qed simp

lemma sys_init_wf:
  assumes "sys_init d"
  shows "sys_wf d"
proof -
  obtain d0 where d0: "\<not> core_dev d0" "sessions (core d0) = Map.empty" "\<forall>i. parent (g_links (core d0) i) = 0"
    "link_workq d0 = Map.empty" "hdl_wf (crm_hdl_tbl (core d0))" "cam_req_mgr_core_device_init True d0 = (0, d)"
    using assms by (auto simp: sys_init_def)
  have d: "d = fold init_link [0..<MAXIMUM_LINKS_PER_SESSION] (upd_core (\<lambda>c. c\<lparr>session_head := []\<rparr>) (d0\<lparr>core_dev := True\<rparr>))"
    using d0(1,6) by (simp add: cam_req_mgr_core_device_init_def)
  let ?d1 = "upd_core (\<lambda>c. c\<lparr>session_head := []\<rparr>) (d0\<lparr>core_dev := True\<rparr>)"
  have "own (core ?d1) = (\<lambda>i. (is_used (g_links (core d0) i), 0), Map.empty, [])"
    using d0(2,3) by (simp add: own_def)
  then have "own (core d) = (\<lambda>i. if i < MAXIMUM_LINKS_PER_SESSION then (False, 0) else (is_used (g_links (core d0) i), 0), Map.empty, [])"
    "crm_hdl_tbl (core d) = crm_hdl_tbl (core d0)" "link_workq d = Map.empty"
    using init_links [of "[0..<MAXIMUM_LINKS_PER_SESSION]" ?d1] d0(4) unfolding d by (auto simp: fun_eq_iff)
  then show ?thesis using d0(5) by (simp add: wfdefs owner_ok_def)
qed

interpretation crm_session_sys: invariant_system sys_init "sys_step la" sys_wf for la
proof
  fix d assume "sys_init d" then show "sys_wf d" by (rule sys_init_wf)
next
  fix d d'
  assume wf: "sys_wf d" and "sys_step la d d'"
  from this(2) show "sys_wf d'"
  proof cases
    case (sys_unlink sh sp lh i env rc)
    then show ?thesis using unlink_wf [OF wf] by blast
  qed (erule destroy.keeps [OF wf] schedule.keeps [OF wf] sync_config.keeps [OF wf] flush.keeps [OF wf] control.keeps [OF wf]
      dump.keeps [OF wf] add_req.keeps [OF wf] notify_err.keeps [OF wf] notify_stop.keeps [OF wf] notify_trigger.keeps [OF wf]
      notify_timer.keeps [OF wf]
    | simp add: wf create_session_wf sof_freeze_def sys_wf_queue_task sys_wf_work_step
    | (rule link_call_wf [OF wf], blast))+
qed

text \<open>
  C24: However sessions are created and destroyed, links linked and unlinked under their own
  session, requests scheduled, links paired, flushed and controlled, and however callbacks,
  watchdogs and workers interleave with that: a session counts its links, every link of a session
  is marked as used and names the session as its parent, no link belongs to two sessions or twice
  to one, and the work queue of a link has 60 tasks, each on exactly one of its lists.
\<close>

theorem crm_sessions_wf:
  assumes "reach sys_init (sys_step la) d"
  shows "(\<forall>sp s. sessions (core d) sp = Some s \<longrightarrow> num_links s = card {k. ses_links s k \<noteq> None}
        \<and> (\<forall>k i. ses_links s k = Some i \<longrightarrow> i < MAXIMUM_LINKS_PER_SESSION \<and> is_used (g_links (core d) i) \<and> parent (g_links (core d) i) = sp))
     \<and> (\<forall>sp s k sp' s' k' i. sessions (core d) sp = Some s \<and> sessions (core d) sp' = Some s'
           \<and> ses_links s k = Some i \<and> ses_links s' k' = Some i \<longrightarrow> sp = sp' \<and> k = k')
     \<and> (\<forall>i w. link_workq d i = Some w \<longrightarrow> workq_ok {} w \<and> num_task w = CRM_WORKQ_NUM_TASKS)"
proof -
  have wf: "sys_wf d" by (rule crm_session_sys.reach_inv [OF assms])
  obtain L where L: "L = (\<lambda>k. (is_used (g_links (core d) k), parent (g_links (core d) k)))" "queues_ok d"
    "\<And>sp s. sessions (core d) sp = Some s \<Longrightarrow> entries_ok L sp s"
    by (rule sys_wf_parts [OF wf]) blast
  have e: "i < MAXIMUM_LINKS_PER_SESSION \<and> is_used (g_links (core d) i) \<and> parent (g_links (core d) i) = sp"
    if "sessions (core d) sp = Some s" "ses_links s k = Some i" for sp s k i
    using L(3) [OF that(1)] that(2) by (simp add: entries_ok_def L(1))
  have u: "k = k'" if "sessions (core d) sp = Some s" "ses_links s k = Some i" "ses_links s k' = Some i" for sp s k k' i
    using L(3) [OF that(1)] that(2,3) by (auto simp: entries_ok_def inj_on_def)
  have n: "num_links s = card {k. ses_links s k \<noteq> None}" if "sessions (core d) sp = Some s" for sp s
    using L(3) [OF that] by (simp add: entries_ok_def)
  have two: "sp = sp' \<and> k = k'" if "sessions (core d) sp = Some s" "sessions (core d) sp' = Some s'"
    "ses_links s k = Some i" "ses_links s' k' = Some i" for sp s k sp' s' k' i
  proof -
    have "sp = sp'" using e [OF that(1,3)] e [OF that(2,4)] by simp
    then show ?thesis using u that by auto
  qed
  show ?thesis using e n two L(2) unfolding queues_ok_def by blast
qed

definition boot :: crm_dev where
  "boot = \<lparr>core = demo_crm\<lparr>g_links := (\<lambda>_. demo_fresh\<lparr>parent := 0\<rparr>), crm_hdl_tbl := tbl_demo\<rparr>, link_workq = Map.empty,
     payloads = (\<lambda>_ _. Task_none), jobs = 0, core_dev = False\<rparr>"

definition boot1 :: crm_dev where
  "boot1 = snd (cam_req_mgr_create_session 0x1000 5 (snd (cam_req_mgr_core_device_init True boot)))"

lemma boot_init: "sys_init (snd (cam_req_mgr_core_device_init True boot))"
  unfolding sys_init_def
  by (rule exI [of _ boot]) (simp add: boot_def demo_crm_def tbl_demo_wf cam_req_mgr_core_device_init_def)

lemma boot_sessions: "sessions (core (snd (cam_req_mgr_core_device_init True boot))) = Map.empty"
  using boot_init init_links [of "[0..<MAXIMUM_LINKS_PER_SESSION]"]
  by (simp add: cam_req_mgr_core_device_init_def boot_def own_def demo_crm_def)

theorem crm_sessions_wf_witness:
  "num_links (session_at boot1 0x1000) = card {k. ses_links (session_at boot1 0x1000) k \<noteq> None}"
proof -
  have "reach sys_init (sys_step la) (snd (cam_req_mgr_core_device_init True boot))" for la
    by (rule reach.reach_init, rule boot_init)
  then have r: "reach sys_init (sys_step (\<lambda>_. 0)) boot1"
    unfolding boot1_def by (rule reach.reach_step, intro sys_step.sys_create) (simp add: boot_sessions)
  have "sessions (core boot1) 0x1000 \<noteq> None" by code_simp
  then have "sessions (core boot1) 0x1000 = Some (session_at boot1 0x1000)" by (auto simp: session_at_def)
  with crm_sessions_wf [OF r] show ?thesis by blast
qed

end
