(* ===== verification/Cam_Crm_Async.thy ===== *)
theory Cam_Crm_Async
  imports Cam_Crm_Sys_Props
begin

text \<open>
  Callbacks and worker of one link together: the work queue with its task pool, free list and
  payloads implements a bounded first-in first-out queue of notifications.
\<close>

section \<open>Interface: a machine that implements another step by step\<close>

locale step_refinement =
  fixes abs_of :: "'c \<Rightarrow> 'a"
    and good :: "'c \<Rightarrow> bool"
    and admissible :: "'e \<Rightarrow> bool"
    and cstep :: "'e \<Rightarrow> 'c \<Rightarrow> 'c"
    and astep :: "'e \<Rightarrow> 'a \<Rightarrow> 'a"
  assumes good_step: "good s \<Longrightarrow> admissible e \<Longrightarrow> good (cstep e s)"
    and abs_step: "good s \<Longrightarrow> admissible e \<Longrightarrow> abs_of (cstep e s) = astep e (abs_of s)"
begin

lemma good_run: "good s \<Longrightarrow> list_all admissible es \<Longrightarrow> good (fold cstep es s)"
  by (induction es arbitrary: s) (simp_all add: good_step)

lemma abs_run: "good s \<Longrightarrow> list_all admissible es \<Longrightarrow> abs_of (fold cstep es s) = fold astep es (abs_of s)"
  by (induction es arbitrary: s) (simp_all add: good_step abs_step)

end

section \<open>The specification\<close>

text \<open>A notification arrives, or the worker gets to run.\<close>

datatype link_event = Notify crm_task_payload | Work

text \<open>The manager with the notifications that are waiting, at most \<open>n\<close>; one more is refused.\<close>

fun fifo_step :: "crm_env \<Rightarrow> nat \<Rightarrow> nat \<Rightarrow> link_event \<Rightarrow> crm \<times> crm_task_payload list \<Rightarrow> crm \<times> crm_task_payload list" where
  "fifo_step env i n (Notify p) (c, ps) = (if length ps < n then (c, ps @ [p]) else (c, ps))"
| "fifo_step env i n Work (c, []) = (c, [])"
| "fifo_step env i n Work (c, p # ps) = (run_payload env i p c, ps)"

fun dev_step :: "link_addr \<Rightarrow> crm_env \<Rightarrow> nat \<Rightarrow> link_event \<Rightarrow> crm_dev \<Rightarrow> crm_dev" where
  "dev_step la env i (Notify p) d = snd (queue_task la EBUSY i p d)"
| "dev_step la env i Work d = work_step env i d"

definition waiting :: "nat \<Rightarrow> crm_dev \<Rightarrow> crm \<times> crm_task_payload list" where
  "waiting i d = (core d, map (payloads d i) (process_head (the (link_workq d i)) CRM_TASK_PRIORITY_0))"

text \<open>
  The queue of a link in operation: no task is cancelled, only the first priority is used, and
  each waiting task has a payload and the callback that goes with it.
\<close>

definition in_operation :: "nat \<Rightarrow> nat \<Rightarrow> crm_dev \<Rightarrow> bool" where
  "in_operation n i d \<longleftrightarrow> (\<exists>w. link_workq d i = Some w \<and> workq_ok {} w \<and> job w \<noteq> None \<and> num_task w = n
     \<and> process_head w CRM_TASK_PRIORITY_1 = [] \<and> (\<forall>t. task_cancel (pool w t) \<noteq> 1)
     \<and> (\<forall>t \<in> set (process_head w CRM_TASK_PRIORITY_0).
          payloads d i t \<noteq> Task_none \<and> process_cb (pool w t) = handler_addr (payloads d i t)))"

lemma handler_addr_0 [simp]: "handler_addr p = 0 \<longleftrightarrow> p = Task_none"
  by (cases p) auto

lemma pending_free:
  assumes "workq_ok {} w" "process_head w 1 = []"
  shows "length (empty_head w) + length (process_head w 0) = num_task w"
proof -
  have "distinct (places w)" "set (places w) = {..<num_task w}" using assms(1) by (auto simp: workq_ok_def)
  then have "length (places w) = num_task w" by (metis card_lessThan distinct_card)
  then show ?thesis using assms(2) by (simp add: places_def)
qed

lemma notify_step:
  assumes "in_operation n i d" "p \<noteq> Task_none"
  shows "in_operation n i (snd (queue_task la EBUSY i p d))"
    "waiting i (snd (queue_task la EBUSY i p d)) = fifo_step env i n (Notify p) (waiting i d)"
proof -
  obtain w where w: "link_workq d i = Some w" "workq_ok {} w" "job w \<noteq> None" "num_task w = n" "process_head w 1 = []"
    "\<forall>t. task_cancel (pool w t) \<noteq> 1"
    "\<forall>t \<in> set (process_head w 0). payloads d i t \<noteq> Task_none \<and> process_cb (pool w t) = handler_addr (payloads d i t)"
    using assms(1) by (auto simp: in_operation_def)
  have len: "length (empty_head w) + length (process_head w 0) = n" using pending_free [OF w(2,5)] w(4) by simp
  have "in_operation n i (snd (queue_task la EBUSY i p d))
    \<and> waiting i (snd (queue_task la EBUSY i p d)) = fifo_step env i n (Notify p) (waiting i d)"
  proof (cases "empty_head w")
    case Nil
    then have "snd (queue_task la EBUSY i p d) = d"
      using w(1) by (simp add: queue_task_def cam_req_mgr_workq_get_task_def set_workq_def fun_upd_idem)
    then show ?thesis using assms(1) w(1) len Nil by (simp add: waiting_def)
  next
    case (Cons t ts)
    let ?d = "snd (queue_task la EBUSY i p d)"
    let ?f = "\<lambda>r. r\<lparr>process_cb := handler_addr p, task_priv := la i, task_priority := 0\<rparr>"
    define w' where "w' = w\<lparr>free_cnt := free_cnt w - 1, empty_head := ts, pool := (pool w)(t := ?f (pool w t)),
        process_head := (process_head w)(0 := process_head w 0 @ [t]), pending_cnt := pending_cnt w + 1, work_queued := True\<rparr>"
    have d: "?d = (set_workq i (Some w') d)\<lparr>payloads := (payloads d)(i := (payloads d i)(t := p))\<rparr>"
      using w(1,3,6) Cons
      by (auto simp: queue_task_def cam_req_mgr_workq_get_task_def cam_req_mgr_workq_enqueue_task_def upd_task_def w'_def Let_def)
    have t: "t \<notin> set (process_head w 0)" using w(2) Cons by (auto simp: workq_ok_def places_def)
    have "workq_ok {} w'" using w(2,5) Cons by (auto simp: w'_def workq_ok_def places_def)
    moreover have "\<forall>u. task_cancel (pool w' u) \<noteq> 1" using w(6) by (simp add: w'_def)
    ultimately have ok: "in_operation n i ?d"
      using w(3-5,7) assms(2) t by (auto simp: in_operation_def d w'_def)
    have "map ((payloads d i)(t := p)) (process_head w 0) = map (payloads d i) (process_head w 0)" using t by auto
    moreover have "length (process_head w 0) < n" using len Cons by simp
    ultimately show ?thesis using ok w(1) by (simp add: waiting_def d w'_def)
  qed
  then show "in_operation n i (snd (queue_task la EBUSY i p d))"
    "waiting i (snd (queue_task la EBUSY i p d)) = fifo_step env i n (Notify p) (waiting i d)"
    by blast+
qed

lemma worker_step:
  assumes "in_operation n i d"
  shows "in_operation n i (work_step env i d)" "waiting i (work_step env i d) = fifo_step env i n Work (waiting i d)"
proof -
  obtain w where w: "link_workq d i = Some w" "workq_ok {} w" "job w \<noteq> None" "num_task w = n" "process_head w 1 = []"
    "\<forall>t. task_cancel (pool w t) \<noteq> 1"
    "\<forall>t \<in> set (process_head w 0). payloads d i t \<noteq> Task_none \<and> process_cb (pool w t) = handler_addr (payloads d i t)"
    using assms by (auto simp: in_operation_def)
  have "in_operation n i (work_step env i d) \<and> waiting i (work_step env i d) = fifo_step env i n Work (waiting i d)"
  proof (cases "process_head w 0")
    case Nil
    then show ?thesis using assms w(1,5) by (simp add: work_step_def waiting_def)
  next
    case (Cons t ts)
    let ?w = "cam_req_mgr_process_task (\<lambda>_ w. w) t (take_task 0 w)"
    have cb: "process_cb (pool w t) \<noteq> 0" using w(7) Cons by auto
    have t: "t \<notin> set ts" "t \<notin> set (empty_head w)" "\<forall>k. k \<noteq> 0 \<and> k \<noteq> 1 \<longrightarrow> process_head w k = []"
      using w(2) Cons by (auto simp: workq_ok_def places_def)
    have pw: "process_head ?w 0 = ts" "process_head ?w 1 = []" "pool ?w = (pool w)(t := (pool w t)\<lparr>task_cancel := 0, process_cb := 0, task_priv := 0\<rparr>)"
      using Cons w(5) t(1)
      by (simp_all add: cam_req_mgr_process_task_def cam_req_mgr_workq_put_task_def list_del_task_def take_task_def cb Let_def)
    have ok: "workq_ok {} ?w" by (rule take_task_ok [OF w(2) _ Cons]) simp
    have d: "work_step env i d = set_workq i (Some ?w) (upd_core (run_payload env i (payloads d i t)) d)"
      using w(1) Cons cb by (simp add: work_step_def run_task_def take_task_def)
    have cancel: "\<forall>u. task_cancel (pool ?w u) \<noteq> 1" using w(6) by (simp add: pw)
    have "\<forall>u \<in> set ts. payloads d i u \<noteq> Task_none \<and> process_cb (pool ?w u) = handler_addr (payloads d i u)"
      using w(7) Cons t(1) by (auto simp: pw)
    then have "in_operation n i (work_step env i d)"
      using ok w(3,4) pw(1,2) cancel by (auto simp: in_operation_def d process_task_num take_task_def)
    then show ?thesis using w(1) Cons pw(1) by (simp add: waiting_def d)
  qed
  then show "in_operation n i (work_step env i d)" "waiting i (work_step env i d) = fifo_step env i n Work (waiting i d)"
    by blast+
qed

interpretation link_fifo: step_refinement "waiting i" "in_operation n i" "\<lambda>e. e \<noteq> Notify Task_none" "dev_step la env i" "fifo_step env i n"
  for i n la env
proof
  fix d e
  assume g: "in_operation n i d" and e: "e \<noteq> Notify Task_none"
  show "in_operation n i (dev_step la env i e d)"
    using notify_step(1) [OF g] worker_step(1) [OF g] e by (cases e) auto
  show "waiting i (dev_step la env i e d) = fifo_step env i n e (waiting i d)"
    using notify_step(2) [OF g] worker_step(2) [OF g] e by (cases e) auto
qed

text \<open>
  C25: The work queue of a link refines a bounded first-in first-out queue: for every interleaving
  of notifications from the devices with rounds of the worker, the state of the manager and the
  notifications that are waiting are those of the specification, in which a notification is
  appended unless 60 are waiting, and the worker runs the handler of the oldest one. So handlers
  run exactly once per accepted notification and in the order of arrival.
\<close>

theorem crm_worker_refines_fifo:
  assumes "in_operation CRM_WORKQ_NUM_TASKS i d" "Notify Task_none \<notin> set es"
  shows "waiting i (fold (dev_step la env i) es d) = fold (fifo_step env i CRM_WORKQ_NUM_TASKS) es (waiting i d)"
  using link_fifo.abs_run [OF assms(1)] assms(2) by (auto simp: list_all_iff)

text \<open>Link 0 of the demonstration with a new work queue.\<close>

definition busy_dev :: crm_dev where
  "busy_dev = \<lparr>core = demo_c1, link_workq = (\<lambda>_. fst (snd (cam_req_mgr_workq_create (\<lambda>_. True) True CRM_WORKQ_NUM_TASKS 0 3 None 0))),
     payloads = (\<lambda>_ _. Task_none), jobs = 1, core_dev = True\<rparr>"

lemma put_task_cancel: "\<forall>t. task_cancel (pool w t) \<noteq> 1 \<Longrightarrow> \<forall>t. task_cancel (pool (cam_req_mgr_workq_put_task u w) t) \<noteq> 1"
  by (simp add: cam_req_mgr_workq_put_task_def list_del_task_def)

lemma fold_put_cancel: "\<forall>t. task_cancel (pool w t) \<noteq> 1 \<Longrightarrow> \<forall>t. task_cancel (pool (fold cam_req_mgr_workq_put_task us w) t) \<noteq> 1"
  by (induction us arbitrary: w) (simp_all add: put_task_cancel)

definition blank_queue :: "nat \<Rightarrow> cam_req_mgr_core_workq" where
  "blank_queue n = \<lparr>job = Some (18, 1), in_irq = 0, pending_cnt = 0, free_cnt = 0, process_head = (\<lambda>_. []), empty_head = [],
      pool = (\<lambda>_. zero_task), num_task = n, work_queued = False, wq_calls = []\<rparr>"

lemma new_queue_eq:
  "cam_req_mgr_workq_create (\<lambda>_. True) True n 0 3 None 0 = (0, Some (fold cam_req_mgr_workq_put_task [0..<n] (blank_queue n)), 1)"
  by (simp add: cam_req_mgr_workq_create_def Let_def blank_queue_def)

lemma new_queue_empty:
  "process_head (the (fst (snd (cam_req_mgr_workq_create (\<lambda>_. True) True n 0 3 None 0)))) k = []"
proof -
  have "\<forall>i. process_head (blank_queue n) i = []" "empty_head (blank_queue n) = [0..<0]" "free_cnt (blank_queue n) = int 0"
    "pending_cnt (blank_queue n) = 0" by (simp_all add: blank_queue_def)
  from fold_put [OF this, of n] show ?thesis by (simp add: new_queue_eq Let_def)
qed

lemma new_queue_in_operation:
  assumes "link_workq d i = fst (snd (cam_req_mgr_workq_create (\<lambda>_. True) True n 0 3 None 0))"
  shows "in_operation n i d"
proof -
  let ?w = "fold cam_req_mgr_workq_put_task [0..<n] (blank_queue n)"
  have "\<forall>t. task_cancel (pool ?w t) \<noteq> 1" by (rule fold_put_cancel) (simp add: blank_queue_def zero_task_def)
  moreover have "process_head ?w k = []" for k using new_queue_empty [of n k] by (simp add: new_queue_eq)
  ultimately show ?thesis
    using workq_ok_create [OF new_queue_eq [of n]] assms by (simp add: in_operation_def new_queue_eq)
qed

theorem crm_worker_refines_fifo_witness:
  "core (fold (dev_step (\<lambda>_. 8) demo_env 0) [Notify (Task_add demo_add), Notify (Task_trigger demo_sof), Work, Work] busy_dev)
     = run_payload demo_env 0 (Task_trigger demo_sof) (run_payload demo_env 0 (Task_add demo_add) demo_c1)"
proof -
  have op: "in_operation CRM_WORKQ_NUM_TASKS 0 busy_dev" by (rule new_queue_in_operation) (simp add: busy_dev_def)
  let ?es = "[Notify (Task_add demo_add), Notify (Task_trigger demo_sof), Work, Work]"
  have "process_head (the (link_workq busy_dev 0)) 0 = []"
    using new_queue_empty [of CRM_WORKQ_NUM_TASKS] by (simp add: busy_dev_def)
  then have w: "waiting 0 busy_dev = (demo_c1, [])" by (simp add: waiting_def busy_dev_def)
  have "waiting 0 (fold (dev_step (\<lambda>_. 8) demo_env 0) ?es busy_dev) = fold (fifo_step demo_env 0 CRM_WORKQ_NUM_TASKS) ?es (waiting 0 busy_dev)"
    by (rule crm_worker_refines_fifo [OF op]) simp
  then have "fst (waiting 0 (fold (dev_step (\<lambda>_. 8) demo_env 0) ?es busy_dev))
      = run_payload demo_env 0 (Task_trigger demo_sof) (run_payload demo_env 0 (Task_add demo_add) demo_c1)"
    unfolding w by simp
  then show ?thesis by (simp add: waiting_def)
qed

end
