(* ===== verification/Cam_Crm_Life.thy ===== *)
theory Cam_Crm_Life
  imports Cam_Crm_Async
begin

text \<open>Linking that fails, unlinking under the wrong session, and requests after a flush.\<close>

section \<open>A link that fails is undone\<close>

text \<open>What the handle table answers after a device handle was created and destroyed again.\<close>

lemma create_destroy_lookup:
  assumes wf: "hdl_wf tbl" and c: "cam_create_device_hdl rnd hdat tbl = (h, tbl1)" and h: "0 \<le> h"
  shows "cam_get_device_priv x (snd (cam_destroy_device_hdl h tbl1)) = cam_get_device_priv x tbl"
proof (cases tbl)
  case None
  then show ?thesis using c h by (simp add: cam_create_device_hdl_def)
next
  case (Some t)
  have ok: "hdl_ok t" using wf Some by (simp add: hdl_wf_def)
  show ?thesis
  proof (rule create_device_cases [OF ok, of rnd hdat])
    assume "cam_create_device_hdl rnd hdat (Some t) = (- ENOSR, Some t)"
    then show ?thesis using c h Some by simp
  next
    fix idx
    assume i: "idx < CAM_REQ_MGR_MAX_HANDLES_V2" "hdl_state (hdl t idx) = HDL_FREE"
      and e: "cam_create_device_hdl rnd hdat (Some t) =
         (sint (hdl_value (new_device_row rnd hdat idx)), Some (installed idx (new_device_row rnd hdat idx) t))"
    let ?t = "installed idx (new_device_row rnd hdat idx) t"
    have t1: "tbl1 = Some ?t" "h = sint (hdl_value (hdl ?t idx))" using c e Some by (simp_all add: installed_def)
    have row: "hdl_state (hdl ?t idx) = HDL_ACTIVE" "hdl_type (hdl ?t idx) = HDL_TYPE_DEV"
      by (simp_all add: installed_def new_device_row_def Let_def)
    have "cam_destroy_device_hdl h tbl1 = (0, Some (?t
       \<lparr>hdl := (hdl ?t)(idx := (hdl ?t idx)\<lparr>hdl_state := HDL_FREE, hdl_ops := 0, hdl_priv := 0\<rparr>),
        hdl_bitmap := (hdl_bitmap ?t)(idx := False)\<rparr>))"
      using lookup_active(3) [OF hdl_ok_installed(1) [OF ok i(1)] row(1) t1(2)] row(2) t1(1) by (simp add: cam_destroy_device_hdl_def)
    then show ?thesis
      using i(2) Some by (simp add: cam_get_device_priv_def installed_def Let_def)
  qed
qed

lemma create_failed_same:
  assumes "cam_create_device_hdl rnd hdat tbl = (h, tbl1)" "h < 0" "hdl_wf tbl"
  shows "tbl1 = tbl"
proof (cases tbl)
  case (Some t)
  have ok: "hdl_ok t" using assms(3) Some by (simp add: hdl_wf_def)
  show ?thesis
  proof (rule create_device_cases [OF ok, of rnd hdat])
    fix idx
    assume "cam_create_device_hdl rnd hdat (Some t) =
         (sint (hdl_value (new_device_row rnd hdat idx)), Some (installed idx (new_device_row rnd hdat idx) t))"
    then have "h = sint (hdl_value (new_device_row rnd hdat idx))" using assms(1) Some by simp
    moreover assume "idx < CAM_REQ_MGR_MAX_HANDLES_V2"
    ultimately show ?thesis
      using row_good_new_rows(1) [of idx rnd hdat] assms(2) by (simp add: row_good_def new_device_row_def)
  qed (use assms(1) Some in simp)
qed (use assms(1) in \<open>simp add: cam_create_device_hdl_def\<close>)

text \<open>The exact effect of giving a link back.\<close>

lemma unreserve_link_effect:
  assumes s: "sessions (core d) sp = Some s" "num_links s \<noteq> 0" and lim: "\<And>k i. ses_links s k = Some i \<Longrightarrow> k < MAXIMUM_LINKS_PER_SESSION"
  shows "sessions (core (unreserve_link sp i d)) = (sessions (core d))(sp \<mapsto>
      s\<lparr>ses_links := clear_entry i (ses_links s), num_links := num_links s - 1\<rparr>)"
    "is_used (g_links (core (unreserve_link sp i d)) k) = (k \<noteq> i \<and> is_used (g_links (core d) k))"
    "crm_hdl_tbl (core (unreserve_link sp i d)) = crm_hdl_tbl (core d)"
    "session_head (core (unreserve_link sp i d)) = session_head (core d)"
proof -
  define lc where "lc = fold (unreserve_entry i) [0..<MAXIMUM_LINKS_PER_SESSION] (ses_links s, core d)"
  have f: "ids (snd lc) = ids (core d)" "fst lc = clear_entry i (ses_links s)"
    using unreserve_fold_frame [of i "[0..<MAXIMUM_LINKS_PER_SESSION]" "(ses_links s, core d)"] lim
    by (auto simp: lc_def fun_eq_iff clear_entry_def simp del: upt_eq_Cons_conv)
  have i: "sessions (snd lc) = sessions (core d)" "crm_hdl_tbl (snd lc) = crm_hdl_tbl (core d)" "session_head (snd lc) = session_head (core d)"
    "is_used (g_links (snd lc) k) = is_used (g_links (core d) k)" for k
    using f(1) by (auto simp: ids_def lid_def fun_eq_iff)
  have e: "unreserve_link sp i d = free_link i (upd_session sp
      (\<lambda>s. s\<lparr>ses_links := clear_entry i (ses_links s), num_links := num_links s - 1\<rparr>)
      (upd_core (\<lambda>_. upd_link i (\<lambda>l. l\<lparr>sync_link := None\<rparr>) (snd lc)) d))"
    using s f(2) i(1)
    by (simp add: unreserve_link_def session_at_def lc_def [symmetric] split_beta Let_def upd_session_def upd_core_def)
  show "sessions (core (unreserve_link sp i d)) = (sessions (core d))(sp \<mapsto>
      s\<lparr>ses_links := clear_entry i (ses_links s), num_links := num_links s - 1\<rparr>)"
    "crm_hdl_tbl (core (unreserve_link sp i d)) = crm_hdl_tbl (core d)"
    "session_head (core (unreserve_link sp i d)) = session_head (core d)"
    "is_used (g_links (core (unreserve_link sp i d)) k) = (k \<noteq> i \<and> is_used (g_links (core d) k))"
    using i s(1) by (auto simp: e free_link_def)
qed

lemma unreserve_link_workq: "num_links (session_at d sp) \<noteq> 0 \<Longrightarrow> link_workq (unreserve_link sp i d) = (link_workq d)(i := None)"
  by (simp add: unreserve_link_def Let_def split_beta free_link_parts)

text \<open>A link that was taken, and is given back in a state with the same sessions and links, is free as before.\<close>

lemma give_back:
  assumes s: "sessions (core d) sp = Some s" "entries_ok L sp s"
    and j: "\<not> is_used (g_links (core d) j)" "ses_links s k = None" "k < MAXIMUM_LINKS_PER_SESSION"
      "\<And>k. ses_links s k \<noteq> Some j"
    and e: "own (core e) = own (core (taken_link sp j k d))" "link_workq e = link_workq (taken_link sp j k d)"
  shows "sessions (core (unreserve_link sp j e)) = sessions (core d)"
    "is_used (g_links (core (unreserve_link sp j e)) x) = is_used (g_links (core d) x)"
    "crm_hdl_tbl (core (unreserve_link sp j e)) = crm_hdl_tbl (core e)"
    "x \<noteq> j \<Longrightarrow> link_workq (unreserve_link sp j e) x = link_workq d x"
proof -
  let ?s = "s\<lparr>ses_links := (ses_links s)(k := Some j), num_links := num_links s + 1\<rparr>"
  have o: "sessions (core e) = (sessions (core d))(sp \<mapsto> ?s)" "is_used (g_links (core e) x) = (x = j \<or> is_used (g_links (core d) x))"
    using own_eqD [OF e(1)] s(1) by (auto simp: taken_link_def upd_link_def)
  have es: "sessions (core e) sp = Some ?s" "num_links ?s \<noteq> 0" using o(1) by simp_all
  have lim: "ses_links ?s k' = Some i \<Longrightarrow> k' < MAXIMUM_LINKS_PER_SESSION" for k' i
    using s(2) j(3) by (auto simp: entries_ok_def split: if_splits)
  have back1: "?s\<lparr>ses_links := clear_entry j (ses_links ?s), num_links := num_links ?s - 1\<rparr> = s"
    using j(2,4) by (cases s) (auto simp: clear_entry_def fun_eq_iff)
  note u = unreserve_link_effect [OF es lim]
  show "sessions (core (unreserve_link sp j e)) = sessions (core d)"
    using u(1) [where i = j] s(1) unfolding back1 o(1) by (simp add: fun_upd_idem)
  show "is_used (g_links (core (unreserve_link sp j e)) x) = is_used (g_links (core d) x)"
    using u(2) [where i = j and k = x] j(1) o(2) by auto
  show "crm_hdl_tbl (core (unreserve_link sp j e)) = crm_hdl_tbl (core e)" by (rule u(3))
  show "link_workq (unreserve_link sp j e) x = link_workq d x" if "x \<noteq> j"
    using unreserve_link_workq [of e sp j] es e(2) that by (simp add: session_at_def taken_link_def)
qed

lemma unused_no_entry:
  assumes "sys_wf d" "\<not> is_used (g_links (core d) j)" "sessions (core d) sp = Some s"
  shows "ses_links s k \<noteq> Some j"
proof -
  obtain L where "owner_ok (L, sessions (core d), session_head (core d))"
    "L = (\<lambda>k. (is_used (g_links (core d) k), parent (g_links (core d) k)))"
    by (rule sys_wf_parts [OF assms(1)])
  then show ?thesis using owner_unused(2) [of L _ _ j sp s k] assms(2,3) by simp
qed

lemma link_session_failed:
  assumes wf: "sys_wf d" and s: "sessions (core d) sp = Some s" and q: "in_q_alloc le"
    and e: "link_session env sen le la vi sp d = ((rc, h), d')" and rc: "rc < 0"
  shows "sessions (core d') = sessions (core d)"
    "is_used (g_links (core d') x) = is_used (g_links (core d) x)"
    "cam_get_device_priv y (crm_hdl_tbl (core d')) = cam_get_device_priv y (crm_hdl_tbl (core d))"
    "is_used (g_links (core d) x) \<Longrightarrow> link_workq d' x = link_workq d x"
proof -
  obtain L where es: "entries_ok L sp s" by (rule sys_wf_parts [OF wf]) (use s in blast)
  have "sessions (core d') = sessions (core d) \<and> is_used (g_links (core d') x) = is_used (g_links (core d) x)
    \<and> cam_get_device_priv y (crm_hdl_tbl (core d')) = cam_get_device_priv y (crm_hdl_tbl (core d))
    \<and> (is_used (g_links (core d) x) \<longrightarrow> link_workq d' x = link_workq d x)"
  proof (rule reserve_link_cases [OF s es])
    assume "reserve_link sp True d = (None, d)"
    then show ?thesis using q e by (simp add: link_session_def)
  next
    fix j k
    assume g: "reserve_link sp True d = (Some j, taken_link sp j k d)" "j < MAXIMUM_LINKS_PER_SESSION"
      "\<not> is_used (g_links (core d) j)" "k < MAXIMUM_LINKS_PER_SESSION" "ses_links s k = None"
    define d1 where "d1 = taken_link sp j k d"
    note p = taken_link_parts [OF s, of j k, folded d1_def]
    note gb = give_back [OF s es g(3,5,4) unused_no_entry [OF wf g(3) s], folded d1_def]
    have jx: "is_used (g_links (core d) x) \<Longrightarrow> x \<noteq> j" using g(3) by auto
    have w1: "sys_wf d1" unfolding d1_def by (rule taken_link_wf [OF wf s g(2-5)])
    obtain h1 tbl where h: "cam_create_device_hdl (hdl_rnd le) \<lparr>cd_session_hdl = vi_session_hdl vi, cd_dev_id = CAM_CRM,
        cd_ops = 0, cd_priv = la j\<rparr> (crm_hdl_tbl (core d)) = (h1, tbl)" by (metis prod.exhaust)
    define d2 where "d2 = upd_core (\<lambda>c. upd_link j (\<lambda>l. l\<lparr>link_hdl := h1\<rparr>) (c\<lparr>crm_hdl_tbl := tbl\<rparr>)) d1"
    define d3 where "d3 = upd_core (upd_link j (\<lambda>l. l\<lparr>last_flush_id := 0,
        l_dev := (if subdev_alloc le then replicate (vi_num_devices vi) zero_dev else [])\<rparr>)) d2"
    have o: "own (core d2) = own (core d1)" "own (core d3) = own (core d1)" "link_workq d2 = link_workq d1" "link_workq d3 = link_workq d1"
      "crm_hdl_tbl (core d2) = tbl" "crm_hdl_tbl (core d3) = tbl" "link_hdl (g_links (core d3) j) = h1"
      by (simp_all add: d2_def d3_def)
    obtain r4 d4 where l: "link_devices env sen le vi j d3 = (r4, d4)" by (metis prod.exhaust)
    have q3: "queues_ok d3" "link_workq d3 j = None" using w1 p o by (simp_all add: wfdefs)
    note f = link_devices_frame [OF q3 l]
    have o4: "own (core d4) = own (core d1)" "crm_hdl_tbl (core d4) = tbl" "link_hdl (g_links (core d4) j) = h1"
      "r4 < 0 \<Longrightarrow> link_workq d4 = link_workq d1"
      using own_ids [OF f(1)] f(1,3) o by (auto simp: ids_def lid_def fun_eq_iff)
    have undo: ?thesis if u: "d' = undo_link sp j e" "own (core e) = own (core d1)" "link_workq e = link_workq d1"
      "crm_hdl_tbl (core e) = tbl" "link_hdl (g_links (core e) j) = h1" "0 \<le> h1" for e
    proof -
      define e1 where "e1 = upd_core (\<lambda>c. c\<lparr>crm_hdl_tbl := snd (cam_destroy_device_hdl (link_hdl (g_links c j)) (crm_hdl_tbl c))\<rparr>) e"
      have e1: "own (core e1) = own (core d1)" "link_workq e1 = link_workq d1"
        "crm_hdl_tbl (core e1) = snd (cam_destroy_device_hdl h1 tbl)" "d' = unreserve_link sp j e1"
        using u by (simp_all add: e1_def undo_link_def)
      show ?thesis
        using gb [OF e1(1,2)] e1(3,4) jx create_destroy_lookup [OF _ h u(6), of y] wf by (simp add: sys_wf_def)
    qed
    have "link_session env sen le la vi sp d =
        (if h1 < 0 then ((h1, vi_link_hdl vi), unreserve_link sp j d2)
         else if \<not> subdev_alloc le then ((- ENOMEM, - 1), undo_link sp j d3)
         else if r4 < 0 then ((r4, - 1), undo_link sp j d4) else ((r4, h1), d4))"
      using q g(1) h l p(4) by (simp add: link_session_def d1_def [symmetric] d2_def [symmetric] d3_def [symmetric] Let_def)
    then consider "h1 < 0" "d' = unreserve_link sp j d2" | "0 \<le> h1" "d' = undo_link sp j d3"
      | "0 \<le> h1" "r4 < 0" "d' = undo_link sp j d4"
      using e rc by (auto split: if_splits)
    then show ?thesis
    proof cases
      case 1
      have "cam_get_device_priv y tbl = cam_get_device_priv y (crm_hdl_tbl (core d))"
        using create_failed_same [OF h 1(1)] wf by (simp add: sys_wf_def)
      then show ?thesis using gb [where e = d2] o jx 1 by simp
    qed (use undo o o4 in blast)+
  qed
  then show "sessions (core d') = sessions (core d)" "is_used (g_links (core d') x) = is_used (g_links (core d) x)"
    "cam_get_device_priv y (crm_hdl_tbl (core d')) = cam_get_device_priv y (crm_hdl_tbl (core d))"
    "is_used (g_links (core d) x) \<Longrightarrow> link_workq d' x = link_workq d x" by blast+
qed

text \<open>
  C26: A call to link devices that fails, with the queue allocated, leaves no trace: the sessions and
  their lists of links, the links in use, the work queues of the links in use and every answer of
  the handle table are as before, wherever it failed: no link or no handle free, no memory for the
  devices, a device that refuses, no work queue, or no memory for the payloads.
\<close>

theorem crm_link_failure_undone:
  assumes "reach sys_init (sys_step la) d" "in_q_alloc le" "cam_req_mgr_link env sen le la vi d = Some ((rc, h), d')" "rc < 0"
  shows "sessions (core d') = sessions (core d)
     \<and> (\<forall>i. is_used (g_links (core d') i) = is_used (g_links (core d) i))
     \<and> (\<forall>x. cam_get_device_priv x (crm_hdl_tbl (core d')) = cam_get_device_priv x (crm_hdl_tbl (core d)))
     \<and> (\<forall>i. is_used (g_links (core d) i) \<longrightarrow> link_workq d' i = link_workq d i)"
proof -
  have wf: "sys_wf d" by (rule crm_session_sys.reach_inv [OF assms(1)])
  have "d' = d \<or> (\<exists>sp. session_priv (vi_session_hdl vi) d = Obj sp \<and> link_session env sen le la vi sp d = ((rc, h), d'))"
    using assms(3) unfolding cam_req_mgr_link_def
    by (cases "session_priv (vi_session_hdl vi) d") (auto split: if_splits)
  then consider "d' = d" | sp s where "sessions (core d) sp = Some s" "link_session env sen le la vi sp d = ((rc, h), d')"
    using session_priv_obj by blast
  then show ?thesis
  proof cases
    case 2
    show ?thesis using link_session_failed [OF wf 2(1) assms(2) 2(2) assms(4)] by blast
  qed simp
qed

definition poor_env :: link_env where
  "poor_env = \<lparr>in_q_alloc = True, hdl_rnd = 9, subdev_alloc = False, wq_kz = (\<lambda>_. True), wq_job = True, payload_at = (\<lambda>_. 8)\<rparr>"

definition demo_la :: link_addr where
  "demo_la i = 0x2000 + of_nat i * 0x400"

lemma boot1_reach: "reach sys_init (sys_step la) boot1"
proof -
  have "reach sys_init (sys_step la) (snd (cam_req_mgr_core_device_init True boot))"
    by (rule reach.reach_init, rule boot_init)
  then show ?thesis
    unfolding boot1_def by (rule reach.reach_step, intro sys_step.sys_create) (simp add: boot_sessions)
qed

lemma poor_link_fails:
  "map_option fst (cam_req_mgr_link demo_env demo_sen poor_env demo_la (demo_vi\<lparr>vi_session_hdl := 328193\<rparr>) boot1) = Some (- ENOMEM, - 1)"
  by code_simp

theorem crm_link_failure_undone_witness:
  "\<exists>d'. cam_req_mgr_link demo_env demo_sen poor_env demo_la (demo_vi\<lparr>vi_session_hdl := 328193\<rparr>) boot1 = Some ((- ENOMEM, - 1), d')
     \<and> sessions (core d') = sessions (core boot1)"
proof -
  obtain d' where e: "cam_req_mgr_link demo_env demo_sen poor_env demo_la (demo_vi\<lparr>vi_session_hdl := 328193\<rparr>) boot1 = Some ((- ENOMEM, - 1), d')"
    using poor_link_fails by auto
  have "in_q_alloc poor_env" by (simp add: poor_env_def)
  from crm_link_failure_undone [OF boot1_reach this e] e show ?thesis by simp
qed

section \<open>Requests after a flush\<close>

lemma flush_all_last_id:
  "fi_flush_type fi = CAM_REQ_MGR_FLUSH_TYPE_ALL \<Longrightarrow>
     last_flush_id (g_links (snd (cam_req_mgr_process_flush_req env i fi c)) i) = of_int (fi_req_id fi)"
  by (simp add: cam_req_mgr_process_flush_req_def Let_def split_beta flush_req_slot_def upd_link_def upd_q_def emit_def)

text \<open>
  The request id of a flush of all requests does matter: once the worker has run it, scheduling a
  request with an id up to the low 32 bits of that id is refused with \<open>EBADR\<close> and changes nothing.
\<close>

theorem crm_flush_all_blocks_older:
  assumes "link_workq d i = Some w" "process_head w CRM_TASK_PRIORITY_0 = t # ts" "process_cb (pool w t) \<noteq> 0"
    and "payloads d i t = Task_flush fi" "fi_flush_type fi = CAM_REQ_MGR_FLUSH_TYPE_ALL"
    and "link_priv la (sr_link_hdl sr) d = Obj i" "parent (g_links (core d) i) \<noteq> 0" "sr_req_id sr \<le> fi_req_id fi mod 2 ^ 32"
  shows "cam_req_mgr_schedule_request la sr (work_step env i d) = Some (- EBADR, work_step env i d)"
proof -
  let ?d = "work_step env i d"
  have r: "?d = run_task env i t (take_task CRM_TASK_PRIORITY_0 w) d" using assms(1,2) by (simp add: work_step_def)
  have "core ?d = snd (cam_req_mgr_process_flush_req env i fi (core d))"
    using assms(3,4) by (simp add: r run_task_def take_task_def run_payload_def)
  then have "last_flush_id (g_links (core ?d) i) = of_int (fi_req_id fi)" using flush_all_last_id [OF assms(5)] by simp
  then have "sr_req_id sr \<le> uint (last_flush_id (g_links (core ?d) i))" using assms(8) by (simp add: uint_word_of_int)
  moreover have "ids (core ?d) = ids (core d)" by simp
  then have "crm_hdl_tbl (core ?d) = crm_hdl_tbl (core d)" "parent (g_links (core ?d) i) = parent (g_links (core d) i)"
    by (auto simp: ids_def lid_def fun_eq_iff)
  ultimately show ?thesis
    using assms(6,7) by (simp add: cam_req_mgr_schedule_request_def with_link_def link_priv_def)
qed

text \<open>Link 1 of session \<open>0x1000\<close> with a flush of all requests up to 7 waiting on its queue.\<close>

definition flush_dev :: crm_dev where
  "flush_dev = boot1\<lparr>
     core := (core boot1)\<lparr>g_links := (\<lambda>_. demo_fresh), crm_hdl_tbl :=
       Some (the demo_tbl\<lparr>hdl := (hdl (the demo_tbl))(1 := (demo_row 0x101)\<lparr>hdl_priv := demo_la 1\<rparr>)\<rparr>)\<rparr>,
     link_workq := [1 \<mapsto> (blank_queue 1)\<lparr>process_head := (\<lambda>p. if p = 0 then [0] else []),
       pool := (\<lambda>_. zero_task\<lparr>process_cb := 6\<rparr>), pending_cnt := 1\<rparr>],
     payloads := (\<lambda>_ _. Task_flush \<lparr>fi_session_hdl = 7, fi_link_hdl = 0x101, fi_flush_type = 0, fi_req_id = 7\<rparr>)\<rparr>"

definition late_sr :: cam_req_mgr_sched_request where
  "late_sr = \<lparr>sr_session_hdl = 7, sr_link_hdl = 0x101, sr_bubble_enable = 1, sr_sync_mode = 0, sr_additional_timeout = 0, sr_req_id = 7\<rparr>"

theorem crm_flush_all_blocks_older_witness:
  "cam_req_mgr_schedule_request demo_la late_sr (work_step demo_env 1 flush_dev) = Some (- EBADR, work_step demo_env 1 flush_dev)"
proof (rule crm_flush_all_blocks_older)
  show "link_workq flush_dev 1 = Some (the (link_workq flush_dev 1))" by (simp add: flush_dev_def)
  show "process_head (the (link_workq flush_dev 1)) CRM_TASK_PRIORITY_0 = 0 # []" by (simp add: flush_dev_def)
  show "process_cb (pool (the (link_workq flush_dev 1)) 0) \<noteq> 0" by (simp add: flush_dev_def)
  show "payloads flush_dev 1 0 = Task_flush \<lparr>fi_session_hdl = 7, fi_link_hdl = 0x101, fi_flush_type = 0, fi_req_id = 7\<rparr>"
    by (simp add: flush_dev_def)
  show "link_priv demo_la (sr_link_hdl late_sr) flush_dev = Obj 1" by code_simp
qed (simp_all add: flush_dev_def demo_fresh_def late_sr_def)

section \<open>Unlinking under another session\<close>

lemma unreserve_other:
  assumes "num_links (session_at d sp) \<noteq> 0" "sp' \<noteq> sp"
  shows "sessions (core (unreserve_link sp i d)) sp' = sessions (core d) sp'"
    "\<not> is_used (g_links (core (unreserve_link sp i d)) i)"
    "map_option num_links (sessions (core (unreserve_link sp i d)) sp) = map_option (\<lambda>s. num_links s - 1) (sessions (core d) sp)"
proof -
  define lc where "lc = fold (unreserve_entry i) [0..<MAXIMUM_LINKS_PER_SESSION] (ses_links (session_at d sp), core d)"
  have f: "sessions (snd lc) = sessions (core d)"
    using unreserve_fold_frame [of i "[0..<MAXIMUM_LINKS_PER_SESSION]" "(ses_links (session_at d sp), core d)"]
    by (simp add: lc_def ids_def)
  show "sessions (core (unreserve_link sp i d)) sp' = sessions (core d) sp'"
    "\<not> is_used (g_links (core (unreserve_link sp i d)) i)"
    "map_option num_links (sessions (core (unreserve_link sp i d)) sp) = map_option (\<lambda>s. num_links s - 1) (sessions (core d) sp)"
    using assms f
    by (simp_all add: unreserve_link_def Let_def split_beta lc_def [symmetric] free_link_def option.map_comp comp_def)
qed

text \<open>
  \<open>cam_req_mgr_unlink\<close> does not check that the link belongs to the session it is given. With the
  handle of another session that has links, the link goes back to the pool while its own session
  still lists it, and the other session counts one link less than it has.
\<close>

theorem crm_unlink_foreign_session_dangles:
  assumes "session_priv sh d = Obj sp" "link_priv la lh d = Obj i" "num_links (session_at d sp) \<noteq> 0"
    and "sessions (core d) sp' = Some s'" "sp' \<noteq> sp" "ses_links s' k = Some i"
    and "cam_req_mgr_unlink env la sh lh d = Some (rc, d')"
  shows "sessions (core d') sp' = Some s' \<and> ses_links s' k = Some i \<and> \<not> is_used (g_links (core d') i)
     \<and> num_links (session_at d' sp) = num_links (session_at d sp) - 1"
proof -
  obtain r d1 where u: "unlink_link env i d = (r, d1)" by (metis prod.exhaust)
  have o: "sessions (core d1) = sessions (core d)" using own_eqD(1) [OF unlink_link_frame(1) [OF u]] .
  have d': "d' = unreserve_link sp i d1" using assms(1,2,7) u by (simp add: cam_req_mgr_unlink_def with_session_def with_link_def)
  obtain s where s: "sessions (core d) sp = Some s" using session_priv_obj [OF assms(1)] by blast
  have "num_links (session_at d1 sp) \<noteq> 0" using assms(3) o by (simp add: session_at_def)
  note n = unreserve_other [OF this assms(5), of i, folded d']
  from n(3) s o have "num_links (session_at d' sp) = num_links (session_at d sp) - 1" by (auto simp: session_at_def)
  with n(1,2) o assms(4,6) show ?thesis by simp
qed

definition demo_ses :: "int \<Rightarrow> nat \<Rightarrow> cam_req_mgr_core_session" where
  "demo_ses h i = \<lparr>ses_session_hdl = h, num_links = 1, ses_links = (\<lambda>k. if k = 0 then Some i else None),
     force_err_recovery = 0, ses_sync_mode = 0\<rparr>"

definition two_sessions :: crm_dev where
  "two_sessions = flush_dev\<lparr>core := (core flush_dev)\<lparr>
     sessions := [0x1000 \<mapsto> demo_ses 0x102 0, 0x3000 \<mapsto> demo_ses 0x103 1],
     crm_hdl_tbl := Some (the demo_tbl\<lparr>hdl := (\<lambda>i. if i = 0 then (demo_row 0x100)\<lparr>hdl_priv := 0x1000\<rparr>
        else if i = 1 then (demo_row 0x101)\<lparr>hdl_priv := demo_la 1\<rparr> else zero_handle)\<rparr>)\<rparr>\<rparr>"

theorem crm_unlink_foreign_session_dangles_witness:
  "\<exists>rc d'. cam_req_mgr_unlink demo_env demo_la 0x100 0x101 two_sessions = Some (rc, d')
     \<and> sessions (core d') 0x3000 = Some (demo_ses 0x103 1) \<and> \<not> is_used (g_links (core d') 1)"
proof -
  have p: "session_priv 0x100 two_sessions = Obj 0x1000" "link_priv demo_la 0x101 two_sessions = Obj 1" by (code_simp, code_simp)
  then obtain rc d' where e: "cam_req_mgr_unlink demo_env demo_la 0x100 0x101 two_sessions = Some (rc, d')"
    by (simp add: cam_req_mgr_unlink_def with_session_def with_link_def split_beta)
  have s: "sessions (core two_sessions) 0x1000 = Some (demo_ses 0x102 0)" "sessions (core two_sessions) 0x3000 = Some (demo_ses 0x103 1)"
    by (simp_all add: two_sessions_def)
  have "num_links (session_at two_sessions 0x1000) \<noteq> 0" "ses_links (demo_ses 0x103 1) 0 = Some 1"
    using s by (simp_all add: session_at_def demo_ses_def)
  from crm_unlink_foreign_session_dangles [OF p this(1) s(2) _ this(2) e] e show ?thesis by simp
qed

end
