(* ===== verification/Cam_Ctx.thy ===== *)
theory Cam_Ctx
  imports Cam_Sync Cam_Hdl Cam_Packet
begin

text \<open>
  Contexts of the device nodes, \<open>cam_core/cam_context_utils.c\<close>: the requests of a context and
  the lists they move between, the fences they wait for and signal, and the calls of the hardware
  manager. A request belongs to the storage of one context; it waits on the pending list until all
  its input fences were signalled, is then given to the hardware and moved to the active list, and
  goes back to the free list when the hardware is done or it is flushed.

  The fences are those of \<open>Cam_Sync\<close>, packets lie in buffers of \<open>Cam_Mem\<close>, and device handles come
  from \<open>Cam_Hdl\<close>. The hardware managers are device specific: their calls are recorded in order and
  their results are given by the environment. Locks and traces are not represented, and checks of
  argument pointers against \<open>NULL\<close> are left out; every operation is one uninterrupted run.
\<close>

section \<open>Data\<close>

abbreviation CAM_CTX_REQ_MAX :: nat where "CAM_CTX_REQ_MAX \<equiv> 20"
abbreviation CAM_CTX_RES_MAX :: u32 where "CAM_CTX_RES_MAX \<equiv> 20"
abbreviation CAM_FLUSH_TYPE_REQ :: u32 where "CAM_FLUSH_TYPE_REQ \<equiv> 0"
abbreviation CAM_FLUSH_TYPE_ALL :: u32 where "CAM_FLUSH_TYPE_ALL \<equiv> 1"
abbreviation CAM_ICP :: u64 where "CAM_ICP \<equiv> 256"
abbreviation CAM_JPEG :: u64 where "CAM_JPEG \<equiv> 512"
abbreviation CAM_FD :: u64 where "CAM_FD \<equiv> 1024"
abbreviation CAM_LRME :: u64 where "CAM_LRME \<equiv> 2048"
abbreviation sizeof_packet :: u64 where "sizeof_packet \<equiv> 64"

datatype cam_context_state =
  CAM_CTX_UNINIT | CAM_CTX_AVAILABLE | CAM_CTX_ACQUIRED | CAM_CTX_READY | CAM_CTX_FLUSHED | CAM_CTX_ACTIVATED

record cam_hw_fence_map_entry =
  resource_handle :: u32
  sync_id :: int

text \<open>
  The arrays of fences are lists as long as their counters say. \<open>rq_ctx\<close> tells whether \<open>ctx\<close> is
  set: it then is the context in whose storage the request lies.
\<close>

record cam_ctx_request =
  rq_status :: u32
  request_id :: u64
  req_priv :: ptr
  num_hw_update_entries :: u32
  in_map_entries :: "cam_hw_fence_map_entry list"
  out_map_entries :: "cam_hw_fence_map_entry list"
  num_in_acked :: int
  flushed :: bool
  rq_ctx :: bool
  pf_packet :: ptr

definition zero_req :: cam_ctx_request where
  "zero_req = \<lparr>rq_status = 0, request_id = 0, req_priv = 0, num_hw_update_entries = 0, in_map_entries = [],
     out_map_entries = [], num_in_acked = 0, flushed = False, rq_ctx = False, pf_packet = 0\<rparr>"

text \<open>Which operations a hardware manager offers; the others are always there.\<close>

record cam_hw_mgr_intf =
  has_hw_get_caps :: bool
  has_hw_release :: bool
  has_hw_start :: bool
  has_hw_stop :: bool
  has_hw_flush :: bool
  has_hw_stream :: bool
  has_hw_cmd :: bool
  has_hw_dump :: bool
  has_hw_close :: bool

text \<open>The four drivers whose state machines are represented; the pointer to the table names the driver.\<close>

datatype cam_driver = Drv_jpeg | Drv_fd | Drv_lrme | Drv_icp

text \<open>
  The list nodes of the requests are intrusive: adding a request to a list while it is still on
  one breaks both. \<open>list_bug\<close> records that this happened; the lists mean nothing afterwards.
\<close>

record cam_context =
  dev_name :: string
  cx_dev_id :: u64
  ctx_id :: u32
  cx_session_hdl :: int
  cx_dev_hdl :: int
  cx_link_hdl :: int
  active_req_list :: "nat list"
  pending_req_list :: "nat list"
  wait_req_list :: "nat list"
  free_req_list :: "nat list"
  req :: "nat \<Rightarrow> cam_ctx_request"
  req_size :: nat
  hw_mgr_intf :: "cam_hw_mgr_intf option"
  ctx_state :: cam_context_state
  state_machine :: "cam_driver option"
  ctxt_to_hw_map :: ptr
  refcount :: nat
  last_flush_req :: u32
  list_bug :: bool

text \<open>Calls of the hardware manager, with the arguments the context gives.\<close>

datatype hw_call =
    Hw_get_caps
  | Hw_acquire nat u32 u64
  | Hw_release ptr
  | Hw_prepare ptr ptr u64
  | Hw_config ptr nat u64
  | Hw_stream ptr ptr
  | Hw_flush u32 ptr "ptr list" "ptr list" u32
  | Hw_start ptr
  | Hw_stop ptr
  | Hw_cmd_pf ptr ptr u64 u32
  | Hw_cmd_acq ptr
  | Hw_dump ptr u32 u64 u64 u32
  | Hw_close

text \<open>
  Everything the contexts of one node reach: the fences, the buffers and their contents, the table
  of handles, the contexts and the free list of the node, and the calls of the hardware so far.
\<close>

record cam_world =
  fences :: sync_device
  bufs :: cam_mem_table
  kmemory :: kmem
  handles :: hdl_global
  ctxs :: "nat \<Rightarrow> cam_context"
  ctx_size :: nat
  node_name :: string
  free_ctx_list :: "nat list"
  node_hw :: cam_hw_mgr_intf
  hw_calls :: "hw_call list"

text \<open>What the \<open>n\<close>-th call of the hardware manager answers, and the rest of the environment of an operation.\<close>

record prep_result =
  pr_num_hw_update :: u32
  pr_out :: "cam_hw_fence_map_entry list"
  pr_in :: "cam_hw_fence_map_entry list"
  pr_priv :: ptr
  pr_packet :: ptr

record hw_env =
  hw_rc :: "nat \<Rightarrow> rc"
  hw_map :: "nat \<Rightarrow> ptr"
  hw_prep :: "nat \<Rightarrow> prep_result"
  hw_offset :: "nat \<Rightarrow> u64"
  in_interrupt :: bool
  cb_alloc :: "nat \<Rightarrow> bool"
  rand_byte :: u8

text \<open>Addresses: of the callback, of the contexts, and of the requests in their storage.\<close>

record addrs =
  sync_cb :: ptr
  ctx_at :: "nat \<Rightarrow> ptr"
  req_at :: "nat \<Rightarrow> nat \<Rightarrow> ptr"

section \<open>Updates\<close>

definition upd_ctx :: "nat \<Rightarrow> (cam_context \<Rightarrow> cam_context) \<Rightarrow> cam_world \<Rightarrow> cam_world" where
  "upd_ctx i f w = w\<lparr>ctxs := (ctxs w)(i := f (ctxs w i))\<rparr>"

definition set_req :: "nat \<Rightarrow> (cam_ctx_request \<Rightarrow> cam_ctx_request) \<Rightarrow> cam_context \<Rightarrow> cam_context" where
  "set_req r f c = c\<lparr>req := (req c)(r := f (req c r))\<rparr>"

definition upd_req :: "nat \<Rightarrow> nat \<Rightarrow> (cam_ctx_request \<Rightarrow> cam_ctx_request) \<Rightarrow> cam_world \<Rightarrow> cam_world" where
  "upd_req i r f = upd_ctx i (set_req r f)"

definition hw_do :: "hw_env \<Rightarrow> hw_call \<Rightarrow> cam_world \<Rightarrow> rc \<times> cam_world" where
  "hw_do env k w = (hw_rc env (length (hw_calls w)), w\<lparr>hw_calls := hw_calls w @ [k]\<rparr>)"

text \<open>\<open>list_del_init\<close> and \<open>list_add_tail\<close> on the node of a request.\<close>

definition on_list :: "nat \<Rightarrow> cam_context \<Rightarrow> bool" where
  "on_list r c \<longleftrightarrow> r \<in> set (active_req_list c) \<or> r \<in> set (pending_req_list c) \<or> r \<in> set (wait_req_list c)
     \<or> r \<in> set (free_req_list c)"

definition req_del :: "nat \<Rightarrow> cam_context \<Rightarrow> cam_context" where
  "req_del r c = c\<lparr>active_req_list := removeAll r (active_req_list c),
     pending_req_list := removeAll r (pending_req_list c), wait_req_list := removeAll r (wait_req_list c),
     free_req_list := removeAll r (free_req_list c)\<rparr>"

definition add_free :: "nat \<Rightarrow> cam_context \<Rightarrow> cam_context" where
  "add_free r c = c\<lparr>free_req_list := free_req_list c @ [r], list_bug := (list_bug c \<or> on_list r c)\<rparr>"

definition add_active :: "nat \<Rightarrow> cam_context \<Rightarrow> cam_context" where
  "add_active r c = c\<lparr>active_req_list := active_req_list c @ [r], list_bug := (list_bug c \<or> on_list r c)\<rparr>"

definition add_pending :: "nat \<Rightarrow> cam_context \<Rightarrow> cam_context" where
  "add_pending r c = c\<lparr>pending_req_list := pending_req_list c @ [r], list_bug := (list_bug c \<or> on_list r c)\<rparr>"

text \<open>References of a context; the last one puts it on the free list of the node.\<close>

definition cam_node_put_ctxt_to_free_list :: "nat \<Rightarrow> cam_world \<Rightarrow> cam_world" where
  "cam_node_put_ctxt_to_free_list i w = w\<lparr>free_ctx_list := free_ctx_list w @ [i]\<rparr>"

definition cam_context_putref :: "nat \<Rightarrow> cam_world \<Rightarrow> cam_world" where
  "cam_context_putref i w =
     (if refcount (ctxs w i) = 0 then w
      else let w1 = upd_ctx i (\<lambda>c. c\<lparr>refcount := refcount c - 1\<rparr>) w
           in if refcount (ctxs w i) = 1 then cam_node_put_ctxt_to_free_list i w1 else w1)"

definition cam_context_getref :: "nat \<Rightarrow> cam_world \<Rightarrow> cam_world" where
  "cam_context_getref i w =
     (if refcount (ctxs w i) = 0 then w else upd_ctx i (\<lambda>c. c\<lparr>refcount := refcount c + 1\<rparr>) w)"

section \<open>Completion\<close>

fun signal_fences :: "u32 \<Rightarrow> cam_hw_fence_map_entry list \<Rightarrow> sync_device \<Rightarrow> sync_device" where
  "signal_fences status [] f = f"
| "signal_fences status (e # es) f = signal_fences status es (snd (cam_sync_signal (sync_id e) status f))"

text \<open>A request goes back to the free list and forgets its context.\<close>

definition free_request :: "nat \<Rightarrow> nat \<Rightarrow> cam_world \<Rightarrow> cam_world" where
  "free_request i r = upd_ctx i (\<lambda>c. set_req r (\<lambda>q. q\<lparr>rq_ctx := False\<rparr>) (add_free r c))"

text \<open>\<open>bubble_state\<close> is the event of the hardware: 0 is success.\<close>

definition cam_context_buf_done_from_hw :: "hw_env \<Rightarrow> nat \<Rightarrow> u64 \<Rightarrow> u32 \<Rightarrow> cam_world \<Rightarrow> rc \<times> cam_world" where
  "cam_context_buf_done_from_hw env i done_id bubble_state w =
     (if in_interrupt env then (- EINVAL, w)
      else
        case active_req_list (ctxs w i) of
          [] \<Rightarrow> (- EIO, w)
        | r # rs \<Rightarrow>
            let q = req (ctxs w i) r in
            if done_id \<noteq> request_id q then (- EIO, w)
            else if out_map_entries q = [] then (- EIO, w)
            else
              let result = (if bubble_state = 0 then CAM_SYNC_STATE_SIGNALED_SUCCESS else CAM_SYNC_STATE_SIGNALED_ERROR);
                  w1 = upd_ctx i (req_del r) w;
                  w2 = w1\<lparr>fences := signal_fences result (out_map_entries q) (fences w1)\<rparr>;
                  w3 = upd_req i r (\<lambda>q. q\<lparr>out_map_entries := map (\<lambda>e. e\<lparr>sync_id := - 1\<rparr>) (out_map_entries q)\<rparr>) w2
              in (0, free_request i r w3))"

section \<open>Submission\<close>

text \<open>A request the hardware refuses goes to the free list; its output fences are not signalled.\<close>

definition cam_context_apply_req_to_hw :: "hw_env \<Rightarrow> nat \<Rightarrow> nat \<Rightarrow> cam_world \<Rightarrow> rc \<times> cam_world" where
  "cam_context_apply_req_to_hw env i r w =
     (if hw_mgr_intf (ctxs w i) = None then (- EFAULT, w)
      else
        let w1 = upd_ctx i (\<lambda>c. add_active r (req_del r c)) w;
            (rc, w2) = hw_do env (Hw_config (ctxt_to_hw_map (ctxs w1 i)) r (request_id (req (ctxs w1 i) r))) w1
        in (rc, if rc \<noteq> 0 then upd_ctx i (\<lambda>c. add_free r (req_del r c)) w2 else w2))"

section \<open>Flush\<close>

text \<open>
  The loop that takes the callbacks of a request back; every callback that is found was a
  reference of the context and counts as acknowledged. The result tells whether the last one was
  found.
\<close>

fun dereg_loop :: "addrs \<Rightarrow> nat \<Rightarrow> nat \<Rightarrow> cam_hw_fence_map_entry list \<Rightarrow> bool \<Rightarrow> cam_world \<Rightarrow> bool \<times> cam_world" where
  "dereg_loop A i r [] free w = (free, w)"
| "dereg_loop A i r (e # es) free w =
     (let (rc, f) = cam_sync_deregister_callback (sync_cb A) (req_at A i r) (sync_id e) (fences w);
          w1 = w\<lparr>fences := f\<rparr> in
      if rc \<noteq> 0 then dereg_loop A i r es free w1
      else
        let w2 = upd_req i r (\<lambda>q. q\<lparr>num_in_acked := num_in_acked q + 1\<rparr>) (cam_context_putref i w1);
            q = req (ctxs w2 i) r
        in dereg_loop A i r es (free \<or> num_in_acked q = int (length (in_map_entries q))) w2)"

text \<open>Output fences of a flushed request; the loop ends at one that was signalled before.\<close>

fun signal_error :: "cam_hw_fence_map_entry list \<Rightarrow> sync_device \<Rightarrow> sync_device" where
  "signal_error [] f = f"
| "signal_error (e # es) f =
     (if sync_id e = - 1 then signal_error es f
      else let (rc, f1) = cam_sync_signal (sync_id e) CAM_SYNC_STATE_SIGNALED_ERROR f
           in if rc = - EALREADY then f1 else signal_error es f1)"

definition signal_out_error :: "nat \<Rightarrow> nat \<Rightarrow> cam_world \<Rightarrow> cam_world" where
  "signal_out_error i r w = w\<lparr>fences := signal_error (out_map_entries (req (ctxs w i) r)) (fences w)\<rparr>"

definition flush_pending :: "addrs \<Rightarrow> nat \<Rightarrow> nat \<Rightarrow> cam_world \<Rightarrow> cam_world" where
  "flush_pending A i r w =
     (let w1 = upd_req i r (\<lambda>q. q\<lparr>flushed := True\<rparr>) w;
          (free, w2) = dereg_loop A i r (in_map_entries (req (ctxs w1 i) r)) False w1;
          w3 = signal_out_error i r w2
      in if free then free_request i r w3 else w3)"

definition flush_active :: "nat \<Rightarrow> nat \<Rightarrow> cam_world \<Rightarrow> cam_world" where
  "flush_active i r w = free_request i r (signal_out_error i r w)"

definition cam_context_flush_ctx_to_hw :: "hw_env \<Rightarrow> addrs \<Rightarrow> nat \<Rightarrow> cam_world \<Rightarrow> rc \<times> cam_world" where
  "cam_context_flush_ctx_to_hw env A i w =
     (let pend = pending_req_list (ctxs w i);
          w1 = fold (flush_pending A i) pend (upd_ctx i (\<lambda>c. c\<lparr>pending_req_list := []\<rparr>) w);
          c = ctxs w1 i; act = active_req_list c;
          w2 = (case hw_mgr_intf c of
                  None \<Rightarrow> w1
                | Some k \<Rightarrow>
                    if has_hw_flush k \<and> (pend \<noteq> [] \<or> act \<noteq> [])
                    then snd (hw_do env (Hw_flush CAM_FLUSH_TYPE_ALL (ctxt_to_hw_map c)
                           (map (\<lambda>r. req_priv (req c r)) pend) (map (\<lambda>r. req_priv (req c r)) act)
                           (last_flush_req (ctxs w i))) w1)
                    else w1);
          w3 = fold (flush_active i) act (upd_ctx i (\<lambda>c. c\<lparr>active_req_list := []\<rparr>) w2)
      in (0, w3))"

text \<open>One request by its id: the first on the pending list, or else the first on the active list.\<close>

definition can_flush :: "cam_context \<Rightarrow> bool" where
  "can_flush c = (case hw_mgr_intf c of None \<Rightarrow> False | Some k \<Rightarrow> has_hw_flush k)"

definition hw_flush_req :: "hw_env \<Rightarrow> cam_context \<Rightarrow> ptr list \<Rightarrow> ptr list \<Rightarrow> cam_world \<Rightarrow> cam_world" where
  "hw_flush_req env c pend act w =
     (if can_flush c then snd (hw_do env (Hw_flush CAM_FLUSH_TYPE_REQ (ctxt_to_hw_map c) pend act 0) w) else w)"

definition cam_context_flush_req_to_hw :: "hw_env \<Rightarrow> addrs \<Rightarrow> nat \<Rightarrow> u64 \<Rightarrow> cam_world \<Rightarrow> rc \<times> cam_world" where
  "cam_context_flush_req_to_hw env A i req_id w =
     (let c = ctxs w i; hit = (\<lambda>r. request_id (req c r) = req_id) in
      case find hit (pending_req_list c) of
        Some r \<Rightarrow>
          let w1 = upd_ctx i (\<lambda>c. set_req r (\<lambda>q. q\<lparr>flushed := True\<rparr>) (req_del r c)) w;
              w2 = hw_flush_req env c [req_priv (req c r)] [] w1;
              (free, w3) = dereg_loop A i r (in_map_entries (req c r)) False w2;
              w4 = signal_out_error i r w3
          in (0, if free then free_request i r w4 else w4)
      | None \<Rightarrow>
          (case (if can_flush c then find hit (active_req_list c) else None) of
             None \<Rightarrow> (0, w)
           | Some r \<Rightarrow>
               let w1 = upd_ctx i (req_del r) w;
                   w2 = hw_flush_req env c [] [req_priv (req c r)] w1
               in (0, free_request i r (signal_out_error i r w2))))"

definition cam_context_flush_dev_to_hw :: "hw_env \<Rightarrow> addrs \<Rightarrow> nat \<Rightarrow> u32 \<Rightarrow> int \<Rightarrow> cam_world \<Rightarrow> rc \<times> cam_world" where
  "cam_context_flush_dev_to_hw env A i flush_type req_id w =
     (if hw_mgr_intf (ctxs w i) = None then (- EFAULT, w)
      else if flush_type = CAM_FLUSH_TYPE_ALL
      then cam_context_flush_ctx_to_hw env A i (upd_ctx i (\<lambda>c. c\<lparr>last_flush_req := of_int req_id\<rparr>) w)
      else if flush_type = CAM_FLUSH_TYPE_REQ then cam_context_flush_req_to_hw env A i (of_int req_id) w
      else (- EINVAL, w))"

end
