(* ===== verification/Cam_Ctx_Ops.thy ===== *)
theory Cam_Ctx_Ops
  imports Cam_Ctx
begin

text \<open>
  The rest of \<open>cam_core/cam_context_utils.c\<close>: the callback of an input fence, configuration,
  acquisition and release of the hardware, start, stop and the dumps.
\<close>

section \<open>Input fences\<close>

text \<open>
  The callback of a fence. With the last fence the request is given to the hardware, unless it was
  flushed or this fence failed; a reference of the context goes with every callback. A request
  whose context is not set is left alone, and so is the reference.
\<close>

definition cam_context_sync_callback :: "hw_env \<Rightarrow> addrs \<Rightarrow> nat \<Rightarrow> nat \<Rightarrow> u32 \<Rightarrow> cam_world \<Rightarrow> cam_world" where
  "cam_context_sync_callback env A i r status w =
     (if in_interrupt env then w
      else if \<not> rq_ctx (req (ctxs w i) r) then w
      else
        let w1 = upd_req i r (\<lambda>q. q\<lparr>num_in_acked := num_in_acked q + 1\<rparr>) w;
            q = req (ctxs w1 i) r;
            w3 =
              (if num_in_acked q = int (length (in_map_entries q))
               then
                 let w2 = (if status = CAM_SYNC_STATE_SIGNALED_ERROR
                           then snd (cam_context_flush_req_to_hw env A i (request_id q) w1) else w1) in
                 if \<not> flushed (req (ctxs w2 i) r) then snd (cam_context_apply_req_to_hw env i r w2)
                 else upd_ctx i (\<lambda>c. add_free r (req_del r (set_req r (\<lambda>q. q\<lparr>flushed := False, rq_ctx := False\<rparr>) c))) w2
               else w1)
        in cam_context_putref i w3)"

text \<open>The request behind an address, for the fence framework calls back with the address only.\<close>

definition find_req :: "addrs \<Rightarrow> cam_world \<Rightarrow> ptr \<Rightarrow> (nat \<times> nat) option" where
  "find_req A w p = find (\<lambda>(i, r). req_at A i r = p) (List.product [0..<ctx_size w] [0..<CAM_CTX_REQ_MAX])"

definition run_callback :: "hw_env \<Rightarrow> addrs \<Rightarrow> ptr \<times> nat \<times> u32 \<times> ptr \<Rightarrow> cam_world \<Rightarrow> cam_world" where
  "run_callback env A k w =
     (case k of (func, obj, status, data) \<Rightarrow>
        if func \<noteq> sync_cb A then w
        else case find_req A w data of None \<Rightarrow> w | Some (i, r) \<Rightarrow> cam_context_sync_callback env A i r status w)"

text \<open>One task of the work queue of the fence framework.\<close>

definition fence_work :: "hw_env \<Rightarrow> addrs \<Rightarrow> cam_world \<Rightarrow> cam_world" where
  "fence_work env A w =
     (case work_queue (fences w) of
        [] \<Rightarrow> w
      | cb # cbs \<Rightarrow>
          run_callback env A (callback_func cb, cb_sync_obj cb, cb_status cb, cb_data cb)
            (w\<lparr>fences := cam_sync_util_cb_dispatch cb ((fences w)\<lparr>work_queue := cbs\<rparr>)\<rparr>))"

section \<open>Configuration\<close>

fun check_in_fences :: "cam_hw_fence_map_entry list \<Rightarrow> sync_device \<Rightarrow> rc" where
  "check_in_fences [] f = 0"
| "check_in_fences (e # es) f =
     (if cam_sync_check_valid (sync_id e) f \<noteq> 0 then cam_sync_check_valid (sync_id e) f else check_in_fences es f)"

text \<open>The references of the output fences; the result counts those that were taken.\<close>

fun get_out_refs :: "cam_hw_fence_map_entry list \<Rightarrow> nat \<Rightarrow> sync_device \<Rightarrow> rc \<times> nat \<times> sync_device" where
  "get_out_refs [] n f = (0, n, f)"
| "get_out_refs (e # es) n f =
     (let (rc, f1) = cam_sync_get_obj_ref (sync_id e) f
      in if rc \<noteq> 0 then (rc, n, f1) else get_out_refs es (n + 1) f1)"

definition put_out_refs :: "cam_hw_fence_map_entry list \<Rightarrow> sync_device \<Rightarrow> sync_device" where
  "put_out_refs es f = fold (\<lambda>e f. snd (cam_sync_put_obj_ref (sync_id e) f)) (rev es) f"

text \<open>
  The registration of the callbacks, \<open>j\<close> counting them. A fence that is signalled already may
  call back at once, inside the registration. On an error the request leaves the list it is on;
  callbacks registered before stay.
\<close>

fun register_loop :: "hw_env \<Rightarrow> addrs \<Rightarrow> nat \<Rightarrow> nat \<Rightarrow> nat \<Rightarrow> cam_hw_fence_map_entry list \<Rightarrow> cam_world \<Rightarrow> rc \<times> cam_world" where
  "register_loop env A i r j [] w = (0, w)"
| "register_loop env A i r j (e # es) w =
     (let w1 = cam_context_getref i w;
          (rc, f) = cam_sync_register_callback (cb_alloc env j) (sync_cb A) (req_at A i r) (sync_id e) (fences w1);
          w2 = w1\<lparr>fences := f\<rparr> in
      if rc \<noteq> 0 then (rc, cam_context_putref i (upd_ctx i (req_del r) w2))
      else
        let w3 = (if length (cb_calls f) = length (cb_calls (fences w1)) then w2
                  else cam_context_sync_callback env A i r (row_state (sync_table f (nat (sync_id e)))) w2)
        in register_loop env A i r (j + 1) es w3)"

definition ld64 :: "kmem \<Rightarrow> ptr \<Rightarrow> u64" where
  "ld64 m a = ucast (ld32 m a) OR push_bit 32 (ucast (ld32 m (a + 4)))"

definition pkt_request_id :: "kmem \<Rightarrow> ptr \<Rightarrow> u64" where
  "pkt_request_id m p = ld64 m (p + 8)"

definition pkt_op_code :: "kmem \<Rightarrow> ptr \<Rightarrow> u32" where
  "pkt_op_code m p = ld32 m p"

text \<open>
  The end of the configuration, from the result of \<open>hw_prepare_update\<close> on. An input fence that is
  not valid is found after the request was put on the pending list; the error path then adds it
  to the free list without taking it off.
\<close>

definition fill_req :: "prep_result \<Rightarrow> u64 \<Rightarrow> cam_ctx_request \<Rightarrow> cam_ctx_request" where
  "fill_req p rid q = q\<lparr>num_hw_update_entries := pr_num_hw_update p, out_map_entries := pr_out p,
     in_map_entries := pr_in p, num_in_acked := 0, request_id := rid, rq_status := 1, req_priv := pr_priv p,
     pf_packet := pr_packet p\<rparr>"

definition put_ref :: "nat \<Rightarrow> nat \<Rightarrow> nat \<Rightarrow> cam_world \<Rightarrow> cam_world" where
  "put_ref i r n w =
     free_request i r (w\<lparr>fences := put_out_refs (take n (out_map_entries (req (ctxs w i) r))) (fences w)\<rparr>)"

definition prepare_fences :: "hw_env \<Rightarrow> addrs \<Rightarrow> nat \<Rightarrow> nat \<Rightarrow> cam_world \<Rightarrow> rc \<times> cam_world" where
  "prepare_fences env A i r w =
     (let q = req (ctxs w i) r;
          (rc, n, f) = get_out_refs (out_map_entries q) 0 (fences w);
          w1 = w\<lparr>fences := f\<rparr> in
      if rc \<noteq> 0 then (rc, put_ref i r n w1)
      else if in_map_entries q = [] then (rc, w1)
      else
        let w2 = upd_ctx i (add_pending r) w1;
            rc = check_in_fences (in_map_entries q) (fences w2) in
        if rc \<noteq> 0 then (rc, put_ref i r n w2)
        else
          let (rc, w3) = register_loop env A i r 0 (in_map_entries q) w2
          in (rc, if rc \<noteq> 0 then put_ref i r n w3 else w3))"

definition cam_context_prepare_dev_to_hw :: "hw_env \<Rightarrow> addrs \<Rightarrow> nat \<Rightarrow> u64 \<Rightarrow> u64 \<Rightarrow> cam_world \<Rightarrow> rc \<times> cam_world" where
  "cam_context_prepare_dev_to_hw env A i packet_handle offset w =
     (if hw_mgr_intf (ctxs w i) = None then (- EFAULT, w)
      else if in_interrupt env then (- EINVAL, w)
      else
        case free_req_list (ctxs w i) of
          [] \<Rightarrow> (- ENOMEM, w)
        | r # rs \<Rightarrow>
            let w1 = upd_ctx i (\<lambda>c. set_req r (\<lambda>_. zero_req\<lparr>rq_ctx := True\<rparr>) (req_del r c)) w in
            (case cam_mem_get_cpu_buf (ucast packet_handle) (bufs w1) of
               (rc, None) \<Rightarrow> (- EINVAL, free_request i r w1)
             | (rc, Some (packet_addr, len)) \<Rightarrow>
                 if len < sizeof_packet \<or> len - sizeof_packet \<le> offset then (- EINVAL, w1)
                 else
                   let packet = packet_addr + ucast (ucast offset :: u32);
                       rid = pkt_request_id (kmemory w1) packet in
                   if rid \<le> ucast (last_flush_req (ctxs w1 i)) then (- EINVAL, free_request i r w1)
                   else
                     let w2 = upd_ctx i (\<lambda>c. c\<lparr>last_flush_req := 0\<rparr>) w1;
                         p = hw_prep env (length (hw_calls w2));
                         (rc, w3) = hw_do env (Hw_prepare (ctxt_to_hw_map (ctxs w2 i)) packet (len - offset)) w2 in
                     if rc \<noteq> 0 then (- EFAULT, free_request i r w3)
                     else prepare_fences env A i r (upd_req i r (fill_req p rid) w3)))"

definition cam_context_config_dev_to_hw :: "hw_env \<Rightarrow> nat \<Rightarrow> u64 \<Rightarrow> u64 \<Rightarrow> cam_world \<Rightarrow> rc \<times> cam_world" where
  "cam_context_config_dev_to_hw env i packet_handle offset w =
     (if (case hw_mgr_intf (ctxs w i) of None \<Rightarrow> True | Some k \<Rightarrow> \<not> has_hw_stream k) then (- EFAULT, w)
      else if in_interrupt env then (- EINVAL, w)
      else
        case cam_mem_get_cpu_buf (ucast packet_handle) (bufs w) of
          (rc, None) \<Rightarrow> (- EINVAL, w)
        | (rc, Some (packet_addr, len)) \<Rightarrow>
            let (rc, w1) = hw_do env (Hw_stream (ctxt_to_hw_map (ctxs w i)) (packet_addr + ucast (ucast offset :: u32))) w
            in (if rc \<noteq> 0 then - EFAULT else 0, w1))"

section \<open>Acquire, release, start and stop\<close>

record cam_acquire_dev_cmd =
  aq_session_handle :: int
  aq_dev_handle :: int
  handle_type :: u32
  num_resources :: u32
  resource_hdl :: u64

text \<open>The result also carries the command, into which the new device handle is written.\<close>

definition cam_context_acquire_dev_to_hw ::
    "hw_env \<Rightarrow> addrs \<Rightarrow> nat \<Rightarrow> cam_acquire_dev_cmd \<Rightarrow> cam_world \<Rightarrow> rc \<times> cam_acquire_dev_cmd \<times> cam_world" where
  "cam_context_acquire_dev_to_hw env A i cmd w =
     (if hw_mgr_intf (ctxs w i) = None then (- EFAULT, cmd, w)
      else if CAM_CTX_RES_MAX < num_resources cmd then (- ENOMEM, cmd, w)
      else if handle_type cmd \<noteq> 1 then (- EINVAL, cmd, w)
      else
        let hm = hw_map env (length (hw_calls w));
            (rc, w1) = hw_do env (Hw_acquire i (num_resources cmd) (resource_hdl cmd)) w in
        if rc \<noteq> 0 then (rc, cmd, w1)
        else
          let (h, tbl) = cam_create_device_hdl (rand_byte env)
                \<lparr>cd_session_hdl = aq_session_handle cmd, cd_dev_id = cx_dev_id (ctxs w1 i), cd_ops = 0, cd_priv = ctx_at A i\<rparr>
                (handles w1);
              w2 = upd_ctx i (\<lambda>c. c\<lparr>ctxt_to_hw_map := hm, cx_dev_hdl := h\<rparr>) (w1\<lparr>handles := tbl\<rparr>) in
          if h \<le> 0
          then (- EFAULT, cmd, upd_ctx i (\<lambda>c. c\<lparr>ctxt_to_hw_map := 0, cx_dev_hdl := - 1\<rparr>) (snd (hw_do env (Hw_release hm) w2)))
          else (rc, cmd\<lparr>aq_dev_handle := h\<rparr>, upd_ctx i (\<lambda>c. c\<lparr>cx_session_hdl := aq_session_handle cmd\<rparr>) w2))"

definition cam_context_release_dev_to_hw :: "hw_env \<Rightarrow> nat \<Rightarrow> cam_world \<Rightarrow> rc \<times> cam_world" where
  "cam_context_release_dev_to_hw env i w =
     (if (case hw_mgr_intf (ctxs w i) of None \<Rightarrow> True | Some k \<Rightarrow> \<not> has_hw_release k) then (- EINVAL, w)
      else (0, upd_ctx i (\<lambda>c. c\<lparr>ctxt_to_hw_map := 0, cx_session_hdl := - 1, cx_dev_hdl := - 1, cx_link_hdl := - 1\<rparr>)
                 (snd (hw_do env (Hw_release (ctxt_to_hw_map (ctxs w i))) w))))"

definition cam_context_start_dev_to_hw :: "hw_env \<Rightarrow> nat \<Rightarrow> int \<Rightarrow> int \<Rightarrow> cam_world \<Rightarrow> rc \<times> cam_world" where
  "cam_context_start_dev_to_hw env i session_handle dev_handle w =
     (case hw_mgr_intf (ctxs w i) of
        None \<Rightarrow> (- EFAULT, w)
      | Some k \<Rightarrow>
          if session_handle \<noteq> cx_session_hdl (ctxs w i) \<or> dev_handle \<noteq> cx_dev_hdl (ctxs w i) then (- EPERM, w)
          else if has_hw_start k then hw_do env (Hw_start (ctxt_to_hw_map (ctxs w i))) w else (0, w))"

definition cam_context_stop_dev_to_hw :: "hw_env \<Rightarrow> addrs \<Rightarrow> nat \<Rightarrow> cam_world \<Rightarrow> rc \<times> cam_world" where
  "cam_context_stop_dev_to_hw env A i w =
     (case hw_mgr_intf (ctxs w i) of
        None \<Rightarrow> (- EFAULT, w)
      | Some k \<Rightarrow>
          if in_interrupt env then (- EINVAL, w)
          else
            let (rc, w1) = cam_context_flush_ctx_to_hw env A i w in
            if rc \<noteq> 0 then (rc, w1)
            else (0, if has_hw_stop k then snd (hw_do env (Hw_stop (ctxt_to_hw_map (ctxs w1 i))) w1) else w1))"

section \<open>Dumps\<close>

text \<open>\<open>mem_found\<close> of a page fault is only logged.\<close>

definition cam_context_dump_pf_info_to_hw :: "hw_env \<Rightarrow> nat \<Rightarrow> ptr \<Rightarrow> u64 \<Rightarrow> u32 \<Rightarrow> cam_world \<Rightarrow> rc \<times> cam_world" where
  "cam_context_dump_pf_info_to_hw env i packet iova buf_info w =
     (case hw_mgr_intf (ctxs w i) of
        None \<Rightarrow> (- EFAULT, w)
      | Some k \<Rightarrow> (0, if has_hw_cmd k then snd (hw_do env (Hw_cmd_pf (ctxt_to_hw_map (ctxs w i)) packet iova buf_info) w) else w))"

definition cam_context_dump_hw_acq_info :: "hw_env \<Rightarrow> nat \<Rightarrow> cam_world \<Rightarrow> rc \<times> cam_world" where
  "cam_context_dump_hw_acq_info env i w =
     (case hw_mgr_intf (ctxs w i) of
        None \<Rightarrow> (- EFAULT, w)
      | Some k \<Rightarrow> (0, if has_hw_cmd k then snd (hw_do env (Hw_cmd_acq (ctxt_to_hw_map (ctxs w i))) w) else w))"

definition st64 :: "kmem \<Rightarrow> ptr \<Rightarrow> u64 \<Rightarrow> kmem" where
  "st64 m a v = st32 (st32 m a (ucast v)) (a + 4) (ucast (drop_bit 32 v))"

fun st_words :: "kmem \<Rightarrow> ptr \<Rightarrow> u64 list \<Rightarrow> kmem" where
  "st_words m a [] = m"
| "st_words m a (v # vs) = st_words (st64 m a v) (a + 8) vs"

fun st_bytes :: "kmem \<Rightarrow> ptr \<Rightarrow> u8 list \<Rightarrow> kmem" where
  "st_bytes m a [] = m"
| "st_bytes m a (b # bs) = st_bytes (m(a := b)) (a + 1) bs"

text \<open>\<open>scnprintf\<close> into the tag of the header: at most 31 characters and a terminator.\<close>

abbreviation CAM_CTXT_DUMP_TAG_MAX_LEN :: nat where "CAM_CTXT_DUMP_TAG_MAX_LEN \<equiv> 32"
abbreviation sizeof_dump_header :: u64 where "sizeof_dump_header \<equiv> 48"

definition dump_tag :: "string \<Rightarrow> u8 list" where
  "dump_tag name = map of_char (take (CAM_CTXT_DUMP_TAG_MAX_LEN - 1) (name @ ''_CTXT_DUMP:'')) @ [0]"

definition dump_words :: "nat \<Rightarrow> nat \<Rightarrow> cam_world \<Rightarrow> u64 list" where
  "dump_words i r w =
     (let c = ctxs w i; q = req c r in
      [ucast (ctx_id c), of_nat (refcount c), ucast (last_flush_req c),
       of_nat (case ctx_state c of CAM_CTX_UNINIT \<Rightarrow> 0 | CAM_CTX_AVAILABLE \<Rightarrow> 1 | CAM_CTX_ACQUIRED \<Rightarrow> 2
                 | CAM_CTX_READY \<Rightarrow> 3 | CAM_CTX_FLUSHED \<Rightarrow> 4 | CAM_CTX_ACTIVATED \<Rightarrow> 5),
       of_nat (length (out_map_entries q))]
      @ concat (map (\<lambda>e. [ucast (resource_handle e), of_int (sync_id e)]) (out_map_entries q))
      @ [of_nat (length (in_map_entries q))] @ map (\<lambda>e. of_int (sync_id e)) (in_map_entries q))"

text \<open>The result carries the new offset.\<close>

definition cam_context_dump_context :: "nat \<Rightarrow> u32 \<Rightarrow> u64 \<Rightarrow> cam_world \<Rightarrow> rc \<times> u64 \<times> cam_world" where
  "cam_context_dump_context i bh offset w =
     (case active_req_list (ctxs w i) of
        [] \<Rightarrow> (- EIO, offset, w)
      | r # rs \<Rightarrow>
          (case cam_mem_get_cpu_buf bh (bufs w) of
             (rc, None) \<Rightarrow> (rc, offset, w)
           | (rc, Some (cpu_addr, len)) \<Rightarrow>
               if len \<le> offset then (- ENOSPC, offset, w)
               else
                 let q = req (ctxs w i) r;
                     words = 10 + of_nat (length (in_map_entries q)) + of_nat (length (out_map_entries q)) * 2 :: u32;
                     min_len = ucast (sizeof_dump_header + ucast words * 8) :: u32 in
                 if len - offset < ucast min_len then (- ENOSPC, offset, w)
                 else
                   let dst = cpu_addr + offset; ws = dump_words i r w; size = 8 * of_nat (length ws);
                       m1 = st_bytes (kmemory w) dst (dump_tag (dev_name (ctxs w i)));
                       m2 = st32 m1 (dst + 40) 8;
                       m3 = st_words m2 (dst + sizeof_dump_header) ws;
                       m4 = st64 m3 (dst + 32) size
                   in (0, offset + size + sizeof_dump_header, w\<lparr>kmemory := m4\<rparr>)))"

record cam_dump_req_cmd =
  issue_req_id :: u64
  dq_offset :: u64
  dq_buf_handle :: u32
  error_type :: u32
  dq_session_handle :: int
  dq_dev_handle :: int

text \<open>The code of the dump of the context is ignored.\<close>

definition cam_context_dump_dev_to_hw :: "hw_env \<Rightarrow> nat \<Rightarrow> cam_dump_req_cmd \<Rightarrow> cam_world \<Rightarrow> rc \<times> cam_dump_req_cmd \<times> cam_world" where
  "cam_context_dump_dev_to_hw env i cmd w =
     (case hw_mgr_intf (ctxs w i) of
        None \<Rightarrow> (- EFAULT, cmd, w)
      | Some k \<Rightarrow>
          if \<not> has_hw_dump k then (0, cmd, w)
          else
            let off = hw_offset env (length (hw_calls w));
                (rc, w1) = hw_do env (Hw_dump (ctxt_to_hw_map (ctxs w i)) (dq_buf_handle cmd) (dq_offset cmd) (issue_req_id cmd)
                             (error_type cmd)) w in
            if rc \<noteq> 0 then (rc, cmd, w1)
            else if dq_offset cmd < off
            then let (rc', off', w2) = cam_context_dump_context i (dq_buf_handle cmd) off w1
                 in (rc, cmd\<lparr>dq_offset := off'\<rparr>, w2)
            else (rc, cmd, w1))"

end
