(* ===== verification/Cam_Ctx_Drv.thy ===== *)
theory Cam_Ctx_Drv
  imports Cam_Ctx_Ops
begin

text \<open>
  The state machines of the JPEG, face detection, LRME and ICP contexts
  (\<open>cam_jpeg_context.c\<close>, \<open>cam_fd_context.c\<close>, \<open>cam_lrme_context.c\<close>, \<open>cam_icp_context.c\<close>), and
  \<open>cam_core/cam_context.c\<close>, which looks an operation up in the table of the current state.
\<close>

section \<open>Tables of operations\<close>

record cam_config_dev_cmd =
  cf_session_handle :: int
  cf_dev_handle :: int
  cf_offset :: u64
  packet_handle :: u64

record cam_flush_dev_cmd =
  fl_session_handle :: int
  fl_dev_handle :: int
  flush_type :: u32
  fl_req_id :: int

record cam_start_stop_dev_cmd =
  ss_session_handle :: int
  ss_dev_handle :: int

type_synonym 'c ctx_op = "hw_env \<Rightarrow> addrs \<Rightarrow> nat \<Rightarrow> 'c \<Rightarrow> cam_world \<Rightarrow> rc \<times> cam_world"

text \<open>
  Operations with arguments this development does not look into have the address of their payload
  as argument; no table below has one of them.
\<close>

record cam_ctx_ops =
  acquire_dev :: "(hw_env \<Rightarrow> addrs \<Rightarrow> nat \<Rightarrow> cam_acquire_dev_cmd \<Rightarrow> cam_world \<Rightarrow> rc \<times> cam_acquire_dev_cmd \<times> cam_world) option"
  release_dev :: "unit ctx_op option"
  config_dev :: "cam_config_dev_cmd ctx_op option"
  start_dev :: "cam_start_stop_dev_cmd ctx_op option"
  stop_dev :: "cam_start_stop_dev_cmd ctx_op option"
  flush_dev :: "cam_flush_dev_cmd ctx_op option"
  dump_dev :: "(hw_env \<Rightarrow> nat \<Rightarrow> cam_dump_req_cmd \<Rightarrow> cam_world \<Rightarrow> rc \<times> cam_dump_req_cmd \<times> cam_world) option"
  acquire_hw :: "ptr ctx_op option"
  release_hw :: "ptr ctx_op option"
  get_dev_info :: "ptr ctx_op option"
  crm_link :: "ptr ctx_op option"
  crm_unlink :: "ptr ctx_op option"
  apply_req :: "ptr ctx_op option"
  flush_req :: "ptr ctx_op option"
  process_evt :: "ptr ctx_op option"
  dump_req :: "ptr ctx_op option"
  irq_ops :: "(hw_env \<Rightarrow> nat \<Rightarrow> u32 \<Rightarrow> u64 \<Rightarrow> cam_world \<Rightarrow> rc \<times> cam_world) option"
  pagefault_ops :: "(hw_env \<Rightarrow> nat \<Rightarrow> u64 \<Rightarrow> u32 \<Rightarrow> cam_world \<Rightarrow> rc \<times> cam_world) option"
  dumpinfo_ops :: "ptr ctx_op option"

definition no_ops :: cam_ctx_ops where
  "no_ops = \<lparr>acquire_dev = None, release_dev = None, config_dev = None, start_dev = None, stop_dev = None,
     flush_dev = None, dump_dev = None, acquire_hw = None, release_hw = None, get_dev_info = None, crm_link = None,
     crm_unlink = None, apply_req = None, flush_req = None, process_evt = None, dump_req = None, irq_ops = None,
     pagefault_ops = None, dumpinfo_ops = None\<rparr>"

definition set_state :: "nat \<Rightarrow> cam_context_state \<Rightarrow> cam_world \<Rightarrow> cam_world" where
  "set_state i s = upd_ctx i (\<lambda>c. c\<lparr>ctx_state := s\<rparr>)"

section \<open>Operations of the drivers\<close>

text \<open>The page fault handlers walk the active requests.\<close>

fun dump_active :: "hw_env \<Rightarrow> nat \<Rightarrow> u64 \<Rightarrow> u32 \<Rightarrow> nat list \<Rightarrow> rc \<Rightarrow> cam_world \<Rightarrow> rc \<times> cam_world" where
  "dump_active env i iova buf_info [] rc w = (rc, w)"
| "dump_active env i iova buf_info (r # rs) rc w =
     (let (rc1, w1) = cam_context_dump_pf_info_to_hw env i (pf_packet (req (ctxs w i) r)) iova buf_info w
      in dump_active env i iova buf_info rs rc1 w1)"

definition cam_jpeg_context_dump_active_request :: "hw_env \<Rightarrow> nat \<Rightarrow> u64 \<Rightarrow> u32 \<Rightarrow> cam_world \<Rightarrow> rc \<times> cam_world" where
  "cam_jpeg_context_dump_active_request env i iova buf_info w =
     dump_active env i iova buf_info (active_req_list (ctxs w i)) 0 w"

definition jpeg_acquire_dev_in_available where
  "jpeg_acquire_dev_in_available env A i cmd w =
     (let (rc, cmd1, w1) = cam_context_acquire_dev_to_hw env A i cmd w
      in (rc, cmd1, if rc \<noteq> 0 then w1 else set_state i CAM_CTX_ACQUIRED w1))"

text \<open>The JPEG context is available again even if the release failed.\<close>

definition jpeg_release_dev_in_acquired :: "unit ctx_op" where
  "jpeg_release_dev_in_acquired env A i u w =
     (let (rc, w1) = cam_context_release_dev_to_hw env i w in (rc, set_state i CAM_CTX_AVAILABLE w1))"

definition jpeg_dump_dev_in_acquired :: "hw_env \<Rightarrow> nat \<Rightarrow> cam_dump_req_cmd \<Rightarrow> cam_world \<Rightarrow> rc \<times> cam_dump_req_cmd \<times> cam_world" where
  "jpeg_dump_dev_in_acquired env i cmd w = cam_context_dump_dev_to_hw env i cmd w"

definition jpeg_flush_dev_in_acquired :: "cam_flush_dev_cmd ctx_op" where
  "jpeg_flush_dev_in_acquired env A i cmd w = cam_context_flush_dev_to_hw env A i (flush_type cmd) (fl_req_id cmd) w"

definition jpeg_config_dev_in_acquired :: "cam_config_dev_cmd ctx_op" where
  "jpeg_config_dev_in_acquired env A i cmd w = cam_context_prepare_dev_to_hw env A i (packet_handle cmd) (cf_offset cmd) w"

definition jpeg_stop_dev_in_acquired :: "cam_start_stop_dev_cmd ctx_op" where
  "jpeg_stop_dev_in_acquired env A i cmd w = cam_context_stop_dev_to_hw env A i w"

definition jpeg_handle_buf_done_in_acquired :: "hw_env \<Rightarrow> nat \<Rightarrow> u32 \<Rightarrow> u64 \<Rightarrow> cam_world \<Rightarrow> rc \<times> cam_world" where
  "jpeg_handle_buf_done_in_acquired env i evt_id done w = cam_context_buf_done_from_hw env i done evt_id w"

definition cam_jpeg_ctx_state_machine :: "cam_context_state \<Rightarrow> cam_ctx_ops" where
  "cam_jpeg_ctx_state_machine s =
     (case s of
        CAM_CTX_AVAILABLE \<Rightarrow> no_ops\<lparr>acquire_dev := Some jpeg_acquire_dev_in_available\<rparr>
      | CAM_CTX_ACQUIRED \<Rightarrow> no_ops\<lparr>release_dev := Some jpeg_release_dev_in_acquired,
          config_dev := Some jpeg_config_dev_in_acquired, stop_dev := Some jpeg_stop_dev_in_acquired,
          flush_dev := Some jpeg_flush_dev_in_acquired, dump_dev := Some jpeg_dump_dev_in_acquired,
          irq_ops := Some jpeg_handle_buf_done_in_acquired,
          pagefault_ops := Some cam_jpeg_context_dump_active_request\<rparr>
      | _ \<Rightarrow> no_ops)"

text \<open>Face detection.\<close>

definition fd_acquire_dev_in_available where
  "fd_acquire_dev_in_available env A i cmd w =
     (let (rc, cmd1, w1) = cam_context_acquire_dev_to_hw env A i cmd w
      in if rc \<noteq> 0 then (rc, cmd1, w1) else (rc, cmd1, set_state i CAM_CTX_ACQUIRED w1))"

definition fd_release_dev_in_acquired :: "unit ctx_op" where
  "fd_release_dev_in_acquired env A i u w =
     (let (rc, w1) = cam_context_release_dev_to_hw env i w
      in if rc \<noteq> 0 then (rc, w1) else (rc, set_state i CAM_CTX_AVAILABLE w1))"

definition fd_config_dev_in_acquired :: "cam_config_dev_cmd ctx_op" where
  "fd_config_dev_in_acquired env A i cmd w = cam_context_prepare_dev_to_hw env A i (packet_handle cmd) (cf_offset cmd) w"

definition fd_start_dev_in_acquired :: "cam_start_stop_dev_cmd ctx_op" where
  "fd_start_dev_in_acquired env A i cmd w =
     (let (rc, w1) = cam_context_start_dev_to_hw env i (ss_session_handle cmd) (ss_dev_handle cmd) w
      in if rc \<noteq> 0 then (rc, w1) else (rc, set_state i CAM_CTX_ACTIVATED w1))"

definition fd_stop_dev_in_activated :: "'c ctx_op" where
  "fd_stop_dev_in_activated env A i cmd w =
     (let (rc, w1) = cam_context_stop_dev_to_hw env A i w
      in if rc \<noteq> 0 then (rc, w1) else (rc, set_state i CAM_CTX_ACQUIRED w1))"

definition fd_release_dev_in_activated :: "unit ctx_op" where
  "fd_release_dev_in_activated env A i u w =
     (let (rc, w1) = fd_stop_dev_in_activated env A i u w
      in if rc \<noteq> 0 then (rc, w1) else fd_release_dev_in_acquired env A i u w1)"

definition fd_dump_dev_in_activated :: "hw_env \<Rightarrow> nat \<Rightarrow> cam_dump_req_cmd \<Rightarrow> cam_world \<Rightarrow> rc \<times> cam_dump_req_cmd \<times> cam_world" where
  "fd_dump_dev_in_activated env i cmd w = cam_context_dump_dev_to_hw env i cmd w"

definition fd_flush_dev_in_activated :: "cam_flush_dev_cmd ctx_op" where
  "fd_flush_dev_in_activated env A i cmd w = cam_context_flush_dev_to_hw env A i (flush_type cmd) (fl_req_id cmd) w"

definition fd_config_dev_in_activated :: "cam_config_dev_cmd ctx_op" where
  "fd_config_dev_in_activated env A i cmd w = cam_context_prepare_dev_to_hw env A i (packet_handle cmd) (cf_offset cmd) w"

definition fd_handle_irq_in_activated :: "hw_env \<Rightarrow> nat \<Rightarrow> u32 \<Rightarrow> u64 \<Rightarrow> cam_world \<Rightarrow> rc \<times> cam_world" where
  "fd_handle_irq_in_activated env i evt_id done w = cam_context_buf_done_from_hw env i done evt_id w"

definition cam_fd_ctx_state_machine :: "cam_context_state \<Rightarrow> cam_ctx_ops" where
  "cam_fd_ctx_state_machine s =
     (case s of
        CAM_CTX_AVAILABLE \<Rightarrow> no_ops\<lparr>acquire_dev := Some fd_acquire_dev_in_available\<rparr>
      | CAM_CTX_ACQUIRED \<Rightarrow> no_ops\<lparr>release_dev := Some fd_release_dev_in_acquired,
          config_dev := Some fd_config_dev_in_acquired, start_dev := Some fd_start_dev_in_acquired\<rparr>
      | CAM_CTX_ACTIVATED \<Rightarrow> no_ops\<lparr>stop_dev := Some fd_stop_dev_in_activated,
          release_dev := Some fd_release_dev_in_activated, config_dev := Some fd_config_dev_in_activated,
          flush_dev := Some fd_flush_dev_in_activated, dump_dev := Some fd_dump_dev_in_activated,
          irq_ops := Some fd_handle_irq_in_activated\<rparr>
      | _ \<Rightarrow> no_ops)"

text \<open>
  LRME. The hardware map is read before the acquisition, which sets it, and written back
  afterwards with the index of the context.
\<close>

definition lrme_acquire_dev_in_available where
  "lrme_acquire_dev_in_available env A i cmd w =
     (let hm = ctxt_to_hw_map (ctxs w i);
          (rc, cmd1, w1) = cam_context_acquire_dev_to_hw env A i cmd w
      in if rc \<noteq> 0 then (rc, cmd1, w1)
         else (rc, cmd1, set_state i CAM_CTX_ACQUIRED
                 (upd_ctx i (\<lambda>c. c\<lparr>ctxt_to_hw_map := hm OR push_bit 16 (ucast (ctx_id c))\<rparr>) w1)))"

definition lrme_release_dev_in_acquired :: "unit ctx_op" where
  "lrme_release_dev_in_acquired env A i u w =
     (let (rc, w1) = cam_context_release_dev_to_hw env i w
      in if rc \<noteq> 0 then (rc, w1) else (rc, set_state i CAM_CTX_AVAILABLE w1))"

definition lrme_start_dev_in_acquired :: "cam_start_stop_dev_cmd ctx_op" where
  "lrme_start_dev_in_acquired env A i cmd w =
     (let (rc, w1) = cam_context_start_dev_to_hw env i (ss_session_handle cmd) (ss_dev_handle cmd) w
      in if rc \<noteq> 0 then (rc, w1) else (rc, set_state i CAM_CTX_ACTIVATED w1))"

definition lrme_config_dev_in_activated :: "cam_config_dev_cmd ctx_op" where
  "lrme_config_dev_in_activated env A i cmd w = cam_context_prepare_dev_to_hw env A i (packet_handle cmd) (cf_offset cmd) w"

definition lrme_dump_dev_in_activated :: "hw_env \<Rightarrow> nat \<Rightarrow> cam_dump_req_cmd \<Rightarrow> cam_world \<Rightarrow> rc \<times> cam_dump_req_cmd \<times> cam_world" where
  "lrme_dump_dev_in_activated env i cmd w = cam_context_dump_dev_to_hw env i cmd w"

definition lrme_flush_dev_in_activated :: "cam_flush_dev_cmd ctx_op" where
  "lrme_flush_dev_in_activated env A i cmd w = cam_context_flush_dev_to_hw env A i (flush_type cmd) (fl_req_id cmd) w"

definition lrme_stop_dev_in_activated :: "'c ctx_op" where
  "lrme_stop_dev_in_activated env A i cmd w =
     (let (rc, w1) = cam_context_stop_dev_to_hw env A i w
      in if rc \<noteq> 0 then (rc, w1) else (rc, set_state i CAM_CTX_ACQUIRED w1))"

definition lrme_release_dev_in_activated :: "unit ctx_op" where
  "lrme_release_dev_in_activated env A i u w =
     (let (rc, w1) = lrme_stop_dev_in_activated env A i u w in
      if rc \<noteq> 0 then (rc, w1)
      else
        let (rc, w2) = cam_context_release_dev_to_hw env i w1
        in if rc \<noteq> 0 then (rc, w2) else (rc, set_state i CAM_CTX_AVAILABLE w2))"

definition lrme_handle_irq_in_activated :: "hw_env \<Rightarrow> nat \<Rightarrow> u32 \<Rightarrow> u64 \<Rightarrow> cam_world \<Rightarrow> rc \<times> cam_world" where
  "lrme_handle_irq_in_activated env i evt_id done w = cam_context_buf_done_from_hw env i done evt_id w"

definition cam_lrme_ctx_state_machine :: "cam_context_state \<Rightarrow> cam_ctx_ops" where
  "cam_lrme_ctx_state_machine s =
     (case s of
        CAM_CTX_AVAILABLE \<Rightarrow> no_ops\<lparr>acquire_dev := Some lrme_acquire_dev_in_available\<rparr>
      | CAM_CTX_ACQUIRED \<Rightarrow> no_ops\<lparr>config_dev := Some lrme_config_dev_in_activated,
          release_dev := Some lrme_release_dev_in_acquired, start_dev := Some lrme_start_dev_in_acquired\<rparr>
      | CAM_CTX_ACTIVATED \<Rightarrow> no_ops\<lparr>config_dev := Some lrme_config_dev_in_activated,
          release_dev := Some lrme_release_dev_in_activated, stop_dev := Some lrme_stop_dev_in_activated,
          flush_dev := Some lrme_flush_dev_in_activated, dump_dev := Some lrme_dump_dev_in_activated,
          irq_ops := Some lrme_handle_irq_in_activated\<rparr>
      | _ \<Rightarrow> no_ops)"

text \<open>ICP.\<close>

abbreviation CAM_ICP_OPCODE_IPE_SETTINGS :: u32 where "CAM_ICP_OPCODE_IPE_SETTINGS \<equiv> 2"
abbreviation CAM_ICP_OPCODE_BPS_SETTINGS :: u32 where "CAM_ICP_OPCODE_BPS_SETTINGS \<equiv> 3"

definition cam_icp_context_dump_active_request :: "hw_env \<Rightarrow> nat \<Rightarrow> u64 \<Rightarrow> u32 \<Rightarrow> cam_world \<Rightarrow> rc \<times> cam_world" where
  "cam_icp_context_dump_active_request env i iova buf_info w =
     (if ctx_state (ctxs w i) = CAM_CTX_UNINIT \<or> ctx_state (ctxs w i) = CAM_CTX_AVAILABLE then (0, w)
      else dump_active env i iova buf_info (active_req_list (ctxs w i)) 0 w)"

definition icp_acquire_dev_in_available where
  "icp_acquire_dev_in_available env A i cmd w =
     (let (rc, cmd1, w1) = cam_context_acquire_dev_to_hw env A i cmd w
      in (rc, cmd1, if rc = 0 then set_state i CAM_CTX_ACQUIRED w1 else w1))"

definition icp_release_dev_in_acquired :: "unit ctx_op" where
  "icp_release_dev_in_acquired env A i u w =
     (let (rc, w1) = cam_context_release_dev_to_hw env i w in (rc, set_state i CAM_CTX_AVAILABLE w1))"

definition icp_start_dev_in_acquired :: "cam_start_stop_dev_cmd ctx_op" where
  "icp_start_dev_in_acquired env A i cmd w =
     (let (rc, w1) = cam_context_start_dev_to_hw env i (ss_session_handle cmd) (ss_dev_handle cmd) w
      in (rc, if rc = 0 then set_state i CAM_CTX_READY w1 else w1))"

definition icp_dump_dev_in_ready :: "hw_env \<Rightarrow> nat \<Rightarrow> cam_dump_req_cmd \<Rightarrow> cam_world \<Rightarrow> rc \<times> cam_dump_req_cmd \<times> cam_world" where
  "icp_dump_dev_in_ready env i cmd w = cam_context_dump_dev_to_hw env i cmd w"

definition icp_flush_dev_in_ready :: "cam_flush_dev_cmd ctx_op" where
  "icp_flush_dev_in_ready env A i cmd w = cam_context_flush_dev_to_hw env A i (flush_type cmd) (fl_req_id cmd) w"

definition icp_config_dev_in_ready :: "cam_config_dev_cmd ctx_op" where
  "icp_config_dev_in_ready env A i cmd w =
     (case cam_mem_get_cpu_buf (ucast (packet_handle cmd)) (bufs w) of
        (rc, None) \<Rightarrow> (- EINVAL, w)
      | (rc, Some (packet_addr, len)) \<Rightarrow>
          if len < sizeof_packet \<or> len - sizeof_packet \<le> cf_offset cmd then (- EINVAL, w)
          else
            let packet = packet_addr + ucast (ucast (cf_offset cmd) :: u32);
                rc = cam_packet_util_validate_packet (kmemory w) packet (len - cf_offset cmd);
                op = pkt_op_code (kmemory w) packet AND 0xff in
            if rc \<noteq> 0 then (rc, w)
            else if op = CAM_ICP_OPCODE_IPE_SETTINGS \<or> op = CAM_ICP_OPCODE_BPS_SETTINGS
            then cam_context_config_dev_to_hw env i (packet_handle cmd) (cf_offset cmd) w
            else cam_context_prepare_dev_to_hw env A i (packet_handle cmd) (cf_offset cmd) w)"

text \<open>The ICP context is acquired again even if the stop failed.\<close>

definition icp_stop_dev_in_ready :: "'c ctx_op" where
  "icp_stop_dev_in_ready env A i cmd w =
     (let (rc, w1) = cam_context_stop_dev_to_hw env A i w in (rc, set_state i CAM_CTX_ACQUIRED w1))"

definition icp_release_dev_in_ready :: "unit ctx_op" where
  "icp_release_dev_in_ready env A i u w = icp_release_dev_in_acquired env A i u (snd (icp_stop_dev_in_ready env A i u w))"

definition icp_handle_buf_done_in_ready :: "hw_env \<Rightarrow> nat \<Rightarrow> u32 \<Rightarrow> u64 \<Rightarrow> cam_world \<Rightarrow> rc \<times> cam_world" where
  "icp_handle_buf_done_in_ready env i evt_id done w = cam_context_buf_done_from_hw env i done evt_id w"

definition cam_icp_ctx_state_machine :: "cam_context_state \<Rightarrow> cam_ctx_ops" where
  "cam_icp_ctx_state_machine s =
     (case s of
        CAM_CTX_AVAILABLE \<Rightarrow> no_ops\<lparr>acquire_dev := Some icp_acquire_dev_in_available\<rparr>
      | CAM_CTX_ACQUIRED \<Rightarrow> no_ops\<lparr>release_dev := Some icp_release_dev_in_acquired,
          start_dev := Some icp_start_dev_in_acquired, config_dev := Some icp_config_dev_in_ready,
          flush_dev := Some icp_flush_dev_in_ready, dump_dev := Some icp_dump_dev_in_ready,
          irq_ops := Some icp_handle_buf_done_in_ready,
          pagefault_ops := Some cam_icp_context_dump_active_request\<rparr>
      | CAM_CTX_READY \<Rightarrow> no_ops\<lparr>stop_dev := Some icp_stop_dev_in_ready, release_dev := Some icp_release_dev_in_ready,
          config_dev := Some icp_config_dev_in_ready, flush_dev := Some icp_flush_dev_in_ready,
          dump_dev := Some icp_dump_dev_in_ready, irq_ops := Some icp_handle_buf_done_in_ready,
          pagefault_ops := Some cam_icp_context_dump_active_request\<rparr>
      | CAM_CTX_ACTIVATED \<Rightarrow> no_ops\<lparr>pagefault_ops := Some cam_icp_context_dump_active_request\<rparr>
      | _ \<Rightarrow> no_ops)"

definition machine :: "cam_driver \<Rightarrow> cam_context_state \<Rightarrow> cam_ctx_ops" where
  "machine d = (case d of Drv_jpeg \<Rightarrow> cam_jpeg_ctx_state_machine | Drv_fd \<Rightarrow> cam_fd_ctx_state_machine
     | Drv_lrme \<Rightarrow> cam_lrme_ctx_state_machine | Drv_icp \<Rightarrow> cam_icp_ctx_state_machine)"

section \<open>Dispatch\<close>

definition ctx_ops :: "cam_context \<Rightarrow> cam_ctx_ops option" where
  "ctx_ops c = map_option (\<lambda>d. machine d (ctx_state c)) (state_machine c)"

text \<open>An operation of the table, the code \<open>e\<close> when the state has none, or \<open>EINVAL\<close> without a table.\<close>

definition dispatch :: "(cam_ctx_ops \<Rightarrow> 'f option) \<Rightarrow> rc \<Rightarrow> ('f \<Rightarrow> rc \<times> cam_world) \<Rightarrow> nat \<Rightarrow> cam_world \<Rightarrow> rc \<times> cam_world" where
  "dispatch sel e call i w =
     (case ctx_ops (ctxs w i) of
        None \<Rightarrow> (- EINVAL, w)
      | Some ops \<Rightarrow> (case sel ops of None \<Rightarrow> (e, w) | Some f \<Rightarrow> call f))"

definition cam_context_handle_hw_event :: "hw_env \<Rightarrow> nat \<Rightarrow> u32 \<Rightarrow> u64 \<Rightarrow> cam_world \<Rightarrow> rc \<times> cam_world" where
  "cam_context_handle_hw_event env i evt_id done w = dispatch irq_ops 0 (\<lambda>f. f env i evt_id done w) i w"

definition cam_context_handle_crm_get_dev_info :: "ptr ctx_op" where
  "cam_context_handle_crm_get_dev_info env A i p w = dispatch get_dev_info (- EPROTO) (\<lambda>f. f env A i p w) i w"

definition cam_context_handle_crm_link :: "ptr ctx_op" where
  "cam_context_handle_crm_link env A i p w = dispatch crm_link (- EPROTO) (\<lambda>f. f env A i p w) i w"

definition cam_context_handle_crm_unlink :: "ptr ctx_op" where
  "cam_context_handle_crm_unlink env A i p w = dispatch crm_unlink (- EPROTO) (\<lambda>f. f env A i p w) i w"

definition cam_context_handle_crm_apply_req :: "ptr ctx_op" where
  "cam_context_handle_crm_apply_req env A i p w = dispatch apply_req (- EPROTO) (\<lambda>f. f env A i p w) i w"

definition cam_context_handle_crm_flush_req :: "ptr ctx_op" where
  "cam_context_handle_crm_flush_req env A i p w = dispatch flush_req (- EPROTO) (\<lambda>f. f env A i p w) i w"

definition cam_context_handle_crm_process_evt :: "ptr ctx_op" where
  "cam_context_handle_crm_process_evt env A i p w = dispatch process_evt 0 (\<lambda>f. f env A i p w) i w"

definition cam_context_handle_crm_dump_req :: "ptr ctx_op" where
  "cam_context_handle_crm_dump_req env A i p w = dispatch dump_req 0 (\<lambda>f. f env A i p w) i w"

definition cam_context_dump_pf_info :: "hw_env \<Rightarrow> nat \<Rightarrow> u64 \<Rightarrow> u32 \<Rightarrow> cam_world \<Rightarrow> rc \<times> cam_world" where
  "cam_context_dump_pf_info env i iova buf_info w =
     (if state_machine (ctxs w i) \<noteq> None \<and> (ctx_state (ctxs w i) = CAM_CTX_UNINIT \<or> ctx_state (ctxs w i) = CAM_CTX_AVAILABLE)
      then (0, w) else dispatch pagefault_ops 0 (\<lambda>f. f env i iova buf_info w) i w)"

text \<open>
  The lists are set up again after the operation, whatever its code: all requests of the storage
  are free.
\<close>

definition init_lists :: "cam_context \<Rightarrow> cam_context" where
  "init_lists c = c\<lparr>active_req_list := [], wait_req_list := [], pending_req_list := [],
     free_req_list := [0..<req_size c], list_bug := False\<rparr>"

definition cam_context_handle_acquire_dev ::
    "hw_env \<Rightarrow> addrs \<Rightarrow> nat \<Rightarrow> cam_acquire_dev_cmd \<Rightarrow> cam_world \<Rightarrow> rc \<times> cam_acquire_dev_cmd \<times> cam_world" where
  "cam_context_handle_acquire_dev env A i cmd w =
     (case ctx_ops (ctxs w i) of
        None \<Rightarrow> (- EINVAL, cmd, w)
      | Some ops \<Rightarrow>
          let (rc, cmd1, w1) = (case acquire_dev ops of None \<Rightarrow> (- EPROTO, cmd, w) | Some f \<Rightarrow> f env A i cmd w)
          in (rc, cmd1, upd_ctx i init_lists w1))"

definition cam_context_handle_acquire_hw :: "ptr ctx_op" where
  "cam_context_handle_acquire_hw env A i p w = dispatch acquire_hw (- EPROTO) (\<lambda>f. f env A i p w) i w"

definition cam_context_handle_release_dev :: "unit ctx_op" where
  "cam_context_handle_release_dev env A i u w = dispatch release_dev (- EPROTO) (\<lambda>f. f env A i u w) i w"

definition cam_context_handle_release_hw :: "ptr ctx_op" where
  "cam_context_handle_release_hw env A i p w = dispatch release_hw (- EPROTO) (\<lambda>f. f env A i p w) i w"

definition cam_context_handle_flush_dev :: "cam_flush_dev_cmd ctx_op" where
  "cam_context_handle_flush_dev env A i cmd w = dispatch flush_dev 0 (\<lambda>f. f env A i cmd w) i w"

definition cam_context_handle_config_dev :: "cam_config_dev_cmd ctx_op" where
  "cam_context_handle_config_dev env A i cmd w = dispatch config_dev (- EPROTO) (\<lambda>f. f env A i cmd w) i w"

definition cam_context_handle_start_dev :: "cam_start_stop_dev_cmd ctx_op" where
  "cam_context_handle_start_dev env A i cmd w = dispatch start_dev 0 (\<lambda>f. f env A i cmd w) i w"

definition cam_context_handle_stop_dev :: "cam_start_stop_dev_cmd ctx_op" where
  "cam_context_handle_stop_dev env A i cmd w =
     (if state_machine (ctxs w i) = None then (- EINVAL, w)
      else let (rc, w1) = dispatch stop_dev 0 (\<lambda>f. f env A i cmd w) i w
           in (rc, upd_ctx i (\<lambda>c. c\<lparr>last_flush_req := 0\<rparr>) w1))"

definition cam_context_handle_info_dump :: "ptr ctx_op" where
  "cam_context_handle_info_dump env A i p w = dispatch dumpinfo_ops 0 (\<lambda>f. f env A i p w) i w"

definition cam_context_handle_dump_dev ::
    "hw_env \<Rightarrow> nat \<Rightarrow> cam_dump_req_cmd \<Rightarrow> cam_world \<Rightarrow> rc \<times> cam_dump_req_cmd \<times> cam_world" where
  "cam_context_handle_dump_dev env i cmd w =
     (case ctx_ops (ctxs w i) of
        None \<Rightarrow> (- EINVAL, cmd, w)
      | Some ops \<Rightarrow> (case dump_dev ops of None \<Rightarrow> (0, cmd, w) | Some f \<Rightarrow> f env i cmd w))"

text \<open>A release keeps the handle; afterwards the handle of the context is destroyed, if it has one.\<close>

definition cam_context_shutdown :: "hw_env \<Rightarrow> addrs \<Rightarrow> nat \<Rightarrow> cam_world \<Rightarrow> rc \<times> cam_world" where
  "cam_context_shutdown env A i w =
     (let (rc, w1) =
        (if ctx_state (ctxs w i) \<noteq> CAM_CTX_UNINIT \<and> ctx_state (ctxs w i) \<noteq> CAM_CTX_AVAILABLE
         then let (rc, w1) = cam_context_handle_release_dev env A i () w
              in (rc, if rc \<noteq> 0 then w1 else cam_context_putref i w1)
         else (- EINVAL, w)) in
      if cx_dev_hdl (ctxs w1 i) = - 1 then (rc, w1)
      else
        let (rc, tbl) = cam_destroy_device_hdl (cx_dev_hdl (ctxs w1 i)) (handles w1);
            w2 = w1\<lparr>handles := tbl\<rparr>
        in (rc, if rc \<noteq> 0 then w2 else upd_ctx i (\<lambda>c. c\<lparr>cx_dev_hdl := - 1\<rparr>) w2))"

section \<open>Initialisation\<close>

definition zero_ctx :: cam_context where
  "zero_ctx = \<lparr>dev_name = '''', cx_dev_id = 0, ctx_id = 0, cx_session_hdl = 0, cx_dev_hdl = 0, cx_link_hdl = 0,
     active_req_list = [], pending_req_list = [], wait_req_list = [], free_req_list = [], req = (\<lambda>_. zero_req),
     req_size = 0, hw_mgr_intf = None, ctx_state = CAM_CTX_UNINIT, state_machine = None, ctxt_to_hw_map = 0,
     refcount = 0, last_flush_req = 0, list_bug = False\<rparr>"

abbreviation CAM_CTX_DEV_NAME_MAX_LENGTH :: nat where "CAM_CTX_DEV_NAME_MAX_LENGTH \<equiv> 20"

definition cam_context_init ::
    "string \<Rightarrow> u64 \<Rightarrow> u32 \<Rightarrow> cam_hw_mgr_intf option \<Rightarrow> (nat \<Rightarrow> cam_ctx_request) option \<Rightarrow> nat \<Rightarrow> cam_context \<Rightarrow> rc \<times> cam_context" where
  "cam_context_init name dev id' intf reqs n c =
     (case (intf, reqs) of
        (Some k, Some rq) \<Rightarrow>
          (0, zero_ctx\<lparr>cx_dev_hdl := - 1, cx_link_hdl := - 1, cx_session_hdl := - 1,
               dev_name := strlcpy name CAM_CTX_DEV_NAME_MAX_LENGTH, cx_dev_id := dev, ctx_id := id',
               hw_mgr_intf := Some k, free_req_list := [0..<n],
               req := (\<lambda>r. if r < n then (rq r)\<lparr>rq_ctx := True\<rparr> else rq r), req_size := n,
               ctx_state := CAM_CTX_AVAILABLE\<rparr>)
      | _ \<Rightarrow> (- EINVAL, c))"

definition cam_context_deinit :: "cam_context \<Rightarrow> rc \<times> cam_context" where
  "cam_context_deinit c = (0, zero_ctx)"

definition drv_name :: "cam_driver \<Rightarrow> string" where
  "drv_name d = (case d of Drv_jpeg \<Rightarrow> ''cam-jpeg'' | Drv_fd \<Rightarrow> ''cam-fd'' | Drv_lrme \<Rightarrow> ''cam-lrme'' | Drv_icp \<Rightarrow> ''cam-icp'')"

definition drv_dev_id :: "cam_driver \<Rightarrow> u64" where
  "drv_dev_id d = (case d of Drv_jpeg \<Rightarrow> CAM_JPEG | Drv_fd \<Rightarrow> CAM_FD | Drv_lrme \<Rightarrow> CAM_LRME | Drv_icp \<Rightarrow> CAM_ICP)"

text \<open>
  The initialisation functions of the four drivers; the storage of the requests is zeroed. (The
  JPEG driver presets \<open>req_priv\<close>, which every configuration overwrites before it is read.)
\<close>

definition drv_context_init :: "cam_driver \<Rightarrow> cam_hw_mgr_intf option \<Rightarrow> u32 \<Rightarrow> cam_context \<Rightarrow> rc \<times> cam_context" where
  "drv_context_init d intf id' c =
     (let (rc, c1) = cam_context_init (drv_name d) (drv_dev_id d) id' intf (Some (\<lambda>_. zero_req)) CAM_CTX_REQ_MAX c
      in (rc, if rc \<noteq> 0 then c1 else c1\<lparr>state_machine := Some d\<rparr>))"

end
