(* ===== verification/Cam_Node.thy ===== *)
theory Cam_Node
  imports Cam_Ctx_Drv
begin

text \<open>
  The device node, \<open>cam_core/cam_node.c\<close>: the pool of contexts, the handlers of the ioctls, which
  find the context behind a device handle, and the shutdown when the last user closes the node.
\<close>

section \<open>Contexts behind handles\<close>

text \<open>
  \<open>cam_get_device_priv\<close> returns the private pointer of any live handle and the node takes it for a
  context. \<open>Foreign\<close> is a pointer that is not a context of this node; what the code does then
  depends on what lies there, and the operations below return \<open>None\<close>.
\<close>

datatype ctx_ref = No_ctx | Foreign | Ctx nat

definition ctx_of_hdl :: "addrs \<Rightarrow> int \<Rightarrow> cam_world \<Rightarrow> ctx_ref" where
  "ctx_of_hdl A h w =
     (let p = cam_get_device_priv h (handles w) in
      if p = 0 then No_ctx
      else case find (\<lambda>i. ctx_at A i = p) [0..<ctx_size w] of None \<Rightarrow> Foreign | Some i \<Rightarrow> Ctx i)"

text \<open>The checks the handlers share; \<open>named\<close> tells whether the name of the device is compared.\<close>

definition with_ctx ::
    "addrs \<Rightarrow> bool \<Rightarrow> int \<Rightarrow> int \<Rightarrow> 'r \<Rightarrow> (nat \<Rightarrow> cam_world \<Rightarrow> 'r \<times> cam_world) \<Rightarrow> cam_world \<Rightarrow> ('r \<times> cam_world) option" where
  "with_ctx A named dev_handle session_handle bad f w =
     (if dev_handle \<le> 0 \<or> session_handle \<le> 0 then Some (bad, w)
      else
        case ctx_of_hdl A dev_handle w of
          No_ctx \<Rightarrow> Some (bad, w)
        | Foreign \<Rightarrow> None
        | Ctx i \<Rightarrow> if named \<and> node_name w \<noteq> dev_name (ctxs w i) then Some (bad, w) else Some (f i w))"

section \<open>The pool of contexts\<close>

definition cam_node_get_ctxt_from_free_list :: "cam_world \<Rightarrow> nat option \<times> cam_world" where
  "cam_node_get_ctxt_from_free_list w =
     (case free_ctx_list w of
        [] \<Rightarrow> (None, w)
      | i # is \<Rightarrow> (Some i, upd_ctx i (\<lambda>c. c\<lparr>refcount := 1\<rparr>) (w\<lparr>free_ctx_list := is\<rparr>)))"

section \<open>Handlers\<close>

definition node_handle_query_cap :: "hw_env \<Rightarrow> cam_world \<Rightarrow> rc \<times> cam_world" where
  "node_handle_query_cap env w = (if has_hw_get_caps (node_hw w) then hw_do env Hw_get_caps w else (- EFAULT, w))"

definition node_handle_acquire_dev ::
    "hw_env \<Rightarrow> addrs \<Rightarrow> cam_acquire_dev_cmd \<Rightarrow> cam_world \<Rightarrow> rc \<times> cam_acquire_dev_cmd \<times> cam_world" where
  "node_handle_acquire_dev env A cmd w =
     (case cam_node_get_ctxt_from_free_list w of
        (None, w1) \<Rightarrow> (- ENOMEM, cmd, w1)
      | (Some i, w1) \<Rightarrow>
          let (rc, cmd1, w2) = cam_context_handle_acquire_dev env A i cmd (upd_ctx i (\<lambda>c. c\<lparr>last_flush_req := 0\<rparr>) w1)
          in if rc \<noteq> 0 then (rc, cmd1, cam_context_putref i w2) else (0, cmd1, w2))"

definition acquired_hw_dump :: "hw_env \<Rightarrow> addrs \<Rightarrow> cam_world \<Rightarrow> cam_world" where
  "acquired_hw_dump env A w = fold (\<lambda>i w. snd (cam_context_handle_info_dump env A i 0 w)) [0..<ctx_size w] w"

text \<open>Version 2 does not compare the name of the device.\<close>

definition node_handle_acquire_hw ::
    "hw_env \<Rightarrow> addrs \<Rightarrow> bool \<Rightarrow> int \<Rightarrow> int \<Rightarrow> ptr \<Rightarrow> cam_world \<Rightarrow> (rc \<times> cam_world) option" where
  "node_handle_acquire_hw env A v1 dev_handle session_handle p =
     with_ctx A v1 dev_handle session_handle (- EINVAL) (\<lambda>i w.
       let (rc, w1) = cam_context_handle_acquire_hw env A i p w
       in if rc \<noteq> 0 then (rc, acquired_hw_dump env A w1) else (0, w1))"

definition node_handle_start_dev :: "hw_env \<Rightarrow> addrs \<Rightarrow> cam_start_stop_dev_cmd \<Rightarrow> cam_world \<Rightarrow> (rc \<times> cam_world) option" where
  "node_handle_start_dev env A cmd =
     with_ctx A True (ss_dev_handle cmd) (ss_session_handle cmd) (- EINVAL) (\<lambda>i. cam_context_handle_start_dev env A i cmd)"

definition node_handle_stop_dev :: "hw_env \<Rightarrow> addrs \<Rightarrow> cam_start_stop_dev_cmd \<Rightarrow> cam_world \<Rightarrow> (rc \<times> cam_world) option" where
  "node_handle_stop_dev env A cmd =
     with_ctx A True (ss_dev_handle cmd) (ss_session_handle cmd) (- EINVAL) (\<lambda>i. cam_context_handle_stop_dev env A i cmd)"

definition node_handle_config_dev :: "hw_env \<Rightarrow> addrs \<Rightarrow> cam_config_dev_cmd \<Rightarrow> cam_world \<Rightarrow> (rc \<times> cam_world) option" where
  "node_handle_config_dev env A cmd =
     with_ctx A True (cf_dev_handle cmd) (cf_session_handle cmd) (- EINVAL) (\<lambda>i. cam_context_handle_config_dev env A i cmd)"

definition node_handle_flush_dev :: "hw_env \<Rightarrow> addrs \<Rightarrow> cam_flush_dev_cmd \<Rightarrow> cam_world \<Rightarrow> (rc \<times> cam_world) option" where
  "node_handle_flush_dev env A cmd =
     with_ctx A True (fl_dev_handle cmd) (fl_session_handle cmd) (- EINVAL) (\<lambda>i. cam_context_handle_flush_dev env A i cmd)"

text \<open>The code of the release itself is lost; the reference is dropped even if the release failed.\<close>

definition node_handle_release_dev :: "hw_env \<Rightarrow> addrs \<Rightarrow> int \<Rightarrow> int \<Rightarrow> cam_world \<Rightarrow> (rc \<times> cam_world) option" where
  "node_handle_release_dev env A session_handle dev_handle =
     with_ctx A True dev_handle session_handle (- EINVAL) (\<lambda>i w.
       let w1 = (if ctx_state (ctxs w i) = CAM_CTX_UNINIT then w
                 else cam_context_putref i (snd (cam_context_handle_release_dev env A i () w)));
           (rc, tbl) = cam_destroy_device_hdl dev_handle (handles w1);
           w2 = w1\<lparr>handles := tbl\<rparr>
       in (rc, if rc \<noteq> 0 then w2 else upd_ctx i (\<lambda>c. c\<lparr>cx_dev_hdl := - 1\<rparr>) w2))"

definition node_handle_dump_dev ::
    "hw_env \<Rightarrow> addrs \<Rightarrow> cam_dump_req_cmd \<Rightarrow> cam_world \<Rightarrow> ((rc \<times> cam_dump_req_cmd) \<times> cam_world) option" where
  "node_handle_dump_dev env A cmd =
     with_ctx A False (dq_dev_handle cmd) (dq_session_handle cmd) (- EINVAL, cmd) (\<lambda>i w.
       let (rc, cmd1, w1) = cam_context_handle_dump_dev env i cmd w in ((rc, cmd1), w1))"

definition node_handle_release_hw :: "hw_env \<Rightarrow> addrs \<Rightarrow> int \<Rightarrow> int \<Rightarrow> ptr \<Rightarrow> cam_world \<Rightarrow> (rc \<times> cam_world) option" where
  "node_handle_release_hw env A dev_handle session_handle p =
     with_ctx A True dev_handle session_handle (- EINVAL) (\<lambda>i. cam_context_handle_release_hw env A i p)"

section \<open>Calls of the request manager\<close>

definition node_crm_call :: "ptr ctx_op \<Rightarrow> hw_env \<Rightarrow> addrs \<Rightarrow> int \<Rightarrow> ptr \<Rightarrow> cam_world \<Rightarrow> (rc \<times> cam_world) option" where
  "node_crm_call handle env A dev_handle p w =
     (case ctx_of_hdl A dev_handle w of
        No_ctx \<Rightarrow> Some (- EINVAL, w)
      | Foreign \<Rightarrow> None
      | Ctx i \<Rightarrow> Some (handle env A i p w))"

definition node_crm_get_dev_info where
  "node_crm_get_dev_info = node_crm_call cam_context_handle_crm_get_dev_info"

definition node_crm_link_setup :: "hw_env \<Rightarrow> addrs \<Rightarrow> bool \<Rightarrow> int \<Rightarrow> ptr \<Rightarrow> cam_world \<Rightarrow> (rc \<times> cam_world) option" where
  "node_crm_link_setup env A link_enable =
     node_crm_call (if link_enable then cam_context_handle_crm_link else cam_context_handle_crm_unlink) env A"

definition node_crm_apply_req where
  "node_crm_apply_req = node_crm_call cam_context_handle_crm_apply_req"

definition node_crm_flush_req where
  "node_crm_flush_req = node_crm_call cam_context_handle_crm_flush_req"

definition node_crm_process_evt where
  "node_crm_process_evt = node_crm_call cam_context_handle_crm_process_evt"

definition node_crm_dump_req where
  "node_crm_dump_req = node_crm_call cam_context_handle_crm_dump_req"

section \<open>Start and end\<close>

text \<open>\<open>ctx_size\<close> and the contexts are arguments of the initialisation; \<open>n\<close> counts those set up so far.\<close>

fun node_add_ctxs :: "nat list \<Rightarrow> cam_world \<Rightarrow> rc \<times> cam_world" where
  "node_add_ctxs [] w = (0, w)"
| "node_add_ctxs (i # is) w =
     (if state_machine (ctxs w i) = None then (- 1, w)
      else node_add_ctxs is (w\<lparr>free_ctx_list := free_ctx_list w @ [i]\<rparr>))"

definition cam_node_init :: "cam_hw_mgr_intf \<Rightarrow> nat \<Rightarrow> string \<Rightarrow> cam_world \<Rightarrow> rc \<times> cam_world" where
  "cam_node_init intf n name w =
     node_add_ctxs [0..<n] (w\<lparr>node_name := strlcpy name CAM_CTX_DEV_NAME_MAX_LENGTH, node_hw := intf, ctx_size := n,
       free_ctx_list := []\<rparr>)"

definition shutdown_ctx :: "hw_env \<Rightarrow> addrs \<Rightarrow> nat \<Rightarrow> cam_world \<Rightarrow> cam_world" where
  "shutdown_ctx env A i w = (if 0 < cx_dev_hdl (ctxs w i) then snd (cam_context_shutdown env A i w) else w)"

definition cam_node_shutdown :: "hw_env \<Rightarrow> addrs \<Rightarrow> cam_world \<Rightarrow> rc \<times> cam_world" where
  "cam_node_shutdown env A w =
     (let w1 = fold (shutdown_ctx env A) [0..<ctx_size w] w
      in (0, if has_hw_close (node_hw w1) then snd (hw_do env Hw_close w1) else w1))"

section \<open>The ioctl\<close>

text \<open>
  The commands, with the structure that was copied from user space. \<open>Acquire_hw\<close> and \<open>Release_hw\<close>
  carry the version of the interface and the handles of the payload.
\<close>

datatype node_cmd =
    Query_cap
  | Acquire_dev cam_acquire_dev_cmd
  | Acquire_hw u32 int int ptr
  | Start_dev cam_start_stop_dev_cmd
  | Stop_dev cam_start_stop_dev_cmd
  | Config_dev cam_config_dev_cmd
  | Release_dev int int
  | Release_hw u32 int int ptr
  | Flush_req cam_flush_dev_cmd
  | Dump_req cam_dump_req_cmd
  | Unknown_op

text \<open>
  \<open>copy_in\<close> and \<open>copy_out\<close> tell whether the copies from and to user space succeed, \<open>alloc\<close> whether
  the structure of a hardware command can be allocated. The result also has the structure that is
  copied back, for the commands that have one.
\<close>

definition cam_node_handle_ioctl ::
    "hw_env \<Rightarrow> addrs \<Rightarrow> bool \<Rightarrow> bool \<Rightarrow> bool \<Rightarrow> node_cmd \<Rightarrow> cam_world \<Rightarrow> ((rc \<times> node_cmd option) \<times> cam_world) option" where
  "cam_node_handle_ioctl env A copy_in copy_out alloc cmd w =
     (let plain = (map_option (\<lambda>(rc, w). ((rc, None), w)));
          back = (\<lambda>rc out w. if rc \<noteq> 0 then ((rc, None), w) else if \<not> copy_out then ((- EFAULT, None), w) else ((0, Some out), w)) in
      if cmd = Unknown_op then Some ((- EINVAL, None), w)
      else if \<not> copy_in then Some ((- EFAULT, None), w)
      else
        case cmd of
          Query_cap \<Rightarrow> (let (rc, w1) = node_handle_query_cap env w in Some (back rc Query_cap w1))
        | Acquire_dev a \<Rightarrow> (let (rc, a1, w1) = node_handle_acquire_dev env A a w in Some (back rc (Acquire_dev a1) w1))
        | Acquire_hw v d s p \<Rightarrow>
            if v \<noteq> 1 \<and> v \<noteq> 2 then Some ((- EINVAL, None), w)
            else if \<not> alloc then Some ((- ENOMEM, None), w)
            else map_option (\<lambda>(rc, w1). back rc cmd w1) (node_handle_acquire_hw env A (v = 1) d s p w)
        | Start_dev c \<Rightarrow> plain (node_handle_start_dev env A c w)
        | Stop_dev c \<Rightarrow> plain (node_handle_stop_dev env A c w)
        | Config_dev c \<Rightarrow> plain (node_handle_config_dev env A c w)
        | Release_dev s d \<Rightarrow> plain (node_handle_release_dev env A s d w)
        | Release_hw v d s p \<Rightarrow>
            if v \<noteq> 1 then Some ((- EINVAL, None), w)
            else if \<not> alloc then Some ((- ENOMEM, None), w)
            else plain (node_handle_release_hw env A d s p w)
        | Flush_req c \<Rightarrow> plain (node_handle_flush_dev env A c w)
        | Dump_req c \<Rightarrow> map_option (\<lambda>((rc, c1), w1). back rc (Dump_req c1) w1) (node_handle_dump_dev env A c w)
        | Unknown_op \<Rightarrow> Some ((- EINVAL, None), w))"

end
