(* ===== verification/Cam_Ctx_Inv.thy ===== *)
theory Cam_Ctx_Inv
  imports Cam_Node
begin

text \<open>
  The invariant of the contexts: the four lists of a context hold different requests of its
  storage, and the contexts on the free list of the node are those without a reference. Every
  operation keeps it, apart from a configuration with an invalid input fence.
\<close>

section \<open>The invariant\<close>

definition lists :: "cam_context \<Rightarrow> nat list" where
  "lists c = active_req_list c @ pending_req_list c @ wait_req_list c @ free_req_list c"

definition lists_ok :: "cam_context \<Rightarrow> bool" where
  "lists_ok c \<longleftrightarrow> \<not> list_bug c \<and> distinct (lists c) \<and> set (lists c) \<subseteq> {..<CAM_CTX_REQ_MAX} \<and> req_size c = CAM_CTX_REQ_MAX"

definition pool_ok :: "cam_world \<Rightarrow> bool" where
  "pool_ok w \<longleftrightarrow> distinct (free_ctx_list w) \<and> set (free_ctx_list w) = {i. i < ctx_size w \<and> refcount (ctxs w i) = 0}"

definition world_wf :: "cam_world \<Rightarrow> bool" where
  "world_wf w \<longleftrightarrow> (\<forall>i < ctx_size w. lists_ok (ctxs w i)) \<and> pool_ok w"

declare lists_ok_def [wfdefs] pool_ok_def [wfdefs] world_wf_def [wfdefs]

lemma on_list_lists: "on_list r c \<longleftrightarrow> r \<in> set (lists c)"
  by (auto simp: on_list_def lists_def)

lemma ctxs_upd [simp]:
  "ctxs (upd_ctx i f w) = (ctxs w)(i := f (ctxs w i))" "fences (upd_ctx i f w) = fences w"
  "ctx_size (upd_ctx i f w) = ctx_size w" "free_ctx_list (upd_ctx i f w) = free_ctx_list w"
  "handles (upd_ctx i f w) = handles w" "bufs (upd_ctx i f w) = bufs w" "kmemory (upd_ctx i f w) = kmemory w"
  "node_name (upd_ctx i f w) = node_name w" "node_hw (upd_ctx i f w) = node_hw w" "hw_calls (upd_ctx i f w) = hw_calls w"
  by (simp_all add: upd_ctx_def)

lemma hw_do_frame [simp]:
  "ctxs (snd (hw_do env k w)) = ctxs w" "fences (snd (hw_do env k w)) = fences w" "ctx_size (snd (hw_do env k w)) = ctx_size w"
  "free_ctx_list (snd (hw_do env k w)) = free_ctx_list w" "handles (snd (hw_do env k w)) = handles w"
  "bufs (snd (hw_do env k w)) = bufs w" "kmemory (snd (hw_do env k w)) = kmemory w" "node_name (snd (hw_do env k w)) = node_name w"
  "hw_calls (snd (hw_do env k w)) = hw_calls w @ [k]"
  by (simp_all add: hw_do_def)

text \<open>The invariant only reads the contexts and the pool.\<close>

lemma world_wf_cong:
  "ctxs w' = ctxs w \<Longrightarrow> ctx_size w' = ctx_size w \<Longrightarrow> free_ctx_list w' = free_ctx_list w \<Longrightarrow> world_wf w' = world_wf w"
  by (simp add: wfdefs)

lemma world_wf_hw [simp]: "world_wf (snd (hw_do env k w)) = world_wf w"
  by (rule world_wf_cong) simp_all

lemma world_wf_fences [simp]: "world_wf (w\<lparr>fences := f\<rparr>) = world_wf w" "world_wf (w\<lparr>handles := t\<rparr>) = world_wf w"
  "world_wf (w\<lparr>kmemory := m\<rparr>) = world_wf w"
  by (simp_all add: wfdefs)

lemma world_wf_upd:
  "world_wf w \<Longrightarrow> (i < ctx_size w \<Longrightarrow> lists_ok (f (ctxs w i))) \<Longrightarrow> refcount (f (ctxs w i)) = refcount (ctxs w i) \<Longrightarrow>
     world_wf (upd_ctx i f w)"
  by (auto simp: wfdefs)

lemma wf_lists: "world_wf w \<Longrightarrow> i < ctx_size w \<Longrightarrow> lists_ok (ctxs w i)"
  by (simp add: world_wf_def)

lemma world_wf_change:
  "world_wf w \<Longrightarrow> i < ctx_size w \<Longrightarrow> (lists_ok (ctxs w i) \<Longrightarrow> lists_ok (f (ctxs w i))) \<Longrightarrow>
     refcount (f (ctxs w i)) = refcount (ctxs w i) \<Longrightarrow> world_wf (upd_ctx i f w)"
  using wf_lists world_wf_upd by blast

section \<open>Moving requests between lists\<close>

lemma lists_set_req [simp]: "lists (set_req r f c) = lists c" "lists_ok (set_req r f c) = lists_ok c"
  "refcount (set_req r f c) = refcount c" "on_list k (set_req r f c) = on_list k c"
  "hw_mgr_intf (set_req r f c) = hw_mgr_intf c"
  by (simp_all add: lists_def lists_ok_def set_req_def on_list_def)

lemma req_del_facts [simp]:
  "refcount (req_del r c) = refcount c" "\<not> on_list r (req_del r c)" "on_list k (req_del r c) \<longleftrightarrow> k \<noteq> r \<and> on_list k c"
  "req (req_del r c) = req c" "hw_mgr_intf (req_del r c) = hw_mgr_intf c"
  by (auto simp: req_del_def on_list_def)

lemma lists_req_del: "lists (req_del r c) = removeAll r (lists c)"
  by (simp add: lists_def req_del_def)

lemma lists_ok_req_del [simp]: "lists_ok c \<Longrightarrow> lists_ok (req_del r c)"
  by (auto simp: lists_ok_def lists_req_del distinct_removeAll) (simp_all add: req_del_def)

lemma add_facts [simp]:
  "refcount (add_free r c) = refcount c" "refcount (add_active r c) = refcount c" "refcount (add_pending r c) = refcount c"
  "on_list k (add_free r c) \<longleftrightarrow> k = r \<or> on_list k c" "on_list k (add_active r c) \<longleftrightarrow> k = r \<or> on_list k c"
  "on_list k (add_pending r c) \<longleftrightarrow> k = r \<or> on_list k c"
  "req (add_free r c) = req c" "req (add_active r c) = req c" "req (add_pending r c) = req c"
  by (auto simp: add_free_def add_active_def add_pending_def on_list_def)

lemma lists_ok_add:
  assumes "lists_ok c" "r < CAM_CTX_REQ_MAX" "\<not> on_list r c"
  shows "lists_ok (add_free r c)" "lists_ok (add_active r c)" "lists_ok (add_pending r c)"
  using assms
  by (auto simp: lists_ok_def lists_def add_free_def add_active_def add_pending_def on_list_def)

text \<open>Taking a request off its list and adding it to one is always right.\<close>

lemma lists_ok_move [simp]:
  assumes "lists_ok c" "r < CAM_CTX_REQ_MAX"
  shows "lists_ok (add_free r (req_del r c))" "lists_ok (add_active r (req_del r c))"
  using assms by (simp_all add: lists_ok_add)

lemma lists_ok_init [simp]: "req_size c = CAM_CTX_REQ_MAX \<Longrightarrow> lists_ok (init_lists c)"
  by (auto simp: lists_ok_def lists_def init_lists_def)

section \<open>References\<close>

lemma putref_frame [simp]:
  "ctx_size (cam_context_putref i w) = ctx_size w" "fences (cam_context_putref i w) = fences w"
  "hw_calls (cam_context_putref i w) = hw_calls w" "handles (cam_context_putref i w) = handles w"
  "req (ctxs (cam_context_putref i w) k) = req (ctxs w k)" "lists (ctxs (cam_context_putref i w) k) = lists (ctxs w k)"
  "on_list r (ctxs (cam_context_putref i w) k) = on_list r (ctxs w k)"
  "hw_mgr_intf (ctxs (cam_context_putref i w) k) = hw_mgr_intf (ctxs w k)"
  "pending_req_list (ctxs (cam_context_putref i w) k) = pending_req_list (ctxs w k)"
  "active_req_list (ctxs (cam_context_putref i w) k) = active_req_list (ctxs w k)"
  "free_req_list (ctxs (cam_context_putref i w) k) = free_req_list (ctxs w k)"
  by (auto simp: cam_context_putref_def cam_node_put_ctxt_to_free_list_def Let_def lists_def on_list_def)

lemma world_wf_putref [simp]:
  assumes "world_wf w" "i < ctx_size w"
  shows "world_wf (cam_context_putref i w)"
proof (cases "refcount (ctxs w i) = 1")
  case True
  then have "i \<notin> set (free_ctx_list w)" using assms(1) by (auto simp: wfdefs)
  then show ?thesis
    using assms True by (auto simp: wfdefs cam_context_putref_def cam_node_put_ctxt_to_free_list_def Let_def lists_def)
next
  case False
  then show ?thesis using assms by (auto simp: wfdefs cam_context_putref_def Let_def lists_def)
qed

lemma getref_frame [simp]:
  "ctx_size (cam_context_getref i w) = ctx_size w" "fences (cam_context_getref i w) = fences w"
  "hw_calls (cam_context_getref i w) = hw_calls w"
  "req (ctxs (cam_context_getref i w) k) = req (ctxs w k)" "on_list r (ctxs (cam_context_getref i w) k) = on_list r (ctxs w k)"
  "lists (ctxs (cam_context_getref i w) k) = lists (ctxs w k)"
  by (auto simp: cam_context_getref_def on_list_def lists_def)

lemma world_wf_getref [simp]: "world_wf w \<Longrightarrow> world_wf (cam_context_getref i w)"
  by (auto simp: wfdefs cam_context_getref_def lists_def)

end
