(* ===== verification/Cam_Ctx_Pres.thy ===== *)
theory Cam_Ctx_Pres
  imports Cam_Ctx_Inv
begin

text \<open>Every operation of \<open>cam_context_utils.c\<close> keeps the invariant of the contexts.\<close>

section \<open>What an operation on a context keeps\<close>

text \<open>
  An operation on context \<open>i\<close> keeps the invariant and the number of contexts. The laws are proved
  once per operation; compositions inherit them.
\<close>

locale ctx_op =
  fixes i :: nat and f :: "cam_world \<Rightarrow> cam_world"
  assumes keeps: "world_wf w \<Longrightarrow> i < ctx_size w \<Longrightarrow> world_wf (f w)"
    and sizes: "ctx_size (f w) = ctx_size w"
begin

lemma twice: "ctx_op i g \<Longrightarrow> ctx_op i (\<lambda>w. g (f w))"
  using keeps sizes by (simp add: ctx_op_def)

end

lemma ctx_op_upd:
  assumes "\<And>c. lists_ok c \<Longrightarrow> lists_ok (g c)" "\<And>c. refcount (g c) = refcount c"
  shows "ctx_op i (upd_ctx i g)"
  using assms by unfold_locales (simp_all add: world_wf_change)

lemma ctx_op_hw: "ctx_op i (\<lambda>w. snd (hw_do env k w))"
  by unfold_locales simp_all

section \<open>Completion and submission\<close>

lemma free_request_wf:
  assumes "world_wf w" "i < ctx_size w" "r < CAM_CTX_REQ_MAX" "\<not> on_list r (ctxs w i)"
  shows "world_wf (free_request i r w)"
  unfolding free_request_def using assms by (intro world_wf_change) (simp_all add: lists_ok_add)

lemma free_request_frame [simp]:
  "ctx_size (free_request i r w) = ctx_size w" "fences (free_request i r w) = fences w"
  "on_list k (ctxs (free_request i r w) i) \<longleftrightarrow> k = r \<or> on_list k (ctxs w i)"
  by (simp_all add: free_request_def)

lemma wf_bound:
  assumes "world_wf w" "i < ctx_size w" "on_list r (ctxs w i)"
  shows "r < CAM_CTX_REQ_MAX"
  using assms by (auto simp: world_wf_def lists_ok_def on_list_lists)

interpretation buf_done: ctx_op i "\<lambda>w. snd (cam_context_buf_done_from_hw env i id' st w)" for env i id' st
proof
  fix w :: cam_world
  assume wf: "world_wf w" and i: "i < ctx_size w"
  show "world_wf (snd (cam_context_buf_done_from_hw env i id' st w))"
  proof (cases "active_req_list (ctxs w i)")
    case (Cons r rs)
    then have r: "r < CAM_CTX_REQ_MAX" using wf_bound [OF wf i] by (simp add: on_list_def)
    show ?thesis
      using wf i r Cons
      by (auto simp: cam_context_buf_done_from_hw_def Let_def upd_req_def intro!: free_request_wf world_wf_change)
  qed (use wf in \<open>simp add: cam_context_buf_done_from_hw_def\<close>)
next
  fix w :: cam_world
  show "ctx_size (snd (cam_context_buf_done_from_hw env i id' st w)) = ctx_size w"
    by (simp add: cam_context_buf_done_from_hw_def upd_req_def Let_def split: list.splits)
qed

lemma apply_req_op:
  assumes "r < CAM_CTX_REQ_MAX"
  shows "ctx_op i (\<lambda>w. snd (cam_context_apply_req_to_hw env i r w))"
proof
  fix w :: cam_world
  assume wf: "world_wf w" and i: "i < ctx_size w"
  let ?w1 = "upd_ctx i (\<lambda>c. add_active r (req_del r c)) w"
  have w1: "world_wf ?w1" using wf i assms by (intro world_wf_change) simp_all
  have "world_wf (upd_ctx i (\<lambda>c. add_free r (req_del r c)) (snd (hw_do env k ?w1)))" for k
    using w1 i assms by (intro world_wf_change) simp_all
  then show "world_wf (snd (cam_context_apply_req_to_hw env i r w))"
    using wf w1 by (simp add: cam_context_apply_req_to_hw_def split_beta Let_def)
next
  fix w :: cam_world
  show "ctx_size (snd (cam_context_apply_req_to_hw env i r w)) = ctx_size w"
    by (simp add: cam_context_apply_req_to_hw_def Let_def split_beta)
qed

section \<open>Flush\<close>

lemma dereg_loop_frame:
  "ctx_size (snd (dereg_loop A i r es fr w)) = ctx_size w"
  "on_list k (ctxs (snd (dereg_loop A i r es fr w)) i) = on_list k (ctxs w i)"
  "hw_mgr_intf (ctxs (snd (dereg_loop A i r es fr w)) i) = hw_mgr_intf (ctxs w i)"
  by (induction es arbitrary: fr w) (simp_all add: Let_def split_beta upd_req_def)

lemma dereg_loop_wf: "world_wf w \<Longrightarrow> i < ctx_size w \<Longrightarrow> world_wf (snd (dereg_loop A i r es fr w))"
proof (induction es arbitrary: fr w)
  case (Cons e es)
  have "world_wf (upd_req i r g (cam_context_putref i (w\<lparr>fences := f\<rparr>)))" for f g
    using Cons.prems unfolding upd_req_def
    by (intro world_wf_change) simp_all
  then show ?case using Cons by (simp add: Let_def split_beta upd_req_def)
qed simp

lemma signal_out_frame [simp]:
  "ctxs (signal_out_error i r w) = ctxs w" "ctx_size (signal_out_error i r w) = ctx_size w"
  "world_wf (signal_out_error i r w) = world_wf w" "hw_calls (signal_out_error i r w) = hw_calls w"
  by (simp_all add: signal_out_error_def)

text \<open>
  A request that is on no list, with its callbacks taken back and its fences signalled, may go to
  the free list; the requests of \<open>R\<close> stay off the lists.
\<close>

lemma dereg_free_wf:
  assumes "world_wf w" "i < ctx_size w" "r < CAM_CTX_REQ_MAX" "\<not> on_list r (ctxs w i)"
    and "dereg_loop A i r es False w = (fr, w2)"
  shows "world_wf (if fr then free_request i r (signal_out_error i r w2) else signal_out_error i r w2)"
    "ctx_size (if fr then free_request i r (signal_out_error i r w2) else signal_out_error i r w2) = ctx_size w"
    "k \<noteq> r \<Longrightarrow> on_list k (ctxs (if fr then free_request i r (signal_out_error i r w2) else signal_out_error i r w2) i) = on_list k (ctxs w i)"
proof -
  have w2: "world_wf w2" "ctx_size w2 = ctx_size w" "\<And>k. on_list k (ctxs w2 i) = on_list k (ctxs w i)"
    using dereg_loop_wf [OF assms(1,2), where A = A and r = r and es = es and fr = False]
      dereg_loop_frame [where A = A and i = i and r = r and es = es and fr = False and w = w] assms(5) by auto
  show "world_wf (if fr then free_request i r (signal_out_error i r w2) else signal_out_error i r w2)"
    using w2 assms(2-4) by (simp add: free_request_wf)
  show "ctx_size (if fr then free_request i r (signal_out_error i r w2) else signal_out_error i r w2) = ctx_size w"
    "k \<noteq> r \<Longrightarrow> on_list k (ctxs (if fr then free_request i r (signal_out_error i r w2) else signal_out_error i r w2) i) = on_list k (ctxs w i)"
    using w2 by auto
qed

lemma flush_pending_wf:
  assumes "world_wf w" "i < ctx_size w" "r < CAM_CTX_REQ_MAX" "\<not> on_list r (ctxs w i)"
  shows "world_wf (flush_pending A i r w)" "ctx_size (flush_pending A i r w) = ctx_size w"
    "k \<noteq> r \<Longrightarrow> on_list k (ctxs (flush_pending A i r w) i) = on_list k (ctxs w i)"
proof -
  let ?w = "upd_req i r (\<lambda>q. q\<lparr>flushed := True\<rparr>) w"
  have w: "world_wf ?w" "i < ctx_size ?w" "\<not> on_list r (ctxs ?w i)"
    using assms by (auto simp: upd_req_def intro!: world_wf_change)
  obtain fr w2 where d: "dereg_loop A i r (in_map_entries (req (ctxs ?w i) r)) False ?w = (fr, w2)" by (metis prod.exhaust)
  note f = dereg_free_wf [OF w(1,2) assms(3) w(3) d]
  have e: "flush_pending A i r w = (if fr then free_request i r (signal_out_error i r w2) else signal_out_error i r w2)"
    using d by (simp add: flush_pending_def Let_def)
  show "world_wf (flush_pending A i r w)" using f(1) by (simp only: e)
  show "ctx_size (flush_pending A i r w) = ctx_size w" using f(2) by (simp only: e) (simp add: upd_req_def)
  show "on_list k (ctxs (flush_pending A i r w) i) = on_list k (ctxs w i)" if "k \<noteq> r"
    using f(3) [OF that] by (simp only: e) (simp add: upd_req_def)
qed

lemma flush_active_wf:
  assumes "world_wf w" "i < ctx_size w" "r < CAM_CTX_REQ_MAX" "\<not> on_list r (ctxs w i)"
  shows "world_wf (flush_active i r w)" "ctx_size (flush_active i r w) = ctx_size w"
    "k \<noteq> r \<Longrightarrow> on_list k (ctxs (flush_active i r w) i) = on_list k (ctxs w i)"
  using assms by (auto simp: flush_active_def intro!: free_request_wf)

text \<open>A loop over requests that are off the lists.\<close>

lemma fold_off_wf:
  assumes step: "\<And>r w. world_wf w \<Longrightarrow> i < ctx_size w \<Longrightarrow> r < CAM_CTX_REQ_MAX \<Longrightarrow> \<not> on_list r (ctxs w i) \<Longrightarrow>
      world_wf (g r w) \<and> ctx_size (g r w) = ctx_size w \<and> (\<forall>k. k \<noteq> r \<longrightarrow> on_list k (ctxs (g r w) i) = on_list k (ctxs w i))"
    and "world_wf w" "i < ctx_size w" "distinct rs" "\<forall>r\<in>set rs. r < CAM_CTX_REQ_MAX \<and> \<not> on_list r (ctxs w i)"
  shows "world_wf (fold g rs w) \<and> ctx_size (fold g rs w) = ctx_size w"
  using assms(2-5)
proof (induction rs arbitrary: w)
  case (Cons r rs)
  have s: "world_wf (g r w)" "ctx_size (g r w) = ctx_size w" "\<And>k. k \<noteq> r \<Longrightarrow> on_list k (ctxs (g r w) i) = on_list k (ctxs w i)"
    using step [of w r] Cons.prems by auto
  have "\<forall>k\<in>set rs. k < CAM_CTX_REQ_MAX \<and> \<not> on_list k (ctxs (g r w) i)"
    using Cons.prems s(3) by (metis distinct.simps(2) list.set_intros(2))
  then show ?case using Cons.IH [of "g r w"] Cons.prems s by simp
qed simp

text \<open>Detaching a list: its requests are then on no list.\<close>

lemma detach_pending:
  assumes "world_wf w" "i < ctx_size w"
  shows "world_wf (upd_ctx i (\<lambda>c. c\<lparr>pending_req_list := []\<rparr>) w)" "distinct (pending_req_list (ctxs w i))"
    "r \<in> set (pending_req_list (ctxs w i)) \<Longrightarrow> r < CAM_CTX_REQ_MAX \<and> \<not> on_list r ((ctxs w i)\<lparr>pending_req_list := []\<rparr>)"
  using wf_lists [OF assms] assms by (auto simp: lists_ok_def lists_def on_list_def intro!: world_wf_change)

lemma detach_active:
  assumes "world_wf w" "i < ctx_size w"
  shows "world_wf (upd_ctx i (\<lambda>c. c\<lparr>active_req_list := []\<rparr>) w)" "distinct (active_req_list (ctxs w i))"
    "r \<in> set (active_req_list (ctxs w i)) \<Longrightarrow> r < CAM_CTX_REQ_MAX \<and> \<not> on_list r ((ctxs w i)\<lparr>active_req_list := []\<rparr>)"
  using wf_lists [OF assms] assms by (auto simp: lists_ok_def lists_def on_list_def intro!: world_wf_change)

lemma flush_ctx_wf:
  assumes wf: "world_wf w" and i: "i < ctx_size w"
  shows "world_wf (snd (cam_context_flush_ctx_to_hw env A i w)) \<and> ctx_size (snd (cam_context_flush_ctx_to_hw env A i w)) = ctx_size w"
proof -
  define w1 where "w1 = fold (flush_pending A i) (pending_req_list (ctxs w i)) (upd_ctx i (\<lambda>c. c\<lparr>pending_req_list := []\<rparr>) w)"
  have w1: "world_wf w1 \<and> ctx_size w1 = ctx_size w"
    unfolding w1_def using detach_pending [OF wf i] i flush_pending_wf
    by (rule_tac fold_off_wf [where i = i and w = "upd_ctx i (\<lambda>c. c\<lparr>pending_req_list := []\<rparr>) w", simplified]) auto
  have fin: "world_wf (fold (flush_active i) (active_req_list (ctxs w1 i)) (upd_ctx i (\<lambda>c. c\<lparr>active_req_list := []\<rparr>) w2)) \<and>
      ctx_size (fold (flush_active i) (active_req_list (ctxs w1 i)) (upd_ctx i (\<lambda>c. c\<lparr>active_req_list := []\<rparr>) w2)) = ctx_size w"
    if w2: "world_wf w2" "ctx_size w2 = ctx_size w" "ctxs w2 = ctxs w1" for w2
    using detach_active [of w2 i] w2 i flush_active_wf
    by (rule_tac fold_off_wf [where i = i and w = "upd_ctx i (\<lambda>c. c\<lparr>active_req_list := []\<rparr>) w2", simplified, unfolded w2(2)]) auto
  show ?thesis
    using w1 fin [of w1] fin [of "snd (hw_do env k w1)" for k]
    by (simp add: cam_context_flush_ctx_to_hw_def Let_def w1_def [symmetric] split: option.splits)
qed

interpretation flush_ctx: ctx_op i "\<lambda>w. snd (cam_context_flush_ctx_to_hw env A i w)" for env A i
proof
  fix w :: cam_world
  show "ctx_size (snd (cam_context_flush_ctx_to_hw env A i w)) = ctx_size w"
  proof -
    have "ctx_size (fold (flush_pending A i) rs w) = ctx_size w" for rs w
      by (induction rs arbitrary: w)
        (simp_all add: flush_pending_def Let_def split_beta dereg_loop_frame upd_req_def)
    moreover have "ctx_size (fold (flush_active i) rs w) = ctx_size w" for rs w
      by (induction rs arbitrary: w) (simp_all add: flush_active_def)
    ultimately show ?thesis
      by (simp add: cam_context_flush_ctx_to_hw_def Let_def split: option.splits)
  qed
qed (use flush_ctx_wf in blast)

text \<open>The common end of a flush of one request, after an optional call of the hardware.\<close>

lemma find_in: "find P xs = Some x \<Longrightarrow> x \<in> set xs \<and> P x"
  by (auto simp: find_Some_iff)

lemma find_on_list:
  assumes "world_wf w" "i < ctx_size w" "find P rs = Some r" "set rs \<subseteq> set (lists (ctxs w i))"
  shows "r < CAM_CTX_REQ_MAX"
proof -
  have "r \<in> set rs" using find_in [OF assms(3)] by simp
  then show ?thesis using assms wf_bound by (auto simp: on_list_lists)
qed

interpretation flush_req: ctx_op i "\<lambda>w. snd (cam_context_flush_req_to_hw env A i q w)" for env A i q
proof
  fix w :: cam_world
  let ?c = "ctxs w i"
  let ?hit = "\<lambda>r. request_id (req ?c r) = q"
  have call: "ctxs (hw_flush_req env c p a v) = ctxs v" "ctx_size (hw_flush_req env c p a v) = ctx_size v"
    "world_wf (hw_flush_req env c p a v) = world_wf v" for c p a v
    by (simp_all add: hw_flush_req_def)
  note e = cam_context_flush_req_to_hw_def
  show "ctx_size (snd (cam_context_flush_req_to_hw env A i q w)) = ctx_size w"
    by (simp add: e Let_def split_beta call dereg_loop_frame split: option.splits)
  assume wf: "world_wf w" and i: "i < ctx_size w"
  show "world_wf (snd (cam_context_flush_req_to_hw env A i q w))"
  proof (cases "find ?hit (pending_req_list ?c)")
    case (Some r)
    have r: "r < CAM_CTX_REQ_MAX" by (rule find_on_list [OF wf i Some]) (auto simp: lists_def)
    let ?w2 = "hw_flush_req env ?c [req_priv (req ?c r)] [] (upd_ctx i (\<lambda>c. set_req r (\<lambda>q. q\<lparr>flushed := True\<rparr>) (req_del r c)) w)"
    obtain fr w3 where d: "dereg_loop A i r (in_map_entries (req ?c r)) False ?w2 = (fr, w3)" by (metis prod.exhaust)
    have "world_wf ?w2" "i < ctx_size ?w2" "\<not> on_list r (ctxs ?w2 i)"
      using wf i by (simp_all add: call world_wf_change)
    from dereg_free_wf(1) [OF this(1,2) r this(3) d] show ?thesis using Some d by (simp add: e Let_def)
  next
    case None
    have "world_wf (free_request i r (signal_out_error i r (hw_flush_req env ?c [] [p] (upd_ctx i (req_del r) w))))"
      if "find ?hit (active_req_list ?c) = Some r" for r p
    proof (rule free_request_wf)
      show "r < CAM_CTX_REQ_MAX" by (rule find_on_list [OF wf i that]) (auto simp: lists_def)
    qed (use wf i in \<open>simp_all add: call world_wf_change\<close>)
    then show ?thesis using None wf by (simp add: e Let_def split: option.splits)
  qed
qed

interpretation flush_dev: ctx_op i "\<lambda>w. snd (cam_context_flush_dev_to_hw env A i ty q w)" for env A i ty q
proof
  fix w :: cam_world
  show "ctx_size (snd (cam_context_flush_dev_to_hw env A i ty q w)) = ctx_size w"
    by (simp add: cam_context_flush_dev_to_hw_def flush_ctx.sizes flush_req.sizes)
  assume wf: "world_wf w" and i: "i < ctx_size w"
  have "world_wf (upd_ctx i (\<lambda>c. c\<lparr>last_flush_req := n\<rparr>) w)" for n
    by (rule world_wf_change [OF wf i]) (simp_all add: lists_ok_def lists_def)
  then show "world_wf (snd (cam_context_flush_dev_to_hw env A i ty q w))"
    using wf i by (simp add: cam_context_flush_dev_to_hw_def flush_ctx.keeps flush_req.keeps)
qed

section \<open>Input fences\<close>

lemma sync_callback_op:
  assumes r: "r < CAM_CTX_REQ_MAX"
  shows "ctx_op i (cam_context_sync_callback env A i r st)"
proof
  fix w :: cam_world
  let ?w1 = "upd_req i r (\<lambda>q. q\<lparr>num_in_acked := num_in_acked q + 1\<rparr>) w"
  let ?q = "req (ctxs ?w1 i) r"
  define w2 where "w2 = (if st = CAM_SYNC_STATE_SIGNALED_ERROR
     then snd (cam_context_flush_req_to_hw env A i (request_id ?q) ?w1) else ?w1)"
  define w3 where "w3 = (if num_in_acked ?q = int (length (in_map_entries ?q))
     then (if \<not> flushed (req (ctxs w2 i) r) then snd (cam_context_apply_req_to_hw env i r w2)
       else upd_ctx i (\<lambda>c. add_free r (req_del r (set_req r (\<lambda>q. q\<lparr>flushed := False, rq_ctx := False\<rparr>) c))) w2)
     else ?w1)"
  have e: "cam_context_sync_callback env A i r st w =
      (if in_interrupt env \<or> \<not> rq_ctx (req (ctxs w i) r) then w else cam_context_putref i w3)"
    by (simp add: cam_context_sync_callback_def w2_def w3_def Let_def)
  have s: "ctx_size w2 = ctx_size w" "ctx_size w3 = ctx_size w"
    using ctx_op.sizes [OF apply_req_op [OF r]] by (simp_all add: w2_def w3_def upd_req_def flush_req.sizes)
  then show "ctx_size (cam_context_sync_callback env A i r st w) = ctx_size w" by (simp add: e)
  assume wf: "world_wf w" and i: "i < ctx_size w"
  have w1: "world_wf ?w1" unfolding upd_req_def by (rule world_wf_change [OF wf i]) simp_all
  then have w2: "world_wf w2" using i by (simp add: w2_def flush_req.keeps upd_req_def)
  have "world_wf (upd_ctx i (\<lambda>c. add_free r (req_del r (set_req r (\<lambda>q. q\<lparr>flushed := False, rq_ctx := False\<rparr>) c))) w2)"
    by (rule world_wf_change [OF w2]) (use i s r in simp_all)
  then have "world_wf w3"
    using w1 w2 ctx_op.keeps [OF apply_req_op [OF r] w2, of i env] i s by (simp add: w3_def)
  then show "world_wf (cam_context_sync_callback env A i r st w)" using wf i s by (simp add: e)
qed

lemma find_req_bounds: "find_req A w p = Some (i, r) \<Longrightarrow> i < ctx_size w \<and> r < CAM_CTX_REQ_MAX \<and> req_at A i r = p"
  using find_in [of "\<lambda>(i, r). req_at A i r = p"] by (fastforce simp: find_req_def)

lemma run_callback_wf:
  assumes "world_wf w"
  shows "world_wf (run_callback env A k w)" "ctx_size (run_callback env A k w) = ctx_size w"
proof -
  obtain func obj st p where k: "k = (func, obj, st, p)" by (cases k)
  show "world_wf (run_callback env A k w)" "ctx_size (run_callback env A k w) = ctx_size w"
    using assms find_req_bounds [of A w p] ctx_op.keeps [OF sync_callback_op] ctx_op.sizes [OF sync_callback_op]
    by (auto simp: run_callback_def k split: option.splits)
qed

lemma fence_work_wf: "world_wf w \<Longrightarrow> world_wf (fence_work env A w)"
  by (simp add: fence_work_def run_callback_wf split: list.splits)

section \<open>Configuration\<close>

lemma register_loop_frame: "r < CAM_CTX_REQ_MAX \<Longrightarrow> ctx_size (snd (register_loop env A i r j es w)) = ctx_size w"
  by (induction es arbitrary: j w) (simp_all add: Let_def split_beta ctx_op.sizes [OF sync_callback_op])

lemma register_loop_wf:
  assumes "world_wf w" "i < ctx_size w" "r < CAM_CTX_REQ_MAX" "register_loop env A i r j es w = (rc, w')"
  shows "world_wf w' \<and> (rc \<noteq> 0 \<longrightarrow> \<not> on_list r (ctxs w' i))"
  using assms(1,2,4)
proof (induction es arbitrary: j w)
  case (Cons e es)
  let ?g = "cam_context_getref i w"
  obtain rc1 f where c: "cam_sync_register_callback (cb_alloc env j) (sync_cb A) (req_at A i r) (sync_id e) (fences ?g) = (rc1, f)"
    by (metis prod.exhaust)
  let ?w2 = "?g\<lparr>fences := f\<rparr>"
  have w2: "world_wf ?w2" "i < ctx_size ?w2" using Cons.prems(1,2) by simp_all
  show ?case
  proof (cases "rc1 = 0")
    case False
    have "world_wf (cam_context_putref i (upd_ctx i (req_del r) ?w2))"
      by (rule world_wf_putref, rule world_wf_change [OF w2]) (use w2 in simp_all)
    then show ?thesis using Cons.prems(3) c False by auto
  next
    case True
    define w3 where "w3 = (if length (cb_calls f) = length (cb_calls (fences ?g)) then ?w2
        else cam_context_sync_callback env A i r (row_state (sync_table f (nat (sync_id e)))) ?w2)"
    have w3: "world_wf w3" "i < ctx_size w3"
      using w2 ctx_op.keeps [OF sync_callback_op [OF assms(3)], of ?w2 i] ctx_op.sizes [OF sync_callback_op [OF assms(3)]]
      by (simp_all add: w3_def)
    have "register_loop env A i r (j + 1) es w3 = (rc, w')"
      using Cons.prems(3) c True by (simp add: w3_def Let_def)
    from Cons.IH [OF w3 this] show ?thesis .
  qed
qed auto

text \<open>Taking references of fences keeps what is valid.\<close>

lemma get_ref_valid: "cam_sync_check_valid s (snd (cam_sync_get_obj_ref t f)) = cam_sync_check_valid s f"
  by (simp add: cam_sync_get_obj_ref_def cam_sync_check_valid_def upd_row_def)

lemma get_out_refs_valid: "cam_sync_check_valid s (snd (snd (get_out_refs es n f))) = cam_sync_check_valid s f"
  by (induction es arbitrary: n f) (simp_all add: Let_def split_beta get_ref_valid)

lemma check_in_fences_iff: "check_in_fences es f = 0 \<longleftrightarrow> (\<forall>e\<in>set es. cam_sync_check_valid (sync_id e) f = 0)"
  by (induction es) auto

lemma put_ref_wf:
  assumes "world_wf w" "i < ctx_size w" "r < CAM_CTX_REQ_MAX" "\<not> on_list r (ctxs w i)"
  shows "world_wf (put_ref i r n w)"
  unfolding put_ref_def by (rule free_request_wf) (use assms in simp_all)

lemma put_ref_size [simp]: "ctx_size (put_ref i r n w) = ctx_size w"
  by (simp add: put_ref_def)

lemma prepare_fences_wf:
  assumes wf: "world_wf w" and i: "i < ctx_size w" and r: "r < CAM_CTX_REQ_MAX" "\<not> on_list r (ctxs w i)"
    and valid: "\<forall>e\<in>set (in_map_entries (req (ctxs w i) r)). cam_sync_check_valid (sync_id e) (fences w) = 0"
  shows "world_wf (snd (prepare_fences env A i r w)) \<and> ctx_size (snd (prepare_fences env A i r w)) = ctx_size w"
proof -
  let ?q = "req (ctxs w i) r"
  obtain rc n f where g: "get_out_refs (out_map_entries ?q) 0 (fences w) = (rc, n, f)" by (metis prod.exhaust)
  let ?w1 = "w\<lparr>fences := f\<rparr>"
  let ?w2 = "upd_ctx i (add_pending r) ?w1"
  have w2: "world_wf ?w2" "i < ctx_size ?w2" using wf i r by (auto simp: lists_ok_add intro!: world_wf_change)
  have v: "check_in_fences (in_map_entries ?q) f = 0"
    using valid get_out_refs_valid [of _ "out_map_entries ?q" 0 "fences w"] by (simp add: check_in_fences_iff g)
  obtain rc3 w3 where l: "register_loop env A i r 0 (in_map_entries ?q) ?w2 = (rc3, w3)" by (metis prod.exhaust)
  note w3 = register_loop_wf [OF w2 r(1) l]
  have s3: "ctx_size w3 = ctx_size w" using register_loop_frame [OF r(1), of env A i 0 "in_map_entries ?q" ?w2] l by simp
  show ?thesis
    using wf i r g v l w3 s3 by (auto simp: prepare_fences_def Let_def put_ref_wf)
qed

text \<open>The input fences of the next configuration are valid.\<close>

definition in_fences_valid :: "hw_env \<Rightarrow> cam_world \<Rightarrow> bool" where
  "in_fences_valid env w \<longleftrightarrow>
     (\<forall>e\<in>set (pr_in (hw_prep env (length (hw_calls w)))). cam_sync_check_valid (sync_id e) (fences w) = 0)"

lemma prepare_dev_wf:
  assumes wf: "world_wf w" and i: "i < ctx_size w" and valid: "in_fences_valid env w"
  shows "world_wf (snd (cam_context_prepare_dev_to_hw env A i ph off w))
     \<and> ctx_size (snd (cam_context_prepare_dev_to_hw env A i ph off w)) = ctx_size w"
proof (cases "free_req_list (ctxs w i)")
  case Nil
  then show ?thesis using wf by (simp add: cam_context_prepare_dev_to_hw_def)
next
  case (Cons r rs)
  have r: "r < CAM_CTX_REQ_MAX" by (rule wf_bound [OF wf i]) (simp add: on_list_def Cons)
  define w1 where "w1 = upd_ctx i (\<lambda>c. set_req r (\<lambda>_. zero_req\<lparr>rq_ctx := True\<rparr>) (req_del r c)) w"
  have w1: "world_wf w1" "ctx_size w1 = ctx_size w" "\<not> on_list r (ctxs w1 i)" "fences w1 = fences w" "hw_calls w1 = hw_calls w"
    unfolding w1_def using i by (auto intro!: world_wf_change [OF wf i])
  let ?ok = "\<lambda>v. world_wf v \<and> ctx_size v = ctx_size w"
  have early: "?ok w1" "?ok (free_request i r w1)" using w1 i r by (simp_all add: free_request_wf)
  define w2 where "w2 = upd_ctx i (\<lambda>c. c\<lparr>last_flush_req := 0\<rparr>) w1"
  have w2: "world_wf w2" "ctx_size w2 = ctx_size w" "\<not> on_list r (ctxs w2 i)" "fences w2 = fences w" "hw_calls w2 = hw_calls w"
    unfolding w2_def using w1 i by (auto simp: lists_ok_def lists_def on_list_def intro!: world_wf_change)
  define p where "p = hw_prep env (length (hw_calls w2))"
  have failed: "?ok (free_request i r (snd (hw_do env k w2)))" for k using w2 i r by (simp add: free_request_wf)
  have late: "?ok (snd (prepare_fences env A i r (upd_req i r (fill_req p rid) (snd (hw_do env k w2)))))" for k rid
  proof -
    let ?w3 = "upd_req i r (fill_req p rid) (snd (hw_do env k w2))"
    have "world_wf ?w3" "ctx_size ?w3 = ctx_size w" "\<not> on_list r (ctxs ?w3 i)" "fences ?w3 = fences w"
      using w2 i by (auto simp: upd_req_def intro!: world_wf_change)
    moreover have "in_map_entries (req (ctxs ?w3 i) r) = pr_in (hw_prep env (length (hw_calls w)))"
      by (simp add: upd_req_def set_req_def fill_req_def w2(5) p_def)
    ultimately show ?thesis
      using prepare_fences_wf [of ?w3 i r env A] valid i r unfolding in_fences_valid_def by simp
  qed
  obtain rc m where mem: "cam_mem_get_cpu_buf (ucast ph) (bufs w1) = (rc, m)" by (metis prod.exhaust)
  note e = cam_context_prepare_dev_to_hw_def [of env A i ph off w, unfolded Cons list.case, folded w1_def, unfolded Let_def mem, folded w2_def, folded p_def]
  show ?thesis
  proof (cases m)
    case None
    then show ?thesis using wf early(2) unfolding e by simp
  next
    case (Some al)
    then show ?thesis
      using wf early failed late unfolding e by (cases al) (simp add: split_beta)
  qed
qed

end
