(* ===== verification/Cam_Ctx_Sys.thy ===== *)
theory Cam_Ctx_Sys
  imports Cam_Ctx_Pres
begin

text \<open>
  The operations of the drivers and the node keep the invariant, so it holds in every state a node
  reaches through its ioctls, the interrupts of its hardware and the callbacks of its fences.
\<close>

section \<open>Operations of the drivers\<close>

lemma lists_ok_fields [simp]:
  "lists_ok (c\<lparr>ctx_state := s\<rparr>) = lists_ok c" "lists_ok (c\<lparr>ctxt_to_hw_map := m\<rparr>) = lists_ok c"
  "lists_ok (c\<lparr>cx_dev_hdl := h\<rparr>) = lists_ok c" "lists_ok (c\<lparr>cx_session_hdl := h\<rparr>) = lists_ok c"
  "lists_ok (c\<lparr>cx_link_hdl := h\<rparr>) = lists_ok c" "lists_ok (c\<lparr>last_flush_req := q\<rparr>) = lists_ok c"
  "lists_ok (c\<lparr>refcount := n\<rparr>) = lists_ok c"
  by (simp_all add: lists_ok_def lists_def)

text \<open>An operation with a code keeps the invariant.\<close>

locale ctx_call =
  fixes i :: nat and f :: "cam_world \<Rightarrow> 'r \<times> cam_world"
  assumes op: "ctx_op i (\<lambda>w. snd (f w))"
begin

lemma wf: "world_wf w \<Longrightarrow> i < ctx_size w \<Longrightarrow> world_wf (snd (f w)) \<and> ctx_size (snd (f w)) = ctx_size w"
  using ctx_op.keeps [OF op] ctx_op.sizes [OF op] by blast

end

lemma ctx_opI:
  assumes "\<And>w. world_wf w \<Longrightarrow> i < ctx_size w \<Longrightarrow> world_wf (f w)" "\<And>w. ctx_size (f w) = ctx_size w"
  shows "ctx_op i f"
  using assms by unfold_locales

lemma set_state_frame [simp]: "ctx_size (set_state i s w) = ctx_size w"
  by (simp add: set_state_def)

lemma set_state_wf [simp]: "world_wf w \<Longrightarrow> i < ctx_size w \<Longrightarrow> world_wf (set_state i s w)"
  unfolding set_state_def by (rule world_wf_change) simp_all

lemma acquire_to_hw_op: "ctx_op i (\<lambda>w. snd (snd (cam_context_acquire_dev_to_hw env A i cmd w)))"
  by (rule ctx_opI)
    (auto simp: cam_context_acquire_dev_to_hw_def Let_def split_beta intro!: world_wf_change)

interpretation release_hw: ctx_call i "cam_context_release_dev_to_hw env i" for env i
  by (unfold_locales) (auto simp: cam_context_release_dev_to_hw_def intro!: world_wf_change split: option.splits)

interpretation start_hw: ctx_call i "cam_context_start_dev_to_hw env i s d" for env i s d
  by unfold_locales (simp_all add: cam_context_start_dev_to_hw_def split: option.splits)

interpretation stop_hw: ctx_call i "cam_context_stop_dev_to_hw env A i" for env A i
  by unfold_locales
    (simp_all add: cam_context_stop_dev_to_hw_def Let_def split_beta flush_ctx.keeps flush_ctx.sizes split: option.splits)

interpretation stream_hw: ctx_call i "cam_context_config_dev_to_hw env i ph off" for env i ph off
  by unfold_locales
    (simp_all add: cam_context_config_dev_to_hw_def Let_def split_beta split: option.splits prod.splits)

interpretation pf_hw: ctx_call i "cam_context_dump_pf_info_to_hw env i p iova b" for env i p iova b
  by unfold_locales (simp_all add: cam_context_dump_pf_info_to_hw_def split: option.splits)

interpretation dump_all: ctx_call i "dump_active env i iova b rs rc" for env i iova b rs rc
proof
  have "world_wf w \<longrightarrow> i < ctx_size w \<longrightarrow> world_wf (snd (dump_active env i iova b rs rc w))"
    "ctx_size (snd (dump_active env i iova b rs rc w)) = ctx_size w" for w
    using ctx_op.keeps [OF pf_hw.op] ctx_op.sizes [OF pf_hw.op]
    by (induction rs arbitrary: rc w) (simp_all add: Let_def split_beta)
  then show "world_wf w \<Longrightarrow> i < ctx_size w \<Longrightarrow> world_wf (snd (dump_active env i iova b rs rc w))"
    "ctx_size (snd (dump_active env i iova b rs rc w)) = ctx_size w" for w by blast+
qed

lemma dump_hw_op: "ctx_op i (\<lambda>w. snd (snd (cam_context_dump_dev_to_hw env i cmd w)))"
  by (rule ctx_opI)
    (auto simp: cam_context_dump_dev_to_hw_def cam_context_dump_context_def Let_def split_beta
      split: option.splits list.splits prod.splits)

section \<open>Dispatch\<close>

lemmas table_defs = machine_def cam_jpeg_ctx_state_machine_def cam_fd_ctx_state_machine_def
  cam_lrme_ctx_state_machine_def cam_icp_ctx_state_machine_def no_ops_def

lemmas driver_defs = cam_jpeg_context_dump_active_request_def jpeg_acquire_dev_in_available_def
  jpeg_release_dev_in_acquired_def jpeg_dump_dev_in_acquired_def jpeg_flush_dev_in_acquired_def
  jpeg_config_dev_in_acquired_def jpeg_stop_dev_in_acquired_def jpeg_handle_buf_done_in_acquired_def
  fd_acquire_dev_in_available_def fd_release_dev_in_acquired_def fd_config_dev_in_acquired_def
  fd_start_dev_in_acquired_def fd_stop_dev_in_activated_def fd_release_dev_in_activated_def
  fd_dump_dev_in_activated_def fd_flush_dev_in_activated_def fd_config_dev_in_activated_def
  fd_handle_irq_in_activated_def lrme_acquire_dev_in_available_def lrme_release_dev_in_acquired_def
  lrme_start_dev_in_acquired_def lrme_config_dev_in_activated_def lrme_dump_dev_in_activated_def
  lrme_flush_dev_in_activated_def lrme_stop_dev_in_activated_def lrme_release_dev_in_activated_def
  lrme_handle_irq_in_activated_def cam_icp_context_dump_active_request_def icp_acquire_dev_in_available_def
  icp_release_dev_in_acquired_def icp_start_dev_in_acquired_def icp_dump_dev_in_ready_def
  icp_flush_dev_in_ready_def icp_stop_dev_in_ready_def icp_release_dev_in_ready_def
  icp_handle_buf_done_in_ready_def

text \<open>What holds of all results of an operation in all tables holds of its dispatch.\<close>

lemma dispatch_rule:
  assumes "P (- EINVAL, w)" "P (e, w)"
    and "\<And>d s f. state_machine (ctxs w i) = Some d \<Longrightarrow> ctx_state (ctxs w i) = s \<Longrightarrow> sel (machine d s) = Some f \<Longrightarrow> P (call f)"
  shows "P (dispatch sel e call i w)"
  using assms by (auto simp: dispatch_def ctx_ops_def split: option.splits)

text \<open>The laws of the operations, as rewrite rules on the parts of a result.\<close>

lemmas call_laws = ctx_op.keeps [OF release_hw.op] ctx_op.sizes [OF release_hw.op] ctx_op.keeps [OF start_hw.op]
  ctx_op.sizes [OF start_hw.op] ctx_op.keeps [OF stop_hw.op] ctx_op.sizes [OF stop_hw.op]
  ctx_op.keeps [OF stream_hw.op] ctx_op.sizes [OF stream_hw.op] ctx_op.keeps [OF dump_all.op] ctx_op.sizes [OF dump_all.op]
  ctx_op.keeps [OF acquire_to_hw_op] ctx_op.sizes [OF acquire_to_hw_op] ctx_op.keeps [OF dump_hw_op] ctx_op.sizes [OF dump_hw_op]
  flush_dev.keeps flush_dev.sizes buf_done.keeps buf_done.sizes

text \<open>So a dispatched operation keeps the invariant if it does in every table.\<close>

lemma dispatch_call:
  assumes "\<And>d s f w. sel (machine d s) = Some f \<Longrightarrow> world_wf w \<Longrightarrow> i < ctx_size w \<Longrightarrow> world_wf (snd (call f w))"
    "\<And>d s f w. sel (machine d s) = Some f \<Longrightarrow> ctx_size (snd (call f w)) = ctx_size w"
  shows "ctx_call i (\<lambda>w. dispatch sel e (\<lambda>f. call f w) i w)"
proof
  fix w :: cam_world
  show "ctx_size (snd (dispatch sel e (\<lambda>f. call f w) i w)) = ctx_size w"
    by (rule dispatch_rule) (simp_all add: assms(2))
  assume "world_wf w" "i < ctx_size w"
  then show "world_wf (snd (dispatch sel e (\<lambda>f. call f w) i w))"
    by (rule_tac dispatch_rule) (simp_all add: assms(1))
qed

interpretation h_release: ctx_call i "cam_context_handle_release_dev env A i u" for env A i u
  unfolding cam_context_handle_release_dev_def
proof (rule dispatch_call)
  fix d s f w
  assume f: "release_dev (machine d s) = Some f"
  show "ctx_size (snd (f env A i u w)) = ctx_size w"
    using f by (cases d; cases s) (auto simp: table_defs driver_defs Let_def split_beta call_laws)
  assume "world_wf w" "i < ctx_size w"
  then show "world_wf (snd (f env A i u w))"
    using f by (cases d; cases s) (auto simp: table_defs driver_defs Let_def split_beta call_laws)
qed

interpretation h_start: ctx_call i "cam_context_handle_start_dev env A i cmd" for env A i cmd
  unfolding cam_context_handle_start_dev_def
proof (rule dispatch_call)
  fix d s f w
  assume f: "start_dev (machine d s) = Some f"
  show "ctx_size (snd (f env A i cmd w)) = ctx_size w"
    using f by (cases d; cases s) (auto simp: table_defs driver_defs Let_def split_beta call_laws)
  assume "world_wf w" "i < ctx_size w"
  then show "world_wf (snd (f env A i cmd w))"
    using f by (cases d; cases s) (auto simp: table_defs driver_defs Let_def split_beta call_laws)
qed

interpretation h_flush: ctx_call i "cam_context_handle_flush_dev env A i cmd" for env A i cmd
  unfolding cam_context_handle_flush_dev_def
proof (rule dispatch_call)
  fix d s f w
  assume f: "flush_dev (machine d s) = Some f"
  show "ctx_size (snd (f env A i cmd w)) = ctx_size w"
    using f by (cases d; cases s) (auto simp: table_defs driver_defs Let_def split_beta call_laws)
  assume "world_wf w" "i < ctx_size w"
  then show "world_wf (snd (f env A i cmd w))"
    using f by (cases d; cases s) (auto simp: table_defs driver_defs Let_def split_beta call_laws)
qed

lemma stop_dispatch: "ctx_call i (\<lambda>w. dispatch stop_dev 0 (\<lambda>f. f env A i cmd w) i w)"
proof (rule dispatch_call)
  fix d s f w
  assume f: "stop_dev (machine d s) = Some f"
  show "ctx_size (snd (f env A i cmd w)) = ctx_size w"
    using f by (cases d; cases s) (auto simp: table_defs driver_defs Let_def split_beta call_laws)
  assume "world_wf w" "i < ctx_size w"
  then show "world_wf (snd (f env A i cmd w))"
    using f by (cases d; cases s) (auto simp: table_defs driver_defs Let_def split_beta call_laws)
qed

interpretation h_stop: ctx_call i "cam_context_handle_stop_dev env A i cmd" for env A i cmd
proof
  note stop = ctx_call.op [OF stop_dispatch, of i env A cmd]
  fix w :: cam_world
  show "ctx_size (snd (cam_context_handle_stop_dev env A i cmd w)) = ctx_size w"
    by (simp add: cam_context_handle_stop_dev_def Let_def split_beta ctx_op.sizes [OF stop])
  assume "world_wf w" "i < ctx_size w"
  then show "world_wf (snd (cam_context_handle_stop_dev env A i cmd w))"
    using ctx_op.keeps [OF stop] ctx_op.sizes [OF stop]
    by (auto simp: cam_context_handle_stop_dev_def Let_def split_beta intro!: world_wf_change)
qed

interpretation h_irq: ctx_call i "cam_context_handle_hw_event env i ev q" for env i ev q
  unfolding cam_context_handle_hw_event_def
proof (rule dispatch_call)
  fix d s f w
  assume f: "irq_ops (machine d s) = Some f"
  show "ctx_size (snd (f env i ev q w)) = ctx_size w"
    using f by (cases d; cases s) (auto simp: table_defs driver_defs call_laws)
  assume "world_wf w" "i < ctx_size w"
  then show "world_wf (snd (f env i ev q w))"
    using f by (cases d; cases s) (auto simp: table_defs driver_defs call_laws)
qed

lemma pagefault_dispatch: "ctx_call i (\<lambda>w. dispatch pagefault_ops 0 (\<lambda>f. f env i iova b w) i w)"
proof (rule dispatch_call)
  fix d s f w
  assume f: "pagefault_ops (machine d s) = Some f"
  show "ctx_size (snd (f env i iova b w)) = ctx_size w"
    using f by (cases d; cases s) (auto simp: table_defs driver_defs call_laws)
  assume "world_wf w" "i < ctx_size w"
  then show "world_wf (snd (f env i iova b w))"
    using f by (cases d; cases s) (auto simp: table_defs driver_defs call_laws)
qed

interpretation h_pf: ctx_call i "cam_context_dump_pf_info env i iova b" for env i iova b
  using ctx_call.op [OF pagefault_dispatch, of i env iova b]
  by (simp add: ctx_call_def ctx_op_def cam_context_dump_pf_info_def)

text \<open>No driver has an operation of the request manager, for hardware, or for the dump of information.\<close>

lemma no_crm_ops:
  "acquire_hw (machine d s) = None" "release_hw (machine d s) = None" "get_dev_info (machine d s) = None"
  "crm_link (machine d s) = None" "crm_unlink (machine d s) = None" "apply_req (machine d s) = None"
  "flush_req (machine d s) = None" "process_evt (machine d s) = None" "dump_req (machine d s) = None"
  "dumpinfo_ops (machine d s) = None"
  by (cases d; cases s; simp add: table_defs)+

lemma dispatch_none: "(\<And>d s. sel (machine d s) = None) \<Longrightarrow> snd (dispatch sel e call i w) = w"
  by (simp add: dispatch_def ctx_ops_def split: option.splits)

lemma dumpinfo_same: "snd (cam_context_handle_info_dump env A i p w) = w"
  by (simp add: cam_context_handle_info_dump_def dispatch_none no_crm_ops)

lemma h_acquire_op: "ctx_op i (\<lambda>w. snd (snd (cam_context_handle_acquire_dev env A i cmd w)))"
proof (rule ctx_opI)
  fix w :: cam_world
  show "ctx_size (snd (snd (cam_context_handle_acquire_dev env A i cmd w))) = ctx_size w"
  proof (cases "state_machine (ctxs w i)")
    case (Some d)
    show ?thesis using Some by (cases d; cases "ctx_state (ctxs w i)")
      (simp_all add: cam_context_handle_acquire_dev_def ctx_ops_def table_defs driver_defs Let_def split_beta call_laws)
  qed (simp add: cam_context_handle_acquire_dev_def ctx_ops_def)
  assume wf: "world_wf w" and i: "i < ctx_size w"
  have init: "world_wf v \<Longrightarrow> ctx_size v = ctx_size w \<Longrightarrow> world_wf (upd_ctx i init_lists v)" for v
    using i by (rule_tac world_wf_change) (auto simp: init_lists_def lists_ok_def lists_def)
  show "world_wf (snd (snd (cam_context_handle_acquire_dev env A i cmd w)))"
  proof (cases "state_machine (ctxs w i)")
    case (Some d)
    have "world_wf (upd_ctx i g v)" if "world_wf v" "ctx_size v = ctx_size w" "\<And>c. lists_ok (g c) = lists_ok c" "\<And>c. refcount (g c) = refcount c" for g v
      using that i by (intro world_wf_change) simp_all
    then show ?thesis using Some wf i by (cases d; cases "ctx_state (ctxs w i)")
      (simp_all add: cam_context_handle_acquire_dev_def ctx_ops_def table_defs driver_defs Let_def split_beta call_laws init)
  qed (simp add: cam_context_handle_acquire_dev_def ctx_ops_def wf)
qed

lemma h_dump_op: "ctx_op i (\<lambda>w. snd (snd (cam_context_handle_dump_dev env i cmd w)))"
proof (rule ctx_opI)
  fix w :: cam_world
  have e: "snd (snd (cam_context_handle_dump_dev env i cmd w)) = w \<or>
     snd (snd (cam_context_handle_dump_dev env i cmd w)) = snd (snd (cam_context_dump_dev_to_hw env i cmd w))"
  proof (cases "state_machine (ctxs w i)")
    case (Some d)
    then show ?thesis by (cases d; cases "ctx_state (ctxs w i)")
      (simp_all add: cam_context_handle_dump_dev_def ctx_ops_def table_defs driver_defs)
  qed (simp add: cam_context_handle_dump_dev_def ctx_ops_def)
  then show "ctx_size (snd (snd (cam_context_handle_dump_dev env i cmd w))) = ctx_size w" by (auto simp: call_laws)
  assume "world_wf w" "i < ctx_size w"
  then show "world_wf (snd (snd (cam_context_handle_dump_dev env i cmd w)))" using e by (auto simp: call_laws)
qed

end
