(* ===== verification/Cam_Node_Sys.thy ===== *)
theory Cam_Node_Sys
  imports Cam_Ctx_Sys
begin

text \<open>
  The handlers of the node and the system they make up: from its initialisation on, a node goes
  through ioctls, calls of the request manager, interrupts, page faults, callbacks of fences and the
  shutdown, while other parts of the driver change the fences, the buffers and the handles. The
  invariant of \<open>Cam_Ctx_Inv\<close> holds throughout.
\<close>

section \<open>Handlers of the node\<close>

text \<open>A run that keeps the invariant and the number of contexts.\<close>

definition kept :: "cam_world \<Rightarrow> cam_world \<Rightarrow> bool" where
  "kept w w' \<longleftrightarrow> world_wf w' \<and> ctx_size w' = ctx_size w"

lemma kept_call: "ctx_call i f \<Longrightarrow> world_wf w \<Longrightarrow> i < ctx_size w \<Longrightarrow> kept w (snd (f w))"
  by (simp add: kept_def ctx_call.wf)

lemma kept_op: "ctx_op i f \<Longrightarrow> world_wf w \<Longrightarrow> i < ctx_size w \<Longrightarrow> kept w (f w)"
  by (simp add: kept_def ctx_op.keeps ctx_op.sizes)

lemma kept_refl: "world_wf w \<Longrightarrow> kept w w"
  by (simp add: kept_def)

lemma ctx_of_hdl_bound: "ctx_of_hdl A h w = Ctx i \<Longrightarrow> i < ctx_size w"
  using find_in [of "\<lambda>i. ctx_at A i = cam_get_device_priv h (handles w)" "[0..<ctx_size w]"]
  by (auto simp: ctx_of_hdl_def Let_def split: if_splits option.splits)

lemma with_ctx_kept:
  assumes "world_wf w" "with_ctx A nm d s bad f w = Some (r, w')" "\<And>i. i < ctx_size w \<Longrightarrow> kept w (snd (f i w))"
  shows "kept w w'"
  using assms(2) kept_refl [OF assms(1)] assms(3) [OF ctx_of_hdl_bound]
  by (fastforce simp: with_ctx_def split: if_splits ctx_ref.splits)

text \<open>A configuration keeps the invariant if the input fences it reads are valid.\<close>

lemma config_kept:
  assumes wf: "world_wf w" and i: "i < ctx_size w" and valid: "in_fences_valid env w"
  shows "kept w (snd (cam_context_handle_config_dev env A i cmd w))"
proof -
  note prep = prepare_dev_wf [OF wf i valid] and stream = stream_hw.wf [OF wf i] and self = kept_refl [OF wf]
  have icp: "kept w (snd (icp_config_dev_in_ready env A i cmd w))"
    using prep stream self by (simp add: icp_config_dev_in_ready_def Let_def kept_def split: prod.splits option.splits)
  show ?thesis unfolding cam_context_handle_config_dev_def
  proof (rule dispatch_rule [where P = "\<lambda>x. kept w (snd x)"])
    fix d s f
    assume "config_dev (machine d s) = Some f"
    then show "kept w (snd (f env A i cmd w))"
      using icp prep by (cases d; cases s) (auto simp: table_defs driver_defs kept_def)
  qed (simp_all add: self)
qed

lemma acquire_dev_kept:
  assumes wf: "world_wf w"
  shows "kept w (snd (snd (node_handle_acquire_dev env A cmd w)))"
proof (cases "free_ctx_list w")
  case Nil
  then show ?thesis using wf by (simp add: node_handle_acquire_dev_def cam_node_get_ctxt_from_free_list_def kept_def)
next
  case (Cons i rest)
  let ?w1 = "upd_ctx i (\<lambda>c. c\<lparr>refcount := 1\<rparr>) (w\<lparr>free_ctx_list := rest\<rparr>)"
  let ?w2 = "upd_ctx i (\<lambda>c. c\<lparr>last_flush_req := 0\<rparr>) ?w1"
  have i: "i < ctx_size w" using wf Cons by (auto simp: wfdefs)
  have "world_wf ?w1" using wf Cons unfolding world_wf_def pool_ok_def by (auto simp: set_eq_iff)
  then have "world_wf ?w2" "i < ctx_size ?w2" using i by (auto intro!: world_wf_change)
  from kept_op [OF h_acquire_op this, of env A cmd]
  have "kept w (snd (snd (cam_context_handle_acquire_dev env A i cmd ?w2)))" by (simp add: kept_def)
  then show ?thesis
    using i Cons by (simp add: node_handle_acquire_dev_def cam_node_get_ctxt_from_free_list_def Let_def split_beta kept_def)
qed

text \<open>Dropping the handle of a context, after whatever was done to it.\<close>

lemma drop_hdl_kept:
  assumes "kept w v" "i < ctx_size w"
  shows "kept w (v\<lparr>handles := t\<rparr>)" "kept w (upd_ctx i (\<lambda>c. c\<lparr>cx_dev_hdl := - 1\<rparr>) (v\<lparr>handles := t\<rparr>))"
  using assms by (auto simp: kept_def intro!: world_wf_change)

lemma release_dev_kept:
  assumes wf: "world_wf w" and res: "node_handle_release_dev env A s d w = Some (r, w')"
  shows "kept w w'"
  using wf res unfolding node_handle_release_dev_def
proof (rule with_ctx_kept)
  fix i
  assume i: "i < ctx_size w"
  define w1 where "w1 = (if ctx_state (ctxs w i) = CAM_CTX_UNINIT then w
     else cam_context_putref i (snd (cam_context_handle_release_dev env A i () w)))"
  have w1: "kept w w1" using h_release.wf [OF wf i] wf i by (simp add: w1_def kept_def)
  show "kept w (snd (let w1 = (if ctx_state (ctxs w i) = CAM_CTX_UNINIT then w
                 else cam_context_putref i (snd (cam_context_handle_release_dev env A i () w)));
           (rc, tbl) = cam_destroy_device_hdl d (handles w1);
           w2 = w1\<lparr>handles := tbl\<rparr>
       in (rc, if rc \<noteq> 0 then w2 else upd_ctx i (\<lambda>c. c\<lparr>cx_dev_hdl := - 1\<rparr>) w2)))"
    unfolding w1_def [symmetric] using w1 i by (simp add: Let_def split_beta drop_hdl_kept)
qed

lemma shutdown_ctx_kept:
  assumes wf: "world_wf w" and i: "i < ctx_size w"
  shows "kept w (shutdown_ctx env A i w)"
proof -
  define x where "x = (if ctx_state (ctxs w i) \<noteq> CAM_CTX_UNINIT \<and> ctx_state (ctxs w i) \<noteq> CAM_CTX_AVAILABLE
         then let (rc, w1) = cam_context_handle_release_dev env A i () w
              in (rc, if rc \<noteq> 0 then w1 else cam_context_putref i w1)
         else (- EINVAL, w))"
  have x: "kept w (snd x)" using h_release.wf [OF wf i] wf i by (simp add: x_def kept_def Let_def split_beta)
  note e = cam_context_shutdown_def [of env A i w, folded x_def]
  show ?thesis using x i wf
    by (simp add: shutdown_ctx_def e Let_def split_beta drop_hdl_kept kept_refl)
qed

lemma fold_kept:
  assumes "\<And>i w. world_wf w \<Longrightarrow> i < ctx_size w \<Longrightarrow> kept w (f i w)" "world_wf w" "set ks \<subseteq> {..<ctx_size w}"
  shows "kept w (fold f ks w)"
  using assms(2,3)
proof (induction ks arbitrary: w)
  case (Cons i ks)
  then have "kept w (f i w)" by (simp add: assms(1))
  then show ?case using Cons by (auto simp: kept_def)
qed (simp add: kept_refl)

lemma shutdown_kept: "world_wf w \<Longrightarrow> kept w (snd (cam_node_shutdown env A w))"
  using fold_kept [of "shutdown_ctx env A" w "[0..<ctx_size w]"] shutdown_ctx_kept
  by (simp add: cam_node_shutdown_def Let_def kept_def lessThan_atLeast0)

text \<open>The request manager reaches no operation of these drivers.\<close>

lemma crm_same:
  assumes "\<And>i p v. snd (h env A i p v) = v" "node_crm_call h env A d p w = Some (r, w')"
  shows "w' = w"
  using assms(2) assms(1) [of _ p w] by (auto simp: node_crm_call_def split: ctx_ref.splits dest: arg_cong [of _ _ snd])

section \<open>The ioctl\<close>

lemma plain_kept: "map_option (\<lambda>(rc, w). ((rc, None), w)) x = Some (r, w') \<Longrightarrow> (\<And>rc. x = Some (rc, w') \<Longrightarrow> kept w w') \<Longrightarrow> kept w w'"
  by (auto simp: split_beta)

lemma acquire_hw_same: "snd (cam_context_handle_acquire_hw env A i p w) = w" "acquired_hw_dump env A w = w"
  "snd (cam_context_handle_release_hw env A i p w) = w"
proof -
  have "fold (\<lambda>i w. snd (cam_context_handle_info_dump env A i 0 w)) ks v = v" for ks v
    by (induction ks) (simp_all add: dumpinfo_same)
  then show "acquired_hw_dump env A w = w" by (simp add: acquired_hw_dump_def)
qed (simp_all add: cam_context_handle_acquire_hw_def cam_context_handle_release_hw_def dispatch_none no_crm_ops)

lemmas call_ops = config_kept [unfolded kept_def] kept_op [OF h_dump_op, unfolded kept_def]

lemma handlers_kept:
  assumes wf: "world_wf w"
  shows "node_handle_start_dev env A ss w = Some (r, w') \<Longrightarrow> kept w w'"
    "node_handle_stop_dev env A ss w = Some (r, w') \<Longrightarrow> kept w w'"
    "node_handle_flush_dev env A fl w = Some (r, w') \<Longrightarrow> kept w w'"
    "node_handle_dump_dev env A dq w = Some (x, w') \<Longrightarrow> kept w w'"
    "in_fences_valid env w \<Longrightarrow> node_handle_config_dev env A cf w = Some (r, w') \<Longrightarrow> kept w w'"
    "node_handle_acquire_hw env A v d s p w = Some (r, w') \<Longrightarrow> kept w w'"
    "node_handle_release_hw env A d s p w = Some (r, w') \<Longrightarrow> kept w w'"
  unfolding node_handle_start_dev_def node_handle_stop_dev_def node_handle_flush_dev_def node_handle_dump_dev_def
    node_handle_config_dev_def node_handle_acquire_hw_def node_handle_release_hw_def
  by - (erule with_ctx_kept [OF wf],
      simp add: wf h_start.wf h_stop.wf h_flush.wf call_ops acquire_hw_same kept_def Let_def split_beta)+

lemma ioctl_kept:
  assumes wf: "world_wf w" and valid: "\<And>c. cmd = Config_dev c \<Longrightarrow> in_fences_valid env w"
    and res: "cam_node_handle_ioctl env A ci co al cmd w = Some (r, w')"
  shows "kept w w'"
  using res kept_refl [OF wf] valid acquire_dev_kept [OF wf, of env A]
  by (cases cmd)
    (auto simp: cam_node_handle_ioctl_def node_handle_query_cap_def kept_def Let_def split_beta split: if_splits
      dest!: handlers_kept [OF wf, unfolded kept_def] release_dev_kept [OF wf, unfolded kept_def])

section \<open>The system\<close>

text \<open>
  The contexts of a node are those its driver has initialised. A step is an ioctl, a call of the
  request manager, an interrupt, a page fault, a task of the fence framework, the shutdown, or a
  change by others of what the node shares with them. The input fences of a configuration are valid.
\<close>

definition node_init :: "cam_world \<Rightarrow> bool" where
  "node_init w \<longleftrightarrow> (\<exists>d intf n name v. (\<forall>i<n. \<exists>c. ctxs v i = snd (drv_context_init d (Some intf) (of_nat i) c))
     \<and> w = snd (cam_node_init intf n name v))"

inductive node_step :: "addrs \<Rightarrow> cam_world \<Rightarrow> cam_world \<Rightarrow> bool" for A where
  ioctl: "cam_node_handle_ioctl env A ci co al cmd w = Some (r, w') \<Longrightarrow>
     (\<And>c. cmd = Config_dev c \<Longrightarrow> in_fences_valid env w) \<Longrightarrow> node_step A w w'"
| dev_info: "node_crm_get_dev_info env A d p w = Some (r, w') \<Longrightarrow> node_step A w w'"
| link_setup: "node_crm_link_setup env A en d p w = Some (r, w') \<Longrightarrow> node_step A w w'"
| apply_req: "node_crm_apply_req env A d p w = Some (r, w') \<Longrightarrow> node_step A w w'"
| flush_req: "node_crm_flush_req env A d p w = Some (r, w') \<Longrightarrow> node_step A w w'"
| process_evt: "node_crm_process_evt env A d p w = Some (r, w') \<Longrightarrow> node_step A w w'"
| dump_req: "node_crm_dump_req env A d p w = Some (r, w') \<Longrightarrow> node_step A w w'"
| irq: "i < ctx_size w \<Longrightarrow> node_step A w (snd (cam_context_handle_hw_event env i ev q w))"
| fault: "i < ctx_size w \<Longrightarrow> node_step A w (snd (cam_context_dump_pf_info env i iova b w))"
| fence: "node_step A w (fence_work env A w)"
| shutdown: "node_step A w (snd (cam_node_shutdown env A w))"
| others: "node_step A w (w\<lparr>fences := f, bufs := t, kmemory := m, handles := h\<rparr>)"

lemma node_add_ctxs_all:
  "(\<forall>i\<in>set ks. state_machine (ctxs w i) \<noteq> None) \<Longrightarrow> node_add_ctxs ks w = (0, w\<lparr>free_ctx_list := free_ctx_list w @ ks\<rparr>)"
  by (induction ks arbitrary: w) simp_all

lemma drv_ctx_ok:
  assumes "c = snd (drv_context_init d (Some intf) k c0)"
  shows "lists_ok c" "refcount c = 0" "state_machine c = Some d"
  using assms by (auto simp: drv_context_init_def cam_context_init_def Let_def lists_ok_def lists_def zero_ctx_def)

lemma node_init_wf: "node_init w \<Longrightarrow> world_wf w"
proof -
  assume "node_init w"
  then obtain d intf n name v where c: "\<forall>i<n. \<exists>c. ctxs v i = snd (drv_context_init d (Some intf) (of_nat i) c)"
    and w: "w = snd (cam_node_init intf n name v)" by (auto simp: node_init_def)
  have ok: "lists_ok (ctxs v i)" "refcount (ctxs v i) = 0" "state_machine (ctxs v i) = Some d" if "i < n" for i
  proof -
    obtain c0 where "ctxs v i = snd (drv_context_init d (Some intf) (of_nat i) c0)" using c \<open>i < n\<close> by blast
    from drv_ctx_ok [OF this] show "lists_ok (ctxs v i)" "refcount (ctxs v i) = 0" "state_machine (ctxs v i) = Some d"
      by simp_all
  qed
  have w': "w = v\<lparr>node_name := strlcpy name CAM_CTX_DEV_NAME_MAX_LENGTH, node_hw := intf, ctx_size := n, free_ctx_list := [0..<n]\<rparr>"
    unfolding w cam_node_init_def by (subst node_add_ctxs_all) (use ok(3) in simp_all)
  have "set [0..<n] = {i. i < n \<and> refcount (ctxs v i) = 0}" using ok(2) by auto
  then show "world_wf w" using ok(1) by (simp add: w' world_wf_def pool_ok_def)
qed

lemma crm_none:
  "node_crm_get_dev_info env A d p w = Some (r, w') \<Longrightarrow> w' = w" "node_crm_link_setup env A en d p w = Some (r, w') \<Longrightarrow> w' = w"
  "node_crm_apply_req env A d p w = Some (r, w') \<Longrightarrow> w' = w" "node_crm_flush_req env A d p w = Some (r, w') \<Longrightarrow> w' = w"
  "node_crm_process_evt env A d p w = Some (r, w') \<Longrightarrow> w' = w" "node_crm_dump_req env A d p w = Some (r, w') \<Longrightarrow> w' = w"
  unfolding node_crm_get_dev_info_def node_crm_link_setup_def node_crm_apply_req_def node_crm_flush_req_def
    node_crm_process_evt_def node_crm_dump_req_def
  by - (erule crm_same [rotated],
      simp add: cam_context_handle_crm_get_dev_info_def cam_context_handle_crm_link_def cam_context_handle_crm_unlink_def
        cam_context_handle_crm_apply_req_def cam_context_handle_crm_flush_req_def cam_context_handle_crm_process_evt_def
        cam_context_handle_crm_dump_req_def dispatch_none no_crm_ops)+

lemma fence_work_size: "world_wf w \<Longrightarrow> ctx_size (fence_work env A w) = ctx_size w"
  by (simp add: fence_work_def run_callback_wf split: list.splits)

lemma node_step_kept: "node_step A w w' \<Longrightarrow> world_wf w \<Longrightarrow> kept w w'"
proof (induction rule: node_step.induct)
  case (ioctl env ci co al cmd w r w')
  from ioctl_kept [OF ioctl(3) _ ioctl(1)] ioctl(2) show ?case by blast
next
  case (irq i w env ev q)
  then show ?case using h_irq.wf by (simp add: kept_def)
next
  case (fault i w env iova b)
  then show ?case using h_pf.wf by (simp add: kept_def)
next
  case (fence w env)
  then show ?case by (simp add: kept_def fence_work_wf fence_work_size)
next
  case (shutdown w env)
  then show ?case by (rule shutdown_kept)
next
  case (others w f t m h)
  then show ?case by (simp add: kept_def wfdefs)
qed (auto dest: crm_none simp: kept_refl)

lemma node_step_wf: "node_step A w w' \<Longrightarrow> world_wf w \<Longrightarrow> world_wf w'"
  using node_step_kept by (simp add: kept_def)

interpretation node: invariant_system node_init "node_step A" world_wf for A
  by unfold_locales (auto intro: node_init_wf node_step_wf)

end
