(* ===== verification/Cam_Ctx_Type.thy ===== *)
theory Cam_Ctx_Type
  imports Cam_Node_Sys
begin

text \<open>
  The control part of a context: its state, the table of its driver and its hardware manager. Only
  the operations in the tables of the drivers change the state, so every context stays within the
  states of its driver.
\<close>

section \<open>Operations that keep the control part\<close>

definition ctl :: "cam_context \<Rightarrow> cam_context_state \<times> cam_driver option \<times> cam_hw_mgr_intf option" where
  "ctl c = (ctx_state c, state_machine c, hw_mgr_intf c)"

lemma ctl_fields [simp]:
  "ctl (c\<lparr>last_flush_req := n\<rparr>) = ctl c" "ctl (c\<lparr>refcount := k\<rparr>) = ctl c" "ctl (c\<lparr>cx_dev_hdl := h\<rparr>) = ctl c"
  "ctl (c\<lparr>cx_session_hdl := h\<rparr>) = ctl c" "ctl (c\<lparr>cx_link_hdl := h\<rparr>) = ctl c" "ctl (c\<lparr>ctxt_to_hw_map := p\<rparr>) = ctl c"
  "ctl (c\<lparr>pending_req_list := l\<rparr>) = ctl c" "ctl (c\<lparr>active_req_list := l\<rparr>) = ctl c"
  "ctl (set_req r f c) = ctl c" "ctl (req_del r c) = ctl c" "ctl (add_free r c) = ctl c" "ctl (add_active r c) = ctl c"
  "ctl (add_pending r c) = ctl c" "ctl (init_lists c) = ctl c"
  by (simp_all add: ctl_def set_req_def req_del_def add_free_def add_active_def add_pending_def init_lists_def)

lemma ctl_upd [simp]: "ctl (f (ctxs w i)) = ctl (ctxs w i) \<Longrightarrow> ctl (ctxs (upd_ctx i f w) k) = ctl (ctxs w k)"
  by simp

lemma ctl_basic [simp]:
  "ctl (ctxs (upd_req i r f w) k) = ctl (ctxs w k)" "ctl (ctxs (cam_context_putref i w) k) = ctl (ctxs w k)"
  "ctl (ctxs (cam_context_getref i w) k) = ctl (ctxs w k)" "ctl (ctxs (free_request i r w) k) = ctl (ctxs w k)"
  "ctl (ctxs (hw_flush_req env c p a w) k) = ctl (ctxs w k)" "ctl (ctxs (put_ref i r n w) k) = ctl (ctxs w k)"
  by (simp_all add: upd_req_def cam_context_putref_def cam_context_getref_def free_request_def hw_flush_req_def put_ref_def
      cam_node_put_ctxt_to_free_list_def Let_def)

lemma ctl_dereg [simp]: "ctl (ctxs (snd (dereg_loop A i r es fr w)) k) = ctl (ctxs w k)"
  by (induction es arbitrary: fr w) (simp_all add: Let_def split_beta)

lemma ctl_flush_loops [simp]:
  "ctl (ctxs (fold (flush_pending A i) rs w) k) = ctl (ctxs w k)" "ctl (ctxs (fold (flush_active i) rs w) k) = ctl (ctxs w k)"
  by (induction rs arbitrary: w) (simp_all add: flush_pending_def flush_active_def Let_def split_beta)

lemma ctl_ops [simp]:
  "ctl (ctxs (snd (cam_context_buf_done_from_hw env i q st w)) k) = ctl (ctxs w k)"
  "ctl (ctxs (snd (cam_context_apply_req_to_hw env i r w)) k) = ctl (ctxs w k)"
  "ctl (ctxs (snd (cam_context_flush_ctx_to_hw env A i w)) k) = ctl (ctxs w k)"
  "ctl (ctxs (snd (cam_context_flush_req_to_hw env A i q w)) k) = ctl (ctxs w k)"
  "ctl (ctxs (snd (cam_context_release_dev_to_hw env i w)) k) = ctl (ctxs w k)"
  "ctl (ctxs (snd (cam_context_start_dev_to_hw env i s d w)) k) = ctl (ctxs w k)"
  "ctl (ctxs (snd (cam_context_config_dev_to_hw env i ph off w)) k) = ctl (ctxs w k)"
  "ctl (ctxs (snd (cam_context_dump_pf_info_to_hw env i p iova b w)) k) = ctl (ctxs w k)"
  "ctl (ctxs (snd (snd (cam_context_acquire_dev_to_hw env A i cmd w))) k) = ctl (ctxs w k)"
  by (simp_all add: cam_context_buf_done_from_hw_def cam_context_apply_req_to_hw_def cam_context_flush_ctx_to_hw_def
      cam_context_flush_req_to_hw_def cam_context_release_dev_to_hw_def cam_context_start_dev_to_hw_def
      cam_context_config_dev_to_hw_def cam_context_dump_pf_info_to_hw_def cam_context_acquire_dev_to_hw_def
      Let_def split_beta split: list.splits option.splits)

lemma ctl_ops2 [simp]:
  "ctl (ctxs (snd (cam_context_flush_dev_to_hw env A i ty q w)) k) = ctl (ctxs w k)"
  "ctl (ctxs (snd (cam_context_stop_dev_to_hw env A i w)) k) = ctl (ctxs w k)"
  "ctl (ctxs (cam_context_sync_callback env A i r st w) k) = ctl (ctxs w k)"
  "ctl (ctxs (snd (snd (cam_context_dump_dev_to_hw env i dq w))) k) = ctl (ctxs w k)"
  by (simp_all add: cam_context_flush_dev_to_hw_def cam_context_stop_dev_to_hw_def cam_context_sync_callback_def
      cam_context_dump_dev_to_hw_def cam_context_dump_context_def Let_def split_beta split: list.splits option.splits prod.splits)

lemma ctl_register [simp]: "ctl (ctxs (snd (register_loop env A i r j es w)) k) = ctl (ctxs w k)"
  by (induction es arbitrary: j w) (simp_all add: Let_def split_beta)

lemma ctl_prepare [simp]: "ctl (ctxs (snd (cam_context_prepare_dev_to_hw env A i ph off w)) k) = ctl (ctxs w k)"
  by (simp add: cam_context_prepare_dev_to_hw_def prepare_fences_def Let_def split_beta split: list.splits option.splits prod.splits)

lemma ctl_dump_active [simp]: "ctl (ctxs (snd (dump_active env i iova b rs rc w)) k) = ctl (ctxs w k)"
  by (induction rs arbitrary: rc w) (simp_all add: Let_def split_beta)

lemma ctl_fence_work [simp]: "ctl (ctxs (fence_work env A w) k) = ctl (ctxs w k)"
  by (simp add: fence_work_def run_callback_def split: list.splits option.splits prod.splits)

section \<open>The life cycle\<close>

text \<open>The state changes of the drivers; every other pair of states is excluded.\<close>

definition drv_edges :: "cam_driver \<Rightarrow> (cam_context_state \<times> cam_context_state) list" where
  "drv_edges d = [(CAM_CTX_AVAILABLE, CAM_CTX_ACQUIRED), (CAM_CTX_ACQUIRED, CAM_CTX_AVAILABLE)] @
     (case d of
        Drv_jpeg \<Rightarrow> []
      | Drv_icp \<Rightarrow> [(CAM_CTX_ACQUIRED, CAM_CTX_READY), (CAM_CTX_READY, CAM_CTX_ACQUIRED), (CAM_CTX_READY, CAM_CTX_AVAILABLE)]
      | _ \<Rightarrow> [(CAM_CTX_ACQUIRED, CAM_CTX_ACTIVATED), (CAM_CTX_ACTIVATED, CAM_CTX_ACQUIRED),
              (CAM_CTX_ACTIVATED, CAM_CTX_AVAILABLE)])"

definition drv_states :: "cam_driver \<Rightarrow> cam_context_state set" where
  "drv_states d = fst ` set (drv_edges d)"

definition ctl_step :: "cam_context \<Rightarrow> cam_context \<Rightarrow> bool" where
  "ctl_step c c' \<longleftrightarrow> snd (ctl c') = snd (ctl c)
     \<and> (fst (ctl c') = fst (ctl c) \<or> (\<exists>d. fst (snd (ctl c)) = Some d \<and> (fst (ctl c), fst (ctl c')) \<in> set (drv_edges d)))"

definition moves :: "cam_world \<Rightarrow> cam_world \<Rightarrow> bool" where
  "moves w w' \<longleftrightarrow> (\<forall>k. ctl_step (ctxs w k) (ctxs w' k))"

lemma ctl_step_refl: "ctl c' = ctl c \<Longrightarrow> ctl_step c c'"
  by (simp add: ctl_step_def)

lemma moves_refl [simp]: "moves w w"
  by (simp add: moves_def ctl_step_refl)

lemma ctl_set_state [simp]:
  "ctl (ctxs (set_state i s w) k) = (if k = i then (s, snd (ctl (ctxs w i))) else ctl (ctxs w k))"
  by (simp add: set_state_def ctl_def)

lemma ctl_same [simp]: "ctl (c\<lparr>ctx_state := s\<rparr>) = (s, snd (ctl c))"
  by (simp add: ctl_def)

text \<open>An operation of a table makes a move of its driver.\<close>

lemma dispatch_moves:
  assumes "\<And>d s f. sel (machine d s) = Some f \<Longrightarrow> fst (ctl (ctxs w i)) = s \<Longrightarrow> fst (snd (ctl (ctxs w i))) = Some d \<Longrightarrow>
     moves w (snd (call f))"
  shows "moves w (snd (dispatch sel e call i w))"
  by (rule dispatch_rule) (use assms in \<open>auto simp: ctl_def\<close>)

lemmas move_simps = moves_def ctl_step_def drv_edges_def table_defs driver_defs Let_def split_beta

lemma handle_moves:
  "moves w (snd (cam_context_handle_release_dev env A i u w))"
  "moves w (snd (cam_context_handle_start_dev env A i ss w))"
  "moves w (snd (cam_context_handle_flush_dev env A i fl w))"
  "moves w (snd (cam_context_handle_config_dev env A i cf w))"
  "moves w (snd (cam_context_handle_hw_event env i ev q w))"
  "moves w (snd (dispatch stop_dev 0 (\<lambda>f. f env A i ss w) i w))"
  "moves w (snd (dispatch pagefault_ops 0 (\<lambda>f. f env i iova b w) i w))"
proof -
  show "moves w (snd (cam_context_handle_release_dev env A i u w))"
    unfolding cam_context_handle_release_dev_def
  proof (rule dispatch_moves)
    fix d s f
    assume "release_dev (machine d s) = Some f" "fst (ctl (ctxs w i)) = s" "fst (snd (ctl (ctxs w i))) = Some d"
    then show "moves w (snd (f env A i u w))" by (cases d; cases s) (auto simp: move_simps)
  qed
  show "moves w (snd (cam_context_handle_start_dev env A i ss w))"
    unfolding cam_context_handle_start_dev_def
  proof (rule dispatch_moves)
    fix d s f
    assume "start_dev (machine d s) = Some f" "fst (ctl (ctxs w i)) = s" "fst (snd (ctl (ctxs w i))) = Some d"
    then show "moves w (snd (f env A i ss w))" by (cases d; cases s) (auto simp: move_simps)
  qed
  show "moves w (snd (cam_context_handle_flush_dev env A i fl w))"
    unfolding cam_context_handle_flush_dev_def
  proof (rule dispatch_moves)
    fix d s f
    assume "flush_dev (machine d s) = Some f"
    then show "moves w (snd (f env A i fl w))" by (cases d; cases s) (auto simp: move_simps)
  qed
  have icp: "ctl (ctxs (snd (icp_config_dev_in_ready env A i cf w)) k) = ctl (ctxs w k)" for k
    by (simp add: icp_config_dev_in_ready_def Let_def split: prod.splits option.splits)
  show "moves w (snd (cam_context_handle_config_dev env A i cf w))"
    unfolding cam_context_handle_config_dev_def
  proof (rule dispatch_moves)
    fix d s f
    assume "config_dev (machine d s) = Some f"
    then show "moves w (snd (f env A i cf w))" by (cases d; cases s) (auto simp: move_simps icp)
  qed
  show "moves w (snd (cam_context_handle_hw_event env i ev q w))"
    unfolding cam_context_handle_hw_event_def
  proof (rule dispatch_moves)
    fix d s f
    assume "irq_ops (machine d s) = Some f"
    then show "moves w (snd (f env i ev q w))" by (cases d; cases s) (auto simp: move_simps)
  qed
  show "moves w (snd (dispatch stop_dev 0 (\<lambda>f. f env A i ss w) i w))"
  proof (rule dispatch_moves)
    fix d s f
    assume "stop_dev (machine d s) = Some f" "fst (ctl (ctxs w i)) = s" "fst (snd (ctl (ctxs w i))) = Some d"
    then show "moves w (snd (f env A i ss w))" by (cases d; cases s) (auto simp: move_simps)
  qed
  show "moves w (snd (dispatch pagefault_ops 0 (\<lambda>f. f env i iova b w) i w))"
  proof (rule dispatch_moves)
    fix d s f
    assume "pagefault_ops (machine d s) = Some f"
    then show "moves w (snd (f env i iova b w))" by (cases d; cases s) (auto simp: move_simps)
  qed
qed

lemma moves_after: "moves w v \<Longrightarrow> (\<And>k. ctl (ctxs v' k) = ctl (ctxs v k)) \<Longrightarrow> moves w v'"
  by (simp add: moves_def ctl_step_def)

lemma moves_simps [simp]:
  "moves w (cam_context_putref i v) = moves w v" "moves w (v\<lparr>handles := t\<rparr>) = moves w v"
  "moves w (snd (hw_do env c v)) = moves w v"
  by (simp_all add: moves_def ctl_step_def)

lemma moves_upd [simp]: "ctl (f (ctxs v i)) = ctl (ctxs v i) \<Longrightarrow> moves w (upd_ctx i f v) = moves w v"
  using moves_after [of w v "upd_ctx i f v"] moves_after [of w "upd_ctx i f v" v] ctl_upd by metis

lemma moves_before: "moves v w' \<Longrightarrow> (\<And>k. ctl (ctxs v k) = ctl (ctxs w k)) \<Longrightarrow> moves w w'"
  by (simp add: moves_def ctl_step_def)

lemma stop_moves: "moves w (snd (cam_context_handle_stop_dev env A i ss w))"
proof -
  let ?r = "dispatch stop_dev 0 (\<lambda>f. f env A i ss w) i w"
  have "moves w (upd_ctx i (\<lambda>c. c\<lparr>last_flush_req := 0\<rparr>) (snd ?r))"
    by (simp add: handle_moves)
  then show ?thesis by (simp add: cam_context_handle_stop_dev_def Let_def split_beta)
qed

lemma acquire_moves: "moves w (snd (snd (cam_context_handle_acquire_dev env A i aq w)))"
proof (cases "state_machine (ctxs w i)")
  case (Some d)
  then show ?thesis by (cases d; cases "ctx_state (ctxs w i)")
    (auto simp: cam_context_handle_acquire_dev_def ctx_ops_def move_simps, auto simp: ctl_def)
qed (simp add: cam_context_handle_acquire_dev_def ctx_ops_def)

lemma dump_moves: "moves w (snd (snd (cam_context_handle_dump_dev env i dq w)))"
proof (cases "state_machine (ctxs w i)")
  case (Some d)
  then show ?thesis by (cases d; cases "ctx_state (ctxs w i)")
    (auto simp: cam_context_handle_dump_dev_def ctx_ops_def move_simps)
qed (simp add: cam_context_handle_dump_dev_def ctx_ops_def)

lemma with_ctx_moves:
  assumes "with_ctx A nm d s bad f w = Some (r, w')" "\<And>i. moves w (snd (f i w))"
  shows "moves w w'"
proof -
  have "f i w = (r, w') \<Longrightarrow> moves w w'" for i using assms(2) [of i] by simp
  then show ?thesis using assms(1) by (auto simp: with_ctx_def split: if_splits ctx_ref.splits)
qed

lemma handler_moves:
  shows "node_handle_start_dev env A ss w = Some (r, w') \<Longrightarrow> moves w w'"
    "node_handle_stop_dev env A ss w = Some (r, w') \<Longrightarrow> moves w w'"
    "node_handle_flush_dev env A fl w = Some (r, w') \<Longrightarrow> moves w w'"
    "node_handle_dump_dev env A dq w = Some (x, w') \<Longrightarrow> moves w w'"
    "node_handle_config_dev env A cf w = Some (r, w') \<Longrightarrow> moves w w'"
    "node_handle_acquire_hw env A v d s p w = Some (r, w') \<Longrightarrow> moves w w'"
    "node_handle_release_hw env A d s p w = Some (r, w') \<Longrightarrow> moves w w'"
  unfolding node_handle_start_dev_def node_handle_stop_dev_def node_handle_flush_dev_def node_handle_dump_dev_def
    node_handle_config_dev_def node_handle_acquire_hw_def node_handle_release_hw_def
  by - (erule with_ctx_moves, simp add: handle_moves stop_moves dump_moves acquire_hw_same Let_def split_beta)+

lemma release_dev_moves: "node_handle_release_dev env A s d w = Some (r, w') \<Longrightarrow> moves w w'"
  unfolding node_handle_release_dev_def
  by (erule with_ctx_moves) (simp add: Let_def split_beta handle_moves)

lemma acquire_dev_moves: "moves w (snd (snd (node_handle_acquire_dev env A aq w)))"
proof (cases "free_ctx_list w")
  case (Cons i ks)
  let ?w = "upd_ctx i (\<lambda>c. c\<lparr>last_flush_req := 0\<rparr>) (upd_ctx i (\<lambda>c. c\<lparr>refcount := 1\<rparr>) (w\<lparr>free_ctx_list := ks\<rparr>))"
  have m: "moves w (snd (snd (cam_context_handle_acquire_dev env A i aq ?w)))"
    by (rule moves_before [OF acquire_moves]) simp
  then have "moves w (cam_context_putref i (snd (snd (cam_context_handle_acquire_dev env A i aq ?w))))"
    by (rule moves_after) simp
  with m show ?thesis using Cons
    by (simp add: node_handle_acquire_dev_def cam_node_get_ctxt_from_free_list_def Let_def split_beta)
qed (simp add: node_handle_acquire_dev_def cam_node_get_ctxt_from_free_list_def)

lemma ioctl_moves:
  assumes "cam_node_handle_ioctl env A ci co al cmd w = Some (r, w')"
  shows "moves w w'"
  using assms acquire_dev_moves [of w env A]
  by (cases cmd)
    (auto simp: cam_node_handle_ioctl_def node_handle_query_cap_def Let_def split_beta split: if_splits
      dest!: handler_moves release_dev_moves)

text \<open>The shutdown releases one context after the other, each once.\<close>

lemma release_others: "k \<noteq> i \<Longrightarrow> ctl (ctxs (snd (cam_context_handle_release_dev env A i u w)) k) = ctl (ctxs w k)"
  unfolding cam_context_handle_release_dev_def
proof (rule dispatch_rule)
  fix d s f
  assume "k \<noteq> i" "release_dev (machine d s) = Some f"
  then show "ctl (ctxs (snd (f env A i u w)) k) = ctl (ctxs w k)"
    by (cases d; cases s) (auto simp: table_defs driver_defs Let_def split_beta)
qed simp_all

lemma shutdown_ctx_moves:
  "moves w (shutdown_ctx env A i w)" "k \<noteq> i \<Longrightarrow> ctl (ctxs (shutdown_ctx env A i w) k) = ctl (ctxs w k)"
  by (simp_all add: shutdown_ctx_def cam_context_shutdown_def Let_def split_beta release_others handle_moves)

lemma fold_moves:
  assumes "\<And>i w. moves w (f i w)" "\<And>i k w. k \<noteq> i \<Longrightarrow> ctl (ctxs (f i w) k) = ctl (ctxs w k)" "distinct ks"
  shows "moves w (fold f ks w)" "k \<notin> set ks \<Longrightarrow> ctl (ctxs (fold f ks w) k) = ctl (ctxs w k)"
proof -
  show *: "k \<notin> set ks \<Longrightarrow> ctl (ctxs (fold f ks w) k) = ctl (ctxs w k)" for k ks w
    by (induction ks arbitrary: w) (simp_all add: assms(2))
  show "moves w (fold f ks w)"
    using assms(3)
  proof (induction ks arbitrary: w)
    case (Cons i ks)
    show ?case unfolding moves_def
    proof
      fix k
      show "ctl_step (ctxs w k) (ctxs (fold f (i # ks) w) k)"
      proof (cases "k = i")
        case True
        then show ?thesis using * [of i ks "f i w"] assms(1) [of w i] Cons.prems by (simp add: moves_def ctl_step_def)
      next
        case False
        have "ctl_step (ctxs (f i w) k) (ctxs (fold f ks (f i w)) k)" using Cons by (simp add: moves_def)
        then show ?thesis using assms(2) [OF False, of w] by (simp add: ctl_step_def)
      qed
    qed
  qed simp
qed

lemma shutdown_moves: "moves w (snd (cam_node_shutdown env A w))"
  using fold_moves(1) [of "shutdown_ctx env A" "[0..<ctx_size w]" w] shutdown_ctx_moves
  by (simp add: cam_node_shutdown_def Let_def)

lemma step_moves: "node_step A w w' \<Longrightarrow> moves w w'"
proof (induction rule: node_step.induct)
  case (ioctl env ci co al cmd w r w')
  then show ?case by (blast intro: ioctl_moves)
next
  case (fault i w env iova b)
  then show ?case using handle_moves(7) by (simp add: cam_context_dump_pf_info_def)
next
  case (fence w env)
  then show ?case by (simp add: moves_def ctl_step_refl)
next
  case (others w f t m h)
  then show ?case by (simp add: moves_def ctl_step_refl)
qed (auto simp: handle_moves shutdown_moves dest: crm_none)

text \<open>So every context has a table and a hardware manager and is in a state of its driver.\<close>

definition ctx_typed :: "cam_world \<Rightarrow> bool" where
  "ctx_typed w \<longleftrightarrow> (\<forall>i < ctx_size w. \<exists>d. state_machine (ctxs w i) = Some d \<and> hw_mgr_intf (ctxs w i) \<noteq> None
     \<and> ctx_state (ctxs w i) \<in> drv_states d)"

lemma edge_states: "(s, s') \<in> set (drv_edges d) \<Longrightarrow> s' \<in> drv_states d"
  by (cases d) (auto simp: drv_edges_def drv_states_def)

lemma node_init_typed: "node_init w \<Longrightarrow> ctx_typed w"
proof -
  assume "node_init w"
  then obtain d intf n name v where c: "\<forall>i<n. \<exists>c. ctxs v i = snd (drv_context_init d (Some intf) (of_nat i) c)"
    and w: "w = snd (cam_node_init intf n name v)" by (auto simp: node_init_def)
  have e: "\<And>ks v. ctxs (snd (node_add_ctxs ks v)) = ctxs v \<and> ctx_size (snd (node_add_ctxs ks v)) = ctx_size v"
    subgoal for ks v by (induction ks arbitrary: v) simp_all
    done
  have "ctxs w = ctxs v" "ctx_size w = n" using e by (simp_all add: w cam_node_init_def)
  moreover have "CAM_CTX_AVAILABLE \<in> drv_states d" by (cases d) (simp_all add: drv_states_def drv_edges_def)
  ultimately show "ctx_typed w"
    using c by (fastforce simp: ctx_typed_def drv_context_init_def cam_context_init_def Let_def)
qed

lemma node_step_typed:
  assumes "node_step A w w'" "world_wf w" "ctx_typed w"
  shows "ctx_typed w'"
  unfolding ctx_typed_def
proof (intro allI impI)
  fix i
  assume "i < ctx_size w'"
  then have i: "i < ctx_size w" using node_step_kept [OF assms(1,2)] by (simp add: kept_def)
  obtain d where d: "state_machine (ctxs w i) = Some d" "hw_mgr_intf (ctxs w i) \<noteq> None" "ctx_state (ctxs w i) \<in> drv_states d"
    using assms(3) i by (auto simp: ctx_typed_def)
  have "ctl_step (ctxs w i) (ctxs w' i)" using step_moves [OF assms(1)] by (simp add: moves_def)
  then show "\<exists>d. state_machine (ctxs w' i) = Some d \<and> hw_mgr_intf (ctxs w' i) \<noteq> None \<and> ctx_state (ctxs w' i) \<in> drv_states d"
    using d edge_states by (auto simp: ctl_step_def ctl_def)
qed

interpretation node_typed: invariant_system node_init "node_step A" "\<lambda>w. world_wf w \<and> ctx_typed w" for A
  by unfold_locales (auto intro: node_init_wf node_init_typed node_step_typed simp: node_step_wf)

end
