(* ===== verification/Cam_Ctx_Demo.thy ===== *)
theory Cam_Ctx_Demo
  imports Cam_Ctx_Type Cam_Sync_Props
begin

text \<open>
  A JPEG node with two contexts, run from its initialisation through the acquisition of a context
  and the configuration of a request that waits for fence 1 and signals fence 2.
\<close>

definition intf_demo :: cam_hw_mgr_intf where
  "intf_demo = \<lparr>has_hw_get_caps = True, has_hw_release = True, has_hw_start = True, has_hw_stop = True, has_hw_flush = True,
     has_hw_stream = True, has_hw_cmd = True, has_hw_dump = True, has_hw_close = True\<rparr>"

definition hw_demo :: hw_env where
  "hw_demo = \<lparr>hw_rc = (\<lambda>_. 0), hw_map = (\<lambda>_. 0x77),
     hw_prep = (\<lambda>_. \<lparr>pr_num_hw_update = 1, pr_out = [\<lparr>resource_handle = 5, sync_id = 2\<rparr>],
       pr_in = [\<lparr>resource_handle = 4, sync_id = 1\<rparr>], pr_priv = 0x99, pr_packet = 0x8000\<rparr>),
     hw_offset = (\<lambda>_. 16), in_interrupt = False, cb_alloc = (\<lambda>_. True), rand_byte = 3\<rparr>"

definition at_demo :: addrs where
  "at_demo = \<lparr>sync_cb = 0x500, ctx_at = (\<lambda>i. 0x1000 + 0x100 * of_nat i),
     req_at = (\<lambda>i r. 0x100000 + 0x10000 * of_nat i + 0x100 * of_nat r)\<rparr>"

text \<open>Two fences, of which nobody holds a reference, and a packet with request id 1 in a buffer.\<close>

definition fences_demo :: sync_device where
  "fences_demo = snd (snd (cam_sync_create None (snd (snd (cam_sync_create (Some ''a'') cam_sync_probe_state)))))"

definition bufs_demo :: cam_mem_table where
  "bufs_demo = \<lparr>mem_initialized = True, mem_bitmap = (\<lambda>i. i = 1), bufq = (\<lambda>_. zero_bufq)(1 :=
     zero_bufq\<lparr>dma_buf := 1, buf_handle := 1, buf_len := 8192, buf_flags := CAM_MEM_FLAG_KMD_ACCESS, kmdvaddr := 0x8000, active := True\<rparr>),
     dbg_buf_idx = 0, ext_trace = []\<rparr>"

definition w_boot :: "cam_driver \<Rightarrow> cam_world" where
  "w_boot d = snd (cam_node_init intf_demo 2 (drv_name d)
     \<lparr>fences = fences_demo, bufs = bufs_demo, kmemory = st32 (\<lambda>_. 0) 0x8008 1, handles = tbl_demo,
      ctxs = (\<lambda>i. snd (drv_context_init d (Some intf_demo) (of_nat i) zero_ctx)), ctx_size = 0, node_name = '''',
      free_ctx_list = [], node_hw = intf_demo, hw_calls = []\<rparr>)"

definition aq_demo :: cam_acquire_dev_cmd where
  "aq_demo = \<lparr>aq_session_handle = 1, aq_dev_handle = 0, handle_type = 1, num_resources = 1, resource_hdl = 0x200\<rparr>"

definition w_acq :: "cam_driver \<Rightarrow> cam_world" where
  "w_acq d = snd (snd (node_handle_acquire_dev hw_demo at_demo aq_demo (w_boot d)))"

definition cf_demo :: "u64 \<Rightarrow> cam_config_dev_cmd" where
  "cf_demo off = \<lparr>cf_session_handle = 1, cf_dev_handle = cx_dev_hdl (ctxs (w_acq Drv_jpeg) 0), cf_offset = off, packet_handle = 1\<rparr>"

definition w_cfg :: cam_world where
  "w_cfg = snd (cam_context_handle_config_dev hw_demo at_demo 0 (cf_demo 0) (w_acq Drv_jpeg))"

text \<open>The states in closed form, from which the values below are read off.\<close>

definition hdl_demo :: "int \<times> hdl_global" where
  "hdl_demo = cam_create_device_hdl 3 \<lparr>cd_session_hdl = 1, cd_dev_id = CAM_JPEG, cd_ops = 0, cd_priv = 0x1000\<rparr> tbl_demo"

definition ctx_demo :: cam_context where
  "ctx_demo = (snd (drv_context_init Drv_jpeg (Some intf_demo) 0 zero_ctx))
     \<lparr>refcount := 1, ctxt_to_hw_map := 0x77, cx_dev_hdl := fst hdl_demo, cx_session_hdl := 1, ctx_state := CAM_CTX_ACQUIRED\<rparr>"

lemma hdl_demo_pos: "0 < fst hdl_demo" and hdl_demo_priv: "cam_get_device_priv (fst hdl_demo) (snd hdl_demo) = 0x1000"
  by code_simp+

lemma w_boot_closed:
  "w_boot d = \<lparr>fences = fences_demo, bufs = bufs_demo, kmemory = st32 (\<lambda>_. 0) 0x8008 1, handles = tbl_demo,
      ctxs = (\<lambda>i. snd (drv_context_init d (Some intf_demo) (of_nat i) zero_ctx)), ctx_size = 2,
      node_name = strlcpy (drv_name d) CAM_CTX_DEV_NAME_MAX_LENGTH,
      free_ctx_list = [0, 1], node_hw = intf_demo, hw_calls = []\<rparr>"
  unfolding w_boot_def cam_node_init_def
  by (subst node_add_ctxs_all) (auto simp: drv_context_init_def cam_context_init_def upt_rec)

lemma w_acq_closed:
  "w_acq Drv_jpeg = (w_boot Drv_jpeg)\<lparr>handles := snd hdl_demo, ctxs := (ctxs (w_boot Drv_jpeg))(0 := ctx_demo),
     free_ctx_list := [1], hw_calls := [Hw_acquire 0 1 0x200]\<rparr>"
  using hdl_demo_pos
  by (simp add: w_acq_def node_handle_acquire_dev_def cam_node_get_ctxt_from_free_list_def cam_context_handle_acquire_dev_def
      w_boot_closed ctx_ops_def table_defs driver_defs cam_context_acquire_dev_to_hw_def upd_ctx_def hw_do_def
      hw_demo_def aq_demo_def at_demo_def set_state_def init_lists_def ctx_demo_def hdl_demo_def split_beta
      drv_context_init_def cam_context_init_def zero_ctx_def drv_dev_id_def)

lemma fences_demo_rows:
  "row_state (sync_table fences_demo 1) = CAM_SYNC_STATE_ACTIVE" "sync_bitmap fences_demo 1"
  "row_state (sync_table fences_demo 2) = CAM_SYNC_STATE_ACTIVE" "row_type (sync_table fences_demo 2) = SYNC_TYPE_INDV"
  "ref_cnt (sync_table fences_demo 2) = 0"
  by code_simp+

lemma packet_demo:
  "cam_mem_get_cpu_buf 1 bufs_demo = (0, Some (0x8000, 8192))" "pkt_request_id (st32 (\<lambda>_. 0) 0x8008 1) 0x8000 = 1"
  by code_simp+

definition req_demo :: cam_ctx_request where
  "req_demo = fill_req (hw_prep hw_demo 1) 1 (zero_req\<lparr>rq_ctx := True\<rparr>)"

definition fences_cfg :: sync_device where
  "fences_cfg = snd (cam_sync_register_callback True 0x500 0x100000 1 (snd (cam_sync_get_obj_ref 2 fences_demo)))"

lemma jpeg_config_is: "cam_context_handle_config_dev env A 0 cf (w_acq Drv_jpeg) =
   cam_context_prepare_dev_to_hw env A 0 (packet_handle cf) (cf_offset cf) (w_acq Drv_jpeg)"
  by (simp add: cam_context_handle_config_dev_def dispatch_def ctx_ops_def table_defs driver_defs w_acq_closed ctx_demo_def
      drv_context_init_def cam_context_init_def)

lemma ctx_demo_fields [simp]:
  "hw_mgr_intf ctx_demo = Some intf_demo" "free_req_list ctx_demo = 0 # [1..<20]" "pending_req_list ctx_demo = []"
  "active_req_list ctx_demo = []" "wait_req_list ctx_demo = []" "last_flush_req ctx_demo = 0" "refcount ctx_demo = 1"
  "ctx_state ctx_demo = CAM_CTX_ACQUIRED" "state_machine ctx_demo = Some Drv_jpeg" "list_bug ctx_demo = False"
  by (simp_all add: ctx_demo_def drv_context_init_def cam_context_init_def zero_ctx_def upt_conv_Cons)

lemma w_cfg_closed:
  "cam_context_handle_config_dev hw_demo at_demo 0 (cf_demo 0) (w_acq Drv_jpeg) =
    (0, (w_acq Drv_jpeg)\<lparr>fences := fences_cfg, ctxs := (ctxs (w_acq Drv_jpeg))(0 := ctx_demo\<lparr>refcount := 2, pending_req_list := [0],
       free_req_list := [1..<20], req := (req ctx_demo)(0 := req_demo)\<rparr>),
     hw_calls := [Hw_acquire 0 1 0x200, Hw_prepare 0x77 0x8000 8192]\<rparr>)"
  unfolding jpeg_config_is
  using fences_demo_rows
  by (simp add: cam_context_prepare_dev_to_hw_def w_acq_closed w_boot_closed cf_demo_def packet_demo hw_demo_def upd_ctx_def hw_do_def
      prepare_fences_def upd_req_def set_req_def fill_req_def cam_sync_get_obj_ref_def sync_obj_bad_def add_pending_def req_del_def on_list_def
      check_in_fences.simps cam_sync_check_valid_def upd_row_def cam_context_getref_def cam_sync_register_callback_def at_demo_def
      fences_cfg_def req_demo_def Let_def,
      simp add: ctx_demo_def drv_context_init_def cam_context_init_def zero_ctx_def numeral_2_eq_2)

lemma w_cfg_is: "w_cfg = (w_acq Drv_jpeg)\<lparr>fences := fences_cfg,
     ctxs := (ctxs (w_acq Drv_jpeg))(0 := ctx_demo\<lparr>refcount := 2, pending_req_list := [0],
       free_req_list := [1..<20], req := (req ctx_demo)(0 := req_demo)\<rparr>),
     hw_calls := [Hw_acquire 0 1 0x200, Hw_prepare 0x77 0x8000 8192]\<rparr>"
  by (simp only: w_cfg_def w_cfg_closed snd_conv)

text \<open>These states are reached.\<close>

lemma boot_reach: "reach node_init (node_step A) (w_boot d)"
  by (rule reach_init, unfold node_init_def, rule exI [of _ d], rule exI [of _ intf_demo], rule exI [of _ 2],
      rule exI [of _ "drv_name d"], rule exI, rule conjI [OF _ w_boot_def]) auto

lemma ctx_of_demo: "ctx_of_hdl at_demo (fst hdl_demo) (w_acq Drv_jpeg) = Ctx 0"
  by (simp add: ctx_of_hdl_def w_acq_closed w_boot_closed hdl_demo_priv at_demo_def upt_rec)

lemma acq_reach: "reach node_init (node_step at_demo) (w_acq Drv_jpeg)"
proof (rule reach_step [OF boot_reach])
  have "fst (node_handle_acquire_dev hw_demo at_demo aq_demo (w_boot Drv_jpeg)) = 0" by code_simp
  then show "node_step at_demo (w_boot Drv_jpeg) (w_acq Drv_jpeg)"
    by (intro node_step.ioctl [where env = hw_demo and ci = True and co = True and al = True and cmd = "Acquire_dev aq_demo"])
      (simp_all add: cam_node_handle_ioctl_def w_acq_def Let_def split_beta)
qed

lemma cfg_reach: "reach node_init (node_step at_demo) w_cfg"
proof (rule reach_step [OF acq_reach])
  have h: "cx_dev_hdl (ctxs (w_acq Drv_jpeg) 0) = fst hdl_demo" by (simp add: w_acq_closed ctx_demo_def)
  have n: "node_name (w_acq Drv_jpeg) = dev_name (ctxs (w_acq Drv_jpeg) 0)"
    by (simp add: w_acq_closed w_boot_closed ctx_demo_def drv_context_init_def cam_context_init_def)
  have r: "cam_node_handle_ioctl hw_demo at_demo True True True (Config_dev (cf_demo 0)) (w_acq Drv_jpeg) = Some ((0, None), w_cfg)"
    using hdl_demo_pos w_cfg_closed
    by (simp add: cam_node_handle_ioctl_def node_handle_config_dev_def with_ctx_def cf_demo_def h ctx_of_demo n w_cfg_def)
  show "node_step at_demo (w_acq Drv_jpeg) w_cfg"
  proof (rule node_step.ioctl [OF r])
    show "in_fences_valid hw_demo (w_acq Drv_jpeg)"
      using fences_demo_rows
      by (simp add: in_fences_valid_def hw_demo_def w_acq_closed w_boot_closed cam_sync_check_valid_def sync_obj_bad_def)
  qed
qed

definition w_run :: cam_world where
  "w_run = cam_context_sync_callback hw_demo at_demo 0 0 CAM_SYNC_STATE_SIGNALED_SUCCESS w_cfg"

definition ctx_cfg :: cam_context where
  "ctx_cfg = ctx_demo\<lparr>refcount := 2, pending_req_list := [0], free_req_list := [1..<20], req := (req ctx_demo)(0 := req_demo)\<rparr>"

lemma ctx_cfg_fields:
  "ctxs w_cfg 0 = ctx_cfg" "hw_mgr_intf ctx_cfg = Some intf_demo" "req ctx_cfg 0 = req_demo" "refcount ctx_cfg = 2"
  "active_req_list ctx_cfg = []" "pending_req_list ctx_cfg = [0]" "wait_req_list ctx_cfg = []" "free_req_list ctx_cfg = [1..<20]"
  "ctxt_to_hw_map ctx_cfg = 0x77" "list_bug ctx_cfg = False"
  "hw_calls w_cfg = [Hw_acquire 0 1 0x200, Hw_prepare 0x77 0x8000 8192]"
  by (simp_all add: w_cfg_is ctx_cfg_def) (simp add: ctx_demo_def)

lemma req_demo_fields:
  "in_map_entries req_demo = [\<lparr>resource_handle = 4, sync_id = 1\<rparr>]" "out_map_entries req_demo = [\<lparr>resource_handle = 5, sync_id = 2\<rparr>]"
  "num_in_acked req_demo = 0" "\<not> flushed req_demo" "rq_ctx req_demo" "request_id req_demo = 1"
  by (simp_all add: req_demo_def fill_req_def hw_demo_def zero_req_def)

lemma w_run_closed:
  "active_req_list (ctxs w_run 0) = [0]" "pending_req_list (ctxs w_run 0) = []"
  "out_map_entries (req (ctxs w_run 0) 0) = [\<lparr>resource_handle = 5, sync_id = 2\<rparr>]" "request_id (req (ctxs w_run 0) 0) = 1"
  "in_map_entries (req (ctxs w_run 0) 0) = [\<lparr>resource_handle = 4, sync_id = 1\<rparr>]"
  "hw_calls w_run = [Hw_acquire 0 1 0x200, Hw_prepare 0x77 0x8000 8192, Hw_config 0x77 0 1]"
  "fences w_run = fences_cfg" "ctx_size w_run = 2"
proof -
  have "fences w_cfg = fences_cfg" "ctx_size w_cfg = 2" by (simp_all add: w_cfg_is w_acq_closed w_boot_closed)
  then show "active_req_list (ctxs w_run 0) = [0]" "pending_req_list (ctxs w_run 0) = []"
    "out_map_entries (req (ctxs w_run 0) 0) = [\<lparr>resource_handle = 5, sync_id = 2\<rparr>]" "request_id (req (ctxs w_run 0) 0) = 1"
    "in_map_entries (req (ctxs w_run 0) 0) = [\<lparr>resource_handle = 4, sync_id = 1\<rparr>]"
    "hw_calls w_run = [Hw_acquire 0 1 0x200, Hw_prepare 0x77 0x8000 8192, Hw_config 0x77 0 1]"
    "fences w_run = fences_cfg" "ctx_size w_run = 2"
    by (simp_all add: w_run_def cam_context_sync_callback_def cam_context_apply_req_to_hw_def ctx_cfg_fields req_demo_fields
        hw_demo_def upd_req_def set_req_def hw_do_def add_active_def req_del_def Let_def)
qed

end
