(* ===== verification/Cam_Ctx_Props.thy ===== *)
theory Cam_Ctx_Props
  imports Cam_Ctx_Demo
begin

text \<open>The properties of the contexts and the nodes.\<close>

section \<open>Invariants\<close>

text \<open>C8: in every state a node reaches, the four lists of a context hold different requests of its storage of 20, so that the
  arrays of 20 entries a flush fills are never overrun, no list was broken by adding a request twice, and the free
  contexts of the node are, each once, those without a reference. A step is an ioctl, a call of the request manager, an interrupt,
  a page fault, a callback of a fence, the shutdown, or any change of fences, buffers and handles by others; the input
  fences of a configuration have to be valid.\<close>

theorem ctx_reachable_wf:
  assumes "reach node_init (node_step A) w" "i < ctx_size w"
  shows "distinct (active_req_list (ctxs w i) @ pending_req_list (ctxs w i) @ wait_req_list (ctxs w i) @ free_req_list (ctxs w i))
     \<and> (\<forall>r. on_list r (ctxs w i) \<longrightarrow> r < CAM_CTX_REQ_MAX)
     \<and> length (pending_req_list (ctxs w i)) + length (active_req_list (ctxs w i)) \<le> CAM_CTX_REQ_MAX
     \<and> \<not> list_bug (ctxs w i)
     \<and> distinct (free_ctx_list w) \<and> (i \<in> set (free_ctx_list w) \<longleftrightarrow> refcount (ctxs w i) = 0)"
proof -
  have wf: "world_wf w" by (rule node.reach_inv [OF assms(1)])
  note l = wf_lists [OF wf assms(2), unfolded lists_ok_def]
  have "length (lists (ctxs w i)) = card (set (lists (ctxs w i)))" using l by (simp add: distinct_card)
  also have "\<dots> \<le> card {..<CAM_CTX_REQ_MAX}" using l by (intro card_mono) auto
  finally have "length (pending_req_list (ctxs w i)) + length (active_req_list (ctxs w i)) \<le> CAM_CTX_REQ_MAX"
    by (simp add: lists_def)
  moreover have "distinct (free_ctx_list w)" "i \<in> set (free_ctx_list w) \<longleftrightarrow> refcount (ctxs w i) = 0"
    using wf assms(2) by (simp_all add: world_wf_def pool_ok_def)
  ultimately show ?thesis using l wf_bound [OF wf assms(2)] by (simp add: lists_def)
qed

theorem ctx_reachable_wf_witness:
  "pending_req_list (ctxs w_cfg 0) = [0] \<and> distinct (lists (ctxs w_cfg 0)) \<and> 0 \<notin> set (free_ctx_list w_cfg)"
proof -
  have "0 < ctx_size w_cfg" by (simp add: w_cfg_is w_acq_closed w_boot_closed)
  from ctx_reachable_wf [OF cfg_reach this] show ?thesis by (simp add: lists_def w_cfg_is)
qed

text \<open>C12: a context always has the table of its driver and a hardware manager, is always in one of the states of its driver,
  and a step of the node moves it along an edge of the driver's life cycle or leaves its state alone: JPEG contexts are
  available or acquired, those of FD and LRME also activated, those of ICP also ready.\<close>

theorem ctx_life_cycle:
  assumes "reach node_init (node_step A) w" "node_step A w w'" "i < ctx_size w"
  shows "\<exists>d intf. state_machine (ctxs w i) = Some d \<and> state_machine (ctxs w' i) = Some d
     \<and> hw_mgr_intf (ctxs w i) = Some intf \<and> hw_mgr_intf (ctxs w' i) = Some intf
     \<and> ctx_state (ctxs w i) \<in> drv_states d
     \<and> (ctx_state (ctxs w' i) = ctx_state (ctxs w i) \<or> (ctx_state (ctxs w i), ctx_state (ctxs w' i)) \<in> set (drv_edges d))"
proof -
  have t: "ctx_typed w" using node_typed.reach_inv [OF assms(1)] by blast
  have "ctl_step (ctxs w i) (ctxs w' i)" using step_moves [OF assms(2)] by (simp add: moves_def)
  then show ?thesis using t assms(3) by (fastforce simp: ctx_typed_def ctl_step_def ctl_def)
qed

theorem ctx_life_cycle_witness:
  "state_machine (ctxs (fence_work hw_demo at_demo (w_acq Drv_jpeg)) 0) = Some Drv_jpeg"
proof -
  have "0 < ctx_size (w_acq Drv_jpeg)" by (simp add: w_acq_closed w_boot_closed)
  from ctx_life_cycle [OF acq_reach node_step.fence this, of hw_demo] show ?thesis by (auto simp: w_acq_closed)
qed

section \<open>Completion\<close>

text \<open>Signalling a fence leaves every other individual fence alone.\<close>

lemma signal_others:
  assumes wf: "sync_wf f" and r: "ready f s" and st: "is_signal st"
    and k: "row_type (sync_table f k) = SYNC_TYPE_INDV" "k \<noteq> nat s"
  shows "sync_table (snd (cam_sync_signal s st f)) k = sync_table f k"
proof -
  have "k \<notin> set (parents_list (sync_table f (nat s)))"
    using parents_live(4) [OF wf [unfolded sync_wf_def], of k "nat s"] k(1) by auto
  then show ?thesis using k(2) by (rule_tac signal_closed [OF wf r st]) simp
qed

lemma signal_fences_delivers:
  assumes "sync_wf f" "is_signal st" "distinct (map sync_id es)" "\<forall>e\<in>set es. ready f (sync_id e)"
  shows "sync_wf (signal_fences st es f)
     \<and> (\<forall>k. row_type (sync_table f k) = SYNC_TYPE_INDV \<longrightarrow> k \<notin> (\<lambda>e. nat (sync_id e)) ` set es \<longrightarrow>
           sync_table (signal_fences st es f) k = sync_table f k)
     \<and> (\<forall>e\<in>set es. row_state (sync_table (signal_fences st es f) (nat (sync_id e))) = st)
     \<and> set (work_queue f) \<subseteq> set (work_queue (signal_fences st es f))
     \<and> (\<forall>e\<in>set es. \<forall>cb\<in>set (callback_list (sync_table f (nat (sync_id e)))).
           cb\<lparr>cb_status := st\<rparr> \<in> set (work_queue (signal_fences st es f)))"
  using assms(1,3,4)
proof (induction es arbitrary: f)
  case (Cons e es)
  let ?s = "sync_id e"
  let ?g = "snd (cam_sync_signal ?s st f)"
  have r: "ready f ?s" using Cons.prems(3) by simp
  have g: "sync_wf ?g" "row_state (sync_table ?g (nat ?s)) = st" "row_type (sync_table ?g (nat ?s)) = SYNC_TYPE_INDV"
    "set (work_queue f) \<subseteq> set (work_queue ?g)"
    "\<forall>cb\<in>set (callback_list (sync_table f (nat ?s))). cb\<lparr>cb_status := st\<rparr> \<in> set (work_queue ?g)"
    using r by (rule_tac signal_closed [OF Cons.prems(1) r assms(2)], auto simp: signal_row_def ready_def)+
  have ne: "nat (sync_id x) \<noteq> nat ?s" if "x \<in> set es" for x
  proof -
    have "sync_id x \<noteq> ?s" using Cons.prems(2) imageI [OF that, of sync_id] by (simp only: list.map distinct.simps set_map) metis
    moreover have "0 \<le> sync_id x" "0 \<le> ?s" using Cons.prems(3) that by (auto simp: ready_def sync_obj_bad_def)
    ultimately show ?thesis by (simp add: eq_nat_nat_iff)
  qed
  have keep: "sync_table ?g (nat (sync_id x)) = sync_table f (nat (sync_id x))" if "x \<in> set es" for x
    using signal_others [OF Cons.prems(1) r assms(2) _ ne [OF that]] Cons.prems(3) that by (simp add: ready_def)
  have "\<forall>x\<in>set es. ready ?g (sync_id x)" using keep Cons.prems(3) by (simp add: ready_def)
  note IH = Cons.IH [OF g(1) _ this]
  show ?case
    using IH Cons.prems g ne keep signal_others [OF Cons.prems(1) r assms(2)] by fastforce
qed simp

text \<open>C10: when the hardware reports a request as done, outside an interrupt, the oldest active request is completed if it
  has the id reported and at least one output fence: the call returns 0, every output fence of the request is
  signalled, with success if the event is 0 and with error otherwise, all callbacks that were waiting for these
  fences are queued with that status, and the request moves from the head of the active list to the end of the free list
  and forgets its context; the other lists stay as they are. The output fences have to be different, individual, active,
  and with one reference each, which is how the configuration leaves them. With another id or without an output
  fence the call returns EIO, in an interrupt EINVAL, and nothing changes: the request stays at the head of the active list.\<close>

theorem ctx_buf_done_signals:
  assumes "world_wf w" "i < ctx_size w" "sync_wf (fences w)"
    and "active_req_list (ctxs w i) = r # rs"
    and "out_map_entries (req (ctxs w i) r) = es" "distinct (map sync_id es)" "\<forall>e\<in>set es. ready (fences w) (sync_id e)"
    and st_def: "st = (if ev = 0 then CAM_SYNC_STATE_SIGNALED_SUCCESS else CAM_SYNC_STATE_SIGNALED_ERROR)"
  shows "case cam_context_buf_done_from_hw env i done_id ev w of (rc, w') \<Rightarrow>
     if in_interrupt env then rc = - EINVAL \<and> w' = w
     else if request_id (req (ctxs w i) r) \<noteq> done_id \<or> es = [] then rc = - EIO \<and> w' = w
     else rc = 0
     \<and> (\<forall>e\<in>set es. row_state (sync_table (fences w') (nat (sync_id e))) = st
          \<and> (\<forall>cb\<in>set (callback_list (sync_table (fences w) (nat (sync_id e)))). cb\<lparr>cb_status := st\<rparr> \<in> set (work_queue (fences w'))))
     \<and> active_req_list (ctxs w' i) = rs \<and> free_req_list (ctxs w' i) = free_req_list (ctxs w i) @ [r]
     \<and> pending_req_list (ctxs w' i) = pending_req_list (ctxs w i) \<and> \<not> rq_ctx (req (ctxs w' i) r)
     \<and> (\<forall>k. k \<noteq> i \<longrightarrow> ctxs w' k = ctxs w k)"
proof (cases "in_interrupt env \<or> request_id (req (ctxs w i) r) \<noteq> done_id \<or> es = []")
  case True
  then show ?thesis using assms(4,5) by (auto simp: cam_context_buf_done_from_hw_def Let_def)
next
  case False
  have st: "is_signal st" by (simp add: st_def is_signal_def)
  note sg = signal_fences_delivers [OF assms(3) st assms(6,7)]
  have off: "r \<notin> set rs" "r \<notin> set (pending_req_list (ctxs w i))" "r \<notin> set (wait_req_list (ctxs w i))"
    "r \<notin> set (free_req_list (ctxs w i))"
    using wf_lists [OF assms(1,2)] assms(4) by (auto simp: lists_ok_def lists_def)
  show ?thesis
    using sg off assms(4,5) False
    by (simp add: cam_context_buf_done_from_hw_def st_def [symmetric] upd_req_def set_req_def free_request_def add_free_def
        req_del_def Let_def)
qed

lemma fences_cfg_wf: "sync_wf fences_cfg"
  by (simp add: fences_cfg_def fences_demo_def sync_wf_register_callback sync_wf_get_obj_ref sync_wf_create sync_wf_probe)

lemma fences_cfg_ready: "ready fences_cfg 2"
  by (simp add: fences_cfg_def ready_def cam_sync_register_callback_def cam_sync_get_obj_ref_def sync_obj_bad_def upd_row_def
      fences_demo_rows Let_def)

theorem ctx_buf_done_signals_witness:
  "row_state (sync_table (fences (snd (cam_context_buf_done_from_hw hw_demo 0 1 7 w_run))) 2) = CAM_SYNC_STATE_SIGNALED_ERROR"
proof -
  have wf: "world_wf w_run"
    unfolding w_run_def by (rule ctx_op.keeps [OF sync_callback_op])
      (use node.reach_inv [OF cfg_reach] in \<open>simp_all add: w_cfg_is w_acq_closed w_boot_closed\<close>)
  show ?thesis
    using ctx_buf_done_signals [OF wf, where i = 0 and env = hw_demo and r = 0 and rs = "[]" and done_id = 1
      and es = "[\<lparr>resource_handle = 5, sync_id = 2\<rparr>]" and ev = 7]
      fences_cfg_wf fences_cfg_ready w_run_closed
    by (simp add: hw_demo_def split: prod.splits)
qed

section \<open>Submission\<close>

lemma dereg_loop_keeps:
  "hw_calls (snd (dereg_loop A i r es fr w)) = hw_calls w"
  "flushed (req (ctxs (snd (dereg_loop A i r es fr w)) i) r) = flushed (req (ctxs w i) r)"
  by (induction es arbitrary: fr w) (simp_all add: Let_def split_beta upd_req_def set_req_def)

text \<open>What a flush of one pending request does, as far as the callback needs it.\<close>

lemma dereg_loop_req:
  "flushed (req (ctxs (snd (dereg_loop A i r es fr w)) i) k) = flushed (req (ctxs w i) k)"
  "request_id (req (ctxs (snd (dereg_loop A i r es fr w)) i) k) = request_id (req (ctxs w i) k)"
  "hw_mgr_intf (ctxs (snd (dereg_loop A i r es fr w)) i) = hw_mgr_intf (ctxs w i)"
  "ctxt_to_hw_map (ctxs (snd (dereg_loop A i r es fr w)) i) = ctxt_to_hw_map (ctxs w i)"
  by (induction es arbitrary: fr w)
    (simp_all add: Let_def split_beta upd_req_def set_req_def cam_context_putref_def cam_node_put_ctxt_to_free_list_def)

lemma flush_req_pending:
  assumes "find (\<lambda>r. request_id (req (ctxs w i) r) = q) (pending_req_list (ctxs w i)) = Some r"
  shows "flushed (req (ctxs (snd (cam_context_flush_req_to_hw env A i q w)) i) k) \<longleftrightarrow> k = r \<or> flushed (req (ctxs w i) k)"
    "request_id (req (ctxs (snd (cam_context_flush_req_to_hw env A i q w)) i) k) = request_id (req (ctxs w i) k)"
    "hw_mgr_intf (ctxs (snd (cam_context_flush_req_to_hw env A i q w)) i) = hw_mgr_intf (ctxs w i)"
    "ctxt_to_hw_map (ctxs (snd (cam_context_flush_req_to_hw env A i q w)) i) = ctxt_to_hw_map (ctxs w i)"
    "hw_calls (snd (cam_context_flush_req_to_hw env A i q w)) = hw_calls w @ (if can_flush (ctxs w i)
       then [Hw_flush CAM_FLUSH_TYPE_REQ (ctxt_to_hw_map (ctxs w i)) [req_priv (req (ctxs w i) r)] [] 0] else [])"
  using assms
  by (simp_all add: cam_context_flush_req_to_hw_def Let_def split_beta hw_flush_req_def dereg_loop_keeps dereg_loop_req
      free_request_def set_req_def add_free_def req_del_def)

text \<open>C9: a pending request is given to the hardware by the callback of its last input fence, and by no other. This is for a
  callback outside an interrupt, in a context with a hardware manager, for a request that has its context. A
  callback that is not the last only counts. The last one, if the fence did not fail and the request was not flushed, makes the
  one call that configures the hardware and moves the request to the end of the active list; if the hardware
  refuses, the request goes to the end of the free list, its output fences unsignalled. If the last fence failed, the
  first pending request with the id of this one is flushed. If that is this request, the hardware is not
  configured, and the request is free. If it is another one with the same id, for ids are not checked to be different,
  this one is given to the hardware all the same, unless it was flushed before.\<close>

theorem ctx_callback_submits:
  assumes wf: "world_wf w" and i: "i < ctx_size w" and "\<not> in_interrupt env" "hw_mgr_intf (ctxs w i) \<noteq> None"
    and r: "r \<in> set (pending_req_list (ctxs w i))" "rq_ctx (req (ctxs w i) r)"
    and q: "q = req (ctxs w i) r" and w': "w' = cam_context_sync_callback env A i r st w"
  shows "(num_in_acked q + 1 \<noteq> int (length (in_map_entries q)) \<longrightarrow>
        hw_calls w' = hw_calls w \<and> fences w' = fences w \<and> pending_req_list (ctxs w' i) = pending_req_list (ctxs w i)
        \<and> active_req_list (ctxs w' i) = active_req_list (ctxs w i) \<and> num_in_acked (req (ctxs w' i) r) = num_in_acked q + 1)
     \<and> (num_in_acked q + 1 = int (length (in_map_entries q)) \<longrightarrow> st \<noteq> CAM_SYNC_STATE_SIGNALED_ERROR \<longrightarrow> \<not> flushed q \<longrightarrow>
        hw_calls w' = hw_calls w @ [Hw_config (ctxt_to_hw_map (ctxs w i)) r (request_id q)] \<and> fences w' = fences w
        \<and> pending_req_list (ctxs w' i) = removeAll r (pending_req_list (ctxs w i))
        \<and> (if hw_rc env (length (hw_calls w)) = 0
            then active_req_list (ctxs w' i) = active_req_list (ctxs w i) @ [r]
            else active_req_list (ctxs w' i) = active_req_list (ctxs w i)
               \<and> free_req_list (ctxs w' i) = free_req_list (ctxs w i) @ [r]))
     \<and> (num_in_acked q + 1 = int (length (in_map_entries q)) \<longrightarrow> st = CAM_SYNC_STATE_SIGNALED_ERROR \<longrightarrow>
        find (\<lambda>k. request_id (req (ctxs w i) k) = request_id q) (pending_req_list (ctxs w i)) = Some f \<longrightarrow>
        (f = r \<longrightarrow> (\<forall>k\<in>set (drop (length (hw_calls w)) (hw_calls w')). \<forall>m n c. k \<noteq> Hw_config m n c)
          \<and> r \<in> set (free_req_list (ctxs w' i)) \<and> r \<notin> set (pending_req_list (ctxs w' i) @ active_req_list (ctxs w' i)))
        \<and> (f \<noteq> r \<longrightarrow> \<not> flushed q \<longrightarrow>
          last (hw_calls w') = Hw_config (ctxt_to_hw_map (ctxs w i)) r (request_id q) \<and> length (hw_calls w) < length (hw_calls w')))"
    (is "?count \<and> ?submit \<and> ?failed")
proof (intro conjI)
  have off: "r \<notin> set (active_req_list (ctxs w i))" "r \<notin> set (free_req_list (ctxs w i))"
    using wf_lists [OF wf i] r(1) by (auto simp: lists_ok_def lists_def)
  obtain intf where h: "hw_mgr_intf (ctxs w i) = Some intf" using assms(4) by auto
  note e = w' [unfolded cam_context_sync_callback_def upd_req_def Let_def]
  show ?count using assms(3) r q by (simp add: e set_req_def)
  show ?submit using assms(3) h r q off
    by (simp add: e cam_context_apply_req_to_hw_def set_req_def hw_do_def add_active_def add_free_def req_del_def Let_def
        split_beta)
  show ?failed
  proof (intro impI)
    assume n: "num_in_acked q + 1 = int (length (in_map_entries q))" and st: "st = CAM_SYNC_STATE_SIGNALED_ERROR"
      and fd: "find (\<lambda>k. request_id (req (ctxs w i) k) = request_id q) (pending_req_list (ctxs w i)) = Some f"
    let ?w1 = "upd_ctx i (set_req r (\<lambda>q. q\<lparr>num_in_acked := num_in_acked q + 1\<rparr>)) w"
    have same: "request_id (req (ctxs ?w1 i) k) = request_id (req (ctxs w i) k)" "flushed (req (ctxs ?w1 i) k) = flushed (req (ctxs w i) k)"
      for k by (simp_all add: set_req_def)
    have "find (\<lambda>k. request_id (req (ctxs ?w1 i) k) = request_id q) (pending_req_list (ctxs ?w1 i)) = Some f"
      unfolding same using fd by (simp add: set_req_def)
    note f = flush_req_pending [OF this, of env A, unfolded same]
    let ?w2 = "snd (cam_context_flush_req_to_hw env A i (request_id q) ?w1)"
    let ?fin = "upd_ctx i (\<lambda>c. add_free r (req_del r (set_req r (\<lambda>q. q\<lparr>flushed := False, rq_ctx := False\<rparr>) c))) ?w2"
    have w'2: "w' = cam_context_putref i (if flushed (req (ctxs ?w2 i) r) then ?fin else snd (cam_context_apply_req_to_hw env i r ?w2))"
      using assms(3) r(2) n st q by (simp add: e set_req_def)
    show "(f = r \<longrightarrow> (\<forall>k\<in>set (drop (length (hw_calls w)) (hw_calls w')). \<forall>m n c. k \<noteq> Hw_config m n c)
          \<and> r \<in> set (free_req_list (ctxs w' i)) \<and> r \<notin> set (pending_req_list (ctxs w' i) @ active_req_list (ctxs w' i)))
        \<and> (f \<noteq> r \<longrightarrow> \<not> flushed q \<longrightarrow>
          last (hw_calls w') = Hw_config (ctxt_to_hw_map (ctxs w i)) r (request_id q) \<and> length (hw_calls w) < length (hw_calls w'))"
    proof (intro conjI impI)
      assume own: "f = r"
      have w'3: "w' = cam_context_putref i ?fin" using w'2 f(1) own by simp
      have "r < CAM_CTX_REQ_MAX" using wf_bound [OF wf i, of r] r(1) by (simp add: on_list_def)
      from ctx_op.keeps [OF sync_callback_op [OF this] wf i] have "world_wf w'" by (simp add: w')
      moreover have "i < ctx_size w'" using i flush_req.sizes by (simp add: w'3)
      ultimately have d: "distinct (lists (ctxs w' i))" using wf_lists by (auto simp: lists_ok_def)
      show fr: "r \<in> set (free_req_list (ctxs w' i))" by (simp add: w'3 add_free_def)
      show "r \<notin> set (pending_req_list (ctxs w' i) @ active_req_list (ctxs w' i))" using fr d by (auto simp: lists_def)
      have "hw_calls w' = hw_calls ?w2" by (simp add: w'3)
      then show "\<forall>k\<in>set (drop (length (hw_calls w)) (hw_calls w')). \<forall>m n c. k \<noteq> Hw_config m n c" by (simp add: f(5))
    next
      assume other: "f \<noteq> r" "\<not> flushed q"
      have "hw_mgr_intf (ctxs ?w2 i) \<noteq> None" using h f(3) by (simp add: set_req_def)
      moreover have "ctxt_to_hw_map (ctxs ?w2 i) = ctxt_to_hw_map (ctxs w i)" using f(4) by (simp add: set_req_def)
      ultimately have "hw_calls (snd (cam_context_apply_req_to_hw env i r ?w2))
          = hw_calls ?w2 @ [Hw_config (ctxt_to_hw_map (ctxs w i)) r (request_id q)]"
        using f(2) q by (auto simp: cam_context_apply_req_to_hw_def hw_do_def add_active_def req_del_def Let_def split_beta)
      then have c: "hw_calls w' = hw_calls ?w2 @ [Hw_config (ctxt_to_hw_map (ctxs w i)) r (request_id q)]"
        using w'2 f(1) other q by simp
      show "last (hw_calls w') = Hw_config (ctxt_to_hw_map (ctxs w i)) r (request_id q)" by (simp add: c)
      show "length (hw_calls w) < length (hw_calls w')" by (simp add: c f(5))
    qed
  qed
qed

theorem ctx_callback_submits_witness: "hw_calls w_run = hw_calls w_cfg @ [Hw_config 0x77 0 1]"
proof -
  have "world_wf w_cfg" "0 < ctx_size w_cfg" using node.reach_inv [OF cfg_reach] by (simp_all add: w_cfg_is w_acq_closed w_boot_closed)
  from ctx_callback_submits [OF this, of hw_demo 0 req_demo w_run at_demo CAM_SYNC_STATE_SIGNALED_SUCCESS]
  show ?thesis by (simp add: ctx_cfg_fields req_demo_fields w_run_def) (simp add: hw_demo_def)
qed

section \<open>Flush\<close>

text \<open>The part of a context that taking callbacks back and signalling fences does not touch.\<close>

definition ctx_core :: "cam_context \<Rightarrow> nat list \<times> nat list \<times> ptr \<times> cam_hw_mgr_intf option \<times> u32 \<times> (nat \<Rightarrow> ptr)" where
  "ctx_core c = (active_req_list c, pending_req_list c, ctxt_to_hw_map c, hw_mgr_intf c, last_flush_req c, \<lambda>r. req_priv (req c r))"

lemma ctx_core_upd [simp]:
  "ctx_core (set_req r (\<lambda>q. q\<lparr>num_in_acked := f q\<rparr>) c) = ctx_core c" "ctx_core (set_req r (\<lambda>q. q\<lparr>flushed := b\<rparr>) c) = ctx_core c"
  "ctx_core (set_req r (\<lambda>q. q\<lparr>rq_ctx := b\<rparr>) c) = ctx_core c" "ctx_core (add_free r c) = ctx_core c"
  "ctx_core (ctxs (cam_context_putref i w) k) = ctx_core (ctxs w k)"
  by (auto simp: ctx_core_def set_req_def add_free_def cam_context_putref_def cam_node_put_ctxt_to_free_list_def Let_def fun_eq_iff)

lemma req_fields [simp]:
  "free_req_list (set_req r f c) = free_req_list c" "free_req_list (add_free r c) = free_req_list c @ [r]"
  "req (set_req r f c) k = (if k = r then f (req c r) else req c k)"
  by (simp_all add: set_req_def add_free_def)

lemma dereg_loop_core:
  "ctx_core (ctxs (snd (dereg_loop A i r es fr w)) i) = ctx_core (ctxs w i)"
  "free_req_list (ctxs (snd (dereg_loop A i r es fr w)) i) = free_req_list (ctxs w i)"
  "flushed (req (ctxs (snd (dereg_loop A i r es fr w)) i) k) = flushed (req (ctxs w i) k)"
  by (induction es arbitrary: fr w) (simp_all add: Let_def split_beta upd_req_def)

lemma flush_pending_effect:
  "ctx_core (ctxs (flush_pending A i r w) i) = ctx_core (ctxs w i)" "hw_calls (flush_pending A i r w) = hw_calls w"
  "set (free_req_list (ctxs w i)) \<subseteq> set (free_req_list (ctxs (flush_pending A i r w) i))"
  "flushed (req (ctxs (flush_pending A i r w) i) k) \<longleftrightarrow> k = r \<or> flushed (req (ctxs w i) k)"
  by (auto simp: flush_pending_def Let_def split_beta dereg_loop_core dereg_loop_keeps upd_req_def free_request_def)

lemma fold_flush_pending:
  "ctx_core (ctxs (fold (flush_pending A i) rs w) i) = ctx_core (ctxs w i) \<and> hw_calls (fold (flush_pending A i) rs w) = hw_calls w
   \<and> set (free_req_list (ctxs w i)) \<subseteq> set (free_req_list (ctxs (fold (flush_pending A i) rs w) i))
   \<and> (\<forall>k. flushed (req (ctxs (fold (flush_pending A i) rs w) i) k) \<longleftrightarrow> k \<in> set rs \<or> flushed (req (ctxs w i) k))"
  by (induction rs arbitrary: w) (simp, use flush_pending_effect in \<open>fastforce\<close>)

lemma fold_flush_active:
  "ctx_core (ctxs (fold (flush_active i) rs w) i) = ctx_core (ctxs w i) \<and> hw_calls (fold (flush_active i) rs w) = hw_calls w
   \<and> free_req_list (ctxs (fold (flush_active i) rs w) i) = free_req_list (ctxs w i) @ rs
   \<and> (\<forall>k. flushed (req (ctxs (fold (flush_active i) rs w) i) k) = flushed (req (ctxs w i) k))"
  by (induction rs arbitrary: w)
    (simp_all add: flush_active_def free_request_def)

text \<open>C11: flushing a context returns 0 and leaves nothing pending and nothing active. The hardware is told once, if there was
  anything to flush, with the requests that were pending and those that were active, at most 20 together; every
  request that was active is free, every one that was pending is marked as flushed, and the id of the flush is kept for
  later configurations.\<close>

theorem ctx_flush_all_empties:
  assumes wf: "world_wf w" and i: "i < ctx_size w" and c: "c = ctxs w i" "hw_mgr_intf c = Some k" "has_hw_flush k"
    and res: "cam_context_flush_dev_to_hw env A i CAM_FLUSH_TYPE_ALL rid w = (rc, w')"
  shows "rc = 0 \<and> pending_req_list (ctxs w' i) = [] \<and> active_req_list (ctxs w' i) = [] \<and> last_flush_req (ctxs w' i) = of_int rid
     \<and> hw_calls w' = hw_calls w @ (if pending_req_list c = [] \<and> active_req_list c = [] then []
         else [Hw_flush CAM_FLUSH_TYPE_ALL (ctxt_to_hw_map c) (map (\<lambda>r. req_priv (req c r)) (pending_req_list c))
                 (map (\<lambda>r. req_priv (req c r)) (active_req_list c)) (of_int rid)])
     \<and> length (pending_req_list c) + length (active_req_list c) \<le> CAM_CTX_REQ_MAX
     \<and> set (active_req_list c) \<subseteq> set (free_req_list (ctxs w' i))
     \<and> (\<forall>r\<in>set (pending_req_list c). flushed (req (ctxs w' i) r))"
proof -
  have "length (lists c) = card (set (lists c))" "set (lists c) \<subseteq> {..<CAM_CTX_REQ_MAX}"
    using wf_lists [OF wf i] by (simp_all add: lists_ok_def distinct_card c)
  then have len: "length (pending_req_list c) + length (active_req_list c) \<le> CAM_CTX_REQ_MAX"
    using card_mono [of "{..<CAM_CTX_REQ_MAX}" "set (lists c)"] by (simp add: lists_def)
  define v where "v = upd_ctx i (\<lambda>c. c\<lparr>pending_req_list := []\<rparr>) (upd_ctx i (\<lambda>c. c\<lparr>last_flush_req := of_int rid\<rparr>) w)"
  define w1 where "w1 = fold (flush_pending A i) (pending_req_list c) v"
  note p = fold_flush_pending [of A i "pending_req_list c" v, folded w1_def]
  have core1: "active_req_list (ctxs w1 i) = active_req_list c" "pending_req_list (ctxs w1 i) = []"
    "ctxt_to_hw_map (ctxs w1 i) = ctxt_to_hw_map c" "hw_mgr_intf (ctxs w1 i) = Some k" "last_flush_req (ctxs w1 i) = of_int rid"
    "\<And>r. req_priv (req (ctxs w1 i) r) = req_priv (req c r)"
    using p c by (auto simp: ctx_core_def v_def fun_eq_iff)
  define w2 where "w2 = (if pending_req_list c \<noteq> [] \<or> active_req_list c \<noteq> []
     then snd (hw_do env (Hw_flush CAM_FLUSH_TYPE_ALL (ctxt_to_hw_map c) (map (\<lambda>r. req_priv (req c r)) (pending_req_list c))
       (map (\<lambda>r. req_priv (req c r)) (active_req_list c)) (of_int rid)) w1) else w1)"
  have w2: "ctxs w2 = ctxs w1" by (simp add: w2_def)
  let ?v = "upd_ctx i (\<lambda>c. c\<lparr>active_req_list := []\<rparr>) w2"
  have e: "rc = 0" "w' = fold (flush_active i) (active_req_list c) ?v"
    using res c core1 w1_def
    by (auto simp: cam_context_flush_dev_to_hw_def cam_context_flush_ctx_to_hw_def Let_def v_def [symmetric] w2_def)
  note a = fold_flush_active [of i "active_req_list c" ?v]
  have "ctx_core (ctxs w' i) = ctx_core ((ctxs w1 i)\<lparr>active_req_list := []\<rparr>)" using a by (simp add: e(2) w2)
  then have "pending_req_list (ctxs w' i) = []" "active_req_list (ctxs w' i) = []" "last_flush_req (ctxs w' i) = of_int rid"
    using core1 by (simp_all add: ctx_core_def)
  moreover have "hw_calls w' = hw_calls w2" "set (active_req_list c) \<subseteq> set (free_req_list (ctxs w' i))"
    "\<forall>r\<in>set (pending_req_list c). flushed (req (ctxs w' i) r)"
    using a p by (simp_all add: e(2) w2)
  moreover have "hw_calls w1 = hw_calls w" using p by (simp add: v_def)
  ultimately show ?thesis using len by (simp add: e(1) w2_def)
qed

theorem ctx_flush_all_empties_witness:
  "hw_calls (snd (cam_context_flush_dev_to_hw hw_demo at_demo 0 CAM_FLUSH_TYPE_ALL 9 w_cfg))
     = hw_calls w_cfg @ [Hw_flush CAM_FLUSH_TYPE_ALL 0x77 [0x99] [] 9]"
proof -
  have w: "world_wf w_cfg" "0 < ctx_size w_cfg" using node.reach_inv [OF cfg_reach] by (simp_all add: w_cfg_is w_acq_closed w_boot_closed)
  have "req_priv req_demo = 0x99" by (simp add: req_demo_def fill_req_def hw_demo_def)
  then show ?thesis
    using ctx_flush_all_empties [OF w refl, of intf_demo hw_demo at_demo 9
        "fst (cam_context_flush_dev_to_hw hw_demo at_demo 0 CAM_FLUSH_TYPE_ALL 9 w_cfg)"
        "snd (cam_context_flush_dev_to_hw hw_demo at_demo 0 CAM_FLUSH_TYPE_ALL 9 w_cfg)"]
    by (simp add: ctx_cfg_fields intf_demo_def)
qed

end
