(* ===== verification/Cam_Ctx_Faults.thy ===== *)
theory Cam_Ctx_Faults
  imports Cam_Ctx_Props
begin

text \<open>
  Error paths of the contexts: what a failed configuration does to the storage of requests, and what
  a shutdown leaves behind.
\<close>

section \<open>Failed configurations\<close>

lemma bad_offset_step:
  assumes "hw_mgr_intf (ctxs w i) \<noteq> None" "\<not> in_interrupt env" "cam_mem_get_cpu_buf (ucast ph) (bufs w) = (c, Some (a, len))"
    "len < sizeof_packet \<or> len - sizeof_packet \<le> off" "free_req_list (ctxs w i) = r # rs" "r \<notin> set rs"
  shows "fst (cam_context_prepare_dev_to_hw env A i ph off w) = - EINVAL"
    "free_req_list (ctxs (snd (cam_context_prepare_dev_to_hw env A i ph off w)) i) = rs"
    "\<not> on_list r (ctxs (snd (cam_context_prepare_dev_to_hw env A i ph off w)) i)"
    "hw_mgr_intf (ctxs (snd (cam_context_prepare_dev_to_hw env A i ph off w)) i) = hw_mgr_intf (ctxs w i)"
    "bufs (snd (cam_context_prepare_dev_to_hw env A i ph off w)) = bufs w"
  using assms by (auto simp: cam_context_prepare_dev_to_hw_def) (auto simp: set_req_def req_del_def)

text \<open>a configuration whose offset lies outside the packet buffer takes a request from the free list, fails with EINVAL and
  never puts it back. After as many such calls as there were free requests the context has none left: every
  further configuration fails with ENOMEM, whatever its packet.\<close>

theorem ctx_bad_offset_exhausts:
  assumes "world_wf w" "i < ctx_size w" "hw_mgr_intf (ctxs w i) \<noteq> None" "\<not> in_interrupt env"
    and "cam_mem_get_cpu_buf (ucast ph) (bufs w) = (c, Some (a, len))" "len < sizeof_packet \<or> len - sizeof_packet \<le> off"
    and "n = length (free_req_list (ctxs w i))" "f = (\<lambda>w. snd (cam_context_prepare_dev_to_hw env A i ph off w))"
  shows "(\<forall>m<n. fst (cam_context_prepare_dev_to_hw env A i ph off ((f ^^ m) w)) = - EINVAL)
     \<and> free_req_list (ctxs ((f ^^ n) w) i) = []
     \<and> fst (cam_context_prepare_dev_to_hw env A i ph' off' ((f ^^ n) w)) = - ENOMEM"
proof -
  have d: "distinct (free_req_list (ctxs w i))" using wf_lists [OF assms(1,2)] by (simp add: lists_ok_def lists_def)
  have run: "hw_mgr_intf (ctxs ((f ^^ m) w) i) \<noteq> None \<and> bufs ((f ^^ m) w) = bufs w
      \<and> free_req_list (ctxs ((f ^^ m) w) i) = drop m (free_req_list (ctxs w i))" if "m \<le> n" for m
    using that
  proof (induction m)
    case 0
    then show ?case using assms(3) by simp
  next
    case (Suc m)
    let ?l = "free_req_list (ctxs w i)"
    have dm: "drop m ?l = ?l ! m # drop (Suc m) ?l" using Suc.prems assms(7) by (simp add: Cons_nth_drop_Suc)
    then have "?l ! m \<notin> set (drop (Suc m) ?l)" using d by (metis distinct.simps(2) distinct_drop)
    then show ?case
      using Suc bad_offset_step [of "(f ^^ m) w" i env ph c a len off "?l ! m" "drop (Suc m) ?l" A] assms(4-6,8) dm by simp
  qed
  have "fst (cam_context_prepare_dev_to_hw env A i ph off ((f ^^ m) w)) = - EINVAL" if "m < n" for m
  proof -
    let ?l = "free_req_list (ctxs w i)"
    have dm: "drop m ?l = ?l ! m # drop (Suc m) ?l" using that assms(7) by (simp add: Cons_nth_drop_Suc)
    then have "?l ! m \<notin> set (drop (Suc m) ?l)" using d by (metis distinct.simps(2) distinct_drop)
    then show ?thesis
      using run [of m] that bad_offset_step(1) [of "(f ^^ m) w" i env ph c a len off "?l ! m" "drop (Suc m) ?l" A] assms(4-6) dm
      by simp
  qed
  moreover have "free_req_list (ctxs ((f ^^ n) w) i) = []" "hw_mgr_intf (ctxs ((f ^^ n) w) i) \<noteq> None"
    using run [of n] assms(7) by simp_all
  ultimately show ?thesis using assms(4) by (simp add: cam_context_prepare_dev_to_hw_def)
qed

theorem ctx_bad_offset_exhausts_witness:
  "fst (cam_context_prepare_dev_to_hw hw_demo at_demo 0 1 0
     (((\<lambda>w. snd (cam_context_prepare_dev_to_hw hw_demo at_demo 0 1 8192 w)) ^^ 20) (w_acq Drv_jpeg))) = - ENOMEM"
proof -
  have "world_wf (w_acq Drv_jpeg)" "0 < ctx_size (w_acq Drv_jpeg)"
    using node.reach_inv [OF acq_reach] by (simp_all add: w_acq_closed w_boot_closed)
  note wf = this
  have "hw_mgr_intf (ctxs (w_acq Drv_jpeg) 0) \<noteq> None" "\<not> in_interrupt hw_demo"
    "cam_mem_get_cpu_buf (ucast (1 :: u64)) (bufs (w_acq Drv_jpeg)) = (0, Some (0x8000, 8192))"
    "(8192 :: u64) < sizeof_packet \<or> (8192 :: u64) - sizeof_packet \<le> 8192" "20 = length (free_req_list (ctxs (w_acq Drv_jpeg) 0))"
    by (simp_all add: w_acq_closed w_boot_closed packet_demo hw_demo_def)
  from ctx_bad_offset_exhausts [OF wf this refl, of at_demo 1 0] show ?thesis by (elim conjE)
qed

text \<open>a configuration whose packet names an input fence that is not valid fails after the request was put on the pending list,
  and the error path adds it to the free list without taking it off: the request is on both lists at once, which the
  intrusive list nodes of the code cannot represent.\<close>

theorem ctx_invalid_fence_breaks_lists:
  assumes "world_wf w" "i < ctx_size w" "hw_mgr_intf (ctxs w i) \<noteq> None" "\<not> in_interrupt env"
    and "cam_mem_get_cpu_buf (ucast ph) (bufs w) = (c, Some (a, len))" "sizeof_packet \<le> len" "off < len - sizeof_packet"
    and "free_req_list (ctxs w i) = r # rs"
    and "ucast (last_flush_req (ctxs w i)) < pkt_request_id (kmemory w) (a + ucast (ucast off :: u32))"
    and "hw_rc env (length (hw_calls w)) = 0" "p = hw_prep env (length (hw_calls w))"
    and "fst (get_out_refs (pr_out p) 0 (fences w)) = 0" "\<exists>e\<in>set (pr_in p). cam_sync_check_valid (sync_id e) (fences w) \<noteq> 0"
  shows "case cam_context_prepare_dev_to_hw env A i ph off w of (rc, w') \<Rightarrow>
     rc \<noteq> 0 \<and> r \<in> set (pending_req_list (ctxs w' i)) \<and> r \<in> set (free_req_list (ctxs w' i)) \<and> list_bug (ctxs w' i)"
proof -
  obtain n f where g: "get_out_refs (pr_out p) 0 (fences w) = (0, n, f)" using assms(12) by (metis fst_conv prod.exhaust)
  have bad: "check_in_fences (pr_in p) f \<noteq> 0"
    using assms(13) get_out_refs_valid [of _ "pr_out p" 0 "fences w"] by (auto simp: check_in_fences_iff g)
  then have ne: "pr_in p \<noteq> []" by auto
  have no: "\<not> len < sizeof_packet" "\<not> len - sizeof_packet \<le> off" using assms(6,7) by auto
  have rid: "\<not> pkt_request_id (kmemory w) (a + ucast (ucast off :: u32)) \<le> ucast (last_flush_req (ctxs w i))"
    using assms(9) by auto
  show ?thesis
    using assms(3-5,8,10,11) no rid g bad ne
    by (auto simp: cam_context_prepare_dev_to_hw_def prepare_fences_def upd_req_def set_req_def fill_req_def hw_do_def put_ref_def
        free_request_def add_free_def add_pending_def on_list_def req_del_def Let_def)
qed

definition hw_invalid :: hw_env where
  "hw_invalid = hw_demo\<lparr>hw_prep := (\<lambda>_. \<lparr>pr_num_hw_update = 1, pr_out = [\<lparr>resource_handle = 5, sync_id = 2\<rparr>],
     pr_in = [\<lparr>resource_handle = 4, sync_id = 3\<rparr>], pr_priv = 0x99, pr_packet = 0x8000\<rparr>)\<rparr>"

theorem ctx_invalid_fence_breaks_lists_witness:
  "list_bug (ctxs (snd (cam_context_prepare_dev_to_hw hw_invalid at_demo 0 1 0 (w_acq Drv_jpeg))) 0)"
proof -
  have wf: "world_wf (w_acq Drv_jpeg)" "0 < ctx_size (w_acq Drv_jpeg)"
    using node.reach_inv [OF acq_reach] by (simp_all add: w_acq_closed w_boot_closed)
  have "\<not> sync_bitmap fences_demo 3" by code_simp
  then have "\<exists>e\<in>set (pr_in (hw_prep hw_invalid 1)). cam_sync_check_valid (sync_id e) (fences (w_acq Drv_jpeg)) \<noteq> 0"
    by (simp add: hw_invalid_def w_acq_closed w_boot_closed cam_sync_check_valid_def sync_obj_bad_def)
  moreover have "fst (get_out_refs (pr_out (hw_prep hw_invalid 1)) 0 (fences (w_acq Drv_jpeg))) = 0"
    using fences_demo_rows
    by (simp add: hw_invalid_def w_acq_closed w_boot_closed cam_sync_get_obj_ref_def sync_obj_bad_def Let_def)
  ultimately show ?thesis
    using ctx_invalid_fence_breaks_lists [OF wf, where env = hw_invalid and ph = 1 and a = "0x8000" and len = 8192 and off = 0
        and r = 0 and rs = "[1..<20]" and p = "hw_prep hw_invalid 1" and A = at_demo and c = 0]
    by (simp add: w_acq_closed w_boot_closed packet_demo hw_invalid_def hw_demo_def split: prod.splits)
qed

section \<open>Shutdown\<close>

lemma dereg_loop_handles: "handles (snd (dereg_loop A i r es fr w)) = handles w"
  by (induction es arbitrary: fr w) (simp_all add: Let_def split_beta upd_req_def)

lemma flush_handles:
  "handles (fold (flush_pending A i) rs w) = handles w" "handles (fold (flush_active i) rs w) = handles w"
  by (induction rs arbitrary: w)
    (simp_all add: flush_pending_def flush_active_def free_request_def signal_out_error_def dereg_loop_handles upd_req_def Let_def split_beta)

lemma stop_handles: "handles (snd (cam_context_stop_dev_to_hw env A i w)) = handles w"
  by (simp add: cam_context_stop_dev_to_hw_def cam_context_flush_ctx_to_hw_def flush_handles Let_def split_beta split: option.splits)

lemma stop_succeeds: "\<not> in_interrupt env \<Longrightarrow> hw_mgr_intf (ctxs w i) \<noteq> None \<Longrightarrow> fst (cam_context_stop_dev_to_hw env A i w) = 0"
  by (auto simp: cam_context_stop_dev_to_hw_def cam_context_flush_ctx_to_hw_def Let_def split_beta split: option.splits)

text \<open>The release of an acquired context succeeds, gives the hardware back and forgets the device handle without touching the table.\<close>

lemma release_outcome:
  assumes "state_machine (ctxs w i) = Some d" "ctx_state (ctxs w i) \<in> drv_states d" "ctx_state (ctxs w i) \<noteq> CAM_CTX_AVAILABLE"
    "hw_mgr_intf (ctxs w i) = Some k" "has_hw_release k" "\<not> in_interrupt env"
  shows "fst (cam_context_handle_release_dev env A i u w) = 0"
    "handles (snd (cam_context_handle_release_dev env A i u w)) = handles w"
    "cx_dev_hdl (ctxs (snd (cam_context_handle_release_dev env A i u w)) i) = - 1"
    "ctx_state (ctxs (snd (cam_context_handle_release_dev env A i u w)) i) = CAM_CTX_AVAILABLE"
proof -
  note stop = stop_succeeds [OF assms(6), of w i A]
  have "snd (snd (ctl (ctxs (snd (cam_context_stop_dev_to_hw env A i w)) i))) = hw_mgr_intf (ctxs w i)"
    by (simp only: ctl_ops2) (simp add: ctl_def)
  then have h: "hw_mgr_intf (ctxs (snd (cam_context_stop_dev_to_hw env A i w)) i) = Some k" using assms(4) by (simp add: ctl_def)
  have "fst (cam_context_handle_release_dev env A i u w) = 0
    \<and> handles (snd (cam_context_handle_release_dev env A i u w)) = handles w
    \<and> cx_dev_hdl (ctxs (snd (cam_context_handle_release_dev env A i u w)) i) = - 1
    \<and> ctx_state (ctxs (snd (cam_context_handle_release_dev env A i u w)) i) = CAM_CTX_AVAILABLE"
    using assms stop h
    by (cases d; cases "ctx_state (ctxs w i)")
      (simp_all add: cam_context_handle_release_dev_def dispatch_def ctx_ops_def table_defs driver_defs drv_states_def drv_edges_def
        cam_context_release_dev_to_hw_def set_state_def stop_handles Let_def split_beta)
  then show "fst (cam_context_handle_release_dev env A i u w) = 0"
    "handles (snd (cam_context_handle_release_dev env A i u w)) = handles w"
    "cx_dev_hdl (ctxs (snd (cam_context_handle_release_dev env A i u w)) i) = - 1"
    "ctx_state (ctxs (snd (cam_context_handle_release_dev env A i u w)) i) = CAM_CTX_AVAILABLE" by auto
qed

text \<open>the shutdown of an acquired context gives the hardware back, makes the context available and drops its reference, but leaks
  its device handle: the release sets the handle of the context to -1 before the shutdown looks at it, so the handle is
  never destroyed and still leads to the context.\<close>

theorem ctx_shutdown_leaks_handle:
  assumes "state_machine (ctxs w i) = Some d" "ctx_state (ctxs w i) \<in> drv_states d" "ctx_state (ctxs w i) \<noteq> CAM_CTX_AVAILABLE"
    "hw_mgr_intf (ctxs w i) = Some k" "has_hw_release k" "\<not> in_interrupt env"
    "cam_context_shutdown env A i w = (rc, w')"
  shows "rc = 0 \<and> ctx_state (ctxs w' i) = CAM_CTX_AVAILABLE \<and> cx_dev_hdl (ctxs w' i) = - 1 \<and> handles w' = handles w
     \<and> cam_get_device_priv (cx_dev_hdl (ctxs w i)) (handles w') = cam_get_device_priv (cx_dev_hdl (ctxs w i)) (handles w)"
proof -
  let ?v = "snd (cam_context_handle_release_dev env A i () w)"
  note r = release_outcome [OF assms(1-6), of A "()"]
  have "ctx_state (ctxs w i) \<noteq> CAM_CTX_UNINIT" using assms(2) by (cases d) (auto simp: drv_states_def drv_edges_def)
  moreover have "cx_dev_hdl (ctxs (cam_context_putref i ?v) i) = cx_dev_hdl (ctxs ?v i)"
    "ctx_state (ctxs (cam_context_putref i ?v) i) = ctx_state (ctxs ?v i)"
    by (simp_all add: cam_context_putref_def cam_node_put_ctxt_to_free_list_def Let_def)
  ultimately have "(rc, w') = (0, cam_context_putref i ?v)"
    using assms(3,7) r by (simp add: cam_context_shutdown_def Let_def split_beta)
  then show ?thesis using r
    by (simp add: cam_context_putref_def cam_node_put_ctxt_to_free_list_def Let_def)
qed

theorem ctx_shutdown_leaks_handle_witness:
  "cam_get_device_priv (fst hdl_demo) (handles (snd (cam_context_shutdown hw_demo at_demo 0 (w_acq Drv_jpeg)))) = 0x1000"
proof -
  have "cx_dev_hdl (ctxs (w_acq Drv_jpeg) 0) = fst hdl_demo" by (simp add: w_acq_closed ctx_demo_def)
  then show ?thesis
    using ctx_shutdown_leaks_handle [of "w_acq Drv_jpeg" 0 Drv_jpeg intf_demo hw_demo at_demo
        "fst (cam_context_shutdown hw_demo at_demo 0 (w_acq Drv_jpeg))" "snd (cam_context_shutdown hw_demo at_demo 0 (w_acq Drv_jpeg))"]
    by (simp add: w_acq_closed intf_demo_def drv_states_def drv_edges_def hw_demo_def hdl_demo_priv)
qed

end
