(* ===== verification/Cam_Node_Props.thy ===== *)
theory Cam_Node_Props
  imports Cam_Ctx_Faults
begin

text \<open>
  The acquisition of a context through the node, which hands it out under a handle that leads back
  to it, and the dump of a context, which stays in its buffer.
\<close>

section \<open>Acquisition\<close>

lemma create_found:
  assumes "hdl_ok t" "cam_create_device_hdl rnd hdat (Some t) = (h, tbl)" "0 < h"
  shows "cam_get_device_priv h tbl = cd_priv hdat"
proof (cases rule: create_device_cases [OF assms(1), of rnd hdat])
  case 1
  then show ?thesis using assms(2,3) by simp
next
  case (2 idx)
  let ?r = "new_device_row rnd hdat idx"
  have self: "hdl (installed idx ?r t) idx = ?r" and act: "hdl_state ?r = HDL_ACTIVE" "hdl_priv ?r = cd_priv hdat"
    by (simp_all add: installed_def new_device_row_def)
  then show ?thesis
    using lookup_active(1) [OF hdl_ok_installed(1) [OF assms(1) 2(1)], of rnd hdat idx h] 2(3) assms(2) by simp
qed

lemma acquire_to_hw_done:
  assumes "hdl_ok t" "handles w = Some t" "cam_context_acquire_dev_to_hw env A i cmd w = (0, cmd', v)"
  shows "0 < aq_dev_handle cmd'" "cam_get_device_priv (aq_dev_handle cmd') (handles v) = ctx_at A i"
    "cx_dev_hdl (ctxs v i) = aq_dev_handle cmd'" "refcount (ctxs v i) = refcount (ctxs w i)"
    "free_ctx_list v = free_ctx_list w" "ctx_size v = ctx_size w" "req_size (ctxs v i) = req_size (ctxs w i)"
proof -
  obtain h tbl where c: "cam_create_device_hdl (rand_byte env)
                \<lparr>cd_session_hdl = aq_session_handle cmd, cd_dev_id = cx_dev_id (ctxs w i), cd_ops = 0, cd_priv = ctx_at A i\<rparr>
                (handles w) = (h, tbl)" by (metis prod.exhaust)
  have r: "0 < h \<and> aq_dev_handle cmd' = h \<and> handles v = tbl \<and> cx_dev_hdl (ctxs v i) = h \<and> refcount (ctxs v i) = refcount (ctxs w i)
      \<and> free_ctx_list v = free_ctx_list w \<and> ctx_size v = ctx_size w \<and> req_size (ctxs v i) = req_size (ctxs w i)"
    using assms(3) c by (auto simp: cam_context_acquire_dev_to_hw_def Let_def split_beta hw_do_def split: if_splits)
  then show "0 < aq_dev_handle cmd'" "cx_dev_hdl (ctxs v i) = aq_dev_handle cmd'" "refcount (ctxs v i) = refcount (ctxs w i)"
    "free_ctx_list v = free_ctx_list w" "ctx_size v = ctx_size w" "req_size (ctxs v i) = req_size (ctxs w i)" by auto
  show "cam_get_device_priv (aq_dev_handle cmd') (handles v) = ctx_at A i"
    using create_found [OF assms(1) c [unfolded assms(2)]] r by simp
qed

text \<open>Every driver acquires the hardware from the available state only.\<close>

lemma handle_acquire_done:
  assumes "cam_context_handle_acquire_dev env A i cmd w = (0, cmd', w')" "state_machine (ctxs w i) = Some d"
  obtains v g where "cam_context_acquire_dev_to_hw env A i cmd w = (0, cmd', v)" "ctx_state (ctxs w i) = CAM_CTX_AVAILABLE"
    "w' = upd_ctx i init_lists (set_state i CAM_CTX_ACQUIRED (upd_ctx i g v))"
    "\<exists>m. g = (\<lambda>c. c\<lparr>ctxt_to_hw_map := m c\<rparr>)"
proof -
  obtain rc c1 v where a: "cam_context_acquire_dev_to_hw env A i cmd w = (rc, c1, v)" by (metis prod.exhaust)
  have same: "upd_ctx i (\<lambda>c. c) v = v" by (simp add: upd_ctx_def)
  show thesis
  proof (cases "d = Drv_lrme")
    case True
    then show thesis
      using assms a by (cases "ctx_state (ctxs w i)")
        (auto simp: cam_context_handle_acquire_dev_def ctx_ops_def table_defs driver_defs split: if_splits intro!: that)
  next
    case False
    then show thesis
      using assms a by (cases d; cases "ctx_state (ctxs w i)")
        (auto simp: cam_context_handle_acquire_dev_def ctx_ops_def table_defs driver_defs same split: if_splits intro!: that [of v "\<lambda>c. c\<lparr>ctxt_to_hw_map := ctxt_to_hw_map c\<rparr>"])
  qed
qed

text \<open>an acquisition that succeeds takes the first context off the free list of the node and gives the user a positive handle
  that leads back to this context; the context is acquired, holds one reference, and all 20 requests of its storage are
  free. The context had no other user, for its reference count was 0.\<close>

theorem node_acquire_roundtrip:
  assumes "world_wf w" "ctx_typed w" "handles w = Some t" "hdl_ok t"
    and "inj_on (ctx_at A) {..<ctx_size w}" "\<forall>i < ctx_size w. ctx_at A i \<noteq> 0"
    and "node_handle_acquire_dev env A cmd w = (0, cmd', w')"
  shows "\<exists>i. free_ctx_list w = i # free_ctx_list w' \<and> refcount (ctxs w i) = 0
     \<and> 0 < aq_dev_handle cmd' \<and> ctx_of_hdl A (aq_dev_handle cmd') w' = Ctx i \<and> cx_dev_hdl (ctxs w' i) = aq_dev_handle cmd'
     \<and> ctx_state (ctxs w' i) = CAM_CTX_ACQUIRED \<and> refcount (ctxs w' i) = 1
     \<and> free_req_list (ctxs w' i) = [0..<CAM_CTX_REQ_MAX] \<and> active_req_list (ctxs w' i) = [] \<and> pending_req_list (ctxs w' i) = []"
proof (cases "free_ctx_list w")
  case Nil
  then show ?thesis using assms(7) by (simp add: node_handle_acquire_dev_def cam_node_get_ctxt_from_free_list_def)
next
  case (Cons i ks)
  have i: "i < ctx_size w" "refcount (ctxs w i) = 0" using assms(1) Cons by (auto simp: world_wf_def pool_ok_def)
  then obtain d where d: "state_machine (ctxs w i) = Some d" using assms(2) by (auto simp: ctx_typed_def)
  have rs: "req_size (ctxs w i) = CAM_CTX_REQ_MAX" using wf_lists [OF assms(1) i(1)] by (simp add: lists_ok_def)
  define w2 where "w2 = upd_ctx i (\<lambda>c. c\<lparr>last_flush_req := 0\<rparr>) (upd_ctx i (\<lambda>c. c\<lparr>refcount := 1\<rparr>) (w\<lparr>free_ctx_list := ks\<rparr>))"
  have w2: "state_machine (ctxs w2 i) = Some d" "handles w2 = Some t" "refcount (ctxs w2 i) = 1" "free_ctx_list w2 = ks"
    "ctx_size w2 = ctx_size w" "req_size (ctxs w2 i) = CAM_CTX_REQ_MAX" using d assms(3) rs by (simp_all add: w2_def)
  have "cam_context_handle_acquire_dev env A i cmd w2 = (0, cmd', w')"
    using assms(7) Cons
    by (auto simp: node_handle_acquire_dev_def cam_node_get_ctxt_from_free_list_def w2_def Let_def split: prod.splits if_splits)
  then obtain v g where v: "cam_context_acquire_dev_to_hw env A i cmd w2 = (0, cmd', v)"
    and w': "w' = upd_ctx i init_lists (set_state i CAM_CTX_ACQUIRED (upd_ctx i g v))"
    and g: "\<exists>m. g = (\<lambda>c. c\<lparr>ctxt_to_hw_map := m c\<rparr>)"
    by (rule handle_acquire_done [OF _ w2(1)])
  note a = acquire_to_hw_done [OF assms(4) w2(2) v]
  have keep: "refcount (g c) = refcount c" "cx_dev_hdl (g c) = cx_dev_hdl c" "req_size (g c) = req_size c" for c
    using g by auto
  have f: "free_ctx_list w' = ks" "ctx_size w' = ctx_size w" "handles w' = handles v" "refcount (ctxs w' i) = 1"
    "cx_dev_hdl (ctxs w' i) = aq_dev_handle cmd'" "ctx_state (ctxs w' i) = CAM_CTX_ACQUIRED"
    "free_req_list (ctxs w' i) = [0..<CAM_CTX_REQ_MAX]" "active_req_list (ctxs w' i) = []" "pending_req_list (ctxs w' i) = []"
    using a w2 by (simp_all add: w' set_state_def init_lists_def keep)
  have "find (\<lambda>k. ctx_at A k = ctx_at A i) [0..<ctx_size w] = Some i"
    unfolding find_Some_iff using assms(5) i(1) by (intro exI [of _ i]) (auto dest: inj_onD)
  then have "ctx_of_hdl A (aq_dev_handle cmd') w' = Ctx i"
    using assms(6) i(1) a(2) f by (simp add: ctx_of_hdl_def)
  then show ?thesis using Cons i f a(1) by blast
qed

theorem node_acquire_roundtrip_witness:
  "ctx_of_hdl at_demo (aq_dev_handle (fst (snd (node_handle_acquire_dev hw_demo at_demo aq_demo (w_boot Drv_jpeg))))) (w_acq Drv_jpeg) = Ctx 0"
proof -
  have wf: "world_wf (w_boot Drv_jpeg)" "ctx_typed (w_boot Drv_jpeg)" using node_typed.reach_inv [OF boot_reach] by blast+
  have t: "handles (w_boot Drv_jpeg) = Some tbl_demo_row" by (simp add: w_boot_closed tbl_demo_Some)
  have at: "inj_on (ctx_at at_demo) {..<ctx_size (w_boot Drv_jpeg)}" "\<forall>i < ctx_size (w_boot Drv_jpeg). ctx_at at_demo i \<noteq> 0"
    by (auto simp: inj_on_def at_demo_def w_boot_closed less_2_cases_iff)
  have "fst (node_handle_acquire_dev hw_demo at_demo aq_demo (w_boot Drv_jpeg)) = 0" by code_simp
  then have "node_handle_acquire_dev hw_demo at_demo aq_demo (w_boot Drv_jpeg) =
      (0, fst (snd (node_handle_acquire_dev hw_demo at_demo aq_demo (w_boot Drv_jpeg))), w_acq Drv_jpeg)"
    by (simp add: w_acq_def prod_eq_iff)
  from node_acquire_roundtrip [OF wf t tbl_demo_ok at this] show ?thesis by (auto simp: w_boot_closed)
qed

section \<open>The dump of a context\<close>

text \<open>Stores change nothing outside the bytes they write.\<close>

lemma st32_outside: "(\<And>k. k < 4 \<Longrightarrow> b \<noteq> a + of_nat k) \<Longrightarrow> st32 m a v b = m b"
  by (rule st32_other) (auto simp: in_range_iff)

lemma st64_outside: "(\<And>k. k < 8 \<Longrightarrow> b \<noteq> a + of_nat k) \<Longrightarrow> st64 m a v b = m b"
proof -
  assume h: "\<And>k. k < 8 \<Longrightarrow> b \<noteq> a + of_nat k"
  have "b \<noteq> a + 4 + of_nat k" if "k < 4" for k using h [of "4 + k"] that by (simp add: add.assoc)
  then show ?thesis using h by (simp add: st64_def st32_outside)
qed

lemma st_words_outside: "(\<And>k. k < 8 * length vs \<Longrightarrow> b \<noteq> a + of_nat k) \<Longrightarrow> st_words m a vs b = m b"
proof (induction vs arbitrary: m a)
  case (Cons v vs)
  have "b \<noteq> a + 8 + of_nat k" if "k < 8 * length vs" for k using Cons.prems [of "8 + k"] that by (simp add: add.assoc)
  then show ?case using Cons.IH Cons.prems by (simp add: st64_outside)
qed simp

lemma st_bytes_outside: "(\<And>k. k < length bs \<Longrightarrow> b \<noteq> a + of_nat k) \<Longrightarrow> st_bytes m a bs b = m b"
proof (induction bs arbitrary: m a)
  case (Cons x bs)
  have "b \<noteq> a + 1 + of_nat k" if "k < length bs" for k using Cons.prems [of "Suc k"] that by (simp add: add.assoc)
  moreover have "b \<noteq> a" using Cons.prems [of 0] by simp
  ultimately show ?case using Cons.IH by simp
qed simp

lemma dump_words_length:
  "length (dump_words i r w) = 6 + 2 * length (out_map_entries (req (ctxs w i) r)) + length (in_map_entries (req (ctxs w i) r))"
proof -
  have "length (concat (map (\<lambda>e. [f e, g e]) es)) = 2 * length es" for f g :: "cam_hw_fence_map_entry \<Rightarrow> u64" and es
    by (induction es) simp_all
  then show ?thesis by (simp add: dump_words_def Let_def)
qed

lemma dump_need:
  assumes "unat (words :: u32) < 2 ^ 21"
  shows "unat (ucast (ucast (sizeof_dump_header + ucast words * 8) :: u32) :: u64) = 48 + 8 * unat words"
proof -
  have e: "sizeof_dump_header + ucast words * 8 = (of_nat (48 + 8 * unat words) :: u64)" by simp
  have "unat (of_nat (48 + 8 * unat words) :: u64) = 48 + 8 * unat words" using assms by (simp add: unat_of_nat del: of_nat_add)
  then show ?thesis unfolding e using assms by (simp add: unsigned_ucast_eq unsigned_take_bit_eq take_bit_nat_eq_self del: of_nat_add)
qed

text \<open>C40: the dump of a context writes nowhere but into the part of its buffer it reports. It fails without a change, or moves the
  offset forward by the size of the header and the words it wrote, the new offset does not go past the end of the
  buffer, and memory changes only between the old and the new offset.\<close>

theorem ctx_dump_confined:
  assumes "cam_context_dump_context i bh off w = (rc, off', w')"
    and "q = req (ctxs w i) (hd (active_req_list (ctxs w i)))" "length (in_map_entries q) + 2 * length (out_map_entries q) < 2 ^ 20"
  shows "ctxs w' = ctxs w \<and> fences w' = fences w \<and> (rc \<noteq> 0 \<longrightarrow> w' = w \<and> off' = off) \<and> (rc = 0 \<longrightarrow>
     (\<exists>c base len. cam_mem_get_cpu_buf bh (bufs w) = (c, Some (base, len)) \<and> off < off' \<and> off' \<le> len
        \<and> (\<forall>a. kmemory w' a \<noteq> kmemory w a \<longrightarrow> in_range (base + off) (off' - off) a)))"
proof (cases "rc = 0")
  case False
  then show ?thesis using assms(1)
    by (auto simp: cam_context_dump_context_def Let_def split: list.splits prod.splits option.splits if_splits)
next
  case True
  obtain r rs where act: "active_req_list (ctxs w i) = r # rs"
    using True assms(1) by (auto simp: cam_context_dump_context_def split: list.splits)
  obtain c m where cpu: "cam_mem_get_cpu_buf bh (bufs w) = (c, m)" by (metis prod.exhaust)
  have "c \<noteq> 0" if "m = None" using cpu that by (auto simp: cam_mem_get_cpu_buf_def Let_def split: if_splits)
  then have "m \<noteq> None" using True assms(1) by (cases m) (auto simp: cam_context_dump_context_def act cpu)
  then obtain base len where m: "m = Some (base, len)" by auto
  have q_def: "q = req (ctxs w i) r" using assms(2) act by simp
  define n where "n = length (dump_words i r w)"
  define words where "words = (10 + of_nat (length (in_map_entries q)) + of_nat (length (out_map_entries q)) * 2 :: u32)"
  have small: "length (in_map_entries q) + 2 * length (out_map_entries q) < 2 ^ 20" by (rule assms(3))
  have n: "n = 6 + 2 * length (out_map_entries q) + length (in_map_entries q)" by (simp add: n_def q_def dump_words_length)
  have "words = of_nat (n + 4)" by (simp add: words_def n)
  moreover have "unat (of_nat (n + 4) :: u32) = n + 4" using small by (simp add: unat_of_nat n del: of_nat_add)
  ultimately have words: "unat words = n + 4" by simp
  define need where "need = (ucast (ucast (sizeof_dump_header + ucast words * 8) :: u32) :: u64)"
  have need: "unat need = 48 + 8 * (n + 4)" using dump_need [of words] small by (simp add: need_def words n)
  define size where "size = (8 * of_nat n + sizeof_dump_header :: u64)"
  have size: "unat size = 48 + 8 * n"
  proof -
    have "size = of_nat (48 + 8 * n)" by (simp add: size_def)
    then show ?thesis using small by (simp add: unat_of_nat n del: of_nat_add)
  qed
  have room: "off < len" "need \<le> len - off" and res: "off' = off + size"
    "w' = w\<lparr>kmemory := st64 (st_words (st32 (st_bytes (kmemory w) (base + off) (dump_tag (dev_name (ctxs w i)))) (base + off + 40) 8)
        (base + off + sizeof_dump_header) (dump_words i r w)) (base + off + 32) (8 * of_nat n)\<rparr>"
    using True assms(1) unfolding cam_context_dump_context_def act cpu m
    by (auto simp: Let_def q_def n_def words_def need_def size_def not_le not_less split: if_splits)
  have "unat off + unat size \<le> unat len"
    using room need size by (simp add: word_le_nat_alt word_less_nat_alt unat_sub_if')
  moreover from this have "unat (off + size) = unat off + unat size" using unsigned_less [of len, where ?'a = nat] by (simp add: unat_word_ariths)
  ultimately have "off < off'" "off' \<le> len" using size by (simp_all add: res(1) word_le_nat_alt word_less_nat_alt)
  moreover have "in_range (base + off) (off' - off) a" if "kmemory w' a \<noteq> kmemory w a" for a
  proof (rule ccontr)
    assume "\<not> in_range (base + off) (off' - off) a"
    then have out: "a \<noteq> base + off + of_nat k" if "k < 48 + 8 * n" for k using that size by (auto simp: res(1) in_range_iff)
    have "a \<noteq> base + off + 40 + of_nat k" if "k < 4" for k using out [of "40 + k"] that by (simp add: add.assoc)
    then have hdr: "st32 mm (base + off + 40) 8 a = mm a" for mm by (rule st32_outside)
    have "a \<noteq> base + off + sizeof_dump_header + of_nat k" if "k < 8 * length (dump_words i r w)" for k
      using out [of "48 + k"] that by (simp add: add.assoc n_def)
    then have body: "st_words mm (base + off + sizeof_dump_header) (dump_words i r w) a = mm a" for mm by (rule st_words_outside)
    have "a \<noteq> base + off + 32 + of_nat k" if "k < 8" for k using out [of "32 + k"] that by (simp add: add.assoc)
    then have sz: "st64 mm (base + off + 32) v a = mm a" for mm v by (rule st64_outside)
    have "a \<noteq> base + off + of_nat k" if "k < length (dump_tag (dev_name (ctxs w i)))" for k
      using out [of k] that by (simp add: dump_tag_def)
    then have "st_bytes mm (base + off) (dump_tag (dev_name (ctxs w i))) a = mm a" for mm by (rule st_bytes_outside)
    then have "kmemory w' a = kmemory w a" by (simp add: res(2) hdr body sz)
    then show False using that by simp
  qed
  ultimately show ?thesis using True by (auto simp: res(2) cpu m)
qed

text \<open>The configured context with its request active, as after the callback of its input fence.\<close>

lemma bufs_keep: "bufs (cam_context_putref i w) = bufs w" "bufs (snd (cam_context_apply_req_to_hw env i r w)) = bufs w"
  by (simp_all add: cam_context_putref_def cam_node_put_ctxt_to_free_list_def cam_context_apply_req_to_hw_def Let_def split_beta)

lemma w_run_bufs: "bufs w_run = bufs_demo"
proof -
  have "bufs w_cfg = bufs_demo" by (simp add: w_cfg_is w_acq_closed w_boot_closed)
  then show ?thesis
    by (simp add: w_run_def cam_context_sync_callback_def ctx_cfg_fields req_demo_fields upd_req_def bufs_keep Let_def)
qed

theorem ctx_dump_confined_witness:
  "\<exists>off'. fst (cam_context_dump_context 0 1 16 w_run) = 0 \<and> fst (snd (cam_context_dump_context 0 1 16 w_run)) = off'
     \<and> 16 < off' \<and> off' \<le> 8192"
proof -
  have q: "length (in_map_entries (req (ctxs w_run 0) 0)) = 1" "length (out_map_entries (req (ctxs w_run 0) 0)) = 1"
    "hd (active_req_list (ctxs w_run 0)) = 0" using w_run_closed by simp_all
  have 0: "fst (cam_context_dump_context 0 1 16 w_run) = 0"
    by (simp add: cam_context_dump_context_def w_run_closed(1) w_run_bufs packet_demo q Let_def)
  obtain off' w' where r: "cam_context_dump_context 0 1 16 w_run = (0, off', w')" using 0 by (metis fst_conv prod.exhaust)
  show ?thesis
    using ctx_dump_confined [OF r refl] by (simp add: q r w_run_bufs packet_demo)
qed

end
