(* ===== verification/Cam_Smmu.thy ===== *)
theory Cam_Smmu
  imports Cam_Mem
begin

text \<open>
  The context banks of the camera IOMMU, \<open>cam_smmu/cam_smmu_api.c\<close>: the state of a bank, the
  handles under which clients name a bank, its lists of mappings, page faults, and attaching.
  Calls of the IOMMU, dma-buf, the general purpose allocator and the page allocator are external:
  each is recorded in \<open>smmu_trace\<close> in the order it is made and returns what the environment says
  about its place in the trace. \<open>undef\<close> is set where the code follows a null pointer or reads an
  entry of a list at the wrong type. Mutexes, logs, time stamps and debugfs are not represented.
\<close>

section \<open>Data\<close>

abbreviation CAM_SMMU_CB_MAX :: nat where "CAM_SMMU_CB_MAX \<equiv> 6"
abbreviation CAM_SMMU_SHARED_HDL_MAX :: nat where "CAM_SMMU_SHARED_HDL_MAX \<equiv> 6"
abbreviation CAM_SMMU_MONITOR_MAX_ENTRIES :: int where "CAM_SMMU_MONITOR_MAX_ENTRIES \<equiv> 100"
abbreviation HANDLE_INIT :: int where "HANDLE_INIT \<equiv> - 1"
abbreviation SMMU_PAGE_SHIFT :: nat where "SMMU_PAGE_SHIFT \<equiv> 12"
abbreviation EBADHANDLE :: rc where "EBADHANDLE \<equiv> 521"

text \<open>The file descriptor \<open>0xDEADBEEF\<close> that marks a scratch buffer, as a C \<open>int\<close>.\<close>

definition SCRATCH_FD :: int where "SCRATCH_FD = sint (0xDEADBEEF :: 32 word)"

definition IOMMU_READ :: int where "IOMMU_READ = 1"
definition IOMMU_WRITE :: int where "IOMMU_WRITE = 2"
definition IOMMU_PRIV :: int where "IOMMU_PRIV = 32"
abbreviation IOMMU_INVALID_DIR :: int where "IOMMU_INVALID_DIR \<equiv> - 1"

datatype cam_smmu_ops_param = CAM_SMMU_ATTACH | CAM_SMMU_DETACH | CAM_SMMU_VOTE | CAM_SMMU_DEVOTE
  | CAM_SMMU_OPS_INVALID

datatype cam_smmu_map_dir = CAM_SMMU_MAP_READ | CAM_SMMU_MAP_WRITE | CAM_SMMU_MAP_RW | CAM_SMMU_MAP_INVALID

record cam_smmu_region_info =
  iova_start :: u64
  iova_len :: u64
  discard_iova_start :: u64
  discard_iova_len :: u64

record scratch_mapping =
  sc_bitmap :: "bitmap option"
  sc_bits :: u64
  sc_order :: nat
  sc_base :: u64

record secheap_buf_info =
  sh_buf :: ptr
  sh_attach :: ptr
  sh_table :: ptr

record cam_smmu_monitor =
  mon_is_map :: bool
  mon_ion_fd :: int
  mon_paddr :: u64
  mon_len :: u64
  mon_region_id :: cam_smmu_region_id

text \<open>The direction \<open>None\<close> is \<open>DMA_NONE\<close>.\<close>

record cam_dma_buff_info =
  mp_buf :: ptr
  mp_attach :: ptr
  mp_table :: ptr
  mp_dir :: "dma_dir option"
  mp_region_id :: cam_smmu_region_id
  mp_iommu_dir :: int
  mp_ref_count :: int
  mp_paddr :: u64
  mp_ion_fd :: int
  mp_len :: u64
  mp_phys_len :: u64

record cam_sec_buff_info =
  sb_buf :: ptr
  sb_dir :: "dma_dir option"
  sb_ref_count :: int
  sb_paddr :: u64
  sb_ion_fd :: int
  sb_len :: u64

text \<open>Entries of \<open>smmu_buf_list\<close>, which secure and other banks use with different types.\<close>

datatype smmu_buf = Dma_entry cam_dma_buff_info | Sec_entry cam_sec_buff_info

record cam_context_bank_info =
  cb_dev :: ptr
  cb_domain :: ptr
  cb_name :: "string list"
  is_secure :: bool
  scratch_buf_support :: bool
  firmware_support :: bool
  shared_support :: bool
  io_support :: bool
  secheap_support :: bool
  qdss_support :: bool
  qdss_phy_addr :: u64
  is_fw_allocated :: bool
  is_secheap_allocated :: bool
  is_qdss_allocated :: bool
  scratch_map :: scratch_mapping
  shared_mem_pool :: ptr
  scratch_info :: cam_smmu_region_info
  firmware_info :: cam_smmu_region_info
  shared_info :: cam_smmu_region_info
  io_info :: cam_smmu_region_info
  secheap_info :: cam_smmu_region_info
  qdss_info :: cam_smmu_region_info
  secheap_buf :: secheap_buf_info
  smmu_buf_list :: "smmu_buf list"
  smmu_buf_kernel_list :: "cam_dma_buff_info list"
  cb_handle :: int
  cb_state :: cam_smmu_ops_param
  cb_handler :: "ptr list"
  cb_token :: "ptr list"
  cb_count :: int
  secure_count :: int
  pf_count :: int
  io_mapping_size :: u64
  shared_mapping_size :: u64
  is_mul_client :: bool
  device_count :: int
  cb_discard_iova_start :: u64
  cb_discard_iova_len :: u64
  monitor_head :: int
  monitor_entries :: "int \<Rightarrow> cam_smmu_monitor"

text \<open>External calls, with their arguments.\<close>

datatype smmu_call =
    Buf_get int
  | Buf_put ptr
  | Buf_attach ptr ptr
  | Buf_detach ptr ptr
  | Map_attachment ptr "dma_dir option" bool bool
  | Unmap_attachment ptr ptr "dma_dir option"
  | Iommu_map ptr u64 u64 u64 int
  | Iommu_unmap ptr u64 u64
  | Iommu_map_sg ptr u64 ptr int
  | Iommu_attach_device ptr ptr
  | Iommu_detach_device ptr ptr
  | Iommu_get_domain ptr
  | Iommu_enable_best_fit ptr
  | Iommu_reserve_iova ptr u64 u64
  | Iommu_set_fault_handler ptr string
  | Gen_pool_create nat
  | Gen_pool_add ptr u64 u64
  | Gen_pool_alloc ptr u64
  | Gen_pool_free ptr u64 u64
  | Gen_pool_destroy ptr
  | Dma_alloc_coherent ptr u64
  | Dma_free_coherent ptr u64 ptr u64
  | Kzalloc u64
  | Sg_alloc_table ptr u64
  | Sg_free_table ptr
  | Alloc_pages nat
  | Free_pages ptr nat
  | Fault_cb ptr ptr ptr u64 int ptr u32

text \<open>
  The environment: results of calls, and what can be read from the objects of other drivers: the
  size of a dma-buf, the first entry of a scatter list with its addresses, length and page.
\<close>

record smmu_env =
  smmu_orc :: "nat \<Rightarrow> ext_res"
  buf_size :: "ptr \<Rightarrow> u64"
  table_sgl :: "ptr \<Rightarrow> ptr"
  sg_dma_address :: "ptr \<Rightarrow> u64"
  sg_phys :: "ptr \<Rightarrow> u64"
  sg_dma_len :: "ptr \<Rightarrow> u32"
  sg_page :: "ptr \<Rightarrow> ptr"

record cam_smmu_work_payload =
  pl_idx :: nat
  pl_domain :: ptr
  pl_dev :: ptr
  pl_iova :: u64
  pl_flags :: int

record firmware_alloc_info =
  fw_dev :: ptr
  fw_kva :: ptr
  fw_dma_hdl :: u64

record cam_iommu_cb_set =
  cb_info :: "nat \<Rightarrow> cam_context_bank_info"
  cb_num :: nat
  cb_init_count :: nat
  payload_list :: "cam_smmu_work_payload list"
  icp_fw :: firmware_alloc_info
  smmu_trace :: "smmu_call list"
  undef :: bool

definition upd_cb :: "nat \<Rightarrow> (cam_context_bank_info \<Rightarrow> cam_context_bank_info) \<Rightarrow> cam_iommu_cb_set \<Rightarrow> cam_iommu_cb_set" where
  "upd_cb i f s = s\<lparr>cb_info := (cb_info s)(i := f (cb_info s i))\<rparr>"

definition sx :: "smmu_env \<Rightarrow> smmu_call \<Rightarrow> cam_iommu_cb_set \<Rightarrow> ext_res \<times> cam_iommu_cb_set" where
  "sx env c s = (smmu_orc env (length (smmu_trace s)), s\<lparr>smmu_trace := smmu_trace s @ [c]\<rparr>)"

text \<open>A call whose result is not used.\<close>

definition sx' :: "smmu_env \<Rightarrow> smmu_call \<Rightarrow> cam_iommu_cb_set \<Rightarrow> cam_iommu_cb_set" where
  "sx' env c s = snd (sx env c s)"

definition ptr_err :: "ptr \<Rightarrow> rc" where
  "ptr_err p = sint p"

section \<open>Handles\<close>

text \<open>A handle packs the index of the bank and a random cookie of 16 bits.\<close>

definition GET_SMMU_HDL :: "nat \<Rightarrow> u16 \<Rightarrow> int" where
  "GET_SMMU_HDL x y = sint (push_bit 16 (of_nat x) OR (ucast y AND 0xFFFF) :: 32 word)"

definition GET_SMMU_TABLE_IDX :: "int \<Rightarrow> nat" where
  "GET_SMMU_TABLE_IDX x = unat (signed_drop_bit 16 (of_int x :: 32 word) AND 0xFFFF)"

definition cam_smmu_check_handle_unique :: "int \<Rightarrow> cam_iommu_cb_set \<Rightarrow> bool" where
  "cam_smmu_check_handle_unique hdl s \<longleftrightarrow>
     hdl = HANDLE_INIT \<or> (\<exists>i\<in>set [0..<cb_num s]. cb_handle (cb_info s i) \<noteq> HANDLE_INIT \<and> cb_handle (cb_info s i) = hdl)"

definition cam_smmu_create_iommu_handle :: "nat \<Rightarrow> u16 \<Rightarrow> int" where
  "cam_smmu_create_iommu_handle idx r = GET_SMMU_HDL idx r"

text \<open>
  The loop that draws cookies until the handle is new; \<open>rand k\<close> is the \<open>k\<close>-th random number of the
  call. The check returns true when the handle conflicts.
\<close>

partial_function (option) new_handle :: "cam_iommu_cb_set \<Rightarrow> nat \<Rightarrow> (nat \<Rightarrow> u16) \<Rightarrow> nat \<Rightarrow> int option" where
  "new_handle s i rand k =
     (let h = cam_smmu_create_iommu_handle i (rand k) in
      if cam_smmu_check_handle_unique h s then new_handle s i rand (Suc k) else Some h)"

text \<open>
  \<open>None\<close>: the loop does not end. The result is the code and what is stored for the caller. The
  search over all labels of all banks ends at the first label that matches, whatever comes of it.
\<close>

definition cam_smmu_create_add_handle_in_table ::
    "(nat \<Rightarrow> u16) \<Rightarrow> string \<Rightarrow> cam_iommu_cb_set \<Rightarrow> ((rc \<times> int option) \<times> cam_iommu_cb_set) option" where
  "cam_smmu_create_add_handle_in_table rand nm s =
     (case find (\<lambda>i. nm \<in> set (cb_name (cb_info s i))) [0..<cb_num s] of
        None \<Rightarrow> Some ((- EINVAL, None), s)
      | Some i \<Rightarrow>
          let b = cb_info s i in
          if cb_handle b \<noteq> HANDLE_INIT then
            (if is_secure b then Some ((0, Some (cb_handle b)), upd_cb i (\<lambda>b. b\<lparr>secure_count := secure_count b + 1\<rparr>) s)
             else if is_mul_client b then
               Some ((0, Some (cb_handle b)), upd_cb i (\<lambda>b. b\<lparr>device_count := device_count b + 1\<rparr>) s)
             else Some ((- EALREADY, None), s))
          else
            (case new_handle s i rand 0 of
               None \<Rightarrow> None
             | Some h \<Rightarrow>
                 Some ((0, Some h),
                   upd_cb i (\<lambda>b. b\<lparr>cb_handle := h, cb_count := 0,
                     secure_count := (if is_secure b then secure_count b + 1 else secure_count b),
                     device_count := (if is_mul_client b then device_count b + 1 else device_count b)\<rparr>) s)))"

definition cam_smmu_get_handle ::
    "(nat \<Rightarrow> u16) \<Rightarrow> string option \<Rightarrow> cam_iommu_cb_set \<Rightarrow> ((rc \<times> int option) \<times> cam_iommu_cb_set) option" where
  "cam_smmu_get_handle rand identifier s =
     (case identifier of
        None \<Rightarrow> Some ((- EINVAL, None), s)
      | Some nm \<Rightarrow> cam_smmu_create_add_handle_in_table rand nm s)"

text \<open>The bank a handle names, or \<open>None\<close> if the handle is initial or its index is out of range.\<close>

definition hdl_bank :: "int \<Rightarrow> cam_iommu_cb_set \<Rightarrow> nat option" where
  "hdl_bank h s =
     (if h = HANDLE_INIT then None
      else let idx = GET_SMMU_TABLE_IDX h in if cb_num s \<le> idx then None else Some idx)"

section \<open>Lists of mappings\<close>

text \<open>
  The position of the first entry with a property; \<open>None\<close> when the search for an entry of one type
  meets an entry of the other.
\<close>

fun find_dma :: "(cam_dma_buff_info \<Rightarrow> bool) \<Rightarrow> smmu_buf list \<Rightarrow> nat option option" where
  "find_dma P [] = Some None"
| "find_dma P (Dma_entry m # bs) = (if P m then Some (Some 0) else map_option (map_option Suc) (find_dma P bs))"
| "find_dma P (Sec_entry m # bs) = None"

fun find_sec :: "(cam_sec_buff_info \<Rightarrow> bool) \<Rightarrow> smmu_buf list \<Rightarrow> nat option option" where
  "find_sec P [] = Some None"
| "find_sec P (Sec_entry m # bs) = (if P m then Some (Some 0) else map_option (map_option Suc) (find_sec P bs))"
| "find_sec P (Dma_entry m # bs) = None"

fun find_pos :: "('a \<Rightarrow> bool) \<Rightarrow> 'a list \<Rightarrow> nat option" where
  "find_pos P [] = None"
| "find_pos P (x # xs) = (if P x then Some 0 else map_option Suc (find_pos P xs))"

definition del_at :: "nat \<Rightarrow> 'a list \<Rightarrow> 'a list" where
  "del_at n xs = take n xs @ drop (Suc n) xs"

fun dma_of :: "smmu_buf \<Rightarrow> cam_dma_buff_info option" where
  "dma_of (Dma_entry m) = Some m"
| "dma_of (Sec_entry m) = None"

fun sec_of :: "smmu_buf \<Rightarrow> cam_sec_buff_info option" where
  "sec_of (Sec_entry m) = Some m"
| "sec_of (Dma_entry m) = None"

definition cam_smmu_find_mapping_by_virt_address :: "nat \<Rightarrow> u64 \<Rightarrow> cam_iommu_cb_set \<Rightarrow> nat option option" where
  "cam_smmu_find_mapping_by_virt_address idx va s = find_dma (\<lambda>m. mp_paddr m = va) (smmu_buf_list (cb_info s idx))"

definition cam_smmu_find_mapping_by_ion_index :: "nat \<Rightarrow> int \<Rightarrow> cam_iommu_cb_set \<Rightarrow> nat option option" where
  "cam_smmu_find_mapping_by_ion_index idx fd s =
     (if fd < 0 then Some None else find_dma (\<lambda>m. mp_ion_fd m = fd) (smmu_buf_list (cb_info s idx)))"

definition cam_smmu_find_mapping_by_dma_buf :: "nat \<Rightarrow> ptr \<Rightarrow> cam_iommu_cb_set \<Rightarrow> nat option" where
  "cam_smmu_find_mapping_by_dma_buf idx buf s =
     (if buf = 0 then None else find_pos (\<lambda>m. mp_buf m = buf) (smmu_buf_kernel_list (cb_info s idx)))"

definition cam_smmu_find_mapping_by_sec_buf_idx :: "nat \<Rightarrow> int \<Rightarrow> cam_iommu_cb_set \<Rightarrow> nat option option" where
  "cam_smmu_find_mapping_by_sec_buf_idx idx fd s = find_sec (\<lambda>m. sb_ion_fd m = fd) (smmu_buf_list (cb_info s idx))"

section \<open>The monitor of maps and unmaps\<close>

definition cam_smmu_update_monitor_array ::
    "bool \<Rightarrow> cam_dma_buff_info \<Rightarrow> cam_context_bank_info \<Rightarrow> cam_context_bank_info" where
  "cam_smmu_update_monitor_array is_map m b =
     (let h = monitor_head b + 1; it = h mod CAM_SMMU_MONITOR_MAX_ENTRIES in
      b\<lparr>monitor_head := h,
        monitor_entries := (monitor_entries b)(it := \<lparr>mon_is_map = is_map, mon_ion_fd = mp_ion_fd m,
          mon_paddr = mp_paddr m, mon_len = mp_len m, mon_region_id = mp_region_id m\<rparr>)\<rparr>)"

text \<open>The indices of the entries that a dump prints, in its order.\<close>

definition cam_smmu_dump_monitor_array :: "cam_context_bank_info \<Rightarrow> int list" where
  "cam_smmu_dump_monitor_array b =
     (let head = monitor_head b in
      if head = - 1 then []
      else let (n, oldest) = (if head < CAM_SMMU_MONITOR_MAX_ENTRIES then (head, 0)
                              else (CAM_SMMU_MONITOR_MAX_ENTRIES, (head + 1) mod CAM_SMMU_MONITOR_MAX_ENTRIES))
        in map (\<lambda>k. (oldest + k) mod CAM_SMMU_MONITOR_MAX_ENTRIES) [0..n - 1])"

section \<open>Page faults\<close>

text \<open>
  The search for the mapping that contains an address or is closest to it. The distances are
  signed, and \<open>0\<close> stands for no distance yet.
\<close>

fun closest_loop :: "u64 \<Rightarrow> smmu_buf list \<Rightarrow> int \<Rightarrow> cam_dma_buff_info option \<Rightarrow> cam_dma_buff_info option option" where
  "closest_loop cur [] lowest best = Some best"
| "closest_loop cur (Dma_entry m # bs) lowest best =
     (let st = mp_paddr m; en = mp_paddr m + mp_len m in
      if st \<le> cur \<and> cur \<le> en then Some (Some m)
      else let delta = (if cur < st then sint (st - cur) else sint (cur - en - 1)) in
        if delta < lowest \<or> lowest = 0 then closest_loop cur bs delta (Some m)
        else closest_loop cur bs lowest best)"
| "closest_loop cur (Sec_entry m # bs) lowest best = None"

definition cam_smmu_find_closest_mapping :: "nat \<Rightarrow> u64 \<Rightarrow> cam_iommu_cb_set \<Rightarrow> u32 option" where
  "cam_smmu_find_closest_mapping idx va s =
     map_option (\<lambda>r. case r of None \<Rightarrow> 0 | Some m \<Rightarrow> GET_MEM_HANDLE idx (mp_ion_fd m))
       (closest_loop va (smmu_buf_list (cb_info s idx)) 0 None)"

definition cam_smmu_set_client_page_fault_handler :: "int \<Rightarrow> ptr \<Rightarrow> ptr \<Rightarrow> cam_iommu_cb_set \<Rightarrow> cam_iommu_cb_set" where
  "cam_smmu_set_client_page_fault_handler h handler_cb token s =
     (if token = 0 then s
      else case hdl_bank h s of
        None \<Rightarrow> s
      | Some idx \<Rightarrow>
          let b = cb_info s idx in
          if cb_handle b \<noteq> h then s
          else if handler_cb \<noteq> 0 then
            (if cb_count b = int CAM_SMMU_CB_MAX then s
             else let n = cb_count b + 1 in
               case find_pos (\<lambda>t. t = 0) (take (nat n) (cb_token b)) of
                 None \<Rightarrow> upd_cb idx (\<lambda>b. b\<lparr>cb_count := n\<rparr>) s
               | Some i \<Rightarrow> upd_cb idx (\<lambda>b. b\<lparr>cb_count := n, cb_token := (cb_token b)[i := token],
                   cb_handler := (cb_handler b)[i := handler_cb]\<rparr>) s)
          else
            (case find_pos (\<lambda>t. t = token) (cb_token b) of
               None \<Rightarrow> s
             | Some i \<Rightarrow> upd_cb idx (\<lambda>b. b\<lparr>cb_token := (cb_token b)[i := 0], cb_handler := (cb_handler b)[i := 0],
                 cb_count := cb_count b - 1\<rparr>) s))"

definition cam_smmu_unset_client_page_fault_handler :: "int \<Rightarrow> ptr \<Rightarrow> cam_iommu_cb_set \<Rightarrow> cam_iommu_cb_set" where
  "cam_smmu_unset_client_page_fault_handler h token s =
     (if token = 0 then s
      else case hdl_bank h s of
        None \<Rightarrow> s
      | Some idx \<Rightarrow>
          let b = cb_info s idx in
          if cb_handle b \<noteq> h then s
          else (case find_pos (\<lambda>t. t = token) (cb_token b) of
                  None \<Rightarrow> s
                | Some i \<Rightarrow> upd_cb idx (\<lambda>b. b\<lparr>cb_token := (cb_token b)[i := 0], cb_handler := (cb_handler b)[i := 0],
                    cb_count := cb_count b - 1\<rparr>) s))"

text \<open>The first payload is taken off the list and given to every registered handler.\<close>

definition cam_smmu_page_fault_work :: "smmu_env \<Rightarrow> cam_iommu_cb_set \<Rightarrow> cam_iommu_cb_set" where
  "cam_smmu_page_fault_work env s =
     (case payload_list s of
        [] \<Rightarrow> s
      | p # ps \<Rightarrow>
          let s1 = s\<lparr>payload_list := ps\<rparr>; b = cb_info s (pl_idx p) in
          (case cam_smmu_find_closest_mapping (pl_idx p) (pl_iova p) s1 of
             None \<Rightarrow> s1\<lparr>undef := True\<rparr>
           | Some buf_info \<Rightarrow>
               fold (\<lambda>j s. if cb_handler b ! j \<noteq> 0
                           then sx' env (Fault_cb (cb_handler b ! j) (pl_domain p) (pl_dev p) (pl_iova p) (pl_flags p)
                                  (cb_token b ! j) buf_info) s
                           else s) [0..<CAM_SMMU_CB_MAX] s1))"

text \<open>
  \<open>kz\<close> says whether the allocation of the payload succeeds; the token is the first label of the bank.
  \<open>limit\<close> is the module parameter \<open>g_num_pf_handled\<close>.
\<close>

definition cam_smmu_iommu_fault_handler ::
    "smmu_env \<Rightarrow> bool \<Rightarrow> int \<Rightarrow> ptr \<Rightarrow> ptr \<Rightarrow> u64 \<Rightarrow> int \<Rightarrow> string option \<Rightarrow> cam_iommu_cb_set \<Rightarrow> rc \<times> cam_iommu_cb_set" where
  "cam_smmu_iommu_fault_handler env kz limit domain dev iova flags token s =
     (case token of
        None \<Rightarrow> (- EINVAL, s)
      | Some nm \<Rightarrow>
          if \<exists>i\<in>set (takeWhile (\<lambda>i. take 1 (cb_name (cb_info s i)) \<noteq> [nm]) [0..<cb_num s]). cb_name (cb_info s i) = []
          then (- EINVAL, s\<lparr>undef := True\<rparr>)
          else (case find (\<lambda>i. take 1 (cb_name (cb_info s i)) = [nm]) [0..<cb_num s] of
             None \<Rightarrow> (- EINVAL, s)
           | Some idx \<Rightarrow>
               let s1 = upd_cb idx (\<lambda>b. b\<lparr>pf_count := pf_count b + 1\<rparr>) s in
               if limit < pf_count (cb_info s1 idx) then (- EINVAL, s1)
               else if \<not> kz then (- EINVAL, s1)
               else (- EINVAL, cam_smmu_page_fault_work env
                 (s1\<lparr>payload_list := payload_list s1 @ [\<lparr>pl_idx = idx, pl_domain = domain, pl_dev = dev,
                    pl_iova = iova, pl_flags = flags\<rparr>]\<rparr>))))"

section \<open>Directions\<close>

fun cam_smmu_translate_dir_to_iommu_dir :: "cam_smmu_map_dir \<Rightarrow> int" where
  "cam_smmu_translate_dir_to_iommu_dir CAM_SMMU_MAP_READ = IOMMU_READ"
| "cam_smmu_translate_dir_to_iommu_dir CAM_SMMU_MAP_WRITE = IOMMU_WRITE"
| "cam_smmu_translate_dir_to_iommu_dir CAM_SMMU_MAP_RW = IOMMU_READ OR IOMMU_WRITE"
| "cam_smmu_translate_dir_to_iommu_dir CAM_SMMU_MAP_INVALID = IOMMU_INVALID_DIR"

fun cam_smmu_translate_dir :: "cam_smmu_map_dir \<Rightarrow> dma_dir option" where
  "cam_smmu_translate_dir CAM_SMMU_MAP_READ = Some DMA_FROM_DEVICE"
| "cam_smmu_translate_dir CAM_SMMU_MAP_WRITE = Some DMA_TO_DEVICE"
| "cam_smmu_translate_dir CAM_SMMU_MAP_RW = Some DMA_BIDIRECTIONAL"
| "cam_smmu_translate_dir CAM_SMMU_MAP_INVALID = None"

text \<open>The cast \<open>(enum dma_data_direction) dir\<close>, which keeps the number.\<close>

fun cast_dir :: "cam_smmu_map_dir \<Rightarrow> dma_dir option" where
  "cast_dir CAM_SMMU_MAP_READ = Some DMA_BIDIRECTIONAL"
| "cast_dir CAM_SMMU_MAP_WRITE = Some DMA_TO_DEVICE"
| "cast_dir CAM_SMMU_MAP_RW = Some DMA_FROM_DEVICE"
| "cast_dir CAM_SMMU_MAP_INVALID = None"

section \<open>The table, attaching and detaching\<close>

definition cam_smmu_reset_iommu_table :: "cam_iommu_cb_set \<Rightarrow> cam_iommu_cb_set" where
  "cam_smmu_reset_iommu_table s =
     fold (\<lambda>i. upd_cb i (\<lambda>b. b\<lparr>cb_handle := HANDLE_INIT, smmu_buf_list := [], smmu_buf_kernel_list := [],
         cb_state := CAM_SMMU_DETACH, cb_dev := 0, cb_count := 0, pf_count := 0,
         cb_token := replicate CAM_SMMU_CB_MAX 0, cb_handler := replicate CAM_SMMU_CB_MAX 0\<rparr>)) [0..<cb_num s] s"

definition cam_smmu_attach_device :: "smmu_env \<Rightarrow> nat \<Rightarrow> cam_iommu_cb_set \<Rightarrow> rc \<times> cam_iommu_cb_set" where
  "cam_smmu_attach_device env idx s =
     (let b = cb_info s idx; (r, s1) = sx env (Iommu_attach_device (cb_domain b) (cb_dev b)) s in
      (if er_rc r < 0 then - ENODEV else er_rc r, s1))"

definition cam_smmu_attach :: "smmu_env \<Rightarrow> nat \<Rightarrow> cam_iommu_cb_set \<Rightarrow> rc \<times> cam_iommu_cb_set" where
  "cam_smmu_attach env idx s =
     (case cb_state (cb_info s idx) of
        CAM_SMMU_ATTACH \<Rightarrow> (- EALREADY, s)
      | CAM_SMMU_DETACH \<Rightarrow>
          (let (rc, s1) = cam_smmu_attach_device env idx s in
           if rc < 0 then (- ENODEV, s1) else (0, upd_cb idx (\<lambda>b. b\<lparr>cb_state := CAM_SMMU_ATTACH\<rparr>) s1))
      | _ \<Rightarrow> (- EINVAL, s))"

definition cam_smmu_detach_device :: "smmu_env \<Rightarrow> nat \<Rightarrow> cam_iommu_cb_set \<Rightarrow> rc \<times> cam_iommu_cb_set" where
  "cam_smmu_detach_device env idx s =
     (let b = cb_info s idx in
      case cb_state b of
        CAM_SMMU_DETACH \<Rightarrow> (- EALREADY, s)
      | CAM_SMMU_ATTACH \<Rightarrow> (0, upd_cb idx (\<lambda>b. b\<lparr>cb_state := CAM_SMMU_DETACH\<rparr>)
            (sx' env (Iommu_detach_device (cb_domain b) (cb_dev b)) s))
      | _ \<Rightarrow> (0, s))"

definition cam_smmu_ops :: "smmu_env \<Rightarrow> int \<Rightarrow> cam_smmu_ops_param \<Rightarrow> cam_iommu_cb_set \<Rightarrow> rc \<times> cam_iommu_cb_set" where
  "cam_smmu_ops env h ops s =
     (case hdl_bank h s of
        None \<Rightarrow> (- EINVAL, s)
      | Some idx \<Rightarrow>
          if cb_handle (cb_info s idx) \<noteq> h then (- EINVAL, s)
          else (case ops of
                  CAM_SMMU_ATTACH \<Rightarrow> cam_smmu_attach env idx s
                | CAM_SMMU_DETACH \<Rightarrow> cam_smmu_detach_device env idx s
                | _ \<Rightarrow> (- EINVAL, s)))"

end
