(* ===== verification/Cam_Smmu_Regions.thy ===== *)
theory Cam_Smmu_Regions
  imports Cam_Smmu
begin

text \<open>
  The regions of a context bank in \<open>cam_smmu/cam_smmu_api.c\<close>: addresses from the pool of the shared
  region, the firmware, QDSS and secondary heap regions, which are mapped once as a whole, and the
  pages of the scratch region, which a bitmap accounts for.
\<close>

section \<open>Addresses of the shared region\<close>

text \<open>The result is the code and the address stored for the caller.\<close>

definition cam_smmu_alloc_iova :: "smmu_env \<Rightarrow> u64 \<Rightarrow> int \<Rightarrow> cam_iommu_cb_set \<Rightarrow> (rc \<times> u32 option) \<times> cam_iommu_cb_set" where
  "cam_smmu_alloc_iova env sz h s =
     (if sz = 0 then ((- EINVAL, None), s)
      else case hdl_bank h s of
        None \<Rightarrow> ((- EINVAL, None), s)
      | Some idx \<Rightarrow>
          let b = cb_info s idx in
          if cb_handle b \<noteq> h then ((- EINVAL, None), s)
          else if \<not> shared_support b then ((- EINVAL, None), s)
          else let (r, s1) = sx env (Gen_pool_alloc (shared_mem_pool b) sz) s; vaddr = ucast (er_val r) :: u32 in
            if vaddr = 0 then ((- ENOMEM, None), s1) else ((0, Some vaddr), s1))"

definition cam_smmu_free_iova :: "smmu_env \<Rightarrow> u32 \<Rightarrow> u64 \<Rightarrow> int \<Rightarrow> cam_iommu_cb_set \<Rightarrow> rc \<times> cam_iommu_cb_set" where
  "cam_smmu_free_iova env addr sz h s =
     (if sz = 0 then (- EINVAL, s)
      else case hdl_bank h s of
        None \<Rightarrow> (- EINVAL, s)
      | Some idx \<Rightarrow>
          let b = cb_info s idx in
          if cb_handle b \<noteq> h then (- EINVAL, s)
          else (0, sx' env (Gen_pool_free (shared_mem_pool b) (ucast addr) sz) s))"

section \<open>Firmware and QDSS\<close>

text \<open>The result is the code and the address, the CPU address and the length stored for the caller.\<close>

definition cam_smmu_alloc_firmware ::
    "smmu_env \<Rightarrow> int \<Rightarrow> cam_iommu_cb_set \<Rightarrow> (rc \<times> (u64 \<times> ptr \<times> u64) option) \<times> cam_iommu_cb_set" where
  "cam_smmu_alloc_firmware env h s =
     (case hdl_bank h s of
        None \<Rightarrow> ((- EINVAL, None), s)
      | Some idx \<Rightarrow>
          let b = cb_info s idx in
          if \<not> firmware_support b then ((- EINVAL, None), s)
          else if is_fw_allocated b then ((- ENOMEM, None), s)
          else
            let len = iova_len (firmware_info b); start = iova_start (firmware_info b);
                (r, s1) = sx env (Dma_alloc_coherent (fw_dev (icp_fw s)) len) s;
                s2 = s1\<lparr>icp_fw := (icp_fw s1)\<lparr>fw_kva := er_val r, fw_dma_hdl := er_len r\<rparr>\<rparr>;
                fw = icp_fw s2
            in if fw_kva fw = 0 then ((- ENOMEM, None), s2)
               else let (r2, s3) = sx env (Iommu_map (cb_domain b) start (fw_dma_hdl fw) len
                                   (IOMMU_READ OR IOMMU_WRITE OR IOMMU_PRIV)) s2 in
                 if er_rc r2 \<noteq> 0
                 then ((- ENOMEM, None), sx' env (Dma_free_coherent (fw_dev fw) len (fw_kva fw) (fw_dma_hdl fw)) s3)
                 else ((0, Some (start, fw_kva fw, len)), upd_cb idx (\<lambda>b. b\<lparr>is_fw_allocated := True\<rparr>) s3))"

definition cam_smmu_dealloc_firmware :: "smmu_env \<Rightarrow> int \<Rightarrow> cam_iommu_cb_set \<Rightarrow> rc \<times> cam_iommu_cb_set" where
  "cam_smmu_dealloc_firmware env h s =
     (case hdl_bank h s of
        None \<Rightarrow> (- EINVAL, s)
      | Some idx \<Rightarrow>
          let b = cb_info s idx in
          if \<not> firmware_support b then (- EINVAL, s)
          else if \<not> is_fw_allocated b then (- ENOMEM, s)
          else
            let len = iova_len (firmware_info b); start = iova_start (firmware_info b); fw = icp_fw s;
                (r, s1) = sx env (Iommu_unmap (cb_domain b) start len) s;
                s2 = sx' env (Dma_free_coherent (fw_dev fw) len (fw_kva fw) (fw_dma_hdl fw)) s1;
                s3 = s2\<lparr>icp_fw := (icp_fw s2)\<lparr>fw_kva := 0, fw_dma_hdl := 0\<rparr>\<rparr>
            in (if er_len r \<noteq> len then - EINVAL else 0, upd_cb idx (\<lambda>b. b\<lparr>is_fw_allocated := False\<rparr>) s3))"

definition cam_smmu_alloc_qdss ::
    "smmu_env \<Rightarrow> int \<Rightarrow> cam_iommu_cb_set \<Rightarrow> (rc \<times> (u64 \<times> u64) option) \<times> cam_iommu_cb_set" where
  "cam_smmu_alloc_qdss env h s =
     (case hdl_bank h s of
        None \<Rightarrow> ((- EINVAL, None), s)
      | Some idx \<Rightarrow>
          let b = cb_info s idx in
          if \<not> qdss_support b then ((- EINVAL, None), s)
          else if is_qdss_allocated b then ((- ENOMEM, None), s)
          else
            let len = iova_len (qdss_info b); start = iova_start (qdss_info b);
                (r, s1) = sx env (Iommu_map (cb_domain b) start (qdss_phy_addr b) len (IOMMU_READ OR IOMMU_WRITE)) s
            in if er_rc r \<noteq> 0 then ((er_rc r, None), s1)
               else ((0, Some (start, len)), upd_cb idx (\<lambda>b. b\<lparr>is_qdss_allocated := True\<rparr>) s1))"

definition cam_smmu_dealloc_qdss :: "smmu_env \<Rightarrow> int \<Rightarrow> cam_iommu_cb_set \<Rightarrow> rc \<times> cam_iommu_cb_set" where
  "cam_smmu_dealloc_qdss env h s =
     (case hdl_bank h s of
        None \<Rightarrow> (- EINVAL, s)
      | Some idx \<Rightarrow>
          let b = cb_info s idx in
          if \<not> qdss_support b then (- EINVAL, s)
          else if \<not> is_qdss_allocated b then (- ENOMEM, s)
          else
            let len = iova_len (qdss_info b); start = iova_start (qdss_info b);
                (r, s1) = sx env (Iommu_unmap (cb_domain b) start len) s
            in (if er_len r \<noteq> len then - EINVAL else 0, upd_cb idx (\<lambda>b. b\<lparr>is_qdss_allocated := False\<rparr>) s1))"

section \<open>Queries\<close>

definition cam_smmu_get_io_region_info :: "int \<Rightarrow> cam_iommu_cb_set \<Rightarrow> rc \<times> cam_smmu_region_info option" where
  "cam_smmu_get_io_region_info h s =
     (case hdl_bank h s of
        None \<Rightarrow> (- EINVAL, None)
      | Some idx \<Rightarrow> let b = cb_info s idx in
          if \<not> io_support b then (- EINVAL, None) else (0, Some (io_info b)))"

text \<open>The start and the length of a region. The QDSS region falls under the default of the switch.\<close>

definition cam_smmu_get_region_info :: "int \<Rightarrow> cam_smmu_region_id \<Rightarrow> cam_iommu_cb_set \<Rightarrow> rc \<times> (u64 \<times> u64) option" where
  "cam_smmu_get_region_info h rg s =
     (case hdl_bank h s of
        None \<Rightarrow> (- EINVAL, None)
      | Some idx \<Rightarrow>
          let b = cb_info s idx;
              answer = (\<lambda>support info. if \<not> support then (- ENODEV, None) else (0, Some (iova_start info, iova_len info)))
          in (case rg of
                CAM_SMMU_REGION_FIRMWARE \<Rightarrow> answer (firmware_support b) (firmware_info b)
              | CAM_SMMU_REGION_SHARED \<Rightarrow> answer (shared_support b) (shared_info b)
              | CAM_SMMU_REGION_SCRATCH \<Rightarrow> answer (scratch_buf_support b) (scratch_info b)
              | CAM_SMMU_REGION_IO \<Rightarrow> answer (io_support b) (io_info b)
              | CAM_SMMU_REGION_SECHEAP \<Rightarrow> answer (secheap_support b) (secheap_info b)
              | CAM_SMMU_REGION_QDSS \<Rightarrow> (- EINVAL, None)))"

section \<open>The secondary heap\<close>

text \<open>The address of the heap passes through a 32-bit variable.\<close>

definition secheap_iova :: "cam_context_bank_info \<Rightarrow> u64" where
  "secheap_iova b = ucast (ucast (iova_start (secheap_info b)) :: u32)"

definition cam_smmu_reserve_sec_heap ::
    "smmu_env \<Rightarrow> int \<Rightarrow> ptr \<Rightarrow> cam_iommu_cb_set \<Rightarrow> (rc \<times> (u64 \<times> u64) option) \<times> cam_iommu_cb_set" where
  "cam_smmu_reserve_sec_heap env h buf s =
     (let idx = GET_SMMU_TABLE_IDX h; b = cb_info s idx in
      if cb_num s \<le> idx then ((- EINVAL, None), s)
      else if \<not> secheap_support b then ((- EINVAL, None), s)
      else if is_secheap_allocated b then ((- ENOMEM, None), s)
      else if is_err_or_null buf then ((ptr_err buf, None), s)
      else
        let set_heap = (\<lambda>f. upd_cb idx (\<lambda>b. b\<lparr>secheap_buf := f (secheap_buf b)\<rparr>));
            (r, s1) = sx env (Buf_attach buf (cb_dev b)) (set_heap (sh_buf_update (\<lambda>_. buf)) s);
            attach = er_val r; s2 = set_heap (sh_attach_update (\<lambda>_. attach)) s1
        in if is_err_or_null attach then ((ptr_err attach, None), sx' env (Buf_put buf) s2)
           else
             let (r2, s3) = sx env (Map_attachment attach (Some DMA_BIDIRECTIONAL) False False) s2;
                 table = er_val r2; s4 = set_heap (sh_table_update (\<lambda>_. table)) s3
             in if is_err_or_null table
                then ((ptr_err table, None), sx' env (Buf_put buf) (sx' env (Buf_detach buf attach) s4))
                else
                  let start = secheap_iova b; len = iova_len (secheap_info b);
                      (r3, s5) = sx env (Iommu_map_sg (cb_domain b) start table (IOMMU_READ OR IOMMU_WRITE)) s4
                  in if er_len r3 \<noteq> len
                     then ((0, None), sx' env (Buf_put buf) (sx' env (Buf_detach buf attach)
                            (sx' env (Unmap_attachment attach table (Some DMA_BIDIRECTIONAL)) s5)))
                     else ((0, Some (start, len)), upd_cb idx (\<lambda>b. b\<lparr>is_secheap_allocated := True\<rparr>) s5))"

definition cam_smmu_release_sec_heap :: "smmu_env \<Rightarrow> int \<Rightarrow> cam_iommu_cb_set \<Rightarrow> rc \<times> cam_iommu_cb_set" where
  "cam_smmu_release_sec_heap env h s =
     (let idx = GET_SMMU_TABLE_IDX h; b = cb_info s idx in
      if cb_num s \<le> idx then (- EINVAL, s)
      else if \<not> secheap_support b then (- EINVAL, s)
      else if \<not> is_secheap_allocated b then (- ENOMEM, s)
      else
        let hp = secheap_buf b;
            s1 = sx' env (Iommu_unmap (cb_domain b) (secheap_iova b) (iova_len (secheap_info b))) s;
            s2 = sx' env (Unmap_attachment (sh_attach hp) (sh_table hp) (Some DMA_BIDIRECTIONAL)) s1;
            s3 = sx' env (Buf_put (sh_buf hp)) (sx' env (Buf_detach (sh_buf hp) (sh_attach hp)) s2)
        in (0, upd_cb idx (\<lambda>b. b\<lparr>is_secheap_allocated := False\<rparr>) s3))"

section \<open>Pages of the scratch region\<close>

text \<open>
  The kernel's bitmap functions. \<open>bitmap_find_next_zero_area\<close> gives the least aligned place where
  \<open>nr\<close> bits are clear, or a number beyond the size; \<open>align\<close> is the alignment, a power of two. The tests of
  \<open>align\<close> and of \<open>start \<le> i\<close> are not in the code; they never decide.
\<close>

definition find_next_bit :: "bitmap \<Rightarrow> nat \<Rightarrow> nat \<Rightarrow> nat" where
  "find_next_bit bm sz i = find_next_zero_bit (\<lambda>j. \<not> bm j) sz i"

definition align_up :: "nat \<Rightarrow> nat \<Rightarrow> nat" where
  "align_up align i = (i + align - 1) div align * align"

function bitmap_find_next_zero_area :: "bitmap \<Rightarrow> nat \<Rightarrow> nat \<Rightarrow> nat \<Rightarrow> nat \<Rightarrow> nat" where
  "bitmap_find_next_zero_area bm sz start nr align =
     (let index = align_up align (find_next_zero_bit bm sz start); en = index + nr in
      if align = 0 \<or> sz < en then en
      else let i = find_next_bit bm en index in
        if i < en \<and> start \<le> i then bitmap_find_next_zero_area bm sz (i + 1) nr align else index)"
  by pat_completeness auto
termination
  by (relation "measure (\<lambda>(bm, sz, start, nr, align). sz - start)") (auto simp: Let_def)

declare bitmap_find_next_zero_area.simps [simp del]

definition bitmap_set :: "bitmap \<Rightarrow> nat \<Rightarrow> nat \<Rightarrow> bitmap" where
  "bitmap_set bm st n = (\<lambda>i. bm i \<or> st \<le> i \<and> i < st + n)"

definition bitmap_clear :: "bitmap \<Rightarrow> nat \<Rightarrow> nat \<Rightarrow> bitmap" where
  "bitmap_clear bm st n = (\<lambda>i. bm i \<and> \<not> (st \<le> i \<and> i < st + n))"

text \<open>The kernel's \<open>get_order\<close>: the least order of pages that holds a positive size.\<close>

function order_from :: "u64 \<Rightarrow> nat \<Rightarrow> nat" where
  "order_from n k = (if 52 \<le> k \<or> unat n < 2 ^ k then k else order_from n (Suc k))"
  by pat_completeness auto
termination
  by (relation "measure (\<lambda>(n, k). 52 - k)") auto

declare order_from.simps [simp del]

definition get_order :: "u64 \<Rightarrow> nat" where
  "get_order sz = order_from (drop_bit SMMU_PAGE_SHIFT (sz - 1)) 0"

definition PAGE_ALIGN :: "u64 \<Rightarrow> u64" where
  "PAGE_ALIGN n = (n + 4095) AND NOT 4095"

text \<open>\<open>kz\<close> is the address \<open>kzalloc\<close> returned. The code is \<open>- EINVAL\<close> when the region has no page.\<close>

definition cam_smmu_init_scratch_map :: "bool \<Rightarrow> u64 \<Rightarrow> u64 \<Rightarrow> nat \<Rightarrow> scratch_mapping \<Rightarrow> rc \<times> scratch_mapping" where
  "cam_smmu_init_scratch_map kz base sz order m =
     (let count = ucast (drop_bit (SMMU_PAGE_SHIFT + order) sz) :: u32;
          bitmap_size = ucast ((ucast count + 63 :: u64) div 64 * 8) :: u32 in
      if count = 0 then (- EINVAL, m)
      else if \<not> kz then (- ENOMEM, m\<lparr>sc_bitmap := None\<rparr>)
      else (0, m\<lparr>sc_bitmap := Some (\<lambda>_. False), sc_base := base, sc_bits := ucast (8 * bitmap_size), sc_order := order\<rparr>))"

text \<open>The number of bits an allocation takes: the pages of the buffer and a guard.\<close>

definition scratch_count :: "nat \<Rightarrow> u64 \<Rightarrow> u32" where
  "scratch_count order pages = ucast (drop_bit order (pages + push_bit order 1 - 1)) + 1"

text \<open>
  The caller makes sure that the bitmap is there or that the map has no bits: then the search ends
  before the bitmap is read.
\<close>

definition cam_smmu_alloc_scratch_va :: "u64 \<Rightarrow> scratch_mapping \<Rightarrow> (rc \<times> u64 option) \<times> scratch_mapping" where
  "cam_smmu_alloc_scratch_va sz m =
     (let order = get_order sz;
          count = scratch_count (sc_order m) (drop_bit SMMU_PAGE_SHIFT (PAGE_ALIGN sz));
          align = (if sc_order m < order then 2 ^ (order - sc_order m) else 1);
          bm = (case sc_bitmap m of None \<Rightarrow> \<lambda>_. True | Some bm \<Rightarrow> bm);
          start = of_nat (bitmap_find_next_zero_area bm (unat (sc_bits m)) 0 (unat count) align) :: u32 in
      if sc_bits m < ucast start then ((- ENOMEM, None), m)
      else ((0, Some (sc_base m + ucast (push_bit (sc_order m + SMMU_PAGE_SHIFT) start))),
            m\<lparr>sc_bitmap := map_option (\<lambda>bm. bitmap_set bm (unat start) (unat count)) (sc_bitmap m)\<rparr>))"

definition cam_smmu_free_scratch_va :: "u64 \<Rightarrow> u64 \<Rightarrow> scratch_mapping \<Rightarrow> rc \<times> scratch_mapping" where
  "cam_smmu_free_scratch_va addr sz m =
     (let start = ucast (drop_bit (sc_order m + SMMU_PAGE_SHIFT) (addr - sc_base m)) :: u32;
          count = scratch_count (sc_order m) (drop_bit SMMU_PAGE_SHIFT sz) in
      if addr = 0 then (- EINVAL, m)
      else if sc_bits m < ucast (start + (count - 1)) then (- EINVAL, m)
      else (0, m\<lparr>sc_bitmap := map_option (\<lambda>bm. bitmap_clear bm (unat start) (unat count)) (sc_bitmap m)\<rparr>))"

end
