(* ===== verification/Cam_Smmu_Map.thy ===== *)
theory Cam_Smmu_Map
  imports Cam_Smmu_Regions
begin

text \<open>
  Mapping and unmapping of buffers in a context bank, \<open>cam_smmu/cam_smmu_api.c\<close>: buffers of user
  space and of the kernel, protected buffers, scratch buffers, and the end of a handle.
\<close>

section \<open>Attaching a buffer\<close>

record map_result =
  mr_rc :: rc
  mr_paddr :: u64
  mr_len :: u64
  mr_mapping :: "cam_dma_buff_info option"

text \<open>The exits of the code; each runs into the next.\<close>

definition err_put :: "smmu_env \<Rightarrow> ptr \<Rightarrow> cam_iommu_cb_set \<Rightarrow> cam_iommu_cb_set" where
  "err_put env buf s = sx' env (Buf_put buf) s"

definition err_detach :: "smmu_env \<Rightarrow> ptr \<Rightarrow> ptr \<Rightarrow> cam_iommu_cb_set \<Rightarrow> cam_iommu_cb_set" where
  "err_detach env buf attach s = err_put env buf (sx' env (Buf_detach buf attach) s)"

definition err_unmap_sg ::
    "smmu_env \<Rightarrow> ptr \<Rightarrow> ptr \<Rightarrow> ptr \<Rightarrow> dma_dir option \<Rightarrow> cam_iommu_cb_set \<Rightarrow> cam_iommu_cb_set" where
  "err_unmap_sg env buf attach table dir s =
     err_detach env buf attach (sx' env (Unmap_attachment attach table dir) s)"

definition err_alloc ::
    "smmu_env \<Rightarrow> nat \<Rightarrow> ptr \<Rightarrow> ptr \<Rightarrow> ptr \<Rightarrow> dma_dir option \<Rightarrow> cam_smmu_region_id \<Rightarrow> u32 \<Rightarrow> u64 \<Rightarrow> u64 \<Rightarrow> u64
      \<Rightarrow> cam_iommu_cb_set \<Rightarrow> cam_iommu_cb_set" where
  "err_alloc env idx buf attach table dir rg iova sz paddr ln s =
     err_unmap_sg env buf attach table dir
       (if rg = CAM_SMMU_REGION_SHARED
        then sx' env (Iommu_unmap (cb_domain (cb_info s idx)) paddr ln)
               (snd (cam_smmu_free_iova env iova sz (cb_handle (cb_info s idx)) s))
        else s)"

text \<open>
  The end of \<open>cam_smmu_map_buffer_validate\<close>, from the check of the scatter list on; \<open>iova\<close> and \<open>sz\<close>
  are what the shared region gave.
\<close>

definition map_finish ::
    "smmu_env \<Rightarrow> nat \<Rightarrow> ptr \<Rightarrow> ptr \<Rightarrow> ptr \<Rightarrow> dma_dir option \<Rightarrow> cam_smmu_region_id \<Rightarrow> u32 \<Rightarrow> u64 \<Rightarrow> u64 \<Rightarrow> u64
      \<Rightarrow> cam_iommu_cb_set \<Rightarrow> map_result \<times> cam_iommu_cb_set" where
  "map_finish env idx buf attach table dir rg iova sz paddr ln s =
     (let res = (\<lambda>rc m. \<lparr>mr_rc = rc, mr_paddr = paddr, mr_len = ln, mr_mapping = m\<rparr>) in
      if table_sgl env table = 0 then (res (- EINVAL) None, err_unmap_sg env buf attach table dir s)
      else let (r, s1) = sx env (Kzalloc 1) s in
        if er_val r = 0
        then (res (- ENOSPC) None, err_alloc env idx buf attach table dir rg iova sz paddr ln s1)
        else if paddr = 0 \<or> ln = 0
        then (res (- ENOSPC) None, err_alloc env idx buf attach table dir rg iova sz paddr ln s1)
        else (res 0 (Some \<lparr>mp_buf = buf, mp_attach = attach, mp_table = table, mp_dir = dir, mp_region_id = rg,
                mp_iommu_dir = 0, mp_ref_count = 1, mp_paddr = paddr, mp_ion_fd = 0, mp_len = ln, mp_phys_len = 0\<rparr>), s1))"

text \<open>
  \<open>paddr\<close> and \<open>ln\<close> are the values of \<open>*paddr_ptr\<close> and \<open>*len_ptr\<close> at the call. The test \<open>size < 0\<close> on the
  unsigned result of \<open>iommu_map_sg\<close> is never true, so a failed call, which gives \<open>0\<close>, passes it. Without
  a domain the code is the one of the last successful step, \<open>0\<close>. For the IO region the first entry of
  the scatter list is read before it is checked.
\<close>

definition cam_smmu_map_buffer_validate ::
    "smmu_env \<Rightarrow> ptr \<Rightarrow> nat \<Rightarrow> dma_dir option \<Rightarrow> u64 \<Rightarrow> u64 \<Rightarrow> cam_smmu_region_id \<Rightarrow> bool
      \<Rightarrow> cam_iommu_cb_set \<Rightarrow> map_result \<times> cam_iommu_cb_set" where
  "cam_smmu_map_buffer_validate env buf idx dir paddr ln rg dis s =
     (let fail = (\<lambda>rc. \<lparr>mr_rc = rc, mr_paddr = paddr, mr_len = ln, mr_mapping = None\<rparr>) in
      if is_err_or_null buf then (fail (ptr_err buf), s)
      else
        let (r, s1) = sx env (Buf_attach buf (cb_dev (cb_info s idx))) s; attach = er_val r in
        if is_err_or_null attach then (fail (ptr_err attach), err_put env buf s1)
        else (case rg of
          CAM_SMMU_REGION_SHARED \<Rightarrow>
            (let (r2, s2) = sx env (Map_attachment attach dir False False) s1; table = er_val r2; dom = cb_domain (cb_info s2 idx) in
             if is_err_or_null table then (fail (ptr_err table), err_detach env buf attach s2)
             else if dom = 0 then (fail 0, err_unmap_sg env buf attach table dir s2)
             else let ((rc, a), s3) = cam_smmu_alloc_iova env ln (cb_handle (cb_info s2 idx)) s2 in
               if rc < 0 then (fail rc, err_unmap_sg env buf attach table dir s3)
               else
                 let iova = (case a of Some a \<Rightarrow> a | None \<Rightarrow> 0);
                     (r4, s4) = sx env (Iommu_map_sg dom (ucast iova) table (IOMMU_READ OR IOMMU_WRITE)) s3;
                     sz = er_len r4
                 in map_finish env idx buf attach table dir rg iova sz (ucast iova) sz
                      (upd_cb idx (\<lambda>b. b\<lparr>shared_mapping_size := shared_mapping_size b + sz\<rparr>) s4))
        | CAM_SMMU_REGION_IO \<Rightarrow>
            (let (r2, s2) = sx env (Map_attachment attach dir (\<not> dis) False) s1; table = er_val r2 in
             if is_err_or_null table then (fail (ptr_err table), err_detach env buf attach s2)
             else if table_sgl env table = 0 then (fail (- EINVAL), s2\<lparr>undef := True\<rparr>)
             else map_finish env idx buf attach table dir rg 0 0 (sg_dma_address env (table_sgl env table)) (buf_size env buf)
                    (upd_cb idx (\<lambda>b. b\<lparr>io_mapping_size := io_mapping_size b + buf_size env buf\<rparr>) s2))
        | _ \<Rightarrow> (fail (- EINVAL), err_unmap_sg env buf attach 0 dir s1)))"

definition add_user :: "nat \<Rightarrow> smmu_buf \<Rightarrow> cam_iommu_cb_set \<Rightarrow> cam_iommu_cb_set" where
  "add_user idx e = upd_cb idx (\<lambda>b. b\<lparr>smmu_buf_list := e # smmu_buf_list b\<rparr>)"

definition del_user :: "nat \<Rightarrow> nat \<Rightarrow> cam_iommu_cb_set \<Rightarrow> cam_iommu_cb_set" where
  "del_user idx p = upd_cb idx (\<lambda>b. b\<lparr>smmu_buf_list := del_at p (smmu_buf_list b)\<rparr>)"

definition add_kernel :: "nat \<Rightarrow> cam_dma_buff_info \<Rightarrow> cam_iommu_cb_set \<Rightarrow> cam_iommu_cb_set" where
  "add_kernel idx m = upd_cb idx (\<lambda>b. b\<lparr>smmu_buf_kernel_list := m # smmu_buf_kernel_list b\<rparr>)"

definition del_kernel :: "nat \<Rightarrow> nat \<Rightarrow> cam_iommu_cb_set \<Rightarrow> cam_iommu_cb_set" where
  "del_kernel idx p = upd_cb idx (\<lambda>b. b\<lparr>smmu_buf_kernel_list := del_at p (smmu_buf_kernel_list b)\<rparr>)"

text \<open>A code of \<open>0\<close> without a mapping makes the caller follow a null pointer.\<close>

definition cam_smmu_map_buffer_and_add_to_list ::
    "smmu_env \<Rightarrow> nat \<Rightarrow> int \<Rightarrow> bool \<Rightarrow> dma_dir option \<Rightarrow> u64 \<Rightarrow> u64 \<Rightarrow> cam_smmu_region_id \<Rightarrow> cam_iommu_cb_set
      \<Rightarrow> (rc \<times> u64 \<times> u64) \<times> cam_iommu_cb_set" where
  "cam_smmu_map_buffer_and_add_to_list env idx fd dis dir paddr ln rg s =
     (let (r, s1) = sx env (Buf_get fd) s;
          (v, s2) = cam_smmu_map_buffer_validate env (er_val r) idx dir paddr ln rg dis s1 in
      ((mr_rc v, mr_paddr v, mr_len v),
       if mr_rc v \<noteq> 0 then s2
       else (case mr_mapping v of
               None \<Rightarrow> s2\<lparr>undef := True\<rparr>
             | Some m \<Rightarrow> let m = m\<lparr>mp_ion_fd := fd\<rparr> in
                 upd_cb idx (cam_smmu_update_monitor_array True m) (add_user idx (Dma_entry m) s2))))"

definition cam_smmu_map_kernel_buffer_and_add_to_list ::
    "smmu_env \<Rightarrow> nat \<Rightarrow> ptr \<Rightarrow> dma_dir option \<Rightarrow> u64 \<Rightarrow> u64 \<Rightarrow> cam_smmu_region_id \<Rightarrow> cam_iommu_cb_set
      \<Rightarrow> (rc \<times> u64 \<times> u64) \<times> cam_iommu_cb_set" where
  "cam_smmu_map_kernel_buffer_and_add_to_list env idx buf dir paddr ln rg s =
     (let (v, s1) = cam_smmu_map_buffer_validate env buf idx dir paddr ln rg False s in
      ((mr_rc v, mr_paddr v, mr_len v),
       if mr_rc v \<noteq> 0 then s1
       else (case mr_mapping v of
               None \<Rightarrow> s1\<lparr>undef := True\<rparr>
             | Some m \<Rightarrow> let m = m\<lparr>mp_ion_fd := - 1\<rparr> in
                 upd_cb idx (cam_smmu_update_monitor_array True m) (add_kernel idx m s1))))"

text \<open>\<open>del\<close> takes the mapping off the list it is on.\<close>

definition cam_smmu_unmap_buf_and_remove_from_list ::
    "smmu_env \<Rightarrow> cam_dma_buff_info \<Rightarrow> (cam_iommu_cb_set \<Rightarrow> cam_iommu_cb_set) \<Rightarrow> nat \<Rightarrow> cam_iommu_cb_set \<Rightarrow> rc \<times> cam_iommu_cb_set" where
  "cam_smmu_unmap_buf_and_remove_from_list env m del idx s =
     (if mp_buf m = 0 \<or> mp_table m = 0 \<or> mp_attach m = 0 then (- EINVAL, s)
      else
        let s1 = upd_cb idx (cam_smmu_update_monitor_array False m) s;
            s2 = (case mp_region_id m of
                    CAM_SMMU_REGION_SHARED \<Rightarrow>
                      upd_cb idx (\<lambda>b. b\<lparr>shared_mapping_size := shared_mapping_size b - mp_len m\<rparr>)
                        (snd (cam_smmu_free_iova env (ucast (mp_paddr m)) (mp_len m) (cb_handle (cb_info s1 idx))
                          (sx' env (Iommu_unmap (cb_domain (cb_info s1 idx)) (mp_paddr m) (mp_len m)) s1)))
                  | CAM_SMMU_REGION_IO \<Rightarrow> upd_cb idx (\<lambda>b. b\<lparr>io_mapping_size := io_mapping_size b - mp_len m\<rparr>) s1
                  | _ \<Rightarrow> s1);
            s3 = err_unmap_sg env (mp_buf m) (mp_attach m) (mp_table m) (mp_dir m) s2
        in (0, del s3))"

section \<open>Looking a buffer up\<close>

definition cam_smmu_check_fd_in_list :: "nat \<Rightarrow> int \<Rightarrow> cam_iommu_cb_set \<Rightarrow> cam_dma_buff_info option option" where
  "cam_smmu_check_fd_in_list idx fd s =
     map_option (\<lambda>r. case r of None \<Rightarrow> None | Some p \<Rightarrow> dma_of (smmu_buf_list (cb_info s idx) ! p))
       (find_dma (\<lambda>m. mp_ion_fd m = fd) (smmu_buf_list (cb_info s idx)))"

definition cam_smmu_check_dma_buf_in_list :: "nat \<Rightarrow> ptr \<Rightarrow> cam_iommu_cb_set \<Rightarrow> cam_dma_buff_info option" where
  "cam_smmu_check_dma_buf_in_list idx buf s =
     (case find_pos (\<lambda>m. mp_buf m = buf) (smmu_buf_kernel_list (cb_info s idx)) of
        None \<Rightarrow> None
      | Some p \<Rightarrow> Some (smmu_buf_kernel_list (cb_info s idx) ! p))"

definition cam_smmu_validate_secure_fd_in_list :: "nat \<Rightarrow> int \<Rightarrow> cam_iommu_cb_set \<Rightarrow> cam_sec_buff_info option option" where
  "cam_smmu_validate_secure_fd_in_list idx fd s =
     map_option (\<lambda>r. case r of None \<Rightarrow> None | Some p \<Rightarrow> sec_of (smmu_buf_list (cb_info s idx) ! p))
       (find_sec (\<lambda>m. sb_ion_fd m = fd) (smmu_buf_list (cb_info s idx)))"

fun add_ref :: "int \<Rightarrow> smmu_buf \<Rightarrow> smmu_buf" where
  "add_ref k (Sec_entry m) = Sec_entry (m\<lparr>sb_ref_count := sb_ref_count m + k\<rparr>)"
| "add_ref k (Dma_entry m) = Dma_entry m"

definition ref_at :: "nat \<Rightarrow> nat \<Rightarrow> int \<Rightarrow> cam_iommu_cb_set \<Rightarrow> cam_iommu_cb_set" where
  "ref_at idx p k = upd_cb idx (\<lambda>b. b\<lparr>smmu_buf_list := (smmu_buf_list b)[p := add_ref k (smmu_buf_list b ! p)]\<rparr>)"

text \<open>The look-up before a protected buffer is mapped takes a reference.\<close>

definition cam_smmu_check_secure_fd_in_list ::
    "nat \<Rightarrow> int \<Rightarrow> cam_iommu_cb_set \<Rightarrow> (cam_sec_buff_info option \<times> cam_iommu_cb_set) option" where
  "cam_smmu_check_secure_fd_in_list idx fd s =
     map_option (\<lambda>r. case r of
         None \<Rightarrow> (None, s)
       | Some p \<Rightarrow> (sec_of (smmu_buf_list (cb_info s idx) ! p), ref_at idx p 1 s))
       (find_sec (\<lambda>m. sb_ion_fd m = fd) (smmu_buf_list (cb_info s idx)))"

section \<open>Buffers of user space and of the kernel\<close>

text \<open>
  What a look-up stores for its caller is only given where the code is \<open>0\<close> or \<open>- EALREADY\<close>. The next
  definition returns the code, and \<open>*paddr_ptr\<close> and \<open>*len_ptr\<close> as they are after the call.
\<close>

definition cam_smmu_map_iova_validate_params ::
    "int \<Rightarrow> cam_smmu_map_dir \<Rightarrow> u64 \<Rightarrow> u64 \<Rightarrow> cam_smmu_region_id \<Rightarrow> cam_iommu_cb_set \<Rightarrow> rc \<times> u64 \<times> u64" where
  "cam_smmu_map_iova_validate_params h dir paddr ln rg s =
     (if h = HANDLE_INIT then (- EINVAL, paddr, ln)
      else let ln = (if rg \<noteq> CAM_SMMU_REGION_SHARED then 0 else ln) in
        if cam_smmu_translate_dir dir = None then (- EINVAL, 0, ln)
        else if hdl_bank h s = None then (- EINVAL, 0, ln)
        else (0, 0, ln))"

definition cam_smmu_map_user_iova ::
    "smmu_env \<Rightarrow> int \<Rightarrow> int \<Rightarrow> bool \<Rightarrow> cam_smmu_map_dir \<Rightarrow> u64 \<Rightarrow> u64 \<Rightarrow> cam_smmu_region_id \<Rightarrow> cam_iommu_cb_set
      \<Rightarrow> (rc \<times> u64 \<times> u64) \<times> cam_iommu_cb_set" where
  "cam_smmu_map_user_iova env h fd dis dir paddr ln rg s =
     (let (rc, paddr, ln) = cam_smmu_map_iova_validate_params h dir paddr ln rg s in
      if rc \<noteq> 0 then ((rc, paddr, ln), s)
      else
        let dma_dir = cast_dir dir; idx = GET_SMMU_TABLE_IDX h; b = cb_info s idx in
        if is_secure b then ((- EINVAL, paddr, ln), s)
        else if cb_handle b \<noteq> h then ((- EINVAL, paddr, ln), s)
        else if cb_state b \<noteq> CAM_SMMU_ATTACH then ((- EINVAL, paddr, ln), s)
        else (case cam_smmu_check_fd_in_list idx fd s of
                None \<Rightarrow> ((- EINVAL, paddr, ln), s\<lparr>undef := True\<rparr>)
              | Some (Some m) \<Rightarrow> ((- EALREADY, mp_paddr m, mp_len m), s)
              | Some None \<Rightarrow> cam_smmu_map_buffer_and_add_to_list env idx fd dis dma_dir paddr ln rg s))"

definition cam_smmu_map_kernel_iova ::
    "smmu_env \<Rightarrow> int \<Rightarrow> ptr \<Rightarrow> cam_smmu_map_dir \<Rightarrow> u64 \<Rightarrow> u64 \<Rightarrow> cam_smmu_region_id \<Rightarrow> cam_iommu_cb_set
      \<Rightarrow> (rc \<times> u64 \<times> u64) \<times> cam_iommu_cb_set" where
  "cam_smmu_map_kernel_iova env h buf dir paddr ln rg s =
     (let (rc, paddr, ln) = cam_smmu_map_iova_validate_params h dir paddr ln rg s in
      if rc \<noteq> 0 then ((rc, paddr, ln), s)
      else
        let dma_dir = cam_smmu_translate_dir dir; idx = GET_SMMU_TABLE_IDX h; b = cb_info s idx in
        if is_secure b then ((- EINVAL, paddr, ln), s)
        else if cb_handle b \<noteq> h then ((- EINVAL, paddr, ln), s)
        else if cb_state b \<noteq> CAM_SMMU_ATTACH then ((- EINVAL, paddr, ln), s)
        else (case cam_smmu_check_dma_buf_in_list idx buf s of
                Some m \<Rightarrow> ((- EALREADY, mp_paddr m, mp_len m), s)
              | None \<Rightarrow> cam_smmu_map_kernel_buffer_and_add_to_list env idx buf dma_dir paddr ln rg s))"

definition cam_smmu_get_iova :: "int \<Rightarrow> int \<Rightarrow> cam_iommu_cb_set \<Rightarrow> (rc \<times> u64 \<times> u64) \<times> cam_iommu_cb_set" where
  "cam_smmu_get_iova h fd s =
     (case hdl_bank h s of
        None \<Rightarrow> ((- EINVAL, 0, 0), s)
      | Some idx \<Rightarrow>
          let b = cb_info s idx in
          if is_secure b then ((- EINVAL, 0, 0), s)
          else if cb_handle b \<noteq> h then ((- EINVAL, 0, 0), s)
          else (case cam_smmu_check_fd_in_list idx fd s of
                  None \<Rightarrow> ((- EINVAL, 0, 0), s\<lparr>undef := True\<rparr>)
                | Some None \<Rightarrow> ((- EINVAL, 0, 0), s)
                | Some (Some m) \<Rightarrow> ((0, mp_paddr m, mp_len m), s)))"

definition cam_smmu_get_stage2_iova :: "int \<Rightarrow> int \<Rightarrow> cam_iommu_cb_set \<Rightarrow> (rc \<times> u64 \<times> u64) \<times> cam_iommu_cb_set" where
  "cam_smmu_get_stage2_iova h fd s =
     (case hdl_bank h s of
        None \<Rightarrow> ((- EINVAL, 0, 0), s)
      | Some idx \<Rightarrow>
          let b = cb_info s idx in
          if \<not> is_secure b then ((- EINVAL, 0, 0), s)
          else if cb_handle b \<noteq> h then ((- EINVAL, 0, 0), s)
          else (case cam_smmu_validate_secure_fd_in_list idx fd s of
                  None \<Rightarrow> ((- EINVAL, 0, 0), s\<lparr>undef := True\<rparr>)
                | Some None \<Rightarrow> ((- EINVAL, 0, 0), s)
                | Some (Some m) \<Rightarrow> ((0, sb_paddr m, sb_len m), s)))"

definition cam_smmu_unmap_validate_params :: "int \<Rightarrow> cam_iommu_cb_set \<Rightarrow> rc" where
  "cam_smmu_unmap_validate_params h s = (if hdl_bank h s = None then - EINVAL else 0)"

text \<open>Unmap the mapping at a position of a list.\<close>

definition unmap_user_at :: "smmu_env \<Rightarrow> nat \<Rightarrow> nat \<Rightarrow> cam_iommu_cb_set \<Rightarrow> rc \<times> cam_iommu_cb_set" where
  "unmap_user_at env idx p s =
     (case smmu_buf_list (cb_info s idx) ! p of
        Dma_entry m \<Rightarrow> cam_smmu_unmap_buf_and_remove_from_list env m (del_user idx p) idx s
      | Sec_entry _ \<Rightarrow> (- EINVAL, s\<lparr>undef := True\<rparr>))"

definition unmap_kernel_at :: "smmu_env \<Rightarrow> nat \<Rightarrow> nat \<Rightarrow> cam_iommu_cb_set \<Rightarrow> rc \<times> cam_iommu_cb_set" where
  "unmap_kernel_at env idx p s =
     cam_smmu_unmap_buf_and_remove_from_list env (smmu_buf_kernel_list (cb_info s idx) ! p) (del_kernel idx p) idx s"

definition cam_smmu_unmap_user_iova :: "smmu_env \<Rightarrow> int \<Rightarrow> int \<Rightarrow> cam_iommu_cb_set \<Rightarrow> rc \<times> cam_iommu_cb_set" where
  "cam_smmu_unmap_user_iova env h fd s =
     (let rc = cam_smmu_unmap_validate_params h s; idx = GET_SMMU_TABLE_IDX h; b = cb_info s idx in
      if rc \<noteq> 0 then (rc, s)
      else if is_secure b then (- EINVAL, s)
      else if cb_handle b \<noteq> h then (- EINVAL, s)
      else (case cam_smmu_find_mapping_by_ion_index idx fd s of
              None \<Rightarrow> (- EINVAL, s\<lparr>undef := True\<rparr>)
            | Some None \<Rightarrow> (- EINVAL, s)
            | Some (Some p) \<Rightarrow> unmap_user_at env idx p s))"

definition cam_smmu_unmap_kernel_iova :: "smmu_env \<Rightarrow> int \<Rightarrow> ptr \<Rightarrow> cam_iommu_cb_set \<Rightarrow> rc \<times> cam_iommu_cb_set" where
  "cam_smmu_unmap_kernel_iova env h buf s =
     (let rc = cam_smmu_unmap_validate_params h s; idx = GET_SMMU_TABLE_IDX h; b = cb_info s idx in
      if rc \<noteq> 0 then (rc, s)
      else if is_secure b then (- EINVAL, s)
      else if cb_handle b \<noteq> h then (- EINVAL, s)
      else (case cam_smmu_find_mapping_by_dma_buf idx buf s of
              None \<Rightarrow> (- EINVAL, s)
            | Some p \<Rightarrow> unmap_kernel_at env idx p s))"

definition cam_smmu_put_iova :: "int \<Rightarrow> int \<Rightarrow> cam_iommu_cb_set \<Rightarrow> rc \<times> cam_iommu_cb_set" where
  "cam_smmu_put_iova h fd s =
     (case hdl_bank h s of
        None \<Rightarrow> (- EINVAL, s)
      | Some idx \<Rightarrow>
          if cb_handle (cb_info s idx) \<noteq> h then (- EINVAL, s)
          else (case cam_smmu_find_mapping_by_ion_index idx fd s of
                  None \<Rightarrow> (- EINVAL, s\<lparr>undef := True\<rparr>)
                | Some None \<Rightarrow> (- EINVAL, s)
                | Some (Some p) \<Rightarrow> (0, s)))"

section \<open>Protected buffers\<close>

definition cam_smmu_map_stage2_buffer_and_add_to_list ::
    "smmu_env \<Rightarrow> nat \<Rightarrow> int \<Rightarrow> dma_dir option \<Rightarrow> cam_iommu_cb_set \<Rightarrow> (rc \<times> u64 \<times> u64) \<times> cam_iommu_cb_set" where
  "cam_smmu_map_stage2_buffer_and_add_to_list env idx fd dir s =
     (let (r, s1) = sx env (Buf_get fd) s; buf = er_val r in
      if is_err_or_null buf then ((ptr_err buf, 0, 0), s1)
      else let (r2, s2) = sx env (Buf_attach buf (cb_dev (cb_info s1 idx))) s1; attach = er_val r2 in
        if is_err_or_null attach then ((ptr_err attach, 0, 0), err_put env buf s2)
        else let (r3, s3) = sx env (Map_attachment attach dir False True) s2; table = er_val r3 in
          if is_err_or_null table then ((ptr_err table, 0, 0), err_detach env buf attach s3)
          else if table_sgl env table = 0 then ((- EINVAL, 0, 0), s3\<lparr>undef := True\<rparr>)
          else
            let paddr = sg_phys env (table_sgl env table); ln = ucast (sg_dma_len env (table_sgl env table));
                (r4, s4) = sx env (Kzalloc 1) s3 in
            if er_val r4 = 0 then ((- ENOMEM, paddr, ln), err_unmap_sg env buf attach table dir s4)
            else ((0, paddr, ln), add_user idx (Sec_entry \<lparr>sb_buf = buf, sb_dir = dir, sb_ref_count = 1,
                    sb_paddr = paddr, sb_ion_fd = fd, sb_len = ln\<rparr>) s4))"

definition cam_smmu_map_stage2_iova ::
    "smmu_env \<Rightarrow> int \<Rightarrow> int \<Rightarrow> cam_smmu_map_dir \<Rightarrow> cam_iommu_cb_set \<Rightarrow> (rc \<times> u64 \<times> u64) \<times> cam_iommu_cb_set" where
  "cam_smmu_map_stage2_iova env h fd dir s =
     (if cam_smmu_translate_dir dir = None then ((- EINVAL, 0, 0), s)
      else case hdl_bank h s of
        None \<Rightarrow> ((- EINVAL, 0, 0), s)
      | Some idx \<Rightarrow>
          let b = cb_info s idx in
          if \<not> is_secure b then ((- EINVAL, 0, 0), s)
          else if cb_handle b \<noteq> h then ((- EINVAL, 0, 0), s)
          else (case cam_smmu_check_secure_fd_in_list idx fd s of
                  None \<Rightarrow> ((- EINVAL, 0, 0), s\<lparr>undef := True\<rparr>)
                | Some (Some m, s1) \<Rightarrow> ((0, sb_paddr m, sb_len m), s1)
                | Some (None, s1) \<Rightarrow> cam_smmu_map_stage2_buffer_and_add_to_list env idx fd (cam_smmu_translate_dir dir) s1))"

definition cam_smmu_secure_unmap_buf_and_remove_from_list ::
    "smmu_env \<Rightarrow> cam_sec_buff_info \<Rightarrow> nat \<Rightarrow> nat \<Rightarrow> cam_iommu_cb_set \<Rightarrow> rc \<times> cam_iommu_cb_set" where
  "cam_smmu_secure_unmap_buf_and_remove_from_list env m p idx s = (0, del_user idx p (sx' env (Buf_put (sb_buf m)) s))"

definition cam_smmu_unmap_stage2_iova :: "smmu_env \<Rightarrow> int \<Rightarrow> int \<Rightarrow> cam_iommu_cb_set \<Rightarrow> rc \<times> cam_iommu_cb_set" where
  "cam_smmu_unmap_stage2_iova env h fd s =
     (case hdl_bank h s of
        None \<Rightarrow> (- EINVAL, s)
      | Some idx \<Rightarrow>
          let b = cb_info s idx in
          if \<not> is_secure b then (- EINVAL, s)
          else if cb_handle b \<noteq> h then (- EINVAL, s)
          else (case cam_smmu_find_mapping_by_sec_buf_idx idx fd s of
                  None \<Rightarrow> (- EINVAL, s\<lparr>undef := True\<rparr>)
                | Some None \<Rightarrow> (- EINVAL, s)
                | Some (Some p) \<Rightarrow>
                    (case smmu_buf_list b ! p of
                       Dma_entry _ \<Rightarrow> (- EINVAL, s\<lparr>undef := True\<rparr>)
                     | Sec_entry m \<Rightarrow>
                         let s1 = ref_at idx p (- 1) s in
                         if 0 < sb_ref_count m - 1 then (0, s1)
                         else cam_smmu_secure_unmap_buf_and_remove_from_list env m p idx s1)))"

section \<open>Scratch buffers\<close>

text \<open>
  The mapping of one block of pages as often as it takes to fill the virtual length. When the mapping
  fails the code left by the allocation of the address, \<open>0\<close>, is returned. \<open>*virt_addr\<close> is \<open>va\<close> before
  the call.
\<close>

definition cam_smmu_alloc_scratch_buffer_add_to_list ::
    "smmu_env \<Rightarrow> nat \<Rightarrow> u64 \<Rightarrow> u64 \<Rightarrow> int \<Rightarrow> u64 \<Rightarrow> cam_iommu_cb_set \<Rightarrow> (rc \<times> u64) \<times> cam_iommu_cb_set" where
  "cam_smmu_alloc_scratch_buffer_add_to_list env idx virt_len phys_len iommu_dir va s =
     (let nents = virt_len div phys_len; order = get_order phys_len;
          (r, s1) = sx env (Kzalloc 1) s; table = er_val r in
      if table = 0 then ((- ENOMEM, va), s1)
      else let (r2, s2) = sx env (Sg_alloc_table table nents) s1 in
        if er_rc r2 < 0 then ((- EINVAL, va), s2)
        else let (r3, s3) = sx env (Alloc_pages order) s2; page = er_val r3;
                 free_table = sx' env (Sg_free_table table);
                 free_all = (\<lambda>s. free_table (sx' env (Free_pages page order) s)) in
          if page = 0 then ((- ENOMEM, va), free_table s3)
          else
            let b = cb_info s3 idx; dom = cb_domain b in
            if sc_bitmap (scratch_map b) = None \<and> sc_bits (scratch_map b) \<noteq> 0 then ((- EINVAL, va), s3\<lparr>undef := True\<rparr>)
            else (case cam_smmu_alloc_scratch_va virt_len (scratch_map b) of
              ((rc, None), sm) \<Rightarrow> ((rc, va), free_all s3)
            | ((rc, Some iova), sm) \<Rightarrow>
                let s4 = upd_cb idx (\<lambda>b. b\<lparr>scratch_map := sm\<rparr>) s3;
                    (r5, s5) = sx env (Iommu_map_sg dom iova table iommu_dir) s4 in
                if er_len r5 \<noteq> virt_len then ((rc, va), free_all s5)
                else let (r6, s6) = sx env (Kzalloc 1) s5 in
                  if er_val r6 = 0 then ((- ENOMEM, va), free_all (sx' env (Iommu_unmap dom iova virt_len) s6))
                  else ((0, iova), add_user idx (Dma_entry \<lparr>mp_buf = 0, mp_attach = 0, mp_table = table,
                         mp_dir = Some DMA_BIDIRECTIONAL, mp_region_id = CAM_SMMU_REGION_SCRATCH, mp_iommu_dir = iommu_dir,
                         mp_ref_count = 1, mp_paddr = iova, mp_ion_fd = SCRATCH_FD, mp_len = virt_len,
                         mp_phys_len = phys_len\<rparr>) s6)))"

definition cam_smmu_free_scratch_buffer_remove_from_list ::
    "smmu_env \<Rightarrow> cam_dma_buff_info \<Rightarrow> nat \<Rightarrow> nat \<Rightarrow> cam_iommu_cb_set \<Rightarrow> rc \<times> cam_iommu_cb_set" where
  "cam_smmu_free_scratch_buffer_remove_from_list env m p idx s =
     (if mp_table m = 0 then (- EINVAL, s)
      else
        let b = cb_info s idx;
            s1 = sx' env (Iommu_unmap (cb_domain b) (mp_paddr m) (mp_len m)) s;
            (rc, sm) = cam_smmu_free_scratch_va (mp_paddr m) (mp_len m) (scratch_map b);
            s2 = upd_cb idx (\<lambda>b. b\<lparr>scratch_map := sm\<rparr>) s1;
            s3 = sx' env (Sg_free_table (mp_table m)) (sx' env (Free_pages (sg_page env (table_sgl env (mp_table m))) (get_order (mp_phys_len m))) s2)
        in (if rc < 0 then - EINVAL else rc, del_user idx p s3))"

text \<open>Lengths are aligned to pages and to the physical length; \<open>IS_ALIGNED\<close> is a mask test.\<close>

definition IS_ALIGNED :: "u64 \<Rightarrow> u64 \<Rightarrow> bool" where
  "IS_ALIGNED x a \<longleftrightarrow> x AND (a - 1) = 0"

definition cam_smmu_get_scratch_iova ::
    "smmu_env \<Rightarrow> int \<Rightarrow> cam_smmu_map_dir \<Rightarrow> u64 \<Rightarrow> u64 \<Rightarrow> u64 \<Rightarrow> cam_iommu_cb_set \<Rightarrow> (rc \<times> u64) \<times> cam_iommu_cb_set" where
  "cam_smmu_get_scratch_iova env h dir va virt_len phys_len s =
     (if virt_len = 0 \<or> phys_len = 0 then ((- EINVAL, va), s)
      else if virt_len < phys_len then ((- EINVAL, va), s)
      else if h = HANDLE_INIT then ((- EINVAL, va), s)
      else if cam_smmu_translate_dir_to_iommu_dir dir = IOMMU_INVALID_DIR then ((- EINVAL, va), s)
      else case hdl_bank h s of
        None \<Rightarrow> ((- EINVAL, va), s)
      | Some idx \<Rightarrow>
          let b = cb_info s idx in
          if cb_handle b \<noteq> h then ((- EINVAL, va), s)
          else if \<not> scratch_buf_support b then ((- EINVAL, va), s)
          else if cb_state b \<noteq> CAM_SMMU_ATTACH then ((- EINVAL, va), s)
          else if \<not> IS_ALIGNED virt_len 4096 then ((- EINVAL, va), s)
          else if \<not> IS_ALIGNED virt_len phys_len then ((- EINVAL, va), s)
          else cam_smmu_alloc_scratch_buffer_add_to_list env idx virt_len phys_len
                 (cam_smmu_translate_dir_to_iommu_dir dir) va s)"

definition cam_smmu_put_scratch_iova :: "smmu_env \<Rightarrow> int \<Rightarrow> u64 \<Rightarrow> cam_iommu_cb_set \<Rightarrow> rc \<times> cam_iommu_cb_set" where
  "cam_smmu_put_scratch_iova env h paddr s =
     (case hdl_bank h s of
        None \<Rightarrow> (- EINVAL, s)
      | Some idx \<Rightarrow>
          let b = cb_info s idx in
          if cb_handle b \<noteq> h then (- EINVAL, s)
          else if \<not> scratch_buf_support b then (- EINVAL, s)
          else (case cam_smmu_find_mapping_by_virt_address idx paddr s of
                  None \<Rightarrow> (- EINVAL, s\<lparr>undef := True\<rparr>)
                | Some None \<Rightarrow> (- ENODEV, s)
                | Some (Some p) \<Rightarrow>
                    (case smmu_buf_list b ! p of
                       Sec_entry _ \<Rightarrow> (- EINVAL, s\<lparr>undef := True\<rparr>)
                     | Dma_entry m \<Rightarrow> cam_smmu_free_scratch_buffer_remove_from_list env m p idx s)))"

section \<open>The end of a handle\<close>

text \<open>
  The loops over the lists go on when the removal of a mapping fails. \<open>n\<close> entries are left from
  position \<open>p\<close> on.
\<close>

fun cam_smmu_clean_user_buffer_list :: "smmu_env \<Rightarrow> nat \<Rightarrow> nat \<Rightarrow> nat \<Rightarrow> cam_iommu_cb_set \<Rightarrow> cam_iommu_cb_set" where
  "cam_smmu_clean_user_buffer_list env idx 0 p s = s"
| "cam_smmu_clean_user_buffer_list env idx (Suc n) p s =
     (case smmu_buf_list (cb_info s idx) ! p of
        Sec_entry _ \<Rightarrow> s\<lparr>undef := True\<rparr>
      | Dma_entry m \<Rightarrow>
          let (rc, s1) = (if mp_ion_fd m = SCRATCH_FD
                          then cam_smmu_free_scratch_buffer_remove_from_list env m p idx s
                          else unmap_user_at env idx p s)
          in cam_smmu_clean_user_buffer_list env idx n
               (if length (smmu_buf_list (cb_info s1 idx)) = length (smmu_buf_list (cb_info s idx)) then Suc p else p) s1)"

fun cam_smmu_clean_kernel_buffer_list :: "smmu_env \<Rightarrow> nat \<Rightarrow> nat \<Rightarrow> nat \<Rightarrow> cam_iommu_cb_set \<Rightarrow> cam_iommu_cb_set" where
  "cam_smmu_clean_kernel_buffer_list env idx 0 p s = s"
| "cam_smmu_clean_kernel_buffer_list env idx (Suc n) p s =
     (let (rc, s1) = unmap_kernel_at env idx p s
      in cam_smmu_clean_kernel_buffer_list env idx n (if rc < 0 then Suc p else p) s1)"

definition cam_smmu_destroy_handle :: "smmu_env \<Rightarrow> int \<Rightarrow> cam_iommu_cb_set \<Rightarrow> rc \<times> cam_iommu_cb_set" where
  "cam_smmu_destroy_handle env h s =
     (case hdl_bank h s of
        None \<Rightarrow> (- EINVAL, s)
      | Some idx \<Rightarrow>
          if cb_handle (cb_info s idx) \<noteq> h then (- EINVAL, s)
          else
            let s1 = cam_smmu_clean_user_buffer_list env idx (length (smmu_buf_list (cb_info s idx))) 0 s;
                s2 = cam_smmu_clean_kernel_buffer_list env idx (length (smmu_buf_kernel_list (cb_info s1 idx))) 0 s1;
                b = cb_info s2 idx;
                free = (\<lambda>b. b\<lparr>cb_count := 0, cb_handle := HANDLE_INIT\<rparr>)
            in if is_secure b then
                 (if secure_count b = 0 then (- EPERM, s2)
                  else (0, upd_cb idx (\<lambda>b. let b1 = b\<lparr>secure_count := secure_count b - 1\<rparr> in
                         if secure_count b1 = 0 then free b1 else b1) s2))
               else if is_mul_client b \<and> device_count b \<noteq> 0 then
                 (0, upd_cb idx (\<lambda>b. let b1 = b\<lparr>device_count := device_count b - 1\<rparr> in
                         if device_count b1 = 0 then free b1 else b1) s2)
               else (0, upd_cb idx (\<lambda>b. (free b)\<lparr>device_count := 0\<rparr>) s2))"

end
