(* ===== verification/Cam_Smmu_Dt.thy ===== *)
theory Cam_Smmu_Dt
  imports Cam_Smmu_Map
begin

text \<open>
  Setting the context banks up from the device tree, \<open>cam_smmu/cam_smmu_api.c\<close>: reading the regions
  of a bank, creating its pools, probing and removing the device. The nodes of the device tree are
  arguments: a property that is absent or cannot be read is \<open>None\<close>.
\<close>

section \<open>Nodes\<close>

record dt_region =
  rg_name :: "string option"
  rg_start :: "u32 option"
  rg_len :: "u32 option"
  rg_id :: "u32 option"
  rg_qdss_phy_addr :: "u32 option"
  rg_discard :: "u32 list option"

record dt_bank =
  dt_labels :: "string list option"
  dt_multiple_client :: bool
  dt_secure_cb :: bool
  dt_mem_map :: "dt_region list option"
  dt_discard :: "u32 list option"

section \<open>Regions\<close>

text \<open>The property \<open>iova-region-discard\<close>, as the code and the two values.\<close>

definition cam_smmu_get_discard_memory_regions :: "u32 list option \<Rightarrow> rc \<times> u64 \<times> u64" where
  "cam_smmu_get_discard_memory_regions prop =
     (case prop of
        None \<Rightarrow> (0, 0, 0)
      | Some [] \<Rightarrow> (0, 0, 0)
      | Some [a, l] \<Rightarrow> if a = 0 \<or> l = 0 then (- EINVAL, 0, 0) else (0, ucast a, ucast l)
      | Some _ \<Rightarrow> (- EINVAL, 0, 0))"

definition set_region :: "u32 \<Rightarrow> u32 \<Rightarrow> cam_smmu_region_info \<Rightarrow> cam_smmu_region_info" where
  "set_region st ln i = i\<lparr>iova_start := ucast st, iova_len := ucast ln\<rparr>"

text \<open>One child of \<open>iova-mem-map\<close>. An identifier that is not known is only reported.\<close>

definition add_region :: "dt_region \<Rightarrow> cam_context_bank_info \<Rightarrow> rc \<times> cam_context_bank_info" where
  "add_region g cb =
     (case (rg_name g, rg_start g, rg_len g, rg_id g) of
        (Some nm, Some st, Some ln, Some k) \<Rightarrow>
          if nm = ''qdss'' \<and> rg_qdss_phy_addr g = None then (- EINVAL, cb)
          else let phy = (if nm = ''qdss'' then case rg_qdss_phy_addr g of Some a \<Rightarrow> a | None \<Rightarrow> 0 else 0) in
            if k = 0 then (0, cb\<lparr>firmware_support := True, firmware_info := set_region st ln (firmware_info cb)\<rparr>)
            else if k = 1 then (0, cb\<lparr>shared_support := True, shared_info := set_region st ln (shared_info cb)\<rparr>)
            else if k = 2 then (0, cb\<lparr>scratch_buf_support := True, scratch_info := set_region st ln (scratch_info cb)\<rparr>)
            else if k = 3 then
              (let (rc, a, l) = cam_smmu_get_discard_memory_regions (rg_discard g);
                   cb1 = cb\<lparr>io_support := True, io_info := (set_region st ln (io_info cb))\<lparr>discard_iova_start := a,
                     discard_iova_len := l\<rparr>\<rparr>
               in (if rc \<noteq> 0 then - EINVAL else 0, cb1))
            else if k = 4 then (0, cb\<lparr>secheap_support := True, secheap_info := set_region st ln (secheap_info cb)\<rparr>)
            else if k = 5 then (0, cb\<lparr>qdss_support := True, qdss_info := set_region st ln (qdss_info cb), qdss_phy_addr := ucast phy\<rparr>)
            else (0, cb)
      | _ \<Rightarrow> (- EINVAL, cb))"

fun add_regions :: "dt_region list \<Rightarrow> cam_context_bank_info \<Rightarrow> rc \<times> cam_context_bank_info" where
  "add_regions [] cb = (0, cb)"
| "add_regions (g # gs) cb = (let (rc, cb1) = add_region g cb in if rc < 0 then (rc, cb1) else add_regions gs cb1)"

text \<open>The discard region of the bank is that of its IO region, and lies inside it.\<close>

definition discard_ok :: "cam_context_bank_info \<Rightarrow> bool" where
  "discard_ok cb \<longleftrightarrow>
     (let a = cb_discard_iova_start cb; l = cb_discard_iova_len cb; i = io_info cb in
      a = discard_iova_start i \<and> l = discard_iova_len i
      \<and> (a \<noteq> 0 \<and> l \<noteq> 0 \<longrightarrow> \<not> (a \<le> iova_start i \<or> iova_start i + iova_len i \<le> a \<or> iova_start i + iova_len i \<le> a + l)))"

definition cam_smmu_get_memory_regions_info :: "dt_bank \<Rightarrow> cam_context_bank_info \<Rightarrow> rc \<times> cam_context_bank_info" where
  "cam_smmu_get_memory_regions_info nd cb =
     (let cb1 = cb\<lparr>is_secure := dt_secure_cb nd\<rparr> in
      case dt_mem_map nd of
        None \<Rightarrow> (if dt_secure_cb nd then 0 else - EINVAL, cb1)
      | Some gs \<Rightarrow>
          let (rc, cb2) = add_regions gs cb1 in
          if rc < 0 then (- EINVAL, cb2)
          else
            let (rc2, cb3) =
              (if io_support cb2
               then let (rc, a, l) = cam_smmu_get_discard_memory_regions (dt_discard nd);
                        cb3 = cb2\<lparr>cb_discard_iova_start := a, cb_discard_iova_len := l\<rparr>
                    in (if rc \<noteq> 0 \<or> \<not> discard_ok cb3 then - EINVAL else 0, cb3)
               else (0, cb2))
            in if rc2 \<noteq> 0 then (rc2, cb3) else (if gs = [] then - ENODEV else 0, cb3))"

section \<open>Pools and domain of a bank\<close>

definition free_pools :: "smmu_env \<Rightarrow> nat \<Rightarrow> cam_iommu_cb_set \<Rightarrow> cam_iommu_cb_set" where
  "free_pools env i s =
     (let b = cb_info s i;
          s1 = (if shared_support b
                then upd_cb i (\<lambda>b. b\<lparr>shared_mem_pool := 0\<rparr>) (sx' env (Gen_pool_destroy (shared_mem_pool b)) s) else s)
      in if scratch_buf_support b
         then upd_cb i (\<lambda>b. b\<lparr>scratch_map := (scratch_map b)\<lparr>sc_bitmap := None\<rparr>\<rparr>) s1 else s1)"

definition cam_smmu_deinit_cb :: "smmu_env \<Rightarrow> nat \<Rightarrow> cam_iommu_cb_set \<Rightarrow> cam_iommu_cb_set" where
  "cam_smmu_deinit_cb env i s =
     free_pools env i (if io_support (cb_info s i) then upd_cb i (\<lambda>b. b\<lparr>cb_domain := 0\<rparr>) s else s)"

definition cam_smmu_release_cb :: "smmu_env \<Rightarrow> cam_iommu_cb_set \<Rightarrow> cam_iommu_cb_set" where
  "cam_smmu_release_cb env s = (fold (cam_smmu_deinit_cb env) [0..<cb_num s] s)\<lparr>cb_num := 0\<rparr>"

text \<open>The pool of the shared region, when the bank has one. \<open>True\<close>: go on.\<close>

definition setup_pool :: "smmu_env \<Rightarrow> nat \<Rightarrow> cam_iommu_cb_set \<Rightarrow> (rc \<times> bool) \<times> cam_iommu_cb_set" where
  "setup_pool env i s =
     (let b = cb_info s i in
      if \<not> shared_support b then ((0, True), s)
      else let (r, s1) = sx env (Gen_pool_create 16) s; pool = er_val r; s2 = upd_cb i (\<lambda>b. b\<lparr>shared_mem_pool := pool\<rparr>) s1 in
        if pool = 0 then ((- ENOMEM, False), s2)
        else let (r2, s3) = sx env (Gen_pool_add pool (iova_start (shared_info b)) (iova_len (shared_info b))) s2 in
          if er_rc r2 \<noteq> 0
          then ((er_rc r2, False), upd_cb i (\<lambda>b. b\<lparr>shared_mem_pool := 0\<rparr>) (sx' env (Gen_pool_destroy pool) s3))
          else ((0, True), s3))"

definition cam_smmu_setup_cb :: "smmu_env \<Rightarrow> nat \<Rightarrow> ptr \<Rightarrow> cam_iommu_cb_set \<Rightarrow> rc \<times> cam_iommu_cb_set" where
  "cam_smmu_setup_cb env i dev s =
     (if dev = 0 then (- EINVAL, s)
      else
        let s1 = upd_cb i (\<lambda>b. b\<lparr>cb_dev := dev, is_fw_allocated := False, is_secheap_allocated := False, monitor_head := - 1\<rparr>) s;
            ((rc, go), s2) = setup_pool env i s1; b = cb_info s2 i
        in if \<not> go then (rc, s2)
           else
             let (rc2, s3) =
               (if scratch_buf_support b
                then let (r, s3) = sx env (Kzalloc 1) s2;
                         (rc, m) = cam_smmu_init_scratch_map (er_val r \<noteq> 0) (iova_start (scratch_info b)) (iova_len (scratch_info b)) 0
                                     (scratch_map b)
                     in (rc, upd_cb i (\<lambda>b. b\<lparr>scratch_map := m\<rparr>) s3)
                else (rc, s2))
             in if rc2 < 0 then (- ENODEV, free_pools env i s3)
                else if \<not> io_support b then (- ENODEV, free_pools env i s3)
                else
                  let (r, s4) = sx env (Iommu_get_domain dev) s3; dom = er_val r;
                      s5 = upd_cb i (\<lambda>b. b\<lparr>cb_domain := dom\<rparr>) s4
                  in if dom \<noteq> 0 \<and> is_err_or_null dom then (- ENODEV, free_pools env i s5)
                     else
                       let s6 = sx' env (Iommu_enable_best_fit dev) s5;
                           s7 = (if cb_discard_iova_start b \<noteq> 0
                                 then sx' env (Iommu_reserve_iova dev (cb_discard_iova_start b) (cb_discard_iova_len b)) s6 else s6)
                       in (rc2, upd_cb i (\<lambda>b. b\<lparr>cb_state := CAM_SMMU_ATTACH\<rparr>) s7))"

section \<open>Probing\<close>

text \<open>The zeroed memory of a bank. The value \<open>0\<close> of the state is \<open>CAM_SMMU_ATTACH\<close>.\<close>

definition zero_info :: cam_smmu_region_info where
  "zero_info = \<lparr>iova_start = 0, iova_len = 0, discard_iova_start = 0, discard_iova_len = 0\<rparr>"

definition zero_monitor :: cam_smmu_monitor where
  "zero_monitor = \<lparr>mon_is_map = False, mon_ion_fd = 0, mon_paddr = 0, mon_len = 0, mon_region_id = CAM_SMMU_REGION_FIRMWARE\<rparr>"

definition zero_cb :: cam_context_bank_info where
  "zero_cb = \<lparr>cb_dev = 0, cb_domain = 0, cb_name = [], is_secure = False, scratch_buf_support = False,
     firmware_support = False, shared_support = False, io_support = False, secheap_support = False, qdss_support = False,
     qdss_phy_addr = 0, is_fw_allocated = False, is_secheap_allocated = False, is_qdss_allocated = False,
     scratch_map = \<lparr>sc_bitmap = None, sc_bits = 0, sc_order = 0, sc_base = 0\<rparr>, shared_mem_pool = 0,
     scratch_info = zero_info, firmware_info = zero_info, shared_info = zero_info, io_info = zero_info,
     secheap_info = zero_info, qdss_info = zero_info, secheap_buf = \<lparr>sh_buf = 0, sh_attach = 0, sh_table = 0\<rparr>,
     smmu_buf_list = [], smmu_buf_kernel_list = [], cb_handle = 0, cb_state = CAM_SMMU_ATTACH,
     cb_handler = replicate CAM_SMMU_CB_MAX 0, cb_token = replicate CAM_SMMU_CB_MAX 0, cb_count = 0, secure_count = 0,
     pf_count = 0, io_mapping_size = 0, shared_mapping_size = 0, is_mul_client = False, device_count = 0,
     cb_discard_iova_start = 0, cb_discard_iova_len = 0, monitor_head = 0, monitor_entries = (\<lambda>_. zero_monitor)\<rparr>"

text \<open>
  \<open>n\<close> is the number of children that are context banks and \<open>kz\<close> says whether their array could be
  allocated.
\<close>

definition cam_alloc_smmu_context_banks :: "bool \<Rightarrow> nat \<Rightarrow> cam_iommu_cb_set \<Rightarrow> rc \<times> cam_iommu_cb_set" where
  "cam_alloc_smmu_context_banks kz n s =
     (if n = 0 then (- ENOENT, s\<lparr>cb_num := 0\<rparr>)
      else if \<not> kz then (- ENOMEM, s\<lparr>cb_num := n\<rparr>)
      else (0, (cam_smmu_reset_iommu_table (s\<lparr>cb_num := n, cb_info := (\<lambda>_. zero_cb)\<rparr>))\<lparr>cb_init_count := 0\<rparr>))"

datatype cam_iommu_type = CAM_SMMU_INVALID | CAM_QSMMU | CAM_ARM_SMMU | CAM_SMMU_MAX

definition label_count :: "dt_bank \<Rightarrow> nat" where
  "label_count nd = (case dt_labels nd of None \<Rightarrow> 0 | Some ls \<Rightarrow> length ls)"

text \<open>The segment limits of the device are set if their memory is there; they are not represented.\<close>

definition cam_populate_smmu_context_banks ::
    "smmu_env \<Rightarrow> ptr \<Rightarrow> dt_bank \<Rightarrow> cam_iommu_type \<Rightarrow> cam_iommu_cb_set \<Rightarrow> rc \<times> cam_iommu_cb_set" where
  "cam_populate_smmu_context_banks env dev nd ty s =
     (let i = cb_init_count s in
      if dev = 0 then (- ENODEV, s)
      else if cb_num s \<le> i then (- EBADHANDLE, s)
      else
        let s1 = upd_cb i (\<lambda>b. b\<lparr>is_mul_client := dt_multiple_client nd\<rparr>) s in
        if CAM_SMMU_SHARED_HDL_MAX < label_count nd then (- EINVAL, s1)
        else
          let s2 = upd_cb i (\<lambda>b. b\<lparr>cb_name := (case dt_labels nd of None \<Rightarrow> [] | Some ls \<Rightarrow> ls)\<rparr>) s1;
              (rc, cb) = cam_smmu_get_memory_regions_info nd (cb_info s2 i);
              s3 = upd_cb i (\<lambda>_. cb) s2
          in if rc < 0 then (rc, s3)
             else if is_secure cb then (0, (upd_cb i (\<lambda>b. b\<lparr>cb_dev := dev\<rparr>) s3)\<lparr>cb_init_count := Suc i\<rparr>)
             else if ty = CAM_QSMMU then (- ENODEV, s3)
             else let (rc2, s4) = cam_smmu_setup_cb env i dev s3 in
               if rc2 < 0 then (rc2, s4)
               else
                 let b = cb_info s4 i;
                     s5 = (if io_support b \<and> cb_domain b \<noteq> 0
                           then sx' env (Iommu_set_fault_handler (cb_domain b) (case cb_name b of [] \<Rightarrow> [] | nm # _ \<Rightarrow> nm)) s4
                           else s4)
                 in (rc2, s5\<lparr>cb_init_count := Suc i\<rparr>))"

text \<open>
  The nodes the driver binds to: the parent with its children, a bank, a bank of the older kind, the
  firmware device. The children of the parent are probed within \<open>of_platform_populate\<close>, whose code is
  \<open>prc\<close>; the failure of a child does not reach the parent.
\<close>

datatype dt_child = Cb_node ptr dt_bank | Qsmmu_node ptr dt_bank | Fw_dev_node ptr

fun cam_smmu_probe_child :: "smmu_env \<Rightarrow> dt_child \<Rightarrow> cam_iommu_cb_set \<Rightarrow> rc \<times> cam_iommu_cb_set" where
  "cam_smmu_probe_child env (Cb_node dev nd) s =
     (let (rc, s1) = cam_populate_smmu_context_banks env dev nd CAM_ARM_SMMU s in
      if rc < 0 then (- ENOMEM, cam_smmu_release_cb env s1) else (rc, s1))"
| "cam_smmu_probe_child env (Qsmmu_node dev nd) s =
     (let (rc, s1) = cam_populate_smmu_context_banks env dev nd CAM_QSMMU s in
      if rc < 0 then (- ENOMEM, s1) else (rc, s1))"
| "cam_smmu_probe_child env (Fw_dev_node dev) s = (0, s\<lparr>icp_fw := \<lparr>fw_dev = dev, fw_kva = 0, fw_dma_hdl = 0\<rparr>\<rparr>)"

fun is_bank_node :: "dt_child \<Rightarrow> bool" where
  "is_bank_node (Fw_dev_node _) = False"
| "is_bank_node _ = True"

definition cam_smmu_probe ::
    "smmu_env \<Rightarrow> bool \<Rightarrow> dt_child list \<Rightarrow> rc \<Rightarrow> cam_iommu_cb_set \<Rightarrow> rc \<times> cam_iommu_cb_set" where
  "cam_smmu_probe env kz children prc s =
     (let (rc, s1) = cam_alloc_smmu_context_banks kz (length (filter is_bank_node children)) s in
      if rc < 0 then (- ENOMEM, s1)
      else let s2 = fold (\<lambda>c s. snd (cam_smmu_probe_child env c s)) children s1 in
        (prc, if prc < 0 then s2 else s2\<lparr>payload_list := []\<rparr>))"

text \<open>\<open>parent\<close>: the node is the one with the banks below it.\<close>

definition cam_smmu_remove :: "smmu_env \<Rightarrow> bool \<Rightarrow> cam_iommu_cb_set \<Rightarrow> cam_iommu_cb_set" where
  "cam_smmu_remove env parent s =
     (let s1 = cam_smmu_reset_iommu_table s in if parent then cam_smmu_release_cb env s1 else s1)"

end
