(* ===== verification/Cam_Smmu_Inv.thy ===== *)
theory Cam_Smmu_Inv
  imports Cam_Smmu_Dt
begin

text \<open>
  The invariant of the context banks: a handle names its bank, the list of a bank holds entries of
  one type, no buffer is on a list twice, and the scratch buffers of a bank take disjoint pages
  that are marked in its bitmap, each with a guard page behind it.
\<close>

section \<open>Reading and writing banks\<close>

lemma upd_cb_simps [simp]:
  "cb_info (upd_cb i f s) = (cb_info s)(i := f (cb_info s i))"
  "cb_num (upd_cb i f s) = cb_num s" "cb_init_count (upd_cb i f s) = cb_init_count s"
  "payload_list (upd_cb i f s) = payload_list s" "icp_fw (upd_cb i f s) = icp_fw s"
  "smmu_trace (upd_cb i f s) = smmu_trace s" "undef (upd_cb i f s) = undef s"
  by (simp_all add: upd_cb_def)

lemma sx'_simps [simp]:
  "cb_info (sx' env c s) = cb_info s" "cb_num (sx' env c s) = cb_num s" "cb_init_count (sx' env c s) = cb_init_count s"
  "payload_list (sx' env c s) = payload_list s" "icp_fw (sx' env c s) = icp_fw s" "undef (sx' env c s) = undef s"
  "smmu_trace (sx' env c s) = smmu_trace s @ [c]"
  by (simp_all add: sx'_def sx_def)

lemma err_simps [simp]:
  "cb_info (err_put env b s) = cb_info s" "cb_num (err_put env b s) = cb_num s"
  "cb_info (err_detach env b a s) = cb_info s" "cb_num (err_detach env b a s) = cb_num s"
  "cb_info (err_unmap_sg env b a t d s) = cb_info s" "cb_num (err_unmap_sg env b a t d s) = cb_num s"
  by (simp_all add: err_put_def err_detach_def err_unmap_sg_def)

text \<open>The part of a bank the invariant speaks about.\<close>

definition bank_core :: "cam_context_bank_info \<Rightarrow> int \<times> bool \<times> smmu_buf list \<times> cam_dma_buff_info list \<times> scratch_mapping" where
  "bank_core b = (cb_handle b, is_secure b, smmu_buf_list b, smmu_buf_kernel_list b, scratch_map b)"

definition same_core :: "cam_iommu_cb_set \<Rightarrow> cam_iommu_cb_set \<Rightarrow> bool" where
  "same_core s t \<longleftrightarrow> cb_num t = cb_num s \<and> (\<forall>i. bank_core (cb_info t i) = bank_core (cb_info s i))"

lemma same_core_refl [simp]: "same_core s s"
  by (simp add: same_core_def)

lemma same_core_trans: "same_core s t \<Longrightarrow> same_core t u \<Longrightarrow> same_core s u"
  by (simp add: same_core_def)

lemma same_core_upd: "(\<And>b. bank_core (f b) = bank_core b) \<Longrightarrow> same_core s t \<Longrightarrow> same_core s (upd_cb i f t)"
  by (simp add: same_core_def)

lemma same_core_info: "cb_info t = cb_info s \<Longrightarrow> cb_num t = cb_num s \<Longrightarrow> same_core s t"
  by (simp add: same_core_def)

section \<open>The invariant\<close>

text \<open>Pages of a scratch buffer, with its guard, as bits of the bitmap.\<close>

definition scratch_area :: "scratch_mapping \<Rightarrow> cam_dma_buff_info \<Rightarrow> nat set" where
  "scratch_area m e = {unat (mp_paddr e - sc_base m) div 4096 .. unat (mp_paddr e - sc_base m) div 4096 + unat (mp_len e) div 4096}"

definition scratch_ok :: "scratch_mapping \<Rightarrow> cam_dma_buff_info list \<Rightarrow> bool" where
  "scratch_ok m es \<longleftrightarrow>
     (es = [] \<or> sc_bitmap m \<noteq> None)
     \<and> (sc_bitmap m \<noteq> None \<longrightarrow> sc_order m = 0 \<and> unat (sc_bits m) \<le> 2 ^ 20 \<and> unat (sc_base m) < 2 ^ 32)
     \<and> (\<forall>e\<in>set es. 4096 dvd unat (mp_paddr e - sc_base m) \<and> 4096 dvd unat (mp_len e) \<and> mp_len e \<noteq> 0
          \<and> (\<forall>k\<in>scratch_area m e. k < unat (sc_bits m) \<and> the (sc_bitmap m) k))
     \<and> sorted_wrt (\<lambda>a b. scratch_area m a \<inter> scratch_area m b = {}) es"

definition is_scratch :: "cam_dma_buff_info \<Rightarrow> bool" where
  "is_scratch m \<longleftrightarrow> mp_region_id m = CAM_SMMU_REGION_SCRATCH"

text \<open>A mapping of a buffer, of user space or of the kernel.\<close>

definition mapped :: "cam_dma_buff_info \<Rightarrow> bool" where
  "mapped m \<longleftrightarrow> mp_buf m \<noteq> 0 \<and> mp_attach m \<noteq> 0 \<and> mp_table m \<noteq> 0 \<and> mp_paddr m \<noteq> 0 \<and> mp_len m \<noteq> 0
     \<and> mp_ref_count m = 1 \<and> mp_region_id m \<in> {CAM_SMMU_REGION_SHARED, CAM_SMMU_REGION_IO}"

definition user_ok :: "cam_dma_buff_info list \<Rightarrow> bool" where
  "user_ok ms \<longleftrightarrow> distinct (map mp_ion_fd (filter (\<lambda>m. \<not> is_scratch m) ms))
     \<and> (\<forall>m\<in>set ms. (is_scratch m \<longleftrightarrow> mp_ion_fd m = SCRATCH_FD) \<and> (is_scratch m \<longrightarrow> mp_table m \<noteq> 0)
          \<and> (\<not> is_scratch m \<longrightarrow> mapped m \<and> 0 \<le> mp_ion_fd m))"

definition kernel_ok :: "cam_dma_buff_info list \<Rightarrow> bool" where
  "kernel_ok ms \<longleftrightarrow> distinct (map mp_buf ms) \<and> (\<forall>m\<in>set ms. mapped m)"

definition sec_ok :: "cam_sec_buff_info list \<Rightarrow> bool" where
  "sec_ok ms \<longleftrightarrow> distinct (map sb_ion_fd ms) \<and> (\<forall>m\<in>set ms. 1 \<le> sb_ref_count m)"

definition lists_wf :: "bool \<Rightarrow> smmu_buf list \<Rightarrow> scratch_mapping \<Rightarrow> bool" where
  "lists_wf sec bs m \<longleftrightarrow>
     (if sec then sc_bitmap m = None \<and> (\<exists>es. bs = map Sec_entry es \<and> sec_ok es)
      else (\<exists>es. bs = map Dma_entry es \<and> user_ok es \<and> scratch_ok m (filter is_scratch es)))"

definition bank_wf :: "nat \<Rightarrow> cam_context_bank_info \<Rightarrow> bool" where
  "bank_wf i b \<longleftrightarrow> (cb_handle b \<noteq> HANDLE_INIT \<longrightarrow> GET_SMMU_TABLE_IDX (cb_handle b) = i)
     \<and> lists_wf (is_secure b) (smmu_buf_list b) (scratch_map b) \<and> kernel_ok (smmu_buf_kernel_list b)"

definition smmu_wf :: "cam_iommu_cb_set \<Rightarrow> bool" where
  "smmu_wf s \<longleftrightarrow> cb_num s \<le> 65535 \<and> (\<forall>i<cb_num s. bank_wf i (cb_info s i))"

lemma bank_wf_core: "bank_core b = bank_core b' \<Longrightarrow> bank_wf i b = bank_wf i b'"
  by (simp add: bank_wf_def bank_core_def)

lemma smmu_wf_core: "same_core s t \<Longrightarrow> smmu_wf s \<Longrightarrow> smmu_wf t"
  unfolding smmu_wf_def same_core_def by (metis bank_wf_core)

lemma smmu_wf_upd: "smmu_wf s \<Longrightarrow> (i < cb_num s \<Longrightarrow> bank_wf i (cb_info s i) \<Longrightarrow> bank_wf i (f (cb_info s i))) \<Longrightarrow> smmu_wf (upd_cb i f s)"
  by (simp add: smmu_wf_def)

lemma smmu_wfD: "smmu_wf s \<Longrightarrow> i < cb_num s \<Longrightarrow> bank_wf i (cb_info s i)"
  by (simp add: smmu_wf_def)

section \<open>Handles\<close>

lemma hdl_idx: "i < 65536 \<Longrightarrow> GET_SMMU_TABLE_IDX (GET_SMMU_HDL i r) = i"
proof -
  assume i: "i < 65536"
  have "signed_drop_bit 16 (push_bit 16 (of_nat i) OR (ucast r AND 0xFFFF) :: 32 word) AND 0xFFFF = (of_nat i :: 32 word)"
  proof (rule bit_word_eqI)
    fix n assume n: "n < LENGTH(32)"
    have m: "(0xFFFF :: 32 word) = mask 16" by (simp add: mask_eq_exp_minus_1)
    have big: "\<not> bit i n" if "16 \<le> n"
      using that i power_increasing [of 16 n "2 :: nat"] by (auto simp: bit_iff_odd)
    show "bit (signed_drop_bit 16 (push_bit 16 (of_nat i) OR (ucast r AND 0xFFFF) :: 32 word) AND 0xFFFF) n
        = bit (of_nat i :: 32 word) n"
      using n big unfolding m by (cases "n < 16") (auto simp: bit_simps)
  qed
  then show ?thesis using i unfolding GET_SMMU_TABLE_IDX_def GET_SMMU_HDL_def by (simp add: unat_of_nat)
qed

text \<open>The first cookie is always accepted, so the loop that draws cookies ends at once.\<close>

lemma hdl_not_init: "i < 65535 \<Longrightarrow> GET_SMMU_HDL i r \<noteq> HANDLE_INIT"
proof
  assume i: "i < 65535" and h: "GET_SMMU_HDL i r = HANDLE_INIT"
  have "GET_SMMU_TABLE_IDX HANDLE_INIT = 65535" by (simp add: GET_SMMU_TABLE_IDX_def)
  then show False using hdl_idx [of i r] i h by simp
qed

lemma new_handle_first:
  assumes "smmu_wf s" "i < cb_num s" "cb_handle (cb_info s i) = HANDLE_INIT"
  shows "new_handle s i rand k = Some (GET_SMMU_HDL i (rand k))"
proof -
  have i: "i < 65535" using assms(1,2) by (simp add: smmu_wf_def)
  then have "cb_handle (cb_info s j) \<noteq> GET_SMMU_HDL i (rand k)" if "j < cb_num s" "cb_handle (cb_info s j) \<noteq> HANDLE_INIT" for j
    using smmu_wfD [OF assms(1) that(1)] that(2) assms(3) hdl_idx [of i "rand k"] by (auto simp: bank_wf_def)
  then have "\<not> cam_smmu_check_handle_unique (GET_SMMU_HDL i (rand k)) s"
    using hdl_not_init [OF i, of "rand k"] unfolding cam_smmu_check_handle_unique_def by fastforce
  then show ?thesis by (subst new_handle.simps) (simp add: Let_def cam_smmu_create_iommu_handle_def)
qed

section \<open>Positions in lists\<close>

lemma find_dma_map [simp]: "find_dma P (map Dma_entry ms) = Some (find_pos P ms)"
  by (induction ms) simp_all

lemma find_sec_map [simp]: "find_sec P (map Sec_entry ms) = Some (find_pos P ms)"
  by (induction ms) simp_all

lemma find_pos_None: "find_pos P xs = None \<longleftrightarrow> (\<forall>x\<in>set xs. \<not> P x)"
  by (induction xs) auto

lemma find_pos_Some: "find_pos P xs = Some p \<Longrightarrow> p < length xs \<and> P (xs ! p)"
  by (induction xs arbitrary: p) (auto split: if_splits)

lemma del_at_split: "p < length xs \<Longrightarrow> \<exists>as bs. xs = as @ xs ! p # bs \<and> del_at p xs = as @ bs"
  unfolding del_at_def using id_take_nth_drop by blast

lemma del_at_map: "del_at p (map f xs) = map f (del_at p xs)"
  by (simp add: del_at_def take_map drop_map)

lemma del_at_rule: "p < length xs \<Longrightarrow> (\<And>as x bs. xs = as @ x # bs \<Longrightarrow> Q (as @ bs)) \<Longrightarrow> Q (del_at p xs)"
  using del_at_split [of p xs] by metis

lemma SCRATCH_FD_neg: "SCRATCH_FD < 0"
  by (simp add: SCRATCH_FD_def)

section \<open>Adding and removing mappings\<close>

lemma user_ok_del: "user_ok (as @ x # bs) \<Longrightarrow> user_ok (as @ bs)"
  by (simp add: user_ok_def split: if_splits)

lemma scratch_ok_del: "scratch_ok m (as @ x # bs) \<Longrightarrow> scratch_ok m (as @ bs)"
  by (auto simp: scratch_ok_def sorted_wrt_append)

lemma kernel_ok_del: "kernel_ok (as @ x # bs) \<Longrightarrow> kernel_ok (as @ bs)"
  by (simp add: kernel_ok_def)

lemma sec_ok_del: "sec_ok (as @ x # bs) \<Longrightarrow> sec_ok (as @ bs)"
  by (simp add: sec_ok_def)

lemma lists_wf_del:
  assumes "lists_wf sec bs m" "p < length bs"
  shows "lists_wf sec (del_at p bs) m"
proof (cases sec)
  case True
  with assms obtain es where es: "bs = map Sec_entry es" "sec_ok es" "sc_bitmap m = None" by (auto simp: lists_wf_def)
  have "sec_ok (del_at p es)"
    by (rule del_at_rule) (use assms(2) es sec_ok_del in auto)
  then show ?thesis using True es by (auto simp: lists_wf_def del_at_map)
next
  case False
  with assms obtain es where es: "bs = map Dma_entry es" "user_ok es" "scratch_ok m (filter is_scratch es)"
    by (auto simp: lists_wf_def)
  have "user_ok (del_at p es) \<and> scratch_ok m (filter is_scratch (del_at p es))"
    by (rule del_at_rule) (use assms(2) es user_ok_del scratch_ok_del in \<open>auto split: if_splits\<close>)
  then show ?thesis using False es by (auto simp: lists_wf_def del_at_map)
qed

lemma lists_wf_add:
  assumes "lists_wf False bs m" "mapped e" "0 \<le> mp_ion_fd e" "find_dma (\<lambda>m. mp_ion_fd m = mp_ion_fd e) bs = Some None"
  shows "lists_wf False (Dma_entry e # bs) m"
proof -
  from assms(1) obtain es where es: "bs = map Dma_entry es" "user_ok es" "scratch_ok m (filter is_scratch es)"
    by (auto simp: lists_wf_def)
  have n: "\<not> is_scratch e" using assms(2) by (auto simp: mapped_def is_scratch_def)
  with SCRATCH_FD_neg have "user_ok (e # es)" using assms(2-4) es by (auto simp: user_ok_def find_pos_None)
  then show ?thesis using es n unfolding lists_wf_def by (auto intro!: exI [of _ "e # es"])
qed

lemma lists_wf_add_sec:
  assumes "lists_wf True bs m" "sb_ref_count e = 1" "find_sec (\<lambda>m. sb_ion_fd m = sb_ion_fd e) bs = Some None"
  shows "lists_wf True (Sec_entry e # bs) m"
proof -
  from assms(1) obtain es where es: "bs = map Sec_entry es" "sec_ok es" "sc_bitmap m = None" by (auto simp: lists_wf_def)
  then have "sec_ok (e # es)" using assms(2,3) by (auto simp: sec_ok_def find_pos_None)
  then show ?thesis using es unfolding lists_wf_def by (auto intro!: exI [of _ "e # es"])
qed

lemma bank_wf_del_user: "bank_wf i b \<Longrightarrow> p < length (smmu_buf_list b) \<Longrightarrow> bank_wf i (b\<lparr>smmu_buf_list := del_at p (smmu_buf_list b)\<rparr>)"
  by (simp add: bank_wf_def lists_wf_del)

lemma bank_wf_del_kernel:
  assumes "bank_wf i b" "p < length (smmu_buf_kernel_list b)"
  shows "bank_wf i (b\<lparr>smmu_buf_kernel_list := del_at p (smmu_buf_kernel_list b)\<rparr>)"
proof -
  have "kernel_ok (del_at p (smmu_buf_kernel_list b))"
    by (rule del_at_rule [OF assms(2)]) (use assms(1) kernel_ok_del in \<open>auto simp: bank_wf_def\<close>)
  then show ?thesis using assms(1) by (simp add: bank_wf_def)
qed

section \<open>What mapping and unmapping do to the banks\<close>

lemma free_iova_core [simp]:
  "cb_info (snd (cam_smmu_free_iova env a z h s)) = cb_info s" "cb_num (snd (cam_smmu_free_iova env a z h s)) = cb_num s"
  by (simp_all add: cam_smmu_free_iova_def Let_def split: option.splits)

lemma alloc_iova_core [simp]:
  "cb_info (snd (cam_smmu_alloc_iova env z h s)) = cb_info s" "cb_num (snd (cam_smmu_alloc_iova env z h s)) = cb_num s"
  by (simp_all add: cam_smmu_alloc_iova_def Let_def sx_def split: option.splits)

lemma err_alloc_core [simp]:
  "cb_info (err_alloc env i b a t d rg v z p l s) = cb_info s" "cb_num (err_alloc env i b a t d rg v z p l s) = cb_num s"
  by (simp_all add: err_alloc_def)

lemma map_finish_core [simp]:
  "cb_info (snd (map_finish env i b a t d rg v z p l s)) = cb_info s" "cb_num (snd (map_finish env i b a t d rg v z p l s)) = cb_num s"
  by (simp_all add: map_finish_def Let_def sx_def)

lemma map_finish_mapping:
  assumes "mr_mapping (fst (map_finish env i b a t d rg v z p l s)) = Some m"
    "b \<noteq> 0" "a \<noteq> 0" "t \<noteq> 0" "rg \<in> {CAM_SMMU_REGION_SHARED, CAM_SMMU_REGION_IO}"
  shows "mapped m \<and> mp_buf m = b \<and> mp_dir m = d \<and> mp_region_id m = rg \<and> mp_paddr m = p \<and> mp_len m = l
    \<and> mr_rc (fst (map_finish env i b a t d rg v z p l s)) = 0
    \<and> mr_paddr (fst (map_finish env i b a t d rg v z p l s)) = p \<and> mr_len (fst (map_finish env i b a t d rg v z p l s)) = l"
  using assms by (auto simp: map_finish_def Let_def sx_def mapped_def split: if_splits)

text \<open>Only the accounting of the bank changes.\<close>

lemma validate_core: "same_core s (snd (cam_smmu_map_buffer_validate env buf i d p l rg dis s))"
proof (cases rg)
  case CAM_SMMU_REGION_SHARED
  then show ?thesis
    unfolding cam_smmu_map_buffer_validate_def same_core_def bank_core_def
    by (simp add: Let_def split_beta sx_def)
next
  case CAM_SMMU_REGION_IO
  then show ?thesis
    unfolding cam_smmu_map_buffer_validate_def same_core_def bank_core_def
    by (simp add: Let_def split_beta sx_def)
qed (simp_all add: cam_smmu_map_buffer_validate_def same_core_def Let_def split_beta sx_def)

lemma err_null [simp]: "\<not> is_err_or_null p \<Longrightarrow> p \<noteq> 0"
  by (auto simp: is_err_or_null_def)

lemma validate_mapping:
  assumes "mr_mapping (fst (cam_smmu_map_buffer_validate env buf i d p l rg dis s)) = Some m"
  shows "mapped m \<and> mp_buf m = buf \<and> mp_dir m = d \<and> mp_region_id m = rg
    \<and> mr_rc (fst (cam_smmu_map_buffer_validate env buf i d p l rg dis s)) = 0
    \<and> mr_paddr (fst (cam_smmu_map_buffer_validate env buf i d p l rg dis s)) = mp_paddr m
    \<and> mr_len (fst (cam_smmu_map_buffer_validate env buf i d p l rg dis s)) = mp_len m"
proof (cases rg)
  case CAM_SMMU_REGION_SHARED
  with assms show ?thesis
    unfolding cam_smmu_map_buffer_validate_def
    by (simp add: Let_def split_beta sx_def map_finish_mapping split: if_splits)
next
  case CAM_SMMU_REGION_IO
  with assms show ?thesis
    unfolding cam_smmu_map_buffer_validate_def
    by (simp add: Let_def split_beta sx_def map_finish_mapping split: if_splits)
qed (use assms in \<open>simp_all add: cam_smmu_map_buffer_validate_def Let_def split_beta sx_def split: if_splits\<close>)

end
