(* ===== verification/Cam_Smmu_Scratch.thy ===== *)
theory Cam_Smmu_Scratch
  imports Cam_Smmu_Inv
begin

text \<open>
  The allocator of scratch addresses: what it hands out was free, is marked afterwards with the
  guard page, and is taken back without touching its neighbours.
\<close>

section \<open>The search for a free area\<close>

lemma align_up_bounds: "0 < a \<Longrightarrow> i \<le> align_up a i \<and> align_up a i < i + a"
proof -
  assume a: "0 < a"
  have m: "(i + a - 1) div a * a = (i + a - 1) - (i + a - 1) mod a" by (simp add: minus_mod_eq_div_mult)
  have "(i + a - 1) mod a < a" using a by simp
  then show ?thesis unfolding align_up_def m using a by linarith
qed

lemma find_next_zero_bit_ge: "min i sz \<le> find_next_zero_bit bm sz i"
proof (induction bm sz i rule: find_next_zero_bit.induct)
  case (1 bm sz i)
  then show ?case by (cases "i < sz \<and> bm i") (auto simp: find_next_zero_bit.simps [of bm sz i])
qed

text \<open>Either the area lies in the bitmap and is clear, or the result is beyond the size.\<close>

lemma find_area:
  "0 < nr \<Longrightarrow> 0 < align \<Longrightarrow>
     let r = bitmap_find_next_zero_area bm sz start nr align in
     (r + nr \<le> sz \<and> (\<forall>k. r \<le> k \<longrightarrow> k < r + nr \<longrightarrow> \<not> bm k) \<or> sz < r) \<and> r \<le> sz + align + nr"
proof (induction bm sz start nr align rule: bitmap_find_next_zero_area.induct)
  case (1 bm sz start nr align)
  define z where "z = find_next_zero_bit bm sz start"
  define index where "index = align_up align z"
  have z: "min start sz \<le> z" "z \<le> sz" unfolding z_def by (rule find_next_zero_bit_ge, rule find_next_zero_bit_le)
  have ix: "z \<le> index" "index < z + align" using align_up_bounds [OF 1(3)] by (simp_all add: index_def)
  show ?case
  proof (cases "sz < index + nr")
    case True
    then show ?thesis using ix z 1(2,3)
      by (subst bitmap_find_next_zero_area.simps) (simp add: Let_def z_def [symmetric] index_def [symmetric])
  next
    case False
    define i where "i = find_next_bit bm (index + nr) index"
    have st: "start \<le> index" using z ix False 1(2) by linarith
    have i: "index \<le> i" using find_next_zero_bit_ge [of index "index + nr" "\<lambda>j. \<not> bm j"] by (simp add: i_def find_next_bit_def)
    show ?thesis
    proof (cases "i < index + nr")
      case True
      have eq: "bitmap_find_next_zero_area bm sz start nr align = bitmap_find_next_zero_area bm sz (i + 1) nr align"
        using False True st i 1(3)
        by (subst bitmap_find_next_zero_area.simps)
          (simp add: Let_def z_def [symmetric] index_def [symmetric] i_def [symmetric])
      have "let r = bitmap_find_next_zero_area bm sz (i + 1) nr align in
          (r + nr \<le> sz \<and> (\<forall>k. r \<le> k \<longrightarrow> k < r + nr \<longrightarrow> \<not> bm k) \<or> sz < r) \<and> r \<le> sz + align + nr"
        using 1(1) [OF refl refl _ refl] False True st i 1(2,3)
        by (simp add: z_def [symmetric] index_def [symmetric] i_def [symmetric])
      then show ?thesis unfolding eq .
    next
      case i_out: False
      have "\<not> bm k" if "index \<le> k" "k < index + nr" for k
        using find_next_zero_bit_least [of index k "\<lambda>j. \<not> bm j" "index + nr"] that i_out
        by (simp add: i_def find_next_bit_def)
      then show ?thesis using False i_out ix z 1(3)
        by (subst bitmap_find_next_zero_area.simps)
          (simp add: Let_def z_def [symmetric] index_def [symmetric] i_def [symmetric])
    qed
  qed
qed

section \<open>Orders and counts\<close>

lemma order_from_le: "unat n < 2 ^ j \<Longrightarrow> k \<le> j \<Longrightarrow> j \<le> 52 \<Longrightarrow> order_from n k \<le> j"
proof (induction n k rule: order_from.induct)
  case (1 n k)
  show ?case
  proof (cases "52 \<le> k \<or> unat n < 2 ^ k")
    case False
    then have "k \<noteq> j" using 1 by auto
    then show ?thesis using 1 False by (subst order_from.simps) auto
  qed (use 1 in \<open>subst order_from.simps, auto\<close>)
qed

text \<open>Lengths are whole pages, up to 4 GB.\<close>

definition pages_ok :: "u64 \<Rightarrow> bool" where
  "pages_ok l \<longleftrightarrow> l \<noteq> 0 \<and> 4096 dvd unat l \<and> unat l \<le> 2 ^ 32"

lemma pages:
  assumes "pages_ok l"
  shows "unat (drop_bit 12 l) = unat l div 4096" "unat l div 4096 \<le> 2 ^ 20" "0 < unat l div 4096"
proof -
  show "unat (drop_bit 12 l) = unat l div 4096" by (simp add: drop_bit_eq_div unat_div_distrib)
  have "0 < unat l" using assms by (simp add: pages_ok_def unat_gt_0)
  then show "0 < unat l div 4096" "unat l div 4096 \<le> 2 ^ 20" using assms by (auto simp: pages_ok_def dvd_def)
qed

lemma page_align: "pages_ok l \<Longrightarrow> PAGE_ALIGN l = l"
proof -
  assume l: "pages_ok l"
  then have "unat (l mod 4096) = 0" by (simp add: pages_ok_def unat_mod_distrib)
  then have "take_bit 12 l = 0" by (simp add: take_bit_eq_mod unat_eq_0)
  then have low: "l AND 4095 = 0" using take_bit_eq_mask [of 12 l] by (simp add: mask_eq_exp_minus_1)
  then have "l + 4095 = l OR 4095" using disjunctive_add_eq_or [of l 4095] by simp
  moreover have "(l OR 4095) AND NOT 4095 = l AND NOT 4095" by (simp add: bit.conj_disj_distrib2)
  moreover have "l = l AND (4095 OR NOT 4095)" by simp
  then have "l AND NOT 4095 = l" using low unfolding bit.conj_disj_distrib by simp
  ultimately show ?thesis by (simp add: PAGE_ALIGN_def)
qed

lemma count_unat:
  assumes "n \<le> 2 ^ 20" "unat p = n"
  shows "unat (scratch_count 0 p) = n + 1"
proof -
  have "unat (ucast p :: u32) = n" using assms by (simp add: unsigned_ucast_eq take_bit_nat_eq_self)
  then have "unat (ucast p + 1 :: u32) = n + 1" using assms by (simp add: unat_word_ariths)
  then show ?thesis by (simp add: scratch_count_def)
qed

lemma get_order_le: "pages_ok l \<Longrightarrow> get_order l \<le> 20"
proof -
  assume l: "pages_ok l"
  have "unat (drop_bit 12 (l - 1)) < 2 ^ 20"
    using l by (simp add: pages_ok_def drop_bit_eq_div unat_div_distrib unat_minus_one) linarith
  then show ?thesis unfolding get_order_def by (intro order_from_le) simp_all
qed

text \<open>A map without bits has no room, whatever its order: the bitmap is not read.\<close>

lemma count_bounds:
  assumes "unat p \<le> 2 ^ 20"
  shows "scratch_count k p \<noteq> 0"
proof -
  define x where "x = drop_bit k (p + push_bit k 1 - 1)"
  have "unat x \<le> 2 ^ 20"
  proof (cases "k < 64")
    case True
    then have b: "(2 :: nat) ^ k \<le> 2 ^ 63" by (intro power_increasing) simp_all
    have "(push_bit k 1 :: u64) = of_nat (2 ^ k)" by simp
    moreover have "(2 :: nat) ^ k mod 2 ^ 64 = 2 ^ k" using b by (intro mod_less) simp
    ultimately have k: "unat (push_bit k 1 :: u64) = 2 ^ k" by (simp only: unat_of_nat take_bit_eq_mod) simp
    have "unat (p + push_bit k 1 :: u64) = unat p + 2 ^ k" using assms b k by (simp add: unat_word_ariths)
    moreover from this have "p + push_bit k 1 \<noteq> 0" by (metis add_is_0 power_not_zero unat_0 zero_neq_numeral)
    ultimately have "unat (p + push_bit k 1 - 1 :: u64) = unat p + 2 ^ k - 1" using unat_minus_one [of "p + push_bit k 1"] by simp
    then have "unat x = (unat p + 2 ^ k - 1) div 2 ^ k" 
      unfolding x_def by (metis drop_bit_eq_div unat_drop_bit_eq)
    also have "\<dots> < unat p + 1"
    proof -
      have "unat p * 1 \<le> unat p * 2 ^ k" by (intro mult_le_mono2) simp
      moreover have "(0 :: nat) < 2 ^ k" by simp
      ultimately have "unat p + 2 ^ k - 1 < (unat p + 1) * 2 ^ k" unfolding add_mult_distrib by linarith
      then show ?thesis by (simp add: div_less_iff_less_mult)
    qed
    finally show ?thesis using assms by simp
  next
    case False
    then have "(2 :: nat) ^ 64 \<le> 2 ^ k" by (intro power_increasing) simp_all
    then have "unat (p + push_bit k 1 - 1 :: u64) < 2 ^ k" using unsigned_less [of "p + push_bit k 1 - 1 :: u64", where ?'a = nat] by simp
    then have "unat x = 0" unfolding x_def by (metis div_less drop_bit_eq_div unat_drop_bit_eq)
    then show ?thesis by simp
  qed
  then have "unat (ucast x + 1 :: u32) = unat x + 1" by (simp add: unat_word_ariths unsigned_ucast_eq take_bit_nat_eq_self)
  then show ?thesis unfolding scratch_count_def x_def [symmetric] by (metis add_is_0 unat_0 zero_neq_one)
qed

lemma alloc_va_no_bits:
  assumes "sc_bits m = 0" "pages_ok l"
  shows "cam_smmu_alloc_scratch_va l m = ((- ENOMEM, None), m)"
proof -
  define c where "c = scratch_count (sc_order m) (drop_bit SMMU_PAGE_SHIFT (PAGE_ALIGN l))"
  have "c \<noteq> 0" unfolding c_def using pages [OF assms(2)] by (intro count_bounds) (simp add: page_align [OF assms(2)])
  then have "0 < unat c" by (simp add: unat_gt_0)
  then have "bitmap_find_next_zero_area bm 0 0 (unat c) al = unat c" if "0 < al" for bm al
    using that by (simp add: bitmap_find_next_zero_area.simps find_next_zero_bit.simps align_up_def)
  moreover have "0 < (ucast c :: u64)" using \<open>0 < unat c\<close> using \<open>0 < unat c\<close> unsigned_less [of c, where ?'a = nat]
    by (simp add: word_less_nat_alt unsigned_ucast_eq take_bit_nat_eq_self)
  ultimately show ?thesis by (simp add: cam_smmu_alloc_scratch_va_def Let_def assms(1) c_def [symmetric])
qed

section \<open>Allocation and release\<close>

lemma alloc_va:
  assumes res: "cam_smmu_alloc_scratch_va l m = ((rc, Some iova), m')"
    and m: "sc_bitmap m = Some bm" "sc_order m = 0" "unat (sc_bits m) \<le> 2 ^ 20" and l: "pages_ok l"
  obtains r where "rc = 0" "unat (iova - sc_base m) = r * 4096" "r + unat l div 4096 < unat (sc_bits m)"
    "\<And>k. k \<in> {r..r + unat l div 4096} \<Longrightarrow> \<not> bm k"
    "m' = m\<lparr>sc_bitmap := Some (bitmap_set bm r (unat l div 4096 + 1))\<rparr>"
proof -
  define n where "n = unat l div 4096"
  define c where "c = scratch_count 0 (drop_bit 12 l)"
  define al where "al = (if 0 < get_order l then 2 ^ get_order l else 1 :: nat)"
  define r where "r = bitmap_find_next_zero_area bm (unat (sc_bits m)) 0 (unat c) al"
  have n: "n \<le> 2 ^ 20" "unat c = n + 1" using pages [OF l] count_unat [of n] by (simp_all add: n_def c_def)
  have "(2 :: nat) ^ get_order l \<le> 2 ^ 20" using get_order_le [OF l] by (intro power_increasing) simp_all
  then have al: "0 < al" "al \<le> 2 ^ 20" by (simp_all add: al_def)
  have area: "(r + (n + 1) \<le> unat (sc_bits m) \<and> (\<forall>k. r \<le> k \<longrightarrow> k < r + (n + 1) \<longrightarrow> \<not> bm k) \<or> unat (sc_bits m) < r)
      \<and> r \<le> unat (sc_bits m) + al + (n + 1)"
    using find_area [of "unat c" al bm "unat (sc_bits m)" 0] n al unfolding r_def [symmetric] Let_def by simp
  then have "r < 2 ^ 32" using al n m(3) by simp
  then have ur: "unat (of_nat r :: u32) = r" by (simp add: unat_of_nat take_bit_nat_eq_self)
  then have uur: "unat (ucast (of_nat r :: u32) :: u64) = r"
    using \<open>r < 2 ^ 32\<close> by (simp add: unsigned_ucast_eq take_bit_nat_eq_self)
  have closed: "cam_smmu_alloc_scratch_va l m =
     (if sc_bits m < ucast (of_nat r :: u32) then ((- ENOMEM, None), m)
      else ((0, Some (sc_base m + ucast (push_bit 12 (of_nat r :: u32)))),
            m\<lparr>sc_bitmap := Some (bitmap_set bm (unat (of_nat r :: u32)) (unat c))\<rparr>))"
    by (simp add: cam_smmu_alloc_scratch_va_def Let_def page_align [OF l] m r_def c_def al_def)
  have res': "\<not> sc_bits m < ucast (of_nat r :: u32)" "rc = 0"
    "iova = sc_base m + ucast (push_bit 12 (of_nat r :: u32))" "m' = m\<lparr>sc_bitmap := Some (bitmap_set bm r (n + 1))\<rparr>"
    using res unfolding closed ur n(2) by (simp_all split: if_splits)
  then have le: "r \<le> unat (sc_bits m)" by (simp add: word_less_nat_alt uur)
  with area have in_map: "r + n < unat (sc_bits m)" "\<And>k. k \<in> {r..r + n} \<Longrightarrow> \<not> bm k" by auto
  then have "r < 2 ^ 20" using m(3) by linarith
  then have "unat (push_bit 12 (of_nat r :: u32)) = r * 4096"
    by (simp add: push_bit_eq_mult unat_word_ariths ur)
  then have "unat (ucast (push_bit 12 (of_nat r :: u32)) :: u64) = r * 4096"
    using \<open>r < 2 ^ 20\<close> by (simp add: unsigned_ucast_eq take_bit_nat_eq_self)
  then have "unat (iova - sc_base m) = r * 4096" by (simp add: res'(3))
  from that [OF res'(2) this in_map(1) [unfolded n_def] in_map(2) [unfolded n_def] res'(4) [unfolded n_def]]
  show thesis by blast
qed

lemma free_va:
  assumes "unat (addr - sc_base m) = r * 4096" "r + unat l div 4096 < unat (sc_bits m)"
    and m: "sc_order m = 0" "unat (sc_bits m) \<le> 2 ^ 20" and l: "pages_ok l"
  shows "snd (cam_smmu_free_scratch_va addr l m) = m
    \<or> snd (cam_smmu_free_scratch_va addr l m)
       = m\<lparr>sc_bitmap := map_option (\<lambda>bm. bitmap_clear bm r (unat l div 4096 + 1)) (sc_bitmap m)\<rparr>"
proof -
  have "r < 2 ^ 20" using assms(2) m(2) by linarith
  have "unat (drop_bit 12 (addr - sc_base m)) = r" using assms(1) by (simp add: drop_bit_eq_div unat_div_distrib)
  then have st: "unat (ucast (drop_bit 12 (addr - sc_base m)) :: u32) = r"
    using \<open>r < 2 ^ 20\<close> by (simp add: unsigned_ucast_eq take_bit_nat_eq_self)
  have c: "unat (scratch_count 0 (drop_bit 12 l)) = unat l div 4096 + 1"
    using pages [OF l] by (intro count_unat) simp_all
  show ?thesis unfolding cam_smmu_free_scratch_va_def by (simp add: Let_def m(1) st c)
qed

section \<open>The invariant of the scratch region\<close>

lemma scratch_ok_alloc:
  assumes ok: "scratch_ok m es" and b: "sc_bitmap m = Some bm" and l: "pages_ok (mp_len e)"
    and res: "cam_smmu_alloc_scratch_va (mp_len e) m = ((rc, Some (mp_paddr e)), m')"
  shows "scratch_ok m' (e # es)"
proof -
  have m: "sc_order m = 0" "unat (sc_bits m) \<le> 2 ^ 20" "unat (sc_base m) < 2 ^ 32" using ok b by (simp_all add: scratch_ok_def)
  obtain r where r: "unat (mp_paddr e - sc_base m) = r * 4096" "r + unat (mp_len e) div 4096 < unat (sc_bits m)"
    "\<And>k. k \<in> {r..r + unat (mp_len e) div 4096} \<Longrightarrow> \<not> bm k"
    "m' = m\<lparr>sc_bitmap := Some (bitmap_set bm r (unat (mp_len e) div 4096 + 1))\<rparr>"
    using alloc_va [OF res b m(1,2) l] by metis
  have area: "scratch_area m' x = scratch_area m x" for x by (simp add: scratch_area_def r(4))
  have e: "scratch_area m e = {r..r + unat (mp_len e) div 4096}" by (simp add: scratch_area_def r(1))
  have "scratch_area m e \<inter> scratch_area m x = {}" if "x \<in> set es" for x
    using ok b that r(3) e by (fastforce simp: scratch_ok_def)
  moreover have "bitmap_set bm r (unat (mp_len e) div 4096 + 1) k"
    if "k \<in> scratch_area m e \<or> (\<exists>x\<in>set es. k \<in> scratch_area m x)" for k
    using that ok b unfolding e by (auto simp: scratch_ok_def bitmap_set_def)
  ultimately show ?thesis
    using ok m b l r(1,2) e unfolding scratch_ok_def area
    by (auto simp: r(4) pages_ok_def)
qed

lemma scratch_ok_weaken:
  assumes "scratch_ok m es" "sc_bitmap m = Some bm" "m' = m\<lparr>sc_bitmap := Some bm'\<rparr>"
    "\<And>e k. e \<in> set es \<Longrightarrow> k \<in> scratch_area m e \<Longrightarrow> bm' k"
  shows "scratch_ok m' es"
proof -
  have "scratch_area m' x = scratch_area m x" for x by (simp add: scratch_area_def assms(3))
  then show ?thesis using assms unfolding scratch_ok_def by auto
qed

text \<open>An allocation whose buffer is given up keeps the invariant: the pages stay marked.\<close>

lemma scratch_ok_leak:
  assumes "scratch_ok m es" "sc_bitmap m = Some bm" "pages_ok l"
    "cam_smmu_alloc_scratch_va l m = ((rc, Some a), m')"
  shows "scratch_ok m' es"
proof -
  have "sc_order m = 0" "unat (sc_bits m) \<le> 2 ^ 20" using assms(1,2) by (simp_all add: scratch_ok_def)
  from alloc_va [OF assms(4,2) this assms(3)] obtain r
    where "m' = m\<lparr>sc_bitmap := Some (bitmap_set bm r (unat l div 4096 + 1))\<rparr>" by metis
  from scratch_ok_weaken [OF assms(1,2) this] show ?thesis
    using assms(1,2) by (auto simp: scratch_ok_def bitmap_set_def)
qed

lemma scratch_ok_free:
  assumes ok: "scratch_ok m (as @ e # bs)" and l: "pages_ok (mp_len e)"
  shows "scratch_ok (snd (cam_smmu_free_scratch_va (mp_paddr e) (mp_len e) m)) (as @ bs)"
proof -
  obtain bm where bm: "sc_bitmap m = Some bm" using ok by (auto simp: scratch_ok_def)
  define r where "r = unat (mp_paddr e - sc_base m) div 4096"
  have e: "scratch_area m e = {r..r + unat (mp_len e) div 4096}" by (simp add: scratch_area_def r_def)
  have "unat (mp_paddr e - sc_base m) = r * 4096" "r + unat (mp_len e) div 4096 < unat (sc_bits m)"
    "sc_order m = 0" "unat (sc_bits m) \<le> 2 ^ 20"
    using ok bm e by (auto simp: scratch_ok_def r_def)
  from free_va [OF this l] consider "snd (cam_smmu_free_scratch_va (mp_paddr e) (mp_len e) m) = m"
    | "snd (cam_smmu_free_scratch_va (mp_paddr e) (mp_len e) m) = m\<lparr>sc_bitmap := Some (bitmap_clear bm r (unat (mp_len e) div 4096 + 1))\<rparr>"
    using bm by auto
  then show ?thesis
  proof cases
    case 1
    then show ?thesis using scratch_ok_del [OF ok] by simp
  next
    case 2
    have "bitmap_clear bm r (unat (mp_len e) div 4096 + 1) k" if "x \<in> set (as @ bs)" "k \<in> scratch_area m x" for x k
    proof -
      have "bm k" using ok bm that by (auto simp: scratch_ok_def)
      moreover have "k \<notin> scratch_area m e" using ok that by (fastforce simp: scratch_ok_def sorted_wrt_append)
      ultimately show ?thesis by (auto simp: e bitmap_clear_def)
    qed
    from scratch_ok_weaken [OF scratch_ok_del [OF ok] bm 2 this] show ?thesis .
  qed
qed

end
