(* ===== verification/Cam_Smmu_Pres.thy ===== *)
theory Cam_Smmu_Pres
  imports Cam_Smmu_Scratch
begin

text \<open>
  Every operation on the context banks keeps the invariant. Most change nothing the invariant
  speaks about; mapping and unmapping change one list of one bank.
\<close>

locale smmu_op =
  fixes ok :: "cam_iommu_cb_set \<Rightarrow> bool"
    and f :: "cam_iommu_cb_set \<Rightarrow> cam_iommu_cb_set"
  assumes keeps: "smmu_wf s \<Longrightarrow> ok s \<Longrightarrow> smmu_wf (f s)"
begin

lemma after: "smmu_wf s \<Longrightarrow> same_core s t \<Longrightarrow> ok t \<Longrightarrow> smmu_wf (f t)"
  using keeps smmu_wf_core by blast

lemma before: "smmu_wf s \<Longrightarrow> ok s \<Longrightarrow> same_core (f s) t \<Longrightarrow> smmu_wf t"
  using keeps smmu_wf_core by blast

end

lemma smmu_op_core: "(\<And>s. same_core s (f s)) \<Longrightarrow> smmu_op ok f"
  by unfold_locales (use smmu_wf_core in blast)

section \<open>Operations that leave lists and handles alone\<close>

lemmas core_defs = same_core_def bank_core_def Let_def sx_def

lemma fault_handler_core: "same_core s (cam_smmu_set_client_page_fault_handler h hc tok s)"
  "same_core s (cam_smmu_unset_client_page_fault_handler h tok s)"
  by (simp_all add: cam_smmu_set_client_page_fault_handler_def cam_smmu_unset_client_page_fault_handler_def core_defs
      split: option.splits)

lemma fold_core:
  assumes "\<And>j u. same_core u (g j u)"
  shows "same_core s t \<Longrightarrow> same_core s (fold g js t)"
proof (induction js arbitrary: t)
  case (Cons j js)
  from Cons.IH [OF same_core_trans [OF Cons.prems assms]] show ?case by simp
qed simp

lemma fault_work_core: "same_core s (cam_smmu_page_fault_work env s)"
  unfolding cam_smmu_page_fault_work_def
  by (auto simp: Let_def same_core_info intro!: fold_core split: list.splits option.splits)

lemma fault_core: "same_core s (snd (cam_smmu_iommu_fault_handler env kz lim dm dev iova flags tok s))"
proof -
  have "same_core s (cam_smmu_page_fault_work env (t\<lparr>payload_list := ps\<rparr>))" if "same_core s t" for t ps
    by (rule same_core_trans [OF that], rule same_core_trans [OF _ fault_work_core]) (simp add: same_core_info)
  moreover have "same_core s (upd_cb i (\<lambda>b. b\<lparr>pf_count := pf_count b + 1\<rparr>) s)" for i
    by (simp add: core_defs)
  ultimately show ?thesis
    unfolding cam_smmu_iommu_fault_handler_def by (simp add: Let_def same_core_info split: option.splits)
qed

lemma ops_core: "same_core s (snd (cam_smmu_ops env h ops s))"
  by (simp add: cam_smmu_ops_def cam_smmu_attach_def cam_smmu_attach_device_def cam_smmu_detach_device_def core_defs
      split: option.splits cam_smmu_ops_param.splits)

lemma firmware_core: "same_core s (snd (cam_smmu_alloc_firmware env h s))" "same_core s (snd (cam_smmu_dealloc_firmware env h s))"
  by (simp_all add: cam_smmu_alloc_firmware_def cam_smmu_dealloc_firmware_def core_defs split: option.splits)

lemma qdss_core: "same_core s (snd (cam_smmu_alloc_qdss env h s))" "same_core s (snd (cam_smmu_dealloc_qdss env h s))"
  by (simp_all add: cam_smmu_alloc_qdss_def cam_smmu_dealloc_qdss_def core_defs split: option.splits)

lemma secheap_core: "same_core s (snd (cam_smmu_reserve_sec_heap env h b s))" "same_core s (snd (cam_smmu_release_sec_heap env h s))"
  by (simp_all add: cam_smmu_reserve_sec_heap_def cam_smmu_release_sec_heap_def core_defs)

section \<open>Handles\<close>

lemma hdl_bank_lt: "hdl_bank h s = Some i \<Longrightarrow> i < cb_num s \<and> i = GET_SMMU_TABLE_IDX h \<and> h \<noteq> HANDLE_INIT"
  by (auto simp: hdl_bank_def Let_def split: if_splits)

lemma upd_same_wf: "smmu_wf s \<Longrightarrow> bank_core (f (cb_info s i)) = bank_core (cb_info s i) \<Longrightarrow> smmu_wf (upd_cb i f s)"
  using bank_wf_core by (intro smmu_wf_upd) blast+

lemma upd_handle_wf:
  assumes "smmu_wf s" "\<And>b. bank_core (f b) = bank_core (b\<lparr>cb_handle := h\<rparr>)" "h \<noteq> HANDLE_INIT \<Longrightarrow> GET_SMMU_TABLE_IDX h = i"
  shows "smmu_wf (upd_cb i f s)"
proof (rule smmu_wf_upd [OF assms(1)])
  assume "bank_wf i (cb_info s i)"
  then have "bank_wf i ((cb_info s i)\<lparr>cb_handle := h\<rparr>)" using assms(3) by (simp add: bank_wf_def)
  then show "bank_wf i (f (cb_info s i))" using bank_wf_core [OF assms(2)] by simp
qed

lemma get_handle_wf:
  assumes wf: "smmu_wf s" and res: "cam_smmu_get_handle rand nm s = Some (r, t)"
  shows "smmu_wf t"
proof -
  have i: "i < cb_num s \<and> i < 65536" if "find P [0..<cb_num s] = Some i" for P i
    using that wf by (auto simp: find_Some_iff smmu_wf_def)
  have "t = s \<or> (\<exists>i f. t = upd_cb i f s \<and> (\<forall>b. bank_core (f b) = bank_core b))
      \<or> (\<exists>i f k. i < 65536 \<and> t = upd_cb i f s \<and> (\<forall>b. bank_core (f b) = bank_core (b\<lparr>cb_handle := GET_SMMU_HDL i (rand k)\<rparr>)))"
  proof (cases nm)
    case (Some l)
    show ?thesis
    proof (cases "find (\<lambda>i. l \<in> set (cb_name (cb_info s i))) [0..<cb_num s]")
      case (Some j)
      then show ?thesis
        using res \<open>nm = Some l\<close> i [OF Some] new_handle_first [OF wf, of j rand 0]
        unfolding cam_smmu_get_handle_def cam_smmu_create_add_handle_in_table_def
        by (cases "cb_handle (cb_info s j) = HANDLE_INIT"; cases "is_secure (cb_info s j)"; cases "is_mul_client (cb_info s j)";
            force simp: Let_def bank_core_def)
    qed (use res Some in \<open>simp add: cam_smmu_get_handle_def cam_smmu_create_add_handle_in_table_def\<close>)
  qed (use res in \<open>simp add: cam_smmu_get_handle_def\<close>)
  then show ?thesis using wf upd_same_wf [OF wf] upd_handle_wf [OF wf] hdl_idx by metis
qed

section \<open>Mapping\<close>

lemma core_bank: "same_core s t \<Longrightarrow> bank_core (cb_info t i) = bank_core (cb_info s i) \<and> cb_num t = cb_num s"
  by (simp add: same_core_def)

lemma core_fields:
  assumes "same_core s t"
  shows "cb_handle (cb_info t i) = cb_handle (cb_info s i)" "is_secure (cb_info t i) = is_secure (cb_info s i)"
    "smmu_buf_list (cb_info t i) = smmu_buf_list (cb_info s i)"
    "smmu_buf_kernel_list (cb_info t i) = smmu_buf_kernel_list (cb_info s i)"
    "scratch_map (cb_info t i) = scratch_map (cb_info s i)" "cb_num t = cb_num s"
  using core_bank [OF assms, of i] by (simp_all add: bank_core_def)

lemma monitor_core: "same_core s t \<Longrightarrow> same_core s (upd_cb i (cam_smmu_update_monitor_array b m) t)"
  by (rule same_core_upd) (simp_all add: bank_core_def cam_smmu_update_monitor_array_def Let_def)

lemma monitor_wf: "smmu_wf t \<Longrightarrow> smmu_wf (upd_cb i (cam_smmu_update_monitor_array b m) t)"
  by (rule smmu_wf_core [OF monitor_core]) simp_all

lemma undef_wf [simp]: "smmu_wf (s\<lparr>undef := u\<rparr>) = smmu_wf s"
  by (simp add: smmu_wf_def)

lemma add_user_wf:
  assumes "smmu_wf s" "i < cb_num s \<Longrightarrow> lists_wf (is_secure (cb_info s i)) (e # smmu_buf_list (cb_info s i)) (scratch_map (cb_info s i))"
  shows "smmu_wf (add_user i e s)"
  unfolding add_user_def using assms by (intro smmu_wf_upd) (simp_all add: bank_wf_def)

lemma add_kernel_wf:
  assumes "smmu_wf s" "i < cb_num s \<Longrightarrow> kernel_ok (e # smmu_buf_kernel_list (cb_info s i))"
  shows "smmu_wf (add_kernel i e s)"
  unfolding add_kernel_def using assms by (intro smmu_wf_upd) (simp_all add: bank_wf_def)

lemma bank_lists: "smmu_wf s \<Longrightarrow> i < cb_num s \<Longrightarrow>
    lists_wf (is_secure (cb_info s i)) (smmu_buf_list (cb_info s i)) (scratch_map (cb_info s i))
    \<and> kernel_ok (smmu_buf_kernel_list (cb_info s i))"
  using smmu_wfD by (simp add: bank_wf_def)

lemma map_buffer_wf:
  assumes wf: "smmu_wf s" and i: "i < cb_num s" "\<not> is_secure (cb_info s i)" "0 \<le> fd"
    and new: "find_dma (\<lambda>m. mp_ion_fd m = fd) (smmu_buf_list (cb_info s i)) = Some None"
  shows "smmu_wf (snd (cam_smmu_map_buffer_and_add_to_list env i fd dis d p l rg s))"
proof -
  obtain r s1 where r: "sx env (Buf_get fd) s = (r, s1)" by (cases "sx env (Buf_get fd) s")
  then have "same_core s s1" by (auto simp: sx_def same_core_info)
  obtain v s2 where v: "cam_smmu_map_buffer_validate env (er_val r) i d p l rg dis s1 = (v, s2)"
    by (cases "cam_smmu_map_buffer_validate env (er_val r) i d p l rg dis s1")
  then have core: "same_core s s2"
    using validate_core [of s1 env "er_val r" i d p l rg dis] same_core_trans [OF \<open>same_core s s1\<close>] by simp
  note wf2 = smmu_wf_core [OF core wf] and fields = core_fields [OF core]
  show ?thesis
  proof (cases "mr_mapping v")
    case None
    then show ?thesis using wf2 by (simp add: cam_smmu_map_buffer_and_add_to_list_def r v)
  next
    case (Some m)
    then have m: "mapped m" "mr_rc v = 0"
      using validate_mapping [of env "er_val r" i d p l rg dis s1 m] v by simp_all
    then have "mapped (m\<lparr>mp_ion_fd := fd\<rparr>)" by (simp add: mapped_def)
    then have "lists_wf False (Dma_entry (m\<lparr>mp_ion_fd := fd\<rparr>) # smmu_buf_list (cb_info s i)) (scratch_map (cb_info s i))"
      using bank_lists [OF wf i(1)] i(2,3) new by (intro lists_wf_add) simp_all
    then have "smmu_wf (add_user i (Dma_entry (m\<lparr>mp_ion_fd := fd\<rparr>)) s2)"
      using i(2) by (intro add_user_wf [OF wf2]) (simp add: fields)
    then show ?thesis by (simp add: cam_smmu_map_buffer_and_add_to_list_def r v Some m Let_def monitor_wf)
  qed
qed

lemma map_kernel_buffer_wf:
  assumes wf: "smmu_wf s" and i: "i < cb_num s"
    and new: "find_pos (\<lambda>m. mp_buf m = buf) (smmu_buf_kernel_list (cb_info s i)) = None"
  shows "smmu_wf (snd (cam_smmu_map_kernel_buffer_and_add_to_list env i buf d p l rg s))"
proof -
  obtain v s2 where v: "cam_smmu_map_buffer_validate env buf i d p l rg False s = (v, s2)"
    by (cases "cam_smmu_map_buffer_validate env buf i d p l rg False s")
  then have core: "same_core s s2" using validate_core [of s env buf i d p l rg False] by simp
  note wf2 = smmu_wf_core [OF core wf] and fields = core_fields [OF core]
  show ?thesis
  proof (cases "mr_mapping v")
    case None
    then show ?thesis using wf2 by (simp add: cam_smmu_map_kernel_buffer_and_add_to_list_def v)
  next
    case (Some m)
    then have m: "mapped m" "mp_buf m = buf" "mr_rc v = 0"
      using validate_mapping [of env buf i d p l rg False s m] v by simp_all
    then have "kernel_ok (m\<lparr>mp_ion_fd := - 1\<rparr> # smmu_buf_kernel_list (cb_info s i))"
      using bank_lists [OF wf i] new by (auto simp: kernel_ok_def mapped_def find_pos_None)
    then have "smmu_wf (add_kernel i (m\<lparr>mp_ion_fd := - 1\<rparr>) s2)"
      by (intro add_kernel_wf [OF wf2]) (simp add: fields)
    then show ?thesis by (simp add: cam_smmu_map_kernel_buffer_and_add_to_list_def v Some m Let_def monitor_wf)
  qed
qed

section \<open>Unmapping\<close>

lemma unmap_buf_core:
  assumes "mapped m"
  shows "\<exists>u. same_core s u \<and> cam_smmu_unmap_buf_and_remove_from_list env m del i s = (0, del u)"
proof -
  define s1 where "s1 = upd_cb i (cam_smmu_update_monitor_array False m) s"
  have s1: "same_core s s1" unfolding s1_def by (rule monitor_core) simp
  define u where "u = (case mp_region_id m of
      CAM_SMMU_REGION_SHARED \<Rightarrow> upd_cb i (\<lambda>b. b\<lparr>shared_mapping_size := shared_mapping_size b - mp_len m\<rparr>)
        (snd (cam_smmu_free_iova env (ucast (mp_paddr m)) (mp_len m) (cb_handle (cb_info s1 i))
          (sx' env (Iommu_unmap (cb_domain (cb_info s1 i)) (mp_paddr m) (mp_len m)) s1)))
    | CAM_SMMU_REGION_IO \<Rightarrow> upd_cb i (\<lambda>b. b\<lparr>io_mapping_size := io_mapping_size b - mp_len m\<rparr>) s1
    | _ \<Rightarrow> s1)"
  have u: "same_core s u"
    by (cases "mp_region_id m")
      (simp_all add: u_def s1 same_core_upd bank_core_def same_core_trans [OF s1] same_core_info)
  have eq: "cam_smmu_unmap_buf_and_remove_from_list env m del i s
      = (0, del (err_unmap_sg env (mp_buf m) (mp_attach m) (mp_table m) (mp_dir m) u))"
    using assms unfolding cam_smmu_unmap_buf_and_remove_from_list_def u_def s1_def by (simp add: mapped_def Let_def)
  have "same_core s (err_unmap_sg env (mp_buf m) (mp_attach m) (mp_table m) (mp_dir m) u)"
    by (rule same_core_trans [OF u]) (simp add: same_core_info)
  with eq show ?thesis by blast
qed

lemma del_user_wf: "smmu_wf s \<Longrightarrow> p < length (smmu_buf_list (cb_info s i)) \<Longrightarrow> smmu_wf (del_user i p s)"
  unfolding del_user_def by (intro smmu_wf_upd) (simp_all add: bank_wf_del_user)

lemma del_kernel_wf: "smmu_wf s \<Longrightarrow> p < length (smmu_buf_kernel_list (cb_info s i)) \<Longrightarrow> smmu_wf (del_kernel i p s)"
  unfolding del_kernel_def by (intro smmu_wf_upd) (simp_all add: bank_wf_del_kernel)

text \<open>Entries of a bank that is not secure, by position.\<close>

lemma user_entry:
  assumes "smmu_wf s" "i < cb_num s" "\<not> is_secure (cb_info s i)" "p < length (smmu_buf_list (cb_info s i))"
  obtains m where "smmu_buf_list (cb_info s i) ! p = Dma_entry m" "is_scratch m \<longleftrightarrow> mp_ion_fd m = SCRATCH_FD"
    "is_scratch m \<Longrightarrow> mp_table m \<noteq> 0" "\<not> is_scratch m \<Longrightarrow> mapped m \<and> 0 \<le> mp_ion_fd m"
proof -
  obtain es where "smmu_buf_list (cb_info s i) = map Dma_entry es" "user_ok es"
    using bank_lists [OF assms(1,2)] assms(3) by (auto simp: lists_wf_def)
  then show thesis using that [of "es ! p"] assms(4) by (auto simp: user_ok_def)
qed

lemma unmap_user_at_core:
  assumes "smmu_wf s" "i < cb_num s" "\<not> is_secure (cb_info s i)" "p < length (smmu_buf_list (cb_info s i))"
    "smmu_buf_list (cb_info s i) ! p = Dma_entry m" "\<not> is_scratch m"
  shows "\<exists>u. same_core s u \<and> unmap_user_at env i p s = (0, del_user i p u)"
proof -
  have "mapped m" using assms(5,6) user_entry [OF assms(1-4)] by (metis smmu_buf.inject(1))
  from unmap_buf_core [OF this] show ?thesis by (simp add: unmap_user_at_def assms(5))
qed

lemma unmap_kernel_at_core:
  assumes "smmu_wf s" "i < cb_num s" "p < length (smmu_buf_kernel_list (cb_info s i))"
  shows "\<exists>u. same_core s u \<and> unmap_kernel_at env i p s = (0, del_kernel i p u)"
  using bank_lists [OF assms(1,2)] assms(3) unmap_buf_core by (simp add: unmap_kernel_at_def kernel_ok_def)

lemma unmap_user_at_wf:
  assumes "smmu_wf s" "i < cb_num s" "\<not> is_secure (cb_info s i)" "p < length (smmu_buf_list (cb_info s i))"
    "smmu_buf_list (cb_info s i) ! p = Dma_entry m" "\<not> is_scratch m"
  shows "smmu_wf (snd (unmap_user_at env i p s))"
  using unmap_user_at_core [OF assms, of env] del_user_wf smmu_wf_core core_fields(3) assms(1,4) by fastforce

lemma unmap_kernel_at_wf:
  assumes "smmu_wf s" "i < cb_num s" "p < length (smmu_buf_kernel_list (cb_info s i))"
  shows "smmu_wf (snd (unmap_kernel_at env i p s))"
  using unmap_kernel_at_core [OF assms, of env] del_kernel_wf smmu_wf_core core_fields(4) assms(1,3) by fastforce

section \<open>Scratch buffers\<close>

lemma scratch_pages: "scratch_ok m es \<Longrightarrow> e \<in> set es \<Longrightarrow> pages_ok (mp_len e)"
proof -
  assume ok: "scratch_ok m es" and e: "e \<in> set es"
  have "unat (mp_paddr e - sc_base m) div 4096 + unat (mp_len e) div 4096 \<in> scratch_area m e" by (simp add: scratch_area_def)
  then have "unat (mp_paddr e - sc_base m) div 4096 + unat (mp_len e) div 4096 < unat (sc_bits m)"
    using ok e unfolding scratch_ok_def by blast
  moreover have "unat (sc_bits m) \<le> 2 ^ 20" "4096 dvd unat (mp_len e)" "mp_len e \<noteq> 0"
    using ok e by (auto simp: scratch_ok_def)
  ultimately show ?thesis by (auto simp: pages_ok_def dvd_def)
qed

lemma free_scratch_form:
  assumes "mp_table m \<noteq> 0"
  shows "\<exists>u. same_core s u \<and> snd (cam_smmu_free_scratch_buffer_remove_from_list env m p i s)
    = del_user i p (upd_cb i (\<lambda>b. b\<lparr>scratch_map := snd (cam_smmu_free_scratch_va (mp_paddr m) (mp_len m) (scratch_map (cb_info s i)))\<rparr>) u)"
proof -
  obtain rc sm where f: "cam_smmu_free_scratch_va (mp_paddr m) (mp_len m) (scratch_map (cb_info s i)) = (rc, sm)"
    by (cases "cam_smmu_free_scratch_va (mp_paddr m) (mp_len m) (scratch_map (cb_info s i))")
  have comm: "sx' env c (upd_cb i g t) = upd_cb i g (sx' env c t)" for c g t by (simp add: sx'_def sx_def upd_cb_def)
  show ?thesis
    using assms unfolding cam_smmu_free_scratch_buffer_remove_from_list_def
    by (intro exI conjI) (simp_all add: f Let_def comm same_core_info)
qed

lemma free_scratch_wf:
  assumes wf: "smmu_wf s" and i: "i < cb_num s" "\<not> is_secure (cb_info s i)" and p: "p < length (smmu_buf_list (cb_info s i))"
    and m: "smmu_buf_list (cb_info s i) ! p = Dma_entry m" "is_scratch m"
  shows "smmu_wf (snd (cam_smmu_free_scratch_buffer_remove_from_list env m p i s))"
proof -
  obtain es where es: "smmu_buf_list (cb_info s i) = map Dma_entry es" "user_ok es" "scratch_ok (scratch_map (cb_info s i)) (filter is_scratch es)"
    using bank_lists [OF wf i(1)] i(2) by (auto simp: lists_wf_def)
  then have p': "p < length es" "es ! p = m" using p m by auto
  then obtain as bs where split: "es = as @ m # bs" "del_at p es = as @ bs" using del_at_split [of p es] by metis
  have "mp_table m \<noteq> 0" using es(2) m(2) by (simp add: user_ok_def split(1))
  then obtain u where u: "same_core s u" "snd (cam_smmu_free_scratch_buffer_remove_from_list env m p i s)
      = del_user i p (upd_cb i (\<lambda>b. b\<lparr>scratch_map := snd (cam_smmu_free_scratch_va (mp_paddr m) (mp_len m) (scratch_map (cb_info s i)))\<rparr>) u)"
    using free_scratch_form by blast
  let ?sm = "snd (cam_smmu_free_scratch_va (mp_paddr m) (mp_len m) (scratch_map (cb_info s i)))"
  have sc: "scratch_ok (scratch_map (cb_info s i)) (filter is_scratch as @ m # filter is_scratch bs)"
    using es(3) m(2) by (simp add: split(1))
  then have "scratch_ok ?sm (filter is_scratch (as @ bs))"
    using scratch_ok_free [OF sc scratch_pages [OF sc]] by simp
  moreover have "user_ok (as @ bs)" using es(2) user_ok_del by (auto simp: split(1))
  ultimately have "lists_wf False (map Dma_entry (as @ bs)) ?sm" unfolding lists_wf_def by (metis (no_types))
  moreover have "del_at p (smmu_buf_list (cb_info s i)) = map Dma_entry (as @ bs)" by (simp only: es(1) del_at_map split(2))
  ultimately have "bank_wf i ((cb_info u i)\<lparr>scratch_map := ?sm, smmu_buf_list := del_at p (smmu_buf_list (cb_info u i))\<rparr>)"
    using smmu_wfD [OF wf i(1)] i(2) core_fields [OF u(1)] by (simp add: bank_wf_def)
  then show ?thesis
    using smmu_wf_core [OF u(1) wf] unfolding u(2) del_user_def by (simp add: smmu_wf_def)
qed

lemma aligned_dvd: "IS_ALIGNED l 4096 \<Longrightarrow> 4096 dvd unat l"
proof -
  assume "IS_ALIGNED l 4096"
  then have "l mod 4096 = 0"
    using take_bit_eq_mask [of 12 l] by (simp add: IS_ALIGNED_def mask_eq_exp_minus_1 take_bit_eq_mod)
  then have "unat (l mod 4096) = 0" by simp
  then show ?thesis by (simp add: unat_mod_distrib mod_eq_0_iff_dvd)
qed

text \<open>
  A request for a scratch buffer leaves the bank as it was, or takes pages, which are lost when a
  later step fails.
\<close>

lemma alloc_scratch_form:
  assumes "cam_smmu_alloc_scratch_buffer_add_to_list env i l pl dir va s = (r, t)" "pages_ok l"
  shows "cb_num t = cb_num s \<and> (cb_info t = cb_info s
    \<or> (\<exists>bm rc a sm. sc_bitmap (scratch_map (cb_info s i)) = Some bm
         \<and> cam_smmu_alloc_scratch_va l (scratch_map (cb_info s i)) = ((rc, Some a), sm)
         \<and> (cb_info t = cb_info (upd_cb i (\<lambda>b. b\<lparr>scratch_map := sm\<rparr>) s)
            \<or> (\<exists>e. cb_info t = cb_info (add_user i (Dma_entry e) (upd_cb i (\<lambda>b. b\<lparr>scratch_map := sm\<rparr>) s))
               \<and> is_scratch e \<and> mp_ion_fd e = SCRATCH_FD \<and> mp_table e \<noteq> 0 \<and> mp_paddr e = a \<and> mp_len e = l))))"
proof (cases "sc_bitmap (scratch_map (cb_info s i))")
  case None
  then show ?thesis
    using assms alloc_va_no_bits [of "scratch_map (cb_info s i)" l]
    by (auto simp: cam_smmu_alloc_scratch_buffer_add_to_list_def Let_def sx_def split: if_splits)
next
  case (Some bm)
  obtain rc a sm where va: "cam_smmu_alloc_scratch_va l (scratch_map (cb_info s i)) = ((rc, a), sm)"
    by (cases "cam_smmu_alloc_scratch_va l (scratch_map (cb_info s i))") auto
  show ?thesis
    using assms Some va
    by (cases a)
      (auto simp: cam_smmu_alloc_scratch_buffer_add_to_list_def Let_def sx_def is_scratch_def add_user_def split: if_splits)
qed

lemma smmu_wf_info: "cb_info t = cb_info s \<Longrightarrow> cb_num t = cb_num s \<Longrightarrow> smmu_wf t = smmu_wf s"
  by (simp add: smmu_wf_def)

lemma alloc_scratch_wf:
  assumes wf: "smmu_wf s" and i: "i < cb_num s" and l: "pages_ok l"
  shows "smmu_wf (snd (cam_smmu_alloc_scratch_buffer_add_to_list env i l pl dir va s))"
proof -
  obtain r t where t: "cam_smmu_alloc_scratch_buffer_add_to_list env i l pl dir va s = (r, t)"
    by (cases "cam_smmu_alloc_scratch_buffer_add_to_list env i l pl dir va s")
  note form = alloc_scratch_form [OF t l]
  have num: "cb_num t = cb_num s" using form by blast
  have "smmu_wf t"
  proof (cases "cb_info t = cb_info s")
    case True
    then show ?thesis using wf num smmu_wf_info by blast
  next
    case False
    with form obtain bm rc a sm where bm: "sc_bitmap (scratch_map (cb_info s i)) = Some bm"
      and va: "cam_smmu_alloc_scratch_va l (scratch_map (cb_info s i)) = ((rc, Some a), sm)"
      and out: "cb_info t = cb_info (upd_cb i (\<lambda>b. b\<lparr>scratch_map := sm\<rparr>) s)
        \<or> (\<exists>e. cb_info t = cb_info (add_user i (Dma_entry e) (upd_cb i (\<lambda>b. b\<lparr>scratch_map := sm\<rparr>) s))
               \<and> is_scratch e \<and> mp_ion_fd e = SCRATCH_FD \<and> mp_table e \<noteq> 0 \<and> mp_paddr e = a \<and> mp_len e = l)" by blast
    then obtain es where es: "\<not> is_secure (cb_info s i)" "smmu_buf_list (cb_info s i) = map Dma_entry es" "user_ok es"
      "scratch_ok (scratch_map (cb_info s i)) (filter is_scratch es)"
      using bank_lists [OF wf i] by (auto simp: lists_wf_def split: if_splits)
    from out show ?thesis
    proof
      assume o: "cb_info t = cb_info (upd_cb i (\<lambda>b. b\<lparr>scratch_map := sm\<rparr>) s)"
      have "scratch_ok sm (filter is_scratch es)" by (rule scratch_ok_leak [OF es(4) bm l va])
      then have "smmu_wf (upd_cb i (\<lambda>b. b\<lparr>scratch_map := sm\<rparr>) s)"
        using es by (intro smmu_wf_upd [OF wf]) (auto simp: bank_wf_def lists_wf_def)
      then show ?thesis using o num smmu_wf_info by (metis upd_cb_simps(2))
    next
      assume "\<exists>e. cb_info t = cb_info (add_user i (Dma_entry e) (upd_cb i (\<lambda>b. b\<lparr>scratch_map := sm\<rparr>) s))
               \<and> is_scratch e \<and> mp_ion_fd e = SCRATCH_FD \<and> mp_table e \<noteq> 0 \<and> mp_paddr e = a \<and> mp_len e = l"
      then obtain e where e: "cb_info t = cb_info (add_user i (Dma_entry e) (upd_cb i (\<lambda>b. b\<lparr>scratch_map := sm\<rparr>) s))"
        "is_scratch e" "mp_ion_fd e = SCRATCH_FD" "mp_table e \<noteq> 0" "mp_paddr e = a" "mp_len e = l" by blast
      have "scratch_ok sm (filter is_scratch (e # es))"
        using scratch_ok_alloc [OF es(4) bm, of e rc sm] e va l by simp
      moreover have "user_ok (e # es)" using es(3) e by (simp add: user_ok_def)
      moreover have "bank_wf i (cb_info s i)" by (rule smmu_wfD [OF wf i])
      ultimately have "bank_wf i (cb_info t i)"
        using es(1,2) unfolding e(1) bank_wf_def lists_wf_def by (auto simp: add_user_def intro!: exI [of _ "e # es"])
      then show ?thesis using wf num unfolding smmu_wf_def e(1) by (simp add: add_user_def)
    qed
  qed
  then show ?thesis by (simp add: t)
qed

end
