(* ===== verification/Cam_Smmu_Sys.thy ===== *)
theory Cam_Smmu_Sys
  imports Cam_Smmu_Pres
begin

text \<open>
  The context banks as a system: after the device tree has been read they go through calls of the
  clients, page faults and the removal of handles. Every operation satisfies the contract
  \<open>smmu_op\<close>, so the invariant holds throughout.
\<close>

section \<open>Emptying the lists of a bank\<close>

lemma length_del_at: "p < length xs \<Longrightarrow> Suc (length (del_at p xs)) = length xs"
  by (simp add: del_at_def)

text \<open>Lists of a bank from which mappings were taken, everything else of the bank as it was.\<close>

lemma unmap_one:
  assumes wf: "smmu_wf s" and i: "i < cb_num s" "\<not> is_secure (cb_info s i)" and p: "p < length (smmu_buf_list (cb_info s i))"
    and m: "smmu_buf_list (cb_info s i) ! p = Dma_entry m"
    and t: "t = snd (if mp_ion_fd m = SCRATCH_FD then cam_smmu_free_scratch_buffer_remove_from_list env m p i s
                      else unmap_user_at env i p s)"
  shows "smmu_wf t \<and> cb_num t = cb_num s \<and> \<not> is_secure (cb_info t i)
    \<and> smmu_buf_list (cb_info t i) = del_at p (smmu_buf_list (cb_info s i))
    \<and> smmu_buf_kernel_list (cb_info t i) = smmu_buf_kernel_list (cb_info s i) \<and> cb_handle (cb_info t i) = cb_handle (cb_info s i)"
proof -
  have e: "is_scratch m \<longleftrightarrow> mp_ion_fd m = SCRATCH_FD" "is_scratch m \<Longrightarrow> mp_table m \<noteq> 0"
    using user_entry [OF wf i p] m by (metis smmu_buf.inject(1))+
  show ?thesis
  proof (cases "is_scratch m")
    case True
    obtain u where "same_core s u" "t = del_user i p (upd_cb i (\<lambda>b. b\<lparr>scratch_map := snd (cam_smmu_free_scratch_va (mp_paddr m) (mp_len m) (scratch_map (cb_info s i)))\<rparr>) u)"
      using free_scratch_form [OF e(2) [OF True], of s env p i] True e(1) t by auto
    then show ?thesis using free_scratch_wf [OF wf i p m True, of env] True e(1) t i
      by (simp add: del_user_def core_fields)
  next
    case False
    obtain u where "same_core s u" "t = del_user i p u"
      using unmap_user_at_core [OF wf i p m False, of env] False e(1) t by auto
    then show ?thesis using unmap_user_at_wf [OF wf i p m False, of env] False e(1) t i
      by (simp add: del_user_def core_fields)
  qed
qed

lemma dma_not_secure:
  assumes "smmu_wf s" "i < cb_num s" "p < length (smmu_buf_list (cb_info s i))" "smmu_buf_list (cb_info s i) ! p = Dma_entry m"
  shows "\<not> is_secure (cb_info s i)"
proof
  assume "is_secure (cb_info s i)"
  then obtain es where "smmu_buf_list (cb_info s i) = map Sec_entry es"
    using bank_lists [OF assms(1,2)] by (auto simp: lists_wf_def)
  then show False using assms(3,4) by auto
qed

lemma clean_user:
  "smmu_wf s \<Longrightarrow> i < cb_num s \<Longrightarrow> p + n \<le> length (smmu_buf_list (cb_info s i)) \<Longrightarrow>
     let t = cam_smmu_clean_user_buffer_list env i n p s in
     smmu_wf t \<and> cb_num t = cb_num s \<and> cb_handle (cb_info t i) = cb_handle (cb_info s i)
     \<and> smmu_buf_kernel_list (cb_info t i) = smmu_buf_kernel_list (cb_info s i) \<and> is_secure (cb_info t i) = is_secure (cb_info s i)
     \<and> (\<not> is_secure (cb_info s i) \<longrightarrow> n + length (smmu_buf_list (cb_info t i)) = length (smmu_buf_list (cb_info s i)))"
proof (induction n arbitrary: p s)
  case (Suc n)
  then have p: "p < length (smmu_buf_list (cb_info s i))" by simp
  show ?case
  proof (cases "smmu_buf_list (cb_info s i) ! p")
    case (Sec_entry m)
    then have "is_secure (cb_info s i)" using user_entry [OF Suc.prems(1,2) _ p] by force
    then show ?thesis using Suc.prems by (simp add: Sec_entry Let_def)
  next
    case (Dma_entry m)
    have ns: "\<not> is_secure (cb_info s i)" by (rule dma_not_secure [OF Suc.prems(1,2) p Dma_entry])
    define t where "t = snd (if mp_ion_fd m = SCRATCH_FD then cam_smmu_free_scratch_buffer_remove_from_list env m p i s
        else unmap_user_at env i p s)"
    note one = unmap_one [OF Suc.prems(1,2) ns p Dma_entry t_def]
    have step: "cam_smmu_clean_user_buffer_list env i (Suc n) p s = cam_smmu_clean_user_buffer_list env i n p t"
      using one length_del_at [OF p] by (simp add: Dma_entry t_def [symmetric] split_beta Let_def)
    show ?thesis
      using Suc.IH [of t p] one length_del_at [OF p] Suc.prems ns unfolding step Let_def by simp
  qed
qed simp

lemma clean_kernel:
  "smmu_wf s \<Longrightarrow> i < cb_num s \<Longrightarrow> p + n \<le> length (smmu_buf_kernel_list (cb_info s i)) \<Longrightarrow>
     let t = cam_smmu_clean_kernel_buffer_list env i n p s in
     smmu_wf t \<and> cb_num t = cb_num s \<and> cb_handle (cb_info t i) = cb_handle (cb_info s i)
     \<and> smmu_buf_list (cb_info t i) = smmu_buf_list (cb_info s i) \<and> is_secure (cb_info t i) = is_secure (cb_info s i)
     \<and> n + length (smmu_buf_kernel_list (cb_info t i)) = length (smmu_buf_kernel_list (cb_info s i))"
proof (induction n arbitrary: p s)
  case (Suc n)
  then have p: "p < length (smmu_buf_kernel_list (cb_info s i))" by simp
  obtain u where u: "same_core s u" "unmap_kernel_at env i p s = (0, del_kernel i p u)"
    using unmap_kernel_at_core [OF Suc.prems(1,2) p] by blast
  have wf: "smmu_wf (del_kernel i p u)" using unmap_kernel_at_wf [OF Suc.prems(1,2) p, of env] u(2) by simp
  have step: "cam_smmu_clean_kernel_buffer_list env i (Suc n) p s = cam_smmu_clean_kernel_buffer_list env i n p (del_kernel i p u)"
    by (simp add: u(2))
  show ?case
    using Suc.IH [OF wf, of p] length_del_at [OF p] Suc.prems(2,3) core_fields [OF u(1)]
    unfolding step Let_def by (simp add: del_kernel_def)
qed simp

section \<open>Look-ups\<close>

lemma find_dma_found: "find_dma P bs = Some (Some p) \<Longrightarrow> p < length bs \<and> (\<exists>m. bs ! p = Dma_entry m \<and> P m)"
  by (induction P bs arbitrary: p rule: find_dma.induct) (auto split: if_splits)

lemma find_sec_found: "find_sec P bs = Some (Some p) \<Longrightarrow> p < length bs \<and> (\<exists>m. bs ! p = Sec_entry m \<and> P m)"
  by (induction P bs arbitrary: p rule: find_sec.induct) (auto split: if_splits)

lemma check_fd_None:
  "cam_smmu_check_fd_in_list i fd s = Some None \<longleftrightarrow> find_dma (\<lambda>m. mp_ion_fd m = fd) (smmu_buf_list (cb_info s i)) = Some None"
  unfolding cam_smmu_check_fd_in_list_def by (auto dest!: find_dma_found split: option.splits)

lemma check_secure_None:
  assumes "cam_smmu_check_secure_fd_in_list i fd s = Some (None, t)"
  shows "t = s \<and> find_sec (\<lambda>m. sb_ion_fd m = fd) (smmu_buf_list (cb_info s i)) = Some None"
proof -
  obtain z where z: "find_sec (\<lambda>m. sb_ion_fd m = fd) (smmu_buf_list (cb_info s i)) = Some z"
    using assms by (auto simp: cam_smmu_check_secure_fd_in_list_def)
  then show ?thesis
    using assms by (cases z) (auto simp: cam_smmu_check_secure_fd_in_list_def dest: find_sec_found)
qed

lemma check_secure_Some:
  assumes "cam_smmu_check_secure_fd_in_list i fd s = Some (Some m, t)"
  shows "\<exists>p. t = ref_at i p 1 s \<and> p < length (smmu_buf_list (cb_info s i)) \<and> smmu_buf_list (cb_info s i) ! p = Sec_entry m \<and> sb_ion_fd m = fd"
proof -
  obtain p where p: "find_sec (\<lambda>m. sb_ion_fd m = fd) (smmu_buf_list (cb_info s i)) = Some (Some p)"
    using assms by (auto simp: cam_smmu_check_secure_fd_in_list_def split: option.splits)
  then show ?thesis using assms find_sec_found [OF p] by (auto simp: cam_smmu_check_secure_fd_in_list_def)
qed

section \<open>The operations\<close>

interpretation op_map_user: smmu_op "\<lambda>_. 0 \<le> fd" "\<lambda>s. snd (cam_smmu_map_user_iova env h fd dis dir pa ln rg s)"
  for env h fd dis dir pa ln rg
proof
  fix s assume wf: "smmu_wf s" and fd: "0 \<le> fd"
  show "smmu_wf (snd (cam_smmu_map_user_iova env h fd dis dir pa ln rg s))"
    using wf map_buffer_wf [OF wf _ _ fd] hdl_bank_lt [of h s]
    by (auto simp: cam_smmu_map_user_iova_def cam_smmu_map_iova_validate_params_def check_fd_None Let_def
        split: option.splits)
qed

interpretation op_map_kernel: smmu_op "\<lambda>_. True" "\<lambda>s. snd (cam_smmu_map_kernel_iova env h buf dir pa ln rg s)"
  for env h buf dir pa ln rg
proof
  fix s assume wf: "smmu_wf s"
  show "smmu_wf (snd (cam_smmu_map_kernel_iova env h buf dir pa ln rg s))"
    using wf map_kernel_buffer_wf [OF wf] hdl_bank_lt [of h s]
    by (auto simp: cam_smmu_map_kernel_iova_def cam_smmu_map_iova_validate_params_def cam_smmu_check_dma_buf_in_list_def Let_def
        split: option.splits)
qed

interpretation op_get_iova: smmu_op "\<lambda>_. True" "\<lambda>s. snd (cam_smmu_get_iova h fd s)" for h fd
  by unfold_locales (simp add: cam_smmu_get_iova_def Let_def split: option.splits)

interpretation op_get_stage2: smmu_op "\<lambda>_. True" "\<lambda>s. snd (cam_smmu_get_stage2_iova h fd s)" for h fd
  by unfold_locales (simp add: cam_smmu_get_stage2_iova_def Let_def split: option.splits)

interpretation op_put_iova: smmu_op "\<lambda>_. True" "\<lambda>s. snd (cam_smmu_put_iova h fd s)" for h fd
  by unfold_locales (simp add: cam_smmu_put_iova_def Let_def split: option.splits)

interpretation op_unmap_user: smmu_op "\<lambda>_. True" "\<lambda>s. snd (cam_smmu_unmap_user_iova env h fd s)" for env h fd
proof
  fix s assume wf: "smmu_wf s"
  have "smmu_wf (snd (unmap_user_at env i p s))"
    if "cam_smmu_find_mapping_by_ion_index i fd s = Some (Some p)" "i < cb_num s" "\<not> is_secure (cb_info s i)" for i p
  proof -
    have fd: "0 \<le> fd" "find_dma (\<lambda>m. mp_ion_fd m = fd) (smmu_buf_list (cb_info s i)) = Some (Some p)"
      using that(1) by (auto simp: cam_smmu_find_mapping_by_ion_index_def split: if_splits)
    then obtain m where m: "p < length (smmu_buf_list (cb_info s i))" "smmu_buf_list (cb_info s i) ! p = Dma_entry m" "mp_ion_fd m = fd"
      using find_dma_found by blast
    then have "\<not> is_scratch m" using user_entry [OF wf that(2,3) m(1)] fd(1) SCRATCH_FD_neg by (metis smmu_buf.inject(1) linorder_not_le)
    from unmap_user_at_wf [OF wf that(2,3) m(1,2) this] show ?thesis .
  qed
  then show "smmu_wf (snd (cam_smmu_unmap_user_iova env h fd s))"
    using wf hdl_bank_lt [of h s]
    by (auto simp: cam_smmu_unmap_user_iova_def cam_smmu_unmap_validate_params_def Let_def split: option.splits)
qed

interpretation op_unmap_kernel: smmu_op "\<lambda>_. True" "\<lambda>s. snd (cam_smmu_unmap_kernel_iova env h buf s)" for env h buf
proof
  fix s assume wf: "smmu_wf s"
  have "smmu_wf (snd (unmap_kernel_at env i p s))"
    if "cam_smmu_find_mapping_by_dma_buf i buf s = Some p" "i < cb_num s" for i p
    using that find_pos_Some by (intro unmap_kernel_at_wf [OF wf that(2)])
      (fastforce simp: cam_smmu_find_mapping_by_dma_buf_def split: if_splits)
  then show "smmu_wf (snd (cam_smmu_unmap_kernel_iova env h buf s))"
    using wf hdl_bank_lt [of h s]
    by (auto simp: cam_smmu_unmap_kernel_iova_def cam_smmu_unmap_validate_params_def Let_def split: option.splits)
qed

text \<open>Protected buffers: a reference more or less, the last one taking the entry away.\<close>

lemma ref_at_wf:
  assumes wf: "smmu_wf s" and p: "p < length (smmu_buf_list (cb_info s i))" "smmu_buf_list (cb_info s i) ! p = Sec_entry m"
    and k: "1 \<le> sb_ref_count m + k"
  shows "smmu_wf (ref_at i p k s)"
  unfolding ref_at_def
proof (rule smmu_wf_upd [OF wf])
  assume i: "i < cb_num s" and b: "bank_wf i (cb_info s i)"
  have sec: "is_secure (cb_info s i)" using user_entry [OF wf i _ p(1)] p(2) by force
  then obtain es where es: "smmu_buf_list (cb_info s i) = map Sec_entry es" "sec_ok es" "sc_bitmap (scratch_map (cb_info s i)) = None"
    using bank_lists [OF wf i] by (auto simp: lists_wf_def)
  define e where "e = m\<lparr>sb_ref_count := sb_ref_count m + k\<rparr>"
  have m: "es ! p = m" "p < length es" using es(1) p by auto
  have "map sb_ion_fd (es[p := e]) = map sb_ion_fd es"
    using m by (simp add: map_update e_def list_update_same_conv)
  then have "sec_ok (es[p := e])" using es(2) k set_update_subset_insert [of es p e]
    by (auto simp: sec_ok_def e_def)
  moreover have "(smmu_buf_list (cb_info s i))[p := add_ref k (smmu_buf_list (cb_info s i) ! p)] = map Sec_entry (es[p := e])"
    by (simp only: p(2) add_ref.simps e_def [symmetric]) (simp add: es(1) map_update)
  ultimately show "bank_wf i ((cb_info s i)\<lparr>smmu_buf_list := (smmu_buf_list (cb_info s i))[p := add_ref k (smmu_buf_list (cb_info s i) ! p)]\<rparr>)"
    using b sec es(3) unfolding bank_wf_def lists_wf_def by auto
qed

lemma map_stage2_buffer_wf:
  assumes wf: "smmu_wf s" and i: "i < cb_num s" "is_secure (cb_info s i)"
    and new: "find_sec (\<lambda>m. sb_ion_fd m = fd) (smmu_buf_list (cb_info s i)) = Some None"
  shows "smmu_wf (snd (cam_smmu_map_stage2_buffer_and_add_to_list env i fd d s))"
proof -
  have add: "smmu_wf (add_user i (Sec_entry e) t)"
    if "cb_info t = cb_info s" "cb_num t = cb_num s" "sb_ref_count e = 1" "sb_ion_fd e = fd" for e t
  proof (rule add_user_wf)
    show "smmu_wf t" using wf that(1,2) smmu_wf_info by blast
    have "lists_wf True (Sec_entry e # smmu_buf_list (cb_info s i)) (scratch_map (cb_info s i))"
      using bank_lists [OF wf i(1)] i(2) new that(3,4) by (intro lists_wf_add_sec) simp_all
    then show "lists_wf (is_secure (cb_info t i)) (Sec_entry e # smmu_buf_list (cb_info t i)) (scratch_map (cb_info t i))"
      using that(1) i(2) by simp
  qed
  have same: "smmu_wf t" if "cb_info t = cb_info s" "cb_num t = cb_num s" for t using wf that smmu_wf_info by blast
  show ?thesis
    unfolding cam_smmu_map_stage2_buffer_and_add_to_list_def by (simp add: Let_def sx_def add same)
qed

interpretation op_map_stage2: smmu_op "\<lambda>_. True" "\<lambda>s. snd (cam_smmu_map_stage2_iova env h fd dir s)" for env h fd dir
proof
  fix s assume wf: "smmu_wf s"
  have taken: "smmu_wf t" if "cam_smmu_check_secure_fd_in_list i fd s = Some (Some m, t)" "i < cb_num s" for i m t
  proof -
    note h = that
    obtain p where p: "t = ref_at i p 1 s" "p < length (smmu_buf_list (cb_info s i))" "smmu_buf_list (cb_info s i) ! p = Sec_entry m"
      using check_secure_Some [OF h(1)] by blast
    have "is_secure (cb_info s i)" using user_entry [OF wf h(2) _ p(2)] p(3) by force
    then have "1 \<le> sb_ref_count m" using bank_lists [OF wf h(2)] p(2,3) by (auto simp: lists_wf_def sec_ok_def)
    then show ?thesis unfolding p(1) by (intro ref_at_wf [OF wf p(2,3)]) simp
  qed
  show "smmu_wf (snd (cam_smmu_map_stage2_iova env h fd dir s))"
  proof (cases "hdl_bank h s")
    case (Some i)
    note i = hdl_bank_lt [OF Some]
    show ?thesis
      using wf taken [of i] i check_secure_None [of i fd s] map_stage2_buffer_wf [OF wf, of i]
      by (auto simp: cam_smmu_map_stage2_iova_def Some Let_def split: option.splits)
  qed (simp add: cam_smmu_map_stage2_iova_def wf)
qed

interpretation op_unmap_stage2: smmu_op "\<lambda>_. True" "\<lambda>s. snd (cam_smmu_unmap_stage2_iova env h fd s)" for env h fd
proof
  fix s assume wf: "smmu_wf s"
  show "smmu_wf (snd (cam_smmu_unmap_stage2_iova env h fd s))"
  proof (cases "hdl_bank h s")
    case (Some i)
    note i = hdl_bank_lt [OF Some]
    have "smmu_wf (del_user i p (sx' env c (ref_at i p (- 1) s)))" if "p < length (smmu_buf_list (cb_info s i))" for c p
    proof -
      have eq: "del_user i p (sx' env c (ref_at i p (- 1) s)) = sx' env c (del_user i p s)"
        using that by (simp add: del_user_def ref_at_def sx'_def sx_def upd_cb_def del_at_def)
      show ?thesis unfolding eq using del_user_wf [OF wf that] smmu_wf_info by (metis sx'_simps(1,2))
    qed
    moreover have "smmu_wf (ref_at i p (- 1) s)"
      if "p < length (smmu_buf_list (cb_info s i))" "smmu_buf_list (cb_info s i) ! p = Sec_entry m" "0 < sb_ref_count m - 1" for m p
      using that by (intro ref_at_wf [OF wf]) auto
    ultimately show ?thesis
      using wf by (auto simp: cam_smmu_unmap_stage2_iova_def Some Let_def cam_smmu_find_mapping_by_sec_buf_idx_def
          cam_smmu_secure_unmap_buf_and_remove_from_list_def dest!: find_sec_found split: option.splits)
  qed (simp add: cam_smmu_unmap_stage2_iova_def wf)
qed

text \<open>Scratch lengths are at most 4 GB, and an address that is put back is one of a scratch buffer.\<close>

interpretation op_get_scratch: smmu_op "\<lambda>_. unat vl \<le> 2 ^ 32" "\<lambda>s. snd (cam_smmu_get_scratch_iova env h dir va vl pl s)"
  for env h dir va vl pl
proof
  fix s assume wf: "smmu_wf s" and "unat vl \<le> 2 ^ 32"
  then have "pages_ok vl" if "vl \<noteq> 0" "IS_ALIGNED vl 4096" using that aligned_dvd by (simp add: pages_ok_def)
  then show "smmu_wf (snd (cam_smmu_get_scratch_iova env h dir va vl pl s))"
    using wf alloc_scratch_wf [OF wf] hdl_bank_lt [of h s]
    by (auto simp: cam_smmu_get_scratch_iova_def Let_def split: option.splits)
qed

definition scratch_address :: "int \<Rightarrow> u64 \<Rightarrow> cam_iommu_cb_set \<Rightarrow> bool" where
  "scratch_address h a s \<longleftrightarrow> (\<forall>m. Dma_entry m \<in> set (smmu_buf_list (cb_info s (GET_SMMU_TABLE_IDX h))) \<longrightarrow>
     mp_paddr m = a \<longrightarrow> is_scratch m)"

interpretation op_put_scratch: smmu_op "scratch_address h a" "\<lambda>s. snd (cam_smmu_put_scratch_iova env h a s)" for env h a
proof
  fix s assume wf: "smmu_wf s" and ad: "scratch_address h a s"
  show "smmu_wf (snd (cam_smmu_put_scratch_iova env h a s))"
  proof (cases "hdl_bank h s")
    case (Some i)
    note i = hdl_bank_lt [OF Some]
    have "smmu_wf (snd (cam_smmu_free_scratch_buffer_remove_from_list env m p i s))"
      if "cam_smmu_find_mapping_by_virt_address i a s = Some (Some p)" "smmu_buf_list (cb_info s i) ! p = Dma_entry m" for p m
    proof -
      have p: "p < length (smmu_buf_list (cb_info s i))" "mp_paddr m = a"
        using find_dma_found [OF that(1) [unfolded cam_smmu_find_mapping_by_virt_address_def]] that(2) by auto
      then have "is_scratch m" using ad that(2) i unfolding scratch_address_def by (metis nth_mem)
      moreover have "\<not> is_secure (cb_info s i)"
        using dma_not_secure [OF wf _ p(1) that(2)] i by blast
      ultimately show ?thesis using free_scratch_wf [OF wf _ _ p(1) that(2)] i by blast
    qed
    then show ?thesis using wf by (auto simp: cam_smmu_put_scratch_iova_def Some Let_def split: option.splits smmu_buf.splits)
  qed (simp add: cam_smmu_put_scratch_iova_def wf)
qed

lemma bank_wf_init: "bank_core b' = bank_core (b\<lparr>cb_handle := HANDLE_INIT\<rparr>) \<Longrightarrow> bank_wf i b \<Longrightarrow> bank_wf i b'"
  by (subst bank_wf_core, assumption) (simp add: bank_wf_def)

text \<open>A handle that is destroyed leaves no mapping in a bank that is not secure.\<close>

lemma destroy_form:
  assumes wf: "smmu_wf s" and h: "hdl_bank h s = Some i" "cb_handle (cb_info s i) = h"
  shows "smmu_wf (snd (cam_smmu_destroy_handle env h s))
    \<and> (\<not> is_secure (cb_info s i) \<longrightarrow> fst (cam_smmu_destroy_handle env h s) = 0
        \<and> smmu_buf_list (cb_info (snd (cam_smmu_destroy_handle env h s)) i) = []
        \<and> smmu_buf_kernel_list (cb_info (snd (cam_smmu_destroy_handle env h s)) i) = [])"
proof -
  have i: "i < cb_num s" using hdl_bank_lt [OF h(1)] by blast
  define s1 where "s1 = cam_smmu_clean_user_buffer_list env i (length (smmu_buf_list (cb_info s i))) 0 s"
  define s2 where "s2 = cam_smmu_clean_kernel_buffer_list env i (length (smmu_buf_kernel_list (cb_info s1 i))) 0 s1"
  have c1: "smmu_wf s1" "cb_num s1 = cb_num s" "is_secure (cb_info s1 i) = is_secure (cb_info s i)"
    "\<not> is_secure (cb_info s i) \<Longrightarrow> smmu_buf_list (cb_info s1 i) = []"
    using clean_user [OF wf, of i 0 "length (smmu_buf_list (cb_info s i))" env] i by (simp_all add: s1_def [symmetric] Let_def)
  have c2: "smmu_wf s2" "is_secure (cb_info s2 i) = is_secure (cb_info s i)"
    "\<not> is_secure (cb_info s i) \<Longrightarrow> smmu_buf_list (cb_info s2 i) = []" "smmu_buf_kernel_list (cb_info s2 i) = []"
    using clean_kernel [OF c1(1), of i 0 "length (smmu_buf_kernel_list (cb_info s1 i))" env] c1 i
    by (simp_all add: s2_def [symmetric] Let_def)
  have keep: "smmu_wf (upd_cb i f s2)" if "\<And>b. bank_core (f b) = bank_core b \<or> bank_core (f b) = bank_core (b\<lparr>cb_handle := HANDLE_INIT\<rparr>)" for f
    using that [of "cb_info s2 i"] by (intro smmu_wf_upd [OF c2(1)]) (blast dest: bank_wf_core bank_wf_init)
  show ?thesis
    unfolding cam_smmu_destroy_handle_def
    using c2 keep by (simp add: h Let_def s1_def [symmetric] s2_def [symmetric] bank_core_def)
qed

interpretation op_destroy: smmu_op "\<lambda>_. True" "\<lambda>s. snd (cam_smmu_destroy_handle env h s)" for env h
proof
  fix s assume wf: "smmu_wf s"
  show "smmu_wf (snd (cam_smmu_destroy_handle env h s))"
  proof (cases "\<exists>i. hdl_bank h s = Some i \<and> cb_handle (cb_info s i) = h")
    case True
    then show ?thesis using destroy_form [OF wf] by blast
  qed (auto simp: cam_smmu_destroy_handle_def wf split: option.splits)
qed

end
