(* ===== verification/Cam_Smmu_Reach.thy ===== *)
theory Cam_Smmu_Reach
  imports Cam_Smmu_Sys
begin

text \<open>
  The banks after the device tree was read, and the system of context banks: the invariant holds in
  every state it reaches.
\<close>

section \<open>Banks that were just set up\<close>

definition bank_fresh :: "cam_context_bank_info \<Rightarrow> bool" where
  "bank_fresh b \<longleftrightarrow> cb_handle b = HANDLE_INIT \<and> smmu_buf_list b = [] \<and> smmu_buf_kernel_list b = []
     \<and> (is_secure b \<longrightarrow> sc_bitmap (scratch_map b) = None)
     \<and> (sc_bitmap (scratch_map b) \<noteq> None \<longrightarrow> sc_order (scratch_map b) = 0 \<and> unat (sc_bits (scratch_map b)) \<le> 2 ^ 20
          \<and> unat (sc_base (scratch_map b)) < 2 ^ 32)
     \<and> unat (iova_start (scratch_info b)) < 2 ^ 32 \<and> unat (iova_len (scratch_info b)) < 2 ^ 32"

definition probe_ok :: "cam_iommu_cb_set \<Rightarrow> bool" where
  "probe_ok s \<longleftrightarrow> cb_num s \<le> 65535 \<and> (\<forall>i<cb_num s. bank_fresh (cb_info s i)
     \<and> (cb_init_count s \<le> i \<longrightarrow> sc_bitmap (scratch_map (cb_info s i)) = None))"

lemma fresh_wf: "bank_fresh b \<Longrightarrow> bank_wf i b"
  by (auto simp: bank_fresh_def bank_wf_def lists_wf_def user_ok_def kernel_ok_def sec_ok_def scratch_ok_def)

lemma probe_ok_wf: "probe_ok s \<Longrightarrow> smmu_wf s"
  by (simp add: probe_ok_def smmu_wf_def fresh_wf)

section \<open>Reading the device tree\<close>

text \<open>What reading the regions leaves alone.\<close>

definition dt_frame :: "cam_context_bank_info \<Rightarrow> cam_context_bank_info \<Rightarrow> bool" where
  "dt_frame a b \<longleftrightarrow> cb_handle b = cb_handle a \<and> smmu_buf_list b = smmu_buf_list a
     \<and> smmu_buf_kernel_list b = smmu_buf_kernel_list a \<and> scratch_map b = scratch_map a
     \<and> (unat (iova_start (scratch_info a)) < 2 ^ 32 \<longrightarrow> unat (iova_start (scratch_info b)) < 2 ^ 32)
     \<and> (unat (iova_len (scratch_info a)) < 2 ^ 32 \<longrightarrow> unat (iova_len (scratch_info b)) < 2 ^ 32)"

lemma dt_frame_refl [simp]: "dt_frame a a"
  by (simp add: dt_frame_def)

lemma dt_frame_trans: "dt_frame a b \<Longrightarrow> dt_frame b c \<Longrightarrow> dt_frame a c"
  by (simp add: dt_frame_def)

lemma ucast_bound: "unat (ucast (w :: u32) :: u64) < 2 ^ 32"
proof -
  have "unat w < 2 ^ LENGTH(32)" by (rule unsigned_less)
  then show ?thesis by (simp add: unsigned_ucast_eq take_bit_nat_eq_self)
qed

lemma add_region_frame: "dt_frame cb (snd (add_region g cb))"
  using ucast_bound
  by (simp add: add_region_def dt_frame_def set_region_def Let_def split_beta split: option.splits)

lemma add_regions_frame: "dt_frame cb (snd (add_regions gs cb))"
proof (induction gs arbitrary: cb)
  case (Cons g gs)
  obtain rc cb1 where g: "add_region g cb = (rc, cb1)" by (cases "add_region g cb")
  then have "dt_frame cb cb1" using add_region_frame [of cb g] by simp
  then show ?case using dt_frame_trans Cons.IH [of cb1] by (simp add: g)
qed simp

lemma regions_info_frame: "dt_frame cb (snd (cam_smmu_get_memory_regions_info nd cb))"
proof (cases "dt_mem_map nd")
  case (Some gs)
  obtain rc cb2 where g: "add_regions gs (cb\<lparr>is_secure := dt_secure_cb nd\<rparr>) = (rc, cb2)"
    by (cases "add_regions gs (cb\<lparr>is_secure := dt_secure_cb nd\<rparr>)")
  have "dt_frame cb (cb\<lparr>is_secure := dt_secure_cb nd\<rparr>)" by (simp add: dt_frame_def)
  then have f: "dt_frame cb cb2" using dt_frame_trans add_regions_frame [of "cb\<lparr>is_secure := dt_secure_cb nd\<rparr>" gs] g by auto
  then have "dt_frame cb (cb2\<lparr>cb_discard_iova_start := a, cb_discard_iova_len := l\<rparr>)" for a l
    by (simp add: dt_frame_def)
  with f show ?thesis
    by (simp add: cam_smmu_get_memory_regions_info_def Some g Let_def split_beta)
qed (simp add: cam_smmu_get_memory_regions_info_def dt_frame_def)

lemma init_scratch_bounds:
  assumes "unat sz < 2 ^ 32" "unat base < 2 ^ 32" "sc_bitmap m = None" "cam_smmu_init_scratch_map kz base sz 0 m = (rc, m')"
  shows "sc_bitmap m' \<noteq> None \<longrightarrow> sc_order m' = 0 \<and> unat (sc_bits m') \<le> 2 ^ 20 \<and> unat (sc_base m') < 2 ^ 32"
proof -
  define c where "c = (ucast (drop_bit 12 sz) :: u32)"
  have "unat (drop_bit 12 sz) < 2 ^ 20" using assms(1) by (simp add: drop_bit_eq_div unat_div_distrib)
  then have c: "unat c < 2 ^ 20" by (simp add: c_def unsigned_ucast_eq take_bit_nat_eq_self)
  define q where "q = (ucast c + 63 :: u64) div 64 * 8"
  have "unat (ucast c + 63 :: u64) = unat c + 63" using c by (simp add: unat_word_ariths unsigned_ucast_eq take_bit_nat_eq_self)
  then have "unat ((ucast c + 63 :: u64) div 64) \<le> 2 ^ 14" using c by (simp add: unat_div_distrib)
  then have q: "unat q \<le> 2 ^ 17" by (simp add: q_def unat_word_ariths)
  then have "unat (ucast q :: u32) = unat q" by (simp add: unsigned_ucast_eq take_bit_nat_eq_self)
  then have "unat (8 * ucast q :: u32) \<le> 2 ^ 20" using q by (simp add: unat_word_ariths)
  then have "unat (ucast (8 * ucast q :: u32) :: u64) \<le> 2 ^ 20" by (simp add: unsigned_ucast_eq take_bit_nat_eq_self)
  then show ?thesis
    using assms(2-4) by (auto simp: cam_smmu_init_scratch_map_def Let_def c_def [symmetric] q_def [symmetric] split: if_splits)
qed

section \<open>Probing\<close>

lemma setup_pool_form:
  "\<exists>v. cb_info (snd (setup_pool env i s)) = (cb_info s)(i := (cb_info s i)\<lparr>shared_mem_pool := v\<rparr>)
     \<and> cb_num (snd (setup_pool env i s)) = cb_num s \<and> cb_init_count (snd (setup_pool env i s)) = cb_init_count s"
  unfolding setup_pool_def
  by (auto simp: Let_def sx_def intro: exI [of _ "shared_mem_pool (cb_info s i)"] exI [of _ "0 :: ptr"])

text \<open>A set-up that does not fail.\<close>

definition set_up :: "nat \<Rightarrow> cam_iommu_cb_set \<Rightarrow> cam_iommu_cb_set \<Rightarrow> bool" where
  "set_up i s t \<longleftrightarrow> cb_num t = cb_num s \<and> cb_init_count t = cb_init_count s \<and> (\<forall>j. j \<noteq> i \<longrightarrow> cb_info t j = cb_info s j)
     \<and> cb_handle (cb_info t i) = cb_handle (cb_info s i) \<and> smmu_buf_list (cb_info t i) = smmu_buf_list (cb_info s i)
     \<and> smmu_buf_kernel_list (cb_info t i) = smmu_buf_kernel_list (cb_info s i) \<and> is_secure (cb_info t i) = is_secure (cb_info s i)
     \<and> scratch_info (cb_info t i) = scratch_info (cb_info s i)
     \<and> (sc_bitmap (scratch_map (cb_info t i)) \<noteq> None \<longrightarrow> sc_order (scratch_map (cb_info t i)) = 0
          \<and> unat (sc_bits (scratch_map (cb_info t i))) \<le> 2 ^ 20 \<and> unat (sc_base (scratch_map (cb_info t i))) < 2 ^ 32)"

lemma setup_cb_form:
  assumes res: "cam_smmu_setup_cb env i dev s = (rc, t)" and ok: "\<not> rc < 0"
    and b: "sc_bitmap (scratch_map (cb_info s i)) = None"
      "unat (iova_start (scratch_info (cb_info s i))) < 2 ^ 32" "unat (iova_len (scratch_info (cb_info s i))) < 2 ^ 32"
  shows "set_up i s t"
proof -
  define s1 where "s1 = upd_cb i (\<lambda>b. b\<lparr>cb_dev := dev, is_fw_allocated := False, is_secheap_allocated := False, monitor_head := - 1\<rparr>) s"
  obtain rc1 go s2 where p: "setup_pool env i s1 = ((rc1, go), s2)" by (metis surj_pair)
  obtain v where v: "cb_info s2 = (cb_info s1)(i := (cb_info s1 i)\<lparr>shared_mem_pool := v\<rparr>)" "cb_num s2 = cb_num s1"
    "cb_init_count s2 = cb_init_count s1"
    using setup_pool_form [of env i s1] p by auto
  obtain rc2 m where m: "cam_smmu_init_scratch_map (er_val (fst (sx env (Kzalloc 1) s2)) \<noteq> 0) (iova_start (scratch_info (cb_info s i)))
      (iova_len (scratch_info (cb_info s i))) 0 (scratch_map (cb_info s i)) = (rc2, m)"
    by (metis surj_pair)
  note bounds = init_scratch_bounds [OF b(3,2,1) m]
  have "dev \<noteq> 0" using res ok by (auto simp: cam_smmu_setup_cb_def)
  then show ?thesis
    using res ok bounds b(1) m v
    unfolding cam_smmu_setup_cb_def set_up_def
    by (auto simp: p [unfolded s1_def] s1_def Let_def sx_def split: if_splits)
qed

lemma release_num: "cb_num (cam_smmu_release_cb env s) = 0"
  by (simp add: cam_smmu_release_cb_def)

lemma populate_ok:
  assumes ok: "probe_ok s" and res: "cam_populate_smmu_context_banks env dev nd ty s = (rc, t)" and rc: "\<not> rc < 0 \<or> ty = CAM_QSMMU"
  shows "probe_ok t"
proof (cases "dev = 0 \<or> cb_num s \<le> cb_init_count s \<or> CAM_SMMU_SHARED_HDL_MAX < label_count nd")
  case True
  then show ?thesis using ok res
    by (auto simp: cam_populate_smmu_context_banks_def Let_def probe_ok_def bank_fresh_def split: if_splits)
next
  case False
  define i where "i = cb_init_count s"
  define b where "b = (cb_info s i)\<lparr>is_mul_client := dt_multiple_client nd, cb_name := (case dt_labels nd of None \<Rightarrow> [] | Some ls \<Rightarrow> ls)\<rparr>"
  obtain rc1 cb where cb: "cam_smmu_get_memory_regions_info nd b = (rc1, cb)" by (cases "cam_smmu_get_memory_regions_info nd b")
  have i: "i < cb_num s" using False by (simp add: i_def)
  have old: "bank_fresh (cb_info s i)" "sc_bitmap (scratch_map (cb_info s i)) = None" using ok i by (simp_all add: probe_ok_def i_def)
  have f: "dt_frame b cb" using regions_info_frame [of b nd] cb by simp
  then have fresh: "bank_fresh cb" "sc_bitmap (scratch_map cb) = None"
    using old by (auto simp: dt_frame_def b_def bank_fresh_def)
  define s3 where "s3 = upd_cb i (\<lambda>_. cb) (upd_cb i (\<lambda>b. b\<lparr>cb_name := (case dt_labels nd of None \<Rightarrow> [] | Some ls \<Rightarrow> ls)\<rparr>)
      (upd_cb i (\<lambda>b. b\<lparr>is_mul_client := dt_multiple_client nd\<rparr>) s))"
  have s3: "cb_info s3 = (cb_info s)(i := cb)" "cb_num s3 = cb_num s" "cb_init_count s3 = i"
    by (simp_all add: s3_def i_def)
  have ok3: "probe_ok s3" using ok fresh by (auto simp: probe_ok_def s3 i_def)
  have nxt: "probe_ok (u\<lparr>cb_init_count := Suc i\<rparr>)" if "cb_num u = cb_num s" "\<And>j. j \<noteq> i \<Longrightarrow> cb_info u j = cb_info s j" "bank_fresh (cb_info u i)" for u
  proof -
    note h = that
    have "bank_fresh (cb_info u j) \<and> (Suc i \<le> j \<longrightarrow> sc_bitmap (scratch_map (cb_info u j)) = None)" if "j < cb_num s" for j
      using ok h that by (cases "j = i") (simp_all add: probe_ok_def i_def)
    then show ?thesis using ok h(1) by (simp add: probe_ok_def)
  qed
  show ?thesis
  proof (cases "rc1 < 0 \<or> is_secure cb \<or> ty = CAM_QSMMU")
    case True
    have "bank_fresh (cb\<lparr>cb_dev := dev\<rparr>)" using fresh by (simp add: bank_fresh_def)
    then show ?thesis
      using res False True ok3 nxt [of "upd_cb i (\<lambda>b. b\<lparr>cb_dev := dev\<rparr>) s3"]
      unfolding cam_populate_smmu_context_banks_def
      by (auto simp: Let_def i_def [symmetric] b_def [symmetric] cb s3_def [symmetric] s3 split: if_splits)
  next
    case nf: False
    obtain rc2 s4 where st: "cam_smmu_setup_cb env i dev s3 = (rc2, s4)" by (cases "cam_smmu_setup_cb env i dev s3")
    have "\<not> rc2 < 0"
      using res False nf rc st unfolding cam_populate_smmu_context_banks_def
      by (auto simp: Let_def i_def [symmetric] b_def [symmetric] cb s3_def [symmetric] s3 split: if_splits)
    then have up: "set_up i s3 s4" using setup_cb_form [OF st] fresh by (simp add: s3 bank_fresh_def)
    then have "bank_fresh (cb_info s4 i)" using fresh nf by (simp add: set_up_def s3 bank_fresh_def)
    moreover have "cb_num s4 = cb_num s" "\<And>j. j \<noteq> i \<Longrightarrow> cb_info s4 j = cb_info s j" using up by (simp_all add: set_up_def s3)
    ultimately show ?thesis
      using res False nf \<open>\<not> rc2 < 0\<close> nxt [of s4] nxt [of "sx' env c s4" for c] unfolding cam_populate_smmu_context_banks_def
      by (auto simp: Let_def i_def [symmetric] b_def [symmetric] cb s3_def [symmetric] s3 st split: if_splits)
  qed
qed

lemma probe_child_ok: "probe_ok s \<Longrightarrow> probe_ok (snd (cam_smmu_probe_child env c s))"
proof (cases c)
  case (Cb_node dev nd)
  assume ok: "probe_ok s"
  obtain rc t where t: "cam_populate_smmu_context_banks env dev nd CAM_ARM_SMMU s = (rc, t)"
    by (cases "cam_populate_smmu_context_banks env dev nd CAM_ARM_SMMU s")
  show ?thesis using populate_ok [OF ok t] by (auto simp: Cb_node t probe_ok_def release_num)
next
  case (Qsmmu_node dev nd)
  assume ok: "probe_ok s"
  obtain rc t where t: "cam_populate_smmu_context_banks env dev nd CAM_QSMMU s = (rc, t)"
    by (cases "cam_populate_smmu_context_banks env dev nd CAM_QSMMU s")
  show ?thesis using populate_ok [OF ok t] by (simp add: Qsmmu_node t)
qed (simp add: probe_ok_def)

text \<open>
  The states after the probe of the parent, where the array of banks could be allocated; when it
  could not, the number of banks stays and their pointer is null.
\<close>

definition smmu_init :: "cam_iommu_cb_set \<Rightarrow> bool" where
  "smmu_init s \<longleftrightarrow> (\<exists>env children prc v. length children \<le> 65535 \<and> s = snd (cam_smmu_probe env True children prc v)
     \<and> cb_num v = 0)"

lemma reset_form:
  "cb_num (cam_smmu_reset_iommu_table s) = cb_num s"
  "i < cb_num s \<Longrightarrow> cb_info (cam_smmu_reset_iommu_table s) i = (cb_info s i)\<lparr>cb_handle := HANDLE_INIT, smmu_buf_list := [],
     smmu_buf_kernel_list := [], cb_state := CAM_SMMU_DETACH, cb_dev := 0, cb_count := 0, pf_count := 0,
     cb_token := replicate CAM_SMMU_CB_MAX 0, cb_handler := replicate CAM_SMMU_CB_MAX 0\<rparr>"
proof -
  have f: "cb_num (fold (\<lambda>i. upd_cb i g) js t) = cb_num t" for g js t
    by (induction js arbitrary: t) simp_all
  show "cb_num (cam_smmu_reset_iommu_table s) = cb_num s" by (simp add: cam_smmu_reset_iommu_table_def f)
  have g: "distinct js \<Longrightarrow> cb_info (fold (\<lambda>i. upd_cb i g) js t) i = (if i \<in> set js then g (cb_info t i) else cb_info t i)" for g js t i
    by (induction js arbitrary: t) auto
  show "i < cb_num s \<Longrightarrow> cb_info (cam_smmu_reset_iommu_table s) i = (cb_info s i)\<lparr>cb_handle := HANDLE_INIT, smmu_buf_list := [],
     smmu_buf_kernel_list := [], cb_state := CAM_SMMU_DETACH, cb_dev := 0, cb_count := 0, pf_count := 0,
     cb_token := replicate CAM_SMMU_CB_MAX 0, cb_handler := replicate CAM_SMMU_CB_MAX 0\<rparr>"
    unfolding cam_smmu_reset_iommu_table_def by (subst g) simp_all
qed

lemma probe_ok_init:
  assumes "length children \<le> 65535" "cb_num v = 0"
  shows "probe_ok (snd (cam_smmu_probe env True children prc v))"
proof -
  define n where "n = length (filter is_bank_node children)"
  have n: "n \<le> 65535" unfolding n_def using assms(1) length_filter_le [of is_bank_node children] by linarith
  obtain rc s1 where a: "cam_alloc_smmu_context_banks True n v = (rc, s1)" by (cases "cam_alloc_smmu_context_banks True n v")
  have ok1: "probe_ok s1"
    using a n by (auto simp: cam_alloc_smmu_context_banks_def probe_ok_def reset_form bank_fresh_def zero_cb_def zero_info_def split: if_splits)
  have "probe_ok (fold (\<lambda>c s. snd (cam_smmu_probe_child env c s)) cs t)" if "probe_ok t" for cs t
    using that by (induction cs arbitrary: t) (simp_all add: probe_child_ok)
  from this [OF ok1] show ?thesis
    unfolding cam_smmu_probe_def n_def [symmetric] a by (simp add: ok1 Let_def) (simp add: probe_ok_def)
qed

section \<open>The system\<close>

inductive smmu_step :: "cam_iommu_cb_set \<Rightarrow> cam_iommu_cb_set \<Rightarrow> bool" where
  st_get_handle: "cam_smmu_get_handle rand nm s = Some (r, t) \<Longrightarrow> smmu_step s t"
| st_ops: "smmu_step s (snd (cam_smmu_ops env h op s))"
| st_set_handler: "smmu_step s (cam_smmu_set_client_page_fault_handler h hc tok s)"
| st_unset_handler: "smmu_step s (cam_smmu_unset_client_page_fault_handler h tok s)"
| st_fault: "smmu_step s (snd (cam_smmu_iommu_fault_handler env kz lim dm dev iova flags nm s))"
| st_alloc_fw: "smmu_step s (snd (cam_smmu_alloc_firmware env h s))"
| st_dealloc_fw: "smmu_step s (snd (cam_smmu_dealloc_firmware env h s))"
| st_alloc_qdss: "smmu_step s (snd (cam_smmu_alloc_qdss env h s))"
| st_dealloc_qdss: "smmu_step s (snd (cam_smmu_dealloc_qdss env h s))"
| st_reserve_heap: "smmu_step s (snd (cam_smmu_reserve_sec_heap env h buf s))"
| st_release_heap: "smmu_step s (snd (cam_smmu_release_sec_heap env h s))"
| st_map_user: "0 \<le> fd \<Longrightarrow> smmu_step s (snd (cam_smmu_map_user_iova env h fd dis dir pa ln rg s))"
| st_map_kernel: "smmu_step s (snd (cam_smmu_map_kernel_iova env h buf dir pa ln rg s))"
| st_get_iova: "smmu_step s (snd (cam_smmu_get_iova h fd s))"
| st_get_stage2: "smmu_step s (snd (cam_smmu_get_stage2_iova h fd s))"
| st_put_iova: "smmu_step s (snd (cam_smmu_put_iova h fd s))"
| st_unmap_user: "smmu_step s (snd (cam_smmu_unmap_user_iova env h fd s))"
| st_unmap_kernel: "smmu_step s (snd (cam_smmu_unmap_kernel_iova env h buf s))"
| st_map_stage2: "smmu_step s (snd (cam_smmu_map_stage2_iova env h fd dir s))"
| st_unmap_stage2: "smmu_step s (snd (cam_smmu_unmap_stage2_iova env h fd s))"
| st_get_scratch: "unat vl \<le> 2 ^ 32 \<Longrightarrow> smmu_step s (snd (cam_smmu_get_scratch_iova env h dir va vl pl s))"
| st_put_scratch: "scratch_address h a s \<Longrightarrow> smmu_step s (snd (cam_smmu_put_scratch_iova env h a s))"
| st_destroy: "smmu_step s (snd (cam_smmu_destroy_handle env h s))"
| st_remove: "smmu_step s (cam_smmu_remove env parent s)"

lemma remove_wf: "smmu_wf s \<Longrightarrow> smmu_wf (cam_smmu_remove env parent s)"
proof -
  assume wf: "smmu_wf s"
  have "bank_wf i (cb_info (cam_smmu_reset_iommu_table s) i)" if "i < cb_num s" for i
    using bank_lists [OF wf that] that
    by (auto simp: reset_form bank_wf_def lists_wf_def user_ok_def kernel_ok_def sec_ok_def scratch_ok_def split: if_splits)
  then show ?thesis using wf
    by (simp add: cam_smmu_remove_def Let_def release_num smmu_wf_def reset_form)
qed

lemma smmu_step_wf: "smmu_step s t \<Longrightarrow> smmu_wf s \<Longrightarrow> smmu_wf t"
proof (induction rule: smmu_step.induct)
  case (st_get_handle rand nm s r t)
  then show ?case using get_handle_wf by blast
next
  case (st_remove s env parent)
  then show ?case by (rule remove_wf)
qed (blast intro: op_map_user.keeps op_map_kernel.keeps op_get_iova.keeps op_get_stage2.keeps op_put_iova.keeps
    op_unmap_user.keeps op_unmap_kernel.keeps op_map_stage2.keeps op_unmap_stage2.keeps op_get_scratch.keeps
    op_put_scratch.keeps op_destroy.keeps
    smmu_wf_core [OF ops_core] smmu_wf_core [OF fault_handler_core(1)] smmu_wf_core [OF fault_handler_core(2)]
    smmu_wf_core [OF fault_core] smmu_wf_core [OF firmware_core(1)] smmu_wf_core [OF firmware_core(2)]
    smmu_wf_core [OF qdss_core(1)] smmu_wf_core [OF qdss_core(2)] smmu_wf_core [OF secheap_core(1)] smmu_wf_core [OF secheap_core(2)])+

interpretation smmu: invariant_system smmu_init smmu_step smmu_wf
proof
  fix s assume "smmu_init s"
  then show "smmu_wf s" using probe_ok_init probe_ok_wf by (auto simp: smmu_init_def)
next
  fix s t assume "smmu_wf s" "smmu_step s t"
  then show "smmu_wf t" by (rule smmu_step_wf [rotated])
qed

end
