(* ===== verification/Cam_Smmu_Run.thy ===== *)
theory Cam_Smmu_Run
  imports Cam_Smmu_Reach
begin

text \<open>
  A run of the context banks on which their properties are applied: a device tree with one bank that
  has an IO and a scratch region and one secure bank, and clients that take their handles.
\<close>

section \<open>The device tree\<close>

definition smmu_run_env :: smmu_env where
  "smmu_run_env = \<lparr>smmu_orc = (\<lambda>n. \<lparr>er_rc = 0, er_val = 4096 * of_nat (Suc n), er_len = 8192\<rparr>), buf_size = (\<lambda>_. 8192),
     table_sgl = (\<lambda>_. 1), sg_dma_address = (\<lambda>_. 0x7400000), sg_phys = (\<lambda>_. 0x80000000), sg_dma_len = (\<lambda>_. 8192), sg_page = (\<lambda>_. 2)\<rparr>"

definition smmu_run_region :: "u32 \<Rightarrow> u32 \<Rightarrow> u32 \<Rightarrow> dt_region" where
  "smmu_run_region st ln k = \<lparr>rg_name = Some ''r'', rg_start = Some st, rg_len = Some ln, rg_id = Some k, rg_qdss_phy_addr = None, rg_discard = None\<rparr>"

definition smmu_run_io :: dt_bank where
  "smmu_run_io = \<lparr>dt_labels = Some [''jpeg''], dt_multiple_client = False, dt_secure_cb = False,
     dt_mem_map = Some [smmu_run_region 0x100000 0x40000 2, smmu_run_region 0x7400000 0x8000000 3], dt_discard = None\<rparr>"

definition smmu_run_sec :: dt_bank where
  "smmu_run_sec = \<lparr>dt_labels = Some [''cam-secure''], dt_multiple_client = False, dt_secure_cb = True, dt_mem_map = None, dt_discard = None\<rparr>"

definition smmu_run_nodes :: "dt_child list" where
  "smmu_run_nodes = [Cb_node 8 smmu_run_io, Cb_node 16 smmu_run_sec]"

definition smmu_unset :: cam_iommu_cb_set where
  "smmu_unset = \<lparr>cb_info = (\<lambda>_. zero_cb), cb_num = 0, cb_init_count = 0, payload_list = [],
     icp_fw = \<lparr>fw_dev = 0, fw_kva = 0, fw_dma_hdl = 0\<rparr>, smmu_trace = [], undef = False\<rparr>"

definition smmu_run_bank :: cam_context_bank_info where
  "smmu_run_bank = zero_cb\<lparr>cb_handle := HANDLE_INIT, cb_state := CAM_SMMU_DETACH\<rparr>"

lemma smmu_run_bank_sel [simp]:
  "cb_handle smmu_run_bank = HANDLE_INIT" "smmu_buf_list smmu_run_bank = []" "smmu_buf_kernel_list smmu_run_bank = []"
  "shared_support smmu_run_bank = False" "io_support smmu_run_bank = False" "scratch_buf_support smmu_run_bank = False"
  "is_secure smmu_run_bank = False" "is_mul_client smmu_run_bank = False" "cb_discard_iova_start smmu_run_bank = 0"
  "io_info smmu_run_bank = zero_info" "scratch_info smmu_run_bank = zero_info" "secure_count smmu_run_bank = 0"
  "scratch_map smmu_run_bank = \<lparr>sc_bitmap = None, sc_bits = 0, sc_order = 0, sc_base = 0\<rparr>"
  by (simp_all add: smmu_run_bank_def zero_cb_def)

definition smmu_run_regs :: cam_context_bank_info where
  "smmu_run_regs = smmu_run_bank\<lparr>is_mul_client := False, cb_name := [''jpeg''], is_secure := False, scratch_buf_support := True,
     scratch_info := \<lparr>iova_start = 0x100000, iova_len = 0x40000, discard_iova_start = 0, discard_iova_len = 0\<rparr>,
     io_support := True,
     io_info := \<lparr>iova_start = 0x7400000, iova_len = 0x8000000, discard_iova_start = 0, discard_iova_len = 0\<rparr>,
     cb_discard_iova_start := 0, cb_discard_iova_len := 0\<rparr>"

definition smmu_run_io_bank :: cam_context_bank_info where
  "smmu_run_io_bank = smmu_run_regs\<lparr>cb_dev := 8, is_fw_allocated := False, is_secheap_allocated := False, monitor_head := - 1,
     scratch_map := \<lparr>sc_bitmap = Some (\<lambda>_. False), sc_bits = 64, sc_order = 0, sc_base = 0x100000\<rparr>,
     cb_domain := 8192, cb_state := CAM_SMMU_ATTACH\<rparr>"

definition smmu_run_sec_bank :: cam_context_bank_info where
  "smmu_run_sec_bank = smmu_run_bank\<lparr>is_mul_client := False, cb_name := [''cam-secure''], is_secure := True, cb_dev := 16\<rparr>"

lemma smmu_run_regions:
  "cam_smmu_get_memory_regions_info smmu_run_io (smmu_run_bank\<lparr>is_mul_client := False, cb_name := [''jpeg'']\<rparr>) = (0, smmu_run_regs)"
  by (simp add: cam_smmu_get_memory_regions_info_def smmu_run_io_def smmu_run_region_def add_region_def set_region_def zero_info_def
      cam_smmu_get_discard_memory_regions_def discard_ok_def Let_def smmu_run_regs_def)

lemma smmu_run_child0:
  assumes "cb_info s 0 = smmu_run_bank" "cb_num s = 2" "cb_init_count s = 0" "smmu_trace s = []"
  shows "snd (cam_smmu_probe_child smmu_run_env (Cb_node 8 smmu_run_io) s)
    = s\<lparr>cb_info := (cb_info s)(0 := smmu_run_io_bank), cb_init_count := 1,
        smmu_trace := [Kzalloc 1, Iommu_get_domain 8, Iommu_enable_best_fit 8, Iommu_set_fault_handler 8192 ''jpeg'']\<rparr>"
  using assms smmu_run_regions
  apply (simp add: cam_populate_smmu_context_banks_def Let_def label_count_def)
  apply (simp add: smmu_run_io_def [THEN arg_cong [where f = dt_labels]] smmu_run_io_def [THEN arg_cong [where f = dt_multiple_client]] upd_cb_def
      smmu_run_regs_def [THEN arg_cong [where f = is_secure]])
  apply (simp add: cam_smmu_setup_cb_def setup_pool_def cam_smmu_init_scratch_map_def sx_def sx'_def smmu_run_env_def is_err_or_null_def
      smmu_run_regs_def upd_cb_def Let_def smmu_run_io_bank_def)
  done

lemma smmu_run_child1:
  assumes "cb_info s 1 = smmu_run_bank" "cb_num s = 2" "cb_init_count s = 1"
  shows "snd (cam_smmu_probe_child smmu_run_env (Cb_node 16 smmu_run_sec) s) = s\<lparr>cb_info := (cb_info s)(1 := smmu_run_sec_bank), cb_init_count := 2\<rparr>"
  using assms
  by (simp add: cam_populate_smmu_context_banks_def Let_def label_count_def smmu_run_sec_def upd_cb_def cam_smmu_get_memory_regions_info_def
      smmu_run_sec_bank_def)

section \<open>After the probe\<close>

definition smmu_run0 :: cam_iommu_cb_set where
  "smmu_run0 = snd (cam_smmu_probe smmu_run_env True smmu_run_nodes 0 smmu_unset)"

lemma smmu_run0_init: "smmu_init smmu_run0"
  unfolding smmu_init_def smmu_run0_def
  by (intro exI [of _ smmu_run_env] exI [of _ smmu_run_nodes] exI [of _ 0] exI [of _ smmu_unset])
    (simp add: smmu_run_nodes_def smmu_unset_def)

lemma smmu_run_alloc:
  "\<exists>t. cam_alloc_smmu_context_banks True 2 smmu_unset = (0, t) \<and> cb_info t 0 = smmu_run_bank \<and> cb_info t 1 = smmu_run_bank
     \<and> cb_num t = 2 \<and> cb_init_count t = 0 \<and> smmu_trace t = [] \<and> \<not> undef t"
  by (simp add: cam_alloc_smmu_context_banks_def cam_smmu_reset_iommu_table_def smmu_unset_def upd_cb_def zero_cb_def smmu_run_bank_def upt_rec
      numeral_2_eq_2)

lemma smmu_run0_state:
  "cb_num smmu_run0 = 2" "cb_info smmu_run0 0 = smmu_run_io_bank" "cb_info smmu_run0 (Suc 0) = smmu_run_sec_bank"
  "length (smmu_trace smmu_run0) = 4" "\<not> undef smmu_run0"
proof -
  obtain t where t: "cam_alloc_smmu_context_banks True 2 smmu_unset = (0, t)" "cb_info t 0 = smmu_run_bank" "cb_info t (Suc 0) = smmu_run_bank"
    "cb_num t = 2" "cb_init_count t = 0" "smmu_trace t = []" "\<not> undef t" using smmu_run_alloc by auto
  note p = t t(1) [unfolded numeral_2_eq_2] smmu_run_child0 [of t] smmu_run_child1 [unfolded One_nat_def]
  show "cb_num smmu_run0 = 2" "cb_info smmu_run0 0 = smmu_run_io_bank" "cb_info smmu_run0 (Suc 0) = smmu_run_sec_bank"
    "length (smmu_trace smmu_run0) = 4" "\<not> undef smmu_run0"
    by (simp_all add: smmu_run0_def cam_smmu_probe_def smmu_run_nodes_def p Let_def del: cam_smmu_probe_child.simps)
qed

text \<open>The fields of the two banks.\<close>

lemma smmu_run_banks [simp]:
  "cb_handle smmu_run_io_bank = HANDLE_INIT" "cb_name smmu_run_io_bank = [''jpeg'']" "is_secure smmu_run_io_bank = False"
  "is_mul_client smmu_run_io_bank = False" "cb_state smmu_run_io_bank = CAM_SMMU_ATTACH" "smmu_buf_list smmu_run_io_bank = []"
  "smmu_buf_kernel_list smmu_run_io_bank = []" "scratch_buf_support smmu_run_io_bank = True" "cb_domain smmu_run_io_bank = 8192"
  "scratch_map smmu_run_io_bank = \<lparr>sc_bitmap = Some (\<lambda>_. False), sc_bits = 64, sc_order = 0, sc_base = 0x100000\<rparr>"
  "cb_handle smmu_run_sec_bank = HANDLE_INIT" "cb_name smmu_run_sec_bank = [''cam-secure'']" "is_secure smmu_run_sec_bank = True" "is_mul_client smmu_run_sec_bank = False"
  "smmu_buf_list smmu_run_sec_bank = []" "cb_dev smmu_run_sec_bank = 16" "cb_dev smmu_run_io_bank = 8"
  by (simp_all add: smmu_run_io_bank_def smmu_run_sec_bank_def smmu_run_regs_def)

section \<open>With handles\<close>

definition io_hdl :: int where "io_hdl = GET_SMMU_HDL 0 7"
definition sec_hdl :: int where "sec_hdl = GET_SMMU_HDL 1 9"

lemma run_hdls [simp]: "io_hdl \<noteq> HANDLE_INIT" "sec_hdl \<noteq> HANDLE_INIT" "GET_SMMU_TABLE_IDX io_hdl = 0" "GET_SMMU_TABLE_IDX sec_hdl = 1"
  by (simp_all add: io_hdl_def sec_hdl_def hdl_not_init hdl_idx)

definition smmu_run1 :: cam_iommu_cb_set where
  "smmu_run1 = upd_cb 0 (\<lambda>b. b\<lparr>cb_handle := io_hdl, cb_count := 0\<rparr>) smmu_run0"

definition smmu_run2 :: cam_iommu_cb_set where
  "smmu_run2 = upd_cb 1 (\<lambda>b. b\<lparr>cb_handle := sec_hdl, cb_count := 0, secure_count := secure_count b + 1\<rparr>) smmu_run1"

lemma smmu_run0_reach: "reach smmu_init smmu_step smmu_run0"
  by (rule reach_init) (rule smmu_run0_init)

lemma smmu_run1_handle: "cam_smmu_get_handle (\<lambda>_. 7) (Some ''jpeg'') smmu_run0 = Some ((0, Some io_hdl), smmu_run1)"
  using new_handle_first [OF smmu.reach_inv [OF smmu_run0_reach], of 0 "\<lambda>_. 7" 0]
  by (simp add: cam_smmu_get_handle_def cam_smmu_create_add_handle_in_table_def smmu_run0_state upt_rec io_hdl_def smmu_run1_def upd_cb_def)

lemma smmu_run1_reach: "reach smmu_init smmu_step smmu_run1"
  by (rule reach_step [OF smmu_run0_reach]) (rule st_get_handle [OF smmu_run1_handle])

lemma smmu_run2_handle: "cam_smmu_get_handle (\<lambda>_. 9) (Some ''cam-secure'') smmu_run1 = Some ((0, Some sec_hdl), smmu_run2)"
  using new_handle_first [OF smmu.reach_inv [OF smmu_run1_reach], of 1 "\<lambda>_. 9" 0]
  by (simp add: cam_smmu_get_handle_def cam_smmu_create_add_handle_in_table_def smmu_run0_state upt_rec sec_hdl_def smmu_run1_def smmu_run2_def
      upd_cb_def)

lemma smmu_run2_reach: "reach smmu_init smmu_step smmu_run2"
  by (rule reach_step [OF smmu_run1_reach]) (rule st_get_handle [OF smmu_run2_handle])

lemma smmu_run2_state:
  "cb_num smmu_run2 = 2" "length (smmu_trace smmu_run2) = 4" "\<not> undef smmu_run2"
  "cb_info smmu_run2 0 = smmu_run_io_bank\<lparr>cb_handle := io_hdl, cb_count := 0\<rparr>"
  "cb_info smmu_run2 (Suc 0) = smmu_run_sec_bank\<lparr>cb_handle := sec_hdl, cb_count := 0, secure_count := secure_count smmu_run_sec_bank + 1\<rparr>"
  "hdl_bank io_hdl smmu_run2 = Some 0" "hdl_bank sec_hdl smmu_run2 = Some (Suc 0)"
  by (simp_all add: smmu_run2_def smmu_run1_def smmu_run0_state hdl_bank_def)

section \<open>A mapped buffer and two scratch buffers\<close>

definition smmu_run3 :: cam_iommu_cb_set where
  "smmu_run3 = snd (cam_smmu_map_user_iova smmu_run_env io_hdl 5 False CAM_SMMU_MAP_READ 0 0 CAM_SMMU_REGION_IO smmu_run2)"

definition run_buf :: cam_dma_buff_info where
  "run_buf = \<lparr>mp_buf = 20480, mp_attach = 24576, mp_table = 28672, mp_dir = Some DMA_BIDIRECTIONAL, mp_region_id = CAM_SMMU_REGION_IO,
     mp_iommu_dir = 0, mp_ref_count = 1, mp_paddr = 0x7400000, mp_ion_fd = 5, mp_len = 8192, mp_phys_len = 0\<rparr>"

lemma run_env [simp]: "er_rc (smmu_orc smmu_run_env n) = 0" "er_val (smmu_orc smmu_run_env n) = 4096 * of_nat (Suc n)"
  "er_len (smmu_orc smmu_run_env n) = 8192" "buf_size smmu_run_env p = 8192" "table_sgl smmu_run_env p = 1"
  "sg_dma_address smmu_run_env p = 0x7400000" "sg_phys smmu_run_env p = 0x80000000" "sg_dma_len smmu_run_env p = 8192"
  by (simp_all add: smmu_run_env_def)

lemma smmu_run3_map: "fst (cam_smmu_map_user_iova smmu_run_env io_hdl 5 False CAM_SMMU_MAP_READ 0 0 CAM_SMMU_REGION_IO smmu_run2) = (0, 0x7400000, 8192)"
  and smmu_run3_calls: "smmu_trace smmu_run3 = smmu_trace smmu_run2
     @ [Buf_get 5, Buf_attach 20480 8, Map_attachment 24576 (Some DMA_BIDIRECTIONAL) True False, Kzalloc 1]"
  and smmu_run3_state: "smmu_buf_list (cb_info smmu_run3 0) = [Dma_entry run_buf]" "\<not> undef smmu_run3" "length (smmu_trace smmu_run3) = 8"
   "cb_num smmu_run3 = 2" "is_secure (cb_info smmu_run3 0) = False" "cb_handle (cb_info smmu_run3 0) = io_hdl"
   "scratch_map (cb_info smmu_run3 0) = \<lparr>sc_bitmap = Some (\<lambda>_. False), sc_bits = 64, sc_order = 0, sc_base = 0x100000\<rparr>"
   "scratch_buf_support (cb_info smmu_run3 0)" "cb_state (cb_info smmu_run3 0) = CAM_SMMU_ATTACH"
  by (simp_all add: smmu_run3_def cam_smmu_map_user_iova_def cam_smmu_map_iova_validate_params_def smmu_run2_state Let_def cam_smmu_check_fd_in_list_def
    cam_smmu_map_buffer_and_add_to_list_def sx_def cam_smmu_map_buffer_validate_def is_err_or_null_def map_finish_def cam_smmu_update_monitor_array_def
    add_user_def run_buf_def)

lemma run_order: "get_order 8192 = 1" "get_order 4096 = 0"
  by (simp_all add: get_order_def order_from.simps)

lemma run_pages: "PAGE_ALIGN 8192 = 8192" "scratch_count 0 2 = 3"
  by (simp_all add: PAGE_ALIGN_def scratch_count_def)

lemma run_area0: "bitmap_find_next_zero_area (\<lambda>_. False) 64 0 3 2 = 0"
  by (simp add: bitmap_find_next_zero_area.simps find_next_zero_bit.simps find_next_bit_def align_up_def Let_def)

lemma run_area1: "bitmap_find_next_zero_area (bitmap_set (\<lambda>_. False) 0 3) 64 0 3 2 = 4"
  by (simp add: bitmap_find_next_zero_area.simps find_next_zero_bit.simps find_next_bit_def align_up_def Let_def bitmap_set_def)

definition run_scratch :: "u64 \<Rightarrow> ptr \<Rightarrow> cam_dma_buff_info" where
  "run_scratch a t = \<lparr>mp_buf = 0, mp_attach = 0, mp_table = t, mp_dir = Some DMA_BIDIRECTIONAL, mp_region_id = CAM_SMMU_REGION_SCRATCH,
     mp_iommu_dir = IOMMU_READ, mp_ref_count = 1, mp_paddr = a, mp_ion_fd = SCRATCH_FD, mp_len = 8192, mp_phys_len = 4096\<rparr>"

text \<open>One scratch buffer of two pages from the next free place of the region.\<close>

definition run_taken :: "bitmap \<Rightarrow> nat \<Rightarrow> u64 \<Rightarrow> ptr \<Rightarrow> cam_iommu_cb_set \<Rightarrow> cam_iommu_cb_set \<Rightarrow> bool" where
  "run_taken bm p a tb s t \<longleftrightarrow> cb_num t = cb_num s \<and> length (smmu_trace t) = length (smmu_trace s) + 5
     \<and> cb_info t 0 = (cb_info s 0)\<lparr>scratch_map := \<lparr>sc_bitmap = Some (bitmap_set bm p 3), sc_bits = 64,
       sc_order = 0, sc_base = 0x100000\<rparr>, smmu_buf_list := Dma_entry (run_scratch a tb) # smmu_buf_list (cb_info s 0)\<rparr>"

lemma run_get_scratch:
  assumes "hdl_bank io_hdl s = Some 0" "cb_handle (cb_info s 0) = io_hdl" "scratch_buf_support (cb_info s 0)" "cb_state (cb_info s 0) = CAM_SMMU_ATTACH"
    "scratch_map (cb_info s 0) = \<lparr>sc_bitmap = Some bm, sc_bits = 64, sc_order = 0, sc_base = 0x100000\<rparr>"
  shows "bitmap_find_next_zero_area bm 64 0 3 2 = 0 \<Longrightarrow> length (smmu_trace s) = 8
    \<Longrightarrow> run_taken bm 0 0x100000 36864 s (snd (cam_smmu_get_scratch_iova smmu_run_env io_hdl CAM_SMMU_MAP_READ 0 8192 4096 s))"
    "bitmap_find_next_zero_area bm 64 0 3 2 = 4 \<Longrightarrow> length (smmu_trace s) = 13
    \<Longrightarrow> run_taken bm 4 0x104000 57344 s (snd (cam_smmu_get_scratch_iova smmu_run_env io_hdl CAM_SMMU_MAP_READ 0 8192 4096 s))"
  using assms
  by (auto simp: cam_smmu_get_scratch_iova_def Let_def IS_ALIGNED_def cam_smmu_alloc_scratch_buffer_add_to_list_def sx_def cam_smmu_alloc_scratch_va_def
      run_order run_pages IOMMU_READ_def add_user_def upd_cb_def run_scratch_def run_taken_def)

definition smmu_run4 :: cam_iommu_cb_set where
  "smmu_run4 = snd (cam_smmu_get_scratch_iova smmu_run_env io_hdl CAM_SMMU_MAP_READ 0 8192 4096 smmu_run3)"

definition smmu_run5 :: cam_iommu_cb_set where
  "smmu_run5 = snd (cam_smmu_get_scratch_iova smmu_run_env io_hdl CAM_SMMU_MAP_READ 0 8192 4096 smmu_run4)"

lemma smmu_run4_taken: "run_taken (\<lambda>_. False) 0 0x100000 36864 smmu_run3 smmu_run4"
  unfolding smmu_run4_def by (rule run_get_scratch(1)) (simp_all add: smmu_run3_state hdl_bank_def run_area0)

lemma smmu_run5_taken: "run_taken (bitmap_set (\<lambda>_. False) 0 3) 4 0x104000 57344 smmu_run4 smmu_run5"
  unfolding smmu_run5_def
  by (rule run_get_scratch(2)) (simp_all add: smmu_run4_taken [unfolded run_taken_def] smmu_run3_state run_area1 hdl_bank_def)

lemma smmu_run5_state:
  "smmu_buf_list (cb_info smmu_run5 0) = [Dma_entry (run_scratch 0x104000 57344), Dma_entry (run_scratch 0x100000 36864), Dma_entry run_buf]"
  "cb_num smmu_run5 = 2" "sc_base (scratch_map (cb_info smmu_run5 0)) = 0x100000" "is_secure (cb_info smmu_run5 0) = False"
  "cb_handle (cb_info smmu_run5 0) = io_hdl"
  by (simp_all add: smmu_run4_taken [unfolded run_taken_def] smmu_run5_taken [unfolded run_taken_def] smmu_run3_state)

lemma smmu_run5_reach: "reach smmu_init smmu_step smmu_run5"
proof -
  have "reach smmu_init smmu_step smmu_run3"
    unfolding smmu_run3_def by (rule reach_step, rule smmu_run2_reach, rule st_map_user) simp
  then have "reach smmu_init smmu_step smmu_run4"
    unfolding smmu_run4_def by (rule reach_step, intro st_get_scratch) simp
  then show ?thesis
    unfolding smmu_run5_def by (rule reach_step, intro st_get_scratch) simp
qed

section \<open>A protected buffer\<close>

lemma run_protected:
  "\<exists>t. cam_smmu_map_stage2_iova smmu_run_env sec_hdl 5 CAM_SMMU_MAP_READ smmu_run2 = ((0, 0x80000000, 8192), t)
     \<and> smmu_trace t = smmu_trace smmu_run2 @ [Buf_get 5, Buf_attach 20480 16, Map_attachment 24576 (Some DMA_FROM_DEVICE) False True, Kzalloc 1]"
  by (simp add: cam_smmu_map_stage2_iova_def smmu_run2_state cam_smmu_check_secure_fd_in_list_def Let_def
      cam_smmu_map_stage2_buffer_and_add_to_list_def sx_def is_err_or_null_def add_user_def)

end
