(* ===== verification/Cam_Smmu_Props.thy ===== *)
theory Cam_Smmu_Props
  imports Cam_Smmu_Run
begin

text \<open>The properties of the context banks.\<close>

section \<open>Handles and lists\<close>

text \<open>C13: in every state the context banks reach, a handle names its bank; the list of a secure bank holds
  protected buffers only, each once and with at least one reference; the list of another bank holds
  mapped buffers, each descriptor once, besides its scratch buffers; no buffer is on the list of
  the kernel twice.\<close>

theorem smmu_reachable_wf:
  assumes "reach smmu_init smmu_step s" "i < cb_num s"
  shows "(cb_handle (cb_info s i) = HANDLE_INIT \<or> GET_SMMU_TABLE_IDX (cb_handle (cb_info s i)) = i)
    \<and> (if is_secure (cb_info s i)
       then (\<exists>es. smmu_buf_list (cb_info s i) = map Sec_entry es \<and> distinct (map sb_ion_fd es) \<and> list_all (\<lambda>e. 1 \<le> sb_ref_count e) es)
       else (\<exists>es. smmu_buf_list (cb_info s i) = map Dma_entry es
               \<and> distinct (map mp_ion_fd (filter (\<lambda>m. mp_region_id m \<noteq> CAM_SMMU_REGION_SCRATCH) es))
               \<and> list_all (\<lambda>m. mp_table m \<noteq> 0 \<and> (mp_region_id m = CAM_SMMU_REGION_SCRATCH
                    \<or> mp_buf m \<noteq> 0 \<and> mp_attach m \<noteq> 0 \<and> mp_paddr m \<noteq> 0 \<and> mp_len m \<noteq> 0)) es))
    \<and> distinct (map mp_buf (smmu_buf_kernel_list (cb_info s i)))"
proof -
  have wf: "bank_wf i (cb_info s i)" by (rule smmu_wfD [OF smmu.reach_inv [OF assms(1)] assms(2)])
  show ?thesis
  proof (cases "is_secure (cb_info s i)")
    case True
    then show ?thesis using wf by (auto simp: bank_wf_def lists_wf_def sec_ok_def kernel_ok_def list_all_iff)
  next
    case False
    then obtain es where es: "smmu_buf_list (cb_info s i) = map Dma_entry es" "user_ok es"
      using wf by (auto simp: bank_wf_def lists_wf_def)
    then have "list_all (\<lambda>m. mp_table m \<noteq> 0 \<and> (mp_region_id m = CAM_SMMU_REGION_SCRATCH
        \<or> mp_buf m \<noteq> 0 \<and> mp_attach m \<noteq> 0 \<and> mp_paddr m \<noteq> 0 \<and> mp_len m \<noteq> 0)) es"
      by (auto simp: user_ok_def mapped_def is_scratch_def list_all_iff)
    then show ?thesis using wf False es
      by (auto simp: bank_wf_def user_ok_def kernel_ok_def is_scratch_def)
  qed
qed

theorem smmu_reachable_wf_witness:
  "GET_SMMU_TABLE_IDX (cb_handle (cb_info smmu_run5 0)) = 0 \<and> length (smmu_buf_list (cb_info smmu_run5 0)) = 3
    \<and> (\<exists>es. smmu_buf_list (cb_info smmu_run5 0) = map Dma_entry es
         \<and> distinct (map mp_ion_fd (filter (\<lambda>m. mp_region_id m \<noteq> CAM_SMMU_REGION_SCRATCH) es)))"
proof -
  have "\<exists>es. smmu_buf_list (cb_info smmu_run5 0) = map Dma_entry es
      \<and> distinct (map mp_ion_fd (filter (\<lambda>m. mp_region_id m \<noteq> CAM_SMMU_REGION_SCRATCH) es))"
    using smmu_reachable_wf [OF smmu_run5_reach, of 0] by (auto simp: smmu_run5_state(2,4))
  then show ?thesis by (simp add: smmu_run5_state(5)) (simp add: smmu_run5_state)
qed

text \<open>C16: two scratch buffers of a bank lie apart, with at least the guard page between them (addresses counted
  from the start of the scratch region). This holds in every state that the operations of the context banks
  reach from the probe, when scratch buffers are asked for with lengths of at most 4 GB and only the address of a
  scratch buffer, or an address no mapping has, is given back to \<open>cam_smmu_put_scratch_iova\<close>. That function does not check
  what it is given (nothing in the source calls it): with the address of another mapping it can clear the bits
  of a scratch buffer, and the property says nothing of such a run.\<close>

theorem smmu_scratch_disjoint:
  assumes "reach smmu_init smmu_step s" "i < cb_num s"
    "smmu_buf_list (cb_info s i) ! p = Dma_entry a" "smmu_buf_list (cb_info s i) ! q = Dma_entry b"
    "p < q" "q < length (smmu_buf_list (cb_info s i))"
    "mp_region_id a = CAM_SMMU_REGION_SCRATCH" "mp_region_id b = CAM_SMMU_REGION_SCRATCH"
  shows "unat (mp_paddr a - sc_base (scratch_map (cb_info s i))) + unat (mp_len a) + 4096 \<le> unat (mp_paddr b - sc_base (scratch_map (cb_info s i)))
    \<or> unat (mp_paddr b - sc_base (scratch_map (cb_info s i))) + unat (mp_len b) + 4096 \<le> unat (mp_paddr a - sc_base (scratch_map (cb_info s i)))"
proof -
  have wf: "smmu_wf s" by (rule smmu.reach_inv [OF assms(1)])
  have "\<not> is_secure (cb_info s i)" by (rule dma_not_secure [OF wf assms(2,6,4)])
  then obtain es where es: "smmu_buf_list (cb_info s i) = map Dma_entry es" "scratch_ok (scratch_map (cb_info s i)) (filter is_scratch es)"
    using bank_lists [OF wf assms(2)] by (auto simp: lists_wf_def)
  define m where "m = scratch_map (cb_info s i)"
  have pq: "es ! p = a" "es ! q = b" "q < length es" using es(1) assms(3-6) by auto
  obtain as bs cs where split: "es = as @ a # bs @ b # cs"
  proof -
    have "es = take p es @ a # drop (Suc p) es" using id_take_nth_drop [of p es] pq assms(5) by simp
    moreover have "drop (Suc p) es = take (q - Suc p) (drop (Suc p) es) @ b # drop (Suc (q - Suc p)) (drop (Suc p) es)"
      using id_take_nth_drop [of "q - Suc p" "drop (Suc p) es"] pq assms(5) by simp
    ultimately show thesis using that by metis
  qed
  have ok: "scratch_ok m (filter is_scratch as @ a # filter is_scratch bs @ b # filter is_scratch cs)"
    using es(2) assms(7,8) by (simp add: split m_def is_scratch_def)
  then have disj: "scratch_area m a \<inter> scratch_area m b = {}" and page: "4096 dvd unat (mp_paddr a - sc_base m)"
    "4096 dvd unat (mp_len a)" "4096 dvd unat (mp_paddr b - sc_base m)" "4096 dvd unat (mp_len b)"
    by (auto simp: scratch_ok_def sorted_wrt_append)
  then obtain x l y k where xy: "unat (mp_paddr a - sc_base m) = 4096 * x" "unat (mp_len a) = 4096 * l"
    "unat (mp_paddr b - sc_base m) = 4096 * y" "unat (mp_len b) = 4096 * k" by (auto simp: dvd_def)
  have "x + l < y \<or> y + k < x"
  proof (rule ccontr)
    assume "\<not> (x + l < y \<or> y + k < x)"
    then have "max x y \<in> scratch_area m a \<inter> scratch_area m b" by (auto simp: scratch_area_def xy)
    then show False using disj by blast
  qed
  then show ?thesis by (auto simp: m_def [symmetric] xy)
qed

theorem smmu_scratch_disjoint_witness:
  "unat (mp_paddr (run_scratch 0x100000 36864) - 0x100000) + unat (mp_len (run_scratch 0x100000 36864)) + 4096
     \<le> unat (mp_paddr (run_scratch 0x104000 57344) - 0x100000)"
  using smmu_scratch_disjoint [OF smmu_run5_reach, of 0 0 "run_scratch 0x104000 57344" 1 "run_scratch 0x100000 36864"]
  by (simp add: smmu_run5_state run_scratch_def)

text \<open>asking for a handle of a bank that has none ends at the first cookie, whatever the random numbers:
  the handle is valid, leads to the bank, and no other bank has it.\<close>

theorem smmu_get_handle_returns:
  assumes "reach smmu_init smmu_step s"
    "find (\<lambda>i. nm \<in> set (cb_name (cb_info s i))) [0..<cb_num s] = Some i" "cb_handle (cb_info s i) = HANDLE_INIT"
  shows "\<exists>h t. cam_smmu_get_handle rand (Some nm) s = Some ((0, Some h), t) \<and> hdl_bank h t = Some i
    \<and> cb_handle (cb_info t i) = h \<and> list_all (\<lambda>j. j = i \<or> cb_handle (cb_info t j) \<noteq> h) [0..<cb_num t]"
proof -
  have wf: "smmu_wf s" by (rule smmu.reach_inv [OF assms(1)])
  have i: "i < cb_num s" using assms(2) by (auto simp: find_Some_iff)
  have b: "i < 65535" using wf i by (simp add: smmu_wf_def)
  define h where "h = GET_SMMU_HDL i (rand 0)"
  have h: "h \<noteq> HANDLE_INIT" "GET_SMMU_TABLE_IDX h = i" using hdl_not_init [OF b] hdl_idx b by (simp_all add: h_def)
  have "cb_handle (cb_info s j) \<noteq> h" if "j < cb_num s" "j \<noteq> i" for j
    using smmu_wfD [OF wf that(1)] that(2) h by (auto simp: bank_wf_def)
  then show ?thesis
    using i h new_handle_first [OF wf i assms(3), of rand 0]
    by (auto simp: cam_smmu_get_handle_def cam_smmu_create_add_handle_in_table_def assms(2,3) Let_def h_def [symmetric]
        hdl_bank_def list_all_iff)
qed

theorem smmu_get_handle_returns_witness:
  "\<exists>h t. cam_smmu_get_handle (\<lambda>k. of_nat k) (Some ''cam-secure'') smmu_run0 = Some ((0, Some h), t) \<and> hdl_bank h t = Some 1
     \<and> cb_handle (cb_info t 0) \<noteq> h"
proof -
  have "find (\<lambda>i. ''cam-secure'' \<in> set (cb_name (cb_info smmu_run0 i))) [0..<cb_num smmu_run0] = Some 1"
    by (simp add: smmu_run0_state upt_rec)
  then obtain h t where "cam_smmu_get_handle (\<lambda>k. of_nat k) (Some ''cam-secure'') smmu_run0 = Some ((0, Some h), t)" "hdl_bank h t = Some 1"
    "list_all (\<lambda>j. j = 1 \<or> cb_handle (cb_info t j) \<noteq> h) [0..<cb_num t]"
    using smmu_get_handle_returns [OF smmu_run0_reach, of "''cam-secure''" 1 "\<lambda>k. of_nat k"] by (auto simp: smmu_run0_state)
  then show ?thesis by (force simp: hdl_bank_def list_all_iff split: if_splits)
qed

section \<open>Mapping and unmapping\<close>

lemma hdl_bank_num: "cb_num t = cb_num s \<Longrightarrow> hdl_bank h t = hdl_bank h s"
  by (simp add: hdl_bank_def)

text \<open>Mapping does not change whether the bank is attached.\<close>

lemma validate_state: "cb_state (cb_info (snd (cam_smmu_map_buffer_validate env buf i d p l rg dis s)) j) = cb_state (cb_info s j)"
  by (cases rg) (simp_all add: cam_smmu_map_buffer_validate_def Let_def split_beta sx_def)

lemma map_buffer_success:
  assumes res: "cam_smmu_map_buffer_and_add_to_list env i fd dis d p l rg s = ((0, paddr, len), t)" "\<not> undef t"
  shows "\<exists>m. mapped m \<and> mp_ion_fd m = fd \<and> mp_paddr m = paddr \<and> mp_len m = len
    \<and> same_core (add_user i (Dma_entry m) s) t \<and> cb_state (cb_info t i) = cb_state (cb_info s i)"
proof -
  obtain r s1 where r: "sx env (Buf_get fd) s = (r, s1)" by (cases "sx env (Buf_get fd) s")
  then have s1: "cb_info s1 = cb_info s" "cb_num s1 = cb_num s" by (auto simp: sx_def)
  obtain v s2 where v: "cam_smmu_map_buffer_validate env (er_val r) i d p l rg dis s1 = (v, s2)"
    by (cases "cam_smmu_map_buffer_validate env (er_val r) i d p l rg dis s1")
  have "same_core s1 s2" using validate_core [of s1 env "er_val r" i d p l rg dis] v by simp
  then have core: "same_core s s2" using same_core_trans [OF same_core_info [OF s1]] by blast
  have st: "cb_state (cb_info s2 i) = cb_state (cb_info s i)"
    using validate_state [of env "er_val r" i d p l rg dis s1 i] v s1 by simp
  obtain m where m: "mr_mapping v = Some m"
    using res by (cases "mr_mapping v") (auto simp: cam_smmu_map_buffer_and_add_to_list_def r v)
  have val: "mapped m" "mr_rc v = 0" "mr_paddr v = mp_paddr m" "mr_len v = mp_len m"
    using validate_mapping [of env "er_val r" i d p l rg dis s1 m] v m by simp_all
  define m' where "m' = m\<lparr>mp_ion_fd := fd\<rparr>"
  have t: "t = upd_cb i (cam_smmu_update_monitor_array True m') (add_user i (Dma_entry m') s2)"
    "paddr = mp_paddr m'" "len = mp_len m'"
    using res(1) by (simp_all add: cam_smmu_map_buffer_and_add_to_list_def r v m val Let_def m'_def)
  have "same_core (add_user i (Dma_entry m') s) (add_user i (Dma_entry m') s2)"
    using core by (simp add: same_core_def add_user_def bank_core_def)
  then have "same_core (add_user i (Dma_entry m') s) t" unfolding t(1) by (rule monitor_core)
  moreover have "cb_state (cb_info t i) = cb_state (cb_info s i)"
    by (simp add: t(1) st add_user_def cam_smmu_update_monitor_array_def Let_def)
  moreover have "mapped m'" using val(1) by (simp add: mapped_def m'_def)
  ultimately show ?thesis using t(2,3) by (auto simp: m'_def)
qed

lemma map_user_success:
  assumes res: "cam_smmu_map_user_iova env h fd dis dir pa ln rg s = ((0, paddr, len), t)" "\<not> undef t"
  obtains i m where "hdl_bank h s = Some i" "cb_handle (cb_info s i) = h" "\<not> is_secure (cb_info s i)"
    "cam_smmu_translate_dir dir \<noteq> None"
    "find_dma (\<lambda>m. mp_ion_fd m = fd) (smmu_buf_list (cb_info s i)) = Some None"
    "mapped m" "mp_ion_fd m = fd" "mp_paddr m = paddr" "mp_len m = len" "same_core (add_user i (Dma_entry m) s) t"
    "cb_state (cb_info t i) = CAM_SMMU_ATTACH"
proof -
  define i where "i = GET_SMMU_TABLE_IDX h"
  have c: "hdl_bank h s = Some i" "cb_handle (cb_info s i) = h" "\<not> is_secure (cb_info s i)"
    "cb_state (cb_info s i) = CAM_SMMU_ATTACH" "cam_smmu_translate_dir dir \<noteq> None"
    "find_dma (\<lambda>m. mp_ion_fd m = fd) (smmu_buf_list (cb_info s i)) = Some None"
    using res hdl_bank_lt [of h s] unfolding cam_smmu_map_user_iova_def cam_smmu_map_iova_validate_params_def i_def
    by (auto simp: Let_def check_fd_None split: if_splits option.splits)
  have "\<exists>pa ln. cam_smmu_map_buffer_and_add_to_list env i fd dis (cast_dir dir) pa ln rg s = ((0, paddr, len), t)"
    using res(1) c(1-5) c(6) [folded check_fd_None]
    unfolding cam_smmu_map_user_iova_def cam_smmu_map_iova_validate_params_def
    by (auto simp: Let_def i_def [symmetric] hdl_bank_def split: if_splits)
  then obtain m where "mapped m" "mp_ion_fd m = fd" "mp_paddr m = paddr" "mp_len m = len"
    "same_core (add_user i (Dma_entry m) s) t" "cb_state (cb_info t i) = cb_state (cb_info s i)"
    using map_buffer_success res(2) by blast
  with that [of i m] c show thesis by simp
qed

text \<open>C14: a buffer that user space maps is found under the address and the length that were returned, mapping it
  again is refused with the same address and changes nothing, and unmapping it makes the list of
  the bank what it was before, so that it is not found any more.\<close>

theorem smmu_map_unmap_roundtrip:
  assumes "reach smmu_init smmu_step s" "0 \<le> fd"
    and res: "cam_smmu_map_user_iova env h fd dis dir pa ln rg s = ((0, paddr, len), t)" "\<not> undef t"
  shows "cam_smmu_get_iova h fd t = ((0, paddr, len), t)
    \<and> cam_smmu_map_user_iova env h fd dis dir pa ln rg t = ((- EALREADY, paddr, len), t)
    \<and> (case cam_smmu_unmap_user_iova env h fd t of (rc, u) \<Rightarrow> rc = 0
         \<and> (\<lambda>b. (smmu_buf_list b, smmu_buf_kernel_list b)) \<circ> cb_info u = (\<lambda>b. (smmu_buf_list b, smmu_buf_kernel_list b)) \<circ> cb_info s
         \<and> cam_smmu_get_iova h fd u = ((- EINVAL, 0, 0), u))"
proof -
  have wf: "smmu_wf s" by (rule smmu.reach_inv [OF assms(1)])
  obtain i m where m: "hdl_bank h s = Some i" "cb_handle (cb_info s i) = h" "\<not> is_secure (cb_info s i)"
    "cam_smmu_translate_dir dir \<noteq> None" "find_dma (\<lambda>m. mp_ion_fd m = fd) (smmu_buf_list (cb_info s i)) = Some None"
    "mapped m" "mp_ion_fd m = fd" "mp_paddr m = paddr" "mp_len m = len" "same_core (add_user i (Dma_entry m) s) t"
    "cb_state (cb_info t i) = CAM_SMMU_ATTACH"
    by (rule map_user_success [OF res])
  note i = hdl_bank_lt [OF m(1)]
  have wft: "smmu_wf t" using op_map_user.keeps [OF wf assms(2), of env h dis dir pa ln rg] res by simp
  have t: "cb_num t = cb_num s" "cb_handle (cb_info t i) = h" "\<not> is_secure (cb_info t i)"
    "smmu_buf_list (cb_info t i) = Dma_entry m # smmu_buf_list (cb_info s i)"
    using core_fields [OF m(10)] m(2,3) by (simp_all add: add_user_def)
  have hb: "hdl_bank h t = Some i" using hdl_bank_num [OF t(1)] m(1) by simp
  have chk: "cam_smmu_check_fd_in_list i fd t = Some (Some m)"
    by (simp add: cam_smmu_check_fd_in_list_def t(4) m(7))
  have get: "cam_smmu_get_iova h fd t = ((0, paddr, len), t)"
    using t hb chk m(8,9) by (simp add: cam_smmu_get_iova_def)
  have again: "cam_smmu_map_user_iova env h fd dis dir pa ln rg t = ((- EALREADY, paddr, len), t)"
    using t hb chk m(4,8,9,11) i
    by (simp add: cam_smmu_map_user_iova_def cam_smmu_map_iova_validate_params_def Let_def)
  have fnd: "cam_smmu_find_mapping_by_ion_index i fd t = Some (Some 0)"
    using assms(2) by (simp add: cam_smmu_find_mapping_by_ion_index_def t(4) m(7))
  have "\<not> is_scratch m" using m(6) by (auto simp: mapped_def is_scratch_def)
  then obtain u where u: "same_core t u" "unmap_user_at env i 0 t = (0, del_user i 0 u)"
    using unmap_user_at_core [OF wft _ t(3), of 0 m env] t i by auto
  define v where "v = del_user i 0 u"
  have unmap: "cam_smmu_unmap_user_iova env h fd t = (0, v)"
    using hb t fnd u(2) i by (simp add: cam_smmu_unmap_user_iova_def cam_smmu_unmap_validate_params_def Let_def v_def)
  have lists: "smmu_buf_list (cb_info v j) = smmu_buf_list (cb_info s j) \<and> smmu_buf_kernel_list (cb_info v j) = smmu_buf_kernel_list (cb_info s j)" for j
    using core_fields(1-5) [OF same_core_trans [OF m(10) u(1)], of j] by (cases "j = i") (simp_all add: v_def del_user_def add_user_def del_at_def)
  have v: "cb_num v = cb_num s" "cb_handle (cb_info v i) = h" "\<not> is_secure (cb_info v i)"
    using core_fields [OF same_core_trans [OF m(10) u(1)]] m(2,3) by (simp_all add: v_def del_user_def add_user_def)
  have "cam_smmu_check_fd_in_list i fd v = Some None" using m(5) lists by (simp add: check_fd_None)
  moreover have "hdl_bank h v = Some i" using hdl_bank_num [OF v(1)] m(1) by simp
  ultimately have "cam_smmu_get_iova h fd v = ((- EINVAL, 0, 0), v)" using v by (simp add: cam_smmu_get_iova_def)
  with get again unmap lists show ?thesis by (simp add: fun_eq_iff)
qed

theorem smmu_map_unmap_roundtrip_witness:
  "cam_smmu_get_iova io_hdl 5 smmu_run3 = ((0, 0x7400000, 8192), smmu_run3)
    \<and> fst (cam_smmu_unmap_user_iova smmu_run_env io_hdl 5 smmu_run3) = 0
    \<and> smmu_buf_list (cb_info (snd (cam_smmu_unmap_user_iova smmu_run_env io_hdl 5 smmu_run3)) 0) = []"
proof -
  have "cam_smmu_map_user_iova smmu_run_env io_hdl 5 False CAM_SMMU_MAP_READ 0 0 CAM_SMMU_REGION_IO smmu_run2 = ((0, 0x7400000, 8192), smmu_run3)"
    using smmu_run3_map by (simp add: smmu_run3_def prod_eq_iff)
  from smmu_map_unmap_roundtrip [OF smmu_run2_reach _ this]
  show ?thesis by (auto simp: smmu_run3_state smmu_run2_state fun_eq_iff split_beta)
qed

section \<open>Directions\<close>

text \<open>
  The memory manager passes its direction, a \<open>dma_data_direction\<close>, as a \<open>cam_smmu_map_dir\<close>: the number
  is kept.
\<close>

fun as_map_dir :: "dma_dir \<Rightarrow> cam_smmu_map_dir" where
  "as_map_dir DMA_BIDIRECTIONAL = CAM_SMMU_MAP_READ"
| "as_map_dir DMA_TO_DEVICE = CAM_SMMU_MAP_WRITE"
| "as_map_dir DMA_FROM_DEVICE = CAM_SMMU_MAP_RW"

text \<open>The directions in which a call has attachments mapped.\<close>

definition new_dirs :: "cam_iommu_cb_set \<Rightarrow> cam_iommu_cb_set \<Rightarrow> dma_dir option set" where
  "new_dirs s t = {d. \<exists>a x y. Map_attachment a d x y \<in> set (drop (length (smmu_trace s)) (smmu_trace t))}"

fun in_dir :: "dma_dir option \<Rightarrow> smmu_call \<Rightarrow> bool" where
  "in_dir d (Map_attachment a d' x y) = (d' = d)"
| "in_dir d c = True"

definition maps_as :: "dma_dir option \<Rightarrow> cam_iommu_cb_set \<Rightarrow> cam_iommu_cb_set \<Rightarrow> bool" where
  "maps_as d s t \<longleftrightarrow> (\<exists>cs. smmu_trace t = smmu_trace s @ cs \<and> list_all (in_dir d) cs)"

lemma maps_as_dirs: "maps_as d s t \<Longrightarrow> new_dirs s t \<subseteq> {d}"
  by (fastforce simp: maps_as_def new_dirs_def list_all_iff)

lemma maps_as_refl: "maps_as d s s"
  by (simp add: maps_as_def)

lemma maps_as_same: "maps_as d s t \<Longrightarrow> smmu_trace u = smmu_trace t \<Longrightarrow> maps_as d s u"
  by (simp add: maps_as_def)

lemma maps_as_call: "maps_as d s t \<Longrightarrow> in_dir d c \<Longrightarrow> maps_as d s (sx' env c t)"
  by (force simp: maps_as_def)

lemma maps_as_sx: "maps_as d s t \<Longrightarrow> in_dir d c \<Longrightarrow> maps_as d s (snd (sx env c t))"
  by (force simp: maps_as_def sx_def)

lemmas maps_as_upd = maps_as_same [OF _ upd_cb_simps(6)]

lemma maps_as_err:
  "maps_as d s t \<Longrightarrow> maps_as d s (err_put env b t)" "maps_as d s t \<Longrightarrow> maps_as d s (err_detach env b a t)"
  "maps_as d s t \<Longrightarrow> maps_as d s (err_unmap_sg env b a tb e t)"
  by (simp_all add: err_put_def err_detach_def err_unmap_sg_def maps_as_call)

lemma maps_as_iova: "maps_as d s t \<Longrightarrow> maps_as d s (snd (cam_smmu_alloc_iova env z h t))"
  "maps_as d s t \<Longrightarrow> maps_as d s (snd (cam_smmu_free_iova env a z h t))"
  by (auto simp: cam_smmu_alloc_iova_def cam_smmu_free_iova_def Let_def split_beta maps_as_call maps_as_sx split: option.splits)

lemma maps_as_undef: "maps_as d s (t\<lparr>undef := x\<rparr>) = maps_as d s t"
  by (simp add: maps_as_def)

lemmas maps_as_rules = maps_as_undef maps_as_err maps_as_iova maps_as_call maps_as_sx maps_as_upd

lemma maps_as_finish: "maps_as d s t \<Longrightarrow> maps_as d s (snd (map_finish env i b a tb e rg v z p l t))"
  by (simp add: map_finish_def err_alloc_def Let_def split_beta maps_as_rules)

lemma maps_as_validate: "maps_as d s t \<Longrightarrow> maps_as d s (snd (cam_smmu_map_buffer_validate env b i d p l rg dis t))"
  by (cases rg)
    (simp_all add: cam_smmu_map_buffer_validate_def Let_def split_beta maps_as_rules maps_as_finish maps_as_same)

lemma maps_as_add: "maps_as d s (snd (cam_smmu_map_buffer_and_add_to_list env i fd dis d p l rg s))"
proof -
  obtain v t where v: "cam_smmu_map_buffer_validate env (er_val (fst (sx env (Buf_get fd) s))) i d p l rg dis (snd (sx env (Buf_get fd) s)) = (v, t)"
    by fastforce
  have "maps_as d s t"
    using maps_as_validate [of d s "snd (sx env (Buf_get fd) s)" env "er_val (fst (sx env (Buf_get fd) s))" i p l rg dis]
      maps_as_sx [OF maps_as_refl, where c = "Buf_get fd" and d = d and env = env and s = s] v by simp
  then show ?thesis
    by (cases "mr_mapping v")
      (simp_all add: cam_smmu_map_buffer_and_add_to_list_def split_beta v Let_def add_user_def maps_as_undef maps_as_upd)
qed

lemma user_dir: "maps_as (cast_dir dir) s (snd (cam_smmu_map_user_iova env h fd dis dir pa ln rg s))"
  by (auto simp: cam_smmu_map_user_iova_def Let_def split_beta maps_as_refl maps_as_undef maps_as_add split: option.splits)

lemma maps_as_stage2: "maps_as d s t \<Longrightarrow> maps_as d s (snd (cam_smmu_map_stage2_buffer_and_add_to_list env i fd d t))"
  by (simp add: cam_smmu_map_stage2_buffer_and_add_to_list_def Let_def split_beta add_user_def maps_as_rules)

lemma stage2_dir: "maps_as (cam_smmu_translate_dir dir) s (snd (cam_smmu_map_stage2_iova env h fd dir s))"
proof -
  have "maps_as d s t" if "cam_smmu_check_secure_fd_in_list i fd s = Some (r, t)" for i d r t
    using that by (auto simp: cam_smmu_check_secure_fd_in_list_def ref_at_def maps_as_refl maps_as_upd split: option.splits)
  then show ?thesis
    by (auto simp: cam_smmu_map_stage2_iova_def Let_def maps_as_refl maps_as_undef maps_as_stage2 split: option.splits)
qed

text \<open>The direction a protected buffer is mapped in.\<close>

fun protected_dir :: "dma_dir \<Rightarrow> dma_dir" where
  "protected_dir DMA_BIDIRECTIONAL = DMA_FROM_DEVICE"
| "protected_dir DMA_TO_DEVICE = DMA_TO_DEVICE"
| "protected_dir DMA_FROM_DEVICE = DMA_BIDIRECTIONAL"

text \<open>a direction the memory manager derives from the flags of a buffer arrives unchanged where the buffer
  is mapped for a bank that is not secure. For a protected buffer it passes through a translation
  it was not meant for: a buffer the hardware shall read and write is mapped as one the device only
  writes, and a buffer it shall only write is mapped in both directions.\<close>

theorem smmu_direction_of_flags:
  assumes "cam_mem_util_get_dma_dir flags = Inr d"
  shows "new_dirs s (snd (cam_smmu_map_user_iova env h fd dis (as_map_dir d) pa ln rg s)) \<subseteq> {Some d}
    \<and> new_dirs s (snd (cam_smmu_map_stage2_iova env h fd (as_map_dir d) s)) \<subseteq> {Some (protected_dir d)}"
  using maps_as_dirs [OF user_dir [of "as_map_dir d" s env h fd dis pa ln rg]]
    maps_as_dirs [OF stage2_dir [of "as_map_dir d" s env h fd]]
  by (cases d) simp_all

theorem smmu_direction_of_flags_witness:
  "new_dirs smmu_run2 smmu_run3 = {Some DMA_BIDIRECTIONAL}
    \<and> new_dirs smmu_run2 (snd (cam_smmu_map_stage2_iova smmu_run_env sec_hdl 5 CAM_SMMU_MAP_READ smmu_run2)) = {Some DMA_FROM_DEVICE}"
proof -
  have "cam_mem_util_get_dma_dir CAM_MEM_FLAG_HW_READ_WRITE = Inr DMA_BIDIRECTIONAL"
    by (simp add: cam_mem_util_get_dma_dir_def flag_set_def CAM_MEM_FLAG_HW_READ_WRITE_def CAM_MEM_FLAG_HW_READ_ONLY_def CAM_MEM_FLAG_HW_WRITE_ONLY_def)
  note dirs = smmu_direction_of_flags [OF this]
  have "new_dirs smmu_run2 smmu_run3 \<subseteq> {Some DMA_BIDIRECTIONAL}"
    using dirs [of smmu_run2 smmu_run_env io_hdl 5 False 0 0 CAM_SMMU_REGION_IO] by (simp add: smmu_run3_def)
  moreover have "Some DMA_BIDIRECTIONAL \<in> new_dirs smmu_run2 smmu_run3" by (auto simp: new_dirs_def smmu_run3_calls)
  moreover have "new_dirs smmu_run2 (snd (cam_smmu_map_stage2_iova smmu_run_env sec_hdl 5 CAM_SMMU_MAP_READ smmu_run2)) \<subseteq> {Some DMA_FROM_DEVICE}"
    using dirs [of smmu_run2 smmu_run_env sec_hdl 5] by simp
  moreover have "Some DMA_FROM_DEVICE \<in> new_dirs smmu_run2 (snd (cam_smmu_map_stage2_iova smmu_run_env sec_hdl 5 CAM_SMMU_MAP_READ smmu_run2))"
    using run_protected by (auto simp: new_dirs_def)
  ultimately show ?thesis by blast
qed

section \<open>Protected buffers\<close>

text \<open>
  What a secure bank promises: a table of descriptors with the number of mappings that are open, the
  address and the length.
\<close>

type_synonym prot_table = "int \<rightharpoonup> int \<times> u64 \<times> u64"

definition prot_map :: "int \<Rightarrow> u64 \<Rightarrow> u64 \<Rightarrow> prot_table \<Rightarrow> prot_table" where
  "prot_map fd a l M = M(fd \<mapsto> (case M fd of None \<Rightarrow> (1, a, l) | Some (k, b, n) \<Rightarrow> (k + 1, b, n)))"

definition prot_unmap :: "int \<Rightarrow> prot_table \<Rightarrow> prot_table" where
  "prot_unmap fd M = M(fd := (case M fd of None \<Rightarrow> None | Some (k, b, n) \<Rightarrow> if 1 < k then Some (k - 1, b, n) else None))"

fun prot_row :: "cam_sec_buff_info \<Rightarrow> int \<times> int \<times> u64 \<times> u64" where
  "prot_row m = (sb_ion_fd m, sb_ref_count m, sb_paddr m, sb_len m)"

definition prot_of :: "cam_context_bank_info \<Rightarrow> prot_table" where
  "prot_of b = map_of (map prot_row (List.map_filter sec_of (smmu_buf_list b)))"

lemma filter_sec [simp]: "List.map_filter sec_of (map Sec_entry es) = es"
  by (induction es) (simp_all add: List.map_filter_simps)

lemma fst_later: "distinct (map fst (x # xs)) \<Longrightarrow> q < length xs \<Longrightarrow> fst (xs ! q) \<noteq> fst x"
  by (metis distinct.simps(2) length_map list.simps(9) nth_map nth_mem)

lemma map_of_update_at:
  "distinct (map fst xs) \<Longrightarrow> p < length xs \<Longrightarrow> map_of (xs[p := (fst (xs ! p), v)]) = (map_of xs)(fst (xs ! p) \<mapsto> v)"
proof (induction xs arbitrary: p)
  case (Cons x xs)
  have "fst (xs ! q) \<noteq> fst x" if "q < length xs" for q
    by (rule fst_later [OF Cons.prems(1) that])
  then show ?case using Cons by (cases p) (auto simp: fun_eq_iff)
qed simp

lemma map_of_del_at: "distinct (map fst xs) \<Longrightarrow> p < length xs \<Longrightarrow> map_of (del_at p xs) = (map_of xs)(fst (xs ! p) := None)"
proof (induction xs arbitrary: p)
  case (Cons x xs)
  show ?case
  proof (cases p)
    case 0
    then show ?thesis using Cons.prems by (auto simp: del_at_def fun_eq_iff map_of_eq_None_iff)
  next
    case (Suc q)
    then have "del_at p (x # xs) = x # del_at q xs" by (simp add: del_at_def)
    moreover have "fst (xs ! q) \<noteq> fst x"
      using fst_later [OF Cons.prems(1), of q] Cons.prems(2) Suc by simp
    ultimately show ?thesis using Cons Suc by (auto simp: fun_eq_iff)
  qed
qed simp

lemma find_pos_row:
  assumes "distinct (map sb_ion_fd es)"
  shows "map_of (map prot_row es) fd = (case find_pos (\<lambda>m. sb_ion_fd m = fd) es of None \<Rightarrow> None | Some p \<Rightarrow> Some (snd (prot_row (es ! p))))"
  using assms by (induction es) (auto split: option.splits)

text \<open>The entry of a descriptor in a secure bank, and the table after a change of that entry.\<close>

lemma prot_entry:
  assumes wf: "smmu_wf s" "i < cb_num s" and sec: "is_secure (cb_info s i)"
  obtains es where "smmu_buf_list (cb_info s i) = map Sec_entry es" "prot_of (cb_info s i) = map_of (map prot_row es)"
    "distinct (map sb_ion_fd es)" "\<forall>m\<in>set es. 1 \<le> sb_ref_count m"
proof -
  from smmu_wfD [OF wf] sec obtain es where "smmu_buf_list (cb_info s i) = map Sec_entry es" "sec_ok es"
    by (auto simp: bank_wf_def lists_wf_def)
  with that show thesis by (simp add: prot_of_def sec_ok_def)
qed

lemma prot_refs:
  assumes "smmu_buf_list b = map Sec_entry es" "distinct (map sb_ion_fd es)" "p < length es"
  shows "prot_of (b\<lparr>smmu_buf_list := (smmu_buf_list b)[p := add_ref k (smmu_buf_list b ! p)]\<rparr>)
    = (prot_of b)(sb_ion_fd (es ! p) \<mapsto> (sb_ref_count (es ! p) + k, sb_paddr (es ! p), sb_len (es ! p)))"
proof -
  define e where "e = (es ! p)\<lparr>sb_ref_count := sb_ref_count (es ! p) + k\<rparr>"
  have "(map Sec_entry es)[p := add_ref k (map Sec_entry es ! p)] = map Sec_entry (es[p := e])"
    using assms(3) by (simp add: map_update e_def)
  moreover have "map_of (map prot_row (es[p := e])) = (map_of (map prot_row es))(sb_ion_fd (es ! p) \<mapsto> snd (prot_row e))"
    using map_of_update_at [of "map prot_row es" p "snd (prot_row e)"] assms(2,3) by (simp add: map_update comp_def e_def)
  ultimately show ?thesis using assms(1) by (simp add: prot_of_def e_def)
qed

lemma ptr_err_0: "ptr_err p = 0 \<longleftrightarrow> p = 0"
  by (simp add: ptr_err_def signed_eq_0_iff)

lemma prot_del:
  assumes "smmu_buf_list b = map Sec_entry es" "distinct (map sb_ion_fd es)" "p < length es"
  shows "prot_of (b\<lparr>smmu_buf_list := del_at p (smmu_buf_list b)\<rparr>) = (prot_of b)(sb_ion_fd (es ! p) := None)"
  using map_of_del_at [of "map prot_row es" p] assms by (simp add: prot_of_def del_at_map comp_def)

lemma prot_add: "prot_of (b\<lparr>smmu_buf_list := Sec_entry m # smmu_buf_list b\<rparr>) = (prot_of b)(sb_ion_fd m \<mapsto> (sb_ref_count m, sb_paddr m, sb_len m))"
  by (simp add: prot_of_def List.map_filter_simps)

lemma stage2_buffer_prot:
  assumes "cam_smmu_map_stage2_buffer_and_add_to_list env i fd d s = ((rc, a, l), t)"
    "er_val (smmu_orc env (length (smmu_trace s))) \<noteq> 0" "er_val (smmu_orc env (Suc (length (smmu_trace s)))) \<noteq> 0"
    "er_val (smmu_orc env (Suc (Suc (length (smmu_trace s))))) \<noteq> 0"
  shows "prot_of (cb_info t i) = (if rc = 0 then (prot_of (cb_info s i))(fd \<mapsto> (1, a, l)) else prot_of (cb_info s i))"
  using assms unfolding cam_smmu_map_stage2_buffer_and_add_to_list_def
  by (auto simp: Let_def sx_def ptr_err_0 add_user_def prot_add err_put_def err_detach_def err_unmap_sg_def split: if_splits)

text \<open>C15: a secure bank keeps the table of open mappings: mapping a protected buffer whose descriptor is known
  adds one to its count, makes no call of another driver and returns the known address and length;
  mapping another one adds it with the count \<open>1\<close> if and only if the code is \<open>0\<close>. Unmapping takes one
  off, and the buffer is released with the last mapping. That the dma-buf calls give an error pointer
  and never null when they fail is a hypothesis.\<close>

theorem smmu_protected_refines:
  assumes "reach smmu_init smmu_step s" "hdl_bank h s = Some i" "cb_handle (cb_info s i) = h" "is_secure (cb_info s i)"
    "list_all (\<lambda>k. er_val (smmu_orc env (length (smmu_trace s) + k)) \<noteq> 0) [0..<3]"
  shows "(case cam_smmu_map_stage2_iova env h fd dir s of ((rc, a, l), t) \<Rightarrow>
      prot_of (cb_info t i) = (if rc = 0 then prot_map fd a l (prot_of (cb_info s i)) else prot_of (cb_info s i))
      \<and> (rc \<noteq> 0 \<or> map_option snd (prot_of (cb_info t i) fd) = Some (a, l))
      \<and> (prot_of (cb_info s i) fd = None \<or> smmu_trace t = smmu_trace s))
    \<and> (case cam_smmu_unmap_stage2_iova env h fd s of (rc, u) \<Rightarrow>
      rc = (if prot_of (cb_info s i) fd = None then - EINVAL else 0)
      \<and> prot_of (cb_info u i) = prot_unmap fd (prot_of (cb_info s i))
      \<and> map_option fst (prot_of (cb_info s i) fd) = Some 1 = (\<exists>buf. smmu_trace u = smmu_trace s @ [Buf_put buf]))"
proof -
  have wf: "smmu_wf s" by (rule smmu.reach_inv [OF assms(1)])
  note i = hdl_bank_lt [OF assms(2)]
  obtain es where es: "smmu_buf_list (cb_info s i) = map Sec_entry es" "prot_of (cb_info s i) = map_of (map prot_row es)"
    "distinct (map sb_ion_fd es)" "\<forall>m\<in>set es. 1 \<le> sb_ref_count m"
    using prot_entry [OF wf _ assms(4)] i by blast
  show ?thesis
  proof (cases "find_pos (\<lambda>m. sb_ion_fd m = fd) es")
    case None
    then have M: "prot_of (cb_info s i) fd = None" using find_pos_row [OF es(3), of fd] es(2) by simp
    have calls: "er_val (smmu_orc env (length (smmu_trace s))) \<noteq> 0" "er_val (smmu_orc env (Suc (length (smmu_trace s)))) \<noteq> 0"
      "er_val (smmu_orc env (Suc (Suc (length (smmu_trace s))))) \<noteq> 0" using assms(5) by (simp_all add: upt_rec numeral_2_eq_2)
    have find: "find_sec (\<lambda>m. sb_ion_fd m = fd) (smmu_buf_list (cb_info s i)) = Some None" using None es(1) by simp
    obtain rc a l t where st: "cam_smmu_map_stage2_buffer_and_add_to_list env i fd (cam_smmu_translate_dir dir) s = ((rc, a, l), t)"
      by (metis surj_pair)
    note new = stage2_buffer_prot [OF st calls]
    have "cam_smmu_map_stage2_iova env h fd dir s = (if cam_smmu_translate_dir dir = None then ((- EINVAL, 0, 0), s) else ((rc, a, l), t))"
      using assms(2-4) find st by (simp add: cam_smmu_map_stage2_iova_def cam_smmu_check_secure_fd_in_list_def)
    moreover have "cam_smmu_unmap_stage2_iova env h fd s = (- EINVAL, s)"
      using assms(2-4) find by (simp add: cam_smmu_unmap_stage2_iova_def cam_smmu_find_mapping_by_sec_buf_idx_def)
    moreover have "prot_unmap fd (prot_of (cb_info s i)) = prot_of (cb_info s i)" using M by (auto simp: prot_unmap_def)
    ultimately show ?thesis using M new by (simp add: prot_map_def)
  next
    case (Some p)
    define m where "m = es ! p"
    have p: "p < length es" "sb_ion_fd m = fd" using find_pos_Some [OF Some] by (simp_all add: m_def)
    have M: "prot_of (cb_info s i) fd = Some (sb_ref_count m, sb_paddr m, sb_len m)"
      using find_pos_row [OF es(3), of fd] es(2) Some by (simp add: m_def)
    have pos: "1 \<le> sb_ref_count m" using es(4) p by (simp add: m_def)
    have find: "find_sec (\<lambda>m. sb_ion_fd m = fd) (smmu_buf_list (cb_info s i)) = Some (Some p)" using Some es(1) by simp
    have entry: "smmu_buf_list (cb_info s i) ! p = Sec_entry m" using es(1) p by (simp add: m_def)
    note refs = prot_refs [OF es(1,3) p(1), folded m_def, unfolded p(2)]
    have "cam_smmu_map_stage2_iova env h fd dir s
        = (if cam_smmu_translate_dir dir = None then ((- EINVAL, 0, 0), s) else ((0, sb_paddr m, sb_len m), ref_at i p 1 s))"
      using assms(2-4) find entry by (simp add: cam_smmu_map_stage2_iova_def cam_smmu_check_secure_fd_in_list_def)
    moreover have "prot_of (cb_info (ref_at i p 1 s) i) = prot_map fd a l (prot_of (cb_info s i))" for a l
      using refs M by (simp add: ref_at_def prot_map_def)
    moreover have "cam_smmu_unmap_stage2_iova env h fd s
        = (0, if 1 < sb_ref_count m then ref_at i p (- 1) s else del_user i p (sx' env (Buf_put (sb_buf m)) (ref_at i p (- 1) s)))"
      using assms(2-4) find entry
      by (simp add: cam_smmu_unmap_stage2_iova_def cam_smmu_find_mapping_by_sec_buf_idx_def cam_smmu_secure_unmap_buf_and_remove_from_list_def Let_def)
    moreover have "prot_of (cb_info (ref_at i p (- 1) s) i) = (prot_of (cb_info s i))(fd \<mapsto> (sb_ref_count m - 1, sb_paddr m, sb_len m))"
      using refs by (simp add: ref_at_def)
    moreover have "prot_of (cb_info (del_user i p (sx' env c (ref_at i p (- 1) s))) i) = (prot_of (cb_info s i))(fd := None)" for c
    proof -
      have "cb_info (del_user i p (sx' env c (ref_at i p (- 1) s))) i = (cb_info s i)\<lparr>smmu_buf_list := del_at p (smmu_buf_list (cb_info s i))\<rparr>"
        using p(1) es(1) by (simp add: del_user_def ref_at_def del_at_def)
      then show ?thesis using prot_del [OF es(1,3) p(1)] p(2) by (simp add: m_def)
    qed
    ultimately show ?thesis using M pos
      by (cases "1 < sb_ref_count m") (auto simp: prot_map_def prot_unmap_def ref_at_def del_user_def fun_eq_iff)
  qed
qed

theorem smmu_protected_refines_witness:
  "\<exists>t. cam_smmu_map_stage2_iova smmu_run_env sec_hdl 5 CAM_SMMU_MAP_READ smmu_run2 = ((0, 0x80000000, 8192), t)
    \<and> prot_of (cb_info t (Suc 0)) = [5 \<mapsto> (1, 0x80000000, 8192)]"
proof -
  obtain t where t: "cam_smmu_map_stage2_iova smmu_run_env sec_hdl 5 CAM_SMMU_MAP_READ smmu_run2 = ((0, 0x80000000, 8192), t)"
    using run_protected by auto
  have old: "prot_of (cb_info smmu_run2 (Suc 0)) = Map.empty" by (simp add: smmu_run2_state prot_of_def List.map_filter_simps)
  have "prot_of (cb_info t (Suc 0)) = prot_map 5 0x80000000 8192 (prot_of (cb_info smmu_run2 (Suc 0)))"
    using smmu_protected_refines [OF smmu_run2_reach, of sec_hdl "Suc 0" smmu_run_env 5 CAM_SMMU_MAP_READ]
    by (simp add: t smmu_run2_state upt_rec)
  then show ?thesis using t by (auto simp: old prot_map_def)
qed

end
