(* ===== verification/Cam_Hfi.thy ===== *)
theory Cam_Hfi
  imports Cam_Prelude
begin

text \<open>
  The interface to the firmware of the image co-processor, \<open>cam_icp/hfi.c\<close>: the command queue from
  the host to the firmware, the message and the debug queue back, initialisation, resume and
  the commands of the system. The queues and the table with their headers lie in memory the firmware
  shares; they are kept by the address of their buffer, the content of a queue in words counted
  from its start, without an end. Accesses to the registers are recorded in \<open>reg_trace\<close>; what a
  read gives is the environment's answer to its place in the trace. \<open>hfi_undef\<close> is set where the code
  follows a null pointer.
\<close>

section \<open>Data\<close>


abbreviation Q_CMD :: nat where "Q_CMD \<equiv> 0"
abbreviation Q_MSG :: nat where "Q_MSG \<equiv> 1"
abbreviation Q_DBG :: nat where "Q_DBG \<equiv> 2"
abbreviation CMD_Q_WORDS :: u32 where "CMD_Q_WORDS \<equiv> 1024"
abbreviation MSG_Q_WORDS :: u32 where "MSG_Q_WORDS \<equiv> 1024"
abbreviation DBG_Q_WORDS :: u32 where "DBG_Q_WORDS \<equiv> 25600"
abbreviation ICP_HFI_MAX_PKT_SIZE_IN_WORDS :: u32 where "ICP_HFI_MAX_PKT_SIZE_IN_WORDS \<equiv> 25600"
abbreviation ICP_HFI_MAX_PKT_SIZE_MSGQ_IN_WORDS :: u32 where "ICP_HFI_MAX_PKT_SIZE_MSGQ_IN_WORDS \<equiv> 1024"
abbreviation HFI_MAX_POLL_TRY :: nat where "HFI_MAX_POLL_TRY \<equiv> 5"
abbreviation HFI_MAX_PC_POLL_TRY :: nat where "HFI_MAX_PC_POLL_TRY \<equiv> 150"

record hfi_q_hdr =
  q_status :: u32
  q_start_addr :: u32
  q_type :: u32
  q_size :: u32
  q_pkt_size :: u32
  q_pkt_drop_cnt :: u32
  q_rx_wm :: u32
  q_tx_wm :: u32
  q_rx_req :: u32
  q_tx_req :: u32
  q_rx_irq_status :: u32
  q_tx_irq_status :: u32
  q_read_idx :: u32
  q_write_idx :: u32

record hfi_qtbl =
  t_version :: u32
  t_size :: u32
  t_qhdr0_offset :: u32
  t_qhdr_size :: u32
  t_num_q :: u32
  t_num_active_q :: u32
  q_hdr :: "nat \<Rightarrow> hfi_q_hdr"

record hfi_mem =
  hm_len :: u64
  hm_kva :: ptr
  hm_iova :: u32

record hfi_mem_info =
  mi_qtbl :: hfi_mem
  mi_cmd_q :: hfi_mem
  mi_msg_q :: hfi_mem
  mi_dbg_q :: hfi_mem
  mi_sfr_buf :: hfi_mem
  mi_sec_heap :: hfi_mem
  mi_shmem :: hfi_mem
  mi_qdss :: hfi_mem
  mi_io_mem :: hfi_mem
  mi_io_mem2 :: hfi_mem

datatype hfi_state = HFI_DEINIT | HFI_INIT | HFI_READY

record hfi_info =
  hi_map :: hfi_mem_info
  hi_state :: hfi_state
  cmd_q_state :: bool
  msg_q_state :: bool
  csr_base :: ptr

text \<open>Accesses to the registers: the base, the offset, the value.\<close>

datatype reg_access = Reg_write ptr nat u32 | Reg_read ptr nat | Reg_poll ptr nat

text \<open>The two mutexes are true while they are held.\<close>

record hfi_world =
  g_hfi :: "hfi_info option"
  cmd_q_mutex :: bool
  msg_q_mutex :: bool
  qtbl_at :: "ptr \<Rightarrow> hfi_qtbl"
  words_at :: "ptr \<Rightarrow> nat \<Rightarrow> u32"
  sfr_size_at :: "ptr \<Rightarrow> u32"
  reg_trace :: "reg_access list"
  hfi_undef :: bool

definition cam_io_w_mb :: "u32 \<Rightarrow> ptr \<Rightarrow> nat \<Rightarrow> hfi_world \<Rightarrow> hfi_world" where
  "cam_io_w_mb v base off w = w\<lparr>reg_trace := reg_trace w @ [Reg_write base off v]\<rparr>"

definition cam_io_r :: "(nat \<Rightarrow> u32) \<Rightarrow> ptr \<Rightarrow> nat \<Rightarrow> hfi_world \<Rightarrow> u32 \<times> hfi_world" where
  "cam_io_r orc base off w = (orc (length (reg_trace w)), w\<lparr>reg_trace := reg_trace w @ [Reg_read base off]\<rparr>)"

text \<open>The registers, and their bits.\<close>

abbreviation HFI_REG_A5_HW_VERSION :: nat where "HFI_REG_A5_HW_VERSION \<equiv> 0x0"
abbreviation HFI_REG_A5_CSR_NSEC_RESET :: nat where "HFI_REG_A5_CSR_NSEC_RESET \<equiv> 0x4"
abbreviation HFI_REG_A5_CSR_A5_CONTROL :: nat where "HFI_REG_A5_CSR_A5_CONTROL \<equiv> 0x8"
abbreviation HFI_REG_A5_CSR_A2HOSTINTEN :: nat where "HFI_REG_A5_CSR_A2HOSTINTEN \<equiv> 0x10"
abbreviation HFI_REG_A5_CSR_HOST2ICPINT :: nat where "HFI_REG_A5_CSR_HOST2ICPINT \<equiv> 0x30"
abbreviation HFI_REG_A5_CSR_A5_STATUS :: nat where "HFI_REG_A5_CSR_A5_STATUS \<equiv> 0x200"
abbreviation HFI_REG_FW_VERSION :: nat where "HFI_REG_FW_VERSION \<equiv> 0x44"
abbreviation HFI_REG_HOST_ICP_INIT_REQUEST :: nat where "HFI_REG_HOST_ICP_INIT_REQUEST \<equiv> 0x48"
abbreviation HFI_REG_ICP_HOST_INIT_RESPONSE :: nat where "HFI_REG_ICP_HOST_INIT_RESPONSE \<equiv> 0x4C"
abbreviation HFI_REG_SHARED_MEM_PTR :: nat where "HFI_REG_SHARED_MEM_PTR \<equiv> 0x50"
abbreviation HFI_REG_SHARED_MEM_SIZE :: nat where "HFI_REG_SHARED_MEM_SIZE \<equiv> 0x54"
abbreviation HFI_REG_QTBL_PTR :: nat where "HFI_REG_QTBL_PTR \<equiv> 0x58"
abbreviation HFI_REG_UNCACHED_HEAP_PTR :: nat where "HFI_REG_UNCACHED_HEAP_PTR \<equiv> 0x5C"
abbreviation HFI_REG_UNCACHED_HEAP_SIZE :: nat where "HFI_REG_UNCACHED_HEAP_SIZE \<equiv> 0x60"
abbreviation HFI_REG_QDSS_IOVA :: nat where "HFI_REG_QDSS_IOVA \<equiv> 0x6C"
abbreviation HFI_REG_SFR_PTR :: nat where "HFI_REG_SFR_PTR \<equiv> 0x68"
abbreviation HFI_REG_QDSS_IOVA_SIZE :: nat where "HFI_REG_QDSS_IOVA_SIZE \<equiv> 0x70"
abbreviation HFI_REG_IO_REGION_IOVA :: nat where "HFI_REG_IO_REGION_IOVA \<equiv> 0x74"
abbreviation HFI_REG_IO_REGION_SIZE :: nat where "HFI_REG_IO_REGION_SIZE \<equiv> 0x78"
abbreviation HFI_REG_IO2_REGION_IOVA :: nat where "HFI_REG_IO2_REGION_IOVA \<equiv> 0x7C"
abbreviation HFI_REG_IO2_REGION_SIZE :: nat where "HFI_REG_IO2_REGION_SIZE \<equiv> 0x80"

abbreviation ICP_FLAG_CSR_WAKE_UP_EN :: u32 where "ICP_FLAG_CSR_WAKE_UP_EN \<equiv> 0x10"
abbreviation ICP_FLAG_CSR_A5_EN :: u32 where "ICP_FLAG_CSR_A5_EN \<equiv> 0x200"
abbreviation ICP_CSR_EN_CLKGATE_WFI :: u32 where "ICP_CSR_EN_CLKGATE_WFI \<equiv> 0x1000"
abbreviation ICP_CSR_EDBGRQ :: u32 where "ICP_CSR_EDBGRQ \<equiv> 0x4000"
abbreviation ICP_CSR_DBGSWENABLE :: u32 where "ICP_CSR_DBGSWENABLE \<equiv> 0x400000"
abbreviation ICP_CSR_A5_STATUS_WFI :: u32 where "ICP_CSR_A5_STATUS_WFI \<equiv> 0x80"
abbreviation INTR_DISABLE :: u32 where "INTR_DISABLE \<equiv> 0"
abbreviation INTR_ENABLE :: u32 where "INTR_ENABLE \<equiv> 1"
abbreviation INTR_ENABLE_WD0 :: u32 where "INTR_ENABLE_WD0 \<equiv> 2"
abbreviation ICP_INIT_RESP_RESET :: u32 where "ICP_INIT_RESP_RESET \<equiv> 0"
abbreviation ICP_INIT_RESP_SUCCESS :: u32 where "ICP_INIT_RESP_SUCCESS \<equiv> 1"
abbreviation ICP_INIT_RESP_FAILED :: u32 where "ICP_INIT_RESP_FAILED \<equiv> 2"

section \<open>The queues\<close>

definition hdr_of :: "hfi_info \<Rightarrow> nat \<Rightarrow> hfi_world \<Rightarrow> hfi_q_hdr" where
  "hdr_of h k w = q_hdr (qtbl_at w (hm_kva (mi_qtbl (hi_map h)))) k"

definition upd_hdr :: "hfi_info \<Rightarrow> nat \<Rightarrow> (hfi_q_hdr \<Rightarrow> hfi_q_hdr) \<Rightarrow> hfi_world \<Rightarrow> hfi_world" where
  "upd_hdr h k f w =
     (let a = hm_kva (mi_qtbl (hi_map h)); t = qtbl_at w a in
      w\<lparr>qtbl_at := (qtbl_at w)(a := t\<lparr>q_hdr := (q_hdr t)(k := f (q_hdr t k))\<rparr>)\<rparr>)"

text \<open>
  \<open>memcpy\<close> of \<open>n\<close> words from \<open>src\<close>, from its word \<open>o\<close> on, to word \<open>at\<close> of \<open>dst\<close>. The byte count of a copy
  is computed in 32 bits.
\<close>

definition memcpy_words :: "nat \<Rightarrow> nat \<Rightarrow> (nat \<Rightarrow> u32) \<Rightarrow> nat \<Rightarrow> (nat \<Rightarrow> u32) \<Rightarrow> nat \<Rightarrow> u32" where
  "memcpy_words at n src off dst = (\<lambda>i. if at \<le> i \<and> i < at + n then src (off + (i - at)) else dst i)"

definition word_count :: "u32 \<Rightarrow> nat" where
  "word_count n = unat (push_bit 2 n) div 4"

text \<open>
  The copy of a packet of \<open>sz\<close> words into the memory of a queue and out of it, in one or two pieces, with
  the new index.
\<close>

definition copy_in :: "hfi_q_hdr \<Rightarrow> u32 \<Rightarrow> (nat \<Rightarrow> u32) \<Rightarrow> (nat \<Rightarrow> u32) \<Rightarrow> u32 \<times> (nat \<Rightarrow> u32)" where
  "copy_in q sz p m =
     (let wr = q_write_idx q; new = wr + sz in
      if new < q_size q then (new, memcpy_words (unat wr) (word_count sz) p 0 m)
      else let new = new - q_size q; n = word_count (sz - new) in
        (new, memcpy_words 0 (word_count new) p n (memcpy_words (unat wr) n p 0 m)))"

definition copy_out :: "hfi_q_hdr \<Rightarrow> u32 \<Rightarrow> (nat \<Rightarrow> u32) \<Rightarrow> (nat \<Rightarrow> u32) \<Rightarrow> u32 \<times> (nat \<Rightarrow> u32)" where
  "copy_out q sz m d =
     (let rd = q_read_idx q; new = rd + sz in
      if new < q_size q then (new, memcpy_words 0 (word_count sz) m (unat rd) d)
      else let new = new - q_size q; n = word_count (sz - new) in
        (new, memcpy_words n (word_count new) m 0 (memcpy_words 0 n m (unat rd) d)))"

text \<open>
  \<open>pkt\<close> is the memory at \<open>cmd_ptr\<close>, \<open>None\<close> for a null pointer; its first word is the size in bytes. The
  result is \<open>None\<close> when the call does not return, because the mutex was never released.
\<close>

definition hfi_write_cmd :: "(nat \<Rightarrow> u32) option \<Rightarrow> hfi_world \<Rightarrow> (rc \<times> hfi_world) option" where
  "hfi_write_cmd pkt w =
     (case pkt of
        None \<Rightarrow> Some (- EINVAL, w)
      | Some p \<Rightarrow>
          if cmd_q_mutex w then None
          else Some (case g_hfi w of
            None \<Rightarrow> (- ENODEV, w)
          | Some h \<Rightarrow>
              if hi_state h \<noteq> HFI_READY \<or> \<not> cmd_q_state h then (- ENODEV, w)
              else
                let q = hdr_of h Q_CMD w; base = hm_kva (mi_cmd_q (hi_map h)); sz = drop_bit 2 (p 0);
                    rd = q_read_idx q; wr = q_write_idx q;
                    space = (if rd \<le> wr then q_size q - (wr - rd) else rd - wr) in
                if sz = 0 then (- EINVAL, w)
                else if space \<le> sz then (- EIO, w)
                else
                  let (new, m) = copy_in q sz p (words_at w base)
                  in (0, cam_io_w_mb INTR_ENABLE (csr_base h) HFI_REG_A5_CSR_HOST2ICPINT
                           (upd_hdr h Q_CMD (\<lambda>q. q\<lparr>q_write_idx := new\<rparr>) (w\<lparr>words_at := (words_at w)(base := m)\<rparr>)))))"

text \<open>
  \<open>dst\<close> is the memory at \<open>pmsg\<close>. The result has the code, that memory after the call and what is stored
  in \<open>*words_read\<close>. Everything between the two indices is read.
\<close>

definition hfi_read_message ::
    "(nat \<Rightarrow> u32) option \<Rightarrow> nat \<Rightarrow> hfi_world \<Rightarrow> ((rc \<times> (nat \<Rightarrow> u32) option \<times> u32 option) \<times> hfi_world) option" where
  "hfi_read_message dst q_id w =
     (case dst of
        None \<Rightarrow> Some ((- EINVAL, None, None), w)
      | Some d \<Rightarrow>
          if Q_DBG < q_id then Some ((- EINVAL, dst, None), w)
          else if msg_q_mutex w then None
          else Some (case g_hfi w of
            None \<Rightarrow> ((- ENODEV, dst, None), w)
          | Some h \<Rightarrow>
              if hi_state h \<noteq> HFI_READY \<or> \<not> msg_q_state h then ((- ENODEV, dst, None), w)
              else
                let q = hdr_of h q_id w; rd = q_read_idx q; wr = q_write_idx q in
                if rd = wr then ((- EIO, dst, None), w)
                else
                  let (base, bound, words) =
                        (if q_id = Q_MSG
                         then (hm_kva (mi_msg_q (hi_map h)), ICP_HFI_MAX_PKT_SIZE_MSGQ_IN_WORDS, MSG_Q_WORDS)
                         else (hm_kva (mi_dbg_q (hi_map h)), ICP_HFI_MAX_PKT_SIZE_IN_WORDS, DBG_Q_WORDS));
                      sz = (if rd < wr then wr - rd else words - (rd - wr)) in
                  if sz = 0 \<or> bound < sz
                  then ((- EIO, dst, None), upd_hdr h q_id (\<lambda>q. q\<lparr>q_read_idx := wr\<rparr>) w)
                  else
                    let (new, d) = copy_out q sz (words_at w base) d
                    in ((0, Some d, Some sz), upd_hdr h q_id (\<lambda>q. q\<lparr>q_read_idx := new\<rparr>) w)))"

section \<open>Commands of the system\<close>

abbreviation HFI_CMD_SYS_INIT :: u32 where "HFI_CMD_SYS_INIT \<equiv> 0x10001"
abbreviation HFI_CMD_SYS_PC_PREP :: u32 where "HFI_CMD_SYS_PC_PREP \<equiv> 0x10002"
abbreviation HFI_CMD_SYS_SET_PROPERTY :: u32 where "HFI_CMD_SYS_SET_PROPERTY \<equiv> 0x10003"
abbreviation HFI_CMD_SYS_PING :: u32 where "HFI_CMD_SYS_PING \<equiv> 0x10005"
abbreviation HFI_CMD_SYS_RESET :: u32 where "HFI_CMD_SYS_RESET \<equiv> 0x10006"
abbreviation HFI_CMD_IPEBPS_CREATE_HANDLE :: u32 where "HFI_CMD_IPEBPS_CREATE_HANDLE \<equiv> 0x1010008"
abbreviation HFI_PROP_SYS_DEBUG_CFG :: u32 where "HFI_PROP_SYS_DEBUG_CFG \<equiv> 1"
abbreviation HFI_PROP_SYS_UBWC_CFG :: u32 where "HFI_PROP_SYS_UBWC_CFG \<equiv> 2"
abbreviation HFI_PROP_SYS_IPEBPS_PC :: u32 where "HFI_PROP_SYS_IPEBPS_PC \<equiv> 5"
abbreviation HFI_PROP_SYS_FW_DUMP_CFG :: u32 where "HFI_PROP_SYS_FW_DUMP_CFG \<equiv> 8"
abbreviation HFI_PROPERTY_SYS_UBWC_CONFIG_EX :: u32 where "HFI_PROPERTY_SYS_UBWC_CONFIG_EX \<equiv> 9"

definition pkt_of :: "u32 list \<Rightarrow> nat \<Rightarrow> u32" where
  "pkt_of ws = (\<lambda>i. if i < length ws then ws ! i else 0)"

text \<open>
  A property of the firmware is set by one packet. The code of the write is not looked at. \<open>kz\<close> says whether
  the memory of the packet could be allocated.
\<close>

definition set_property :: "bool \<Rightarrow> u32 list \<Rightarrow> hfi_world \<Rightarrow> (rc \<times> hfi_world) option" where
  "set_property kz data w =
     (if \<not> kz then Some (- ENOMEM, w)
      else map_option (\<lambda>(rc, w). (0, w))
        (hfi_write_cmd (Some (pkt_of ([of_nat (4 * (3 + length data)), HFI_CMD_SYS_SET_PROPERTY, 1] @ data))) w))"

definition hfi_cmd_ubwc_config :: "bool \<Rightarrow> u32 \<times> u32 \<Rightarrow> hfi_world \<Rightarrow> (rc \<times> hfi_world) option" where
  "hfi_cmd_ubwc_config kz cfg = set_property kz [HFI_PROP_SYS_UBWC_CFG, fst cfg, snd cfg]"

definition hfi_cmd_ubwc_config_ext :: "bool \<Rightarrow> u32 \<times> u32 \<Rightarrow> u32 \<times> u32 \<Rightarrow> hfi_world \<Rightarrow> (rc \<times> hfi_world) option" where
  "hfi_cmd_ubwc_config_ext kz ipe bps = set_property kz [HFI_PROPERTY_SYS_UBWC_CONFIG_EX, fst bps, snd bps, fst ipe, snd ipe]"

definition hfi_enable_ipe_bps_pc :: "bool \<Rightarrow> bool \<Rightarrow> u32 \<Rightarrow> hfi_world \<Rightarrow> (rc \<times> hfi_world) option" where
  "hfi_enable_ipe_bps_pc kz enable core_info = set_property kz [HFI_PROP_SYS_IPEBPS_PC, of_bool enable, core_info]"

text \<open>The largest level is the sum of all its bits; the test compares numbers.\<close>

definition hfi_set_debug_level :: "bool \<Rightarrow> u64 \<Rightarrow> u32 \<Rightarrow> hfi_world \<Rightarrow> (rc \<times> hfi_world) option" where
  "hfi_set_debug_level kz a5_dbg_type lvl w =
     (if 0x1100003F < lvl then Some (- EINVAL, w)
      else set_property kz [HFI_PROP_SYS_DEBUG_CFG, lvl, ucast a5_dbg_type] w)"

definition hfi_set_fw_dump_level :: "bool \<Rightarrow> u32 \<Rightarrow> hfi_world \<Rightarrow> (rc \<times> hfi_world) option" where
  "hfi_set_fw_dump_level kz lvl = set_property kz [HFI_PROP_SYS_FW_DUMP_CFG, lvl]"

text \<open>
  \<open>junk\<close> are the words of the stack that \<open>user_data2\<close> of a handle packet is left with. Types that
  are not supported, and the two that are not implemented, send nothing.
\<close>

definition hfi_send_system_cmd :: "u32 \<Rightarrow> u64 \<Rightarrow> u32 \<times> u32 \<Rightarrow> hfi_world \<Rightarrow> hfi_world option" where
  "hfi_send_system_cmd ty data junk w =
     (let send = (\<lambda>ws. map_option snd (hfi_write_cmd (Some (pkt_of ws)) w)) in
      if ty = HFI_CMD_SYS_INIT \<or> ty = HFI_CMD_SYS_PC_PREP then send [8, ty]
      else if ty = HFI_CMD_SYS_SET_PROPERTY
      then (if (ucast data :: u32) = HFI_PROP_SYS_DEBUG_CFG then send [16, ty, 1, HFI_PROP_SYS_DEBUG_CFG] else Some w)
      else if ty = HFI_CMD_SYS_PING \<or> ty = HFI_CMD_SYS_RESET then send [16, ty, ucast data, ucast (drop_bit 32 data)]
      else if ty = HFI_CMD_IPEBPS_CREATE_HANDLE then send [28, ty, ucast data, 0, 0, fst junk, snd junk]
      else Some w)"

section \<open>Starting and stopping the processor\<close>

fun poll_wfi :: "(nat \<Rightarrow> u32) \<Rightarrow> nat \<Rightarrow> ptr \<Rightarrow> hfi_world \<Rightarrow> hfi_world" where
  "poll_wfi orc 0 base w = w"
| "poll_wfi orc (Suc n) base w =
     (let (data, w1) = cam_io_r orc base HFI_REG_A5_CSR_A5_STATUS w in
      if data AND ICP_CSR_A5_STATUS_WFI \<noteq> 0 then w1 else poll_wfi orc n base w1)"

definition cam_hfi_disable_cpu :: "(nat \<Rightarrow> u32) \<Rightarrow> ptr \<Rightarrow> hfi_world \<Rightarrow> hfi_world" where
  "cam_hfi_disable_cpu orc base w =
     (let w1 = poll_wfi orc HFI_MAX_PC_POLL_TRY base w;
          (v, w2) = cam_io_r orc base HFI_REG_A5_CSR_A5_CONTROL w1;
          w3 = cam_io_w_mb (v AND NOT (ICP_FLAG_CSR_A5_EN OR ICP_FLAG_CSR_WAKE_UP_EN)) base HFI_REG_A5_CSR_A5_CONTROL w2;
          (v2, w4) = cam_io_r orc base HFI_REG_A5_CSR_NSEC_RESET w3;
          w5 = cam_io_w_mb v2 base HFI_REG_A5_CSR_NSEC_RESET w4
      in cam_io_w_mb INTR_DISABLE base HFI_REG_A5_CSR_A2HOSTINTEN (cam_io_w_mb 0 base HFI_REG_HOST_ICP_INIT_REQUEST w5))"

definition cam_hfi_enable_cpu :: "ptr \<Rightarrow> hfi_world \<Rightarrow> hfi_world" where
  "cam_hfi_enable_cpu base w =
     cam_io_w_mb 0x10 base HFI_REG_A5_CSR_NSEC_RESET (cam_io_w_mb ICP_FLAG_CSR_A5_EN base HFI_REG_A5_CSR_A5_CONTROL w)"

text \<open>
  Waiting for the response of the firmware: a poll with a timeout, whose last value is dropped, then a
  read. The result is the way out of the loop.
\<close>

datatype init_end = Init_success | Init_failed | Init_retries u32

fun init_poll :: "(nat \<Rightarrow> u32) \<Rightarrow> nat \<Rightarrow> u32 \<Rightarrow> ptr \<Rightarrow> hfi_world \<Rightarrow> init_end \<times> hfi_world" where
  "init_poll orc 0 status base w = (Init_retries status, w)"
| "init_poll orc (Suc n) status base w =
     (let (status, w1) = cam_io_r orc base HFI_REG_ICP_HOST_INIT_RESPONSE
            (w\<lparr>reg_trace := reg_trace w @ [Reg_poll base HFI_REG_ICP_HOST_INIT_RESPONSE]\<rparr>) in
      if status = ICP_INIT_RESP_SUCCESS then (Init_success, w1)
      else if status = ICP_INIT_RESP_FAILED then (Init_failed, snd (cam_io_r orc base HFI_REG_FW_VERSION w1))
      else init_poll orc n status base w1)"

text \<open>After the last try only the value \<open>ICP_INIT_RESP_RESET\<close> counts as a failure.\<close>

definition init_wait :: "(nat \<Rightarrow> u32) \<Rightarrow> ptr \<Rightarrow> hfi_world \<Rightarrow> bool \<times> hfi_world" where
  "init_wait orc base w =
     (case init_poll orc HFI_MAX_POLL_TRY 0 base w of
        (Init_success, w1) \<Rightarrow> (True, w1)
      | (Init_failed, w1) \<Rightarrow> (False, w1)
      | (Init_retries st, w1) \<Rightarrow>
          if st = ICP_INIT_RESP_RESET then (False, snd (cam_io_r orc base HFI_REG_FW_VERSION w1)) else (True, w1))"

fun write_regs :: "ptr \<Rightarrow> (nat \<times> u32) list \<Rightarrow> hfi_world \<Rightarrow> hfi_world" where
  "write_regs base [] w = w"
| "write_regs base ((off, v) # rs) w = write_regs base rs (cam_io_w_mb v base off w)"

definition region_regs :: "hfi_mem_info \<Rightarrow> (nat \<times> u32) list" where
  "region_regs m =
     [(HFI_REG_QTBL_PTR, hm_iova (mi_qtbl m)), (HFI_REG_SFR_PTR, hm_iova (mi_sfr_buf m)),
      (HFI_REG_SHARED_MEM_PTR, hm_iova (mi_shmem m)), (HFI_REG_SHARED_MEM_SIZE, ucast (hm_len (mi_shmem m))),
      (HFI_REG_UNCACHED_HEAP_PTR, hm_iova (mi_sec_heap m)), (HFI_REG_UNCACHED_HEAP_SIZE, ucast (hm_len (mi_sec_heap m)))]"

definition io_regs :: "hfi_mem_info \<Rightarrow> (nat \<times> u32) list" where
  "io_regs m =
     [(HFI_REG_QDSS_IOVA, hm_iova (mi_qdss m)), (HFI_REG_QDSS_IOVA_SIZE, ucast (hm_len (mi_qdss m))),
      (HFI_REG_IO_REGION_IOVA, hm_iova (mi_io_mem m)), (HFI_REG_IO_REGION_SIZE, ucast (hm_len (mi_io_mem m))),
      (HFI_REG_IO2_REGION_IOVA, hm_iova (mi_io_mem2 m)), (HFI_REG_IO2_REGION_SIZE, ucast (hm_len (mi_io_mem2 m)))]"

text \<open>The control register when the processor starts to run.\<close>

definition run_cpu :: "ptr \<Rightarrow> bool \<Rightarrow> hfi_world \<Rightarrow> hfi_world" where
  "run_cpu base debug w =
     (let run = ICP_FLAG_CSR_A5_EN OR ICP_FLAG_CSR_WAKE_UP_EN;
          w1 = (if debug then cam_io_w_mb (run OR ICP_CSR_EDBGRQ OR ICP_CSR_DBGSWENABLE) base HFI_REG_A5_CSR_A5_CONTROL w else w)
      in cam_io_w_mb (run OR ICP_CSR_EN_CLKGATE_WFI) base HFI_REG_A5_CSR_A5_CONTROL w1)"

definition cam_hfi_resume :: "(nat \<Rightarrow> u32) \<Rightarrow> hfi_mem_info \<Rightarrow> ptr \<Rightarrow> bool \<Rightarrow> hfi_world \<Rightarrow> rc \<times> hfi_world" where
  "cam_hfi_resume orc m base debug w =
     (let w1 = cam_hfi_enable_cpu base w in
      case g_hfi w1 of
        None \<Rightarrow> (- EINVAL, w1\<lparr>hfi_undef := True\<rparr>)
      | Some h \<Rightarrow>
          let (ok, w5) = init_wait orc base (run_cpu base debug (w1\<lparr>g_hfi := Some (h\<lparr>csr_base := base\<rparr>)\<rparr>))
          in if \<not> ok then (- EINVAL, w5)
             else
               let w6 = cam_io_w_mb (INTR_ENABLE OR INTR_ENABLE_WD0) base HFI_REG_A5_CSR_A2HOSTINTEN w5;
                   w7 = snd (cam_io_r orc base HFI_REG_A5_CSR_A5_STATUS (snd (cam_io_r orc base HFI_REG_FW_VERSION w6)))
               in (0, write_regs base (region_regs m @ io_regs m) w7))"

text \<open>The headers that initialisation writes; what it does not write keeps its value.\<close>

definition reset_hdr :: "u32 \<Rightarrow> u32 \<Rightarrow> hfi_q_hdr \<Rightarrow> hfi_q_hdr" where
  "reset_hdr start words q = q\<lparr>q_status := 1, q_start_addr := start, q_size := words, q_pkt_size := 0, q_pkt_drop_cnt := 0,
     q_read_idx := 0, q_write_idx := 0\<rparr>"

definition mode_hdr :: "u32 \<Rightarrow> u32 \<Rightarrow> u32 \<Rightarrow> u32 \<Rightarrow> hfi_q_hdr \<Rightarrow> hfi_q_hdr" where
  "mode_hdr ty tx_wm rx_req tx_req q = q\<lparr>q_type := ty, q_rx_wm := 1, q_tx_wm := tx_wm, q_rx_req := rx_req, q_tx_req := tx_req,
     q_rx_irq_status := 0, q_tx_irq_status := 0\<rparr>"

text \<open>The modes are \<open>INTR_MODE\<close>, \<open>WM_MODE\<close> and \<open>POLL_MODE\<close>; another one is only reported.\<close>

definition mode_hdrs :: "nat \<Rightarrow> nat \<Rightarrow> hfi_q_hdr \<Rightarrow> hfi_q_hdr" where
  "mode_hdrs mode k =
     (if mode = 0 then (if k = Q_DBG then mode_hdr 2 1024 0 0 else mode_hdr (of_nat k) 1 1 0)
      else if mode = 1 then
        (if k = Q_CMD then mode_hdr 0x1010000 1 0 1
         else if k = Q_MSG then mode_hdr 0x1010001 1 1 0 else mode_hdr 0x1010002 1024 0 0)
      else if mode = 2 then (\<lambda>q. q\<lparr>q_type := of_nat k OR 0x2020000\<rparr>)
      else (\<lambda>q. q))"

definition init_qtbl :: "nat \<Rightarrow> hfi_mem_info \<Rightarrow> hfi_qtbl \<Rightarrow> hfi_qtbl" where
  "init_qtbl mode m t =
     (let hdr = (\<lambda>k mem words. mode_hdrs mode k (reset_hdr (hm_iova mem) words (q_hdr t k))) in
      \<lparr>t_version = 0xFFFFFFFF, t_size = 24 + 4 * (4 * (15 * 15 + 14)), t_qhdr0_offset = 24, t_qhdr_size = 4 * (15 * 15 + 14),
       t_num_q = 3, t_num_active_q = 3,
       q_hdr = (q_hdr t)(Q_CMD := hdr Q_CMD (mi_cmd_q m) CMD_Q_WORDS, Q_MSG := hdr Q_MSG (mi_msg_q m) MSG_Q_WORDS,
         Q_DBG := hdr Q_DBG (mi_dbg_q m) DBG_Q_WORDS)\<rparr>)"

text \<open>What initialisation writes before it waits for the firmware.\<close>

definition init_start :: "(nat \<Rightarrow> u32) \<Rightarrow> nat \<Rightarrow> hfi_mem_info \<Rightarrow> ptr \<Rightarrow> bool \<Rightarrow> hfi_world \<Rightarrow> hfi_world" where
  "init_start orc mode m base debug w =
     (let w2 = run_cpu base debug w;
          a = hm_kva (mi_qtbl m);
          w3 = w2\<lparr>qtbl_at := (qtbl_at w2)(a := init_qtbl mode m (qtbl_at w2 a)),
                  sfr_size_at := (sfr_size_at w2)(hm_kva (mi_sfr_buf m) := 4096)\<rparr>;
          w4 = write_regs base (region_regs m @ [(HFI_REG_HOST_ICP_INIT_REQUEST, 1)] @ io_regs m) w3
      in snd (cam_io_r orc base HFI_REG_A5_HW_VERSION w4))"

text \<open>
  \<open>kz\<close> says whether \<open>g_hfi\<close> could be allocated. Where the state is not \<open>HFI_DEINIT\<close> the mutexes stay held. When
  the firmware does not come up the code is still \<open>0\<close>.
\<close>

definition cam_hfi_init ::
    "(nat \<Rightarrow> u32) \<Rightarrow> bool \<Rightarrow> nat \<Rightarrow> hfi_mem_info \<Rightarrow> ptr \<Rightarrow> bool \<Rightarrow> hfi_world \<Rightarrow> (rc \<times> hfi_world) option" where
  "cam_hfi_init orc kz mode m base debug w =
     (if cmd_q_mutex w \<or> msg_q_mutex w then None
      else Some (case (case g_hfi w of
                    Some h \<Rightarrow> Some h
                  | None \<Rightarrow> if kz then Some \<lparr>hi_map = m, hi_state = HFI_DEINIT, cmd_q_state = False, msg_q_state = False, csr_base = 0\<rparr>
                            else None) of
        None \<Rightarrow> (- ENOMEM, w)
      | Some h \<Rightarrow>
          if hi_state h \<noteq> HFI_DEINIT then (- EINVAL, w\<lparr>g_hfi := Some h, cmd_q_mutex := True, msg_q_mutex := True\<rparr>)
          else
            let (ok, w6) = init_wait orc base (init_start orc mode m base debug w)
            in if \<not> ok then (0, w6\<lparr>g_hfi := None\<rparr>)
               else (0, cam_io_w_mb (INTR_ENABLE OR INTR_ENABLE_WD0) base HFI_REG_A5_CSR_A2HOSTINTEN
                       ((snd (cam_io_r orc base HFI_REG_FW_VERSION w6))\<lparr>g_hfi := Some (h\<lparr>hi_map := m, csr_base := base,
                          hi_state := HFI_READY, cmd_q_state := True, msg_q_state := True\<rparr>)\<rparr>))))"

definition cam_hfi_deinit :: "hfi_world \<Rightarrow> hfi_world option" where
  "cam_hfi_deinit w = (if cmd_q_mutex w \<or> msg_q_mutex w then None else Some (w\<lparr>g_hfi := None\<rparr>))"

section \<open>Capabilities\<close>

record cam_icp_query_cap_cmd =
  fw_version :: "u32 \<times> u32 \<times> u32"
  api_version :: "u32 \<times> u32 \<times> u32"
  num_ipe :: u32
  num_bps :: u32
  dev_ver :: "(u32 \<times> u32 \<times> u32 \<times> u32) list"

definition hfi_get_hw_caps :: "cam_icp_query_cap_cmd option \<Rightarrow> rc \<times> cam_icp_query_cap_cmd option" where
  "hfi_get_hw_caps query =
     (case query of
        None \<Rightarrow> (- EINVAL, None)
      | Some q \<Rightarrow> (0, Some (q\<lparr>fw_version := (0x12, 0x12, 0x12), api_version := (0x13, 0x13, 0x13), num_ipe := 2, num_bps := 1,
          dev_ver := map (\<lambda>i. (of_nat i, 0x34 + of_nat i, 0x34 + of_nat i, 0x34 + of_nat i)) [0..<5]\<rparr>)))"

end
