(* ===== verification/Cam_Hfi_Queue.thy ===== *)
theory Cam_Hfi_Queue
  imports Cam_Hfi
begin

text \<open>
  The queues as sequences of words: what is between the two indices of a queue, in its order, and how
  the two copies of a write and of a read change it. The invariant of the queues, the steps of the host and
  of a firmware that keeps to the protocol.
\<close>

section \<open>Rings\<close>

definition ring :: "nat \<Rightarrow> nat \<Rightarrow> nat \<Rightarrow> (nat \<Rightarrow> u32) \<Rightarrow> u32 list" where
  "ring n rd wr m = map (\<lambda>k. m ((rd + k) mod n)) [0..<(wr + n - rd) mod n]"

lemma ring_length [simp]: "length (ring n rd wr m) = (wr + n - rd) mod n"
  by (simp add: ring_def)

lemma ring_empty: "rd < n \<Longrightarrow> ring n rd rd m = []"
  by (simp add: ring_def)

lemma mod_below: "x < 2 * n \<Longrightarrow> x mod n = (if x < n then x else x - n)" for x n :: nat
  by (simp add: mod_if)

text \<open>The number of words in a ring.\<close>

lemma ring_used: "rd < n \<Longrightarrow> wr < n \<Longrightarrow> (wr + n - rd) mod n = (if rd \<le> wr then wr - rd else wr + n - rd)" for rd wr n :: nat
  by (subst mod_below) auto

lemma ring_write_pos: "rd < n \<Longrightarrow> wr < n \<Longrightarrow> (rd + (wr + n - rd) mod n) mod n = wr" for rd wr n :: nat
  by (auto simp: ring_used mod_below)

text \<open>A position of the ring that is not used is not one of its words.\<close>

lemma ring_other:
  fixes rd wr n :: nat
  assumes "rd < n" "wr < n" "k < (wr + n - rd) mod n" "j < n - (wr + n - rd) mod n"
  shows "(rd + k) mod n \<noteq> (wr + j) mod n"
  using assms by (auto simp: ring_used mod_below split: if_splits)

lemma ring_append:
  assumes "rd < n" "wr < n" "(wr + n - rd) mod n + length ws < n"
    and new: "\<And>j. j < length ws \<Longrightarrow> m' ((wr + j) mod n) = ws ! j"
    and old: "\<And>i. (\<And>j. j < length ws \<Longrightarrow> i \<noteq> (wr + j) mod n) \<Longrightarrow> m' i = m i"
  shows "ring n rd ((wr + length ws) mod n) m' = ring n rd wr m @ ws"
proof -
  define u where "u = (wr + n - rd) mod n"
  have w: "wr = (rd + u) mod n" using ring_write_pos [OF assms(1,2)] by (simp add: u_def)
  have "((wr + length ws) mod n + n - rd) mod n = u + length ws"
    using assms(1-3) by (auto simp: ring_used mod_below u_def split: if_splits)
  moreover have "m' ((rd + k) mod n) = m ((rd + k) mod n)" if "k < u" for k
    by (rule old) (use ring_other [OF assms(1,2), of k] that assms(3) in \<open>auto simp: u_def\<close>)
  moreover have "m' ((rd + (u + j)) mod n) = ws ! j" if "j < length ws" for j
    using new [OF that] w by (metis add.assoc mod_add_left_eq)
  moreover have "m' ((rd + i) mod n) = ws ! (i - u)" if "\<not> i < u" "i < u + length ws" for i
    using calculation(3) [of "i - u"] that by simp
  ultimately show ?thesis
    unfolding ring_def u_def [symmetric] by (intro nth_equalityI) (auto simp: nth_append)
qed

section \<open>The two copies\<close>

text \<open>\<open>s\<close> words written at \<open>wr\<close>, going on at the start of the ring where they pass its end.\<close>

definition put_words :: "nat \<Rightarrow> nat \<Rightarrow> nat \<Rightarrow> (nat \<Rightarrow> u32) \<Rightarrow> (nat \<Rightarrow> u32) \<Rightarrow> nat \<Rightarrow> u32" where
  "put_words n wr s p m =
     (if wr + s < n then memcpy_words wr s p 0 m
      else memcpy_words 0 (wr + s - n) p (n - wr) (memcpy_words wr (n - wr) p 0 m))"

text \<open>\<open>s\<close> words read from \<open>rd\<close>.\<close>

definition get_words :: "nat \<Rightarrow> nat \<Rightarrow> nat \<Rightarrow> (nat \<Rightarrow> u32) \<Rightarrow> (nat \<Rightarrow> u32) \<Rightarrow> nat \<Rightarrow> u32" where
  "get_words n rd s m d =
     (if rd + s < n then memcpy_words 0 s m rd d
      else memcpy_words (n - rd) (rd + s - n) m 0 (memcpy_words 0 (n - rd) m rd d))"

lemma put_words_in: "wr < n \<Longrightarrow> s < n \<Longrightarrow> j < s \<Longrightarrow> put_words n wr s p m ((wr + j) mod n) = p j"
  by (auto simp: put_words_def memcpy_words_def mod_below)

lemma put_words_out:
  assumes "wr < n" "s < n" "\<And>j. j < s \<Longrightarrow> i \<noteq> (wr + j) mod n"
  shows "put_words n wr s p m i = m i"
proof -
  have "\<not> (wr \<le> i \<and> i < wr + s \<and> i < n)"
  proof
    assume i: "wr \<le> i \<and> i < wr + s \<and> i < n"
    then have "i - wr < s" by arith
    from assms(3) [OF this] i show False by simp
  qed
  moreover have "\<not> (i + n < wr + s)"
  proof
    assume i: "i + n < wr + s"
    then have "i + n - wr < s" "i < n" using assms(1,2) by arith+
    from assms(3) [OF this(1)] this(2) assms(1) show False by simp
  qed
  ultimately show ?thesis using assms(1,2) by (auto simp: put_words_def memcpy_words_def)
qed

lemma put_words_ring:
  assumes "rd < n" "wr < n" "(wr + n - rd) mod n + s < n"
  shows "ring n rd ((wr + s) mod n) (put_words n wr s p m) = ring n rd wr m @ map p [0..<s]"
proof -
  have s: "s < n" using assms(3) by simp
  have "ring n rd ((wr + length (map p [0..<s])) mod n) (put_words n wr s p m) = ring n rd wr m @ map p [0..<s]"
    by (rule ring_append [OF assms(1,2)]) (use assms s put_words_in put_words_out in auto)
  then show ?thesis by simp
qed

lemma get_words_ring:
  assumes "rd < n" "wr < n"
  shows "map (get_words n rd ((wr + n - rd) mod n) m d) [0..<(wr + n - rd) mod n] = ring n rd wr m"
  using assms by (auto simp: ring_def get_words_def memcpy_words_def ring_used mod_below add.commute)

lemma get_words_out: "rd < n \<Longrightarrow> s \<le> i \<Longrightarrow> s < n \<Longrightarrow> get_words n rd s m d i = d i"
  by (auto simp: get_words_def memcpy_words_def)

section \<open>Words and natural numbers\<close>

lemma word_count_small: "unat n < 2 ^ 30 \<Longrightarrow> word_count n = unat n"
proof -
  assume n: "unat n < 2 ^ 30"
  have "push_bit 2 n = 4 * n" by (simp add: push_bit_eq_mult)
  then have "unat (push_bit 2 n) = 4 * unat n" using n by (simp add: unat_word_ariths)
  then show ?thesis by (simp add: word_count_def)
qed

lemma drop2_small: "unat (drop_bit 2 (n :: u32)) < 2 ^ 30"
proof -
  have "unat n < 2 ^ LENGTH(32)" by (rule unsigned_less)
  then show ?thesis by (simp add: drop_bit_eq_div unat_div_distrib)
qed

section \<open>The invariant\<close>

definition q_words :: "nat \<Rightarrow> nat" where
  "q_words k = (if k = Q_DBG then 25600 else 1024)"

definition q_base :: "hfi_info \<Rightarrow> nat \<Rightarrow> ptr" where
  "q_base h k = hm_kva (if k = Q_CMD then mi_cmd_q (hi_map h) else if k = Q_MSG then mi_msg_q (hi_map h) else mi_dbg_q (hi_map h))"

definition hdr_ok :: "nat \<Rightarrow> hfi_q_hdr \<Rightarrow> bool" where
  "hdr_ok k q \<longleftrightarrow> unat (q_size q) = q_words k \<and> unat (q_read_idx q) < q_words k \<and> unat (q_write_idx q) < q_words k"

text \<open>The words in a queue.\<close>

definition queue :: "hfi_info \<Rightarrow> nat \<Rightarrow> hfi_world \<Rightarrow> u32 list" where
  "queue h k w = ring (q_words k) (unat (q_read_idx (hdr_of h k w))) (unat (q_write_idx (hdr_of h k w))) (words_at w (q_base h k))"

definition info_ok :: "hfi_info \<Rightarrow> hfi_world \<Rightarrow> bool" where
  "info_ok h w \<longleftrightarrow> hi_state h = HFI_READY \<and> cmd_q_state h \<and> msg_q_state h \<and> (\<forall>k\<le>2. hdr_ok k (hdr_of h k w))
     \<and> distinct (map (q_base h) [0, 1, 2])"

definition hfi_wf :: "hfi_world \<Rightarrow> bool" where
  "hfi_wf w \<longleftrightarrow> (case g_hfi w of None \<Rightarrow> True | Some h \<Rightarrow> info_ok h w)"

lemma queue_length: "hdr_ok k (hdr_of h k w) \<Longrightarrow> length (queue h k w) < q_words k"
  by (simp add: queue_def q_words_def)

section \<open>Writing a command\<close>

lemma hdr_upd [simp]:
  "hdr_of h k (upd_hdr h j f w) = (if k = j then f (hdr_of h k w) else hdr_of h k w)"
  "words_at (upd_hdr h j f w) = words_at w" "reg_trace (upd_hdr h j f w) = reg_trace w" "g_hfi (upd_hdr h j f w) = g_hfi w"
  "cmd_q_mutex (upd_hdr h j f w) = cmd_q_mutex w" "msg_q_mutex (upd_hdr h j f w) = msg_q_mutex w"
  "sfr_size_at (upd_hdr h j f w) = sfr_size_at w" "hfi_undef (upd_hdr h j f w) = hfi_undef w"
  by (simp_all add: hdr_of_def upd_hdr_def Let_def)

lemma io_simps [simp]:
  "hdr_of h k (cam_io_w_mb v b off w) = hdr_of h k w" "words_at (cam_io_w_mb v b off w) = words_at w" "g_hfi (cam_io_w_mb v b off w) = g_hfi w"
  "cmd_q_mutex (cam_io_w_mb v b off w) = cmd_q_mutex w" "msg_q_mutex (cam_io_w_mb v b off w) = msg_q_mutex w"
  "reg_trace (cam_io_w_mb v b off w) = reg_trace w @ [Reg_write b off v]" "qtbl_at (cam_io_w_mb v b off w) = qtbl_at w"
  "hdr_of h k (w\<lparr>words_at := f\<rparr>) = hdr_of h k w"
  by (simp_all add: hdr_of_def cam_io_w_mb_def)

text \<open>The index and the memory after a write that fits, in natural numbers.\<close>

lemma space_unat:
  assumes "hdr_ok k q"
  shows "unat (if q_read_idx q \<le> q_write_idx q then q_size q - (q_write_idx q - q_read_idx q) else q_read_idx q - q_write_idx q)
    = q_words k - (unat (q_write_idx q) + q_words k - unat (q_read_idx q)) mod q_words k"
  using assms by (auto simp: hdr_ok_def ring_used word_le_nat_alt unat_sub)

lemma wrap_index:
  fixes i z sz :: u32
  assumes "unat sz = n" "unat i < n" "unat z < n" "n \<le> 2 ^ 20"
  shows "unat i + unat z < n \<Longrightarrow> i + z < sz \<and> word_count z = unat z \<and> i + z = of_nat ((unat i + unat z) mod n)"
    and "\<not> unat i + unat z < n \<Longrightarrow> \<not> i + z < sz \<and> word_count (i + z - sz) = unat i + unat z - n
      \<and> word_count (z - (i + z - sz)) = n - unat i \<and> i + z - sz = of_nat ((unat i + unat z) mod n)"
proof -
  have sum: "unat (i + z) = unat i + unat z" using assms by (simp add: unat_word_ariths)
  show "i + z < sz \<and> word_count z = unat z \<and> i + z = of_nat ((unat i + unat z) mod n)" if "unat i + unat z < n"
  proof -
    have "i + z = of_nat (unat (i + z))" by simp
    then have "i + z = of_nat ((unat i + unat z) mod n)" using that by (simp only: sum) simp
    then show ?thesis using that assms(3,4) by (simp add: word_less_nat_alt sum assms(1) word_count_small)
  qed
  assume False: "\<not> unat i + unat z < n"
  then have ge: "\<not> i + z < sz" "sz \<le> i + z" by (simp_all add: word_less_nat_alt word_le_nat_alt sum assms(1))
  have new: "unat (i + z - sz) = unat i + unat z - n" using ge(2) by (simp add: unat_sub sum assms(1))
  have k: "unat (z - (i + z - sz)) = n - unat i"
    using False assms(1-3) new by (subst unat_sub) (auto simp: word_le_nat_alt)
  have "(unat i + unat z) mod n = unat (i + z - sz)" using False assms(2,3) by (subst mod_below) (auto simp: new)
  then have "i + z - sz = of_nat ((unat i + unat z) mod n)" by simp
  then show "\<not> i + z < sz \<and> word_count (i + z - sz) = unat i + unat z - n
      \<and> word_count (z - (i + z - sz)) = n - unat i \<and> i + z - sz = of_nat ((unat i + unat z) mod n)"
    using ge(1) assms(2-4) new k by (simp add: word_count_small)
qed

lemma copy_in_form:
  assumes "unat (q_size q) = n" "unat (q_write_idx q) < n" "unat z < n" "n \<le> 2 ^ 20"
  shows "copy_in q z p m = (of_nat ((unat (q_write_idx q) + unat z) mod n), put_words n (unat (q_write_idx q)) (unat z) p m)"
proof (cases "unat (q_write_idx q) + unat z < n")
  case True
  with wrap_index(1) [OF assms True] show ?thesis by (simp add: copy_in_def Let_def put_words_def)
next
  case False
  from wrap_index(2) [OF assms False] show ?thesis
    by (elim conjE) (simp only: copy_in_def Let_def if_False put_words_def False)
qed

lemma copy_out_form:
  assumes "unat (q_size q) = n" "unat (q_read_idx q) < n" "unat z < n" "n \<le> 2 ^ 20"
  shows "copy_out q z m d = (of_nat ((unat (q_read_idx q) + unat z) mod n), get_words n (unat (q_read_idx q)) (unat z) m d)"
proof (cases "unat (q_read_idx q) + unat z < n")
  case True
  with wrap_index(1) [OF assms True] show ?thesis by (simp add: copy_out_def Let_def get_words_def)
next
  case False
  from wrap_index(2) [OF assms False] show ?thesis
    by (elim conjE) (simp only: copy_out_def Let_def if_False get_words_def False)
qed

lemma write_cmd_form:
  assumes "info_ok h w" "g_hfi w = Some h" "\<not> cmd_q_mutex w"
  shows "hfi_write_cmd (Some p) w = Some (let q = hdr_of h Q_CMD w; s = unat (drop_bit 2 (p 0)) in
    if s = 0 then (- EINVAL, w)
    else if 1024 \<le> length (queue h Q_CMD w) + s then (- EIO, w)
    else (0, cam_io_w_mb INTR_ENABLE (csr_base h) HFI_REG_A5_CSR_HOST2ICPINT
           (upd_hdr h Q_CMD (\<lambda>x. x\<lparr>q_write_idx := of_nat ((unat (q_write_idx q) + s) mod 1024)\<rparr>)
             (w\<lparr>words_at := (words_at w)(q_base h Q_CMD := put_words 1024 (unat (q_write_idx q)) s p (words_at w (q_base h Q_CMD)))\<rparr>))))"
proof -
  define q where "q = hdr_of h Q_CMD w"
  define z where "z = drop_bit 2 (p 0)"
  have ok: "hdr_ok Q_CMD q" using assms(1) by (simp add: info_ok_def q_def)
  then have idx: "unat (q_size q) = 1024" "unat (q_read_idx q) < 1024" "unat (q_write_idx q) < 1024"
    by (simp_all add: hdr_ok_def q_words_def)
  have size: "q_size q = 1024" by (rule unsigned_word_eqI [where 'a = nat]) (simp add: idx(1))
  have len: "length (queue h Q_CMD w) = (unat (q_write_idx q) + 1024 - unat (q_read_idx q)) mod 1024"
    by (simp add: queue_def q_words_def q_def)
  have room: "(if q_read_idx q \<le> q_write_idx q then q_size q - (q_write_idx q - q_read_idx q) else q_read_idx q - q_write_idx q) \<le> z
      \<longleftrightarrow> 1024 \<le> length (queue h Q_CMD w) + unat z"
    using space_unat [OF ok] len by (simp only: word_le_nat_alt [of "if _ then _ else _"]) (simp add: q_words_def, arith)
  show ?thesis
  proof (cases "z = 0 \<or> 1024 \<le> length (queue h Q_CMD w) + unat z")
    case True
    then show ?thesis using assms room
      by (auto simp: hfi_write_cmd_def info_ok_def Let_def q_def [symmetric] z_def [symmetric] unsigned_eq_0_iff)
  next
    case False
    then have z: "unat z < 1024" "unat z \<noteq> 0" "z \<noteq> 0" by (auto simp: unsigned_eq_0_iff)
    show ?thesis using assms room False z copy_in_form [OF idx(1) idx(3) z(1), of p "words_at w (q_base h Q_CMD)"]
      by (simp add: hfi_write_cmd_def info_ok_def Let_def q_def [symmetric] z_def [symmetric] q_base_def)
  qed
qed

section \<open>Reading messages\<close>

text \<open>The words between two indices that differ, as the code computes their number.\<close>

lemma used_unat:
  assumes "hdr_ok k q" "q_read_idx q \<noteq> q_write_idx q" "unat n = q_words k"
  shows "unat (if q_read_idx q < q_write_idx q then q_write_idx q - q_read_idx q else n - (q_read_idx q - q_write_idx q))
    = (unat (q_write_idx q) + q_words k - unat (q_read_idx q)) mod q_words k"
proof -
  have r: "unat (q_read_idx q) < q_words k" "unat (q_write_idx q) < q_words k" using assms(1) by (simp_all add: hdr_ok_def)
  show ?thesis
  proof (cases "q_read_idx q < q_write_idx q")
    case True
    then show ?thesis using r by (simp add: ring_used unat_sub word_less_nat_alt word_le_nat_alt)
  next
    case False
    then have lt: "unat (q_write_idx q) < unat (q_read_idx q)" using assms(2)
      by (simp add: word_less_nat_alt) (metis nat_neq_iff word_unat_eq_iff)
    then have d: "unat (q_read_idx q - q_write_idx q) = unat (q_read_idx q) - unat (q_write_idx q)"
      by (simp add: unat_sub word_le_nat_alt)
    have "unat (n - (q_read_idx q - q_write_idx q)) = q_words k - (unat (q_read_idx q) - unat (q_write_idx q))"
      using r assms(3) by (subst unat_sub) (simp_all add: word_le_nat_alt d)
    with False lt r show ?thesis by (simp add: ring_used)
  qed
qed

lemma queue_empty_iff: "hdr_ok k (hdr_of h k w) \<Longrightarrow> queue h k w = [] \<longleftrightarrow> q_read_idx (hdr_of h k w) = q_write_idx (hdr_of h k w)"
proof -
  assume ok: "hdr_ok k (hdr_of h k w)"
  then have "length (queue h k w) = 0 \<longleftrightarrow> unat (q_read_idx (hdr_of h k w)) = unat (q_write_idx (hdr_of h k w))"
    by (auto simp: queue_def hdr_ok_def ring_used)
  then show ?thesis by (simp add: word_unat_eq_iff)
qed

lemma read_message_form:
  assumes "info_ok h w" "g_hfi w = Some h" "\<not> msg_q_mutex w" "k = Q_MSG \<or> k = Q_DBG"
  shows "hfi_read_message (Some d) k w = Some (let q = hdr_of h k w; n = length (queue h k w) in
    if queue h k w = [] then ((- EIO, Some d, None), w)
    else ((0, Some (get_words (q_words k) (unat (q_read_idx q)) n (words_at w (q_base h k)) d), Some (of_nat n)),
          upd_hdr h k (\<lambda>x. x\<lparr>q_read_idx := q_write_idx q\<rparr>) w))"
proof -
  define q where "q = hdr_of h k w"
  have ok: "hdr_ok k q" using assms(1,4) by (auto simp: info_ok_def q_def)
  then have idx: "unat (q_size q) = q_words k" "unat (q_read_idx q) < q_words k" "unat (q_write_idx q) < q_words k"
    by (simp_all add: hdr_ok_def)
  define words where "words = (if k = Q_MSG then MSG_Q_WORDS else DBG_Q_WORDS)"
  define sz where "sz = (if q_read_idx q < q_write_idx q then q_write_idx q - q_read_idx q else words - (q_read_idx q - q_write_idx q))"
  have bnd: "q_words k \<le> 2 ^ 20" "unat words = q_words k" "k \<le> Q_DBG" using assms(4) by (auto simp: q_words_def words_def)
  have empty: "queue h k w = [] \<longleftrightarrow> q_read_idx q = q_write_idx q" using queue_empty_iff ok by (simp add: q_def)
  show ?thesis
  proof (cases "q_read_idx q = q_write_idx q")
    case True
    then show ?thesis using assms bnd(3) empty
      by (simp add: hfi_read_message_def info_ok_def Let_def q_def [symmetric])
  next
    case False
    have len: "unat sz = length (queue h k w)" using used_unat [OF ok False bnd(2)] by (simp add: sz_def queue_def q_def)
    then have sz: "unat sz < q_words k" "sz \<noteq> 0" using queue_length [of k h w] ok False empty by (auto simp: q_def)
    have upper: "\<not> (if k = Q_MSG then ICP_HFI_MAX_PKT_SIZE_MSGQ_IN_WORDS else ICP_HFI_MAX_PKT_SIZE_IN_WORDS) < sz"
      using sz(1) assms(4) by (auto simp: word_less_nat_alt q_words_def)
    have "(unat (q_read_idx q) + unat sz) mod q_words k = unat (q_write_idx q)"
      using ring_write_pos [OF idx(2,3)] len by (simp add: queue_def q_def)
    then have copy: "copy_out q sz m d = (q_write_idx q, get_words (q_words k) (unat (q_read_idx q)) (unat sz) m d)" for m
      using copy_out_form [OF idx(1,2) sz(1) bnd(1), of m d] by simp
    have tuple: "(if k = Q_MSG then (hm_kva (mi_msg_q (hi_map h)), ICP_HFI_MAX_PKT_SIZE_MSGQ_IN_WORDS, MSG_Q_WORDS)
        else (hm_kva (mi_dbg_q (hi_map h)), ICP_HFI_MAX_PKT_SIZE_IN_WORDS, DBG_Q_WORDS))
      = (q_base h k, if k = Q_MSG then ICP_HFI_MAX_PKT_SIZE_MSGQ_IN_WORDS else ICP_HFI_MAX_PKT_SIZE_IN_WORDS, words)"
      using assms(4) by (auto simp: q_base_def words_def)
    have szw: "of_nat (length (queue h k w)) = sz" by (simp add: len [symmetric])
    have ready: "hi_state h = HFI_READY" "msg_q_state h" "\<not> Q_DBG < k" using assms(1) bnd(3) by (simp_all add: info_ok_def)
    show ?thesis
      unfolding hfi_read_message_def option.case assms(2) Let_def tuple prod.case q_def [symmetric] sz_def [symmetric] copy len szw
      using assms(3) ready False empty upper sz(2) by (simp split del: if_split)
  qed
qed

end
