(* ===== verification/Cam_Hfi_Sys.thy ===== *)
theory Cam_Hfi_Sys
  imports Cam_Hfi_Queue
begin

text \<open>
  The queues between the host and the firmware as one system: the calls of the host after the
  initialisation, and the steps of a firmware that takes words from the command queue and puts words into
  the two queues back. The words that went in and came out are kept as histories.
\<close>

section \<open>Calls that only use registers\<close>

text \<open>What such a call leaves alone.\<close>

definition same_mem :: "hfi_world \<Rightarrow> hfi_world \<Rightarrow> bool" where
  "same_mem w w' \<longleftrightarrow> g_hfi w' = g_hfi w \<and> qtbl_at w' = qtbl_at w \<and> words_at w' = words_at w
     \<and> cmd_q_mutex w' = cmd_q_mutex w \<and> msg_q_mutex w' = msg_q_mutex w"

lemma same_mem_refl [simp]: "same_mem w w"
  by (simp add: same_mem_def)

lemma same_mem_trace [simp]: "same_mem w (w'\<lparr>reg_trace := t\<rparr>) \<longleftrightarrow> same_mem w w'"
  by (simp add: same_mem_def)

lemma same_mem_io [simp]: "same_mem w (cam_io_w_mb v b off w') \<longleftrightarrow> same_mem w w'" "same_mem w (snd (cam_io_r orc b off w')) \<longleftrightarrow> same_mem w w'"
  by (simp_all add: cam_io_w_mb_def cam_io_r_def)

lemma same_mem_run [simp]: "same_mem w (run_cpu base debug w') \<longleftrightarrow> same_mem w w'"
  by (simp add: run_cpu_def Let_def)

lemma same_mem_trans: "same_mem u v \<Longrightarrow> same_mem v w \<Longrightarrow> same_mem u w"
  by (simp add: same_mem_def)

lemma write_regs_same: "same_mem w (write_regs base rs w)"
proof (induction rs arbitrary: w)
  case (Cons r rs)
  obtain off v where r: "r = (off, v)" by (cases r)
  show ?case using same_mem_trans [of w "cam_io_w_mb v base off w"] Cons.IH by (simp add: r)
qed simp

lemma init_poll_same: "same_mem w (snd (init_poll orc n st base w))"
proof (induction n arbitrary: st w)
  case (Suc n)
  define w1 where "w1 = w\<lparr>reg_trace := reg_trace w @ [Reg_poll base HFI_REG_ICP_HOST_INIT_RESPONSE, Reg_read base HFI_REG_ICP_HOST_INIT_RESPONSE]\<rparr>"
  have "same_mem w w1" by (simp add: w1_def)
  then have "same_mem w (snd (init_poll orc n st' base w1))" for st' using same_mem_trans Suc.IH by blast
  then show ?case by (simp add: cam_io_r_def w1_def)
qed simp

lemma init_wait_same: "same_mem w (snd (init_wait orc base w))"
  using init_poll_same [of w orc HFI_MAX_POLL_TRY 0 base]
  by (auto simp: init_wait_def split_beta split: init_end.splits)

lemma same_mem_queues:
  assumes "same_mem w w'"
  shows "hdr_of h k w' = hdr_of h k w" "queue h k w' = queue h k w" "info_ok h w' = info_ok h w"
  using assms by (simp_all add: same_mem_def hdr_of_def queue_def info_ok_def)

section \<open>Initialisation\<close>

lemma mode_hdrs_index [simp]:
  "q_size (mode_hdrs mode k q) = q_size q" "q_read_idx (mode_hdrs mode k q) = q_read_idx q"
  "q_write_idx (mode_hdrs mode k q) = q_write_idx q"
  by (simp_all add: mode_hdrs_def mode_hdr_def)

lemma reset_hdr_index [simp]:
  "q_size (reset_hdr a n q) = n" "q_read_idx (reset_hdr a n q) = 0" "q_write_idx (reset_hdr a n q) = 0"
  by (simp_all add: reset_hdr_def)

lemma init_qtbl_hdr:
  "k \<le> 2 \<Longrightarrow> q_read_idx (q_hdr (init_qtbl mode m t) k) = 0 \<and> q_write_idx (q_hdr (init_qtbl mode m t) k) = 0
     \<and> unat (q_size (q_hdr (init_qtbl mode m t) k)) = q_words k"
  by (auto simp: init_qtbl_def Let_def q_words_def)

text \<open>The addresses of the three queues.\<close>

definition mem_bases :: "hfi_mem_info \<Rightarrow> ptr list" where
  "mem_bases m = [hm_kva (mi_cmd_q m), hm_kva (mi_msg_q m), hm_kva (mi_dbg_q m)]"

lemma init_start_mem:
  "words_at (init_start orc mode m base debug w) = words_at w" "cmd_q_mutex (init_start orc mode m base debug w) = cmd_q_mutex w"
  "msg_q_mutex (init_start orc mode m base debug w) = msg_q_mutex w"
  "qtbl_at (init_start orc mode m base debug w) (hm_kva (mi_qtbl m)) = init_qtbl mode m (qtbl_at w (hm_kva (mi_qtbl m)))"
  using write_regs_same by (simp_all add: init_start_def run_cpu_def Let_def same_mem_def cam_io_r_def cam_io_w_mb_def)

lemma hfi_init_form:
  assumes res: "cam_hfi_init orc kz mode m base debug w = Some (rc, w')" and old: "g_hfi w = None" and new: "g_hfi w' = Some h"
  shows "rc = 0 \<and> h = \<lparr>hi_map = m, hi_state = HFI_READY, cmd_q_state = True, msg_q_state = True, csr_base = base\<rparr>
    \<and> same_mem (snd (init_wait orc base (init_start orc mode m base debug w))) (w'\<lparr>g_hfi := g_hfi (snd (init_wait orc base (init_start orc mode m base debug w)))\<rparr>)
    \<and> \<not> cmd_q_mutex w \<and> \<not> msg_q_mutex w"
proof -
  obtain ok w6 where wait: "init_wait orc base (init_start orc mode m base debug w) = (ok, w6)" by (metis surj_pair)
  show ?thesis using res old new
    by (cases kz; cases ok) (auto simp: cam_hfi_init_def wait same_mem_def cam_io_w_mb_def cam_io_r_def split: if_splits)
qed

lemma hfi_init_ok:
  assumes res: "cam_hfi_init orc kz mode m base debug w = Some (rc, w')" and old: "g_hfi w = None" and new: "g_hfi w' = Some h"
    and dist: "distinct (mem_bases m)"
  shows "info_ok h w' \<and> (\<forall>k\<le>2. queue h k w' = []) \<and> \<not> cmd_q_mutex w' \<and> \<not> msg_q_mutex w' \<and> words_at w' = words_at w"
proof -
  note form = hfi_init_form [OF res old new]
  define u where "u = init_start orc mode m base debug w"
  have "same_mem u (w'\<lparr>g_hfi := g_hfi u\<rparr>)"
    using form init_wait_same [of u orc base] by (simp add: same_mem_def u_def [symmetric])
  then have "qtbl_at w' = qtbl_at u" "words_at w' = words_at u" "cmd_q_mutex w' = cmd_q_mutex u" "msg_q_mutex w' = msg_q_mutex u"
    by (simp_all add: same_mem_def)
  then have w': "qtbl_at w' (hm_kva (mi_qtbl m)) = init_qtbl mode m (qtbl_at w (hm_kva (mi_qtbl m)))" "words_at w' = words_at w"
      "\<not> cmd_q_mutex w'" "\<not> msg_q_mutex w'"
    using form by (simp_all add: init_start_mem u_def)
  have hdr: "hdr_of h k w' = q_hdr (init_qtbl mode m (qtbl_at w (hm_kva (mi_qtbl m)))) k" for k using form by (simp add: hdr_of_def w')
  have "hdr_ok k (hdr_of h k w')" if "k \<le> 2" for k using init_qtbl_hdr [OF that] by (simp add: hdr_ok_def hdr q_words_def)
  moreover have "hi_state h = HFI_READY \<and> cmd_q_state h \<and> msg_q_state h \<and> distinct (map (q_base h) [0, 1, 2])"
    using dist form by (auto simp: q_base_def mem_bases_def)
  ultimately have "info_ok h w'" by (simp add: info_ok_def)
  moreover have "queue h k w' = []" if "k \<le> 2" for k
    using init_qtbl_hdr [OF that] by (simp add: queue_def hdr q_words_def ring_empty)
  ultimately show ?thesis using w' by simp
qed

section \<open>Words into a queue and out of it\<close>

text \<open>What one side does to put \<open>s\<close> words of \<open>p\<close> into a queue, and what the other does to take \<open>n\<close> words.\<close>

definition put_queue :: "hfi_info \<Rightarrow> nat \<Rightarrow> nat \<Rightarrow> (nat \<Rightarrow> u32) \<Rightarrow> hfi_world \<Rightarrow> hfi_world" where
  "put_queue h k s p w =
     (let wr = unat (q_write_idx (hdr_of h k w)) in
      upd_hdr h k (\<lambda>x. x\<lparr>q_write_idx := of_nat ((wr + s) mod q_words k)\<rparr>)
        (w\<lparr>words_at := (words_at w)(q_base h k := put_words (q_words k) wr s p (words_at w (q_base h k)))\<rparr>))"

definition take_queue :: "hfi_info \<Rightarrow> nat \<Rightarrow> nat \<Rightarrow> hfi_world \<Rightarrow> hfi_world" where
  "take_queue h k n w =
     upd_hdr h k (\<lambda>x. x\<lparr>q_read_idx := of_nat ((unat (q_read_idx x) + n) mod q_words k)\<rparr>) w"

lemma queue_io [simp]: "queue h k (cam_io_w_mb v b off w) = queue h k w" "info_ok h (cam_io_w_mb v b off w) = info_ok h w"
  by (simp_all add: queue_def info_ok_def)

lemma q_words_bound [simp]: "q_words k \<le> 2 ^ 20" "0 < q_words k"
  by (simp_all add: q_words_def)

lemma index_word: "unat (of_nat (i mod q_words k) :: u32) = i mod q_words k"
proof -
  have "i mod q_words k < 2 ^ LENGTH(32)"
    by (rule less_trans [OF mod_less_divisor [of "q_words k"]]) (simp_all add: q_words_def)
  then show ?thesis by (simp add: unat_of_nat)
qed

lemma info_okD: "info_ok h w \<Longrightarrow> k \<le> 2 \<Longrightarrow> hdr_ok k (hdr_of h k w)"
  by (simp add: info_ok_def)

lemma q_base_inj: "info_ok h w \<Longrightarrow> j \<le> 2 \<Longrightarrow> k \<le> 2 \<Longrightarrow> j \<noteq> k \<Longrightarrow> q_base h j \<noteq> q_base h k"
proof -
  assume ok: "info_ok h w" and b: "j \<le> 2" "k \<le> 2" "j \<noteq> k"
  have "j = 0 \<or> j = 1 \<or> j = 2" "k = 0 \<or> k = 1 \<or> k = 2" using b by arith+
  moreover have "q_base h 0 \<noteq> q_base h 1" "q_base h 0 \<noteq> q_base h 2" "q_base h 1 \<noteq> q_base h 2" using ok by (simp_all add: info_ok_def)
  ultimately show ?thesis using b(3) by (elim disjE) simp_all
qed

lemma info_ok_upd:
  assumes "info_ok h w" "hdr_ok k (f (hdr_of h k w))"
  shows "info_ok h (upd_hdr h k f w)"
  using assms by (simp add: info_ok_def)

lemma put_queue_ok:
  assumes ok: "info_ok h w" and k: "k \<le> 2" and room: "length (queue h k w) + s < q_words k"
  shows "info_ok h (put_queue h k s p w)" "queue h k (put_queue h k s p w) = queue h k w @ map p [0..<s]"
    "j \<le> 2 \<Longrightarrow> j \<noteq> k \<Longrightarrow> queue h j (put_queue h k s p w) = queue h j w"
proof -
  have hdr: "hdr_ok k (hdr_of h k w)" by (rule info_okD [OF ok k])
  show "info_ok h (put_queue h k s p w)"
    unfolding put_queue_def Let_def
    by (rule info_ok_upd) (use ok hdr in \<open>simp_all add: info_ok_def hdr_ok_def index_word\<close>)
  have "unat (q_read_idx (hdr_of h k w)) < q_words k" "unat (q_write_idx (hdr_of h k w)) < q_words k"
    using hdr by (simp_all add: hdr_ok_def)
  from put_words_ring [OF this] room show "queue h k (put_queue h k s p w) = queue h k w @ map p [0..<s]"
    by (simp add: put_queue_def queue_def index_word Let_def)
  show "queue h j (put_queue h k s p w) = queue h j w" if "j \<le> 2" "j \<noteq> k"
    using q_base_inj [OF ok that(1) k that(2)] that(2) by (simp add: put_queue_def queue_def Let_def)
qed

lemma ring_drop:
  assumes "rd < n" "wr < n" "k \<le> (wr + n - rd) mod n"
  shows "ring n ((rd + k) mod n) wr m = drop k (ring n rd wr m)"
proof -
  have len: "(wr + n - (rd + k) mod n) mod n = (wr + n - rd) mod n - k"
    using assms by (auto simp: ring_used mod_below split: if_splits)
  show ?thesis
    by (rule nth_equalityI) (use len assms(3) in \<open>auto simp: ring_def mod_add_left_eq add.assoc\<close>)
qed

lemma take_queue_ok:
  assumes ok: "info_ok h w" and k: "k \<le> 2" and n: "n \<le> length (queue h k w)"
  shows "info_ok h (take_queue h k n w)" "queue h k (take_queue h k n w) = drop n (queue h k w)"
    "j \<noteq> k \<Longrightarrow> queue h j (take_queue h k n w) = queue h j w"
proof -
  have hdr: "hdr_ok k (hdr_of h k w)" by (rule info_okD [OF ok k])
  then show "info_ok h (take_queue h k n w)"
    unfolding take_queue_def by (intro info_ok_upd [OF ok]) (simp add: hdr_ok_def index_word)
  have "unat (q_read_idx (hdr_of h k w)) < q_words k" "unat (q_write_idx (hdr_of h k w)) < q_words k"
    using hdr by (simp_all add: hdr_ok_def)
  from ring_drop [OF this] n show "queue h k (take_queue h k n w) = drop n (queue h k w)"
    by (simp add: take_queue_def queue_def index_word)
  show "j \<noteq> k \<Longrightarrow> queue h j (take_queue h k n w) = queue h j w"
    by (simp add: take_queue_def queue_def)
qed

text \<open>The host puts a packet into the command queue, and takes all the words of a queue at once.\<close>

lemma write_cmd_put:
  assumes "info_ok h w" "g_hfi w = Some h" "\<not> cmd_q_mutex w"
  shows "hfi_write_cmd (Some p) w = Some (let s = unat (drop_bit 2 (p 0)) in
    if s = 0 then (- EINVAL, w)
    else if 1024 \<le> length (queue h Q_CMD w) + s then (- EIO, w)
    else (0, cam_io_w_mb INTR_ENABLE (csr_base h) HFI_REG_A5_CSR_HOST2ICPINT (put_queue h Q_CMD s p w)))"
  using write_cmd_form [OF assms, of p] by (simp add: put_queue_def q_words_def Let_def)

lemma read_message_take:
  assumes ok: "info_ok h w" and h: "g_hfi w = Some h" "\<not> msg_q_mutex w" and k: "k = Q_MSG \<or> k = Q_DBG"
  shows "\<exists>e. hfi_read_message (Some d) k w = Some (
    if queue h k w = [] then ((- EIO, Some d, None), w)
    else ((0, Some e, Some (of_nat (length (queue h k w)))), take_queue h k (length (queue h k w)) w))
      \<and> map e [0..<length (queue h k w)] = queue h k w \<and> (\<forall>i\<ge>length (queue h k w). e i = d i)"
proof -
  define q where "q = hdr_of h k w"
  have hdr: "hdr_ok k q" using info_okD [OF ok] k by (auto simp: q_def)
  then have idx: "unat (q_read_idx q) < q_words k" "unat (q_write_idx q) < q_words k" by (simp_all add: hdr_ok_def)
  define e where "e = get_words (q_words k) (unat (q_read_idx q)) (length (queue h k w)) (words_at w (q_base h k)) d"
  have "map e [0..<length (queue h k w)] = queue h k w"
    using get_words_ring [OF idx] by (simp add: e_def queue_def q_def)
  moreover have "\<forall>i\<ge>length (queue h k w). e i = d i"
    using get_words_out [OF idx(1)] queue_length hdr by (simp add: e_def q_def)
  moreover have "of_nat ((unat (q_read_idx q) + length (queue h k w)) mod q_words k) = q_write_idx q"
    using ring_write_pos [OF idx] by (simp add: queue_def q_def)
  then have "take_queue h k (length (queue h k w)) w = upd_hdr h k (\<lambda>x. x\<lparr>q_read_idx := q_write_idx q\<rparr>) w"
    by (simp add: take_queue_def upd_hdr_def Let_def q_def hdr_of_def)
  ultimately show ?thesis
    using read_message_form [OF ok h k, of d] by (intro exI [of _ e]) (simp add: e_def q_def Let_def)
qed

text \<open>
  A property command reports success whether its packet of \<open>3 + n\<close> words reached the queue or not.
\<close>

lemma set_property_queue:
  assumes ok: "info_ok h w" and h: "g_hfi w = Some h" "\<not> cmd_q_mutex w" and n: "length data \<le> 5"
  shows "\<exists>w'. set_property True data w = Some (0, w') \<and> queue h Q_CMD w' = queue h Q_CMD w
    @ (if 1021 \<le> length (queue h Q_CMD w) + length data then [] else [of_nat (4 * (3 + length data)), HFI_CMD_SYS_SET_PROPERTY, 1] @ data)"
proof -
  define ws where "ws = [of_nat (4 * (3 + length data)), HFI_CMD_SYS_SET_PROPERTY, 1] @ data"
  have "unat (of_nat (4 * (3 + length data)) :: u32) = 4 * (3 + length data)" using n by (simp only: unat_of_nat) simp
  then have s: "unat (drop_bit 2 (pkt_of ws 0)) = length ws" by (simp add: pkt_of_def ws_def drop_bit_eq_div unat_div_distrib)
  have words: "map (pkt_of ws) [0..<length ws] = ws" by (rule nth_equalityI) (simp_all add: pkt_of_def)
  have len: "length ws = length data + 3" by (simp add: ws_def)
  note form = write_cmd_put [OF ok h, of "pkt_of ws", unfolded s Let_def]
  have set: "set_property True data w = map_option (\<lambda>(rc, w). (0, w)) (hfi_write_cmd (Some (pkt_of ws)) w)"
    by (simp add: set_property_def ws_def)
  have "\<exists>w'. set_property True data w = Some (0, w') \<and> queue h Q_CMD w' = queue h Q_CMD w
      @ (if 1024 \<le> length (queue h Q_CMD w) + length ws then [] else ws)"
  proof (cases "1024 \<le> length (queue h Q_CMD w) + length ws")
    case True
    then show ?thesis using form by (simp add: set)
  next
    case False
    then have "length (queue h Q_CMD w) + length ws < q_words Q_CMD" by (simp add: q_words_def)
    from put_queue_ok(2) [OF ok _ this, of "pkt_of ws"] False words len show ?thesis
      using form by (simp add: set)
  qed
  moreover have "1024 \<le> length (queue h Q_CMD w) + length ws \<longleftrightarrow> 1021 \<le> length (queue h Q_CMD w) + length data" by (auto simp: len)
  ultimately show ?thesis unfolding ws_def by (simp only:)
qed

end
