(* ===== verification/Cam_Hfi_Reach.thy ===== *)
theory Cam_Hfi_Reach
  imports Cam_Hfi_Sys
begin

text \<open>
  The life of the interface: initialisation, commands, messages, resume, deinitialisation, interleaved
  with a firmware that takes words from the command queue and puts words into the two queues back where
  there is room. In every state the words that went into a queue are those that came out and those it holds.
\<close>

section \<open>Steps\<close>

text \<open>The histories are those since the last initialisation; \<open>rsp_sent\<close> and \<open>rsp_got\<close> have one for each queue.\<close>

record hfi_run =
  hr_world :: hfi_world
  cmd_sent :: "u32 list"
  cmd_taken :: "u32 list"
  rsp_sent :: "nat \<Rightarrow> u32 list"
  rsp_got :: "nat \<Rightarrow> u32 list"

definition hfi_start :: "hfi_run \<Rightarrow> bool" where
  "hfi_start r \<longleftrightarrow> g_hfi (hr_world r) = None"

text \<open>The words of a packet that was accepted, and those that a read gave.\<close>

definition accepted :: "rc \<Rightarrow> (nat \<Rightarrow> u32) \<Rightarrow> u32 list" where
  "accepted rc p = (if rc = 0 then map p [0..<unat (drop_bit 2 (p 0))] else [])"

definition received :: "(nat \<Rightarrow> u32) option \<Rightarrow> u32 option \<Rightarrow> u32 list" where
  "received d n = (case (d, n) of (Some e, Some c) \<Rightarrow> map e [0..<unat c] | _ \<Rightarrow> [])"

inductive hfi_step :: "hfi_run \<Rightarrow> hfi_run \<Rightarrow> bool" where
  hs_init: "cam_hfi_init orc kz mode m base debug (hr_world r) = Some (rc, w) \<Longrightarrow> distinct (mem_bases m) \<Longrightarrow> g_hfi (hr_world r) = None \<Longrightarrow>
    hfi_step r \<lparr>hr_world = w, cmd_sent = [], cmd_taken = [], rsp_sent = (\<lambda>_. []), rsp_got = (\<lambda>_. [])\<rparr>"
| hs_init_again: "cam_hfi_init orc kz mode m base debug (hr_world r) = Some (rc, w) \<Longrightarrow> g_hfi (hr_world r) = Some h \<Longrightarrow>
    hfi_step r (r\<lparr>hr_world := w\<rparr>)"
| hs_deinit: "cam_hfi_deinit (hr_world r) = Some w \<Longrightarrow> hfi_step r (r\<lparr>hr_world := w\<rparr>)"
| hs_resume: "cam_hfi_resume orc m base debug (hr_world r) = (rc, w) \<Longrightarrow> hfi_step r (r\<lparr>hr_world := w\<rparr>)"
| hs_write: "hfi_write_cmd (Some p) (hr_world r) = Some (rc, w) \<Longrightarrow>
    hfi_step r (r\<lparr>hr_world := w, cmd_sent := cmd_sent r @ accepted rc p\<rparr>)"
| hs_read: "hfi_read_message (Some d) k (hr_world r) = Some ((rc, e, n), w) \<Longrightarrow> k = Q_MSG \<or> k = Q_DBG \<Longrightarrow>
    hfi_step r (r\<lparr>hr_world := w, rsp_got := (rsp_got r)(k := rsp_got r k @ received e n)\<rparr>)"
| hs_fw_take: "g_hfi (hr_world r) = Some h \<Longrightarrow> n \<le> length (queue h Q_CMD (hr_world r)) \<Longrightarrow>
    hfi_step r (r\<lparr>hr_world := take_queue h Q_CMD n (hr_world r), cmd_taken := cmd_taken r @ take n (queue h Q_CMD (hr_world r))\<rparr>)"
| hs_fw_put: "g_hfi (hr_world r) = Some h \<Longrightarrow> k = Q_MSG \<or> k = Q_DBG \<Longrightarrow> length (queue h k (hr_world r)) + s < q_words k \<Longrightarrow>
    hfi_step r (r\<lparr>hr_world := put_queue h k s p (hr_world r), rsp_sent := (rsp_sent r)(k := rsp_sent r k @ map p [0..<s])\<rparr>)"

inductive_cases hfi_stepE: "hfi_step r t"

section \<open>The invariant\<close>

definition hfi_inv :: "hfi_run \<Rightarrow> bool" where
  "hfi_inv r \<longleftrightarrow> (case g_hfi (hr_world r) of
     None \<Rightarrow> True
   | Some h \<Rightarrow> info_ok h (hr_world r) \<and> cmd_sent r = cmd_taken r @ queue h Q_CMD (hr_world r)
       \<and> (\<forall>k. k = Q_MSG \<or> k = Q_DBG \<longrightarrow> rsp_sent r k = rsp_got r k @ queue h k (hr_world r)))"

lemma hfi_inv_some:
  "g_hfi (hr_world r) = Some h \<Longrightarrow> hfi_inv r \<longleftrightarrow> info_ok h (hr_world r) \<and> cmd_sent r = cmd_taken r @ queue h Q_CMD (hr_world r)
     \<and> (\<forall>k. k = Q_MSG \<or> k = Q_DBG \<longrightarrow> rsp_sent r k = rsp_got r k @ queue h k (hr_world r))"
  by (simp add: hfi_inv_def)

lemma put_queue_info [simp]: "g_hfi (put_queue h k s p w) = g_hfi w" "g_hfi (take_queue h k n w) = g_hfi w"
  by (simp_all add: put_queue_def take_queue_def Let_def)

lemma hfi_write_inv:
  assumes inv: "hfi_inv r" and res: "hfi_write_cmd (Some p) (hr_world r) = Some (rc, w)"
  shows "hfi_inv (r\<lparr>hr_world := w, cmd_sent := cmd_sent r @ accepted rc p\<rparr>)"
proof (cases "g_hfi (hr_world r)")
  case None
  then show ?thesis using res by (auto simp: hfi_write_cmd_def hfi_inv_def split: if_splits)
next
  case (Some h)
  have mut: "\<not> cmd_q_mutex (hr_world r)" using res by (auto simp: hfi_write_cmd_def split: if_splits)
  have ok: "info_ok h (hr_world r)" and h: "cmd_sent r = cmd_taken r @ queue h Q_CMD (hr_world r)"
      "\<forall>k. k = Q_MSG \<or> k = Q_DBG \<longrightarrow> rsp_sent r k = rsp_got r k @ queue h k (hr_world r)"
    using inv by (simp_all add: hfi_inv_some [OF Some])
  note form = write_cmd_put [OF ok Some mut, of p]
  show ?thesis
  proof (cases "rc = 0")
    case True
    then have w: "w = cam_io_w_mb INTR_ENABLE (csr_base h) HFI_REG_A5_CSR_HOST2ICPINT (put_queue h Q_CMD (unat (drop_bit 2 (p 0))) p (hr_world r))"
      and room: "length (queue h Q_CMD (hr_world r)) + unat (drop_bit 2 (p 0)) < q_words Q_CMD"
      using res form by (auto simp: Let_def q_words_def split: if_splits)
    show ?thesis using put_queue_ok [OF ok _ room, where p = p] h True
      by (auto simp: hfi_inv_def w Some accepted_def)
  next
    case False
    then have "w = hr_world r" using res form by (auto simp: Let_def split: if_splits)
    then show ?thesis using inv False by (simp add: hfi_inv_def Some accepted_def)
  qed
qed

lemma hfi_read_inv:
  assumes inv: "hfi_inv r" and res: "hfi_read_message (Some d) k (hr_world r) = Some ((rc, e, n), w)" and k: "k = Q_MSG \<or> k = Q_DBG"
  shows "hfi_inv (r\<lparr>hr_world := w, rsp_got := (rsp_got r)(k := rsp_got r k @ received e n)\<rparr>)"
proof (cases "g_hfi (hr_world r)")
  case None
  then show ?thesis using res k by (auto simp: hfi_read_message_def hfi_inv_def split: if_splits)
next
  case (Some h)
  have mut: "\<not> msg_q_mutex (hr_world r)" using res k by (auto simp: hfi_read_message_def split: if_splits)
  have ok: "info_ok h (hr_world r)" and h: "cmd_sent r = cmd_taken r @ queue h Q_CMD (hr_world r)"
      "\<forall>k. k = Q_MSG \<or> k = Q_DBG \<longrightarrow> rsp_sent r k = rsp_got r k @ queue h k (hr_world r)"
    using inv by (simp_all add: hfi_inv_some [OF Some])
  let ?l = "length (queue h k (hr_world r))"
  obtain f where f: "hfi_read_message (Some d) k (hr_world r) = Some (
      if queue h k (hr_world r) = [] then ((- EIO, Some d, None), hr_world r)
      else ((0, Some f, Some (of_nat ?l)), take_queue h k ?l (hr_world r)))" "map f [0..<?l] = queue h k (hr_world r)"
    using read_message_take [OF ok Some mut k, of d] by blast
  show ?thesis
  proof (cases "queue h k (hr_world r) = []")
    case True
    then have "w = hr_world r" "received e n = []" using res f by (auto simp: received_def)
    then show ?thesis using inv by (auto simp: hfi_inv_def Some)
  next
    case False
    then have w: "w = take_queue h k ?l (hr_world r)" "e = Some f" "n = Some (of_nat ?l)" using res f by auto
    have k2: "k \<le> 2" using k by auto
    have "?l mod q_words k = ?l" using queue_length [OF info_okD [OF ok k2]] by simp
    then have "unat (of_nat ?l :: u32) = ?l" using index_word [of ?l k] by simp
    then have "received e n = queue h k (hr_world r)" using f(2) by (simp add: received_def w)
    moreover have "k \<noteq> 0" using k by auto
    ultimately show ?thesis using take_queue_ok [OF ok k2 order_refl] h k
      by (auto simp: hfi_inv_def w(1) Some)
  qed
qed

lemma hfi_fw_inv:
  assumes inv: "hfi_inv r" and h: "g_hfi (hr_world r) = Some h"
  shows "n \<le> length (queue h Q_CMD (hr_world r)) \<Longrightarrow>
      hfi_inv (r\<lparr>hr_world := take_queue h Q_CMD n (hr_world r), cmd_taken := cmd_taken r @ take n (queue h Q_CMD (hr_world r))\<rparr>)"
    and "k = Q_MSG \<or> k = Q_DBG \<Longrightarrow> length (queue h k (hr_world r)) + s < q_words k \<Longrightarrow>
      hfi_inv (r\<lparr>hr_world := put_queue h k s p (hr_world r), rsp_sent := (rsp_sent r)(k := rsp_sent r k @ map p [0..<s])\<rparr>)"
proof -
  have ok: "info_ok h (hr_world r)" using inv by (simp add: hfi_inv_some [OF h])
  show "hfi_inv (r\<lparr>hr_world := take_queue h Q_CMD n (hr_world r), cmd_taken := cmd_taken r @ take n (queue h Q_CMD (hr_world r))\<rparr>)"
    if "n \<le> length (queue h Q_CMD (hr_world r))"
    using take_queue_ok [OF ok _ that] inv by (auto simp: hfi_inv_def h)
  show "hfi_inv (r\<lparr>hr_world := put_queue h k s p (hr_world r), rsp_sent := (rsp_sent r)(k := rsp_sent r k @ map p [0..<s])\<rparr>)"
    if k: "k = Q_MSG \<or> k = Q_DBG" and room: "length (queue h k (hr_world r)) + s < q_words k"
  proof -
    have "k \<le> 2" "k \<noteq> 0" using k by auto
    with put_queue_ok [OF ok _ room, where p = p] inv k show ?thesis by (auto simp: hfi_inv_def h)
  qed
qed

lemma info_ok_csr [simp]: "info_ok (h\<lparr>csr_base := b\<rparr>) w = info_ok h w" "queue (h\<lparr>csr_base := b\<rparr>) k w = queue h k w"
  by (simp_all add: info_ok_def queue_def hdr_of_def q_base_def)

lemma hfi_resume_mem:
  assumes "cam_hfi_resume orc m base debug w = (rc, w')"
  shows "same_mem w (w'\<lparr>g_hfi := g_hfi w\<rparr>) \<and> g_hfi w' = map_option (\<lambda>h. h\<lparr>csr_base := base\<rparr>) (g_hfi w)"
proof (cases "g_hfi w")
  case None
  then show ?thesis using assms by (auto simp: cam_hfi_resume_def cam_hfi_enable_cpu_def Let_def same_mem_def cam_io_w_mb_def)
next
  case (Some h)
  define w2 where "w2 = (cam_hfi_enable_cpu base w)\<lparr>g_hfi := Some (h\<lparr>csr_base := base\<rparr>)\<rparr>"
  obtain ok w5 where wait: "init_wait orc base (run_cpu base debug w2) = (ok, w5)" by (cases "init_wait orc base (run_cpu base debug w2)")
  have "same_mem (run_cpu base debug w2) w5" using init_wait_same [of _ orc base] wait by (metis snd_conv)
  then have "same_mem w2 w5" using same_mem_trans [of w2 "run_cpu base debug w2"] by simp
  then have s5: "same_mem w2 (write_regs base rs (snd (cam_io_r orc base HFI_REG_A5_CSR_A5_STATUS (snd (cam_io_r orc base HFI_REG_FW_VERSION
      (cam_io_w_mb v base HFI_REG_A5_CSR_A2HOSTINTEN w5))))))" for rs v
    by (intro same_mem_trans [OF _ write_regs_same]) simp
  have "g_hfi (cam_hfi_enable_cpu base w) = Some h" by (simp add: cam_hfi_enable_cpu_def Some)
  then have "same_mem w2 w'"
    using assms s5 \<open>same_mem w2 w5\<close> by (cases ok) (auto simp: cam_hfi_resume_def Let_def w2_def [symmetric] wait)
  then show ?thesis by (auto simp: same_mem_def w2_def cam_hfi_enable_cpu_def cam_io_w_mb_def Some)
qed

lemma hfi_resume_inv:
  assumes inv: "hfi_inv r" and res: "cam_hfi_resume orc m base debug (hr_world r) = (rc, w)"
  shows "hfi_inv (r\<lparr>hr_world := w\<rparr>)"
proof (cases "g_hfi (hr_world r)")
  case None
  then show ?thesis using hfi_resume_mem [OF res] by (simp add: hfi_inv_def)
next
  case (Some h)
  then have same: "same_mem (hr_world r) (w\<lparr>g_hfi := Some h\<rparr>)" "g_hfi w = Some (h\<lparr>csr_base := base\<rparr>)" using hfi_resume_mem [OF res] by simp_all
  then have "hdr_of h k w = hdr_of h k (hr_world r)" "words_at w = words_at (hr_world r)" for k by (simp_all add: same_mem_def hdr_of_def)
  then have "info_ok h w = info_ok h (hr_world r)" "queue h k w = queue h k (hr_world r)" for k by (simp_all add: info_ok_def queue_def)
  then show ?thesis using inv same(2) by (simp add: hfi_inv_def Some)
qed

lemma hfi_init_inv:
  assumes "cam_hfi_init orc kz mode m base debug w = Some (rc, w')" "distinct (mem_bases m)" "g_hfi w = None"
  shows "hfi_inv \<lparr>hr_world = w', cmd_sent = [], cmd_taken = [], rsp_sent = (\<lambda>_. []), rsp_got = (\<lambda>_. [])\<rparr>"
  using hfi_init_ok [OF assms(1,3) _ assms(2)] by (auto simp: hfi_inv_def split: option.splits)

text \<open>A second initialisation leaves both mutexes held.\<close>

lemma hfi_init_again:
  assumes "cam_hfi_init orc kz mode m base debug w = Some (rc, w')" "g_hfi w = Some h" "hi_state h = HFI_READY"
  shows "rc = - EINVAL \<and> w' = w\<lparr>cmd_q_mutex := True, msg_q_mutex := True\<rparr>"
  using assms by (auto simp: cam_hfi_init_def split: if_splits)

lemma hfi_init_again_inv:
  assumes inv: "hfi_inv r" and res: "cam_hfi_init orc kz mode m base debug (hr_world r) = Some (rc, w)" "g_hfi (hr_world r) = Some h"
  shows "hfi_inv (r\<lparr>hr_world := w\<rparr>)"
proof -
  have "hi_state h = HFI_READY" using inv by (simp add: hfi_inv_some [OF res(2)] info_ok_def)
  then have w: "w = (hr_world r)\<lparr>cmd_q_mutex := True, msg_q_mutex := True\<rparr>" using hfi_init_again [OF res] by simp
  have "hdr_of h k w = hdr_of h k (hr_world r)" for k by (simp add: w hdr_of_def)
  then show ?thesis using inv by (simp add: hfi_inv_def res(2) w info_ok_def queue_def)
qed

section \<open>The system\<close>

lemma hfi_step_inv: "hfi_inv r \<Longrightarrow> hfi_step r t \<Longrightarrow> hfi_inv t"
  by (erule hfi_stepE)
    (auto intro: hfi_init_inv hfi_init_again_inv hfi_resume_inv hfi_write_inv hfi_read_inv hfi_fw_inv
      simp: cam_hfi_deinit_def hfi_inv_def [of "_\<lparr>hr_world := _\<lparr>g_hfi := None\<rparr>\<rparr>"] split: if_splits)

interpretation hfi_sys: invariant_system hfi_start hfi_step hfi_inv
  by unfold_locales (simp add: hfi_start_def hfi_inv_def, rule hfi_step_inv)

section \<open>Initialisations that go wrong\<close>

text \<open>A firmware that does not come up leaves no interface, but the call succeeds.\<close>

lemma hfi_init_silent:
  assumes "g_hfi w = None" "\<not> cmd_q_mutex w" "\<not> msg_q_mutex w" "\<not> fst (init_wait orc base (init_start orc mode m base debug w))"
  shows "\<exists>w'. cam_hfi_init orc True mode m base debug w = Some (0, w') \<and> g_hfi w' = None"
  using assms by (simp add: cam_hfi_init_def split_beta)

text \<open>After a second initialisation no call of the interface returns.\<close>

lemma hfi_blocked:
  assumes "hfi_inv r" "cam_hfi_init orc kz mode m base debug (hr_world r) = Some (rc, w)" "g_hfi (hr_world r) = Some h"
  shows "hfi_write_cmd (Some p) w = None" "k \<le> Q_DBG \<Longrightarrow> hfi_read_message (Some d) k w = None"
    "cam_hfi_init orc' kz' mode' m' base' debug' w = None" "cam_hfi_deinit w = None"
proof -
  have "hi_state h = HFI_READY" using assms(1) by (simp add: hfi_inv_some [OF assms(3)] info_ok_def)
  then have w: "w = (hr_world r)\<lparr>cmd_q_mutex := True, msg_q_mutex := True\<rparr>" using hfi_init_again [OF assms(2,3)] by simp
  show "hfi_write_cmd (Some p) w = None" "k \<le> Q_DBG \<Longrightarrow> hfi_read_message (Some d) k w = None"
    "cam_hfi_init orc' kz' mode' m' base' debug' w = None" "cam_hfi_deinit w = None"
    by (simp_all add: w hfi_write_cmd_def hfi_read_message_def cam_hfi_init_def cam_hfi_deinit_def)
qed

end
