(* ===== verification/Cam_Hfi_Msg.thy ===== *)
theory Cam_Hfi_Msg
  imports Cam_Hfi
begin

text \<open>
  Messages of the firmware, \<open>cam_icp/icp_hw/icp_hw_mgr/cam_icp_hw_mgr.c\<close>: the task that reads the
  message queue after an interrupt, the loop over the packets in it, fatal errors, and the loop over the
  packets of the debug queue. What the acknowledgements do to the contexts of the hardware manager is a
  parameter. A call that does not return, in a loop, on a mutex or in \<open>BUG()\<close>, is \<open>None\<close>.
\<close>

section \<open>Data\<close>

abbreviation ICP_MSG_BUF_SIZE :: nat where "ICP_MSG_BUF_SIZE \<equiv> 256"

abbreviation HFI_MSG_SYS_INIT_DONE :: u32 where "HFI_MSG_SYS_INIT_DONE \<equiv> 0x20001"
abbreviation HFI_MSG_SYS_PC_PREP_DONE :: u32 where "HFI_MSG_SYS_PC_PREP_DONE \<equiv> 0x20002"
abbreviation HFI_MSG_SYS_DEBUG :: u32 where "HFI_MSG_SYS_DEBUG \<equiv> 0x20003"
abbreviation HFI_MSG_SYS_PING_ACK :: u32 where "HFI_MSG_SYS_PING_ACK \<equiv> 0x20006"
abbreviation HFI_MSG_EVENT_NOTIFY :: u32 where "HFI_MSG_EVENT_NOTIFY \<equiv> 0x20008"
abbreviation HFI_MSG_IPEBPS_CREATE_HANDLE_ACK :: u32 where "HFI_MSG_IPEBPS_CREATE_HANDLE_ACK \<equiv> 0x1020008"
abbreviation HFI_MSG_IPEBPS_ASYNC_COMMAND_DIRECT_ACK :: u32 where "HFI_MSG_IPEBPS_ASYNC_COMMAND_DIRECT_ACK \<equiv> 0x102000A"
abbreviation HFI_MSG_IPEBPS_ASYNC_COMMAND_INDIRECT_ACK :: u32 where "HFI_MSG_IPEBPS_ASYNC_COMMAND_INDIRECT_ACK \<equiv> 0x102000E"
abbreviation HFI_EVENT_SYS_ERROR :: u32 where "HFI_EVENT_SYS_ERROR \<equiv> 1"
abbreviation HFI_ERR_SYS_FATAL :: u32 where "HFI_ERR_SYS_FATAL \<equiv> 1"

text \<open>
  The parts of \<open>struct cam_icp_hw_mgr\<close> that the messages use. \<open>msg_buf\<close> and \<open>dbg_buf\<close> are the memory from the
  start of the two buffers on. \<open>a5_complete\<close> counts completions, \<open>icp_resets\<close> the resets of the processors,
  \<open>dbg_seen\<close> has the position and the time of the debug messages that were traced.
\<close>

record 'c cam_icp_hw_mgr =
  icp_hfi :: hfi_world
  msg_buf :: "nat \<Rightarrow> u32"
  dbg_buf :: "nat \<Rightarrow> u32"
  icp_recovery :: bool
  a5_complete :: nat
  icp_resets :: nat
  dbg_seen :: "(nat \<times> u64) list"
  icp_ctxs :: 'c

text \<open>The handlers of the acknowledgements: the type of the message, the buffer, the position.\<close>

type_synonym 'c ack_handler = "u32 \<Rightarrow> (nat \<Rightarrow> u32) \<Rightarrow> nat \<Rightarrow> 'c \<Rightarrow> rc \<times> 'c"

section \<open>The debug queue\<close>

definition dbg_time :: "(nat \<Rightarrow> u32) \<Rightarrow> nat \<Rightarrow> u64" where
  "dbg_time m pos = drop_bit 16 (push_bit 32 (ucast (m (pos + 4))) OR ucast (m (pos + 5))) div 2"

partial_function (option) dbg_loop :: "(nat \<Rightarrow> u32) \<Rightarrow> u32 \<Rightarrow> nat \<Rightarrow> u32 \<Rightarrow> (nat \<times> u64) list \<Rightarrow> (nat \<times> u64) list option" where
  "dbg_loop m len pos processed seen =
     (let seen = (if m (pos + 1) = HFI_MSG_SYS_DEBUG then seen @ [(pos, dbg_time m pos)] else seen);
          processed = processed + drop_bit 2 (m pos) in
      if len \<le> processed then Some seen
      else dbg_loop m len (pos + unat (drop_bit 2 (m pos))) processed seen)"

definition cam_icp_mgr_process_dbg_buf :: "'c cam_icp_hw_mgr \<Rightarrow> 'c cam_icp_hw_mgr option" where
  "cam_icp_mgr_process_dbg_buf s =
     (case hfi_read_message (Some (dbg_buf s)) Q_DBG (icp_hfi s) of
        None \<Rightarrow> None
      | Some ((rc, d, n), w) \<Rightarrow>
          let s1 = s\<lparr>icp_hfi := w, dbg_buf := the d\<rparr> in
          if rc \<noteq> 0 then Some s1
          else map_option (\<lambda>seen. s1\<lparr>dbg_seen := dbg_seen s1 @ seen\<rparr>) (dbg_loop (dbg_buf s1) (the n) 0 0 []))"

section \<open>Errors\<close>

definition cam_icp_mgr_trigger_recovery :: "'c cam_icp_hw_mgr \<Rightarrow> rc \<times> 'c cam_icp_hw_mgr" where
  "cam_icp_mgr_trigger_recovery s =
     (0, if icp_recovery s then s else s\<lparr>icp_resets := icp_resets s + 1, icp_recovery := True\<rparr>)"

definition cam_icp_mgr_process_fatal_error :: "nat \<Rightarrow> 'c cam_icp_hw_mgr \<Rightarrow> (rc \<times> 'c cam_icp_hw_mgr) option" where
  "cam_icp_mgr_process_fatal_error pos s =
     (if msg_buf s (pos + 3) = HFI_EVENT_SYS_ERROR then
        (if msg_buf s (pos + 4) = HFI_ERR_SYS_FATAL then None
         else let (rc, s1) = cam_icp_mgr_trigger_recovery s in
           map_option (\<lambda>s2. (rc, s2)) (cam_icp_mgr_process_dbg_buf s1))
      else Some (0, s))"

section \<open>The message queue\<close>

text \<open>The code, the number of bytes processed, and the state. The code is not used by the caller.\<close>

definition cam_icp_process_msg_pkt_type ::
    "'c ack_handler \<Rightarrow> nat \<Rightarrow> 'c cam_icp_hw_mgr \<Rightarrow> ((rc \<times> u32) \<times> 'c cam_icp_hw_mgr) option" where
  "cam_icp_process_msg_pkt_type ack pos s =
     (let ty = msg_buf s (pos + 1); sz = msg_buf s pos;
          handle = (\<lambda>n. let (rc, c) = ack ty (msg_buf s) pos (icp_ctxs s) in Some ((rc, n), s\<lparr>icp_ctxs := c\<rparr>)) in
      if ty = HFI_MSG_SYS_INIT_DONE then Some ((0, sz), s\<lparr>a5_complete := a5_complete s + 1\<rparr>)
      else if ty = HFI_MSG_SYS_PC_PREP_DONE then Some ((0, 12), s\<lparr>a5_complete := a5_complete s + 1\<rparr>)
      else if ty = HFI_MSG_SYS_PING_ACK then handle 16
      else if ty = HFI_MSG_IPEBPS_CREATE_HANDLE_ACK then handle 32
      else if ty = HFI_MSG_IPEBPS_ASYNC_COMMAND_INDIRECT_ACK \<or> ty = HFI_MSG_IPEBPS_ASYNC_COMMAND_DIRECT_ACK then handle sz
      else if ty = HFI_MSG_EVENT_NOTIFY then
        map_option (\<lambda>(rc, s1). ((rc, sz), s1)) (cam_icp_mgr_process_fatal_error pos s)
      else Some ((- EINVAL, 0), s))"

text \<open>The bytes that are left are counted in unsigned numbers of 32 bits.\<close>

partial_function (option) msg_loop ::
    "'c ack_handler \<Rightarrow> nat \<Rightarrow> u32 \<Rightarrow> 'c cam_icp_hw_mgr \<Rightarrow> (rc \<times> 'c cam_icp_hw_mgr) option" where
  "msg_loop ack pos left s =
     Option.bind (cam_icp_process_msg_pkt_type ack pos s) (\<lambda>((rc, n), s1).
       if n = 0 then Some (- EINVAL, s1)
       else if 0 < left - n then msg_loop ack (pos + unat (drop_bit 2 n)) (left - n) s1
       else Some (0, s1))"

definition cam_icp_mgr_process_msg :: "'c ack_handler \<Rightarrow> u32 \<Rightarrow> 'c cam_icp_hw_mgr \<Rightarrow> (rc \<times> 'c cam_icp_hw_mgr) option" where
  "cam_icp_mgr_process_msg ack irq_status s =
     Option.bind (hfi_read_message (Some (msg_buf s)) Q_MSG (icp_hfi s)) (\<lambda>((rc, d, n), w).
       let s1 = s\<lparr>icp_hfi := w, msg_buf := the d\<rparr> in
       Option.bind (if rc \<noteq> 0 then Some (rc, s1) else msg_loop ack 0 (push_bit 2 (the n)) s1) (\<lambda>(rc, s2).
         map_option (\<lambda>s3.
             if irq_status AND 2 \<noteq> 0 \<or> irq_status AND 4 \<noteq> 0 then cam_icp_mgr_trigger_recovery s3 else (rc, s3))
           (cam_icp_mgr_process_dbg_buf s2)))"

end
