(* ===== verification/Cam_Hfi_Run.thy ===== *)
theory Cam_Hfi_Run
  imports Cam_Hfi_Reach Cam_Hfi_Msg
begin

text \<open>
  A run of the interface on which its properties are applied: an initialisation, a command, a message of the
  firmware.
\<close>

definition hfi_mem0 :: "ptr \<Rightarrow> hfi_mem" where
  "hfi_mem0 a = \<lparr>hm_len = 4096, hm_kva = a, hm_iova = ucast a\<rparr>"

definition hfi_mems :: hfi_mem_info where
  "hfi_mems = \<lparr>mi_qtbl = hfi_mem0 0x1000, mi_cmd_q = hfi_mem0 0x2000, mi_msg_q = hfi_mem0 0x3000, mi_dbg_q = hfi_mem0 0x4000,
     mi_sfr_buf = hfi_mem0 0x8000, mi_sec_heap = hfi_mem0 0x9000, mi_shmem = hfi_mem0 0xA000, mi_qdss = hfi_mem0 0xB000,
     mi_io_mem = hfi_mem0 0xC000, mi_io_mem2 = hfi_mem0 0xD000\<rparr>"

definition hfi_zero :: hfi_world where
  "hfi_zero = \<lparr>g_hfi = None, cmd_q_mutex = False, msg_q_mutex = False, qtbl_at = (\<lambda>_. \<lparr>t_version = 0, t_size = 0, t_qhdr0_offset = 0,
     t_qhdr_size = 0, t_num_q = 0, t_num_active_q = 0, q_hdr = (\<lambda>_. \<lparr>q_status = 0, q_start_addr = 0, q_type = 0, q_size = 0,
       q_pkt_size = 0, q_pkt_drop_cnt = 0, q_rx_wm = 0, q_tx_wm = 0, q_rx_req = 0, q_tx_req = 0, q_rx_irq_status = 0,
       q_tx_irq_status = 0, q_read_idx = 0, q_write_idx = 0\<rparr>)\<rparr>),
     words_at = (\<lambda>_ _. 0), sfr_size_at = (\<lambda>_. 0), reg_trace = [], hfi_undef = False\<rparr>"

lemma hfi_zero_sel [simp]: "g_hfi hfi_zero = None" "cmd_q_mutex hfi_zero = False" "msg_q_mutex hfi_zero = False"
  by (simp_all add: hfi_zero_def)

lemma hfi_mems_distinct: "distinct (mem_bases hfi_mems)"
  by (simp add: mem_bases_def hfi_mems_def hfi_mem0_def)

text \<open>A firmware that answers every read with the same value.\<close>

lemma init_wait_const:
  "fst (init_wait (\<lambda>_. 1) base w) = True" "fst (init_wait (\<lambda>_. 2) base w) = False" "fst (init_wait (\<lambda>_. 0) base w) = False"
  by (simp_all add: init_wait_def eval_nat_numeral cam_io_r_def Let_def split_beta)

definition hfi_w1 :: hfi_world where
  "hfi_w1 = snd (the (cam_hfi_init (\<lambda>_. 1) True 0 hfi_mems 0x5000 False hfi_zero))"

definition hfi_h1 :: hfi_info where
  "hfi_h1 = \<lparr>hi_map = hfi_mems, hi_state = HFI_READY, cmd_q_state = True, msg_q_state = True, csr_base = 0x5000\<rparr>"

lemma hfi_h1_csr [simp]: "csr_base hfi_h1 = 0x5000"
  by (simp add: hfi_h1_def)

lemma hfi_init1: "cam_hfi_init (\<lambda>_. 1) True 0 hfi_mems 0x5000 False hfi_zero = Some (0, hfi_w1)" "g_hfi hfi_w1 = Some hfi_h1"
  using init_wait_const(1) [of "0x5000" "init_start (\<lambda>_. 1) 0 hfi_mems 0x5000 False hfi_zero"]
  by (simp_all add: hfi_w1_def cam_hfi_init_def split_beta hfi_h1_def cam_io_w_mb_def)

lemma hfi_w1_ok: "info_ok hfi_h1 hfi_w1" "k \<le> 2 \<Longrightarrow> queue hfi_h1 k hfi_w1 = []" "\<not> cmd_q_mutex hfi_w1" "\<not> msg_q_mutex hfi_w1"
  using hfi_init_ok [OF hfi_init1(1) _ hfi_init1(2) hfi_mems_distinct] by simp_all

definition hfi_r1 :: hfi_run where
  "hfi_r1 = \<lparr>hr_world = hfi_w1, cmd_sent = [], cmd_taken = [], rsp_sent = (\<lambda>_. []), rsp_got = (\<lambda>_. [])\<rparr>"

lemma hfi_r1_reach: "reach hfi_start hfi_step hfi_r1"
proof -
  have "reach hfi_start hfi_step (hfi_r1\<lparr>hr_world := hfi_zero\<rparr>)" by (rule reach_init) (simp add: hfi_start_def)
  moreover have "hfi_step (hfi_r1\<lparr>hr_world := hfi_zero\<rparr>) hfi_r1"
    using hs_init [of _ _ _ _ _ _ "hfi_r1\<lparr>hr_world := hfi_zero\<rparr>"] hfi_init1(1) hfi_mems_distinct by (force simp: hfi_r1_def)
  ultimately show ?thesis by (rule reach_step)
qed

text \<open>A command of two words, then a message of three.\<close>

definition hfi_w2 :: hfi_world where
  "hfi_w2 = cam_io_w_mb INTR_ENABLE 0x5000 HFI_REG_A5_CSR_HOST2ICPINT (put_queue hfi_h1 Q_CMD 2 (pkt_of [8, HFI_CMD_SYS_INIT]) hfi_w1)"

lemma put_queue_sel [simp]:
  "cmd_q_mutex (put_queue h k s p w) = cmd_q_mutex w" "msg_q_mutex (put_queue h k s p w) = msg_q_mutex w"
  by (simp_all add: put_queue_def Let_def)

lemma hfi_w2_cmd: "hfi_write_cmd (Some (pkt_of [8, HFI_CMD_SYS_INIT])) hfi_w1 = Some (0, hfi_w2)"
  using write_cmd_put [OF hfi_w1_ok(1) hfi_init1(2) hfi_w1_ok(3), of "pkt_of [8, HFI_CMD_SYS_INIT]"]
  by (simp add: pkt_of_def hfi_w1_ok(2) hfi_w2_def)

lemma hfi_w2_ok: "info_ok hfi_h1 hfi_w2" "queue hfi_h1 Q_CMD hfi_w2 = [8, HFI_CMD_SYS_INIT]" "queue hfi_h1 Q_MSG hfi_w2 = []"
    "queue hfi_h1 Q_DBG hfi_w2 = []" "g_hfi hfi_w2 = Some hfi_h1" "\<not> cmd_q_mutex hfi_w2" "\<not> msg_q_mutex hfi_w2"
  using put_queue_ok [OF hfi_w1_ok(1), of Q_CMD 2, where p = "pkt_of [8, HFI_CMD_SYS_INIT]"]
  by (simp_all add: hfi_w2_def hfi_w1_ok q_words_def pkt_of_def upt_rec hfi_init1(2))

definition hfi_r2 :: hfi_run where
  "hfi_r2 = hfi_r1\<lparr>hr_world := hfi_w2, cmd_sent := [8, HFI_CMD_SYS_INIT]\<rparr>"

lemma hfi_r2_reach: "reach hfi_start hfi_step hfi_r2"
proof -
  have "hfi_step hfi_r1 (hfi_r1\<lparr>hr_world := hfi_w2, cmd_sent := cmd_sent hfi_r1 @ accepted 0 (pkt_of [8, HFI_CMD_SYS_INIT])\<rparr>)"
    by (rule hs_write) (simp add: hfi_r1_def hfi_w2_cmd)
  also have "\<dots> = hfi_r2"
    by (simp add: hfi_r2_def hfi_r1_def accepted_def pkt_of_def upt_rec)
  finally show ?thesis by (rule reach_step [OF hfi_r1_reach])
qed

definition hfi_w3 :: hfi_world where
  "hfi_w3 = put_queue hfi_h1 Q_MSG 3 (pkt_of [12, 0x20001, 7]) hfi_w2"

lemma hfi_w3_ok: "info_ok hfi_h1 hfi_w3" "queue hfi_h1 Q_MSG hfi_w3 = [12, 0x20001, 7]" "queue hfi_h1 Q_CMD hfi_w3 = [8, HFI_CMD_SYS_INIT]"
    "queue hfi_h1 Q_DBG hfi_w3 = []" "g_hfi hfi_w3 = Some hfi_h1" "\<not> msg_q_mutex hfi_w3"
  using put_queue_ok [OF hfi_w2_ok(1), of Q_MSG 3, where p = "pkt_of [12, 0x20001, 7]"]
  by (simp_all add: hfi_w3_def hfi_w2_ok q_words_def pkt_of_def upt_rec del: One_nat_def)

definition hfi_r3 :: hfi_run where
  "hfi_r3 = hfi_r2\<lparr>hr_world := hfi_w3, rsp_sent := (\<lambda>_. [])(Q_MSG := [12, 0x20001, 7])\<rparr>"

lemma hfi_r3_reach: "reach hfi_start hfi_step hfi_r3"
proof -
  have "hfi_step hfi_r2 (hfi_r2\<lparr>hr_world := put_queue hfi_h1 Q_MSG 3 (pkt_of [12, 0x20001, 7]) (hr_world hfi_r2),
      rsp_sent := (rsp_sent hfi_r2)(Q_MSG := rsp_sent hfi_r2 Q_MSG @ map (pkt_of [12, 0x20001, 7]) [0..<3])\<rparr>)"
    by (rule hs_fw_put) (simp_all add: hfi_r2_def hfi_w2_ok q_words_def del: One_nat_def)
  also have "\<dots> = hfi_r3"
    by (simp add: hfi_r3_def hfi_r2_def hfi_r1_def hfi_w3_def pkt_of_def upt_rec)
  finally show ?thesis by (rule reach_step [OF hfi_r2_reach])
qed

text \<open>Two words in the debug queue, and a hardware manager that uses the interface.\<close>

definition hfi_dbg_run :: "u32 list \<Rightarrow> hfi_run" where
  "hfi_dbg_run ws = hfi_r3\<lparr>hr_world := put_queue hfi_h1 Q_DBG 2 (pkt_of ws) hfi_w3, rsp_sent := (rsp_sent hfi_r3)(Q_DBG := map (pkt_of ws) [0..<2])\<rparr>"

lemma hfi_dbg_run_ok:
  "reach hfi_start hfi_step (hfi_dbg_run ws)" "g_hfi (hr_world (hfi_dbg_run ws)) = Some hfi_h1"
  "\<not> msg_q_mutex (hr_world (hfi_dbg_run ws))" "length ws = 2 \<Longrightarrow> queue hfi_h1 Q_DBG (hr_world (hfi_dbg_run ws)) = ws"
proof -
  have "hfi_step hfi_r3 (hfi_r3\<lparr>hr_world := put_queue hfi_h1 Q_DBG 2 (pkt_of ws) (hr_world hfi_r3),
      rsp_sent := (rsp_sent hfi_r3)(Q_DBG := rsp_sent hfi_r3 Q_DBG @ map (pkt_of ws) [0..<2])\<rparr>)"
    by (rule hs_fw_put) (simp_all add: hfi_r3_def hfi_w3_ok q_words_def)
  also have "\<dots> = hfi_dbg_run ws" by (simp add: hfi_dbg_run_def hfi_r3_def)
  finally show "reach hfi_start hfi_step (hfi_dbg_run ws)" by (rule reach_step [OF hfi_r3_reach])
  show "g_hfi (hr_world (hfi_dbg_run ws)) = Some hfi_h1" "\<not> msg_q_mutex (hr_world (hfi_dbg_run ws))"
    by (simp_all add: hfi_dbg_run_def hfi_w3_ok)
  show "queue hfi_h1 Q_DBG (hr_world (hfi_dbg_run ws)) = ws" if "length ws = 2"
  proof -
    have "map (pkt_of ws) [0..<2] = ws" using that by (cases ws rule: list.exhaust [case_names Nil Cons]; cases "tl ws") (auto simp: pkt_of_def upt_rec)
    moreover have "length (queue hfi_h1 Q_DBG hfi_w3) + 2 < q_words Q_DBG" by (simp add: hfi_w3_ok q_words_def)
    ultimately show ?thesis using put_queue_ok(2) [OF hfi_w3_ok(1) order_refl, of 2 "pkt_of ws"] by (simp add: hfi_dbg_run_def hfi_w3_ok)
  qed
qed

definition icp_run :: "hfi_world \<Rightarrow> unit cam_icp_hw_mgr" where
  "icp_run w = \<lparr>icp_hfi = w, msg_buf = (\<lambda>_. 0), dbg_buf = (\<lambda>_. 0), icp_recovery = False, a5_complete = 0, icp_resets = 0, dbg_seen = [], icp_ctxs = ()\<rparr>"

lemma icp_run_sel [simp]: "icp_hfi (icp_run w) = w"
  by (simp add: icp_run_def)

end
