(* ===== verification/Cam_Hfi_Loop.thy ===== *)
theory Cam_Hfi_Loop
  imports Cam_Hfi_Msg Cam_Hfi_Sys
begin

text \<open>
  The two loops over packets: for which content of the debug queue its loop ends, and that the loop over
  messages handles each packet of a well-formed sequence once and in order.
\<close>

section \<open>The debug queue\<close>

text \<open>Packets that follow each other by their sizes, none of them smaller than a word.\<close>

fun packets_ok :: "u32 list \<Rightarrow> bool" where
  "packets_ok [] = True"
| "packets_ok (z # ws) = (drop_bit 2 z \<noteq> 0 \<and> packets_ok (drop (unat (drop_bit 2 z) - 1) ws))"

lemma dbg_loop_stuck: "drop_bit 2 (m pos) = 0 \<Longrightarrow> processed < len \<Longrightarrow> dbg_loop m len pos processed seen = None"
proof (rule ccontr)
  assume h: "drop_bit 2 (m pos) = 0" "processed < len" "dbg_loop m len pos processed seen \<noteq> None"
  then obtain r where "dbg_loop m len pos processed seen = Some r" by blast
  then have "\<not> (drop_bit 2 (m pos) = 0 \<and> processed < len)"
    by (rule dbg_loop.raw_induct [rotated]) (auto simp: Let_def split: if_splits)
  then show False using h by simp
qed

lemma drop_map_upt: "drop k (map e [i..<n]) = map e [i + k..<n]"
  by (simp add: drop_map)

lemma dbg_loop_iff:
  assumes "n < 2 ^ 30"
  shows "pos < n \<Longrightarrow> dbg_loop e (of_nat n) pos (of_nat pos) seen \<noteq> None \<longleftrightarrow> packets_ok (map e [pos..<n])"
proof (induction "n - pos" arbitrary: pos seen rule: less_induct)
  case less
  define z where "z = drop_bit 2 (e pos)"
  have pk: "packets_ok (map e [pos..<n]) \<longleftrightarrow> z \<noteq> 0 \<and> packets_ok (map e [Suc pos + (unat z - 1)..<n])"
    using less.prems by (simp add: upt_rec [of pos] drop_map_upt z_def)
  have len: "unat (of_nat n :: u32) = n" "unat (of_nat pos :: u32) = pos" using assms less.prems by (simp_all add: unat_of_nat)
  show ?case
  proof (cases "z = 0")
    case True
    have "(of_nat pos :: u32) < of_nat n" using less.prems by (simp add: word_less_nat_alt len)
    then have "dbg_loop e (of_nat n) pos (of_nat pos) seen = None" using True by (intro dbg_loop_stuck) (simp_all add: z_def)
    then show ?thesis using pk True by simp
  next
    case False
    then have s: "0 < unat z" by (simp add: unat_gt_0)
    have "unat (of_nat pos + z) = pos + unat z"
      using drop2_small [of "e pos"] less.prems assms by (simp add: unat_word_ariths len z_def)
    then have "of_nat n \<le> of_nat pos + z \<longleftrightarrow> n \<le> pos + unat z" by (simp add: word_le_nat_alt len)
    moreover have nxt: "of_nat pos + z = of_nat (pos + unat z)" by simp
    ultimately have end_iff: "of_nat n \<le> (of_nat (pos + unat z) :: u32) \<longleftrightarrow> n \<le> pos + unat z" by (simp only:)
    have pos': "Suc pos + (unat z - 1) = pos + unat z" using s by simp
    obtain seen' where loop: "dbg_loop e (of_nat n) pos (of_nat pos) seen
        = (if n \<le> pos + unat z then Some seen' else dbg_loop e (of_nat n) (pos + unat z) (of_nat (pos + unat z)) seen')"
      unfolding dbg_loop.simps [of e "of_nat n" pos] Let_def z_def [symmetric] nxt end_iff by blast
    show ?thesis
    proof (cases "n \<le> pos + unat z")
      case True
      then show ?thesis using pk False pos' loop by simp
    next
      case more: False
      then have "dbg_loop e (of_nat n) (pos + unat z) (of_nat (pos + unat z)) seen' \<noteq> None \<longleftrightarrow> packets_ok (map e [pos + unat z..<n])"
        by (intro less.hyps) (use s less.prems in auto)
      then show ?thesis using pk False pos' loop more by simp
    qed
  qed
qed

section \<open>The message queue\<close>

text \<open>A packet whose size is the one the loop steps over.\<close>

definition msg_ok :: "u32 list \<Rightarrow> bool" where
  "msg_ok p \<longleftrightarrow> 2 \<le> length p \<and> length p < 2 ^ 28 \<and> p ! 0 = of_nat (4 * length p)
     \<and> (let ty = p ! 1 in
        if ty = HFI_MSG_SYS_PC_PREP_DONE then length p = 3
        else if ty = HFI_MSG_SYS_PING_ACK then length p = 4
        else if ty = HFI_MSG_IPEBPS_CREATE_HANDLE_ACK then length p = 8
        else ty = HFI_MSG_SYS_INIT_DONE \<or> ty = HFI_MSG_EVENT_NOTIFY \<or> ty = HFI_MSG_IPEBPS_ASYNC_COMMAND_INDIRECT_ACK
          \<or> ty = HFI_MSG_IPEBPS_ASYNC_COMMAND_DIRECT_ACK)"

text \<open>The handling of a sequence of packets, one after the other.\<close>

fun msg_fold :: "'c ack_handler \<Rightarrow> nat \<Rightarrow> u32 list list \<Rightarrow> 'c cam_icp_hw_mgr \<Rightarrow> 'c cam_icp_hw_mgr option" where
  "msg_fold ack pos [] s = Some s"
| "msg_fold ack pos (p # ps) s =
     Option.bind (cam_icp_process_msg_pkt_type ack pos s) (\<lambda>(_, s1). msg_fold ack (pos + length p) ps s1)"

lemma dbg_buf_msg: "cam_icp_mgr_process_dbg_buf s = Some t \<Longrightarrow> msg_buf t = msg_buf s"
  by (auto simp: cam_icp_mgr_process_dbg_buf_def Let_def split: option.splits if_splits)

lemma fatal_error_msg: "cam_icp_mgr_process_fatal_error pos s = Some (rc, t) \<Longrightarrow> msg_buf t = msg_buf s"
  by (auto simp: cam_icp_mgr_process_fatal_error_def cam_icp_mgr_trigger_recovery_def Let_def split: if_splits dest: dbg_buf_msg)

lemma msg_pkt_step:
  assumes ok: "msg_ok p" and at: "\<And>i. i < length p \<Longrightarrow> msg_buf s (pos + i) = p ! i"
    and res: "cam_icp_process_msg_pkt_type ack pos s = Some ((rc, n), t)"
  shows "n = of_nat (4 * length p) \<and> msg_buf t = msg_buf s"
proof -
  have two: "0 < length p" "1 < length p" using ok by (auto simp: msg_ok_def)
  have w: "msg_buf s pos = p ! 0" "msg_buf s (pos + 1) = p ! 1" using at [OF two(1)] at [OF two(2)] by simp_all
  show ?thesis
    using ok res unfolding cam_icp_process_msg_pkt_type_def w msg_ok_def Let_def
    by (auto split: if_splits prod.splits dest: fatal_error_msg)
qed

lemma msg_loop_fold:
  "ps \<noteq> [] \<Longrightarrow> list_all msg_ok ps \<Longrightarrow> 4 * length (concat ps) < 2 ^ 32 \<Longrightarrow>
   (\<And>i. i < length (concat ps) \<Longrightarrow> msg_buf s (pos + i) = concat ps ! i) \<Longrightarrow>
   msg_loop ack pos (of_nat (4 * length (concat ps))) s = map_option (Pair 0) (msg_fold ack pos ps s)"
proof (induction ps arbitrary: pos s)
  case (Cons p ps)
  have p: "msg_ok p" "list_all msg_ok ps" using Cons.prems(2) by simp_all
  have at: "msg_buf s (pos + i) = p ! i" if "i < length p" for i using Cons.prems(4) [of i] that by (simp add: nth_append)
  have lp: "0 < length p" "4 * length p < 2 ^ 32" using p(1) by (auto simp: msg_ok_def)
  show ?case
  proof (cases "cam_icp_process_msg_pkt_type ack pos s")
    case None
    then show ?thesis by (subst msg_loop.simps) simp
  next
    case (Some r)
    obtain rc n t where r: "r = ((rc, n), t)" by (metis surj_pair)
    have n: "n = of_nat (4 * length p)" and t: "msg_buf t = msg_buf s" using msg_pkt_step [OF p(1) at] Some r by simp_all
    have un: "unat n = 4 * length p" using lp by (simp only: n unat_of_nat) simp
    then have n0: "n \<noteq> 0" using lp by auto
    have q: "unat (drop_bit 2 n) = length p" by (simp add: drop_bit_eq_div unat_div_distrib un)
    have left: "of_nat (4 * length (concat (p # ps))) - n = of_nat (4 * length (concat ps))" by (simp add: n algebra_simps)
    show ?thesis
    proof (cases "ps = []")
      case True
      then show ?thesis using n0 left by (subst msg_loop.simps) (simp add: Some r)
    next
      case False
      then have "0 < length (concat ps)" using p(2) by (cases ps) (auto simp: msg_ok_def)
      moreover have small: "4 * length (concat ps) < 2 ^ 32" using Cons.prems(3) by simp
      ultimately have "unat (of_nat (4 * length (concat ps)) :: u32) \<noteq> 0" by (simp only: unat_of_nat) simp
      then have pos: "0 < (of_nat (4 * length (concat ps)) :: u32)" by (metis unat_gt_0 gr0I word_gt_0 unsigned_0)
      have "msg_buf t (pos + length p + i) = concat ps ! i" if "i < length (concat ps)" for i
        using Cons.prems(4) [of "length p + i"] that by (simp add: t nth_append add.assoc)
      then have "msg_loop ack (pos + length p) (of_nat (4 * length (concat ps))) t = map_option (Pair 0) (msg_fold ack (pos + length p) ps t)"
        using Cons.IH [OF False p(2) small] by blast
      then show ?thesis using n0 pos unfolding msg_loop.simps [of ack pos] Some r
        by (simp only: bind.bind_lunit prod.case if_False left q msg_fold.simps Some r) simp
    qed
  qed
qed simp

text \<open>Either of the two watchdog bits.\<close>

lemma two_bits: "irq AND 2 \<noteq> 0 \<or> irq AND 4 \<noteq> 0 \<longleftrightarrow> irq AND 6 \<noteq> (0 :: u32)"
proof -
  have "(6 :: u32) = 2 OR 4" by simp
  then have "irq AND 6 = (irq AND 2) OR (irq AND 4)" by (simp only: bit.conj_disj_distrib)
  then show ?thesis by (simp add: or_eq_0_iff)
qed

end
