(* ===== verification/Cam_Hfi_Props.thy ===== *)
theory Cam_Hfi_Props
  imports Cam_Hfi_Run Cam_Hfi_Loop
begin

text \<open>The properties of the interface to the firmware, and two ways in which its initialisation goes wrong.\<close>

section \<open>The queues\<close>

text \<open>C17: With a firmware that keeps the rules of the queues, the words that went into a queue since the
  initialisation are those that came out of it followed by those it still holds: nothing is lost, repeated or
  reordered; and the indices of a queue stay inside its memory. The host may call the initialisation (with queues
  at distinct addresses), \<open>cam_hfi_resume\<close>, \<open>cam_hfi_deinit\<close>, \<open>hfi_write_cmd\<close> and \<open>hfi_read_message\<close> in any order, with any
  packet. The firmware keeps the rules when it takes words only from the front of the command queue, and not more
  than are there, and puts words only behind those of the message and the debug queue, and only while a word stays
  free; a firmware that writes an index or the memory of a queue otherwise is outside the property.\<close>

theorem hfi_queues_conserved:
  assumes "reach hfi_start hfi_step r" "g_hfi (hr_world r) = Some h"
  shows "cmd_sent r = cmd_taken r @ queue h Q_CMD (hr_world r)
    \<and> rsp_sent r Q_MSG = rsp_got r Q_MSG @ queue h Q_MSG (hr_world r)
    \<and> rsp_sent r Q_DBG = rsp_got r Q_DBG @ queue h Q_DBG (hr_world r)
    \<and> list_all (\<lambda>k. unat (q_read_idx (hdr_of h k (hr_world r))) < q_words k \<and> unat (q_write_idx (hdr_of h k (hr_world r))) < q_words k
        \<and> length (queue h k (hr_world r)) < q_words k) [Q_CMD, Q_MSG, Q_DBG]"
proof -
  have inv: "info_ok h (hr_world r)" "cmd_sent r = cmd_taken r @ queue h Q_CMD (hr_world r)"
      "\<And>k. k = Q_MSG \<or> k = Q_DBG \<Longrightarrow> rsp_sent r k = rsp_got r k @ queue h k (hr_world r)"
    using hfi_sys.reach_inv [OF assms(1)] unfolding hfi_inv_some [OF assms(2)] by blast+
  have "hdr_ok k (hdr_of h k (hr_world r))" if "k \<le> 2" for k by (rule info_okD [OF inv(1) that])
  then have "unat (q_read_idx (hdr_of h k (hr_world r))) < q_words k \<and> unat (q_write_idx (hdr_of h k (hr_world r))) < q_words k
      \<and> length (queue h k (hr_world r)) < q_words k" if "k \<le> 2" for k
    using that queue_length by (simp add: hdr_ok_def)
  then show ?thesis using inv(2) inv(3) [of Q_MSG] inv(3) [of Q_DBG] by simp
qed

theorem hfi_queues_conserved_witness:
  "cmd_sent hfi_r3 = cmd_taken hfi_r3 @ [8, HFI_CMD_SYS_INIT] \<and> rsp_sent hfi_r3 Q_MSG = rsp_got hfi_r3 Q_MSG @ [12, 0x20001, 7]"
proof -
  have "g_hfi (hr_world hfi_r3) = Some hfi_h1" by (simp add: hfi_r3_def hfi_w3_ok)
  from hfi_queues_conserved [OF hfi_r3_reach this] show ?thesis by (simp add: hfi_r3_def hfi_w3_ok del: One_nat_def)
qed

text \<open>C18: A command is refused, and nothing changes, if its size is less than a word or if it does not leave a free
  word in the queue. Otherwise the words of the packet are put behind those in the queue, the other queues and
  all memory beside that of the command queue are as before, and the firmware is interrupted once.\<close>

theorem hfi_write_cmd_effect:
  assumes "reach hfi_start hfi_step r" "g_hfi (hr_world r) = Some h" "\<not> cmd_q_mutex (hr_world r)"
  shows "case hfi_write_cmd (Some p) (hr_world r) of
      None \<Rightarrow> False
    | Some (rc, w) \<Rightarrow>
        if p 0 < 4 then rc = - EINVAL \<and> w = hr_world r
        else if 1024 \<le> length (queue h Q_CMD (hr_world r)) + unat (drop_bit 2 (p 0)) then rc = - EIO \<and> w = hr_world r
        else rc = 0 \<and> queue h Q_CMD w = queue h Q_CMD (hr_world r) @ map p [0..<unat (drop_bit 2 (p 0))]
          \<and> queue h Q_MSG w = queue h Q_MSG (hr_world r) \<and> queue h Q_DBG w = queue h Q_DBG (hr_world r)
          \<and> (\<forall>b. b \<noteq> q_base h Q_CMD \<longrightarrow> words_at w b = words_at (hr_world r) b)
          \<and> (\<forall>i. 1024 \<le> i \<longrightarrow> words_at w (q_base h Q_CMD) i = words_at (hr_world r) (q_base h Q_CMD) i)
          \<and> reg_trace w = reg_trace (hr_world r) @ [Reg_write (csr_base h) HFI_REG_A5_CSR_HOST2ICPINT INTR_ENABLE]"
proof -
  have ok: "info_ok h (hr_world r)"
    using hfi_sys.reach_inv [OF assms(1)] by (simp add: hfi_inv_some [OF assms(2)])
  define s where "s = unat (drop_bit 2 (p 0))"
  have s0: "p 0 < 4 \<longleftrightarrow> s = 0" by (simp add: s_def drop_bit_eq_div unat_div_distrib word_less_nat_alt div_eq_0_iff)
  note form = write_cmd_put [OF ok assms(2,3), of p, folded s_def, unfolded Let_def]
  show ?thesis
  proof (cases "s = 0 \<or> 1024 \<le> length (queue h Q_CMD (hr_world r)) + s")
    case True
    then show ?thesis by (auto simp: form s0 s_def [symmetric])
  next
    case False
    then have room: "length (queue h Q_CMD (hr_world r)) + s < q_words Q_CMD" by (simp add: q_words_def)
    note put = put_queue_ok [OF ok _ room, where p = p]
    have "s < 1024" "unat (q_write_idx (hdr_of h Q_CMD (hr_world r))) < 1024"
      using room info_okD [OF ok, of Q_CMD] by (simp_all add: q_words_def hdr_ok_def)
    then have "put_words 1024 (unat (q_write_idx (hdr_of h Q_CMD (hr_world r)))) s p m i = m i" if "1024 \<le> i" for m i
      using that by (intro put_words_out) auto
    then have out: "words_at (put_queue h Q_CMD s p (hr_world r)) (q_base h Q_CMD) i = words_at (hr_world r) (q_base h Q_CMD) i" if "1024 \<le> i" for i
      using that by (simp add: put_queue_def Let_def q_words_def)
    have "words_at (put_queue h Q_CMD s p (hr_world r)) b = words_at (hr_world r) b" if "b \<noteq> q_base h Q_CMD" for b
      using that by (simp add: put_queue_def Let_def)
    moreover have "reg_trace (put_queue h Q_CMD s p (hr_world r)) = reg_trace (hr_world r)" by (simp add: put_queue_def Let_def)
    ultimately show ?thesis using False put out by (simp add: form s0 s_def [symmetric])
  qed
qed

theorem hfi_write_cmd_effect_witness:
  "case hfi_write_cmd (Some (pkt_of [8, HFI_CMD_SYS_PC_PREP])) hfi_w2 of
     None \<Rightarrow> False
   | Some (rc, w) \<Rightarrow> rc = 0 \<and> queue hfi_h1 Q_CMD w = [8, HFI_CMD_SYS_INIT, 8, HFI_CMD_SYS_PC_PREP]"
proof -
  have "g_hfi (hr_world hfi_r2) = Some hfi_h1" "\<not> cmd_q_mutex (hr_world hfi_r2)" by (simp_all add: hfi_r2_def hfi_w2_ok)
  from hfi_write_cmd_effect [OF hfi_r2_reach this, of "pkt_of [8, HFI_CMD_SYS_PC_PREP]"]
  show ?thesis by (auto simp: hfi_r2_def hfi_w2_ok pkt_of_def upt_rec split: option.splits prod.splits)
qed

section \<open>The loops over packets\<close>

text \<open>C20: When the firmware raised an interrupt, the loop over the debug messages ends exactly if the words in the
  debug queue are packets that follow each other by their sizes, none of them smaller than a word. With a
  packet of a smaller size the task never returns.\<close>

theorem hfi_debug_loop_ends:
  assumes "reach hfi_start hfi_step r" "g_hfi (hr_world r) = Some h" "\<not> msg_q_mutex (hr_world r)" "icp_hfi s = hr_world r"
  shows "cam_icp_mgr_process_dbg_buf s \<noteq> None \<longleftrightarrow> packets_ok (queue h Q_DBG (hr_world r))"
proof -
  have ok: "info_ok h (hr_world r)"
    using hfi_sys.reach_inv [OF assms(1)] by (simp add: hfi_inv_some [OF assms(2)])
  let ?n = "length (queue h Q_DBG (hr_world r))"
  obtain e where e: "hfi_read_message (Some (dbg_buf s)) Q_DBG (hr_world r) = Some (
      if queue h Q_DBG (hr_world r) = [] then ((- EIO, Some (dbg_buf s), None), hr_world r)
      else ((0, Some e, Some (of_nat ?n)), take_queue h Q_DBG ?n (hr_world r)))" "map e [0..<?n] = queue h Q_DBG (hr_world r)"
    using read_message_take [OF ok assms(2,3), of Q_DBG "dbg_buf s"] by blast
  show ?thesis
  proof (cases "queue h Q_DBG (hr_world r) = []")
    case True
    then show ?thesis by (simp add: cam_icp_mgr_process_dbg_buf_def assms(4) e(1) Let_def)
  next
    case False
    have "?n < 2 ^ 30" using queue_length [OF info_okD [OF ok, of Q_DBG]] by (simp add: q_words_def)
    from dbg_loop_iff [OF this, of 0 e] False e(2)
    have "dbg_loop e (of_nat ?n) 0 0 [] \<noteq> None \<longleftrightarrow> packets_ok (queue h Q_DBG (hr_world r))" by simp
    then show ?thesis using False by (simp add: cam_icp_mgr_process_dbg_buf_def assms(4) e(1) Let_def)
  qed
qed

theorem hfi_debug_loop_ends_witness:
  "cam_icp_mgr_process_dbg_buf (icp_run (hr_world (hfi_dbg_run [8, 5]))) \<noteq> None
    \<and> cam_icp_mgr_process_dbg_buf (icp_run (hr_world (hfi_dbg_run [0, 5]))) = None"
proof -
  have ends: "cam_icp_mgr_process_dbg_buf (icp_run (hr_world (hfi_dbg_run ws))) \<noteq> None \<longleftrightarrow> packets_ok ws" if "length ws = 2" for ws
    using hfi_debug_loop_ends [OF hfi_dbg_run_ok(1,2,3) icp_run_sel] hfi_dbg_run_ok(4) [OF that] by simp
  show ?thesis using ends [of "[8, 5]"] ends [of "[0, 5]"] by simp
qed

text \<open>C19: If the words in the message queue are packets of the sizes the loop expects, and all of them fit into the
  buffer of 256 words, the task handles every packet once, in the order in which the firmware sent them, then
  the debug queue, and a watchdog interrupt starts a recovery after that. The queue is empty then.\<close>

theorem hfi_messages_once:
  assumes "reach hfi_start hfi_step r" "g_hfi (hr_world r) = Some h" "\<not> msg_q_mutex (hr_world r)" "icp_hfi s = hr_world r"
    and ps: "queue h Q_MSG (hr_world r) = concat ps" "ps \<noteq> []" "list_all msg_ok ps" "length (concat ps) \<le> ICP_MSG_BUF_SIZE"
  shows "\<exists>w e. cam_icp_mgr_process_msg ack irq s
      = Option.bind (msg_fold ack 0 ps (s\<lparr>icp_hfi := w, msg_buf := e\<rparr>)) (\<lambda>s1.
          map_option (\<lambda>s2. if irq AND 6 \<noteq> 0 then cam_icp_mgr_trigger_recovery s2 else (0, s2)) (cam_icp_mgr_process_dbg_buf s1))
    \<and> map e [0..<length (concat ps)] = concat ps \<and> (\<forall>i\<ge>length (concat ps). e i = msg_buf s i)
    \<and> queue h Q_MSG w = [] \<and> queue h Q_DBG w = queue h Q_DBG (hr_world r) \<and> queue h Q_CMD w = queue h Q_CMD (hr_world r)"
proof -
  have ok: "info_ok h (hr_world r)"
    using hfi_sys.reach_inv [OF assms(1)] by (simp add: hfi_inv_some [OF assms(2)])
  let ?n = "length (concat ps)"
  define w where "w = take_queue h Q_MSG ?n (hr_world r)"
  have ne: "concat ps \<noteq> []" using ps(2,3) by (cases ps) (auto simp: msg_ok_def)
  obtain e where "hfi_read_message (Some (msg_buf s)) Q_MSG (hr_world r) = Some (
      if concat ps = [] then ((- EIO, Some (msg_buf s), None), hr_world r) else ((0, Some e, Some (of_nat ?n)), w))"
    and e: "map e [0..<?n] = concat ps" "\<forall>i\<ge>?n. e i = msg_buf s i"
    using read_message_take [OF ok assms(2,3), of Q_MSG "msg_buf s"] unfolding w_def ps(1) by blast
  then have read: "hfi_read_message (Some (msg_buf s)) Q_MSG (icp_hfi s) = Some ((0, Some e, Some (of_nat ?n)), w)"
    using ne by (simp add: assms(4))
  have sz: "push_bit 2 (of_nat ?n :: u32) = of_nat (4 * ?n)" by (simp add: push_bit_eq_mult)
  have "e i = concat ps ! i" if "i < ?n" for i using e(1) that by (metis add_0 length_map map_nth nth_map nth_upt)
  then have loop: "msg_loop ack 0 (of_nat (4 * ?n)) (s\<lparr>icp_hfi := w, msg_buf := e\<rparr>)
      = map_option (Pair 0) (msg_fold ack 0 ps (s\<lparr>icp_hfi := w, msg_buf := e\<rparr>))"
    using ps(4) by (intro msg_loop_fold [OF ps(2,3)]) simp_all
  have irq: "irq AND 2 \<noteq> 0 \<or> irq AND 4 \<noteq> 0 \<longleftrightarrow> irq AND 6 \<noteq> (0 :: u32)" by (rule two_bits)
  have "cam_icp_mgr_process_msg ack irq s = Option.bind (msg_fold ack 0 ps (s\<lparr>icp_hfi := w, msg_buf := e\<rparr>)) (\<lambda>s1.
      map_option (\<lambda>s2. if irq AND 6 \<noteq> 0 then cam_icp_mgr_trigger_recovery s2 else (0, s2)) (cam_icp_mgr_process_dbg_buf s1))"
    unfolding cam_icp_mgr_process_msg_def read Let_def irq bind.bind_lunit prod.case option.sel sz loop
    by (cases "msg_fold ack 0 ps (s\<lparr>icp_hfi := w, msg_buf := e\<rparr>)") (simp_all add: loop)
  moreover have "queue h Q_MSG w = []" "\<And>j. j \<noteq> Q_MSG \<Longrightarrow> queue h j w = queue h j (hr_world r)"
    using take_queue_ok [OF ok, of Q_MSG ?n, unfolded ps(1)] by (simp_all add: w_def del: One_nat_def)
  then have "queue h Q_MSG w = [] \<and> queue h Q_DBG w = queue h Q_DBG (hr_world r) \<and> queue h Q_CMD w = queue h Q_CMD (hr_world r)" by simp
  ultimately show ?thesis using e by blast
qed

theorem hfi_messages_once_witness:
  "\<exists>w e. cam_icp_mgr_process_msg (\<lambda>_ _ _ c. (0, c)) 0 (icp_run hfi_w3)
      = map_option (Pair 0) (cam_icp_mgr_process_dbg_buf ((icp_run hfi_w3)\<lparr>icp_hfi := w, msg_buf := e, a5_complete := 1\<rparr>))
    \<and> map e [0..<3] = [12, HFI_MSG_SYS_INIT_DONE, 7] \<and> queue hfi_h1 Q_MSG w = []"
proof -
  have pre: "g_hfi (hr_world hfi_r3) = Some hfi_h1" "\<not> msg_q_mutex (hr_world hfi_r3)" "icp_hfi (icp_run hfi_w3) = hr_world hfi_r3"
      "queue hfi_h1 Q_MSG (hr_world hfi_r3) = concat [[12, HFI_MSG_SYS_INIT_DONE, 7]]" "list_all msg_ok [[12, HFI_MSG_SYS_INIT_DONE, 7]]"
    by (simp_all add: hfi_r3_def hfi_w3_ok msg_ok_def del: One_nat_def)
  obtain w e where m: "cam_icp_mgr_process_msg (\<lambda>_ _ _ c. (0, c)) 0 (icp_run hfi_w3)
      = Option.bind (msg_fold (\<lambda>_ _ _ c. (0, c)) 0 [[12, HFI_MSG_SYS_INIT_DONE, 7]] ((icp_run hfi_w3)\<lparr>icp_hfi := w, msg_buf := e\<rparr>)) (\<lambda>s1.
          map_option (\<lambda>s2. (0, s2)) (cam_icp_mgr_process_dbg_buf s1))"
    and e: "map e [0..<3] = [12, HFI_MSG_SYS_INIT_DONE, 7]" and q: "queue hfi_h1 Q_MSG w = []"
    using hfi_messages_once [OF hfi_r3_reach pre(1-4) _ pre(5), of "\<lambda>_ _ _ c. (0, c)" 0] by (auto simp: eval_nat_numeral)
  have "e 1 = HFI_MSG_SYS_INIT_DONE" using e by (simp add: upt_rec)
  then have "msg_fold (\<lambda>_ _ _ c. (0, c)) 0 [[12, HFI_MSG_SYS_INIT_DONE, 7]] ((icp_run hfi_w3)\<lparr>icp_hfi := w, msg_buf := e\<rparr>)
      = Some ((icp_run hfi_w3)\<lparr>icp_hfi := w, msg_buf := e, a5_complete := 1\<rparr>)"
    by (simp add: cam_icp_process_msg_pkt_type_def icp_run_def)
  then show ?thesis using m e q by (intro exI [of _ w] exI [of _ e]) (simp add: eval_nat_numeral)
qed

end
